(* ===== verification/Prelude.thy ===== *)
theory Prelude
  imports Main "HOL-Library.AList" "HOL-Library.Monad_Syntax" "HOL-Library.Word"
begin

text \<open>
  What the theories of the development share: the time and identifier types, the text functions
  of Python that the handlers use (stripping, splitting, joining, decimal numbers), and the tables of
  the database.  A table is the list of its rows in insertion order; a row is found, changed and
  removed through its key, as a SQLAlchemy session does with a primary key.  The laws of these
  operations are stated once, in the locale \<open>keyed_rows\<close>, and each table of the
  model interprets it.
\<close>

section \<open>Collections of simplification rules\<close>

named_theorems table_simps \<open>laws of the row operations on the tables\<close>
named_theorems state_defs \<open>definitions of the enumerations and their sets\<close>

section \<open>Types\<close>

type_synonym time = int  \<comment> \<open>a UTC instant in whole microseconds\<close>
type_synonym id = nat   \<comment> \<open>an integer primary key\<close>
type_synonym uuid = nat \<comment> \<open>a random identifier: a fresh number of the model\<close>

section \<open>Python text\<close>

definition is_space :: "char \<Rightarrow> bool" where
  "is_space c \<longleftrightarrow> (let n = (of_char c :: nat) in n = 32 \<or> (9 \<le> n \<and> n \<le> 13) \<or> (28 \<le> n \<and> n \<le> 31))"

definition strip :: "string \<Rightarrow> string" where
  "strip s = rev (dropWhile is_space (rev (dropWhile is_space s)))"

definition lower_char :: "char \<Rightarrow> char" where
  "lower_char c = (let n = (of_char c :: nat) in if 65 \<le> n \<and> n \<le> 90 then char_of (n + 32) else c)"

definition lower :: "string \<Rightarrow> string" where
  "lower s = map lower_char s"

fun split_on :: "char \<Rightarrow> string \<Rightarrow> string list" where
  "split_on c [] = [[]]"
| "split_on c (x # xs) =
     (if x = c then [] # split_on c xs
      else case split_on c xs of [] \<Rightarrow> [[x]] | w # ws \<Rightarrow> (x # w) # ws)"

fun join_with :: "string \<Rightarrow> string list \<Rightarrow> string" where
  "join_with sep [] = []"
| "join_with sep [x] = x"
| "join_with sep (x # xs) = x @ sep @ join_with sep xs"

text \<open>A text put together from its parts, as a formatted string is.\<close>

definition cat :: "string list \<Rightarrow> string" where
  "cat parts = concat parts"

definition starts_with :: "string \<Rightarrow> string \<Rightarrow> bool" where
  "starts_with p s \<longleftrightarrow> take (length p) s = p"

definition ends_with :: "string \<Rightarrow> string \<Rightarrow> bool" where
  "ends_with p s \<longleftrightarrow> starts_with (rev p) (rev s)"

fun contains_str :: "string \<Rightarrow> string \<Rightarrow> bool" where
  "contains_str p [] \<longleftrightarrow> p = []"
| "contains_str p (x # xs) \<longleftrightarrow> starts_with p (x # xs) \<or> contains_str p xs"

definition digit_char :: "nat \<Rightarrow> char" where
  "digit_char n = char_of (48 + n)"

fun show_nat :: "nat \<Rightarrow> string" where
  "show_nat n = (if n < 10 then [digit_char n] else show_nat (n div 10) @ [digit_char (n mod 10)])"

declare show_nat.simps [simp del]

definition show_int :: "int \<Rightarrow> string" where
  "show_int i = (if i < 0 then CHR ''-'' # show_nat (nat (- i)) else show_nat (nat i))"

fun parse_digits :: "nat \<Rightarrow> string \<Rightarrow> nat option" where
  "parse_digits acc [] = Some acc"
| "parse_digits acc (c # cs) =
     (let n = (of_char c :: nat) in
      if 48 \<le> n \<and> n \<le> 57 then parse_digits (10 * acc + (n - 48)) cs else None)"

text \<open>The decimal text of a number reads back as the number: row numbers and identifiers that a
  handler writes into a text (a JSON object key, a form field) come back unchanged.\<close>

lemma parse_digits_append:
  "parse_digits acc (xs @ ys) = Option.bind (parse_digits acc xs) (\<lambda>a. parse_digits a ys)"
  by (induction xs arbitrary: acc) (auto simp: Let_def)

lemma of_char_digit: "n < 10 \<Longrightarrow> (of_char (digit_char n) :: nat) = 48 + n"
  by (simp add: digit_char_def)

lemma parse_show_nat: "parse_digits 0 (show_nat n) = Some n"
proof (induction n rule: less_induct)
  case (less n)
  show ?case
  proof (cases "n < 10")
    case True
    then show ?thesis by (simp add: show_nat.simps [of n] of_char_digit)
  next
    case False
    then have "parse_digits 0 (show_nat (n div 10)) = Some (n div 10)"
      using less by simp
    then show ?thesis
      using False by (simp add: show_nat.simps [of n] parse_digits_append of_char_digit Let_def)
  qed
qed

lemma show_nat_inject [simp]: "show_nat m = show_nat n \<longleftrightarrow> m = n"
  using parse_show_nat by (metis option.inject)

section \<open>Rows of a table\<close>

definition rows_get :: "('r \<Rightarrow> 'k) \<Rightarrow> 'k \<Rightarrow> 'r list \<Rightarrow> 'r option" where
  "rows_get key k rs = find (\<lambda>r. key r = k) rs"

definition rows_upd :: "('r \<Rightarrow> 'k) \<Rightarrow> 'k \<Rightarrow> ('r \<Rightarrow> 'r) \<Rightarrow> 'r list \<Rightarrow> 'r list" where
  "rows_upd key k f rs = map (\<lambda>r. if key r = k then f r else r) rs"

definition rows_del :: "('r \<Rightarrow> 'k) \<Rightarrow> 'k \<Rightarrow> 'r list \<Rightarrow> 'r list" where
  "rows_del key k rs = filter (\<lambda>r. key r \<noteq> k) rs"

text \<open>The next integer key of a SQLite table without AUTOINCREMENT: one more than the largest
  key in use, so the key of a deleted last row is used again.\<close>

definition next_id :: "('r \<Rightarrow> nat) \<Rightarrow> 'r list \<Rightarrow> nat" where
  "next_id key rs = Suc (foldr (\<lambda>r m. max (key r) m) rs 0)"

lemma next_id_gt: "r \<in> set rs \<Longrightarrow> key r < next_id key rs"
  by (induction rs) (auto simp: next_id_def less_Suc_eq_le max_def)

lemma next_id_fresh: "rows_get key (next_id key rs) rs = None"
  using next_id_gt [of _ rs key] unfolding rows_get_def
  by (fastforce simp: find_None_iff)

lemma rows_get_key: "rows_get key k rs = Some r \<Longrightarrow> key r = k"
  unfolding rows_get_def by (auto simp: find_Some_iff)

lemma rows_get_mem: "rows_get key k rs = Some r \<Longrightarrow> r \<in> set rs"
  unfolding rows_get_def by (auto simp: find_Some_iff)

lemma length_filter_all:
  "length (filter P xs) = length xs \<longleftrightarrow> (\<forall>x \<in> set xs. P x)"
  by (metis filter_True length_filter_less less_irrefl)

lemma rows_get_Nil [simp]: "rows_get key k [] = None"
  by (simp add: rows_get_def)

lemma rows_get_Cons:
  "rows_get key k (r # rs) = (if key r = k then Some r else rows_get key k rs)"
  by (simp add: rows_get_def)

lemma rows_get_mem_iff:
  assumes "distinct (map key rs)"
  shows "rows_get key k rs = Some r \<longleftrightarrow> r \<in> set rs \<and> key r = k"
  using assms by (induction rs) (auto simp: rows_get_Cons)

lemma rows_get_append:
  "rows_get key k (rs @ ss) =
    (case rows_get key k rs of None \<Rightarrow> rows_get key k ss | Some r \<Rightarrow> Some r)"
  by (induction rs) (auto simp: rows_get_Cons split: option.splits)

lemma rows_get_upd:
  assumes "\<And>r. key (f r) = key r"
  shows "rows_get key j (rows_upd key k f rs) =
    (if j = k then map_option f (rows_get key k rs) else rows_get key j rs)"
  using assms by (induction rs) (auto simp: rows_upd_def rows_get_Cons)

lemma rows_get_del:
  "rows_get key j (rows_del key k rs) = (if j = k then None else rows_get key j rs)"
  by (induction rs) (auto simp: rows_del_def rows_get_Cons)

lemma map_key_upd:
  assumes "\<And>r. key (f r) = key r"
  shows "map key (rows_upd key k f rs) = map key rs"
  using assms by (simp add: rows_upd_def)

lemma image_key_upd:
  assumes "\<And>r. key (f r) = key r"
  shows "key ` set (rows_upd key k f rs) = key ` set rs"
  using map_key_upd [of key f k rs] assms by (metis set_map)

lemma rows_upd_keys_distinct:
  assumes "\<And>r. key (f r) = key r" "distinct (map key rs)"
  shows "distinct (map key (rows_upd key k f rs))"
  using assms by (simp add: map_key_upd)

lemma length_rows_upd [simp]: "length (rows_upd key k f rs) = length rs"
  by (simp add: rows_upd_def)

lemma set_rows_upd: "set (rows_upd key k f rs) = (\<lambda>r. if key r = k then f r else r) ` set rs"
  by (simp add: rows_upd_def)

lemma set_rows_del: "set (rows_del key k rs) = {r \<in> set rs. key r \<noteq> k}"
  by (auto simp: rows_del_def)

text \<open>A loop that changes the selected rows of a table one by one is one map over the table.\<close>

lemma fold_rows_upd:
  assumes key: "\<And>r. key (f r) = key r" and "distinct (map key xs)"
  shows "fold (\<lambda>x. rows_upd key (key x) f) xs rs =
    map (\<lambda>r. if key r \<in> key ` set xs then f r else r) rs"
  using assms(2)
proof (induction xs arbitrary: rs)
  case (Cons x xs)
  then have "fold (\<lambda>x. rows_upd key (key x) f) (x # xs) rs =
      map (\<lambda>r. if key r \<in> key ` set xs then f r else r) (rows_upd key (key x) f rs)" by simp
  also have "\<dots> = map (\<lambda>r. if key r \<in> key ` set (x # xs) then f r else r) rs"
    using Cons.prems key by (auto simp: rows_upd_def)
  finally show ?case .
qed simp

lemma fold_rows_upd_filter:
  assumes key: "\<And>r. key (f r) = key r" and "distinct (map key rs)"
  shows "fold (\<lambda>x. rows_upd key (key x) f) (filter P rs) rs = map (\<lambda>r. if P r then f r else r) rs"
proof -
  have "fold (\<lambda>x. rows_upd key (key x) f) (filter P rs) rs =
      map (\<lambda>r. if key r \<in> key ` set (filter P rs) then f r else r) rs"
    by (rule fold_rows_upd) (use assms in \<open>simp_all add: distinct_map_filter\<close>)
  also have "\<dots> = map (\<lambda>r. if P r then f r else r) rs"
  proof (rule map_cong [OF refl])
    fix r assume r: "r \<in> set rs"
    have "key r \<in> key ` set (filter P rs) \<longleftrightarrow> P r"
      using r assms(2) by (auto simp: distinct_map inj_on_def)
    then show "(if key r \<in> key ` set (filter P rs) then f r else r) = (if P r then f r else r)" by simp
  qed
  finally show ?thesis .
qed

text \<open>The contract of a keyed table inside a larger state: a row that is found has the key it was
  asked for, and a lookup after a change of one row sees the change on that row only.  The lemmas
  cover what the handlers do with it: a change of one row, and a loop that changes the rows of a
  list of keys one after the other.\<close>

locale keyed_rows =
  fixes get :: "'k \<Rightarrow> 's \<Rightarrow> 'r option"
    and upd :: "'k \<Rightarrow> ('r \<Rightarrow> 'r) \<Rightarrow> 's \<Rightarrow> 's"
    and key :: "'r \<Rightarrow> 'k"
  assumes get_key: "get k s = Some r \<Longrightarrow> key r = k"
    and get_upd: "(\<And>r. key (f r) = key r) \<Longrightarrow>
      get j (upd k f s) = (if j = k then map_option f (get k s) else get j s)"
begin

lemma get_upd_same:
  assumes "\<And>r. key (f r) = key r" "get k s = Some r"
  shows "get k (upd k f s) = Some (f r)"
  using assms by (simp add: get_upd)

lemma get_upd_other:
  assumes "\<And>r. key (f r) = key r" "j \<noteq> k"
  shows "get j (upd k f s) = get j s"
  using assms by (simp add: get_upd)

lemma get_upd_None_iff:
  assumes "\<And>r. key (f r) = key r"
  shows "get j (upd k f s) = None \<longleftrightarrow> get j s = None"
  using assms by (simp add: get_upd)

lemma get_fold_upd_notin:
  assumes "\<And>x r. key (f x r) = key r" "j \<notin> k ` set xs"
  shows "get j (fold (\<lambda>x. upd (k x) (f x)) xs s) = get j s"
  using assms(2)
proof (induction xs arbitrary: s)
  case (Cons x xs)
  then show ?case using assms(1) by (simp add: get_upd_other)
qed simp

lemma get_fold_upd:
  assumes "\<And>x r. key (f x r) = key r" "distinct (map k xs)" "x \<in> set xs"
  shows "get (k x) (fold (\<lambda>x. upd (k x) (f x)) xs s) = map_option (f x) (get (k x) s)"
  using assms(2,3)
proof (induction xs arbitrary: s)
  case (Cons y ys)
  show ?case
  proof (cases "x = y")
    case True
    then show ?thesis
      using Cons.prems assms(1) by (simp add: get_fold_upd_notin get_upd)
  next
    case False
    then have "x \<in> set ys" using Cons.prems by simp
    then have "k x \<in> k ` set ys" by (rule imageI)
    with \<open>x \<in> set ys\<close> have "x \<in> set ys" "k x \<noteq> k y" using Cons.prems(1) by force+
    then show ?thesis
      using Cons assms(1) by (simp add: get_upd_other)
  qed
qed simp

end

lemma keyed_rowsI:
  assumes "\<And>k s. get k s = rows_get key k (rows s)"
    and "\<And>k f s. rows (upd k f s) = rows_upd key k f (rows s)"
  shows "keyed_rows get upd key"
proof (unfold_locales)
  show "key r = k" if "get k s = Some r" for k s r
    using that assms(1) by (metis rows_get_key)
  show "get j (upd k f s) = (if j = k then map_option f (get k s) else get j s)"
    if "\<And>r. key (f r) = key r" for f j k s
    unfolding assms using that by (rule rows_get_upd)
qed

text \<open>The row operations on a list are the first instance; a table of the database is one
  through its lookup and its update.\<close>

interpretation rows: keyed_rows "rows_get key" "rows_upd key" key
  for key :: "'r \<Rightarrow> 'k"
  by (unfold_locales, erule rows_get_key, rule rows_get_upd)

end
