(* ===== verification/Lifecycle.thy ===== *)
theory Lifecycle
  imports Prelude
begin

text \<open>
  The lifecycle contract of \<open>src/na_sso/lifecycle.py\<close>: the persisted enumerations, the
  conflict decision \<open>decide_transition\<close> for a requested command, and the normalisation and
  presentation of the state of one account on one target.  Enumerations are datatypes; their
  stored text is the \<open>_value\<close> function and \<open>parse_\<close> is the constructor call
  of the enumeration class, \<open>None\<close> being its \<open>ValueError\<close>.  A parameter declared
  as an enumeration is typed by the datatype, one declared as text or enumeration is text.
\<close>

section \<open>Enumerations\<close>

datatype DesiredAction = ENSURE | DA_DELETE | LOCAL_ONLY

definition desired_action_value :: "DesiredAction \<Rightarrow> string" where
  "desired_action_value a = (case a of
     ENSURE \<Rightarrow> ''ensure'' | DA_DELETE \<Rightarrow> ''delete'' | LOCAL_ONLY \<Rightarrow> ''local_only'')"

definition parse_desired_action :: "string \<Rightarrow> DesiredAction option" where
  "parse_desired_action s =
    (if s = ''ensure'' then Some ENSURE else if s = ''delete'' then Some DA_DELETE
     else if s = ''local_only'' then Some LOCAL_ONLY else None)"

datatype SyncStateValue =
    NOT_ASSIGNED | PENDING | OK | FAILED | UNSUPPORTED | CHPW | AWAITING_CREDENTIALS
  | PENDING_DISABLE | PENDING_CHPW_DISABLE | PENDING_EXPIRY_DISABLE | UNASSIGNED | RETIRED
  | EXPIRED_DISABLED

definition sync_state_values :: "SyncStateValue list" where
  "sync_state_values = [NOT_ASSIGNED, PENDING, OK, FAILED, UNSUPPORTED, CHPW, AWAITING_CREDENTIALS,
     PENDING_DISABLE, PENDING_CHPW_DISABLE, PENDING_EXPIRY_DISABLE, UNASSIGNED, RETIRED,
     EXPIRED_DISABLED]"

definition sync_state_value :: "SyncStateValue \<Rightarrow> string" where
  "sync_state_value v = (case v of
     NOT_ASSIGNED \<Rightarrow> ''not_assigned''
   | PENDING \<Rightarrow> ''pending''
   | OK \<Rightarrow> ''ok''
   | FAILED \<Rightarrow> ''failed''
   | UNSUPPORTED \<Rightarrow> ''unsupported''
   | CHPW \<Rightarrow> ''chpw''
   | AWAITING_CREDENTIALS \<Rightarrow> ''awaiting_credentials''
   | PENDING_DISABLE \<Rightarrow> ''pending_disable''
   | PENDING_CHPW_DISABLE \<Rightarrow> ''pending_chpw_disable''
   | PENDING_EXPIRY_DISABLE \<Rightarrow> ''pending_expiry_disable''
   | UNASSIGNED \<Rightarrow> ''unassigned''
   | RETIRED \<Rightarrow> ''retired''
   | EXPIRED_DISABLED \<Rightarrow> ''expired_disabled'')"

definition parse_sync_state :: "string \<Rightarrow> SyncStateValue option" where
  "parse_sync_state s = find (\<lambda>v. sync_state_value v = s) sync_state_values"

datatype LifecycleCommand =
    CREATE | UPDATE | ENABLE | DISABLE | DELETE | RESTORE | PURGE | RETRY | EXPIRE
  | CREDENTIAL_HANDOFF | PASSWORD_CHANGE | RECONCILE | BULK | TARGET_PROBE

definition lifecycle_commands :: "LifecycleCommand list" where
  "lifecycle_commands = [CREATE, UPDATE, ENABLE, DISABLE, DELETE, RESTORE, PURGE, RETRY, EXPIRE,
     CREDENTIAL_HANDOFF, PASSWORD_CHANGE, RECONCILE, BULK, TARGET_PROBE]"

definition lifecycle_command_value :: "LifecycleCommand \<Rightarrow> string" where
  "lifecycle_command_value c = (case c of
     CREATE \<Rightarrow> ''create''
   | UPDATE \<Rightarrow> ''update''
   | ENABLE \<Rightarrow> ''enable''
   | DISABLE \<Rightarrow> ''disable''
   | DELETE \<Rightarrow> ''delete''
   | RESTORE \<Rightarrow> ''restore''
   | PURGE \<Rightarrow> ''purge''
   | RETRY \<Rightarrow> ''retry''
   | EXPIRE \<Rightarrow> ''expire''
   | CREDENTIAL_HANDOFF \<Rightarrow> ''credential_handoff''
   | PASSWORD_CHANGE \<Rightarrow> ''password_change''
   | RECONCILE \<Rightarrow> ''reconcile''
   | BULK \<Rightarrow> ''bulk''
   | TARGET_PROBE \<Rightarrow> ''target_probe'')"

definition parse_lifecycle_command :: "string \<Rightarrow> LifecycleCommand option" where
  "parse_lifecycle_command s = find (\<lambda>c. lifecycle_command_value c = s) lifecycle_commands"

datatype OperationStatus =
    QUEUED | RUNNING | SUCCEEDED | PARTIALLY_FAILED | OP_FAILED | CANCELLED | BLOCKED

definition operation_statuses :: "OperationStatus list" where
  "operation_statuses =
     [QUEUED, RUNNING, SUCCEEDED, PARTIALLY_FAILED, OP_FAILED, CANCELLED, BLOCKED]"

definition operation_status_value :: "OperationStatus \<Rightarrow> string" where
  "operation_status_value s = (case s of
     QUEUED \<Rightarrow> ''queued''
   | RUNNING \<Rightarrow> ''running''
   | SUCCEEDED \<Rightarrow> ''succeeded''
   | PARTIALLY_FAILED \<Rightarrow> ''partially_failed''
   | OP_FAILED \<Rightarrow> ''failed''
   | CANCELLED \<Rightarrow> ''cancelled''
   | BLOCKED \<Rightarrow> ''blocked'')"

definition parse_operation_status :: "string \<Rightarrow> OperationStatus option" where
  "parse_operation_status s = find (\<lambda>v. operation_status_value v = s) operation_statuses"

definition TERMINAL_OPERATION_STATUSES :: "OperationStatus set" where
  "TERMINAL_OPERATION_STATUSES = {SUCCEEDED, PARTIALLY_FAILED, OP_FAILED, CANCELLED, BLOCKED}"

definition terminal :: "OperationStatus \<Rightarrow> bool" where
  "terminal s \<longleftrightarrow> s \<in> TERMINAL_OPERATION_STATUSES"

datatype TransitionMode = START | REUSE | SUPERSEDE | REJECT

record TransitionDecision =
  td_mode :: TransitionMode
  td_reason :: string

definition allowed :: "TransitionDecision \<Rightarrow> bool" where
  "allowed t \<longleftrightarrow> td_mode t \<noteq> REJECT"

definition decision :: "TransitionMode \<Rightarrow> string \<Rightarrow> TransitionDecision" where
  "decision m r = \<lparr>td_mode = m, td_reason = r\<rparr>"

section \<open>The conflict decision\<close>

text \<open>An operation is active when there is one and its status is not terminal (the values of the
  enumerations are non-empty texts, so the truth tests are tests for \<open>None\<close>).\<close>

definition is_active :: "LifecycleCommand option \<Rightarrow> OperationStatus option \<Rightarrow> bool" where
  "is_active active_command active_status \<longleftrightarrow>
     active_command \<noteq> None \<and> (case active_status of None \<Rightarrow> False | Some s \<Rightarrow> \<not> terminal s)"

definition decide_transition ::
  "LifecycleCommand \<Rightarrow> LifecycleCommand option \<Rightarrow> OperationStatus option \<Rightarrow> bool
     \<Rightarrow> TransitionDecision" where
  "decide_transition requested active_command active_status delete_complete =
    (let active = is_active active_command active_status in
     if requested = PURGE then
       (if delete_complete then decision START ''remote deletion is complete''
        else decision REJECT ''purge requires completed remote deletion'')
     else if requested = RESTORE then
       (if active then decision REJECT ''restore waits for the active operation''
        else if delete_complete then decision START ''completed deletion can be restored''
        else decision REJECT ''restore requires completed remote deletion'')
     else if requested = DELETE then
       (if active_command = Some DELETE \<and> active then decision REUSE ''deletion is already running''
        else if active then decision SUPERSEDE ''deletion overrides the active operation''
        else decision START ''deletion may start from every lifecycle state'')
     else if requested = RETRY then
       (if active_command = None \<or> active_status = None
        then decision REJECT ''retry requires an existing operation''
        else if active_status \<notin> {Some OP_FAILED, Some PARTIALLY_FAILED}
        then decision REJECT ''retry requires a failed operation''
        else decision REUSE ''retry repairs the existing operation'')
     else if active then decision REJECT ''another lifecycle operation is running''
     else decision START ''no conflicting lifecycle operation'')"

section \<open>Presentation of a target state\<close>

record SyncPresentation =
  sp_label :: string
  sp_badge_class :: string
  sp_description :: string
  sp_retryable :: bool
  sp_terminal :: bool

definition presentation_of :: "string \<Rightarrow> string \<Rightarrow> string \<Rightarrow> bool \<Rightarrow> bool \<Rightarrow> SyncPresentation" where
  "presentation_of l b d r t =
     \<lparr>sp_label = l, sp_badge_class = b, sp_description = d, sp_retryable = r, sp_terminal = t\<rparr>"

definition PRESENTATIONS :: "SyncStateValue \<Rightarrow> SyncPresentation" where
  "PRESENTATIONS v = (case v of
     NOT_ASSIGNED \<Rightarrow> presentation_of ''Not assigned'' ''badge-planned''
       ''This target is not assigned to the account.'' False True
   | PENDING \<Rightarrow> presentation_of ''Pending'' ''badge-planned''
       ''The target operation is waiting to run.'' False False
   | OK \<Rightarrow> presentation_of ''OK'' ''badge-shipped''
       ''The target matches the requested account state.'' False True
   | FAILED \<Rightarrow> presentation_of ''Failed'' ''badge-danger''
       ''The latest target operation failed.'' True True
   | UNSUPPORTED \<Rightarrow> presentation_of ''Unsupported on target'' ''badge-danger''
       ''The target cannot perform the requested operation; automatic retry would not help.''
       False True
   | CHPW \<Rightarrow> presentation_of ''Password change required'' ''badge-planned''
       ''The account stays uncreated or disabled until the user replaces the temporary password.''
       False True
   | AWAITING_CREDENTIALS \<Rightarrow> presentation_of ''Waiting for verified password'' ''badge-planned''
       ''Sign-in or a password action must supply a verified password before this target can continue.''
       False True
   | PENDING_DISABLE \<Rightarrow> presentation_of ''Disabling'' ''badge-planned''
       ''The unassigned target account is being disabled.'' False False
   | PENDING_CHPW_DISABLE \<Rightarrow> presentation_of ''Disabling for password change'' ''badge-planned''
       ''The target account is being disabled until the user replaces the temporary password.''
       False False
   | PENDING_EXPIRY_DISABLE \<Rightarrow> presentation_of ''Disabling expired password'' ''badge-planned''
       ''The target account is being disabled until the password-expiry decision is complete.''
       False False
   | UNASSIGNED \<Rightarrow> presentation_of ''Unassigned; disabled'' ''badge-planned''
       ''The target is no longer assigned and its account is disabled.'' False True
   | RETIRED \<Rightarrow> presentation_of ''Retired target'' ''badge-planned''
       ''The configured target is no longer available.'' False True
   | EXPIRED_DISABLED \<Rightarrow> presentation_of ''Password expired; disabled'' ''badge-planned''
       ''The target account is disabled until the user completes the password-expiry decision.''
       False True)"

definition normalise_sync_state :: "string option \<Rightarrow> bool \<Rightarrow> bool \<Rightarrow> SyncStateValue" where
  "normalise_sync_state state assigned retired =
    (if retired then RETIRED
     else case state of
       None \<Rightarrow> NOT_ASSIGNED
     | Some s \<Rightarrow> (case parse_sync_state s of
           None \<Rightarrow> PENDING
         | Some v \<Rightarrow>
             (if \<not> assigned \<and> v \<notin> {NOT_ASSIGNED, PENDING_DISABLE, RETIRED, FAILED, UNSUPPORTED}
              then UNASSIGNED else v)))"

definition present_sync_state ::
  "string option \<Rightarrow> bool \<Rightarrow> bool \<Rightarrow> string \<Rightarrow> time option \<Rightarrow> SyncPresentation option" where
  "present_sync_state state assigned retired desired_action next_retry_at =
    (let v = normalise_sync_state state assigned retired; p = PRESENTATIONS v in
     if v = OK then
       (case parse_desired_action desired_action of
          None \<Rightarrow> None  \<comment> \<open>ValueError of the enumeration\<close>
        | Some DA_DELETE \<Rightarrow> Some (presentation_of ''Deleted'' ''badge-shipped''
            ''The account was removed from this target.'' False True)
        | Some _ \<Rightarrow> Some p)
     else if v = FAILED \<and> next_retry_at \<noteq> None then
       Some (presentation_of ''Retrying'' (sp_badge_class p)
         ''The latest target operation failed and automatic retry is scheduled.'' True False)
     else Some p)"

record SyncStatePayload =
  pl_state :: string
  pl_assigned :: bool
  pl_retired :: bool
  pl_detail :: string
  pl_attempt_count :: nat
  pl_next_retry_at :: "time option"
  pl_operation_id :: "uuid option"
  pl_presentation :: SyncPresentation

definition sync_state_payload ::
  "string option \<Rightarrow> bool \<Rightarrow> bool \<Rightarrow> string \<Rightarrow> string \<Rightarrow> nat \<Rightarrow> time option \<Rightarrow> uuid option
     \<Rightarrow> SyncStatePayload option" where
  "sync_state_payload state assigned retired desired_action detail attempt_count next_retry_at
     operation_id =
    (let v = normalise_sync_state state assigned retired in
     map_option (\<lambda>p.
       \<lparr>pl_state = sync_state_value v, pl_assigned = assigned, pl_retired = retired,
        pl_detail = detail, pl_attempt_count = attempt_count, pl_next_retry_at = next_retry_at,
        pl_operation_id = operation_id, pl_presentation = p\<rparr>)
      (present_sync_state (Some (sync_state_value v)) assigned retired desired_action next_retry_at))"

definition sync_state_is_terminal :: "string option \<Rightarrow> DesiredAction \<Rightarrow> bool \<Rightarrow> bool \<Rightarrow> bool" where
  "sync_state_is_terminal state operation assigned retired =
    (let v = normalise_sync_state state assigned retired in
     if operation = DA_DELETE then v \<in> {OK, RETIRED, NOT_ASSIGNED}
     else sp_terminal (PRESENTATIONS v))"

section \<open>Facts the components use\<close>

lemma parse_sync_state_value [simp]: "parse_sync_state (sync_state_value v) = Some v"
  by (cases v) (simp_all add: parse_sync_state_def sync_state_values_def sync_state_value_def)

lemma parse_desired_action_value [simp]: "parse_desired_action (desired_action_value a) = Some a"
  by (cases a) (simp_all add: parse_desired_action_def desired_action_value_def)

lemma parse_lifecycle_command_value [simp]: "parse_lifecycle_command (lifecycle_command_value c) = Some c"
  by (cases c)
    (simp_all add: parse_lifecycle_command_def lifecycle_commands_def lifecycle_command_value_def)

lemma parse_operation_status_value [simp]: "parse_operation_status (operation_status_value s) = Some s"
  by (cases s)
    (simp_all add: parse_operation_status_def operation_statuses_def operation_status_value_def)

lemma parse_sync_state_Some: "parse_sync_state s = Some v \<Longrightarrow> s = sync_state_value v"
  by (auto simp: parse_sync_state_def find_Some_iff)

text \<open>For a deletion a persisted state is terminal when its target is retired, when it was never
  assigned, or when the target is assigned and the removal succeeded.\<close>

lemma delete_terminal_iff:
  "sync_state_is_terminal (Some (sync_state_value v)) DA_DELETE assigned retired \<longleftrightarrow>
     retired \<or> v \<in> {RETIRED, NOT_ASSIGNED} \<or> (assigned \<and> v = OK)"
  by (cases v) (auto simp: sync_state_is_terminal_def normalise_sync_state_def Let_def)

section \<open>Properties\<close>

text \<open>The conflict rules.  While an operation is unfinished a request is allowed only when it
  deletes, or purges an account whose remote deletion is complete; a second deletion reuses the first and any other
  unfinished operation is superseded by it; restore and purge start only after a completed deletion.\<close>

theorem conflict_rules:
  "\<not> terminal s \<Longrightarrow>
     (allowed (decide_transition c (Some a) (Some s) deleted) \<longleftrightarrow> c = DELETE \<or> (c = PURGE \<and> deleted)) \<and>
     td_mode (decide_transition DELETE (Some a) (Some s) deleted) = (if a = DELETE then REUSE else SUPERSEDE) \<and>
     (\<forall>active status. allowed (decide_transition RESTORE active status deleted) \<longrightarrow> deleted) \<and>
     (\<forall>active status. allowed (decide_transition PURGE active status deleted) \<longleftrightarrow> deleted)"
  by (auto simp: decide_transition_def decision_def allowed_def is_active_def Let_def terminal_def
      TERMINAL_OPERATION_STATUSES_def)

theorem conflict_rules_witness:
  "\<not> allowed (decide_transition UPDATE (Some EXPIRE) (Some RUNNING) False) \<and>
   td_mode (decide_transition DELETE (Some EXPIRE) (Some RUNNING) False) = SUPERSEDE"
proof -
  have "\<not> terminal RUNNING" by (simp add: terminal_def TERMINAL_OPERATION_STATUSES_def)
  from conflict_rules [OF this, of UPDATE EXPIRE False] show ?thesis by simp
qed

text \<open>A payload shows one state.  For a state text that names a state, or an assigned or a
  retired target, the state that a payload reports and the presentation beside it are those of the same
  normalised state, although the code normalises twice; and a failure of an
  unassigned target is never shown as a completed disable.\<close>

theorem payload_shows_one_state:
  assumes "assigned \<or> retired \<or> state = None \<or> parse_sync_state (the state) \<noteq> None"
  shows "sync_state_payload state assigned retired desired detail n retry_at operation_id =
      map_option (\<lambda>p. \<lparr>pl_state = sync_state_value (normalise_sync_state state assigned retired),
        pl_assigned = assigned, pl_retired = retired, pl_detail = detail, pl_attempt_count = n,
        pl_next_retry_at = retry_at, pl_operation_id = operation_id, pl_presentation = p\<rparr>)
       (present_sync_state state assigned retired desired retry_at) \<and>
    (\<not> retired \<longrightarrow> (normalise_sync_state state assigned retired = FAILED
       \<longleftrightarrow> Option.bind state parse_sync_state = Some FAILED))"
proof -
  have "normalise_sync_state (Some (sync_state_value (normalise_sync_state state assigned retired)))
      assigned retired = normalise_sync_state state assigned retired"
    using assms by (auto simp: normalise_sync_state_def split: option.splits)
  then show ?thesis
    using assms by (auto simp: sync_state_payload_def present_sync_state_def normalise_sync_state_def
        Let_def split: option.splits)
qed

theorem payload_shows_one_state_witness:
  "map_option pl_state (sync_state_payload (Some ''ok'') False False ''ensure'' [] 0 None None) =
     Some ''unassigned''"
proof -
  have ok: "parse_sync_state ''ok'' = Some OK"
    by (simp add: parse_sync_state_def sync_state_values_def sync_state_value_def)
  then have "False \<or> False \<or> Some ''ok'' = None \<or> parse_sync_state (the (Some ''ok'')) \<noteq> None" by simp
  from payload_shows_one_state [OF this, of "''ensure''" "[]" 0 None None] show ?thesis
    by (simp add: present_sync_state_def normalise_sync_state_def ok sync_state_value_def Let_def)
qed

text \<open>For a stored state text that names no state, an unassigned target shows two states at once: the
  payload reports \<open>pending\<close>, and beside it the presentation of a completed disable.\<close>

theorem unknown_state_shows_two_states:
  "parse_sync_state text = None \<Longrightarrow>
     map_option (\<lambda>p. (pl_state p, sp_label (pl_presentation p), sp_terminal (pl_presentation p)))
       (sync_state_payload (Some text) False False desired detail n retry_at operation_id) =
     Some (''pending'', ''Unassigned; disabled'', True)"
  by (simp add: sync_state_payload_def present_sync_state_def normalise_sync_state_def Let_def
      sync_state_value_def parse_sync_state_def sync_state_values_def PRESENTATIONS_def
      presentation_of_def)

theorem unknown_state_shows_two_states_witness:
  "map_option pl_state (sync_state_payload (Some ''broken'') False False ''ensure'' [] 0 None None) =
     Some ''pending''"
proof -
  have "parse_sync_state ''broken'' = None"
    by (simp add: parse_sync_state_def sync_state_values_def sync_state_value_def)
  from unknown_state_shows_two_states [OF this, of "''ensure''" "[]" 0 None None]
  show ?thesis by (auto simp: map_option_eq_Some)
qed

end
