(* ===== verification/Permissions.thy ===== *)
theory Permissions
  imports Prelude
begin

text \<open>
  The roles and permissions of \<open>src/na_sso/permissions.py\<close>.  A role is stored as text; an
  unknown text has the permissions of a managed user, and the historical text \<open>admin\<close> those
  of a user operator.
\<close>

datatype permission = MANAGE_USERS | MANAGE_TARGETS | VIEW_AUDIT | MANAGE_SECURITY

record RoleDefinition =
  rd_value :: string
  rd_label :: string
  rd_description :: string
  rd_permissions :: "permission list"

definition ROLE_DEFINITIONS :: "(string \<times> RoleDefinition) list" where
  "ROLE_DEFINITIONS = [
    (''user'', \<lparr>rd_value = ''user'', rd_label = ''Managed user'',
       rd_description = ''Can manage only their own password and SSH key.'',
       rd_permissions = []\<rparr>),
    (''user_operator'', \<lparr>rd_value = ''user_operator'', rd_label = ''User operator'',
       rd_description = ''Can create and manage ordinary users, assignments, and lifecycle actions.'',
       rd_permissions = [MANAGE_USERS]\<rparr>),
    (''target_operator'', \<lparr>rd_value = ''target_operator'', rd_label = ''Target operator'',
       rd_description = ''Can configure target credentials, test connections, and view target health.'',
       rd_permissions = [MANAGE_TARGETS]\<rparr>),
    (''auditor'', \<lparr>rd_value = ''auditor'', rd_label = ''Auditor'',
       rd_description = ''Can investigate and export the audit record without changing users or targets.'',
       rd_permissions = [VIEW_AUDIT]\<rparr>),
    (''root'', \<lparr>rd_value = ''root'', rd_label = ''Root security administrator'',
       rd_description = ''Protected recovery administrator with all capabilities and role assignment.'',
       rd_permissions = [MANAGE_USERS, MANAGE_TARGETS, VIEW_AUDIT, MANAGE_SECURITY]\<rparr>)]"

definition user_role_definition :: RoleDefinition where
  "user_role_definition = snd (hd ROLE_DEFINITIONS)"

definition ASSIGNABLE_ROLES :: "string list" where
  "ASSIGNABLE_ROLES = [''user'', ''user_operator'', ''target_operator'', ''auditor'']"

definition normalise_role :: "string \<Rightarrow> string" where
  "normalise_role role = (if role = ''admin'' then ''user_operator'' else role)"

definition role_definition :: "string \<Rightarrow> RoleDefinition" where
  "role_definition role =
    (case map_of ROLE_DEFINITIONS (normalise_role role) of
       Some r \<Rightarrow> r | None \<Rightarrow> user_role_definition)"

definition has_permission :: "string \<Rightarrow> permission \<Rightarrow> bool" where
  "has_permission role p \<longleftrightarrow> p \<in> set (rd_permissions (role_definition role))"

record PermissionContext =
  pc_users :: bool
  pc_targets :: bool
  pc_audit :: bool
  pc_roles :: bool

definition permission_context :: "string \<Rightarrow> PermissionContext" where
  "permission_context role =
    \<lparr>pc_users = has_permission role MANAGE_USERS, pc_targets = has_permission role MANAGE_TARGETS,
     pc_audit = has_permission role VIEW_AUDIT, pc_roles = has_permission role MANAGE_SECURITY\<rparr>"

definition default_home :: "string \<Rightarrow> string" where
  "default_home role =
    (if \<exists>p \<in> set [MANAGE_USERS, MANAGE_TARGETS, VIEW_AUDIT]. has_permission role p
     then ''/dashboard'' else ''/account'')"

text \<open>Which permission a role gives, role by role.\<close>

lemma role_permissions:
  "rd_permissions (role_definition role) =
    (if role = ''root'' then [MANAGE_USERS, MANAGE_TARGETS, VIEW_AUDIT, MANAGE_SECURITY]
     else if role = ''user_operator'' \<or> role = ''admin'' then [MANAGE_USERS]
     else if role = ''target_operator'' then [MANAGE_TARGETS]
     else if role = ''auditor'' then [VIEW_AUDIT] else [])"
  by (auto simp: role_definition_def normalise_role_def ROLE_DEFINITIONS_def user_role_definition_def)

lemma has_permission_iff:
  "has_permission role p \<longleftrightarrow>
     role = ''root'' \<or> (p = MANAGE_USERS \<and> role \<in> {''user_operator'', ''admin''}) \<or>
     (p = MANAGE_TARGETS \<and> role = ''target_operator'') \<or> (p = VIEW_AUDIT \<and> role = ''auditor'')"
  by (cases p) (auto simp: has_permission_def role_permissions)

lemma manage_security_root [simp]: "has_permission role MANAGE_SECURITY \<longleftrightarrow> role = ''root''"
  by (simp add: has_permission_iff)

end
