(* ===== verification/Models.thy ===== *)
theory Models
  imports Lifecycle Permissions
begin

text \<open>
  The rows of the database, \<open>src/na_sso/models.py\<close>: one record per mapped class, its
  fields in the order of the class with a prefix per class, and the properties of
  \<open>ManagedUser\<close>.  A column that holds a value of an enumeration is typed by it; a column
  that holds the JSON text of a list of texts is the list, or the fact that the text is no list.
  Identifiers drawn by \<open>uuid4\<close> are numbers.  The column \<open>updated_at\<close>, which the
  program only displays, is left out.
\<close>

section \<open>Column types\<close>

datatype UserStatus = US_ACTIVE | US_DISABLED
datatype PasswordDecisionKind = PD_NONE | PD_INITIAL | PD_RESET | PD_EXPIRED
datatype json_text = JsonList "string list" | NotAList

definition second :: time where "second = 1000000"
definition day :: time where "day = 86400 * second"

section \<open>Users and what belongs to them\<close>

record ManagedUser =
  u_id :: id
  u_username :: string
  u_display_name :: string
  u_email :: string
  u_password_hash :: "string option"
  u_role :: string
  u_password_decision_required :: bool
  u_password_decision_kind :: PasswordDecisionKind
  u_password_changed_at :: "time option"
  u_last_authenticated_at :: "time option"
  u_password_keep_until :: "time option"
  u_password_keep_count :: nat
  u_session_version :: nat
  u_ssh_public_key :: "string option"
  u_status :: UserStatus
  u_desired_action :: DesiredAction
  u_active_operation_id :: "uuid option"
  u_deletion_requested_at :: "time option"
  u_deleted_at :: "time option"
  u_pending_secret :: "string option"
  u_created_at :: time

record PasswordHistory =
  ph_id :: id
  ph_user_id :: id
  ph_password_hash :: string
  ph_created_at :: time

record UserSshKey =
  k_id :: uuid
  k_user_id :: id
  k_name :: string
  k_public_key :: string
  k_fingerprint :: string
  k_algorithm :: string
  k_enrolled_at :: time
  k_expires_at :: "time option"
  k_revoked_at :: "time option"
  k_revoked_by :: "string option"
  k_replaced_by_id :: "uuid option"

record SyncState =
  ss_id :: id
  ss_user_id :: id
  ss_target :: string
  ss_target_type :: "string option"
  ss_assigned :: bool
  ss_retired :: bool
  ss_state :: SyncStateValue
  ss_detail :: string
  ss_attempt_count :: nat
  ss_next_retry_at :: "time option"
  ss_operation_id :: "uuid option"

section \<open>Operations\<close>

record LifecycleOperation =
  op_id :: uuid
  op_user_id :: "id option"
  op_command :: LifecycleCommand
  op_status :: OperationStatus
  op_actor :: string
  op_subject :: string
  op_requested_target :: "string option"
  op_supersedes_id :: "uuid option"
  op_parent_id :: "uuid option"
  op_total_targets :: nat
  op_completed_targets :: nat
  op_failed_targets :: nat
  op_detail :: string
  op_started_at :: "time option"
  op_completed_at :: "time option"
  op_created_at :: time

record OperationTargetAttempt =
  ta_id :: id
  ta_operation_id :: uuid
  ta_target :: string
  ta_target_type :: "string option"
  ta_attempt_number :: nat
  ta_status :: OperationStatus
  ta_result_state :: SyncStateValue
  ta_detail :: string
  ta_started_at :: time
  ta_completed_at :: "time option"

record AuditEvent =
  ae_id :: id
  ae_at :: time
  ae_actor :: string
  ae_action :: string
  ae_subject :: string
  ae_detail :: string
  ae_operation_id :: "uuid option"

section \<open>Notifications\<close>

datatype DeliveryStatus = D_PENDING | D_RETRYING | D_DELIVERED | D_FAILED | D_DISABLED

record WebhookEndpointState =
  we_id :: id
  we_endpoint_id :: string
  we_disabled :: bool
  we_updated_by :: string

text \<open>The payload of a delivery is the JSON text of these fields (webhook) or of a body and a
  subject (e-mail).\<close>

datatype Payload =
    WebhookPayload uuid uuid string time string string "uuid option" "string option" "string option"
  | EmailPayload string string

datatype channel = CH_WEBHOOK | CH_EMAIL

record WebhookDelivery =
  wd_id :: uuid
  wd_endpoint_id :: string
  wd_channel :: channel
  wd_recipient :: "string option"
  wd_event_type :: string
  wd_dedupe_key :: string
  wd_payload :: Payload
  wd_status :: DeliveryStatus
  wd_attempt_count :: nat
  wd_next_attempt_at :: "time option"
  wd_last_error :: string
  wd_created_at :: time
  wd_delivered_at :: "time option"

section \<open>Target credentials\<close>

record TargetCredential =
  tc_id :: id
  tc_target_id :: string
  tc_encrypted_payload :: string
  tc_auth_mode :: string
  tc_revision :: nat
  tc_verified_at :: "time option"
  tc_probe_detail :: string
  tc_last_checked_at :: "time option"
  tc_last_success_at :: "time option"
  tc_last_probe_ok :: "bool option"
  tc_probe_failure_kind :: string
  tc_probe_attempt_count :: nat
  tc_next_probe_at :: "time option"

section \<open>Assignment profiles\<close>

record AssignmentProfile =
  ap_id :: uuid
  ap_profile_key :: uuid
  ap_version :: nat
  ap_name :: string
  ap_description :: string
  ap_status :: string
  ap_approval_token :: uuid
  ap_created_by :: string
  ap_created_at :: time
  ap_published_at :: "time option"

record AssignmentProfileTarget =
  pt_id :: id
  pt_profile_id :: uuid
  pt_target_id :: string
  pt_memberships :: json_text

record UserAssignmentProfile =
  up_user_id :: id
  up_profile_id :: uuid
  up_assigned_by :: string
  up_assigned_at :: time

record UserAssignmentException =
  ue_id :: id
  ue_user_id :: id
  ue_target_id :: string
  ue_assignment_mode :: string
  ue_add_memberships :: json_text
  ue_remove_memberships :: json_text
  ue_updated_by :: string

record ProfileApplication =
  pa_id :: uuid
  pa_user_id :: id
  pa_profile_id :: uuid
  pa_actor :: string
  pa_approval_token :: uuid
  pa_status :: string
  pa_detail :: string
  pa_operation_id :: "uuid option"
  pa_created_at :: time
  pa_applied_at :: "time option"

section \<open>Reconciliation and unmanaged accounts\<close>

record ReconciliationRun =
  rr_id :: uuid
  rr_approval_token :: uuid
  rr_source :: string
  rr_status :: string
  rr_actor :: string
  rr_scope_user_id :: "id option"
  rr_scope_target_id :: "string option"
  rr_total_targets :: nat
  rr_drifted_targets :: nat
  rr_unknown_targets :: nat
  rr_destructive_targets :: nat
  rr_attempt_count :: nat
  rr_next_attempt_at :: "time option"
  rr_operation_id :: "uuid option"
  rr_detail :: string
  rr_created_at :: time
  rr_completed_at :: "time option"

record ReconciliationFinding =
  rf_id :: id
  rf_run_id :: uuid
  rf_user_id :: id
  rf_username :: string
  rf_target_id :: string
  rf_target_name :: string
  rf_field :: string
  rf_state :: string
  rf_desired :: "string option"
  rf_actual :: "string option"
  rf_detail :: string
  rf_repair_status :: string
  rf_operation_id :: "uuid option"

record UnmanagedAccountFinding =
  uf_id :: uuid
  uf_target_id :: string
  uf_target_type :: string
  uf_username :: string
  uf_display_name :: string
  uf_email :: string
  uf_remote_status :: string
  uf_remote_uid :: "int option"
  uf_present :: bool
  uf_decision :: string
  uf_decision_actor :: "string option"
  uf_removal_token :: "uuid option"
  uf_first_seen_at :: time
  uf_last_seen_at :: time
  uf_decided_at :: "time option"
  uf_removed_at :: "time option"

section \<open>Bulk workflows\<close>

record BulkWorkflow =
  bw_id :: uuid
  bw_actor :: string
  bw_source :: string
  bw_idempotency_key :: string
  bw_status :: string
  bw_row_count :: nat
  bw_valid_count :: nat
  bw_succeeded_count :: nat
  bw_failed_count :: nat
  bw_operation_id :: "uuid option"
  bw_detail :: string
  bw_created_at :: time
  bw_completed_at :: "time option"

record BulkWorkflowRow =
  br_id :: id
  br_workflow_id :: uuid
  br_row_number :: nat
  br_action :: string
  br_username :: string
  br_display_name :: string
  br_email :: string
  br_target_ids :: json_text
  br_user_id :: "id option"
  br_validation_status :: string
  br_result_status :: string
  br_detail :: string
  br_operation_id :: "uuid option"
  br_encrypted_temporary_password :: "string option"

section \<open>The automation interface\<close>

record ApiIdempotencyRecord =
  ai_id :: uuid
  ai_actor :: string
  ai_method :: string
  ai_path :: string
  ai_idempotency_key :: string
  ai_request_hash :: string
  ai_response_status :: "nat option"
  ai_response_body :: "string option"
  ai_operation_id :: "uuid option"
  ai_created_at :: time
  ai_expires_at :: time

record ServiceAccount =
  sa_id :: uuid
  sa_name :: string
  sa_description :: string
  sa_permissions :: json_text
  sa_created_by :: string
  sa_created_at :: time
  sa_expires_at :: "time option"
  sa_revoked_at :: "time option"
  sa_revoked_by :: "string option"

record ServiceAccountCredential =
  sc_id :: uuid
  sc_service_account_id :: uuid
  sc_label :: string
  sc_token_prefix :: string
  sc_token_hash :: string
  sc_created_by :: string
  sc_created_at :: time
  sc_expires_at :: time
  sc_last_used_at :: "time option"
  sc_revoked_at :: "time option"
  sc_revoked_by :: "string option"

section \<open>Multi-factor authentication\<close>

record AdminMfa =
  am_id :: id
  am_user_id :: id
  am_totp_secret :: "string option"
  am_totp_last_counter :: int
  am_recovery_code_hashes :: json_text
  am_emergency_code_used_hash :: "string option"
  am_enrolled_at :: time

record WebAuthnCredential =
  wc_id :: id
  wc_user_id :: id
  wc_credential_id :: string
  wc_name :: string
  wc_public_key :: string
  wc_sign_count :: nat
  wc_created_at :: time
  wc_last_used_at :: "time option"

section \<open>Governance\<close>

record AccountLifecyclePolicy =
  lp_user_id :: id
  lp_owner :: string
  lp_reason :: string
  lp_starts_at :: "time option"
  lp_ends_at :: "time option"
  lp_temporary :: bool
  lp_inactivity_review_days :: "nat option"
  lp_end_action :: string
  lp_start_applied_at :: "time option"
  lp_end_applied_at :: "time option"
  lp_last_reviewed_at :: "time option"
  lp_next_review_at :: "time option"
  lp_updated_by :: string

record AccessReview =
  ar_id :: uuid
  ar_name :: string
  ar_source :: string
  ar_source_key :: "string option"
  ar_status :: string
  ar_approval_token :: uuid
  ar_due_at :: time
  ar_created_by :: string
  ar_created_at :: time
  ar_opened_at :: "time option"
  ar_completed_at :: "time option"

record AccessReviewItem =
  ri_id :: id
  ri_review_id :: uuid
  ri_user_id :: id
  ri_username :: string
  ri_owner :: string
  ri_reason :: string
  ri_decision :: string
  ri_attestation :: string
  ri_reviewer :: "string option"
  ri_decided_at :: "time option"
  ri_reminded_at :: "time option"
  ri_operation_id :: "uuid option"

section \<open>Sample rows\<close>

text \<open>An ordinary user and a state of hers; the witnesses of the development start from them.\<close>

definition sample_user :: ManagedUser where
  "sample_user =
    \<lparr>u_id = 1, u_username = ''ada'', u_display_name = ''Ada L'', u_email = ''ada@example.org'',
     u_password_hash = Some (rev ''Correct-Horse-42''), u_role = ''user'',
     u_password_decision_required = False, u_password_decision_kind = PD_NONE,
     u_password_changed_at = Some (990 * day), u_last_authenticated_at = None,
     u_password_keep_until = None, u_password_keep_count = 0, u_session_version = 1,
     u_ssh_public_key = None, u_status = US_ACTIVE, u_desired_action = ENSURE,
     u_active_operation_id = None, u_deletion_requested_at = None, u_deleted_at = None,
     u_pending_secret = None, u_created_at = 980 * day\<rparr>"

definition sample_state :: SyncState where
  "sample_state =
    \<lparr>ss_id = 1, ss_user_id = 1, ss_target = ''gitea'', ss_target_type = Some ''gitea'',
     ss_assigned = True, ss_retired = False, ss_state = PENDING, ss_detail = [],
     ss_attempt_count = 0, ss_next_retry_at = None, ss_operation_id = None\<rparr>"

end
