(* ===== verification/Config.thy ===== *)
theory Config
  imports Models
begin

text \<open>
  The configuration of \<open>src/na_sso/config.py\<close>: one record per policy class, its declared
  bounds and its validator as one function that returns the list of violated rules (empty when the
  class accepts the values), and the settings the components read.  Intervals that the program
  measures in floating-point seconds are whole microseconds here.  Reading YAML, resolving
  environment references and the fields that only a connector uses are not modelled; of a webhook URL the
  model keeps the two parts that \<open>urlparse\<close> gives and the validator looks at.
\<close>

section \<open>Helpers of the validators\<close>

definition in_range :: "nat \<Rightarrow> nat \<Rightarrow> nat \<Rightarrow> bool" where
  "in_range lo hi n \<longleftrightarrow> lo \<le> n \<and> n \<le> hi"

definition opt_range :: "nat \<Rightarrow> nat \<Rightarrow> nat option \<Rightarrow> bool" where
  "opt_range lo hi v = (case v of None \<Rightarrow> True | Some n \<Rightarrow> in_range lo hi n)"

definition rules :: "(bool \<times> string) list \<Rightarrow> string list" where
  "rules rs = map snd (filter (\<lambda>r. \<not> fst r) rs)"

definition is_lower :: "char \<Rightarrow> bool" where
  "is_lower c \<longleftrightarrow> in_range 97 122 (of_char c)"
definition is_upper :: "char \<Rightarrow> bool" where
  "is_upper c \<longleftrightarrow> in_range 65 90 (of_char c)"
definition is_digit :: "char \<Rightarrow> bool" where
  "is_digit c \<longleftrightarrow> in_range 48 57 (of_char c)"
definition is_alnum :: "char \<Rightarrow> bool" where
  "is_alnum c \<longleftrightarrow> is_lower c \<or> is_upper c \<or> is_digit c"

definition safe_identifier :: "string \<Rightarrow> bool" where  \<comment> \<open>\<open>[A-Za-z0-9_.-]+\<close>\<close>
  "safe_identifier s \<longleftrightarrow> s \<noteq> [] \<and> (\<forall>c \<in> set s. is_alnum c \<or> c \<in> set ''_.-'')"

definition target_id_ok :: "string \<Rightarrow> bool" where  \<comment> \<open>\<open>[a-z][a-z0-9_-]{1,63}\<close>\<close>
  "target_id_ok s = (case s of [] \<Rightarrow> False | c # cs \<Rightarrow>
     is_lower c \<and> in_range 1 63 (length cs) \<and>
     (\<forall>x \<in> set cs. is_lower x \<or> is_digit x \<or> x \<in> set ''_-''))"

section \<open>Policies\<close>

datatype AckMode = ACK_DISABLED | ACK_RENEWAL | ACK_GRACE

record PasswordPolicy =
  pw_min_length :: nat
  pw_max_length :: nat
  pw_require_lowercase :: bool
  pw_require_uppercase :: bool
  pw_require_digit :: bool
  pw_require_symbol :: bool
  pw_max_repeated_characters :: "nat option"
  pw_max_numeric_sequence :: "nat option"
  pw_min_identity_distance :: "nat option"
  pw_reject_identity_terms :: bool
  pw_history_size :: nat
  pw_expires_after_days :: "nat option"
  pw_expiry_acknowledgement_mode :: AckMode
  pw_expiry_acknowledgement_grace_days :: nat
  pw_expiry_acknowledgement_limit :: "nat option"

definition validate_password_policy :: "PasswordPolicy \<Rightarrow> string list" where
  "validate_password_policy p = rules [
     (in_range 8 1024 (pw_min_length p), ''min_length''),
     (in_range 8 4096 (pw_max_length p), ''max_length''),
     (opt_range 1 128 (pw_max_repeated_characters p), ''max_repeated_characters''),
     (opt_range 2 32 (pw_max_numeric_sequence p), ''max_numeric_sequence''),
     (opt_range 1 128 (pw_min_identity_distance p), ''min_identity_distance''),
     (in_range 0 100 (pw_history_size p), ''history_size''),
     (opt_range 1 3650 (pw_expires_after_days p), ''expires_after_days''),
     (in_range 1 3650 (pw_expiry_acknowledgement_grace_days p), ''expiry_acknowledgement_grace_days''),
     (opt_range 1 100 (pw_expiry_acknowledgement_limit p), ''expiry_acknowledgement_limit''),
     (\<not> pw_max_length p < pw_min_length p, ''password_policy.max_length must be >= min_length''),
     (case pw_min_identity_distance p of None \<Rightarrow> True
      | Some d \<Rightarrow> d = 0 \<or> \<not> pw_max_length p < d,
      ''min_identity_distance cannot exceed max_length'')]"

definition default_password_policy :: PasswordPolicy where
  "default_password_policy =
    \<lparr>pw_min_length = 14, pw_max_length = 128, pw_require_lowercase = True,
     pw_require_uppercase = True, pw_require_digit = True, pw_require_symbol = True,
     pw_max_repeated_characters = Some 3, pw_max_numeric_sequence = Some 3,
     pw_min_identity_distance = Some 4, pw_reject_identity_terms = True, pw_history_size = 3,
     pw_expires_after_days = Some 90, pw_expiry_acknowledgement_mode = ACK_GRACE,
     pw_expiry_acknowledgement_grace_days = 14, pw_expiry_acknowledgement_limit = Some 1\<rparr>"

datatype KeyAlgorithm = ED25519 | RSA

record SshKeyPolicy =
  sk_allowed_algorithms :: "KeyAlgorithm list"
  sk_rsa_min_bits :: nat
  sk_browser_generation :: bool
  sk_allow_server_fallback :: bool
  sk_default_expiry_days :: "nat option"
  sk_max_expiry_days :: "nat option"

definition validate_ssh_key_policy :: "SshKeyPolicy \<Rightarrow> string list" where
  "validate_ssh_key_policy p = rules [
     (in_range 2048 16384 (sk_rsa_min_bits p), ''rsa_min_bits''),
     (opt_range 1 3650 (sk_default_expiry_days p), ''default_expiry_days''),
     (opt_range 1 3650 (sk_max_expiry_days p), ''max_expiry_days''),
     (sk_allowed_algorithms p \<noteq> [] \<and> distinct (sk_allowed_algorithms p),
      ''allowed_algorithms must contain unique values''),
     (case (sk_default_expiry_days p, sk_max_expiry_days p) of
        (Some d, Some m) \<Rightarrow> d = 0 \<or> m = 0 \<or> \<not> m < d | _ \<Rightarrow> True,
      ''ssh_key_policy.default_expiry_days cannot exceed max_expiry_days'')]"

definition default_ssh_key_policy :: SshKeyPolicy where
  "default_ssh_key_policy =
    \<lparr>sk_allowed_algorithms = [ED25519], sk_rsa_min_bits = 3072, sk_browser_generation = True,
     sk_allow_server_fallback = False, sk_default_expiry_days = Some 365,
     sk_max_expiry_days = Some 730\<rparr>"

record AuditPolicy =
  aup_retention_days :: "nat option"
  aup_export_page_size :: nat

definition validate_audit_policy :: "AuditPolicy \<Rightarrow> string list" where
  "validate_audit_policy p = rules [
     (opt_range 1 36500 (aup_retention_days p), ''retention_days''),
     (in_range 25 5000 (aup_export_page_size p), ''export_page_size'')]"

record ReconciliationPolicy =
  rp_enabled :: bool
  rp_interval_seconds :: nat
  rp_scan_seconds :: nat
  rp_retry_base_seconds :: nat
  rp_retry_max_seconds :: nat
  rp_max_attempts :: nat
  rp_max_users_per_run :: nat

definition validate_reconciliation_policy :: "ReconciliationPolicy \<Rightarrow> string list" where
  "validate_reconciliation_policy p = rules [
     (in_range 60 2592000 (rp_interval_seconds p), ''interval_seconds''),
     (in_range 5 3600 (rp_scan_seconds p), ''scan_seconds''),
     (in_range 5 86400 (rp_retry_base_seconds p), ''retry_base_seconds''),
     (in_range 5 604800 (rp_retry_max_seconds p), ''retry_max_seconds''),
     (in_range 1 20 (rp_max_attempts p), ''max_attempts''),
     (in_range 1 1000 (rp_max_users_per_run p), ''max_users_per_run''),
     (\<not> rp_retry_max_seconds p < rp_retry_base_seconds p,
      ''reconciliation_policy.retry_max_seconds must be >= retry_base_seconds'')]"

record UnmanagedAccountPolicy =
  um_enabled :: bool
  um_max_accounts_per_target :: nat
  um_ssh_min_uid :: nat
  um_excluded_usernames :: "string list"
  um_excluded_prefixes :: "string list"
  um_allow_removal :: bool

definition validate_unmanaged_account_policy :: "UnmanagedAccountPolicy \<Rightarrow> string list" where
  "validate_unmanaged_account_policy p = rules [
     (in_range 1 10000 (um_max_accounts_per_target p), ''max_accounts_per_target''),
     (in_range 0 60000 (um_ssh_min_uid p), ''ssh_min_uid''),
     (distinct (um_excluded_usernames p),
      ''unmanaged_account_policy.excluded_usernames must be unique''),
     (distinct (um_excluded_prefixes p),
      ''unmanaged_account_policy.excluded_prefixes must be unique'')]"

record LifecycleAutomationPolicy =
  la_scan_seconds :: nat
  la_default_review_interval_days :: nat
  la_reminder_days_before_due :: nat
  la_max_review_accounts :: nat

definition validate_lifecycle_automation_policy :: "LifecycleAutomationPolicy \<Rightarrow> string list" where
  "validate_lifecycle_automation_policy p = rules [
     (in_range 5 3600 (la_scan_seconds p), ''scan_seconds''),
     (in_range 1 3650 (la_default_review_interval_days p), ''default_review_interval_days''),
     (in_range 0 365 (la_reminder_days_before_due p), ''reminder_days_before_due''),
     (in_range 1 5000 (la_max_review_accounts p), ''max_review_accounts'')]"

record BulkImportPolicy =
  bi_max_rows :: nat
  bi_row_byte_allowance :: nat

definition validate_bulk_import_policy :: "BulkImportPolicy \<Rightarrow> string list" where
  "validate_bulk_import_policy p = rules [
     (in_range 1 100000 (bi_max_rows p), ''max_rows''),
     (in_range 512 65536 (bi_row_byte_allowance p), ''row_byte_allowance'')]"

definition max_upload_bytes :: "BulkImportPolicy \<Rightarrow> nat" where
  "max_upload_bytes p = bi_max_rows p * bi_row_byte_allowance p"

record AutomationApiPolicy =
  aa_enabled :: bool
  aa_requests_per_minute :: nat
  aa_max_page_size :: nat
  aa_idempotency_retention_hours :: nat
  aa_default_token_days :: nat
  aa_max_token_days :: nat

definition validate_automation_api_policy :: "AutomationApiPolicy \<Rightarrow> string list" where
  "validate_automation_api_policy p = rules [
     (in_range 10 10000 (aa_requests_per_minute p), ''requests_per_minute''),
     (in_range 25 500 (aa_max_page_size p), ''max_page_size''),
     (in_range 1 720 (aa_idempotency_retention_hours p), ''idempotency_retention_hours''),
     (in_range 1 3650 (aa_default_token_days p), ''default_token_days''),
     (in_range 1 3650 (aa_max_token_days p), ''max_token_days''),
     (\<not> aa_max_token_days p < aa_default_token_days p,
      ''automation_api_policy.max_token_days must be >= default_token_days'')]"

text \<open>\<open>^https?://[^/]+$\<close>, where the end of the text may be before a final line feed.\<close>

definition origin_ok :: "string \<Rightarrow> bool" where
  "origin_ok s \<longleftrightarrow> list_ex
     (\<lambda>p. starts_with p s \<and> drop (length p) s \<noteq> [] \<and> CHR ''/'' \<notin> set (drop (length p) s))
     [''http://'', ''https://'']"

datatype MfaMethod = WEBAUTHN | TOTP

record AdminMfaPolicy =
  mf_required :: bool
  mf_allowed_methods :: "MfaMethod list"
  mf_issuer :: string
  mf_rp_id :: "string option"
  mf_expected_origin :: "string option"
  mf_reauthentication_minutes :: nat

definition validate_admin_mfa_policy :: "AdminMfaPolicy \<Rightarrow> string list" where
  "validate_admin_mfa_policy p = rules [
     (in_range 1 64 (length (mf_issuer p)), ''issuer''),
     (opt_range 0 253 (map_option length (mf_rp_id p)), ''rp_id''),
     (opt_range 0 500 (map_option length (mf_expected_origin p)), ''expected_origin''),
     (in_range 1 60 (mf_reauthentication_minutes p), ''reauthentication_minutes''),
     (mf_allowed_methods p \<noteq> [] \<and> distinct (mf_allowed_methods p),
      ''admin_mfa_policy.allowed_methods must contain unique methods''),
     (case mf_expected_origin p of None \<Rightarrow> True | Some origin \<Rightarrow> origin = [] \<or> origin_ok origin,
      ''admin_mfa_policy.expected_origin must be an http(s) origin without a path'')]"

section \<open>Notifications\<close>

definition notification_events :: "string list" where
  "notification_events = [''sync.persistent_failure'', ''password.expired'',
     ''lifecycle.completed'', ''approval.completed'', ''access_review.reminder'']"

record EmailChannel =
  em_enabled :: bool
  em_host :: string
  em_from_address :: string
  em_events :: "string list"

record WebhookEndpoint =
  ep_id :: string
  ep_url_scheme :: string
  ep_url_hostname :: string
  ep_secret :: string
  ep_enabled :: bool
  ep_events :: "string list"

definition validate_endpoint :: "WebhookEndpoint \<Rightarrow> string list" where
  "validate_endpoint e = rules [
     (target_id_ok (ep_id e), ''id''),
     (set (ep_events e) \<subseteq> set notification_events, ''events''),
     (\<not> (ep_url_scheme e \<noteq> ''https'' \<and>
        \<not> (ep_url_scheme e = ''http'' \<and>
           ep_url_hostname e \<in> {''localhost'', ''127.0.0.1'', ''::1''})),
      ''webhook URL must use https (http is allowed only for localhost)''),
     (ep_events e \<noteq> [] \<and> distinct (ep_events e),
      ''webhook events must contain unique supported values'')]"

record NotificationPolicy =
  np_enabled :: bool
  np_persistent_failure_attempts :: nat
  np_max_attempts :: nat
  np_retry_base_seconds :: nat
  np_retry_max_seconds :: nat
  np_delivery_scan_seconds :: nat
  np_endpoints :: "WebhookEndpoint list"
  np_email_channel :: "EmailChannel option"

definition validate_notification_policy :: "NotificationPolicy \<Rightarrow> string list" where
  "validate_notification_policy p = rules [
     (in_range 1 100 (np_persistent_failure_attempts p), ''persistent_failure_attempts''),
     (in_range 1 20 (np_max_attempts p), ''max_attempts''),
     (in_range 1 86400 (np_retry_base_seconds p), ''retry_base_seconds''),
     (in_range 1 604800 (np_retry_max_seconds p), ''retry_max_seconds''),
     (in_range 1 3600 (np_delivery_scan_seconds p), ''delivery_scan_seconds''),
     (distinct (map ep_id (np_endpoints p)), ''notification endpoint IDs must be unique''),
     (\<not> np_retry_max_seconds p < np_retry_base_seconds p,
      ''notification retry_max_seconds must be >= retry_base_seconds'')]"

section \<open>Targets and the configuration file\<close>

datatype TargetType =
  OPNSENSE | NEXUS | NEXTCLOUD | NPM | GITLAB | GITEA | IMMICH | JENKINS | SSH

definition target_type_value :: "TargetType \<Rightarrow> string" where
  "target_type_value t = (case t of
     OPNSENSE \<Rightarrow> ''opnsense'' | NEXUS \<Rightarrow> ''nexus'' | NEXTCLOUD \<Rightarrow> ''nextcloud''
   | NPM \<Rightarrow> ''npm'' | GITLAB \<Rightarrow> ''gitlab'' | GITEA \<Rightarrow> ''gitea'' | IMMICH \<Rightarrow> ''immich''
   | JENKINS \<Rightarrow> ''jenkins'' | SSH \<Rightarrow> ''ssh'')"

datatype SshMode = MODE_PASSWORD | MODE_KEY | MODE_PASSWORD_AND_KEY

record Target =
  tg_id :: string
  tg_display_name :: string
  tg_enabled :: bool
  tg_type :: TargetType
  tg_default_groups :: "string list"
  tg_mode :: SshMode  \<comment> \<open>read for SSH targets only\<close>

definition validate_target :: "Target \<Rightarrow> string list" where
  "validate_target t = rules [
     (in_range 1 128 (length (tg_display_name t)), ''display_name''),
     (target_id_ok (tg_id t), ''target id must match ^[a-z][a-z0-9_-]{1,63}$'')]"

record FileConfig =
  fc_password_policy :: PasswordPolicy
  fc_ssh_key_policy :: SshKeyPolicy
  fc_audit_policy :: AuditPolicy
  fc_reconciliation_policy :: ReconciliationPolicy
  fc_unmanaged_account_policy :: UnmanagedAccountPolicy
  fc_lifecycle_automation_policy :: LifecycleAutomationPolicy
  fc_bulk_import_policy :: BulkImportPolicy
  fc_automation_api_policy :: AutomationApiPolicy
  fc_admin_mfa_policy :: AdminMfaPolicy
  fc_notification_policy :: NotificationPolicy
  fc_targets :: "Target list"

definition validate_targets :: "FileConfig \<Rightarrow> string list" where
  "validate_targets c =
    rules [(distinct (map tg_id (fc_targets c)), ''target IDs must be unique'')] @
    concat (map (\<lambda>t. rules [
      (distinct (tg_default_groups t) \<and> (\<forall>g \<in> set (tg_default_groups t). safe_identifier g),
       cat [tg_id t, '' default groups must be unique safe identifiers''])]) (fc_targets c))"

record Settings =
  s_config_file :: bool        \<comment> \<open>a configuration file is named\<close>
  s_secret_key :: string
  s_admin_username :: string
  s_admin_bootstrap_password :: string
  s_root_recovery_code :: "string option"
  s_retry_base :: nat          \<comment> \<open>\<open>retry_base_seconds\<close>, in microseconds\<close>
  s_retry_max :: nat           \<comment> \<open>\<open>retry_max_seconds\<close>, in microseconds\<close>
  s_file :: FileConfig

section \<open>Passwords that expire\<close>

text \<open>The property \<open>password_expires_at\<close> of \<open>ManagedUser\<close>, which reads the
  password policy.  An instant of zero would be a false value of the code; no instant is.\<close>

definition is_root :: "ManagedUser \<Rightarrow> bool" where
  "is_root u \<longleftrightarrow> u_role u = ''root''"

definition password_expires_at :: "PasswordPolicy \<Rightarrow> ManagedUser \<Rightarrow> time option" where
  "password_expires_at p u =
    (if is_root u \<or> u_password_decision_kind u \<in> {PD_INITIAL, PD_RESET}
        \<or> u_password_changed_at u = None then None
     else
       (let changed_at = the (u_password_changed_at u);
            expiry = map_option (\<lambda>days. changed_at + int days * day) (pw_expires_after_days p) in
        case u_password_keep_until u of
          None \<Rightarrow> expiry
        | Some keep \<Rightarrow>
            (case expiry of None \<Rightarrow> Some keep
             | Some e \<Rightarrow> if keep > e then Some keep else expiry)))"

lemma password_expires_at_root [simp]: "is_root u \<Longrightarrow> password_expires_at p u = None"
  by (simp add: password_expires_at_def)

lemma rules_Nil_iff [simp]: "rules rs = [] \<longleftrightarrow> (\<forall>r \<in> set rs. fst r)"
  by (simp add: rules_def filter_empty_conv)

end
