(* ===== verification/Database.thy ===== *)
theory Database
  imports Config
begin

text \<open>
  The database as one record of tables, the operations on its tables, the environment a handler
  runs in, and the responses it gives.  A handler maps the environment, its arguments and the
  committed database to a response and the database it has committed; one that
  leaves without a commit returns the database it was given (\<open>db.py\<close>: a session is
  rolled back when its block ends).  Every instant a handler reads is the \<open>now\<close> of its
  environment.  The counter \<open>tick\<close> gives \<open>uuid4\<close> its fresh values, and is passed
  to every remote call, so that a target may answer the same call differently each time.
\<close>

section \<open>Tables\<close>

record db =
  tick :: nat
  users :: "ManagedUser list"
  histories :: "PasswordHistory list"
  ssh_keys :: "UserSshKey list"
  sync_states :: "SyncState list"
  operations :: "LifecycleOperation list"
  attempts :: "OperationTargetAttempt list"
  audit :: "AuditEvent list"
  endpoint_states :: "WebhookEndpointState list"
  deliveries :: "WebhookDelivery list"
  credentials :: "TargetCredential list"
  profiles :: "AssignmentProfile list"
  profile_targets :: "AssignmentProfileTarget list"
  user_profiles :: "UserAssignmentProfile list"
  exceptions :: "UserAssignmentException list"
  applications :: "ProfileApplication list"
  runs :: "ReconciliationRun list"
  findings :: "ReconciliationFinding list"
  unmanaged :: "UnmanagedAccountFinding list"
  workflows :: "BulkWorkflow list"
  workflow_rows :: "BulkWorkflowRow list"
  idempotency :: "ApiIdempotencyRecord list"
  service_accounts :: "ServiceAccount list"
  service_credentials :: "ServiceAccountCredential list"
  mfas :: "AdminMfa list"
  passkeys :: "WebAuthnCredential list"
  policies :: "AccountLifecyclePolicy list"
  reviews :: "AccessReview list"
  review_items :: "AccessReviewItem list"

definition empty_db :: db where
  "empty_db = \<lparr>tick = 0, users = [], histories = [], ssh_keys = [], sync_states = [],
     operations = [], attempts = [], audit = [], endpoint_states = [], deliveries = [],
     credentials = [], profiles = [], profile_targets = [], user_profiles = [], exceptions = [],
     applications = [], runs = [], findings = [], unmanaged = [], workflows = [],
     workflow_rows = [], idempotency = [], service_accounts = [], service_credentials = [],
     mfas = [], passkeys = [], policies = [], reviews = [], review_items = []\<rparr>"

text \<open>\<open>uuid4\<close>: a value never drawn before.\<close>

definition uuid4 :: "db \<Rightarrow> uuid" where "uuid4 d = tick d"
definition next_tick :: "db \<Rightarrow> db" where "next_tick d = d\<lparr>tick := Suc (tick d)\<rparr>"

section \<open>Operations on the tables\<close>

definition get_user :: "id \<Rightarrow> db \<Rightarrow> ManagedUser option" where
  "get_user k d = rows_get u_id k (users d)"
definition upd_user :: "id \<Rightarrow> (ManagedUser \<Rightarrow> ManagedUser) \<Rightarrow> db \<Rightarrow> db" where
  "upd_user k f d = d\<lparr>users := rows_upd u_id k f (users d)\<rparr>"

definition get_state :: "id \<Rightarrow> db \<Rightarrow> SyncState option" where
  "get_state k d = rows_get ss_id k (sync_states d)"
definition upd_state :: "id \<Rightarrow> (SyncState \<Rightarrow> SyncState) \<Rightarrow> db \<Rightarrow> db" where
  "upd_state k f d = d\<lparr>sync_states := rows_upd ss_id k f (sync_states d)\<rparr>"

definition get_operation :: "uuid \<Rightarrow> db \<Rightarrow> LifecycleOperation option" where
  "get_operation k d = rows_get op_id k (operations d)"
definition upd_operation :: "uuid \<Rightarrow> (LifecycleOperation \<Rightarrow> LifecycleOperation) \<Rightarrow> db \<Rightarrow> db" where
  "upd_operation k f d = d\<lparr>operations := rows_upd op_id k f (operations d)\<rparr>"

definition get_attempt :: "id \<Rightarrow> db \<Rightarrow> OperationTargetAttempt option" where
  "get_attempt k d = rows_get ta_id k (attempts d)"
definition upd_attempt :: "id \<Rightarrow> (OperationTargetAttempt \<Rightarrow> OperationTargetAttempt) \<Rightarrow> db \<Rightarrow> db" where
  "upd_attempt k f d = d\<lparr>attempts := rows_upd ta_id k f (attempts d)\<rparr>"

definition get_delivery :: "uuid \<Rightarrow> db \<Rightarrow> WebhookDelivery option" where
  "get_delivery k d = rows_get wd_id k (deliveries d)"
definition upd_delivery :: "uuid \<Rightarrow> (WebhookDelivery \<Rightarrow> WebhookDelivery) \<Rightarrow> db \<Rightarrow> db" where
  "upd_delivery k f d = d\<lparr>deliveries := rows_upd wd_id k f (deliveries d)\<rparr>"

definition get_ssh_key :: "uuid \<Rightarrow> db \<Rightarrow> UserSshKey option" where
  "get_ssh_key k d = rows_get k_id k (ssh_keys d)"
definition upd_ssh_key :: "uuid \<Rightarrow> (UserSshKey \<Rightarrow> UserSshKey) \<Rightarrow> db \<Rightarrow> db" where
  "upd_ssh_key k f d = d\<lparr>ssh_keys := rows_upd k_id k f (ssh_keys d)\<rparr>"

interpretation user_table: keyed_rows get_user upd_user u_id
  by (rule keyed_rowsI [where rows = users]) (simp_all add: get_user_def upd_user_def)
interpretation state_table: keyed_rows get_state upd_state ss_id
  by (rule keyed_rowsI [where rows = sync_states]) (simp_all add: get_state_def upd_state_def)
interpretation operation_table: keyed_rows get_operation upd_operation op_id
  by (rule keyed_rowsI [where rows = operations]) (simp_all add: get_operation_def upd_operation_def)
interpretation attempt_table: keyed_rows get_attempt upd_attempt ta_id
  by (rule keyed_rowsI [where rows = attempts]) (simp_all add: get_attempt_def upd_attempt_def)
interpretation delivery_table: keyed_rows get_delivery upd_delivery wd_id
  by (rule keyed_rowsI [where rows = deliveries]) (simp_all add: get_delivery_def upd_delivery_def)
interpretation ssh_key_table: keyed_rows get_ssh_key upd_ssh_key k_id
  by (rule keyed_rowsI [where rows = ssh_keys]) (simp_all add: get_ssh_key_def upd_ssh_key_def)

text \<open>The relationships of \<open>ManagedUser\<close> and its key properties.\<close>

definition user_states :: "id \<Rightarrow> db \<Rightarrow> SyncState list" where
  "user_states uid d = filter (\<lambda>s. ss_user_id s = uid) (sync_states d)"

definition user_keys :: "id \<Rightarrow> db \<Rightarrow> UserSshKey list" where
  "user_keys uid d = filter (\<lambda>k. k_user_id k = uid) (ssh_keys d)"

definition key_is_active :: "time \<Rightarrow> UserSshKey \<Rightarrow> bool" where
  "key_is_active t k \<longleftrightarrow> k_revoked_at k = None \<and>
     (case k_expires_at k of None \<Rightarrow> True | Some e \<Rightarrow> e > t)"

definition active_ssh_keys :: "time \<Rightarrow> id \<Rightarrow> db \<Rightarrow> UserSshKey list" where
  "active_ssh_keys t uid d = filter (key_is_active t) (user_keys uid d)"

definition active_ssh_public_keys :: "time \<Rightarrow> ManagedUser \<Rightarrow> db \<Rightarrow> string list" where
  "active_ssh_public_keys t u d =
    (let ks = map k_public_key (active_ssh_keys t (u_id u) d) in
     if ks \<noteq> [] then ks
     else (case u_ssh_public_key u of None \<Rightarrow> [] | Some k \<Rightarrow> if k = [] then [] else [k]))"

definition get_user_by_name :: "string \<Rightarrow> db \<Rightarrow> ManagedUser option" where
  "get_user_by_name n d = find (\<lambda>u. u_username u = n) (users d)"

section \<open>Frames\<close>

text \<open>A lookup in one table is not affected by a change of another one.\<close>

lemma frame_users [simp]:
  "get_user k (upd_state j f d) = get_user k d"
  "get_user k (upd_operation i g d) = get_user k d"
  "get_user k (upd_attempt j h d) = get_user k d"
  "get_user k (next_tick d) = get_user k d"
  by (simp_all add: get_user_def upd_state_def upd_operation_def upd_attempt_def next_tick_def)

lemma frame_operations [simp]:
  "get_operation k (upd_state j f d) = get_operation k d"
  "get_operation k (upd_user i g d) = get_operation k d"
  "get_operation k (upd_attempt j h d) = get_operation k d"
  "get_operation k (next_tick d) = get_operation k d"
  by (simp_all add: get_operation_def upd_state_def upd_user_def upd_attempt_def next_tick_def)

lemma frame_states [simp]:
  "get_state k (next_tick d) = get_state k d" "user_states uid (next_tick d) = user_states uid d"
  "get_state k (upd_user j f d) = get_state k d"
  "get_state k (upd_operation i g d) = get_state k d"
  "get_state k (upd_attempt m h d) = get_state k d"
  "user_states uid (upd_user j f d) = user_states uid d"
  "user_states uid (upd_operation i g d) = user_states uid d"
  "user_states uid (upd_attempt m h d) = user_states uid d"
  by (simp_all add: get_state_def user_states_def upd_user_def upd_operation_def upd_attempt_def
      next_tick_def)

lemma frame_fields [simp]:
  "users (upd_state k f d) = users d" "users (upd_operation i g d) = users d"
  "users (upd_attempt k h d) = users d" "sync_states (upd_user k u d) = sync_states d"
  "sync_states (upd_operation i g d) = sync_states d" "sync_states (upd_attempt k h d) = sync_states d"
  "operations (upd_user k u d) = operations d" "operations (upd_state k f d) = operations d"
  "operations (upd_attempt k h d) = operations d" "attempts (upd_user k u d) = attempts d"
  "attempts (upd_state k f d) = attempts d" "attempts (upd_operation i g d) = attempts d"
  "tick (upd_user k u d) = tick d" "tick (upd_state k f d) = tick d"
  "tick (upd_operation i g d) = tick d" "tick (upd_attempt k h d) = tick d"
  by (simp_all add: upd_state_def upd_operation_def upd_attempt_def upd_user_def)

end
