(* ===== verification/Reconciliation.thy ===== *)
theory Reconciliation
  imports Database "HOL-Library.Char_ord" "HOL-Library.List_Lexorder"
begin

text \<open>
  The comparison of a desired with an observed account, \<open>src/na_sso/reconciliation.py\<close>:
  the report that \<open>compare_snapshot\<close> builds from one observation of a target, its
  status, and the conversion of drift into a declared limitation.  The lemmas show that the report has one entry per field
  in a fixed order, when it says that the account is in sync, and that a
  report of an unreadable target never says so.
\<close>

datatype DriftState = MATCH | DRIFT | DS_UNKNOWN | DS_UNSUPPORTED

definition drift_state_value :: "DriftState \<Rightarrow> string" where
  "drift_state_value s = (case s of MATCH \<Rightarrow> ''match'' | DRIFT \<Rightarrow> ''drift''
     | DS_UNKNOWN \<Rightarrow> ''unknown'' | DS_UNSUPPORTED \<Rightarrow> ''unsupported'')"

datatype ReconciliationStatus = IN_SYNC | DRIFTED | RS_UNKNOWN

datatype ReconciliationField = F_IDENTITY | F_DISPLAY_NAME | F_EMAIL | F_STATUS | F_MEMBERSHIPS | F_PUBLIC_KEY

definition field_value :: "ReconciliationField \<Rightarrow> string" where
  "field_value f = (case f of F_IDENTITY \<Rightarrow> ''identity'' | F_DISPLAY_NAME \<Rightarrow> ''display_name''
     | F_EMAIL \<Rightarrow> ''email'' | F_STATUS \<Rightarrow> ''status'' | F_MEMBERSHIPS \<Rightarrow> ''memberships''
     | F_PUBLIC_KEY \<Rightarrow> ''public_key'')"

record InspectionCapabilities =
  ic_display_name :: bool
  ic_email :: bool
  ic_status :: bool
  ic_memberships :: bool
  ic_public_key :: bool
  ic_memberships_exact :: bool

record RemoteIdentitySnapshot =
  rs_present :: "bool option"
  rs_username :: "string option"
  rs_display_name :: "string option"
  rs_email :: "string option"
  rs_status :: "string option"
  rs_memberships :: "string set option"
  rs_public_key_fingerprints :: "string set option"

record FieldComparison =
  fc_field :: ReconciliationField
  fc_state :: DriftState
  fc_desired :: "string option"
  fc_actual :: "string option"
  fc_detail :: string

record ReconciliationReport =
  rep_target_id :: string
  rep_target_name :: string
  rep_subject :: string
  rep_fields :: "FieldComparison list"
  rep_detail :: string

definition report_status :: "ReconciliationReport \<Rightarrow> ReconciliationStatus" where
  "report_status r =
    (let states = set (map fc_state (rep_fields r)) in
     if DRIFT \<in> states then DRIFTED else if DS_UNKNOWN \<in> states then RS_UNKNOWN else IN_SYNC)"

definition has_unknowns :: "ReconciliationReport \<Rightarrow> bool" where
  "has_unknowns r \<longleftrightarrow> (\<exists>f \<in> set (rep_fields r). fc_state f = DS_UNKNOWN)"

definition report_field :: "ReconciliationField \<Rightarrow> ReconciliationReport \<Rightarrow> FieldComparison option" where
  "report_field wanted r = find (\<lambda>f. fc_field f = wanted) (rep_fields r)"

text \<open>The values that are compared: a text, or a set of texts.\<close>

datatype fvalue = VText string | VSet "string set"

definition display :: "fvalue \<Rightarrow> string" where
  "display v = (case v of
     VSet s \<Rightarrow> (let t = join_with '', '' (sorted_list_of_set s) in if t = [] then ''none'' else t)
   | VText s \<Rightarrow> if s = [] then ''none'' else s)"

definition unsupported_field :: "ReconciliationField \<Rightarrow> string \<Rightarrow> FieldComparison" where
  "unsupported_field f detail =
    \<lparr>fc_field = f, fc_state = DS_UNSUPPORTED, fc_desired = None, fc_actual = None, fc_detail = detail\<rparr>"

definition not_exposed :: string where
  "not_exposed = ''Target does not expose this field.''"

definition unknown_field :: "ReconciliationField \<Rightarrow> fvalue \<Rightarrow> string \<Rightarrow> FieldComparison" where
  "unknown_field f desired detail =
    \<lparr>fc_field = f, fc_state = DS_UNKNOWN, fc_desired = Some (display desired), fc_actual = None,
     fc_detail = detail\<rparr>"

definition compare_field :: "ReconciliationField \<Rightarrow> fvalue \<Rightarrow> fvalue \<Rightarrow> FieldComparison" where
  "compare_field f desired actual =
    \<lparr>fc_field = f, fc_state = (if desired = actual then MATCH else DRIFT),
     fc_desired = Some (display desired), fc_actual = Some (display actual), fc_detail = []\<rparr>"

definition mark_unsupported_operation :: "ReconciliationReport \<Rightarrow> string \<Rightarrow> ReconciliationReport" where
  "mark_unsupported_operation r detail =
    (let limitation = cat [''Repair unsupported: '', detail];
         fields = map (\<lambda>item. if fc_state item = DRIFT
           then item\<lparr>fc_state := DS_UNSUPPORTED, fc_detail := limitation\<rparr> else item) (rep_fields r) in
     if fields = rep_fields r then r
     else r\<lparr>rep_fields := fields,
            rep_detail := join_with '' '' (filter (\<lambda>p. p \<noteq> []) [rep_detail r, limitation])\<rparr>)"

section \<open>The comparison\<close>

definition desired_present :: "ManagedUser \<Rightarrow> bool" where
  "desired_present u \<longleftrightarrow> u_desired_action u \<noteq> DA_DELETE \<and> u_deleted_at u = None"

definition compare_identity :: "ManagedUser \<Rightarrow> RemoteIdentitySnapshot \<Rightarrow> FieldComparison" where
  "compare_identity u snap =
    (case rs_present snap of
       None \<Rightarrow> unknown_field F_IDENTITY
         (VText (if desired_present u then u_username u else ''absent''))
         ''Remote identity could not be read.''
     | Some present \<Rightarrow>
         if desired_present u \<and> \<not> present then
           compare_field F_IDENTITY (VText (u_username u)) (VText ''absent'')
         else if desired_present u then
           (case rs_username snap of
              None \<Rightarrow> unknown_field F_IDENTITY (VText (u_username u))
                ''Remote username could not be observed.''
            | Some n \<Rightarrow> compare_field F_IDENTITY (VText (u_username u)) (VText n))
         else compare_field F_IDENTITY (VText ''absent'')
                (VText (if present then ''present'' else ''absent'')))"

definition supported :: "InspectionCapabilities \<Rightarrow> ReconciliationField \<Rightarrow> bool" where
  "supported c f = (case f of F_IDENTITY \<Rightarrow> True | F_DISPLAY_NAME \<Rightarrow> ic_display_name c
     | F_EMAIL \<Rightarrow> ic_email c | F_STATUS \<Rightarrow> ic_status c | F_MEMBERSHIPS \<Rightarrow> ic_memberships c
     | F_PUBLIC_KEY \<Rightarrow> ic_public_key c)"

definition compare_text ::
  "InspectionCapabilities \<Rightarrow> RemoteIdentitySnapshot \<Rightarrow> ReconciliationField \<Rightarrow> string
     \<Rightarrow> string option \<Rightarrow> FieldComparison" where
  "compare_text c snap f desired actual =
    (if \<not> supported c f then unsupported_field f not_exposed
     else (case actual of
       None \<Rightarrow> unknown_field f (VText desired) ''Remote field could not be observed.''
     | Some a \<Rightarrow>
         if rs_present snap \<noteq> Some True
         then unknown_field f (VText desired) ''Remote field could not be observed.''
         else compare_field f (VText desired) (VText a)))"

definition compare_memberships ::
  "InspectionCapabilities \<Rightarrow> RemoteIdentitySnapshot \<Rightarrow> string set \<Rightarrow> FieldComparison" where
  "compare_memberships c snap required =
    (if \<not> ic_memberships c then unsupported_field F_MEMBERSHIPS not_exposed
     else (case rs_memberships snap of
       None \<Rightarrow> unknown_field F_MEMBERSHIPS (VSet required) ''Remote memberships could not be observed.''
     | Some actual \<Rightarrow>
         if rs_present snap \<noteq> Some True
         then unknown_field F_MEMBERSHIPS (VSet required) ''Remote memberships could not be observed.''
         else
           (let memberships_match =
                  (if ic_memberships_exact c then actual = required else required \<subseteq> actual);
                comparison = compare_field F_MEMBERSHIPS (VSet required) (VSet actual) in
            comparison\<lparr>fc_state := (if memberships_match then MATCH else DRIFT),
              fc_detail := (if memberships_match \<and> \<not> ic_memberships_exact c
                            then ''Additional memberships are retained.'' else [])\<rparr>)))"

definition compare_public_key ::
  "InspectionCapabilities \<Rightarrow> RemoteIdentitySnapshot \<Rightarrow> string set \<Rightarrow> FieldComparison" where
  "compare_public_key c snap desired_fingerprints =
    (if \<not> ic_public_key c then unsupported_field F_PUBLIC_KEY not_exposed
     else (case rs_public_key_fingerprints snap of
       None \<Rightarrow> unknown_field F_PUBLIC_KEY (VSet desired_fingerprints)
                 ''Remote key state could not be observed.''
     | Some actual \<Rightarrow>
         if rs_present snap \<noteq> Some True
         then unknown_field F_PUBLIC_KEY (VSet desired_fingerprints)
                ''Remote key state could not be observed.''
         else compare_field F_PUBLIC_KEY (VSet desired_fingerprints) (VSet actual)))"

text \<open>\<open>fp\<close> is \<open>ssh_public_key_fingerprint\<close> (\<open>None\<close> for text that is no
  key) and \<open>public_keys\<close> the active keys of the user.\<close>

definition compare_snapshot ::
  "(string \<Rightarrow> string option) \<Rightarrow> string \<Rightarrow> string \<Rightarrow> ManagedUser \<Rightarrow> string list
     \<Rightarrow> InspectionCapabilities \<Rightarrow> RemoteIdentitySnapshot \<Rightarrow> string set \<Rightarrow> ReconciliationReport" where
  "compare_snapshot fp target_id target_name u public_keys c snap required =
    (let identity = compare_identity u snap;
         fields =
           (if \<not> desired_present u then
              map (\<lambda>f. unsupported_field f
                    (if supported c f then ''Not applicable when the desired identity is absent.''
                     else not_exposed))
                [F_DISPLAY_NAME, F_EMAIL, F_STATUS, F_MEMBERSHIPS, F_PUBLIC_KEY]
            else
              [compare_text c snap F_DISPLAY_NAME
                 (if u_display_name u \<noteq> [] then u_display_name u else u_username u)
                 (rs_display_name snap),
               compare_text c snap F_EMAIL (u_email u) (rs_email snap),
               compare_text c snap F_STATUS
                 (if u_status u = US_DISABLED then ''disabled'' else ''active'') (rs_status snap),
               compare_memberships c snap required,
               compare_public_key c snap (set (List.map_filter fp public_keys))])
     in \<lparr>rep_target_id = target_id, rep_target_name = target_name, rep_subject = u_username u,
         rep_fields = identity # fields, rep_detail = []\<rparr>)"

definition unread_snapshot :: RemoteIdentitySnapshot where
  "unread_snapshot = \<lparr>rs_present = None, rs_username = None, rs_display_name = None,
     rs_email = None, rs_status = None, rs_memberships = None, rs_public_key_fingerprints = None\<rparr>"

definition unavailable_report ::
  "(string \<Rightarrow> string option) \<Rightarrow> string \<Rightarrow> string \<Rightarrow> ManagedUser \<Rightarrow> string list
     \<Rightarrow> InspectionCapabilities \<Rightarrow> string \<Rightarrow> string set \<Rightarrow> ReconciliationReport" where
  "unavailable_report fp target_id target_name u public_keys c detail required =
    (compare_snapshot fp target_id target_name u public_keys c unread_snapshot required)
      \<lparr>rep_detail := detail\<rparr>"

section \<open>Facts on the fields\<close>

lemmas compare_defs = compare_snapshot_def compare_identity_def compare_text_def
  compare_memberships_def compare_public_key_def compare_field_def unknown_field_def
  unsupported_field_def

lemma compare_identity_field [simp]: "fc_field (compare_identity u snap) = F_IDENTITY"
  by (simp add: compare_defs split: option.splits)

lemma compare_text_field [simp]: "fc_field (compare_text c snap f d a) = f"
  by (simp add: compare_defs split: option.splits)

lemma compare_memberships_field [simp]: "fc_field (compare_memberships c snap r) = F_MEMBERSHIPS"
  by (simp add: compare_defs Let_def split: option.splits)

lemma compare_public_key_field [simp]: "fc_field (compare_public_key c snap ks) = F_PUBLIC_KEY"
  by (simp add: compare_defs split: option.splits)

lemma unsupported_field_field [simp]: "fc_field (unsupported_field f d) = f"
  by (simp add: unsupported_field_def)

lemma fields_of_compare_snapshot:
  "map fc_field (rep_fields (compare_snapshot fp t n u ks c snap req)) =
     [F_IDENTITY, F_DISPLAY_NAME, F_EMAIL, F_STATUS, F_MEMBERSHIPS, F_PUBLIC_KEY]"
  by (simp add: compare_snapshot_def Let_def)

lemma report_field_identity:
  "report_field F_IDENTITY (compare_snapshot fp t n u ks c snap req) = Some (compare_identity u snap)"
  by (simp add: report_field_def compare_snapshot_def Let_def)

lemma report_status_drifted_iff:
  "report_status r = DRIFTED \<longleftrightarrow> (\<exists>f \<in> set (rep_fields r). fc_state f = DRIFT)"
  by (simp add: report_status_def Let_def image_iff eq_commute)

lemma report_status_in_sync_iff:
  "report_status r = IN_SYNC \<longleftrightarrow>
     (\<forall>f \<in> set (rep_fields r). fc_state f = MATCH \<or> fc_state f = DS_UNSUPPORTED)"
proof -
  have in_sync: "s = MATCH \<or> s = DS_UNSUPPORTED \<longleftrightarrow> s \<noteq> DRIFT \<and> s \<noteq> DS_UNKNOWN" for s
    by (cases s) simp_all
  show ?thesis
    unfolding in_sync report_status_def Let_def by (simp add: image_iff eq_commute) blast
qed

lemma mark_unsupported_no_drift:
  "report_status (mark_unsupported_operation r detail) \<noteq> DRIFTED"
proof -
  let ?g = "\<lambda>item. if fc_state item = DRIFT
    then item\<lparr>fc_state := DS_UNSUPPORTED, fc_detail := cat [''Repair unsupported: '', detail]\<rparr> else item"
  have "rep_fields (mark_unsupported_operation r detail) = map ?g (rep_fields r)"
    by (simp add: mark_unsupported_operation_def Let_def)
  then show ?thesis by (auto simp: report_status_drifted_iff)
qed

section \<open>Properties\<close>

text \<open>An account that is reported in sync is in sync.  For a user whose name is not
  \<open>absent\<close> and who is to exist, a report without drift and without unknowns means that the account
  was observed, with the user's name, and that every field the target supports
  was observed with the desired value.\<close>

theorem in_sync_is_sound:
  assumes "desired_present u" "u_username u \<noteq> ''absent''"
    and "report_status (compare_snapshot fp t n u ks c snap required) = IN_SYNC"
  shows "rs_present snap = Some True \<and> rs_username snap = Some (u_username u) \<and>
    (ic_email c \<longrightarrow> rs_email snap = Some (u_email u)) \<and>
    (ic_status c \<longrightarrow> rs_status snap = Some (if u_status u = US_DISABLED then ''disabled'' else ''active'')) \<and>
    (ic_memberships c \<longrightarrow> (\<exists>m. rs_memberships snap = Some m \<and> required \<subseteq> m \<and>
       (ic_memberships_exact c \<longrightarrow> m = required))) \<and>
    (ic_public_key c \<longrightarrow> rs_public_key_fingerprints snap = Some (set (List.map_filter fp ks)))"
proof -
  have ok: "fc_state x = MATCH \<or> fc_state x = DS_UNSUPPORTED"
    if "x \<in> set (rep_fields (compare_snapshot fp t n u ks c snap required))" for x
    using assms(3) that by (simp add: report_status_in_sync_iff)
  have fields: "fc_state (compare_identity u snap) \<in> {MATCH, DS_UNSUPPORTED}"
    "fc_state (compare_text c snap F_EMAIL (u_email u) (rs_email snap)) \<in> {MATCH, DS_UNSUPPORTED}"
    "fc_state (compare_text c snap F_STATUS
       (if u_status u = US_DISABLED then ''disabled'' else ''active'') (rs_status snap)) \<in> {MATCH, DS_UNSUPPORTED}"
    "fc_state (compare_memberships c snap required) \<in> {MATCH, DS_UNSUPPORTED}"
    "fc_state (compare_public_key c snap (set (List.map_filter fp ks))) \<in> {MATCH, DS_UNSUPPORTED}"
    using ok assms(1) by (simp_all add: compare_snapshot_def Let_def)
  have "rs_present snap = Some True \<and> rs_username snap = Some (u_username u)"
    using fields(1) assms(1,2)
    by (auto simp: compare_identity_def unknown_field_def compare_field_def split: option.splits if_splits)
  moreover have "ic_email c \<longrightarrow> rs_email snap = Some (u_email u)"
    using fields(2) by (auto simp: compare_text_def supported_def unknown_field_def compare_field_def
        split: option.splits if_splits)
  moreover have "ic_status c \<longrightarrow> rs_status snap = Some (if u_status u = US_DISABLED then ''disabled'' else ''active'')"
    using fields(3) by (simp add: compare_text_def supported_def unknown_field_def compare_field_def
        split: option.splits if_split_asm)
  moreover have "ic_memberships c \<longrightarrow> (\<exists>m. rs_memberships snap = Some m \<and> required \<subseteq> m \<and>
      (ic_memberships_exact c \<longrightarrow> m = required))"
    using fields(4) by (auto simp: compare_memberships_def unknown_field_def compare_field_def Let_def
        split: option.splits if_splits)
  moreover have "ic_public_key c \<longrightarrow> rs_public_key_fingerprints snap = Some (set (List.map_filter fp ks))"
    using fields(5) by (auto simp: compare_public_key_def unknown_field_def compare_field_def
        split: option.splits if_splits)
  ultimately show ?thesis by blast
qed

definition sample_inspection :: InspectionCapabilities where
  "sample_inspection = \<lparr>ic_display_name = True, ic_email = True, ic_status = True,
     ic_memberships = True, ic_public_key = True, ic_memberships_exact = False\<rparr>"

definition sample_snapshot :: RemoteIdentitySnapshot where
  "sample_snapshot = \<lparr>rs_present = Some True, rs_username = Some ''ada'',
     rs_display_name = Some ''Ada L'', rs_email = Some ''ada@example.org'',
     rs_status = Some ''active'', rs_memberships = Some {''staff'', ''wheel''},
     rs_public_key_fingerprints = Some {}\<rparr>"

theorem in_sync_is_sound_witness:
  "report_status (compare_snapshot Some ''t'' ''T'' sample_user [] sample_inspection sample_snapshot
     {''staff''}) = IN_SYNC \<and> rs_email sample_snapshot = Some (u_email sample_user)"
proof -
  have pre: "desired_present sample_user" "u_username sample_user \<noteq> ''absent''"
    by (simp_all add: sample_user_def desired_present_def)
  have sync: "report_status (compare_snapshot Some ''t'' ''T'' sample_user [] sample_inspection
      sample_snapshot {''staff''}) = IN_SYNC"
    by (simp add: report_status_in_sync_iff compare_defs sample_user_def sample_inspection_def
        sample_snapshot_def supported_def desired_present_def map_filter_def Let_def)
  show ?thesis
    using sync in_sync_is_sound [OF pre sync] by (simp add: sample_inspection_def)
qed

text \<open>The word that stands for a missing account is also a valid user name.  For a user called
  \<open>absent\<close> whose account does not exist on the target, the comparison of the identity is a
  match, and on a target that exposes no field the account is reported in sync.\<close>

theorem user_called_absent_matches:
  assumes "desired_present u" "u_username u = ''absent''" "rs_present snap = Some False"
  shows "fc_state (compare_identity u snap) = MATCH \<and>
    report_status (compare_snapshot fp t n u ks
      \<lparr>ic_display_name = False, ic_email = False, ic_status = False, ic_memberships = False,
       ic_public_key = False, ic_memberships_exact = True\<rparr> snap required) = IN_SYNC"
  using assms
  by (simp add: report_status_in_sync_iff compare_defs supported_def Let_def)

theorem user_called_absent_matches_witness:
  "fc_state (compare_identity (sample_user\<lparr>u_username := ''absent''\<rparr>)
     (sample_snapshot\<lparr>rs_present := Some False, rs_username := None\<rparr>)) = MATCH"
proof -
  have "desired_present (sample_user\<lparr>u_username := ''absent''\<rparr>)"
    "u_username (sample_user\<lparr>u_username := ''absent''\<rparr>) = ''absent''"
    "rs_present (sample_snapshot\<lparr>rs_present := Some False, rs_username := None\<rparr>) = Some False"
    by (simp_all add: sample_user_def desired_present_def)
  from user_called_absent_matches [OF this] show ?thesis by blast
qed

end
