(* ===== verification/Connectors.thy ===== *)
theory Connectors
  imports Reconciliation
begin

text \<open>
  The connector contract of \<open>src/na_sso/connectors/base.py\<close>, the identity requirements
  that each connector class declares, the credentials a connector is built from
  (\<open>credential_payload\<close> of \<open>target_credentials.py\<close>), and the environment of the
  handlers.  A connector is the record of what it declares and of the answers of its
  target: the HTTP and SSH exchanges behind \<open>ensure_user\<close>, \<open>disable_user\<close>,
  \<open>delete_user\<close> and \<open>probe\<close>, and the observation behind \<open>inspect_user\<close>, are
  functions of the number of the call, so nothing is assumed of them.
\<close>

section \<open>Results\<close>

datatype ConnectorErrorKind = AUTHENTICATION | VALIDATION | NOT_FOUND | CONFLICT | RATE_LIMITED
  | UNAVAILABLE | TIMEOUT | REMOTE_REJECTED | INTERNAL

record SyncResult =
  sr_ok :: bool
  sr_detail :: string
  sr_error_kind :: "ConnectorErrorKind option"
  sr_retryable :: bool

definition classify_result :: "SyncResult \<Rightarrow> SyncResult" where
  "classify_result r =
    (if sr_ok r \<or> sr_error_kind r \<noteq> None then r
     else
       (let lowered = lower (sr_detail r);
            has = (\<lambda>items. \<exists>i \<in> set items. contains_str i lowered) in
        if has [''timeout'', ''timed out''] then r\<lparr>sr_error_kind := Some TIMEOUT, sr_retryable := True\<rparr>
        else if has [''unauthorized'', ''forbidden'', ''authentication'', ''credential'']
          then r\<lparr>sr_error_kind := Some AUTHENTICATION\<rparr>
        else if has [''unreachable'', ''connection'', ''network'', ''http error'', ''ssh error'']
          then r\<lparr>sr_error_kind := Some UNAVAILABLE, sr_retryable := True\<rparr>
        else if has [''requires'', ''cannot safely'', ''rejects the username'']
          then r\<lparr>sr_error_kind := Some VALIDATION\<rparr>
        else if has [''not found''] then r\<lparr>sr_error_kind := Some NOT_FOUND\<rparr>
        else r\<lparr>sr_error_kind := Some REMOTE_REJECTED\<rparr>))"

definition sync_result :: "bool \<Rightarrow> string \<Rightarrow> SyncResult" where
  "sync_result b detail = classify_result
     \<lparr>sr_ok = b, sr_detail = detail, sr_error_kind = None, sr_retryable = False\<rparr>"

record IdentityCapabilities =
  cap_email :: bool
  cap_email_required :: bool
  cap_display_name :: bool
  cap_display_name_required :: bool
  cap_password :: bool
  cap_public_key :: bool

record IdentityValidation =
  iv_ok :: bool
  iv_detail :: string

record RemoteAccount =
  ra_username :: string
  ra_display_name :: string
  ra_email :: string
  ra_status :: string
  ra_uid :: "int option"

record AccountDiscovery =
  ad_supported :: bool
  ad_accounts :: "RemoteAccount list"
  ad_detail :: string

record DryRunResult =
  dr_supported :: bool
  dr_actions :: "string list"
  dr_blockers :: "string list"
  dr_detail :: string

section \<open>The connector\<close>

record Connector =
  c_target_id :: string
  c_target_type :: TargetType
  c_display_name :: string
  c_capabilities :: IdentityCapabilities
  c_inspection_capabilities :: InspectionCapabilities
  c_ensure_supported :: bool
  c_disable_supported :: bool
  c_delete_supported :: bool
  c_allow_relaxed_usernames :: bool  \<comment> \<open>read by the SSH connector only\<close>
  c_default_memberships :: "string set"
  c_ensure_user :: "nat \<Rightarrow> ManagedUser \<Rightarrow> string option \<Rightarrow> string set \<Rightarrow> SyncResult"
  c_disable_user :: "nat \<Rightarrow> ManagedUser \<Rightarrow> string set \<Rightarrow> SyncResult"
  c_delete_user :: "nat \<Rightarrow> ManagedUser \<Rightarrow> SyncResult"
  c_probe :: "nat \<Rightarrow> SyncResult"
  c_snapshot :: "(nat \<Rightarrow> ManagedUser \<Rightarrow> string + RemoteIdentitySnapshot) option"
  c_discover :: "(nat \<Rightarrow> AccountDiscovery) option"

datatype ConnectorOperation = CO_ENSURE | CO_DISABLE | CO_DELETE

definition connector_operation_value :: "ConnectorOperation \<Rightarrow> string" where
  "connector_operation_value oper = (case oper of
     CO_ENSURE \<Rightarrow> ''ensure'' | CO_DISABLE \<Rightarrow> ''disable'' | CO_DELETE \<Rightarrow> ''delete'')"

text \<open>\<open>[A-Za-z0-9][A-Za-z0-9_.@+-]{0,63}\<close>\<close>

definition username_ok :: "string \<Rightarrow> bool" where
  "username_ok s = (case s of [] \<Rightarrow> False | c # cs \<Rightarrow>
     is_alnum c \<and> length cs \<le> 63 \<and> (\<forall>x \<in> set cs. is_alnum x \<or> x \<in> set ''_.@+-''))"

definition valid_identity :: IdentityValidation where
  "valid_identity = \<lparr>iv_ok = True, iv_detail = []\<rparr>"

definition invalid_identity :: "string list \<Rightarrow> IdentityValidation" where
  "invalid_identity detail = \<lparr>iv_ok = False, iv_detail = cat detail\<rparr>"

definition base_validate_identity :: "Connector \<Rightarrow> ManagedUser \<Rightarrow> IdentityValidation" where
  "base_validate_identity c u =
    (if \<not> username_ok (u_username u) then
       invalid_identity [c_display_name c, '' rejects the username'']
     else if cap_email_required (c_capabilities c) \<and> u_email u = [] then
       invalid_identity [c_display_name c, '' requires email'']
     else if cap_display_name_required (c_capabilities c) \<and> u_display_name u = [] then
       invalid_identity [c_display_name c, '' requires display name'']
     else valid_identity)"

text \<open>\<open>str.isidentifier\<close> on ASCII text: a letter or an underscore, then letters, digits
  and underscores.\<close>

definition is_identifier :: "string \<Rightarrow> bool" where
  "is_identifier s = (case s of [] \<Rightarrow> False | c # cs \<Rightarrow>
     (is_lower c \<or> is_upper c \<or> c = CHR ''_'') \<and> (\<forall>x \<in> set cs. is_alnum x \<or> x = CHR ''_''))"

definition ssh_validate_identity :: "Connector \<Rightarrow> ManagedUser \<Rightarrow> IdentityValidation" where
  "ssh_validate_identity c u =
    (let n = u_username u in
     if (\<exists>ch \<in> set n. ch \<in> {CHR '':'', CHR 0x0A, CHR 0x0D, CHR ''/'', CHR 0x00}) \<or> n = []
        \<or> length n > 32 then
       invalid_identity [c_display_name c, '' cannot safely represent the username'']
     else if \<not> c_allow_relaxed_usernames c \<and>
             \<not> is_identifier (map (\<lambda>ch. if ch = CHR ''-'' then CHR ''_'' else ch) n) then
       invalid_identity [c_display_name c, '' requires a portable Unix username'']
     else valid_identity)"

definition validate_identity :: "Connector \<Rightarrow> ManagedUser \<Rightarrow> IdentityValidation" where
  "validate_identity c u =
    (if c_target_type c = SSH then ssh_validate_identity c u else base_validate_identity c u)"

definition lifecycle_operation_for :: "ManagedUser \<Rightarrow> bool \<Rightarrow> bool \<Rightarrow> ConnectorOperation" where
  "lifecycle_operation_for u delete disable =
    (if delete \<or> u_desired_action u = DA_DELETE \<or> u_deleted_at u \<noteq> None then CO_DELETE
     else if disable \<or> u_status u = US_DISABLED \<or> u_password_decision_kind u = PD_EXPIRED
       then CO_DISABLE
     else CO_ENSURE)"

definition supports_operation :: "Connector \<Rightarrow> ConnectorOperation \<Rightarrow> bool" where
  "supports_operation c oper = (case oper of CO_ENSURE \<Rightarrow> c_ensure_supported c
     | CO_DISABLE \<Rightarrow> c_disable_supported c | CO_DELETE \<Rightarrow> c_delete_supported c)"

definition unsupported_operation_detail :: "Connector \<Rightarrow> ConnectorOperation \<Rightarrow> string" where
  "unsupported_operation_detail c oper =
     cat [c_display_name c, '' declares '', connector_operation_value oper, '' unsupported.'']"

definition inspect_user_for_assignment ::
  "(string \<Rightarrow> string option) \<Rightarrow> Connector \<Rightarrow> nat \<Rightarrow> ManagedUser \<Rightarrow> string list \<Rightarrow> string set
     \<Rightarrow> ReconciliationReport" where
  "inspect_user_for_assignment fp c t u keys memberships =
    (case c_snapshot c of
       None \<Rightarrow> unavailable_report fp (c_target_id c) (c_display_name c) u keys
                 (c_inspection_capabilities c) ''Connector inspection is not implemented.'' {}
     | Some observe \<Rightarrow>
         (case observe t u of
            Inl detail \<Rightarrow> unavailable_report fp (c_target_id c) (c_display_name c) u keys
                            (c_inspection_capabilities c) detail memberships
          | Inr snap \<Rightarrow> compare_snapshot fp (c_target_id c) (c_display_name c) u keys
                          (c_inspection_capabilities c) snap memberships))"

definition discover_accounts :: "Connector \<Rightarrow> nat \<Rightarrow> AccountDiscovery" where
  "discover_accounts c t =
    (case c_discover c of Some f \<Rightarrow> f t
     | None \<Rightarrow> \<lparr>ad_supported = False, ad_accounts = [],
                ad_detail = ''Connector account discovery is not implemented.''\<rparr>)"

definition plan_user ::
  "(string \<Rightarrow> string option) \<Rightarrow> Connector \<Rightarrow> nat \<Rightarrow> ManagedUser \<Rightarrow> string list \<Rightarrow> string set
     \<Rightarrow> DryRunResult" where
  "plan_user fp c t u keys memberships =
    (if c_snapshot c = None then
       \<lparr>dr_supported = False, dr_actions = [], dr_blockers = [],
        dr_detail = ''Connector dry-run planning is unsupported.''\<rparr>
     else
       (let report = inspect_user_for_assignment fp c t u keys memberships;
            operation = lifecycle_operation_for u False False;
            named = (\<lambda>text st. map (\<lambda>f. cat [text, field_value (fc_field f)])
                       (filter (\<lambda>f. fc_state f = st) (rep_fields report))) in
        \<lparr>dr_supported = True,
         dr_actions = named ''set '' DRIFT,
         dr_blockers = (if supports_operation c operation then []
                        else [unsupported_operation_detail c operation])
                       @ named ''cannot observe '' DS_UNKNOWN,
         dr_detail = rep_detail report\<rparr>))"

fun validate_for_targets :: "ManagedUser \<Rightarrow> Connector list \<Rightarrow> IdentityValidation" where
  "validate_for_targets u [] = valid_identity"
| "validate_for_targets u (c # cs) =
    (let result = validate_identity c u in
     if \<not> iv_ok result then result else validate_for_targets u cs)"

section \<open>What every supported target accepts\<close>

text \<open>\<open>[a-z](?:[a-z0-9_-]{0,30}[a-z0-9])?\<close>\<close>

definition universal_username_ok :: "string \<Rightarrow> bool" where
  "universal_username_ok s = (case s of [] \<Rightarrow> False | c # cs \<Rightarrow>
     is_lower c \<and>
     (cs = [] \<or> (length cs \<le> 31 \<and> (is_lower (last cs) \<or> is_digit (last cs)) \<and>
        (\<forall>x \<in> set (butlast cs). is_lower x \<or> is_digit x \<or> x \<in> set ''_-''))))"

definition identity_capabilities ::
  "bool \<Rightarrow> bool \<Rightarrow> bool \<Rightarrow> bool \<Rightarrow> bool \<Rightarrow> bool \<Rightarrow> IdentityCapabilities" where
  "identity_capabilities e er dn dr p k = \<lparr>cap_email = e, cap_email_required = er,
     cap_display_name = dn, cap_display_name_required = dr, cap_password = p, cap_public_key = k\<rparr>"

definition class_capabilities :: "TargetType \<Rightarrow> IdentityCapabilities" where
  "class_capabilities t = (case t of
     OPNSENSE \<Rightarrow> identity_capabilities True False True False True False
   | NEXUS \<Rightarrow> identity_capabilities True True True True True False
   | NEXTCLOUD \<Rightarrow> identity_capabilities True False True False True False
   | SSH \<Rightarrow> identity_capabilities False False True False True True
   | GITLAB \<Rightarrow> identity_capabilities True True True True True False
   | GITEA \<Rightarrow> identity_capabilities True True True False True False
   | IMMICH \<Rightarrow> identity_capabilities True True True True True False
   | JENKINS \<Rightarrow> identity_capabilities False False False False True False
   | NPM \<Rightarrow> identity_capabilities True True True True True False)"

definition connector_classes :: "TargetType list" where
  "connector_classes = [OPNSENSE, NEXUS, NEXTCLOUD, SSH, GITLAB, GITEA, IMMICH, JENKINS, NPM]"

definition universal_requirements :: "bool \<times> bool" where
  "universal_requirements =
    (list_ex (\<lambda>t. cap_email_required (class_capabilities t)) connector_classes,
     list_ex (\<lambda>t. cap_display_name_required (class_capabilities t)) connector_classes)"

definition validate_universal_identity :: "ManagedUser \<Rightarrow> IdentityValidation" where
  "validate_universal_identity u =
    (if \<not> universal_username_ok (u_username u) then
       invalid_identity [''Username must be a portable Unix name usable on every supported '',
         ''target: start with a letter; lowercase letters, digits, '',
         ''underscores or hyphens; end with a letter or digit; at most 32 characters'']
     else if fst universal_requirements \<and> strip (u_email u) = [] then
       invalid_identity [''Email is required because supported target types require it'']
     else if snd universal_requirements \<and> strip (u_display_name u) = [] then
       invalid_identity [''Display name is required because supported target types require it'']
     else valid_identity)"

lemma universal_requirements_eq: "universal_requirements = (True, True)"
  by (simp add: universal_requirements_def connector_classes_def class_capabilities_def
      identity_capabilities_def)

lemma is_lower_alnum: "is_lower c \<Longrightarrow> is_alnum c" "is_digit c \<Longrightarrow> is_alnum c"
  by (simp_all add: is_alnum_def)

lemma universal_username_chars:
  assumes "universal_username_ok s"
  shows "\<exists>c cs. s = c # cs \<and> is_lower c \<and> length cs \<le> 31 \<and>
    (\<forall>x \<in> set cs. is_lower x \<or> is_digit x \<or> x \<in> set ''_-'')"
proof -
  obtain c cs where s: "s = c # cs" using assms by (cases s) (auto simp: universal_username_ok_def)
  have "x \<in> set (butlast cs) \<or> x = last cs" if "x \<in> set cs" for x
    using that by (cases cs rule: rev_cases) auto
  then show ?thesis using assms s by (cases "cs = []") (auto simp: universal_username_ok_def)
qed

section \<open>The environment of the handlers\<close>

text \<open>Beside the clock and the settings the environment holds what the program takes from its
  libraries: Fernet encryption, bcrypt, digests, the text of an instant and of a JSON payload, the
  outcome of an HTTP or SMTP exchange (an error's class name, or a status), the construction of a
  connector from a configured target and its decrypted credentials, the parsers of dates and of SSH
  keys, the digest of a base64 text, random draws and tokens (functions of the counter), the
  HMAC-SHA-1 of a counter under a base32 secret, and the answers of the WebAuthn library: the new
  signature count of an assertion for a challenge, a public key and a count, and the identifier, key and count
  of a registration.\<close>

record Env =
  now :: time
  monotonic :: time
  settings :: Settings
  encrypt_secret :: "string \<Rightarrow> string"
  decrypt_secret :: "string \<Rightarrow> string"
  hash_password :: "string \<Rightarrow> string"
  verify_password :: "string \<Rightarrow> string \<Rightarrow> bool"
  sha256_hex :: "string \<Rightarrow> string"
  sha256_digest :: "string \<Rightarrow> string"
  b64_sha256 :: "string \<Rightarrow> string option"
  parse_public_key :: "string \<Rightarrow> (KeyAlgorithm option \<times> nat) option"
  public_key_from_private :: "string \<Rightarrow> string option"
  generate_ssh_keypair :: "nat \<Rightarrow> string \<times> string"
  parse_date :: "string \<Rightarrow> int option"
  parse_datetime :: "string \<Rightarrow> time option"
  draw :: "nat \<Rightarrow> nat \<Rightarrow> nat"
  shuffle :: "nat \<Rightarrow> string \<Rightarrow> string"
  token_b32 :: "nat \<Rightarrow> string"
  token_hex :: "nat \<Rightarrow> string"
  token_urlsafe :: "nat \<Rightarrow> string"
  hmac_sha1 :: "string \<Rightarrow> nat \<Rightarrow> 8 word list"
  verify_assertion :: "nat \<Rightarrow> string \<Rightarrow> string \<Rightarrow> nat \<Rightarrow> nat option"
  verify_registration :: "nat \<Rightarrow> string \<Rightarrow> (string \<times> string \<times> nat) option"
  isoformat :: "time \<Rightarrow> string"
  payload_text :: "Payload \<Rightarrow> string"
  hmac_sha256_hex :: "string \<Rightarrow> string \<Rightarrow> string"
  http_post :: "nat \<Rightarrow> WebhookEndpoint \<Rightarrow> (string \<times> string) list \<Rightarrow> string \<Rightarrow> string + nat"
  send_email :: "nat \<Rightarrow> EmailChannel \<Rightarrow> string \<Rightarrow> string \<Rightarrow> string \<Rightarrow> string option"
  seal_payload :: "(string \<times> string) list \<Rightarrow> string"
  open_payload :: "string \<Rightarrow> (string \<times> string) list"
  build_connector :: "Target \<Rightarrow> (string \<times> string) list \<Rightarrow> Connector"
  legacy_connectors :: "Connector list"

definition file_config :: "Env \<Rightarrow> FileConfig" where
  "file_config e = s_file (settings e)"

definition target_definitions :: "Env \<Rightarrow> Target list" where
  "target_definitions e = filter tg_enabled (fc_targets (file_config e))"

definition get_credential :: "string \<Rightarrow> db \<Rightarrow> TargetCredential option" where
  "get_credential k d = rows_get tc_target_id k (credentials d)"
definition upd_credential :: "string \<Rightarrow> (TargetCredential \<Rightarrow> TargetCredential) \<Rightarrow> db \<Rightarrow> db" where
  "upd_credential k f d = d\<lparr>credentials := rows_upd tc_target_id k f (credentials d)\<rparr>"

interpretation credential_table: keyed_rows get_credential upd_credential tc_target_id
  by (rule keyed_rowsI [where rows = credentials]) (simp_all add: get_credential_def upd_credential_def)

definition credential_payload :: "Env \<Rightarrow> string \<Rightarrow> bool \<Rightarrow> db \<Rightarrow> (string \<times> string) list option" where
  "credential_payload e target_id verified_only d =
    (case get_credential target_id d of
       None \<Rightarrow> None
     | Some row \<Rightarrow> if verified_only \<and> tc_verified_at row = None then None
                   else Some (open_payload e (tc_encrypted_payload row)))"

definition get_connectors :: "Env \<Rightarrow> db \<Rightarrow> Connector list" where
  "get_connectors e d =
    (if s_config_file (settings e) then
       List.map_filter
         (\<lambda>t. if \<not> tg_enabled t then None
              else map_option (build_connector e t) (credential_payload e (tg_id t) True d))
         (fc_targets (file_config e))
     else legacy_connectors e)"

definition build_unverified_connector :: "Env \<Rightarrow> string \<Rightarrow> db \<Rightarrow> Connector option" where
  "build_unverified_connector e target_id d =
    (case (find (\<lambda>t. tg_id t = target_id) (target_definitions e),
           credential_payload e target_id False d) of
       (Some t, Some payload) \<Rightarrow> Some (build_connector e t payload)
     | _ \<Rightarrow> None)"  \<comment> \<open>\<open>None\<close>: ValueError, target credentials are incomplete\<close>

definition connector_for :: "string \<Rightarrow> Connector list \<Rightarrow> Connector option" where
  "connector_for t cs = find (\<lambda>c. c_target_id c = t) (rev cs)"

section \<open>A sample target\<close>

text \<open>The connector of one target that accepts every call.\<close>

definition sample_connector :: Connector where
  "sample_connector =
    \<lparr>c_target_id = ''gitea'', c_target_type = GITEA, c_display_name = ''Gitea'',
     c_capabilities = class_capabilities GITEA,
     c_inspection_capabilities = \<lparr>ic_display_name = True, ic_email = True, ic_status = True,
       ic_memberships = False, ic_public_key = False, ic_memberships_exact = True\<rparr>,
     c_ensure_supported = True, c_disable_supported = True, c_delete_supported = True,
     c_allow_relaxed_usernames = False, c_default_memberships = {},
     c_ensure_user = (\<lambda>_ _ _ _. sync_result True ''saved''),
     c_disable_user = (\<lambda>_ _ _. sync_result True ''disabled''),
     c_delete_user = (\<lambda>_ _. sync_result True ''deleted''),
     c_probe = (\<lambda>_. sync_result True ''reachable''),
     c_snapshot = None, c_discover = None\<rparr>"

section \<open>Properties\<close>

lemma universal_identity_one:
  assumes "iv_ok (validate_universal_identity u)" "c_capabilities c = class_capabilities (c_target_type c)"
  shows "iv_ok (validate_identity c u)"
proof -
  have ok: "universal_username_ok (u_username u)" "strip (u_email u) \<noteq> []" "strip (u_display_name u) \<noteq> []"
    using assms(1) by (auto simp: validate_universal_identity_def universal_requirements_eq
        invalid_identity_def split: if_splits)
  have present: "u_email u \<noteq> []" "u_display_name u \<noteq> []" using ok(2,3) by (auto simp: strip_def)
  obtain x xs where n: "u_username u = x # xs" "is_lower x" "length xs \<le> 31"
    and xs: "\<forall>y \<in> set xs. is_lower y \<or> is_digit y \<or> y \<in> set ''_-''"
    using universal_username_chars [OF ok(1)] by blast
  have base: "username_ok (u_username u)"
    using n xs by (auto simp: username_ok_def is_alnum_def)
  have sep: "\<not> is_lower y \<and> \<not> is_digit y \<and> y \<notin> set ''_-''"
    if "y \<in> {CHR '':'', CHR 0x0A, CHR 0x0D, CHR ''/'', CHR 0x00}" for y
    using that by (auto simp: is_lower_def is_digit_def in_range_def)
  have safe: "\<not> (\<exists>y \<in> set (u_username u). y \<in> {CHR '':'', CHR 0x0A, CHR 0x0D, CHR ''/'', CHR 0x00})"
    using n xs sep by (metis set_ConsD)
  have ident: "is_identifier (map (\<lambda>ch. if ch = CHR ''-'' then CHR ''_'' else ch) (u_username u))"
  proof -
    have "x \<noteq> CHR ''-''" using n(2) by (auto simp: is_lower_def in_range_def)
    then show ?thesis using n xs by (auto simp: is_identifier_def is_alnum_def)
  qed
  show ?thesis
  proof (cases "c_target_type c = SSH")
    case True
    have len: "u_username u \<noteq> [] \<and> \<not> length (u_username u) > 32" using n by simp
    show ?thesis
      using True safe ident len by (simp add: validate_identity_def ssh_validate_identity_def
          valid_identity_def Let_def del: n)
  next
    case False
    then show ?thesis
      using base present by (simp add: validate_identity_def base_validate_identity_def valid_identity_def)
  qed
qed

text \<open>A universally valid identity is valid everywhere.  An account that passes
  \<open>validate_universal_identity\<close> passes the validation of every connector class, with or without relaxed
  SSH names, so a user created today can be assigned to any list of targets later.\<close>

theorem universal_identity_accepted:
  assumes "iv_ok (validate_universal_identity u)"
    and "\<forall>c \<in> set cs. c_capabilities c = class_capabilities (c_target_type c)"
  shows "iv_ok (validate_for_targets u cs)"
  using assms(2)
proof (induction cs)
  case (Cons c cs)
  then show ?case using universal_identity_one [OF assms(1), of c] by (simp add: Let_def)
qed (simp add: valid_identity_def)

theorem universal_identity_accepted_witness:
  "iv_ok (validate_universal_identity sample_user) \<and>
   iv_ok (validate_for_targets sample_user [sample_connector, sample_connector\<lparr>c_target_type := SSH,
     c_capabilities := class_capabilities SSH\<rparr>])"
proof -
  have valid: "iv_ok (validate_universal_identity sample_user)"
    by (simp add: validate_universal_identity_def universal_requirements_eq universal_username_ok_def
        sample_user_def strip_def is_space_def is_lower_def in_range_def valid_identity_def)
  have "\<forall>c \<in> set [sample_connector, sample_connector\<lparr>c_target_type := SSH,
      c_capabilities := class_capabilities SSH\<rparr>]. c_capabilities c = class_capabilities (c_target_type c)"
    by (simp add: sample_connector_def)
  from universal_identity_accepted [OF valid this] valid show ?thesis by blast
qed

text \<open>The comparison does not know about expired passwords.  For an active user whose password has
  expired the connector operation is to disable the account, yet a target that has
  disabled it is reported as drifted on its status; a repair disables it again.\<close>

theorem expired_account_always_drifts:
  assumes "desired_present u" "u_status u = US_ACTIVE" "u_password_decision_kind u = PD_EXPIRED"
    and "ic_status c" "rs_present snap = Some True" "rs_status snap = Some ''disabled''"
  shows "lifecycle_operation_for u False False = CO_DISABLE \<and>
    report_status (compare_snapshot fp t n u ks c snap required) = DRIFTED"
  using assms
  by (simp add: lifecycle_operation_for_def desired_present_def report_status_drifted_iff
      compare_snapshot_def compare_text_def compare_field_def supported_def Let_def)

theorem expired_account_always_drifts_witness:
  "report_status (compare_snapshot Some ''t'' ''T''
     (sample_user\<lparr>u_password_decision_kind := PD_EXPIRED, u_password_decision_required := True\<rparr>) []
     sample_inspection (sample_snapshot\<lparr>rs_status := Some ''disabled''\<rparr>) {''staff''}) = DRIFTED"
proof -
  let ?u = "sample_user\<lparr>u_password_decision_kind := PD_EXPIRED, u_password_decision_required := True\<rparr>"
  have "desired_present ?u" "u_status ?u = US_ACTIVE" "u_password_decision_kind ?u = PD_EXPIRED"
    "ic_status sample_inspection" "rs_present (sample_snapshot\<lparr>rs_status := Some ''disabled''\<rparr>) = Some True"
    "rs_status (sample_snapshot\<lparr>rs_status := Some ''disabled''\<rparr>) = Some ''disabled''"
    by (simp_all add: sample_user_def desired_present_def sample_inspection_def sample_snapshot_def)
  from expired_account_always_drifts [OF this] show ?thesis by blast
qed

end
