(* ===== verification/Session.thy ===== *)
theory Session
  imports Connectors
begin

text \<open>
  Requests, responses and the signed-in principal: \<open>current_user\<close> and
  \<open>permission_guard\<close> of \<open>src/na_sso/auth.py\<close>, which every console handler runs
  first, the two MFA predicates of \<open>src/na_sso/mfa.py\<close> they rest on, and the responses of
  \<open>src/na_sso/feedback.py\<close>.  Cookies are signed by a library; a request
  carries the decoded contents of those whose signature is valid, with the instant of signing.
\<close>

record SessionCookie =
  ck_id :: id
  ck_v :: nat
  ck_mfa :: bool
  ck_auth_at :: int      \<comment> \<open>whole seconds\<close>
  ck_issued_at :: time

record PendingCookie =
  pn_id :: id
  pn_v :: nat
  pn_auth_at :: int
  pn_issued_at :: time

record TotpSetupCookie =
  ts_id :: id
  ts_secret :: string
  ts_issued_at :: time

record ChallengeCookie =
  cc_id :: id
  cc_challenge :: string
  cc_registration :: bool  \<comment> \<open>signed for a registration, not for a login\<close>
  cc_issued_at :: time

record Request =
  rq_session :: "SessionCookie option"
  rq_pending :: "PendingCookie option"
  rq_totp_setup :: "TotpSetupCookie option"
  rq_challenge :: "ChallengeCookie option"
  rq_authorization :: string
  rq_client :: string
  rq_method :: string
  rq_path :: string

text \<open>A response is a redirect, a redirect that carries a one-time feedback message
  (destination, title, message, level), a page (template, status, error text), a page that
  shows texts once (template, texts), a plain text with its status, a JSON answer (status, text), or
  the answer to an exception no handler caught; cookies may be set on it or deleted by it.\<close>

datatype Response =
    Redirect string
  | Feedback string string string string
  | Page string nat string
  | Shown string "string list"
  | Json nat string
  | Plain string nat
  | ServerError string
  | WithSession SessionCookie Response
  | WithPending PendingCookie Response
  | WithTotpSetup TotpSetupCookie Response
  | WithChallenge ChallengeCookie Response
  | ClearCookie string Response

definition seconds_of :: "time \<Rightarrow> int" where
  "seconds_of t = t div second"

definition MAX_AGE :: time where "MAX_AGE = 12 * 3600 * second"

record Principal =
  pr_id :: id
  pr_username :: string
  pr_role :: string
  pr_password_decision_kind :: PasswordDecisionKind
  pr_password_keep_count :: nat
  pr_restricted :: bool
  pr_session_version :: nat
  pr_mfa_verified :: bool
  pr_authenticated_at :: int

definition principal_of :: "ManagedUser \<Rightarrow> SessionCookie \<Rightarrow> Principal" where
  "principal_of u ck =
    \<lparr>pr_id = u_id u, pr_username = u_username u, pr_role = u_role u,
     pr_password_decision_kind = u_password_decision_kind u,
     pr_password_keep_count = u_password_keep_count u,
     pr_restricted = u_password_decision_required u, pr_session_version = u_session_version u,
     pr_mfa_verified = ck_mfa ck, pr_authenticated_at = ck_auth_at ck\<rparr>"

definition current_user :: "Env \<Rightarrow> Request \<Rightarrow> db \<Rightarrow> Principal option" where
  "current_user e req d =
    (case rq_session req of
       None \<Rightarrow> None
     | Some ck \<Rightarrow>
         if now e - ck_issued_at ck > MAX_AGE then None
         else (case get_user (ck_id ck) d of
           None \<Rightarrow> None
         | Some account \<Rightarrow>
             if u_status account \<noteq> US_ACTIVE \<or> u_desired_action account = DA_DELETE
                \<or> u_session_version account \<noteq> ck_v ck
             then None
             else Some (principal_of account ck)))"

definition operator :: "string \<Rightarrow> bool" where
  "operator role \<longleftrightarrow>
    (let c = permission_context role in pc_users c \<or> pc_targets c \<or> pc_audit c \<or> pc_roles c)"

definition get_mfa :: "id \<Rightarrow> db \<Rightarrow> AdminMfa option" where
  "get_mfa uid d = rows_get am_user_id uid (mfas d)"
definition upd_mfa :: "id \<Rightarrow> (AdminMfa \<Rightarrow> AdminMfa) \<Rightarrow> db \<Rightarrow> db" where
  "upd_mfa uid f d = d\<lparr>mfas := rows_upd am_user_id uid f (mfas d)\<rparr>"

interpretation mfa_table: keyed_rows get_mfa upd_mfa am_user_id
  by (rule keyed_rowsI [where rows = mfas]) (simp_all add: get_mfa_def upd_mfa_def)

definition has_text :: "string option \<Rightarrow> bool" where  \<comment> \<open>the truth of an optional text\<close>
  "has_text s \<longleftrightarrow> s \<noteq> None \<and> s \<noteq> Some []"

definition account_has_mfa :: "id \<Rightarrow> db \<Rightarrow> bool" where
  "account_has_mfa uid d \<longleftrightarrow>
     (case get_mfa uid d of None \<Rightarrow> False | Some row \<Rightarrow> has_text (am_totp_secret row))
     \<or> list_ex (\<lambda>c. wc_user_id c = uid) (passkeys d)"

definition mfa_policy :: "Env \<Rightarrow> AdminMfaPolicy" where
  "mfa_policy e = fc_admin_mfa_policy (file_config e)"

definition account_requires_mfa :: "Env \<Rightarrow> id \<Rightarrow> string \<Rightarrow> db \<Rightarrow> bool" where
  "account_requires_mfa e uid role d \<longleftrightarrow>
     operator role \<and> (mf_required (mfa_policy e) \<or> account_has_mfa uid d)"

definition permission_guard :: "Env \<Rightarrow> Request \<Rightarrow> permission \<Rightarrow> db \<Rightarrow> Response + Principal" where
  "permission_guard e req p d =
    (case current_user e req d of
       None \<Rightarrow> Inl (Redirect ''/login'')
     | Some account \<Rightarrow>
         if \<not> has_permission (pr_role account) p then Inl (Plain ''Forbidden'' 403)
         else if account_requires_mfa e (pr_id account) (pr_role account) d
                 \<and> \<not> pr_mfa_verified account
           then Inl (Redirect ''/account/mfa'')
         else Inr account)"

definition set_session_cookie ::
  "Env \<Rightarrow> ManagedUser \<Rightarrow> bool \<Rightarrow> int option \<Rightarrow> Response \<Rightarrow> Response" where
  "set_session_cookie e u mfa_verified authenticated_at resp =
    WithSession \<lparr>ck_id = u_id u, ck_v = u_session_version u, ck_mfa = mfa_verified,
       ck_auth_at = (case authenticated_at of
          None \<Rightarrow> seconds_of (now e)
        | Some a \<Rightarrow> if a = 0 then seconds_of (now e) else a),
       ck_issued_at = now e\<rparr> resp"

text \<open>The level of a feedback message is one of three.\<close>

definition redirect_with_feedback :: "string \<Rightarrow> string \<Rightarrow> string \<Rightarrow> string \<Rightarrow> Response" where
  "redirect_with_feedback destination title message level =
     Feedback destination title message
       (if level \<in> {''success'', ''danger'', ''info''} then level else ''info'')"

text \<open>A handler of the console: nothing happens to the database unless the guard passes.\<close>

definition guarded ::
  "Env \<Rightarrow> Request \<Rightarrow> permission \<Rightarrow> (Principal \<Rightarrow> db \<Rightarrow> Response \<times> db) \<Rightarrow> db \<Rightarrow> Response \<times> db" where
  "guarded e req p body d =
    (case permission_guard e req p d of Inl resp \<Rightarrow> (resp, d) | Inr pr \<Rightarrow> body pr d)"

lemma guarded_Inl: "permission_guard e req p d = Inl resp \<Longrightarrow> guarded e req p body d = (resp, d)"
  by (simp add: guarded_def)

lemma guarded_Inr: "permission_guard e req p d = Inr pr \<Longrightarrow> guarded e req p body d = body pr d"
  by (simp add: guarded_def)

lemma permission_guard_InrD:
  assumes "permission_guard e req p d = Inr pr"
  shows "current_user e req d = Some pr" "has_permission (pr_role pr) p"
    "account_requires_mfa e (pr_id pr) (pr_role pr) d \<Longrightarrow> pr_mfa_verified pr"
  using assms by (auto simp: permission_guard_def split: option.splits if_splits)

lemma current_user_SomeD:
  assumes "current_user e req d = Some pr"
  shows "\<exists>ck u. rq_session req = Some ck \<and> get_user (ck_id ck) d = Some u \<and>
    u_status u = US_ACTIVE \<and> u_desired_action u \<noteq> DA_DELETE \<and>
    u_session_version u = ck_v ck \<and> now e - ck_issued_at ck \<le> MAX_AGE \<and> pr = principal_of u ck"
  using assms by (auto simp: current_user_def split: option.splits if_splits)

end
