(* ===== verification/Samples.thy ===== *)
theory Samples
  imports Session
begin

text \<open>
  Concrete values the witnesses evaluate the definitions on: the default configuration, an
  environment whose library functions are simple computable ones, and a database with the sample
  user and one assigned state.
\<close>

definition sample_file :: FileConfig where
  "sample_file =
    \<lparr>fc_password_policy = default_password_policy,
     fc_ssh_key_policy = default_ssh_key_policy,
     fc_audit_policy = \<lparr>aup_retention_days = Some 365, aup_export_page_size = 500\<rparr>,
     fc_reconciliation_policy = \<lparr>rp_enabled = False, rp_interval_seconds = 3600,
       rp_scan_seconds = 60, rp_retry_base_seconds = 60, rp_retry_max_seconds = 3600,
       rp_max_attempts = 5, rp_max_users_per_run = 100\<rparr>,
     fc_unmanaged_account_policy = \<lparr>um_enabled = True, um_max_accounts_per_target = 1000,
       um_ssh_min_uid = 1000,
       um_excluded_usernames = [''root'', ''nobody'', ''sync'', ''shutdown'', ''halt''],
       um_excluded_prefixes = [''_'', ''systemd-'', ''svc-''], um_allow_removal = False\<rparr>,
     fc_lifecycle_automation_policy = \<lparr>la_scan_seconds = 60,
       la_default_review_interval_days = 90, la_reminder_days_before_due = 7,
       la_max_review_accounts = 1000\<rparr>,
     fc_bulk_import_policy = \<lparr>bi_max_rows = 1000, bi_row_byte_allowance = 2048\<rparr>,
     fc_automation_api_policy = \<lparr>aa_enabled = True, aa_requests_per_minute = 120,
       aa_max_page_size = 100, aa_idempotency_retention_hours = 24, aa_default_token_days = 90,
       aa_max_token_days = 365\<rparr>,
     fc_admin_mfa_policy = \<lparr>mf_required = False, mf_allowed_methods = [WEBAUTHN, TOTP],
       mf_issuer = ''NA-SSO'', mf_rp_id = None, mf_expected_origin = None,
       mf_reauthentication_minutes = 10\<rparr>,
     fc_notification_policy = \<lparr>np_enabled = False, np_persistent_failure_attempts = 3,
       np_max_attempts = 5, np_retry_base_seconds = 30, np_retry_max_seconds = 3600,
       np_delivery_scan_seconds = 10, np_endpoints = [], np_email_channel = None\<rparr>,
     fc_targets = []\<rparr>"

definition sample_env :: Env where
  "sample_env =
    \<lparr>now = 1000 * day, monotonic = 0,
     settings = \<lparr>s_config_file = False, s_secret_key = ''key'', s_admin_username = ''admin'',
       s_admin_bootstrap_password = ''change-me'', s_root_recovery_code = None, s_retry_base = 5000000, s_retry_max = 300000000,
       s_file = sample_file\<rparr>,
     encrypt_secret = (\<lambda>s. s), decrypt_secret = (\<lambda>s. s), hash_password = rev,
     verify_password = (\<lambda>p h. rev p = h), sha256_hex = rev, sha256_digest = rev,
     b64_sha256 = (\<lambda>k. if k = [] then None else Some k),
     parse_public_key = (\<lambda>k. if k = [] then None else Some (Some ED25519, 256)),
     public_key_from_private = (\<lambda>k. None), generate_ssh_keypair = (\<lambda>t. (''private'', ''public'')),
     parse_date = (\<lambda>s. None), parse_datetime = (\<lambda>s. None),
     draw = (\<lambda>t k. t + k), shuffle = (\<lambda>t s. s), token_b32 = show_nat, token_hex = show_nat,
     token_urlsafe = show_nat, hmac_sha1 = (\<lambda>k c. replicate 20 (of_nat c)),
     verify_assertion = (\<lambda>_ _ _ _. None), verify_registration = (\<lambda>_ _. None),
     isoformat = show_int,
     payload_text = (\<lambda>_. []), hmac_sha256_hex = (\<lambda>k m. k @ m),
     http_post = (\<lambda>_ _ _ _. Inr 200), send_email = (\<lambda>_ _ _ _ _. None),
     seal_payload = (\<lambda>_. []), open_payload = (\<lambda>_. []),
     build_connector = (\<lambda>_ _. sample_connector), legacy_connectors = [sample_connector]\<rparr>"

definition sample_db :: db where
  "sample_db = empty_db\<lparr>users := [sample_user], sync_states := [sample_state]\<rparr>"

lemmas sample_defs = sample_db_def empty_db_def sample_user_def sample_state_def sample_env_def
  sample_connector_def sample_file_def default_password_policy_def default_ssh_key_policy_def
  class_capabilities_def identity_capabilities_def second_def day_def

section \<open>Properties of the guard\<close>

text \<open>C10: What the guard of the console lets through.  A handler behind \<open>permission_guard\<close>
  runs only for a request whose session cookie is at most twelve hours old, names a stored account
  that is active, is not being deleted and has the session version of the cookie, whose stored role has
  the permission, and which has passed MFA where MFA is required of it.\<close>

theorem guard_is_sound:
  assumes "permission_guard e req p d = Inr pr"
  shows "\<exists>ck u. rq_session req = Some ck \<and> now e - ck_issued_at ck \<le> MAX_AGE \<and>
    get_user (ck_id ck) d = Some u \<and> pr_id pr = u_id u \<and> u_status u = US_ACTIVE \<and>
    u_desired_action u \<noteq> DA_DELETE \<and> u_session_version u = ck_v ck \<and>
    has_permission (u_role u) p \<and>
    (operator (u_role u) \<and> (mf_required (mfa_policy e) \<or> account_has_mfa (u_id u) d) \<longrightarrow> ck_mfa ck)"
proof -
  note g = permission_guard_InrD [OF assms]
  obtain ck u where cu: "rq_session req = Some ck" "get_user (ck_id ck) d = Some u"
    "u_status u = US_ACTIVE" "u_desired_action u \<noteq> DA_DELETE" "u_session_version u = ck_v ck"
    "now e - ck_issued_at ck \<le> MAX_AGE" "pr = principal_of u ck"
    using current_user_SomeD [OF g(1)] by metis
  then show ?thesis
    using g(2,3) by (auto simp: principal_of_def account_requires_mfa_def)
qed

definition sample_request :: "bool \<Rightarrow> Request" where
  "sample_request mfa = \<lparr>rq_session = Some \<lparr>ck_id = 1, ck_v = 1, ck_mfa = mfa, ck_auth_at = 0,
     ck_issued_at = 1000 * day\<rparr>, rq_pending = None, rq_totp_setup = None, rq_challenge = None,
     rq_authorization = [], rq_client = [], rq_method = ''POST'', rq_path = ''/''\<rparr>"

definition operator_db :: db where
  "operator_db = sample_db\<lparr>users := [sample_user\<lparr>u_role := ''user_operator''\<rparr>]\<rparr>"

theorem guard_is_sound_witness:
  "\<exists>pr. permission_guard sample_env (sample_request True) MANAGE_USERS operator_db = Inr pr \<and>
     has_permission (u_role (sample_user\<lparr>u_role := ''user_operator''\<rparr>)) MANAGE_USERS"
proof -
  have "\<exists>pr. permission_guard sample_env (sample_request True) MANAGE_USERS operator_db = Inr pr"
    by (simp add: permission_guard_def current_user_def sample_request_def operator_db_def
        sample_defs get_user_def rows_get_def MAX_AGE_def principal_of_def has_permission_iff)
  then obtain pr where pr: "permission_guard sample_env (sample_request True) MANAGE_USERS operator_db = Inr pr"
    by blast
  obtain ck u where "rq_session (sample_request True) = Some ck" "get_user (ck_id ck) operator_db = Some u"
    "has_permission (u_role u) MANAGE_USERS"
    using guard_is_sound [OF pr] by blast
  then show ?thesis
    using pr by (auto simp: sample_request_def operator_db_def sample_defs get_user_def rows_get_def)
qed

end
