(* ===== verification/AuditTrail.thy ===== *)
theory AuditTrail
  imports Samples
begin

text \<open>
  The audit trail: \<open>record_audit\<close> of \<open>src/na_sso/audit.py\<close> and the retention job of
  \<open>src/na_sso/audit_retention.py\<close>.  Every change of the trail is one of these two: an event is
  appended, or the events older than the configured age are removed.
\<close>

definition record_audit ::
  "Env \<Rightarrow> string \<Rightarrow> string \<Rightarrow> string \<Rightarrow> string \<Rightarrow> uuid option \<Rightarrow> db \<Rightarrow> db" where
  "record_audit e actor action subject detail operation_id d =
    d\<lparr>audit := audit d @ [\<lparr>ae_id = next_id ae_id (audit d), ae_at = now e, ae_actor = actor,
       ae_action = action, ae_subject = subject, ae_detail = detail,
       ae_operation_id = operation_id\<rparr>]\<rparr>"

definition enforce_audit_retention :: "AuditPolicy \<Rightarrow> time \<Rightarrow> db \<Rightarrow> nat \<times> db" where
  "enforce_audit_retention policy t d =
    (case aup_retention_days policy of
       None \<Rightarrow> (0, d)
     | Some days \<Rightarrow>
         (let cutoff = t - int days * day;
              old = (\<lambda>ev. ae_at ev < cutoff) in
          (length (filter old (audit d)), d\<lparr>audit := filter (\<lambda>ev. \<not> old ev) (audit d)\<rparr>)))"

definition audit_retention_tick :: "Env \<Rightarrow> db \<Rightarrow> db" where
  "audit_retention_tick e d =
    snd (enforce_audit_retention (fc_audit_policy (file_config e)) (now e) d)"

text \<open>Recording an event changes the trail and nothing else.\<close>

lemma record_audit_frame [simp]:
  "tick (record_audit e a ac s det opid d) = tick d"
  "users (record_audit e a ac s det opid d) = users d"
  "ssh_keys (record_audit e a ac s det opid d) = ssh_keys d"
  "sync_states (record_audit e a ac s det opid d) = sync_states d"
  "operations (record_audit e a ac s det opid d) = operations d"
  "attempts (record_audit e a ac s det opid d) = attempts d"
  "deliveries (record_audit e a ac s det opid d) = deliveries d"
  "endpoint_states (record_audit e a ac s det opid d) = endpoint_states d"
  "credentials (record_audit e a ac s det opid d) = credentials d"
  by (simp_all add: record_audit_def)

lemma record_audit_appends:
  "\<exists>ev. audit (record_audit e a ac s det opid d) = audit d @ [ev] \<and>
     ae_actor ev = a \<and> ae_action ev = ac \<and> ae_subject ev = s \<and> ae_operation_id ev = opid"
  by (simp add: record_audit_def)

end
