(* ===== verification/Notifications.thy ===== *)
theory Notifications
  imports AuditTrail
begin

text \<open>
  The notification queue of \<open>src/na_sso/notifications.py\<close>: queueing an event for the
  subscribed webhook endpoints and the e-mail channel, the delivery worker with its retry schedule,
  and the two console actions.  The lemmas show the frame of queueing (it touches only
  deliveries and the trail) and that queueing never repeats a key of a destination.
\<close>

definition notification_policy :: "Env \<Rightarrow> NotificationPolicy" where
  "notification_policy e = fc_notification_policy (file_config e)"

definition get_endpoint_state :: "string \<Rightarrow> db \<Rightarrow> WebhookEndpointState option" where
  "get_endpoint_state k d = rows_get we_endpoint_id k (endpoint_states d)"

definition endpoint_active :: "WebhookEndpoint \<Rightarrow> db \<Rightarrow> bool" where
  "endpoint_active ep d \<longleftrightarrow> ep_enabled ep \<and>
     \<not> (case get_endpoint_state (ep_id ep) d of None \<Rightarrow> False | Some st \<Rightarrow> we_disabled st)"

definition render_email_notification :: "string \<Rightarrow> string \<Rightarrow> (string \<times> string) option" where
  "render_email_notification event_type subject =
    (if event_type = ''lifecycle.completed'' then
       Some (''Your NA-SSO account is ready'',
         cat [''Hello '', subject, '','', [CHR 0x0A, CHR 0x0A],
           ''Your NA-SSO account has been provisioned or updated and is ready to use.''])
     else if event_type = ''password.expired'' then
       Some (''Your NA-SSO password has expired'',
         cat [''Hello '', subject, '','', [CHR 0x0A, CHR 0x0A],
           ''Your NA-SSO password has expired. Sign in and set a new password.''])
     else if event_type = ''approval.completed'' then
       Some (''Your NA-SSO access request was approved'',
         cat [''Hello '', subject, '','', [CHR 0x0A, CHR 0x0A], ''Your access request was approved.''])
     else None)"

definition delivery_queued :: "string \<Rightarrow> string \<Rightarrow> db \<Rightarrow> bool" where
  "delivery_queued endpoint_id dedupe_key d \<longleftrightarrow>
     list_ex (\<lambda>w. wd_endpoint_id w = endpoint_id \<and> wd_dedupe_key w = dedupe_key) (deliveries d)"

definition new_delivery ::
  "Env \<Rightarrow> uuid \<Rightarrow> string \<Rightarrow> channel \<Rightarrow> string option \<Rightarrow> string \<Rightarrow> string \<Rightarrow> Payload \<Rightarrow> WebhookDelivery" where
  "new_delivery e i endpoint_id ch recipient event_type key payload =
    \<lparr>wd_id = i, wd_endpoint_id = endpoint_id, wd_channel = ch, wd_recipient = recipient,
     wd_event_type = event_type, wd_dedupe_key = key, wd_payload = payload, wd_status = D_PENDING,
     wd_attempt_count = 0, wd_next_attempt_at = Some (now e), wd_last_error = [],
     wd_created_at = now e, wd_delivered_at = None\<rparr>"

definition add_delivery :: "WebhookDelivery \<Rightarrow> db \<Rightarrow> db" where
  "add_delivery w d = next_tick (d\<lparr>deliveries := deliveries d @ [w]\<rparr>)"

text \<open>What an event carries beside its type: actor, subject, key, operation, target, outcome.\<close>

record Event =
  ev_actor :: string
  ev_subject :: string
  ev_dedupe_key :: string
  ev_operation_id :: "uuid option"
  ev_target_id :: "string option"
  ev_outcome :: "string option"

definition enqueue_webhook ::
  "Env \<Rightarrow> string \<Rightarrow> Event \<Rightarrow> uuid \<Rightarrow> WebhookEndpoint \<Rightarrow> nat \<times> db \<Rightarrow> nat \<times> db" where
  "enqueue_webhook e event_type ev event_id ep qd =
    (case qd of (queued, d) \<Rightarrow>
      let key = take 256 (cat [event_type, '':'', ev_dedupe_key ev]) in
      if delivery_queued (ep_id ep) key d then (queued, d)
      else
        (let delivery_id = uuid4 d;
             payload = WebhookPayload event_id delivery_id event_type (now e)
               (take 64 (ev_actor ev)) (take 128 (ev_subject ev)) (ev_operation_id ev)
               (ev_target_id ev) (ev_outcome ev) in
         (Suc queued,
          add_delivery (new_delivery e delivery_id (ep_id ep) CH_WEBHOOK None event_type key payload) d)))"

definition enqueue_email :: "Env \<Rightarrow> string \<Rightarrow> Event \<Rightarrow> nat \<times> db \<Rightarrow> nat \<times> db" where
  "enqueue_email e event_type ev qd =
    (case qd of (queued, d) \<Rightarrow>
      case np_email_channel (notification_policy e) of
        None \<Rightarrow> (queued, d)
      | Some ch \<Rightarrow>
         if \<not> em_enabled ch \<or> event_type \<notin> set (em_events ch) then (queued, d)
         else
          (case render_email_notification event_type (ev_subject ev) of
             None \<Rightarrow> (queued, record_audit e (ev_actor ev) ''email.skipped_no_template''
                      (ev_subject ev) (cat [''event='', event_type]) None d)
           | Some (email_subject, email_body) \<Rightarrow>
              (case get_user_by_name (ev_subject ev) d of
                 None \<Rightarrow> (queued, record_audit e (ev_actor ev) ''email.skipped_no_recipient''
                          (ev_subject ev) (cat [''event='', event_type]) None d)
               | Some u \<Rightarrow>
                  if u_email u = [] then
                    (queued, record_audit e (ev_actor ev) ''email.skipped_no_recipient''
                       (ev_subject ev) (cat [''event='', event_type]) None d)
                  else
                    (let key = take 256 (cat [event_type, '':'', ev_dedupe_key ev, '':'', u_email u]) in
                     if delivery_queued ''email'' key d then (queued, d)
                     else
                       (Suc queued,
                        add_delivery (new_delivery e (uuid4 d) ''email'' CH_EMAIL (Some (u_email u))
                          event_type key (EmailPayload email_body email_subject)) d)))))"

definition enqueue_notification :: "Env \<Rightarrow> string \<Rightarrow> Event \<Rightarrow> db \<Rightarrow> nat \<times> db" where
  "enqueue_notification e event_type ev d =
    (let policy = notification_policy e in
     if \<not> np_enabled policy then (0, d)
     else
       (let endpoints = filter (\<lambda>ep. event_type \<in> set (ep_events ep) \<and> endpoint_active ep d)
                          (np_endpoints policy);
            event_id = uuid4 d in
        enqueue_email e event_type ev
          (fold (enqueue_webhook e event_type ev event_id) endpoints (0, next_tick d))))"

definition notify :: "Env \<Rightarrow> string \<Rightarrow> Event \<Rightarrow> db \<Rightarrow> db" where
  "notify e event_type ev d = snd (enqueue_notification e event_type ev d)"

section \<open>Delivery\<close>

definition signature :: "Env \<Rightarrow> string \<Rightarrow> string \<Rightarrow> string \<Rightarrow> string" where
  "signature e secret timestamp body =
     cat [''v1='', hmac_sha256_hex e secret (cat [timestamp, ''.'', body])]"

definition retry_seconds :: "NotificationPolicy \<Rightarrow> nat \<Rightarrow> nat" where
  "retry_seconds policy attempt_count =
     min (np_retry_base_seconds policy * 2 ^ (attempt_count - 1)) (np_retry_max_seconds policy)"

definition retry_at :: "Env \<Rightarrow> NotificationPolicy \<Rightarrow> nat \<Rightarrow> time" where
  "retry_at e policy attempt_count = now e + int (retry_seconds policy attempt_count) * second"

text \<open>The outcome of one attempt, shared by both channels: \<open>None\<close> is success, otherwise the
  text of the failure.  The names of the audit actions and the subject differ by channel.\<close>

definition record_delivery ::
  "Env \<Rightarrow> NotificationPolicy \<Rightarrow> string \<Rightarrow> string \<Rightarrow> WebhookDelivery \<Rightarrow> string option \<Rightarrow> db \<Rightarrow> db" where
  "record_delivery e policy channel_name subject w failure d =
    (let attempt = Suc (wd_attempt_count w);
         i = wd_id w;
         actor = cat [channel_name, ''-worker''];
         prefix = [''event='', wd_event_type w, ''; delivery='', show_nat i] in
     case failure of
       None \<Rightarrow>
         record_audit e actor (cat [channel_name, ''.delivered'']) subject
           (cat (prefix @ [''; attempt='', show_nat attempt])) None
           (upd_delivery i (\<lambda>w. w\<lparr>wd_attempt_count := attempt, wd_status := D_DELIVERED,
              wd_delivered_at := Some (now e), wd_next_attempt_at := None, wd_last_error := []\<rparr>) d)
     | Some text \<Rightarrow>
         if attempt \<ge> np_max_attempts policy then
           record_audit e actor (cat [channel_name, ''.failed'']) subject
             (cat (prefix @ [''; attempts='', show_nat attempt, ''; error='', take 80 text])) None
             (upd_delivery i (\<lambda>w. w\<lparr>wd_attempt_count := attempt, wd_status := D_FAILED,
                wd_next_attempt_at := None, wd_last_error := take 300 text\<rparr>) d)
         else
           upd_delivery i (\<lambda>w. w\<lparr>wd_attempt_count := attempt, wd_status := D_RETRYING,
             wd_next_attempt_at := Some (retry_at e policy attempt),
             wd_last_error := take 300 text\<rparr>) d)"

definition disable_delivery :: "uuid \<Rightarrow> db \<Rightarrow> db" where
  "disable_delivery i d = upd_delivery i (\<lambda>w. w\<lparr>wd_status := D_DISABLED, wd_next_attempt_at := None,
     wd_last_error := ''destination disabled or no longer configured''\<rparr>) d"

definition deliver_email :: "Env \<Rightarrow> NotificationPolicy \<Rightarrow> WebhookDelivery \<Rightarrow> db \<Rightarrow> db" where
  "deliver_email e policy w d =
    (case np_email_channel policy of
       None \<Rightarrow> disable_delivery (wd_id w) d
     | Some ch \<Rightarrow>
         if \<not> em_enabled ch then disable_delivery (wd_id w) d
         else
           (let failure =
                  (case wd_recipient w of
                     None \<Rightarrow> Some ''ValueError''
                   | Some to_addr \<Rightarrow>
                       if to_addr = [] then Some ''ValueError''
                       else (case wd_payload w of
                           EmailPayload body subject \<Rightarrow>
                             send_email e (tick d) ch to_addr subject body
                         | WebhookPayload _ _ _ _ _ _ _ _ _ \<Rightarrow> Some ''KeyError''))
            in record_delivery e policy ''email'' (case wd_recipient w of None \<Rightarrow> [] | Some r \<Rightarrow> r)
                 w failure (next_tick d)))"

definition deliver_webhook ::
  "Env \<Rightarrow> NotificationPolicy \<Rightarrow> WebhookEndpoint \<Rightarrow> WebhookDelivery \<Rightarrow> db \<Rightarrow> db" where
  "deliver_webhook e policy ep w d =
    (let timestamp = show_int (seconds_of (now e));
         body = payload_text e (wd_payload w);
         headers = [(''Content-Type'', ''application/json''), (''User-Agent'', ''NA-SSO-Webhook/1''),
           (''X-NA-SSO-Event'', wd_event_type w), (''X-NA-SSO-Delivery'', show_nat (wd_id w)),
           (''X-NA-SSO-Timestamp'', timestamp),
           (''X-NA-SSO-Signature'', signature e (ep_secret ep) timestamp body)];
         failure = (case http_post e (tick d) ep headers body of
             Inl error_class \<Rightarrow> Some error_class
           | Inr status \<Rightarrow> if 200 \<le> status \<and> status < 300 then None
                           else Some (cat [''HTTP '', show_nat status]))
     in record_delivery e policy ''webhook'' (ep_id ep) w failure (next_tick d))"

definition deliver_one ::
  "Env \<Rightarrow> NotificationPolicy \<Rightarrow> uuid \<Rightarrow> nat \<times> db \<Rightarrow> nat \<times> db" where
  "deliver_one e policy i pd =
    (case pd of (processed, d) \<Rightarrow>
      case get_delivery i d of
        None \<Rightarrow> (processed, d)
      | Some w \<Rightarrow>
          if wd_status w \<notin> {D_PENDING, D_RETRYING} then (processed, d)
          else if wd_channel w = CH_EMAIL then (Suc processed, deliver_email e policy w d)
          else
            (case find (\<lambda>ep. ep_id ep = wd_endpoint_id w) (rev (np_endpoints policy)) of
               None \<Rightarrow> (Suc processed, disable_delivery i d)
             | Some ep \<Rightarrow>
                 if \<not> endpoint_active ep d then (Suc processed, disable_delivery i d)
                 else (Suc processed, deliver_webhook e policy ep w d)))"

definition delivery_due :: "Env \<Rightarrow> WebhookDelivery \<Rightarrow> bool" where
  "delivery_due e w \<longleftrightarrow> wd_status w \<in> {D_PENDING, D_RETRYING} \<and>
     (case wd_next_attempt_at w of None \<Rightarrow> False | Some t \<Rightarrow> t \<le> now e)"

definition due_deliveries :: "Env \<Rightarrow> db \<Rightarrow> uuid list" where
  "due_deliveries e d =
    take 100 (map wd_id (sort_key wd_created_at (sort_key wd_id
      (filter (delivery_due e) (deliveries d)))))"

definition deliver_due_once :: "Env \<Rightarrow> db \<Rightarrow> nat \<times> db" where
  "deliver_due_once e d =
    (let policy = notification_policy e in
     if \<not> np_enabled policy then (0, d)
     else fold (deliver_one e policy) (due_deliveries e d) (0, d))"

section \<open>Console actions\<close>

definition set_endpoint_state :: "string \<Rightarrow> bool \<Rightarrow> string \<Rightarrow> db \<Rightarrow> db" where
  "set_endpoint_state endpoint_id disabled actor d =
    (case get_endpoint_state endpoint_id d of
       None \<Rightarrow> d\<lparr>endpoint_states := endpoint_states d @
                [\<lparr>we_id = next_id we_id (endpoint_states d), we_endpoint_id = endpoint_id,
                  we_disabled = disabled, we_updated_by = actor\<rparr>]\<rparr>
     | Some st \<Rightarrow> d\<lparr>endpoint_states := rows_upd we_endpoint_id endpoint_id
                (\<lambda>st. st\<lparr>we_disabled := disabled, we_updated_by := actor\<rparr>) (endpoint_states d)\<rparr>)"

definition notification_endpoint_toggle ::
  "Env \<Rightarrow> Request \<Rightarrow> string \<Rightarrow> string \<Rightarrow> db \<Rightarrow> Response \<times> db" where
  "notification_endpoint_toggle e req endpoint_id enabled =
    guarded e req MANAGE_SECURITY (\<lambda>pr d.
      case find (\<lambda>ep. ep_id ep = endpoint_id) (np_endpoints (notification_policy e)) of
        None \<Rightarrow> (Redirect ''/notifications'', d)
      | Some ep \<Rightarrow>
          (let active = (enabled = ''true'') in
           if active \<and> \<not> ep_enabled ep then
             (redirect_with_feedback ''/notifications'' ''Enable unavailable''
                ''This destination is disabled by YAML configuration.'' ''danger'', d)
           else
             (let d1 = set_endpoint_state endpoint_id (\<not> active) (pr_username pr) d;
                  change = (if active then
                      (\<lambda>w. if wd_endpoint_id w = endpoint_id \<and> wd_status w = D_DISABLED
                        then w\<lparr>wd_status := D_PENDING, wd_next_attempt_at := Some (now e),
                               wd_last_error := []\<rparr> else w)
                    else
                      (\<lambda>w. if wd_endpoint_id w = endpoint_id \<and> wd_status w \<in> {D_PENDING, D_RETRYING}
                        then w\<lparr>wd_status := D_DISABLED, wd_next_attempt_at := None,
                               wd_last_error := ''destination disabled by operator''\<rparr> else w));
                  d2 = d1\<lparr>deliveries := map change (deliveries d1)\<rparr>;
                  d3 = record_audit e (pr_username pr)
                         (if active then ''webhook.enabled'' else ''webhook.disabled'')
                         endpoint_id [] None d2 in
              (redirect_with_feedback ''/notifications''
                 (if active then ''Destination enabled'' else ''Destination disabled'')
                 (cat [endpoint_id, '' will '', if active then ''accept queued events''
                        else ''receive no deliveries'', ''.'']) ''success'', d3))))"

definition requeue_delivery :: "Env \<Rightarrow> uuid \<Rightarrow> db \<Rightarrow> db" where
  "requeue_delivery e i d = upd_delivery i (\<lambda>w. w\<lparr>wd_status := D_PENDING, wd_attempt_count := 0,
     wd_next_attempt_at := Some (now e), wd_last_error := []\<rparr>) d"

definition notification_delivery_retry :: "Env \<Rightarrow> Request \<Rightarrow> uuid \<Rightarrow> db \<Rightarrow> Response \<times> db" where
  "notification_delivery_retry e req i =
    guarded e req MANAGE_SECURITY (\<lambda>pr d.
      let unavailable = redirect_with_feedback ''/notifications'' ''Retry unavailable''
            ''Enable the configured destination before retrying.'' ''danger'';
          queued = redirect_with_feedback ''/notifications'' ''Delivery queued''
            (cat [''Delivery '', take 8 (show_nat i), '' will be attempted again.'']) ''success'' in
      case get_delivery i d of
        None \<Rightarrow> (Redirect ''/notifications'', d)
      | Some w \<Rightarrow>
          if wd_status w \<notin> {D_FAILED, D_DISABLED} then (Redirect ''/notifications'', d)
          else if wd_channel w = CH_EMAIL then
            (if (case np_email_channel (notification_policy e) of
                   None \<Rightarrow> True | Some ch \<Rightarrow> \<not> em_enabled ch) then (unavailable, d)
             else (queued, record_audit e (pr_username pr) ''email.retry_requested''
                     (case wd_recipient w of None \<Rightarrow> [] | Some r \<Rightarrow> r)
                     (cat [''delivery='', show_nat i]) None (requeue_delivery e i d)))
          else
            (case find (\<lambda>ep. ep_id ep = wd_endpoint_id w) (np_endpoints (notification_policy e)) of
               None \<Rightarrow> (unavailable, d)
             | Some ep \<Rightarrow>
                 if \<not> endpoint_active ep d then (unavailable, d)
                 else (queued, record_audit e (pr_username pr) ''webhook.retry_requested''
                         (wd_endpoint_id w) (cat [''delivery='', show_nat i]) None
                         (requeue_delivery e i d))))"

section \<open>Laws of the queue\<close>

definition keys_of :: "WebhookDelivery list \<Rightarrow> (string \<times> string) list" where
  "keys_of ws = map (\<lambda>w. (wd_endpoint_id w, wd_dedupe_key w)) ws"

text \<open>The unique constraint of the table, on the pairs of endpoint and key.\<close>

definition deliveries_unique :: "db \<Rightarrow> bool" where
  "deliveries_unique d \<longleftrightarrow> distinct (keys_of (deliveries d))"

lemma delivery_queued_iff: "delivery_queued ep k d \<longleftrightarrow> (ep, k) \<in> set (keys_of (deliveries d))"
  by (auto simp: delivery_queued_def keys_of_def list_ex_iff)

lemma keys_of_upd_delivery:
  assumes "\<And>w. wd_endpoint_id (f w) = wd_endpoint_id w" "\<And>w. wd_dedupe_key (f w) = wd_dedupe_key w"
  shows "keys_of (deliveries (upd_delivery i f d)) = keys_of (deliveries d)"
  using assms by (simp add: upd_delivery_def rows_upd_def keys_of_def comp_def)

text \<open>Queueing an event leaves everything but the deliveries, the trail and the counter alone.\<close>

definition without_queue :: "db \<Rightarrow> db" where
  "without_queue d = d\<lparr>tick := 0, deliveries := [], audit := []\<rparr>"

definition same_but_queue :: "db \<Rightarrow> db \<Rightarrow> bool" where
  "same_but_queue d d' \<longleftrightarrow> without_queue d' = without_queue d"

lemma same_but_queue_refl [simp]: "same_but_queue d d"
  by (simp add: same_but_queue_def)

lemma same_but_queue_trans:
  "same_but_queue a b \<Longrightarrow> same_but_queue b c \<Longrightarrow> same_but_queue a c"
  by (simp add: same_but_queue_def)

lemma same_but_queue_steps [simp]:
  "same_but_queue d (next_tick d)" "same_but_queue d (add_delivery w d)"
  "same_but_queue d (record_audit e a ac s det opid d)" "same_but_queue d (upd_delivery i f d)"
  by (simp_all add: same_but_queue_def without_queue_def next_tick_def add_delivery_def
      record_audit_def upd_delivery_def)

lemma enqueue_webhook_same: "same_but_queue (snd qd) (snd (enqueue_webhook e t ev i ep qd))"
  by (cases qd) (simp add: enqueue_webhook_def Let_def)

lemma enqueue_email_same: "same_but_queue (snd qd) (snd (enqueue_email e t ev qd))"
  by (cases qd) (simp add: enqueue_email_def Let_def split: option.splits prod.splits)

lemma fold_webhook_same:
  "same_but_queue (snd qd) (snd (fold (enqueue_webhook e t ev i) eps qd))"
proof (induction eps arbitrary: qd)
  case (Cons ep eps)
  show ?case
    unfolding fold_Cons comp_apply by (rule same_but_queue_trans [OF enqueue_webhook_same Cons.IH])
qed simp

lemma notify_same: "same_but_queue d (notify e t ev d)"
proof -
  have "same_but_queue d
     (snd (enqueue_email e t ev (fold (enqueue_webhook e t ev i) eps (0, next_tick d))))" for i eps
    using same_but_queue_trans [OF same_but_queue_trans [OF same_but_queue_steps(1)
        fold_webhook_same [of "(0, next_tick d)", simplified snd_conv]] enqueue_email_same] .
  then show ?thesis by (simp add: notify_def enqueue_notification_def Let_def)
qed

lemma same_but_queue_field:
  assumes "same_but_queue d d'" "\<And>x. f (without_queue x) = f x"
  shows "f d' = f d"
  using assms unfolding same_but_queue_def by metis

lemma same_but_queueD:
  assumes "same_but_queue d d'"
  shows "users d' = users d" "sync_states d' = sync_states d" "operations d' = operations d"
    "attempts d' = attempts d" "ssh_keys d' = ssh_keys d" "credentials d' = credentials d"
    "histories d' = histories d" "user_profiles d' = user_profiles d" "exceptions d' = exceptions d"
    "profile_targets d' = profile_targets d" "endpoint_states d' = endpoint_states d"
    "mfas d' = mfas d" "passkeys d' = passkeys d" "policies d' = policies d"
    "reviews d' = reviews d" "review_items d' = review_items d" "runs d' = runs d"
    "findings d' = findings d" "workflows d' = workflows d" "workflow_rows d' = workflow_rows d"
  by (rule same_but_queue_field [OF assms], simp add: without_queue_def)+

lemmas notify_frame [simp] = same_but_queueD [OF notify_same]

section \<open>A key is queued once\<close>

lemma enqueue_webhook_keys:
  "set (keys_of (deliveries (snd (enqueue_webhook e t ev i ep (q, d))))) =
     insert (ep_id ep, take 256 (cat [t, '':'', ev_dedupe_key ev])) (set (keys_of (deliveries d)))"
  by (auto simp: enqueue_webhook_def Let_def delivery_queued_iff add_delivery_def next_tick_def
      keys_of_def new_delivery_def)

lemma fold_webhook_keys:
  "set (keys_of (deliveries (snd (fold (enqueue_webhook e t ev i) eps qd)))) =
     (\<lambda>ep. (ep_id ep, take 256 (cat [t, '':'', ev_dedupe_key ev]))) ` set eps
     \<union> set (keys_of (deliveries (snd qd)))"
proof (induction eps arbitrary: qd)
  case (Cons ep eps)
  show ?case by (cases qd) (simp only: fold_Cons comp_apply Cons.IH snd_conv enqueue_webhook_keys, auto)
qed simp

lemma enqueue_email_keys_mono:
  "set (keys_of (deliveries (snd qd))) \<subseteq> set (keys_of (deliveries (snd (enqueue_email e t ev qd))))"
  by (cases qd) (auto simp: enqueue_email_def Let_def add_delivery_def next_tick_def keys_of_def
      record_audit_def split: option.splits prod.splits)

lemma enqueue_webhook_skip:
  "(ep_id ep, take 256 (cat [t, '':'', ev_dedupe_key ev])) \<in> set (keys_of (deliveries d)) \<Longrightarrow>
   enqueue_webhook e t ev i ep (q, d) = (q, d)"
  by (simp add: enqueue_webhook_def Let_def delivery_queued_iff)

lemma fold_webhook_skip:
  assumes "\<forall>ep \<in> set eps.
    (ep_id ep, take 256 (cat [t, '':'', ev_dedupe_key ev])) \<in> set (keys_of (deliveries d))"
  shows "fold (enqueue_webhook e t ev i) eps (q, d) = (q, d)"
  using assms by (induction eps) (simp_all add: enqueue_webhook_skip)

text \<open>The keys of the e-mail channel after one pass: a second pass over any state with the same
  users that still has the keys queues nothing.\<close>

lemma enqueue_email_again:
  assumes "users d' = users d"
    and "set (keys_of (deliveries (snd (enqueue_email e t ev (q, d))))) \<subseteq> set (keys_of (deliveries d'))"
  shows "fst (enqueue_email e t ev (q', d')) = q'"
proof -
  have same: "get_user_by_name n d' = get_user_by_name n d" for n
    using assms(1) by (simp add: get_user_by_name_def)
  show ?thesis
    using assms(2) unfolding enqueue_email_def Let_def prod.case same
    by (auto split: option.splits prod.splits if_splits
        simp: delivery_queued_iff add_delivery_def next_tick_def keys_of_def new_delivery_def)
qed

lemma enqueue_again:
  "fst (enqueue_notification e t ev (snd (enqueue_notification e t ev d))) = 0"
proof (cases "np_enabled (notification_policy e)")
  case True
  let ?eps = "filter (\<lambda>ep. t \<in> set (ep_events ep) \<and> endpoint_active ep d)
    (np_endpoints (notification_policy e))"
  define qd where "qd = fold (enqueue_webhook e t ev (uuid4 d)) ?eps (0, next_tick d)"
  define d1 where "d1 = snd (enqueue_email e t ev qd)"
  have d1: "snd (enqueue_notification e t ev d) = d1"
    using True by (simp add: enqueue_notification_def Let_def d1_def qd_def)
  have "d1 = notify e t ev d" by (simp add: notify_def d1)
  then have es: "endpoint_states d1 = endpoint_states d" by simp
  have active: "endpoint_active ep d1 = endpoint_active ep d" for ep
    by (simp add: endpoint_active_def get_endpoint_state_def es)
  have keys: "set (keys_of (deliveries (snd qd))) \<subseteq> set (keys_of (deliveries d1))"
    unfolding d1_def by (rule enqueue_email_keys_mono)
  have skip: "fold (enqueue_webhook e t ev (uuid4 d1)) ?eps (0, next_tick d1) = (0, next_tick d1)"
    by (rule fold_webhook_skip) (use keys in \<open>auto simp: qd_def fold_webhook_keys next_tick_def\<close>)
  have "users d1 = users (snd qd)"
    using enqueue_email_same [of qd e t ev] by (simp add: d1_def same_but_queueD)
  then have "fst (enqueue_email e t ev (0, next_tick d1)) = 0"
    by (intro enqueue_email_again [where d = "snd qd" and q = "fst qd"])
      (simp_all add: next_tick_def d1_def)
  then show ?thesis
    using True by (simp add: d1) (simp add: enqueue_notification_def Let_def active skip)
qed (simp add: enqueue_notification_def Let_def)

lemma enqueue_webhook_unique:
  "deliveries_unique (snd qd) \<Longrightarrow> deliveries_unique (snd (enqueue_webhook e t ev i ep qd))"
  by (cases qd) (auto simp: enqueue_webhook_def Let_def deliveries_unique_def delivery_queued_iff
      add_delivery_def next_tick_def keys_of_def new_delivery_def)

lemma enqueue_email_unique:
  "deliveries_unique (snd qd) \<Longrightarrow> deliveries_unique (snd (enqueue_email e t ev qd))"
  by (cases qd) (auto simp: enqueue_email_def Let_def deliveries_unique_def delivery_queued_iff
      add_delivery_def next_tick_def keys_of_def new_delivery_def record_audit_def
      split: option.splits prod.splits)

lemma fold_webhook_unique:
  "deliveries_unique (snd qd) \<Longrightarrow> deliveries_unique (snd (fold (enqueue_webhook e t ev i) eps qd))"
  by (induction eps arbitrary: qd) (simp_all add: enqueue_webhook_unique)

lemma notify_unique:
  assumes "deliveries_unique d" shows "deliveries_unique (notify e t ev d)"
proof -
  have "deliveries_unique (next_tick d)"
    using assms by (simp add: deliveries_unique_def next_tick_def)
  then have "deliveries_unique (snd (fold (enqueue_webhook e t ev i) eps (0, next_tick d)))" for i eps
    by (intro fold_webhook_unique) simp
  then show ?thesis
    using assms by (simp add: notify_def enqueue_notification_def Let_def enqueue_email_unique)
qed

section \<open>Attempts are bounded\<close>

definition attempts_bounded :: "NotificationPolicy \<Rightarrow> db \<Rightarrow> bool" where
  "attempts_bounded p d \<longleftrightarrow> (\<forall>w \<in> set (deliveries d).
     wd_attempt_count w \<le> np_max_attempts p \<and>
     (wd_status w \<in> {D_PENDING, D_RETRYING, D_DISABLED} \<longrightarrow> wd_attempt_count w < np_max_attempts p))"

lemma attempts_bounded_upd:
  assumes "attempts_bounded p d"
    and "\<And>w. w \<in> set (deliveries d) \<Longrightarrow> wd_id w = i \<Longrightarrow> wd_attempt_count (f w) \<le> np_max_attempts p \<and>
      (wd_status (f w) \<in> {D_PENDING, D_RETRYING, D_DISABLED} \<longrightarrow>
        wd_attempt_count (f w) < np_max_attempts p)"
  shows "attempts_bounded p (upd_delivery i f d)"
  using assms by (auto simp: attempts_bounded_def upd_delivery_def set_rows_upd)

lemma attempts_bounded_cong:
  "deliveries d' = deliveries d \<Longrightarrow> attempts_bounded p d' = attempts_bounded p d"
  by (simp add: attempts_bounded_def)

lemma attempts_bounded_audit [simp]:
  "attempts_bounded p (record_audit e a ac s det opid d) = attempts_bounded p d"
  "attempts_bounded p (next_tick d) = attempts_bounded p d"
  by (simp_all add: attempts_bounded_def record_audit_def next_tick_def)

lemma record_delivery_bounded:
  assumes "attempts_bounded p d" "Suc (wd_attempt_count w) \<le> np_max_attempts p"
  shows "attempts_bounded p (record_delivery e p n s w failure d)"
  using assms
  by (auto simp: record_delivery_def Let_def split: option.splits intro!: attempts_bounded_upd)

lemma disable_delivery_bounded:
  assumes "attempts_bounded p d" "get_delivery i d = Some w" "wd_status w \<in> {D_PENDING, D_RETRYING}"
    "distinct (map wd_id (deliveries d))"
  shows "attempts_bounded p (disable_delivery i d)"
  unfolding disable_delivery_def
proof (rule attempts_bounded_upd [OF assms(1)])
  fix v assume v: "v \<in> set (deliveries d)" "wd_id v = i"
  have "w \<in> set (deliveries d)" "wd_id w = i"
    using assms(2) by (auto simp: get_delivery_def dest: rows_get_mem rows_get_key)
  then have "v = w" using v assms(4) by (meson distinct_map inj_on_eq_iff)
  then show "wd_attempt_count (v\<lparr>wd_status := D_DISABLED, wd_next_attempt_at := None,
      wd_last_error := ''destination disabled or no longer configured''\<rparr>) \<le> np_max_attempts p \<and>
    (wd_status (v\<lparr>wd_status := D_DISABLED, wd_next_attempt_at := None,
      wd_last_error := ''destination disabled or no longer configured''\<rparr>) \<in> {D_PENDING, D_RETRYING, D_DISABLED} \<longrightarrow>
     wd_attempt_count (v\<lparr>wd_status := D_DISABLED, wd_next_attempt_at := None,
      wd_last_error := ''destination disabled or no longer configured''\<rparr>) < np_max_attempts p)"
    using assms(1,3) v(1) by (auto simp: attempts_bounded_def)
qed

text \<open>Changing deliveries by identifier keeps the identifiers.\<close>

lemma upd_delivery_ids:
  assumes "\<And>w. wd_id (f w) = wd_id w"
  shows "map wd_id (deliveries (upd_delivery i f d)) = map wd_id (deliveries d)"
  using assms by (simp add: upd_delivery_def map_key_upd)

lemma deliver_steps_ids [simp]:
  "map wd_id (deliveries (record_delivery e p n s w failure d)) = map wd_id (deliveries d)"
  "map wd_id (deliveries (disable_delivery i d)) = map wd_id (deliveries d)"
  by (simp_all add: record_delivery_def disable_delivery_def Let_def upd_delivery_ids
      split: option.splits)

lemma deliver_one_invariant:
  assumes "attempts_bounded p (snd pd) \<and> distinct (map wd_id (deliveries (snd pd)))"
  shows "attempts_bounded p (snd (deliver_one e p i pd)) \<and>
    distinct (map wd_id (deliveries (snd (deliver_one e p i pd))))"
proof -
  obtain n d where pd: "pd = (n, d)" by (cases pd)
  have inv: "attempts_bounded p d" "distinct (map wd_id (deliveries d))"
    using assms pd by simp_all
  show ?thesis
  proof (cases "get_delivery i d")
    case None
    then show ?thesis using inv by (simp add: deliver_one_def pd)
  next
    case (Some w)
    note found = Some
    have key: "wd_id w = i" using found by (rule delivery_table.get_key)
    have mem: "w \<in> set (deliveries d)" using found by (auto simp: get_delivery_def dest: rows_get_mem)
    show ?thesis
    proof (cases "wd_status w \<in> {D_PENDING, D_RETRYING}")
      case False
      then show ?thesis using inv found by (simp add: deliver_one_def pd)
    next
      case True
      have more: "Suc (wd_attempt_count w) \<le> np_max_attempts p"
        using inv(1) mem True by (auto simp: attempts_bounded_def)
      have disabled: "attempts_bounded p (disable_delivery i d)"
        using disable_delivery_bounded [OF inv(1) found True inv(2)] .
      have recorded: "attempts_bounded p (record_delivery e p n s w failure (next_tick d))"
        for n s failure by (rule record_delivery_bounded) (simp_all add: inv(1) more)
      have ids: "map wd_id (deliveries (next_tick d)) = map wd_id (deliveries d)"
        by (simp add: next_tick_def)
      show ?thesis
        using True found inv disabled recorded
        by (auto simp: deliver_one_def pd deliver_email_def deliver_webhook_def Let_def key ids
            split: option.splits)
    qed
  qed
qed

lemma deliver_due_bounded:
  assumes "attempts_bounded (notification_policy e) d" "distinct (map wd_id (deliveries d))"
  shows "attempts_bounded (notification_policy e) (snd (deliver_due_once e d))"
proof -
  have "attempts_bounded (notification_policy e)
      (snd (fold (deliver_one e (notification_policy e)) is (n, d)))" for "is" n
    by (rule conjunct1, rule fold_invariant [where Q = "\<lambda>_. True" and P = "\<lambda>pd.
        attempts_bounded (notification_policy e) (snd pd) \<and> distinct (map wd_id (deliveries (snd pd)))"])
      (use assms deliver_one_invariant in auto)
  then show ?thesis using assms by (simp add: deliver_due_once_def Let_def)
qed

text \<open>The retry delay grows with the attempts and stays between the two configured bounds.\<close>

lemma retry_seconds_mono: "m \<le> n \<Longrightarrow> retry_seconds p m \<le> retry_seconds p n"
  unfolding retry_seconds_def by (intro min.mono mult_le_mono power_increasing) auto

lemma retry_seconds_bounds:
  assumes "validate_notification_policy p = []"
  shows "np_retry_base_seconds p \<le> retry_seconds p n" "retry_seconds p n \<le> np_retry_max_seconds p"
proof -
  have "np_retry_base_seconds p \<le> np_retry_max_seconds p"
    using assms by (simp add: validate_notification_policy_def)
  moreover have "np_retry_base_seconds p * 1 \<le> np_retry_base_seconds p * 2 ^ (n - 1)"
    by (rule mult_le_mono2) simp
  ultimately show "np_retry_base_seconds p \<le> retry_seconds p n"
    by (simp add: retry_seconds_def)
qed (simp add: retry_seconds_def)

section \<open>Properties\<close>

text \<open>C8: An event is queued once.  Queueing the same event with the same key a second time adds no
  delivery to any destination, webhook or e-mail, and the unique constraint on destination and
  key holds after every queueing when it held before.\<close>

theorem notification_once:
  "fst (enqueue_notification e t ev (snd (enqueue_notification e t ev d))) = 0 \<and>
   (deliveries_unique d \<longrightarrow> deliveries_unique (snd (enqueue_notification e t ev d)))"
  using enqueue_again [of e t ev d] notify_unique [of d e t ev] by (simp add: notify_def)

theorem notification_once_witness:
  "deliveries_unique (snd (enqueue_notification sample_env ''lifecycle.completed''
     \<lparr>ev_actor = [], ev_subject = ''ada'', ev_dedupe_key = ''1'', ev_operation_id = None,
      ev_target_id = None, ev_outcome = None\<rparr> sample_db))"
proof -
  have "deliveries_unique sample_db" by (simp add: deliveries_unique_def keys_of_def sample_defs)
  then show ?thesis using notification_once by blast
qed

text \<open>A delivery is attempted at most as often as configured.  A pass of the delivery worker keeps
  every attempt count within the configured maximum and every delivery that is still open strictly
  below it, whatever the endpoints answer; and the delay before the next attempt of a valid policy lies
  between the two configured bounds and never shrinks.\<close>

theorem deliveries_are_bounded:
  assumes "attempts_bounded (notification_policy e) d" "distinct (map wd_id (deliveries d))"
    and "validate_notification_policy (notification_policy e) = []" "m \<le> n"
  shows "attempts_bounded (notification_policy e) (snd (deliver_due_once e d)) \<and>
    np_retry_base_seconds (notification_policy e) \<le> retry_seconds (notification_policy e) m \<and>
    retry_seconds (notification_policy e) m \<le> retry_seconds (notification_policy e) n \<and>
    retry_seconds (notification_policy e) n \<le> np_retry_max_seconds (notification_policy e)"
  using deliver_due_bounded [OF assms(1,2)] retry_seconds_bounds [OF assms(3)]
    retry_seconds_mono [OF assms(4)] by blast

definition queue_env :: Env where
  "queue_env = sample_env\<lparr>settings := (settings sample_env)\<lparr>s_file := sample_file
     \<lparr>fc_notification_policy := (fc_notification_policy sample_file)\<lparr>np_enabled := True,
        np_max_attempts := 1\<rparr>\<rparr>\<rparr>\<rparr>"

definition queue_db :: db where
  "queue_db = sample_db\<lparr>deliveries := [new_delivery queue_env 0 ''hook'' CH_WEBHOOK None
     ''password.expired'' ''k'' (EmailPayload [] [])]\<rparr>"

theorem deliveries_are_bounded_witness:
  "attempts_bounded (notification_policy queue_env) (snd (deliver_due_once queue_env queue_db)) \<and>
   map wd_status (deliveries (snd (deliver_due_once queue_env queue_db))) = [D_DISABLED]"
proof -
  have pre: "attempts_bounded (notification_policy queue_env) queue_db"
    "distinct (map wd_id (deliveries queue_db))"
    "validate_notification_policy (notification_policy queue_env) = []" "(0::nat) \<le> 1"
    by (simp_all add: attempts_bounded_def queue_db_def queue_env_def sample_defs new_delivery_def
        validate_notification_policy_def notification_policy_def file_config_def in_range_def)
  have "map wd_status (deliveries (snd (deliver_due_once queue_env queue_db))) = [D_DISABLED]"
    by (simp add: deliver_due_once_def due_deliveries_def delivery_due_def deliver_one_def
        get_delivery_def rows_get_def disable_delivery_def upd_delivery_def rows_upd_def
        queue_db_def queue_env_def sample_defs new_delivery_def notification_policy_def
        file_config_def Let_def)
  then show ?thesis using deliveries_are_bounded [OF pre] by blast
qed

end
