(* ===== verification/Operations.thy ===== *)
theory Operations
  imports Notifications
begin

text \<open>
  The correlated lifecycle operations of \<open>src/na_sso/operations.py\<close>: finding the active
  operation of a user, requesting one under the conflict rules of \<open>decide_transition\<close>,
  resuming, starting and finishing it, and the attempts on its targets.  The functions that
  the code applies to a mapped user act on the row of the user's identifier.  A conflict is the
  left value of a sum; the database beside it holds what the session has
  changed by then.
\<close>

section \<open>The operations\<close>

definition get_active_operation :: "id \<Rightarrow> db \<Rightarrow> LifecycleOperation option \<times> db" where
  "get_active_operation uid d =
    (case get_user uid d of
       None \<Rightarrow> (None, d)
     | Some u \<Rightarrow>
        (case u_active_operation_id u of
           None \<Rightarrow> (None, d)
         | Some oid \<Rightarrow>
            (case get_operation oid d of
               None \<Rightarrow> (None, upd_user uid (\<lambda>u. u\<lparr>u_active_operation_id := None\<rparr>) d)
             | Some oper \<Rightarrow>
                if terminal (op_status oper)
                then (None, upd_user uid (\<lambda>u. u\<lparr>u_active_operation_id := None\<rparr>) d)
                else (Some oper, d))))"

definition get_latest_operation :: "id \<Rightarrow> LifecycleCommand option \<Rightarrow> db \<Rightarrow> LifecycleOperation option" where
  "get_latest_operation uid command d =
    (let found = filter (\<lambda>oper. op_user_id oper = Some uid \<and>
                    (case command of None \<Rightarrow> True | Some c \<Rightarrow> op_command oper = c)) (operations d)
     in case rev (sort_key op_created_at (sort_key op_id found)) of [] \<Rightarrow> None | oper # _ \<Rightarrow> Some oper)"

record OperationPayload =
  opl_id :: uuid
  opl_command :: LifecycleCommand
  opl_status :: OperationStatus
  opl_total_targets :: nat
  opl_completed_targets :: nat
  opl_failed_targets :: nat
  opl_blocking_targets :: "string list"
  opl_detail :: string
  opl_started_at :: "time option"
  opl_completed_at :: "time option"

definition state_terminal :: "DesiredAction \<Rightarrow> SyncState \<Rightarrow> bool" where
  "state_terminal desired s =
     sync_state_is_terminal (Some (sync_state_value (ss_state s))) desired (ss_assigned s) (ss_retired s)"

definition state_blocks :: "LifecycleOperation \<Rightarrow> SyncState \<Rightarrow> bool" where
  "state_blocks oper s \<longleftrightarrow> ss_operation_id s = Some (op_id oper) \<and>
     (ss_state s \<in> {FAILED, UNSUPPORTED} \<or>
      \<not> state_terminal (if op_command oper = DELETE then DA_DELETE else ENSURE) s)"

definition operation_payload :: "LifecycleOperation option \<Rightarrow> SyncState list \<Rightarrow> OperationPayload option" where
  "operation_payload operation states =
    map_option (\<lambda>oper.
      \<lparr>opl_id = op_id oper, opl_command = op_command oper, opl_status = op_status oper,
       opl_total_targets = op_total_targets oper, opl_completed_targets = op_completed_targets oper,
       opl_failed_targets = op_failed_targets oper,
       opl_blocking_targets = map ss_target (filter (state_blocks oper) states),
       opl_detail = op_detail oper, opl_started_at = op_started_at oper,
       opl_completed_at = op_completed_at oper\<rparr>) operation"

definition new_operation ::
  "Env \<Rightarrow> uuid \<Rightarrow> id option \<Rightarrow> LifecycleCommand \<Rightarrow> string \<Rightarrow> string \<Rightarrow> string option
     \<Rightarrow> uuid option \<Rightarrow> LifecycleOperation" where
  "new_operation e i uid command actor subject requested_target supersedes =
    \<lparr>op_id = i, op_user_id = uid, op_command = command, op_status = QUEUED, op_actor = actor,
     op_subject = subject, op_requested_target = requested_target, op_supersedes_id = supersedes,
     op_parent_id = None, op_total_targets = 0, op_completed_targets = 0, op_failed_targets = 0,
     op_detail = [], op_started_at = None, op_completed_at = None, op_created_at = now e\<rparr>"

definition add_operation :: "LifecycleOperation \<Rightarrow> db \<Rightarrow> db" where
  "add_operation oper d = next_tick (d\<lparr>operations := operations d @ [oper]\<rparr>)"

definition create_operation ::
  "Env \<Rightarrow> ManagedUser \<Rightarrow> LifecycleCommand \<Rightarrow> string \<Rightarrow> string option \<Rightarrow> uuid option \<Rightarrow> db
     \<Rightarrow> uuid \<times> db" where
  "create_operation e u command actor requested_target supersedes d =
    (let i = uuid4 d;
         d1 = add_operation (new_operation e i (Some (u_id u)) command actor (u_username u)
                requested_target supersedes) d
     in (i, upd_user (u_id u) (\<lambda>u. u\<lparr>u_active_operation_id := Some i\<rparr>) d1))"

text \<open>The body of \<open>finish_operation\<close> after its check of the status.\<close>

definition finish_with ::
  "Env \<Rightarrow> id \<Rightarrow> uuid \<Rightarrow> OperationStatus \<Rightarrow> nat \<Rightarrow> nat \<Rightarrow> string \<Rightarrow> db \<Rightarrow> db" where
  "finish_with e uid oid status completed failed detail d =
    upd_user uid
      (\<lambda>u. if u_active_operation_id u = Some oid then u\<lparr>u_active_operation_id := None\<rparr> else u)
      (upd_operation oid
        (\<lambda>oper. oper\<lparr>op_status := status, op_completed_targets := completed,
           op_failed_targets := failed, op_detail := detail, op_completed_at := Some (now e)\<rparr>) d)"

definition finish_operation ::
  "Env \<Rightarrow> id \<Rightarrow> uuid \<Rightarrow> OperationStatus \<Rightarrow> nat \<Rightarrow> nat \<Rightarrow> string \<Rightarrow> db \<Rightarrow> string + db" where
  "finish_operation e uid oid status completed failed detail d =
    (if \<not> terminal status then Inl ''finished operation requires a terminal status''
     else Inr (finish_with e uid oid status completed failed detail d))"

definition request_operation ::
  "Env \<Rightarrow> id \<Rightarrow> LifecycleCommand \<Rightarrow> string \<Rightarrow> string option \<Rightarrow> db \<Rightarrow> (string + uuid) \<times> db" where
  "request_operation e uid command actor requested_target d =
    (case get_user uid d of
       None \<Rightarrow> (Inl ''no such user'', d)
     | Some u \<Rightarrow>
        (let (active, d1) = get_active_operation uid d;
             dec = decide_transition command (map_option op_command active)
               (map_option op_status active) (u_deleted_at u \<noteq> None) in
         if td_mode dec = REJECT then (Inl (td_reason dec), d1)
         else if td_mode dec = REUSE then
           (case active of
              None \<Rightarrow> (Inl ''operation to reuse is unavailable'', d1)
            | Some oper \<Rightarrow> (Inr (op_id oper), d1))
         else
           (let (supersedes, d2) =
                  (case active of
                     Some oper \<Rightarrow>
                       if td_mode dec = SUPERSEDE then
                         (Some (op_id oper),
                          finish_with e uid (op_id oper) CANCELLED (op_completed_targets oper)
                            (op_failed_targets oper)
                            (cat [''superseded by '', lifecycle_command_value command]) d1)
                       else (None, d1)
                   | None \<Rightarrow> (None, d1));
                (i, d3) = create_operation e u command actor requested_target supersedes d2
            in (Inr i, d3))))"

definition resumable :: "OperationStatus \<Rightarrow> bool" where
  "resumable s \<longleftrightarrow> s \<in> {OP_FAILED, PARTIALLY_FAILED, QUEUED, RUNNING}"

definition resume_operation :: "Env \<Rightarrow> id \<Rightarrow> LifecycleOperation \<Rightarrow> string option \<Rightarrow> db \<Rightarrow> string + db" where
  "resume_operation e uid oper requested_target d =
    (if \<not> resumable (op_status oper) then
       Inl ''only queued, running, or failed operations can resume''
     else Inr
       (upd_user uid (\<lambda>u. u\<lparr>u_active_operation_id := Some (op_id oper)\<rparr>)
         (upd_operation (op_id oper)
           (\<lambda>oper. oper\<lparr>op_status := RUNNING, op_completed_at := None,
              op_requested_target := (case requested_target of None \<Rightarrow> op_requested_target oper
                                      | Some t \<Rightarrow> Some t),
              op_started_at := (case op_started_at oper of None \<Rightarrow> Some (now e)
                                | Some t \<Rightarrow> Some t)\<rparr>) d)))"

definition start_operation :: "Env \<Rightarrow> uuid \<Rightarrow> nat \<Rightarrow> db \<Rightarrow> db" where
  "start_operation e oid n_targets d =
    upd_operation oid (\<lambda>oper. oper\<lparr>op_status := RUNNING, op_total_targets := n_targets,
      op_completed_targets := 0, op_failed_targets := 0, op_started_at := Some (now e),
      op_completed_at := None\<rparr>) d"

definition start_target_attempt ::
  "Env \<Rightarrow> uuid \<Rightarrow> string \<Rightarrow> string option \<Rightarrow> db \<Rightarrow> id \<times> db" where
  "start_target_attempt e oid target target_type d =
    (let numbers = map ta_attempt_number
           (filter (\<lambda>a. ta_operation_id a = oid \<and> ta_target a = target) (attempts d));
         i = next_id ta_id (attempts d)
     in (i, d\<lparr>attempts := attempts d @
        [\<lparr>ta_id = i, ta_operation_id = oid, ta_target = target, ta_target_type = target_type,
          ta_attempt_number = foldr max numbers 0 + 1, ta_status = RUNNING,
          ta_result_state = PENDING, ta_detail = [], ta_started_at = now e,
          ta_completed_at = None\<rparr>]\<rparr>))"

definition finish_target_attempt ::
  "Env \<Rightarrow> id \<Rightarrow> bool \<Rightarrow> SyncStateValue \<Rightarrow> string \<Rightarrow> db \<Rightarrow> db" where
  "finish_target_attempt e i succeeded result_state detail d =
    upd_attempt i (\<lambda>a. a\<lparr>ta_status := (if succeeded then SUCCEEDED else OP_FAILED),
      ta_result_state := result_state, ta_detail := detail, ta_completed_at := Some (now e)\<rparr>) d"

section \<open>One unfinished operation per user\<close>

text \<open>Operations have distinct identifiers drawn from the counter; the active operation of a user
  exists and is the user's; and every unfinished operation of a user is the active one, so
  there is at most one.\<close>

definition operations_ok :: "db \<Rightarrow> bool" where
  "operations_ok d \<longleftrightarrow> distinct (map op_id (operations d)) \<and>
     op_id ` set (operations d) \<subseteq> {..<tick d} \<and> distinct (map u_id (users d))"

definition active_exists :: "db \<Rightarrow> bool" where
  "active_exists d \<longleftrightarrow> (\<forall>u \<in> set (users d). \<forall>i. u_active_operation_id u = Some i \<longrightarrow>
     (\<exists>oper. get_operation i d = Some oper \<and> op_user_id oper = Some (u_id u)))"

definition single_flight :: "db \<Rightarrow> bool" where
  "single_flight d \<longleftrightarrow> (\<forall>oper \<in> set (operations d). \<forall>u \<in> set (users d).
     op_user_id oper = Some (u_id u) \<longrightarrow> \<not> terminal (op_status oper) \<longrightarrow>
     u_active_operation_id u = Some (op_id oper))"

lemma get_operation_iff:
  "operations_ok d \<Longrightarrow> get_operation i d = Some oper \<longleftrightarrow> oper \<in> set (operations d) \<and> op_id oper = i"
  by (simp add: operations_ok_def get_operation_def rows_get_mem_iff)

lemma get_user_iff:
  "operations_ok d \<Longrightarrow> get_user i d = Some u \<longleftrightarrow> u \<in> set (users d) \<and> u_id u = i"
  by (simp add: operations_ok_def get_user_def rows_get_mem_iff)

lemma operations_ok_upd_user:
  assumes "\<And>u. u_id (f u) = u_id u"
  shows "operations_ok (upd_user k f d) = operations_ok d"
  using assms by (simp add: operations_ok_def upd_user_def map_key_upd)

lemma operations_ok_upd_operation:
  assumes "\<And>u. op_id (f u) = op_id u"
  shows "operations_ok (upd_operation k f d) = operations_ok d"
  using assms by (simp add: operations_ok_def upd_operation_def map_key_upd image_key_upd)

lemma operations_ok_add:
  assumes "operations_ok d" "op_id oper = tick d"
  shows "operations_ok (add_operation oper d)"
  using assms by (auto simp: operations_ok_def add_operation_def next_tick_def)

lemma get_active_operation_cases:
  assumes "get_user uid d = Some u"
  obtains (found) oper where "get_active_operation uid d = (Some oper, d)"
      "u_active_operation_id u = Some (op_id oper)" "get_operation (op_id oper) d = Some oper"
      "\<not> terminal (op_status oper)"
  | (cleared) i where "u_active_operation_id u = Some i"
      "get_operation i d = None \<or> (\<exists>oper. get_operation i d = Some oper \<and> terminal (op_status oper))"
      "get_active_operation uid d = (None, upd_user uid (\<lambda>u. u\<lparr>u_active_operation_id := None\<rparr>) d)"
  | (idle) "u_active_operation_id u = None" "get_active_operation uid d = (None, d)"
proof (cases "u_active_operation_id u")
  case None
  then show ?thesis using assms idle by (simp add: get_active_operation_def)
next
  case (Some i)
  show ?thesis
  proof (cases "get_operation i d")
    case None
    then show ?thesis using assms Some cleared by (simp add: get_active_operation_def)
  next
    case (Some oper)
    moreover from this have "op_id oper = i" by (rule operation_table.get_key)
    ultimately show ?thesis
      using assms \<open>u_active_operation_id u = Some i\<close> found cleared
      by (cases "terminal (op_status oper)") (auto simp: get_active_operation_def)
  qed
qed

text \<open>An active operation is unfinished, so \<open>is_active\<close> holds of what
  \<open>get_active_operation\<close> finds, and only then.\<close>

lemma is_active_of_found:
  "\<not> terminal (op_status oper) \<Longrightarrow> is_active (Some (op_command oper)) (Some (op_status oper))"
  by (simp add: is_active_def)

lemma is_active_None [simp]: "\<not> is_active None s" "\<not> is_active c None"
  by (simp_all add: is_active_def)

lemma decide_idle:
  "td_mode (decide_transition c None None b) =
     (if c = PURGE \<or> c = RESTORE then (if b then START else REJECT)
      else if c = RETRY then REJECT else START)"
  by (simp add: decide_transition_def Let_def decision_def)

lemma request_idle:
  assumes "get_user uid d = Some u" "u_active_operation_id u = None" "c \<notin> {PURGE, RESTORE, RETRY}"
  shows "request_operation e uid c a t d = (Inr (tick d), snd (create_operation e u c a t None d))"
  using assms by (simp add: request_operation_def get_active_operation_def decide_idle Let_def create_operation_def uuid4_def)

lemma decide_active:
  assumes "\<not> terminal s"
  shows "td_mode (decide_transition c (Some a) (Some s) b) =
     (if c = PURGE then (if b then START else REJECT)
      else if c = DELETE then (if a = DELETE then REUSE else SUPERSEDE)
      else REJECT)"
  using assms by (auto simp: decide_transition_def Let_def decision_def is_active_def terminal_def
      TERMINAL_OPERATION_STATUSES_def)

section \<open>Requesting keeps the invariants\<close>

definition operations_inv :: "db \<Rightarrow> bool" where
  "operations_inv d \<longleftrightarrow> operations_ok d \<and> active_exists d \<and> single_flight d"

lemma single_flightD:
  assumes "single_flight d" "oper \<in> set (operations d)" "u \<in> set (users d)"
    "op_user_id oper = Some (u_id u)" "\<not> terminal (op_status oper)"
  shows "u_active_operation_id u = Some (op_id oper)"
  using assms unfolding single_flight_def by blast

lemma set_upd_user: "set (users (upd_user k f d)) = (\<lambda>u. if u_id u = k then f u else u) ` set (users d)"
  by (simp add: upd_user_def rows_upd_def)

lemma set_upd_operation:
  "set (operations (upd_operation k f d)) = (\<lambda>x. if op_id x = k then f x else x) ` set (operations d)"
  by (simp add: upd_operation_def rows_upd_def)

text \<open>Clearing a pointer that no unfinished operation justifies keeps the invariants.\<close>

lemma operations_inv_clear:
  assumes inv: "operations_inv d"
    and none: "\<And>oper. oper \<in> set (operations d) \<Longrightarrow> op_user_id oper = Some uid \<Longrightarrow>
      terminal (op_status oper)"
  shows "operations_inv (upd_user uid (\<lambda>u. u\<lparr>u_active_operation_id := None\<rparr>) d)"
  unfolding operations_inv_def
proof (intro conjI)
  show "operations_ok (upd_user uid (\<lambda>u. u\<lparr>u_active_operation_id := None\<rparr>) d)"
    using inv by (simp add: operations_inv_def operations_ok_upd_user)
  show "active_exists (upd_user uid (\<lambda>u. u\<lparr>u_active_operation_id := None\<rparr>) d)"
    using inv by (auto simp: operations_inv_def active_exists_def set_upd_user)
  show "single_flight (upd_user uid (\<lambda>u. u\<lparr>u_active_operation_id := None\<rparr>) d)"
    unfolding single_flight_def set_upd_user frame_fields
    using none inv by (auto simp: operations_inv_def dest: single_flightD)
qed

lemma idle_user_operations_terminal:
  assumes "operations_inv d" "get_user uid d = Some u"
    "get_active_operation uid d = (None, d1)"
    "oper \<in> set (operations d)" "op_user_id oper = Some uid"
  shows "terminal (op_status oper)"
proof (rule ccontr)
  assume open_op: "\<not> terminal (op_status oper)"
  have ok: "operations_ok d" using assms(1) by (simp add: operations_inv_def)
  have u: "u \<in> set (users d)" "u_id u = uid" using assms(2) get_user_iff [OF ok] by auto
  then have "u_active_operation_id u = Some (op_id oper)"
    using single_flightD [of d oper u] assms open_op by (simp add: operations_inv_def)
  moreover have "get_operation (op_id oper) d = Some oper"
    using assms(4) get_operation_iff [OF ok] by simp
  ultimately show False
    using get_active_operation_cases [OF assms(2)] assms(3) open_op by (auto elim: )
qed

lemma get_active_operation_inv:
  assumes "operations_inv d" "get_user uid d = Some u"
  shows "operations_inv (snd (get_active_operation uid d))"
  using assms(2)
proof (cases rule: get_active_operation_cases)
  case (cleared i)
  then show ?thesis
    using operations_inv_clear [OF assms(1)] idle_user_operations_terminal [OF assms(1,2)]
    by auto
qed (simp_all add: assms(1))

text \<open>A new operation for a user without an unfinished one.\<close>

lemma create_operation_inv:
  assumes inv: "operations_inv d" and u: "get_user uid d = Some u" "u_id v = uid"
    and idle: "\<And>oper. oper \<in> set (operations d) \<Longrightarrow> op_user_id oper = Some uid \<Longrightarrow>
      terminal (op_status oper)"
  shows "operations_inv (snd (create_operation e v c a t s d))"
proof -
  let ?op = "new_operation e (tick d) (Some uid) c a (u_username v) t s"
  let ?d1 = "add_operation ?op d"
  have d': "snd (create_operation e v c a t s d) =
      upd_user uid (\<lambda>u. u\<lparr>u_active_operation_id := Some (tick d)\<rparr>) ?d1"
    by (simp add: create_operation_def Let_def uuid4_def u(2))
  have fields: "operations ?d1 = operations d @ [?op]" "users ?d1 = users d"
    by (simp_all add: add_operation_def next_tick_def)
  have ok: "operations_ok d" "active_exists d" "single_flight d"
    using inv by (simp_all add: operations_inv_def)
  have ok1: "operations_ok ?d1"
    by (rule operations_ok_add) (simp_all add: ok new_operation_def)
  have fresh: "op_id oper \<noteq> tick d" if "oper \<in> set (operations d)" for oper
    using ok(1) that by (auto simp: operations_ok_def)
  have new: "get_operation (tick d) ?d1 = Some ?op"
    using get_operation_iff [OF ok1] fields by (simp add: new_operation_def)
  have old: "get_operation i ?d1 = Some oper" if "get_operation i d = Some oper" for i oper
    using that get_operation_iff [OF ok1] get_operation_iff [OF ok(1)] fields by simp
  have "active_exists (upd_user uid (\<lambda>u. u\<lparr>u_active_operation_id := Some (tick d)\<rparr>) ?d1)"
    unfolding active_exists_def set_upd_user fields frame_operations
  proof (intro ballI allI impI)
    fix w i assume w: "w \<in> (\<lambda>u. if u_id u = uid then u\<lparr>u_active_operation_id := Some (tick d)\<rparr> else u) ` set (users d)"
      and i: "u_active_operation_id w = Some i"
    then obtain x where x: "x \<in> set (users d)"
      "w = (if u_id x = uid then x\<lparr>u_active_operation_id := Some (tick d)\<rparr> else x)" by blast
    show "\<exists>oper. get_operation i ?d1 = Some oper \<and> op_user_id oper = Some (u_id w)"
    proof (cases "u_id x = uid")
      case True
      then show ?thesis using x i new by (simp add: new_operation_def)
    next
      case False
      then show ?thesis using x i ok(2) old unfolding active_exists_def by fastforce
    qed
  qed
  moreover have "single_flight (upd_user uid (\<lambda>u. u\<lparr>u_active_operation_id := Some (tick d)\<rparr>) ?d1)"
    unfolding single_flight_def set_upd_user frame_fields fields
  proof (intro ballI impI)
    fix oper w
    assume oper: "oper \<in> set (operations d @ [?op])" "\<not> terminal (op_status oper)"
      and w: "w \<in> (\<lambda>u. if u_id u = uid then u\<lparr>u_active_operation_id := Some (tick d)\<rparr> else u) ` set (users d)"
      and owner: "op_user_id oper = Some (u_id w)"
    obtain x where x: "x \<in> set (users d)"
      "w = (if u_id x = uid then x\<lparr>u_active_operation_id := Some (tick d)\<rparr> else x)" using w by blast
    then have id: "u_id w = u_id x" by simp
    show "u_active_operation_id w = Some (op_id oper)"
    proof (cases "oper \<in> set (operations d)")
      case True
      then have "u_id x \<noteq> uid" using idle oper(2) owner id by auto
      then show ?thesis using single_flightD [OF ok(3) True x(1)] oper(2) owner id x(2) by simp
    next
      case False
      then have "oper = ?op" using oper(1) by simp
      then show ?thesis using x owner id by (simp add: new_operation_def)
    qed
  qed
  moreover have "operations_ok (upd_user uid (\<lambda>u. u\<lparr>u_active_operation_id := Some (tick d)\<rparr>) ?d1)"
    using ok1 by (subst operations_ok_upd_user) simp_all
  ultimately show ?thesis unfolding operations_inv_def d' by (intro conjI)
qed

text \<open>Finishing the active operation of a user keeps the invariants and leaves the user idle.\<close>

lemma finish_with_inv:
  assumes inv: "operations_inv d" and u: "get_user uid d = Some u"
    and act: "u_active_operation_id u = Some i" and st: "terminal st"
  shows "operations_inv (finish_with e uid i st m n det d)" (is ?A)
    and "\<And>oper. oper \<in> set (operations (finish_with e uid i st m n det d)) \<Longrightarrow>
      op_user_id oper = Some uid \<Longrightarrow> terminal (op_status oper)"
proof -
  let ?g = "\<lambda>oper. oper\<lparr>op_status := st, op_completed_targets := m, op_failed_targets := n,
    op_detail := det, op_completed_at := Some (now e)\<rparr>"
  let ?f = "\<lambda>u. if u_active_operation_id u = Some i then u\<lparr>u_active_operation_id := None\<rparr> else u"
  have d': "finish_with e uid i st m n det d = upd_user uid ?f (upd_operation i ?g d)"
    by (simp add: finish_with_def)
  have ok: "operations_ok d" "active_exists d" "single_flight d"
    using inv by (simp_all add: operations_inv_def)
  have mem: "u \<in> set (users d)" "u_id u = uid" using u get_user_iff [OF ok(1)] by auto
  show closed: "terminal (op_status oper)"
    if "oper \<in> set (operations (finish_with e uid i st m n det d))" "op_user_id oper = Some uid" for oper
  proof -
    have oper: "oper \<in> (\<lambda>x. if op_id x = i then ?g x else x) ` set (operations d)"
      "op_user_id oper = Some uid"
      using that unfolding d' frame_fields set_upd_operation by blast+
    from oper(1) obtain x
      where x: "x \<in> set (operations d)" "oper = (if op_id x = i then ?g x else x)" by blast
    show ?thesis
    proof (cases "op_id x = i")
      case False
      then show ?thesis
        using single_flightD [OF ok(3) x(1) mem(1)] x(2) oper(2) mem(2) act by auto
    qed (use x st in simp)
  qed
  have "operations_ok (upd_user uid ?f (upd_operation i ?g d))"
    by (subst operations_ok_upd_user, simp, subst operations_ok_upd_operation) (simp_all add: ok)
  moreover have "active_exists (upd_user uid ?f (upd_operation i ?g d))"
    unfolding active_exists_def set_upd_user frame_fields frame_operations
  proof (intro ballI allI impI)
    fix w j assume "w \<in> (\<lambda>u. if u_id u = uid then ?f u else u) ` set (users d)"
      and j: "u_active_operation_id w = Some j"
    then obtain x where x: "x \<in> set (users d)" "w = (if u_id x = uid then ?f x else x)" by blast
    then have "u_active_operation_id x = Some j" "u_id w = u_id x"
      using j by (auto split: if_splits)
    then obtain oper where "get_operation j d = Some oper" "op_user_id oper = Some (u_id w)"
      using ok(2) x(1) unfolding active_exists_def by fastforce
    then show "\<exists>oper. get_operation j (upd_operation i ?g d) = Some oper \<and> op_user_id oper = Some (u_id w)"
      by (auto simp: operation_table.get_upd)
  qed
  moreover have "single_flight (upd_user uid ?f (upd_operation i ?g d))"
    unfolding single_flight_def
  proof (intro ballI impI)
    fix oper w
    assume oper: "oper \<in> set (operations (upd_user uid ?f (upd_operation i ?g d)))"
      "\<not> terminal (op_status oper)"
      and w: "w \<in> set (users (upd_user uid ?f (upd_operation i ?g d)))"
      and owner: "op_user_id oper = Some (u_id w)"
    obtain x where x: "x \<in> set (users d)" "w = (if u_id x = uid then ?f x else x)"
      using w unfolding set_upd_user frame_fields by blast
    have id: "u_id w = u_id x" using x(2) by simp
    have "u_id w \<noteq> uid" using closed oper owner unfolding d' by auto
    moreover obtain y where y: "y \<in> set (operations d)" "oper = (if op_id y = i then ?g y else y)"
      using oper(1) unfolding frame_fields set_upd_operation by blast
    moreover have "op_id y \<noteq> i" using y oper(2) st by auto
    ultimately show "u_active_operation_id w = Some (op_id oper)"
      using single_flightD [OF ok(3), of oper x] x oper(2) owner id by simp
  qed
  ultimately show ?A unfolding operations_inv_def d' by (intro conjI)
qed

lemma get_user_finish_with:
  assumes "get_user uid d = Some u"
  shows "\<exists>v. get_user uid (finish_with e uid i st m n det d) = Some v \<and> u_id v = u_id u"
  using assms by (simp add: finish_with_def user_table.get_upd)

lemma get_user_cleared:
  assumes "get_user uid d = Some u"
  shows "\<exists>v. get_user uid (snd (get_active_operation uid d)) = Some v \<and> u_id v = u_id u"
  using assms by (cases rule: get_active_operation_cases) (simp_all add: assms user_table.get_upd)

text \<open>Clearing the pointer of an idle user does not touch the operations.\<close>

lemma operations_get_active_operation [simp]:
  "operations (snd (get_active_operation uid d)) = operations d"
  by (simp add: get_active_operation_def split: option.splits)

lemma request_operation_inv:
  assumes inv: "operations_inv d" and cmd: "command \<noteq> PURGE"
  shows "operations_inv (snd (request_operation e uid command actor t d))"
proof (cases "get_user uid d")
  case None
  then show ?thesis using inv by (simp add: request_operation_def)
next
  case (Some u)
  have uid: "u_id u = uid" using Some by (rule user_table.get_key)
  let ?dec = "decide_transition command None None (u_deleted_at u \<noteq> None)"
  from Some show ?thesis
  proof (cases rule: get_active_operation_cases)
    case (found oper)
    let ?dec = "decide_transition command (Some (op_command oper)) (Some (op_status oper))
      (u_deleted_at u \<noteq> None)"
    let ?d2 = "finish_with e uid (op_id oper) CANCELLED (op_completed_targets oper)
      (op_failed_targets oper) (cat [''superseded by '', lifecycle_command_value command]) d"
    have mode: "td_mode ?dec \<in> {REJECT, REUSE, SUPERSEDE}"
      using cmd by (simp add: decide_active [OF found(4)])
    note fin = finish_with_inv [OF inv Some found(2), of CANCELLED]
    obtain v where v: "get_user uid ?d2 = Some v"
      using get_user_finish_with [OF Some] by blast
    have "operations_inv (snd (create_operation e u command actor t (Some (op_id oper)) ?d2))"
      by (rule create_operation_inv [OF fin(1) v uid])
        (use fin(2) in \<open>auto simp: terminal_def TERMINAL_OPERATION_STATUSES_def\<close>)
    then show ?thesis
      using mode inv by (auto simp: request_operation_def Some found(1) Let_def split: prod.splits)
  next
    case (cleared i)
    let ?d1 = "upd_user uid (\<lambda>u. u\<lparr>u_active_operation_id := None\<rparr>) d"
    have inv1: "operations_inv ?d1"
      using get_active_operation_inv [OF inv Some] cleared by simp
    have idle: "terminal (op_status oper)"
      if "oper \<in> set (operations ?d1)" "op_user_id oper = Some uid" for oper
      using idle_user_operations_terminal [OF inv Some cleared(3)] that by simp
    obtain v where v: "get_user uid ?d1 = Some v"
      using Some by (simp add: user_table.get_upd)
    have "operations_inv (snd (create_operation e u command actor t None ?d1))"
      by (rule create_operation_inv [OF inv1 v uid idle])
    then show ?thesis
      using inv1 by (auto simp: request_operation_def Some cleared(3) Let_def split: prod.splits)
  next
    case idle
    have "operations_inv (snd (create_operation e u command actor t None d))"
      by (rule create_operation_inv [OF inv Some uid])
        (use idle_user_operations_terminal [OF inv Some idle(2)] in simp)
    then show ?thesis
      using inv by (auto simp: request_operation_def Some idle(2) Let_def split: prod.splits)
  qed
qed

section \<open>What a request gives\<close>

lemma request_operation_Inr:
  assumes inv: "operations_inv d" and u: "get_user uid d = Some u"
    and req: "request_operation e uid command actor t d = (Inr i, d')"
  shows "\<exists>oper v. get_operation i d' = Some oper \<and> \<not> terminal (op_status oper) \<and>
    op_user_id oper = Some uid \<and> get_user uid d' = Some v \<and> u_active_operation_id v = Some i"
proof -
  have uid: "u_id u = uid" using u by (rule user_table.get_key)
  have ok: "operations_ok d" "active_exists d" using inv by (simp_all add: operations_inv_def)
  have created: "\<exists>oper v. get_operation j d2 = Some oper \<and> \<not> terminal (op_status oper) \<and>
      op_user_id oper = Some uid \<and> get_user uid d2 = Some v \<and> u_active_operation_id v = Some j"
    if c: "create_operation e u command actor t s d1 = (j, d2)" and v: "get_user uid d1 = Some v"
      and ok1: "operations_ok d1" for s d1 j d2 v
  proof -
    let ?op = "new_operation e (tick d1) (Some uid) command actor (u_username u) t s"
    have ok2: "operations_ok (add_operation ?op d1)"
      by (rule operations_ok_add) (simp_all add: ok1 new_operation_def)
    have "get_operation (tick d1) (add_operation ?op d1) = Some ?op"
      using get_operation_iff [OF ok2] by (simp add: add_operation_def next_tick_def new_operation_def)
    moreover have "get_user uid (add_operation ?op d1) = Some v"
      using v by (simp add: add_operation_def get_user_def next_tick_def)
    ultimately show ?thesis
      using c by (auto simp: create_operation_def Let_def uuid4_def uid user_table.get_upd
          new_operation_def terminal_def TERMINAL_OPERATION_STATUSES_def)
  qed
  from u show ?thesis
  proof (cases rule: get_active_operation_cases)
    case (found oper)
    have owner: "op_user_id oper = Some uid"
      using ok u found(2,3) get_user_iff [OF ok(1)] by (auto simp: active_exists_def)
    let ?d2 = "finish_with e uid (op_id oper) CANCELLED (op_completed_targets oper)
      (op_failed_targets oper) (cat [''superseded by '', lifecycle_command_value command]) d"
    have ok2: "operations_ok ?d2"
      using finish_with_inv(1) [OF inv u found(2), of CANCELLED]
      by (simp add: operations_inv_def terminal_def TERMINAL_OPERATION_STATUSES_def)
    obtain v where v: "get_user uid ?d2 = Some v" using get_user_finish_with [OF u] by blast
    show ?thesis
      using req found u owner created [OF _ v ok2] created [OF _ u ok(1)]
      by (auto simp: request_operation_def Let_def split: if_splits prod.splits)
  next
    case (cleared j)
    have ok1: "operations_ok (upd_user uid (\<lambda>u. u\<lparr>u_active_operation_id := None\<rparr>) d)"
      by (subst operations_ok_upd_user) (simp_all add: ok)
    obtain v where v: "get_user uid (upd_user uid (\<lambda>u. u\<lparr>u_active_operation_id := None\<rparr>) d) = Some v"
      using u by (simp add: user_table.get_upd)
    show ?thesis
      using req cleared(3) u created [OF _ v ok1]
      by (auto simp: request_operation_def Let_def split: if_splits prod.splits)
  next
    case idle
    show ?thesis
      using req idle u created [OF _ u ok(1)]
      by (auto simp: request_operation_def Let_def split: if_splits prod.splits)
  qed
qed

lemma request_delete_accepted:
  assumes "get_user uid d = Some u"
  shows "\<exists>i d'. request_operation e uid DELETE actor t d = (Inr i, d')"
  using assms
proof (cases rule: get_active_operation_cases)
  case (found oper)
  then show ?thesis
    using assms by (auto simp: request_operation_def Let_def decide_active split: prod.splits)
qed (use assms in \<open>auto simp: request_operation_def Let_def decide_idle split: prod.splits\<close>)

lemma request_retry_rejected:
  "\<exists>reason d'. request_operation e uid RETRY actor t d = (Inl reason, d')"
proof (cases "get_user uid d")
  case (Some u)
  then show ?thesis
  proof (cases rule: get_active_operation_cases)
    case (found oper)
    then show ?thesis
      using Some by (auto simp: request_operation_def Let_def decide_active split: prod.splits)
  qed (use Some in \<open>auto simp: request_operation_def Let_def decide_idle split: prod.splits\<close>)
qed (simp add: request_operation_def)

text \<open>\<open>resume_operation\<close> asks nothing about the active operation.\<close>

lemma resume_operation_leaves_two:
  assumes ok: "operations_ok d" and u: "get_user uid d = Some u"
    and act: "u_active_operation_id u = Some j" "get_operation j d = Some running"
      "\<not> terminal (op_status running)"
    and failed: "get_operation i d = Some oper" "op_status oper = OP_FAILED" "i \<noteq> j"
  shows "\<exists>d'. resume_operation e uid oper t d = Inr d' \<and>
    (\<exists>o1 o2. get_operation i d' = Some o1 \<and> get_operation j d' = Some o2 \<and>
       \<not> terminal (op_status o1) \<and> \<not> terminal (op_status o2)) \<and>
    map_option u_active_operation_id (get_user uid d') = Some (Some i)"
proof -
  have "op_id oper = i" using failed(1) by (rule operation_table.get_key)
  then show ?thesis
    using assms by (auto simp: resume_operation_def resumable_def operation_table.get_upd
        user_table.get_upd terminal_def TERMINAL_OPERATION_STATUSES_def)
qed

section \<open>Properties\<close>


definition pending_operation :: LifecycleOperation where
  "pending_operation = new_operation sample_env 0 (Some 1) UPDATE ''admin'' ''ada'' None None"

definition requested_user :: ManagedUser where
  "requested_user = sample_user\<lparr>u_active_operation_id := Some 0\<rparr>"


text \<open>A deletion is always accepted and a retry never is: whatever the active operation, a request
  to delete an existing user gives an operation, and a request for the command
  \<open>retry\<close> is rejected, because an active operation is never a failed one.  So the code that
  reuses an operation for a retry is never reached.\<close>

theorem delete_accepted_retry_rejected:
  assumes "get_user uid d = Some u"
  shows "(\<exists>i d'. request_operation e uid DELETE actor t d = (Inr i, d')) \<and>
    (\<exists>reason d'. request_operation e uid RETRY actor t d = (Inl reason, d'))"
  using request_delete_accepted [OF assms] request_retry_rejected by blast

theorem delete_accepted_retry_rejected_witness:
  "\<exists>i d'. request_operation sample_env 1 DELETE ''admin'' None sample_db = (Inr i, d')"
proof -
  have "get_user 1 sample_db = Some sample_user" by (simp add: sample_defs get_user_def rows_get_def)
  then show ?thesis using delete_accepted_retry_rejected by blast
qed

text \<open>An accepted request gives an operation that can run: it exists, belongs to the user, is not
  finished, and is the operation the user points to.\<close>

theorem accepted_request_is_active:
  assumes "operations_inv d" "get_user uid d = Some u"
    and "request_operation e uid command actor t d = (Inr i, d')"
  shows "\<exists>oper. get_operation i d' = Some oper \<and> op_user_id oper = Some uid \<and>
    \<not> terminal (op_status oper) \<and>
    map_option u_active_operation_id (get_user uid d') = Some (Some i)"
  using request_operation_Inr [OF assms] by fastforce

theorem accepted_request_is_active_witness:
  "\<exists>oper. get_operation 0 (snd (request_operation sample_env 1 DELETE ''admin'' None sample_db)) = Some oper \<and>
     op_user_id oper = Some 1"
proof -
  have inv: "operations_inv sample_db" "get_user 1 sample_db = Some sample_user"
    by (simp_all add: operations_inv_def operations_ok_def active_exists_def single_flight_def
        sample_db_def empty_db_def sample_user_def get_user_def rows_get_def)
  have "request_operation sample_env 1 DELETE ''admin'' None sample_db =
      (Inr 0, snd (request_operation sample_env 1 DELETE ''admin'' None sample_db))"
    by (simp add: request_operation_def get_active_operation_def decide_transition_def
        is_active_def decision_def create_operation_def uuid4_def sample_defs get_user_def
        rows_get_def Let_def)
  from accepted_request_is_active [OF inv this] show ?thesis by blast
qed

text \<open>Resuming a failed operation does not look at the active one.  When a user has an unfinished
  operation and an older, failed one is resumed, as the automatic retry does, both are
  unfinished, and the user points to the resumed one.\<close>

theorem resume_ignores_active_operation:
  assumes "operations_ok d" "get_user uid d = Some u"
    and "u_active_operation_id u = Some j" "get_operation j d = Some running"
      "\<not> terminal (op_status running)"
    and "get_operation i d = Some oper" "op_status oper = OP_FAILED" "i \<noteq> j"
  shows "\<exists>d' x y. resume_operation e uid oper t d = Inr d' \<and>
    get_operation i d' = Some x \<and> get_operation j d' = Some y \<and>
    \<not> terminal (op_status x) \<and> \<not> terminal (op_status y) \<and>
    map_option u_active_operation_id (get_user uid d') = Some (Some i)"
  using resume_operation_leaves_two [OF assms] by blast

definition two_operations_db :: db where
  "two_operations_db = sample_db\<lparr>tick := 2, users := [requested_user],
     operations := [pending_operation, pending_operation\<lparr>op_id := 1, op_status := OP_FAILED\<rparr>]\<rparr>"

theorem resume_ignores_active_operation_witness:
  "\<exists>d'. resume_operation sample_env 1 (pending_operation\<lparr>op_id := 1, op_status := OP_FAILED\<rparr>) None
     two_operations_db = Inr d' \<and> map_option u_active_operation_id (get_user 1 d') = Some (Some 1)"
proof -
  have pre: "operations_ok two_operations_db" "get_user 1 two_operations_db = Some requested_user"
    "u_active_operation_id requested_user = Some 0" "get_operation 0 two_operations_db = Some pending_operation"
    "\<not> terminal (op_status pending_operation)"
    "get_operation 1 two_operations_db = Some (pending_operation\<lparr>op_id := 1, op_status := OP_FAILED\<rparr>)"
    "op_status (pending_operation\<lparr>op_id := 1, op_status := OP_FAILED\<rparr>) = OP_FAILED" "(1::nat) \<noteq> 0"
    by (simp_all add: operations_ok_def two_operations_db_def pending_operation_def new_operation_def
        requested_user_def sample_user_def get_user_def get_operation_def rows_get_def
        terminal_def TERMINAL_OPERATION_STATUSES_def)
  from resume_ignores_active_operation [OF pre] show ?thesis by blast
qed

end
