(* ===== verification/Intents.thy ===== *)
theory Intents
  imports Operations
begin

text \<open>
  Assignment intents, the first part of \<open>src/na_sso/assignments.py\<close>: the memberships a
  user is to have on each target, resolved from the version of a profile or from the
  assigned states and then from the durable exceptions of the user; the recording of manual target choices
  as exceptions; and the parser of a profile bundle.  A dictionary of intents is
  an association list without repeated keys.
\<close>

type_synonym intents = "(string \<times> string set) list"

definition json_set :: "json_text \<Rightarrow> string set" where
  "json_set j = (case j of JsonList xs \<Rightarrow> set xs | NotAList \<Rightarrow> {})"

definition membership_ok :: "string \<Rightarrow> bool" where
  "membership_ok s \<longleftrightarrow> safe_identifier s"

definition profile_target_map :: "uuid \<Rightarrow> db \<Rightarrow> intents" where
  "profile_target_map profile_id d =
    fold (\<lambda>row. AList.update (pt_target_id row) (json_set (pt_memberships row)))
      (filter (\<lambda>row. pt_profile_id row = profile_id) (profile_targets d)) []"

definition get_user_profile :: "id \<Rightarrow> db \<Rightarrow> UserAssignmentProfile option" where
  "get_user_profile uid d = rows_get up_user_id uid (user_profiles d)"

definition user_exceptions :: "id \<Rightarrow> db \<Rightarrow> UserAssignmentException list" where
  "user_exceptions uid d = filter (\<lambda>x. ue_user_id x = uid) (exceptions d)"

definition apply_exception :: "Connector list \<Rightarrow> UserAssignmentException \<Rightarrow> intents \<Rightarrow> intents" where
  "apply_exception cs x i =
    (let t = ue_target_id x in
     if ue_assignment_mode x = ''exclude'' then AList.delete t i
     else
       (let i1 = (if ue_assignment_mode x = ''include'' \<and> map_of i t = None then
                    (case connector_for t cs of
                       None \<Rightarrow> i | Some c \<Rightarrow> AList.update t (c_default_memberships c) i)
                  else i) in
        (case map_of i1 t of
           None \<Rightarrow> i1
         | Some memberships \<Rightarrow>
             AList.update t
               ((memberships \<union> json_set (ue_add_memberships x)) - json_set (ue_remove_memberships x))
               i1)))"

definition default_intents :: "Connector list \<Rightarrow> SyncState list \<Rightarrow> intents" where
  "default_intents cs states =
    fold (\<lambda>s i. case connector_for (ss_target s) cs of
            None \<Rightarrow> i
          | Some c \<Rightarrow> if ss_assigned s \<and> \<not> ss_retired s
                      then AList.update (ss_target s) (c_default_memberships c) i else i)
      states []"

definition resolve_assignment_intents :: "id \<Rightarrow> Connector list \<Rightarrow> db \<Rightarrow> intents" where
  "resolve_assignment_intents uid cs d =
    fold (apply_exception cs) (user_exceptions uid d)
      (case get_user_profile uid d of
         Some assignment \<Rightarrow> profile_target_map (up_profile_id assignment) d
       | None \<Rightarrow> default_intents cs (user_states uid d))"

definition desired_mode :: "string list \<Rightarrow> string list \<Rightarrow> string \<Rightarrow> string" where
  "desired_mode selected base t =
    (if t \<in> set selected \<and> t \<notin> set base then ''include''
     else if t \<notin> set selected \<and> t \<in> set base then ''exclude'' else ''inherit'')"

definition find_exception :: "id \<Rightarrow> string \<Rightarrow> db \<Rightarrow> UserAssignmentException option" where
  "find_exception uid t d = find (\<lambda>x. ue_user_id x = uid \<and> ue_target_id x = t) (rev (exceptions d))"

definition upd_exception :: "id \<Rightarrow> (UserAssignmentException \<Rightarrow> UserAssignmentException) \<Rightarrow> db \<Rightarrow> db" where
  "upd_exception k f d = d\<lparr>exceptions := rows_upd ue_id k f (exceptions d)\<rparr>"

definition record_target_exception ::
  "id \<Rightarrow> string list \<Rightarrow> string list \<Rightarrow> string \<Rightarrow> string \<Rightarrow> db \<Rightarrow> db" where
  "record_target_exception uid selected base actor t d =
    (let mode = desired_mode selected base t in
     case find_exception uid t d of
       None \<Rightarrow>
         if mode = ''inherit'' then d
         else d\<lparr>exceptions := exceptions d @
           [\<lparr>ue_id = next_id ue_id (exceptions d), ue_user_id = uid, ue_target_id = t,
             ue_assignment_mode = mode, ue_add_memberships = JsonList [],
             ue_remove_memberships = JsonList [], ue_updated_by = actor\<rparr>]\<rparr>
     | Some row \<Rightarrow>
         if mode = ''inherit'' \<and> json_set (ue_add_memberships row) = {}
            \<and> json_set (ue_remove_memberships row) = {}
         then d\<lparr>exceptions := rows_del ue_id (ue_id row) (exceptions d)\<rparr>
         else upd_exception (ue_id row)
                (\<lambda>r. r\<lparr>ue_assignment_mode := mode, ue_updated_by := actor\<rparr>) d)"

text \<open>The code visits the union of three sets; the model visits it in the order of their lists.\<close>

definition record_selected_target_exceptions :: "id \<Rightarrow> string list \<Rightarrow> string \<Rightarrow> db \<Rightarrow> db" where
  "record_selected_target_exceptions uid selected actor d =
    (case get_user_profile uid d of
       None \<Rightarrow> d
     | Some assignment \<Rightarrow>
         (let base = map fst (profile_target_map (up_profile_id assignment) d);
              existing = map ue_target_id (user_exceptions uid d) in
          fold (record_target_exception uid selected base actor)
            (remdups (base @ selected @ existing)) d))"

section \<open>Profile bundles\<close>

definition newline :: char where "newline = CHR 0x0A"

text \<open>\<open>str.splitlines\<close> on text whose lines end in a line feed or in a carriage return and
  a line feed; the other line boundaries of Unicode are left out.\<close>

definition strip_cr :: "string \<Rightarrow> string" where
  "strip_cr s = (if s \<noteq> [] \<and> last s = CHR 0x0D then butlast s else s)"

definition splitlines :: "string \<Rightarrow> string list" where
  "splitlines s = (let ls = split_on newline s in
     map strip_cr (if last ls = [] then butlast ls else ls))"

text \<open>\<open>str.partition\<close>: the text before the first separator, whether there is one, the rest.\<close>

definition partition_at :: "char \<Rightarrow> string \<Rightarrow> string \<times> bool \<times> string" where
  "partition_at c s = (takeWhile (\<lambda>x. x \<noteq> c) s, c \<in> set s, tl (dropWhile (\<lambda>x. x \<noteq> c) s))"

definition bundle_error :: "nat \<Rightarrow> string \<Rightarrow> string" where
  "bundle_error number text = cat [''line '', show_nat number, '': '', text]"

definition parse_bundle_line ::
  "Connector list \<Rightarrow> nat \<times> string \<Rightarrow> intents \<Rightarrow> string + intents" where
  "parse_bundle_line cs nl acc =
    (case nl of (number, raw_line) \<Rightarrow>
      let line = strip raw_line in
      if line = [] then Inr acc
      else
        (case partition_at (CHR '':'') line of (tid, separator, raw_memberships) \<Rightarrow>
          let target_id = strip tid;
              items = filter (\<lambda>x. x \<noteq> []) (map strip
                (split_on (CHR '','') (map (\<lambda>c. if c = CHR ''|'' then CHR '','' else c) raw_memberships)))
          in
          if \<not> separator \<or> connector_for target_id cs = None then
            Inl (bundle_error number ''use configured_target:group_or_role|group_or_role'')
          else if map_of acc target_id \<noteq> None then
            Inl (bundle_error number ''target appears more than once'')
          else if \<exists>x \<in> set items. \<not> membership_ok x then
            Inl (bundle_error number ''memberships must be safe identifiers'')
          else Inr (acc @ [(target_id, set items)])))"

fun parse_bundle_lines :: "Connector list \<Rightarrow> (nat \<times> string) list \<Rightarrow> intents \<Rightarrow> string + intents" where
  "parse_bundle_lines cs [] acc = Inr acc"
| "parse_bundle_lines cs (l # ls) acc =
    (case parse_bundle_line cs l acc of
       Inl err \<Rightarrow> Inl err | Inr acc' \<Rightarrow> parse_bundle_lines cs ls acc')"

definition parse_bundle :: "Connector list \<Rightarrow> string \<Rightarrow> string + intents" where
  "parse_bundle cs bundle =
    (let ls = splitlines bundle in
     case parse_bundle_lines cs (zip [1..<Suc (length ls)] ls) [] of
       Inl err \<Rightarrow> Inl err
     | Inr [] \<Rightarrow> Inl ''profile requires at least one target mapping''
     | Inr targets \<Rightarrow> Inr targets)"

section \<open>Laws\<close>

lemma apply_exception_other:
  "j \<noteq> ue_target_id x \<Longrightarrow> map_of (apply_exception cs x i) j = map_of i j"
  by (auto simp: apply_exception_def Let_def update_conv' delete_conv' split: option.splits)

text \<open>A target that is excluded has no intent, whatever the profile says; what an exception
  removes is not among the memberships, and what it adds and does not remove is.\<close>

lemma apply_exception_exclude:
  "ue_assignment_mode x = ''exclude'' \<Longrightarrow> map_of (apply_exception cs x i) (ue_target_id x) = None"
  by (simp add: apply_exception_def Let_def delete_conv')

lemma apply_exception_memberships:
  assumes "map_of (apply_exception cs x i) (ue_target_id x) = Some m"
  shows "json_set (ue_remove_memberships x) \<inter> m = {}"
    "json_set (ue_add_memberships x) - json_set (ue_remove_memberships x) \<subseteq> m"
  using assms
  by (auto simp: apply_exception_def Let_def update_conv' delete_conv' split: option.splits if_splits)

lemma fold_exceptions_other:
  "j \<notin> ue_target_id ` set xs \<Longrightarrow> map_of (fold (apply_exception cs) xs i) j = map_of i j"
  by (induction xs arbitrary: i) (auto simp: apply_exception_other)

text \<open>With one exception per target, the unique constraint of the table, the outcome on the target
  of an exception is that exception applied to the base.\<close>

lemma fold_exceptions_at:
  assumes "distinct (map ue_target_id xs)" "x \<in> set xs"
  shows "map_of (fold (apply_exception cs) xs i) (ue_target_id x) =
    map_of (apply_exception cs x (fold (apply_exception cs) (takeWhile (\<lambda>y. y \<noteq> x) xs) i)) (ue_target_id x)"
  using assms
proof (induction xs arbitrary: i)
  case (Cons y ys)
  show ?case
  proof (cases "y = x")
    case True
    then show ?thesis using Cons.prems by (simp add: fold_exceptions_other)
  next
    case False
    then show ?thesis using Cons by simp
  qed
qed simp

end
