(* ===== verification/Sync.thy ===== *)
theory Sync
  imports Intents
begin

text \<open>
  The propagation of one account to its targets, \<open>src/na_sso/sync.py\<close>.  The handler
  \<open>_sync_user\<close> is split where the code commits: the choice of the operation, the scope of
  the run, one target after the other, and the outcome of the operation.  A run returns the
  operation, or nothing when there is nothing to do; an exception that
  leaves the function is \<open>Raised\<close> with the database as last committed.  The lock per user makes
  the runs of one user sequential; a run is one step of the model.
\<close>

datatype 'a outcome = Done 'a db | Raised string db

fun outcome_db :: "'a outcome \<Rightarrow> db" where
  "outcome_db (Done x d) = d"
| "outcome_db (Raised err d) = d"

definition state_of :: "id \<Rightarrow> string \<Rightarrow> db \<Rightarrow> SyncState option" where
  "state_of uid t d = find (\<lambda>s. ss_target s = t) (rev (user_states uid d))"

definition command_for :: "DesiredAction \<Rightarrow> string \<Rightarrow> LifecycleCommand" where
  "command_for operation actor =
    (if operation = DA_DELETE then DELETE
     else if actor = ''verified-login'' then CREDENTIAL_HANDOFF
     else if actor = ''password-expiry'' then EXPIRE
     else UPDATE)"

section \<open>The operation of a run\<close>

definition new_state :: "Connector \<Rightarrow> id \<Rightarrow> db \<Rightarrow> SyncState" where
  "new_state c uid d =
    \<lparr>ss_id = next_id ss_id (sync_states d), ss_user_id = uid, ss_target = c_target_id c,
     ss_target_type = Some (target_type_value (c_target_type c)), ss_assigned = True,
     ss_retired = False, ss_state = PENDING, ss_detail = [], ss_attempt_count = 0,
     ss_next_retry_at = None, ss_operation_id = None\<rparr>"

text \<open>Without a configuration file a user with no states gets one for every connector.\<close>

definition create_missing_states :: "Env \<Rightarrow> id \<Rightarrow> Connector list \<Rightarrow> db \<Rightarrow> db" where
  "create_missing_states e uid available d =
    (if user_states uid d = [] \<and> \<not> s_config_file (settings e) then
       fold (\<lambda>t d. case connector_for t available of
               None \<Rightarrow> d | Some c \<Rightarrow> d\<lparr>sync_states := sync_states d @ [new_state c uid d]\<rparr>)
         (remdups (map c_target_id available)) d
     else d)"

text \<open>The operation of the state that is retried, when it has failed.\<close>

definition retried_operation :: "Env \<Rightarrow> id \<Rightarrow> string \<Rightarrow> db \<Rightarrow> uuid option \<times> db" where
  "retried_operation e uid t d =
    (case state_of uid t d of
       None \<Rightarrow> (None, d)
     | Some s \<Rightarrow>
        (case ss_operation_id s of
           None \<Rightarrow> (None, d)
         | Some i \<Rightarrow>
            (case get_operation i d of
               None \<Rightarrow> (None, d)
             | Some oper \<Rightarrow>
                if op_status oper \<in> {OP_FAILED, PARTIALLY_FAILED} then
                  (case resume_operation e uid oper (Some t) d of
                     Inl _ \<Rightarrow> (None, d) | Inr d' \<Rightarrow> (Some i, d'))
                else (None, d))))"

datatype choice = Use uuid | NotForUser | Conflicting

definition choose_operation ::
  "Env \<Rightarrow> id \<Rightarrow> DesiredAction \<Rightarrow> string option \<Rightarrow> string \<Rightarrow> uuid option \<Rightarrow> db \<Rightarrow> choice \<times> db" where
  "choose_operation e uid desired target actor operation_id d =
    (case Option.bind operation_id (\<lambda>i. get_operation i d) of
       Some oper \<Rightarrow> (if op_user_id oper \<noteq> Some uid then NotForUser else Use (op_id oper), d)
     | None \<Rightarrow>
        (let (resumed, d1) = (case target of None \<Rightarrow> (None, d) | Some t \<Rightarrow> retried_operation e uid t d) in
         case resumed of
           Some i \<Rightarrow> (Use i, d1)
         | None \<Rightarrow>
            (case request_operation e uid (command_for desired actor) actor target d1 of
               (Inl _, d2) \<Rightarrow> (Conflicting, d2) | (Inr i, d2) \<Rightarrow> (Use i, d2))))"

section \<open>The scope of a run\<close>

definition in_scope :: "DesiredAction \<Rightarrow> string option \<Rightarrow> Connector list \<Rightarrow> SyncState \<Rightarrow> bool" where
  "in_scope desired target available s \<longleftrightarrow>
     (target = None \<or> target = Some (ss_target s)) \<and>
     (desired = DA_DELETE \<or>
       ((ss_assigned s \<or> ss_state s \<in> {PENDING_DISABLE, FAILED}) \<and> \<not> ss_retired s
        \<and> connector_for (ss_target s) available \<noteq> None \<and> ss_state s \<noteq> CHPW))"

definition has_connector :: "Connector list \<Rightarrow> SyncState \<Rightarrow> bool" where
  "has_connector available s \<longleftrightarrow> \<not> ss_retired s \<and> connector_for (ss_target s) available \<noteq> None"

text \<open>Joining the states to the operation, and starting or resuming it; \<open>Inl\<close> is the
  conflict of an operation that is finished and has not failed.\<close>

definition begin_run ::
  "Env \<Rightarrow> id \<Rightarrow> DesiredAction \<Rightarrow> string option \<Rightarrow> Connector list \<Rightarrow> uuid \<Rightarrow> db \<Rightarrow> string + db" where
  "begin_run e uid desired target available i d =
    (let scope = filter (in_scope desired target available) (user_states uid d);
         d1 = fold (\<lambda>s. upd_state (ss_id s) (\<lambda>s. s\<lparr>ss_operation_id := Some i\<rparr>)) scope d in
     case get_operation i d1 of
       None \<Rightarrow> Inl ''no operation''
     | Some oper \<Rightarrow>
        if op_status oper = QUEUED then Inr (start_operation e i (length scope) d1)
        else
          (case resume_operation e uid oper target d1 of
             Inl err \<Rightarrow> Inl err
           | Inr d2 \<Rightarrow> Inr (upd_operation i (\<lambda>oper. if op_total_targets oper = 0
                          then oper\<lparr>op_total_targets := length scope\<rparr> else oper) d2)))"

section \<open>One target\<close>

record SyncCall =
  y_user :: ManagedUser
  y_operation :: uuid
  y_actor :: string
  y_desired :: DesiredAction
  y_password :: "string option"
  y_intents :: intents

definition memberships_for :: "SyncCall \<Rightarrow> Connector \<Rightarrow> string set" where
  "memberships_for y c =
    (case map_of (y_intents y) (c_target_id c) of None \<Rightarrow> c_default_memberships c | Some m \<Rightarrow> m)"

definition call_connector :: "SyncCall \<Rightarrow> ConnectorOperation \<Rightarrow> Connector \<Rightarrow> nat \<Rightarrow> SyncResult" where
  "call_connector y oper c t =
    (case oper of
       CO_DELETE \<Rightarrow> c_delete_user c t (y_user y)
     | CO_DISABLE \<Rightarrow> c_disable_user c t (y_user y) (memberships_for y c)
     | CO_ENSURE \<Rightarrow> c_ensure_user c t (y_user y) (y_password y) (memberships_for y c))"

definition after_success :: "SyncCall \<Rightarrow> SyncResult \<Rightarrow> SyncState \<Rightarrow> SyncState" where
  "after_success y r s =
    (let s1 = s\<lparr>ss_detail := sr_detail r, ss_attempt_count := 0, ss_next_retry_at := None\<rparr>;
         kind = u_password_decision_kind (y_user y) in
     if y_desired y = DA_DELETE then s1\<lparr>ss_state := OK\<rparr>
     else if \<not> ss_assigned s then s1\<lparr>ss_state := UNASSIGNED\<rparr>
     else if kind \<in> {PD_INITIAL, PD_RESET} then
       s1\<lparr>ss_state := CHPW, ss_detail := ''password change required before propagation''\<rparr>
     else if kind = PD_EXPIRED then s1\<lparr>ss_state := EXPIRED_DISABLED\<rparr>
     else s1\<lparr>ss_state := OK\<rparr>)"

text \<open>\<open>retry_base_seconds * 2 ** (attempt_count - 1)\<close>: the product of a float and an
  integer, which raises \<open>OverflowError\<close> when the integer has no finite float.\<close>

definition retry_delay :: "Settings \<Rightarrow> nat \<Rightarrow> nat option" where
  "retry_delay st attempt_count =
    (if attempt_count - 1 \<ge> 1024 then None
     else Some (min (s_retry_base st * 2 ^ (attempt_count - 1)) (s_retry_max st)))"

definition after_failure :: "Env \<Rightarrow> SyncResult \<Rightarrow> SyncState \<Rightarrow> (SyncState \<times> bool) option" where
  "after_failure e r s =
    (let n = Suc (ss_attempt_count s);
         s1 = s\<lparr>ss_state := FAILED, ss_detail := sr_detail r, ss_attempt_count := n\<rparr> in
     if sr_error_kind r = Some VALIDATION then Some (s1\<lparr>ss_state := UNSUPPORTED\<rparr>, True)
     else
       (case retry_delay (settings e) n of
          None \<Rightarrow> None
        | Some delay \<Rightarrow> Some (s1\<lparr>ss_next_retry_at := Some (now e + int delay)\<rparr>,
            n = np_persistent_failure_attempts (notification_policy e))))"

definition em_dash :: string where
  "em_dash = [CHR '' '', CHR 0xE2, CHR 0x80, CHR 0x94, CHR '' '']"

definition persistent_failure :: "SyncCall \<Rightarrow> Connector \<Rightarrow> Event" where
  "persistent_failure y c =
    \<lparr>ev_actor = y_actor y, ev_subject = u_username (y_user y),
     ev_dedupe_key = cat [show_nat (y_operation y), '':'', c_target_id c],
     ev_operation_id = Some (y_operation y), ev_target_id = Some (c_target_id c),
     ev_outcome = Some ''failed''\<rparr>"

definition put_result :: "SyncState \<Rightarrow> SyncState \<Rightarrow> SyncState" where
  "put_result s row = row\<lparr>ss_state := ss_state s, ss_detail := ss_detail s,
     ss_attempt_count := ss_attempt_count s, ss_next_retry_at := ss_next_retry_at s\<rparr>"

definition put_pending :: "SyncState \<Rightarrow> SyncState" where
  "put_pending row = row\<lparr>ss_state := PENDING, ss_detail := [], ss_next_retry_at := None\<rparr>"

definition record_target_result ::
  "Env \<Rightarrow> SyncCall \<Rightarrow> Connector \<Rightarrow> id \<Rightarrow> SyncResult \<Rightarrow> SyncState \<Rightarrow> bool \<Rightarrow> db \<Rightarrow> db" where
  "record_target_result e y c attempt r s persistent d =
    (let d1 = upd_state (ss_id s) (put_result s) d;
         d2 = (if persistent then notify e ''sync.persistent_failure'' (persistent_failure y c) d1 else d1);
         d3 = finish_target_attempt e attempt (sr_ok r) (ss_state s) (sr_detail r) d2
     in record_audit e (y_actor y) (cat [''sync.'', desired_action_value (y_desired y)])
          (u_username (y_user y))
          (cat [c_target_id c, '': '', sync_state_value (ss_state s), em_dash, sr_detail r])
          (Some (y_operation y)) d3)"

definition run_target ::
  "Env \<Rightarrow> SyncCall \<Rightarrow> Connector \<Rightarrow> ConnectorOperation \<Rightarrow> SyncState \<Rightarrow> db \<Rightarrow> unit outcome" where
  "run_target e y c oper s0 d =
    (let (attempt, d1) = start_target_attempt e (y_operation y) (c_target_id c)
           (Some (target_type_value (c_target_type c))) d;
         s = put_pending s0;
         committed = next_tick (upd_state (ss_id s0) put_pending d1);
         r = call_connector y oper c (tick d) in
     if sr_ok r then
       Done () (record_target_result e y c attempt r (after_success y r s) False committed)
     else
       (case after_failure e r s of
          None \<Rightarrow> Raised ''OverflowError'' committed
        | Some (s', persistent) \<Rightarrow>
            Done () (record_target_result e y c attempt r s' persistent committed)))"

definition sync_target :: "Env \<Rightarrow> SyncCall \<Rightarrow> Connector \<Rightarrow> db \<Rightarrow> unit outcome" where
  "sync_target e y c d =
    (case state_of (u_id (y_user y)) (c_target_id c) d of
       None \<Rightarrow> Raised ''KeyError'' d
     | Some s \<Rightarrow>
        (let oper = lifecycle_operation_for (y_user y) (y_desired y = DA_DELETE)
               (\<not> ss_assigned s \<or> ss_state s = PENDING_CHPW_DISABLE) in
         if \<not> supports_operation c oper then
           (let detail = unsupported_operation_detail c oper in
            Done () (record_audit e (y_actor y)
              (cat [''sync.'', connector_operation_value oper, ''.unsupported''])
              (u_username (y_user y)) (cat [c_target_id c, '': '', detail]) (Some (y_operation y))
              (upd_state (ss_id s)
                (\<lambda>s. s\<lparr>ss_state := UNSUPPORTED, ss_detail := detail, ss_next_retry_at := None\<rparr>) d)))
         else if y_desired y \<noteq> DA_DELETE \<and> ss_state s = AWAITING_CREDENTIALS \<and> y_password y = None
           then Done () d
         else run_target e y c oper s d))"

fun sync_targets :: "Env \<Rightarrow> SyncCall \<Rightarrow> Connector list \<Rightarrow> db \<Rightarrow> unit outcome" where
  "sync_targets e y [] d = Done () d"
| "sync_targets e y (c # cs) d =
    (case sync_target e y c d of
       Raised err d' \<Rightarrow> Raised err d' | Done _ d' \<Rightarrow> sync_targets e y cs d')"

section \<open>The outcome of the operation\<close>

definition count_text :: "nat \<Rightarrow> string \<Rightarrow> string list" where
  "count_text n text = (if n = 0 then [] else [cat [show_nat n, text]])"

definition completed_event :: "LifecycleOperation \<Rightarrow> Event" where
  "completed_event oper =
    \<lparr>ev_actor = op_actor oper, ev_subject = op_subject oper,
     ev_dedupe_key = cat [show_nat (op_id oper), '':'', operation_status_value (op_status oper)],
     ev_operation_id = Some (op_id oper), ev_target_id = op_requested_target oper,
     ev_outcome = Some (operation_status_value (op_status oper))\<rparr>"

text \<open>What the states of the operation say: those that failed, and those that are terminal for
  the requested action.\<close>

definition failures_of :: "SyncState list \<Rightarrow> SyncState list" where
  "failures_of states = filter (\<lambda>s. ss_state s \<in> {FAILED, UNSUPPORTED}) states"

definition terminal_of :: "DesiredAction \<Rightarrow> SyncState list \<Rightarrow> SyncState list" where
  "terminal_of desired states = filter (state_terminal desired) states"

definition all_assigned_ok :: "Connector list \<Rightarrow> SyncState list \<Rightarrow> bool" where
  "all_assigned_ok available states \<longleftrightarrow>
    (let assigned = filter (\<lambda>s. ss_assigned s \<and> has_connector available s) states in
     assigned \<noteq> [] \<and> (\<forall>s \<in> set assigned. ss_state s = OK))"

definition settle :: "Env \<Rightarrow> id \<Rightarrow> DesiredAction \<Rightarrow> Connector list \<Rightarrow> uuid \<Rightarrow> db \<Rightarrow> db" where
  "settle e uid desired available i d =
    (let states = filter (\<lambda>s. ss_operation_id s = Some i) (user_states uid d);
         failures = failures_of states;
         done = terminal_of desired states;
         d1 = upd_operation i (\<lambda>oper. oper\<lparr>op_completed_targets := length done,
                op_failed_targets := length failures\<rparr>) d in
     if failures \<noteq> [] then
       finish_with e uid i
         (if length done > length failures then PARTIALLY_FAILED else OP_FAILED)
         (length done) (length failures)
         (join_with ''; ''
           (count_text (length (filter (\<lambda>s. ss_state s = FAILED) failures)) '' target operation(s) failed''
            @ count_text (length (filter (\<lambda>s. ss_state s = UNSUPPORTED) failures))
                '' target operation(s) unsupported''))
         d1
     else if length done = length states then
       finish_with e uid i SUCCEEDED (length done) 0 []
         (if desired = DA_DELETE then upd_user uid (\<lambda>u. u\<lparr>u_deleted_at := Some (now e)\<rparr>) d1
          else if all_assigned_ok available (user_states uid d)
            then upd_user uid (\<lambda>u. u\<lparr>u_pending_secret := None\<rparr>) d1
          else d1)
     else d1)"

definition announce :: "Env \<Rightarrow> uuid \<Rightarrow> db \<Rightarrow> db" where
  "announce e i d =
    (case get_operation i d of
       None \<Rightarrow> d
     | Some oper \<Rightarrow> if terminal (op_status oper)
                    then notify e ''lifecycle.completed'' (completed_event oper) d else d)"

section \<open>The run\<close>

definition run_operation ::
  "Env \<Rightarrow> ManagedUser \<Rightarrow> DesiredAction \<Rightarrow> string option \<Rightarrow> string \<Rightarrow> Connector list \<Rightarrow> intents
     \<Rightarrow> uuid \<Rightarrow> db \<Rightarrow> db \<Rightarrow> uuid option outcome" where
  "run_operation e u desired target actor available intents i d0 d =
    (case begin_run e (u_id u) desired target available i d of
       Inl _ \<Rightarrow> Raised ''OperationConflict'' d0
     | Inr d1 \<Rightarrow>
        (let y = \<lparr>y_user = u, y_operation = i, y_actor = actor, y_desired = desired,
               y_password = (if has_text (u_pending_secret u)
                             then map_option (decrypt_secret e) (u_pending_secret u) else None),
               y_intents = intents\<rparr>;
             connectors = List.map_filter (\<lambda>s. connector_for (ss_target s) available)
               (filter (has_connector available)
                 (filter (in_scope desired target available) (user_states (u_id u) d)))
         in case sync_targets e y connectors d1 of
              Raised err d2 \<Rightarrow> Raised err d2
            | Done _ d2 \<Rightarrow>
                Done (Some i) (announce e i (settle e (u_id u) desired available i d2))))"

definition sync_user ::
  "Env \<Rightarrow> id \<Rightarrow> DesiredAction option \<Rightarrow> string option \<Rightarrow> string \<Rightarrow> uuid option \<Rightarrow> db
     \<Rightarrow> uuid option outcome" where
  "sync_user e uid action target actor operation_id d =
    (case get_user uid d of
       None \<Rightarrow> Done None d
     | Some u \<Rightarrow>
        if is_root u then Done None d
        else
          (let available = get_connectors e d;
               desired = (case action of None \<Rightarrow> u_desired_action u | Some a \<Rightarrow> a);
               intents = resolve_assignment_intents uid available d;
               d1 = create_missing_states e uid available d in
           case choose_operation e uid desired target actor operation_id d1 of
             (Use i, d2) \<Rightarrow> run_operation e u desired target actor available intents i d d2
           | (NotForUser, _) \<Rightarrow> Done None d
           | (Conflicting, _) \<Rightarrow> Done None d))"

section \<open>The workers\<close>

definition credential_handoff :: "Env \<Rightarrow> id \<Rightarrow> string \<Rightarrow> db \<Rightarrow> unit outcome" where
  "credential_handoff e uid password d =
    (case get_user uid d of
       None \<Rightarrow> Done () d
     | Some u \<Rightarrow>
        if is_root u \<or> u_password_decision_kind u \<in> {PD_INITIAL, PD_RESET} then Done () d
        else
          (let waiting = filter (\<lambda>s. ss_assigned s \<and> \<not> ss_retired s \<and>
                   ss_state s \<in> {AWAITING_CREDENTIALS, EXPIRED_DISABLED, CHPW}) (user_states uid d) in
           if waiting = [] then Done () d
           else
             (let d1 = upd_user uid (\<lambda>u. u\<lparr>u_pending_secret := Some (encrypt_secret e password)\<rparr>) d;
                  d2 = fold (\<lambda>s. upd_state (ss_id s) (\<lambda>s. s\<lparr>ss_state := PENDING,
                         ss_detail := ''credential supplied after verified authentication''\<rparr>))
                       waiting d1 in
              case sync_user e uid None None ''verified-login'' None d2 of
                Done _ d3 \<Rightarrow> Done () d3 | Raised err d3 \<Rightarrow> Raised err d3)))"

definition retry_is_due :: "Env \<Rightarrow> SyncState \<Rightarrow> bool" where
  "retry_is_due e s \<longleftrightarrow> \<not> ss_retired s \<and> ss_state s = FAILED \<and>
     (case ss_next_retry_at s of None \<Rightarrow> False | Some t \<Rightarrow> t \<le> now e)"

fun retry_states :: "Env \<Rightarrow> SyncState list \<Rightarrow> db \<Rightarrow> unit outcome" where
  "retry_states e [] d = Done () d"
| "retry_states e (s # ss) d =
    (case sync_user e (ss_user_id s) None (Some (ss_target s)) ''auto-retry'' (ss_operation_id s) d of
       Done _ d' \<Rightarrow> retry_states e ss d'
     | Raised err d' \<Rightarrow> Raised err d')"

definition retry_due :: "Env \<Rightarrow> db \<Rightarrow> nat outcome" where
  "retry_due e d =
    (let due = filter (retry_is_due e) (sync_states d) in
     case retry_states e due d of
       Done _ d' \<Rightarrow> Done (length due) d' | Raised err d' \<Rightarrow> Raised err d')"

definition password_is_due :: "Env \<Rightarrow> ManagedUser \<Rightarrow> time option" where
  "password_is_due e u =
    (if u_role u = ''root'' \<or> u_status u \<noteq> US_ACTIVE \<or> u_password_decision_required u then None
     else (case password_expires_at (fc_password_policy (file_config e)) u of
             None \<Rightarrow> None | Some t \<Rightarrow> if t > now e then None else Some t))"

definition expire_password :: "Env \<Rightarrow> ManagedUser \<Rightarrow> time \<Rightarrow> db \<Rightarrow> db" where
  "expire_password e u expires_at d =
    (let d1 = upd_user (u_id u) (\<lambda>u. u\<lparr>u_password_decision_required := True,
                u_password_decision_kind := PD_EXPIRED\<rparr>) d;
         d2 = fold (\<lambda>s. upd_state (ss_id s)
                 (\<lambda>s. s\<lparr>ss_state := PENDING_EXPIRY_DISABLE, ss_next_retry_at := None\<rparr>))
               (filter (\<lambda>s. ss_assigned s \<and> \<not> ss_retired s) (user_states (u_id u) d)) d1;
         d3 = record_audit e ''system'' ''password.expired'' (u_username u)
                ''targets disabled pending password acknowledgement'' None d2
     in notify e ''password.expired''
          \<lparr>ev_actor = ''system'', ev_subject = u_username u,
           ev_dedupe_key = cat [show_nat (u_id u), '':'', isoformat e expires_at],
           ev_operation_id = None, ev_target_id = None, ev_outcome = Some ''expired''\<rparr> d3)"

fun sync_users :: "Env \<Rightarrow> string \<Rightarrow> id list \<Rightarrow> db \<Rightarrow> unit outcome" where
  "sync_users e actor [] d = Done () d"
| "sync_users e actor (i # is) d =
    (case sync_user e i None None actor None d of
       Done _ d' \<Rightarrow> sync_users e actor is d' | Raised err d' \<Rightarrow> Raised err d')"

definition expire_due :: "Env \<Rightarrow> db \<Rightarrow> nat outcome" where
  "expire_due e d =
    (if pw_expires_after_days (fc_password_policy (file_config e)) = None then Done 0 d
     else
       (let due = filter (\<lambda>u. password_is_due e u \<noteq> None) (users d);
            d1 = fold (\<lambda>u. expire_password e u (the (password_is_due e u))) due d in
        case sync_users e ''password-expiry'' (map u_id due) d1 of
          Done _ d2 \<Rightarrow> Done (length due) d2 | Raised err d2 \<Rightarrow> Raised err d2))"

section \<open>What a run leaves alone\<close>

text \<open>The part of a state that a run never changes once the state has joined the operation.\<close>

definition state_shape :: "SyncState \<Rightarrow> id \<times> id \<times> string \<times> bool \<times> bool \<times> uuid option" where
  "state_shape s =
     (ss_id s, ss_user_id s, ss_target s, ss_assigned s, ss_retired s, ss_operation_id s)"

definition states_ok :: "db \<Rightarrow> bool" where
  "states_ok d \<longleftrightarrow> distinct (map ss_id (sync_states d))"

text \<open>A run writes neither of the two values of a target without an account.\<close>

definition live :: "SyncState \<Rightarrow> bool" where
  "live s \<longleftrightarrow> ss_state s \<notin> {RETIRED, NOT_ASSIGNED}"

definition state_step :: "id \<Rightarrow> SyncState \<Rightarrow> SyncState \<Rightarrow> bool" where
  "state_step uid s s' \<longleftrightarrow> state_shape s' = state_shape s \<and> (ss_user_id s \<noteq> uid \<longrightarrow> s' = s)
     \<and> (live s \<longrightarrow> live s')"

definition target_step :: "id \<Rightarrow> db \<Rightarrow> db \<Rightarrow> bool" where
  "target_step uid d d' \<longleftrightarrow> users d' = users d \<and> operations d' = operations d \<and>
     list_all2 (state_step uid) (sync_states d) (sync_states d')"

lemma state_step_refl [simp]: "state_step uid s s"
  by (simp add: state_step_def)

lemma state_step_trans: "state_step uid a b \<Longrightarrow> state_step uid b c \<Longrightarrow> state_step uid a c"
  by (auto simp: state_step_def state_shape_def)

lemma target_step_refl [simp]: "target_step uid d d"
  by (simp add: target_step_def list_all2_refl)

lemma target_step_trans:
  assumes "target_step uid a b" "target_step uid b c" shows "target_step uid a c"
proof -
  have "list_all2 (state_step uid) (sync_states a) (sync_states c)"
    using assms by (auto simp: target_step_def intro: list_all2_trans [OF state_step_trans])
  then show ?thesis using assms by (simp add: target_step_def)
qed

lemma target_step_frame:
  "users d' = users d \<Longrightarrow> operations d' = operations d \<Longrightarrow> sync_states d' = sync_states d \<Longrightarrow>
   target_step uid d d'"
  by (simp add: target_step_def list_all2_refl)

lemma target_step_states_ok:
  assumes "target_step uid d d'" shows "states_ok d' = states_ok d"
proof -
  have "map ss_id (sync_states d') = map ss_id (sync_states d)"
    using assms unfolding target_step_def
    by (auto simp: list_all2_conv_all_nth state_step_def state_shape_def intro!: nth_equalityI)
  then show ?thesis by (simp add: states_ok_def)
qed

text \<open>Changing the row of a state that belongs to the user.\<close>

lemma target_step_upd:
  assumes ok: "states_ok d" and s: "s \<in> set (sync_states d)" "ss_user_id s = uid"
    and f: "\<And>r. state_shape (f r) = state_shape r" "\<And>r. live (f r)"
  shows "target_step uid d (upd_state (ss_id s) f d)"
proof -
  have "state_step uid r (if ss_id r = ss_id s then f r else r)" if "r \<in> set (sync_states d)" for r
  proof (cases "ss_id r = ss_id s")
    case True
    then have "r = s" using ok that s(1) unfolding states_ok_def by (meson distinct_map inj_on_eq_iff)
    then show ?thesis using s(2) f by (simp add: state_step_def)
  qed simp
  then show ?thesis
    by (auto simp: target_step_def upd_state_def rows_upd_def list_all2_conv_all_nth)
qed

lemma state_of_mem:
  assumes "state_of uid t d = Some s"
  shows "s \<in> set (sync_states d)" "ss_user_id s = uid" "ss_target s = t"
proof -
  have "s \<in> set (rev (user_states uid d))" "ss_target s = t"
    using assms unfolding state_of_def find_Some_iff by (auto simp del: set_rev)
  then show "s \<in> set (sync_states d)" "ss_user_id s = uid" "ss_target s = t"
    by (auto simp: user_states_def)
qed

lemma put_shape [simp]:
  "state_shape (put_pending r) = state_shape r" "state_shape (put_result s r) = state_shape r"
  "live (put_pending r)" "live (put_result s r) = live s"
  by (simp_all add: put_pending_def put_result_def state_shape_def live_def)

lemma start_target_attempt_frame [simp]:
  "users (snd (start_target_attempt e i t ty d)) = users d"
  "operations (snd (start_target_attempt e i t ty d)) = operations d"
  "sync_states (snd (start_target_attempt e i t ty d)) = sync_states d"
  by (simp_all add: start_target_attempt_def Let_def)

lemma record_target_result_frame:
  "users (record_target_result e y c a r s p d) = users d"
  "operations (record_target_result e y c a r s p d) = operations d"
  "sync_states (record_target_result e y c a r s p d) =
     sync_states (upd_state (ss_id s) (put_result s) d)"
  by (simp_all add: record_target_result_def Let_def finish_target_attempt_def)

lemma after_shape:
  "state_shape (after_success y r s) = state_shape s"
  "after_failure e r s = Some (s', p) \<Longrightarrow> state_shape s' = state_shape s"
  "live (after_success y r s)"
  "after_failure e r s = Some (s', p) \<Longrightarrow> live s'"
  by (auto simp: after_success_def after_failure_def Let_def state_shape_def live_def
      split: if_splits option.splits)

lemma state_shape_id: "state_shape s = state_shape t \<Longrightarrow> ss_id s = ss_id t"
  by (simp add: state_shape_def)

text \<open>The database after one target: the attempt is started, the state is pending and this is
  committed; then the answer of the target decides.\<close>

lemma run_target_cases:
  fixes e y c oper s d
  defines "d1 \<equiv> next_tick (upd_state (ss_id s) put_pending
      (snd (start_target_attempt e (y_operation y) (c_target_id c)
        (Some (target_type_value (c_target_type c))) d)))"
    and "r \<equiv> call_connector y oper c (tick d)"
  obtains (success) a where "sr_ok r" "run_target e y c oper s d =
      Done () (record_target_result e y c a r (after_success y r (put_pending s)) False d1)"
  | (failure) a s' p where "\<not> sr_ok r" "after_failure e r (put_pending s) = Some (s', p)"
      "run_target e y c oper s d = Done () (record_target_result e y c a r s' p d1)"
  | (overflow) "\<not> sr_ok r" "after_failure e r (put_pending s) = None"
      "run_target e y c oper s d = Raised ''OverflowError'' d1"
proof -
  obtain a d0 where start: "start_target_attempt e (y_operation y) (c_target_id c)
      (Some (target_type_value (c_target_type c))) d = (a, d0)" by (rule prod.exhaust)
  show ?thesis
  proof (cases "sr_ok r")
    case True
    then show ?thesis
      using success [of a] by (simp add: run_target_def Let_def d1_def r_def start)
  next
    case False
    then show ?thesis
      using failure [of _ _ a] overflow
      by (cases "after_failure e r (put_pending s)")
        (auto simp: run_target_def Let_def d1_def r_def start)
  qed
qed

lemma run_target_step:
  assumes ok: "states_ok d" and s: "s \<in> set (sync_states d)" "ss_user_id s = uid"
  shows "target_step uid d (outcome_db (run_target e y c oper s d))"
proof -
  let ?d0 = "snd (start_target_attempt e (y_operation y) (c_target_id c)
        (Some (target_type_value (c_target_type c))) d)"
  let ?d1 = "next_tick (upd_state (ss_id s) put_pending ?d0)"
  let ?r = "call_connector y oper c (tick d)"
  have step0: "target_step uid d ?d0" by (rule target_step_frame) simp_all
  have ok0: "states_ok ?d0" using ok target_step_states_ok [OF step0] by simp
  have "target_step uid ?d0 (upd_state (ss_id s) put_pending ?d0)"
    by (rule target_step_upd [OF ok0]) (simp_all add: s)
  moreover have "target_step uid (upd_state (ss_id s) put_pending ?d0) ?d1"
    by (rule target_step_frame) (simp_all add: next_tick_def)
  ultimately have step1: "target_step uid d ?d1"
    using step0 target_step_trans by blast
  have ok1: "states_ok ?d1" using ok target_step_states_ok [OF step1] by simp
  have mem1: "put_pending s \<in> set (sync_states ?d1)"
    using s(1) by (force simp: next_tick_def upd_state_def set_rows_upd)
  have result: "target_step uid d (record_target_result e y c a ?r s' p ?d1)"
    if "state_shape s' = state_shape (put_pending s)" "live s'" for a s' p
  proof -
    have id: "ss_id s' = ss_id (put_pending s)" using that(1) by (rule state_shape_id)
    have "ss_user_id (put_pending s) = uid" using s(2) by (simp add: put_pending_def)
    then have "target_step uid ?d1 (upd_state (ss_id s') (put_result s') ?d1)"
      unfolding id by (intro target_step_upd [OF ok1 mem1]) (simp_all add: that(2))
    moreover have "target_step uid (upd_state (ss_id s') (put_result s') ?d1)
        (record_target_result e y c a ?r s' p ?d1)"
      by (rule target_step_frame) (simp_all add: record_target_result_frame)
    ultimately show ?thesis using step1 target_step_trans by blast
  qed
  show ?thesis
    by (cases rule: run_target_cases [of y oper c d e s])
      (use result step1 after_shape in auto)
qed

lemma sync_target_step:
  assumes "states_ok d"
  shows "target_step (u_id (y_user y)) d (outcome_db (sync_target e y c d))"
proof (cases "state_of (u_id (y_user y)) (c_target_id c) d")
  case (Some s)
  note mem = state_of_mem [OF Some]
  let ?oper = "lifecycle_operation_for (y_user y) (y_desired y = DA_DELETE)
    (\<not> ss_assigned s \<or> ss_state s = PENDING_CHPW_DISABLE)"
  have "target_step (u_id (y_user y)) d (upd_state (ss_id s) (\<lambda>s. s\<lparr>ss_state := UNSUPPORTED,
      ss_detail := unsupported_operation_detail c ?oper, ss_next_retry_at := None\<rparr>) d)"
    by (rule target_step_upd [OF assms mem(1,2)]) (simp_all add: state_shape_def live_def)
  then have "target_step (u_id (y_user y)) d (record_audit e a ac su de oi
      (upd_state (ss_id s) (\<lambda>s. s\<lparr>ss_state := UNSUPPORTED,
        ss_detail := unsupported_operation_detail c ?oper, ss_next_retry_at := None\<rparr>) d))"
    for a ac su de oi
    by (rule target_step_trans) (rule target_step_frame, simp_all)
  then show ?thesis
    using run_target_step [OF assms mem(1,2)] Some by (simp add: sync_target_def Let_def)
qed (simp add: sync_target_def)

lemma sync_targets_step:
  assumes "states_ok d"
  shows "target_step (u_id (y_user y)) d (outcome_db (sync_targets e y cs d))"
  using assms
proof (induction cs arbitrary: d)
  case (Cons c cs)
  have one: "target_step (u_id (y_user y)) d (outcome_db (sync_target e y c d))"
    using Cons.prems by (rule sync_target_step)
  show ?case
  proof (cases "sync_target e y c d")
    case (Done x d1)
    then have step: "target_step (u_id (y_user y)) d d1" using one by simp
    then have "states_ok d1" using Cons.prems target_step_states_ok by blast
    from target_step_trans [OF step Cons.IH [OF this]] show ?thesis using Done by simp
  qed (use one in simp)
qed simp

lemma state_terminal_delete:
  "state_terminal DA_DELETE s \<longleftrightarrow>
     ss_retired s \<or> ss_state s \<in> {RETIRED, NOT_ASSIGNED} \<or> (ss_assigned s \<and> ss_state s = OK)"
  by (simp add: state_terminal_def delete_terminal_iff)

lemma fold_upd_state:
  "fold (\<lambda>s. upd_state (ss_id s) f) xs d =
     d\<lparr>sync_states := fold (\<lambda>s. rows_upd ss_id (ss_id s) f) xs (sync_states d)\<rparr>"
  by (induction xs arbitrary: d) (simp_all add: upd_state_def)

lemma fold_upd_user_states:
  assumes "states_ok d" "\<And>s. ss_id (f s) = ss_id s"
  shows "fold (\<lambda>s. upd_state (ss_id s) f) (filter P (user_states uid d)) d =
    d\<lparr>sync_states := map (\<lambda>s. if ss_user_id s = uid \<and> P s then f s else s) (sync_states d)\<rparr>"
proof -
  have "filter P (user_states uid d) = filter (\<lambda>s. ss_user_id s = uid \<and> P s) (sync_states d)"
    by (simp add: user_states_def conj_commute)
  moreover have "fold (\<lambda>s. rows_upd ss_id (ss_id s) f)
      (filter (\<lambda>s. ss_user_id s = uid \<and> P s) (sync_states d)) (sync_states d) =
      map (\<lambda>s. if ss_user_id s = uid \<and> P s then f s else s) (sync_states d)"
    using assms by (intro fold_rows_upd_filter) (simp_all add: states_ok_def)
  ultimately show ?thesis by (simp only: fold_upd_state)
qed

section \<open>Joining, settling\<close>

lemma begin_run_Inr:
  assumes "states_ok d" "begin_run e uid desired target available i d = Inr d1"
  shows "sync_states d1 = map (\<lambda>s. if ss_user_id s = uid \<and> in_scope desired target available s
      then s\<lparr>ss_operation_id := Some i\<rparr> else s) (sync_states d)"
    and "\<And>j. j \<noteq> uid \<Longrightarrow> get_user j d1 = get_user j d"
    and "\<And>u. get_user uid d = Some u \<Longrightarrow> \<exists>a. get_user uid d1 = Some (u\<lparr>u_active_operation_id := a\<rparr>)"
proof -
  let ?F = "\<lambda>s. s\<lparr>ss_operation_id := Some i\<rparr>"
  define d0 where "d0 = d\<lparr>sync_states := map (\<lambda>s. if ss_user_id s = uid \<and>
    in_scope desired target available s then ?F s else s) (sync_states d)\<rparr>"
  have fold: "fold (\<lambda>s. upd_state (ss_id s) ?F)
      (filter (in_scope desired target available) (user_states uid d)) d = d0"
    unfolding d0_def by (rule fold_upd_user_states [OF assms(1)]) simp
  have users: "get_user j d0 = get_user j d" for j by (simp add: get_user_def d0_def)
  have res: "d1 = start_operation e i n d0 \<or> (\<exists>oper d2. resume_operation e uid oper target d0 = Inr d2 \<and>
      d1 = upd_operation i g d2)" if
    "n = length (filter (in_scope desired target available) (user_states uid d))"
    "g = (\<lambda>oper. if op_total_targets oper = 0 then oper\<lparr>op_total_targets := n\<rparr> else oper)" for n g
    using assms(2) unfolding begin_run_def Let_def fold that
    by (auto split: option.splits if_splits sum.splits)
  show "sync_states d1 = map (\<lambda>s. if ss_user_id s = uid \<and> in_scope desired target available s
      then s\<lparr>ss_operation_id := Some i\<rparr> else s) (sync_states d)"
    using res [OF refl refl] by (auto simp: start_operation_def resume_operation_def d0_def split: if_splits)
  show "get_user j d1 = get_user j d" if "j \<noteq> uid" for j
    using res [OF refl refl] that
    by (auto simp: start_operation_def resume_operation_def users user_table.get_upd split: if_splits)
  show "\<exists>a. get_user uid d1 = Some (u\<lparr>u_active_operation_id := a\<rparr>)" if "get_user uid d = Some u" for u
  proof -
    have "\<exists>a. u = u\<lparr>u_active_operation_id := a\<rparr>"
      by (rule exI [of _ "u_active_operation_id u"]) simp
    then show ?thesis
      using res [OF refl refl] that
      by (auto simp: start_operation_def resume_operation_def users user_table.get_upd split: if_splits)
  qed
qed

lemma begin_run_states_ok:
  assumes "states_ok d" "begin_run e uid desired target available i d = Inr d1"
  shows "states_ok d1"
  using assms(1) unfolding states_ok_def begin_run_Inr(1) [OF assms]
  by (simp add: comp_def if_distrib [of ss_id] cong: if_cong)

lemma announce_frame [simp]:
  "users (announce e i d) = users d" "sync_states (announce e i d) = sync_states d"
  "operations (announce e i d) = operations d"
  by (auto simp: announce_def split: option.splits)

lemma announce_lookups [simp]:
  "get_user j (announce e i d) = get_user j d"
  "user_states j (announce e i d) = user_states j d"
  by (simp_all add: get_user_def user_states_def)

lemma finish_with_frame [simp]:
  "sync_states (finish_with e uid i st m n det d) = sync_states d"
  "j \<noteq> uid \<Longrightarrow> get_user j (finish_with e uid i st m n det d) = get_user j d"
  by (simp_all add: finish_with_def user_table.get_upd)

lemma settle_frame [simp]:
  "sync_states (settle e uid desired av i d) = sync_states d"
  "j \<noteq> uid \<Longrightarrow> get_user j (settle e uid desired av i d) = get_user j d"
  by (auto simp: settle_def Let_def user_table.get_upd)

lemma settle_user_states [simp]: "user_states j (settle e uid desired av i d) = user_states j d"
  by (simp add: user_states_def)

text \<open>Only a deletion without a failure, all of whose states are terminal, sets the instant of
  the deletion.\<close>

lemma settle_deleted_at:
  assumes "get_user uid d = Some u"
  shows "\<exists>v. get_user uid (settle e uid desired av i d) = Some v \<and>
    (u_deleted_at v = u_deleted_at u \<or>
      (desired = DA_DELETE \<and> (\<forall>s \<in> set (user_states uid d). ss_operation_id s = Some i \<longrightarrow>
         ss_state s \<notin> {FAILED, UNSUPPORTED} \<and> state_terminal DA_DELETE s)))"
proof -
  let ?states = "filter (\<lambda>s. ss_operation_id s = Some i) (user_states uid d)"
  have all: "(\<forall>s \<in> set ?states. ss_state s \<notin> {FAILED, UNSUPPORTED} \<and> state_terminal desired s)"
    if "failures_of ?states = []" "length (terminal_of desired ?states) = length ?states"
    using that unfolding failures_of_def terminal_of_def length_filter_all
    by (simp add: filter_empty_conv)
  show ?thesis
    using assms all
    by (auto simp: settle_def Let_def finish_with_def user_table.get_upd)
qed

section \<open>A run concerns one user\<close>

text \<open>Of the users only the pointer to the active operation of one of them changes.\<close>

definition only_active :: "id \<Rightarrow> db \<Rightarrow> db \<Rightarrow> bool" where
  "only_active uid d d' \<longleftrightarrow> sync_states d' = sync_states d \<and>
     (\<forall>j. j \<noteq> uid \<longrightarrow> get_user j d' = get_user j d) \<and>
     (\<forall>u. get_user uid d = Some u \<longrightarrow> (\<exists>a. get_user uid d' = Some (u\<lparr>u_active_operation_id := a\<rparr>)))"

lemma active_self: "\<exists>a. u = u\<lparr>u_active_operation_id := a\<rparr>"
  by (rule exI [of _ "u_active_operation_id u"]) simp

lemma only_active_refl [simp]: "only_active uid d d"
  by (simp add: only_active_def active_self)

lemma only_active_trans:
  assumes "only_active uid a b" "only_active uid b c" shows "only_active uid a c"
proof -
  have "\<exists>x. get_user uid c = Some (u\<lparr>u_active_operation_id := x\<rparr>)" if u: "get_user uid a = Some u" for u
  proof -
    obtain x where "get_user uid b = Some (u\<lparr>u_active_operation_id := x\<rparr>)"
      using assms(1) u unfolding only_active_def by blast
    then obtain y where "get_user uid c = Some (u\<lparr>u_active_operation_id := x\<rparr>\<lparr>u_active_operation_id := y\<rparr>)"
      using assms(2) unfolding only_active_def by blast
    then show ?thesis by auto
  qed
  then show ?thesis using assms by (simp add: only_active_def)
qed

lemma only_active_upd:
  assumes "\<And>u. \<exists>a. f u = u\<lparr>u_active_operation_id := a\<rparr>"
  shows "only_active uid d (upd_user uid f d)"
proof -
  have "u_id (f u) = u_id u" for u using assms [of u] by auto
  then show ?thesis using assms by (simp add: only_active_def user_table.get_upd)
qed

lemma only_active_steps [simp]:
  "only_active uid d (upd_operation i g d)" "only_active uid d (add_operation oper d)"
  by (simp_all add: only_active_def active_self add_operation_def next_tick_def get_user_def)

lemma only_active_clear [simp]: "only_active uid d (upd_user uid (\<lambda>u. u\<lparr>u_active_operation_id := a\<rparr>) d)"
  by (rule only_active_upd) blast

lemma only_active_finish_with: "only_active uid d (finish_with e uid i st m n det d)"
  unfolding finish_with_def
  by (rule only_active_trans [OF only_active_steps(1) only_active_upd]) (auto simp: active_self)

lemma only_active_get_active: "only_active uid d (snd (get_active_operation uid d))"
  by (simp add: get_active_operation_def split: option.splits)

lemma only_active_create:
  "u_id u = uid \<Longrightarrow> only_active uid d (snd (create_operation e u c a t s d))"
  unfolding create_operation_def Let_def snd_conv
  by (metis only_active_trans only_active_steps(2) only_active_clear)

lemma only_active_request: "only_active uid d (snd (request_operation e uid c a t d))"
proof (cases "get_user uid d")
  case (Some u)
  have id: "u_id u = uid" using Some by (rule user_table.get_key)
  obtain act d1 where act: "get_active_operation uid d = (act, d1)" by (rule prod.exhaust)
  have 1: "only_active uid d d1" using only_active_get_active [of uid d] act by simp
  have 2: "only_active uid d (snd (create_operation e u c a t s d1))" for s
    by (rule only_active_trans [OF 1 only_active_create [OF id]])
  have 3: "only_active uid d (snd (create_operation e u c a t s (finish_with e uid i st m n det d1)))"
    for s i st m n det
    by (rule only_active_trans [OF only_active_trans [OF 1 only_active_finish_with] only_active_create [OF id]])
  have c: "only_active uid d d3" if "create_operation e u c a t s d1 = (i, d3)" for s i d3
    using 2 [of s] that by simp
  have f: "only_active uid d d3"
    if "create_operation e u c a t s (finish_with e uid j st m n det d1) = (i, d3)" for s i j st m n det d3
    using 3 [of s j st m n det] that by simp
  show ?thesis
    using 1 c f by (auto simp: request_operation_def Some act Let_def split: option.splits prod.splits)
qed (simp add: request_operation_def)

lemma only_active_resume:
  "resume_operation e uid oper t d = Inr d' \<Longrightarrow> only_active uid d d'"
  by (auto simp: resume_operation_def split: if_splits
      intro: only_active_trans [OF only_active_steps(1) only_active_clear])

lemma only_active_choose: "only_active uid d (snd (choose_operation e uid desired t a oi d))"
proof -
  obtain r d1 where r: "(case t of None \<Rightarrow> (None, d) | Some t \<Rightarrow> retried_operation e uid t d) = (r, d1)"
    by (rule prod.exhaust)
  have 1: "only_active uid d d1"
    using r by (auto simp: retried_operation_def split: option.splits if_splits sum.splits
        intro: only_active_resume)
  obtain q d2 where q: "request_operation e uid (command_for desired a) a t d1 = (q, d2)"
    by (rule prod.exhaust)
  have 2: "only_active uid d d2"
    using only_active_trans [OF 1 only_active_request, of e "command_for desired a" a t] q by simp
  show ?thesis
    using 1 2 r q by (auto simp: choose_operation_def Let_def split: option.splits sum.splits)
qed

lemma target_step_user_states:
  assumes "target_step uid d d'" "j \<noteq> uid"
  shows "user_states j d' = user_states j d"
proof -
  have "list_all2 (state_step uid) xs ys \<Longrightarrow>
      filter (\<lambda>s. ss_user_id s = j) ys = filter (\<lambda>s. ss_user_id s = j) xs" for xs ys
    by (induction rule: list_all2_induct) (use assms(2) in \<open>auto simp: state_step_def state_shape_def\<close>)
  then show ?thesis using assms(1) by (simp add: target_step_def user_states_def)
qed

lemma add_state_ok:
  assumes "states_ok d"
  shows "states_ok (d\<lparr>sync_states := sync_states d @ [new_state c uid d]\<rparr>)"
  using assms next_id_gt [of _ "sync_states d" ss_id]
  by (fastforce simp: states_ok_def new_state_def)

lemma create_missing_states_frame:
  assumes "states_ok d"
  shows "states_ok (create_missing_states e uid av d)" "users (create_missing_states e uid av d) = users d"
    "j \<noteq> uid \<Longrightarrow> user_states j (create_missing_states e uid av d) = user_states j d"
    "operations (create_missing_states e uid av d) = operations d"
proof -
  let ?step = "\<lambda>t d. case connector_for t av of
      None \<Rightarrow> d | Some c \<Rightarrow> d\<lparr>sync_states := sync_states d @ [new_state c uid d]\<rparr>"
  let ?P = "\<lambda>d'. states_ok d' \<and> users d' = users d \<and> operations d' = operations d \<and>
    (\<forall>j. j \<noteq> uid \<longrightarrow> user_states j d' = user_states j d)"
  have "?P (fold ?step ts d)" for ts
  proof (rule fold_invariant [where Q = "\<lambda>_. True"])
    show "?P d" using assms by simp
    show "?P (?step t d')" if "?P d'" for t d'
      using that add_state_ok [of d']
      by (auto simp: user_states_def new_state_def split: option.splits)
  qed simp
  then show "states_ok (create_missing_states e uid av d)"
    "users (create_missing_states e uid av d) = users d"
    "j \<noteq> uid \<Longrightarrow> user_states j (create_missing_states e uid av d) = user_states j d"
    "operations (create_missing_states e uid av d) = operations d"
    using assms by (auto simp: create_missing_states_def)
qed

text \<open>Another user's row and states are the same after a run, whatever the targets answer and also
  when the run ends in an exception.\<close>

lemma run_operation_other:
  assumes "states_ok d" "j \<noteq> u_id u"
    and "get_user j d0 = get_user j d" "user_states j d0 = user_states j d"
  shows "get_user j (outcome_db (run_operation e u desired t a av ins i d0 d)) = get_user j d \<and>
    user_states j (outcome_db (run_operation e u desired t a av ins i d0 d)) = user_states j d"
proof (cases "begin_run e (u_id u) desired t av i d")
  case (Inl err)
  then show ?thesis using assms by (simp add: run_operation_def)
next
  case (Inr d1)
  note b = begin_run_Inr [OF assms(1) Inr]
  have ok1: "states_ok d1" using begin_run_states_ok [OF assms(1) Inr] .
  have user1: "get_user j d1 = get_user j d" using b(2) assms(2) by simp
  have "user_states j d1 = map (\<lambda>s. s) (user_states j d)"
    using assms(2) unfolding user_states_def b(1) filter_map comp_def
    by (intro map_cong filter_cong) (auto simp: if_distrib [of ss_user_id] cong: if_cong)
  then have states1: "user_states j d1 = user_states j d" by simp
  define y where "y = \<lparr>y_user = u, y_operation = i, y_actor = a, y_desired = desired,
               y_password = (if has_text (u_pending_secret u)
                             then map_option (decrypt_secret e) (u_pending_secret u) else None),
               y_intents = ins\<rparr>"
  define cs where "cs = List.map_filter (\<lambda>s. connector_for (ss_target s) av)
    (filter (has_connector av) (filter (in_scope desired t av) (user_states (u_id u) d)))"
  have step: "target_step (u_id u) d1 (outcome_db (sync_targets e y cs d1))"
    using sync_targets_step [OF ok1, of y e cs] by (simp add: y_def)
  have "get_user j (outcome_db (sync_targets e y cs d1)) = get_user j d"
    using step user1 by (simp add: target_step_def get_user_def)
  moreover have "user_states j (outcome_db (sync_targets e y cs d1)) = user_states j d"
    using target_step_user_states [OF step assms(2)] states1 by simp
  moreover have "run_operation e u desired t a av ins i d0 d =
      (case sync_targets e y cs d1 of Raised err d2 \<Rightarrow> Raised err d2
       | Done _ d2 \<Rightarrow> Done (Some i) (announce e i (settle e (u_id u) desired av i d2)))"
    by (simp only: run_operation_def Inr sum.case Let_def y_def cs_def)
  ultimately show ?thesis
    using assms(2) by (cases "sync_targets e y cs d1") simp_all
qed

lemma sync_user_other_lemma:
  assumes ok: "states_ok d" and j: "j \<noteq> uid"
  shows "get_user j (outcome_db (sync_user e uid act t a oi d)) = get_user j d \<and>
    user_states j (outcome_db (sync_user e uid act t a oi d)) = user_states j d"
proof (cases "get_user uid d")
  case (Some u)
  have id: "u_id u = uid" using Some by (rule user_table.get_key)
  let ?av = "get_connectors e d"
  let ?desired = "case act of None \<Rightarrow> u_desired_action u | Some a \<Rightarrow> a"
  let ?d1 = "create_missing_states e uid ?av d"
  note c = create_missing_states_frame [OF ok]
  obtain ch d2 where ch: "choose_operation e uid ?desired t a oi ?d1 = (ch, d2)" by (rule prod.exhaust)
  have only: "only_active uid ?d1 d2"
    using only_active_choose [of uid ?d1 e ?desired t a oi] ch by simp
  have ok2: "states_ok d2" using only c(1) by (simp add: only_active_def states_ok_def)
  have u2: "get_user j d2 = get_user j d"
    using only j c(2) by (simp add: only_active_def get_user_def)
  have s2: "user_states j d2 = user_states j d"
    using only c(3) [OF j] by (simp add: only_active_def user_states_def)
  show ?thesis
    using run_operation_other [OF ok2, of j u d e ?desired t a ?av
        "resolve_assignment_intents uid ?av d"] u2 s2 j id
    by (cases ch) (simp_all add: sync_user_def Some Let_def ch)
qed (simp add: sync_user_def)

section \<open>When a deletion is complete\<close>

definition removed :: "SyncState \<Rightarrow> bool" where
  "removed s \<longleftrightarrow> ss_retired s \<or> ss_state s \<in> {RETIRED, NOT_ASSIGNED} \<or> (ss_assigned s \<and> ss_state s = OK)"

lemma state_terminal_removed: "state_terminal DA_DELETE s = removed s"
  by (simp add: state_terminal_delete removed_def)

lemma target_step_user:
  assumes "target_step uid d d'" "get_user j d = Some u" shows "get_user j d' = Some u"
  using assms by (simp add: target_step_def get_user_def)

text \<open>Every state of the user keeps its shape, so one that joined the operation stays in it.\<close>

lemma target_step_shapes:
  assumes "target_step uid d d'"
  shows "map state_shape (user_states j d') = map state_shape (user_states j d)"
proof -
  have "list_all2 (state_step uid) xs ys \<Longrightarrow>
      map state_shape (filter (\<lambda>s. ss_user_id s = j) ys) =
      map state_shape (filter (\<lambda>s. ss_user_id s = j) xs)" for xs ys
    by (induction rule: list_all2_induct) (auto simp: state_step_def state_shape_def)
  then show ?thesis using assms by (simp add: target_step_def user_states_def)
qed

lemma run_operation_shapes:
  assumes ok: "states_ok d" and run: "run_operation e u desired t a av ins i d0 d = Done r d'"
  obtains d1 d2 where "begin_run e (u_id u) desired t av i d = Inr d1" "target_step (u_id u) d1 d2"
    "d' = announce e i (settle e (u_id u) desired av i d2)" "r = Some i"
proof (cases "begin_run e (u_id u) desired t av i d")
  case (Inl err)
  then show ?thesis using run by (simp add: run_operation_def)
next
  case (Inr d1)
  define y where "y = \<lparr>y_user = u, y_operation = i, y_actor = a, y_desired = desired,
               y_password = (if has_text (u_pending_secret u)
                             then map_option (decrypt_secret e) (u_pending_secret u) else None),
               y_intents = ins\<rparr>"
  define cs where "cs = List.map_filter (\<lambda>s. connector_for (ss_target s) av)
    (filter (has_connector av) (filter (in_scope desired t av) (user_states (u_id u) d)))"
  have eq: "run_operation e u desired t a av ins i d0 d =
      (case sync_targets e y cs d1 of Raised err d2 \<Rightarrow> Raised err d2
       | Done _ d2 \<Rightarrow> Done (Some i) (announce e i (settle e (u_id u) desired av i d2)))"
    by (simp only: run_operation_def Inr sum.case Let_def y_def cs_def)
  obtain d2 where d2: "sync_targets e y cs d1 = Done () d2"
    "d' = announce e i (settle e (u_id u) desired av i d2)" "r = Some i"
    using run eq by (cases "sync_targets e y cs d1") auto
  have "target_step (u_id u) d1 d2"
    using sync_targets_step [OF begin_run_states_ok [OF ok Inr], of y e cs] d2(1) by (simp add: y_def)
  then show ?thesis using that [OF Inr _ d2(2,3)] by simp
qed

lemma run_operation_deleted:
  assumes ok: "states_ok d" and u: "get_user (u_id u) d = Some w"
    and run: "run_operation e u desired t a av ins i d0 d = Done r d'"
  shows "\<exists>v. get_user (u_id u) d' = Some v \<and> (u_deleted_at v = u_deleted_at w \<or>
    (desired = DA_DELETE \<and> (\<forall>s \<in> set (user_states (u_id u) d').
       (t = None \<or> ss_operation_id s = Some i) \<longrightarrow> removed s)))"
proof -
  obtain d1 d2 where b: "begin_run e (u_id u) desired t av i d = Inr d1"
    and step: "target_step (u_id u) d1 d2"
    and d': "d' = announce e i (settle e (u_id u) desired av i d2)"
    using run_operation_shapes [OF ok run] by metis
  obtain act where u1: "get_user (u_id u) d1 = Some (w\<lparr>u_active_operation_id := act\<rparr>)"
    using begin_run_Inr(3) [OF ok b u] by blast
  have u2: "get_user (u_id u) d2 = Some (w\<lparr>u_active_operation_id := act\<rparr>)"
    using target_step_user [OF step u1] .
  have joined: "ss_operation_id s = Some i"
    if "s \<in> set (user_states (u_id u) d2)" "t = None" "desired = DA_DELETE" for s
  proof -
    have "state_shape s \<in> set (map state_shape (user_states (u_id u) d1))"
      using that(1) target_step_shapes [OF step, of "u_id u"] by (metis image_eqI set_map)
    then obtain r where "r \<in> set (user_states (u_id u) d1)" "state_shape s = state_shape r" by auto
    moreover have "ss_operation_id r = Some i" if "r \<in> set (user_states (u_id u) d1)" for r
      using that \<open>t = None\<close> \<open>desired = DA_DELETE\<close>
      by (auto simp: user_states_def begin_run_Inr(1) [OF ok b] in_scope_def split: if_splits)
    ultimately show ?thesis by (simp add: state_shape_def)
  qed
  obtain v where v: "get_user (u_id u) (settle e (u_id u) desired av i d2) = Some v"
    "u_deleted_at v = u_deleted_at w \<or> (desired = DA_DELETE \<and>
       (\<forall>s \<in> set (user_states (u_id u) d2). ss_operation_id s = Some i \<longrightarrow> removed s))"
    using settle_deleted_at [OF u2, of e desired av i] by (auto simp: state_terminal_removed)
  then show ?thesis using joined by (auto simp: d')
qed

lemma sync_user_cases:
  assumes ok: "states_ok d" and u: "get_user uid d = Some u" "\<not> is_root u"
    and run: "sync_user e uid act t a oi d = Done (Some r) d'"
  obtains d2 i where "states_ok d2" "only_active uid (create_missing_states e uid (get_connectors e d) d) d2"
    "run_operation e u (case act of None \<Rightarrow> u_desired_action u | Some a \<Rightarrow> a) t a (get_connectors e d)
       (resolve_assignment_intents uid (get_connectors e d) d) i d d2 = Done (Some r) d'"
proof -
  let ?desired = "case act of None \<Rightarrow> u_desired_action u | Some a \<Rightarrow> a"
  let ?d1 = "create_missing_states e uid (get_connectors e d) d"
  obtain ch d2 where ch: "choose_operation e uid ?desired t a oi ?d1 = (ch, d2)" by (rule prod.exhaust)
  have only: "only_active uid ?d1 d2"
    using only_active_choose [of uid ?d1 e ?desired t a oi] ch by simp
  have "states_ok ?d1" by (rule create_missing_states_frame(1) [OF ok])
  then have "states_ok d2" using only by (simp add: only_active_def states_ok_def)
  then show ?thesis
    using that only run by (cases ch) (simp_all add: sync_user_def u Let_def ch)
qed

lemma sync_user_deleted_lemma:
  assumes ok: "states_ok d" and u: "get_user uid d = Some u" "\<not> is_root u"
    and run: "sync_user e uid act t a oi d = Done (Some r) d'"
  shows "\<exists>v. get_user uid d' = Some v \<and> (u_deleted_at v = u_deleted_at u \<or>
    ((case act of None \<Rightarrow> u_desired_action u | Some a \<Rightarrow> a) = DA_DELETE \<and>
     (\<forall>s \<in> set (user_states uid d'). (t = None \<or> ss_operation_id s = Some r) \<longrightarrow> removed s)))"
proof -
  have id: "u_id u = uid" using u(1) by (rule user_table.get_key)
  obtain d2 i where d2: "states_ok d2"
    "only_active uid (create_missing_states e uid (get_connectors e d) d) d2"
    "run_operation e u (case act of None \<Rightarrow> u_desired_action u | Some a \<Rightarrow> a) t a (get_connectors e d)
       (resolve_assignment_intents uid (get_connectors e d) d) i d d2 = Done (Some r) d'"
    using sync_user_cases [OF ok u run] by metis
  have "get_user uid (create_missing_states e uid (get_connectors e d) d) = Some u"
    using u(1) create_missing_states_frame(2) [OF ok] by (simp add: get_user_def)
  then obtain b where "get_user (u_id u) d2 = Some (u\<lparr>u_active_operation_id := b\<rparr>)"
    using d2(2) id by (auto simp: only_active_def)
  moreover have "r = i" using run_operation_shapes [OF d2(1,3)] by blast
  ultimately show ?thesis using run_operation_deleted [OF d2(1) _ d2(3)] id by auto
qed

text \<open>A state that is not assigned and not retired can never be seen as removed: the success of its
  removal is recorded as \<open>OK\<close>, which an unassigned state normalises to
  \<open>UNASSIGNED\<close>.  So the deletion of its user does not complete.\<close>

definition detached :: "SyncState \<Rightarrow> bool" where
  "detached s \<longleftrightarrow> \<not> ss_assigned s \<and> \<not> ss_retired s \<and> live s"

lemma detached_not_removed: "detached s \<Longrightarrow> \<not> removed s"
  by (auto simp: detached_def removed_def live_def)

lemma target_step_detached:
  assumes "target_step uid d d'" "s \<in> set (user_states j d)" "detached s"
  shows "\<exists>s' \<in> set (user_states j d'). detached s'"
proof -
  have "list_all2 (state_step uid) xs ys \<Longrightarrow> s \<in> set (filter (\<lambda>s. ss_user_id s = j) xs) \<Longrightarrow>
      \<exists>s' \<in> set (filter (\<lambda>s. ss_user_id s = j) ys). detached s'" for xs ys
    by (induction rule: list_all2_induct)
      (use assms(3) in \<open>auto simp: state_step_def state_shape_def detached_def\<close>)
  from this [of "sync_states d" "sync_states d'"] show ?thesis
    using assms(1,2) unfolding target_step_def user_states_def by blast
qed

lemma sync_user_detached_lemma:
  assumes ok: "states_ok d" and u: "get_user uid d = Some u" "\<not> is_root u"
    and s: "s \<in> set (user_states uid d)" "detached s"
    and run: "sync_user e uid act None a oi d = Done (Some r) d'"
  shows "\<exists>v. get_user uid d' = Some v \<and> u_deleted_at v = u_deleted_at u"
proof -
  have id: "u_id u = uid" using u(1) by (rule user_table.get_key)
  obtain d2 i where d2: "states_ok d2"
    "only_active uid (create_missing_states e uid (get_connectors e d) d) d2"
    "run_operation e u (case act of None \<Rightarrow> u_desired_action u | Some a \<Rightarrow> a) None a (get_connectors e d)
       (resolve_assignment_intents uid (get_connectors e d) d) i d d2 = Done (Some r) d'"
    using sync_user_cases [OF ok u run] by metis
  have "create_missing_states e uid (get_connectors e d) d = d"
    using s(1) by (auto simp: create_missing_states_def)
  then have s2: "s \<in> set (user_states (u_id u) d2)"
    using d2(2) s(1) id by (simp add: only_active_def user_states_def)
  obtain d3 d4 where b: "begin_run e (u_id u) (case act of None \<Rightarrow> u_desired_action u | Some a \<Rightarrow> a)
        None (get_connectors e d) i d2 = Inr d3"
    and step: "target_step (u_id u) d3 d4"
    and d': "d' = announce e i (settle e (u_id u)
        (case act of None \<Rightarrow> u_desired_action u | Some a \<Rightarrow> a) (get_connectors e d) i d4)"
    using run_operation_shapes [OF d2(1,3)] by metis
  define J where "J = (\<lambda>s. if ss_user_id s = u_id u \<and> in_scope (case act of None \<Rightarrow> u_desired_action u | Some a \<Rightarrow> a)
      None (get_connectors e d) s then s\<lparr>ss_operation_id := Some i\<rparr> else s)"
  have "sync_states d3 = map J (sync_states d2)"
    unfolding J_def by (rule begin_run_Inr(1) [OF d2(1) b])
  then have "J s \<in> set (user_states (u_id u) d3)"
    using s2 by (simp add: user_states_def J_def)
  moreover have "detached (J s)" using s(2) by (simp add: J_def detached_def live_def)
  ultimately have "\<exists>s3 \<in> set (user_states (u_id u) d3). detached s3" by blast
  then obtain s4 where "s4 \<in> set (user_states (u_id u) d4)" "detached s4"
    using target_step_detached [OF step] by blast
  then have "s4 \<in> set (user_states uid d')" "\<not> removed s4"
    using id detached_not_removed by (simp_all add: d')
  then show ?thesis using sync_user_deleted_lemma [OF ok u run] by auto
qed

section \<open>No target of the scope stays pending\<close>

definition settled :: "SyncCall \<Rightarrow> SyncState \<Rightarrow> bool" where
  "settled y s \<longleftrightarrow>
     ss_state s \<in> {OK, FAILED, UNSUPPORTED, UNASSIGNED, CHPW, EXPIRED_DISABLED} \<or>
     (ss_state s = AWAITING_CREDENTIALS \<and> y_password y = None \<and> y_desired y \<noteq> DA_DELETE)"

definition targets_unique :: "id \<Rightarrow> db \<Rightarrow> bool" where
  "targets_unique uid d \<longleftrightarrow> distinct (map ss_target (user_states uid d))"

definition outside_same :: "id \<Rightarrow> string set \<Rightarrow> db \<Rightarrow> db \<Rightarrow> bool" where
  "outside_same uid T d d' \<longleftrightarrow> list_all2 (\<lambda>s s'. state_shape s' = state_shape s \<and>
     (ss_user_id s \<noteq> uid \<or> ss_target s \<notin> T \<longrightarrow> s' = s)) (sync_states d) (sync_states d')"

lemma list_all2_in_right:
  "list_all2 P xs ys \<Longrightarrow> y \<in> set ys \<Longrightarrow> \<exists>x \<in> set xs. P x y"
  by (induction rule: list_all2_induct) auto

lemma outside_same_eq: "sync_states d' = sync_states d \<Longrightarrow> outside_same uid T d d'"
  by (simp add: outside_same_def list_all2_refl)

lemma outside_same_trans:
  assumes "outside_same uid A a b" "outside_same uid B b c" shows "outside_same uid (A \<union> B) a c"
  unfolding outside_same_def
  by (rule list_all2_trans [OF _ assms [unfolded outside_same_def]])
    (auto simp: state_shape_def)

lemma outside_same_upd:
  assumes ok: "states_ok d" and s: "s \<in> set (user_states uid d)"
    and f: "\<And>r. state_shape (f r) = state_shape r"
  shows "outside_same uid {ss_target s} d (upd_state (ss_id s) f d)"
proof -
  have "state_shape (if ss_id r = ss_id s then f r else r) = state_shape r \<and>
      (ss_user_id r \<noteq> uid \<or> ss_target r \<notin> {ss_target s} \<longrightarrow> (if ss_id r = ss_id s then f r else r) = r)"
    if r: "r \<in> set (sync_states d)" for r
  proof (cases "ss_id r = ss_id s")
    case True
    then have "r = s"
      using ok r s unfolding states_ok_def user_states_def by (auto simp: distinct_map dest: inj_onD)
    then show ?thesis using s f by (simp add: user_states_def)
  qed simp
  then show ?thesis
    by (auto simp: outside_same_def upd_state_def rows_upd_def list_all2_conv_all_nth)
qed

lemma outside_same_shapes:
  assumes "outside_same uid T d d'"
  shows "map state_shape (user_states j d') = map state_shape (user_states j d)"
    "states_ok d' = states_ok d" "targets_unique uid d' = targets_unique uid d"
proof -
  have shapes: "map state_shape (sync_states d') = map state_shape (sync_states d)"
    using assms unfolding outside_same_def
    by (auto simp: list_all2_conv_all_nth intro!: nth_equalityI)
  have "map ss_id xs = map fst (map state_shape xs)" for xs by (simp add: state_shape_def comp_def)
  then have "map ss_id (sync_states d') = map ss_id (sync_states d)" using shapes by metis
  then show "states_ok d' = states_ok d" by (simp only: states_ok_def)
  have users: "map state_shape (user_states j d') = map state_shape (user_states j d)" for j
  proof -
    have "map state_shape (filter (\<lambda>s. ss_user_id s = j) xs) =
        filter (\<lambda>q. fst (snd q) = j) (map state_shape xs)" for xs
      by (simp add: filter_map comp_def state_shape_def)
    then show ?thesis using shapes by (simp add: user_states_def)
  qed
  show "map state_shape (user_states j d') = map state_shape (user_states j d)" by (rule users)
  have "map ss_target xs = map (fst \<circ> snd \<circ> snd) (map state_shape xs)" for xs
    by (simp add: state_shape_def)
  then have "map ss_target (user_states uid d') = map ss_target (user_states uid d)"
    using users [of uid] by metis
  then show "targets_unique uid d' = targets_unique uid d" by (simp only: targets_unique_def)
qed

definition settled_in :: "SyncCall \<Rightarrow> string set \<Rightarrow> db \<Rightarrow> bool" where
  "settled_in y T d \<longleftrightarrow>
     (\<forall>s \<in> set (user_states (u_id (y_user y)) d). ss_target s \<in> T \<longrightarrow> settled y s)"

lemma settled_in_keep:
  assumes "settled_in y A d" "outside_same (u_id (y_user y)) B d d'" "settled_in y B d'"
  shows "settled_in y (A \<union> B) d'"
  unfolding settled_in_def
proof (intro ballI impI)
  fix s' assume s': "s' \<in> set (user_states (u_id (y_user y)) d')" "ss_target s' \<in> A \<union> B"
  then obtain s where s: "s \<in> set (sync_states d)" "state_shape s' = state_shape s"
    "ss_user_id s \<noteq> u_id (y_user y) \<or> ss_target s \<notin> B \<longrightarrow> s' = s"
    using list_all2_in_right [OF assms(2) [unfolded outside_same_def]]
    by (auto simp: user_states_def)
  show "settled y s'"
  proof (cases "ss_target s' \<in> B")
    case True
    then show ?thesis using assms(3) s'(1) by (simp add: settled_in_def)
  next
    case False
    then have "s' = s" using s by (auto simp: state_shape_def)
    then show ?thesis using assms(1) s s' False by (auto simp: settled_in_def user_states_def)
  qed
qed

lemma settled_in_upd:
  assumes uniq: "targets_unique (u_id (y_user y)) d" and s: "s \<in> set (user_states (u_id (y_user y)) d)"
    and f: "\<And>r. state_shape (f r) = state_shape r" "settled y (f s)"
    and ok: "states_ok d"
  shows "settled_in y {ss_target s} (upd_state (ss_id s) f d)"
  unfolding settled_in_def
proof (intro ballI impI)
  fix r assume r: "r \<in> set (user_states (u_id (y_user y)) (upd_state (ss_id s) f d))"
    "ss_target r \<in> {ss_target s}"
  then obtain q where q: "q \<in> set (sync_states d)" "r = (if ss_id q = ss_id s then f q else q)"
    by (auto simp: user_states_def upd_state_def rows_upd_def)
  have "state_shape r = state_shape q" using q(2) f(1) by simp
  then have "q \<in> set (user_states (u_id (y_user y)) d)" "ss_target q = ss_target s"
    using r q(1) by (auto simp: user_states_def state_shape_def)
  then have "q = s" using uniq s unfolding targets_unique_def by (auto simp: distinct_map dest: inj_onD)
  then show "settled y r" using q(2) f(2) by simp
qed

lemma settled_in_cong: "sync_states d' = sync_states d \<Longrightarrow> settled_in y T d' = settled_in y T d"
  by (simp add: settled_in_def user_states_def)

lemma settled_after:
  "settled y (after_success y r s)"
  "after_failure e r s = Some (s', p) \<Longrightarrow> settled y s'"
  by (auto simp: after_success_def after_failure_def Let_def settled_def split: if_splits option.splits)

lemma settled_put [simp]: "settled y (put_result s r) = settled y s"
  by (simp add: settled_def put_result_def)

lemma run_target_settles:
  assumes ok: "states_ok d" and uniq: "targets_unique (u_id (y_user y)) d"
    and s: "s \<in> set (user_states (u_id (y_user y)) d)"
    and run: "run_target e y c oper s d = Done x d'"
  shows "outside_same (u_id (y_user y)) {ss_target s} d d' \<and> settled_in y {ss_target s} d'"
proof -
  let ?uid = "u_id (y_user y)"
  let ?d0 = "snd (start_target_attempt e (y_operation y) (c_target_id c)
        (Some (target_type_value (c_target_type c))) d)"
  let ?d1 = "next_tick (upd_state (ss_id s) put_pending ?d0)"
  let ?r = "call_connector y oper c (tick d)"
  have same0: "outside_same ?uid {ss_target s} d ?d0" by (rule outside_same_eq) simp
  have s0: "s \<in> set (user_states ?uid ?d0)" using s by (simp add: user_states_def)
  have "outside_same ?uid {ss_target s} ?d0 (upd_state (ss_id s) put_pending ?d0)"
    by (rule outside_same_upd) (use ok outside_same_shapes(2) [OF same0] s0 in auto)
  from outside_same_trans [OF same0 this] have
    "outside_same ?uid {ss_target s} d (upd_state (ss_id s) put_pending ?d0)" by simp
  from outside_same_trans [OF this outside_same_eq [of ?d1]]
  have same1: "outside_same ?uid {ss_target s} d ?d1" by (simp add: next_tick_def)
  have ok1: "states_ok ?d1" and uniq1: "targets_unique ?uid ?d1"
    using ok uniq outside_same_shapes(2,3) [OF same1] by auto
  have p1: "put_pending s \<in> set (user_states ?uid ?d1)"
    using s by (force simp: next_tick_def upd_state_def set_rows_upd user_states_def put_pending_def)
  have result: "outside_same ?uid {ss_target s} d (record_target_result e y c a ?r s' p ?d1) \<and>
      settled_in y {ss_target s} (record_target_result e y c a ?r s' p ?d1)"
    if s': "state_shape s' = state_shape (put_pending s)" "settled y s'" for a s' p
  proof -
    have id: "ss_id s' = ss_id (put_pending s)" and tg: "ss_target s = ss_target (put_pending s)"
      using s'(1) by (simp_all add: state_shape_def put_pending_def)
    have st: "sync_states (record_target_result e y c a ?r s' p ?d1) =
        sync_states (upd_state (ss_id (put_pending s)) (put_result s') ?d1)"
      by (simp add: record_target_result_frame id)
    have "outside_same ?uid {ss_target s} ?d1 (upd_state (ss_id (put_pending s)) (put_result s') ?d1)"
      unfolding tg by (rule outside_same_upd [OF ok1 p1]) simp
    from outside_same_trans [OF outside_same_trans [OF same1 this] outside_same_eq [OF st]]
    have "outside_same ?uid {ss_target s} d (record_target_result e y c a ?r s' p ?d1)" by simp
    moreover have "settled_in y {ss_target s} (upd_state (ss_id (put_pending s)) (put_result s') ?d1)"
      unfolding tg by (rule settled_in_upd [OF uniq1 p1]) (simp_all add: s'(2) ok1)
    ultimately show ?thesis using settled_in_cong [OF st] by simp
  qed
  show ?thesis
    by (cases rule: run_target_cases [of y oper c d e s])
      (use run result after_shape settled_after in auto)
qed

lemma sync_target_settles:
  assumes ok: "states_ok d" and uniq: "targets_unique (u_id (y_user y)) d"
    and run: "sync_target e y c d = Done x d'"
  shows "outside_same (u_id (y_user y)) {c_target_id c} d d' \<and> settled_in y {c_target_id c} d'"
proof (cases "state_of (u_id (y_user y)) (c_target_id c) d")
  case None
  then show ?thesis using run by (simp add: sync_target_def)
next
  case (Some s)
  note mem = state_of_mem [OF Some]
  let ?uid = "u_id (y_user y)"
  have s: "s \<in> set (user_states ?uid d)" using mem by (simp add: user_states_def)
  let ?oper = "lifecycle_operation_for (y_user y) (y_desired y = DA_DELETE)
    (\<not> ss_assigned s \<or> ss_state s = PENDING_CHPW_DISABLE)"
  let ?f = "\<lambda>s. s\<lparr>ss_state := UNSUPPORTED, ss_detail := unsupported_operation_detail c ?oper,
    ss_next_retry_at := None\<rparr>"
  consider (unsupported) "\<not> supports_operation c ?oper"
    | (waiting) "supports_operation c ?oper" "y_desired y \<noteq> DA_DELETE"
        "ss_state s = AWAITING_CREDENTIALS" "y_password y = None" "d' = d"
    | (calls) "run_target e y c ?oper s d = Done x d'"
  proof (cases "supports_operation c ?oper")
    case True
    then have eq: "(if y_desired y \<noteq> DA_DELETE \<and> ss_state s = AWAITING_CREDENTIALS \<and> y_password y = None
        then Done () d else run_target e y c ?oper s d) = Done x d'"
      using run by (simp only: sync_target_def Some option.case Let_def not_True_eq_False if_False)
    show ?thesis
    proof (cases "y_desired y \<noteq> DA_DELETE \<and> ss_state s = AWAITING_CREDENTIALS \<and> y_password y = None")
      case wait: True
      then have "Done () d = Done x d'" using eq by (simp only: if_True simp_thms)
      then have same: "d' = d" by simp
      show ?thesis using waiting [OF True _ _ _ same] wait by (elim conjE)
    next
      case False
      then have "run_target e y c ?oper s d = Done x d'" using eq by (simp only: if_False)
      then show ?thesis by (rule calls)
    qed
  qed (rule unsupported)
  then show ?thesis
  proof cases
    case unsupported
    then have d': "sync_states d' = sync_states (upd_state (ss_id s) ?f d)"
      using run Some by (auto simp: sync_target_def Let_def)
    have "outside_same ?uid {ss_target s} d (upd_state (ss_id s) ?f d)"
      by (rule outside_same_upd [OF ok s]) (simp add: state_shape_def)
    moreover have "settled_in y {ss_target s} (upd_state (ss_id s) ?f d)"
      by (rule settled_in_upd [OF uniq s]) (simp_all add: state_shape_def settled_def ok)
    ultimately show ?thesis
      unfolding settled_in_cong [OF d'] outside_same_def d' mem(3) by (intro conjI)
  next
    case waiting
    have "r = s" if "r \<in> set (user_states ?uid d)" "ss_target r = c_target_id c" for r
      using that uniq s mem(3) unfolding targets_unique_def by (metis distinct_map inj_onD)
    then show ?thesis
      using waiting outside_same_eq [of d d] by (auto simp: settled_in_def settled_def)
  next
    case calls
    then show ?thesis using run_target_settles [OF ok uniq s] mem(3) by simp
  qed
qed

lemma sync_targets_settle:
  assumes "states_ok d" "targets_unique (u_id (y_user y)) d" "sync_targets e y cs d = Done x d'"
  shows "outside_same (u_id (y_user y)) (c_target_id ` set cs) d d' \<and>
    settled_in y (c_target_id ` set cs) d'"
  using assms
proof (induction cs arbitrary: d)
  case Nil
  then show ?case by (simp add: settled_in_def outside_same_eq)
next
  case (Cons c cs)
  then obtain z d1 where one: "sync_target e y c d = Done z d1"
    and rest: "sync_targets e y cs d1 = Done x d'"
    by (cases "sync_target e y c d") auto
  have 1: "outside_same (u_id (y_user y)) {c_target_id c} d d1" "settled_in y {c_target_id c} d1"
    using sync_target_settles [OF Cons.prems(1,2) one] by simp_all
  have 2: "outside_same (u_id (y_user y)) (c_target_id ` set cs) d1 d'"
    "settled_in y (c_target_id ` set cs) d'"
    using Cons.IH [OF _ _ rest] Cons.prems outside_same_shapes(2,3) [OF 1(1)] by simp_all
  show ?case
    using outside_same_trans [OF 1(1) 2(1)] settled_in_keep [OF 1(2) 2] by simp
qed

lemma connector_for_id: "connector_for t cs = Some c \<Longrightarrow> c_target_id c = t"
  by (auto simp: connector_for_def find_Some_iff)

definition quiet :: "SyncState \<Rightarrow> bool" where
  "quiet s \<longleftrightarrow> ss_state s \<notin>
     {PENDING, PENDING_DISABLE, PENDING_CHPW_DISABLE, PENDING_EXPIRY_DISABLE}"

lemma settled_quiet: "settled y s \<Longrightarrow> quiet s"
  by (auto simp: settled_def quiet_def)

lemma run_operation_settles:
  assumes ok: "states_ok d" and uniq: "targets_unique (u_id u) d"
    and run: "run_operation e u desired t a av ins i d0 d = Done r d'"
    and s: "s \<in> set (user_states (u_id u) d)" "in_scope desired t av s" "has_connector av s"
  shows "\<exists>s' \<in> set (user_states (u_id u) d'). ss_id s' = ss_id s \<and>
    ss_operation_id s' = Some i \<and> quiet s'"
proof -
  obtain d1 where b: "begin_run e (u_id u) desired t av i d = Inr d1"
    using run by (cases "begin_run e (u_id u) desired t av i d") (simp_all add: run_operation_def)
  define y where "y = \<lparr>y_user = u, y_operation = i, y_actor = a, y_desired = desired,
               y_password = (if has_text (u_pending_secret u)
                             then map_option (decrypt_secret e) (u_pending_secret u) else None),
               y_intents = ins\<rparr>"
  define cs where "cs = List.map_filter (\<lambda>s. connector_for (ss_target s) av)
    (filter (has_connector av) (filter (in_scope desired t av) (user_states (u_id u) d)))"
  have eq: "run_operation e u desired t a av ins i d0 d =
      (case sync_targets e y cs d1 of Raised err d2 \<Rightarrow> Raised err d2
       | Done _ d2 \<Rightarrow> Done (Some i) (announce e i (settle e (u_id u) desired av i d2)))"
    by (simp only: run_operation_def b sum.case Let_def y_def cs_def)
  obtain d2 where d2: "sync_targets e y cs d1 = Done () d2"
    "d' = announce e i (settle e (u_id u) desired av i d2)"
    using run eq by (cases "sync_targets e y cs d1") auto
  have uy: "u_id (y_user y) = u_id u" by (simp add: y_def)
  have ok1: "states_ok d1" by (rule begin_run_states_ok [OF ok b])
  define J where "J = (\<lambda>s. if ss_user_id s = u_id u \<and> in_scope desired t av s
    then s\<lparr>ss_operation_id := Some i\<rparr> else s)"
  have d1: "sync_states d1 = map J (sync_states d)"
    unfolding J_def by (rule begin_run_Inr(1) [OF ok b])
  have "user_states (u_id u) d1 = map J (user_states (u_id u) d)"
    unfolding user_states_def d1 filter_map comp_def
    by (intro arg_cong [where f = "map J"] filter_cong) (auto simp: J_def)
  then have us1: "user_states (u_id u) d1 = map J (user_states (u_id u) d)" .
  then have uniq1: "targets_unique (u_id u) d1"
    using uniq unfolding targets_unique_def us1 map_map comp_def
    by (simp add: J_def if_distrib [of ss_target] cong: if_cong)
  have fin: "outside_same (u_id u) (c_target_id ` set cs) d1 d2" "settled_in y (c_target_id ` set cs) d2"
    using sync_targets_settle [OF ok1 _ d2(1)] uniq1 uy by simp_all
  have J: "J s \<in> set (user_states (u_id u) d1)" "ss_operation_id (J s) = Some i"
    "ss_id (J s) = ss_id s" "ss_target (J s) = ss_target s"
    using s us1 by (auto simp: J_def user_states_def)
  have "state_shape (J s) \<in> set (map state_shape (user_states (u_id u) d2))"
    using J(1) outside_same_shapes(1) [OF fin(1), of "u_id u"] by (metis image_eqI set_map)
  then obtain s' where s': "s' \<in> set (user_states (u_id u) d2)" "state_shape s' = state_shape (J s)"
    by auto
  obtain c where c: "connector_for (ss_target s) av = Some c"
    using s(3) by (auto simp: has_connector_def)
  have "c \<in> set cs"
    using c s by (auto simp: cs_def map_filter_def intro!: image_eqI [of _ _ s])
  then have "c_target_id c \<in> c_target_id ` set cs" by (rule imageI)
  moreover have "ss_target s' = c_target_id c"
    using s'(2) J(4) connector_for_id [OF c] by (simp add: state_shape_def)
  ultimately have "ss_target s' \<in> c_target_id ` set cs" by simp
  then have "settled y s'" using fin(2) s'(1) uy by (simp add: settled_in_def)
  then have "quiet s'" by (rule settled_quiet)
  moreover have "s' \<in> set (user_states (u_id u) d')" using s'(1) by (simp add: d2(2))
  ultimately show ?thesis using s'(2) J(2,3) by (auto simp: state_shape_def)
qed

lemma sync_user_settles_lemma:
  assumes ok: "states_ok d" "targets_unique uid d" and u: "get_user uid d = Some u" "\<not> is_root u"
    and run: "sync_user e uid act t a oi d = Done (Some r) d'"
    and s: "s \<in> set (user_states uid d)"
      "in_scope (case act of None \<Rightarrow> u_desired_action u | Some a \<Rightarrow> a) t (get_connectors e d) s"
      "has_connector (get_connectors e d) s"
  shows "\<exists>s' \<in> set (user_states uid d'). ss_id s' = ss_id s \<and> ss_operation_id s' = Some r \<and> quiet s'"
proof -
  have id: "u_id u = uid" using u(1) by (rule user_table.get_key)
  obtain d2 i where d2: "states_ok d2"
    "only_active uid (create_missing_states e uid (get_connectors e d) d) d2"
    "run_operation e u (case act of None \<Rightarrow> u_desired_action u | Some a \<Rightarrow> a) t a (get_connectors e d)
       (resolve_assignment_intents uid (get_connectors e d) d) i d d2 = Done (Some r) d'"
    using sync_user_cases [OF ok(1) u run] by metis
  have "create_missing_states e uid (get_connectors e d) d = d"
    using s(1) by (auto simp: create_missing_states_def)
  then have same: "user_states uid d2 = user_states uid d"
    using d2(2) by (simp add: only_active_def user_states_def)
  have "r = i" using run_operation_shapes [OF d2(1,3)] by blast
  moreover have "targets_unique (u_id u) d2" using ok(2) same id by (simp add: targets_unique_def)
  ultimately show ?thesis
    using run_operation_settles [OF d2(1) _ d2(3)] s same id by simp
qed

section \<open>Failures and retries\<close>

lemma get_state_mem:
  "states_ok d \<Longrightarrow> s \<in> set (sync_states d) \<Longrightarrow> get_state (ss_id s) d = Some s"
  by (simp add: states_ok_def get_state_def rows_get_mem_iff)

lemma sync_target_runs:
  assumes "state_of (u_id (y_user y)) (c_target_id c) d = Some s"
    and "oper = lifecycle_operation_for (y_user y) (y_desired y = DA_DELETE)
      (\<not> ss_assigned s \<or> ss_state s = PENDING_CHPW_DISABLE)"
    and "supports_operation c oper" "ss_state s \<noteq> AWAITING_CREDENTIALS"
  shows "sync_target e y c d = run_target e y c oper s d"
  using assms by (simp add: sync_target_def Let_def)

lemma run_target_state:
  assumes ok: "states_ok d" and s: "s \<in> set (sync_states d)"
    and run: "run_target e y c oper s d = Done x d'"
  shows "get_state (ss_id s) d' = Some (put_result
    (if sr_ok (call_connector y oper c (tick d))
     then after_success y (call_connector y oper c (tick d)) (put_pending s)
     else fst (the (after_failure e (call_connector y oper c (tick d)) (put_pending s))))
    (put_pending s))"
proof -
  let ?d0 = "snd (start_target_attempt e (y_operation y) (c_target_id c)
        (Some (target_type_value (c_target_type c))) d)"
  let ?d1 = "next_tick (upd_state (ss_id s) put_pending ?d0)"
  have "get_state (ss_id s) ?d0 = Some s"
    using get_state_mem [OF ok s] by (simp add: get_state_def)
  then have 1: "get_state (ss_id s) ?d1 = Some (put_pending s)"
    by (simp add: state_table.get_upd put_pending_def)
  have res: "get_state (ss_id s) (record_target_result e y c a r s' p ?d1) =
      Some (put_result s' (put_pending s))" if "state_shape s' = state_shape (put_pending s)" for a r s' p
  proof -
    have id: "ss_id s' = ss_id s" using that by (simp add: state_shape_def put_pending_def)
    have "get_state (ss_id s) (record_target_result e y c a r s' p ?d1) =
        get_state (ss_id s) (upd_state (ss_id s) (put_result s') ?d1)"
      by (simp add: get_state_def record_target_result_frame id)
    also have "\<dots> = map_option (put_result s') (get_state (ss_id s) ?d1)"
      by (subst state_table.get_upd) (simp_all add: put_result_def)
    finally show ?thesis using 1 by simp
  qed
  show ?thesis
    by (cases rule: run_target_cases [of y oper c d e s])
      (use run res after_shape in auto)
qed

lemma run_target_overflow:
  assumes "\<not> sr_ok (call_connector y oper c (tick d))"
    "sr_error_kind (call_connector y oper c (tick d)) \<noteq> Some VALIDATION"
    "1024 \<le> ss_attempt_count s"
  shows "\<exists>d'. run_target e y c oper s d = Raised ''OverflowError'' d'"
proof (cases rule: run_target_cases [of y oper c d e s])
  case (failure a s' p)
  then show ?thesis
    using assms by (simp add: after_failure_def retry_delay_def put_pending_def Let_def)
qed (use assms in auto)

lemma retry_delay_bounds:
  assumes "retry_delay st n = Some delay"
  shows "delay \<le> s_retry_max st" "s_retry_base st \<le> s_retry_max st \<Longrightarrow> s_retry_base st \<le> delay"
proof -
  have d: "delay = min (s_retry_base st * 2 ^ (n - 1)) (s_retry_max st)"
    using assms by (simp add: retry_delay_def split: if_splits)
  then show "delay \<le> s_retry_max st" by simp
  have "s_retry_base st * 1 \<le> s_retry_base st * 2 ^ (n - 1)" by (rule mult_le_mono2) simp
  then show "s_retry_base st \<le> delay" if "s_retry_base st \<le> s_retry_max st"
    using that d by simp
qed

section \<open>Properties\<close>

lemmas sync_exec = sync_user_def get_connectors_def resolve_assignment_intents_def
  user_exceptions_def get_user_profile_def default_intents_def connector_for_def user_states_def
  get_user_def rows_get_def is_root_def create_missing_states_def choose_operation_def
  command_for_def request_operation_def get_active_operation_def decide_transition_def Let_def
  is_active_def decision_def create_operation_def uuid4_def add_operation_def new_operation_def
  next_tick_def upd_user_def rows_upd_def run_operation_def begin_run_def in_scope_def
  upd_state_def get_operation_def start_operation_def upd_operation_def has_text_def
  has_connector_def map_filter_def sync_target_def state_of_def lifecycle_operation_for_def
  supports_operation_def run_target_def start_target_attempt_def next_id_def put_pending_def
  call_connector_def sync_result_def classify_result_def after_success_def
  record_target_result_def put_result_def finish_target_attempt_def upd_attempt_def settle_def
  failures_of_def terminal_of_def state_terminal_delete finish_with_def announce_def
  terminal_def TERMINAL_OPERATION_STATUSES_def notify_def enqueue_notification_def
  notification_policy_def file_config_def record_audit_def

definition removal_db :: db where
  "removal_db = sample_db\<lparr>users := [sample_user\<lparr>u_desired_action := DA_DELETE\<rparr>]\<rparr>"





text \<open>C4: Users are isolated from each other.  Whatever the targets answer, and also when the run
  ends in an exception, a run for one user changes neither the row nor any target state of
  another user.\<close>

theorem run_concerns_one_user:
  assumes "states_ok d" "other \<noteq> uid"
  shows "get_user other (outcome_db (sync_user e uid act t actor operation_id d)) = get_user other d \<and>
    user_states other (outcome_db (sync_user e uid act t actor operation_id d)) = user_states other d"
  using sync_user_other_lemma [OF assms] .

theorem run_concerns_one_user_witness:
  "get_user 2 (outcome_db (sync_user sample_env 1 None None ''admin'' None
     (sample_db\<lparr>users := [sample_user, sample_user\<lparr>u_id := 2\<rparr>]\<rparr>))) = Some (sample_user\<lparr>u_id := 2\<rparr>)"
proof -
  let ?d = "sample_db\<lparr>users := [sample_user, sample_user\<lparr>u_id := 2\<rparr>]\<rparr>"
  have "states_ok ?d" by (simp add: states_ok_def sample_db_def empty_db_def)
  moreover have "get_user 2 ?d = Some (sample_user\<lparr>u_id := 2\<rparr>)"
    by (simp add: get_user_def rows_get_def sample_user_def)
  ultimately show ?thesis using run_concerns_one_user [of ?d 2 1] by simp
qed


definition detached_db :: db where
  "detached_db = sample_db\<lparr>users := [sample_user\<lparr>u_desired_action := DA_DELETE\<rparr>],
     sync_states := [sample_state\<lparr>ss_assigned := False, ss_state := UNASSIGNED\<rparr>]\<rparr>"


text \<open>The outcome of one call to a target.  A success clears the attempts and the retry; a
  rejection of the request as invalid is recorded as unsupported and is not retried; any other failure counts one
  more attempt and schedules a retry after a delay that doubles with the attempts up to the
  configured maximum.\<close>

theorem target_call_outcome:
  assumes "states_ok d" "state_of (u_id (y_user y)) (c_target_id c) d = Some s"
    and "oper = lifecycle_operation_for (y_user y) (y_desired y = DA_DELETE)
      (\<not> ss_assigned s \<or> ss_state s = PENDING_CHPW_DISABLE)"
    and "supports_operation c oper" "ss_state s \<noteq> AWAITING_CREDENTIALS"
    and "r = call_connector y oper c (tick d)" "sync_target e y c d = Done x d'"
  shows "\<exists>s'. get_state (ss_id s) d' = Some s' \<and> ss_assigned s' = ss_assigned s \<and>
    (sr_ok r \<longrightarrow> ss_attempt_count s' = 0 \<and> ss_next_retry_at s' = None \<and> ss_state s' \<noteq> FAILED) \<and>
    (\<not> sr_ok r \<and> sr_error_kind r = Some VALIDATION \<longrightarrow> ss_state s' = UNSUPPORTED \<and>
       ss_next_retry_at s' = None \<and> ss_attempt_count s' = Suc (ss_attempt_count s)) \<and>
    (\<not> sr_ok r \<and> sr_error_kind r \<noteq> Some VALIDATION \<longrightarrow> ss_state s' = FAILED \<and>
       ss_attempt_count s' = Suc (ss_attempt_count s) \<and>
       ss_next_retry_at s' = Some (now e + int (min (s_retry_base (settings e) * 2 ^ ss_attempt_count s)
         (s_retry_max (settings e)))))"
proof -
  note mem = state_of_mem [OF assms(2)]
  have run: "run_target e y c oper s d = Done x d'"
    using sync_target_runs [OF assms(2-5)] assms(7) by simp
  note st = run_target_state [OF assms(1) mem(1) run]
  show ?thesis
  proof (cases "sr_ok r")
    case True
    then show ?thesis
      using st assms(6) by (auto simp: after_success_def put_result_def put_pending_def Let_def)
  next
    case False
    have "after_failure e r (put_pending s) \<noteq> None"
      using run False assms(6) by (auto simp: run_target_def Let_def split: prod.splits option.splits)
    then show ?thesis
      using st False assms(6)
      by (auto simp: after_failure_def retry_delay_def put_result_def put_pending_def Let_def
          split: if_splits)
  qed
qed

definition failing_connector :: Connector where
  "failing_connector = sample_connector\<lparr>c_ensure_user := (\<lambda>_ _ _ _. sync_result False ''timeout'')\<rparr>"

definition sample_call :: SyncCall where
  "sample_call = \<lparr>y_user = sample_user, y_operation = 0, y_actor = ''auto-retry'',
     y_desired = ENSURE, y_password = None, y_intents = []\<rparr>"

lemma failing_call:
  "call_connector sample_call CO_ENSURE failing_connector t =
     \<lparr>sr_ok = False, sr_detail = ''timeout'', sr_error_kind = Some TIMEOUT, sr_retryable = True\<rparr>"
  by (simp add: call_connector_def failing_connector_def sync_result_def classify_result_def Let_def
      lower_def lower_char_def starts_with_def)

theorem target_call_outcome_witness:
  "\<exists>d' s'. sync_target sample_env sample_call failing_connector sample_db = Done () d' \<and>
     get_state 1 d' = Some s' \<and> ss_state s' = FAILED \<and> ss_attempt_count s' = 1 \<and>
     ss_next_retry_at s' = Some (now sample_env + 5 * second)"
proof -
  have st: "state_of (u_id (y_user sample_call)) (c_target_id failing_connector) sample_db = Some sample_state"
    by (simp add: state_of_def user_states_def failing_connector_def sample_call_def sample_defs)
  have op: "CO_ENSURE = lifecycle_operation_for (y_user sample_call) (y_desired sample_call = DA_DELETE)
      (\<not> ss_assigned sample_state \<or> ss_state sample_state = PENDING_CHPW_DISABLE)"
    "supports_operation failing_connector CO_ENSURE" "ss_state sample_state \<noteq> AWAITING_CREDENTIALS"
    by (simp_all add: lifecycle_operation_for_def sample_call_def sample_user_def sample_state_def
        supports_operation_def failing_connector_def sample_connector_def)
  have "\<exists>d'. sync_target sample_env sample_call failing_connector sample_db = Done () d'"
    unfolding sync_target_runs [OF st op]
    by (simp add: run_target_def failing_call after_failure_def retry_delay_def put_pending_def
        sample_state_def sample_env_def Let_def split: prod.splits)
  then obtain d' where d': "sync_target sample_env sample_call failing_connector sample_db = Done () d'"
    by blast
  have "states_ok sample_db" by (simp add: states_ok_def sample_defs)
  from target_call_outcome [OF this st op refl d']
  show ?thesis using d' by (auto simp: failing_call sample_env_def sample_state_def second_def day_def)
qed

text \<open>The retry delay is computed as a float times a power of two and overflows.  A
  target whose state has 1024 failed attempts behind it and fails once more with anything but a validation
  error makes the run raise \<open>OverflowError\<close>; the scan for due retries, which catches
  nothing, ends with the same exception.\<close>

theorem retry_overflow:
  assumes "state_of (u_id (y_user y)) (c_target_id c) d = Some s"
    and "oper = lifecycle_operation_for (y_user y) (y_desired y = DA_DELETE)
      (\<not> ss_assigned s \<or> ss_state s = PENDING_CHPW_DISABLE)"
    and "supports_operation c oper" "ss_state s \<noteq> AWAITING_CREDENTIALS"
    and "r = call_connector y oper c (tick d)" "\<not> sr_ok r" "sr_error_kind r \<noteq> Some VALIDATION"
    and "1024 \<le> ss_attempt_count s"
  shows "\<exists>d'. sync_targets e y (c # cs) d = Raised ''OverflowError'' d'"
  using run_target_overflow [of y oper c d s e] sync_target_runs [OF assms(1-4)] assms(5-8)
  by auto

theorem retry_overflow_witness:
  "\<exists>d'. sync_targets sample_env sample_call [failing_connector]
     (sample_db\<lparr>sync_states := [sample_state\<lparr>ss_state := FAILED, ss_attempt_count := 1024\<rparr>]\<rparr>) =
     Raised ''OverflowError'' d'"
proof (rule retry_overflow [where s = "sample_state\<lparr>ss_state := FAILED, ss_attempt_count := 1024\<rparr>"
      and oper = CO_ENSURE])
  show "\<not> sr_ok (call_connector sample_call CO_ENSURE failing_connector t)"
    "sr_error_kind (call_connector sample_call CO_ENSURE failing_connector t) \<noteq> Some VALIDATION" for t
    by (simp_all add: failing_call)
qed (simp_all add: state_of_def user_states_def failing_connector_def sample_call_def sample_defs
    lifecycle_operation_for_def supports_operation_def)

text \<open>The scan for due retries has no handler of its own: when the run of one state raises, the
  exception leaves the scan, so the states after it are not retried, and nothing but the
  runs before it has happened.\<close>

theorem retry_scan_stops:
  assumes "sync_user e (ss_user_id s) None (Some (ss_target s)) ''auto-retry'' (ss_operation_id s)
      (outcome_db (retry_states e before d)) = Raised err d'"
    and "retry_states e before d = Done () d1"
    and "filter (retry_is_due e) (sync_states d) = before @ s # after"
  shows "retry_due e d = Raised err d'"
proof -
  have append: "retry_states e (xs @ ys) d =
      (case retry_states e xs d of Done _ d1 \<Rightarrow> retry_states e ys d1 | Raised err d1 \<Rightarrow> Raised err d1)"
    for xs ys d
    by (induction xs arbitrary: d) (auto split: outcome.splits)
  show ?thesis using assms by (simp add: retry_due_def append)
qed

definition overflow_env :: Env where
  "overflow_env = sample_env\<lparr>legacy_connectors := [failing_connector]\<rparr>"

definition overflow_db :: db where
  "overflow_db = sample_db\<lparr>sync_states := [sample_state\<lparr>ss_state := FAILED,
     ss_attempt_count := 1024, ss_next_retry_at := Some 0\<rparr>]\<rparr>"

theorem retry_scan_stops_witness:
  "\<exists>d'. retry_due overflow_env overflow_db = Raised ''OverflowError'' d'"
proof -
  let ?s = "sample_state\<lparr>ss_state := FAILED, ss_attempt_count := 1024, ss_next_retry_at := Some 0\<rparr>"
  have "\<exists>d'. sync_user overflow_env (ss_user_id ?s) None (Some (ss_target ?s)) ''auto-retry''
      (ss_operation_id ?s) overflow_db = Raised ''OverflowError'' d'"
    by (simp add: sync_exec overflow_db_def overflow_env_def failing_connector_def sample_defs
        lower_def lower_char_def starts_with_def after_failure_def retry_delay_def
        retried_operation_def)
  then obtain d' where d': "sync_user overflow_env (ss_user_id ?s) None (Some (ss_target ?s)) ''auto-retry''
      (ss_operation_id ?s) (outcome_db (retry_states overflow_env [] overflow_db)) =
      Raised ''OverflowError'' d'" by auto
  have "filter (retry_is_due overflow_env) (sync_states overflow_db) = [] @ ?s # []"
    by (simp add: overflow_db_def overflow_env_def sample_defs retry_is_due_def)
  from retry_scan_stops [OF d' retry_states.simps(1) this] show ?thesis by blast
qed

end
