(* ===== verification/TargetCredentials.thy ===== *)
theory TargetCredentials
  imports Sync
begin

text \<open>
  The management credentials of the targets, \<open>src/na_sso/target_credentials.py\<close>:
  saving them, recording the outcome of a probe, the retry of failed probes, and the redaction of
  secrets in the text of a failure.  The two regular expressions of the redaction are written
  out as functions on the text.  The lemmas show that a target is used only
  after its present credentials were verified, and what a probe changes.
\<close>

section \<open>Readiness\<close>

record TargetReadiness =
  tr_target_id :: string
  tr_configured :: bool
  tr_verified :: bool
  tr_auth_mode :: "string option"
  tr_detail :: string
  tr_revision :: "nat option"
  tr_last_checked_at :: "time option"
  tr_last_success_at :: "time option"
  tr_reachable :: "bool option"
  tr_failure_kind :: string
  tr_probe_attempt_count :: nat
  tr_next_probe_at :: "time option"

definition readiness_of :: "string \<Rightarrow> TargetCredential option \<Rightarrow> TargetReadiness" where
  "readiness_of target_id row =
    (case row of
       None \<Rightarrow> \<lparr>tr_target_id = target_id, tr_configured = False, tr_verified = False,
         tr_auth_mode = None, tr_detail = ''Credentials required'', tr_revision = None,
         tr_last_checked_at = None, tr_last_success_at = None, tr_reachable = None,
         tr_failure_kind = [], tr_probe_attempt_count = 0, tr_next_probe_at = None\<rparr>
     | Some r \<Rightarrow> \<lparr>tr_target_id = target_id, tr_configured = True,
         tr_verified = (tc_verified_at r \<noteq> None), tr_auth_mode = Some (tc_auth_mode r),
         tr_detail = tc_probe_detail r, tr_revision = Some (tc_revision r),
         tr_last_checked_at = tc_last_checked_at r, tr_last_success_at = tc_last_success_at r,
         tr_reachable = tc_last_probe_ok r, tr_failure_kind = tc_probe_failure_kind r,
         tr_probe_attempt_count = tc_probe_attempt_count r, tr_next_probe_at = tc_next_probe_at r\<rparr>)"

definition readiness_map :: "Env \<Rightarrow> db \<Rightarrow> (string \<times> TargetReadiness) list" where
  "readiness_map e d =
    map (\<lambda>t. (tg_id t, readiness_of (tg_id t) (get_credential (tg_id t) d))) (target_definitions e)"

section \<open>The text of a failure\<close>

definition contains_any :: "string list \<Rightarrow> string \<Rightarrow> bool" where
  "contains_any markers s \<longleftrightarrow> list_ex (\<lambda>m. contains_str m s) markers"

definition classify_probe_failure :: "string \<Rightarrow> string" where
  "classify_probe_failure detail =
    (let lowered = lower detail in
     if contains_any [''401'', ''403'', ''auth'', ''unauthor'', ''forbidden'', ''permission denied''] lowered
       then ''authentication''
     else if contains_any [''unreachable'', ''connection'', ''connect'', ''timeout'', ''timed out'',
         ''name or service'', ''network''] lowered then ''unreachable''
     else ''verification'')"

text \<open>\<open>://[^/@\s]+:[^/@\s]+@\<close>: after the slashes a run of characters of the class, with a
  colon inside it, up to an at sign.\<close>

definition userinfo_char :: "char \<Rightarrow> bool" where
  "userinfo_char c \<longleftrightarrow> c \<noteq> CHR ''/'' \<and> c \<noteq> CHR ''@'' \<and> \<not> is_space c"

definition colon_inside :: "string \<Rightarrow> bool" where
  "colon_inside s \<longleftrightarrow> CHR '':'' \<in> set (butlast (tl s))"

definition match_userinfo :: "string \<Rightarrow> string option" where
  "match_userinfo s =
    (if starts_with ''://'' s then
       (let rest = drop 3 s; run = takeWhile userinfo_char rest in
        case dropWhile userinfo_char rest of
          [] \<Rightarrow> None
        | c # after \<Rightarrow> if c = CHR ''@'' \<and> colon_inside run then Some after else None)
     else None)"

text \<open>\<open>(?i)\b(password|secret|token|api[_ -]?key)\s*[:=]\s*[^\s,;]+\<close>: the keyword as it is
  written, and what follows the match.\<close>

definition word_char :: "char \<Rightarrow> bool" where
  "word_char c \<longleftrightarrow> is_alnum c \<or> c = CHR ''_''"

definition secret_words :: "string list" where
  "secret_words = [''password'', ''secret'', ''token'', ''api_key'', ''api key'', ''api-key'', ''apikey'']"

definition value_char :: "char \<Rightarrow> bool" where
  "value_char c \<longleftrightarrow> \<not> is_space c \<and> c \<noteq> CHR '','' \<and> c \<noteq> CHR '';''"

definition match_secret :: "string \<Rightarrow> (string \<times> string) option" where
  "match_secret s =
    (case find (\<lambda>w. starts_with w (lower s)) secret_words of
       None \<Rightarrow> None
     | Some w \<Rightarrow>
        (case dropWhile is_space (drop (length w) s) of
           [] \<Rightarrow> None
         | c # cs \<Rightarrow>
            (let text = dropWhile is_space cs in
             if c \<in> {CHR '':'', CHR ''=''} \<and> takeWhile value_char text \<noteq> []
             then Some (take (length w) s, dropWhile value_char text) else None)))"

lemma match_userinfo_shorter:
  assumes "match_userinfo s = Some r"
  shows "length r < length s"
proof -
  obtain c where "dropWhile userinfo_char (drop 3 s) = c # r"
    using assms by (auto simp: match_userinfo_def Let_def split: if_splits list.splits)
  then have "length (c # r) \<le> length (drop 3 s)" by (metis length_dropWhile_le)
  then show ?thesis by simp
qed

lemma match_secret_shorter:
  assumes "match_secret s = Some (w, r)"
  shows "length r < length s"
proof -
  obtain n c cs where m: "dropWhile is_space (drop n s) = c # cs"
    "r = dropWhile value_char (dropWhile is_space cs)"
    using assms by (auto simp: match_secret_def Let_def split: option.splits list.splits if_splits)
  have "length r \<le> length cs"
    using m(2) by (metis length_dropWhile_le order_trans)
  moreover have "length (c # cs) \<le> length (drop n s)" using m(1) by (metis length_dropWhile_le)
  ultimately show ?thesis by simp
qed

function redact_userinfo :: "string \<Rightarrow> string" where
  "redact_userinfo s =
    (case s of
       [] \<Rightarrow> []
     | c # cs \<Rightarrow>
        (case match_userinfo s of
           None \<Rightarrow> c # redact_userinfo cs
         | Some after \<Rightarrow> ''://[redacted]@'' @ redact_userinfo after))"
  by pat_completeness auto
termination by (relation "measure length") (auto dest: match_userinfo_shorter)

text \<open>The flag says that the character before the text is one of a word, so that no keyword
  begins here.\<close>

function redact_secrets :: "bool \<Rightarrow> string \<Rightarrow> string" where
  "redact_secrets in_word s =
    (case s of
       [] \<Rightarrow> []
     | c # cs \<Rightarrow>
        (case (if in_word then None else match_secret s) of
           None \<Rightarrow> c # redact_secrets (word_char c) cs
         | Some (w, after) \<Rightarrow> w @ ''=[redacted]'' @ redact_secrets True after))"
  by pat_completeness auto
termination
  by (relation "measure (\<lambda>(b, s). length s)") (auto split: if_splits dest: match_secret_shorter)

declare redact_userinfo.simps [simp del] redact_secrets.simps [simp del]

definition sanitise_probe_detail :: "string \<Rightarrow> string" where
  "sanitise_probe_detail detail = take 1000 (redact_secrets False (redact_userinfo detail))"

section \<open>Saving and probing\<close>

definition ssh_required :: "(string \<times> string list) list" where
  "ssh_required =
    [(''password'', [''management_user'', ''management_password'']),
     (''private_key'', [''management_user'', ''management_private_key'']),
     (''password_and_private_key'',
      [''management_user'', ''management_password'', ''management_private_key''])]"

definition required_credentials :: "TargetType \<Rightarrow> string \<Rightarrow> string list" where
  "required_credentials t auth_mode = (case t of
     OPNSENSE \<Rightarrow> [''api_key'', ''api_secret'']
   | NEXUS \<Rightarrow> [''admin_user'', ''admin_password'']
   | NEXTCLOUD \<Rightarrow> [''admin_user'', ''admin_password'']
   | NPM \<Rightarrow> [''admin_user'', ''admin_password'']
   | GITLAB \<Rightarrow> [''api_token''] | GITEA \<Rightarrow> [''api_token''] | IMMICH \<Rightarrow> [''api_token'']
   | JENKINS \<Rightarrow> [''admin_user'', ''api_token'']
   | SSH \<Rightarrow> (case map_of ssh_required auth_mode of None \<Rightarrow> [] | Some r \<Rightarrow> r))"

definition allowed_auth_modes :: "TargetType \<Rightarrow> string list" where
  "allowed_auth_modes t =
    (if t = SSH then map fst ssh_required
     else if t \<in> {GITLAB, GITEA, IMMICH, JENKINS} then [''token''] else [''password''])"

text \<open>The columns that a saved payload resets.\<close>

definition unprobed :: "TargetCredential \<Rightarrow> TargetCredential" where
  "unprobed row = row\<lparr>tc_verified_at := None,
     tc_probe_detail := ''Credentials saved; verification pending'', tc_last_checked_at := None,
     tc_last_success_at := None, tc_last_probe_ok := None, tc_probe_failure_kind := [],
     tc_probe_attempt_count := 0, tc_next_probe_at := None\<rparr>"

definition new_credential :: "string \<Rightarrow> string \<Rightarrow> string \<Rightarrow> db \<Rightarrow> TargetCredential" where
  "new_credential target_id encrypted auth_mode d =
    \<lparr>tc_id = next_id tc_id (credentials d), tc_target_id = target_id,
     tc_encrypted_payload = encrypted, tc_auth_mode = auth_mode, tc_revision = 1,
     tc_verified_at = None, tc_probe_detail = [], tc_last_checked_at = None,
     tc_last_success_at = None, tc_last_probe_ok = None, tc_probe_failure_kind = [],
     tc_probe_attempt_count = 0, tc_next_probe_at = None\<rparr>"

definition cleaned_payload :: "(string \<times> string) list \<Rightarrow> (string \<times> string) list" where
  "cleaned_payload payload = filter (\<lambda>kv. snd kv \<noteq> []) payload"

definition save_credentials ::
  "Env \<Rightarrow> string \<Rightarrow> string \<Rightarrow> (string \<times> string) list \<Rightarrow> db \<Rightarrow> string + db" where
  "save_credentials e target_id auth_mode payload d =
    (case find (\<lambda>t. tg_id t = target_id) (target_definitions e) of
       None \<Rightarrow> Inl ''unknown target ID''
     | Some t \<Rightarrow>
        (let cleaned = cleaned_payload payload in
         if auth_mode \<notin> set (allowed_auth_modes (tg_type t))
            \<or> \<not> set (required_credentials (tg_type t) auth_mode) \<subseteq> fst ` set cleaned
         then Inl ''management credentials are required''
         else
           (let encrypted = seal_payload e cleaned in
            case get_credential target_id d of
              None \<Rightarrow> Inr (d\<lparr>credentials := credentials d
                @ [unprobed (new_credential target_id encrypted auth_mode d)]\<rparr>)
            | Some row \<Rightarrow> Inr (upd_credential target_id
                (\<lambda>row. unprobed (row\<lparr>tc_encrypted_payload := encrypted, tc_auth_mode := auth_mode,
                   tc_revision := tc_revision row + 1\<rparr>)) d))))"

definition probe_delay :: "Settings \<Rightarrow> nat \<Rightarrow> nat" where
  "probe_delay st attempt_count =
     min (s_retry_base st * 2 ^ min (attempt_count - 1) 30) (s_retry_max st)"

definition probed :: "Env \<Rightarrow> bool \<Rightarrow> string \<Rightarrow> TargetCredential \<Rightarrow> TargetCredential" where
  "probed e ok detail row =
    (let safe_detail = sanitise_probe_detail detail;
         row1 = row\<lparr>tc_last_checked_at := Some (now e), tc_last_probe_ok := Some ok,
           tc_probe_detail := safe_detail\<rparr> in
     if ok then
       row1\<lparr>tc_verified_at := (case tc_verified_at row of None \<Rightarrow> Some (now e) | Some t \<Rightarrow> Some t),
         tc_last_success_at := Some (now e), tc_probe_failure_kind := [],
         tc_probe_attempt_count := 0, tc_next_probe_at := None\<rparr>
     else
       (let kind = classify_probe_failure safe_detail;
            n = tc_probe_attempt_count row + 1 in
        row1\<lparr>tc_probe_failure_kind := kind,
          tc_verified_at := (if kind = ''authentication'' then None else tc_verified_at row),
          tc_probe_attempt_count := n,
          tc_next_probe_at := Some (now e + int (probe_delay (settings e) n))\<rparr>))"

text \<open>\<open>Raised\<close> is the \<open>NoResultFound\<close> of a target without credentials.\<close>

definition record_probe :: "Env \<Rightarrow> string \<Rightarrow> bool \<Rightarrow> string \<Rightarrow> db \<Rightarrow> unit outcome" where
  "record_probe e target_id ok detail d =
    (if get_credential target_id d = None then Raised ''NoResultFound'' d
     else Done () (upd_credential target_id (probed e ok detail) d))"

text \<open>A probe of the stored credentials, verified or not; each call to a target has its own
  number.\<close>

definition probe_target :: "Env \<Rightarrow> string \<Rightarrow> db \<Rightarrow> SyncResult \<times> db" where
  "probe_target e target_id d =
    (case build_unverified_connector e target_id d of
       None \<Rightarrow> (sync_result False ''target credentials are incomplete'', d)
     | Some c \<Rightarrow> (c_probe c (tick d), next_tick d))"

fun probe_targets :: "Env \<Rightarrow> string list \<Rightarrow> db \<Rightarrow> unit outcome" where
  "probe_targets e [] d = Done () d"
| "probe_targets e (t # ts) d =
    (let (result, d1) = probe_target e t d in
     case record_probe e t (sr_ok result) (sr_detail result) d1 of
       Raised err d2 \<Rightarrow> Raised err d2 | Done _ d2 \<Rightarrow> probe_targets e ts d2)"

definition probe_is_due :: "Env \<Rightarrow> TargetCredential \<Rightarrow> bool" where
  "probe_is_due e row \<longleftrightarrow> (case tc_next_probe_at row of None \<Rightarrow> False | Some t \<Rightarrow> t \<le> now e)"

definition retry_due_target_probes :: "Env \<Rightarrow> db \<Rightarrow> nat outcome" where
  "retry_due_target_probes e d =
    (let target_ids = map tc_target_id (filter (probe_is_due e) (credentials d)) in
     case probe_targets e target_ids d of
       Raised err d' \<Rightarrow> Raised err d' | Done _ d' \<Rightarrow> Done (length target_ids) d')"

section \<open>What the redaction leaves\<close>

lemma redact_userinfo_simps [simp]:
  "redact_userinfo [] = []"
  "match_userinfo (c # cs) = None \<Longrightarrow> redact_userinfo (c # cs) = c # redact_userinfo cs"
  "match_userinfo (c # cs) = Some r \<Longrightarrow>
     redact_userinfo (c # cs) = ''://[redacted]@'' @ redact_userinfo r"
  by (simp_all add: redact_userinfo.simps)

lemma match_userinfo_start: "match_userinfo s = Some r \<Longrightarrow> \<exists>t. s = ''://'' @ t"
  by (metis append_take_drop_id match_userinfo_def option.distinct(1) starts_with_def)

lemma userinfo_char_simps [simp]:
  "userinfo_char (CHR '':'')" "\<not> userinfo_char (CHR ''/'')" "\<not> userinfo_char (CHR ''@'')"
  by (simp_all add: userinfo_char_def is_space_def)

lemma redact_userinfo_run:
  "takeWhile userinfo_char (redact_userinfo s) = takeWhile userinfo_char s \<and>
   map_option fst (case dropWhile userinfo_char (redact_userinfo s) of [] \<Rightarrow> None | c # r \<Rightarrow> Some (c, r)) =
   map_option fst (case dropWhile userinfo_char s of [] \<Rightarrow> None | c # r \<Rightarrow> Some (c, r))"
proof (induction s rule: redact_userinfo.induct)
  case (1 s)
  show ?case
  proof (cases s)
    case (Cons c cs)
    then show ?thesis
    proof (cases "match_userinfo s")
      case None
      then show ?thesis using 1(1) [OF Cons] Cons by auto
    next
      case (Some r)
      then obtain t where "s = ''://'' @ t" using match_userinfo_start by blast
      then show ?thesis using Some by simp
    qed
  qed simp
qed

lemma redact_userinfo_slash:
  assumes "redact_userinfo s = CHR ''/'' # t"
  shows "\<exists>cs. s = CHR ''/'' # cs \<and> t = redact_userinfo cs"
proof (cases s)
  case (Cons c cs)
  then show ?thesis using assms by (cases "match_userinfo s") auto
qed (use assms in simp)

lemma redact_userinfo_no_new_match:
  assumes "match_userinfo (c # cs) = None"
  shows "match_userinfo (c # redact_userinfo cs) = None"
proof (rule ccontr)
  assume "match_userinfo (c # redact_userinfo cs) \<noteq> None"
  then obtain r where r: "match_userinfo (c # redact_userinfo cs) = Some r" by blast
  then obtain t where t: "c = CHR '':''" "redact_userinfo cs = CHR ''/'' # CHR ''/'' # t"
    using match_userinfo_start [OF r] by auto
  obtain cs1 where cs1: "cs = CHR ''/'' # cs1" "CHR ''/'' # t = redact_userinfo cs1"
    using redact_userinfo_slash [OF t(2)] by blast
  obtain cs2 where cs2: "cs1 = CHR ''/'' # cs2" "t = redact_userinfo cs2"
    using redact_userinfo_slash [OF cs1(2) [symmetric]] by blast
  have run: "takeWhile userinfo_char t = takeWhile userinfo_char cs2"
    "map_option fst (case dropWhile userinfo_char t of [] \<Rightarrow> None | c # r \<Rightarrow> Some (c, r)) =
     map_option fst (case dropWhile userinfo_char cs2 of [] \<Rightarrow> None | c # r \<Rightarrow> Some (c, r))"
    using redact_userinfo_run [of cs2] cs2(2) by auto
  have "match_userinfo (c # cs) \<noteq> None"
    using r run t cs1 cs2
    by (auto simp: match_userinfo_def starts_with_def Let_def split: if_splits list.splits)
      (metis dropWhile_eq_Nil_conv list.distinct(1))
  then show False using assms by simp
qed

lemma no_match_in_marker:
  "i < 14 \<Longrightarrow> match_userinfo (drop i (''://[redacted]@'' @ t)) = None"
proof -
  assume "i < 14"
  then have "i = 0 \<or> i = 1 \<or> i = 2 \<or> i = 3 \<or> i = 4 \<or> i = 5 \<or> i = 6 \<or> i = 7 \<or> i = 8 \<or>
    i = 9 \<or> i = 10 \<or> i = 11 \<or> i = 12 \<or> i = 13" by presburger
  then show ?thesis
    by (elim disjE) (simp_all add: Let_def match_userinfo_def starts_with_def colon_inside_def userinfo_char_def is_space_def)
qed

lemma redact_userinfo_None: "match_userinfo (drop i (redact_userinfo s)) = None"
proof (induction s arbitrary: i rule: redact_userinfo.induct)
  case (1 s)
  show ?case
  proof (cases s)
    case Nil
    then show ?thesis by (simp add: match_userinfo_def starts_with_def)
  next
    case (Cons c cs)
    show ?thesis
    proof (cases "match_userinfo s")
      case None
      then have "match_userinfo (c # redact_userinfo cs) = None"
        using redact_userinfo_no_new_match Cons by simp
      then show ?thesis using 1(1) [OF Cons None] None Cons by (cases i) simp_all
    next
      case (Some r)
      then have eq: "redact_userinfo s = ''://[redacted]@'' @ redact_userinfo r" using Cons by simp
      show ?thesis
      proof (cases "i < 14")
        case True
        then show ?thesis unfolding eq by (rule no_match_in_marker)
      next
        case False
        then have "drop i (redact_userinfo s) = drop (i - 14) (redact_userinfo r)"
          unfolding eq drop_append by (simp add: eval_nat_numeral)
        then show ?thesis using 1(2) [OF Cons Some] by simp
      qed
    qed
  qed
qed

lemma redact_userinfo_same: "(\<And>i. match_userinfo (drop i s) = None) \<Longrightarrow> redact_userinfo s = s"
proof (induction s)
  case (Cons c cs)
  have "match_userinfo (drop i cs) = None" for i using Cons.prems [of "Suc i"] by simp
  moreover have "match_userinfo (c # cs) = None" using Cons.prems [of 0] by simp
  ultimately show ?case using Cons.IH by simp
qed simp




section \<open>Only verified credentials are used\<close>

lemma get_credential_append:
  "get_credential j (d\<lparr>credentials := credentials d @ [row]\<rparr>) =
     (case get_credential j d of None \<Rightarrow> if tc_target_id row = j then Some row else None | r \<Rightarrow> r)"
  by (simp add: get_credential_def rows_get_append rows_get_Cons split: option.splits)

lemma unprobed_simps [simp]:
  "tc_target_id (unprobed row) = tc_target_id row" "tc_verified_at (unprobed row) = None"
  "tc_encrypted_payload (unprobed row) = tc_encrypted_payload row"
  "tc_next_probe_at (unprobed row) = None"
  by (simp_all add: unprobed_def)

lemma probed_simps [simp]:
  "tc_target_id (probed e ok detail row) = tc_target_id row"
  "tc_encrypted_payload (probed e ok detail row) = tc_encrypted_payload row"
  by (simp_all add: probed_def Let_def)

lemma save_credentials_row:
  assumes "save_credentials e t m p d = Inr d'"
  shows "\<exists>row. get_credential t d' = Some row \<and> tc_verified_at row = None \<and>
      tc_encrypted_payload row = seal_payload e (cleaned_payload p)"
    and "j \<noteq> t \<Longrightarrow> get_credential j d' = get_credential j d"
proof -
  obtain tg where "find (\<lambda>x. tg_id x = t) (target_definitions e) = Some tg"
    using assms by (cases "find (\<lambda>x. tg_id x = t) (target_definitions e)") (simp_all add: save_credentials_def)
  note saved = assms [unfolded save_credentials_def this option.case Let_def]
  have *: "\<exists>row. get_credential t d' = Some row \<and> tc_verified_at row = None \<and>
      tc_encrypted_payload row = seal_payload e (cleaned_payload p) \<and>
      (j \<noteq> t \<longrightarrow> get_credential j d' = get_credential j d)" for j
  proof (cases "get_credential t d")
    case None
    then show ?thesis
      using saved
      by (auto simp: get_credential_append new_credential_def split: if_splits option.splits)
  next
    case (Some row)
    then show ?thesis
      using saved
      by (auto simp: credential_table.get_upd split: if_splits)
  qed
  show "\<exists>row. get_credential t d' = Some row \<and> tc_verified_at row = None \<and>
      tc_encrypted_payload row = seal_payload e (cleaned_payload p)"
    using * by blast
  show "get_credential j d' = get_credential j d" if "j \<noteq> t" using * that by blast
qed

text \<open>New credentials are not used before they are verified.  After
  \<open>save_credentials\<close> accepts a payload, the target has no verified payload, the payload a probe
  reads is the one that was saved without its empty fields, the other targets keep theirs, and
  the connectors in use are those of before without the target's.\<close>

theorem saved_credentials_wait:
  assumes "save_credentials e t m p d = Inr d'"
    and "open_payload e (seal_payload e (cleaned_payload p)) = cleaned_payload p"
    and "s_config_file (settings e)"
  shows "credential_payload e t True d' = None \<and>
    credential_payload e t False d' = Some (cleaned_payload p) \<and>
    (\<forall>j v. j \<noteq> t \<longrightarrow> credential_payload e j v d' = credential_payload e j v d) \<and>
    get_connectors e d' = List.map_filter
      (\<lambda>x. if \<not> tg_enabled x \<or> tg_id x = t then None
           else map_option (build_connector e x) (credential_payload e (tg_id x) True d))
      (fc_targets (file_config e))"
proof -
  have new: "credential_payload e t True d' = None"
    "credential_payload e t False d' = Some (cleaned_payload p)"
    using save_credentials_row(1) [OF assms(1)] assms(2) by (auto simp: credential_payload_def)
  have other: "credential_payload e j v d' = credential_payload e j v d" if "j \<noteq> t" for j v
    using save_credentials_row(2) [OF assms(1) that] by (simp add: credential_payload_def)
  have "(if \<not> tg_enabled x then None
         else map_option (build_connector e x) (credential_payload e (tg_id x) True d')) =
        (if \<not> tg_enabled x \<or> tg_id x = t then None
         else map_option (build_connector e x) (credential_payload e (tg_id x) True d))" for x
    using new(1) other [of "tg_id x" True] by (cases "tg_id x = t") auto
  then have "get_connectors e d' = List.map_filter
      (\<lambda>x. if \<not> tg_enabled x \<or> tg_id x = t then None
           else map_option (build_connector e x) (credential_payload e (tg_id x) True d))
      (fc_targets (file_config e))"
    using assms(3) unfolding get_connectors_def by simp
  then show ?thesis using new other by blast
qed

definition gitea_target :: Target where
  "gitea_target = \<lparr>tg_id = ''gitea'', tg_display_name = ''Gitea'', tg_enabled = True,
     tg_type = GITEA, tg_default_groups = [], tg_mode = MODE_PASSWORD_AND_KEY\<rparr>"

definition target_env :: Env where
  "target_env = sample_env\<lparr>settings := (settings sample_env)\<lparr>s_config_file := True,
       s_file := sample_file\<lparr>fc_targets := [gitea_target]\<rparr>\<rparr>,
     open_payload := (\<lambda>_. [(''api_token'', ''abc'')])\<rparr>"

theorem saved_credentials_wait_witness:
  "\<exists>d'. save_credentials target_env ''gitea'' ''token'' [(''api_token'', ''abc''), (''note'', [])] sample_db
     = Inr d' \<and> get_connectors target_env d' = []"
proof -
  let ?p = "[(''api_token'', ''abc''), (''note'', [])]"
  obtain d' where d': "save_credentials target_env ''gitea'' ''token'' ?p sample_db = Inr d'"
    by (simp add: save_credentials_def target_env_def gitea_target_def sample_defs
        target_definitions_def file_config_def allowed_auth_modes_def required_credentials_def
        cleaned_payload_def get_credential_def rows_get_def)
  have seal: "open_payload target_env (seal_payload target_env (cleaned_payload ?p)) = cleaned_payload ?p"
    by (simp add: target_env_def cleaned_payload_def)
  have "s_config_file (settings target_env)" by (simp add: target_env_def)
  from saved_credentials_wait [OF d' seal this] have
    "get_connectors target_env d' = List.map_filter
      (\<lambda>x. if \<not> tg_enabled x \<or> tg_id x = ''gitea'' then None
           else map_option (build_connector target_env x)
             (credential_payload target_env (tg_id x) True sample_db))
      (fc_targets (file_config target_env))" by blast
  then have "get_connectors target_env d' = []"
    by (simp add: file_config_def target_env_def gitea_target_def map_filter_simps)
  then show ?thesis using d' by blast
qed


lemma probe_delay_bound: "probe_delay st n \<le> s_retry_max st"
  by (simp add: probe_delay_def)

text \<open>What a probe decides.  After a recorded success the target's payload counts as verified and no
  probe is scheduled; after a failure the payload stays verified exactly when it was and the
  failure is not classified as one of authentication, one more attempt is counted, and the next probe comes
  no later than the configured maximum; and nothing changes for any other target.\<close>

theorem probe_decides_use:
  assumes "get_credential t d = Some row" "record_probe e t ok detail d = Done () d'"
  shows "credential_payload e t True d' =
      (if ok \<or> (tc_verified_at row \<noteq> None \<and>
                classify_probe_failure (sanitise_probe_detail detail) \<noteq> ''authentication'')
       then Some (open_payload e (tc_encrypted_payload row)) else None) \<and>
    (\<exists>row'. get_credential t d' = Some row' \<and>
       (if ok then tc_probe_attempt_count row' = 0 \<and> tc_next_probe_at row' = None
        else tc_probe_attempt_count row' = tc_probe_attempt_count row + 1 \<and>
          (\<exists>next. tc_next_probe_at row' = Some next \<and> now e \<le> next \<and>
             next \<le> now e + int (s_retry_max (settings e))))) \<and>
    (\<forall>j v. j \<noteq> t \<longrightarrow> credential_payload e j v d' = credential_payload e j v d)"
proof -
  have d': "d' = upd_credential t (probed e ok detail) d"
    using assms by (simp add: record_probe_def)
  have row': "get_credential t d' = Some (probed e ok detail row)"
    using assms(1) by (simp add: d' credential_table.get_upd)
  have other: "get_credential j d' = get_credential j d" if "j \<noteq> t" for j
    using that by (simp add: d' credential_table.get_upd)
  have "credential_payload e t True d' =
      (if ok \<or> (tc_verified_at row \<noteq> None \<and>
                classify_probe_failure (sanitise_probe_detail detail) \<noteq> ''authentication'')
       then Some (open_payload e (tc_encrypted_payload row)) else None)"
    by (simp add: credential_payload_def row') (simp add: probed_def Let_def split: option.splits)
  moreover have "if ok then tc_probe_attempt_count (probed e ok detail row) = 0 \<and>
        tc_next_probe_at (probed e ok detail row) = None
      else tc_probe_attempt_count (probed e ok detail row) = tc_probe_attempt_count row + 1 \<and>
        (\<exists>next. tc_next_probe_at (probed e ok detail row) = Some next \<and> now e \<le> next \<and>
           next \<le> now e + int (s_retry_max (settings e)))"
    using probe_delay_bound [of "settings e"] by (simp add: probed_def Let_def)
  ultimately show ?thesis using row' other by (simp add: credential_payload_def)
qed

definition gitea_credential :: TargetCredential where
  "gitea_credential = new_credential ''gitea'' [] ''token'' empty_db\<lparr>tc_verified_at := Some 0\<rparr>"

definition target_db :: db where
  "target_db = sample_db\<lparr>credentials := [gitea_credential]\<rparr>"

lemma target_db_credential: "get_credential ''gitea'' target_db = Some gitea_credential"
  by (simp add: get_credential_def rows_get_def target_db_def gitea_credential_def new_credential_def)

theorem probe_decides_use_witness:
  "\<exists>d'. record_probe target_env ''gitea'' False ''HTTP 500'' target_db = Done () d' \<and>
     credential_payload target_env ''gitea'' True d' = Some [(''api_token'', ''abc'')]"
proof -
  obtain d' where d': "record_probe target_env ''gitea'' False ''HTTP 500'' target_db = Done () d'"
    by (simp add: record_probe_def target_db_credential)
  have "classify_probe_failure (sanitise_probe_detail ''HTTP 500'') \<noteq> ''authentication''" by code_simp
  moreover have "tc_verified_at gitea_credential \<noteq> None" by (simp add: gitea_credential_def)
  moreover have "open_payload target_env (tc_encrypted_payload gitea_credential) = [(''api_token'', ''abc'')]"
    by (simp add: target_env_def)
  ultimately have "credential_payload target_env ''gitea'' True d' = Some [(''api_token'', ''abc'')]"
    using probe_decides_use [OF target_db_credential d'] by simp
  then show ?thesis using d' by blast
qed

text \<open>A network failure can revoke verified credentials.  The classification of a failed probe looks
  for the letters \<open>auth\<close> anywhere in its text, so a refused connection to a host called
  \<open>auth.example.com\<close> counts as a failure of authentication: the credentials lose their
  verification, and the target leaves the connectors in use until a probe succeeds.\<close>

theorem network_failure_revokes:
  "\<exists>d'. record_probe e t False ''connection to auth.example.com refused''
      (d\<lparr>credentials := [row\<lparr>tc_target_id := t\<rparr>]\<rparr>) = Done () d' \<and> credential_payload e t True d' = None"
proof -
  let ?d = "d\<lparr>credentials := [row\<lparr>tc_target_id := t\<rparr>]\<rparr>"
  let ?s = "''connection to auth.example.com refused''"
  have row: "get_credential t ?d = Some (row\<lparr>tc_target_id := t\<rparr>)"
    by (simp add: get_credential_def rows_get_def)
  have "classify_probe_failure (sanitise_probe_detail ?s) = ''authentication''" by code_simp
  then have "tc_verified_at (probed e False ?s r) = None" for r by (simp add: probed_def Let_def)
  then show ?thesis
    by (simp add: record_probe_def row credential_payload_def credential_table.get_upd)
qed

end
