(* ===== verification/Security.thy ===== *)
theory Security
  imports AuditTrail "HOL-Library.Multiset"
begin

text \<open>
  Passwords and keys, \<open>src/na_sso/security.py\<close>: the password policy as a list of error
  messages, the generator of passwords, and the fingerprint of an SSH public key.  Letters and digits are
  those of ASCII.  The lemmas turn the substring tests of the policy into statements about the
  password.
\<close>

section \<open>The password policy\<close>

definition ascii_digits :: string where "ascii_digits = ''0123456789''"

text \<open>\<open>str.split()\<close>: the words between runs of white space.\<close>

definition words :: "string \<Rightarrow> string list" where
  "words s = filter (\<lambda>w. w \<noteq> []) (split_on (CHR '' '') (map (\<lambda>c. if is_space c then CHR '' '' else c) s))"

definition numeric_run :: "nat \<Rightarrow> nat \<Rightarrow> string" where
  "numeric_run i n = take n (drop i ascii_digits)"

definition has_numeric_run :: "nat \<Rightarrow> string \<Rightarrow> bool" where
  "has_numeric_run limit lowered \<longleftrightarrow>
     list_ex (\<lambda>n. list_ex (\<lambda>i. contains_str (numeric_run i n) lowered
                             \<or> contains_str (rev (numeric_run i n)) lowered) [0..<11 - n])
       [limit + 1..<11]"

definition identity_terms :: "string \<Rightarrow> string \<Rightarrow> string \<Rightarrow> string list" where
  "identity_terms username email display_name =
     [lower username, lower (takeWhile (\<lambda>c. c \<noteq> CHR ''@'') email)] @ map lower (words display_name)"

definition edit_distance :: "string \<Rightarrow> string \<Rightarrow> nat" where
  "edit_distance plain old =
     length (filter (\<lambda>(a, b). a \<noteq> b) (zip plain old)) +
     nat \<bar>int (length plain) - int (length old)\<bar>"

definition validate_password ::
  "Env \<Rightarrow> string \<Rightarrow> string \<Rightarrow> string \<Rightarrow> string \<Rightarrow> string option \<Rightarrow> string list \<Rightarrow> string list" where
  "validate_password e plain username email display_name old_password history_hashes =
    (let policy = fc_password_policy (file_config e) in rules
      [(\<not> length plain < pw_min_length policy,
        cat [''Password must contain at least '', show_nat (pw_min_length policy), '' characters.'']),
       (\<not> length plain > pw_max_length policy,
        cat [''Password must contain at most '', show_nat (pw_max_length policy), '' characters.'']),
       (\<not> (pw_require_lowercase policy \<and> \<not> list_ex is_lower plain),
        ''Password must contain a lowercase letter.''),
       (\<not> (pw_require_uppercase policy \<and> \<not> list_ex is_upper plain),
        ''Password must contain an uppercase letter.''),
       (\<not> (pw_require_digit policy \<and> \<not> list_ex is_digit plain), ''Password must contain a digit.''),
       (\<not> (pw_require_symbol policy \<and> \<not> list_ex (\<lambda>c. \<not> is_alnum c) plain),
        ''Password must contain a symbol.''),
       (case pw_max_repeated_characters policy of None \<Rightarrow> True
        | Some limit \<Rightarrow> \<not> list_ex (\<lambda>c. contains_str (replicate (limit + 1) c) plain) plain,
        cat [''Password cannot repeat one character more than '',
          (case pw_max_repeated_characters policy of None \<Rightarrow> [] | Some n \<Rightarrow> show_nat n), '' times.'']),
       (case pw_max_numeric_sequence policy of None \<Rightarrow> True
        | Some limit \<Rightarrow> \<not> has_numeric_run limit (lower plain),
        cat [''Password cannot contain a numeric sequence longer than '',
          (case pw_max_numeric_sequence policy of None \<Rightarrow> [] | Some n \<Rightarrow> show_nat n), '' digits.'']),
       (\<not> (pw_reject_identity_terms policy \<and>
           list_ex (\<lambda>t. 3 \<le> length t \<and> contains_str t (lower plain))
             (identity_terms username email display_name)),
        ''Password cannot contain username, email, or display-name terms.''),
       (case (old_password, pw_min_identity_distance policy) of
          (Some old, Some n) \<Rightarrow> old = [] \<or> n = 0 \<or> \<not> edit_distance plain old < n
        | _ \<Rightarrow> True,
        cat [''Password must differ from the previous password by at least '',
          (case pw_min_identity_distance policy of None \<Rightarrow> [] | Some n \<Rightarrow> show_nat n), '' edits.'']),
       (\<not> list_ex (verify_password e plain) history_hashes, ''Password was used recently.'')])"

section \<open>Generated passwords\<close>

definition ascii_lowercase :: string where "ascii_lowercase = ''abcdefghijklmnopqrstuvwxyz''"
definition ascii_uppercase :: string where "ascii_uppercase = ''ABCDEFGHIJKLMNOPQRSTUVWXYZ''"
definition password_symbols :: string where "password_symbols = ''-_.!@#%+''"

text \<open>\<open>secrets.choice\<close>: the draw with the given number at a value of the counter.\<close>

definition choice_of :: "Env \<Rightarrow> nat \<Rightarrow> nat \<Rightarrow> string \<Rightarrow> char" where
  "choice_of e t k s = s ! (draw e t k mod length s)"

definition required_draws :: "PasswordPolicy \<Rightarrow> string list" where
  "required_draws policy =
     (if pw_require_lowercase policy then [ascii_lowercase] else []) @
     (if pw_require_uppercase policy then [ascii_uppercase] else []) @
     (if pw_require_digit policy then [ascii_digits] else []) @
     (if pw_require_symbol policy then [password_symbols] else [])"

definition password_pools :: "PasswordPolicy \<Rightarrow> nat \<Rightarrow> string list" where
  "password_pools policy n =
    (let sets = required_draws policy in
     sets @ replicate (n - length sets)
       (ascii_lowercase @ ascii_uppercase @ ascii_digits @ password_symbols))"

definition generate_password :: "Env \<Rightarrow> nat option \<Rightarrow> nat \<Rightarrow> string + string" where
  "generate_password e length_wanted t =
    (let policy = fc_password_policy (file_config e);
         n = max (case length_wanted of None \<Rightarrow> 20 | Some l \<Rightarrow> if l = 0 then 20 else l)
               (pw_min_length policy) in
     if n > pw_max_length policy then Inl ''generated password length exceeds configured maximum''
     else
       (let pools = password_pools policy n in
        Inr (shuffle e t (map (\<lambda>k. choice_of e t k (pools ! k)) [0..<length pools]))))"

section \<open>Key fingerprints\<close>

definition ssh_public_key_fingerprint :: "Env \<Rightarrow> string option \<Rightarrow> string option" where
  "ssh_public_key_fingerprint e public_key =
    (case public_key of
       None \<Rightarrow> None
     | Some k \<Rightarrow>
        (case words k of
           algorithm # encoded # comment \<Rightarrow>
             map_option (\<lambda>digest. ''SHA256:'' @ rev (dropWhile (\<lambda>c. c = CHR ''='') (rev digest)))
               (b64_sha256 e encoded)
         | _ \<Rightarrow> None))"

section \<open>What an accepted password is\<close>

lemma starts_with_iff: "starts_with p s \<longleftrightarrow> (\<exists>t. s = p @ t)"
  unfolding starts_with_def by (metis append_take_drop_id append_eq_conv_conj)

lemma contains_str_iff: "contains_str p s \<longleftrightarrow> (\<exists>a b. s = a @ p @ b)"
proof (induction s)
  case (Cons x xs)
  have "(\<exists>a b. x # xs = a @ p @ b) \<longleftrightarrow> (\<exists>t. x # xs = p @ t) \<or> (\<exists>a b. xs = a @ p @ b)"
    by (metis append_Cons append_Nil neq_Nil_conv list.inject)
  then show ?case using Cons by (simp add: starts_with_iff)
qed auto

text \<open>What an accepted password is.  When \<open>validate_password\<close> reports nothing, the length is within
  the bounds of the policy, every required class of characters occurs, no character occurs
  more often in a row than allowed, no ascending or descending run of digits is longer than
  allowed, no identity term of at least three letters occurs in it, and it verifies
  against none of the recent hashes.\<close>

theorem accepted_password:
  assumes "validate_password e plain username email display_name old_password history_hashes = []"
    and "p = fc_password_policy (file_config e)"
  shows "pw_min_length p \<le> length plain \<and> length plain \<le> pw_max_length p \<and>
    (pw_require_lowercase p \<longrightarrow> (\<exists>c \<in> set plain. is_lower c)) \<and>
    (pw_require_uppercase p \<longrightarrow> (\<exists>c \<in> set plain. is_upper c)) \<and>
    (pw_require_digit p \<longrightarrow> (\<exists>c \<in> set plain. is_digit c)) \<and>
    (pw_require_symbol p \<longrightarrow> (\<exists>c \<in> set plain. \<not> is_alnum c)) \<and>
    (\<forall>n c a b. pw_max_repeated_characters p = Some n \<longrightarrow> plain \<noteq> a @ replicate (n + 1) c @ b) \<and>
    (\<forall>n i m a b. pw_max_numeric_sequence p = Some n \<and> n < m \<and> i + m \<le> 10 \<longrightarrow>
       lower plain \<noteq> a @ take m (drop i ''0123456789'') @ b \<and>
       lower plain \<noteq> a @ rev (take m (drop i ''0123456789'')) @ b) \<and>
    (\<forall>t a b. pw_reject_identity_terms p \<and> 3 \<le> length t \<and>
       t \<in> set (identity_terms username email display_name) \<longrightarrow> lower plain \<noteq> a @ t @ b) \<and>
    (\<forall>h \<in> set history_hashes. \<not> verify_password e plain h)"
proof -
  note ok = assms(1) [unfolded validate_password_def Let_def rules_Nil_iff assms(2) [symmetric], simplified]
  have rep: "plain \<noteq> a @ replicate (n + 1) c @ b" if "pw_max_repeated_characters p = Some n" for n c a b
  proof
    assume eq: "plain = a @ replicate (n + 1) c @ b"
    then have "c \<in> set plain" "contains_str (replicate (n + 1) c) plain"
      unfolding contains_str_iff by (auto simp: eq)
    then show False using ok that by (auto simp: list_ex_iff)
  qed
  have num: "\<not> contains_str (numeric_run i m) (lower plain) \<and> \<not> contains_str (rev (numeric_run i m)) (lower plain)"
    if "pw_max_numeric_sequence p = Some n" "n < m" "i + m \<le> 10" for n i m
    using ok that by (auto simp: has_numeric_run_def list_ex_iff)
  have iden: "\<not> contains_str t (lower plain)"
    if "pw_reject_identity_terms p" "3 \<le> length t" "t \<in> set (identity_terms username email display_name)" for t
    using ok that by (auto simp: list_ex_iff)
  have num': "lower plain \<noteq> a @ take m (drop i ''0123456789'') @ b \<and>
      lower plain \<noteq> a @ rev (take m (drop i ''0123456789'')) @ b"
    if "pw_max_numeric_sequence p = Some n \<and> n < m \<and> i + m \<le> 10" for n i m a b
    using num [of n m i] that unfolding contains_str_iff numeric_run_def ascii_digits_def by blast
  show ?thesis
  proof (intro conjI)
    show "\<forall>n i m a b. pw_max_numeric_sequence p = Some n \<and> n < m \<and> i + m \<le> 10 \<longrightarrow>
       lower plain \<noteq> a @ take m (drop i ''0123456789'') @ b \<and>
       lower plain \<noteq> a @ rev (take m (drop i ''0123456789'')) @ b" using num' by blast
    show "\<forall>t a b. pw_reject_identity_terms p \<and> 3 \<le> length t \<and>
       t \<in> set (identity_terms username email display_name) \<longrightarrow> lower plain \<noteq> a @ t @ b"
      using iden unfolding contains_str_iff by blast
  qed (use ok rep in \<open>auto simp: list_ex_iff not_less\<close>)
qed

definition sample_password :: string where "sample_password = ''Blue-Harbour-47''"

lemma sample_policy: "fc_password_policy (file_config sample_env) = default_password_policy"
  by (simp add: file_config_def sample_env_def sample_file_def)

lemma sample_password_checks:
  "list_ex is_lower sample_password" "list_ex is_upper sample_password"
  "list_ex is_digit sample_password" "list_ex (\<lambda>c. \<not> is_alnum c) sample_password"
  "\<not> list_ex (\<lambda>c. contains_str (replicate (3 + 1) c) sample_password) sample_password"
  "\<not> has_numeric_run 3 (lower sample_password)"
  "\<not> list_ex (\<lambda>t. 3 \<le> length t \<and> contains_str t (lower sample_password))
     (identity_terms ''ada'' ''ada@example.org'' ''Ada'')"
  "length sample_password = 15"
  by code_simp+

lemma sample_password_accepted:
  "validate_password sample_env sample_password ''ada'' ''ada@example.org'' ''Ada'' None [] = []"
  unfolding validate_password_def sample_policy Let_def rules_Nil_iff
  using sample_password_checks by (simp add: default_password_policy_def)

theorem accepted_password_witness:
  "validate_password sample_env sample_password ''ada'' ''ada@example.org'' ''Ada'' None [] = [] \<and>
   (\<exists>c \<in> set sample_password. is_digit c)"
  using accepted_password [OF sample_password_accepted refl] sample_password_accepted
  by (simp add: sample_policy default_password_policy_def)

section \<open>What a generated password is\<close>

lemma choice_of_mem: "s \<noteq> [] \<Longrightarrow> choice_of e t k s \<in> set s"
  by (simp add: choice_of_def)

lemma pool_chars:
  "c \<in> set ascii_lowercase \<Longrightarrow> is_lower c" "c \<in> set ascii_uppercase \<Longrightarrow> is_upper c"
  "c \<in> set ascii_digits \<Longrightarrow> is_digit c" "c \<in> set password_symbols \<Longrightarrow> \<not> is_alnum c"
proof -
  have "list_all is_lower ascii_lowercase" "list_all is_upper ascii_uppercase"
    "list_all is_digit ascii_digits" "list_all (\<lambda>c. \<not> is_alnum c) password_symbols"
    by code_simp+
  then show "c \<in> set ascii_lowercase \<Longrightarrow> is_lower c" "c \<in> set ascii_uppercase \<Longrightarrow> is_upper c"
    "c \<in> set ascii_digits \<Longrightarrow> is_digit c" "c \<in> set password_symbols \<Longrightarrow> \<not> is_alnum c"
    by (simp_all add: list_all_iff)
qed

lemma pools_nonempty: "ascii_lowercase \<noteq> []" "ascii_uppercase \<noteq> []" "ascii_digits \<noteq> []" "password_symbols \<noteq> []"
  by (simp_all add: ascii_lowercase_def ascii_uppercase_def ascii_digits_def password_symbols_def)

lemma required_draws_length: "length (required_draws p) \<le> 4"
  by (simp add: required_draws_def)

lemma generated_draw:
  assumes "generate_password e wanted t = Inr pw" "\<And>t s. mset (shuffle e t s) = mset s"
    and "pool \<in> set (required_draws (fc_password_policy (file_config e)))" "pool \<noteq> []"
  shows "\<exists>c \<in> set pw. c \<in> set pool"
proof -
  let ?sets = "required_draws (fc_password_policy (file_config e))"
  obtain pools n where pools: "pools = password_pools (fc_password_policy (file_config e)) n"
    "pw = shuffle e t (map (\<lambda>k. choice_of e t k (pools ! k)) [0..<length pools])"
    using assms(1) by (auto simp: generate_password_def Let_def split: if_splits)
  obtain k where k: "k < length ?sets" "?sets ! k = pool" using assms(3) by (auto simp: in_set_conv_nth)
  then have "k < length pools" "pools ! k = pool" by (simp_all add: pools(1) password_pools_def Let_def nth_append)
  then have "choice_of e t k pool \<in> set (map (\<lambda>k. choice_of e t k (pools ! k)) [0..<length pools])"
    by (auto intro!: image_eqI [where x = k])
  then have "choice_of e t k pool \<in> set pw"
    unfolding pools(2) using mset_eq_setD [OF assms(2)] by blast
  then show ?thesis using choice_of_mem [OF assms(4)] by blast
qed

lemma generated_length:
  assumes "generate_password e wanted t = Inr pw" "\<And>t s. mset (shuffle e t s) = mset s"
    and "8 \<le> pw_min_length (fc_password_policy (file_config e))"
  shows "pw_min_length (fc_password_policy (file_config e)) \<le> length pw \<and>
    length pw \<le> pw_max_length (fc_password_policy (file_config e))"
proof -
  let ?p = "fc_password_policy (file_config e)"
  let ?n = "max (case wanted of None \<Rightarrow> 20 | Some l \<Rightarrow> if l = 0 then 20 else l) (pw_min_length ?p)"
  have len: "length (shuffle e t s) = length s" for t s using mset_eq_length [OF assms(2)] .
  have "length (required_draws ?p) \<le> ?n" using required_draws_length [of ?p] assms(3) by linarith
  then have "length pw = ?n" "?n \<le> pw_max_length ?p"
    using assms(1) len
    by (auto simp: generate_password_def password_pools_def Let_def split: if_splits)
  then show ?thesis by simp
qed

text \<open>A generated password obeys the rules on length and characters.  When the generator returns a
  password under a policy whose minimum length is at least 8, the length is within the policy's bounds
  and every required class of characters occurs, whatever is drawn and however the
  characters are permuted; it fails exactly when the wanted length is above the maximum.\<close>

theorem generated_password:
  assumes "\<And>t s. mset (shuffle e t s) = mset s" "p = fc_password_policy (file_config e)"
    and "8 \<le> pw_min_length p"
  shows "case generate_password e wanted t of
      Inl _ \<Rightarrow> pw_max_length p < max (case wanted of None \<Rightarrow> 20 | Some l \<Rightarrow> if l = 0 then 20 else l) (pw_min_length p)
    | Inr pw \<Rightarrow> pw_min_length p \<le> length pw \<and> length pw \<le> pw_max_length p \<and>
        (pw_require_lowercase p \<longrightarrow> (\<exists>c \<in> set pw. is_lower c)) \<and>
        (pw_require_uppercase p \<longrightarrow> (\<exists>c \<in> set pw. is_upper c)) \<and>
        (pw_require_digit p \<longrightarrow> (\<exists>c \<in> set pw. is_digit c)) \<and>
        (pw_require_symbol p \<longrightarrow> (\<exists>c \<in> set pw. \<not> is_alnum c))"
proof (cases "generate_password e wanted t")
  case (Inl err)
  then show ?thesis by (auto simp: generate_password_def assms(2) Let_def split: if_splits)
next
  case (Inr pw)
  note draw = generated_draw [OF Inr assms(1)]
  have member: "pw_require_lowercase p \<Longrightarrow> ascii_lowercase \<in> set (required_draws p)"
    "pw_require_uppercase p \<Longrightarrow> ascii_uppercase \<in> set (required_draws p)"
    "pw_require_digit p \<Longrightarrow> ascii_digits \<in> set (required_draws p)"
    "pw_require_symbol p \<Longrightarrow> password_symbols \<in> set (required_draws p)"
    by (simp_all add: required_draws_def)
  have "pw_require_lowercase p \<longrightarrow> (\<exists>c \<in> set pw. is_lower c)"
    using draw [OF _ pools_nonempty(1)] member(1) pool_chars(1) assms(2) by blast
  moreover have "pw_require_uppercase p \<longrightarrow> (\<exists>c \<in> set pw. is_upper c)"
    using draw [OF _ pools_nonempty(2)] member(2) pool_chars(2) assms(2) by blast
  moreover have "pw_require_digit p \<longrightarrow> (\<exists>c \<in> set pw. is_digit c)"
    using draw [OF _ pools_nonempty(3)] member(3) pool_chars(3) assms(2) by blast
  moreover have "pw_require_symbol p \<longrightarrow> (\<exists>c \<in> set pw. \<not> is_alnum c)"
    using draw [OF _ pools_nonempty(4)] member(4) pool_chars(4) assms(2) by blast
  ultimately show ?thesis using generated_length [OF Inr assms(1)] assms(2,3) by (simp add: Inr)
qed

theorem generated_password_witness:
  "\<exists>pw. generate_password sample_env None 0 = Inr pw \<and> (\<exists>c \<in> set pw. is_digit c)"
proof -
  have "mset (shuffle sample_env t s) = mset s" for t s by (simp add: sample_env_def)
  from generated_password [OF this refl, of None 0] show ?thesis
    by (simp add: sample_policy default_password_policy_def split: sum.splits)
qed

end
