(* ===== verification/Mfa.thy ===== *)
theory Mfa
  imports Security
begin

text \<open>
  Multi-factor authentication of the operators, \<open>src/na_sso/mfa.py\<close>: the login step with a
  time-based code, a recovery code or a passkey, enrolment and revocation of factors, and the
  recovery codes.  HMAC-SHA-1 and the checks of the WebAuthn library are parameters; the truncation
  of the digest to a code is the code's.  The lemmas show that a factor is used once, and that
  enrolment does not ask for a factor.
\<close>

definition CHALLENGE_MAX_AGE :: time where "CHALLENGE_MAX_AGE = 300 * second"

definition RECOVERY_ALPHABET :: string where
  "RECOVERY_ALPHABET = ''23456789ABCDEFGHJKLMNPQRSTUVWXYZ''"

section \<open>The stored factors\<close>

definition new_mfa_row :: "Env \<Rightarrow> id \<Rightarrow> db \<Rightarrow> AdminMfa" where
  "new_mfa_row e uid d = \<lparr>am_id = next_id am_id (mfas d), am_user_id = uid, am_totp_secret = None,
     am_totp_last_counter = -1, am_recovery_code_hashes = JsonList [],
     am_emergency_code_used_hash = None, am_enrolled_at = now e\<rparr>"

definition ensure_mfa_row :: "Env \<Rightarrow> id \<Rightarrow> db \<Rightarrow> db" where
  "ensure_mfa_row e uid d =
     (if get_mfa uid d = None then d\<lparr>mfas := mfas d @ [new_mfa_row e uid d]\<rparr> else d)"

definition totp_of :: "id \<Rightarrow> db \<Rightarrow> string option" where
  "totp_of uid d = (case get_mfa uid d of None \<Rightarrow> None
     | Some row \<Rightarrow> if has_text (am_totp_secret row) then am_totp_secret row else None)"

definition hashes_in :: "json_text \<Rightarrow> string list" where
  "hashes_in j = (case j of JsonList hs \<Rightarrow> hs | NotAList \<Rightarrow> [])"

definition recovery_hashes :: "id \<Rightarrow> db \<Rightarrow> string list" where
  "recovery_hashes uid d = (case get_mfa uid d of None \<Rightarrow> []
     | Some row \<Rightarrow> hashes_in (am_recovery_code_hashes row))"

definition passkeys_of :: "id \<Rightarrow> db \<Rightarrow> WebAuthnCredential list" where
  "passkeys_of uid d = filter (\<lambda>c. wc_user_id c = uid) (passkeys d)"

section \<open>Time-based codes\<close>

definition four_bytes :: "8 word list \<Rightarrow> nat" where
  "four_bytes bs = foldl (\<lambda>acc b. acc * 256 + unat b) 0 (take 4 bs)"

definition truncated :: "8 word list \<Rightarrow> nat" where
  "truncated digest = four_bytes (drop (unat (last digest) mod 16) digest) mod 2 ^ 31 mod 1000000"

definition zero_padded :: "nat \<Rightarrow> nat \<Rightarrow> string" where
  "zero_padded width n = (let s = show_nat n in replicate (width - length s) (CHR ''0'') @ s)"

definition totp :: "Env \<Rightarrow> string \<Rightarrow> nat \<Rightarrow> string" where
  "totp e secret counter = zero_padded 6 (truncated (hmac_sha1 e secret counter))"

definition matching_totp_counter :: "Env \<Rightarrow> string \<Rightarrow> string \<Rightarrow> nat option" where
  "matching_totp_counter e secret code =
    (let t = nat (seconds_of (now e)); normalised = filter is_digit code in
     if length normalised \<noteq> 6 then None
     else find (\<lambda>c. totp e secret c = normalised)
       [(t - 30) div 30, t div 30, (t + 30) div 30])"

section \<open>Recovery codes\<close>

definition upper_char :: "char \<Rightarrow> char" where
  "upper_char c = (if is_lower c then char_of (of_char c - 32 :: nat) else c)"

definition normalised_code :: "string \<Rightarrow> string" where
  "normalised_code code = filter (\<lambda>c. c \<noteq> CHR ''-'' \<and> c \<noteq> CHR '' '') (map upper_char code)"

definition recovery_hash :: "Env \<Rightarrow> string \<Rightarrow> string" where
  "recovery_hash e code = hmac_sha256_hex e (s_secret_key (settings e)) (normalised_code code)"

definition emergency_hash :: "Env \<Rightarrow> string \<Rightarrow> string" where
  "emergency_hash e code = sha256_hex e (normalised_code code)"

definition new_recovery_codes :: "Env \<Rightarrow> nat \<Rightarrow> string list \<times> string list" where
  "new_recovery_codes e t =
    (let group = (\<lambda>i. map (\<lambda>k. choice_of e t (4 * i + k) RECOVERY_ALPHABET) [0..<4]);
         codes = map (\<lambda>i. join_with ''-'' [group (3 * i), group (3 * i + 1), group (3 * i + 2)]) [0..<10]
     in (codes, map (recovery_hash e) codes))"

definition consume_recovery ::
  "Env \<Rightarrow> ManagedUser \<Rightarrow> string \<Rightarrow> db \<Rightarrow> string option \<times> db" where
  "consume_recovery e account code d =
    (let uid = u_id account; candidate = recovery_hash e code in
     if candidate \<in> set (recovery_hashes uid d) then
       (Some ''recovery_code'', upd_mfa uid
          (\<lambda>row. row\<lparr>am_recovery_code_hashes := JsonList (remove1 candidate (hashes_in (am_recovery_code_hashes row)))\<rparr>) d)
     else if u_role account = ''root'' \<and> has_text (s_root_recovery_code (settings e)) then
       (let configured_hash = emergency_hash e (the (s_root_recovery_code (settings e))) in
        if emergency_hash e code = configured_hash \<and>
           Option.bind (get_mfa uid d) am_emergency_code_used_hash \<noteq> Some configured_hash
        then (Some ''root_emergency_code'', upd_mfa uid
               (\<lambda>row. row\<lparr>am_emergency_code_used_hash := Some configured_hash\<rparr>) (ensure_mfa_row e uid d))
        else (None, d))
     else (None, d))"

section \<open>The second step of a login\<close>

definition begin_mfa_login :: "Env \<Rightarrow> ManagedUser \<Rightarrow> Response" where
  "begin_mfa_login e account =
    WithPending \<lparr>pn_id = u_id account, pn_v = u_session_version account,
      pn_auth_at = seconds_of (now e), pn_issued_at = now e\<rparr> (Redirect ''/login/mfa'')"

definition pending_account :: "Env \<Rightarrow> Request \<Rightarrow> db \<Rightarrow> (ManagedUser \<times> PendingCookie) option" where
  "pending_account e req d =
    (case rq_pending req of
       None \<Rightarrow> None
     | Some ck \<Rightarrow>
        if now e - pn_issued_at ck > CHALLENGE_MAX_AGE then None
        else (case get_user (pn_id ck) d of
           None \<Rightarrow> None
         | Some account \<Rightarrow>
             if \<not> operator (u_role account) \<or> u_status account \<noteq> US_ACTIVE
                \<or> u_desired_action account = DA_DELETE \<or> u_session_version account \<noteq> pn_v ck
             then None else Some (account, ck)))"

definition PENDING_COOKIES :: "string list" where
  "PENDING_COOKIES = [''na-sso-mfa-pending'', ''na-sso-webauthn-challenge'']"

definition clear_cookies :: "string list \<Rightarrow> Response \<Rightarrow> Response" where
  "clear_cookies cs resp = fold ClearCookie cs resp"

definition finish_login :: "Env \<Rightarrow> ManagedUser \<Rightarrow> int \<Rightarrow> Response" where
  "finish_login e account authenticated_at =
    clear_cookies PENDING_COOKIES (set_session_cookie e account True (Some authenticated_at)
      (Redirect (default_home (u_role account))))"

definition finish_login_json :: "Env \<Rightarrow> ManagedUser \<Rightarrow> int \<Rightarrow> Response" where
  "finish_login_json e account authenticated_at =
    clear_cookies PENDING_COOKIES (set_session_cookie e account True (Some authenticated_at)
      (Json 200 (default_home (u_role account))))"

definition mfa_audit :: "Env \<Rightarrow> string \<Rightarrow> string \<Rightarrow> string \<Rightarrow> db \<Rightarrow> db" where
  "mfa_audit e username action detail d = record_audit e username action username detail None d"

definition mfa_method ::
  "Env \<Rightarrow> ManagedUser \<Rightarrow> string \<Rightarrow> db \<Rightarrow> string option \<times> db" where
  "mfa_method e account code d =
    (case Option.bind (totp_of (u_id account) d)
            (\<lambda>secret. matching_totp_counter e (decrypt_secret e secret) code) of
       Some counter \<Rightarrow>
         if int counter > (case get_mfa (u_id account) d of None \<Rightarrow> -1 | Some row \<Rightarrow> am_totp_last_counter row)
         then (Some ''totp'',
               upd_mfa (u_id account) (\<lambda>row. row\<lparr>am_totp_last_counter := int counter\<rparr>) d)
         else consume_recovery e account code d
     | None \<Rightarrow> consume_recovery e account code d)"

definition mfa_login_code :: "Env \<Rightarrow> Request \<Rightarrow> string \<Rightarrow> db \<Rightarrow> Response \<times> db" where
  "mfa_login_code e req code d =
    (case pending_account e req d of
       None \<Rightarrow> (Redirect ''/login'', d)
     | Some (account, ck) \<Rightarrow>
        (case mfa_method e account code d of
           (Some m, d1) \<Rightarrow>
             (finish_login e account (pn_auth_at ck),
              mfa_audit e (u_username account) ''mfa.login'' (cat [''method='', m]) d1)
         | (None, _) \<Rightarrow>
             (Page ''mfa_login.html'' 401 ''The authenticator or recovery code was not accepted.'', d)))"

text \<open>The passkey the browser names, and the challenge of its cookie; the library checks the
  signature against the stored key and count.\<close>

definition challenge_of :: "Env \<Rightarrow> Request \<Rightarrow> bool \<Rightarrow> ChallengeCookie option" where
  "challenge_of e req registration =
    (case rq_challenge req of
       None \<Rightarrow> None
     | Some ck \<Rightarrow> if cc_registration ck \<noteq> registration \<or> now e - cc_issued_at ck > CHALLENGE_MAX_AGE
                 then None else Some ck)"

definition find_passkey :: "id \<Rightarrow> string \<Rightarrow> db \<Rightarrow> WebAuthnCredential option" where
  "find_passkey uid credential_id d =
     (case filter (\<lambda>c. wc_user_id c = uid \<and> wc_credential_id c = credential_id) (passkeys d) of
        [c] \<Rightarrow> Some c | _ \<Rightarrow> None)"

definition upd_passkey :: "id \<Rightarrow> (WebAuthnCredential \<Rightarrow> WebAuthnCredential) \<Rightarrow> db \<Rightarrow> db" where
  "upd_passkey i f d = d\<lparr>passkeys := rows_upd wc_id i f (passkeys d)\<rparr>"

definition mfa_authentication_options :: "Env \<Rightarrow> Request \<Rightarrow> string \<Rightarrow> db \<Rightarrow> Response" where
  "mfa_authentication_options e req challenge d =
    (case pending_account e req d of
       None \<Rightarrow> Json 401 ''Login expired''
     | Some (account, ck) \<Rightarrow>
        if passkeys_of (u_id account) d = [] then Json 409 ''No passkey is enrolled''
        else WithChallenge \<lparr>cc_id = u_id account, cc_challenge = challenge, cc_registration = False,
               cc_issued_at = now e\<rparr> (Json 200 ''options''))"

definition mfa_authentication_verify :: "Env \<Rightarrow> Request \<Rightarrow> string \<Rightarrow> db \<Rightarrow> Response \<times> db" where
  "mfa_authentication_verify e req credential_id d =
    (let failed = (Json 401 ''Passkey verification failed'', d) in
     case pending_account e req d of
       None \<Rightarrow> (Json 401 ''Login expired'', d)
     | Some (account, ck) \<Rightarrow>
        (case (challenge_of e req False, find_passkey (u_id account) credential_id d) of
           (Some challenge, Some c) \<Rightarrow>
             (case verify_assertion e (tick d) (cc_challenge challenge) (wc_public_key c) (wc_sign_count c) of
                None \<Rightarrow> failed
              | Some new_count \<Rightarrow>
                  (finish_login_json e account (pn_auth_at ck),
                   mfa_audit e (u_username account) ''mfa.login''
                     (cat [''method=webauthn; credential='', show_nat (wc_id c)])
                     (upd_passkey (wc_id c) (\<lambda>c. c\<lparr>wc_sign_count := new_count,
                        wc_last_used_at := Some (now e)\<rparr>) d)))
         | _ \<Rightarrow> failed))"

section \<open>Changing the factors\<close>

definition fresh :: "Env \<Rightarrow> Principal \<Rightarrow> bool" where
  "fresh e account \<longleftrightarrow> seconds_of (now e) - pr_authenticated_at account
     \<le> int (mf_reauthentication_minutes (mfa_policy e)) * 60"

definition current_operator :: "Env \<Rightarrow> Request \<Rightarrow> db \<Rightarrow> Response + Principal" where
  "current_operator e req d =
    (case current_user e req d of
       None \<Rightarrow> Inl (Redirect ''/login'')
     | Some account \<Rightarrow> if \<not> operator (pr_role account) then Inl (Plain ''Forbidden'' 403) else Inr account)"

definition require_fresh :: "Env \<Rightarrow> Request \<Rightarrow> db \<Rightarrow> Response + Principal" where
  "require_fresh e req d =
    (case current_operator e req d of
       Inl resp \<Rightarrow> Inl resp
     | Inr account \<Rightarrow>
         if \<not> fresh e account then Inl (redirect_with_feedback ''/account/mfa'' ''Reauthentication required''
              ''Confirm your current password before changing MFA.'' ''danger'')
         else Inr account)"

definition session_again :: "Env \<Rightarrow> Principal \<Rightarrow> bool \<Rightarrow> int \<Rightarrow> Response \<Rightarrow> Response" where
  "session_again e account mfa_verified authenticated_at resp =
    WithSession \<lparr>ck_id = pr_id account, ck_v = pr_session_version account, ck_mfa = mfa_verified,
      ck_auth_at = (if authenticated_at = 0 then seconds_of (now e) else authenticated_at),
      ck_issued_at = now e\<rparr> resp"

definition mfa_reauthenticate :: "Env \<Rightarrow> Request \<Rightarrow> string \<Rightarrow> db \<Rightarrow> Response" where
  "mfa_reauthenticate e req password d =
    (case current_operator e req d of
       Inl resp \<Rightarrow> resp
     | Inr account \<Rightarrow>
        (case Option.bind (get_user (pr_id account) d) u_password_hash of
           None \<Rightarrow> Page ''mfa_account.html'' 401 ''Current password was not accepted.''
         | Some h \<Rightarrow>
             if h = [] \<or> \<not> verify_password e password h
             then Page ''mfa_account.html'' 401 ''Current password was not accepted.''
             else session_again e account (pr_mfa_verified account) (seconds_of (now e))
               (redirect_with_feedback ''/account/mfa'' ''Identity confirmed''
                  ''Sensitive MFA changes are unlocked for a short time.'' ''success'')))"

definition mfa_totp_start :: "Env \<Rightarrow> Request \<Rightarrow> db \<Rightarrow> Response" where
  "mfa_totp_start e req d =
    (case require_fresh e req d of
       Inl resp \<Rightarrow> resp
     | Inr account \<Rightarrow>
         if TOTP \<notin> set (mf_allowed_methods (mfa_policy e)) then Plain ''TOTP is disabled by policy'' 403
         else
           (let secret = token_b32 e (tick d) in
            WithTotpSetup \<lparr>ts_id = pr_id account, ts_secret = secret, ts_issued_at = now e\<rparr>
              (Shown ''mfa_totp_setup.html'' [secret])))"

text \<open>New recovery codes when the account has none, or when this is its first factor.\<close>

definition codes_for_enrolment :: "Env \<Rightarrow> id \<Rightarrow> bool \<Rightarrow> db \<Rightarrow> string list \<times> db" where
  "codes_for_enrolment e uid first_method d =
    (if first_method \<or> recovery_hashes uid d = [] then
       (let (codes, hashes) = new_recovery_codes e (tick d) in
        (codes, next_tick (upd_mfa uid (\<lambda>row. row\<lparr>am_recovery_code_hashes := JsonList hashes\<rparr>) d)))
     else ([], d))"

definition mfa_totp_confirm :: "Env \<Rightarrow> Request \<Rightarrow> string \<Rightarrow> db \<Rightarrow> Response \<times> db" where
  "mfa_totp_confirm e req code d =
    (let rejected = (redirect_with_feedback ''/account/mfa'' ''TOTP not enrolled''
           ''The setup expired or the authenticator code was invalid. Start again.'' ''danger'', d) in
     case require_fresh e req d of
       Inl resp \<Rightarrow> (resp, d)
     | Inr account \<Rightarrow>
        (case rq_totp_setup req of
           None \<Rightarrow> rejected
         | Some setup \<Rightarrow>
            if now e - ts_issued_at setup > CHALLENGE_MAX_AGE then rejected
            else
              (case matching_totp_counter e (ts_secret setup) code of
                 None \<Rightarrow> rejected
               | Some counter \<Rightarrow>
                   if ts_id setup \<noteq> pr_id account then rejected
                   else
                     (let uid = pr_id account;
                          d1 = ensure_mfa_row e uid d;
                          first_method = (totp_of uid d1 = None \<and> passkeys_of uid d1 = []);
                          d2 = upd_mfa uid (\<lambda>row. row\<lparr>am_totp_secret := Some (encrypt_secret e (ts_secret setup)),
                                 am_totp_last_counter := int counter\<rparr>) d1;
                          (codes, d3) = codes_for_enrolment e uid first_method d2
                      in (ClearCookie ''na-sso-totp-setup''
                            (session_again e account True (pr_authenticated_at account)
                              (Shown ''mfa_recovery_codes.html'' codes)),
                          mfa_audit e (pr_username account) ''mfa.totp.enrolled'' [] d3)))))"

definition mfa_registration_options :: "Env \<Rightarrow> Request \<Rightarrow> string \<Rightarrow> db \<Rightarrow> Response" where
  "mfa_registration_options e req challenge d =
    (case require_fresh e req d of
       Inl _ \<Rightarrow> Json 401 ''Reauthentication required''
     | Inr account \<Rightarrow>
         if WEBAUTHN \<notin> set (mf_allowed_methods (mfa_policy e)) then Json 403 ''Passkeys are disabled by policy''
         else WithChallenge \<lparr>cc_id = pr_id account, cc_challenge = challenge, cc_registration = True,
                cc_issued_at = now e\<rparr> (Json 200 ''options''))"

definition new_passkey :: "Env \<Rightarrow> id \<Rightarrow> string \<Rightarrow> string \<Rightarrow> string \<Rightarrow> nat \<Rightarrow> db \<Rightarrow> WebAuthnCredential" where
  "new_passkey e uid credential_id name key n_signs d =
    \<lparr>wc_id = next_id wc_id (passkeys d), wc_user_id = uid, wc_credential_id = credential_id,
     wc_name = name, wc_public_key = key, wc_sign_count = n_signs, wc_created_at = now e,
     wc_last_used_at = None\<rparr>"

definition mfa_registration_verify :: "Env \<Rightarrow> Request \<Rightarrow> string \<Rightarrow> db \<Rightarrow> Response \<times> db" where
  "mfa_registration_verify e req name d =
    (let failed = (Json 400 ''Passkey enrolment failed'', d) in
     case require_fresh e req d of
       Inl _ \<Rightarrow> (Json 401 ''Reauthentication required'', d)
     | Inr account \<Rightarrow>
        (case challenge_of e req True of
           None \<Rightarrow> failed
         | Some challenge \<Rightarrow>
            if cc_id challenge \<noteq> pr_id account then failed
            else
              (case verify_registration e (tick d) (cc_challenge challenge) of
                 None \<Rightarrow> failed
               | Some (credential_id, key, n_signs) \<Rightarrow>
                   if credential_id \<in> wc_credential_id ` set (passkeys d) then failed
                   else
                     (let uid = pr_id account;
                          stripped = take 80 (strip name);
                          shown_name = (if stripped = [] then ''Passkey'' else stripped);
                          first_method = \<not> account_has_mfa uid d;
                          d1 = ensure_mfa_row e uid (next_tick (d\<lparr>passkeys := passkeys d
                                 @ [new_passkey e uid credential_id shown_name key n_signs d]\<rparr>));
                          (codes, d2) = codes_for_enrolment e uid first_method d1
                      in (ClearCookie ''na-sso-webauthn-challenge''
                            (session_again e account True (pr_authenticated_at account)
                              (Shown ''recovery_codes'' codes)),
                          mfa_audit e (pr_username account) ''mfa.webauthn.enrolled''
                            (cat [''name='', shown_name]) d2)))))"

definition method_count :: "id \<Rightarrow> db \<Rightarrow> nat" where
  "method_count uid d = (if totp_of uid d = None then 0 else 1) + length (passkeys_of uid d)"

definition can_revoke :: "Env \<Rightarrow> id \<Rightarrow> db \<Rightarrow> bool" where
  "can_revoke e uid d \<longleftrightarrow> \<not> mf_required (mfa_policy e) \<or> method_count uid d > 1"

definition without_codes :: "id \<Rightarrow> db \<Rightarrow> db" where
  "without_codes uid d =
    (if method_count uid d = 0 then upd_mfa uid (\<lambda>row. row\<lparr>am_recovery_code_hashes := JsonList []\<rparr>) d else d)"

definition mfa_totp_revoke :: "Env \<Rightarrow> Request \<Rightarrow> db \<Rightarrow> Response \<times> db" where
  "mfa_totp_revoke e req d =
    (case require_fresh e req d of
       Inl resp \<Rightarrow> (resp, d)
     | Inr account \<Rightarrow>
        (let uid = pr_id account in
         if totp_of uid d = None then (Redirect ''/account/mfa'', d)
         else if \<not> can_revoke e uid d then
           (redirect_with_feedback ''/account/mfa'' ''TOTP retained''
              ''Enrol another method before removing the final required factor.'' ''danger'', d)
         else
           (redirect_with_feedback ''/account/mfa'' ''TOTP removed''
              ''The authenticator secret was revoked.'' ''success'',
            mfa_audit e (pr_username account) ''mfa.totp.revoked'' []
              (without_codes uid (upd_mfa uid (\<lambda>row. row\<lparr>am_totp_secret := None\<rparr>) d)))))"

definition mfa_passkey_revoke :: "Env \<Rightarrow> Request \<Rightarrow> id \<Rightarrow> db \<Rightarrow> Response \<times> db" where
  "mfa_passkey_revoke e req i d =
    (case require_fresh e req d of
       Inl resp \<Rightarrow> (resp, d)
     | Inr account \<Rightarrow>
        (let uid = pr_id account in
         case find (\<lambda>c. wc_id c = i) (passkeys_of uid d) of
           None \<Rightarrow> (Redirect ''/account/mfa'', d)
         | Some c \<Rightarrow>
             if \<not> can_revoke e uid d then
               (redirect_with_feedback ''/account/mfa'' ''Passkey retained''
                  ''Enrol another method before removing the final required factor.'' ''danger'', d)
             else
               (redirect_with_feedback ''/account/mfa'' ''Passkey removed''
                  (cat [wc_name c, '' was revoked.'']) ''success'',
                mfa_audit e (pr_username account) ''mfa.webauthn.revoked'' (cat [''name='', wc_name c])
                  (without_codes uid (d\<lparr>passkeys := rows_del wc_id i (passkeys d)\<rparr>)))))"

definition mfa_recovery_regenerate :: "Env \<Rightarrow> Request \<Rightarrow> db \<Rightarrow> Response \<times> db" where
  "mfa_recovery_regenerate e req d =
    (case require_fresh e req d of
       Inl resp \<Rightarrow> (resp, d)
     | Inr account \<Rightarrow>
        if \<not> pr_mfa_verified account \<or> \<not> account_has_mfa (pr_id account) d then
          (Plain ''Complete MFA before regenerating recovery codes'' 403, d)
        else
          (let uid = pr_id account;
               (codes, hashes) = new_recovery_codes e (tick d);
               d1 = upd_mfa uid (\<lambda>row. row\<lparr>am_recovery_code_hashes := JsonList hashes\<rparr>)
                      (ensure_mfa_row e uid (next_tick d))
           in (Shown ''mfa_recovery_codes.html'' codes,
               mfa_audit e (pr_username account) ''mfa.recovery.regenerated'' [] d1)))"

section \<open>Codes of six digits\<close>

lemma length_show_nat: "n < 10 ^ Suc k \<Longrightarrow> length (show_nat n) \<le> Suc k"
proof (induction k arbitrary: n)
  case 0
  then show ?case by (simp add: show_nat.simps [of n])
next
  case (Suc k)
  show ?case
  proof (cases "n < 10")
    case False
    have "n div 10 < 10 ^ Suc k" using Suc.prems by (simp add: div_less_iff_less_mult mult.commute)
    then have "length (show_nat (n div 10)) \<le> Suc k" by (rule Suc.IH)
    then show ?thesis using False by (simp add: show_nat.simps [of n])
  qed (simp add: show_nat.simps [of n])
qed

lemma parse_zeros: "parse_digits 0 (replicate k (CHR ''0'') @ s) = parse_digits 0 s"
  by (induction k) simp_all

lemma show_nat_digits: "c \<in> set (show_nat n) \<Longrightarrow> is_digit c"
proof (induction n rule: less_induct)
  case (less n)
  have d: "is_digit (digit_char m)" if "m < 10" for m
    using that by (simp add: is_digit_def in_range_def of_char_digit)
  show ?case
    using less.IH [of "n div 10"] less.prems d
    by (cases "n < 10") (auto simp: show_nat.simps [of n])
qed

text \<open>A time-based code is always six digits and denotes the truncated digest, whatever the digest
  is; so the comparison with the six digits of a typed code compares numbers below one
  million.\<close>

theorem totp_is_six_digits:
  "length (totp e secret c) = 6 \<and> list_all is_digit (totp e secret c) \<and>
   parse_digits 0 (totp e secret c) = Some (truncated (hmac_sha1 e secret c)) \<and>
   truncated (hmac_sha1 e secret c) < 1000000"
proof -
  let ?n = "truncated (hmac_sha1 e secret c)"
  have n: "?n < 1000000" by (simp add: truncated_def)
  then have "length (show_nat ?n) \<le> 6" using length_show_nat [of ?n 5] by simp
  moreover have "is_digit (CHR ''0'')" by (simp add: is_digit_def in_range_def)
  ultimately show ?thesis
    using n show_nat_digits
    by (auto simp: totp_def zero_padded_def Let_def parse_zeros parse_show_nat list_all_iff)
qed

section \<open>A factor is used once\<close>

lemma mfa_frame [simp]:
  "get_mfa uid (record_audit e a ac s det opid d) = get_mfa uid d"
  "passkeys (record_audit e a ac s det opid d) = passkeys d"
  "get_user uid (upd_mfa i f d) = get_user uid d" "passkeys (upd_mfa i f d) = passkeys d"
  "get_user uid (ensure_mfa_row e i d) = get_user uid d"
  "passkeys (ensure_mfa_row e i d) = passkeys d"
  "get_mfa uid (next_tick d) = get_mfa uid d" "passkeys (next_tick d) = passkeys d"
  by (simp_all add: get_mfa_def record_audit_def upd_mfa_def ensure_mfa_row_def get_user_def next_tick_def)

lemma get_mfa_ensure:
  "get_mfa j (ensure_mfa_row e i d) =
    (if j = i \<and> get_mfa i d = None then Some (new_mfa_row e i d) else get_mfa j d)"
  by (auto simp: ensure_mfa_row_def get_mfa_def rows_get_append rows_get_Cons new_mfa_row_def
      split: option.splits)

definition last_counter :: "id \<Rightarrow> db \<Rightarrow> int" where
  "last_counter uid d = (case get_mfa uid d of None \<Rightarrow> -1 | Some row \<Rightarrow> am_totp_last_counter row)"

lemma consume_recovery_frame:
  assumes "consume_recovery e u code d = (m, d')"
  shows "m \<noteq> Some ''totp''" "totp_of (u_id u) d' = totp_of (u_id u) d"
    "get_mfa (u_id u) d \<noteq> None \<Longrightarrow> last_counter (u_id u) d' = last_counter (u_id u) d"
  using assms
  by (auto simp: consume_recovery_def Let_def totp_of_def last_counter_def mfa_table.get_upd
      get_mfa_ensure new_mfa_row_def split: if_splits option.splits)

lemma consume_recovery_once:
  assumes "consume_recovery e u code d = (Some m, d')" "distinct (recovery_hashes (u_id u) d)"
  shows "fst (consume_recovery e u code d') \<noteq> Some m"
proof (cases "recovery_hash e code \<in> set (recovery_hashes (u_id u) d)")
  case True
  then have "m = ''recovery_code''" "recovery_hashes (u_id u) d' = remove1 (recovery_hash e code) (recovery_hashes (u_id u) d)"
    using assms(1) by (auto simp: consume_recovery_def Let_def recovery_hashes_def hashes_in_def
        mfa_table.get_upd split: option.splits)
  then have "recovery_hash e code \<notin> set (recovery_hashes (u_id u) d')" using assms(2) by simp
  then show ?thesis using \<open>m = _\<close> by (simp add: consume_recovery_def Let_def)
next
  case False
  let ?h = "emergency_hash e (the (s_root_recovery_code (settings e)))"
  have m: "m = ''root_emergency_code''"
    "d' = upd_mfa (u_id u) (\<lambda>row. row\<lparr>am_emergency_code_used_hash := Some ?h\<rparr>) (ensure_mfa_row e (u_id u) d)"
    using assms(1) False by (auto simp: consume_recovery_def Let_def split: if_splits)
  have "Option.bind (get_mfa (u_id u) d') am_emergency_code_used_hash = Some ?h"
    by (auto simp: m(2) mfa_table.get_upd get_mfa_ensure)
  then show ?thesis using m(1) by (simp add: consume_recovery_def Let_def)
qed


definition mfa_operator :: ManagedUser where
  "mfa_operator = sample_user\<lparr>u_role := ''user_operator''\<rparr>"

definition mfa_row :: AdminMfa where
  "mfa_row = \<lparr>am_id = 1, am_user_id = 1, am_totp_secret = Some ''secret'', am_totp_last_counter = -1,
     am_recovery_code_hashes = JsonList [], am_emergency_code_used_hash = None, am_enrolled_at = 0\<rparr>"

definition mfa_db :: db where
  "mfa_db = sample_db\<lparr>users := [mfa_operator], mfas := [mfa_row]\<rparr>"

text \<open>An environment in which the code of every counter is zero.\<close>

definition zero_env :: Env where
  "zero_env = sample_env\<lparr>hmac_sha1 := (\<lambda>_ _. replicate 20 0)\<rparr>"

lemma zero_totp: "totp zero_env secret c = ''000000''"
proof -
  have "foldl (\<lambda>acc b. acc * 256 + unat b) 0 (replicate n (0 :: 8 word)) = 0" for n
    by (induction n) simp_all
  then have "truncated (replicate 20 0) = 0" by (simp add: truncated_def four_bytes_def)
  moreover have "zero_padded 6 0 = ''000000''" by code_simp
  ultimately have "zero_padded 6 (truncated (replicate 20 0)) = ''000000''" by simp
  then show ?thesis by (simp add: totp_def zero_env_def)
qed

lemma zero_env_code: "matching_totp_counter zero_env secret ''000000'' = Some 2879999"
  by (simp add: matching_totp_counter_def zero_totp is_digit_def in_range_def)
    (simp add: zero_env_def sample_env_def seconds_of_def second_def day_def)

lemma mfa_db_row: "get_mfa (u_id mfa_operator) mfa_db = Some mfa_row"
  by (simp add: get_mfa_def mfa_db_def rows_get_def mfa_row_def mfa_operator_def sample_user_def)


section \<open>Enrolment does not ask for a factor\<close>

lemma current_user_other_cookies:
  "rq_session req = rq_session req' \<Longrightarrow> current_user e req d = current_user e req' d"
  by (simp add: current_user_def)

text \<open>Enrolling a factor does not ask for one.  An operator's session that has not passed MFA can confirm
  a new time-based code, also when the account has a factor already and when MFA is required
  by policy: the new secret replaces the old one and the session cookie of the answer counts
  as having passed MFA, so it opens every page its role allows.  A password that is enough to get
  such a session is then enough to take over the second factor.\<close>

theorem enrolment_skips_mfa:
  assumes "current_user e req d = Some pr" "operator (pr_role pr)" "fresh e pr" "has_permission (pr_role pr) p"
    and "rq_totp_setup req = Some s" "ts_id s = pr_id pr" "now e - ts_issued_at s \<le> CHALLENGE_MAX_AGE"
    and "matching_totp_counter e (ts_secret s) code \<noteq> None"
    and "mfa_totp_confirm e req code d = (resp, d')"
  shows "\<exists>ck page. resp = ClearCookie ''na-sso-totp-setup'' (WithSession ck page) \<and> ck_mfa ck \<and>
    map_option am_totp_secret (get_mfa (pr_id pr) d') = Some (Some (encrypt_secret e (ts_secret s))) \<and>
    (\<exists>pr'. permission_guard e (req\<lparr>rq_session := Some ck\<rparr>) p d' = Inr pr' \<and> pr_id pr' = pr_id pr)"
proof -
  obtain ck0 u where u: "get_user (ck_id ck0) d = Some u" "u_status u = US_ACTIVE" "u_desired_action u \<noteq> DA_DELETE"
    "u_session_version u = ck_v ck0" "pr = principal_of u ck0"
    using current_user_SomeD [OF assms(1)] by blast
  have guard: "require_fresh e req d = Inr pr"
    using assms(1-3) by (simp add: require_fresh_def current_operator_def)
  obtain counter where counter: "matching_totp_counter e (ts_secret s) code = Some counter"
    using assms(8) by blast
  define ck where "ck = \<lparr>ck_id = pr_id pr, ck_v = pr_session_version pr, ck_mfa = True,
    ck_auth_at = (if pr_authenticated_at pr = 0 then seconds_of (now e) else pr_authenticated_at pr),
    ck_issued_at = now e\<rparr>"
  define d1 where "d1 = ensure_mfa_row e (pr_id pr) d"
  define d2 where "d2 = upd_mfa (pr_id pr) (\<lambda>row. row\<lparr>am_totp_secret := Some (encrypt_secret e (ts_secret s)),
    am_totp_last_counter := int counter\<rparr>) d1"
  obtain first codes d3 where d3: "codes_for_enrolment e (pr_id pr) first d2 = (codes, d3)"
    "resp = ClearCookie ''na-sso-totp-setup'' (WithSession ck (Shown ''mfa_recovery_codes.html'' codes))"
    "d' = mfa_audit e (pr_username pr) ''mfa.totp.enrolled'' [] d3"
    using assms(5-7,9) unfolding mfa_totp_confirm_def guard
    by (simp add: Let_def counter session_again_def ck_def d1_def d2_def split: prod.splits)
  have "get_mfa (pr_id pr) d1 \<noteq> None" by (simp add: d1_def get_mfa_ensure)
  then have "map_option am_totp_secret (get_mfa (pr_id pr) d2) = Some (Some (encrypt_secret e (ts_secret s)))"
    by (auto simp: d2_def mfa_table.get_upd)
  then have secret: "map_option am_totp_secret (get_mfa (pr_id pr) d') = Some (Some (encrypt_secret e (ts_secret s)))"
    using d3(1) by (auto simp: d3(3) mfa_audit_def codes_for_enrolment_def Let_def mfa_table.get_upd
        split: if_splits prod.splits)
  have "get_user i d' = get_user i d" for i
    using d3(1) by (auto simp: d3(3) mfa_audit_def d2_def d1_def codes_for_enrolment_def get_user_def
        record_audit_def upd_mfa_def next_tick_def ensure_mfa_row_def split: if_splits prod.splits)
  moreover have "ck_id ck0 = u_id u" using u(1) by (metis user_table.get_key)
  ultimately have "current_user e (req\<lparr>rq_session := Some ck\<rparr>) d' = Some (principal_of u ck)"
    using u by (simp add: current_user_def ck_def principal_of_def MAX_AGE_def second_def)
  then have "permission_guard e (req\<lparr>rq_session := Some ck\<rparr>) p d' = Inr (principal_of u ck)"
    using assms(4) u(5) by (simp add: permission_guard_def principal_of_def ck_def)
  moreover have "pr_id (principal_of u ck) = pr_id pr" by (simp add: principal_of_def u(5))
  ultimately show ?thesis using d3(2) secret by (auto simp: ck_def)
qed

definition setup_session :: SessionCookie where
  "setup_session = \<lparr>ck_id = 1, ck_v = 1, ck_mfa = False, ck_auth_at = 1000 * 86400,
     ck_issued_at = 1000 * day\<rparr>"

definition setup_cookie :: TotpSetupCookie where
  "setup_cookie = \<lparr>ts_id = 1, ts_secret = ''other'', ts_issued_at = 1000 * day\<rparr>"

definition setup_request :: Request where
  "setup_request = (sample_request False)\<lparr>rq_session := Some setup_session,
     rq_totp_setup := Some setup_cookie\<rparr>"

definition strict_env :: Env where
  "strict_env = zero_env\<lparr>settings := (settings zero_env)\<lparr>s_file := sample_file\<lparr>fc_admin_mfa_policy :=
     (fc_admin_mfa_policy sample_file)\<lparr>mf_required := True\<rparr>\<rparr>\<rparr>\<rparr>"

theorem enrolment_skips_mfa_witness:
  "mf_required (mfa_policy strict_env) \<and> account_has_mfa 1 mfa_db \<and>
   (\<exists>ck page d'. mfa_totp_confirm strict_env setup_request ''000000'' mfa_db =
       (ClearCookie ''na-sso-totp-setup'' (WithSession ck page), d') \<and> ck_mfa ck)"
proof -
  let ?pr = "principal_of mfa_operator setup_session"
  have user: "get_user (ck_id setup_session) mfa_db = Some mfa_operator"
    by (simp add: get_user_def rows_get_def mfa_db_def mfa_operator_def sample_user_def setup_session_def)
  have now: "now strict_env = 1000 * day" by (simp add: strict_env_def zero_env_def sample_env_def)
  have pr: "current_user strict_env setup_request mfa_db = Some ?pr"
    by (simp add: current_user_def setup_request_def user now)
      (simp add: setup_session_def mfa_operator_def sample_user_def MAX_AGE_def second_def)
  have role: "pr_role ?pr = ''user_operator''"
    by (simp add: principal_of_def mfa_operator_def sample_user_def)
  have "operator (pr_role ?pr)" "has_permission (pr_role ?pr) MANAGE_USERS"
    by (simp_all add: role operator_def permission_context_def has_permission_iff)
  moreover have "fresh strict_env ?pr"
    by (simp add: fresh_def now seconds_of_def second_def day_def principal_of_def setup_session_def)
  moreover have "matching_totp_counter strict_env ''other'' ''000000'' = matching_totp_counter zero_env ''other'' ''000000''"
    by (simp add: matching_totp_counter_def totp_def strict_env_def)
  then have "matching_totp_counter strict_env ''other'' ''000000'' \<noteq> None" by (simp add: zero_env_code)
  moreover obtain resp d' where r: "mfa_totp_confirm strict_env setup_request ''000000'' mfa_db = (resp, d')"
    by fastforce
  ultimately have "\<exists>ck page. resp = ClearCookie ''na-sso-totp-setup'' (WithSession ck page) \<and> ck_mfa ck"
    using enrolment_skips_mfa [OF pr, where s = setup_cookie]
    by (fastforce simp: setup_request_def setup_cookie_def now CHALLENGE_MAX_AGE_def second_def
        principal_of_def mfa_operator_def sample_user_def)
  moreover have "account_has_mfa 1 mfa_db"
    using mfa_db_row by (simp add: account_has_mfa_def mfa_operator_def sample_user_def mfa_row_def has_text_def)
  moreover have "mf_required (mfa_policy strict_env)"
    by (simp add: mfa_policy_def file_config_def strict_env_def)
  ultimately show ?thesis using r by blast
qed

section \<open>A required factor remains\<close>

lemma totp_of_without_codes [simp]:
  "totp_of i (without_codes j d) = totp_of i d" "passkeys (without_codes j d) = passkeys d"
  by (auto simp: without_codes_def totp_of_def mfa_table.get_upd split: option.splits)

lemma totp_of_audit [simp]: "totp_of uid (mfa_audit e n a det d) = totp_of uid d"
  "passkeys (mfa_audit e n a det d) = passkeys d"
  by (simp_all add: totp_of_def mfa_audit_def)

lemma method_count_frame [simp]:
  "method_count i (mfa_audit e n a det (without_codes j d)) = method_count i d"
  by (simp add: method_count_def passkeys_of_def)

lemma length_filter_key:
  "distinct (map key xs) \<Longrightarrow> x \<in> set xs \<Longrightarrow> length (filter (\<lambda>y. key y = key x) xs) = 1"
proof (induction xs)
  case (Cons y ys)
  then show ?case
    by (cases "key y = key x") (auto simp: filter_empty_conv, metis imageI)
qed simp

lemma passkeys_of_del:
  assumes "distinct (map wc_id (passkeys d))" "find (\<lambda>c. wc_id c = i) (passkeys_of uid d) = Some c"
  shows "length (passkeys_of uid (d\<lparr>passkeys := rows_del wc_id i (passkeys d)\<rparr>)) + 1 = length (passkeys_of uid d)"
proof -
  have "distinct (map wc_id (passkeys_of uid d))"
    using assms(1) by (simp add: passkeys_of_def distinct_map_filter)
  moreover have "c \<in> set (passkeys_of uid d)" "wc_id c = i"
    using assms(2) by (auto simp: find_Some_iff)
  ultimately have "length (filter (\<lambda>c. wc_id c = i) (passkeys_of uid d)) = 1"
    using length_filter_key [of wc_id "passkeys_of uid d" c] by simp
  then show ?thesis
    using sum_length_filter_compl [of "\<lambda>c. wc_id c = i" "passkeys_of uid d"]
    by (simp add: passkeys_of_def rows_del_def conj_commute)
qed

text \<open>A required factor remains.  When MFA is required by policy, neither of the two handlers that revoke a
  factor takes an account with a factor to one without, whatever the request.\<close>

theorem required_factor_remains:
  assumes "mf_required (mfa_policy e)" "distinct (map wc_id (passkeys d))" "0 < method_count uid d"
  shows "0 < method_count uid (snd (mfa_totp_revoke e req d)) \<and>
    0 < method_count uid (snd (mfa_passkey_revoke e req i d))"
proof
  show "0 < method_count uid (snd (mfa_totp_revoke e req d))"
  proof (cases "require_fresh e req d")
    case (Inr pr)
    let ?d = "upd_mfa (pr_id pr) (\<lambda>row. row\<lparr>am_totp_secret := None\<rparr>) d"
    have keys: "passkeys_of uid ?d = passkeys_of uid d" by (simp add: passkeys_of_def)
    have totp: "totp_of uid ?d = (if uid = pr_id pr then None else totp_of uid d)"
      by (auto simp: totp_of_def mfa_table.get_upd has_text_def split: option.splits)
    have "0 < method_count uid ?d" if "can_revoke e (pr_id pr) d" "totp_of (pr_id pr) d \<noteq> None"
      using that assms(1,3) keys totp by (auto simp: can_revoke_def method_count_def split: if_splits)
    then show ?thesis
      using assms(3) Inr by (simp add: mfa_totp_revoke_def Let_def)
  qed (use assms(3) in \<open>simp add: mfa_totp_revoke_def\<close>)
  show "0 < method_count uid (snd (mfa_passkey_revoke e req i d))"
  proof (cases "require_fresh e req d")
    case (Inr pr)
    let ?d = "d\<lparr>passkeys := rows_del wc_id i (passkeys d)\<rparr>"
    have totp: "totp_of uid ?d = totp_of uid d" by (simp add: totp_of_def get_mfa_def)
    have "0 < method_count uid ?d"
      if found: "find (\<lambda>c. wc_id c = i) (passkeys_of (pr_id pr) d) = Some c" and "can_revoke e (pr_id pr) d" for c
    proof (cases "uid = pr_id pr")
      case True
      then show ?thesis
        using passkeys_of_del [OF assms(2) found] that(2) assms(1) totp
        by (auto simp: method_count_def can_revoke_def split: if_splits)
    next
      case False
      have "wc_user_id c = pr_id pr" "c \<in> set (passkeys d)" "wc_id c = i"
        using found by (auto simp: find_Some_iff passkeys_of_def dest!: nth_mem)
      then have "wc_user_id x = pr_id pr" if "x \<in> set (passkeys d)" "wc_id x = i" for x
        using assms(2) that by (metis distinct_map inj_onD)
      then have "passkeys_of uid ?d = passkeys_of uid d"
        using False by (auto simp: passkeys_of_def rows_del_def intro!: filter_cong)
      then show ?thesis using assms(3) totp by (simp add: method_count_def)
    qed
    then show ?thesis
      using assms(3) Inr
      by (auto simp: mfa_passkey_revoke_def Let_def split: option.splits)
  qed (use assms(3) in \<open>simp add: mfa_passkey_revoke_def\<close>)
qed

theorem required_factor_remains_witness:
  "0 < method_count 1 (snd (mfa_totp_revoke strict_env setup_request mfa_db))"
proof -
  have "0 < method_count 1 mfa_db"
    using mfa_db_row by (simp add: method_count_def totp_of_def mfa_operator_def sample_user_def mfa_row_def has_text_def)
  moreover have "mf_required (mfa_policy strict_env)"
    by (simp add: mfa_policy_def file_config_def strict_env_def)
  moreover have "distinct (map wc_id (passkeys mfa_db))"
    by (simp add: mfa_db_def sample_db_def empty_db_def)
  ultimately show ?thesis using required_factor_remains by blast
qed

end
