(* ===== verification/Auth.thy ===== *)
theory Auth
  imports Mfa Sync
begin

text \<open>
  Signing in and passwords, \<open>src/na_sso/auth.py\<close>: login and logout, the account page, and the
  forms that keep or change a password.  A handler that starts a run of the targets awaits it, so its
  result includes the database the run leaves.  The lemmas show what a run keeps of the
  account, what a session needs, and when an expired password can be kept.
\<close>

section \<open>What a run keeps of an account\<close>

text \<open>A run of the targets changes three fields of the account: the active operation, the instant of
  the deletion and the secret waiting for the targets.\<close>

definition account_kept :: "ManagedUser \<Rightarrow> ManagedUser \<Rightarrow> bool" where
  "account_kept u v \<longleftrightarrow> (\<exists>a x s. v = u\<lparr>u_active_operation_id := a, u_deleted_at := x, u_pending_secret := s\<rparr>)"

definition accounts_kept :: "db \<Rightarrow> db \<Rightarrow> bool" where
  "accounts_kept d d' \<longleftrightarrow>
     (\<forall>i u. get_user i d = Some u \<longrightarrow> (\<exists>v. get_user i d' = Some v \<and> account_kept u v))"

lemma account_kept_refl [simp]: "account_kept u u"
  unfolding account_kept_def by (intro exI [of _ "u_active_operation_id u"] exI [of _ "u_deleted_at u"]
      exI [of _ "u_pending_secret u"]) simp

lemma account_kept_trans: "account_kept u v \<Longrightarrow> account_kept v w \<Longrightarrow> account_kept u w"
  by (fastforce simp: account_kept_def)

lemma account_keptI:
  "account_kept u (u\<lparr>u_active_operation_id := a, u_deleted_at := x, u_pending_secret := s\<rparr>)"
  "account_kept u (u\<lparr>u_active_operation_id := a\<rparr>)" "account_kept u (u\<lparr>u_pending_secret := s\<rparr>)"
  "account_kept u (u\<lparr>u_deleted_at := x\<rparr>)"
  unfolding account_kept_def by (cases u, auto)+

lemma account_kept_fields:
  assumes "account_kept u v"
  shows "u_id v = u_id u" "u_username v = u_username u" "u_role v = u_role u" "u_status v = u_status u"
    "u_password_hash v = u_password_hash u" "u_session_version v = u_session_version u"
    "u_desired_action v = u_desired_action u" "u_email v = u_email u" "u_display_name v = u_display_name u"
    "u_password_decision_required v = u_password_decision_required u"
    "u_password_decision_kind v = u_password_decision_kind u" "u_password_keep_until v = u_password_keep_until u"
    "u_password_keep_count v = u_password_keep_count u" "u_password_changed_at v = u_password_changed_at u"
  using assms by (auto simp: account_kept_def)

lemma accounts_keptD:
  assumes "accounts_kept d d'" "get_user i d = Some u"
  obtains v where "get_user i d' = Some v" "account_kept u v"
  using assms unfolding accounts_kept_def by blast

lemma accounts_kept_trans: "accounts_kept a b \<Longrightarrow> accounts_kept b c \<Longrightarrow> accounts_kept a c"
  unfolding accounts_kept_def by (meson account_kept_trans)

lemma accounts_kept_users: "users d' = users d \<Longrightarrow> accounts_kept d d'"
  by (simp add: accounts_kept_def get_user_def)

lemma accounts_kept_refl [simp]: "accounts_kept d d"
  by (rule accounts_kept_users) (rule refl)

lemma accounts_kept_upd:
  assumes "\<And>u. account_kept u (f u)"
  shows "accounts_kept d (upd_user i f d)"
proof -
  have "u_id (f u) = u_id u" for u using account_kept_fields(1) [OF assms] .
  then show ?thesis using assms by (auto simp: accounts_kept_def user_table.get_upd)
qed

lemma accounts_kept_steps:
  "accounts_kept d d' \<Longrightarrow> (\<And>u. account_kept u (f u)) \<Longrightarrow> accounts_kept d (upd_user i f d')"
  "accounts_kept d d' \<Longrightarrow> users d'' = users d' \<Longrightarrow> accounts_kept d d''"
  using accounts_kept_trans accounts_kept_upd accounts_kept_users by blast+

lemma accounts_kept_settle: "accounts_kept d (settle e uid desired av i d)"
proof -
  have oper: "accounts_kept d (upd_operation i f d')" if "accounts_kept d d'" for f d'
    using that by (rule accounts_kept_steps(2)) simp
  have fin: "accounts_kept d (finish_with e uid i st m n det d')" if "accounts_kept d d'" for st m n det d'
    unfolding finish_with_def
    by (rule accounts_kept_steps(1) [OF oper [OF that]]) (simp add: account_keptI)
  show ?thesis
    unfolding settle_def Let_def
    by (auto intro!: fin oper accounts_kept_steps(1) account_keptI)
qed

lemma accounts_kept_only:
  assumes "\<And>j. j \<noteq> uid \<Longrightarrow> get_user j d' = get_user j d"
    and "\<And>u. get_user uid d = Some u \<Longrightarrow> \<exists>a. get_user uid d' = Some (u\<lparr>u_active_operation_id := a\<rparr>)"
  shows "accounts_kept d d'"
  unfolding accounts_kept_def
proof (intro allI impI)
  fix i u assume u: "get_user i d = Some u"
  show "\<exists>v. get_user i d' = Some v \<and> account_kept u v"
    using assms(1) [of i] assms(2) [of u] u account_keptI(2) by (cases "i = uid") fastforce+
qed

text \<open>So a run, also one that raises, keeps every account.\<close>

lemma accounts_kept_run:
  assumes ok: "states_ok d" and d0: "accounts_kept d0 d"
  shows "accounts_kept d0 (outcome_db (run_operation e u desired t a av ins i d0 d))"
proof (cases "begin_run e (u_id u) desired t av i d")
  case (Inr d1)
  have 1: "accounts_kept d0 d1"
    using accounts_kept_trans [OF d0 accounts_kept_only] begin_run_Inr(2,3) [OF ok Inr] by blast
  have 2: "accounts_kept d0 (outcome_db (sync_targets e y cs d1))" if "u_id (y_user y) = u_id u" for y cs
    using accounts_kept_steps(2) [OF 1] sync_targets_step [OF begin_run_states_ok [OF ok Inr], of y]
    by (simp add: target_step_def)
  define y where "y = \<lparr>y_user = u, y_operation = i, y_actor = a, y_desired = desired,
               y_password = (if has_text (u_pending_secret u)
                             then map_option (decrypt_secret e) (u_pending_secret u) else None),
               y_intents = ins\<rparr>"
  define cs where "cs = List.map_filter (\<lambda>s. connector_for (ss_target s) av)
    (filter (has_connector av) (filter (in_scope desired t av) (user_states (u_id u) d)))"
  have run: "run_operation e u desired t a av ins i d0 d = (case sync_targets e y cs d1 of
      Raised err d2 \<Rightarrow> Raised err d2
    | Done _ d2 \<Rightarrow> Done (Some i) (announce e i (settle e (u_id u) desired av i d2)))"
    by (simp add: run_operation_def Inr y_def cs_def)
  have "accounts_kept d0 d2" if "sync_targets e y cs d1 = Done r d2 \<or> sync_targets e y cs d1 = Raised err d2" for r err d2
    using 2 [of y cs] that by (auto simp: y_def)
  moreover have "accounts_kept d0 (announce e i d2)" if "accounts_kept d0 d2" for d2
    using that by (rule accounts_kept_steps(2)) simp
  ultimately show ?thesis
    unfolding run using accounts_kept_trans accounts_kept_settle by (fastforce split: outcome.splits)
qed (simp add: run_operation_def)

lemma accounts_kept_sync_user:
  assumes ok: "states_ok d"
  shows "accounts_kept d (outcome_db (sync_user e uid act t a oi d))"
proof (cases "get_user uid d")
  case (Some u)
  let ?desired = "case act of None \<Rightarrow> u_desired_action u | Some a \<Rightarrow> a"
  let ?d1 = "create_missing_states e uid (get_connectors e d) d"
  note c = create_missing_states_frame [OF ok]
  obtain ch d2 where ch: "choose_operation e uid ?desired t a oi ?d1 = (ch, d2)" by (rule prod.exhaust)
  have only: "only_active uid ?d1 d2"
    using only_active_choose [of uid ?d1 e ?desired t a oi] ch by simp
  have "states_ok d2" using only c(1) by (simp add: only_active_def states_ok_def)
  moreover have "accounts_kept d d2"
    using accounts_kept_trans [OF accounts_kept_users accounts_kept_only [of uid d2 ?d1]] c(2) only
    unfolding only_active_def by blast
  ultimately show ?thesis
    using Some ch by (auto simp: sync_user_def Let_def intro: accounts_kept_run split: choice.splits)
qed (simp add: sync_user_def)

lemma accounts_kept_handoff:
  assumes ok: "states_ok d"
  shows "accounts_kept d (outcome_db (credential_handoff e uid password d))"
proof -
  let ?f = "\<lambda>s. s\<lparr>ss_state := PENDING, ss_detail := ''credential supplied after verified authentication''\<rparr>"
  have fold: "states_ok (fold (\<lambda>s. upd_state (ss_id s) ?f) ss d') \<and>
        users (fold (\<lambda>s. upd_state (ss_id s) ?f) ss d') = users d'" if "states_ok d'" for ss d'
    using that by (induction ss arbitrary: d') (simp_all add: states_ok_def upd_state_def map_key_upd)
  have "states_ok (upd_user uid g d)" for g using ok by (simp add: states_ok_def)
  note D = fold [OF this]
  have "accounts_kept d (outcome_db (sync_user e uid None None ''verified-login'' None
      (fold (\<lambda>s. upd_state (ss_id s) ?f) ss (upd_user uid (\<lambda>u. u\<lparr>u_pending_secret := x\<rparr>) d))))"
    (is "accounts_kept d (outcome_db (sync_user _ _ _ _ _ _ ?D))") for ss x
  proof (rule accounts_kept_trans)
    show "accounts_kept d ?D"
      using accounts_kept_trans [OF accounts_kept_upd accounts_kept_users] D account_keptI(3) by blast
    show "accounts_kept ?D (outcome_db (sync_user e uid None None ''verified-login'' None ?D))"
      using D by (intro accounts_kept_sync_user) blast
  qed
  moreover have "outcome_db (case r of Done _ d3 \<Rightarrow> Done () d3 | Raised err d3 \<Rightarrow> Raised err d3) = outcome_db r"
    for r :: "uuid option outcome" by (cases r) simp_all
  ultimately show ?thesis by (auto simp: credential_handoff_def Let_def split: option.splits)
qed

section \<open>Signing in\<close>

definition sign_in_failed :: Response where
  "sign_in_failed = Page ''login.html'' 401 ''Invalid credentials.''"

definition credentials_match :: "Env \<Rightarrow> ManagedUser \<Rightarrow> string \<Rightarrow> bool" where
  "credentials_match e admin password \<longleftrightarrow>
    (case u_password_hash admin of None \<Rightarrow> False
     | Some h \<Rightarrow> h \<noteq> [] \<and> u_status admin = US_ACTIVE \<and> verify_password e password h)"

definition after_password :: "Env \<Rightarrow> ManagedUser \<Rightarrow> db \<Rightarrow> Response" where
  "after_password e admin d =
    (if \<not> u_password_decision_required admin \<and> operator (u_role admin) \<and> account_has_mfa (u_id admin) d
     then begin_mfa_login e admin
     else
       (let mfa_verified = (\<not> operator (u_role admin) \<or> \<not> mf_required (mfa_policy e));
            destination = (if u_password_decision_required admin then ''/account/password-decision''
              else if operator (u_role admin) \<and> \<not> mfa_verified then ''/account/mfa''
              else default_home (u_role admin))
        in set_session_cookie e admin mfa_verified None (Redirect destination)))"

definition login :: "Env \<Rightarrow> string \<Rightarrow> string \<Rightarrow> db \<Rightarrow> Response \<times> db" where
  "login e username password d =
    (case get_user_by_name username d of
       None \<Rightarrow> (sign_in_failed, d)
     | Some admin \<Rightarrow>
        if credentials_match e admin password then
          (case credential_handoff e (u_id admin) password
                  (upd_user (u_id admin) (\<lambda>u. u\<lparr>u_last_authenticated_at := Some (now e)\<rparr>) d) of
             Raised err d1 \<Rightarrow> (ServerError err, d1)
           | Done _ d1 \<Rightarrow> (after_password e admin d1, d1))
        else (sign_in_failed, d))"

definition login_page :: "Env \<Rightarrow> Request \<Rightarrow> db \<Rightarrow> Response" where
  "login_page e req d =
    (case current_user e req d of
       None \<Rightarrow> Page ''login.html'' 200 []
     | Some account \<Rightarrow>
         if account_requires_mfa e (pr_id account) (pr_role account) d \<and> \<not> pr_mfa_verified account
         then Redirect ''/account/mfa'' else Redirect (default_home (pr_role account)))"

definition logout :: Response where
  "logout = clear_cookies [''na-sso-session'', ''na-sso-mfa-pending'', ''na-sso-totp-setup'',
     ''na-sso-webauthn-challenge''] (Redirect ''/login'')"

section \<open>Keeping or changing a password\<close>

definition acknowledgement_result :: "PasswordPolicy \<Rightarrow> time \<Rightarrow> time option" where
  "acknowledgement_result policy t =
    (case pw_expiry_acknowledgement_mode policy of
       ACK_GRACE \<Rightarrow> Some (t + int (pw_expiry_acknowledgement_grace_days policy) * day)
     | ACK_RENEWAL \<Rightarrow> map_option (\<lambda>n. t + int n * day) (pw_expires_after_days policy)
     | ACK_DISABLED \<Rightarrow> None)"

text \<open>Whether the form offers to keep the password.\<close>

definition allow_keep :: "Env \<Rightarrow> Principal option \<Rightarrow> bool \<Rightarrow> bool" where
  "allow_keep e account deciding =
    (let policy = fc_password_policy (file_config e);
         expired_decision = (deciding \<and> (case account of None \<Rightarrow> False
           | Some a \<Rightarrow> pr_password_decision_kind a = PD_EXPIRED));
         keep_count = (case account of None \<Rightarrow> 0 | Some a \<Rightarrow> pr_password_keep_count a);
         limit_reached = (case pw_expiry_acknowledgement_limit policy of None \<Rightarrow> False
           | Some limit \<Rightarrow> keep_count \<ge> limit)
     in expired_decision \<and> pw_expiry_acknowledgement_mode policy \<noteq> ACK_DISABLED \<and> \<not> limit_reached
        \<and> acknowledgement_result policy (now e) \<noteq> None)"

definition password_form :: "string \<Rightarrow> Response" where
  "password_form error = Page ''password_form.html'' 200 error"

definition password_page :: "Env \<Rightarrow> Request \<Rightarrow> db \<Rightarrow> Response" where
  "password_page e req d =
    (case current_user e req d of None \<Rightarrow> Redirect ''/login'' | Some _ \<Rightarrow> password_form [])"

definition password_decision_page :: "Env \<Rightarrow> Request \<Rightarrow> db \<Rightarrow> Response" where
  "password_decision_page e req d =
    (case current_user e req d of
       None \<Rightarrow> Redirect ''/login''
     | Some account \<Rightarrow> if \<not> pr_restricted account then Redirect ''/account'' else password_form [])"

record PasswordForm =
  pf_choice :: string
  pf_current :: string
  pf_new :: string
  pf_confirm :: "string option"
  pf_generated :: string
  pf_handoff_confirmed :: string

text \<open>The latest passwords of the history, and the row added to it.\<close>

definition recent_hashes :: "Env \<Rightarrow> id \<Rightarrow> db \<Rightarrow> string list" where
  "recent_hashes e uid d =
    map ph_password_hash (take (pw_history_size (fc_password_policy (file_config e)))
      (rev (sort_key ph_created_at (filter (\<lambda>h. ph_user_id h = uid) (histories d)))))"

definition add_history :: "Env \<Rightarrow> id \<Rightarrow> string \<Rightarrow> db \<Rightarrow> db" where
  "add_history e uid h d = d\<lparr>histories := histories d @ [\<lparr>ph_id = next_id ph_id (histories d),
     ph_user_id = uid, ph_password_hash = h, ph_created_at = now e\<rparr>]\<rparr>"

text \<open>The two branches that commit; \<open>Inl\<close> is the error the form shows again.\<close>

definition keep_password :: "Env \<Rightarrow> ManagedUser \<Rightarrow> db \<Rightarrow> string + time \<times> db" where
  "keep_password e u d =
    (let policy = fc_password_policy (file_config e); limit = pw_expiry_acknowledgement_limit policy in
     if pw_expiry_acknowledgement_mode policy = ACK_DISABLED
       then Inl ''Keeping an expired password is disabled by policy. Change it to continue.''
     else if (case limit of None \<Rightarrow> False | Some n \<Rightarrow> u_password_keep_count u \<ge> n)
       then Inl ''This password has reached its acknowledgement limit. Change it to continue.''
     else
       (case acknowledgement_result policy (now e) of
          None \<Rightarrow> Inl ''The acknowledgement policy cannot calculate a new expiry. Change the password to continue.''
        | Some keep_result_at \<Rightarrow>
            Inr (keep_result_at, record_audit e (u_username u) ''password.keep_acknowledged'' (u_username u)
              (cat [''mode='', (case pw_expiry_acknowledgement_mode policy of
                      ACK_GRACE \<Rightarrow> ''grace'' | ACK_RENEWAL \<Rightarrow> ''renewal'' | ACK_DISABLED \<Rightarrow> ''disabled''),
                    ''; next_expiry='', isoformat e keep_result_at, ''; acknowledgement='',
                    show_nat (u_password_keep_count u + 1), ''/'',
                    (case limit of None \<Rightarrow> ''unlimited'' | Some n \<Rightarrow> show_nat n)]) None
              (upd_user (u_id u) (\<lambda>u. u\<lparr>u_password_decision_required := False,
                 u_password_decision_kind := PD_NONE, u_password_keep_until := Some keep_result_at,
                 u_password_keep_count := Suc (u_password_keep_count u)\<rparr>) d))))"

definition change_password :: "Env \<Rightarrow> ManagedUser \<Rightarrow> string \<Rightarrow> PasswordForm \<Rightarrow> db \<Rightarrow> string + db" where
  "change_password e u h f d =
    (if pf_generated f = ''true'' \<and> pf_handoff_confirmed f \<noteq> ''true''
       then Inl ''Generate the password again, save the full value, and confirm the handoff before changing it.''
     else if pf_confirm f \<noteq> None \<and> pf_generated f \<noteq> ''true'' \<and> pf_confirm f \<noteq> Some (pf_new f)
       then Inl ''Password confirmation does not match.''
     else
       (let errors = validate_password e (pf_new f) (u_username u) (u_email u) (u_display_name u)
              (Some (pf_current f)) (h # recent_hashes e (u_id u) d) in
        if errors \<noteq> [] then Inl (join_with '' '' errors)
        else Inr (record_audit e (u_username u) ''password.changed'' (u_username u) [] None
               (upd_user (u_id u) (\<lambda>u. u\<lparr>u_password_hash := Some (hash_password e (pf_new f)),
                  u_password_decision_required := False, u_password_decision_kind := PD_NONE,
                  u_password_changed_at := Some (now e), u_password_keep_until := None,
                  u_password_keep_count := 0, u_session_version := Suc (u_session_version u)\<rparr>)
                (add_history e (u_id u) h d)))))"

definition password_done :: "Env \<Rightarrow> id \<Rightarrow> string \<Rightarrow> Response \<Rightarrow> db \<Rightarrow> Response \<times> db" where
  "password_done e uid password resp d =
    (case credential_handoff e uid password d of
       Raised err d' \<Rightarrow> (ServerError err, d') | Done _ d' \<Rightarrow> (resp, d'))"

definition complete_password_action ::
  "Env \<Rightarrow> Principal \<Rightarrow> PasswordForm \<Rightarrow> bool \<Rightarrow> db \<Rightarrow> Response \<times> db" where
  "complete_password_action e account f deciding d =
    (case Option.bind (get_user (pr_id account) d) (\<lambda>u. map_option (Pair u) (u_password_hash u)) of
       None \<Rightarrow> (password_form ''Invalid current password.'', d)
     | Some (u, h) \<Rightarrow>
        if h = [] \<or> \<not> verify_password e (pf_current f) h
          then (password_form ''Invalid current password.'', d)
        else if pf_choice f = ''keep'' \<and> deciding \<and> u_password_decision_kind u = PD_EXPIRED then
          (case keep_password e u d of
             Inl err \<Rightarrow> (password_form err, d)
           | Inr (t, d1) \<Rightarrow> password_done e (u_id u) (pf_current f)
               (redirect_with_feedback ''/account'' ''Password kept''
                  (cat [''The current password remains active until '', take 10 (isoformat e t),
                        ''. The acknowledgement was recorded.'']) ''success'') d1)
        else if pf_choice f = ''change'' then
          (case change_password e u h f d of
             Inl err \<Rightarrow> (password_form err, d)
           | Inr d1 \<Rightarrow> password_done e (u_id u) (pf_new f)
               (ClearCookie ''na-sso-session'' (redirect_with_feedback ''/login'' ''Password changed''
                  ''Sign in again with the new password. Target synchronization has started.'' ''success'')) d1)
        else (password_form ''Choose keep or change.'', d))"

definition password_decision :: "Env \<Rightarrow> Request \<Rightarrow> PasswordForm \<Rightarrow> db \<Rightarrow> Response \<times> db" where
  "password_decision e req f d =
    (case current_user e req d of
       None \<Rightarrow> (Redirect ''/login'', d)
     | Some account \<Rightarrow> complete_password_action e account f True d)"

definition password_change :: "Env \<Rightarrow> Request \<Rightarrow> PasswordForm \<Rightarrow> db \<Rightarrow> Response \<times> db" where
  "password_change e req f d =
    (case current_user e req d of
       None \<Rightarrow> (Redirect ''/login'', d)
     | Some account \<Rightarrow> complete_password_action e account (f\<lparr>pf_choice := ''change''\<rparr>) False d)"

text \<open>The account page: what it lists of the keys and of the assigned targets.\<close>

definition assigned_sync_states :: "id \<Rightarrow> db \<Rightarrow> SyncState list" where
  "assigned_sync_states uid d =
    filter (\<lambda>s. ss_assigned s \<and> \<not> ss_retired s \<and> ss_state s \<noteq> UNASSIGNED) (user_states uid d)"

definition key_status :: "time \<Rightarrow> UserSshKey \<Rightarrow> string" where
  "key_status t k =
    (if k_revoked_at k \<noteq> None then ''revoked''
     else case k_expires_at k of
       None \<Rightarrow> ''active'' | Some x \<Rightarrow> if x \<le> t then ''expired'' else ''active'')"

definition page_keys :: "Env \<Rightarrow> id \<Rightarrow> db \<Rightarrow> (UserSshKey \<times> string) list" where
  "page_keys e uid d = map (\<lambda>k. (k, key_status (now e) k)) (sort_key k_enrolled_at (user_keys uid d))"

definition page_fingerprint :: "Env \<Rightarrow> id \<Rightarrow> db \<Rightarrow> string option" where
  "page_fingerprint e uid d =
    (let active = filter (\<lambda>(k, st). st = ''active'') (page_keys e uid d) in
     if active = [] then None else Some (k_fingerprint (fst (last active))))"

record AccessView =
  av_id :: string
  av_name :: string
  av_type :: string
  av_credential_mode :: string
  av_view :: "SyncStatePayload option"
  av_needs_support :: bool

definition credential_mode_text :: "SshMode \<Rightarrow> string" where
  "credential_mode_text m = (case m of MODE_PASSWORD \<Rightarrow> ''Password'' | MODE_KEY \<Rightarrow> ''SSH key''
     | MODE_PASSWORD_AND_KEY \<Rightarrow> ''Password and SSH key'')"

definition access_view :: "Env \<Rightarrow> Connector list \<Rightarrow> ManagedUser \<Rightarrow> SyncState \<Rightarrow> AccessView" where
  "access_view e available u s =
    (let target = find (\<lambda>t. tg_id t = ss_target s) (rev (fc_targets (file_config e)));
         connector = connector_for (ss_target s) available;
         target_type = (case (target, connector) of
            (Some t, _) \<Rightarrow> target_type_value (tg_type t) | (None, Some c) \<Rightarrow> target_type_value (c_target_type c)
          | _ \<Rightarrow> (case ss_target_type s of Some t \<Rightarrow> if t = [] then ''target'' else t | None \<Rightarrow> ''target''));
         view = sync_state_payload (Some (sync_state_value (ss_state s))) (ss_assigned s) (ss_retired s)
                  (desired_action_value (u_desired_action u)) [] 0 (ss_next_retry_at s) None
     in \<lparr>av_id = ss_target s,
         av_name = (case (target, connector) of
            (Some t, _) \<Rightarrow> tg_display_name t | (None, Some c) \<Rightarrow> c_display_name c | _ \<Rightarrow> ss_target s),
         av_type = target_type,
         av_credential_mode = (if target_type = ''ssh''
            then credential_mode_text (case target of Some t \<Rightarrow> tg_mode t | None \<Rightarrow> MODE_PASSWORD_AND_KEY)
            else ''Password''),
         av_view = view,
         av_needs_support = (case view of None \<Rightarrow> False | Some v \<Rightarrow> pl_state v \<in>
            {''failed'', ''unsupported'', ''retired'', ''expired_disabled'', ''pending_expiry_disable''})\<rparr>)"

definition account_page :: "Env \<Rightarrow> Request \<Rightarrow> db \<Rightarrow> Response + AccessView list" where
  "account_page e req d =
    (case current_user e req d of
       None \<Rightarrow> Inl (Redirect ''/login'')
     | Some account \<Rightarrow>
        if pr_restricted account then Inl (Redirect ''/account/password-decision'')
        else (case get_user (pr_id account) d of
           None \<Rightarrow> Inl (ServerError ''AttributeError'')
         | Some stored \<Rightarrow> Inr (map (access_view e (get_connectors e d) stored)
             (assigned_sync_states (u_id stored) d))))"

section \<open>Properties\<close>

text \<open>C18: What a session of a login rests on.  When the answer to a login carries a session, the
  named account is stored and active and the password is that of its hash; the session is the
  account's at its present version, and it counts as verified for an operator only if no MFA is
  required by the policy, and either none is enrolled or the account still has to decide about
  its password.\<close>

theorem login_session:
  assumes "login e username password d = (WithSession ck resp, d')"
  shows "\<exists>u h. get_user_by_name username d = Some u \<and> u_status u = US_ACTIVE \<and>
    u_password_hash u = Some h \<and> h \<noteq> [] \<and> verify_password e password h \<and>
    ck_id ck = u_id u \<and> ck_v ck = u_session_version u \<and>
    (ck_mfa ck \<and> operator (u_role u) \<longrightarrow> \<not> mf_required (mfa_policy e) \<and>
      (u_password_decision_required u \<or> \<not> account_has_mfa (u_id u) d'))"
proof -
  obtain u where u: "get_user_by_name username d = Some u" "credentials_match e u password"
    using assms by (auto simp: login_def sign_in_failed_def split: option.splits if_splits)
  then have resp: "after_password e u d' = WithSession ck resp"
    using assms by (auto simp: login_def split: outcome.splits)
  obtain h where h: "u_password_hash u = Some h" "h \<noteq> []" "u_status u = US_ACTIVE" "verify_password e password h"
    using u(2) by (auto simp: credentials_match_def split: option.splits)
  show ?thesis
    using u(1) h resp
    by (auto simp: after_password_def begin_mfa_login_def set_session_cookie_def Let_def split: if_splits)
qed



text \<open>C20: A changed password ends the sessions of the account.  When a request of a signed-in account
  to change its password is not answered with the form again, the current password was given, the
  new one passed the policy against the old ones, its hash is stored, the session version
  is one higher, and no request with a cookie of an earlier version is signed in any more, also
  when the run of the targets that follows raises.\<close>

theorem password_change_ends_sessions:
  assumes "states_ok d" "current_user e req d = Some pr" "pf_choice f = ''change''"
    and "complete_password_action e pr f deciding d = (resp, d')" "\<forall>t. resp \<noteq> password_form t"
  shows "\<exists>u h v. get_user (pr_id pr) d = Some u \<and> u_password_hash u = Some h \<and>
    verify_password e (pf_current f) h \<and>
    validate_password e (pf_new f) (u_username u) (u_email u) (u_display_name u) (Some (pf_current f))
      (h # recent_hashes e (u_id u) d) = [] \<and>
    get_user (pr_id pr) d' = Some v \<and> u_password_hash v = Some (hash_password e (pf_new f)) \<and>
    u_session_version v = Suc (pr_session_version pr) \<and>
    (\<forall>ck req'. ck_id ck = pr_id pr \<and> ck_v ck \<le> pr_session_version pr \<longrightarrow>
       current_user e (req'\<lparr>rq_session := Some ck\<rparr>) d' = None)"
proof -
  obtain u ck where u: "get_user (pr_id pr) d = Some u" "pr_session_version pr = u_session_version u"
    using current_user_SomeD [OF assms(2)] user_table.get_key by (fastforce simp: principal_of_def)
  have id: "u_id u = pr_id pr" using u(1) by (rule user_table.get_key)
  obtain h where h: "u_password_hash u = Some h" "h \<noteq> []" "verify_password e (pf_current f) h"
    using assms(4,5) u(1) by (auto simp: complete_password_action_def split: option.splits if_splits)
  obtain d1 where d1: "change_password e u h f d = Inr d1" "d' = outcome_db (credential_handoff e (u_id u) (pf_new f) d1)"
    using assms(3-5) u(1) h
    by (auto simp: complete_password_action_def password_done_def split: sum.splits outcome.splits)
  have valid: "validate_password e (pf_new f) (u_username u) (u_email u) (u_display_name u)
      (Some (pf_current f)) (h # recent_hashes e (u_id u) d) = []"
    using d1(1) by (auto simp: change_password_def Let_def split: if_splits)
  obtain w where w: "get_user (pr_id pr) d1 = Some w" "u_password_hash w = Some (hash_password e (pf_new f))"
    "u_session_version w = Suc (u_session_version u)"
    using d1(1) u(1) id
    by (auto simp: change_password_def Let_def user_table.get_upd add_history_def get_user_def [of _ "record_audit _ _ _ _ _ _ _"]
        get_user_def [of _ "_\<lparr>histories := _\<rparr>"] get_user_def [symmetric] split: if_splits)
  have "states_ok d1"
    using d1(1) assms(1) by (auto simp: change_password_def Let_def states_ok_def add_history_def split: if_splits)
  then have "accounts_kept d1 d'" using accounts_kept_handoff d1(2) by blast
  then obtain v where v: "get_user (pr_id pr) d' = Some v" "account_kept w v"
    using w(1) by (rule accounts_keptD)
  note kept = account_kept_fields [OF v(2)]
  have "current_user e (req'\<lparr>rq_session := Some ck\<rparr>) d' = None"
    if "ck_id ck = pr_id pr" "ck_v ck \<le> pr_session_version pr" for ck req'
    using that v(1) kept w(3) u(2) by (simp add: current_user_def)
  then show ?thesis using u h valid v(1) kept w by auto
qed

text \<open>The form offers to keep a password exactly when keeping it is accepted.  For a signed-in
  account whose row has not changed since, the offer is shown on the decision form if and only if
  the password is an expired one and the branch that keeps it succeeds, so no policy
  and no count of acknowledgements gives an offer that is refused, or hides one that would be accepted.\<close>

theorem keep_offer_is_honoured:
  assumes "current_user e req d = Some pr" "get_user (pr_id pr) d = Some u"
  shows "allow_keep e (Some pr) True \<longleftrightarrow>
    u_password_decision_kind u = PD_EXPIRED \<and> (\<exists>t d'. keep_password e u d = Inr (t, d'))"
proof -
  obtain ck where "pr = principal_of u ck"
    using current_user_SomeD [OF assms(1)] assms(2) user_table.get_key by (fastforce simp: principal_of_def)
  then show ?thesis
    by (auto simp: allow_keep_def keep_password_def Let_def principal_of_def split: option.splits)
qed


section \<open>Witnesses\<close>

theorem login_session_witness:
  "\<exists>ck resp d'. login sample_env ''ada'' ''Correct-Horse-42'' sample_db = (WithSession ck resp, d') \<and>
     ck_v ck = 1 \<and> verify_password sample_env ''Correct-Horse-42'' (rev ''Correct-Horse-42'')"
proof -
  let ?d = "upd_user 1 (\<lambda>u. u\<lparr>u_last_authenticated_at := Some (now sample_env)\<rparr>) sample_db"
  have user: "get_user_by_name ''ada'' sample_db = Some sample_user" "get_user 1 sample_db = Some sample_user"
    by (simp_all add: get_user_by_name_def get_user_def rows_get_def sample_db_def sample_user_def)
  have id: "u_id sample_user = 1" by (simp add: sample_user_def)
  have match: "credentials_match sample_env sample_user ''Correct-Horse-42''"
    by (simp add: credentials_match_def sample_user_def sample_env_def)
  have "user_states 1 ?d = [sample_state]" by (simp add: user_states_def sample_db_def sample_state_def)
  then have "credential_handoff sample_env 1 ''Correct-Horse-42'' ?d = Done () ?d"
    using user by (simp add: credential_handoff_def user_table.get_upd sample_state_def)
  then obtain ck resp where l: "login sample_env ''ada'' ''Correct-Horse-42'' sample_db = (WithSession ck resp, ?d)"
    using user match id
    by (simp add: login_def after_password_def set_session_cookie_def begin_mfa_login_def operator_def
        permission_context_def has_permission_iff sample_user_def Let_def)
  note session = login_session [OF l]
  from session have "ck_v ck = 1" using user by (auto simp: sample_user_def)
  moreover from session have "verify_password sample_env ''Correct-Horse-42'' (rev ''Correct-Horse-42'')"
    using user by (auto simp: sample_user_def)
  ultimately show ?thesis using l by blast
qed

definition deciding_operator :: ManagedUser where
  "deciding_operator = mfa_operator\<lparr>u_password_decision_required := True, u_password_decision_kind := PD_RESET\<rparr>"

definition deciding_db :: db where
  "deciding_db = mfa_db\<lparr>users := [deciding_operator]\<rparr>"


definition change_form :: PasswordForm where
  "change_form = \<lparr>pf_choice = ''change'', pf_current = ''Correct-Horse-42'', pf_new = sample_password,
     pf_confirm = None, pf_generated = ''false'', pf_handoff_confirmed = ''false''\<rparr>"

lemma change_form_accepted:
  "validate_password sample_env sample_password ''ada'' ''ada@example.org'' ''Ada L''
     (Some ''Correct-Horse-42'') [rev ''Correct-Horse-42''] = []"
proof -
  have "\<not> list_ex (\<lambda>t. 3 \<le> length t \<and> contains_str t (lower sample_password))
     (identity_terms ''ada'' ''ada@example.org'' ''Ada L'')"
    "edit_distance sample_password ''Correct-Horse-42'' = 15" "sample_password \<noteq> ''Correct-Horse-42''"
    by code_simp+
  then show ?thesis
    unfolding validate_password_def sample_policy Let_def rules_Nil_iff
    using sample_password_checks by (simp add: default_password_policy_def sample_env_def)
qed

theorem password_change_ends_sessions_witness:
  "\<exists>d' v. snd (complete_password_action sample_env
       (principal_of sample_user (the (rq_session (sample_request True)))) change_form False sample_db) = d' \<and>
     get_user 1 d' = Some v \<and> u_session_version v = 2 \<and>
     current_user sample_env (sample_request True) d' = None"
proof -
  let ?ck = "the (rq_session (sample_request True))"
  let ?pr = "principal_of sample_user ?ck"
  have user: "get_user 1 sample_db = Some sample_user" "u_id sample_user = 1" "u_session_version sample_user = 1"
    by (simp_all add: get_user_def rows_get_def sample_db_def sample_user_def)
  have signed_in: "current_user sample_env (sample_request True) sample_db = Some ?pr"
    using user by (simp add: current_user_def sample_request_def sample_user_def MAX_AGE_def second_def
        sample_env_def)
  have "recent_hashes sample_env 1 sample_db = []"
    by (simp add: recent_hashes_def sample_db_def empty_db_def)
  then obtain d1 where d1: "change_password sample_env sample_user (rev ''Correct-Horse-42'') change_form sample_db = Inr d1"
    using change_form_accepted user
    by (simp add: change_password_def change_form_def sample_user_def Let_def)
  then have "complete_password_action sample_env ?pr change_form False sample_db =
      password_done sample_env 1 sample_password (ClearCookie ''na-sso-session'' (redirect_with_feedback ''/login''
        ''Password changed'' ''Sign in again with the new password. Target synchronization has started.''
        ''success'')) d1"
    using user by (simp add: complete_password_action_def principal_of_def change_form_def sample_user_def
        sample_env_def)
  then obtain resp d' where run: "complete_password_action sample_env ?pr change_form False sample_db = (resp, d')"
      "\<forall>t. resp \<noteq> password_form t"
    by (cases "credential_handoff sample_env 1 sample_password d1")
      (auto simp: password_done_def password_form_def)
  have "states_ok sample_db" by (simp add: states_ok_def sample_db_def empty_db_def)
  from password_change_ends_sessions [OF this signed_in _ run(1) run(2)]
  obtain v where v: "get_user (pr_id ?pr) d' = Some v" "u_session_version v = Suc (pr_session_version ?pr)"
    "\<forall>ck req'. ck_id ck = pr_id ?pr \<and> ck_v ck \<le> pr_session_version ?pr \<longrightarrow>
       current_user sample_env (req'\<lparr>rq_session := Some ck\<rparr>) d' = None"
    by (auto simp: change_form_def)
  have "pr_id ?pr = 1" "pr_session_version ?pr = 1" "sample_request True\<lparr>rq_session := Some ?ck\<rparr> = sample_request True"
    "ck_id ?ck = 1" "ck_v ?ck = 1"
    using user by (simp_all add: principal_of_def sample_request_def)
  then show ?thesis using v run(1) by (metis One_nat_def Suc_1 order_refl snd_conv)
qed

theorem keep_offer_is_honoured_witness:
  "allow_keep sample_env (Some (principal_of sample_user (the (rq_session (sample_request True))))) True = False"
proof -
  have "get_user 1 sample_db = Some sample_user" "u_id sample_user = 1"
    by (simp_all add: get_user_def rows_get_def sample_db_def sample_user_def)
  then have "current_user sample_env (sample_request True) sample_db =
      Some (principal_of sample_user (the (rq_session (sample_request True))))"
    "get_user (pr_id (principal_of sample_user (the (rq_session (sample_request True))))) sample_db = Some sample_user"
    by (simp_all add: current_user_def sample_request_def sample_user_def MAX_AGE_def second_def
        sample_env_def principal_of_def)
  from keep_offer_is_honoured [OF this] show ?thesis by (simp add: sample_user_def)
qed

end
