(* ===== verification/Users.thy ===== *)
theory Users
  imports Auth Intents
begin

text \<open>
  The administration of accounts, \<open>src/na_sso/users.py\<close>: creation, change, deletion,
  restoration and purge of an account, the retry of a target, and the bulk actions.  A handler gives
  its response, the background tasks it starts and the committed database; \<open>run_tasks\<close>
  runs the tasks after the response.  An exception no handler catches is the answer
  \<open>ServerError\<close> with the database unchanged, as the session is rolled back.
\<close>

section \<open>Background tasks\<close>

record task =
  tk_user :: id
  tk_action :: "DesiredAction option"
  tk_target :: "string option"
  tk_actor :: string
  tk_operation :: "uuid option"

type_synonym answer = "Response \<times> task list \<times> db"

definition run_task :: "Env \<Rightarrow> task \<Rightarrow> db \<Rightarrow> uuid option outcome" where
  "run_task e t d = sync_user e (tk_user t) (tk_action t) (tk_target t) (tk_actor t) (tk_operation t) d"

text \<open>The tasks of a response run one after the other; an exception ends them.\<close>

fun run_tasks :: "Env \<Rightarrow> task list \<Rightarrow> db \<Rightarrow> unit outcome" where
  "run_tasks e [] d = Done () d"
| "run_tasks e (t # ts) d =
    (case run_task e t d of Raised err d' \<Rightarrow> Raised err d' | Done _ d' \<Rightarrow> run_tasks e ts d')"

definition system_task :: "id \<Rightarrow> DesiredAction option \<Rightarrow> uuid \<Rightarrow> task" where
  "system_task uid action i = \<lparr>tk_user = uid, tk_action = action, tk_target = None,
     tk_actor = ''system'', tk_operation = Some i\<rparr>"

section \<open>Who may manage whom\<close>

definition can_manage_subject :: "Env \<Rightarrow> Request \<Rightarrow> ManagedUser \<Rightarrow> db \<Rightarrow> bool" where
  "can_manage_subject e req u d \<longleftrightarrow>
    (case current_user e req d of
       None \<Rightarrow> False
     | Some pr \<Rightarrow> (has_permission (pr_role pr) MANAGE_SECURITY \<or> u_role u = ''user'') \<and> \<not> is_root u)"

definition user_guarded ::
  "Env \<Rightarrow> Request \<Rightarrow> (Principal \<Rightarrow> answer) \<Rightarrow> db \<Rightarrow> answer" where
  "user_guarded e req body d =
    (case permission_guard e req MANAGE_USERS d of Inl resp \<Rightarrow> (resp, [], d) | Inr pr \<Rightarrow> body pr)"

definition users_feedback :: "string \<Rightarrow> string \<Rightarrow> string \<Rightarrow> Response" where
  "users_feedback title message level = redirect_with_feedback ''/users'' title message level"

section \<open>Resetting the states of the targets\<close>

text \<open>The state a selected target gets.  \<open>newly\<close> says that it was not assigned before, or
  that its row is new.\<close>

definition pending_state ::
  "bool \<Rightarrow> bool \<Rightarrow> bool \<Rightarrow> bool \<Rightarrow> bool \<Rightarrow> SyncStateValue option \<Rightarrow> SyncStateValue" where
  "pending_state require_password_change remote_accounts_absent newly needs_password has_password previous =
    (if require_password_change then
       (if \<not> remote_accounts_absent \<and> \<not> newly \<and> previous = Some OK then PENDING_CHPW_DISABLE else CHPW)
     else if newly \<and> needs_password \<and> \<not> has_password then AWAITING_CREDENTIALS
     else PENDING)"

definition reset_state :: "bool \<Rightarrow> SyncStateValue \<Rightarrow> SyncState \<Rightarrow> SyncState" where
  "reset_state require_password_change v s = s\<lparr>ss_assigned := True, ss_retired := False, ss_state := v,
     ss_detail := (if require_password_change then ''password change required before propagation'' else []),
     ss_attempt_count := 0, ss_next_retry_at := None\<rparr>"

definition select_target ::
  "Env \<Rightarrow> id \<Rightarrow> Connector list \<Rightarrow> bool \<Rightarrow> bool \<Rightarrow> bool \<Rightarrow> string \<Rightarrow> string + db \<Rightarrow> string + db" where
  "select_target e uid cs require_password_change remote_accounts_absent has_password t r =
    (case r of
       Inl err \<Rightarrow> Inl err
     | Inr d \<Rightarrow>
        (case connector_for t cs of
           None \<Rightarrow> Inl ''KeyError''
         | Some c \<Rightarrow>
            let value = pending_state require_password_change remote_accounts_absent in
            (case state_of uid t d of
               None \<Rightarrow> Inr (d\<lparr>sync_states := sync_states d @ [reset_state require_password_change
                  (value True (cap_password (c_capabilities c)) has_password None) (new_state c uid d)]\<rparr>)
             | Some s \<Rightarrow> Inr (upd_state (ss_id s)
                  (reset_state require_password_change (value (\<not> ss_assigned s)
                     (cap_password (c_capabilities c)) has_password (Some (ss_state s)))) d))))"

definition unselect_states :: "id \<Rightarrow> string list \<Rightarrow> db \<Rightarrow> db" where
  "unselect_states uid selected d =
    fold (\<lambda>s. upd_state (ss_id s) (\<lambda>s. s\<lparr>ss_assigned := False, ss_state := PENDING_DISABLE,
        ss_next_retry_at := None\<rparr>))
      (filter (\<lambda>s. ss_target s \<notin> set selected \<and> ss_assigned s) (user_states uid d)) d"

record PendingOptions =
  po_require_password_change :: bool
  po_remote_accounts_absent :: bool
  po_update_exceptions :: bool
  po_actor :: string

definition pending_options :: PendingOptions where
  "pending_options = \<lparr>po_require_password_change = False, po_remote_accounts_absent = False,
     po_update_exceptions = True, po_actor = ''lifecycle''\<rparr>"

text \<open>\<open>Inl\<close> is the name of the exception.\<close>

definition set_pending ::
  "Env \<Rightarrow> id \<Rightarrow> string option \<Rightarrow> string list option \<Rightarrow> PendingOptions \<Rightarrow> db \<Rightarrow> string + db" where
  "set_pending e uid password target_ids opts d =
    (case get_user uid d of
       None \<Rightarrow> Inl ''AttributeError''
     | Some u \<Rightarrow>
        (let require = po_require_password_change opts;
             d1 = (if require then upd_user uid (\<lambda>u. u\<lparr>u_pending_secret := None\<rparr>) d
                   else case password of None \<Rightarrow> d
                     | Some p \<Rightarrow> upd_user uid (\<lambda>u. u\<lparr>u_pending_secret := Some (encrypt_secret e p)\<rparr>) d);
             cs = get_connectors e d;
             selected = remdups (case target_ids of Some ts \<Rightarrow> ts
               | None \<Rightarrow> if user_states uid d \<noteq> [] \<or> \<not> s_config_file (settings e)
                         then map c_target_id cs else []);
             d2 = (if po_update_exceptions opts
                   then record_selected_target_exceptions uid selected (po_actor opts) d1 else d1)
         in if is_root u \<and> selected \<noteq> [] then Inl ''ValueError''
            else fold (select_target e uid cs require (po_remote_accounts_absent opts) (password \<noteq> None))
                   selected (Inr (unselect_states uid selected d2))))"

section \<open>Creating an account\<close>

text \<open>\<open>^[a-z0-9](?:[a-z0-9_.-]{0,62}[a-z0-9])?$\<close>\<close>

definition managed_username_ok :: "string \<Rightarrow> bool" where
  "managed_username_ok s = (case s of [] \<Rightarrow> False | c # cs \<Rightarrow>
     (is_lower c \<or> is_digit c) \<and>
     (cs = [] \<or> (length cs \<le> 63 \<and> (is_lower (last cs) \<or> is_digit (last cs)) \<and>
        (\<forall>x \<in> set (butlast cs). is_lower x \<or> is_digit x \<or> x \<in> set ''_.-''))))"

record UserForm =
  fm_username :: string
  fm_display_name :: string
  fm_email :: string
  fm_password :: string
  fm_confirm_password :: "string option"
  fm_password_generated :: string
  fm_handoff_confirmed :: string
  fm_status :: string
  fm_role :: "string option"
  fm_target_ids :: "string list"

definition user_form_error :: "nat \<Rightarrow> string \<Rightarrow> Response" where
  "user_form_error code message = Page ''user_form.html'' code message"

definition assigned_role :: "Principal \<Rightarrow> string \<Rightarrow> string" where
  "assigned_role pr role =
    (if has_permission (pr_role pr) MANAGE_SECURITY \<and> role \<in> set ASSIGNABLE_ROLES then role else ''user'')"

definition new_user :: "Env \<Rightarrow> string \<Rightarrow> UserForm \<Rightarrow> string \<Rightarrow> db \<Rightarrow> ManagedUser" where
  "new_user e username f role d =
    \<lparr>u_id = next_id u_id (users d), u_username = username, u_display_name = strip (fm_display_name f),
     u_email = strip (fm_email f), u_password_hash = Some (hash_password e (fm_password f)), u_role = role,
     u_password_decision_required = True, u_password_decision_kind = PD_INITIAL,
     u_password_changed_at = Some (now e), u_last_authenticated_at = None,
     u_password_keep_until = None, u_password_keep_count = 0, u_session_version = 1,
     u_ssh_public_key = None, u_status = US_ACTIVE, u_desired_action = ENSURE,
     u_active_operation_id = None, u_deletion_requested_at = None, u_deleted_at = None,
     u_pending_secret = None, u_created_at = now e\<rparr>"

definition chosen_targets :: "Env \<Rightarrow> string list \<Rightarrow> string list option" where
  "chosen_targets e target_ids =
    (if \<not> s_config_file (settings e) \<and> target_ids = [] then None else Some target_ids)"

text \<open>The accepted form: the row, the states of its targets and the operation.\<close>

definition store_user :: "Env \<Rightarrow> string \<Rightarrow> UserForm \<Rightarrow> ManagedUser \<Rightarrow> db \<Rightarrow> answer" where
  "store_user e admin f u d =
    (case set_pending e (u_id u) (Some (fm_password f)) (chosen_targets e (fm_target_ids f))
            (pending_options\<lparr>po_require_password_change := True\<rparr>) (d\<lparr>users := users d @ [u]\<rparr>) of
       Inl err \<Rightarrow> (ServerError err, [], d)
     | Inr d1 \<Rightarrow>
        (case request_operation e (u_id u) CREATE admin None d1 of
           (Inl _, _) \<Rightarrow> (ServerError ''OperationConflict'', [], d)
         | (Inr i, d2) \<Rightarrow>
            (users_feedback ''User created'' (cat [u_username u, '' was saved. The user must replace the temporary password before assigned targets can be provisioned.'']) ''success'',
             [system_task (u_id u) None i],
             (if u_role u = ''user'' then id
              else record_audit e admin ''role.assigned'' (u_username u) (cat [''role='', u_role u]) (Some i))
               (record_audit e admin ''user.create'' (u_username u) [] (Some i) d2))))"

definition create_user :: "Env \<Rightarrow> Request \<Rightarrow> UserForm \<Rightarrow> db \<Rightarrow> answer" where
  "create_user e req f d = user_guarded e req (\<lambda>pr.
    let admin = pr_username pr;
        username = lower (strip (fm_username f));
        errors = validate_password e (fm_password f) username (fm_email f) (fm_display_name f) None [];
        role = assigned_role pr (case fm_role f of None \<Rightarrow> ''user'' | Some r \<Rightarrow> r);
        u = new_user e username f role d;
        identity = validate_universal_identity u
    in
    if fm_password_generated f = ''true'' \<and> fm_handoff_confirmed f \<noteq> ''true'' then
      (user_form_error 422 ''Generate the password again, save the full value, and confirm the handoff before creating the user.'', [], d)
    else if fm_confirm_password f \<noteq> None \<and> fm_password_generated f \<noteq> ''true''
            \<and> fm_confirm_password f \<noteq> Some (fm_password f) then
      (user_form_error 422 ''Password confirmation does not match.'', [], d)
    else if \<not> managed_username_ok username then
      (user_form_error 422 ''Username must use lowercase letters, digits, underscores, dots or hyphens; separators cannot be first or last.'', [], d)
    else if get_user_by_name username d \<noteq> None then
      (user_form_error 422 (cat [''Username '', [CHR 0x27], username, [CHR 0x27], '' already exists.'']), [], d)
    else if errors \<noteq> [] then (user_form_error 422 (join_with '' '' errors), [], d)
    else if \<exists>t \<in> set (fm_target_ids f). connector_for t (get_connectors e d) = None then
      (Redirect ''/users/new'', [], d)
    else if \<not> iv_ok identity then (user_form_error 422 (iv_detail identity), [], d)
    else store_user e admin f u d) d"

section \<open>Changing an account\<close>

text \<open>The answer when the subject may not be managed: an existing account that is not root is
  refused, any other request returns to the list.\<close>

definition refused :: "ManagedUser option \<Rightarrow> Response" where
  "refused u = (case u of Some v \<Rightarrow> if is_root v then Redirect ''/users'' else Plain ''Forbidden'' 403
     | None \<Rightarrow> Redirect ''/users'')"

definition changed_user :: "Principal \<Rightarrow> UserForm \<Rightarrow> ManagedUser \<Rightarrow> ManagedUser" where
  "changed_user pr f u =
    (let role = (case fm_role f of
           Some r \<Rightarrow> if has_permission (pr_role pr) MANAGE_SECURITY \<and> r \<in> set ASSIGNABLE_ROLES then r else u_role u
         | None \<Rightarrow> u_role u)
     in u\<lparr>u_display_name := strip (fm_display_name f), u_email := strip (fm_email f),
          u_status := (if fm_status f = ''disabled'' then US_DISABLED else US_ACTIVE),
          u_role := role,
          u_session_version := (if role \<noteq> u_role u then Suc (u_session_version u) else u_session_version u)\<rparr>)"

text \<open>A temporary password set by an operator.\<close>

definition reset_password :: "Env \<Rightarrow> string \<Rightarrow> ManagedUser \<Rightarrow> ManagedUser" where
  "reset_password e plain u = u\<lparr>u_password_hash := Some (hash_password e plain),
     u_password_changed_at := Some (now e), u_password_keep_until := None, u_password_keep_count := 0,
     u_password_decision_required := True, u_password_decision_kind := PD_RESET,
     u_session_version := Suc (u_session_version u)\<rparr>"

definition add_old_hash :: "Env \<Rightarrow> ManagedUser \<Rightarrow> db \<Rightarrow> db" where
  "add_old_hash e u d = (case u_password_hash u of None \<Rightarrow> d
     | Some h \<Rightarrow> if h = [] then d else add_history e (u_id u) h d)"

definition update_user :: "Env \<Rightarrow> Request \<Rightarrow> id \<Rightarrow> UserForm \<Rightarrow> db \<Rightarrow> answer" where
  "update_user e req uid f d = user_guarded e req (\<lambda>pr.
    case get_user uid d of
      None \<Rightarrow> (refused None, [], d)
    | Some u \<Rightarrow>
       let admin = pr_username pr;
           password = strip (fm_password f);
           resetting = (password \<noteq> []);
           v = changed_user pr f u;
           identity = validate_universal_identity v;
           errors = validate_password e password (u_username v) (u_email v) (u_display_name v) None
             (recent_hashes e uid d);
           d1 = upd_user uid (\<lambda>u. if resetting then reset_password e password (changed_user pr f u)
                                  else changed_user pr f u)
             (if resetting then add_old_hash e u d else d)
       in
       if u_desired_action u = DA_DELETE \<or> \<not> can_manage_subject e req u d then (refused (Some u), [], d)
       else if fm_password_generated f = ''true'' \<and> fm_handoff_confirmed f \<noteq> ''true'' then
         (user_form_error 422 ''Generate the password again, save the full value, and confirm the handoff before saving the reset.'', [], d)
       else if \<exists>t \<in> set (fm_target_ids f). connector_for t (get_connectors e d) = None then
         (Redirect (cat [''/users/'', show_nat uid]), [], d)
       else if \<not> iv_ok identity then (user_form_error 422 (iv_detail identity), [], d)
       else if resetting \<and> fm_confirm_password f \<noteq> None \<and> fm_password_generated f \<noteq> ''true''
               \<and> fm_confirm_password f \<noteq> Some password then
         (user_form_error 422 ''Password confirmation does not match.'', [], d)
       else if resetting \<and> errors \<noteq> [] then (user_form_error 422 (join_with '' '' errors), [], d)
       else
         (case request_operation e uid UPDATE admin None d1 of
            (Inl err, _) \<Rightarrow> (user_form_error 409 err, [], d)
          | (Inr i, d2) \<Rightarrow>
             (case set_pending e uid (if resetting then Some password else None)
                     (chosen_targets e (fm_target_ids f))
                     (pending_options\<lparr>po_require_password_change := resetting, po_actor := admin\<rparr>)
                     (upd_user uid (\<lambda>u. u\<lparr>u_desired_action := ENSURE\<rparr>) d2) of
                Inl err \<Rightarrow> (ServerError err, [], d)
              | Inr d3 \<Rightarrow>
                 (users_feedback ''Changes saved''
                    (if resetting then cat [u_username u, '' was updated; a temporary password was set and the user must change it at next sign-in. Target synchronization has started.'']
                     else cat [u_username u, '' was updated and target synchronization has started.'']) ''success'',
                  [system_task uid None i],
                  (if u_role v = u_role u then id
                   else record_audit e admin ''role.assigned'' (u_username u)
                          (cat [''from='', u_role u, ''; to='', u_role v]) (Some i))
                    (record_audit e admin ''user.update'' (u_username u) [] (Some i) d3))))) d"

section \<open>Deletion, restoration and purge\<close>

definition plain_event :: "string \<Rightarrow> string \<Rightarrow> string \<Rightarrow> uuid \<Rightarrow> string \<Rightarrow> Event" where
  "plain_event actor subject key i outcome = \<lparr>ev_actor = actor, ev_subject = subject,
     ev_dedupe_key = key, ev_operation_id = Some i, ev_target_id = None, ev_outcome = Some outcome\<rparr>"

definition assigned_targets :: "id \<Rightarrow> db \<Rightarrow> string list" where
  "assigned_targets uid d = map ss_target (filter (\<lambda>s. ss_assigned s \<and> \<not> ss_retired s) (user_states uid d))"

definition delete_unavailable :: Response where
  "delete_unavailable = users_feedback ''Delete unavailable'' ''The account was not found or is protected.'' ''danger''"

definition delete_user :: "Env \<Rightarrow> Request \<Rightarrow> id \<Rightarrow> db \<Rightarrow> answer" where
  "delete_user e req uid d = user_guarded e req (\<lambda>pr.
    case get_user uid d of
      None \<Rightarrow> (delete_unavailable, [], d)
    | Some u \<Rightarrow>
       if \<not> can_manage_subject e req u d then (delete_unavailable, [], d)
       else
         (case request_operation e uid DELETE (pr_username pr) None d of
            (Inl _, _) \<Rightarrow> (ServerError ''OperationConflict'', [], d)
          | (Inr i, d1) \<Rightarrow>
             (case set_pending e uid None (Some (assigned_targets uid d1))
                     (pending_options\<lparr>po_update_exceptions := False\<rparr>)
                     (upd_user uid (\<lambda>u. u\<lparr>u_desired_action := DA_DELETE,
                        u_deletion_requested_at := Some (now e), u_deleted_at := None\<rparr>) d1) of
                Inl err \<Rightarrow> (ServerError err, [], d)
              | Inr d2 \<Rightarrow>
                 (users_feedback ''Deletion requested'' (cat [''Operation '', show_nat i, '' is removing '',
                    u_username u, '' from assigned targets. Recovery appears only after it completes.'']) ''info'',
                  [system_task uid (Some DA_DELETE) i],
                  notify e ''approval.completed''
                    (plain_event (pr_username pr) (u_username u) (cat [''delete:'', show_nat i]) i ''approved'')
                    (record_audit e (pr_username pr) ''user.delete'' (u_username u) ''requested'' (Some i) d2))))) d"

definition retry_user_target :: "Env \<Rightarrow> Request \<Rightarrow> id \<Rightarrow> string \<Rightarrow> db \<Rightarrow> answer" where
  "retry_user_target e req uid target d = user_guarded e req (\<lambda>pr.
    let valid = map c_target_id (get_connectors e d) @
          (if s_config_file (settings e) then [] else [''opnsense'', ''nexus'', ''nextcloud'']) in
    if target \<notin> set valid then (Redirect ''/users'', [], d)
    else
      (case get_user uid d of
         None \<Rightarrow> (Redirect ''/users'', [], d)
       | Some u \<Rightarrow>
          if \<not> can_manage_subject e req u d then (Redirect ''/users'', [], d)
          else
            (let i = Option.bind (find (\<lambda>s. ss_target s = target) (user_states uid d)) ss_operation_id in
             (Redirect ''/users'',
              [\<lparr>tk_user = uid, tk_action = None, tk_target = Some target, tk_actor = ''manual-retry'',
                tk_operation = i\<rparr>],
              record_audit e (pr_username pr) ''sync.retry'' (u_username u) target i d)))) d"

definition restorable :: "Env \<Rightarrow> Request \<Rightarrow> ManagedUser \<Rightarrow> db \<Rightarrow> bool" where
  "restorable e req u d \<longleftrightarrow> can_manage_subject e req u d \<and> u_desired_action u = DA_DELETE \<and> u_deleted_at u \<noteq> None"

definition restore_unavailable :: Response where
  "restore_unavailable = users_feedback ''Restore unavailable''
     ''The account can be restored only after remote deletion completes.'' ''danger''"

definition action_page_error :: "string \<Rightarrow> Response" where
  "action_page_error message = Page ''user_action.html'' 422 message"

definition restore_user :: "Env \<Rightarrow> Request \<Rightarrow> id \<Rightarrow> string \<Rightarrow> string option \<Rightarrow> db \<Rightarrow> answer" where
  "restore_user e req uid password confirm_password d = user_guarded e req (\<lambda>pr.
    case get_user uid d of
      None \<Rightarrow> (restore_unavailable, [], d)
    | Some u \<Rightarrow>
       let plain = strip password;
           errors = validate_password e plain (u_username u) (u_email u) (u_display_name u) None []
       in
       if \<not> restorable e req u d \<or> plain = [] then (restore_unavailable, [], d)
       else if confirm_password \<noteq> None \<and> confirm_password \<noteq> Some password then
         (action_page_error ''Password confirmation does not match.'', [], d)
       else if errors \<noteq> [] then (action_page_error (join_with '' '' errors), [], d)
       else
         (case request_operation e uid RESTORE (pr_username pr) None d of
            (Inl _, _) \<Rightarrow>
              (users_feedback ''User not restored'' ''Another lifecycle operation is still running.'' ''danger'', [], d)
          | (Inr i, d1) \<Rightarrow>
             let d2 = upd_user uid (\<lambda>u. reset_password e plain (u\<lparr>u_desired_action := ENSURE,
                        u_deletion_requested_at := None, u_deleted_at := None, u_status := US_ACTIVE\<rparr>))
                        (add_old_hash e u d1);
                 selected = map fst (resolve_assignment_intents uid (get_connectors e d2) d2)
             in
             (case set_pending e uid (Some plain) (Some selected)
                     (pending_options\<lparr>po_require_password_change := True,
                        po_remote_accounts_absent := True, po_update_exceptions := False\<rparr>) d2 of
                Inl err \<Rightarrow> (ServerError err, [], d)
              | Inr d3 \<Rightarrow>
                 (users_feedback ''User restored'' (cat [u_username u, '' is active locally. The user must replace the temporary password before assigned targets are provisioned again.'']) ''success'',
                  [system_task uid None i],
                  record_audit e (pr_username pr) ''user.restore'' (u_username u) [] (Some i) d3)))) d"

text \<open>Deleting the row of a user deletes, through the relationships of the class, the states and the
  SSH keys of the user, and no other row: foreign keys are not enforced by the database.\<close>

definition delete_user_row :: "id \<Rightarrow> db \<Rightarrow> db" where
  "delete_user_row uid d = d\<lparr>users := rows_del u_id uid (users d),
     sync_states := filter (\<lambda>s. ss_user_id s \<noteq> uid) (sync_states d),
     ssh_keys := filter (\<lambda>k. k_user_id k \<noteq> uid) (ssh_keys d)\<rparr>"

definition purge_unavailable :: Response where
  "purge_unavailable = users_feedback ''Purge unavailable''
     ''The local record can be purged only after remote deletion completes.'' ''danger''"

definition purge_user :: "Env \<Rightarrow> Request \<Rightarrow> id \<Rightarrow> string \<Rightarrow> db \<Rightarrow> answer" where
  "purge_user e req uid confirm_username d = user_guarded e req (\<lambda>pr.
    case get_user uid d of
      None \<Rightarrow> (purge_unavailable, [], d)
    | Some u \<Rightarrow>
       if \<not> restorable e req u d then (purge_unavailable, [], d)
       else if confirm_username \<noteq> u_username u then
         (action_page_error (cat [''Type '', [CHR 0x22], u_username u, [CHR 0x22], '' exactly to confirm permanent removal.'']), [], d)
       else
         (case request_operation e uid PURGE (pr_username pr) None d of
            (Inl _, _) \<Rightarrow> (ServerError ''OperationConflict'', [], d)
          | (Inr i, d1) \<Rightarrow>
             let admin = pr_username pr;
                 d2 = record_audit e admin ''user.purge'' (u_username u) [] (Some i)
                   (finish_with e uid i SUCCEEDED 0 0 [] d1);
                 d3 = notify e ''approval.completed''
                   (plain_event admin (u_username u) (cat [''purge:'', show_nat i]) i ''approved'') d2;
                 d4 = notify e ''lifecycle.completed''
                   (plain_event admin (u_username u)
                     (cat [show_nat i, '':'', operation_status_value SUCCEEDED]) i
                     (operation_status_value SUCCEEDED)) d3
             in (users_feedback ''Local record purged'' (cat [u_username u, '' was removed locally. Correlated operation and audit history were retained.'']) ''success'',
                 [], delete_user_row uid d4))) d"


section \<open>Bulk actions\<close>

definition BULK_ACTIONS :: "string list" where
  "BULK_ACTIONS = [''assign'', ''unassign'', ''disable'', ''retry'']"

text \<open>\<open>dict.fromkeys\<close> keeps the first occurrence of an identifier.\<close>

definition bulk_selection :: "id list \<Rightarrow> id list" where
  "bulk_selection user_ids = take 100 (rev (remdups (rev user_ids)))"

record BulkRun =
  bk_db :: db
  bk_queued :: "(id \<times> string option \<times> uuid option) list"
  bk_succeeded :: nat
  bk_failures :: "string list"

definition bulk_failure :: "string list \<Rightarrow> BulkRun \<Rightarrow> BulkRun" where
  "bulk_failure parts b = b\<lparr>bk_failures := bk_failures b @ [cat parts]\<rparr>"

definition bulk_success ::
  "Env \<Rightarrow> string \<Rightarrow> string \<Rightarrow> string \<Rightarrow> uuid \<Rightarrow> ManagedUser \<Rightarrow> BulkRun \<Rightarrow> BulkRun" where
  "bulk_success e admin action target_id parent u b =
    b\<lparr>bk_db := record_audit e admin (cat [''bulk.'', action]) (u_username u)
        (cat [''target='', if target_id = [] then ''all'' else target_id]) (Some parent) (bk_db b),
      bk_succeeded := Suc (bk_succeeded b)\<rparr>"

definition reusable_operation :: "SyncState \<Rightarrow> db \<Rightarrow> uuid option" where
  "reusable_operation s d =
    (case Option.bind (ss_operation_id s) (\<lambda>i. get_operation i d) of
       None \<Rightarrow> None
     | Some oper \<Rightarrow> if op_status oper \<in> {OP_FAILED, PARTIALLY_FAILED, QUEUED, RUNNING}
                    then Some (op_id oper) else None)"

text \<open>One account of a bulk action; \<open>d0\<close> is the committed database, in which the rights of the
  signed-in operator are looked up, and \<open>Inl\<close> an exception that ends the whole action.\<close>

definition bulk_one ::
  "Env \<Rightarrow> Request \<Rightarrow> string \<Rightarrow> string \<Rightarrow> string \<Rightarrow> uuid \<Rightarrow> db \<Rightarrow> id \<Rightarrow> BulkRun \<Rightarrow> string + BulkRun" where
  "bulk_one e req admin action target_id parent d0 uid b =
    (let d = bk_db b; done = bulk_success e admin action target_id parent in
     case get_user uid d of
       None \<Rightarrow> Inr (bulk_failure [show_nat uid, '': unavailable or protected''] b)
     | Some u \<Rightarrow>
        if \<not> can_manage_subject e req u d0 \<or> u_desired_action u = DA_DELETE then
          Inr (bulk_failure [show_nat uid, '': unavailable or protected''] b)
        else if action = ''retry'' then
          (let states = filter (\<lambda>s. \<not> ss_retired s \<and> ss_state s = FAILED \<and>
                 (target_id = [] \<or> ss_target s = target_id)) (user_states uid d) in
           if states = [] then Inr (bulk_failure [u_username u, '': no failed targets''] b)
           else Inr (done u (b\<lparr>bk_queued := bk_queued b @
                 map (\<lambda>s. (uid, Some (ss_target s), reusable_operation s d)) states\<rparr>)))
        else if action = ''disable'' then
          (if u_status u = US_DISABLED then Inr (done u b)
           else
             (case request_operation e uid DISABLE admin None d of
                (Inl err, d1) \<Rightarrow> Inr (bulk_failure [u_username u, '': '', err] (b\<lparr>bk_db := d1\<rparr>))
              | (Inr i, d1) \<Rightarrow>
                 Inr (done u (b\<lparr>bk_db := upd_user uid (\<lambda>u. u\<lparr>u_status := US_DISABLED\<rparr>) d1,
                   bk_queued := bk_queued b @ [(uid, None, Some i)]\<rparr>))))
        else
          (let assigned = assigned_targets uid d;
               changed = (if action = ''assign'' then target_id \<notin> set assigned else target_id \<in> set assigned)
           in
           if \<not> changed then Inr (done u b)
           else
             (case request_operation e uid UPDATE admin None d of
                (Inl err, d1) \<Rightarrow> Inr (bulk_failure [u_username u, '': '', err] (b\<lparr>bk_db := d1\<rparr>))
              | (Inr i, d1) \<Rightarrow>
                 (case set_pending e uid None
                         (Some (if action = ''assign'' then assigned @ [target_id]
                                else filter (\<lambda>t. t \<noteq> target_id) assigned))
                         (pending_options\<lparr>po_actor := admin\<rparr>) d1 of
                    Inl err \<Rightarrow> Inl err
                  | Inr d2 \<Rightarrow> Inr (done u (b\<lparr>bk_db := d2,
                      bk_queued := bk_queued b @ [(uid, None, Some i)]\<rparr>))))))"

fun bulk_all ::
  "Env \<Rightarrow> Request \<Rightarrow> string \<Rightarrow> string \<Rightarrow> string \<Rightarrow> uuid \<Rightarrow> db \<Rightarrow> id list \<Rightarrow> BulkRun \<Rightarrow> string + BulkRun" where
  "bulk_all e req admin action target_id parent d0 [] b = Inr b"
| "bulk_all e req admin action target_id parent d0 (i # is) b =
    (case bulk_one e req admin action target_id parent d0 i b of
       Inl err \<Rightarrow> Inl err | Inr b' \<Rightarrow> bulk_all e req admin action target_id parent d0 is b')"

definition bulk_status :: "BulkRun \<Rightarrow> OperationStatus" where
  "bulk_status b = (if bk_failures b = [] then SUCCEEDED
     else if bk_succeeded b > 0 then PARTIALLY_FAILED else OP_FAILED)"

definition optional_text :: "string \<Rightarrow> string option" where
  "optional_text s = (if s = [] then None else Some s)"

definition bulk_event :: "string \<Rightarrow> string \<Rightarrow> string \<Rightarrow> string \<Rightarrow> uuid \<Rightarrow> BulkRun \<Rightarrow> Event" where
  "bulk_event admin subject key target_id parent b = \<lparr>ev_actor = admin, ev_subject = subject,
     ev_dedupe_key = key, ev_operation_id = Some parent, ev_target_id = optional_text target_id,
     ev_outcome = Some (operation_status_value (bulk_status b))\<rparr>"

definition bulk_finished ::
  "Env \<Rightarrow> string \<Rightarrow> string \<Rightarrow> string \<Rightarrow> string \<Rightarrow> uuid \<Rightarrow> BulkRun \<Rightarrow> db" where
  "bulk_finished e admin subject action target_id parent b =
    (let failed = length (bk_failures b);
         st = bulk_status b;
         d1 = upd_operation parent (\<lambda>oper. oper\<lparr>op_completed_targets := bk_succeeded b,
                op_failed_targets := failed, op_status := st,
                op_detail := cat ([''action='', action, ''; succeeded='', show_nat (bk_succeeded b),
                  ''; failed='', show_nat failed] @
                  (if bk_failures b = [] then [] else [''; '', join_with '' | '' (take 10 (bk_failures b))])),
                op_completed_at := Some (now e)\<rparr>) (bk_db b);
         d2 = notify e ''approval.completed''
                (bulk_event admin subject (cat [''bulk:'', show_nat parent]) target_id parent b) d1
     in notify e ''lifecycle.completed''
          (bulk_event admin subject (cat [show_nat parent, '':'', operation_status_value st]) target_id parent b) d2)"

definition find_bulk :: "string \<Rightarrow> string \<Rightarrow> db \<Rightarrow> LifecycleOperation option" where
  "find_bulk admin subject d =
    find (\<lambda>oper. op_command oper = BULK \<and> op_actor oper = admin \<and> op_subject oper = subject) (operations d)"

text \<open>The replay token is \<open>None\<close> when its text is no UUID.\<close>

definition bulk_execute ::
  "Env \<Rightarrow> Request \<Rightarrow> id list \<Rightarrow> string \<Rightarrow> string \<Rightarrow> uuid option \<Rightarrow> db \<Rightarrow> answer" where
  "bulk_execute e req user_ids action target_id replay_token d = user_guarded e req (\<lambda>pr.
    case replay_token of
      None \<Rightarrow> (users_feedback ''Bulk action rejected''
        ''The confirmation token is invalid. Preview the action again.'' ''danger'', [], d)
    | Some token \<Rightarrow>
       let admin = pr_username pr; selected = bulk_selection user_ids;
           subject = cat [''bulk:'', show_nat token]
       in
       if selected = [] \<or> action \<notin> set BULK_ACTIONS
          \<or> (action \<in> {''assign'', ''unassign''} \<and> connector_for target_id (get_connectors e d) = None) then
         (users_feedback ''Bulk action rejected''
            ''The selected accounts or action are no longer valid. Preview the action again.'' ''danger'', [], d)
       else
         (case find_bulk admin subject d of
            Some existing \<Rightarrow> (users_feedback ''Bulk action already processed''
              (cat [''No changes were repeated. Correlation '', show_nat (op_id existing),
                '' records the original result.'']) ''success'', [], d)
          | None \<Rightarrow>
             let parent = uuid4 d;
                 oper = (new_operation e parent None BULK admin subject (optional_text target_id) None)
                   \<lparr>op_status := RUNNING, op_total_targets := length selected, op_started_at := Some (now e)\<rparr>
             in
             (case bulk_all e req admin action target_id parent d selected
                     \<lparr>bk_db = add_operation oper d, bk_queued = [], bk_succeeded = 0, bk_failures = []\<rparr> of
                Inl err \<Rightarrow> (ServerError err, [], d)
              | Inr b \<Rightarrow>
                 (users_feedback
                    (if bk_failures b = [] then ''Bulk action complete'' else ''Bulk action partially complete'')
                    (cat [show_nat (bk_succeeded b), '' account(s) accepted; '',
                      show_nat (length (bk_failures b)), '' failed validation. Correlation '', show_nat parent,
                      ''. Replaying this confirmation will not repeat changes.''])
                    (if bk_failures b = [] then ''success'' else ''danger''),
                  map (\<lambda>(uid, retry_target, i). \<lparr>tk_user = uid, tk_action = None, tk_target = retry_target,
                     tk_actor = admin, tk_operation = i\<rparr>) (bk_queued b),
                  bulk_finished e admin subject action target_id parent b)))) d"


section \<open>Requests to the administration of accounts\<close>

datatype UserEvent =
    CreateUser UserForm
  | UpdateUser id UserForm
  | DeleteUser id
  | RetryTarget id string
  | RestoreUser id string "string option"
  | PurgeUser id string
  | BulkExecute "id list" string string "uuid option"

definition handle_user :: "Env \<Rightarrow> Request \<Rightarrow> UserEvent \<Rightarrow> db \<Rightarrow> answer" where
  "handle_user e req ev d = (case ev of
     CreateUser f \<Rightarrow> create_user e req f d
   | UpdateUser uid f \<Rightarrow> update_user e req uid f d
   | DeleteUser uid \<Rightarrow> delete_user e req uid d
   | RetryTarget uid t \<Rightarrow> retry_user_target e req uid t d
   | RestoreUser uid p c \<Rightarrow> restore_user e req uid p c d
   | PurgeUser uid c \<Rightarrow> purge_user e req uid c d
   | BulkExecute is action t token \<Rightarrow> bulk_execute e req is action t token d)"

definition db_after :: "answer \<Rightarrow> db" where
  "db_after a = snd (snd a)"

section \<open>What resetting the states leaves alone\<close>

definition rest_of :: "db \<Rightarrow> db" where
  "rest_of d = d\<lparr>users := [], sync_states := [], exceptions := []\<rparr>"

lemma rest_of_steps [simp]:
  "rest_of (upd_user i f d) = rest_of d" "rest_of (upd_state j g d) = rest_of d"
  "rest_of (d\<lparr>sync_states := x\<rparr>) = rest_of d" "rest_of (d\<lparr>exceptions := y\<rparr>) = rest_of d"
  "rest_of (d\<lparr>users := z\<rparr>) = rest_of d"
  by (simp_all add: rest_of_def upd_user_def upd_state_def)

lemma fold_same:
  assumes "\<And>x d. x \<in> set xs \<Longrightarrow> h (f x d) = h d"
  shows "h (fold f xs d) = h d"
  using assms by (induction xs arbitrary: d) simp_all

lemma record_target_exception_frame:
  "rest_of (record_target_exception uid selected base actor t d) = rest_of d"
  "users (record_target_exception uid selected base actor t d) = users d"
  "sync_states (record_target_exception uid selected base actor t d) = sync_states d"
  by (auto simp: record_target_exception_def upd_exception_def Let_def split: option.splits)

lemma record_selected_frame [simp]:
  "rest_of (record_selected_target_exceptions uid selected actor d) = rest_of d"
  "users (record_selected_target_exceptions uid selected actor d) = users d"
  "sync_states (record_selected_target_exceptions uid selected actor d) = sync_states d"
  by (auto simp: record_selected_target_exceptions_def Let_def record_target_exception_frame
      intro!: fold_same split: option.splits)

lemma unselect_states_frame [simp]:
  "rest_of (unselect_states uid selected d) = rest_of d"
  "users (unselect_states uid selected d) = users d"
  by (auto simp: unselect_states_def intro!: fold_same)

lemma select_targets_Inl [simp]: "fold (select_target e uid cs rq ab hp) ts (Inl err) = Inl err"
  by (induction ts) (simp_all add: select_target_def)

lemma select_target_frame:
  assumes "select_target e uid cs rq ab hp t (Inr d) = Inr d'"
  shows "rest_of d' = rest_of d" "users d' = users d"
  using assms by (auto simp: select_target_def Let_def split: option.splits)

lemma select_targets_frame:
  assumes "fold (select_target e uid cs rq ab hp) ts (Inr d) = Inr d'"
  shows "rest_of d' = rest_of d \<and> users d' = users d"
  using assms
proof (induction ts arbitrary: d)
  case (Cons t ts)
  then obtain d1 where d1: "select_target e uid cs rq ab hp t (Inr d) = Inr d1"
    by (cases "select_target e uid cs rq ab hp t (Inr d)") simp_all
  then show ?case using Cons select_target_frame [OF d1] by simp
qed simp

text \<open>The two parts of \<open>set_pending\<close>: the secret and the exceptions, then the states.\<close>

definition pending_secret_set :: "Env \<Rightarrow> id \<Rightarrow> string option \<Rightarrow> PendingOptions \<Rightarrow> db \<Rightarrow> db" where
  "pending_secret_set e uid password opts d =
    (if po_require_password_change opts then upd_user uid (\<lambda>u. u\<lparr>u_pending_secret := None\<rparr>) d
     else case password of None \<Rightarrow> d
       | Some p \<Rightarrow> upd_user uid (\<lambda>u. u\<lparr>u_pending_secret := Some (encrypt_secret e p)\<rparr>) d)"

lemma set_pending_Inr:
  assumes "set_pending e uid p ts opts d = Inr d'"
  obtains u selected d1 where "get_user uid d = Some u" "is_root u \<Longrightarrow> selected = []"
    "distinct selected" "\<And>xs. ts = Some xs \<Longrightarrow> set selected = set xs"
    "rest_of d1 = rest_of d" "users d1 = users (pending_secret_set e uid p opts d)" "sync_states d1 = sync_states d"
    "fold (select_target e uid (get_connectors e d) (po_require_password_change opts)
      (po_remote_accounts_absent opts) (p \<noteq> None)) selected (Inr (unselect_states uid selected d1)) = Inr d'"
proof -
  obtain u where u: "get_user uid d = Some u" using assms by (auto simp: set_pending_def split: option.splits)
  define selected where "selected = remdups (case ts of Some ts \<Rightarrow> ts
               | None \<Rightarrow> if user_states uid d \<noteq> [] \<or> \<not> s_config_file (settings e)
                         then map c_target_id (get_connectors e d) else [])"
  define d1 where "d1 = (if po_update_exceptions opts
      then record_selected_target_exceptions uid selected (po_actor opts) (pending_secret_set e uid p opts d)
      else pending_secret_set e uid p opts d)"
  have "rest_of d1 = rest_of d" "users d1 = users (pending_secret_set e uid p opts d)" "sync_states d1 = sync_states d"
    by (auto simp: d1_def pending_secret_set_def split: option.splits)
  moreover have "set_pending e uid p ts opts d = (if is_root u \<and> selected \<noteq> [] then Inl ''ValueError''
      else fold (select_target e uid (get_connectors e d) (po_require_password_change opts)
        (po_remote_accounts_absent opts) (p \<noteq> None)) selected (Inr (unselect_states uid selected d1)))"
    unfolding set_pending_def Let_def u option.case d1_def pending_secret_set_def selected_def by (rule refl)
  moreover have "distinct selected" "\<And>xs. ts = Some xs \<Longrightarrow> set selected = set xs"
    by (simp_all add: selected_def)
  ultimately show ?thesis using that u assms by (metis sum.distinct(1))
qed

lemma set_pending_frame:
  assumes "set_pending e uid p ts opts d = Inr d'"
  shows "rest_of d' = rest_of d" "users d' = users (pending_secret_set e uid p opts d)"
  using set_pending_Inr [OF assms] select_targets_frame by (metis unselect_states_frame)+

lemma select_targets_succeed:
  assumes "\<forall>t\<in>set ts. connector_for t cs \<noteq> None"
  shows "\<exists>d'. fold (select_target e uid cs rq ab hp) ts (Inr d) = Inr d'"
  using assms
proof (induction ts arbitrary: d)
  case (Cons t ts)
  have "\<exists>d1. select_target e uid cs rq ab hp t (Inr d) = Inr d1"
    using Cons.prems by (auto simp: select_target_def Let_def split: option.split)
  then obtain d1 where "select_target e uid cs rq ab hp t (Inr d) = Inr d1" by blast
  then show ?case using Cons by simp
qed simp

lemma set_pending_succeeds:
  assumes "get_user uid d \<noteq> None" "\<And>u. get_user uid d = Some u \<Longrightarrow> \<not> is_root u"
    "set ts \<subseteq> T" "\<forall>t\<in>T. connector_for t (get_connectors e d) \<noteq> None"
  shows "\<exists>d'. set_pending e uid p (Some ts) opts d = Inr d'"
proof -
  obtain u where u: "get_user uid d = Some u" "\<not> is_root u" using assms(1,2) by blast
  have "\<forall>t\<in>set (remdups ts). connector_for t (get_connectors e d) \<noteq> None" using assms(3,4) by auto
  from select_targets_succeed [OF this] show ?thesis by (simp add: set_pending_def u Let_def)
qed

lemma rest_of_field:
  assumes "rest_of d' = rest_of d" "\<And>x. f (rest_of x) = f x"
  shows "f d' = f d"
  using assms by metis

lemma rest_of_tables:
  assumes "rest_of d' = rest_of d"
  shows "operations d' = operations d" "audit d' = audit d" "mfas d' = mfas d" "passkeys d' = passkeys d"
    "histories d' = histories d" "tick d' = tick d" "user_profiles d' = user_profiles d" "policies d' = policies d"
    "ssh_keys d' = ssh_keys d" "deliveries d' = deliveries d"
  by (rule rest_of_field [OF assms], simp add: rest_of_def)+


section \<open>Steps that concern one account\<close>

text \<open>The rows of the other accounts are kept, and the role of the account stays in the given set.\<close>

definition role_step :: "id \<Rightarrow> string set \<Rightarrow> db \<Rightarrow> db \<Rightarrow> bool" where
  "role_step uid R d d' \<longleftrightarrow> (\<forall>j. j \<noteq> uid \<longrightarrow> get_user j d' = get_user j d) \<and>
     (\<forall>u. get_user uid d = Some u \<and> u_role u \<in> R \<longrightarrow> (\<exists>v. get_user uid d' = Some v \<and> u_role v \<in> R))"

lemma role_step_refl [simp]: "role_step uid R d d"
  by (simp add: role_step_def)

lemma role_step_trans: "role_step uid R a b \<Longrightarrow> role_step uid R b c \<Longrightarrow> role_step uid R a c"
  unfolding role_step_def by metis

lemma role_step_users: "users d' = users d \<Longrightarrow> role_step uid R d d'"
  by (simp add: role_step_def get_user_def)

lemma role_step_upd:
  assumes "\<And>u. u_id (f u) = u_id u" "\<And>u. u_role u \<in> R \<Longrightarrow> u_role (f u) \<in> R"
  shows "role_step uid R d (upd_user uid f d)"
  using assms by (auto simp: role_step_def user_table.get_upd)

lemma role_step_only_active: "only_active uid d d' \<Longrightarrow> role_step uid R d d'"
  unfolding only_active_def role_step_def by fastforce

lemma role_step_request:
  "request_operation e uid c a t d = (r, d') \<Longrightarrow> role_step uid R d d'"
  using role_step_only_active [OF only_active_request] by (metis snd_conv)

lemma role_step_finish: "role_step uid R d (finish_with e uid i st m n det d)"
  by (rule role_step_only_active [OF only_active_finish_with])

lemma role_step_set_pending:
  assumes "set_pending e uid p ts opts d = Inr d'" shows "role_step uid R d d'"
proof -
  have "role_step uid R d (pending_secret_set e uid p opts d)"
    by (auto simp: pending_secret_set_def role_step_upd split: option.splits)
  then show ?thesis
    using role_step_trans role_step_users set_pending_frame(2) [OF assms] by blast
qed

lemmas role_step_intros = role_step_trans [OF _ role_step_users] role_step_trans [OF role_step_request]
  role_step_trans [OF role_step_set_pending]

lemma add_old_hash_users [simp]: "users (add_old_hash e u d) = users d" "users (add_history e i h d) = users d"
  by (auto simp: add_old_hash_def add_history_def split: option.splits)

lemma can_manage_role:
  "can_manage_subject e req u d \<Longrightarrow> u_role u = ''user'' \<or> (\<not> is_root u \<and>
     (\<exists>pr. current_user e req d = Some pr \<and> has_permission (pr_role pr) MANAGE_SECURITY))"
  by (auto simp: can_manage_subject_def split: option.splits)

definition new_roles :: "Env \<Rightarrow> Request \<Rightarrow> db \<Rightarrow> string set" where
  "new_roles e req d =
    (if \<exists>pr. current_user e req d = Some pr \<and> has_permission (pr_role pr) MANAGE_SECURITY
     then set ASSIGNABLE_ROLES else {''user''})"

definition manageable :: "Env \<Rightarrow> Request \<Rightarrow> ManagedUser \<Rightarrow> db \<Rightarrow> bool" where
  "manageable e req u d \<longleftrightarrow> \<not> is_root u \<and> (u_role u = ''user'' \<or>
     (\<exists>pr. current_user e req d = Some pr \<and> has_permission (pr_role pr) MANAGE_SECURITY))"

text \<open>What a handler may do to the rows of the accounts: nothing, one manageable account changed or
  removed, or one account added.\<close>

definition account_effect :: "Env \<Rightarrow> Request \<Rightarrow> db \<Rightarrow> db \<Rightarrow> bool" where
  "account_effect e req d d' \<longleftrightarrow>
     (\<forall>j u. get_user j d = Some u \<and> \<not> manageable e req u d \<longrightarrow> get_user j d' = Some u) \<and>
     (\<forall>j u. get_user j d = Some u \<and> get_user j d' = None \<longrightarrow> restorable e req u d) \<and>
     (\<forall>j v. get_user j d' = Some v \<longrightarrow>
        (\<exists>u. get_user j d = Some u \<and> u_role v = u_role u) \<or> u_role v \<in> new_roles e req d)"

lemma account_effect_users: "users d' = users d \<Longrightarrow> account_effect e req d d'"
  by (auto simp: account_effect_def get_user_def)

lemma account_effect_subject:
  assumes "get_user uid d = Some u" "can_manage_subject e req u d"
    and "role_step uid (insert (u_role u) (new_roles e req d)) d d'"
  shows "account_effect e req d d'"
proof -
  have "manageable e req u d"
    using assms(2) by (auto simp: manageable_def can_manage_subject_def split: option.splits)
  then have "get_user j d' = Some w" if "get_user j d = Some w" "\<not> manageable e req w d" for j w
    using that assms(1,3) unfolding role_step_def by (cases "j = uid") auto
  moreover have "(\<exists>w. get_user j d = Some w \<and> u_role v = u_role w) \<or> u_role v \<in> new_roles e req d"
    if "get_user j d' = Some v" for j v
    using that assms(1,3) unfolding role_step_def by (cases "j = uid") fastforce+
  moreover have "get_user j d' \<noteq> None" if "get_user j d = Some w" for j w
    using that assms(1,3) unfolding role_step_def by (cases "j = uid") auto
  ultimately show ?thesis unfolding account_effect_def by (metis option.distinct(1))
qed


lemma db_after_simps [simp]: "db_after (resp, ts, d) = d"
  by (simp add: db_after_def)

lemma user_guarded_after:
  assumes "P d" "\<And>pr. current_user e req d = Some pr \<Longrightarrow> has_permission (pr_role pr) MANAGE_USERS \<Longrightarrow>
    P (db_after (body pr))"
  shows "P (db_after (user_guarded e req body d))"
  using assms permission_guard_InrD(1,2) by (auto simp: user_guarded_def split: sum.splits)

text \<open>The shape of a handler, branch by branch.\<close>

lemma effect_same: "account_effect e req d d" "account_effect e req d (db_after (resp, ts, d))"
  by (simp_all add: account_effect_users)

lemma effect_if:
  "(c \<Longrightarrow> account_effect e req d (db_after x)) \<Longrightarrow> (\<not> c \<Longrightarrow> account_effect e req d (db_after y)) \<Longrightarrow>
   account_effect e req d (db_after (if c then x else y))"
  by simp

lemma effect_option:
  "account_effect e req d (db_after x) \<Longrightarrow> (\<And>u. v = Some u \<Longrightarrow> account_effect e req d (db_after (g u))) \<Longrightarrow>
   account_effect e req d (db_after (case v of None \<Rightarrow> x | Some u \<Rightarrow> g u))"
  by (simp split: option.splits)

lemma effect_sum:
  "(\<And>err. r = Inl err \<Longrightarrow> account_effect e req d (db_after (f err))) \<Longrightarrow>
   (\<And>x. r = Inr x \<Longrightarrow> account_effect e req d (db_after (g x))) \<Longrightarrow>
   account_effect e req d (db_after (case r of Inl err \<Rightarrow> f err | Inr x \<Rightarrow> g x))"
  by (simp split: sum.splits)

lemma effect_result:
  "(\<And>err d'. r = (Inl err, d') \<Longrightarrow> account_effect e req d (db_after (f err d'))) \<Longrightarrow>
   (\<And>x d'. r = (Inr x, d') \<Longrightarrow> account_effect e req d (db_after (g x d'))) \<Longrightarrow>
   account_effect e req d (db_after (case r of (Inl err, d') \<Rightarrow> f err d' | (Inr x, d') \<Rightarrow> g x d'))"
  by (simp split: sum.splits prod.splits)

lemmas effect_branches = effect_if effect_option effect_sum effect_result

lemma changed_user_role:
  assumes "current_user e req d = Some pr"
  shows "u_role (changed_user pr f u) \<in> insert (u_role u) (new_roles e req d)"
  using assms by (auto simp: changed_user_def new_roles_def Let_def split: option.splits)

lemma changed_user_id [simp]: "u_id (changed_user pr f u) = u_id u" "u_username (changed_user pr f u) = u_username u"
  by (simp_all add: changed_user_def Let_def)

lemma reset_password_simps [simp]: "u_id (reset_password e p u) = u_id u" "u_role (reset_password e p u) = u_role u"
  by (simp_all add: reset_password_def)

lemma role_step_wanted: "role_step uid R d (upd_user uid (\<lambda>u. u\<lparr>u_desired_action := x\<rparr>) d)"
  by (rule role_step_upd) simp_all

lemma update_user_leaf:
  assumes pr: "current_user e req d = Some pr"
    and u: "get_user uid d = Some u" "can_manage_subject e req u d"
    and r: "request_operation e uid UPDATE a None (upd_user uid F d1) = (Inr i, d2)"
      "users d1 = users d" "\<And>w. F w \<in> {changed_user pr f w, reset_password e p (changed_user pr f w)}"
    and s: "set_pending e uid pw ts opts (upd_user uid (\<lambda>u. u\<lparr>u_desired_action := ENSURE\<rparr>) d2) = Inr d3"
      "users d4 = users d3"
  shows "account_effect e req d d4"
proof (rule account_effect_subject [OF u])
  let ?R = "insert (u_role u) (new_roles e req d)"
  have F: "u_id (F w) = u_id w" "u_role w \<in> ?R \<Longrightarrow> u_role (F w) \<in> ?R" for w
    using changed_user_role [OF pr, of f w] r(3) [of w] by auto
  have "role_step uid ?R d1 (upd_user uid F d1)" by (rule role_step_upd) (fact F)+
  from role_step_trans [OF role_step_trans [OF role_step_users [OF r(2)] this] role_step_request [OF r(1)]]
  have "role_step uid ?R d (upd_user uid (\<lambda>u. u\<lparr>u_desired_action := ENSURE\<rparr>) d2)"
    by (rule role_step_trans) (rule role_step_wanted)
  then show "role_step uid ?R d d4"
    using role_step_trans [OF role_step_trans [OF _ role_step_set_pending [OF s(1)]] role_step_users [OF s(2)]]
    by blast
qed

lemma update_user_effect: "account_effect e req d (db_after (update_user e req uid f d))"
  unfolding update_user_def Let_def
  by (rule user_guarded_after [OF effect_same(1)])
    ((rule effect_branches, rule effect_same)+, rule update_user_leaf [where f = f and p = "strip (fm_password f)"],
      assumption, assumption, blast, assumption, simp, simp, assumption, simp)

text \<open>The same for the other handlers.\<close>

lemma delete_user_effect: "account_effect e req d (db_after (delete_user e req uid d))"
proof -
  have leaf: "account_effect e req d d4"
    if u: "get_user uid d = Some u" "can_manage_subject e req u d"
      and r: "request_operation e uid DELETE a None d = (Inr i, d1)"
      and s: "set_pending e uid pw ts opts (upd_user uid (\<lambda>u. u\<lparr>u_desired_action := DA_DELETE,
          u_deletion_requested_at := x, u_deleted_at := None\<rparr>) d1) = Inr d3" "users d4 = users d3"
    for u a i d1 pw ts opts x d3 d4
  proof (rule account_effect_subject [OF u])
    let ?R = "insert (u_role u) (new_roles e req d)"
    have "role_step uid ?R d (upd_user uid (\<lambda>u. u\<lparr>u_desired_action := DA_DELETE,
          u_deletion_requested_at := x, u_deleted_at := None\<rparr>) d1)"
      by (rule role_step_trans [OF role_step_request [OF r] role_step_upd]) simp_all
    then show "role_step uid ?R d d4"
      using role_step_trans [OF role_step_trans [OF _ role_step_set_pending [OF s(1)]] role_step_users [OF s(2)]]
      by blast
  qed
  show ?thesis
    unfolding delete_user_def
    by (rule user_guarded_after)
      (auto simp: Let_def account_effect_users split: option.splits sum.splits prod.splits intro: leaf)
qed

lemma retry_user_target_effect: "account_effect e req d (db_after (retry_user_target e req uid t d))"
  unfolding retry_user_target_def
  by (rule user_guarded_after) (auto simp: Let_def account_effect_users split: option.splits)

lemma restore_user_effect: "account_effect e req d (db_after (restore_user e req uid p c d))"
proof -
  have leaf: "account_effect e req d d4"
    if u: "get_user uid d = Some u" "can_manage_subject e req u d"
      and r: "request_operation e uid RESTORE a None d = (Inr i, d1)"
      and s: "set_pending e uid pw ts opts (upd_user uid (\<lambda>u. reset_password e q (u\<lparr>u_desired_action := ENSURE,
          u_deletion_requested_at := None, u_deleted_at := None, u_status := US_ACTIVE\<rparr>)) d2) = Inr d3"
        "users d2 = users d1" "users d4 = users d3"
    for u a i d1 d2 pw ts opts q d3 d4
  proof (rule account_effect_subject [OF u])
    let ?R = "insert (u_role u) (new_roles e req d)"
    have "role_step uid ?R d (upd_user uid (\<lambda>u. reset_password e q (u\<lparr>u_desired_action := ENSURE,
          u_deletion_requested_at := None, u_deleted_at := None, u_status := US_ACTIVE\<rparr>)) d2)"
      by (rule role_step_trans [OF role_step_trans [OF role_step_request [OF r] role_step_users [OF s(2)]]
            role_step_upd]) simp_all
    then show "role_step uid ?R d d4"
      using role_step_trans [OF role_step_trans [OF _ role_step_set_pending [OF s(1)]] role_step_users [OF s(3)]]
      by blast
  qed
  show ?thesis
    unfolding restore_user_def
    by (rule user_guarded_after)
      (auto simp: Let_def account_effect_users restorable_def split: option.splits sum.splits prod.splits intro: leaf)
qed


lemma get_user_deleted: "get_user j (delete_user_row uid d) = (if j = uid then None else get_user j d)"
  by (simp add: get_user_def delete_user_row_def rows_get_del)

lemma purge_user_effect: "account_effect e req d (db_after (purge_user e req uid c d))"
proof -
  have leaf: "account_effect e req d (delete_user_row uid d3)"
    if u: "get_user uid d = Some u" "restorable e req u d"
      and r: "request_operation e uid PURGE a None d = (Inr i, d1)"
      and s: "users d3 = users (finish_with e uid i SUCCEEDED 0 0 [] d1)" for u a i d1 d3
  proof -
    have "role_step uid {} d d3"
      by (rule role_step_trans [OF role_step_trans [OF role_step_request [OF r] role_step_finish] role_step_users [OF s]])
    then have "get_user j d3 = get_user j d" if "j \<noteq> uid" for j using that by (simp add: role_step_def)
    moreover have "manageable e req u d"
      using u(2) by (auto simp: manageable_def restorable_def can_manage_subject_def split: option.splits)
    ultimately show ?thesis using u by (auto simp: account_effect_def get_user_deleted)
  qed
  show ?thesis
    unfolding purge_user_def
    by (rule user_guarded_after)
      (auto simp: Let_def account_effect_users split: option.splits sum.splits prod.splits intro: leaf)
qed

lemma get_user_added:
  assumes "get_user (u_id u) d = None"
  shows "get_user j (d\<lparr>users := users d @ [u]\<rparr>) = (if j = u_id u then Some u else get_user j d)"
  using assms by (auto simp: get_user_def rows_get_append rows_get_Cons split: option.splits)

lemma new_user_simps [simp]:
  "u_id (new_user e n f r d) = next_id u_id (users d)" "u_role (new_user e n f r d) = r"
  by (simp_all add: new_user_def)

lemma store_user_effect:
  assumes role: "u_role u \<in> new_roles e req d" and fresh: "get_user (u_id u) d = None"
  shows "account_effect e req d (db_after (store_user e a f u d))"
proof -
  have leaf: "account_effect e req d d3"
    if s: "set_pending e (u_id u) pw ts opts (d\<lparr>users := users d @ [u]\<rparr>) = Inr d1"
      and r: "request_operation e (u_id u) CREATE a None d1 = (Inr i, d2)" "users d3 = users d2"
    for pw ts opts d1 i d2 d3
  proof -
    have "role_step (u_id u) (new_roles e req d) (d\<lparr>users := users d @ [u]\<rparr>) d3"
      by (rule role_step_trans [OF role_step_trans [OF role_step_set_pending [OF s] role_step_request [OF r(1)]]
            role_step_users [OF r(2)]])
    then have *: "\<And>j. j \<noteq> u_id u \<Longrightarrow> get_user j d3 = get_user j d"
      "\<exists>v. get_user (u_id u) d3 = Some v \<and> u_role v \<in> new_roles e req d"
      using role by (auto simp: role_step_def get_user_added [OF fresh])
    show ?thesis
      unfolding account_effect_def
    proof (intro conjI allI impI)
      show "get_user j d3 = Some w" if "get_user j d = Some w \<and> \<not> manageable e req w d" for j w
        using that *(1) [of j] fresh by (cases "j = u_id u") auto
      show "(\<exists>w. get_user j d = Some w \<and> u_role v = u_role w) \<or> u_role v \<in> new_roles e req d"
        if "get_user j d3 = Some v" for j v
        using that * by (cases "j = u_id u") auto
      show "restorable e req w d" if "get_user j d = Some w \<and> get_user j d3 = None" for j w
        using that *(1) [of j] fresh by (cases "j = u_id u") auto
    qed
  qed
  show ?thesis
    by (auto simp: store_user_def account_effect_users split: sum.splits prod.splits intro: leaf)
qed

lemma store_new_user_effect:
  assumes "current_user e req d = Some pr"
  shows "account_effect e req d (db_after (store_user e a f (new_user e n f (assigned_role pr r) d) d))"
proof (rule store_user_effect)
  show "u_role (new_user e n f (assigned_role pr r) d) \<in> new_roles e req d"
    using assms by (auto simp: new_roles_def assigned_role_def ASSIGNABLE_ROLES_def)
qed (simp add: get_user_def next_id_fresh)

lemma create_user_effect: "account_effect e req d (db_after (create_user e req f d))"
  unfolding create_user_def Let_def
  by (rule user_guarded_after [OF effect_same(1)]) (intro effect_if effect_same store_new_user_effect)

text \<open>The bulk actions, account by account.  What is proved of one step holds of the whole run.\<close>

lemma bulk_all_induct:
  assumes "bulk_all e req admin action t parent d0 is b = Inr b'" "P b"
    and "\<And>uid b b'. bulk_one e req admin action t parent d0 uid b = Inr b' \<Longrightarrow> P b \<Longrightarrow> P b'"
  shows "P b'"
  using assms(1,2)
proof (induction "is" arbitrary: b)
  case (Cons i "is")
  then obtain b1 where "bulk_one e req admin action t parent d0 i b = Inr b1"
    "bulk_all e req admin action t parent d0 is b1 = Inr b'" by (auto split: sum.splits)
  then show ?case using Cons assms(3) by blast
qed simp

lemma bulk_success_users [simp]:
  "users (bk_db (bulk_success e admin action t parent u b)) = users (bk_db b)"
  "users (bk_db (bulk_failure x b)) = users (bk_db b)"
  by (simp_all add: bulk_success_def bulk_failure_def)

lemma bulk_one_step:
  assumes "bulk_one e req admin action t parent d0 uid b = Inr b'"
  shows "users (bk_db b') = users (bk_db b) \<or>
    (\<exists>u. get_user uid (bk_db b) = Some u \<and> can_manage_subject e req u d0 \<and> (\<forall>R. role_step uid R (bk_db b) (bk_db b')))"
proof -
  have disabled: "role_step uid R d d2"
    if "request_operation e uid c a tt d = (r, d1)" "users d2 = users (upd_user uid (\<lambda>u. u\<lparr>u_status := US_DISABLED\<rparr>) d1)"
    for c a tt r d d1 d2 R
    by (rule role_step_trans [OF role_step_trans [OF role_step_request [OF that(1)] role_step_upd]
          role_step_users [OF that(2)]]) simp_all
  have assigned: "role_step uid R d d3"
    if "request_operation e uid c a tt d = (r, d1)" "set_pending e uid p ts opts d1 = Inr d2" "users d3 = users d2"
    for c a tt r d d1 p ts opts d2 d3 R
    by (rule role_step_trans [OF role_step_trans [OF role_step_request [OF that(1)]
          role_step_set_pending [OF that(2)]] role_step_users [OF that(3)]])
  have refused: "role_step uid R d d2"
    if "request_operation e uid c a tt d = (r, d1)" "users d2 = users d1" for c a tt r d d1 d2 R
    by (rule role_step_trans [OF role_step_request [OF that(1)] role_step_users [OF that(2)]])
  show ?thesis
    using assms
    by (auto simp: bulk_one_def Let_def split: option.splits if_splits prod.splits sum.splits
        intro: disabled assigned refused)
qed

lemma bulk_execute_effect: "account_effect e req d (db_after (bulk_execute e req is action t token d))"
proof -
  have run: "account_effect e req d d2"
    if b: "bulk_all e req a action t parent d ids b = Inr b'" "users (bk_db b) = users d" "users d2 = users (bk_db b')"
    for a parent ids b b' d2
  proof -
    have "account_effect e req d (bk_db b')"
    proof (rule bulk_all_induct [OF b(1)])
      show "account_effect e req d (bk_db b)" using b(2) by (rule account_effect_users)
    next
      fix uid x y
      assume one: "bulk_one e req a action t parent d uid x = Inr y" and x: "account_effect e req d (bk_db x)"
      show "account_effect e req d (bk_db y)"
      proof (cases "users (bk_db y) = users (bk_db x)")
        case True
        then have "get_user j (bk_db y) = get_user j (bk_db x)" for j by (simp add: get_user_def)
        then show ?thesis using x by (simp add: account_effect_def)
      next
        case False
        then obtain u where u: "get_user uid (bk_db x) = Some u" "can_manage_subject e req u d"
          "\<And>R. role_step uid R (bk_db x) (bk_db y)"
          using bulk_one_step [OF one] by blast
        have "manageable e req u d"
          using u(2) by (auto simp: manageable_def can_manage_subject_def split: option.splits)
        have others: "get_user j (bk_db y) = get_user j (bk_db x)" if "j \<noteq> uid" for j
          using u(3) [of "{}"] that by (simp add: role_step_def)
        have "j \<noteq> uid" if "get_user j (bk_db x) = Some w" "\<not> manageable e req w d" for j w
          using that u(1) \<open>manageable e req u d\<close> by auto
        then have keep: "get_user j (bk_db y) = Some w" if "get_user j d = Some w" "\<not> manageable e req w d" for j w
          using that x others unfolding account_effect_def by metis
        obtain v' where v': "get_user uid (bk_db y) = Some v'" "u_role v' = u_role u"
          using u(1) u(3) [of "{u_role u}"] unfolding role_step_def by blast
        have "(\<exists>w. get_user j d = Some w \<and> u_role v = u_role w) \<or> u_role v \<in> new_roles e req d"
            (is "?Q j v") if "get_user j (bk_db y) = Some v" for j v
          proof (cases "j = uid")
            case True
            then show ?thesis using that v' x u(1) unfolding account_effect_def by (metis option.inject)
          next
            case False
            then show ?thesis using that others [of j] x unfolding account_effect_def by simp
          qed
        moreover have "restorable e req w d" if "get_user j d = Some w" "get_user j (bk_db y) = None" for j w
          using that x v'(1) others [of j] unfolding account_effect_def by (cases "j = uid") auto
        ultimately show ?thesis using keep unfolding account_effect_def by blast
      qed
    qed
    then show ?thesis using b(3) by (simp add: account_effect_def get_user_def)
  qed
  show ?thesis
    unfolding bulk_execute_def Let_def
    by (rule user_guarded_after)
      (auto simp: account_effect_users bulk_finished_def Let_def add_operation_def next_tick_def
        split: option.splits sum.splits intro: run)
qed

lemma handle_user_effect: "account_effect e req d (db_after (handle_user e req ev d))"
  by (cases ev) (simp_all add: handle_user_def create_user_effect update_user_effect delete_user_effect
      retry_user_target_effect restore_user_effect purge_user_effect bulk_execute_effect)


section \<open>The tables the administration does not write\<close>

definition side_tables :: "db \<Rightarrow> db" where
  "side_tables d = d\<lparr>tick := 0, users := [], operations := [], audit := [], deliveries := [],
     sync_states := [], ssh_keys := [], exceptions := []\<rparr>"

lemma side_tables_steps [simp]:
  "side_tables (upd_user i f d) = side_tables d" "side_tables (upd_state j g d) = side_tables d"
  "side_tables (upd_operation k h d) = side_tables d" "side_tables (add_operation oper d) = side_tables d"
  "side_tables (record_audit e a ac s det opid d) = side_tables d" "side_tables (delete_user_row i d) = side_tables d"
  "side_tables (finish_with e i k st m n det d) = side_tables d" "side_tables (d\<lparr>users := us\<rparr>) = side_tables d"
  "side_tables (rest_of d) = side_tables d" "side_tables (next_tick d) = side_tables d"
  by (simp_all add: side_tables_def rest_of_def upd_user_def upd_state_def upd_operation_def
      add_operation_def next_tick_def record_audit_def delete_user_row_def finish_with_def)

lemma side_tables_notify [simp]: "side_tables (notify e t ev d) = side_tables d"
proof -
  have "side_tables (without_queue x) = side_tables x" for x by (simp add: side_tables_def without_queue_def)
  then show ?thesis using notify_same [of d e t ev] by (metis same_but_queue_field)
qed

lemma side_tables_request: "request_operation e uid c a t d = (r, d') \<Longrightarrow> side_tables d' = side_tables d"
  by (auto simp: request_operation_def get_active_operation_def create_operation_def Let_def
      split: option.splits if_splits prod.splits)

lemma side_tables_set_pending: "set_pending e uid p ts opts d = Inr d' \<Longrightarrow> side_tables d' = side_tables d"
  using set_pending_frame(1) side_tables_steps(9) by metis

lemma side_tables_field:
  assumes "side_tables d' = side_tables d" "\<And>x. f (side_tables x) = f x"
  shows "f d' = f d"
  using assms by metis

lemma side_tables_fields:
  assumes "side_tables d' = side_tables d"
  shows "mfas d' = mfas d" "passkeys d' = passkeys d" "histories d' = histories d"
    "user_profiles d' = user_profiles d" "policies d' = policies d" "credentials d' = credentials d"
  by (rule side_tables_field [OF assms], simp add: side_tables_def)+

lemma connectors_kept:
  assumes "side_tables d' = side_tables d"
  shows "get_connectors e d' = get_connectors e d"
proof -
  have "credentials d' = credentials d" using assms by (rule side_tables_fields)
  then have "credential_payload e t v d' = credential_payload e t v d" for t v
    by (simp add: credential_payload_def get_credential_def)
  then show ?thesis by (simp add: get_connectors_def cong: if_cong)
qed

section \<open>A replayed bulk action\<close>

definition marks :: "db \<Rightarrow> (LifecycleCommand \<times> string \<times> string) set" where
  "marks d = (\<lambda>oper. (op_command oper, op_actor oper, op_subject oper)) ` set (operations d)"

lemma marks_same: "operations d' = operations d \<Longrightarrow> marks d' = marks d"
  by (simp add: marks_def)

lemma marks_upd:
  assumes "\<And>x. op_command (f x) = op_command x \<and> op_actor (f x) = op_actor x \<and> op_subject (f x) = op_subject x"
  shows "marks (upd_operation i f d) = marks d"
  unfolding marks_def set_upd_operation image_image using assms by (intro image_cong) auto

lemma marks_steps [simp]:
  "marks (upd_user i f d) = marks d" "marks (finish_with e i k st m n det d) = marks d"
  "marks (add_operation oper d) = insert (op_command oper, op_actor oper, op_subject oper) (marks d)"
  "marks (record_audit e a ac s det opid d) = marks d" "marks (notify e t ev d) = marks d"
  "marks (bk_db (bulk_success e a ac s parent u b)) = marks (bk_db b)"
  "marks (bk_db (bulk_failure x b)) = marks (bk_db b)"
proof -
  show "marks (upd_user i f d) = marks d" by (simp add: marks_def)
  then show "marks (finish_with e i k st m n det d) = marks d"
    unfolding finish_with_def by (simp add: marks_same [OF frame_fields(7)] marks_upd)
qed (simp_all add: marks_def add_operation_def next_tick_def bulk_success_def bulk_failure_def)

lemma marks_request:
  assumes "request_operation e uid c a t d = (r, d')" shows "marks d \<subseteq> marks d'"
  using assms
  by (auto simp: request_operation_def get_active_operation_def create_operation_def Let_def
      split: option.splits if_splits prod.splits)

lemma marks_set_pending: "set_pending e uid p ts opts d = Inr d' \<Longrightarrow> marks d' = marks d"
  by (rule marks_same [OF rest_of_tables(1) [OF set_pending_frame(1)]])

lemma find_bulk_iff: "find_bulk admin subject d = None \<longleftrightarrow> (BULK, admin, subject) \<notin> marks d"
  by (force simp: find_bulk_def find_None_iff marks_def)

lemma bulk_one_marks:
  assumes "bulk_one e req admin action t parent d0 uid b = Inr b'"
  shows "marks (bk_db b) \<subseteq> marks (bk_db b')"
  using assms
  by (auto simp: bulk_one_def Let_def split: option.splits if_splits prod.splits sum.splits
      dest!: marks_request marks_set_pending)

lemma select_targets_missing:
  assumes "t \<in> set ts" "connector_for t cs = None"
  shows "fold (select_target e uid cs rq ab hp) ts (Inr d) = Inl ''KeyError''"
  using assms(1)
proof (induction ts arbitrary: d)
  case (Cons x xs)
  show ?case
  proof (cases "connector_for x cs")
    case (Some c)
    then obtain d1 where "select_target e uid cs rq ab hp x (Inr d) = Inr d1"
      by (cases "state_of uid x d") (auto simp: select_target_def Let_def)
    then show ?thesis using Cons Some assms(2) by auto
  next
    case None
    then have "select_target e uid cs rq ab hp x (Inr d) = Inl ''KeyError''" by (simp add: select_target_def)
    then show ?thesis by simp
  qed
qed simp

lemma get_user_ids: "i \<in> u_id ` set (users d) \<longleftrightarrow> get_user i d \<noteq> None"
  by (auto simp: get_user_def rows_get_def find_None_iff)

lemma next_id_eq:
  assumes "\<forall>r \<in> set rs. key r < n" "\<exists>r \<in> set rs. Suc (key r) = n"
  shows "next_id key rs = n"
proof -
  obtain r where r: "r \<in> set rs" "Suc (key r) = n" using assms(2) by blast
  have "0 < n \<Longrightarrow> foldr (\<lambda>r m. max (key r) m) rs 0 < n" using assms(1) by (induction rs) auto
  then have "next_id key rs \<le> n" using r(2) by (auto simp: next_id_def)
  moreover have "n \<le> next_id key rs" using next_id_gt [OF r(1), of key] r(2) by simp
  ultimately show ?thesis by simp
qed

lemma bulk_execute_accepted:
  assumes guard: "permission_guard e req MANAGE_USERS d = Inr pr"
    and run: "bulk_execute e req is action t (Some token) d = (resp, ts, d')" "d' \<noteq> d"
  shows "(BULK, pr_username pr, cat [''bulk:'', show_nat token]) \<in> marks d'"
proof -
  let ?subject = "cat [''bulk:'', show_nat token]"
  let ?oper = "(new_operation e (uuid4 d) None BULK (pr_username pr) ?subject (optional_text t) None)
     \<lparr>op_status := RUNNING, op_total_targets := length (bulk_selection is), op_started_at := Some (now e)\<rparr>"
  let ?b0 = "\<lparr>bk_db = add_operation ?oper d, bk_queued = [], bk_succeeded = 0, bk_failures = []\<rparr>"
  obtain b where b: "bulk_all e req (pr_username pr) action t (uuid4 d) d (bulk_selection is) ?b0 = Inr b"
    "d' = bulk_finished e (pr_username pr) ?subject action t (uuid4 d) b"
    using guard run
    by (auto simp: bulk_execute_def user_guarded_def Let_def split: if_splits option.splits sum.splits)
  have "(BULK, pr_username pr, ?subject) \<in> marks (bk_db b)"
  proof (rule bulk_all_induct [OF b(1)])
    show "(BULK, pr_username pr, ?subject) \<in> marks (bk_db ?b0)" by (simp add: new_operation_def)
  qed (use bulk_one_marks in blast)
  then show ?thesis by (simp add: b(2) bulk_finished_def Let_def marks_upd)
qed

section \<open>The states after a selection\<close>

lemma user_states_upd:
  assumes "\<And>s. ss_user_id (f s) = ss_user_id s"
  shows "user_states j (upd_state k f d) = map (\<lambda>s. if ss_id s = k then f s else s) (user_states j d)"
  using assms by (simp add: user_states_def upd_state_def rows_upd_def filter_map comp_def if_distrib cong: if_cong)

lemma user_states_upd_other:
  assumes "states_ok d" "s \<in> set (sync_states d)" "ss_user_id s \<noteq> j" "\<And>s. ss_user_id (f s) = ss_user_id s"
  shows "user_states j (upd_state (ss_id s) f d) = user_states j d"
proof -
  have "ss_id x \<noteq> ss_id s" if "x \<in> set (user_states j d)" for x
    using that assms(1-3) by (auto simp: user_states_def states_ok_def distinct_map dest: inj_onD)
  then show ?thesis unfolding user_states_upd [OF assms(4)] by (simp add: map_idI)
qed

lemma reset_state_simps [simp]:
  "ss_id (reset_state rq v s) = ss_id s" "ss_user_id (reset_state rq v s) = ss_user_id s"
  "ss_target (reset_state rq v s) = ss_target s" "ss_state (reset_state rq v s) = v"
  "ss_assigned (reset_state rq v s)" "\<not> ss_retired (reset_state rq v s)"
  by (simp_all add: reset_state_def)

definition reset_values :: "bool \<Rightarrow> SyncStateValue set" where
  "reset_values rq = (if rq then {CHPW, PENDING_CHPW_DISABLE} else {PENDING, AWAITING_CREDENTIALS})"

lemma pending_state_values: "pending_state rq ab newly np hp prev \<in> reset_values rq"
  by (simp add: pending_state_def reset_values_def)

text \<open>What holds while the targets are selected one by one.\<close>

definition selecting :: "id \<Rightarrow> bool \<Rightarrow> string list \<Rightarrow> string set \<Rightarrow> db \<Rightarrow> bool" where
  "selecting uid rq ts dn d \<longleftrightarrow> states_ok d \<and> targets_unique uid d \<and>
     (\<forall>s \<in> set (user_states uid d). ss_assigned s \<longrightarrow> ss_target s \<in> set ts) \<and>
     (\<forall>t \<in> dn. \<exists>s \<in> set (user_states uid d). ss_target s = t \<and> ss_assigned s \<and> \<not> ss_retired s \<and>
        ss_state s \<in> reset_values rq)"

lemma state_of_None: "state_of uid t d = None \<longleftrightarrow> t \<notin> ss_target ` set (user_states uid d)"
  unfolding state_of_def find_None_iff set_rev by auto

lemma select_target_new:
  assumes inv: "selecting uid rq ts dn d" and t: "t \<in> set ts" "c_target_id c = t" "state_of uid t d = None"
    and v: "v \<in> reset_values rq"
    and d': "d' = d\<lparr>sync_states := sync_states d @ [reset_state rq v (new_state c uid d)]\<rparr>"
  shows "selecting uid rq ts (insert t dn) d' \<and> (\<forall>j. j \<noteq> uid \<longrightarrow> user_states j d' = user_states j d)"
proof -
  let ?r = "reset_state rq v (new_state c uid d)"
  have r: "ss_user_id ?r = uid" "ss_target ?r = t" "ss_id ?r = next_id ss_id (sync_states d)"
    using t(2) by (simp_all add: new_state_def)
  have states: "user_states j d' = (if j = uid then user_states uid d @ [?r] else user_states j d)" for j
    using r(1) by (simp add: user_states_def d')
  have "states_ok d'"
    using inv next_id_gt [of _ "sync_states d" ss_id] r(3)
    by (fastforce simp: selecting_def states_ok_def d')
  moreover have "targets_unique uid d'"
    using inv t(3) r(2) by (simp add: selecting_def targets_unique_def states state_of_None)
  ultimately show ?thesis
    using inv v t(1) r unfolding selecting_def states by auto
qed

lemma select_target_old:
  assumes inv: "selecting uid rq ts dn d" and t: "t \<in> set ts" "state_of uid t d = Some s"
    and v: "v \<in> reset_values rq" and d': "d' = upd_state (ss_id s) (reset_state rq v) d"
  shows "selecting uid rq ts (insert t dn) d' \<and> (\<forall>j. j \<noteq> uid \<longrightarrow> user_states j d' = user_states j d)"
proof -
  note s = state_of_mem [OF t(2)]
  have ok: "states_ok d" using inv by (simp add: selecting_def)
  have s_in: "s \<in> set (user_states uid d)" using s by (simp add: user_states_def)
  let ?g = "\<lambda>x. if ss_id x = ss_id s then reset_state rq v x else x"
  have states: "user_states uid d' = map ?g (user_states uid d)"
    unfolding d' by (rule user_states_upd) simp
  have one: "x = s" if "x \<in> set (user_states uid d)" "ss_id x = ss_id s" for x
    using that ok s(1) by (auto simp: user_states_def states_ok_def distinct_map dest: inj_onD)
  have "states_ok d'" using ok by (simp add: d' states_ok_def upd_state_def map_key_upd)
  moreover have "map ss_target (user_states uid d') = map ss_target (user_states uid d)"
    by (simp add: states)
  then have "targets_unique uid d'" using inv by (simp add: selecting_def targets_unique_def)
  moreover have "ss_target x \<in> set ts" if x: "x \<in> set (user_states uid d')" "ss_assigned x" for x
  proof -
    obtain y where y: "y \<in> set (user_states uid d)" "x = ?g y"
      using x(1) unfolding states set_map by blast
    show ?thesis
    proof (cases "ss_id y = ss_id s")
      case True
      then show ?thesis using y one [of y] s(3) t(1) by simp
    next
      case False
      then show ?thesis using y x(2) inv by (simp add: selecting_def)
    qed
  qed
  moreover have "\<exists>x \<in> set (user_states uid d'). ss_target x = t' \<and> ss_assigned x \<and> \<not> ss_retired x \<and>
      ss_state x \<in> reset_values rq" if t': "t' \<in> insert t dn" for t'
  proof -
    obtain x where x: "x \<in> set (user_states uid d)" "ss_target x = t'"
        "x = s \<or> ss_assigned x \<and> \<not> ss_retired x \<and> ss_state x \<in> reset_values rq"
      using t' inv s_in s(3) by (auto simp: selecting_def)
    then have "?g x \<in> set (user_states uid d')" by (simp add: states)
    then show ?thesis using x(2,3) v by (intro bexI [of _ "?g x"]) auto
  qed
  moreover have "user_states j d' = user_states j d" if "j \<noteq> uid" for j
    unfolding d' using that s by (intro user_states_upd_other [OF ok]) simp_all
  ultimately show ?thesis by (simp add: selecting_def)
qed

lemma select_target_selecting:
  assumes "selecting uid rq ts dn d" "t \<in> set ts" "select_target e uid cs rq ab hp t (Inr d) = Inr d'"
  shows "selecting uid rq ts (insert t dn) d' \<and> (\<forall>j. j \<noteq> uid \<longrightarrow> user_states j d' = user_states j d)"
proof -
  obtain c where c: "connector_for t cs = Some c" using assms(3) by (auto simp: select_target_def split: option.splits)
  show ?thesis
  proof (cases "state_of uid t d")
    case None
    show ?thesis
    proof (rule select_target_new [OF assms(1,2) connector_for_id [OF c] None pending_state_values])
      show "d' = d\<lparr>sync_states := sync_states d @ [reset_state rq (pending_state rq ab True
          (cap_password (c_capabilities c)) hp None) (new_state c uid d)]\<rparr>"
        using assms(3) c None by (simp add: select_target_def Let_def)
    qed
  next
    case (Some s)
    show ?thesis
    proof (rule select_target_old [OF assms(1,2) Some pending_state_values])
      show "d' = upd_state (ss_id s) (reset_state rq (pending_state rq ab (\<not> ss_assigned s)
          (cap_password (c_capabilities c)) hp (Some (ss_state s)))) d"
        using assms(3) c Some by (simp add: select_target_def Let_def)
    qed
  qed
qed

lemma select_targets_selecting:
  assumes "selecting uid rq ts dn d" "set xs \<subseteq> set ts"
    and "fold (select_target e uid cs rq ab hp) xs (Inr d) = Inr d'"
  shows "selecting uid rq ts (dn \<union> set xs) d' \<and> (\<forall>j. j \<noteq> uid \<longrightarrow> user_states j d' = user_states j d)"
  using assms
proof (induction xs arbitrary: d dn)
  case (Cons x xs)
  then obtain d1 where d1: "select_target e uid cs rq ab hp x (Inr d) = Inr d1"
    by (cases "select_target e uid cs rq ab hp x (Inr d)") simp_all
  have "selecting uid rq ts (insert x dn) d1" "\<forall>j. j \<noteq> uid \<longrightarrow> user_states j d1 = user_states j d"
    using select_target_selecting [OF Cons.prems(1) _ d1] Cons.prems(2) by auto
  then show ?case using Cons.IH [of "insert x dn" d1] Cons.prems(2,3) d1 by simp
qed simp

lemma unselect_states_eq:
  assumes "states_ok d"
  shows "unselect_states uid selected d = d\<lparr>sync_states := map (\<lambda>s. if ss_user_id s = uid \<and>
      ss_target s \<notin> set selected \<and> ss_assigned s
    then s\<lparr>ss_assigned := False, ss_state := PENDING_DISABLE, ss_next_retry_at := None\<rparr> else s) (sync_states d)\<rparr>"
  unfolding unselect_states_def by (rule fold_upd_user_states [OF assms]) simp

lemma unselect_states_selecting:
  assumes "states_ok d" "targets_unique uid d"
  shows "selecting uid rq ts {} (unselect_states uid ts d) \<and>
    (\<forall>j. j \<noteq> uid \<longrightarrow> user_states j (unselect_states uid ts d) = user_states j d)"
proof -
  let ?g = "\<lambda>s. if ss_user_id s = uid \<and> ss_target s \<notin> set ts \<and> ss_assigned s
    then s\<lparr>ss_assigned := False, ss_state := PENDING_DISABLE, ss_next_retry_at := None\<rparr> else s"
  let ?d = "unselect_states uid ts d"
  have g: "ss_user_id (?g s) = ss_user_id s" "ss_id (?g s) = ss_id s" "ss_target (?g s) = ss_target s" for s
    by simp_all
  have states: "user_states j ?d = map ?g (user_states j d)" for j
    unfolding unselect_states_eq [OF assms(1)] user_states_def by (simp add: filter_map comp_def g)
  have "map ss_id (sync_states ?d) = map ss_id (sync_states d)"
    unfolding unselect_states_eq [OF assms(1)] by (simp add: comp_def g)
  then have "states_ok ?d" using assms(1) by (simp add: states_ok_def)
  moreover have "map ss_target (user_states uid ?d) = map ss_target (user_states uid d)"
    unfolding states by (simp add: comp_def g)
  then have "targets_unique uid ?d" using assms(2) by (simp add: targets_unique_def)
  moreover have "user_states j ?d = user_states j d" if "j \<noteq> uid" for j
    unfolding states using that by (intro map_idI) (auto simp: user_states_def)
  moreover have "ss_target s \<in> set ts" if "s \<in> set (user_states uid ?d)" "ss_assigned s" for s
    using that unfolding states by (auto simp: user_states_def split: if_splits)
  ultimately show ?thesis by (simp add: selecting_def)
qed

section \<open>Properties\<close>

text \<open>The assignments of an account follow the selection.  When the states of an account are reset
  for a list of targets, exactly these targets have an assigned state afterwards; each of them
  waits for a run or for a password, according to the option, and is not retired; and the states
  of other accounts are not touched.\<close>

theorem assignment_follows_selection:
  assumes "states_ok d" "targets_unique uid d" "set_pending e uid p (Some ts) opts d = Inr d'"
  shows "set ts = ss_target ` {s \<in> set (user_states uid d'). ss_assigned s} \<and>
    (\<forall>s \<in> set (user_states uid d'). ss_assigned s \<longrightarrow> \<not> ss_retired s \<and>
       ss_state s \<in> (if po_require_password_change opts then {CHPW, PENDING_CHPW_DISABLE}
                      else {PENDING, AWAITING_CREDENTIALS})) \<and>
    (\<forall>other. other \<noteq> uid \<longrightarrow> user_states other d' = user_states other d)"
proof (rule set_pending_Inr [OF assms(3)])
  let ?rq = "po_require_password_change opts"
  fix u selected d1
  assume sel: "\<And>xs. Some ts = Some xs \<Longrightarrow> set selected = set xs" and states: "sync_states d1 = sync_states d"
    and fold: "fold (select_target e uid (get_connectors e d) ?rq (po_remote_accounts_absent opts) (p \<noteq> None))
      selected (Inr (unselect_states uid selected d1)) = Inr d'"
  have set: "set selected = set ts" using sel by blast
  have "states_ok d1" "targets_unique uid d1"
    using assms(1,2) states by (simp_all add: states_ok_def targets_unique_def user_states_def)
  note start = unselect_states_selecting [OF this, of ?rq selected]
  have final: "selecting uid ?rq selected (set selected) d'"
    "\<forall>j. j \<noteq> uid \<longrightarrow> user_states j d' = user_states j d1"
    using select_targets_selecting [OF conjunct1 [OF start] subset_refl fold] start by simp_all
  have unique: "distinct (map ss_target (user_states uid d'))"
    using final(1) by (simp add: selecting_def targets_unique_def)
  have good: "\<not> ss_retired s \<and> ss_state s \<in> reset_values ?rq" if s: "s \<in> set (user_states uid d')" "ss_assigned s" for s
  proof -
    obtain x where x: "x \<in> set (user_states uid d')" "ss_target x = ss_target s" "\<not> ss_retired x"
        "ss_state x \<in> reset_values ?rq"
      using final(1) s unfolding selecting_def by blast
    then show ?thesis using s unique by (metis distinct_map inj_onD)
  qed
  have "set ts = ss_target ` {s \<in> set (user_states uid d'). ss_assigned s}"
  proof (intro equalityI subsetI)
    fix t assume "t \<in> set ts"
    then obtain s where "s \<in> set (user_states uid d')" "ss_target s = t" "ss_assigned s"
      using final(1) unfolding selecting_def set by blast
    then show "t \<in> ss_target ` {s \<in> set (user_states uid d'). ss_assigned s}" by blast
  next
    show "t \<in> set ts" if "t \<in> ss_target ` {s \<in> set (user_states uid d'). ss_assigned s}" for t
      using that final(1) unfolding selecting_def set by blast
  qed
  moreover have "user_states j d1 = user_states j d" for j using states by (simp add: user_states_def)
  ultimately show ?thesis using good final(2) unfolding reset_values_def by simp
qed



text \<open>C21: Accounts out of reach of an operator.  Whatever request is made to the administration of
  accounts, the row of the root account is unchanged, and so is the row of every
  account with a role of its own unless the request is root's; and an account that exists
  afterwards has the role it had, is an ordinary user, or, in a request of root, has one
  of the assignable roles, so nobody becomes root.\<close>

theorem accounts_are_protected:
  assumes "d' = db_after (handle_user e req ev d)"
    and "by_root \<longleftrightarrow> (\<exists>pr. current_user e req d = Some pr \<and> has_permission (pr_role pr) MANAGE_SECURITY)"
  shows "(get_user j d = Some u \<and> (is_root u \<or> u_role u \<noteq> ''user'' \<and> \<not> by_root) \<longrightarrow> get_user j d' = Some u) \<and>
    (get_user i d' = Some v \<longrightarrow> (\<exists>w. get_user i d = Some w \<and> u_role v = u_role w) \<or>
       u_role v = ''user'' \<or> (by_root \<and> u_role v \<in> set ASSIGNABLE_ROLES))"
  using handle_user_effect [of e req d ev] assms
  unfolding account_effect_def manageable_def new_roles_def by (auto split: if_splits)


text \<open>A replayed bulk action changes nothing.  After a bulk action with a token was carried out, a
  request of the same operator with the same token, whatever accounts, action and target it
  names, starts no task and leaves the database as it is.\<close>

theorem bulk_replay:
  assumes "permission_guard e req MANAGE_USERS d = Inr pr"
    and "bulk_execute e req is action t (Some token) d = (resp, ts, d')" "d' \<noteq> d"
    and "permission_guard e' req' MANAGE_USERS d' = Inr pr'" "pr_username pr' = pr_username pr"
  shows "\<exists>resp'. bulk_execute e' req' is' action' t' (Some token) d' = (resp', [], d')"
proof -
  have "find_bulk (pr_username pr') (cat [''bulk:'', show_nat token]) d' \<noteq> None"
    using bulk_execute_accepted [OF assms(1-3)] assms(5) by (simp add: find_bulk_iff)
  then show ?thesis
    using assms(4) by (auto simp: bulk_execute_def user_guarded_def Let_def)
qed

text \<open>An account assigned to an unavailable target cannot be deleted.  When an assigned target of
  the account has no connector, for instance because its credentials are not verified, the request for
  the deletion ends in an uncaught exception and nothing is stored, so no target is
  asked to remove the account.\<close>

theorem delete_needs_connectors:
  assumes "permission_guard e req MANAGE_USERS d = Inr pr" "get_user uid d = Some u"
    and "can_manage_subject e req u d"
    and "s \<in> set (user_states uid d)" "ss_assigned s" "\<not> ss_retired s"
    and "connector_for (ss_target s) (get_connectors e d) = None"
  shows "delete_user e req uid d = (ServerError ''KeyError'', [], d)"
proof -
  let ?f = "\<lambda>u. u\<lparr>u_desired_action := DA_DELETE, u_deletion_requested_at := Some (now e), u_deleted_at := None\<rparr>"
  obtain i d1 where r: "request_operation e uid DELETE (pr_username pr) None d = (Inr i, d1)"
    using request_delete_accepted [OF assms(2)] by blast
  have "only_active uid d d1" using only_active_request [of uid d] r by (metis snd_conv)
  then obtain a where u1: "get_user uid d1 = Some (u\<lparr>u_active_operation_id := a\<rparr>)"
    and states: "user_states uid d1 = user_states uid d"
    using assms(2) by (auto simp: only_active_def user_states_def)
  have cs: "get_connectors e (upd_user uid ?f d1) = get_connectors e d"
    by (rule connectors_kept) (simp add: side_tables_request [OF r])
  have t: "ss_target s \<in> set (remdups (assigned_targets uid d1))"
    using assms(4-6) by (auto simp: assigned_targets_def states)
  have "\<not> is_root (u\<lparr>u_active_operation_id := a\<rparr>)"
    using assms(3) by (auto simp: can_manage_subject_def is_root_def split: option.splits)
  then have "set_pending e uid None (Some (assigned_targets uid d1)) (pending_options\<lparr>po_update_exceptions := False\<rparr>)
      (upd_user uid ?f d1) = Inl ''KeyError''"
    using select_targets_missing [OF t] assms(7) u1
    by (simp add: set_pending_def Let_def user_table.get_upd pending_options_def is_root_def cs)
  then show ?thesis using assms(1-3) r by (simp add: delete_user_def user_guarded_def)
qed


text \<open>A purged account leaves its factors and assignments to the next one.  When the purged account
  had the highest identifier and the one below is in use, the next account gets the
  same identifier, and the second factors, the passkeys, the password history, the assignment profile
  and the lifecycle policy stored for the purged account are still stored under it.\<close>

theorem purged_rows_are_inherited:
  assumes "get_user uid d = Some u" "purge_user e req uid c d = (resp, ts, d')" "get_user uid d' = None"
    and "\<forall>v \<in> set (users d). u_id v \<le> uid" "\<exists>v \<in> set (users d). Suc (u_id v) = uid"
  shows "u_id (new_user e' n f r d') = uid \<and> get_mfa uid d' = get_mfa uid d \<and>
    passkeys_of uid d' = passkeys_of uid d \<and> get_user_profile uid d' = get_user_profile uid d \<and>
    histories d' = histories d \<and> policies d' = policies d"
proof -
  have "d' \<noteq> d" using assms(1,3) by auto
  then obtain a i d1 d3 where r: "request_operation e uid PURGE a None d = (Inr i, d1)"
    and d': "d' = delete_user_row uid d3" "users d3 = users (finish_with e uid i SUCCEEDED 0 0 [] d1)"
      "side_tables d3 = side_tables d1"
    using assms(1,2)
    by (auto simp: purge_user_def user_guarded_def Let_def split: sum.splits if_splits prod.splits)
  have side: "side_tables d' = side_tables d" using d' side_tables_request [OF r] by simp
  have step: "role_step uid UNIV d d3"
    by (rule role_step_trans [OF role_step_trans [OF role_step_request [OF r] role_step_finish]
          role_step_users [OF d'(2)]])
  have ids: "j \<in> u_id ` set (users d') \<longleftrightarrow> j \<noteq> uid \<and> j \<in> u_id ` set (users d)" for j
    using step unfolding get_user_ids d'(1) get_user_deleted by (auto simp: role_step_def)
  have "next_id u_id (users d') = uid"
  proof (rule next_id_eq)
    show "\<forall>v \<in> set (users d'). u_id v < uid"
    proof
      fix v assume "v \<in> set (users d')"
      then have "u_id v \<noteq> uid \<and> u_id v \<in> u_id ` set (users d)" using ids [of "u_id v"] by blast
      then show "u_id v < uid" using assms(4) by force
    qed
    obtain v where "v \<in> set (users d)" "Suc (u_id v) = uid" using assms(5) by blast
    then have "u_id v \<in> u_id ` set (users d')" using ids [of "u_id v"] by auto
    then show "\<exists>v \<in> set (users d'). Suc (u_id v) = uid" using \<open>Suc (u_id v) = uid\<close> by force
  qed
  then show ?thesis
    using side_tables_fields [OF side] by (simp add: get_mfa_def passkeys_of_def get_user_profile_def)
qed


section \<open>Witnesses\<close>

definition managed_user :: ManagedUser where
  "managed_user = sample_user\<lparr>u_id := 2, u_username := ''bob''\<rparr>"

definition users_db :: "ManagedUser \<Rightarrow> SyncState list \<Rightarrow> db" where
  "users_db u states = sample_db\<lparr>users := [mfa_operator, u], sync_states := states, mfas := [mfa_row\<lparr>am_user_id := 2\<rparr>]\<rparr>"

definition operator_principal :: Principal where
  "operator_principal = principal_of mfa_operator (the (rq_session (sample_request True)))"

lemma users_db_user:
  "u_id u = 2 \<Longrightarrow> get_user 1 (users_db u ss) = Some mfa_operator" "u_id u = 2 \<Longrightarrow> get_user 2 (users_db u ss) = Some u"
  by (simp_all add: get_user_def rows_get_def users_db_def mfa_operator_def sample_user_def)

lemma users_db_session:
  assumes "get_user 1 d = Some mfa_operator"
  shows "current_user sample_env (sample_request True) d = Some operator_principal"
    "permission_guard sample_env (sample_request True) MANAGE_USERS d = Inr operator_principal"
proof -
  have "u_status mfa_operator = US_ACTIVE" "u_desired_action mfa_operator \<noteq> DA_DELETE" "u_session_version mfa_operator = 1"
    "u_role mfa_operator = ''user_operator''"
    by (simp_all add: mfa_operator_def sample_user_def)
  moreover have "now sample_env = 1000 * day" by (simp add: sample_env_def)
  ultimately show "current_user sample_env (sample_request True) d = Some operator_principal"
    "permission_guard sample_env (sample_request True) MANAGE_USERS d = Inr operator_principal"
    using assms by (simp_all add: current_user_def permission_guard_def sample_request_def MAX_AGE_def second_def
        operator_principal_def principal_of_def has_permission_iff)
qed

lemma managed_subject:
  "u_role u = ''user'' \<Longrightarrow> get_user 1 d = Some mfa_operator \<Longrightarrow> can_manage_subject sample_env (sample_request True) u d"
  using users_db_session(1) [of d] by (simp add: can_manage_subject_def is_root_def)

theorem accounts_are_protected_witness:
  "get_user 1 (db_after (handle_user sample_env (sample_request True) (DeleteUser 1) (users_db managed_user []))) =
     Some mfa_operator"
proof -
  let ?d = "users_db managed_user []"
  have u: "get_user 1 ?d = Some mfa_operator" by (rule users_db_user(1)) (simp add: managed_user_def)
  have "False \<longleftrightarrow> (\<exists>pr. current_user sample_env (sample_request True) ?d = Some pr \<and>
      has_permission (pr_role pr) MANAGE_SECURITY)"
    using users_db_session(1) [OF u] by (simp add: operator_principal_def principal_of_def mfa_operator_def)
  then show ?thesis
    using accounts_are_protected [OF refl, of False sample_env "sample_request True" ?d 1 mfa_operator "DeleteUser 1"] u
    by (simp add: mfa_operator_def)
qed

definition deleted_user :: ManagedUser where
  "deleted_user = managed_user\<lparr>u_desired_action := DA_DELETE, u_deleted_at := Some 0\<rparr>"

lemma deleted_user_db:
  "get_user 1 (users_db deleted_user []) = Some mfa_operator" "get_user 2 (users_db deleted_user []) = Some deleted_user"
  by (rule users_db_user, simp add: deleted_user_def managed_user_def)+

lemma notify_disabled: "notify sample_env t ev d = d"
  by (simp add: notify_def enqueue_notification_def sample_env_def sample_file_def notification_policy_def file_config_def)

lemma purge_runs:
  "\<exists>resp d'. purge_user sample_env (sample_request True) 2 ''bob'' (users_db deleted_user []) = (resp, [], d') \<and>
     get_user 2 d' = None"
proof -
  let ?d = "users_db deleted_user []"
  obtain i d1 where r: "request_operation sample_env 2 PURGE (pr_username operator_principal) None ?d = (Inr i, d1)"
    using deleted_user_db(2)
    by (simp add: request_operation_def get_active_operation_def deleted_user_def managed_user_def sample_user_def
        decide_transition_def decision_def is_active_def create_operation_def Let_def split: prod.splits if_splits)
  have "restorable sample_env (sample_request True) deleted_user ?d"
    using managed_subject [OF _ deleted_user_db(1), of deleted_user]
    by (simp add: restorable_def deleted_user_def managed_user_def sample_user_def)
  then show ?thesis
    using r users_db_session(2) [OF deleted_user_db(1)] deleted_user_db(2)
    by (simp add: purge_user_def user_guarded_def Let_def get_user_deleted deleted_user_def managed_user_def)
qed


theorem purged_rows_are_inherited_witness:
  "\<exists>d'. purge_user sample_env (sample_request True) 2 ''bob'' (users_db deleted_user []) =
       (fst (purge_user sample_env (sample_request True) 2 ''bob'' (users_db deleted_user [])), [], d') \<and>
     get_user 2 d' = None \<and> (\<forall>f. u_id (new_user sample_env ''eve'' f ''user'' d') = 2) \<and> get_mfa 2 d' \<noteq> None"
proof -
  obtain resp d' where run: "purge_user sample_env (sample_request True) 2 ''bob'' (users_db deleted_user []) = (resp, [], d')"
    "get_user 2 d' = None" using purge_runs by blast
  have "\<forall>v \<in> set (users (users_db deleted_user [])). u_id v \<le> 2"
    "\<exists>v \<in> set (users (users_db deleted_user [])). Suc (u_id v) = 2"
    by (simp_all add: users_db_def deleted_user_def managed_user_def mfa_operator_def sample_user_def)
  from purged_rows_are_inherited [OF deleted_user_db(2) run this]
  have "\<forall>f. u_id (new_user sample_env ''eve'' f ''user'' d') = 2" "get_mfa 2 d' = get_mfa 2 (users_db deleted_user [])"
    by blast+
  moreover have "get_mfa 2 (users_db deleted_user []) \<noteq> None"
    by (simp add: get_mfa_def users_db_def rows_get_def)
  ultimately show ?thesis using run by simp
qed

theorem delete_needs_connectors_witness:
  "delete_user sample_env (sample_request True) 2
     (users_db managed_user [sample_state\<lparr>ss_user_id := 2, ss_target := ''ghost''\<rparr>]) =
   (ServerError ''KeyError'', [], users_db managed_user [sample_state\<lparr>ss_user_id := 2, ss_target := ''ghost''\<rparr>])"
proof -
  let ?s = "sample_state\<lparr>ss_user_id := 2, ss_target := ''ghost''\<rparr>"
  let ?d = "users_db managed_user [?s]"
  have u: "get_user 1 ?d = Some mfa_operator" "get_user 2 ?d = Some managed_user"
    by (rule users_db_user, simp add: managed_user_def)+
  have m: "can_manage_subject sample_env (sample_request True) managed_user ?d"
    by (rule managed_subject [OF _ u(1)]) (simp add: managed_user_def sample_user_def)
  have "?s \<in> set (user_states 2 ?d)" "ss_assigned ?s" "\<not> ss_retired ?s"
    "connector_for (ss_target ?s) (get_connectors sample_env ?d) = None"
    by (simp_all add: user_states_def users_db_def sample_state_def get_connectors_def sample_env_def
        connector_for_def sample_connector_def)
  from delete_needs_connectors [OF users_db_session(2) [OF u(1)] u(2) m this] show ?thesis .
qed

theorem bulk_replay_witness:
  "\<exists>resp. bulk_execute sample_env (sample_request True) [2] ''disable'' [] (Some 7)
     (snd (snd (bulk_execute sample_env (sample_request True) [99] ''retry'' [] (Some 7) (users_db managed_user [])))) =
     (resp, [], snd (snd (bulk_execute sample_env (sample_request True) [99] ''retry'' [] (Some 7) (users_db managed_user []))))"
proof -
  let ?d = "users_db managed_user []"
  have u: "get_user 1 ?d = Some mfa_operator" by (rule users_db_user(1)) (simp add: managed_user_def)
  have none: "get_user 99 (?d\<lparr>operations := ops, tick := n\<rparr>) = None" for ops n
    by (simp add: get_user_def rows_get_def users_db_def managed_user_def mfa_operator_def sample_user_def)
  obtain resp ts d' where run: "bulk_execute sample_env (sample_request True) [99] ''retry'' [] (Some 7) ?d = (resp, ts, d')"
    by (metis prod.collapse)
  have ops: "operations ?d = []" by (simp add: users_db_def sample_db_def empty_db_def)
  have d': "users d' = users ?d" "operations d' \<noteq> []"
    using run users_db_session(2) [OF u]
    by (auto simp: bulk_execute_def user_guarded_def Let_def bulk_selection_def BULK_ACTIONS_def find_bulk_def ops
        bulk_one_def none bulk_finished_def notify_disabled bulk_failure_def upd_operation_def rows_upd_def
        add_operation_def next_tick_def)
  have "get_user 1 d' = Some mfa_operator" using d'(1) u by (simp add: get_user_def)
  moreover have "d' \<noteq> ?d" using d'(2) ops by auto
  ultimately show ?thesis
    using bulk_replay [OF users_db_session(2) [OF u] run _ users_db_session(2) refl] run by simp
qed

theorem assignment_follows_selection_witness:
  "\<exists>d'. set_pending sample_env 1 None (Some [''gitea'']) pending_options sample_db = Inr d' \<and>
     {''gitea''} = ss_target ` {s \<in> set (user_states 1 d'). ss_assigned s}"
proof -
  have "get_user 1 sample_db = Some sample_user" "\<not> is_root sample_user" "get_user_profile 1 sample_db = None"
    "connector_for ''gitea'' (get_connectors sample_env sample_db) = Some sample_connector"
    by (simp_all add: get_user_def rows_get_def sample_db_def sample_user_def is_root_def get_user_profile_def
        empty_db_def get_connectors_def sample_env_def connector_for_def sample_connector_def)
  then have "\<exists>d'. set_pending sample_env 1 None (Some [''gitea'']) pending_options sample_db = Inr d'"
    by (auto simp: set_pending_def Let_def pending_options_def record_selected_target_exceptions_def
        select_target_def split: option.splits)
  then obtain d' where d': "set_pending sample_env 1 None (Some [''gitea'']) pending_options sample_db = Inr d'"
    by blast
  have "states_ok sample_db" "targets_unique 1 sample_db"
    by (simp_all add: states_ok_def targets_unique_def user_states_def sample_db_def)
  from assignment_follows_selection [OF this d'] d' show ?thesis by simp
qed

end
