(* ===== verification/ServiceAccounts.thy ===== *)
theory ServiceAccounts
  imports AuditTrail
begin

text \<open>
  Service accounts and their Bearer credentials (\<open>src/na_sso/service_accounts.py\<close>).  A
  credential is stored as a prefix, by which it is found, and a keyed digest of the whole token; the token
  itself is shown once.  An account and each of its credentials expire and can be revoked.
\<close>

section \<open>The tables\<close>

definition get_service_account :: "uuid \<Rightarrow> db \<Rightarrow> ServiceAccount option" where
  "get_service_account k d = rows_get sa_id k (service_accounts d)"
definition upd_service_account :: "uuid \<Rightarrow> (ServiceAccount \<Rightarrow> ServiceAccount) \<Rightarrow> db \<Rightarrow> db" where
  "upd_service_account k f d = d\<lparr>service_accounts := rows_upd sa_id k f (service_accounts d)\<rparr>"
definition get_service_credential :: "uuid \<Rightarrow> db \<Rightarrow> ServiceAccountCredential option" where
  "get_service_credential k d = rows_get sc_id k (service_credentials d)"
definition upd_service_credential ::
  "uuid \<Rightarrow> (ServiceAccountCredential \<Rightarrow> ServiceAccountCredential) \<Rightarrow> db \<Rightarrow> db" where
  "upd_service_credential k f d = d\<lparr>service_credentials := rows_upd sc_id k f (service_credentials d)\<rparr>"

interpretation service_account_table: keyed_rows get_service_account upd_service_account sa_id
  by (rule keyed_rowsI [where rows = service_accounts])
    (simp_all add: get_service_account_def upd_service_account_def)
interpretation service_credential_table: keyed_rows get_service_credential upd_service_credential sc_id
  by (rule keyed_rowsI [where rows = service_credentials])
    (simp_all add: get_service_credential_def upd_service_credential_def)

definition credentials_of :: "uuid \<Rightarrow> db \<Rightarrow> ServiceAccountCredential list" where
  "credentials_of i d = filter (\<lambda>c. sc_service_account_id c = i) (service_credentials d)"

section \<open>Names, capabilities and tokens\<close>

definition permission_value :: "permission \<Rightarrow> string" where
  "permission_value p = (case p of
     MANAGE_USERS \<Rightarrow> ''users.manage''
   | MANAGE_TARGETS \<Rightarrow> ''targets.manage''
   | VIEW_AUDIT \<Rightarrow> ''audit.view''
   | MANAGE_SECURITY \<Rightarrow> ''security.manage'')"

definition en_dash :: string where
  "en_dash = [CHR 0xE2, CHR 0x80, CHR 0x93]"

definition SERVICE_ACCOUNT_PERMISSIONS :: "string list" where
  "SERVICE_ACCOUNT_PERMISSIONS = map permission_value [MANAGE_USERS, MANAGE_TARGETS, VIEW_AUDIT]"

definition service_account_name_ok :: "string \<Rightarrow> bool" where
  "service_account_name_ok s \<longleftrightarrow> s \<noteq> [] \<and> is_lower (hd s) \<and> in_range 2 63 (length (tl s)) \<and>
     list_all (\<lambda>c. is_lower c \<or> is_digit c \<or> c \<in> set ''_-'') (tl s)"

definition hex_digit :: "char \<Rightarrow> bool" where
  "hex_digit c \<longleftrightarrow> is_digit c \<or> in_range 97 102 (of_char c)"

definition token_char :: "char \<Rightarrow> bool" where
  "token_char c \<longleftrightarrow> is_alnum c \<or> c \<in> set ''_-''"

text \<open>The prefix of a token of the right form: \<open>nas_\<close>, twelve hexadecimal digits, an
  underscore, and at least 32 characters of the URL-safe base 64 alphabet.\<close>

definition token_prefix_of :: "string \<Rightarrow> string option" where
  "token_prefix_of raw =
    (let prefix = take 12 (drop 4 raw); rest = drop 16 raw in
     if starts_with ''nas_'' raw \<and> length prefix = 12 \<and> list_all hex_digit prefix \<and>
        starts_with ''_'' rest \<and> 32 \<le> length (tl rest) \<and> list_all token_char (tl rest)
     then Some prefix else None)"

definition service_token_hash :: "Env \<Rightarrow> string \<Rightarrow> string" where
  "service_token_hash e raw = hmac_sha256_hex e
     (sha256_digest e (cat [s_secret_key (settings e), '':service-account-token''])) raw"

definition service_account_permissions :: "ServiceAccount \<Rightarrow> string list" where
  "service_account_permissions a = (case sa_permissions a of
     JsonList values \<Rightarrow> filter (\<lambda>p. p \<in> set SERVICE_ACCOUNT_PERMISSIONS) values
   | NotAList \<Rightarrow> [])"

section \<open>Issuing a credential\<close>

text \<open>An expiry that has come; an account without an expiry never expires.\<close>

definition expired_at :: "time \<Rightarrow> time option \<Rightarrow> bool" where
  "expired_at t expiry = (case expiry of None \<Rightarrow> False | Some x \<Rightarrow> x \<le> t)"

definition capped_expiry :: "Env \<Rightarrow> nat \<Rightarrow> time option \<Rightarrow> time" where
  "capped_expiry e days account_expiry =
    (let expiry = now e + int days * day in
     case account_expiry of None \<Rightarrow> expiry | Some x \<Rightarrow> if expiry > x then x else expiry)"

definition raw_service_token :: "Env \<Rightarrow> db \<Rightarrow> string" where
  "raw_service_token e d = cat [''nas_'', token_hex e (tick d), ''_'', token_urlsafe e (Suc (tick d))]"

text \<open>A refusal is \<open>Inl\<close>.  The constraint on the column of the prefixes makes the commit raise
  for a prefix drawn before.\<close>

definition issue_service_account_credential ::
  "Env \<Rightarrow> uuid \<Rightarrow> string \<Rightarrow> string \<Rightarrow> int \<Rightarrow> db
     \<Rightarrow> string + (ServiceAccountCredential \<times> string \<times> db)" where
  "issue_service_account_credential e sid actor label expires_in_days d =
    (let clean_label = strip label;
         max_days = aa_max_token_days (fc_automation_api_policy (file_config e)) in
     if clean_label = [] \<or> length clean_label > 80
       then Inl ''credential label is required and must be at most 80 characters''
     else if \<not> (1 \<le> expires_in_days \<and> expires_in_days \<le> int max_days)
       then Inl (cat [''credential lifetime must be 1'', en_dash, show_nat max_days, '' days''])
     else
       (let prefix = token_hex e (tick d); raw = raw_service_token e d in
        case get_service_account sid d of
          None \<Rightarrow> Inl ''service account is unavailable''
        | Some a \<Rightarrow>
            if sa_revoked_at a \<noteq> None then Inl ''service account is unavailable''
            else if expired_at (now e) (sa_expires_at a) then Inl ''service account has expired''
            else if list_ex (\<lambda>c. sc_token_prefix c = prefix) (service_credentials d) then Inl ''IntegrityError''
            else
              (let i = Suc (Suc (tick d));
                   expiry = capped_expiry e (nat expires_in_days) (sa_expires_at a);
                   c = \<lparr>sc_id = i, sc_service_account_id = sid, sc_label = clean_label,
                     sc_token_prefix = prefix, sc_token_hash = service_token_hash e raw, sc_created_by = actor,
                     sc_created_at = now e, sc_expires_at = expiry, sc_last_used_at = None,
                     sc_revoked_at = None, sc_revoked_by = None\<rparr>
               in Inr (c, raw, record_audit e actor ''service_account.credential_issued'' (sa_name a)
                    (cat [''credential='', show_nat i, ''; prefix='', prefix, ''; expires='', isoformat e expiry]) None
                    (d\<lparr>tick := Suc i, service_credentials := service_credentials d @ [c]\<rparr>)))))"

section \<open>Authentication by a token\<close>

record ServicePrincipal =
  sp_id :: uuid
  sp_username :: string
  sp_permissions :: "string list"
  sp_credential_id :: uuid

definition usable :: "Env \<Rightarrow> ServiceAccountCredential \<Rightarrow> ServiceAccount \<Rightarrow> bool" where
  "usable e c a \<longleftrightarrow> sa_revoked_at a = None \<and> sc_revoked_at c = None \<and> \<not> sc_expires_at c \<le> now e \<and>
     \<not> expired_at (now e) (sa_expires_at a)"

definition touched :: "Env \<Rightarrow> ServiceAccountCredential \<Rightarrow> db \<Rightarrow> db" where
  "touched e c d =
    (if (case sc_last_used_at c of None \<Rightarrow> True | Some t \<Rightarrow> t < now e - 5 * 60 * second)
     then upd_service_credential (sc_id c) (\<lambda>c. c\<lparr>sc_last_used_at := Some (now e)\<rparr>) d else d)"

definition authenticate_service_account ::
  "Env \<Rightarrow> string \<Rightarrow> db \<Rightarrow> ServicePrincipal option \<times> db" where
  "authenticate_service_account e raw d =
    (case token_prefix_of raw of
       None \<Rightarrow> (None, d)
     | Some prefix \<Rightarrow>
       (case find (\<lambda>c. sc_token_prefix c = prefix) (service_credentials d) of
          None \<Rightarrow> (None, d)
        | Some c \<Rightarrow>
            if sc_token_hash c \<noteq> service_token_hash e raw then (None, d)
            else
              (case get_service_account (sc_service_account_id c) d of
                 None \<Rightarrow> (None, d)
               | Some a \<Rightarrow>
                   if \<not> usable e c a then (None, d)
                   else (Some \<lparr>sp_id = sa_id a, sp_username = cat [''service:'', sa_name a],
                       sp_permissions = service_account_permissions a, sp_credential_id = sc_id c\<rparr>, touched e c d))))"

section \<open>The handlers\<close>

text \<open>The expiry given to a new account: none, an instant in the future, or an error.\<close>

definition parse_expiry :: "Env \<Rightarrow> string \<Rightarrow> string + time option" where
  "parse_expiry e text_value =
    (if strip text_value = [] then Inr None
     else (case parse_datetime e (strip text_value) of
       None \<Rightarrow> Inl ''account expiry must use a valid UTC date and time''
     | Some t \<Rightarrow> if t \<le> now e then Inl ''account expiry must be in the future'' else Inr (Some t)))"

record ServiceAccountForm =
  sf_name :: string
  sf_description :: string
  sf_permissions :: "string list"
  sf_expires_at :: string

text \<open>The validation of the form and the new row; an error text is \<open>Inl\<close>.\<close>

definition new_service_account ::
  "Env \<Rightarrow> string \<Rightarrow> ServiceAccountForm \<Rightarrow> db \<Rightarrow> string + (ServiceAccount \<times> db)" where
  "new_service_account e actor f d =
    (let clean_name = lower (strip (sf_name f)); selected = sort (remdups (sf_permissions f)) in
     if \<not> service_account_name_ok clean_name then
       Inl (cat [''name must be 3'', en_dash, ''64 lowercase letters, digits, underscores, or hyphens''])
     else if length (sf_description f) > 500 then Inl ''description must be at most 500 characters''
     else if selected = [] \<or> list_ex (\<lambda>p. p \<notin> set SERVICE_ACCOUNT_PERMISSIONS) selected then
       Inl ''select at least one supported service-account capability''
     else (case parse_expiry e (sf_expires_at f) of
       Inl err \<Rightarrow> Inl err
     | Inr expiry \<Rightarrow>
         if list_ex (\<lambda>a. sa_name a = clean_name) (service_accounts d) then Inl ''service-account name already exists''
         else
           (let a = \<lparr>sa_id = uuid4 d, sa_name = clean_name, sa_description = strip (sf_description f),
                  sa_permissions = JsonList selected, sa_created_by = actor, sa_created_at = now e,
                  sa_expires_at = expiry, sa_revoked_at = None, sa_revoked_by = None\<rparr>
            in Inr (a, record_audit e actor ''service_account.created'' (sa_name a)
                 (cat [''permissions='', join_with '','' selected, ''; expires='',
                    case expiry of None \<Rightarrow> ''never'' | Some t \<Rightarrow> isoformat e t]) None
                 ((next_tick d)\<lparr>service_accounts := service_accounts d @ [a]\<rparr>)))))"

definition service_account_create ::
  "Env \<Rightarrow> Request \<Rightarrow> ServiceAccountForm \<Rightarrow> db \<Rightarrow> Response \<times> db" where
  "service_account_create e req f d = guarded e req MANAGE_SECURITY (\<lambda>pr d.
    case new_service_account e (pr_username pr) f d of
      Inl err \<Rightarrow> (redirect_with_feedback ''/service-accounts'' ''Service account rejected'' err ''danger'', d)
    | Inr (a, d') \<Rightarrow> (redirect_with_feedback (cat [''/service-accounts/'', show_nat (sa_id a)])
        ''Service account created'' ''Issue an expiring credential before using this account.'' ''success'', d')) d"

text \<open>The answer that shows the token once, or the reason for the refusal.  An error of the
  database is no \<open>ValueError\<close>.\<close>

definition service_account_issue ::
  "Env \<Rightarrow> Request \<Rightarrow> uuid \<Rightarrow> string \<Rightarrow> int \<Rightarrow> db \<Rightarrow> Response \<times> db" where
  "service_account_issue e req sid label expires_in_days d = guarded e req MANAGE_SECURITY (\<lambda>pr d.
    case issue_service_account_credential e sid (pr_username pr) label expires_in_days d of
      Inl err \<Rightarrow> (if err = ''IntegrityError'' then ServerError err
        else redirect_with_feedback (cat [''/service-accounts/'', show_nat sid]) ''Credential not issued'' err ''danger'', d)
    | Inr (c, raw, d') \<Rightarrow> (Shown ''service_account_token_once.html'' [raw], d')) d"

definition revoked_credential :: "Env \<Rightarrow> string \<Rightarrow> ServiceAccountCredential \<Rightarrow> ServiceAccountCredential" where
  "revoked_credential e actor c = c\<lparr>sc_revoked_at := Some (now e), sc_revoked_by := Some actor\<rparr>"

definition service_account_credential_revoke ::
  "Env \<Rightarrow> Request \<Rightarrow> uuid \<Rightarrow> uuid \<Rightarrow> db \<Rightarrow> Response \<times> db" where
  "service_account_credential_revoke e req sid cid d = guarded e req MANAGE_SECURITY (\<lambda>pr d.
    case (get_service_account sid d, get_service_credential cid d) of
      (Some a, Some c) \<Rightarrow>
        if sc_service_account_id c \<noteq> sa_id a then (Redirect ''/service-accounts'', d)
        else (redirect_with_feedback (cat [''/service-accounts/'', show_nat sid]) ''Credential revoked''
            ''Requests using that Bearer credential are now rejected.'' ''success'',
          if sc_revoked_at c = None then
            record_audit e (pr_username pr) ''service_account.credential_revoked'' (sa_name a)
              (cat [''credential='', show_nat (sc_id c), ''; prefix='', sc_token_prefix c]) None
              (upd_service_credential cid (revoked_credential e (pr_username pr)) d)
          else d)
    | _ \<Rightarrow> (Redirect ''/service-accounts'', d)) d"

text \<open>The credentials of the account that are not revoked are revoked with it.\<close>

definition revoke_credentials :: "Env \<Rightarrow> string \<Rightarrow> uuid \<Rightarrow> db \<Rightarrow> db" where
  "revoke_credentials e actor sid d = d\<lparr>service_credentials :=
     map (\<lambda>c. if sc_service_account_id c = sid \<and> sc_revoked_at c = None then revoked_credential e actor c else c)
       (service_credentials d)\<rparr>"

definition service_account_revoke :: "Env \<Rightarrow> Request \<Rightarrow> uuid \<Rightarrow> db \<Rightarrow> Response \<times> db" where
  "service_account_revoke e req sid d = guarded e req MANAGE_SECURITY (\<lambda>pr d.
    case get_service_account sid d of
      None \<Rightarrow> (Redirect ''/service-accounts'', d)
    | Some a \<Rightarrow>
        (redirect_with_feedback (cat [''/service-accounts/'', show_nat sid]) ''Service account revoked''
           ''All credentials for this account are now rejected.'' ''success'',
         if sa_revoked_at a = None then
           record_audit e (pr_username pr) ''service_account.revoked'' (sa_name a)
             (cat [''credentials='', show_nat (length (credentials_of sid d))]) None
             (revoke_credentials e (pr_username pr) sid
               (upd_service_account sid (\<lambda>a. a\<lparr>sa_revoked_at := Some (now e),
                  sa_revoked_by := Some (pr_username pr)\<rparr>) d))
         else d)) d"

text \<open>The two pages: the newest 250 accounts, and one account with its capabilities.\<close>

definition service_accounts_page :: "Env \<Rightarrow> Request \<Rightarrow> db \<Rightarrow> Response \<times> db" where
  "service_accounts_page e req d = guarded e req MANAGE_SECURITY (\<lambda>pr d.
    (Shown ''service_accounts.html'' (map sa_name (take 250
       (sort_key (\<lambda>a. - sa_created_at a) (sort_key sa_name (service_accounts d))))), d)) d"

definition service_account_detail :: "Env \<Rightarrow> Request \<Rightarrow> uuid \<Rightarrow> db \<Rightarrow> Response \<times> db" where
  "service_account_detail e req sid d = guarded e req MANAGE_SECURITY (\<lambda>pr d.
    case get_service_account sid d of
      None \<Rightarrow> (Redirect ''/service-accounts'', d)
    | Some a \<Rightarrow> (Shown ''service_account_detail.html'' (sa_name a # service_account_permissions a), d)) d"


section \<open>Lemmas\<close>

lemma service_permissions_allowed:
  "set (service_account_permissions a) \<subseteq> set SERVICE_ACCOUNT_PERMISSIONS"
  by (auto simp: service_account_permissions_def split: json_text.splits)

lemma touched_accounts [simp]: "service_accounts (touched e c d) = service_accounts d"
  by (simp add: touched_def upd_service_credential_def)

lemma authenticate_SomeD:
  assumes "authenticate_service_account e raw d = (Some sp, d')"
  shows "\<exists>c a prefix. token_prefix_of raw = Some prefix \<and> c \<in> set (service_credentials d) \<and>
    sc_token_prefix c = prefix \<and> sc_token_hash c = service_token_hash e raw \<and>
    get_service_account (sc_service_account_id c) d = Some a \<and> usable e c a \<and> sp_id sp = sa_id a \<and>
    sp_username sp = cat [''service:'', sa_name a] \<and> sp_permissions sp = service_account_permissions a \<and>
    sp_credential_id sp = sc_id c \<and> d' = touched e c d"
  using assms by (auto simp: authenticate_service_account_def find_Some_iff in_set_conv_nth
      split: option.splits if_splits)

lemma touched_stores: "touched e c d = d\<lparr>service_credentials := service_credentials (touched e c d)\<rparr>"
  by (simp add: touched_def upd_service_credential_def)

lemma authenticate_stores:
  assumes "authenticate_service_account e raw d = (Some sp, d')"
  shows "d' = d\<lparr>service_credentials := service_credentials d'\<rparr>"
  using authenticate_SomeD [OF assms] touched_stores by metis

lemma get_service_account_id: "get_service_account i d = Some a \<Longrightarrow> sa_id a = i"
  unfolding get_service_account_def by (rule rows_get_key)

lemma get_service_account_record [simp]:
  "get_service_account i (record_audit e a ac s det opid d) = get_service_account i d"
  "get_service_account i (revoke_credentials e a sid d) = get_service_account i d"
  by (simp_all add: get_service_account_def record_audit_def revoke_credentials_def)

lemma token_prefix_of_cat:
  assumes "length p = 12" "list_all hex_digit p" "32 \<le> length t" "list_all token_char t"
  shows "token_prefix_of (cat [''nas_'', p, ''_'', t]) = Some p"
  using assms by (simp add: token_prefix_of_def cat_def starts_with_def)

lemma find_append_new:
  assumes "\<forall>x \<in> set xs. \<not> P x" "P y"
  shows "find P (xs @ [y]) = Some y"
  using assms by (induction xs) auto

text \<open>What an issued credential is.\<close>

lemma issue_InrD:
  assumes "issue_service_account_credential e sid actor label days d = Inr (c, raw, d')"
  shows "\<exists>a. get_service_account sid d = Some a \<and> sa_revoked_at a = None \<and>
    \<not> expired_at (now e) (sa_expires_at a) \<and> raw = raw_service_token e d \<and>
    sc_token_prefix c = token_hex e (tick d) \<and> sc_token_hash c = service_token_hash e raw \<and>
    sc_service_account_id c = sid \<and> sc_revoked_at c = None \<and> sc_last_used_at c = None \<and>
    sc_expires_at c = capped_expiry e (nat days) (sa_expires_at a) \<and>
    1 \<le> days \<and> days \<le> int (aa_max_token_days (fc_automation_api_policy (file_config e))) \<and>
    (\<forall>x \<in> set (service_credentials d). sc_token_prefix x \<noteq> sc_token_prefix c) \<and>
    service_credentials d' = service_credentials d @ [c] \<and> service_accounts d' = service_accounts d"
  using assms
  by (auto simp: issue_service_account_credential_def Let_def list_ex_iff record_audit_def
      split: if_splits option.splits)

section \<open>Properties\<close>

text \<open>C23: Who a Bearer token stands for.  A token is accepted only when a stored credential has its
  prefix and its keyed digest, neither the credential nor its account is revoked or
  expired, and the capabilities given are those of the account among the three a service account may
  have, so never the administration of security; nothing but the credentials (the time of
  the last use) is written.\<close>

theorem service_token_is_sound:
  assumes "authenticate_service_account e raw d = (Some sp, d')"
  shows "\<exists>c a. c \<in> set (service_credentials d) \<and> sc_token_hash c = service_token_hash e raw \<and>
    sc_revoked_at c = None \<and> now e < sc_expires_at c \<and>
    get_service_account (sc_service_account_id c) d = Some a \<and> sa_revoked_at a = None \<and>
    (case sa_expires_at a of None \<Rightarrow> True | Some t \<Rightarrow> now e < t) \<and>
    sp_id sp = sa_id a \<and> set (sp_permissions sp) \<subseteq> set SERVICE_ACCOUNT_PERMISSIONS \<and>
    permission_value MANAGE_SECURITY \<notin> set (sp_permissions sp) \<and>
    d' = d\<lparr>service_credentials := service_credentials d'\<rparr>"
proof -
  obtain c a where c: "c \<in> set (service_credentials d)" "sc_token_hash c = service_token_hash e raw"
    "get_service_account (sc_service_account_id c) d = Some a" "usable e c a" "sp_id sp = sa_id a"
    "sp_permissions sp = service_account_permissions a" "d' = touched e c d"
    using authenticate_SomeD [OF assms] by blast
  have "permission_value MANAGE_SECURITY \<notin> set SERVICE_ACCOUNT_PERMISSIONS"
    by (simp add: SERVICE_ACCOUNT_PERMISSIONS_def permission_value_def)
  then have "permission_value MANAGE_SECURITY \<notin> set (sp_permissions sp)"
    using service_permissions_allowed [of a] c(6) by auto
  moreover have "d' = d\<lparr>service_credentials := service_credentials d'\<rparr>" by (rule authenticate_stores [OF assms])
  ultimately show ?thesis
    using c(1-6) service_permissions_allowed [of a]
    by (intro exI [of _ c] exI [of _ a]) (auto simp: usable_def expired_at_def split: option.splits)
qed

text \<open>An issued token works until it expires.  With prefixes of twelve hexadecimal digits and
  URL-safe secrets of at least 32 characters, as the library draws them, the token shown once
  is accepted at every later instant before the expiry of its credential, for the account it was
  issued to and with the capabilities of the account; the credential never outlives the
  configured number of days nor the account.\<close>

theorem issued_token_works:
  assumes "issue_service_account_credential e sid actor label days d = Inr (c, raw, d')"
    and "length (token_hex e (tick d)) = 12" "list_all hex_digit (token_hex e (tick d))"
    and "32 \<le> length (token_urlsafe e (Suc (tick d)))" "list_all token_char (token_urlsafe e (Suc (tick d)))"
    and "t < sc_expires_at c"
  shows "(\<exists>a. get_service_account sid d = Some a \<and>
      fst (authenticate_service_account (e\<lparr>now := t\<rparr>) raw d') =
        Some \<lparr>sp_id = sid, sp_username = cat [''service:'', sa_name a],
          sp_permissions = service_account_permissions a, sp_credential_id = sc_id c\<rparr> \<and>
      (case sa_expires_at a of None \<Rightarrow> True | Some x \<Rightarrow> sc_expires_at c \<le> x)) \<and>
    sc_expires_at c \<le> now e + int (aa_max_token_days (fc_automation_api_policy (file_config e))) * day"
proof -
  obtain a where a: "get_service_account sid d = Some a" "sa_revoked_at a = None"
    and raw: "raw = raw_service_token e d" and c: "sc_token_prefix c = token_hex e (tick d)"
      "sc_token_hash c = service_token_hash e raw" "sc_service_account_id c = sid" "sc_revoked_at c = None"
      "sc_expires_at c = capped_expiry e (nat days) (sa_expires_at a)"
    and days: "1 \<le> days" "days \<le> int (aa_max_token_days (fc_automation_api_policy (file_config e)))"
    and new: "\<forall>x \<in> set (service_credentials d). sc_token_prefix x \<noteq> sc_token_prefix c"
    and d': "service_credentials d' = service_credentials d @ [c]" "service_accounts d' = service_accounts d"
    using issue_InrD [OF assms(1)] by blast
  have prefix: "token_prefix_of raw = Some (sc_token_prefix c)"
    unfolding raw raw_service_token_def c(1) by (rule token_prefix_of_cat [OF assms(2-5)])
  have found: "find (\<lambda>x. sc_token_prefix x = sc_token_prefix c) (service_credentials d') = Some c"
    unfolding d'(1) by (rule find_append_new) (use new in simp_all)
  have acc: "get_service_account sid d' = Some a" using a(1) d'(2) by (simp add: get_service_account_def)
  have hash: "service_token_hash (e\<lparr>now := t\<rparr>) raw = service_token_hash e raw"
    by (simp add: service_token_hash_def)
  have cap: "case sa_expires_at a of None \<Rightarrow> True | Some x \<Rightarrow> sc_expires_at c \<le> x"
    by (simp add: c(5) capped_expiry_def Let_def split: option.split)
  then have "usable (e\<lparr>now := t\<rparr>) c a"
    using assms(6) a(2) c(4) by (auto simp: usable_def expired_at_def split: option.splits)
  then have "fst (authenticate_service_account (e\<lparr>now := t\<rparr>) raw d') =
      Some \<lparr>sp_id = sid, sp_username = cat [''service:'', sa_name a],
        sp_permissions = service_account_permissions a, sp_credential_id = sc_id c\<rparr>"
    using prefix found acc hash c(2,3) get_service_account_id [OF a(1)]
    by (simp add: authenticate_service_account_def)
  moreover have "sc_expires_at c \<le> now e + int (nat days) * day"
    by (simp add: c(5) capped_expiry_def Let_def split: option.split)
  moreover have "int (nat days) * day \<le> int (aa_max_token_days (fc_automation_api_policy (file_config e))) * day"
    using days by (intro mult_right_mono) (simp_all add: day_def second_def)
  ultimately show ?thesis using a(1) cap by auto
qed

text \<open>A revocation is final.  After the revocation of a stored account by an administrator of
  security no token is accepted for it at any time, in any environment.\<close>

theorem revoked_account_is_refused:
  assumes "permission_guard e req MANAGE_SECURITY d = Inr pr" "get_service_account sid d = Some a"
    and "authenticate_service_account e' raw (snd (service_account_revoke e req sid d)) = (Some sp, d')"
  shows "sp_id sp \<noteq> sid"
proof -
  let ?d = "snd (service_account_revoke e req sid d)"
  have revoked: "\<exists>b. get_service_account sid ?d = Some b \<and> sa_revoked_at b \<noteq> None"
    using assms(1,2)
    by (simp add: service_account_revoke_def guarded_Inr service_account_table.get_upd_same)
  obtain c b where "get_service_account (sc_service_account_id c) ?d = Some b" "usable e' c b" "sp_id sp = sa_id b"
    using authenticate_SomeD [OF assms(3)] by blast
  then have "get_service_account (sp_id sp) ?d = Some b" "sa_revoked_at b = None"
    using get_service_account_id by (auto simp: usable_def)
  then show ?thesis using revoked by auto
qed


section \<open>Witnesses\<close>

definition service_env :: Env where
  "service_env = sample_env\<lparr>token_hex := (\<lambda>_. ''0123456789ab''), token_urlsafe := (\<lambda>_. replicate 40 CHR ''a'')\<rparr>"

definition sample_account :: "uuid \<Rightarrow> ServiceAccount" where
  "sample_account i = \<lparr>sa_id = i, sa_name = ''ci-bot'', sa_description = [],
     sa_permissions = JsonList [''users.manage'', ''security.manage''], sa_created_by = ''ada'', sa_created_at = 0,
     sa_expires_at = None, sa_revoked_at = None, sa_revoked_by = None\<rparr>"

definition service_db :: db where
  "service_db = sample_db\<lparr>users := [sample_user\<lparr>u_role := ''root''\<rparr>],
     service_accounts := [sample_account 1, sample_account 2]\<rparr>"

definition sample_service_credential :: ServiceAccountCredential where
  "sample_service_credential = \<lparr>sc_id = 5, sc_service_account_id = 2, sc_label = ''ci'',
     sc_token_prefix = ''0123456789ab'', sc_token_hash = service_token_hash service_env (raw_service_token service_env service_db),
     sc_created_by = ''ada'', sc_created_at = 0, sc_expires_at = 2000 * day, sc_last_used_at = None,
     sc_revoked_at = None, sc_revoked_by = None\<rparr>"

definition token_db :: db where
  "token_db = service_db\<lparr>service_credentials := [sample_service_credential]\<rparr>"

lemmas service_sample_defs = token_db_def service_db_def sample_account_def sample_service_credential_def
  service_env_def

lemma token_shape:
  "length (token_hex service_env n) = 12" "list_all hex_digit (token_hex service_env n)"
  "length (token_urlsafe service_env n) = 40" "list_all token_char (token_urlsafe service_env n)"
  by (simp_all add: service_env_def hex_digit_def token_char_def is_digit_def is_alnum_def is_lower_def
      in_range_def list_all_iff)

lemma sample_token_prefix: "token_prefix_of (raw_service_token service_env d) = Some ''0123456789ab''"
  using token_prefix_of_cat [OF token_shape(1,2) _ token_shape(4)] token_shape(3)
  by (simp add: raw_service_token_def) (simp add: service_env_def)

lemma sample_token_accepted:
  assumes "service_credentials d = [sample_service_credential]" "get_service_account 2 d = Some a"
    "sa_revoked_at a = None" "sa_expires_at a = None"
  shows "\<exists>sp. authenticate_service_account service_env (raw_service_token service_env service_db) d =
    (Some sp, touched service_env sample_service_credential d) \<and> sp_id sp = sa_id a"
  using assms sample_token_prefix
  by (simp add: authenticate_service_account_def sample_service_credential_def usable_def expired_at_def)
    (simp add: service_env_def sample_env_def day_def second_def)

theorem service_token_is_sound_witness:
  "\<exists>sp d'. authenticate_service_account service_env (raw_service_token service_env service_db) token_db = (Some sp, d') \<and>
     sp_id sp = 2 \<and> permission_value MANAGE_SECURITY \<notin> set (sp_permissions sp)"
proof -
  have "get_service_account 2 token_db = Some (sample_account 2)"
    by (simp add: get_service_account_def rows_get_def service_sample_defs)
  then obtain sp d' where sp: "authenticate_service_account service_env (raw_service_token service_env service_db) token_db = (Some sp, d')"
    "sp_id sp = sa_id (sample_account 2)"
    using sample_token_accepted [of token_db "sample_account 2"] by (auto simp: token_db_def sample_account_def)
  moreover have "permission_value MANAGE_SECURITY \<notin> set (sp_permissions sp)"
    using service_token_is_sound [OF sp(1)] by blast
  ultimately show ?thesis by (auto simp: sample_account_def)
qed

theorem issued_token_works_witness:
  "\<exists>c raw d'. issue_service_account_credential service_env 2 ''ada'' ''ci'' 30 service_db = Inr (c, raw, d') \<and>
     fst (authenticate_service_account (service_env\<lparr>now := 1001 * day\<rparr>) raw d') =
       Some \<lparr>sp_id = 2, sp_username = cat [''service:'', ''ci-bot''], sp_permissions = [''users.manage''],
         sp_credential_id = sc_id c\<rparr>"
proof -
  have acc: "get_service_account 2 service_db = Some (sample_account 2)"
    by (simp add: get_service_account_def rows_get_def service_sample_defs)
  have fields: "service_credentials service_db = []" "sa_revoked_at (sample_account 2) = None"
    "sa_expires_at (sample_account 2) = None"
    "aa_max_token_days (fc_automation_api_policy (file_config service_env)) = 365" "strip ''ci'' = ''ci''"
    by (simp_all add: service_sample_defs sample_defs file_config_def strip_def is_space_def)
  obtain c raw d' where run: "issue_service_account_credential service_env 2 ''ada'' ''ci'' 30 service_db = Inr (c, raw, d')"
    using acc fields
    by (cases "issue_service_account_credential service_env 2 ''ada'' ''ci'' 30 service_db")
      (auto simp: issue_service_account_credential_def expired_at_def Let_def)
  have "sc_expires_at c = now service_env + 30 * day"
    using issue_InrD [OF run] acc fields(3) by (auto simp: capped_expiry_def)
  then have "1001 * day < sc_expires_at c" by (simp add: service_env_def sample_env_def day_def second_def)
  from issued_token_works [OF run token_shape(1,2) _ token_shape(4) this]
  have "fst (authenticate_service_account (service_env\<lparr>now := 1001 * day\<rparr>) raw d') =
     Some \<lparr>sp_id = 2, sp_username = cat [''service:'', sa_name (sample_account 2)],
       sp_permissions = service_account_permissions (sample_account 2), sp_credential_id = sc_id c\<rparr>"
    using acc token_shape(3) by auto
  moreover have "service_account_permissions (sample_account 2) = [''users.manage'']" "sa_name (sample_account 2) = ''ci-bot''"
    by (simp_all add: sample_account_def service_account_permissions_def SERVICE_ACCOUNT_PERMISSIONS_def permission_value_def)
  ultimately show ?thesis using run by auto
qed

theorem revoked_account_is_refused_witness:
  "\<exists>sp d'. authenticate_service_account service_env (raw_service_token service_env service_db)
       (snd (service_account_revoke service_env (sample_request True) 1 token_db)) = (Some sp, d') \<and> sp_id sp \<noteq> 1"
proof -
  let ?d = "snd (service_account_revoke service_env (sample_request True) 1 token_db)"
  obtain pr where pr: "permission_guard service_env (sample_request True) MANAGE_SECURITY token_db = Inr pr"
    by (simp add: permission_guard_def current_user_def sample_request_def service_sample_defs
        sample_defs get_user_def rows_get_def MAX_AGE_def principal_of_def has_permission_iff account_requires_mfa_def
        account_has_mfa_def mfa_policy_def file_config_def get_mfa_def)
  have acc: "get_service_account 1 token_db = Some (sample_account 1)" "get_service_account 2 token_db = Some (sample_account 2)"
    by (simp_all add: get_service_account_def rows_get_def service_sample_defs)
  have "service_credentials ?d = [sample_service_credential]" "get_service_account 2 ?d = Some (sample_account 2)"
    using acc pr
    by (simp_all add: service_account_revoke_def guarded_Inr sample_account_def record_audit_def revoke_credentials_def
        upd_service_account_def token_db_def sample_service_credential_def get_service_account_def rows_get_upd)
  then obtain sp d' where sp: "authenticate_service_account service_env (raw_service_token service_env service_db) ?d = (Some sp, d')"
    using sample_token_accepted [of ?d "sample_account 2"] by (auto simp: sample_account_def)
  with revoked_account_is_refused [OF pr acc(1) sp] show ?thesis by blast
qed


end
