(* ===== verification/Json.thy ===== *)
theory Json
  imports Config
begin

text \<open>
  JSON values, the compact writer that the service renders its answers with
  (\<open>json.dumps\<close> with the separators comma and colon, keys in insertion order), and the reader
  (\<open>json.loads\<close>) that a replayed answer goes through.  Numbers are integers: no answer of the
  service has another kind.  The round trip of the two is what the replay of an answer rests
  on (\<open>src/na_sso/api_contract.py\<close>).
\<close>

datatype json =
    JNull
  | JBool bool
  | JInt int
  | JText string
  | JArray "json list"
  | JObject "(string \<times> json) list"

section \<open>The writer\<close>

definition quote_char :: char where "quote_char = CHR 0x22"
definition backslash :: char where "backslash = CHR 0x5C"

definition hex_char :: "nat \<Rightarrow> char" where
  "hex_char n = (if n < 10 then char_of (48 + n) else char_of (87 + n))"

text \<open>The short escapes and the letters they are written with.\<close>

definition short_escapes :: "(char \<times> char) list" where
  "short_escapes = [(quote_char, quote_char), (backslash, backslash), (CHR 0x0A, CHR ''n''),
     (CHR 0x0D, CHR ''r''), (CHR 0x09, CHR ''t''), (CHR 0x08, CHR ''b''), (CHR 0x0C, CHR ''f'')]"

definition escape_char :: "char \<Rightarrow> string" where
  "escape_char c = (case map_of short_escapes c of
     Some l \<Rightarrow> [backslash, l]
   | None \<Rightarrow> (let n = of_char c :: nat in
       if n < 32 then [backslash, CHR ''u'', CHR ''0'', CHR ''0'', hex_char (n div 16), hex_char (n mod 16)]
       else [c]))"

definition escaped :: "string \<Rightarrow> string" where
  "escaped s = concat (map escape_char s)"

definition quoted :: "string \<Rightarrow> string" where
  "quoted s = quote_char # escaped s @ [quote_char]"

definition member_text :: "string \<times> string \<Rightarrow> string" where
  "member_text m = quoted (fst m) @ CHR '':'' # snd m"

primrec dumps :: "json \<Rightarrow> string" where
  "dumps JNull = ''null''"
| "dumps (JBool b) = (if b then ''true'' else ''false'')"
| "dumps (JInt i) = show_int i"
| "dumps (JText s) = quoted s"
| "dumps (JArray xs) = CHR ''['' # join_with '','' (map dumps xs) @ '']''"
| "dumps (JObject ms) = CHR ''{'' # join_with '','' (map member_text (map (map_prod (\<lambda>k. k) dumps) ms)) @ ''}''"

section \<open>The reader\<close>

definition json_space :: "char \<Rightarrow> bool" where
  "json_space c \<longleftrightarrow> c \<in> {CHR '' '', CHR 0x09, CHR 0x0A, CHR 0x0D}"

definition skip :: "string \<Rightarrow> string" where
  "skip s = dropWhile json_space s"

definition hex_value :: "char \<Rightarrow> nat option" where
  "hex_value c = (let n = of_char c :: nat in
     if in_range 48 57 n then Some (n - 48) else if in_range 97 102 n then Some (n - 87)
     else if in_range 65 70 n then Some (n - 55) else None)"

text \<open>The character of a \<open>\u00XY\<close> escape; a code point above 255 is no character of the model.\<close>

definition unescape_hex :: "string \<Rightarrow> char option" where
  "unescape_hex s = (if starts_with ''00'' s \<and> 4 \<le> length s then
     (case (hex_value (s ! 2), hex_value (s ! 3)) of
        (Some a, Some b) \<Rightarrow> Some (char_of (16 * a + b)) | _ \<Rightarrow> None)
   else None)"

definition unescape_short :: "char \<Rightarrow> char option" where
  "unescape_short l = (if l = CHR ''/'' then Some l
     else map_of (map (\<lambda>(c, l). (l, c)) short_escapes) l)"

text \<open>The text up to the closing quotation mark and what follows it.\<close>

fun read_text :: "string \<Rightarrow> (string \<times> string) option" where
  "read_text [] = None"
| "read_text (c # s) =
    (if c = quote_char then Some ([], s)
     else if c = backslash then
       (case s of
          [] \<Rightarrow> None
        | l # r \<Rightarrow>
           if l = CHR ''u'' then
             (case unescape_hex r of
                None \<Rightarrow> None
              | Some x \<Rightarrow> map_option (\<lambda>(t, q). (x # t, q)) (read_text (drop 4 r)))
           else
             (case unescape_short l of
                None \<Rightarrow> None
              | Some x \<Rightarrow> map_option (\<lambda>(t, q). (x # t, q)) (read_text r)))
     else if (of_char c :: nat) < 32 then None
     else map_option (\<lambda>(t, q). (c # t, q)) (read_text s))"

text \<open>The digits of a number: a single zero, or digits that start with another one.\<close>

definition read_number :: "string \<Rightarrow> (nat \<times> string) option" where
  "read_number s = (case s of
     [] \<Rightarrow> None
   | c # r \<Rightarrow> if c = CHR ''0'' then Some (0, r)
       else (let digits = takeWhile is_digit s in
         if digits = [] then None
         else map_option (\<lambda>n. (n, drop (length digits) s)) (parse_digits 0 digits)))"

definition read_word :: "string \<Rightarrow> (json \<times> string) option" where
  "read_word s =
    (if starts_with ''null'' s then Some (JNull, drop 4 s)
     else if starts_with ''true'' s then Some (JBool True, drop 4 s)
     else if starts_with ''false'' s then Some (JBool False, drop 5 s)
     else if starts_with ''-'' s then map_option (\<lambda>(n, r). (JInt (- int n), r)) (read_number (tl s))
     else map_option (\<lambda>(n, r). (JInt (int n), r)) (read_number s))"

text \<open>Every call of the reader is given fuel; twice the length of the text is enough, because the
  reader calls itself at most twice for every character it consumes.\<close>

fun read_value :: "nat \<Rightarrow> string \<Rightarrow> (json \<times> string) option"
  and read_items :: "nat \<Rightarrow> string \<Rightarrow> (json list \<times> string) option"
  and read_members :: "nat \<Rightarrow> string \<Rightarrow> ((string \<times> json) list \<times> string) option" where
  "read_value 0 s = None"
| "read_value (Suc n) s =
    (let t = skip s in
     if starts_with [quote_char] t then map_option (\<lambda>(x, r). (JText x, r)) (read_text (tl t))
     else if starts_with ''['' t then
       (if starts_with '']'' (skip (tl t)) then Some (JArray [], tl (skip (tl t)))
        else map_option (\<lambda>(xs, r). (JArray xs, r)) (read_items n (tl t)))
     else if starts_with ''{'' t then
       (if starts_with ''}'' (skip (tl t)) then Some (JObject [], tl (skip (tl t)))
        else map_option (\<lambda>(ms, r). (JObject ms, r)) (read_members n (tl t)))
     else read_word t)"
| "read_items 0 s = None"
| "read_items (Suc n) s =
    (case read_value n s of
       None \<Rightarrow> None
     | Some (x, r) \<Rightarrow>
        (if starts_with '','' (skip r) then map_option (\<lambda>(xs, q). (x # xs, q)) (read_items n (tl (skip r)))
         else if starts_with '']'' (skip r) then Some ([x], tl (skip r))
         else None))"
| "read_members 0 s = None"
| "read_members (Suc n) s =
    (if \<not> starts_with [quote_char] (skip s) then None
     else (case read_text (tl (skip s)) of
       None \<Rightarrow> None
     | Some (k, r) \<Rightarrow>
        (if \<not> starts_with '':'' (skip r) then None
         else (case read_value n (tl (skip r)) of
           None \<Rightarrow> None
         | Some (x, q) \<Rightarrow>
            (if starts_with '','' (skip q) then map_option (\<lambda>(ms, p). ((k, x) # ms, p)) (read_members n (tl (skip q)))
             else if starts_with ''}'' (skip q) then Some ([(k, x)], tl (skip q))
             else None)))))"

definition loads :: "string \<Rightarrow> json option" where
  "loads s = (case read_value (2 * length s) s of
     None \<Rightarrow> None
   | Some (j, r) \<Rightarrow> if skip r = [] then Some j else None)"

section \<open>The round trip\<close>

lemma starts_with_Cons [simp]: "starts_with [c] (x # xs) \<longleftrightarrow> x = c"
  by (simp add: starts_with_def)

lemma short_escapes_back:
  assumes "map_of short_escapes c = Some l"
  shows "unescape_short l = Some c" "l \<noteq> CHR ''u''"
  using assms
  by (auto simp: short_escapes_def unescape_short_def quote_char_def backslash_def split: if_splits)

lemma hex_value_char: "n < 16 \<Longrightarrow> hex_value (hex_char n) = Some n"
  by (simp add: hex_value_def hex_char_def in_range_def Let_def)

lemma read_escaped_char:
  "read_text (escape_char c @ t) = map_option (\<lambda>(x, q). (c # x, q)) (read_text t)"
proof (cases "map_of short_escapes c")
  case (Some l)
  have "quote_char \<noteq> backslash" by (simp add: quote_char_def backslash_def)
  then show ?thesis using short_escapes_back [OF Some] Some by (simp add: escape_char_def)
next
  case None
  then have plain: "c \<noteq> quote_char" "c \<noteq> backslash" by (auto simp: short_escapes_def split: if_splits)
  show ?thesis
  proof (cases "(of_char c :: nat) < 32")
    case True
    let ?n = "of_char c :: nat"
    have "hex_value (hex_char (?n div 16)) = Some (?n div 16)" "hex_value (hex_char (?n mod 16)) = Some (?n mod 16)"
      using True by (simp_all add: hex_value_char)
    then have "unescape_hex (CHR ''0'' # CHR ''0'' # hex_char (?n div 16) # hex_char (?n mod 16) # t) = Some c"
      by (simp add: unescape_hex_def starts_with_def)
    moreover have "quote_char \<noteq> backslash" by (simp add: quote_char_def backslash_def)
    ultimately show ?thesis using True None by (simp add: escape_char_def Let_def)
  next
    case False
    then show ?thesis using None plain by (simp add: escape_char_def Let_def)
  qed
qed

lemma read_escaped: "read_text (escaped s @ quote_char # r) = Some (s, r)"
  by (induction s) (simp_all add: escaped_def read_escaped_char)

lemma digit_char_props:
  "n < 10 \<Longrightarrow> is_digit (digit_char n)" "n < 10 \<Longrightarrow> digit_char n = CHR ''0'' \<longleftrightarrow> n = 0"
proof -
  assume n: "n < 10"
  show "is_digit (digit_char n)" using n by (simp add: is_digit_def in_range_def of_char_digit)
  have "(of_char (digit_char n) :: nat) = of_char CHR ''0'' \<longleftrightarrow> n = 0" using n by (simp add: of_char_digit)
  then show "digit_char n = CHR ''0'' \<longleftrightarrow> n = 0" by (metis of_char_eq_iff)
qed

lemma digits_of_show_nat: "list_all is_digit (show_nat n)"
  by (induction n rule: show_nat.induct) (subst show_nat.simps, simp add: digit_char_props)

lemma show_nat_nonempty: "show_nat n \<noteq> []"
  by (subst show_nat.simps) simp

lemma hd_show_nat: "n \<noteq> 0 \<Longrightarrow> hd (show_nat n) \<noteq> CHR ''0''"
proof (induction n rule: less_induct)
  case (less n)
  then show ?case
    using show_nat_nonempty [of "n div 10"] by (subst show_nat.simps) (simp add: digit_char_props hd_append)
qed

text \<open>What follows a number in a text does not continue it.\<close>

definition no_digit :: "string \<Rightarrow> bool" where
  "no_digit r \<longleftrightarrow> (r = [] \<or> \<not> is_digit (hd r))"

lemma read_show_nat:
  assumes "no_digit r"
  shows "read_number (show_nat n @ r) = Some (n, r)"
proof (cases "n = 0")
  case True
  then show ?thesis using digit_char_props(2) [of 0] by (simp add: show_nat.simps [of 0] read_number_def)
next
  case False
  have "takeWhile is_digit (show_nat n @ r) = show_nat n @ takeWhile is_digit r"
    using digits_of_show_nat [of n] by (simp add: takeWhile_append2 list_all_iff)
  also have "takeWhile is_digit r = []" using assms by (cases r) (simp_all add: no_digit_def)
  finally have digits: "takeWhile is_digit (show_nat n @ r) = show_nat n" by simp
  obtain c t where ct: "show_nat n = c # t" using show_nat_nonempty [of n] by (cases "show_nat n") auto
  have "c \<noteq> CHR ''0''" using hd_show_nat [OF False] ct by simp
  then show ?thesis
    using digits show_nat_nonempty [of n] parse_show_nat [of n] by (simp add: read_number_def ct)
qed

text \<open>The first character of a written value decides how it is read.\<close>

lemma digit_not_special:
  assumes "is_digit c"
  shows "c \<noteq> quote_char" "c \<noteq> CHR ''[''" "c \<noteq> CHR ''{''" "c \<noteq> CHR ''n''" "c \<noteq> CHR ''t''" "c \<noteq> CHR ''f''"
    "c \<noteq> CHR ''-''" "\<not> json_space c" "c \<noteq> CHR '']''"
  using assms by (auto simp: is_digit_def in_range_def quote_char_def json_space_def)

lemma show_int_first:
  "\<exists>c t. show_int i = c # t \<and> (c = CHR ''-'' \<or> is_digit c)"
proof -
  obtain c t where "show_nat (nat i) = c # t" using show_nat_nonempty [of "nat i"] by (cases "show_nat (nat i)") auto
  then show ?thesis using digits_of_show_nat [of "nat i"] by (auto simp: show_int_def)
qed

lemma dumps_first:
  "\<exists>c t. dumps j = c # t \<and> \<not> json_space c \<and> c \<noteq> CHR '']''"
proof (cases j)
  case (JInt i)
  obtain c t where "show_int i = c # t" "c = CHR ''-'' \<or> is_digit c" using show_int_first by blast
  then show ?thesis using JInt digit_not_special(8,9) [of c] by (auto simp: json_space_def)
qed (auto simp: json_space_def quoted_def quote_char_def)

lemma read_word_int:
  assumes "no_digit r"
  shows "read_word (show_int i @ r) = Some (JInt i, r)"
proof (cases "i < 0")
  case True
  then show ?thesis
    using read_show_nat [OF assms] by (simp add: show_int_def read_word_def starts_with_def)
next
  case False
  obtain c t where ct: "show_nat (nat i) = c # t" using show_nat_nonempty [of "nat i"] by (cases "show_nat (nat i)") auto
  then have "is_digit c" using digits_of_show_nat [of "nat i"] by simp
  with ct have "\<not> starts_with (x # y) (show_nat (nat i) @ r)" if "x \<in> set ''ntf-''" for x y
    using that digit_not_special [of c] by (auto simp: starts_with_def)
  then show ?thesis
    using False read_show_nat [OF assms, of "nat i"] by (simp add: show_int_def read_word_def)
qed

lemma skip_first: "\<not> json_space c \<Longrightarrow> skip (c # s) = c # s"
  by (simp add: skip_def)

lemma skip_special [simp]:
  "skip (CHR '','' # s) = CHR '','' # s" "skip (CHR '']'' # s) = CHR '']'' # s" "skip (CHR ''}'' # s) = CHR ''}'' # s"
  "skip (CHR '':'' # s) = CHR '':'' # s" "skip (quote_char # s) = quote_char # s" "skip [] = []"
  "skip (CHR ''['' # s) = CHR ''['' # s" "skip (CHR ''{'' # s) = CHR ''{'' # s"
  by (simp_all add: skip_def json_space_def quote_char_def)

lemma no_digit_special [simp]:
  "no_digit (CHR '','' # s)" "no_digit (CHR '']'' # s)" "no_digit (CHR ''}'' # s)" "no_digit []"
  by (simp_all add: no_digit_def is_digit_def in_range_def)

lemma skip_dumps: "skip (dumps j @ r) = dumps j @ r"
  using dumps_first [of j] skip_first by fastforce


text \<open>What the round trip of a value says, for every sufficient fuel and every continuation.\<close>

definition reads_back :: "json \<Rightarrow> bool" where
  "reads_back j \<longleftrightarrow> (\<forall>n r. 2 * length (dumps j) \<le> Suc n \<longrightarrow> no_digit r \<longrightarrow> read_value n (dumps j @ r) = Some (j, r))"

lemma reads_backD:
  "reads_back j \<Longrightarrow> 2 * length (dumps j) \<le> Suc n \<Longrightarrow> no_digit r \<Longrightarrow> read_value n (dumps j @ r) = Some (j, r)"
  by (simp add: reads_back_def)

lemma join_with_Cons: "xs \<noteq> [] \<Longrightarrow> join_with sep (x # xs) = x @ sep @ join_with sep xs"
  by (cases xs) simp_all

lemma read_items_back:
  assumes "\<And>x. x \<in> set xs \<Longrightarrow> reads_back x" "xs \<noteq> []"
    and "2 * length (join_with '','' (map dumps xs)) \<le> n"
  shows "read_items n (join_with '','' (map dumps xs) @ CHR '']'' # r) = Some (xs, r)"
  using assms
proof (induction xs arbitrary: n)
  case (Cons x xs)
  have x: "reads_back x" using Cons.prems(1) by simp
  have "length (dumps x) > 0" using dumps_first [of x] by force
  show ?case
  proof (cases "xs = []")
    case True
    then obtain k where n: "n = Suc k" using Cons.prems(3) \<open>length (dumps x) > 0\<close> by (cases n) auto
    have "read_value k (dumps x @ CHR '']'' # r) = Some (x, CHR '']'' # r)"
      by (rule reads_backD [OF x]) (use Cons.prems(3) n True in simp_all)
    then show ?thesis using True n by simp
  next
    case False
    let ?rest = "join_with '','' (map dumps xs)"
    have len: "2 * length (dumps x) + 2 + 2 * length ?rest \<le> n"
      using Cons.prems(3) False by (simp add: join_with_Cons)
    then obtain k where n: "n = Suc k" by (cases n) auto
    have "read_value k (dumps x @ CHR '','' # ?rest @ CHR '']'' # r) = Some (x, CHR '','' # ?rest @ CHR '']'' # r)"
      by (rule reads_backD [OF x]) (use len n in simp_all)
    moreover have "read_items k (?rest @ CHR '']'' # r) = Some (xs, r)"
      by (rule Cons.IH) (use Cons.prems(1) False len n in simp_all)
    ultimately show ?thesis using False n by (simp add: join_with_Cons)
  qed
qed simp

definition members_text :: "(string \<times> json) list \<Rightarrow> string" where
  "members_text ms = join_with '','' (map (\<lambda>m. quoted (fst m) @ CHR '':'' # dumps (snd m)) ms)"

lemma dumps_JObject: "dumps (JObject ms) = CHR ''{'' # members_text ms @ ''}''"
  by (simp add: members_text_def member_text_def comp_def)

lemma read_member_back:
  assumes "reads_back x" "2 * length (dumps x) \<le> Suc k" "no_digit q"
  shows "read_members (Suc k) (quoted a @ CHR '':'' # dumps x @ q) =
    (if starts_with '','' (skip q) then map_option (\<lambda>(ms, p). ((a, x) # ms, p)) (read_members k (tl (skip q)))
     else if starts_with ''}'' (skip q) then Some ([(a, x)], tl (skip q)) else None)"
  using reads_backD [OF assms(1,2,3)] by (simp add: quoted_def read_escaped)

lemma read_members_back:
  assumes "\<And>m. m \<in> set ms \<Longrightarrow> reads_back (snd m)" "ms \<noteq> []" "2 * length (members_text ms) \<le> n"
  shows "read_members n (members_text ms @ CHR ''}'' # r) = Some (ms, r)"
  using assms
proof (induction ms arbitrary: n)
  case (Cons m ms)
  obtain a x where m: "m = (a, x)" by fastforce
  have x: "reads_back x" using Cons.prems(1) m by force
  show ?case
  proof (cases "ms = []")
    case True
    then have len: "2 * length (dumps x) + 2 \<le> n" using Cons.prems(3) m by (simp add: members_text_def)
    then obtain k where n: "n = Suc k" by (cases n) auto
    then have "2 * length (dumps x) \<le> Suc k" using len by simp
    from read_member_back [OF x this, of "CHR ''}'' # r" a] show ?thesis
      using True m n by (simp add: members_text_def)
  next
    case False
    have whole: "members_text (m # ms) = quoted a @ CHR '':'' # dumps x @ CHR '','' # members_text ms"
      using False m by (simp add: members_text_def join_with_Cons)
    then have len: "2 * length (dumps x) + 4 + 2 * length (members_text ms) \<le> n" using Cons.prems(3) by simp
    then obtain k where n: "n = Suc k" by (cases n) auto
    have "read_members k (members_text ms @ CHR ''}'' # r) = Some (ms, r)"
      by (rule Cons.IH) (use Cons.prems(1) False len n in simp_all)
    moreover have "2 * length (dumps x) \<le> Suc k" using len n by simp
    ultimately show ?thesis
      using read_member_back [OF x, of k "CHR '','' # members_text ms @ CHR ''}'' # r" a] n whole m by simp
  qed
qed simp

lemma starts_with_first: "starts_with [c] (x # s @ r) \<longleftrightarrow> x = c"
  by simp

lemma read_value_word:
  assumes "dumps j = c # t" "c \<noteq> quote_char" "c \<noteq> CHR ''[''" "c \<noteq> CHR ''{''" "0 < n"
  shows "read_value n (dumps j @ r) = read_word (dumps j @ r)"
  using assms skip_dumps [of j r] by (cases n) simp_all

lemma reads_back_scalar:
  assumes "\<And>r. no_digit r \<Longrightarrow> read_word (dumps j @ r) = Some (j, r)"
    and "dumps j = c # t" "c \<noteq> quote_char" "c \<noteq> CHR ''[''" "c \<noteq> CHR ''{''"
  shows "reads_back j"
  unfolding reads_back_def
proof (intro allI impI)
  fix n r assume "2 * length (dumps j) \<le> Suc n" "no_digit r"
  moreover from this(1) have "0 < n" using assms(2) by simp
  ultimately show "read_value n (dumps j @ r) = Some (j, r)"
    using read_value_word [OF assms(2-5)] assms(1) by simp
qed

lemma brackets_differ [simp]:
  "quote_char \<noteq> CHR ''[''" "quote_char \<noteq> CHR ''{''" "CHR ''['' \<noteq> quote_char" "CHR ''{'' \<noteq> quote_char"
  by (simp_all add: quote_char_def)

lemma reads_back_all: "reads_back j"
proof (induction j)
  case JNull
  show ?case by (rule reads_back_scalar [of _ "CHR ''n''"]) (simp_all add: read_word_def starts_with_def quote_char_def)
next
  case (JBool b)
  show ?case
    by (cases b, rule reads_back_scalar [of _ "CHR ''t''"])
      (simp_all add: read_word_def starts_with_def quote_char_def, rule reads_back_scalar [of _ "CHR ''f''"],
       simp_all add: read_word_def starts_with_def quote_char_def)
next
  case (JInt i)
  obtain c t where ct: "show_int i = c # t" "c = CHR ''-'' \<or> is_digit c" using show_int_first by blast
  show ?case
  proof (rule reads_back_scalar [of _ c t])
    show "read_word (dumps (JInt i) @ r) = Some (JInt i, r)" if "no_digit r" for r
      using read_word_int [OF that] by simp
  qed (use ct digit_not_special [of c] in \<open>auto simp: quote_char_def\<close>)
next
  case (JText s)
  show ?case
    unfolding reads_back_def
  proof (intro allI impI)
    fix n r assume "2 * length (dumps (JText s)) \<le> Suc n"
    then obtain k where "n = Suc k" by (cases n) (auto simp: quoted_def)
    then show "read_value n (dumps (JText s) @ r) = Some (JText s, r)" by (simp add: quoted_def read_escaped)
  qed
next
  case (JArray xs)
  show ?case
    unfolding reads_back_def
  proof (intro allI impI)
    fix n r assume "2 * length (dumps (JArray xs)) \<le> Suc n"
    then obtain k where n: "n = Suc k" "2 * length (join_with '','' (map dumps xs)) \<le> k" by (cases n) auto
    show "read_value n (dumps (JArray xs) @ r) = Some (JArray xs, r)"
    proof (cases "xs = []")
      case False
      obtain x ys where xs: "xs = x # ys" using False by (cases xs) auto
      obtain c t where ct: "dumps x = c # t" "\<not> json_space c" "c \<noteq> CHR '']''" using dumps_first by blast
      have "\<not> starts_with '']'' (skip (join_with '','' (map dumps xs) @ CHR '']'' # r))"
        using ct xs skip_first [OF ct(2)] by (cases "ys = []") (simp_all add: join_with_Cons)
      then show ?thesis using read_items_back [OF JArray.IH False n(2)] n(1) by simp
    qed (simp add: n)
  qed
next
  case (JObject ms)
  have IH: "reads_back (snd m)" if "m \<in> set ms" for m
    using JObject.IH [OF that] by (cases m) auto
  show ?case
    unfolding reads_back_def
  proof (intro allI impI)
    fix n r assume "2 * length (dumps (JObject ms)) \<le> Suc n"
    then obtain k where n: "n = Suc k" "2 * length (members_text ms) \<le> k"
      unfolding dumps_JObject by (cases n) auto
    show "read_value n (dumps (JObject ms) @ r) = Some (JObject ms, r)"
    proof (cases "ms = []")
      case True
      then show ?thesis by (simp add: n)
    next
      case False
      then obtain m ns where ms: "ms = m # ns" by (cases ms) auto
      have "\<exists>s. members_text ms = quote_char # s"
        using ms by (cases "ns = []") (simp_all add: members_text_def join_with_Cons quoted_def)
      then have "\<not> starts_with ''}'' (skip (members_text ms @ CHR ''}'' # r))"
        by (auto simp: quote_char_def [symmetric]) (simp add: quote_char_def)
      then show ?thesis using read_members_back [OF IH False n(2)] n(1) unfolding dumps_JObject by simp
    qed
  qed
qed

text \<open>Reading what was written gives the value back.\<close>

lemma loads_dumps: "loads (dumps j) = Some j"
proof -
  have "read_value (2 * length (dumps j)) (dumps j @ []) = Some (j, [])"
    by (rule reads_backD [OF reads_back_all]) simp_all
  then show ?thesis by (simp add: loads_def)
qed


end
