(* ===== verification/ApiContract.thy ===== *)
theory ApiContract
  imports ServiceAccounts Json
begin

text \<open>
  What every endpoint of the automation API shares (\<open>src/na_sso/api_contract.py\<close>): the form of
  the answers, the rate limit, the authentication by a Bearer token or a session, and
  the idempotency records.  The windows of the rate limit live in the memory of the process; they are
  a state beside the database, a list of instants of the monotonic clock for each identity, oldest first.
\<close>

section \<open>Requests and answers\<close>

text \<open>A request with its \<open>X-Request-ID\<close> header and the identifier drawn for it when the header
  cannot be used; the identifier is kept for the whole request.\<close>

record ApiRequest =
  ax_request :: Request
  ax_supplied_id :: string
  ax_fresh_id :: string

definition safe_char :: "char \<Rightarrow> bool" where
  "safe_char c \<longleftrightarrow> is_alnum c \<or> c \<in> set ''._:-''"

definition request_id_ok :: "string \<Rightarrow> bool" where
  "request_id_ok s \<longleftrightarrow> in_range 1 128 (length s) \<and> list_all safe_char s"

definition idempotency_key_ok :: "string \<Rightarrow> bool" where
  "idempotency_key_ok s \<longleftrightarrow> in_range 8 128 (length s) \<and> list_all safe_char s"

definition request_id :: "ApiRequest \<Rightarrow> string" where
  "request_id x = (if request_id_ok (ax_supplied_id x) then ax_supplied_id x else ax_fresh_id x)"

type_synonym headers = "(string \<times> string) list"

record ApiResponse =
  as_status :: nat
  as_body :: json
  as_headers :: headers

definition merged :: "headers \<Rightarrow> headers \<Rightarrow> headers" where
  "merged h g = fold (\<lambda>(k, v). AList.update k v) g h"

definition api_error ::
  "ApiRequest \<Rightarrow> headers \<Rightarrow> nat \<Rightarrow> string \<Rightarrow> string \<Rightarrow> json option \<Rightarrow> headers \<Rightarrow> ApiResponse" where
  "api_error x rate status_code code message details headers =
    \<lparr>as_status = status_code,
     as_body = JObject [(''api_version'', JText ''v1''), (''request_id'', JText (request_id x)),
       (''error'', JObject ([(''code'', JText code), (''message'', JText message)] @
          (case details of None \<Rightarrow> [] | Some v \<Rightarrow> [(''details'', v)])))],
     as_headers = merged rate headers\<rparr>"

definition api_response ::
  "ApiRequest \<Rightarrow> headers \<Rightarrow> json \<Rightarrow> nat \<Rightarrow> json option \<Rightarrow> headers \<Rightarrow> ApiResponse" where
  "api_response x rate data status_code meta headers =
    \<lparr>as_status = status_code,
     as_body = JObject ([(''api_version'', JText ''v1''), (''request_id'', JText (request_id x)), (''data'', data)] @
       (case meta of None \<Rightarrow> [] | Some v \<Rightarrow> [(''meta'', v)])),
     as_headers = merged rate headers\<rparr>"

definition page_meta :: "nat \<Rightarrow> nat \<Rightarrow> nat \<Rightarrow> nat \<Rightarrow> json" where
  "page_meta page per_page total_rows pages = JObject [(''page'', JInt (int page)), (''per_page'', JInt (int per_page)),
     (''total'', JInt (int total_rows)), (''pages'', JInt (int pages)),
     (''has_previous'', JBool (page > 1)), (''has_next'', JBool (page < pages))]"

section \<open>The rate limit\<close>

type_synonym windows = "string \<Rightarrow> time list"

definition minute :: time where "minute = 60 * second"

text \<open>One request: the decision, with the seconds to wait or the requests that remain, and the windows.\<close>

datatype RateDecision = Limited nat | Accepted nat

definition rate_step :: "nat \<Rightarrow> time \<Rightarrow> string \<Rightarrow> windows \<Rightarrow> RateDecision \<times> windows" where
  "rate_step limit t identity w =
    (let window = dropWhile (\<lambda>s. s \<le> t - minute) (w identity) in
     if length window \<ge> limit then
       (Limited (nat (max 1 ((minute - (t - hd window)) div second))), w(identity := window))
     else (Accepted (limit - Suc (length window)), w(identity := window @ [t])))"

definition rate_limit ::
  "Env \<Rightarrow> ApiRequest \<Rightarrow> string \<Rightarrow> windows \<Rightarrow> ApiResponse option \<times> headers \<times> windows" where
  "rate_limit e x identity w =
    (let limit = aa_requests_per_minute (fc_automation_api_policy (file_config e)) in
     case rate_step limit (monotonic e) identity w of
       (Limited wait, w') \<Rightarrow>
         (let h = [(''X-RateLimit-Limit'', show_nat limit), (''X-RateLimit-Remaining'', ''0''),
                (''Retry-After'', show_nat wait)] in
          (Some (api_error x h 429 ''rate_limit_exceeded'' ''The API request rate limit has been reached.'' None []), h, w'))
     | (Accepted remaining, w') \<Rightarrow>
         (None, [(''X-RateLimit-Limit'', show_nat limit), (''X-RateLimit-Remaining'', show_nat remaining)], w'))"

definition reset_api_rate_limits :: "windows \<Rightarrow> windows" where
  "reset_api_rate_limits w = (\<lambda>_. [])"

section \<open>The guard of the API\<close>

datatype ApiPrincipal = AccountPrincipal Principal | ServiceAccountPrincipal ServicePrincipal

definition api_username :: "ApiPrincipal \<Rightarrow> string" where
  "api_username p = (case p of AccountPrincipal a \<Rightarrow> pr_username a | ServiceAccountPrincipal s \<Rightarrow> sp_username s)"

definition principal_has_permission :: "ApiPrincipal \<Rightarrow> permission \<Rightarrow> bool" where
  "principal_has_permission p perm = (case p of
     ServiceAccountPrincipal s \<Rightarrow> permission_value perm \<in> set (sp_permissions s)
   | AccountPrincipal a \<Rightarrow> has_permission (pr_role a) perm)"

text \<open>A request that presents a Bearer token is never taken for the session it may also carry.\<close>

definition api_account :: "Env \<Rightarrow> Request \<Rightarrow> db \<Rightarrow> ApiPrincipal option \<times> db" where
  "api_account e req d =
    (if starts_with ''Bearer '' (rq_authorization req) then
       (case authenticate_service_account e (strip (drop 7 (rq_authorization req))) d of
          (sp, d') \<Rightarrow> (map_option ServiceAccountPrincipal sp, d'))
     else (map_option AccountPrincipal (current_user e req d), d))"

definition rate_identity :: "Request \<Rightarrow> ApiPrincipal option \<Rightarrow> string" where
  "rate_identity req account = (case account of
     Some (ServiceAccountPrincipal s) \<Rightarrow> cat [''service_account:'', show_nat (sp_id s)]
   | Some (AccountPrincipal a) \<Rightarrow> cat [''account:'', show_nat (pr_id a)]
   | None \<Rightarrow> cat [''ip:'', if rq_client req = [] then ''unknown'' else rq_client req])"

definition mfa_missing :: "Env \<Rightarrow> ApiPrincipal \<Rightarrow> db \<Rightarrow> bool" where
  "mfa_missing e p d = (case p of
     ServiceAccountPrincipal s \<Rightarrow> False
   | AccountPrincipal a \<Rightarrow> account_requires_mfa e (pr_id a) (pr_role a) d \<and> \<not> pr_mfa_verified a)"

text \<open>The answer or the principal, the headers of the rate limit, the windows and the database.\<close>

definition api_guard ::
  "Env \<Rightarrow> ApiRequest \<Rightarrow> permission option \<Rightarrow> windows \<Rightarrow> db
     \<Rightarrow> (ApiResponse + ApiPrincipal) \<times> headers \<times> windows \<times> db" where
  "api_guard e x perm w d =
    (if \<not> aa_enabled (fc_automation_api_policy (file_config e)) then
       (Inl (api_error x [] 503 ''api_disabled'' ''The automation API is disabled.'' None []), [], w, d)
     else
       (case api_account e (ax_request x) d of (account, d1) \<Rightarrow>
        (case rate_limit e x (rate_identity (ax_request x) account) w of
           (Some limited, h, w1) \<Rightarrow> (Inl limited, h, w1, d1)
         | (None, h, w1) \<Rightarrow>
            (case account of
               None \<Rightarrow> (Inl (api_error x h 401 ''authentication_required'' ''API authentication is required.'' None
                  [(''WWW-Authenticate'', ''Bearer'')]), h, w1, d1)
             | Some p \<Rightarrow>
                if perm \<noteq> None \<and> \<not> principal_has_permission p (the perm) then
                  (Inl (api_error x h 403 ''forbidden'' ''The authenticated principal lacks this capability.'' None []), h, w1, d1)
                else if mfa_missing e p d1 then
                  (Inl (api_error x h 403 ''mfa_required'' ''Complete administrator MFA before using the API.'' None []), h, w1, d1)
                else (Inr p, h, w1, d1)))))"

section \<open>Idempotent requests\<close>

text \<open>The payloads of the endpoints are objects of ASCII texts, numbers and truth values; their
  keys are sorted before the digest is taken.\<close>

definition request_fingerprint :: "Env \<Rightarrow> (string \<times> json) list \<Rightarrow> string" where
  "request_fingerprint e payload = sha256_hex e (dumps (JObject (sort_key fst payload)))"

definition find_record :: "string \<Rightarrow> string \<Rightarrow> string \<Rightarrow> string \<Rightarrow> ApiIdempotencyRecord list \<Rightarrow> ApiIdempotencyRecord option" where
  "find_record actor mth path key rs =
    find (\<lambda>r. ai_actor r = actor \<and> ai_method r = mth \<and> ai_path r = path \<and> ai_idempotency_key r = key) rs"

definition unexpired :: "time \<Rightarrow> ApiIdempotencyRecord list \<Rightarrow> ApiIdempotencyRecord list" where
  "unexpired t rs = filter (\<lambda>r. \<not> ai_expires_at r \<le> t) rs"

definition replayed :: "ApiRequest \<Rightarrow> headers \<Rightarrow> nat \<Rightarrow> string \<Rightarrow> ApiResponse" where
  "replayed x rate status_code body = (case loads body of
     Some j \<Rightarrow> \<lparr>as_status = status_code, as_body = j, as_headers = merged rate [(''Idempotent-Replay'', ''true'')]\<rparr>
   | None \<Rightarrow> \<lparr>as_status = 500, as_body = JText ''JSONDecodeError'', as_headers = []\<rparr>)"

text \<open>A request that is refused or answered from a record commits nothing, so the expired
  records are only removed together with the insertion of a new one.\<close>

definition begin_idempotent_request ::
  "Env \<Rightarrow> ApiRequest \<Rightarrow> headers \<Rightarrow> string \<Rightarrow> string \<Rightarrow> (string \<times> json) list \<Rightarrow> db
     \<Rightarrow> ApiResponse + (ApiIdempotencyRecord \<times> db)" where
  "begin_idempotent_request e x rate actor key payload d =
    (if \<not> idempotency_key_ok key then
       Inl (api_error x rate 422 ''invalid_idempotency_key''
         (cat [''Idempotency keys must contain 8'', en_dash, ''128 safe characters.'']) None [])
     else
       (let req = ax_request x; fingerprint = request_fingerprint e payload;
            kept = unexpired (now e) (idempotency d) in
        case find_record actor (rq_method req) (rq_path req) key kept of
          Some r \<Rightarrow>
            if ai_request_hash r \<noteq> fingerprint then
              Inl (api_error x rate 409 ''idempotency_conflict''
                ''This idempotency key was already used with a different request.'' None [])
            else
              (case (ai_response_status r, ai_response_body r) of
                 (Some status_code, Some body) \<Rightarrow> Inl (replayed x rate status_code body)
               | _ \<Rightarrow> Inl (api_error x rate 409 ''request_in_progress''
                   ''The matching idempotent request is still in progress.'' None []))
        | None \<Rightarrow>
            (let r = \<lparr>ai_id = uuid4 d, ai_actor = actor, ai_method = rq_method req, ai_path = rq_path req,
                   ai_idempotency_key = key, ai_request_hash = fingerprint, ai_response_status = None,
                   ai_response_body = None, ai_operation_id = None, ai_created_at = now e,
                   ai_expires_at = now e + int (aa_idempotency_retention_hours (fc_automation_api_policy (file_config e))) * 3600 * second\<rparr>
             in Inr (r, (next_tick d)\<lparr>idempotency := kept @ [r]\<rparr>))))"

definition upd_record :: "uuid \<Rightarrow> (ApiIdempotencyRecord \<Rightarrow> ApiIdempotencyRecord) \<Rightarrow> db \<Rightarrow> db" where
  "upd_record k f d = d\<lparr>idempotency := rows_upd ai_id k f (idempotency d)\<rparr>"

definition finish_idempotent_request ::
  "uuid \<Rightarrow> ApiResponse \<Rightarrow> uuid option \<Rightarrow> db \<Rightarrow> ApiResponse \<times> db" where
  "finish_idempotent_request record_id response operation_id d =
    (response, upd_record record_id (\<lambda>r. r\<lparr>ai_response_status := Some (as_status response),
       ai_response_body := Some (dumps (as_body response)), ai_operation_id := operation_id\<rparr>) d)"

section \<open>The rate limit against its specification\<close>

text \<open>The outputs of a machine on a list of events.\<close>

fun outputs :: "('e \<Rightarrow> 's \<Rightarrow> 'out \<times> 's) \<Rightarrow> 'e list \<Rightarrow> 's \<Rightarrow> 'out list" where
  "outputs f [] s = []"
| "outputs f (ev # evs) s = fst (f ev s) # outputs f evs (snd (f ev s))"

text \<open>A machine that simulates another one, event by event: related states give
  the same output and stay related, as long as each event may follow the one before.\<close>

locale simulation =
  fixes abs_step :: "'e \<Rightarrow> 'a \<Rightarrow> 'out \<times> 'a"
    and con_step :: "'e \<Rightarrow> 'c \<Rightarrow> 'out \<times> 'c"
    and may_follow :: "'e \<Rightarrow> 'e \<Rightarrow> bool"
    and rel :: "'e \<Rightarrow> 'a \<Rightarrow> 'c \<Rightarrow> bool"
  assumes step: "rel ev0 a c \<Longrightarrow> may_follow ev0 ev \<Longrightarrow>
    fst (con_step ev c) = fst (abs_step ev a) \<and> rel ev (snd (abs_step ev a)) (snd (con_step ev c))"
begin

lemma same_outputs:
  assumes "rel ev0 a c" "successively may_follow (ev0 # evs)"
  shows "outputs con_step evs c = outputs abs_step evs a"
  using assms
proof (induction evs arbitrary: ev0 a c)
  case (Cons ev evs)
  then have "fst (con_step ev c) = fst (abs_step ev a)" "rel ev (snd (abs_step ev a)) (snd (con_step ev c))"
    using step [of ev0 a c ev] by simp_all
  then show ?case using Cons by simp
qed simp

end

text \<open>The specification keeps the whole log of accepted requests and counts those of the identity
  in the last minute.\<close>

definition recent :: "string \<Rightarrow> time \<Rightarrow> (string \<times> time) list \<Rightarrow> time list" where
  "recent i t log = map snd (filter (\<lambda>(j, s). j = i \<and> t - minute < s) log)"

definition spec_step :: "nat \<Rightarrow> string \<times> time \<Rightarrow> (string \<times> time) list \<Rightarrow> bool \<times> (string \<times> time) list" where
  "spec_step limit = (\<lambda>(i, t) log.
     if length (recent i t log) \<ge> limit then (False, log) else (True, log @ [(i, t)]))"

definition accepted :: "RateDecision \<Rightarrow> bool" where
  "accepted r = (case r of Accepted _ \<Rightarrow> True | Limited _ \<Rightarrow> False)"

definition limiter_step :: "nat \<Rightarrow> string \<times> time \<Rightarrow> windows \<Rightarrow> bool \<times> windows" where
  "limiter_step limit = (\<lambda>(i, t) w. case rate_step limit t i w of (r, w') \<Rightarrow> (accepted r, w'))"

definition not_before :: "string \<times> time \<Rightarrow> string \<times> time \<Rightarrow> bool" where
  "not_before a b \<longleftrightarrow> snd a \<le> snd b"

text \<open>A window agrees with the log on every instant that still counts, and is in order.\<close>

definition window_ok :: "time \<Rightarrow> string \<Rightarrow> (string \<times> time) list \<Rightarrow> time list \<Rightarrow> bool" where
  "window_ok t i log v \<longleftrightarrow> sorted v \<and> (\<forall>s \<in> set v. s \<le> t) \<and>
     (\<forall>u \<ge> t. recent i u log = filter (\<lambda>s. u - minute < s) v)"

definition windows_ok :: "string \<times> time \<Rightarrow> (string \<times> time) list \<Rightarrow> windows \<Rightarrow> bool" where
  "windows_ok ev log w \<longleftrightarrow> (\<forall>i. window_ok (snd ev) i log (w i))"

lemma window_okD:
  assumes "window_ok t i log v" "t \<le> u"
  shows "recent i u log = filter (\<lambda>s. u - minute < s) v" "sorted v" "\<forall>s \<in> set v. s \<le> u"
  using assms by (auto simp: window_ok_def)

lemma dropWhile_sorted_le: "sorted v \<Longrightarrow> dropWhile (\<lambda>s. s \<le> b) v = filter (\<lambda>s. (b::time) < s) v"
proof (induction v)
  case (Cons a v)
  show ?case
  proof (cases "a \<le> b")
    case False
    then have "\<forall>s \<in> set v. b < s" using Cons.prems by auto
    then show ?thesis using False by (simp add: filter_id_conv)
  qed (use Cons in simp)
qed simp

lemma window_ok_later: "window_ok t i log v \<Longrightarrow> t \<le> u \<Longrightarrow> window_ok u i log v"
  by (force simp: window_ok_def)

lemma window_ok_trimmed:
  assumes "window_ok t i log v" "t \<le> u"
  shows "window_ok u i log (filter (\<lambda>s. u - minute < s) v)"
proof -
  have "filter (\<lambda>s. x - minute < s) (filter (\<lambda>s. u - minute < s) v) = filter (\<lambda>s. x - minute < s) v" if "u \<le> x" for x
    using that by (auto intro: filter_cong)
  then show ?thesis
    using window_okD [OF assms] window_okD(1) [OF assms(1)] assms(2)
    by (auto simp: window_ok_def sorted_wrt_filter)
qed

lemma window_ok_appended:
  assumes "window_ok u i log v"
  shows "window_ok u i (log @ [(i, u)]) (v @ [u])" "j \<noteq> i \<Longrightarrow> window_ok u j log v' \<Longrightarrow> window_ok u j (log @ [(i, u)]) v'"
  using assms by (auto simp: window_ok_def recent_def sorted_append)

lemma limiter_steps:
  assumes "windows_ok ev0 log w" "not_before ev0 ev"
  shows "fst (limiter_step limit ev w) = fst (spec_step limit ev log) \<and>
    windows_ok ev (snd (spec_step limit ev log)) (snd (limiter_step limit ev w))"
proof -
  obtain i t where ev: "ev = (i, t)" by fastforce
  let ?v = "filter (\<lambda>s. t - minute < s) (w i)"
  have le: "snd ev0 \<le> t" using assms(2) by (simp add: not_before_def ev)
  have ok: "window_ok (snd ev0) j log (w j)" for j using assms(1) by (simp add: windows_ok_def)
  have trim: "dropWhile (\<lambda>s. s \<le> t - minute) (w i) = ?v"
    by (rule dropWhile_sorted_le) (rule window_okD(2) [OF ok le])
  have rec: "recent i t log = ?v" by (rule window_okD(1) [OF ok le])
  have v: "window_ok t i log ?v" by (rule window_ok_trimmed [OF ok le])
  have others: "window_ok t j log (w j)" for j by (rule window_ok_later [OF ok le])
  show ?thesis
  proof (cases "length ?v \<ge> limit")
    case True
    then show ?thesis
      using v others by (auto simp: ev limiter_step_def rate_step_def spec_step_def Let_def trim rec accepted_def windows_ok_def)
  next
    case False
    then show ?thesis
      using window_ok_appended [OF v] others
      by (auto simp: ev limiter_step_def rate_step_def spec_step_def Let_def trim rec accepted_def windows_ok_def)
  qed
qed

interpretation limiter: simulation "spec_step limit" "limiter_step limit" not_before windows_ok
  for limit :: nat
  by unfold_locales (rule limiter_steps)

lemma windows_ok_initial: "windows_ok ev [] (reset_api_rate_limits w)"
  by (simp add: windows_ok_def window_ok_def recent_def reset_api_rate_limits_def)

text \<open>C24: The rate limit does what its name says.  On requests whose instants do not decrease, the
  windows of the process decide exactly as the specification that remembers every accepted
  request and counts those of the identity in the last sixty seconds, from the start of
  the process or a reset on.\<close>

theorem rate_limit_refines_count:
  assumes "sorted (map snd requests)"
  shows "outputs (limiter_step limit) requests (reset_api_rate_limits w) = outputs (spec_step limit) requests []"
proof (cases requests)
  case (Cons ev evs)
  have "successively not_before (ev # requests)"
    using assms Cons
    by (simp add: not_before_def) (simp add: successively_conv_sorted_wrt transp_def sorted_wrt_map sorted_map not_before_def)
  then show ?thesis by (rule limiter.same_outputs [OF windows_ok_initial])
qed simp

text \<open>The accepted requests of a run, in order.\<close>

fun accepted_requests :: "nat \<Rightarrow> (string \<times> time) list \<Rightarrow> windows \<Rightarrow> (string \<times> time) list" where
  "accepted_requests limit [] w = []"
| "accepted_requests limit (ev # evs) w =
    (case limiter_step limit ev w of (ok, w') \<Rightarrow> (if ok then [ev] else []) @ accepted_requests limit evs w')"

definition within_limit :: "nat \<Rightarrow> (string \<times> time) list \<Rightarrow> bool" where
  "within_limit limit log \<longleftrightarrow> (\<forall>i u. length (filter (\<lambda>s. s \<le> u) (recent i u log)) \<le> limit)"

lemma recent_append: "recent i u (xs @ ys) = recent i u xs @ recent i u ys"
  by (simp add: recent_def)

lemma length_filter_mono:
  assumes "\<And>x. P x \<Longrightarrow> Q x"
  shows "length (filter P xs) \<le> length (filter Q xs)"
  using assms by (induction xs) auto

lemma within_limit_append:
  assumes "within_limit limit log" "length (recent i t log) < limit" "\<forall>(j, s) \<in> set log. s \<le> t"
  shows "within_limit limit (log @ [(i, t)])"
  unfolding within_limit_def
proof (intro allI)
  fix j u
  have old: "length (filter (\<lambda>s. s \<le> u) (recent j u log)) \<le> limit" using assms(1) by (simp add: within_limit_def)
  show "length (filter (\<lambda>s. s \<le> u) (recent j u (log @ [(i, t)]))) \<le> limit"
  proof (cases "j = i \<and> t \<le> u")
    case True
    have "length (recent i u log) \<le> length (recent i t log)"
      unfolding recent_def length_map
      by (rule length_filter_mono) (use True in auto)
    moreover have "length (filter (\<lambda>s. s \<le> u) (recent i u log)) \<le> length (recent i u log)" by (rule length_filter_le)
    ultimately have "length (filter (\<lambda>s. s \<le> u) (recent i u log)) < limit" using assms(2) by linarith
    moreover have "length (filter (\<lambda>s. s \<le> u) (recent i u [(i, t)])) \<le> 1" by (simp add: recent_def)
    ultimately show ?thesis using True by (simp add: recent_append)
  next
    case False
    then show ?thesis using old by (auto simp: recent_append) (auto simp: recent_def)
  qed
qed

lemma accepted_within_limit:
  assumes "within_limit limit log" "windows_ok ev0 log w" "\<forall>(j, s) \<in> set log. s \<le> snd ev0"
    "successively not_before (ev0 # evs)"
  shows "within_limit limit (log @ accepted_requests limit evs w)"
  using assms
proof (induction evs arbitrary: ev0 log w)
  case (Cons ev evs)
  obtain i t where ev: "ev = (i, t)" by fastforce
  have le: "snd ev0 \<le> t" and rest: "successively not_before (ev # evs)"
    using Cons.prems(4) by (simp_all add: not_before_def ev)
  note sim = limiter_steps [OF Cons.prems(2), of ev limit]
  have log: "\<forall>(j, s) \<in> set log. s \<le> t" using Cons.prems(3) le by force
  show ?case
  proof (cases "length (recent i t log) \<ge> limit")
    case True
    then have "spec_step limit ev log = (False, log)" by (simp add: spec_step_def ev)
    moreover from this obtain w' where "limiter_step limit ev w = (False, w')" "windows_ok ev log w'"
      using sim le by (cases "limiter_step limit ev w") (auto simp: not_before_def ev)
    ultimately show ?thesis
      using Cons.IH [OF Cons.prems(1) _ _ rest] log by (simp add: ev)
  next
    case False
    then have spec: "spec_step limit ev log = (True, log @ [ev])" by (simp add: spec_step_def ev)
    then obtain w' where w': "limiter_step limit ev w = (True, w')" "windows_ok ev (log @ [ev]) w'"
      using sim le by (cases "limiter_step limit ev w") (auto simp: not_before_def ev)
    have "within_limit limit (log @ [ev])"
      unfolding ev by (rule within_limit_append) (use Cons.prems(1) False log in auto)
    from Cons.IH [OF this w'(2) _ rest] show ?thesis using w'(1) log by (simp add: ev)
  qed
qed simp

text \<open>The rate limit bounds every minute.  Whatever requests arrive, in whatever order of
  identities, no identity has more than the configured number of requests accepted within any
  sixty seconds, also those that straddle the starts of two windows.\<close>

theorem rate_limit_bounds_every_minute:
  assumes "sorted (map snd requests)"
  shows "length (filter (\<lambda>(j, s). j = i \<and> u - minute < s \<and> s \<le> u)
    (accepted_requests limit requests (reset_api_rate_limits w))) \<le> limit"
proof (cases requests)
  case (Cons ev evs)
  have "successively not_before (ev # requests)"
    using assms Cons
    by (simp add: not_before_def) (simp add: successively_conv_sorted_wrt transp_def sorted_wrt_map sorted_map not_before_def)
  moreover have "within_limit limit []" by (simp add: within_limit_def recent_def)
  ultimately have "within_limit limit ([] @ accepted_requests limit requests (reset_api_rate_limits w))"
    by (intro accepted_within_limit [OF _ windows_ok_initial]) simp_all
  moreover have "length (filter (\<lambda>s. s \<le> u) (recent i u log)) =
      length (filter (\<lambda>(j, s). j = i \<and> u - minute < s \<and> s \<le> u) log)" for log
    by (induction log) (auto simp: recent_def)
  ultimately show ?thesis unfolding within_limit_def append_Nil by metis
qed simp

section \<open>The guard of the API\<close>

text \<open>C25: Who passes the guard of the API.  The API is enabled, the principal has the permission asked
  for, and either it is an account of a fresh session that passed MFA where MFA is required, on a
  request without a Bearer token, or a service account named by an accepted token; apart from
  the last use of a token nothing is stored, and the request was counted.\<close>

theorem api_guard_is_sound:
  assumes "api_guard e x (Some p) w d = (Inr pr, h, w', d')"
  shows "aa_enabled (fc_automation_api_policy (file_config e)) \<and> principal_has_permission pr p \<and>
    d' = d\<lparr>service_credentials := service_credentials d'\<rparr> \<and>
    monotonic e \<in> set (w' (rate_identity (ax_request x) (Some pr))) \<and>
    (case pr of
       AccountPrincipal a \<Rightarrow> \<not> starts_with ''Bearer '' (rq_authorization (ax_request x)) \<and>
         current_user e (ax_request x) d = Some a \<and>
         (pr_mfa_verified a \<or> \<not> account_requires_mfa e (pr_id a) (pr_role a) d)
     | ServiceAccountPrincipal s \<Rightarrow> starts_with ''Bearer '' (rq_authorization (ax_request x)) \<and>
         authenticate_service_account e (strip (drop 7 (rq_authorization (ax_request x)))) d = (Some s, d'))"
proof -
  obtain account d1 where acc: "api_account e (ax_request x) d = (account, d1)" by fastforce
  obtain lim h1 w1 where lim: "rate_limit e x (rate_identity (ax_request x) account) w = (lim, h1, w1)"
    by (metis prod_cases3)
  have enabled: "aa_enabled (fc_automation_api_policy (file_config e))"
    and some: "account = Some pr" "lim = None" and perm: "principal_has_permission pr p" and mfa: "\<not> mfa_missing e pr d1"
    and same: "w' = w1" "d' = d1"
    using assms acc lim by (auto simp: api_guard_def split: if_splits option.splits)
  have counted: "monotonic e \<in> set (w' (rate_identity (ax_request x) (Some pr)))"
    using lim some same(1) by (auto simp: rate_limit_def rate_step_def Let_def split: if_splits)
  have stored: "d' = d\<lparr>service_credentials := service_credentials d'\<rparr>"
  proof (cases "starts_with ''Bearer '' (rq_authorization (ax_request x))")
    case True
    then obtain s where "authenticate_service_account e (strip (drop 7 (rq_authorization (ax_request x)))) d = (Some s, d')"
      using acc some same(2) by (auto simp: api_account_def split: prod.splits)
    then show ?thesis by (rule authenticate_stores)
  next
    case False
    then show ?thesis using acc same(2) by (auto simp: api_account_def)
  qed
  show ?thesis
    using enabled perm counted stored acc some same mfa
    by (auto simp: api_account_def mfa_missing_def split: ApiPrincipal.splits prod.splits if_splits)
qed

section \<open>Idempotent requests\<close>

lemma find_filter_map_append:
  assumes "\<forall>y \<in> set ys. \<not> (P y \<and> Q y)" "P z" "Q z"
  shows "find P (filter Q (ys @ [z])) = Some z"
  using assms by (induction ys) auto

lemma begin_InrD:
  assumes "begin_idempotent_request e x rate actor key payload d = Inr (r, d')"
  shows "idempotency_key_ok key" "find_record actor (rq_method (ax_request x)) (rq_path (ax_request x)) key (unexpired (now e) (idempotency d)) = None"
    "idempotency d' = unexpired (now e) (idempotency d) @ [r]"
    "ai_actor r = actor" "ai_method r = rq_method (ax_request x)" "ai_path r = rq_path (ax_request x)" "ai_idempotency_key r = key"
    "ai_request_hash r = request_fingerprint e payload" "ai_response_status r = None" "ai_response_body r = None"
  using assms by (auto simp: begin_idempotent_request_def Let_def next_tick_def split: if_splits option.splits)

text \<open>A later look-up in the table with the rows of the same identifier changed finds the new record.\<close>

lemma find_record_later:
  assumes "begin_idempotent_request e x rate actor key payload d = Inr (r, d1)"
    and f: "\<And>q. ai_actor (f q) = ai_actor q \<and> ai_method (f q) = ai_method q \<and> ai_path (f q) = ai_path q \<and>
      ai_idempotency_key (f q) = ai_idempotency_key q \<and> ai_expires_at (f q) = ai_expires_at q"
    and "t < ai_expires_at r"
  shows "find_record actor (rq_method (ax_request x)) (rq_path (ax_request x)) key
    (unexpired t (rows_upd ai_id (ai_id r) f (idempotency d1))) = Some (f r)"
proof -
  note b = begin_InrD [OF assms(1)]
  let ?g = "\<lambda>q. if ai_id q = ai_id r then f q else q"
  have old: "\<forall>q \<in> set (unexpired (now e) (idempotency d)). \<not> (ai_actor q = actor \<and> ai_method q = rq_method (ax_request x) \<and>
      ai_path q = rq_path (ax_request x) \<and> ai_idempotency_key q = key)"
    using b(2) by (simp add: find_record_def find_None_iff)
  show ?thesis
    unfolding find_record_def unexpired_def rows_upd_def b(3) [unfolded unexpired_def] map_append list.map
    by (rule trans [OF find_filter_map_append]) (use old f b(4-7) assms(3) in \<open>auto simp: unexpired_def\<close>)
qed

text \<open>The record of an answered request answers it again.\<close>

lemma request_replayed:
  assumes "begin_idempotent_request e x rate actor key payload d = Inr (r, d1)"
    and "finish_idempotent_request (ai_id r) response opid d1 = (response, d2)"
    and "idempotency d3 = idempotency d2" "now e' < ai_expires_at r"
    and "rq_method (ax_request x') = rq_method (ax_request x)" "rq_path (ax_request x') = rq_path (ax_request x)"
  shows "begin_idempotent_request e' x' rate' actor key payload' d3 =
    Inl (if request_fingerprint e' payload' = request_fingerprint e payload
      then \<lparr>as_status = as_status response, as_body = as_body response,
             as_headers = merged rate' [(''Idempotent-Replay'', ''true'')]\<rparr>
      else api_error x' rate' 409 ''idempotency_conflict''
        ''This idempotency key was already used with a different request.'' None [])"
proof -
  let ?f = "\<lambda>r. r\<lparr>ai_response_status := Some (as_status response),
    ai_response_body := Some (dumps (as_body response)), ai_operation_id := opid\<rparr>"
  have "idempotency d3 = rows_upd ai_id (ai_id r) ?f (idempotency d1)"
    using assms(2,3) by (auto simp: finish_idempotent_request_def upd_record_def)
  then have "find_record actor (rq_method (ax_request x')) (rq_path (ax_request x')) key
      (unexpired (now e') (idempotency d3)) = Some (?f r)"
    using find_record_later [OF assms(1) _ assms(4), of ?f] assms(5,6) by simp
  then show ?thesis
    using begin_InrD(1,8) [OF assms(1)]
    by (simp add: begin_idempotent_request_def Let_def replayed_def loads_dumps)
qed

text \<open>A repeated request gets the first answer.  Once an idempotent request was answered, the same
  request before the expiry of its record is given the status and the body of that answer,
  read back from its text, and runs nothing; a request with the same key and another payload is
  refused (the digests of the payloads told apart).\<close>

theorem repeated_request_is_replayed:
  assumes "begin_idempotent_request e x rate actor key payload d = Inr (r, d1)"
    and "finish_idempotent_request (ai_id r) response opid d1 = (response, d2)"
    and "idempotency d3 = idempotency d2" "now e' < ai_expires_at r"
    and "rq_method (ax_request x') = rq_method (ax_request x)" "rq_path (ax_request x') = rq_path (ax_request x)"
  shows "begin_idempotent_request e' x' rate' actor key payload' d3 =
    Inl (if request_fingerprint e' payload' = request_fingerprint e payload
      then \<lparr>as_status = as_status response, as_body = as_body response,
             as_headers = merged rate' [(''Idempotent-Replay'', ''true'')]\<rparr>
      else api_error x' rate' 409 ''idempotency_conflict''
        ''This idempotency key was already used with a different request.'' None [])"
  using assms by (rule request_replayed)

text \<open>An unanswered request keeps its key until the record expires.\<close>

lemma unfinished_request_in_progress:
  assumes "begin_idempotent_request e x rate actor key payload d = Inr (r, d1)"
    and "idempotency d3 = idempotency d1" "now e' < ai_expires_at r"
    and "rq_method (ax_request x') = rq_method (ax_request x)" "rq_path (ax_request x') = rq_path (ax_request x)"
    and "request_fingerprint e' payload = request_fingerprint e payload"
  shows "begin_idempotent_request e' x' rate' actor key payload d3 =
    Inl (api_error x' rate' 409 ''request_in_progress''
      ''The matching idempotent request is still in progress.'' None [])"
proof -
  have "rows_upd ai_id (ai_id r) (\<lambda>q. q) (idempotency d1) = idempotency d3" using assms(2) by (simp add: rows_upd_def)
  then have "find_record actor (rq_method (ax_request x')) (rq_path (ax_request x')) key
      (unexpired (now e') (idempotency d3)) = Some r"
    using find_record_later [OF assms(1) _ assms(3), of "\<lambda>q. q"] assms(4,5) by simp
  then show ?thesis
    using begin_InrD(1,8,9,10) [OF assms(1)] assms(6) by (simp add: begin_idempotent_request_def Let_def)
qed

section \<open>Witnesses\<close>

definition bursts :: "(string \<times> time) list" where
  "bursts = [(''a'', 0), (''b'', 0), (''a'', second), (''a'', 2 * second), (''a'', 61 * second)]"

lemma bursts_sorted: "sorted (map snd bursts)"
  by (simp add: bursts_def second_def)

theorem rate_limit_refines_count_witness:
  "outputs (limiter_step 2) bursts (\<lambda>_. []) = [True, True, True, False, True]"
proof -
  have "outputs (limiter_step 2) bursts (reset_api_rate_limits (\<lambda>_. [])) = outputs (spec_step 2) bursts []"
    by (rule rate_limit_refines_count [OF bursts_sorted])
  moreover have "outputs (spec_step 2) bursts [] = [True, True, True, False, True]"
    by (simp add: bursts_def spec_step_def recent_def minute_def second_def)
  ultimately show ?thesis by (simp add: reset_api_rate_limits_def)
qed

theorem rate_limit_bounds_every_minute_witness:
  "length (filter (\<lambda>(j, s). j = ''a'' \<and> 2 * second - minute < s \<and> s \<le> 2 * second)
     (accepted_requests 2 bursts (reset_api_rate_limits (\<lambda>_. [])))) \<le> 2"
  by (rule rate_limit_bounds_every_minute [OF bursts_sorted])

definition bearer_request :: ApiRequest where
  "bearer_request = \<lparr>ax_request = (sample_request False)\<lparr>rq_authorization :=
     ''Bearer '' @ raw_service_token service_env service_db\<rparr>, ax_supplied_id = ''r-1'', ax_fresh_id = ''u''\<rparr>"

lemma strip_raw_token: "strip (raw_service_token service_env service_db) = raw_service_token service_env service_db"
proof -
  have "tick service_db = 0" by (simp add: service_sample_defs sample_defs)
  then show ?thesis
    by (simp add: raw_service_token_def strip_def cat_def is_space_def) (simp add: service_env_def is_space_def)
qed

lemma bearer_account:
  "\<exists>sp d'. api_account service_env (ax_request bearer_request) token_db = (Some (ServiceAccountPrincipal sp), d') \<and>
     sp_permissions sp = [''users.manage'']"
proof -
  have acc: "get_service_account 2 token_db = Some (sample_account 2)"
    by (simp add: get_service_account_def rows_get_def service_sample_defs)
  then obtain sp d' where sp: "authenticate_service_account service_env (raw_service_token service_env service_db) token_db = (Some sp, d')"
    using sample_token_accepted [of token_db "sample_account 2"] by (auto simp: token_db_def sample_account_def)
  obtain c a where c: "c \<in> set (service_credentials token_db)" "get_service_account (sc_service_account_id c) token_db = Some a"
    "sp_permissions sp = service_account_permissions a"
    using authenticate_SomeD [OF sp] by blast
  then have "a = sample_account 2" using acc by (simp add: token_db_def sample_service_credential_def)
  then have "sp_permissions sp = [''users.manage'']"
    using c(3) by (simp add: sample_account_def service_account_permissions_def SERVICE_ACCOUNT_PERMISSIONS_def permission_value_def)
  moreover have "starts_with ''Bearer '' (rq_authorization (ax_request bearer_request))"
    "drop 7 (rq_authorization (ax_request bearer_request)) = raw_service_token service_env service_db"
    by (simp_all add: bearer_request_def starts_with_def)
  ultimately show ?thesis using sp by (simp add: api_account_def strip_raw_token)
qed

theorem api_guard_is_sound_witness:
  "\<exists>pr h w' d'. api_guard service_env bearer_request (Some MANAGE_USERS) (\<lambda>_. []) token_db = (Inr pr, h, w', d') \<and>
     principal_has_permission pr MANAGE_USERS"
proof -
  obtain sp d' where acc: "api_account service_env (ax_request bearer_request) token_db = (Some (ServiceAccountPrincipal sp), d')"
    "sp_permissions sp = [''users.manage'']"
    using bearer_account by blast
  have "aa_enabled (fc_automation_api_policy (file_config service_env))"
    "aa_requests_per_minute (fc_automation_api_policy (file_config service_env)) = 120"
    by (simp_all add: service_env_def sample_defs file_config_def)
  then obtain h w' where run: "api_guard service_env bearer_request (Some MANAGE_USERS) (\<lambda>_. []) token_db =
      (Inr (ServiceAccountPrincipal sp), h, w', d')"
    using acc by (simp add: api_guard_def rate_limit_def rate_step_def principal_has_permission_def permission_value_def mfa_missing_def)
  with api_guard_is_sound [OF run] show ?thesis by blast
qed

theorem repeated_request_is_replayed_witness:
  "\<exists>r d1. begin_idempotent_request service_env bearer_request [] ''ada'' ''key-0001'' [(''a'', JInt 1)] token_db = Inr (r, d1) \<and>
     begin_idempotent_request service_env bearer_request [] ''ada'' ''key-0001'' [(''a'', JInt 1)]
       (snd (finish_idempotent_request (ai_id r) (api_response bearer_request [] (JText ''hello'') 201 None []) None d1)) =
     Inl \<lparr>as_status = 201, as_body = as_body (api_response bearer_request [] (JText ''hello'') 201 None []),
       as_headers = merged [] [(''Idempotent-Replay'', ''true'')]\<rparr>"
proof -
  let ?resp = "api_response bearer_request [] (JText ''hello'') 201 None []"
  have key: "idempotency_key_ok ''key-0001''"
    by (simp add: idempotency_key_ok_def in_range_def safe_char_def is_alnum_def is_lower_def is_digit_def is_upper_def)
  have "idempotency token_db = []" "aa_idempotency_retention_hours (fc_automation_api_policy (file_config service_env)) = 24"
    by (simp_all add: service_sample_defs sample_defs file_config_def)
  then obtain r d1 where run: "begin_idempotent_request service_env bearer_request [] ''ada'' ''key-0001'' [(''a'', JInt 1)] token_db = Inr (r, d1)"
    and later: "now service_env < ai_expires_at r"
    using key by (simp add: begin_idempotent_request_def Let_def find_record_def unexpired_def second_def)
  have "as_status ?resp = 201" by (simp add: api_response_def)
  then show ?thesis
    using run repeated_request_is_replayed [OF run, of ?resp None "snd (finish_idempotent_request (ai_id r) ?resp None d1)"
        "snd (finish_idempotent_request (ai_id r) ?resp None d1)" service_env bearer_request "[]" "[(''a'', JInt 1)]"] later
    by (simp add: finish_idempotent_request_def)
qed


end
