(* ===== verification/Background.thy ===== *)
theory Background
  imports Users
begin

text \<open>
  What a run of the synchronisation leaves alone.  The background work of the console (repairs, imports,
  policies, reviews) interleaves its own records with runs.  The locale \<open>run_relation\<close> states
  the steps a run is made of: a relation between databases that each of them keeps holds between the
  database before a run and the one after it, also when the run raises.  It is interpreted for the tables a
  run does not write, for the counter of identifiers, for the distinctness of the states and for the accounts.
\<close>

section \<open>The steps of a run\<close>

locale run_relation =
  fixes R :: "db \<Rightarrow> db \<Rightarrow> bool"
  assumes unchanged: "R d d"
    and composed: "R a b \<Longrightarrow> R b c \<Longrightarrow> R a c"
    and account_step: "(\<And>u. account_kept u (f u)) \<Longrightarrow> R d (upd_user i f d)"
    and state_change: "(\<And>s. ss_id (g s) = ss_id s) \<Longrightarrow> R d (upd_state j g d)"
    and state_added: "R d (d\<lparr>sync_states := sync_states d @ [new_state cn uid d]\<rparr>)"
    and operation_change: "(\<And>x. op_id (h x) = op_id x) \<Longrightarrow> R d (upd_operation k h d)"
    and operation_added: "R d (add_operation oper d)"
    and attempt_change: "R d (upd_attempt l m d)"
    and attempt_added: "R d (d\<lparr>attempts := as\<rparr>)"
    and recorded: "R d (record_audit e ac act subj det opid d)"
    and queued: "R d (notify e ty ev d)"
    and counted: "R d (next_tick d)"
begin

lemmas steps = composed [OF _ account_step] composed [OF _ state_change] composed [OF _ operation_change]
  composed [OF _ operation_added] composed [OF _ attempt_change] composed [OF _ attempt_added]
  composed [OF _ recorded] composed [OF _ queued] composed [OF _ counted]

lemma pointer_kept: "account_kept u (if b then u\<lparr>u_active_operation_id := x\<rparr> else u)"
  by (auto intro: account_keptI)

lemma finished_step: "R a b \<Longrightarrow> R a (finish_with e uid n st c fl det b)"
  unfolding finish_with_def by (intro steps(1,3) pointer_kept) simp_all

lemma folded:
  assumes "\<And>x d. R d (f x d)"
  shows "R d (fold f xs d)"
  by (induction xs arbitrary: d) (auto simp: unchanged intro: composed [OF assms])

lemma looked_up: "get_active_operation uid d = (r, d') \<Longrightarrow> R d d'"
  by (auto simp: get_active_operation_def unchanged intro!: account_step account_keptI
      split: option.splits if_splits)

lemma created: "create_operation e u c a t s d = (i, d') \<Longrightarrow> R d d'"
  by (auto simp: create_operation_def Let_def intro!: steps unchanged account_keptI)

lemma requested:
  assumes "request_operation e uid c a t d = (r, d')"
  shows "R d d'"
proof (cases "get_user uid d")
  case (Some u)
  obtain act d1 where act: "get_active_operation uid d = (act, d1)" by (rule prod.exhaust)
  have 1: "R d d1" using looked_up [OF act] .
  have 2: "R d d2" if "create_operation e u c a t s d1 = (i, d2)" for s i d2
    using composed [OF 1 created [OF that]] .
  have 3: "R d d2" if "create_operation e u c a t s (finish_with e uid j st m n det d1) = (i, d2)" for s i j st m n det d2
    using composed [OF finished_step [OF 1] created [OF that]] .
  show ?thesis
    using assms Some act 1 2 3
    by (auto simp: request_operation_def Let_def split: if_splits option.splits prod.splits)
qed (use assms unchanged in \<open>auto simp: request_operation_def\<close>)

lemma resumed: "resume_operation e uid oper t d = Inr d' \<Longrightarrow> R d d'"
  by (auto simp: resume_operation_def intro!: steps unchanged account_keptI split: if_splits)

lemma begun:
  assumes "begin_run e uid desired t available i d = Inr d'"
  shows "R d d'"
proof -
  have fold: "R d (fold (\<lambda>s. upd_state (ss_id s) (\<lambda>s. s\<lparr>ss_operation_id := Some i\<rparr>)) ss d)" for ss
    by (rule folded) (simp add: state_change)
  show ?thesis
    using assms by (auto simp: begin_run_def Let_def start_operation_def
        intro!: composed [OF fold] operation_change intro: composed [OF resumed operation_change]
        split: option.splits if_splits sum.splits)
qed

lemma recorded_result: "R a b \<Longrightarrow> R a (record_target_result e y c at r s p b)"
  by (auto simp: record_target_result_def Let_def finish_target_attempt_def put_result_def intro!: steps)

lemma called: "R d (outcome_db (sync_target e y c d))"
proof -
  have "R d (outcome_db (run_target e y c oper s d))" for oper s
    by (auto simp: run_target_def start_target_attempt_def put_pending_def Let_def
        intro!: steps recorded_result unchanged split: option.splits)
  then show ?thesis
    by (auto simp: sync_target_def Let_def intro!: steps unchanged split: option.splits)
qed

lemma called_all: "R d (outcome_db (sync_targets e y cs d))"
proof (induction cs arbitrary: d)
  case (Cons c cs)
  then show ?case
    using called [of d e y c] composed by (auto split: outcome.splits)
qed (simp add: unchanged)

lemma settled_all: "R a b \<Longrightarrow> R a (settle e uid desired av i b)"
  unfolding settle_def Let_def by (auto intro!: finished_step steps account_keptI)

lemma announced: "R a b \<Longrightarrow> R a (announce e i b)"
  by (auto simp: announce_def intro: steps split: option.split)

lemma retried: "retried_operation e uid t d = (r, d') \<Longrightarrow> R d d'"
  using resumed by (auto simp: retried_operation_def unchanged split: option.splits if_splits sum.splits)

lemma chosen:
  assumes "choose_operation e uid desired t a oi d = (ch, d')"
  shows "R d d'"
proof (cases "Option.bind oi (\<lambda>i. get_operation i d)")
  case None
  obtain re d1 where r: "(case t of None \<Rightarrow> (None, d) | Some t \<Rightarrow> retried_operation e uid t d) = (re, d1)"
    by (rule prod.exhaust)
  have d1: "R d d1" using r retried unchanged by (auto split: option.splits)
  show ?thesis
  proof (cases re)
    case None2: None
    obtain q d2 where q: "request_operation e uid (command_for desired a) a t d1 = (q, d2)" by (rule prod.exhaust)
    have "d' = d2" using assms None r None2 q by (simp add: choose_operation_def split: sum.splits)
    then show ?thesis using composed [OF d1 requested [OF q]] by simp
  next
    case (Some i)
    have "d' = d1" using assms None r Some by (simp add: choose_operation_def)
    then show ?thesis using d1 by simp
  qed
qed (use assms unchanged in \<open>simp add: choose_operation_def\<close>)

lemma operated:
  assumes "R d d2"
  shows "R d (outcome_db (run_operation e u desired t a av ins i d d2))"
proof (cases "begin_run e (u_id u) desired t av i d2")
  case (Inr d3)
  have *: "R d (outcome_db (sync_targets e y cs d3))" for y cs
    using composed [OF composed [OF assms begun [OF Inr]] called_all] .
  obtain y cs where run: "run_operation e u desired t a av ins i d d2 =
    (case sync_targets e y cs d3 of Raised err d4 \<Rightarrow> Raised err d4
     | Done _ d4 \<Rightarrow> Done (Some i) (announce e i (settle e (u_id u) desired av i d4)))"
    unfolding run_operation_def Inr sum.case Let_def by blast
  show ?thesis
    unfolding run using * [of y cs]
    by (cases "sync_targets e y cs d3") (simp_all add: announced settled_all)
qed (simp add: run_operation_def unchanged)

lemma states_created: "R d (create_missing_states e uid av d)"
  by (auto simp: create_missing_states_def unchanged state_added intro!: folded split: option.splits)

text \<open>A run, also one that raises.\<close>

lemma synced_user: "R d (outcome_db (sync_user e uid act t a oi d))"
proof (cases "get_user uid d")
  case (Some u)
  let ?d1 = "create_missing_states e uid (get_connectors e d) d"
  let ?des = "case act of None \<Rightarrow> u_desired_action u | Some x \<Rightarrow> x"
  obtain ch d2 where ch: "choose_operation e uid ?des t a oi ?d1 = (ch, d2)" by (rule prod.exhaust)
  have d2: "R d d2" using composed [OF states_created chosen [OF ch]] .
  show ?thesis
    using Some ch operated [OF d2] unchanged by (simp add: sync_user_def Let_def split: choice.split)
qed (simp add: sync_user_def unchanged)

text \<open>Runs one after the other.\<close>

lemma tasks_run: "R d (outcome_db (run_tasks e ts d))"
proof (induction ts arbitrary: d)
  case (Cons x ts)
  have x: "R d (outcome_db (run_task e x d))" unfolding run_task_def by (rule synced_user)
  show ?case
    using x composed [OF x Cons] by (cases "run_task e x d") auto
qed (simp add: unchanged)

end

section \<open>What a run keeps\<close>

text \<open>The tables it does not write.\<close>

definition bystanders :: "db \<Rightarrow> db" where
  "bystanders d = d\<lparr>tick := 0, users := [], operations := [], attempts := [], audit := [], deliveries := [],
     sync_states := []\<rparr>"

lemma bystanders_notify: "bystanders (notify e t ev d) = bystanders d"
proof -
  have "bystanders (without_queue x) = bystanders x" for x by (simp add: bystanders_def without_queue_def)
  then show ?thesis using notify_same [of d e t ev] by (metis same_but_queue_field)
qed

interpretation bystanders: run_relation "\<lambda>d d'. bystanders d' = bystanders d"
  by unfold_locales (auto simp: bystanders_notify, simp_all add: bystanders_def upd_user_def upd_state_def
      upd_operation_def upd_attempt_def add_operation_def next_tick_def record_audit_def)

lemma bystanders_field:
  assumes "bystanders d' = bystanders d" "\<And>x. f (bystanders x) = f x"
  shows "f d' = f d"
  using assms by metis

lemma bystanders_fields:
  assumes "bystanders d' = bystanders d"
  shows "runs d' = runs d" "findings d' = findings d" "ssh_keys d' = ssh_keys d" "exceptions d' = exceptions d"
    "credentials d' = credentials d" "unmanaged d' = unmanaged d" "workflows d' = workflows d"
    "workflow_rows d' = workflow_rows d" "idempotency d' = idempotency d" "policies d' = policies d"
    "reviews d' = reviews d" "review_items d' = review_items d" "mfas d' = mfas d" "passkeys d' = passkeys d"
  by (rule bystanders_field [OF assms], simp add: bystanders_def)+

lemmas bystanders_request = bystanders.requested
lemmas bystanders_sync_user = bystanders.synced_user

text \<open>The counter never goes back, so an identifier drawn before a run is not drawn again.\<close>

lemma tick_notify: "tick d \<le> tick (notify e t ev d)"
proof -
  have w: "tick (snd (enqueue_webhook e t ev i ep s)) \<ge> tick (snd s)" for i ep s
    by (auto simp: enqueue_webhook_def add_delivery_def next_tick_def Let_def split: prod.split)
  have "tick (snd s) \<le> tick (snd (fold (enqueue_webhook e t ev i) eps s))" for i eps s
  proof (induction eps arbitrary: s)
    case (Cons ep eps)
    then show ?case using order_trans [OF w Cons] by simp
  qed simp
  note webhooks = this
  have email: "tick (snd s) \<le> tick (snd (enqueue_email e t ev s))" for s
    by (auto simp: enqueue_email_def add_delivery_def next_tick_def Let_def split: prod.splits option.splits)
  have "tick d \<le> tick (snd (enqueue_email e t ev (fold (enqueue_webhook e t ev i) eps (0, next_tick d))))" for i eps
    using order_trans [OF webhooks email, of "(0, next_tick d)"] by (simp add: next_tick_def Suc_le_eq less_imp_le)
  then show ?thesis by (simp add: notify_def enqueue_notification_def Let_def)
qed

interpretation counter: run_relation "\<lambda>d d'. tick d \<le> tick d'"
  by unfold_locales (auto simp: tick_notify add_operation_def next_tick_def)

text \<open>The states stay distinct.\<close>

interpretation distinct_states: run_relation "\<lambda>d d'. states_ok d \<longrightarrow> states_ok d'"
proof unfold_locales
  show "states_ok d \<longrightarrow> states_ok (upd_state j g d)" if "\<And>s. ss_id (g s) = ss_id s" for g j d
    using that by (simp add: states_ok_def upd_state_def map_key_upd)
  show "states_ok d \<longrightarrow> states_ok (d\<lparr>sync_states := sync_states d @ [new_state cn uid d]\<rparr>)" for cn uid d
    using add_state_ok by blast
qed (auto simp: states_ok_def add_operation_def next_tick_def)

text \<open>Every account stays, with its pointer to the active operation, its instant of deletion and its pending secret
  as the only fields a run may change.\<close>

interpretation accounts: run_relation accounts_kept
  by unfold_locales (auto intro: accounts_kept_users accounts_kept_upd accounts_kept_trans
      simp: add_operation_def next_tick_def)

end

