(* ===== verification/Reconcile.thy ===== *)
theory Reconcile
  imports Background Security "HOL-Library.Multiset"
begin

text \<open>
  Reconciliation runs (\<open>src/na_sso/reconcile.py\<close>): a preview inspects every assigned
  account of its scope without changing anything remote, an approval with the token of the preview starts one repair,
  the repair runs an operation for each drifted account, and the schedule makes previews and retries those
  that could not read everything.  The inspections of a preview run concurrently; the reports
  arrive in an order that is an argument of the model.
\<close>

section \<open>The table of runs\<close>

definition get_run :: "uuid \<Rightarrow> db \<Rightarrow> ReconciliationRun option" where
  "get_run k d = rows_get rr_id k (runs d)"
definition upd_run :: "uuid \<Rightarrow> (ReconciliationRun \<Rightarrow> ReconciliationRun) \<Rightarrow> db \<Rightarrow> db" where
  "upd_run k f d = d\<lparr>runs := rows_upd rr_id k f (runs d)\<rparr>"

interpretation run_table: keyed_rows get_run upd_run rr_id
  by (rule keyed_rowsI [where rows = runs]) (simp_all add: get_run_def upd_run_def)

definition findings_of :: "uuid \<Rightarrow> db \<Rightarrow> ReconciliationFinding list" where
  "findings_of i d = filter (\<lambda>f. rf_run_id f = i) (findings d)"

section \<open>What a preview inspects\<close>

record InspectionPair =
  ip_user :: ManagedUser
  ip_target :: string
  ip_memberships :: "string set"
  ip_operation :: ConnectorOperation

definition scoped_users :: "ReconciliationRun \<Rightarrow> db \<Rightarrow> ManagedUser list" where
  "scoped_users run d =
    sort_key u_username (sort_key u_id (filter (\<lambda>u. u_role u \<noteq> ''root'' \<and>
      (case rr_scope_user_id run of None \<Rightarrow> True | Some i \<Rightarrow> u_id u = i)) (users d)))"

definition pairs_of_user ::
  "ReconciliationRun \<Rightarrow> Connector list \<Rightarrow> db \<Rightarrow> ManagedUser \<Rightarrow> InspectionPair list" where
  "pairs_of_user run cs d u =
    (let intents = resolve_assignment_intents (u_id u) cs d in
     List.map_filter
       (\<lambda>s. if (case rr_scope_target_id run of None \<Rightarrow> False | Some t \<Rightarrow> t \<noteq> [] \<and> ss_target s \<noteq> t) then None
            else map_option (\<lambda>c. \<lparr>ip_user = u, ip_target = ss_target s,
                ip_memberships = (case map_of intents (ss_target s) of None \<Rightarrow> c_default_memberships c | Some m \<Rightarrow> m),
                ip_operation = lifecycle_operation_for u False
                  (ss_state s \<in> {PENDING_DISABLE, PENDING_CHPW_DISABLE, PENDING_EXPIRY_DISABLE})\<rparr>)
              (connector_for (ss_target s) cs))
       (filter (\<lambda>s. ss_assigned s \<and> \<not> ss_retired s) (user_states (u_id u) d)))"

definition assigned_pairs :: "Env \<Rightarrow> ReconciliationRun \<Rightarrow> db \<Rightarrow> string + InspectionPair list" where
  "assigned_pairs e run d =
    (let limit = rp_max_users_per_run (fc_reconciliation_policy (file_config e)); us = scoped_users run d in
     if length us > limit then Inl (cat [''preview exceeds the configured '', show_nat limit, ''-user limit''])
     else Inr (concat (map (pairs_of_user run (get_connectors e d) d) us)))"

text \<open>One inspection.  Drift on a target that declares the operation unsupported is a declared limitation.\<close>

type_synonym inspected = "ManagedUser \<times> string \<times> ReconciliationReport"

definition inspect :: "Env \<Rightarrow> Connector list \<Rightarrow> db \<Rightarrow> nat \<times> InspectionPair \<Rightarrow> inspected option" where
  "inspect e cs d = (\<lambda>(t, p).
    case connector_for (ip_target p) cs of
      None \<Rightarrow> None
    | Some c \<Rightarrow>
       (let u = ip_user p;
            report = inspect_user_for_assignment (\<lambda>k. ssh_public_key_fingerprint e (Some k)) c t u
              (active_ssh_public_keys (now e) u d) (ip_memberships p)
        in Some (u, ip_target p,
            if supports_operation c (ip_operation p) then report
            else mark_unsupported_operation report (unsupported_operation_detail c (ip_operation p)))))"

definition inspect_all :: "Env \<Rightarrow> InspectionPair list \<Rightarrow> db \<Rightarrow> inspected list" where
  "inspect_all e ps d = List.map_filter (inspect e (get_connectors e d) d) (enumerate (tick d) ps)"

section \<open>Storing a preview\<close>

definition destructive :: "inspected \<Rightarrow> bool" where
  "destructive = (\<lambda>(u, t, r). case report_field F_IDENTITY r of
     None \<Rightarrow> False | Some f \<Rightarrow> fc_state f = DRIFT \<and> fc_desired f = Some ''absent'')"

definition with_status :: "ReconciliationStatus \<Rightarrow> inspected list \<Rightarrow> nat" where
  "with_status st reports = length (filter (\<lambda>(u, t, r). report_status r = st) reports)"

definition finding_of :: "uuid \<Rightarrow> inspected \<Rightarrow> FieldComparison \<Rightarrow> id \<Rightarrow> ReconciliationFinding" where
  "finding_of i x f n = (case x of (u, t, r) \<Rightarrow>
    \<lparr>rf_id = n, rf_run_id = i, rf_user_id = u_id u, rf_username = u_username u, rf_target_id = t,
     rf_target_name = rep_target_name r, rf_field = field_value (fc_field f),
     rf_state = drift_state_value (fc_state f), rf_desired = fc_desired f, rf_actual = fc_actual f,
     rf_detail = fc_detail f, rf_repair_status = ''not_requested'', rf_operation_id = None\<rparr>)"

definition add_finding :: "uuid \<Rightarrow> inspected \<times> FieldComparison \<Rightarrow> db \<Rightarrow> db" where
  "add_finding i = (\<lambda>(x, f) d. d\<lparr>findings := findings d @ [finding_of i x f (next_id rf_id (findings d))]\<rparr>)"

definition comparisons :: "inspected list \<Rightarrow> (inspected \<times> FieldComparison) list" where
  "comparisons reports = concat (map (\<lambda>x. map (Pair x) (rep_fields (snd (snd x)))) reports)"

definition discovery_delay :: "ReconciliationPolicy \<Rightarrow> nat \<Rightarrow> nat" where
  "discovery_delay p attempt_count = min (rp_retry_base_seconds p * 2 ^ (attempt_count - 1)) (rp_retry_max_seconds p)"

definition discovered :: "Env \<Rightarrow> inspected list \<Rightarrow> ReconciliationRun \<Rightarrow> ReconciliationRun" where
  "discovered e reports run =
    (let policy = fc_reconciliation_policy (file_config e);
         drifted = with_status DRIFTED reports; unknown = with_status RS_UNKNOWN reports;
         detail = cat [''Inspected '', show_nat (length reports), '' assigned account target(s); '', show_nat drifted,
           '' drifted and '', show_nat unknown, '' could not be fully read.''];
         run1 = run\<lparr>rr_total_targets := length reports, rr_drifted_targets := drifted, rr_unknown_targets := unknown,
           rr_destructive_targets := length (filter destructive reports), rr_detail := detail\<rparr> in
     if rr_source run = ''scheduled'' \<and> unknown > 0 then
       (if rr_attempt_count run \<ge> rp_max_attempts policy then
          run1\<lparr>rr_status := ''failed'', rr_next_attempt_at := None,
            rr_detail := detail @ '' Scheduled discovery retry limit reached.''\<rparr>
        else run1\<lparr>rr_status := ''retrying'',
            rr_next_attempt_at := Some (now e + int (discovery_delay policy (rr_attempt_count run)) * second)\<rparr>)
     else run1\<lparr>rr_status := ''previewed'', rr_next_attempt_at := None\<rparr>)"

definition store_preview :: "Env \<Rightarrow> uuid \<Rightarrow> inspected list \<Rightarrow> db \<Rightarrow> db" where
  "store_preview e i reports d =
    (case get_run i d of
       None \<Rightarrow> d
     | Some run \<Rightarrow>
        record_audit e (rr_actor run) ''reconcile.previewed'' (cat [''reconciliation:'', show_nat i])
          (cat [''source='', rr_source run, ''; targets='', show_nat (length reports), ''; drifted='',
             show_nat (with_status DRIFTED reports), ''; unknown='', show_nat (with_status RS_UNKNOWN reports)]) None
          (upd_run i (discovered e reports) (fold (add_finding i) (comparisons reports) d)))"

definition begin_discovery :: "uuid \<Rightarrow> db \<Rightarrow> db" where
  "begin_discovery i d =
    (upd_run i (\<lambda>r. r\<lparr>rr_status := ''discovering'', rr_attempt_count := Suc (rr_attempt_count r)\<rparr>) d)
      \<lparr>findings := filter (\<lambda>f. rf_run_id f \<noteq> i) (findings d)\<rparr>"

definition refresh_reconciliation ::
  "Env \<Rightarrow> (inspected list \<Rightarrow> inspected list) \<Rightarrow> uuid \<Rightarrow> db \<Rightarrow> ReconciliationRun option \<times> db" where
  "refresh_reconciliation e order i d =
    (case get_run i d of
       None \<Rightarrow> (None, d)
     | Some run \<Rightarrow>
        (let d1 = begin_discovery i d;
             d2 = (case assigned_pairs e run d1 of
                Inl err \<Rightarrow> upd_run i (\<lambda>r. r\<lparr>rr_status := ''failed'', rr_detail := err, rr_next_attempt_at := None\<rparr>) d1
              | Inr ps \<Rightarrow> store_preview e i (order (inspect_all e ps d1)) (d1\<lparr>tick := tick d1 + length ps\<rparr>))
         in (get_run i d2, d2)))"

definition new_run :: "Env \<Rightarrow> string \<Rightarrow> string \<Rightarrow> id option \<Rightarrow> string option \<Rightarrow> db \<Rightarrow> ReconciliationRun" where
  "new_run e actor source user_id target_id d =
    \<lparr>rr_id = tick d, rr_approval_token = Suc (tick d), rr_source = source, rr_status = ''discovering'', rr_actor = actor,
     rr_scope_user_id = user_id, rr_scope_target_id = (if has_text target_id then target_id else None),
     rr_total_targets = 0, rr_drifted_targets = 0, rr_unknown_targets = 0, rr_destructive_targets = 0,
     rr_attempt_count = 0, rr_next_attempt_at = None, rr_operation_id = None, rr_detail = [], rr_created_at = now e,
     rr_completed_at = None\<rparr>"

definition create_reconciliation_preview ::
  "Env \<Rightarrow> (inspected list \<Rightarrow> inspected list) \<Rightarrow> string \<Rightarrow> string \<Rightarrow> id option \<Rightarrow> string option \<Rightarrow> db
     \<Rightarrow> ReconciliationRun option \<times> db" where
  "create_reconciliation_preview e order actor source user_id target_id d =
    refresh_reconciliation e order (tick d)
      (d\<lparr>tick := tick d + 2, runs := runs d @ [new_run e actor source user_id target_id d]\<rparr>)"

section \<open>Approval\<close>

definition approved :: "Env \<Rightarrow> uuid \<Rightarrow> string \<Rightarrow> ReconciliationRun \<Rightarrow> db \<Rightarrow> db" where
  "approved e i actor run d =
    (let oid = uuid4 d; subject = cat [''reconciliation:'', show_nat i];
         oper = (new_operation e oid None RECONCILE actor subject None None)\<lparr>op_total_targets := rr_drifted_targets run\<rparr>
     in record_audit e actor ''reconcile.approved'' subject
          (cat [''targets='', show_nat (rr_drifted_targets run), ''; destructive='', show_nat (rr_destructive_targets run)])
          (Some oid)
          (upd_run i (\<lambda>r. r\<lparr>rr_operation_id := Some oid, rr_status := ''approved''\<rparr>) (add_operation oper d)))"

definition approve_reconciliation ::
  "Env \<Rightarrow> uuid \<Rightarrow> string \<Rightarrow> uuid option \<Rightarrow> bool \<Rightarrow> db \<Rightarrow> (string \<times> string) + (uuid \<times> db)" where
  "approve_reconciliation e i actor approval_token confirm_destructive d =
    (case get_run i d of
       None \<Rightarrow> Inl (''not_found'', ''The reconciliation preview was not found.'')
     | Some run \<Rightarrow>
        if approval_token \<noteq> Some (rr_approval_token run) then
          Inl (''invalid_approval'', ''The saved preview approval token is invalid.'')
        else if rr_status run \<noteq> ''previewed'' then
          Inl (''approval_already_handled'', ''This preview has already been approved or is no longer repairable.'')
        else if rr_drifted_targets run = 0 then
          Inl (''nothing_to_repair'', ''The preview contains no drifted target accounts.'')
        else if rr_destructive_targets run > 0 \<and> \<not> confirm_destructive then
          Inl (''destructive_confirmation_required'', ''Confirm remote account deletion before starting this repair.'')
        else Inr (uuid4 d, approved e i actor run d))"

section \<open>Repair\<close>

definition is_drift :: "ReconciliationFinding \<Rightarrow> bool" where
  "is_drift f \<longleftrightarrow> rf_state f = ''drift''"

text \<open>The accounts to repair, each once, in the order of user name and target.\<close>

definition repair_groups :: "uuid \<Rightarrow> db \<Rightarrow> (id \<times> string) list" where
  "repair_groups i d = rev (remdups (rev (map (\<lambda>f. (rf_user_id f, rf_target_id f))
     (sort_key rf_username (sort_key rf_target_id (filter is_drift (findings_of i d)))))))"

definition in_group :: "uuid \<Rightarrow> id \<times> string \<Rightarrow> ReconciliationFinding \<Rightarrow> bool" where
  "in_group i g f \<longleftrightarrow> rf_run_id f = i \<and> rf_user_id f = fst g \<and> rf_target_id f = snd g \<and> is_drift f"

definition mark_drifts ::
  "uuid \<Rightarrow> id \<times> string \<Rightarrow> (ReconciliationFinding \<Rightarrow> ReconciliationFinding) \<Rightarrow> db \<Rightarrow> db" where
  "mark_drifts i g f d = d\<lparr>findings := map (\<lambda>x. if in_group i g x then f x else x) (findings d)\<rparr>"

definition missing_identity :: "uuid \<Rightarrow> id \<times> string \<Rightarrow> db \<Rightarrow> bool" where
  "missing_identity i g d \<longleftrightarrow>
    list_ex (\<lambda>f. in_group i g f \<and> rf_field f = ''identity'' \<and> rf_actual f = Some ''absent'') (findings d)"

definition run_parent :: "uuid \<Rightarrow> db \<Rightarrow> uuid option" where
  "run_parent i d = Option.bind (get_run i d) rr_operation_id"

definition operation_succeeded :: "uuid \<Rightarrow> db \<Rightarrow> bool" where
  "operation_succeeded oid d = (case get_operation oid d of None \<Rightarrow> False | Some oper \<Rightarrow> op_status oper = SUCCEEDED)"

text \<open>The repair of one account; the value says whether it was repaired.  No code removes a run.\<close>

definition repair_one ::
  "Env \<Rightarrow> Connector list \<Rightarrow> uuid \<Rightarrow> string \<Rightarrow> id \<times> string \<Rightarrow> db \<Rightarrow> bool outcome" where
  "repair_one e cs i actor g d =
    (case (get_user (fst g) d, connector_for (snd g) cs) of
       (Some u, Some c) \<Rightarrow>
         if missing_identity i g d \<and> \<not> has_text (u_pending_secret u) then
           Done False (record_audit e actor ''reconcile.repair_blocked'' (u_username u)
             (cat [snd g, '': remote identity creation requires a current credential'']) (run_parent i d)
             (mark_drifts i g (\<lambda>f. f\<lparr>rf_repair_status := ''blocked_credentials''\<rparr>) d))
         else
           (case request_operation e (fst g) RECONCILE actor (Some (snd g)) d of
              (Inl err, d1) \<Rightarrow> Done False (mark_drifts i g (\<lambda>f. f\<lparr>rf_repair_status := ''conflict'', rf_detail := err\<rparr>) d1)
            | (Inr oid, d1) \<Rightarrow>
                (let d2 = mark_drifts i g (\<lambda>f. f\<lparr>rf_repair_status := ''running'', rf_operation_id := Some oid\<rparr>)
                       (upd_operation oid (\<lambda>oper. oper\<lparr>op_parent_id := run_parent i d\<rparr>) d1);
                     action = (if u_desired_action u = DA_DELETE \<or> u_deleted_at u \<noteq> None then Some DA_DELETE else None) in
                 case sync_user e (fst g) action (Some (snd g)) actor (Some oid) d2 of
                   Raised err d3 \<Rightarrow> Raised err d3
                 | Done _ d3 \<Rightarrow>
                    (let ok = operation_succeeded oid d3 in
                     Done ok (mark_drifts i g (\<lambda>f. f\<lparr>rf_repair_status := if ok then ''repaired'' else ''failed''\<rparr>) d3))))
     | _ \<Rightarrow> Done False (mark_drifts i g (\<lambda>f. f\<lparr>rf_repair_status := ''failed''\<rparr>) d))"

text \<open>All accounts in turn, counting the repaired and the failed ones.\<close>

fun repair_all ::
  "Env \<Rightarrow> Connector list \<Rightarrow> uuid \<Rightarrow> string \<Rightarrow> (id \<times> string) list \<Rightarrow> nat \<times> nat \<Rightarrow> db \<Rightarrow> (nat \<times> nat) outcome" where
  "repair_all e cs i actor [] n d = Done n d"
| "repair_all e cs i actor (g # gs) n d =
    (case repair_one e cs i actor g d of
       Raised err d' \<Rightarrow> Raised err d'
     | Done ok d' \<Rightarrow> repair_all e cs i actor gs (if ok then (Suc (fst n), snd n) else (fst n, Suc (snd n))) d')"

definition final_status :: "nat \<Rightarrow> nat \<Rightarrow> OperationStatus" where
  "final_status succeeded failed =
    (if failed = 0 then SUCCEEDED else if succeeded > 0 then PARTIALLY_FAILED else OP_FAILED)"

definition run_outcome :: "nat \<Rightarrow> nat \<Rightarrow> string" where
  "run_outcome succeeded failed =
    (if failed = 0 then ''completed'' else if succeeded > 0 then ''partially_failed'' else ''failed'')"

definition finish_repair :: "Env \<Rightarrow> uuid \<Rightarrow> string \<Rightarrow> nat \<Rightarrow> nat \<Rightarrow> db \<Rightarrow> db" where
  "finish_repair e i actor succeeded failed d =
    (let subject = cat [''reconciliation:'', show_nat i]; parent = run_parent i d;
         detail = cat [''Repair completed: '', show_nat succeeded, '' target(s) repaired; '', show_nat failed,
           '' failed or blocked.''];
         d1 = (case parent of None \<Rightarrow> d | Some p \<Rightarrow> upd_operation p (\<lambda>oper. oper\<lparr>op_status := final_status succeeded failed,
             op_completed_targets := succeeded, op_failed_targets := failed,
             op_detail := cat [''repaired='', show_nat succeeded, ''; failed='', show_nat failed],
             op_completed_at := Some (now e)\<rparr>) d);
         d2 = upd_run i (\<lambda>r. r\<lparr>rr_status := run_outcome succeeded failed, rr_completed_at := Some (now e),
             rr_detail := detail\<rparr>) d1 in
     notify e ''approval.completed'' \<lparr>ev_actor = actor, ev_subject = subject,
         ev_dedupe_key = cat [''reconcile:'', show_nat i], ev_operation_id = parent, ev_target_id = None,
         ev_outcome = Some (run_outcome succeeded failed)\<rparr>
       (record_audit e actor ''reconcile.completed'' subject detail parent d2))"

definition begin_repair :: "Env \<Rightarrow> uuid \<Rightarrow> db \<Rightarrow> db" where
  "begin_repair e i d =
    (let d1 = upd_run i (\<lambda>r. r\<lparr>rr_status := ''running''\<rparr>) d in
     case run_parent i d of
       None \<Rightarrow> d1
     | Some p \<Rightarrow> upd_operation p (\<lambda>oper. oper\<lparr>op_status := RUNNING,
         op_started_at := (case op_started_at oper of None \<Rightarrow> Some (now e) | Some t \<Rightarrow> Some t)\<rparr>) d1)"

definition execute_reconciliation_repair :: "Env \<Rightarrow> uuid \<Rightarrow> string \<Rightarrow> db \<Rightarrow> unit outcome" where
  "execute_reconciliation_repair e i actor d =
    (case get_run i d of
       None \<Rightarrow> Done () d
     | Some run \<Rightarrow>
        if rr_status run \<notin> {''approved'', ''running''} then Done () d
        else
          (case repair_all e (get_connectors e d) i actor (repair_groups i d) (0, 0) (begin_repair e i d) of
             Raised err d' \<Rightarrow> Raised err d'
           | Done (s, f) d' \<Rightarrow> Done () (finish_repair e i actor s f d')))"

section \<open>The schedule\<close>

definition is_later :: "ReconciliationRun \<Rightarrow> ReconciliationRun \<Rightarrow> bool" where
  "is_later a b \<longleftrightarrow> rr_created_at a > rr_created_at b"

definition scheduled_runs :: "db \<Rightarrow> ReconciliationRun list" where
  "scheduled_runs d = filter (\<lambda>r. rr_source r = ''scheduled'') (runs d)"

definition retry_of :: "Env \<Rightarrow> db \<Rightarrow> ReconciliationRun list" where
  "retry_of e d = sort_key (\<lambda>r. the (rr_next_attempt_at r))
    (filter (\<lambda>r. rr_status r = ''retrying'' \<and> (case rr_next_attempt_at r of None \<Rightarrow> False | Some t \<Rightarrow> t \<le> now e))
      (scheduled_runs d))"

definition run_scheduled_reconciliation ::
  "Env \<Rightarrow> (inspected list \<Rightarrow> inspected list) \<Rightarrow> db \<Rightarrow> nat \<times> db" where
  "run_scheduled_reconciliation e order d =
    (let policy = fc_reconciliation_policy (file_config e);
         latest = sort_key (\<lambda>r. - rr_created_at r) (scheduled_runs d) in
     if \<not> rp_enabled policy then (0, d)
     else if retry_of e d \<noteq> [] then (1, snd (refresh_reconciliation e order (rr_id (hd (retry_of e d))) d))
     else if latest \<noteq> [] \<and> rr_created_at (hd latest) + int (rp_interval_seconds policy) * second > now e then (0, d)
     else (1, snd (create_reconciliation_preview e order ''system'' ''scheduled'' None None d)))"

section \<open>The handlers\<close>

definition reconciliation_page :: "Env \<Rightarrow> Request \<Rightarrow> db \<Rightarrow> Response \<times> db" where
  "reconciliation_page e req d = guarded e req MANAGE_USERS (\<lambda>pr d.
    (Shown ''reconciliation.html''
       (map (\<lambda>r. show_nat (rr_id r)) (take 25 (sort_key (\<lambda>r. - rr_created_at r) (runs d)))
        @ map u_username (take 100 (sort_key u_username
            (filter (\<lambda>u. u_role u \<noteq> ''root'' \<and> u_deleted_at u = None) (users d))))
        @ map c_target_id (get_connectors e d)), d)) d"

definition reconciliation_detail :: "Env \<Rightarrow> Request \<Rightarrow> uuid \<Rightarrow> db \<Rightarrow> Response \<times> db" where
  "reconciliation_detail e req i d = guarded e req MANAGE_USERS (\<lambda>pr d.
    case get_run i d of
      None \<Rightarrow> (Redirect ''/reconciliation'', d)
    | Some run \<Rightarrow> (Shown ''reconciliation_detail.html'' (map (\<lambda>f. show_nat (rf_id f))
        (sort_key rf_username (sort_key rf_target_name (sort_key rf_id (findings_of i d))))), d)) d"

definition reconciliation_preview ::
  "Env \<Rightarrow> (inspected list \<Rightarrow> inspected list) \<Rightarrow> Request \<Rightarrow> id \<Rightarrow> string \<Rightarrow> db \<Rightarrow> Response \<times> db" where
  "reconciliation_preview e order req user_id target_id d = guarded e req MANAGE_USERS (\<lambda>pr d.
    case create_reconciliation_preview e order (pr_username pr) ''manual'' (if user_id = 0 then None else Some user_id)
        (if strip target_id = [] then None else Some (strip target_id)) d of
      (None, d') \<Rightarrow> (ServerError ''RuntimeError'', d')
    | (Some run, d') \<Rightarrow> (Redirect (cat [''/reconciliation/'', show_nat (rr_id run)]), d')) d"

definition approval_titles :: "string \<Rightarrow> string" where
  "approval_titles code = (case map_of [(''invalid_approval'', ''Approval rejected''),
       (''approval_already_handled'', ''Approval already handled''), (''nothing_to_repair'', ''Nothing to repair''),
       (''destructive_confirmation_required'', ''Destructive approval required'')] code of
     None \<Rightarrow> ''Approval rejected'' | Some t \<Rightarrow> t)"

text \<open>The response, the repair started after it (its run and actor), and the database.\<close>

definition reconciliation_approve ::
  "Env \<Rightarrow> Request \<Rightarrow> uuid \<Rightarrow> uuid option \<Rightarrow> string \<Rightarrow> db \<Rightarrow> Response \<times> (uuid \<times> string) option \<times> db" where
  "reconciliation_approve e req i approval_token confirm_destructive d =
    (case permission_guard e req MANAGE_USERS d of
       Inl resp \<Rightarrow> (resp, None, d)
     | Inr pr \<Rightarrow>
        (case approve_reconciliation e i (pr_username pr) approval_token (confirm_destructive = ''yes'') d of
           Inl (code, message) \<Rightarrow>
             (if code = ''not_found'' then Redirect ''/reconciliation''
              else redirect_with_feedback (cat [''/reconciliation/'', show_nat i]) (approval_titles code) message
                (if code \<in> {''invalid_approval'', ''destructive_confirmation_required''} then ''danger'' else ''info''), None, d)
         | Inr (oid, d') \<Rightarrow>
             (redirect_with_feedback (cat [''/reconciliation/'', show_nat i]) ''Repair approved''
                (cat [''The correlated repair has started. Correlation '', take 8 (show_nat oid), ''.'']) ''success'',
              Some (i, pr_username pr), d')))"

section \<open>Previews change nothing but their own records\<close>

text \<open>The tables a preview writes are the runs, their findings and the audit trail.\<close>

definition not_previewed :: "db \<Rightarrow> db" where
  "not_previewed d = d\<lparr>tick := 0, runs := [], findings := [], audit := []\<rparr>"

lemma not_previewed_steps [simp]:
  "not_previewed (upd_run i f d) = not_previewed d" "not_previewed (d\<lparr>findings := fs\<rparr>) = not_previewed d"
  "not_previewed (d\<lparr>runs := rs\<rparr>) = not_previewed d" "not_previewed (d\<lparr>tick := t\<rparr>) = not_previewed d"
  "not_previewed (record_audit e a ac s det opid d) = not_previewed d" "not_previewed (add_finding i xf d) = not_previewed d"
  by (simp_all add: not_previewed_def upd_run_def record_audit_def add_finding_def split: prod.split)

lemma not_previewed_findings [simp]: "not_previewed (fold (add_finding i) xfs d) = not_previewed d"
  by (induction xfs arbitrary: d) simp_all

lemma not_previewed_refresh: "not_previewed (snd (refresh_reconciliation e order i d)) = not_previewed d"
  by (simp add: refresh_reconciliation_def store_preview_def begin_discovery_def Let_def split: option.split sum.split)

text \<open>A preview is read-only.  Refreshing a run, whatever the targets answer and in whatever order
  the reports arrive, leaves every table but the runs, their findings and the audit trail
  exactly as it was, so no account, state, key, operation or credential changes before an approval.\<close>

theorem preview_is_read_only:
  "not_previewed (snd (create_reconciliation_preview e order actor source user_id target_id d)) = not_previewed d \<and>
   not_previewed (snd (refresh_reconciliation e order i d)) = not_previewed d"
  by (simp add: create_reconciliation_preview_def not_previewed_refresh)

section \<open>The order of the reports\<close>

lemma length_filter_mset: "mset xs = mset ys \<Longrightarrow> length (filter P xs) = length (filter P ys)"
  by (metis mset_filter size_mset)

lemma discovered_order:
  assumes "mset xs = mset ys"
  shows "discovered e xs = discovered e ys"
proof
  fix run
  have "length xs = length ys" using assms mset_eq_length by blast
  then show "discovered e xs run = discovered e ys run"
    using length_filter_mset [OF assms] by (simp add: discovered_def with_status_def)
qed

definition unnumbered :: "ReconciliationFinding \<Rightarrow> ReconciliationFinding" where
  "unnumbered f = f\<lparr>rf_id := 0\<rparr>"

lemma unnumbered_findings:
  "map unnumbered (findings (fold (add_finding i) xfs d)) =
     map unnumbered (findings d) @ map (\<lambda>(x, f). finding_of i x f 0) xfs"
  by (induction xfs arbitrary: d)
    (auto simp: add_finding_def unnumbered_def finding_of_def split: prod.splits)

lemma runs_add_findings [simp]: "runs (fold (add_finding i) xfs d) = runs d"
  by (induction xfs arbitrary: d) (auto simp: add_finding_def split: prod.splits)

lemma comparisons_mset:
  assumes "mset xs = mset ys"
  shows "mset (comparisons xs) = mset (comparisons ys)"
proof -
  have "mset (comparisons zs) = sum_mset (image_mset (\<lambda>x. mset (map (Pair x) (rep_fields (snd (snd x))))) (mset zs))" for zs
    by (induction zs) (simp_all add: comparisons_def)
  then show ?thesis by (simp only: assms)
qed

lemma get_run_store_preview:
  assumes "get_run i d = Some run"
  shows "get_run i (store_preview e i reports d) = Some (discovered e reports run)"
proof -
  let ?d = "fold (add_finding i) (comparisons reports) d"
  have "get_run i ?d = Some run" using assms by (simp add: get_run_def)
  moreover have "rr_id (discovered e reports r) = rr_id r" for r by (simp add: discovered_def Let_def)
  ultimately have "get_run i (upd_run i (discovered e reports) ?d) = Some (discovered e reports run)"
    by (simp add: run_table.get_upd_same)
  then show ?thesis using assms by (simp add: store_preview_def get_run_def record_audit_def)
qed

lemma get_run_begin_discovery:
  "get_run i d = Some run \<Longrightarrow> get_run i (begin_discovery i d) =
    Some (run\<lparr>rr_status := ''discovering'', rr_attempt_count := Suc (rr_attempt_count run)\<rparr>)"
  by (simp add: begin_discovery_def get_run_def upd_run_def rows_get_upd)

text \<open>The order in which concurrent inspections finish does not matter: any two orders of the same
  reports give the same run, counts and status included, and the same findings up to their row numbers.\<close>

theorem preview_ignores_completion_order:
  assumes "\<forall>xs. mset (order xs) = mset xs"
  shows "fst (refresh_reconciliation e order i d) = fst (refresh_reconciliation e (\<lambda>xs. xs) i d) \<and>
    mset (map unnumbered (findings (snd (refresh_reconciliation e order i d)))) =
    mset (map unnumbered (findings (snd (refresh_reconciliation e (\<lambda>xs. xs) i d))))"
proof (cases "get_run i d")
  case (Some run)
  let ?d1 = "begin_discovery i d"
  show ?thesis
  proof (cases "assigned_pairs e run ?d1")
    case (Inr ps)
    let ?xs = "inspect_all e ps ?d1"
    let ?d2 = "?d1\<lparr>tick := tick ?d1 + length ps\<rparr>"
    have perm: "mset (order ?xs) = mset ?xs" using assms by blast
    obtain run2 where run2: "get_run i ?d2 = Some run2"
      using get_run_begin_discovery [OF Some] by (simp add: get_run_def)
    have "findings (store_preview e i rs ?d2) = findings (fold (add_finding i) (comparisons rs) ?d2)" for rs
      using run2 by (simp add: store_preview_def record_audit_def upd_run_def)
    then have "map unnumbered (findings (store_preview e i rs ?d2)) =
        map unnumbered (findings ?d2) @ map (\<lambda>(x, f). finding_of i x f 0) (comparisons rs)" for rs
      by (simp add: unnumbered_findings)
    moreover have "mset (map (\<lambda>(x, f). finding_of i x f 0) (comparisons (order ?xs))) =
        mset (map (\<lambda>(x, f). finding_of i x f 0) (comparisons ?xs))"
      unfolding mset_map comparisons_mset [OF perm] ..
    ultimately show ?thesis
      using Some Inr get_run_store_preview [OF run2] discovered_order [OF perm]
      by (simp add: refresh_reconciliation_def Let_def)
  qed (simp add: refresh_reconciliation_def Some Let_def)
qed (simp add: refresh_reconciliation_def)

section \<open>Retries of the schedule\<close>

lemma discovered_cases:
  assumes "rr_status (discovered e reports run) = ''retrying''"
  shows "rr_source run = ''scheduled''" "rr_attempt_count run < rp_max_attempts (fc_reconciliation_policy (file_config e))"
    "rr_next_attempt_at (discovered e reports run) =
       Some (now e + int (discovery_delay (fc_reconciliation_policy (file_config e)) (rr_attempt_count run)) * second)"
  using assms by (auto simp: discovered_def Let_def split: if_splits)

lemma discovered_attempts [simp]: "rr_attempt_count (discovered e reports run) = rr_attempt_count run"
  by (simp add: discovered_def Let_def)

text \<open>Unreadable targets are not retried for ever.  Every refresh counts as an attempt; a run waits
  for another attempt only when it was scheduled and has fewer attempts than the configured
  maximum, and then at most the configured longest delay.\<close>

theorem discovery_retries_are_bounded:
  assumes "get_run i d = Some run" "fst (refresh_reconciliation e order i d) = Some run'"
    and "rr_status run' = ''retrying''"
  shows "rr_attempt_count run' = Suc (rr_attempt_count run) \<and>
    rr_attempt_count run' < rp_max_attempts (fc_reconciliation_policy (file_config e)) \<and>
    rr_source run' = ''scheduled'' \<and>
    (\<exists>t. rr_next_attempt_at run' = Some t \<and>
       t \<le> now e + int (rp_retry_max_seconds (fc_reconciliation_policy (file_config e))) * second)"
proof -
  let ?d1 = "begin_discovery i d"
  let ?run1 = "run\<lparr>rr_status := ''discovering'', rr_attempt_count := Suc (rr_attempt_count run)\<rparr>"
  have run1: "get_run i ?d1 = Some ?run1" by (rule get_run_begin_discovery [OF assms(1)])
  show ?thesis
  proof (cases "assigned_pairs e run ?d1")
    case (Inl err)
    have "run' = ?run1\<lparr>rr_status := ''failed'', rr_detail := err, rr_next_attempt_at := None\<rparr>"
      using assms(1,2) Inl run1 by (simp add: refresh_reconciliation_def Let_def run_table.get_upd_same)
    then show ?thesis using assms(3) by simp
  next
    case (Inr ps)
    let ?rs = "order (inspect_all e ps ?d1)"
    have "get_run i (?d1\<lparr>tick := tick ?d1 + length ps\<rparr>) = Some ?run1" using run1 by (simp add: get_run_def)
    from get_run_store_preview [OF this] have r: "run' = discovered e ?rs ?run1"
      using assms(1,2) Inr by (simp add: refresh_reconciliation_def Let_def)
    note c = discovered_cases [OF assms(3) [unfolded r]]
    have "discovery_delay p n \<le> rp_retry_max_seconds p" for p n by (simp add: discovery_delay_def)
    then have "int (discovery_delay (fc_reconciliation_policy (file_config e)) (rr_attempt_count ?run1)) * second \<le>
        int (rp_retry_max_seconds (fc_reconciliation_policy (file_config e))) * second"
      by (intro mult_right_mono) (simp_all add: second_def)
    moreover have "rr_source (discovered e ?rs ?run1) = rr_source ?run1" by (simp add: discovered_def Let_def)
    ultimately show ?thesis using c unfolding r by simp
  qed
qed


section \<open>One approval, one repair\<close>

lemma approved_run:
  assumes "get_run i d = Some run"
  shows "get_run i (approved e i actor run d) = Some (run\<lparr>rr_operation_id := Some (uuid4 d), rr_status := ''approved''\<rparr>)"
proof -
  have "get_run i (record_audit e a ac s det opid x) = get_run i x" "get_run i (add_operation oper x) = get_run i x"
    for a ac s det opid x oper
    by (simp_all add: get_run_def record_audit_def add_operation_def next_tick_def)
  then show ?thesis using assms by (simp add: approved_def Let_def run_table.get_upd_same)
qed

lemma approved_frame:
  "users (approved e i actor run d) = users d" "sync_states (approved e i actor run d) = sync_states d"
  by (simp_all add: approved_def Let_def upd_run_def add_operation_def next_tick_def)

lemma approve_InrD:
  assumes "approve_reconciliation e i actor tok confirmed d = Inr (oid, d')"
  shows "\<exists>run. get_run i d = Some run \<and> tok = Some (rr_approval_token run) \<and> rr_status run = ''previewed'' \<and>
    rr_drifted_targets run > 0 \<and> (rr_destructive_targets run = 0 \<or> confirmed) \<and>
    get_run i d' = Some (run\<lparr>rr_operation_id := Some oid, rr_status := ''approved''\<rparr>) \<and>
    users d' = users d \<and> sync_states d' = sync_states d"
proof -
  obtain run where run: "get_run i d = Some run"
    using assms by (cases "get_run i d") (simp_all add: approve_reconciliation_def)
  have c: "tok = Some (rr_approval_token run)" "rr_status run = ''previewed''" "rr_drifted_targets run \<noteq> 0"
    "\<not> (rr_destructive_targets run > 0 \<and> \<not> confirmed)" and d': "oid = uuid4 d" "d' = approved e i actor run d"
    using assms run by (simp_all add: approve_reconciliation_def split: if_split_asm)
  then show ?thesis using run c approved_run [OF run] approved_frame d' by auto
qed


section \<open>What a repair records\<close>

text \<open>A change of findings that leaves alone what identifies them.\<close>

definition same_finding :: "ReconciliationFinding \<Rightarrow> ReconciliationFinding \<Rightarrow> bool" where
  "same_finding f g \<longleftrightarrow> rf_run_id g = rf_run_id f \<and> rf_user_id g = rf_user_id f \<and> rf_target_id g = rf_target_id f \<and>
     rf_state g = rf_state f"

definition group_marked :: "uuid \<Rightarrow> id \<times> string \<Rightarrow> bool \<Rightarrow> db \<Rightarrow> db \<Rightarrow> bool" where
  "group_marked i g ok d d' \<longleftrightarrow> list_all2 (\<lambda>x y. same_finding x y \<and>
     (if in_group i g x then (rf_repair_status y = ''repaired'') = ok else y = x)) (findings d) (findings d')"

lemma in_group_same: "same_finding x y \<Longrightarrow> in_group i g y = in_group i g x"
  by (auto simp: same_finding_def in_group_def is_drift_def)

lemma findings_mark [simp]:
  "findings (mark_drifts i g f d) = map (\<lambda>x. if in_group i g x then f x else x) (findings d)"
  by (simp add: mark_drifts_def)

lemma findings_steps [simp]:
  "findings (record_audit e a ac s det opid d) = findings d" "findings (upd_operation k h d) = findings d"
  "findings (upd_run i fr d) = findings d" "findings (notify e t ev d) = findings d"
  using bystanders_fields(2) [OF bystanders_notify]
  by (simp_all add: record_audit_def upd_operation_def upd_run_def)

lemma group_markedI:
  assumes "findings d' = map (\<lambda>x. if in_group i g x then f x else x) (findings d)"
    and "\<And>x. same_finding x (f x) \<and> (rf_repair_status (f x) = ''repaired'') = ok"
  shows "group_marked i g ok d d'"
  using assms by (auto simp: group_marked_def list_all2_conv_all_nth same_finding_def)

lemma map_marks_twice:
  assumes "\<And>x. same_finding x (f x)"
  shows "map (\<lambda>x. if in_group i g x then h x else x) (map (\<lambda>x. if in_group i g x then f x else x) xs) =
    map (\<lambda>x. if in_group i g x then h (f x) else x) xs"
  using in_group_same [OF assms] by (simp add: comp_def)

lemma request_findings: "request_operation e uid c a t d = (r, d') \<Longrightarrow> findings d' = findings d"
  using bystanders_fields(2) [OF bystanders_request] .

lemma repair_one_marks:
  assumes "repair_one e cs i actor g d = Done ok d'"
  shows "group_marked i g ok d d'"
proof (cases "get_user (fst g) d = None \<or> connector_for (snd g) cs = None")
  case True
  then have "ok = False" "findings d' = map (\<lambda>x. if in_group i g x then x\<lparr>rf_repair_status := ''failed''\<rparr> else x) (findings d)"
    using assms by (auto simp: repair_one_def split: option.splits)
  then show ?thesis by (intro group_markedI) (auto simp: same_finding_def)
next
  case False
  then obtain u c where uc: "get_user (fst g) d = Some u" "connector_for (snd g) cs = Some c" by auto
  show ?thesis
  proof (cases "missing_identity i g d \<and> \<not> has_text (u_pending_secret u)")
    case True
    then have "ok = False" "findings d' =
        map (\<lambda>x. if in_group i g x then x\<lparr>rf_repair_status := ''blocked_credentials''\<rparr> else x) (findings d)"
      using assms uc by (auto simp: repair_one_def)
    then show ?thesis by (intro group_markedI) (auto simp: same_finding_def)
  next
    case free: False
    obtain q d1 where q: "request_operation e (fst g) RECONCILE actor (Some (snd g)) d = (q, d1)" by (rule prod.exhaust)
    have d1: "findings d1 = findings d" by (rule request_findings [OF q])
    show ?thesis
    proof (cases q)
      case (Inl err)
      then have "ok = False" "findings d' =
          map (\<lambda>x. if in_group i g x then x\<lparr>rf_repair_status := ''conflict'', rf_detail := err\<rparr> else x) (findings d)"
        using assms uc free q d1 by (auto simp: repair_one_def simp del: findings_mark) (simp_all add: d1)
      then show ?thesis by (intro group_markedI) (auto simp: same_finding_def)
    next
      case (Inr oid)
      let ?run = "\<lambda>f. f\<lparr>rf_repair_status := ''running'', rf_operation_id := Some oid\<rparr>"
      let ?d2 = "mark_drifts i g ?run (upd_operation oid (\<lambda>oper. oper\<lparr>op_parent_id := run_parent i d\<rparr>) d1)"
      let ?act = "if u_desired_action u = DA_DELETE \<or> u_deleted_at u \<noteq> None then Some DA_DELETE else None"
      obtain v d3 where s: "sync_user e (fst g) ?act (Some (snd g)) actor (Some oid) ?d2 = Done v d3"
        and ok: "ok = operation_succeeded oid d3"
        and d': "d' = mark_drifts i g (\<lambda>f. f\<lparr>rf_repair_status := if ok then ''repaired'' else ''failed''\<rparr>) d3"
        using assms uc free q Inr by (auto simp: repair_one_def Let_def split: outcome.splits)
      have "findings d3 = findings ?d2"
        using bystanders_fields(2) [OF bystanders_sync_user [of e "fst g" ?act "Some (snd g)" actor "Some oid" ?d2]] s by simp
      then have "findings d' = map (\<lambda>x. if in_group i g x
          then (?run x)\<lparr>rf_repair_status := if ok then ''repaired'' else ''failed''\<rparr> else x) (findings d)"
        unfolding d' findings_mark by (simp only: findings_mark findings_steps d1)
          (rule map_marks_twice, simp add: same_finding_def)
      then show ?thesis by (rule group_markedI) (simp add: same_finding_def)
    qed
  qed
qed


text \<open>All groups: how a list of groups is marked, and that the count of failures does not grow exactly when every
  finding of the groups is repaired.\<close>

definition some_group :: "uuid \<Rightarrow> (id \<times> string) list \<Rightarrow> ReconciliationFinding \<Rightarrow> bool" where
  "some_group i gs f \<longleftrightarrow> (\<exists>g \<in> set gs. in_group i g f)"

definition all_repaired :: "uuid \<Rightarrow> (id \<times> string) list \<Rightarrow> db \<Rightarrow> bool" where
  "all_repaired i gs d \<longleftrightarrow> (\<forall>f \<in> set (findings d). some_group i gs f \<longrightarrow> rf_repair_status f = ''repaired'')"

definition groups_present :: "uuid \<Rightarrow> (id \<times> string) list \<Rightarrow> db \<Rightarrow> bool" where
  "groups_present i gs d \<longleftrightarrow> (\<forall>g \<in> set gs. \<exists>f \<in> set (findings d). in_group i g f)"

text \<open>Findings that change only inside the groups of a list.\<close>

definition only_groups :: "uuid \<Rightarrow> (id \<times> string) list \<Rightarrow> db \<Rightarrow> db \<Rightarrow> bool" where
  "only_groups i gs d d' \<longleftrightarrow> list_all2 (\<lambda>x y. same_finding x y \<and> (some_group i gs x \<or> y = x)) (findings d) (findings d')"

lemma same_finding_trans: "same_finding a b \<Longrightarrow> same_finding b c \<Longrightarrow> same_finding a c"
  by (simp add: same_finding_def)

lemma some_group_same: "same_finding x y \<Longrightarrow> some_group i gs y = some_group i gs x"
  using in_group_same by (auto simp: some_group_def)

lemma only_groups_refl: "only_groups i gs d d"
  by (simp add: only_groups_def list_all2_refl same_finding_def)

lemma only_groups_Cons:
  assumes "group_marked i g ok d d1" "only_groups i gs d1 d2"
  shows "only_groups i (g # gs) d d2"
proof -
  have "list_all2 (\<lambda>x y. same_finding x y \<and> (in_group i g x \<or> y = x)) (findings d) (findings d1)"
    using assms(1) unfolding group_marked_def by (rule list_all2_mono) (auto split: if_splits)
  then show ?thesis
    using assms(2) unfolding only_groups_def
    by (rule list_all2_trans [rotated]) (use some_group_same same_finding_trans in \<open>auto simp: some_group_def\<close>)
qed

lemma groups_disjoint: "in_group i g f \<Longrightarrow> in_group i h f \<Longrightarrow> g = h"
  by (auto simp: in_group_def intro: prod_eqI)

lemma list_all2_ex1: "list_all2 R xs ys \<Longrightarrow> x \<in> set xs \<Longrightarrow> \<exists>y \<in> set ys. R x y"
  by (induction rule: list_all2_induct) auto

lemma list_all2_ex2: "list_all2 R xs ys \<Longrightarrow> y \<in> set ys \<Longrightarrow> \<exists>x \<in> set xs. R x y"
  by (induction rule: list_all2_induct) auto

lemma groups_present_marked:
  assumes "group_marked i g ok d d'" "groups_present i gs d"
  shows "groups_present i gs d'"
  unfolding groups_present_def
proof
  fix h assume "h \<in> set gs"
  then obtain f where f: "f \<in> set (findings d)" "in_group i h f" using assms(2) by (auto simp: groups_present_def)
  from assms(1) obtain y where "y \<in> set (findings d')" "same_finding f y"
    unfolding group_marked_def using list_all2_ex1 [OF _ f(1)] by blast
  then show "\<exists>f \<in> set (findings d'). in_group i h f" using f(2) in_group_same by blast
qed

lemma repair_all_marks:
  assumes "repair_all e cs i actor gs (s, f) d = Done (s', f') d'" "distinct gs" "groups_present i gs d"
  shows "only_groups i gs d d' \<and> f \<le> f' \<and> s' + f' = s + f + length gs \<and> (f' = f \<longleftrightarrow> all_repaired i gs d')"
  using assms
proof (induction gs arbitrary: s f d)
  case Nil
  then show ?case by (simp add: only_groups_refl all_repaired_def some_group_def)
next
  case (Cons g gs)
  obtain ok d1 where one: "repair_one e cs i actor g d = Done ok d1"
    and rest: "repair_all e cs i actor gs (if ok then (Suc s, f) else (s, Suc f)) d1 = Done (s', f') d'"
    using Cons.prems(1) by (auto split: outcome.splits cong: if_cong)
  have marked: "group_marked i g ok d d1" by (rule repair_one_marks [OF one])
  have "groups_present i gs d" using Cons.prems(3) by (simp add: groups_present_def)
  then have present: "groups_present i gs d1" by (rule groups_present_marked [OF marked])
  let ?s = "if ok then Suc s else s" and ?f = "if ok then f else Suc f"
  have "repair_all e cs i actor gs (?s, ?f) d1 = Done (s', f') d'" using rest by (simp split: if_splits)
  from Cons.IH [OF this _ present] Cons.prems(2)
  have IH: "only_groups i gs d1 d'" "?f \<le> f'" "s' + f' = ?s + ?f + length gs" "f' = ?f \<longleftrightarrow> all_repaired i gs d'" by auto
  have only: "only_groups i (g # gs) d d'" by (rule only_groups_Cons [OF marked IH(1)])
  have g: "rf_repair_status y = ''repaired'' \<longleftrightarrow> ok" if y: "y \<in> set (findings d')" "in_group i g y" for y
  proof -
    obtain x where x: "x \<in> set (findings d1)" "same_finding x y" "some_group i gs x \<or> y = x"
      using list_all2_ex2 [OF IH(1) [unfolded only_groups_def] y(1)] by blast
    have "in_group i g x" using y(2) in_group_same [OF x(2)] by simp
    moreover have "g \<notin> set gs" using Cons.prems(2) by simp
    ultimately have "\<not> some_group i gs x" using groups_disjoint unfolding some_group_def by metis
    then have "y = x" using x(3) by simp
    from list_all2_ex2 [OF marked [unfolded group_marked_def] x(1)]
    obtain w where w: "same_finding w x \<and> (if in_group i g w then (rf_repair_status x = ''repaired'') = ok else x = w)" ..
    then have "in_group i g w" using in_group_same \<open>in_group i g x\<close> by blast
    then show ?thesis using w \<open>y = x\<close> by simp
  qed
  obtain y where y: "y \<in> set (findings d')" "in_group i g y"
  proof -
    obtain x where x: "x \<in> set (findings d)" "in_group i g x" using Cons.prems(3) by (auto simp: groups_present_def)
    obtain z where z: "z \<in> set (findings d')" "same_finding x z"
      using list_all2_ex1 [OF only [unfolded only_groups_def] x(1)] by blast
    show thesis by (rule that [OF z(1)]) (simp add: in_group_same [OF z(2)] x(2))
  qed
  have "some_group i (g # gs) x \<longleftrightarrow> in_group i g x \<or> some_group i gs x" for x by (simp add: some_group_def)
  then have "all_repaired i (g # gs) d' \<longleftrightarrow> ok \<and> all_repaired i gs d'"
    using g y unfolding all_repaired_def by metis
  then show ?case using only IH by (cases ok) simp_all
qed

lemma repair_groups_facts:
  "distinct (repair_groups i d)" "groups_present i (repair_groups i d) d"
  "f \<in> set (findings d) \<Longrightarrow> some_group i (repair_groups i d) f \<longleftrightarrow> rf_run_id f = i \<and> is_drift f"
  by (auto simp: repair_groups_def groups_present_def some_group_def findings_of_def in_group_def)

lemma findings_begin [simp]: "findings (begin_repair e i d) = findings d"
  by (simp add: begin_repair_def Let_def split: option.split)

lemma findings_finish [simp]: "findings (finish_repair e i actor s f d) = findings d"
  by (simp add: finish_repair_def Let_def split: option.split)

lemma get_run_steps [simp]:
  "get_run i (record_audit e a ac s det opid d) = get_run i d" "get_run i (notify e t ev d) = get_run i d"
  "get_run i (upd_operation k h d) = get_run i d" "get_run i (mark_drifts j g f d) = get_run i d"
  using bystanders_fields(1) [OF bystanders_notify]
  by (simp_all add: get_run_def record_audit_def upd_operation_def mark_drifts_def)

lemma get_run_request: "request_operation e uid c a t d = (r, d') \<Longrightarrow> get_run i d' = get_run i d"
  using bystanders_fields(1) [OF bystanders_request] by (simp add: get_run_def)

lemma get_run_sync [simp]: "get_run i (outcome_db (sync_user e uid act t a oi d)) = get_run i d"
  using bystanders_fields(1) [OF bystanders_sync_user] by (simp add: get_run_def)

lemma get_run_repair_one: "get_run j (outcome_db (repair_one e cs i actor g d)) = get_run j d"
proof -
  obtain q d1 where q: "request_operation e (fst g) RECONCILE actor (Some (snd g)) d = (q, d1)" by (rule prod.exhaust)
  have "get_run j d3 = get_run j d" if "sync_user e uid act t a oi (mark_drifts i g f (upd_operation k h d1)) = r"
    "outcome_db r = d3" for uid act t a oi f k h r d3
    using get_run_sync [of j e uid act t a oi "mark_drifts i g f (upd_operation k h d1)"] that get_run_request [OF q] by simp
  then show ?thesis
    using get_run_request [OF q]
    by (simp add: repair_one_def q Let_def split: option.split sum.split outcome.split)
qed

lemma get_run_repair_all: "get_run j (outcome_db (repair_all e cs i actor gs n d)) = get_run j d"
proof (induction gs arbitrary: n d)
  case (Cons g gs)
  then show ?case using get_run_repair_one [of j e cs i actor g d] by (auto split: outcome.splits)
qed simp

text \<open>What a finished repair records.  When an approved repair returns, its run is completed exactly when
  every drift that the preview found is marked repaired, and it is failed only when none of the accounts
  was; the findings that are no drift are as they were.\<close>

theorem repair_outcome_is_true:
  assumes "execute_reconciliation_repair e i actor d = Done () d'" "get_run i d = Some run" "rr_status run = ''approved''"
  shows "(\<exists>run'. get_run i d' = Some run' \<and>
      (rr_status run' = ''completed'' \<longleftrightarrow>
         list_all (\<lambda>f. rf_repair_status f = ''repaired'') (filter is_drift (findings_of i d'))) \<and>
      rr_status run' \<in> {''completed'', ''partially_failed'', ''failed''}) \<and>
    filter (\<lambda>f. \<not> (rf_run_id f = i \<and> is_drift f)) (findings d') = filter (\<lambda>f. \<not> (rf_run_id f = i \<and> is_drift f)) (findings d)"
proof -
  let ?gs = "repair_groups i d"
  let ?d0 = "begin_repair e i d"
  obtain s f d1 where all: "repair_all e (get_connectors e d) i actor ?gs (0, 0) ?d0 = Done (s, f) d1"
    and d': "d' = finish_repair e i actor s f d1"
    using assms by (auto simp: execute_reconciliation_repair_def split: outcome.splits prod.splits)
  have present: "groups_present i ?gs ?d0" using repair_groups_facts(2) by (simp add: groups_present_def)
  note m = repair_all_marks [OF all repair_groups_facts(1) present]
  have only: "list_all2 (\<lambda>x y. same_finding x y \<and> (some_group i ?gs x \<or> y = x)) (findings d) (findings d1)"
    using m by (simp add: only_groups_def)
  have group: "some_group i ?gs y \<longleftrightarrow> rf_run_id y = i \<and> is_drift y" if y: "y \<in> set (findings d1)" for y
  proof -
    obtain x where x: "x \<in> set (findings d)" "same_finding x y" using list_all2_ex2 [OF only y] by blast
    then show ?thesis
      using some_group_same [OF x(2)] repair_groups_facts(3) [OF x(1)] by (auto simp: same_finding_def is_drift_def)
  qed
  have "f = 0 \<longleftrightarrow> all_repaired i ?gs d1" using m by simp
  also have "\<dots> \<longleftrightarrow> list_all (\<lambda>f. rf_repair_status f = ''repaired'') (filter is_drift (findings_of i d1))"
    using group by (auto simp: all_repaired_def list_all_iff findings_of_def)
  finally have count: "f = 0 \<longleftrightarrow> list_all (\<lambda>f. rf_repair_status f = ''repaired'') (filter is_drift (findings_of i d'))"
    by (simp add: d' findings_of_def)
  have "get_run i d1 \<noteq> None"
    using get_run_repair_all [of i e "get_connectors e d" i actor ?gs "(0, 0)" ?d0] all assms(2)
    by (simp add: begin_repair_def Let_def run_table.get_upd split: option.splits)
  then obtain run1 where run1: "get_run i d1 = Some run1" by blast
  have "get_run i d' = Some (run1\<lparr>rr_status := run_outcome s f, rr_completed_at := Some (now e),
      rr_detail := cat [''Repair completed: '', show_nat s, '' target(s) repaired; '', show_nat f, '' failed or blocked.'']\<rparr>)"
    using run1 by (simp add: d' finish_repair_def Let_def run_table.get_upd_same split: option.split)
  moreover have "run_outcome s f = ''completed'' \<longleftrightarrow> f = 0" "run_outcome s f \<in> {''completed'', ''partially_failed'', ''failed''}"
    by (auto simp: run_outcome_def)
  moreover have "filter (\<lambda>f. \<not> (rf_run_id f = i \<and> is_drift f)) (findings d1) =
      filter (\<lambda>f. \<not> (rf_run_id f = i \<and> is_drift f)) (findings d)"
    using only repair_groups_facts(3) [of _ d i]
    by (induction rule: list_all2_induct) (auto simp: same_finding_def is_drift_def)
  ultimately show ?thesis using count d' by simp
qed

text \<open>A run whose repair raised stays running: no approval is accepted for it again and the schedule does not
  look at it.\<close>

lemma raised_repair_stays_running:
  assumes "execute_reconciliation_repair e i actor d = Raised err d'" "get_run i d = Some run"
  shows "\<exists>run'. get_run i d' = Some run' \<and> rr_status run' = ''running'' \<and>
    (\<forall>tok confirmed actor2 e2 oid d2. approve_reconciliation e2 i actor2 tok confirmed d' \<noteq> Inr (oid, d2))"
proof -
  have "get_run i (begin_repair e i d) = Some (run\<lparr>rr_status := ''running''\<rparr>)"
    using assms(2) by (simp add: begin_repair_def Let_def run_table.get_upd_same split: option.split)
  moreover have "d' = outcome_db (repair_all e (get_connectors e d) i actor (repair_groups i d) (0, 0) (begin_repair e i d))"
    using assms by (auto simp: execute_reconciliation_repair_def split: if_splits outcome.splits prod.splits)
  ultimately have "get_run i d' = Some (run\<lparr>rr_status := ''running''\<rparr>)" using get_run_repair_all by simp
  then show ?thesis by (auto simp: approve_reconciliation_def)
qed

section \<open>Witnesses\<close>

definition scheduled_db :: db where
  "scheduled_db = sample_db\<lparr>runs := [new_run sample_env ''system'' ''scheduled'' None None sample_db]\<rparr>"

lemma sample_pairs:
  assumes "sync_states d = [sample_state]" "users d = [sample_user]" "rr_scope_target_id run = None" "rr_scope_user_id run = None"
  shows "\<exists>m oper. assigned_pairs sample_env run d = Inr [\<lparr>ip_user = sample_user, ip_target = ''gitea'',
    ip_memberships = m, ip_operation = oper\<rparr>]"
proof -
  have "get_connectors sample_env d = [sample_connector]" by (simp add: get_connectors_def sample_env_def)
  moreover have "scoped_users run d = [sample_user]" using assms(2,4) by (simp add: scoped_users_def sample_user_def)
  moreover have "\<exists>m oper. pairs_of_user run [sample_connector] d sample_user = [\<lparr>ip_user = sample_user, ip_target = ''gitea'',
      ip_memberships = m, ip_operation = oper\<rparr>]"
    using assms(1,3) by (simp add: pairs_of_user_def user_states_def sample_state_def sample_user_def connector_for_def
        sample_connector_def map_filter_simps)
  moreover have "rp_max_users_per_run (fc_reconciliation_policy (file_config sample_env)) = 100"
    by (simp add: file_config_def sample_env_def sample_file_def)
  ultimately show ?thesis by (auto simp: assigned_pairs_def Let_def)
qed

lemma sample_report:
  "report_status (inspect_user_for_assignment fp sample_connector t sample_user keys m) = RS_UNKNOWN"
  by (simp add: inspect_user_for_assignment_def sample_connector_def unavailable_report_def report_status_def
      compare_defs unread_snapshot_def supported_def Let_def)

lemma sample_inspected:
  "\<exists>r. inspect_all sample_env [\<lparr>ip_user = sample_user, ip_target = ''gitea'', ip_memberships = m, ip_operation = oper\<rparr>] d =
     [(sample_user, ''gitea'', r)] \<and> report_status r = RS_UNKNOWN"
proof -
  have "get_connectors sample_env d = [sample_connector]" by (simp add: get_connectors_def sample_env_def)
  moreover have "supports_operation sample_connector oper"
    by (simp add: supports_operation_def sample_connector_def split: ConnectorOperation.split)
  moreover have "connector_for ''gitea'' [sample_connector] = Some sample_connector"
    by (simp add: connector_for_def sample_connector_def)
  ultimately show ?thesis
    using sample_report by (simp add: inspect_all_def inspect_def map_filter_simps)
qed

lemma scheduled_run_retries:
  assumes "\<And>x. order [x] = [x]"
  shows "\<exists>run'. fst (refresh_reconciliation sample_env order 0 scheduled_db) = Some run' \<and> rr_status run' = ''retrying''"
proof -
  let ?run = "new_run sample_env ''system'' ''scheduled'' None None sample_db"
  let ?d1 = "begin_discovery 0 scheduled_db"
  have run: "get_run 0 scheduled_db = Some ?run"
    by (simp add: get_run_def scheduled_db_def new_run_def rows_get_def sample_db_def empty_db_def)
  have "sync_states ?d1 = [sample_state]" "users ?d1 = [sample_user]"
    by (simp_all add: begin_discovery_def upd_run_def scheduled_db_def sample_db_def)
  then obtain m oper where pairs: "assigned_pairs sample_env ?run ?d1 = Inr [\<lparr>ip_user = sample_user, ip_target = ''gitea'',
      ip_memberships = m, ip_operation = oper\<rparr>]"
    using sample_pairs [of ?d1 ?run] by (auto simp: new_run_def)
  let ?ps = "[\<lparr>ip_user = sample_user, ip_target = ''gitea'', ip_memberships = m, ip_operation = oper\<rparr>]"
  obtain r where r: "inspect_all sample_env ?ps ?d1 = [(sample_user, ''gitea'', r)]" "report_status r = RS_UNKNOWN"
    using sample_inspected by blast
  have "get_run 0 (?d1\<lparr>tick := tick ?d1 + length ?ps\<rparr>) =
      Some (?run\<lparr>rr_status := ''discovering'', rr_attempt_count := Suc (rr_attempt_count ?run)\<rparr>)"
    using get_run_begin_discovery [OF run] by (simp add: get_run_def)
  from get_run_store_preview [OF this] have "fst (refresh_reconciliation sample_env order 0 scheduled_db) =
      Some (discovered sample_env [(sample_user, ''gitea'', r)]
        (?run\<lparr>rr_status := ''discovering'', rr_attempt_count := Suc (rr_attempt_count ?run)\<rparr>))"
    using run pairs r(1) assms by (simp add: refresh_reconciliation_def Let_def)
  then show ?thesis
    using r(2) by (simp add: discovered_def with_status_def new_run_def file_config_def sample_env_def sample_file_def)
qed

theorem preview_ignores_completion_order_witness:
  "fst (refresh_reconciliation sample_env rev 0 scheduled_db) = fst (refresh_reconciliation sample_env (\<lambda>xs. xs) 0 scheduled_db) \<and>
   fst (refresh_reconciliation sample_env rev 0 scheduled_db) \<noteq> None"
proof -
  have "fst (refresh_reconciliation sample_env rev 0 scheduled_db) = fst (refresh_reconciliation sample_env (\<lambda>xs. xs) 0 scheduled_db)"
    using preview_ignores_completion_order [of rev sample_env 0 scheduled_db] by simp
  moreover have "fst (refresh_reconciliation sample_env rev 0 scheduled_db) \<noteq> None"
    using scheduled_run_retries [of rev] by auto
  ultimately show ?thesis ..
qed

theorem discovery_retries_are_bounded_witness:
  "\<exists>run'. fst (refresh_reconciliation sample_env rev 0 scheduled_db) = Some run' \<and> rr_attempt_count run' = 1"
proof -
  obtain run' where run': "fst (refresh_reconciliation sample_env rev 0 scheduled_db) = Some run'" "rr_status run' = ''retrying''"
    using scheduled_run_retries [of rev] by auto
  have run: "get_run 0 scheduled_db = Some (new_run sample_env ''system'' ''scheduled'' None None sample_db)"
    by (simp add: get_run_def scheduled_db_def new_run_def rows_get_def sample_db_def empty_db_def)
  from discovery_retries_are_bounded [OF run run'] show ?thesis using run'(1) by (simp add: new_run_def)
qed

definition drifted_run :: "string \<Rightarrow> ReconciliationRun" where
  "drifted_run status = (new_run sample_env ''ada'' ''manual'' None None sample_db)\<lparr>rr_status := status, rr_drifted_targets := 1\<rparr>"

definition lost_finding :: ReconciliationFinding where
  "lost_finding = \<lparr>rf_id = 1, rf_run_id = 0, rf_user_id = 99, rf_username = ''eve'', rf_target_id = ''gitea'',
     rf_target_name = ''Gitea'', rf_field = ''email'', rf_state = ''drift'', rf_desired = None, rf_actual = None,
     rf_detail = [], rf_repair_status = ''not_requested'', rf_operation_id = None\<rparr>"

definition drifted_db :: "string \<Rightarrow> db" where
  "drifted_db status = sample_db\<lparr>runs := [drifted_run status], findings := [lost_finding]\<rparr>"

lemma drifted_db_run: "get_run 0 (drifted_db st) = Some (drifted_run st)"
  by (simp add: get_run_def drifted_db_def drifted_run_def new_run_def rows_get_def sample_db_def empty_db_def)


theorem repair_outcome_is_true_witness:
  "\<exists>d' run'. execute_reconciliation_repair sample_env 0 ''ada'' (drifted_db ''approved'') = Done () d' \<and>
     get_run 0 d' = Some run' \<and> rr_status run' \<noteq> ''completed''"
proof -
  have run: "get_run 0 (drifted_db ''approved'') = Some (drifted_run ''approved'')" "rr_status (drifted_run ''approved'') = ''approved''"
    by (rule drifted_db_run) (simp add: drifted_run_def)
  have groups: "repair_groups 0 (drifted_db ''approved'') = [(99, ''gitea'')]"
    by (simp add: repair_groups_def findings_of_def drifted_db_def lost_finding_def is_drift_def)
  let ?d0 = "begin_repair sample_env 0 (drifted_db ''approved'')"
  have "get_user 99 ?d0 = None"
    using run by (simp add: begin_repair_def Let_def run_parent_def drifted_run_def new_run_def get_user_def upd_run_def
        drifted_db_def sample_db_def sample_user_def rows_get_def)
  then have one: "repair_one sample_env cs 0 ''ada'' (99, ''gitea'') ?d0 =
      Done False (mark_drifts 0 (99, ''gitea'') (\<lambda>f. f\<lparr>rf_repair_status := ''failed''\<rparr>) ?d0)" for cs
    by (simp add: repair_one_def)
  let ?d1 = "mark_drifts 0 (99, ''gitea'') (\<lambda>f. f\<lparr>rf_repair_status := ''failed''\<rparr>) ?d0"
  have exec: "execute_reconciliation_repair sample_env 0 ''ada'' (drifted_db ''approved'') =
      Done () (finish_repair sample_env 0 ''ada'' 0 1 ?d1)"
    using run groups one by (simp add: execute_reconciliation_repair_def)
  from repair_outcome_is_true [OF exec run]
  obtain run' where run': "get_run 0 (finish_repair sample_env 0 ''ada'' 0 1 ?d1) = Some run'"
    "rr_status run' = ''completed'' \<longleftrightarrow> list_all (\<lambda>f. rf_repair_status f = ''repaired'')
      (filter is_drift (findings_of 0 (finish_repair sample_env 0 ''ada'' 0 1 ?d1)))" by blast
  have "\<not> list_all (\<lambda>f. rf_repair_status f = ''repaired'')
      (filter is_drift (findings_of 0 (finish_repair sample_env 0 ''ada'' 0 1 ?d1)))"
    by (simp add: findings_of_def drifted_db_def lost_finding_def is_drift_def in_group_def)
  then show ?thesis using exec run' by blast
qed


end
