(* ===== verification/SshKeys.thy ===== *)
theory SshKeys
  imports Background Security
begin

text \<open>
  The SSH keys of an account, \<open>src/na_sso/ssh_keys.py\<close>: enrolment with an optional replacement,
  revocation, the emergency revocation of all keys, and the expiry job.  Each of them changes the keys,
  commits, and then runs the synchronisation of the account; an exception of that run leaves the
  committed keys.  An error text of \<open>SshKeyError\<close> is \<open>Inl\<close>.
\<close>

section \<open>Keys and their expiry\<close>

definition algorithm_text :: "KeyAlgorithm \<Rightarrow> string" where
  "algorithm_text a = (case a of ED25519 \<Rightarrow> ''ed25519'' | RSA \<Rightarrow> ''rsa'')"

definition algorithm_upper :: "KeyAlgorithm \<Rightarrow> string" where
  "algorithm_upper a = (case a of ED25519 \<Rightarrow> ''ED25519'' | RSA \<Rightarrow> ''RSA'')"

definition ssh_key_policy :: "Env \<Rightarrow> SshKeyPolicy" where
  "ssh_key_policy e = fc_ssh_key_policy (file_config e)"

text \<open>The first two words of the text, the fingerprint and the algorithm.\<close>

definition normalise_public_key :: "Env \<Rightarrow> string \<Rightarrow> string + (string \<times> string \<times> KeyAlgorithm)" where
  "normalise_public_key e key_text =
    (let public_key = join_with '' '' (take 2 (words key_text)); policy = ssh_key_policy e in
     case parse_public_key e public_key of
       None \<Rightarrow> Inl ''Invalid SSH public key.''
     | Some (None, bits) \<Rightarrow> Inl ''Unsupported SSH public-key algorithm.''
     | Some (Some algorithm, bits) \<Rightarrow>
         if algorithm = RSA \<and> bits < sk_rsa_min_bits policy then
           Inl (cat [''RSA keys must be at least '', show_nat (sk_rsa_min_bits policy), '' bits.''])
         else if algorithm \<notin> set (sk_allowed_algorithms policy) then
           Inl (cat [algorithm_upper algorithm, '' keys are disabled by policy.''])
         else (case ssh_public_key_fingerprint e (Some public_key) of
           None \<Rightarrow> Inl ''Invalid SSH public key.''
         | Some fingerprint \<Rightarrow> if fingerprint = [] then Inl ''Invalid SSH public key.''
             else Inr (public_key, fingerprint, algorithm)))"

text \<open>The last microsecond of the chosen day, counted from the epoch.\<close>

definition end_of_day :: "int \<Rightarrow> time" where
  "end_of_day n = (n + 1) * day - 1"

definition chosen_day :: "Env \<Rightarrow> string \<Rightarrow> string + int option" where
  "chosen_day e value_text =
    (let today = now e div day in
     if value_text \<noteq> [] then
       (case parse_date e value_text of None \<Rightarrow> Inl ''Expiry must be a valid date.'' | Some n \<Rightarrow> Inr (Some n))
     else (case sk_default_expiry_days (ssh_key_policy e) of
       None \<Rightarrow> Inr None
     | Some days \<Rightarrow> Inr (if days = 0 then None else Some (today + int days))))"

definition key_expiry :: "Env \<Rightarrow> string \<Rightarrow> string + time option" where
  "key_expiry e value_text =
    (let today = now e div day in
     case chosen_day e value_text of
       Inl err \<Rightarrow> Inl err
     | Inr None \<Rightarrow> Inr None
     | Inr (Some chosen) \<Rightarrow>
         if chosen \<le> today then Inl ''Expiry must be in the future.''
         else (case sk_max_expiry_days (ssh_key_policy e) of
           None \<Rightarrow> Inr (Some (end_of_day chosen))
         | Some m \<Rightarrow>
             if m \<noteq> 0 \<and> chosen > today + int m then
               Inl (cat [''Expiry cannot be more than '', show_nat m, '' days away.''])
             else Inr (Some (end_of_day chosen))))"

section \<open>Adding and revoking a key\<close>

record KeyForm =
  kf_name :: string
  kf_public_key :: string
  kf_expires_on :: string

text \<open>The constraint on account and fingerprint also counts the keys that were revoked.\<close>

definition add_key :: "Env \<Rightarrow> ManagedUser \<Rightarrow> KeyForm \<Rightarrow> string \<Rightarrow> db \<Rightarrow> string + (uuid \<times> db)" where
  "add_key e u f actor d =
    (let clean_name = strip (kf_name f); uid = u_id u in
     if clean_name = [] \<or> length clean_name > 80 then
       Inl (cat [''Key name must contain 1'', [CHR 0xE2, CHR 0x80, CHR 0x93], ''80 characters.''])
     else (case normalise_public_key e (kf_public_key f) of
       Inl err \<Rightarrow> Inl err
     | Inr (public_key, fingerprint, algorithm) \<Rightarrow>
        (case key_expiry e (kf_expires_on f) of
           Inl err \<Rightarrow> Inl err
         | Inr expiry \<Rightarrow>
            if list_ex (\<lambda>k. k_user_id k = uid \<and> k_fingerprint k = fingerprint) (ssh_keys d) then
              Inl ''That key is already enrolled.''
            else
              (let i = uuid4 d;
                   k = \<lparr>k_id = i, k_user_id = uid, k_name = clean_name, k_public_key = public_key,
                     k_fingerprint = fingerprint, k_algorithm = algorithm_text algorithm, k_enrolled_at = now e,
                     k_expires_at = expiry, k_revoked_at = None, k_revoked_by = None, k_replaced_by_id = None\<rparr>
               in Inr (i, record_audit e actor ''ssh_key.enrolled'' (u_username u)
                    (cat [clean_name, ''; '', fingerprint, ''; '', algorithm_text algorithm]) None
                    (upd_user uid (\<lambda>u. u\<lparr>u_ssh_public_key := Some public_key\<rparr>)
                      ((next_tick d)\<lparr>ssh_keys := ssh_keys d @ [k]\<rparr>)))))))"

text \<open>The newest active key is repeated in the column of the account.\<close>

definition newest_active :: "Env \<Rightarrow> id \<Rightarrow> db \<Rightarrow> string option" where
  "newest_active e uid d =
    (case sort_key (\<lambda>k. - k_enrolled_at k) (active_ssh_keys (now e) uid d) of
       [] \<Rightarrow> None | k # ks \<Rightarrow> Some (k_public_key k))"

definition refresh_legacy_key :: "Env \<Rightarrow> id \<Rightarrow> db \<Rightarrow> db" where
  "refresh_legacy_key e uid d = upd_user uid (\<lambda>u. u\<lparr>u_ssh_public_key := newest_active e uid d\<rparr>) d"

definition revoke_row :: "Env \<Rightarrow> string \<Rightarrow> uuid \<Rightarrow> db \<Rightarrow> db" where
  "revoke_row e actor i d = upd_ssh_key i (\<lambda>k. k\<lparr>k_revoked_at := Some (now e), k_revoked_by := Some actor\<rparr>) d"

definition revoke_key :: "Env \<Rightarrow> ManagedUser \<Rightarrow> UserSshKey \<Rightarrow> string \<Rightarrow> string \<Rightarrow> db \<Rightarrow> string + db" where
  "revoke_key e u k actor action d =
    (if k_user_id k \<noteq> u_id u \<or> k_revoked_at k \<noteq> None then Inl ''The SSH key is not active.''
     else Inr (record_audit e actor action (u_username u) (cat [k_name k, ''; '', k_fingerprint k]) None
       (refresh_legacy_key e (u_id u) (revoke_row e actor (k_id k) d))))"

section \<open>The handlers\<close>

text \<open>A handler awaits the synchronisation: its answer, or the exception the run ended with.\<close>

type_synonym reply = "Response outcome"

text \<open>The commit of the new key.  A key to replace must be an active one of the account; a number
  that is no key replaces nothing.\<close>

definition enroll_key :: "Env \<Rightarrow> ManagedUser \<Rightarrow> KeyForm \<Rightarrow> uuid option \<Rightarrow> db \<Rightarrow> string + (uuid \<times> db)" where
  "enroll_key e u f replace d =
    (if (case Option.bind replace (\<lambda>i. get_ssh_key i d) of None \<Rightarrow> False
         | Some k \<Rightarrow> k_user_id k \<noteq> u_id u \<or> k_revoked_at k \<noteq> None)
     then Inl ''Replacement key is not active.''
     else add_key e u f (u_username u) d)"

definition sync_succeeded :: "uuid option \<Rightarrow> db \<Rightarrow> bool" where
  "sync_succeeded operation_id d = (case operation_id of
     None \<Rightarrow> True
   | Some i \<Rightarrow> (case get_operation i d of None \<Rightarrow> False | Some oper \<Rightarrow> op_status oper = SUCCEEDED))"

text \<open>The revocation of the replaced key, when both keys are there and the old one is still active; a key of another
  account makes \<open>revoke_key\<close> raise.\<close>

definition replace_key :: "Env \<Rightarrow> ManagedUser \<Rightarrow> uuid \<Rightarrow> uuid \<Rightarrow> db \<Rightarrow> (string + db) option" where
  "replace_key e u old_id new_id d =
    (case (get_ssh_key old_id d, get_ssh_key new_id d) of
       (Some old, Some new) \<Rightarrow>
         if k_revoked_at old \<noteq> None then None
         else (case revoke_key e u old (u_username u) ''ssh_key.replaced'' d of
           Inl err \<Rightarrow> Some (Inl err)
         | Inr d1 \<Rightarrow> Some (Inr (upd_ssh_key old_id (\<lambda>k. k\<lparr>k_replaced_by_id := Some new_id\<rparr>) d1)))
     | _ \<Rightarrow> None)"

definition enrolled :: "bool \<Rightarrow> Response" where
  "enrolled replaced = redirect_with_feedback ''/account''
     (if replaced then ''SSH key replaced'' else ''SSH key enrolled'')
     (if replaced then ''The new key was synchronized before the old key was revoked.''
      else ''The public key was saved and target synchronization has completed or is queued.'') ''success''"

text \<open>What follows the first run: a second one after a replacement (or without one, when the run is taken to
  have succeeded).\<close>

definition after_enrolment ::
  "Env \<Rightarrow> ManagedUser \<Rightarrow> uuid option \<Rightarrow> uuid \<Rightarrow> uuid option \<Rightarrow> db \<Rightarrow> reply" where
  "after_enrolment e u replace new_id operation_id d =
    (let again = (\<lambda>replaced d1. case sync_user e (u_id u) None None (u_username u) None d1 of
           Raised err d2 \<Rightarrow> Raised err d2 | Done _ d2 \<Rightarrow> Done (enrolled replaced) d2) in
     case replace of
       None \<Rightarrow> Done (enrolled False) d
     | Some old_id \<Rightarrow>
         if \<not> sync_succeeded operation_id d then Done (enrolled False) d
         else (case replace_key e u old_id new_id d of
           None \<Rightarrow> again False d
         | Some (Inl err) \<Rightarrow> Raised ''SshKeyError'' d
         | Some (Inr d1) \<Rightarrow> again True d1))"

definition enroll_ssh_key ::
  "Env \<Rightarrow> Request \<Rightarrow> KeyForm \<Rightarrow> string \<Rightarrow> uuid option \<Rightarrow> db \<Rightarrow> reply" where
  "enroll_ssh_key e req f private_key replace d =
    (case current_user e req d of
       None \<Rightarrow> Done (Redirect ''/login'') d
     | Some pr \<Rightarrow>
        (case get_user (pr_id pr) d of
           None \<Rightarrow> Done (Redirect ''/login'') d
         | Some u \<Rightarrow>
            if pr_role pr = ''root'' then Done (Plain ''Root is local-only.'' 403) d
            else (case (if private_key = [] then Some (kf_public_key f) else public_key_from_private e private_key) of
              None \<Rightarrow> Done (Plain ''Invalid private key.'' 422) d
            | Some public_key \<Rightarrow>
               (case enroll_key e u (f\<lparr>kf_public_key := public_key\<rparr>) replace d of
                  Inl err \<Rightarrow> Done (Plain err 422) d
                | Inr (new_id, d1) \<Rightarrow>
                   (case sync_user e (u_id u) None None (u_username u) None d1 of
                      Raised err d2 \<Rightarrow> Raised err d2
                    | Done operation_id d2 \<Rightarrow> after_enrolment e u replace new_id operation_id d2)))))"

definition synced :: "Env \<Rightarrow> ManagedUser \<Rightarrow> Response \<Rightarrow> db \<Rightarrow> reply" where
  "synced e u resp d =
    (case sync_user e (u_id u) None None (u_username u) None d of
       Raised err d1 \<Rightarrow> Raised err d1 | Done _ d1 \<Rightarrow> Done resp d1)"

definition revoke_ssh_key :: "Env \<Rightarrow> Request \<Rightarrow> uuid \<Rightarrow> db \<Rightarrow> reply" where
  "revoke_ssh_key e req i d =
    (case current_user e req d of
       None \<Rightarrow> Done (Redirect ''/login'') d
     | Some pr \<Rightarrow>
        (case (get_user (pr_id pr) d, get_ssh_key i d) of
           (Some u, Some k) \<Rightarrow>
             (case revoke_key e u k (u_username u) ''ssh_key.revoked'' d of
                Inl err \<Rightarrow> Done (Plain err 422) d
              | Inr d1 \<Rightarrow> synced e u (redirect_with_feedback ''/account'' ''SSH key revoked''
                  ''The key was removed from assigned targets.'' ''success'') d1)
         | _ \<Rightarrow> Done (Plain ''SSH key not found.'' 422) d))"

text \<open>The active keys one after the other; each was checked to be the account's own and active.\<close>

definition revoke_keys :: "Env \<Rightarrow> ManagedUser \<Rightarrow> UserSshKey list \<Rightarrow> db \<Rightarrow> db" where
  "revoke_keys e u ks d =
    fold (\<lambda>k d. record_audit e (u_username u) ''ssh_key.emergency_revoked'' (u_username u)
        (cat [k_name k, ''; '', k_fingerprint k]) None
        (refresh_legacy_key e (u_id u) (revoke_row e (u_username u) (k_id k) d))) ks d"

definition emergency_revoke_all :: "Env \<Rightarrow> Request \<Rightarrow> string \<Rightarrow> string \<Rightarrow> db \<Rightarrow> reply" where
  "emergency_revoke_all e req current_password confirmation d =
    (case current_user e req d of
       None \<Rightarrow> Done (Redirect ''/login'') d
     | Some pr \<Rightarrow>
        if confirmation \<noteq> ''REVOKE ALL KEYS'' then
          Done (Plain (cat [''Enter '', [CHR 0x22], ''REVOKE ALL KEYS'', [CHR 0x22], '' exactly.'']) 422) d
        else (case get_user (pr_id pr) d of
           None \<Rightarrow> Done (Plain ''Invalid current password.'' 422) d
         | Some u \<Rightarrow>
            if \<not> has_text (u_password_hash u) \<or> \<not> verify_password e current_password (the (u_password_hash u)) then
              Done (Plain ''Invalid current password.'' 422) d
            else
              (let active = active_ssh_keys (now e) (u_id u) d in
               synced e u (redirect_with_feedback ''/account'' ''All SSH keys revoked''
                   (cat [show_nat (length active), '' active key(s) were removed from assigned targets.'']) ''success'')
                 (revoke_keys e u active d))))"

section \<open>The expiry job\<close>

definition key_is_due :: "Env \<Rightarrow> UserSshKey \<Rightarrow> bool" where
  "key_is_due e k \<longleftrightarrow> k_revoked_at k = None \<and> (case k_expires_at k of None \<Rightarrow> False | Some t \<Rightarrow> t \<le> now e)"

definition expire_key :: "Env \<Rightarrow> UserSshKey \<Rightarrow> db \<Rightarrow> db" where
  "expire_key e k d =
    record_audit e ''system'' ''ssh_key.expired''
      (case get_user (k_user_id k) d of None \<Rightarrow> [] | Some u \<Rightarrow> u_username u)
      (cat [k_name k, ''; '', k_fingerprint k]) None
      (refresh_legacy_key e (k_user_id k) (revoke_row e ''system'' (k_id k) d))"

text \<open>The accounts are a set in the code; here they are run in the order of their keys.\<close>

definition expire_due_ssh_keys :: "Env \<Rightarrow> db \<Rightarrow> nat outcome" where
  "expire_due_ssh_keys e d =
    (let keys = filter (key_is_due e) (ssh_keys d) in
     case sync_users e ''ssh-key-expiry'' (remdups (map k_user_id keys)) (fold (expire_key e) keys d) of
       Raised err d' \<Rightarrow> Raised err d'
     | Done _ d' \<Rightarrow> Done (length keys) d')"

section \<open>Lemmas\<close>

lemma ssh_keys_steps [simp]:
  "ssh_keys (refresh_legacy_key e uid d) = ssh_keys d" "ssh_keys (upd_user i f d) = ssh_keys d"
  "ssh_keys (next_tick d) = ssh_keys d"
  by (simp_all add: refresh_legacy_key_def upd_user_def next_tick_def)

lemma ssh_keys_revoke_row:
  "ssh_keys (revoke_row e actor i d) =
    map (\<lambda>k. if k_id k = i then k\<lparr>k_revoked_at := Some (now e), k_revoked_by := Some actor\<rparr> else k) (ssh_keys d)"
  by (simp add: revoke_row_def upd_ssh_key_def rows_upd_def)

lemma users_revoke_row [simp]: "users (revoke_row e actor i d) = users d"
  by (simp add: revoke_row_def upd_ssh_key_def)

lemma get_user_record [simp]: "get_user i (record_audit e a ac s det opid d) = get_user i d"
  by (simp add: get_user_def)

lemma get_user_refresh:
  "get_user j (refresh_legacy_key e uid d) =
    (if j = uid then map_option (\<lambda>u. u\<lparr>u_ssh_public_key := newest_active e uid d\<rparr>) (get_user uid d) else get_user j d)"
  by (simp add: refresh_legacy_key_def user_table.get_upd)

lemma newest_active_None: "newest_active e uid d = None \<longleftrightarrow> active_ssh_keys (now e) uid d = []"
proof -
  have "sort_key (\<lambda>k. - k_enrolled_at k) xs = [] \<longleftrightarrow> xs = []" for xs :: "UserSshKey list"
    by (metis length_0_conv length_sort)
  then show ?thesis by (simp add: newest_active_def split: list.split) (metis neq_Nil_conv)
qed

text \<open>When the column of an account repeats its newest active key, the column decides nothing.\<close>

lemma public_keys_of_active:
  assumes "u_ssh_public_key u = newest_active e (u_id u) d"
  shows "active_ssh_public_keys (now e) u d = map k_public_key (active_ssh_keys (now e) (u_id u) d)"
  using assms newest_active_None [of e "u_id u" d]
  by (auto simp: active_ssh_public_keys_def Let_def split: option.split)

lemma active_ssh_keys_cong: "ssh_keys d' = ssh_keys d \<Longrightarrow> active_ssh_keys t uid d' = active_ssh_keys t uid d"
  by (simp add: active_ssh_keys_def user_keys_def)

lemma newest_active_cong: "ssh_keys d' = ssh_keys d \<Longrightarrow> newest_active e uid d' = newest_active e uid d"
  by (simp add: newest_active_def active_ssh_keys_def user_keys_def)

lemma ssh_keys_sync [simp]: "ssh_keys (outcome_db (sync_user e uid act t a oi d)) = ssh_keys d"
  by (rule bystanders_fields(3) [OF bystanders_sync_user])

lemma ssh_keys_after_sync:
  "sync_user e uid act t a oi d = Done r d' \<Longrightarrow> ssh_keys d' = ssh_keys d"
  "sync_user e uid act t a oi d = Raised err d' \<Longrightarrow> ssh_keys d' = ssh_keys d"
  using ssh_keys_sync [of e uid act t a oi d] by simp_all

lemma ssh_keys_sync_users [simp]: "ssh_keys (outcome_db (sync_users e actor is d)) = ssh_keys d"
proof (induction "is" arbitrary: d)
  case (Cons i "is")
  then show ?case
    by (cases "sync_user e i None None actor None d") (simp_all add: ssh_keys_after_sync)
qed simp

text \<open>What an added key is.\<close>

lemma add_key_InrD:
  assumes "add_key e u f actor d = Inr (i, d')"
  shows "\<exists>k. k_id k = uuid4 d \<and> k_user_id k = u_id u \<and> k_revoked_at k = None \<and> i = uuid4 d \<and>
    key_expiry e (kf_expires_on f) = Inr (k_expires_at k) \<and>
    (\<forall>x \<in> set (user_keys (u_id u) d). k_fingerprint x \<noteq> k_fingerprint k) \<and>
    ssh_keys d' = ssh_keys d @ [k] \<and>
    (\<forall>j. get_user j d' = (if j = u_id u
       then map_option (\<lambda>u. u\<lparr>u_ssh_public_key := Some (k_public_key k)\<rparr>) (get_user j d) else get_user j d))"
proof -
  obtain pk fp alg expiry where c: "normalise_public_key e (kf_public_key f) = Inr (pk, fp, alg)"
    "key_expiry e (kf_expires_on f) = Inr expiry" "\<not> list_ex (\<lambda>k. k_user_id k = u_id u \<and> k_fingerprint k = fp) (ssh_keys d)"
    using assms by (auto simp: add_key_def Let_def split: if_splits sum.splits)
  have small: "\<not> (strip (kf_name f) = [] \<or> length (strip (kf_name f)) > 80)"
    using assms by (simp add: add_key_def Let_def split: if_splits)
  let ?k = "\<lparr>k_id = uuid4 d, k_user_id = u_id u, k_name = strip (kf_name f), k_public_key = pk,
    k_fingerprint = fp, k_algorithm = algorithm_text alg, k_enrolled_at = now e,
    k_expires_at = expiry, k_revoked_at = None, k_revoked_by = None, k_replaced_by_id = None\<rparr>"
  let ?d1 = "(next_tick d)\<lparr>ssh_keys := ssh_keys d @ [?k]\<rparr>"
  have d': "i = uuid4 d" "d' = record_audit e actor ''ssh_key.enrolled'' (u_username u)
      (cat [strip (kf_name f), ''; '', fp, ''; '', algorithm_text alg]) None
      (upd_user (u_id u) (\<lambda>u. u\<lparr>u_ssh_public_key := Some pk\<rparr>) ?d1)"
    using assms c small by (auto simp: add_key_def Let_def)
  have "get_user j ?d1 = get_user j d" for j by (simp add: get_user_def next_tick_def)
  then have "get_user j d' = (if j = u_id u
       then map_option (\<lambda>u. u\<lparr>u_ssh_public_key := Some pk\<rparr>) (get_user j d) else get_user j d)" for j
    by (simp add: d' user_table.get_upd)
  moreover have "ssh_keys d' = ssh_keys d @ [?k]" by (simp add: d')
  ultimately show ?thesis
    using c d'(1) by (intro exI [of _ ?k]) (auto simp: list_ex_iff user_keys_def)
qed

section \<open>Properties\<close>

text \<open>C27: A revoked key is not installed again.  After a revocation the key is not among the active ones at
  any instant, the keys the targets are given for the account are exactly its active ones (nothing is left in
  the column of the account), and no key of another account changed.\<close>

theorem revoked_key_is_not_desired:
  assumes "revoke_key e u k actor action d = Inr d'" "get_user (u_id u) d = Some u" "distinct (map k_id (ssh_keys d))"
    and "k \<in> set (ssh_keys d)"
  shows "k_id k \<notin> k_id ` set (active_ssh_keys t (u_id u) d') \<and>
    (\<exists>u'. get_user (u_id u) d' = Some u' \<and>
       active_ssh_public_keys (now e) u' d' = map k_public_key (active_ssh_keys (now e) (u_id u) d')) \<and>
    filter (\<lambda>x. k_user_id x \<noteq> u_id u) (ssh_keys d') = filter (\<lambda>x. k_user_id x \<noteq> u_id u) (ssh_keys d)"
proof -
  let ?d1 = "revoke_row e actor (k_id k) d"
  have own: "k_user_id k = u_id u"
    and d': "d' = record_audit e actor action (u_username u) (cat [k_name k, ''; '', k_fingerprint k]) None
      (refresh_legacy_key e (u_id u) ?d1)"
    using assms(1) by (auto simp: revoke_key_def split: if_splits)
  have keys: "ssh_keys d' = ssh_keys ?d1" by (simp add: d')
  have gone: "k_id k \<notin> k_id ` set (active_ssh_keys t (u_id u) d')"
    unfolding active_ssh_keys_cong [OF keys]
    by (auto simp: active_ssh_keys_def user_keys_def ssh_keys_revoke_row key_is_active_def)
  let ?u' = "u\<lparr>u_ssh_public_key := newest_active e (u_id u) ?d1\<rparr>"
  have user: "get_user (u_id u) d' = Some ?u'"
    using assms(2) by (simp add: d' get_user_refresh) (simp add: get_user_def)
  have "active_ssh_public_keys (now e) ?u' d' = map k_public_key (active_ssh_keys (now e) (u_id u) d')"
    using public_keys_of_active [of ?u' e d'] newest_active_cong [OF keys] by simp
  moreover have "filter (\<lambda>x. k_user_id x \<noteq> u_id u) (map (\<lambda>x. if k_id x = k_id k
      then x\<lparr>k_revoked_at := Some (now e), k_revoked_by := Some actor\<rparr> else x) ks) = filter (\<lambda>x. k_user_id x \<noteq> u_id u) ks"
    if "\<forall>x \<in> set ks. k_id x = k_id k \<longrightarrow> x = k" for ks
    using that own by (induction ks) auto
  moreover have "\<forall>x \<in> set (ssh_keys d). k_id x = k_id k \<longrightarrow> x = k"
    using assms(3,4) by (meson distinct_map inj_on_eq_iff)
  ultimately show ?thesis using gone user keys by (simp add: ssh_keys_revoke_row)
qed

text \<open>The expiry job leaves no expired key.  After the job, also when a run of the synchronisation raised,
  every key whose expiry has come is revoked.\<close>

theorem expiry_job_revokes_all:
  "list_all (\<lambda>k. \<not> key_is_due e k) (ssh_keys (outcome_db (expire_due_ssh_keys e d)))"
proof -
  have step: "ssh_keys (expire_key e k d) = ssh_keys (revoke_row e ''system'' (k_id k) d)" for k d
    by (simp add: expire_key_def)
  have "ssh_keys (fold (expire_key e) ks d) =
      map (\<lambda>x. if k_id x \<in> k_id ` set ks then x\<lparr>k_revoked_at := Some (now e), k_revoked_by := Some ''system''\<rparr> else x) (ssh_keys d)"
    for ks
  proof (induction ks arbitrary: d)
    case (Cons k ks)
    show ?case by (auto simp: Cons step ssh_keys_revoke_row)
  qed simp
  then have "list_all (\<lambda>k. \<not> key_is_due e k) (ssh_keys (fold (expire_key e) (filter (key_is_due e) (ssh_keys d)) d))"
    by (auto simp: list_all_iff key_is_due_def)
  moreover have "outcome_db (expire_due_ssh_keys e d) = outcome_db (sync_users e ''ssh-key-expiry''
      (remdups (map k_user_id (filter (key_is_due e) (ssh_keys d)))) (fold (expire_key e) (filter (key_is_due e) (ssh_keys d)) d))"
    by (simp add: expire_due_ssh_keys_def Let_def split: outcome.split)
  ultimately show ?thesis by simp
qed

text \<open>An expired key is still desired.  When the only key of an account has expired and the job has not run yet,
  the account has no active key, but the keys the targets are given still contain it, because the column of the account
  repeats it.\<close>

theorem expired_key_is_still_desired:
  assumes "add_key e u f actor d = Inr (i, d')" "get_user (u_id u) d = Some u" "user_keys (u_id u) d = []"
    and "key_expiry e (kf_expires_on f) = Inr (Some x)" "x \<le> t"
  shows "\<exists>u' k. get_user (u_id u) d' = Some u' \<and> user_keys (u_id u) d' = [k] \<and> k_expires_at k = Some x \<and>
    active_ssh_keys t (u_id u) d' = [] \<and>
    (k_public_key k = [] \<or> active_ssh_public_keys t u' d' = [k_public_key k])"
proof -
  obtain k where k: "k_user_id k = u_id u" "k_expires_at k = Some x" "ssh_keys d' = ssh_keys d @ [k]"
    "get_user (u_id u) d' = Some (u\<lparr>u_ssh_public_key := Some (k_public_key k)\<rparr>)"
    using add_key_InrD [OF assms(1)] assms(2,4) by auto
  have mine: "user_keys (u_id u) d' = [k]" using assms(3) k(1,3) by (simp add: user_keys_def)
  have none: "active_ssh_keys t (u_id u) d' = []"
    using k(2) assms(5) by (simp add: active_ssh_keys_def mine key_is_active_def)
  then show ?thesis using k mine by (simp add: active_ssh_public_keys_def)
qed

text \<open>A run with an unfinished operation on the account does nothing and returns no operation.\<close>

lemma busy_account_is_not_synced:
  assumes "get_user uid d = Some u" "\<not> is_root u" "u_desired_action u \<noteq> DA_DELETE"
    and "u_active_operation_id u = Some oid" "get_operation oid d = Some oper" "\<not> terminal (op_status oper)"
    and "s_config_file (settings e)" "actor \<noteq> ''verified-login''" "actor \<noteq> ''password-expiry''"
  shows "sync_user e uid None None actor None d = Done None d"
proof -
  have d1: "create_missing_states e uid av d = d" for av using assms(7) by (simp add: create_missing_states_def)
  have "command_for (u_desired_action u) actor \<in> {UPDATE}"
    using assms(3,8,9) by (simp add: command_for_def)
  then have "\<exists>err d2. request_operation e uid (command_for (u_desired_action u) actor) actor None d = (Inl err, d2)"
    using assms(1,4-6)
    by (simp add: request_operation_def get_active_operation_def decide_transition_def is_active_def Let_def decision_def)
  then obtain err d2 where "request_operation e uid (command_for (u_desired_action u) actor) actor None d = (Inl err, d2)" by blast
  then have "\<exists>d2. choose_operation e uid (u_desired_action u) None actor None d = (Conflicting, d2)"
    by (simp add: choose_operation_def)
  then show ?thesis using assms(1,2) d1 by (auto simp: sync_user_def Let_def)
qed

text \<open>A replaced key is revoked without a run.  When the account has an unfinished operation, the run that should
  install the new key does nothing, which is taken for success: the old key is revoked and the answer says that the
  new key was synchronised before.\<close>

theorem key_replaced_without_sync:
  assumes "get_user (u_id u) d = Some u" "\<not> is_root u" "u_desired_action u \<noteq> DA_DELETE"
    and "u_active_operation_id u = Some oid" "get_operation oid d = Some oper" "\<not> terminal (op_status oper)"
    and "s_config_file (settings e)" "u_username u \<notin> {''verified-login'', ''password-expiry''}"
    and "get_ssh_key old_id d = Some old" "get_ssh_key new_id d = Some new" "k_revoked_at old = None" "k_user_id old = u_id u"
  shows "sync_user e (u_id u) None None (u_username u) None d = Done None d \<and>
    (\<exists>d'. after_enrolment e u (Some old_id) new_id None d = Done (enrolled True) d' \<and>
      (\<exists>k. get_ssh_key old_id d' = Some k \<and> k_revoked_at k = Some (now e)))"
proof -
  have none: "sync_user e (u_id u) None None (u_username u) None d = Done None d"
    using busy_account_is_not_synced assms(1-8) by blast
  have old: "k_id old = old_id" using assms(9) by (rule ssh_key_table.get_key)
  let ?d1 = "record_audit e (u_username u) ''ssh_key.replaced'' (u_username u) (cat [k_name old, ''; '', k_fingerprint old]) None
    (refresh_legacy_key e (u_id u) (revoke_row e (u_username u) old_id d))"
  let ?d2 = "upd_ssh_key old_id (\<lambda>k. k\<lparr>k_replaced_by_id := Some new_id\<rparr>) ?d1"
  have row: "revoke_key e u old (u_username u) ''ssh_key.replaced'' d = Inr ?d1"
    using assms(11,12) old by (simp add: revoke_key_def)
  then have replace: "replace_key e u old_id new_id d = Some (Inr ?d2)"
    using assms(9-11) by (simp add: replace_key_def)
  have "get_ssh_key old_id ?d1 = Some (old\<lparr>k_revoked_at := Some (now e), k_revoked_by := Some (u_username u)\<rparr>)"
    using assms(9) by (simp add: get_ssh_key_def ssh_keys_revoke_row rows_get_upd [unfolded rows_upd_def])
  then have "get_ssh_key old_id ?d2 = Some (old\<lparr>k_revoked_at := Some (now e), k_revoked_by := Some (u_username u),
      k_replaced_by_id := Some new_id\<rparr>)"
    by (simp add: ssh_key_table.get_upd_same)
  moreover have "get_user (u_id u) ?d2 = Some (u\<lparr>u_ssh_public_key := newest_active e (u_id u) (revoke_row e (u_username u) old_id d)\<rparr>)"
    using assms(1) get_user_refresh [of "u_id u" e "u_id u" "revoke_row e (u_username u) old_id d"]
    by (simp add: get_user_def upd_ssh_key_def)
  moreover have "get_operation oid ?d2 = Some oper"
    using assms(5) by (simp add: get_operation_def upd_ssh_key_def refresh_legacy_key_def upd_user_def revoke_row_def)
  ultimately have "after_enrolment e u (Some old_id) new_id None d = Done (enrolled True) ?d2"
    using replace busy_account_is_not_synced [of "u_id u" ?d2 _ oid oper e "u_username u"] assms(2-8)
    by (simp add: after_enrolment_def sync_succeeded_def is_root_def)
  then show ?thesis using none \<open>get_ssh_key old_id ?d2 = _\<close> by auto
qed

section \<open>Witnesses\<close>

definition sample_key :: "uuid \<Rightarrow> UserSshKey" where
  "sample_key i = \<lparr>k_id = i, k_user_id = 1, k_name = ''laptop'', k_public_key = ''ssh-ed25519 AAAA'',
     k_fingerprint = ''SHA256:AAAA'', k_algorithm = ''ed25519'', k_enrolled_at = 0, k_expires_at = None,
     k_revoked_at = None, k_revoked_by = None, k_replaced_by_id = None\<rparr>"

definition keys_db :: db where
  "keys_db = sample_db\<lparr>ssh_keys := [sample_key 5, sample_key 6]\<rparr>"

lemma sample_user_id: "u_id sample_user = 1" "u_username sample_user = ''ada''"
  by (simp_all add: sample_user_def)

lemma keys_db_user: "get_user 1 keys_db = Some sample_user" "get_user 1 sample_db = Some sample_user"
  by (simp_all add: get_user_def rows_get_def keys_db_def sample_db_def sample_user_def)

theorem revoked_key_is_not_desired_witness:
  "\<exists>d'. revoke_key sample_env sample_user (sample_key 5) ''ada'' ''ssh_key.revoked'' keys_db = Inr d' \<and>
     5 \<notin> k_id ` set (active_ssh_keys 0 1 d')"
proof -
  obtain d' where d': "revoke_key sample_env sample_user (sample_key 5) ''ada'' ''ssh_key.revoked'' keys_db = Inr d'"
    by (simp add: revoke_key_def sample_key_def sample_user_id)
  have "get_user (u_id sample_user) keys_db = Some sample_user" using keys_db_user sample_user_id by simp
  moreover have "distinct (map k_id (ssh_keys keys_db))" "sample_key 5 \<in> set (ssh_keys keys_db)"
    by (simp_all add: keys_db_def sample_key_def)
  ultimately have "k_id (sample_key 5) \<notin> k_id ` set (active_ssh_keys 0 (u_id sample_user) d')"
    using revoked_key_is_not_desired [OF d'] by blast
  then show ?thesis using d' by (simp add: sample_key_def sample_user_id)
qed

definition dated_env :: Env where
  "dated_env = sample_env\<lparr>parse_date := (\<lambda>_. Some 1001)\<rparr>"

theorem expired_key_is_still_desired_witness:
  "\<exists>i d' u' k. add_key dated_env sample_user \<lparr>kf_name = ''laptop'', kf_public_key = ''ssh-ed25519 AAAA'', kf_expires_on = ''x''\<rparr>
       ''ada'' sample_db = Inr (i, d') \<and> active_ssh_keys (1002 * day) 1 d' = [] \<and> user_keys 1 d' = [k]"
proof -
  let ?f = "\<lparr>kf_name = ''laptop'', kf_public_key = ''ssh-ed25519 AAAA'', kf_expires_on = ''x''\<rparr>"
  have policy: "ssh_key_policy dated_env = default_ssh_key_policy"
    by (simp add: ssh_key_policy_def file_config_def dated_env_def sample_env_def sample_file_def)
  have expiry: "key_expiry dated_env (kf_expires_on ?f) = Inr (Some (end_of_day 1001))"
  proof -
    have "now dated_env = 1000 * day" "parse_date dated_env ''x'' = Some 1001" by (simp_all add: dated_env_def sample_env_def)
    then show ?thesis by (simp add: key_expiry_def chosen_day_def policy default_ssh_key_policy_def day_def second_def)
  qed
  have key: "normalise_public_key dated_env (kf_public_key ?f) = Inr (''ssh-ed25519 AAAA'', ''SHA256:AAAA'', ED25519)"
  proof -
    have "parse_public_key dated_env k = (if k = [] then None else Some (Some ED25519, 256))"
      "b64_sha256 dated_env k = (if k = [] then None else Some k)" for k
      by (simp_all add: dated_env_def sample_env_def)
    then show ?thesis
      by (simp add: normalise_public_key_def policy words_def is_space_def ssh_public_key_fingerprint_def default_ssh_key_policy_def)
  qed
  have "ssh_keys sample_db = []" by (simp add: sample_db_def empty_db_def)
  then obtain i d' where run: "add_key dated_env sample_user ?f ''ada'' sample_db = Inr (i, d')"
    using expiry key by (simp add: add_key_def Let_def strip_def is_space_def)
  have user: "get_user (u_id sample_user) sample_db = Some sample_user" "user_keys (u_id sample_user) sample_db = []"
    using keys_db_user sample_user_id by (simp_all add: user_keys_def sample_db_def empty_db_def)
  have "end_of_day 1001 \<le> 1002 * day" by (simp add: end_of_day_def day_def second_def)
  from expired_key_is_still_desired [OF run user expiry this] show ?thesis using run sample_user_id by auto
qed

definition busy_env :: Env where
  "busy_env = sample_env\<lparr>settings := (settings sample_env)\<lparr>s_config_file := True\<rparr>\<rparr>"

definition busy_user :: ManagedUser where
  "busy_user = sample_user\<lparr>u_active_operation_id := Some 7\<rparr>"

definition busy_db :: db where
  "busy_db = keys_db\<lparr>users := [busy_user],
     operations := [new_operation sample_env 7 (Some 1) UPDATE ''admin'' ''ada'' None None]\<rparr>"

theorem key_replaced_without_sync_witness:
  "\<exists>d' k. after_enrolment busy_env busy_user (Some 5) 6 None busy_db = Done (enrolled True) d' \<and>
     get_ssh_key 5 d' = Some k \<and> k_revoked_at k = Some (now busy_env)"
proof -
  have u: "u_id busy_user = 1" "\<not> is_root busy_user" "u_desired_action busy_user \<noteq> DA_DELETE"
    "u_active_operation_id busy_user = Some 7" "u_username busy_user \<notin> {''verified-login'', ''password-expiry''}"
    by (simp_all add: busy_user_def sample_user_def is_root_def)
  have d: "get_user (u_id busy_user) busy_db = Some busy_user"
    using u(1) by (simp add: get_user_def rows_get_def busy_db_def)
  have oper: "get_operation 7 busy_db = Some (new_operation sample_env 7 (Some 1) UPDATE ''admin'' ''ada'' None None)"
    by (simp add: get_operation_def rows_get_def busy_db_def new_operation_def)
  have "\<not> terminal (op_status (new_operation sample_env 7 (Some 1) UPDATE ''admin'' ''ada'' None None))"
    by (simp add: new_operation_def terminal_def TERMINAL_OPERATION_STATUSES_def)
  moreover have "get_ssh_key 5 busy_db = Some (sample_key 5)" "get_ssh_key 6 busy_db = Some (sample_key 6)"
    by (simp_all add: get_ssh_key_def rows_get_def busy_db_def keys_db_def sample_key_def)
  moreover have "k_revoked_at (sample_key 5) = None" "k_user_id (sample_key 5) = u_id busy_user"
    "s_config_file (settings busy_env)"
    by (simp_all add: sample_key_def u(1) busy_env_def)
  ultimately show ?thesis
    using key_replaced_without_sync [OF d u(2,3,4) oper _ _ u(5)] by blast
qed


end
