(* ===== verification/RequestSecurity.thy ===== *)
theory RequestSecurity
  imports Json
begin

text \<open>
  The boundary every request passes before a handler sees it (\<open>src/na_sso/request_security.py\<close>):
  a request that may change state is refused when the browser says that it comes from another site, by the
  fetch metadata, the \<open>Origin\<close> or the \<open>Referer\<close>, and every answer gets the
  protective headers.  The part of \<open>urlsplit\<close> that is used is written out here; a host in
  brackets is kept as it is.
\<close>

section \<open>Splitting an address\<close>

definition scheme_char :: "char \<Rightarrow> bool" where
  "scheme_char c \<longleftrightarrow> is_alnum c \<or> c \<in> set ''+-.''"

definition is_letter :: "char \<Rightarrow> bool" where
  "is_letter c \<longleftrightarrow> is_lower c \<or> is_upper c"

text \<open>Leading control characters and spaces are dropped, tabs and line ends removed anywhere.\<close>

definition cleaned_url :: "string \<Rightarrow> string" where
  "cleaned_url s = filter (\<lambda>c. c \<notin> {CHR 0x09, CHR 0x0A, CHR 0x0D}) (dropWhile (\<lambda>c. (of_char c :: nat) \<le> 32) s)"

definition before :: "char \<Rightarrow> string \<Rightarrow> string" where
  "before c s = takeWhile (\<lambda>x. x \<noteq> c) s"

definition scheme_of :: "string \<Rightarrow> string \<times> string" where
  "scheme_of u = (let s = before (CHR '':'') u in
     if length s < length u \<and> s \<noteq> [] \<and> is_letter (hd s) \<and> list_all scheme_char s
     then (lower s, drop (Suc (length s)) u) else ([], u))"

definition netloc_of :: "string \<Rightarrow> string" where
  "netloc_of rest = (if starts_with ''//'' rest then takeWhile (\<lambda>c. c \<notin> set ''/?#'') (drop 2 rest) else [])"

text \<open>What follows the last at sign of the authority.\<close>

definition host_part :: "string \<Rightarrow> string" where
  "host_part n = rev (before (CHR ''@'') (rev n))"

definition bracketed :: "string \<Rightarrow> bool" where
  "bracketed h \<longleftrightarrow> CHR ''['' \<in> set h"

definition host_of :: "string \<Rightarrow> string" where
  "host_of h = lower (if bracketed h then before (CHR '']'') (tl (dropWhile (\<lambda>c. c \<noteq> CHR ''['') h)) else before (CHR '':'') h)"

definition after_host :: "string \<Rightarrow> string" where
  "after_host h = (if bracketed h then dropWhile (\<lambda>c. c \<noteq> CHR '']'') h else h)"

definition port_text :: "string \<Rightarrow> string" where
  "port_text h = drop (Suc (length (before (CHR '':'') (after_host h)))) (after_host h)"

text \<open>The port: \<open>Inl ()\<close> is the \<open>ValueError\<close> of a text that is no number below 65536.\<close>

definition port_of :: "string \<Rightarrow> unit + nat option" where
  "port_of h = (if port_text h = [] then Inr None
     else (case parse_digits 0 (port_text h) of
       None \<Rightarrow> Inl () | Some n \<Rightarrow> if n \<le> 65535 then Inr (Some n) else Inl ()))"

definition normalised_origin :: "string \<Rightarrow> (string \<times> string \<times> nat) option" where
  "normalised_origin v =
    (let (scheme, rest) = scheme_of (cleaned_url v); n = netloc_of rest; h = host_part n in
     if (CHR ''['' \<in> set n) \<noteq> (CHR '']'' \<in> set n) then None
     else if scheme \<notin> {''http'', ''https''} \<or> host_of h = [] then None
     else (case port_of h of
       Inl _ \<Rightarrow> None
     | Inr None \<Rightarrow> Some (scheme, host_of h, if scheme = ''https'' then 443 else 80)
     | Inr (Some p) \<Rightarrow> Some (scheme, host_of h, p)))"

section \<open>The boundary\<close>

record BoundaryRequest =
  bq_method :: string
  bq_path :: string
  bq_base_url :: string
  bq_https :: bool
  bq_fetch_site :: string
  bq_origin :: "string option"
  bq_referer :: "string option"

text \<open>What leaves the boundary: its own refusal (status and text) or the answer of the handler, with headers.\<close>

datatype 'r content = Refused nat string | Handled 'r

type_synonym 'r bounded = "'r content \<times> (string \<times> string) list"

definition SAFE_METHODS :: "string list" where
  "SAFE_METHODS = [''GET'', ''HEAD'', ''OPTIONS'', ''TRACE'']"

definition upper :: "string \<Rightarrow> string" where
  "upper s = map (\<lambda>c. let n = (of_char c :: nat) in if 97 \<le> n \<and> n \<le> 122 then char_of (n - 32) else c) s"

definition csrf_response :: "BoundaryRequest \<Rightarrow> 'r content" where
  "csrf_response q =
    (let message = ''Cross-site state-changing requests are not accepted.'' in
     if starts_with ''/api/v1'' (bq_path q) then
       Refused 403 (dumps (JObject [(''api_version'', JText ''v1''), (''data'', JNull),
         (''error'', JObject [(''code'', JText ''cross_site_request''), (''message'', JText message)])]))
     else Refused 403 message)"

definition set_default :: "string \<times> string \<Rightarrow> (string \<times> string) list \<Rightarrow> (string \<times> string) list" where
  "set_default kv h = (if map_of h (fst kv) = None then h @ [kv] else h)"

definition protective_headers :: "bool \<Rightarrow> (string \<times> string) list" where
  "protective_headers https =
    [(''content-security-policy'', cat [''frame-ancestors '', [CHR 0x27], ''none'', [CHR 0x27]]),
     (''x-frame-options'', ''DENY''), (''x-content-type-options'', ''nosniff''), (''referrer-policy'', ''same-origin'')] @
    (if https then [(''strict-transport-security'', ''max-age=31536000; includeSubDomains'')] else [])"

definition with_security_headers :: "BoundaryRequest \<Rightarrow> 'r bounded \<Rightarrow> 'r bounded" where
  "with_security_headers q = (\<lambda>(c, h). (c, fold set_default (protective_headers (bq_https q)) h))"

definition given :: "string option \<Rightarrow> bool" where
  "given v \<longleftrightarrow> v \<noteq> None \<and> v \<noteq> Some []"

definition cross_site :: "BoundaryRequest \<Rightarrow> bool" where
  "cross_site q \<longleftrightarrow>
     lower (bq_fetch_site q) = ''cross-site'' \<or>
     given (bq_origin q) \<and> normalised_origin (the (bq_origin q)) \<noteq> normalised_origin (bq_base_url q) \<or>
     \<not> given (bq_origin q) \<and> given (bq_referer q) \<and>
       normalised_origin (the (bq_referer q)) \<noteq> normalised_origin (bq_base_url q)"

text \<open>The handler gets the state and gives its answer with headers, and the state it leaves.\<close>

definition browser_request_boundary ::
  "('s \<Rightarrow> ('r \<times> (string \<times> string) list) \<times> 's) \<Rightarrow> BoundaryRequest \<Rightarrow> 's \<Rightarrow> 'r bounded \<times> 's" where
  "browser_request_boundary call_next q s =
    (if upper (bq_method q) \<notin> set SAFE_METHODS \<and> cross_site q then (with_security_headers q (csrf_response q, []), s)
     else (case call_next s of ((r, h), s') \<Rightarrow> (with_security_headers q (Handled r, h), s')))"

section \<open>Addresses that are read back\<close>

definition host_char :: "char \<Rightarrow> bool" where
  "host_char c \<longleftrightarrow> is_alnum c \<or> c \<in> set ''.-_''"

definition port_suffix :: "nat option \<Rightarrow> string" where
  "port_suffix p = (case p of None \<Rightarrow> [] | Some n \<Rightarrow> CHR '':'' # show_nat n)"

lemma alnum_special:
  assumes "is_alnum c"
  shows "c \<notin> set '':@[]/?#''" "c \<notin> {CHR 0x09, CHR 0x0A, CHR 0x0D}"
  using assms by (auto simp: is_alnum_def is_lower_def is_upper_def is_digit_def in_range_def)

lemma host_char_special:
  assumes "host_char c"
  shows "c \<notin> set '':@[]/?#''" "c \<notin> {CHR 0x09, CHR 0x0A, CHR 0x0D}"
proof -
  from assms consider "is_alnum c" | "c \<in> set ''.-_''" by (auto simp: host_char_def)
  then show "c \<notin> set '':@[]/?#''" "c \<notin> {CHR 0x09, CHR 0x0A, CHR 0x0D}"
    by (cases, use alnum_special in blast, force)+
qed

lemma before_append: "c \<notin> set h \<Longrightarrow> before c (h @ c # r) = h"
  by (induction h) (auto simp: before_def)

lemma before_none: "c \<notin> set h \<Longrightarrow> before c h = h"
  by (induction h) (auto simp: before_def)

text \<open>The authority of an address: only host characters, colons and digits.\<close>

lemma authority_chars:
  assumes "list_all host_char h" "c \<in> set (h @ port_suffix p)"
  shows "c \<notin> set ''@[]/?#''" "c \<notin> {CHR 0x09, CHR 0x0A, CHR 0x0D}"
proof -
  from assms(2) consider "c \<in> set h" | "c = CHR '':''" | n where "c \<in> set (show_nat n)"
    by (auto simp: port_suffix_def split: option.splits)
  then consider "host_char c" | "c = CHR '':''" | "is_alnum c"
    using assms(1) digits_of_show_nat by cases (auto simp: list_all_iff is_alnum_def)
  then show "c \<notin> set ''@[]/?#''" "c \<notin> {CHR 0x09, CHR 0x0A, CHR 0x0D}"
    by (cases, use host_char_special [of c] in force, force, use alnum_special [of c] in force)+
qed

lemma port_of_suffix:
  assumes "list_all host_char h" "case p of None \<Rightarrow> True | Some n \<Rightarrow> n \<le> 65535"
  shows "port_of (h @ port_suffix p) = Inr p" "host_of (h @ port_suffix p) = lower h"
proof -
  have plain: "\<not> bracketed (h @ port_suffix p)"
    using authority_chars(1) [OF assms(1), of "CHR ''[''"] by (auto simp: bracketed_def)
  have colon: "CHR '':'' \<notin> set h" using assms(1) host_char_special(1) [of "CHR '':''"] by (auto simp: list_all_iff)
  show "port_of (h @ port_suffix p) = Inr p"
    using assms(2) plain colon before_none [OF colon] before_append [OF colon]
    by (cases p) (auto simp: port_of_def port_text_def after_host_def port_suffix_def parse_show_nat show_nat_nonempty)
  show "host_of (h @ port_suffix p) = lower h"
    using plain colon before_none [OF colon] before_append [OF colon]
    by (cases p) (auto simp: host_of_def port_suffix_def)
qed

definition address :: "string \<Rightarrow> string \<Rightarrow> nat option \<Rightarrow> string \<Rightarrow> string" where
  "address scheme h p rest = scheme @ ''://'' @ h @ port_suffix p @ rest"

definition default_port :: "string \<Rightarrow> nat" where
  "default_port scheme = (if scheme = ''https'' then 443 else 80)"

lemma scheme_of_address:
  assumes "scheme \<in> {''http'', ''https''}"
  shows "scheme_of (scheme @ CHR '':'' # r) = (scheme, r)"
  using assms by (auto simp: scheme_of_def before_def scheme_char_def is_letter_def is_alnum_def is_lower_def is_upper_def
      in_range_def lower_def lower_char_def Let_def)

text \<open>Addresses are compared by what they mean.  An address with a scheme of the web, a host of letters, digits,
  dots, hyphens and underscores, and an optional port, whatever follows, is read as its scheme, the host in lower case,
  and the port or the default one of the scheme; so a page of the console itself, with or without the default
  port written out, is never taken for another site.\<close>

theorem address_is_read_back:
  assumes "scheme \<in> {''http'', ''https''}" "h \<noteq> []" "list_all host_char h"
    and "case p of None \<Rightarrow> True | Some n \<Rightarrow> n \<le> 65535"
    and "rest = [] \<or> hd rest \<in> set ''/?#''"
  shows "normalised_origin (address scheme h p rest) =
    Some (scheme, lower h, case p of None \<Rightarrow> default_port scheme | Some n \<Rightarrow> n)"
proof -
  let ?drop = "filter (\<lambda>c. c \<notin> {CHR 0x09, CHR 0x0A, CHR 0x0D})"
  let ?n = "h @ port_suffix p"
  have "\<forall>c \<in> set ?n. c \<notin> {CHR 0x09, CHR 0x0A, CHR 0x0D}" using authority_chars(2) [OF assms(3)] by blast
  then have n: "?drop h = h" "?drop (port_suffix p) = port_suffix p" unfolding set_append filter_id_conv ball_Un by simp_all
  have start: "dropWhile (\<lambda>c. (of_char c :: nat) \<le> 32) (address scheme h p rest) = address scheme h p rest"
    using assms(1) by (auto simp: address_def)
  have "?drop scheme = scheme" using assms(1) by auto
  then have clean: "cleaned_url (address scheme h p rest) = scheme @ CHR '':'' # ''//'' @ ?n @ ?drop rest"
    unfolding cleaned_url_def start unfolding address_def filter_append n by simp
  have tail: "?drop rest = [] \<or> hd (?drop rest) \<in> set ''/?#''" using assms(5) by (cases rest) auto
  have "takeWhile (\<lambda>c. c \<notin> set ''/?#'') (?n @ ?drop rest) = ?n"
  proof -
    have "c \<notin> set ''/?#''" if "c \<in> set ?n" for c using authority_chars(1) [OF assms(3) that] by simp
    then have "takeWhile (\<lambda>c. c \<notin> set ''/?#'') (?n @ ?drop rest) = ?n @ takeWhile (\<lambda>c. c \<notin> set ''/?#'') (?drop rest)"
      by (rule takeWhile_append2)
    also have "takeWhile (\<lambda>c. c \<notin> set ''/?#'') (?drop rest) = []" using tail by (cases "?drop rest") simp_all
    finally show ?thesis by simp
  qed
  then have net: "netloc_of (''//'' @ ?n @ ?drop rest) = ?n" by (simp add: netloc_of_def starts_with_def)
  have "CHR ''@'' \<notin> set (rev ?n)" using authority_chars(1) [OF assms(3), of "CHR ''@''"] by auto
  then have host: "host_part ?n = ?n" unfolding host_part_def by (metis before_none rev_rev_ident)
  have "CHR ''['' \<notin> set ?n" "CHR '']'' \<notin> set ?n" 
    using authority_chars(1) [OF assms(3), of "CHR ''[''"] authority_chars(1) [OF assms(3), of "CHR '']''"] by auto
  moreover have "lower h \<noteq> []" using assms(2) by (simp add: lower_def)
  ultimately show ?thesis
    using assms(1) port_of_suffix [OF assms(3,4)]
    unfolding normalised_origin_def clean scheme_of_address [OF assms(1)] Let_def prod.case net host
    by (cases p) (simp_all add: default_port_def)
qed


section \<open>What the boundary guarantees\<close>

lemma set_default_some: "map_of h k \<noteq> None \<Longrightarrow> map_of (set_default kv h) k = map_of h k"
  by (auto simp: set_default_def map_add_def split: option.split)

lemma fold_set_default_some: "map_of h k \<noteq> None \<Longrightarrow> map_of (fold set_default kvs h) k = map_of h k"
proof (induction kvs arbitrary: h)
  case (Cons kv kvs)
  then show ?case using set_default_some [of h k kv] by simp
qed simp

lemma fold_set_default:
  assumes "(k, v) \<in> set kvs"
  shows "map_of (fold set_default kvs h) k \<noteq> None"
  using assms
proof (induction kvs arbitrary: h)
  case (Cons kv kvs)
  show ?case
  proof (cases "kv = (k, v)")
    case True
    have "map_of (set_default (k, v) h) k \<noteq> None" by (auto simp: set_default_def map_add_def split: option.splits)
    then show ?thesis using True fold_set_default_some by simp
  next
    case False
    then show ?thesis using Cons by simp
  qed
qed simp


text \<open>A page of the console is not locked out.  A request whose origin is the scheme, host and port of the base address,
  with the default port written or left out and the host in any case, is never refused for its
  origin.\<close>

theorem same_origin_is_accepted:
  assumes "scheme \<in> {''http'', ''https''}" "h \<noteq> []" "list_all host_char h" "list_all host_char g" "lower g = lower h"
    and "p \<in> {None, Some (default_port scheme)}" "q \<in> {None, Some (default_port scheme)}"
    and "rest = [] \<or> hd rest \<in> set ''/?#''"
    and "bq_origin r = Some (address scheme g p [])" "bq_base_url r = address scheme h q rest"
    and "lower (bq_fetch_site r) \<noteq> ''cross-site''"
  shows "\<not> cross_site r"
proof -
  have g: "g \<noteq> []" using assms(2,5) by (auto simp: lower_def)
  have port: "case x of None \<Rightarrow> True | Some n \<Rightarrow> n \<le> 65535" if "x \<in> {None, Some (default_port scheme)}" for x
    using that by (auto simp: default_port_def)
  have same: "(case x of None \<Rightarrow> default_port scheme | Some n \<Rightarrow> n) = default_port scheme"
    if "x \<in> {None, Some (default_port scheme)}" for x
    using that by auto
  have "normalised_origin (address scheme g p []) = Some (scheme, lower g, default_port scheme)"
    using address_is_read_back [OF assms(1) g assms(4) port [OF assms(6)]] same [OF assms(6)] by simp
  moreover have "normalised_origin (address scheme h q rest) = Some (scheme, lower h, default_port scheme)"
    using address_is_read_back [OF assms(1,2,3) port [OF assms(7)] assms(8)] same [OF assms(7)] by simp
  moreover have "given (bq_origin r)" using assms(1,9) by (auto simp: given_def address_def)
  ultimately show ?thesis using assms(5,9-11) by (simp add: cross_site_def)
qed

section \<open>Witnesses\<close>

theorem address_is_read_back_witness:
  "normalised_origin (address ''https'' ''Console.example'' (Some 8443) ''/users'') = Some (''https'', lower ''Console.example'', 8443)"
proof -
  have "list_all host_char ''Console.example''"
    by (simp add: host_char_def is_alnum_def is_lower_def is_upper_def is_digit_def in_range_def)
  then show ?thesis using address_is_read_back [of "''https''" "''Console.example''" "Some 8443" "''/users''"] by simp
qed

definition console_request :: BoundaryRequest where
  "console_request = \<lparr>bq_method = ''POST'', bq_path = ''/users'', bq_base_url = address ''https'' ''a.example'' (Some 443) ''/'',
     bq_https = True, bq_fetch_site = [], bq_origin = Some (address ''https'' ''A.example'' None []), bq_referer = None\<rparr>"

theorem same_origin_is_accepted_witness: "\<not> cross_site console_request"
proof (rule same_origin_is_accepted)
  show "''https'' \<in> {''http'', ''https''}" "''a.example'' \<noteq> []" by simp_all
  show "list_all host_char ''a.example''" "list_all host_char ''A.example''"
    by (simp_all add: host_char_def is_alnum_def is_lower_def is_upper_def is_digit_def in_range_def)
  show "lower ''A.example'' = lower ''a.example''" by code_simp
  show "bq_origin console_request = Some (address ''https'' ''A.example'' None [])"
    "bq_base_url console_request = address ''https'' ''a.example'' (Some 443) ''/''" by (simp_all add: console_request_def)
  show "lower (bq_fetch_site console_request) \<noteq> ''cross-site''" by (simp add: console_request_def lower_def)
qed (simp_all add: default_port_def)


end
