(* ===== verification/Governance.thy ===== *)
theory Governance
  imports Background
begin

text \<open>
  Lifecycle policies and access reviews, \<open>src/na_sso/governance.py\<close>: the policy of an account
  (owner, reason, start, end, inactivity), the pass that applies the policies that are due, the reviews it
  opens for inactive accounts, and the reviews that operators preview, open and decide item by item.  The
  sleeping loop of the worker is left out; \<open>governance_tick\<close> is its body.
\<close>

section \<open>Rows\<close>

definition get_policy :: "id \<Rightarrow> db \<Rightarrow> AccountLifecyclePolicy option" where
  "get_policy k d = rows_get lp_user_id k (policies d)"
definition upd_policy :: "id \<Rightarrow> (AccountLifecyclePolicy \<Rightarrow> AccountLifecyclePolicy) \<Rightarrow> db \<Rightarrow> db" where
  "upd_policy k f d = d\<lparr>policies := rows_upd lp_user_id k f (policies d)\<rparr>"
definition get_review :: "uuid \<Rightarrow> db \<Rightarrow> AccessReview option" where
  "get_review k d = rows_get ar_id k (reviews d)"
definition upd_review :: "uuid \<Rightarrow> (AccessReview \<Rightarrow> AccessReview) \<Rightarrow> db \<Rightarrow> db" where
  "upd_review k f d = d\<lparr>reviews := rows_upd ar_id k f (reviews d)\<rparr>"
definition get_item :: "id \<Rightarrow> db \<Rightarrow> AccessReviewItem option" where
  "get_item k d = rows_get ri_id k (review_items d)"
definition upd_item :: "id \<Rightarrow> (AccessReviewItem \<Rightarrow> AccessReviewItem) \<Rightarrow> db \<Rightarrow> db" where
  "upd_item k f d = d\<lparr>review_items := rows_upd ri_id k f (review_items d)\<rparr>"

interpretation policy_table: keyed_rows get_policy upd_policy lp_user_id
  by (rule keyed_rowsI [where rows = policies]) (simp_all add: get_policy_def upd_policy_def)
interpretation review_table: keyed_rows get_review upd_review ar_id
  by (rule keyed_rowsI [where rows = reviews]) (simp_all add: get_review_def upd_review_def)
interpretation item_table: keyed_rows get_item upd_item ri_id
  by (rule keyed_rowsI [where rows = review_items]) (simp_all add: get_item_def upd_item_def)

definition automation_policy :: "Env \<Rightarrow> LifecycleAutomationPolicy" where
  "automation_policy e = fc_lifecycle_automation_policy (file_config e)"

section \<open>Dates and texts\<close>

text \<open>The proleptic Gregorian date of a number of days since 1970-01-01, as \<open>datetime.date()\<close> reads it.\<close>

definition civil_date :: "int \<Rightarrow> int \<times> int \<times> int" where
  "civil_date n =
    (let z = n + 719468; era = z div 146097; doe = z mod 146097;
         yoe = (doe - doe div 1460 + doe div 36524 - doe div 146096) div 365;
         doy = doe - (365 * yoe + yoe div 4 - yoe div 100);
         mp = (5 * doy + 2) div 153;
         m = (if mp < 10 then mp + 3 else mp - 9)
     in (yoe + era * 400 + (if m \<le> 2 then 1 else 0), m, doy - (153 * mp + 2) div 5 + 1))"

definition padded :: "nat \<Rightarrow> int \<Rightarrow> string" where
  "padded w n = (let s = show_nat (nat n) in replicate (w - length s) (CHR ''0'') @ s)"

definition date_text :: "time \<Rightarrow> string" where
  "date_text t = (case civil_date (t div day) of (y, m, n) \<Rightarrow>
     cat [padded 4 y, ''-'', padded 2 m, ''-'', padded 2 n])"

text \<open>The text of an optional instant is its ISO text with a blank between date and time.\<close>

definition datetime_text :: "Env \<Rightarrow> time option \<Rightarrow> string" where
  "datetime_text e t = (case t of None \<Rightarrow> ''None''
     | Some t \<Rightarrow> map (\<lambda>c. if c = CHR ''T'' then CHR '' '' else c) (isoformat e t))"

definition parse_moment :: "Env \<Rightarrow> string \<Rightarrow> string + time option" where
  "parse_moment e text_value =
    (if strip text_value = [] then Inr None
     else (case parse_datetime e (strip text_value) of
       None \<Rightarrow> Inl ''start and end must use a valid date and time'' | Some t \<Rightarrow> Inr (Some t)))"

definition policy_review_at :: "ManagedUser \<Rightarrow> nat option \<Rightarrow> time option" where
  "policy_review_at u days = (case days of None \<Rightarrow> None
     | Some n \<Rightarrow> Some ((case u_last_authenticated_at u of None \<Rightarrow> u_created_at u | Some t \<Rightarrow> t) + int n * day))"

section \<open>The policy of an account\<close>

definition policy_path :: "id \<Rightarrow> string" where
  "policy_path uid = cat [''/users/'', show_nat uid, ''/lifecycle-policy'']"

definition lifecycle_policy_page :: "Env \<Rightarrow> Request \<Rightarrow> id \<Rightarrow> db \<Rightarrow> Response \<times> db" where
  "lifecycle_policy_page e req uid d = guarded e req MANAGE_USERS (\<lambda>pr d.
    (case get_user uid d of
       None \<Rightarrow> (Redirect ''/users'', d)
     | Some u \<Rightarrow>
        if u_role u \<noteq> ''user'' then (Redirect ''/users'', d)
        else (Shown ''lifecycle_policy.html'' (u_username u #
          (case get_policy uid d of None \<Rightarrow> [] | Some p \<Rightarrow> [lp_owner p, lp_reason p])), d))) d"

record PolicyForm =
  gf_owner :: string
  gf_reason :: string
  gf_starts_at :: string
  gf_ends_at :: string
  gf_temporary :: string
  gf_inactivity_review_days :: int
  gf_end_action :: string
  gf_confirm_delete :: string

definition policy_window :: "Env \<Rightarrow> PolicyForm \<Rightarrow> string + (time option \<times> time option)" where
  "policy_window e f =
    (case parse_moment e (gf_starts_at f) of
       Inl err \<Rightarrow> Inl err
     | Inr start \<Rightarrow>
        (case parse_moment e (gf_ends_at f) of
           Inl err \<Rightarrow> Inl err
         | Inr end_at \<Rightarrow>
            let owner = strip (gf_owner f); reason = strip (gf_reason f); days = gf_inactivity_review_days f in
            if owner = [] \<or> length owner > 100 then Inl ''owner is required and must be at most 100 characters''
            else if reason = [] \<or> length reason > 1000 then
              Inl ''access reason is required and must be at most 1,000 characters''
            else if (case (start, end_at) of (Some s, Some t) \<Rightarrow> t \<le> s | _ \<Rightarrow> False) then Inl ''end must be after start''
            else if gf_temporary f = ''yes'' \<and> end_at = None then Inl ''temporary access requires an end date''
            else if days \<noteq> 0 \<and> \<not> (1 \<le> days \<and> days \<le> 3650) then
              Inl (cat [''inactivity review must be 1'', [CHR 0xE2, CHR 0x80, CHR 0x93], ''3,650 days''])
            else if gf_end_action f \<notin> {''disable'', ''delete''} then Inl ''end action must be disable or delete''
            else if gf_end_action f = ''delete'' \<and> gf_confirm_delete f \<noteq> ''yes'' then
              Inl ''confirm scheduled remote deletion''
            else Inr (start, end_at)))"

definition is_future :: "Env \<Rightarrow> time option \<Rightarrow> bool" where
  "is_future e t = (case t of None \<Rightarrow> False | Some s \<Rightarrow> s > now e)"

definition saved_policy ::
  "Env \<Rightarrow> ManagedUser \<Rightarrow> PolicyForm \<Rightarrow> time option \<Rightarrow> time option \<Rightarrow> string
     \<Rightarrow> AccountLifecyclePolicy option \<Rightarrow> AccountLifecyclePolicy" where
  "saved_policy e u f start end_at actor old =
    (let days = (if gf_inactivity_review_days f = 0 then None else Some (nat (gf_inactivity_review_days f))) in
     \<lparr>lp_user_id = u_id u, lp_owner = strip (gf_owner f), lp_reason = strip (gf_reason f),
      lp_starts_at = start, lp_ends_at = end_at, lp_temporary = (gf_temporary f = ''yes''),
      lp_inactivity_review_days = days, lp_end_action = gf_end_action f,
      lp_start_applied_at = (if is_future e start then None
        else (case Option.bind old lp_start_applied_at of None \<Rightarrow> Some (now e) | Some t \<Rightarrow> Some t)),
      lp_end_applied_at = None, lp_last_reviewed_at = Option.bind old lp_last_reviewed_at,
      lp_next_review_at = policy_review_at u days, lp_updated_by = actor\<rparr>)"

definition put_policy :: "AccountLifecyclePolicy \<Rightarrow> db \<Rightarrow> db" where
  "put_policy p d = (case get_policy (lp_user_id p) d of
     None \<Rightarrow> d\<lparr>policies := policies d @ [p]\<rparr> | Some _ \<Rightarrow> upd_policy (lp_user_id p) (\<lambda>_. p) d)"

text \<open>An account whose start is in the future is disabled until then.\<close>

definition hold_account ::
  "Env \<Rightarrow> ManagedUser \<Rightarrow> time option \<Rightarrow> string \<Rightarrow> db \<Rightarrow> string + (uuid option \<times> db)" where
  "hold_account e u start actor d =
    (if is_future e start \<and> u_status u \<noteq> US_DISABLED then
       (case request_operation e (u_id u) DISABLE actor None d of
          (Inl err, _) \<Rightarrow> Inl err
        | (Inr i, d1) \<Rightarrow> Inr (Some i, upd_user (u_id u) (\<lambda>u. u\<lparr>u_status := US_DISABLED\<rparr>) d1))
     else Inr (None, d))"

definition lifecycle_policy_save :: "Env \<Rightarrow> Request \<Rightarrow> id \<Rightarrow> PolicyForm \<Rightarrow> db \<Rightarrow> answer" where
  "lifecycle_policy_save e req uid f d = user_guarded e req (\<lambda>pr.
    case policy_window e f of
      Inl err \<Rightarrow> (redirect_with_feedback (policy_path uid) ''Lifecycle policy rejected'' err ''danger'', [], d)
    | Inr (start, end_at) \<Rightarrow>
       (case get_user uid d of
          None \<Rightarrow> (Redirect ''/users'', [], d)
        | Some u \<Rightarrow>
           if u_role u \<noteq> ''user'' \<or> u_desired_action u = DA_DELETE then (Redirect ''/users'', [], d)
           else
             (let p = saved_policy e u f start end_at (pr_username pr) (get_policy uid d) in
              case hold_account e u start (pr_username pr) (put_policy p d) of
                Inl err \<Rightarrow> (redirect_with_feedback (policy_path uid) ''Lifecycle policy blocked'' err ''danger'', [], d)
              | Inr (i, d1) \<Rightarrow>
                 (redirect_with_feedback (policy_path uid) ''Lifecycle policy saved''
                    ''Ownership, timing, inactivity review, and the scheduled end action are now audited.'' ''success'',
                  (case i of None \<Rightarrow> []
                   | Some i \<Rightarrow> [\<lparr>tk_user = uid, tk_action = None, tk_target = None, tk_actor = pr_username pr,
                       tk_operation = Some i\<rparr>]),
                  record_audit e (pr_username pr) ''lifecycle_policy.updated'' (u_username u)
                    (cat [''owner='', lp_owner p, ''; temporary='', if lp_temporary p then ''True'' else ''False'',
                      ''; end_action='', gf_end_action f, ''; inactivity_days='',
                      case lp_inactivity_review_days p of None \<Rightarrow> ''disabled'' | Some n \<Rightarrow> show_nat n]) i d1)))) d"

section \<open>The reviews of inactive accounts\<close>

definition review_is_due :: "Env \<Rightarrow> AccountLifecyclePolicy \<Rightarrow> bool" where
  "review_is_due e p \<longleftrightarrow> lp_inactivity_review_days p \<noteq> None \<and>
     (case lp_next_review_at p of None \<Rightarrow> False | Some t \<Rightarrow> t \<le> now e)"

definition no_next_review :: "id \<Rightarrow> db \<Rightarrow> db" where
  "no_next_review uid d = upd_policy uid (\<lambda>p. p\<lparr>lp_next_review_at := None\<rparr>) d"

text \<open>A new review; its number and its approval token are drawn one after the other.\<close>

definition add_review ::
  "Env \<Rightarrow> string \<Rightarrow> string \<Rightarrow> string option \<Rightarrow> string \<Rightarrow> time \<Rightarrow> string \<Rightarrow> time option \<Rightarrow> db \<Rightarrow> db" where
  "add_review e name source source_key status due actor opened d =
    (next_tick (next_tick d))\<lparr>reviews := reviews d @
      [\<lparr>ar_id = uuid4 d, ar_name = name, ar_source = source, ar_source_key = source_key, ar_status = status,
        ar_approval_token = uuid4 (next_tick d), ar_due_at = due, ar_created_by = actor, ar_created_at = now e,
        ar_opened_at = opened, ar_completed_at = None\<rparr>]\<rparr>"

definition add_item :: "uuid \<Rightarrow> ManagedUser \<Rightarrow> string \<Rightarrow> string \<Rightarrow> db \<Rightarrow> db" where
  "add_item rid u owner reason d = d\<lparr>review_items := review_items d @
     [\<lparr>ri_id = next_id ri_id (review_items d), ri_review_id = rid, ri_user_id = u_id u, ri_username = u_username u,
       ri_owner = owner, ri_reason = reason, ri_decision = ''pending'', ri_attestation = [], ri_reviewer = None,
       ri_decided_at = None, ri_reminded_at = None, ri_operation_id = None\<rparr>]\<rparr>"

definition source_key :: "id \<Rightarrow> time \<Rightarrow> string" where
  "source_key uid t = cat [''inactivity:'', show_nat uid, '':'', date_text t]"

definition inactivity_review :: "Env \<Rightarrow> AccountLifecyclePolicy \<Rightarrow> nat \<times> db \<Rightarrow> nat \<times> db" where
  "inactivity_review e p s =
    (let (created, d) = s; uid = lp_user_id p; key = source_key uid (the (lp_next_review_at p)) in
     case get_user uid d of
       None \<Rightarrow> (created, no_next_review uid d)
     | Some u \<Rightarrow>
        if u_desired_action u = DA_DELETE then (created, no_next_review uid d)
        else if list_ex (\<lambda>r. ar_source_key r = Some key) (reviews d) then (created, no_next_review uid d)
        else
          (Suc created,
           record_audit e ''system'' ''access_review.inactivity_opened'' (u_username u)
             (cat [''review='', show_nat (uuid4 d), ''; last_authenticated='',
               datetime_text e (u_last_authenticated_at u)]) None
             (no_next_review uid
               (add_item (uuid4 d) u (lp_owner p) (lp_reason p)
                 (add_review e (cat [''Inactivity review '', em_dash, '' '', u_username u]) ''inactivity'' (Some key)
                   ''open'' (now e + int (la_reminder_days_before_due (automation_policy e)) * day) ''system''
                   (Some (now e)) d)))))"

definition create_inactivity_reviews :: "Env \<Rightarrow> db \<Rightarrow> nat \<times> db" where
  "create_inactivity_reviews e d = fold (inactivity_review e) (filter (review_is_due e) (policies d)) (0, d)"

section \<open>The policies that are due\<close>

definition start_is_due :: "Env \<Rightarrow> AccountLifecyclePolicy \<Rightarrow> ManagedUser \<Rightarrow> bool" where
  "start_is_due e p u \<longleftrightarrow> (case lp_starts_at p of None \<Rightarrow> False | Some t \<Rightarrow> t \<le> now e) \<and>
     lp_start_applied_at p = None \<and> u_desired_action u \<noteq> DA_DELETE"

definition end_is_due :: "Env \<Rightarrow> AccountLifecyclePolicy \<Rightarrow> bool" where
  "end_is_due e p \<longleftrightarrow> (case lp_ends_at p of None \<Rightarrow> False | Some t \<Rightarrow> t \<le> now e) \<and> lp_end_applied_at p = None"

definition scheduled_task :: "id \<Rightarrow> DesiredAction option \<Rightarrow> uuid \<Rightarrow> task" where
  "scheduled_task uid action i = \<lparr>tk_user = uid, tk_action = action, tk_target = None,
     tk_actor = ''lifecycle-scheduler'', tk_operation = Some i\<rparr>"

text \<open>The first half of a policy; a conflict leaves the whole policy to a later pass.\<close>

definition apply_start :: "Env \<Rightarrow> AccountLifecyclePolicy \<Rightarrow> ManagedUser \<Rightarrow> db \<Rightarrow> (task list \<times> db) + db" where
  "apply_start e p u d =
    (if \<not> start_is_due e p u then Inl ([], d)
     else (case request_operation e (u_id u) ENABLE ''lifecycle-scheduler'' None d of
        (Inl _, d1) \<Rightarrow> Inr d1
      | (Inr i, d1) \<Rightarrow>
          Inl ([scheduled_task (u_id u) None i],
            record_audit e ''lifecycle-scheduler'' ''lifecycle_policy.started'' (u_username u) [] (Some i)
              (upd_policy (lp_user_id p) (\<lambda>p. p\<lparr>lp_start_applied_at := Some (now e)\<rparr>)
                (upd_user (u_id u) (\<lambda>u. u\<lparr>u_status := US_ACTIVE\<rparr>) d1)))))"

definition ended_account :: "Env \<Rightarrow> AccountLifecyclePolicy \<Rightarrow> ManagedUser \<Rightarrow> ManagedUser" where
  "ended_account e p u =
    (if lp_end_action p = ''delete'' then u\<lparr>u_desired_action := DA_DELETE,
       u_deletion_requested_at := Some (now e), u_deleted_at := None\<rparr>
     else u\<lparr>u_status := US_DISABLED\<rparr>)"

definition apply_finish :: "Env \<Rightarrow> AccountLifecyclePolicy \<Rightarrow> ManagedUser \<Rightarrow> db \<Rightarrow> task list \<times> db" where
  "apply_finish e p u d =
    (if \<not> end_is_due e p then ([], d)
     else (case request_operation e (u_id u) (if lp_end_action p = ''delete'' then DELETE else DISABLE)
               ''lifecycle-scheduler'' None d of
        (Inl _, d1) \<Rightarrow> ([], d1)
      | (Inr i, d1) \<Rightarrow>
          ([scheduled_task (u_id u) (if lp_end_action p = ''delete'' then Some DA_DELETE else None) i],
            record_audit e ''lifecycle-scheduler'' (cat [''lifecycle_policy.'', lp_end_action p, ''d'']) (u_username u)
              (cat [''scheduled end='', isoformat e (the (lp_ends_at p))]) (Some i)
              (upd_policy (lp_user_id p) (\<lambda>p. p\<lparr>lp_end_applied_at := Some (now e)\<rparr>)
                (upd_user (u_id u) (ended_account e p) d1)))))"

definition apply_policy :: "Env \<Rightarrow> AccountLifecyclePolicy \<Rightarrow> task list \<times> db \<Rightarrow> task list \<times> db" where
  "apply_policy e p s =
    (let (queued, d) = s in
     case get_user (lp_user_id p) d of
       None \<Rightarrow> (queued, d)
     | Some u \<Rightarrow>
        if u_role u \<noteq> ''user'' then (queued, d)
        else (case apply_start e p u d of
           Inr d1 \<Rightarrow> (queued, d1)
         | Inl (started, d1) \<Rightarrow>
            (case apply_finish e p u d1 of (ended, d2) \<Rightarrow> (queued @ started @ ended, d2))))"

text \<open>Every change is committed before the first run; the runs follow each other, and a run that raises ends
  the pass and, as nothing catches it, the worker.\<close>

definition due_work :: "Env \<Rightarrow> db \<Rightarrow> task list \<times> db" where
  "due_work e d = fold (apply_policy e) (policies d) ([], d)"

definition apply_lifecycle_automation :: "Env \<Rightarrow> db \<Rightarrow> nat outcome" where
  "apply_lifecycle_automation e d =
    (let (queued, d1) = due_work e d in
     case run_tasks e queued d1 of
       Raised err d2 \<Rightarrow> Raised err d2
     | Done _ d2 \<Rightarrow> (let (created, d3) = create_inactivity_reviews e d2 in Done (length queued + created) d3))"

section \<open>Reminders\<close>

definition remind_item :: "Env \<Rightarrow> AccessReview \<Rightarrow> string \<Rightarrow> AccessReviewItem \<Rightarrow> db \<Rightarrow> db" where
  "remind_item e r actor i d =
    record_audit e actor ''access_review.reminded'' (ri_username i)
      (cat [''review='', show_nat (ar_id r), ''; due='', isoformat e (ar_due_at r)]) None
      (notify e ''access_review.reminder''
        \<lparr>ev_actor = actor, ev_subject = ri_username i,
         ev_dedupe_key = cat [show_nat (ar_id r), '':'', show_nat (ri_id i), '':'', date_text (now e)],
         ev_operation_id = None, ev_target_id = None, ev_outcome = Some ''pending''\<rparr>
        (upd_item (ri_id i) (\<lambda>i. i\<lparr>ri_reminded_at := Some (now e)\<rparr>) d))"

definition pending_items :: "uuid \<Rightarrow> db \<Rightarrow> AccessReviewItem list" where
  "pending_items rid d = filter (\<lambda>i. ri_review_id i = rid \<and> ri_decision i = ''pending'') (review_items d)"

definition send_review_reminders :: "Env \<Rightarrow> uuid \<Rightarrow> string \<Rightarrow> db \<Rightarrow> nat \<times> db" where
  "send_review_reminders e rid actor d =
    (case get_review rid d of
       None \<Rightarrow> (0, d)
     | Some r \<Rightarrow>
        if ar_status r \<noteq> ''open'' then (0, d)
        else (length (pending_items rid d), fold (remind_item e r actor) (pending_items rid d) d))"

definition reminder_due :: "Env \<Rightarrow> db \<Rightarrow> AccessReview \<Rightarrow> bool" where
  "reminder_due e d r \<longleftrightarrow> ar_status r = ''open'' \<and>
     ar_due_at r \<le> now e + int (la_reminder_days_before_due (automation_policy e)) * day \<and>
     list_ex (\<lambda>i. ri_reminded_at i = None) (pending_items (ar_id r) d)"

definition governance_tick :: "Env \<Rightarrow> db \<Rightarrow> unit outcome" where
  "governance_tick e d =
    (case apply_lifecycle_automation e d of
       Raised err d1 \<Rightarrow> Raised err d1
     | Done _ d1 \<Rightarrow> Done () (fold (\<lambda>rid d. snd (send_review_reminders e rid ''review-scheduler'' d))
         (map ar_id (filter (reminder_due e d1) (reviews d1))) d1))"

section \<open>The reviews of the console\<close>

definition review_path :: "uuid \<Rightarrow> string" where
  "review_path rid = cat [''/access-reviews/'', show_nat rid]"

definition reviewable :: "ManagedUser \<Rightarrow> bool" where
  "reviewable u \<longleftrightarrow> u_role u = ''user'' \<and> u_desired_action u \<noteq> DA_DELETE"

definition access_reviews_page :: "Env \<Rightarrow> Request \<Rightarrow> db \<Rightarrow> Response \<times> db" where
  "access_reviews_page e req d = guarded e req MANAGE_USERS (\<lambda>pr d.
    (Shown ''access_reviews.html''
       (map ar_name (take 50 (sort_key (\<lambda>r. - ar_created_at r) (reviews d)))
        @ map u_username (take (la_max_review_accounts (automation_policy e))
            (sort_key u_username (filter reviewable (users d))))), d)) d"

definition access_review_detail :: "Env \<Rightarrow> Request \<Rightarrow> uuid \<Rightarrow> db \<Rightarrow> Response \<times> db" where
  "access_review_detail e req rid d = guarded e req MANAGE_USERS (\<lambda>pr d.
    (case get_review rid d of
       None \<Rightarrow> (Redirect ''/access-reviews'', d)
     | Some r \<Rightarrow> (Shown ''access_review_detail.html''
         (ar_name r # map ri_username (filter (\<lambda>i. ri_review_id i = rid) (review_items d))), d))) d"

definition review_rejected :: "string \<Rightarrow> Response" where
  "review_rejected message =
     redirect_with_feedback ''/access-reviews'' ''Review preview rejected'' message ''danger''"

definition review_users :: "Env \<Rightarrow> id list \<Rightarrow> db \<Rightarrow> ManagedUser list" where
  "review_users e user_ids d =
    (let selected = take (la_max_review_accounts (automation_policy e)) (rev (remdups (rev user_ids))) in
     sort_key u_username (filter (\<lambda>u. u_id u \<in> set selected \<and> reviewable u) (users d)))"

definition preview_item :: "uuid \<Rightarrow> ManagedUser \<Rightarrow> db \<Rightarrow> db" where
  "preview_item rid u d =
    (case get_policy (u_id u) d of
       None \<Rightarrow> add_item rid u ''Unassigned'' ''No lifecycle reason recorded'' d
     | Some p \<Rightarrow> add_item rid u (lp_owner p) (lp_reason p) d)"

definition access_review_preview ::
  "Env \<Rightarrow> Request \<Rightarrow> string \<Rightarrow> string \<Rightarrow> id list \<Rightarrow> db \<Rightarrow> Response \<times> db" where
  "access_review_preview e req name due_at user_ids d = guarded e req MANAGE_USERS (\<lambda>pr d.
    (case parse_moment e due_at of
       Inl err \<Rightarrow> (review_rejected err, d)
     | Inr due \<Rightarrow>
        if \<not> is_future e due then (review_rejected ''review due date must be in the future'', d)
        else if strip name = [] \<or> length (strip name) > 120 then
          (review_rejected ''review name is required and must be at most 120 characters'', d)
        else
          (let us = review_users e user_ids d; rid = uuid4 d in
           if us = [] then (review_rejected ''Select at least one available managed user.'', d)
           else
             (Redirect (review_path rid),
              record_audit e (pr_username pr) ''access_review.previewed'' (strip name)
                (cat [''accounts='', show_nat (length us), ''; due='', isoformat e (the due)]) None
                (fold (preview_item rid) us
                  (add_review e (strip name) ''manual'' None ''draft'' (the due) (pr_username pr) None d)))))) d"

definition opened_response :: "uuid \<Rightarrow> Response" where
  "opened_response rid = redirect_with_feedback (review_path rid) ''Review opened''
     ''Reviewers can now record attested retain, disable, or delete decisions.'' ''success''"

definition access_review_open :: "Env \<Rightarrow> Request \<Rightarrow> uuid \<Rightarrow> uuid \<Rightarrow> db \<Rightarrow> Response \<times> db" where
  "access_review_open e req rid token d = guarded e req MANAGE_USERS (\<lambda>pr d.
    (case get_review rid d of
       None \<Rightarrow> (redirect_with_feedback ''/access-reviews'' ''Review approval rejected''
                  ''The saved preview token is invalid.'' ''danger'', d)
     | Some r \<Rightarrow>
        if ar_approval_token r \<noteq> token then
          (redirect_with_feedback ''/access-reviews'' ''Review approval rejected''
             ''The saved preview token is invalid.'' ''danger'', d)
        else if ar_status r \<noteq> ''draft'' then (opened_response rid, d)
        else
          (opened_response rid,
           record_audit e (pr_username pr) ''access_review.opened'' (ar_name r)
             (cat [''items='', show_nat (length (filter (\<lambda>i. ri_review_id i = rid) (review_items d))),
               ''; due='', isoformat e (ar_due_at r)]) None
             (upd_review rid (\<lambda>r. r\<lparr>ar_status := ''open'', ar_opened_at := Some (now e)\<rparr>) d)))) d"

definition access_review_remind :: "Env \<Rightarrow> Request \<Rightarrow> uuid \<Rightarrow> db \<Rightarrow> Response \<times> db" where
  "access_review_remind e req rid d = guarded e req MANAGE_USERS (\<lambda>pr d.
    (case send_review_reminders e rid (pr_username pr) d of
       (sent, d1) \<Rightarrow> (redirect_with_feedback (review_path rid) ''Reminders recorded''
         (cat [show_nat sent, '' pending reviewer reminder(s) were audited and queued.'']) ''success'', d1))) d"

section \<open>Decisions\<close>

record DecisionForm =
  df_decision :: string
  df_attestation :: string
  df_confirm_delete :: string

text \<open>What the decision does to the account: nothing, or a requested operation and its run.\<close>

definition decided_account :: "Env \<Rightarrow> string \<Rightarrow> ManagedUser \<Rightarrow> ManagedUser" where
  "decided_account e choice u =
    (if choice = ''delete'' then u\<lparr>u_desired_action := DA_DELETE, u_deletion_requested_at := Some (now e),
       u_deleted_at := None\<rparr>
     else u\<lparr>u_status := US_DISABLED\<rparr>)"

definition act_on_account ::
  "Env \<Rightarrow> id \<Rightarrow> string \<Rightarrow> string \<Rightarrow> db \<Rightarrow> string + (uuid option \<times> task list \<times> db)" where
  "act_on_account e uid choice actor d =
    (case get_user uid d of
       None \<Rightarrow> Inr (None, [], d)
     | Some u \<Rightarrow>
        if choice \<notin> {''disable'', ''delete''} \<or> u_desired_action u = DA_DELETE then Inr (None, [], d)
        else (case request_operation e uid (if choice = ''delete'' then DELETE else DISABLE) actor None d of
           (Inl err, _) \<Rightarrow> Inl err
         | (Inr i, d1) \<Rightarrow>
             Inr (Some i,
               [\<lparr>tk_user = uid, tk_action = if choice = ''delete'' then Some DA_DELETE else None, tk_target = None,
                 tk_actor = actor, tk_operation = Some i\<rparr>],
               upd_user uid (decided_account e choice) d1)))"

definition reviewed_policy :: "Env \<Rightarrow> string \<Rightarrow> AccountLifecyclePolicy \<Rightarrow> AccountLifecyclePolicy" where
  "reviewed_policy e choice p =
    (let interval = (case lp_inactivity_review_days p of
           None \<Rightarrow> la_default_review_interval_days (automation_policy e)
         | Some n \<Rightarrow> if n = 0 then la_default_review_interval_days (automation_policy e) else n) in
     p\<lparr>lp_last_reviewed_at := Some (now e),
       lp_next_review_at := (if choice = ''retain'' then Some (now e + int interval * day) else None)\<rparr>)"

definition decided_item :: "Env \<Rightarrow> DecisionForm \<Rightarrow> string \<Rightarrow> uuid option \<Rightarrow> AccessReviewItem \<Rightarrow> AccessReviewItem" where
  "decided_item e f actor i item =
    item\<lparr>ri_decision := df_decision f, ri_attestation := take 1000 (strip (df_attestation f)),
      ri_reviewer := Some actor, ri_decided_at := Some (now e), ri_operation_id := i\<rparr>"

text \<open>The review is complete when no other item of it is pending.\<close>

definition close_review :: "Env \<Rightarrow> uuid \<Rightarrow> id \<Rightarrow> db \<Rightarrow> db" where
  "close_review e rid item_id d =
    (if list_ex (\<lambda>i. ri_id i \<noteq> item_id) (pending_items rid d) then d
     else upd_review rid (\<lambda>r. r\<lparr>ar_status := ''completed'', ar_completed_at := Some (now e)\<rparr>) d)"

definition record_decision ::
  "Env \<Rightarrow> AccessReview \<Rightarrow> AccessReviewItem \<Rightarrow> DecisionForm \<Rightarrow> string \<Rightarrow> uuid option \<Rightarrow> db \<Rightarrow> db" where
  "record_decision e r item f actor i d =
    close_review e (ar_id r) (ri_id item)
      (record_audit e actor (cat [''access_review.'', df_decision f]) (ri_username item)
        (cat [''review='', show_nat (ar_id r), ''; attested=yes'']) i
        (upd_item (ri_id item) (decided_item e f actor i)
          (upd_policy (ri_user_id item) (reviewed_policy e (df_decision f)) d)))"

definition decision_allowed :: "AccessReview option \<Rightarrow> AccessReviewItem option \<Rightarrow> bool" where
  "decision_allowed r item \<longleftrightarrow>
    (case (r, item) of (Some r, Some i) \<Rightarrow> ri_review_id i = ar_id r \<and> ar_status r = ''open'' | _ \<Rightarrow> False)"

definition access_review_decision :: "Env \<Rightarrow> Request \<Rightarrow> uuid \<Rightarrow> id \<Rightarrow> DecisionForm \<Rightarrow> db \<Rightarrow> answer" where
  "access_review_decision e req rid item_id f d = user_guarded e req (\<lambda>pr.
    if df_decision f \<notin> {''retain'', ''disable'', ''delete''} \<or> length (strip (df_attestation f)) < 10 then
      (redirect_with_feedback (review_path rid) ''Decision rejected''
        ''Choose retain, disable, or delete and provide an attestation of at least 10 characters.'' ''danger'', [], d)
    else if df_decision f = ''delete'' \<and> df_confirm_delete f \<noteq> ''yes'' then
      (redirect_with_feedback (review_path rid) ''Deletion confirmation required''
        ''Confirm the attested remote account deletion decision.'' ''danger'', [], d)
    else if \<not> decision_allowed (get_review rid d) (get_item item_id d) then (Redirect ''/access-reviews'', [], d)
    else
      (let r = the (get_review rid d); item = the (get_item item_id d) in
       if ri_decision item \<noteq> ''pending'' then
         (redirect_with_feedback (review_path rid) ''Decision already recorded''
           ''The existing attestation and action were not repeated.'' ''success'', [], d)
       else (case act_on_account e (ri_user_id item) (df_decision f) (pr_username pr) d of
          Inl err \<Rightarrow> (redirect_with_feedback (review_path rid) ''Decision blocked'' err ''danger'', [], d)
        | Inr (i, ts, d1) \<Rightarrow>
            (redirect_with_feedback (review_path rid) ''Decision recorded''
               (cat [''The '', df_decision f, '' attestation is audited and any lifecycle action is correlated.''])
               ''success'',
             ts, record_decision e r item f (pr_username pr) i d1)))) d"

section \<open>A window missed as a whole\<close>

lemma request_deletion_over:
  assumes "get_user uid d = Some u" "u_active_operation_id u = Some i" "get_operation i d = Some oper"
    "\<not> terminal (op_status oper)" "op_command oper \<noteq> DELETE" "op_id oper = i"
  shows "request_operation e uid DELETE a t d = (Inr (tick d), snd (create_operation e u DELETE a t (Some i)
    (finish_with e uid i CANCELLED (op_completed_targets oper) (op_failed_targets oper)
      (cat [''superseded by '', lifecycle_command_value DELETE]) d)))"
proof -
  have "tick (finish_with e uid i CANCELLED m n s d) = tick d" for m n s by (simp add: finish_with_def)
  then show ?thesis
    using assms by (simp add: request_operation_def get_active_operation_def decide_active Let_def create_operation_def uuid4_def)
qed

lemma operations_create_missing: "operations (create_missing_states e uid av d) = operations d"
  unfolding create_missing_states_def
  by (auto intro!: fold_same [where h = operations] split: option.splits)

text \<open>A run that is given a finished operation raises before it does anything.\<close>

lemma finished_operation_raises:
  assumes "get_user uid d = Some u" "\<not> is_root u" "get_operation i d = Some oper" "op_user_id oper = Some uid"
    "\<not> resumable (op_status oper)"
  shows "sync_user e uid act None a (Some i) d = Raised ''OperationConflict'' d"
proof -
  let ?d1 = "create_missing_states e uid (get_connectors e d) d"
  have i: "op_id oper = i" using assms(3) by (rule operation_table.get_key)
  have uid: "u_id u = uid" using assms(1) by (rule user_table.get_key)
  have d1: "get_operation i ?d1 = Some oper"
    using assms(3) by (simp add: get_operation_def operations_create_missing)
  have fold: "get_operation i (fold (\<lambda>s. upd_state (ss_id s) (\<lambda>s. s\<lparr>ss_operation_id := Some i\<rparr>)) ss x) = get_operation i x" for ss x
    by (rule fold_same) simp
  have queued: "op_status oper \<noteq> QUEUED" using assms(5) by (auto simp: resumable_def)
  show ?thesis
    using assms i uid d1 queued by (simp add: sync_user_def Let_def choose_operation_def run_operation_def begin_run_def
        fold resume_operation_def)
qed

lemma get_operation_added:
  "get_operation i (add_operation x d) = (case get_operation i d of Some y \<Rightarrow> Some y
     | None \<Rightarrow> if op_id x = i then Some x else None)"
  by (simp add: get_operation_def add_operation_def next_tick_def rows_get_append rows_get_Cons split: option.split)

lemma added_frame [simp]:
  "get_user i (add_operation x d) = get_user i d" "sync_states (add_operation x d) = sync_states d"
  "tick (add_operation x d) = Suc (tick d)" "policies (add_operation x d) = policies d"
  by (simp_all add: get_user_def add_operation_def next_tick_def)

lemma policy_frame [simp]:
  "get_user i (upd_policy j f d) = get_user i d" "get_operation k (upd_policy j f d) = get_operation k d"
  "sync_states (upd_policy j f d) = sync_states d" "tick (upd_policy j f d) = tick d"
  "operations (upd_policy j f d) = operations d" "users (upd_policy j f d) = users d"
  by (simp_all add: get_user_def get_operation_def upd_policy_def)

lemma governance_frame [simp]:
  "get_user i (record_audit e a ac x det opid d) = get_user i d"
  "get_operation i (record_audit e a ac x det opid d) = get_operation i d"
  "policies (record_audit e a ac x det opid d) = policies d" "policies (upd_user j f d) = policies d"
  "policies (upd_operation k g d) = policies d"
  "policies (upd_policy m h d) = rows_upd lp_user_id m h (policies d)"
  by (simp_all add: get_user_def get_operation_def record_audit_def upd_user_def upd_operation_def upd_policy_def)

lemma review_frame [simp]:
  "get_user i (upd_item j f d) = get_user i d" "get_user i (upd_review k g d) = get_user i d"
  "users (upd_item j f d) = users d" "users (upd_review k g d) = users d"
  "sync_states (upd_item j f d) = sync_states d" "sync_states (upd_review k g d) = sync_states d"
  "tick (upd_item j f d) = tick d" "tick (upd_review k g d) = tick d"
  "policies (upd_item j f d) = policies d" "policies (upd_review k g d) = policies d"
  "reviews (upd_item j f d) = reviews d" "review_items (upd_review k g d) = review_items d"
  "reviews (upd_policy m h d) = reviews d" "review_items (upd_policy m h d) = review_items d"
  "reviews (upd_user n u d) = reviews d" "review_items (upd_user n u d) = review_items d"
  "reviews (record_audit e a ac x det opid d) = reviews d" "review_items (record_audit e a ac x det opid d) = review_items d"
  by (simp_all add: get_user_def record_audit_def upd_user_def upd_item_def upd_review_def upd_policy_def)

lemma missed_window_work:
  assumes "operations_ok d" "policies d = [p]" and u: "get_user (lp_user_id p) d = Some u"
    and "u_role u = ''user''" "u_desired_action u \<noteq> DA_DELETE" "u_active_operation_id u = None"
    and window: "lp_starts_at p = Some s" "s \<le> now e" "lp_ends_at p = Some t" "t \<le> now e"
      "lp_start_applied_at p = None" "lp_end_applied_at p = None" "lp_end_action p = ''delete''"
  shows "\<exists>ts d1 v oper. due_work e d = (scheduled_task (u_id u) None (tick d) # ts, d1) \<and>
    get_user (u_id u) d1 = Some v \<and> \<not> is_root v \<and> u_desired_action v = DA_DELETE \<and>
    get_operation (tick d) d1 = Some oper \<and> op_user_id oper = Some (u_id u) \<and> op_status oper = CANCELLED \<and>
    sync_states d1 = sync_states d \<and> policies d1 = [p\<lparr>lp_start_applied_at := Some (now e), lp_end_applied_at := Some (now e)\<rparr>]"
proof -
  let ?uid = "lp_user_id p"
  have uid: "u_id u = ?uid" using u by (rule user_table.get_key)
  have fresh: "get_operation i d = None" if "tick d \<le> i" for i
    using that assms(1) get_operation_iff [OF assms(1)] unfolding operations_ok_def by (cases "get_operation i d") auto
  let ?op = "new_operation e (tick d) (Some ?uid) ENABLE ''lifecycle-scheduler'' (u_username u) None None"
  define d1 where "d1 = upd_user ?uid (\<lambda>u. u\<lparr>u_active_operation_id := Some (tick d)\<rparr>) (add_operation ?op d)"
  have r1: "request_operation e ?uid ENABLE ''lifecycle-scheduler'' None d = (Inr (tick d), d1)"
    using request_idle [OF u assms(6)] by (simp add: create_operation_def uuid4_def uid d1_def Let_def)
  define d2 where "d2 = record_audit e ''lifecycle-scheduler'' ''lifecycle_policy.started'' (u_username u) [] (Some (tick d))
     (upd_policy ?uid (\<lambda>p. p\<lparr>lp_start_applied_at := Some (now e)\<rparr>) (upd_user ?uid (\<lambda>u. u\<lparr>u_status := US_ACTIVE\<rparr>) d1))"
  have start: "apply_start e p u d = Inl ([scheduled_task ?uid None (tick d)], d2)"
    using assms by (simp add: apply_start_def start_is_due_def r1 d2_def uid)
  define v where "v = u\<lparr>u_active_operation_id := Some (tick d), u_status := US_ACTIVE\<rparr>"
  have d2: "get_user ?uid d2 = Some v" "get_operation (tick d) d2 = Some ?op" "tick d2 = Suc (tick d)"
    "sync_states d2 = sync_states d" "policies d2 = [p\<lparr>lp_start_applied_at := Some (now e)\<rparr>]"
    "get_operation (Suc (tick d)) d2 = None"
    using u fresh assms(2)
    by (simp_all add: d2_def d1_def v_def user_table.get_upd get_operation_added new_operation_def rows_upd_def)
  define d3 where "d3 = finish_with e ?uid (tick d) CANCELLED 0 0 (cat [''superseded by '', lifecycle_command_value DELETE]) d2"
  have d3: "get_user ?uid d3 = Some (v\<lparr>u_active_operation_id := None\<rparr>)" "tick d3 = Suc (tick d)"
    "get_operation (tick d) d3 = Some (?op\<lparr>op_status := CANCELLED, op_detail := cat [''superseded by '', lifecycle_command_value DELETE], op_completed_at := Some (now e)\<rparr>)"
    "sync_states d3 = sync_states d" "policies d3 = policies d2"
    using d2 by (simp_all add: d3_def finish_with_def user_table.get_upd operation_table.get_upd v_def new_operation_def)
  define d4 where "d4 = snd (create_operation e v DELETE ''lifecycle-scheduler'' None (Some (tick d)) d3)"
  have r2: "request_operation e ?uid DELETE ''lifecycle-scheduler'' None d2 = (Inr (Suc (tick d)), d4)"
    using request_deletion_over [OF d2(1) _ d2(2)] d2(3)
    by (simp add: v_def new_operation_def terminal_def TERMINAL_OPERATION_STATUSES_def d4_def d3_def)
  have v: "u_id v = ?uid" "u_role v = ''user''" using uid assms(4) by (simp_all add: v_def)
  have d4: "get_user ?uid d4 = Some (v\<lparr>u_active_operation_id := Some (Suc (tick d))\<rparr>)"
    "map_option op_status (get_operation (tick d) d4) = Some CANCELLED"
    "map_option op_user_id (get_operation (tick d) d4) = Some (Some ?uid)"
    "sync_states d4 = sync_states d" "policies d4 = policies d2"
    using d3 v by (simp_all add: d4_def create_operation_def Let_def uuid4_def user_table.get_upd get_operation_added new_operation_def)
  define d5 where "d5 = record_audit e ''lifecycle-scheduler'' (cat [''lifecycle_policy.'', lp_end_action p, ''d'']) (u_username u)
     (cat [''scheduled end='', isoformat e (the (lp_ends_at p))]) (Some (Suc (tick d)))
     (upd_policy ?uid (\<lambda>p. p\<lparr>lp_end_applied_at := Some (now e)\<rparr>) (upd_user ?uid (ended_account e p) d4))"
  have finish: "apply_finish e p u d2 = ([scheduled_task ?uid (Some DA_DELETE) (Suc (tick d))], d5)"
    using window r2 by (simp add: apply_finish_def end_is_due_def uid d5_def)
  have work: "due_work e d = (scheduled_task ?uid None (tick d) # [scheduled_task ?uid (Some DA_DELETE) (Suc (tick d))], d5)"
    using assms(2,4) u start finish by (simp add: due_work_def apply_policy_def)
  obtain oper where oper: "get_operation (tick d) d4 = Some oper" "op_status oper = CANCELLED" "op_user_id oper = Some ?uid"
    using d4(2,3) by auto
  let ?w = "ended_account e p (v\<lparr>u_active_operation_id := Some (Suc (tick d))\<rparr>)"
  have "get_user ?uid d5 = Some ?w" "\<not> is_root ?w" "u_desired_action ?w = DA_DELETE"
    "get_operation (tick d) d5 = Some oper" "sync_states d5 = sync_states d"
    "policies d5 = [p\<lparr>lp_start_applied_at := Some (now e), lp_end_applied_at := Some (now e)\<rparr>]"
    using d4(1,4,5) d2(5) oper(1) window(7) v
    by (simp_all add: d5_def user_table.get_upd ended_account_def is_root_def rows_upd_def)
  then show ?thesis unfolding uid work using oper(2,3) by blast
qed

section \<open>Properties\<close>

text \<open>A lifecycle policy whose start and end are both reached in one pass ends the automation.  The pass requests
  the account's activation and then its deletion, which supersedes the activation, but queues the run of
  the superseded operation first; that run raises, no target state has changed, and although the account is
  marked for deletion and the policy as applied, no later pass runs the deletion.\<close>

theorem missed_window_stops_automation:
  assumes "operations_ok d" "policies d = [p]" "get_user (lp_user_id p) d = Some u"
    and "u_role u = ''user''" "u_desired_action u \<noteq> DA_DELETE" "u_active_operation_id u = None"
    and "lp_starts_at p = Some s" "s \<le> now e" "lp_ends_at p = Some t" "t \<le> now e"
      "lp_start_applied_at p = None" "lp_end_applied_at p = None" "lp_end_action p = ''delete''"
  shows "\<exists>d' v. apply_lifecycle_automation e d = Raised ''OperationConflict'' d' \<and> sync_states d' = sync_states d \<and>
    get_user (u_id u) d' = Some v \<and> u_desired_action v = DA_DELETE \<and> fst (due_work e d') = []"
proof -
  obtain ts d1 v oper where w: "due_work e d = (scheduled_task (u_id u) None (tick d) # ts, d1)"
    "get_user (u_id u) d1 = Some v" "\<not> is_root v" "u_desired_action v = DA_DELETE"
    "get_operation (tick d) d1 = Some oper" "op_user_id oper = Some (u_id u)" "op_status oper = CANCELLED"
    "sync_states d1 = sync_states d"
    "policies d1 = [p\<lparr>lp_start_applied_at := Some (now e), lp_end_applied_at := Some (now e)\<rparr>]"
    using missed_window_work [OF assms] by metis
  have "run_task e (scheduled_task (u_id u) None (tick d)) d1 = Raised ''OperationConflict'' d1"
    using finished_operation_raises [OF w(2,3,5,6)] w(7) by (simp add: run_task_def scheduled_task_def resumable_def)
  then have "apply_lifecycle_automation e d = Raised ''OperationConflict'' d1"
    by (simp add: apply_lifecycle_automation_def w(1))
  moreover have "fst (due_work e d1) = []"
    by (simp add: due_work_def w(9) apply_policy_def apply_start_def start_is_due_def apply_finish_def end_is_due_def
        split: option.split)
  ultimately show ?thesis using w by blast
qed

definition sample_lifecycle_policy :: AccountLifecyclePolicy where
  "sample_lifecycle_policy =
    \<lparr>lp_user_id = 1, lp_owner = ''grace'', lp_reason = ''contract'', lp_starts_at = Some (990 * day),
     lp_ends_at = Some (995 * day), lp_temporary = True, lp_inactivity_review_days = Some 30,
     lp_end_action = ''delete'', lp_start_applied_at = None, lp_end_applied_at = None, lp_last_reviewed_at = None,
     lp_next_review_at = None, lp_updated_by = ''admin''\<rparr>"

definition policy_db :: "ManagedUser \<Rightarrow> db" where
  "policy_db u = sample_db\<lparr>users := [u], policies := [sample_lifecycle_policy]\<rparr>"

theorem missed_window_stops_automation_witness:
  "\<exists>d' v. apply_lifecycle_automation sample_env (policy_db sample_user) = Raised ''OperationConflict'' d' \<and>
     sync_states d' = [sample_state] \<and> get_user 1 d' = Some v \<and> u_desired_action v = DA_DELETE"
proof -
  have "operations_ok (policy_db sample_user)" "policies (policy_db sample_user) = [sample_lifecycle_policy]"
    "get_user (lp_user_id sample_lifecycle_policy) (policy_db sample_user) = Some sample_user"
    "sync_states (policy_db sample_user) = [sample_state]"
    by (simp_all add: operations_ok_def policy_db_def sample_lifecycle_policy_def get_user_def rows_get_def sample_db_def
        empty_db_def sample_user_def)
  moreover have "990 * day \<le> now sample_env" "995 * day \<le> now sample_env" by (simp_all add: sample_env_def day_def second_def)
  ultimately show ?thesis
    using missed_window_stops_automation [of "policy_db sample_user" sample_lifecycle_policy sample_user "990 * day"
        sample_env "995 * day"]
    by (fastforce simp: sample_lifecycle_policy_def sample_user_def)
qed

text \<open>A decision of an access review reaches accounts its reviewer may not manage.  An item that was created when
  the account was a user's stays in the review after the account was promoted; a user operator who decides
  it disables the account, although \<open>_can_manage_subject\<close>, which every request to the
  administration of accounts asks, denies it to the operator.\<close>

theorem review_decision_reaches_operators:
  assumes "permission_guard e req MANAGE_USERS d = Inr pr" "\<not> has_permission (pr_role pr) MANAGE_SECURITY"
    and u: "get_user (ri_user_id item) d = Some u" "u_role u \<noteq> ''user''" "u_desired_action u \<noteq> DA_DELETE"
      "u_active_operation_id u = None"
    and review: "get_review rid d = Some r" "ar_status r = ''open''" "get_item item_id d = Some item"
      "ri_review_id item = rid" "ri_decision item = ''pending''"
    and form: "df_decision f = ''disable''" "10 \<le> length (strip (df_attestation f))"
  shows "\<not> can_manage_subject e req u d \<and>
    (\<exists>v. get_user (ri_user_id item) (db_after (access_review_decision e req rid item_id f d)) = Some v \<and>
      u_role v = u_role u \<and> u_status v = US_DISABLED)"
proof
  have pr: "current_user e req d = Some pr" using permission_guard_InrD(1) [OF assms(1)] .
  show "\<not> can_manage_subject e req u d" using pr assms(2) u(2) by (simp add: can_manage_subject_def)
  have rid: "ar_id r = rid" using review(1) by (rule review_table.get_key)
  have uid: "u_id u = ri_user_id item" using u(1) by (rule user_table.get_key)
  have req: "request_operation e (ri_user_id item) DISABLE (pr_username pr) None d =
      (Inr (tick d), snd (create_operation e u DISABLE (pr_username pr) None None d))"
    using request_idle [OF u(1,4)] by simp
  show "\<exists>v. get_user (ri_user_id item) (db_after (access_review_decision e req rid item_id f d)) = Some v \<and>
      u_role v = u_role u \<and> u_status v = US_DISABLED"
    using assms rid uid
    by (simp add: access_review_decision_def user_guarded_def decision_allowed_def act_on_account_def req Let_def
        record_decision_def close_review_def user_table.get_upd create_operation_def uuid4_def decided_account_def)
qed


definition review_db :: "ManagedUser \<Rightarrow> db" where
  "review_db u = sample_db\<lparr>users := [mfa_operator, u], mfas := [mfa_row\<lparr>am_user_id := 2\<rparr>], tick := 3,
     reviews := [\<lparr>ar_id = 1, ar_name = ''Q1'', ar_source = ''manual'', ar_source_key = None, ar_status = ''open'',
       ar_approval_token = 2, ar_due_at = 1010 * day, ar_created_by = ''olga'', ar_created_at = 999 * day,
       ar_opened_at = Some (999 * day), ar_completed_at = None\<rparr>],
     review_items := [\<lparr>ri_id = 1, ri_review_id = 1, ri_user_id = 2, ri_username = u_username u, ri_owner = ''grace'',
       ri_reason = ''contract'', ri_decision = ''pending'', ri_attestation = [], ri_reviewer = None,
       ri_decided_at = None, ri_reminded_at = None, ri_operation_id = None\<rparr>]\<rparr>"

lemma review_db_rows:
  "u_id u = 2 \<Longrightarrow> get_user 1 (review_db u) = Some mfa_operator" "u_id u = 2 \<Longrightarrow> get_user 2 (review_db u) = Some u"
  "get_review 1 (review_db u) = Some (hd (reviews (review_db u)))" "get_item 1 (review_db u) = Some (hd (review_items (review_db u)))"
  by (simp_all add: review_db_def get_user_def rows_get_def get_review_def get_item_def mfa_operator_def sample_user_def)

definition promoted_user :: ManagedUser where
  "promoted_user = managed_user\<lparr>u_role := ''user_operator''\<rparr>"

definition disabling_form :: DecisionForm where
  "disabling_form = \<lparr>df_decision = ''disable'', df_attestation = ''No longer needed.'', df_confirm_delete = []\<rparr>"

theorem review_decision_reaches_operators_witness:
  "map_option u_status (get_user 2 (db_after (access_review_decision sample_env (sample_request True) 1 1 disabling_form
     (review_db promoted_user)))) = Some US_DISABLED"
proof -
  let ?d = "review_db promoted_user"
  let ?item = "hd (review_items ?d)" and ?r = "hd (reviews ?d)"
  have id: "u_id promoted_user = 2" by (simp add: promoted_user_def managed_user_def)
  have u: "get_user (ri_user_id ?item) ?d = Some promoted_user"
    using review_db_rows(2) [OF id] by (simp add: review_db_def)
  have form: "df_decision disabling_form = ''disable''" "10 \<le> length (strip (df_attestation disabling_form))"
    by (simp_all add: disabling_form_def strip_def is_space_def)
  have low: "\<not> has_permission (pr_role operator_principal) MANAGE_SECURITY"
    by (simp add: operator_principal_def principal_of_def mfa_operator_def)
  have "u_role promoted_user \<noteq> ''user''" "u_desired_action promoted_user \<noteq> DA_DELETE" "u_active_operation_id promoted_user = None"
    "ar_status ?r = ''open''" "ri_review_id ?item = 1" "ri_decision ?item = ''pending''" "ri_user_id ?item = 2"
    by (simp_all add: promoted_user_def managed_user_def sample_user_def review_db_def)
  then show ?thesis
    using review_decision_reaches_operators [OF users_db_session(2) [OF review_db_rows(1) [OF id]] low u _ _ _
        review_db_rows(3) _ review_db_rows(4) _ _ form]
    by fastforce
qed

section \<open>Reviews and their items\<close>

text \<open>Reviews and items have distinct identifiers, those of reviews were drawn from the counter, and a review is
  completed exactly when none of its items is pending.\<close>

definition reviews_ok :: "db \<Rightarrow> bool" where
  "reviews_ok d \<longleftrightarrow> distinct (map ar_id (reviews d)) \<and> distinct (map ri_id (review_items d)) \<and>
     list_all (\<lambda>r. ar_id r < tick d) (reviews d) \<and> list_all (\<lambda>i. ri_review_id i < tick d) (review_items d) \<and>
     list_all (\<lambda>r. ar_status r = ''completed'' \<longleftrightarrow> pending_items (ar_id r) d = []) (reviews d)"

definition item_shape :: "AccessReviewItem \<Rightarrow> id \<times> uuid \<times> bool" where
  "item_shape i = (ri_id i, ri_review_id i, ri_decision i = ''pending'')"

lemma pending_items_shape:
  "pending_items rid d = [] \<longleftrightarrow> \<not> list_ex (\<lambda>(i, r, p). r = rid \<and> p) (map item_shape (review_items d))"
  by (auto simp: pending_items_def item_shape_def filter_empty_conv list_ex_iff)

lemma reviews_ok_later:
  assumes "reviews_ok d" "reviews d' = reviews d" "tick d \<le> tick d'"
    and shape: "map item_shape (review_items d') = map item_shape (review_items d)"
  shows "reviews_ok d'"
proof -
  have ids: "map ri_id (review_items d') = map ri_id (review_items d)"
    "map ri_review_id (review_items d') = map ri_review_id (review_items d)"
    using arg_cong [OF shape, of "map fst"] arg_cong [OF shape, of "map (fst o snd)"]
    by (simp_all add: comp_def item_shape_def)
  have bound: "ri_review_id i < tick d'" if i: "i \<in> set (review_items d')" for i
  proof -
    have "ri_review_id i \<in> ri_review_id ` set (review_items d)"
      using i ids(2) by (metis image_eqI list.set_map)
    then show ?thesis using assms(1,3) by (auto simp: reviews_ok_def list_all_iff)
  qed
  have "pending_items rid d' = [] \<longleftrightarrow> pending_items rid d = []" for rid
    unfolding pending_items_shape shape ..
  then show ?thesis
    using assms(1-3) ids bound by (auto simp: reviews_ok_def list_all_iff intro: less_le_trans)
qed

lemma reviews_ok_same:
  assumes "reviews_ok d" "reviews d' = reviews d" "review_items d' = review_items d" "tick d \<le> tick d'"
  shows "reviews_ok d'"
  using reviews_ok_later [OF assms(1,2,4)] assms(3) by simp

lemma reviews_ok_run:
  assumes "reviews_ok d" "bystanders d' = bystanders d" "tick d \<le> tick d'"
  shows "reviews_ok d'"
  using reviews_ok_same [OF assms(1) bystanders_fields(11,12) [OF assms(2)] assms(3)] .

text \<open>A review with pending items of its own joins the others.\<close>

lemma reviews_ok_added:
  assumes ok: "reviews_ok d" and r: "reviews d' = reviews d @ [r]" "ar_id r = tick d" "ar_status r \<noteq> ''completed''"
    and items: "review_items d' = review_items d @ new" "new \<noteq> []" "distinct (map ri_id (review_items d'))"
      "list_all (\<lambda>i. ri_review_id i = tick d \<and> ri_decision i = ''pending'') new"
    and tick: "tick d < tick d'"
  shows "reviews_ok d'"
proof -
  have old: "pending_items rid d' = [] \<longleftrightarrow> pending_items rid d = []" if "rid < tick d" for rid
    using that items(1,4) by (auto simp: pending_items_def list_all_iff filter_empty_conv)
  have new: "pending_items (tick d) d' \<noteq> []"
    using items(1,2,4) by (cases new) (auto simp: pending_items_def)
  show ?thesis
    using ok r items tick old new unfolding reviews_ok_def by (auto simp: list_all_iff intro: less_trans)
qed

lemma add_item_items:
  "\<exists>i. review_items (add_item rid u ow re d) = review_items d @ [i] \<and> ri_id i = next_id ri_id (review_items d) \<and>
     ri_review_id i = rid \<and> ri_decision i = ''pending''"
  "reviews (add_item rid u ow re d) = reviews d" "tick (add_item rid u ow re d) = tick d"
  by (simp_all add: add_item_def)

lemma preview_items:
  assumes "distinct (map ri_id (review_items d))"
  shows "\<exists>new. review_items (fold (preview_item rid) us d) = review_items d @ new \<and> length new = length us \<and>
    list_all (\<lambda>i. ri_review_id i = rid \<and> ri_decision i = ''pending'') new \<and>
    distinct (map ri_id (review_items (fold (preview_item rid) us d))) \<and>
    reviews (fold (preview_item rid) us d) = reviews d \<and> tick (fold (preview_item rid) us d) = tick d"
  using assms
proof (induction us arbitrary: d)
  case (Cons u us)
  obtain ow re where p: "preview_item rid u d = add_item rid u ow re d"
    by (cases "get_policy (u_id u) d") (auto simp: preview_item_def)
  obtain i where i: "review_items (preview_item rid u d) = review_items d @ [i]" "ri_id i = next_id ri_id (review_items d)"
    "ri_review_id i = rid" "ri_decision i = ''pending''"
    unfolding p using add_item_items(1) by blast
  have "next_id ri_id (review_items d) \<notin> ri_id ` set (review_items d)"
    by (metis imageE less_irrefl next_id_gt)
  then have "distinct (map ri_id (review_items (preview_item rid u d)))" using Cons.prems i by simp
  from Cons.IH [OF this] show ?case using i add_item_items(2,3) p by auto
qed simp

lemma added_review_frame [simp]:
  "review_items (add_review e n s k st due a op d) = review_items d" "tick (add_review e n s k st due a op d) = Suc (Suc (tick d))"
  "get_user i (add_review e n s k st due a op d) = get_user i d"
  "\<exists>r. reviews (add_review e n s k st due a op d) = reviews d @ [r] \<and> ar_id r = tick d \<and> ar_status r = st"
  by (simp_all add: add_review_def next_tick_def get_user_def uuid4_def)

lemma reviews_ok_preview:
  assumes "reviews_ok d" shows "reviews_ok (snd (access_review_preview e req n due ids d))"
proof -
  have "reviews_ok (record_audit e a ac su de None
      (fold (preview_item (uuid4 d)) us (add_review e nm ''manual'' None ''draft'' du a None d)))"
    if us: "us \<noteq> []" for a ac su de us nm du
  proof -
    let ?d = "add_review e nm ''manual'' None ''draft'' du a None d"
    have "distinct (map ri_id (review_items ?d))" using assms by (simp add: reviews_ok_def)
    from preview_items [OF this, of "uuid4 d" us] obtain new where
      new: "review_items (fold (preview_item (uuid4 d)) us ?d) = review_items d @ new" "length new = length us"
        "list_all (\<lambda>i. ri_review_id i = uuid4 d \<and> ri_decision i = ''pending'') new"
        "distinct (map ri_id (review_items (fold (preview_item (uuid4 d)) us ?d)))"
        "reviews (fold (preview_item (uuid4 d)) us ?d) = reviews ?d" "tick (fold (preview_item (uuid4 d)) us ?d) = Suc (Suc (tick d))"
      by auto
    obtain r where r: "reviews ?d = reviews d @ [r]" "ar_id r = tick d" "ar_status r = ''draft''"
      using added_review_frame(4) by blast
    show ?thesis
      by (rule reviews_ok_added [OF assms, where r = r and new = new])
        (use new r us in \<open>auto simp: uuid4_def\<close>)
  qed
  then show ?thesis
    using assms by (auto simp: access_review_preview_def guarded_def Let_def split: sum.splits)
qed

lemma reviews_upd:
  assumes "\<And>r. ar_id (f r) = ar_id r" "get_review rid d = Some r" "reviews_ok d"
    "ar_status (f r) = ''completed'' \<longleftrightarrow> pending_items rid d = []"
  shows "reviews_ok (upd_review rid f d)"
proof -
  have r: "r \<in> set (reviews d)" "ar_id r = rid"
    using assms(2) rows_get_mem rows_get_key unfolding get_review_def by fast+
  have inj: "inj_on ar_id (set (reviews d))" using assms(3) by (simp add: reviews_ok_def distinct_map)
  have only: "x = r" if "x \<in> set (reviews d)" "ar_id x = rid" for x
    using inj_onD [OF inj, of x r] that r by simp
  have pend: "pending_items k (upd_review rid f d) = pending_items k d" for k by (simp add: pending_items_def)
  have "list_all (\<lambda>r. ar_status r = ''completed'' \<longleftrightarrow> pending_items (ar_id r) d = [])
      (rows_upd ar_id rid f (reviews d))"
    unfolding list_all_iff
  proof (rule ballI)
    fix x assume "x \<in> set (rows_upd ar_id rid f (reviews d))"
    then obtain y where y: "y \<in> set (reviews d)" "x = (if ar_id y = rid then f y else y)"
      by (auto simp: set_rows_upd)
    show "ar_status x = ''completed'' \<longleftrightarrow> pending_items (ar_id x) d = []"
    proof (cases "ar_id y = rid")
      case True
      then have "y = r" using y(1) only by blast
      then show ?thesis using y(2) True assms(1,4) by simp
    next
      case False
      then show ?thesis using y assms(3) by (simp add: reviews_ok_def list_all_iff)
    qed
  qed
  moreover have "list_all (\<lambda>r. ar_id r < tick d) (rows_upd ar_id rid f (reviews d))"
    using assms(1,3) by (auto simp: reviews_ok_def list_all_iff set_rows_upd)
  ultimately show ?thesis
    using assms(1,3) pend by (simp add: reviews_ok_def map_key_upd) (simp add: upd_review_def map_key_upd)
qed

lemma reviews_ok_open:
  assumes "reviews_ok d" shows "reviews_ok (snd (access_review_open e req rid token d))"
proof -
  have "reviews_ok (record_audit e a ac su de None (upd_review rid (\<lambda>r. r\<lparr>ar_status := ''open'', ar_opened_at := t\<rparr>) d))"
    if r: "get_review rid d = Some r" "ar_status r = ''draft''" for r a ac su de t
  proof (rule reviews_ok_same)
    have "pending_items rid d \<noteq> []"
      using assms r rows_get_mem rows_get_key unfolding get_review_def reviews_ok_def list_all_iff by fastforce
    then show "reviews_ok (upd_review rid (\<lambda>r. r\<lparr>ar_status := ''open'', ar_opened_at := t\<rparr>) d)"
      using assms r(1) by (intro reviews_upd) simp_all
  qed simp_all
  then show ?thesis
    using assms by (auto simp: access_review_open_def guarded_def split: sum.splits option.splits)
qed

lemma reviews_ok_remind:
  assumes "reviews_ok d" shows "reviews_ok (snd (send_review_reminders e rid actor d))"
proof -
  have item: "reviews_ok (remind_item e r actor i d)" if "reviews_ok d" for r i d
  proof (rule reviews_ok_run)
    have "map item_shape (rows_upd ri_id k (\<lambda>i. i\<lparr>ri_reminded_at := t\<rparr>) xs) = map item_shape xs" for k t xs
      by (simp add: rows_upd_def item_shape_def)
    then show "reviews_ok (upd_item (ri_id i) (\<lambda>i. i\<lparr>ri_reminded_at := Some (now e)\<rparr>) d)"
      using that by (intro reviews_ok_later [OF that]) (simp_all add: upd_item_def)
    show "bystanders (remind_item e r actor i d) = bystanders (upd_item (ri_id i) (\<lambda>i. i\<lparr>ri_reminded_at := Some (now e)\<rparr>) d)"
      unfolding remind_item_def by (rule bystanders.composed [OF bystanders.queued bystanders.recorded])
    show "tick (upd_item (ri_id i) (\<lambda>i. i\<lparr>ri_reminded_at := Some (now e)\<rparr>) d) \<le> tick (remind_item e r actor i d)"
      unfolding remind_item_def by (rule counter.composed [OF counter.queued counter.recorded])
  qed
  have "reviews_ok (fold (remind_item e r actor) xs d)" if "reviews_ok d" for r xs d
    using that item by (induction xs arbitrary: d) simp_all
  then show ?thesis using assms by (simp add: send_review_reminders_def split: option.split)
qed

lemma reviews_ok_save:
  assumes "reviews_ok d" shows "reviews_ok (db_after (lifecycle_policy_save e req uid f d))"
proof -
  have put: "reviews_ok (put_policy p d)" for p
    by (rule reviews_ok_same [OF assms]) (simp_all add: put_policy_def upd_policy_def split: option.splits)
  have hold: "reviews_ok d1" if "hold_account e u st a d0 = Inr (i, d1)" "reviews_ok d0" for u st a d0 i d1
  proof -
    have req: "reviews_ok (upd_user n g d2)" if "request_operation e n c b t d0 = (x, d2)" for n g c b t x d2
      using reviews_ok_run [OF \<open>reviews_ok d0\<close> bystanders.requested [OF that] counter.requested [OF that]]
      by (rule reviews_ok_same) simp_all
    show ?thesis
      using that req by (auto simp: hold_account_def split: if_splits sum.splits prod.splits)
  qed
  have "reviews_ok (record_audit e a ac su de i d1)" if "hold_account e u st b (put_policy p d) = Inr (i, d1)" for u st b p i d1 a ac su de
    by (rule reviews_ok_same [OF hold [OF that put]]) simp_all
  then show ?thesis
    unfolding lifecycle_policy_save_def Let_def
    by (intro user_guarded_after [where P = reviews_ok]) (simp_all add: assms split: sum.split option.split prod.split)
qed

lemma upd_item_shape:
  assumes "distinct (map ri_id (review_items d))" "item \<in> set (review_items d)"
    and "\<And>i. ri_id (f i) = ri_id i" "\<And>i. ri_review_id (f i) = ri_review_id i"
  shows "map ri_id (review_items (upd_item (ri_id item) f d)) = map ri_id (review_items d)"
    "list_all (\<lambda>i. ri_review_id i < n) (review_items (upd_item (ri_id item) f d)) =
       list_all (\<lambda>i. ri_review_id i < n) (review_items d)"
    "rid \<noteq> ri_review_id item \<Longrightarrow> pending_items rid (upd_item (ri_id item) f d) = pending_items rid d"
    "(\<And>i. ri_decision (f i) \<noteq> ''pending'') \<Longrightarrow>
       pending_items rid (upd_item (ri_id item) f d) = filter (\<lambda>i. ri_id i \<noteq> ri_id item) (pending_items rid d)"
proof -
  have only: "x = item" if "x \<in> set (review_items d)" "ri_id x = ri_id item" for x
    using assms(1,2) that by (auto simp: distinct_map dest: inj_onD)
  let ?g = "\<lambda>i. if ri_id i = ri_id item then f i else i"
  have upd: "review_items (upd_item (ri_id item) f d) = map ?g (review_items d)"
    by (simp add: upd_item_def rows_upd_def)
  show "map ri_id (review_items (upd_item (ri_id item) f d)) = map ri_id (review_items d)"
    by (simp add: upd assms(3))
  show "list_all (\<lambda>i. ri_review_id i < n) (review_items (upd_item (ri_id item) f d)) =
       list_all (\<lambda>i. ri_review_id i < n) (review_items d)"
  proof -
    have "(\<lambda>i. ri_review_id (?g i) < n) = (\<lambda>i. ri_review_id i < n)" by (auto simp: assms(4))
    then show ?thesis by (simp add: upd list.pred_map comp_def)
  qed
  have *: "filter P (map ?g xs) = filter P xs"
    if "\<And>x. x \<in> set xs \<Longrightarrow> ri_id x = ri_id item \<Longrightarrow> \<not> P x \<and> \<not> P (f x)" for P xs
    using that by (induction xs) auto
  show "pending_items rid (upd_item (ri_id item) f d) = pending_items rid d" if "rid \<noteq> ri_review_id item"
    unfolding pending_items_def upd using that only assms(4) by (intro *) auto
  have **: "filter P (map ?g xs) = filter (\<lambda>i. ri_id i \<noteq> ri_id item) (filter P xs)"
    if "\<And>x. \<not> P (f x)" for P xs
    using that by (induction xs) auto
  show "pending_items rid (upd_item (ri_id item) f d) = filter (\<lambda>i. ri_id i \<noteq> ri_id item) (pending_items rid d)"
    if "\<And>i. ri_decision (f i) \<noteq> ''pending''"
    unfolding pending_items_def upd using that by (intro **) simp
qed

lemma reviews_ok_record:
  assumes ok: "reviews_ok d" and r: "get_review rid d = Some r" "ar_status r = ''open''"
    and item: "get_item k d = Some item" "ri_review_id item = rid"
    and choice: "df_decision f \<in> {''retain'', ''disable'', ''delete''}"
  shows "reviews_ok (record_decision e r item f actor i d)"
proof -
  have rid: "ar_id r = rid" "r \<in> set (reviews d)"
    using r(1) rows_get_mem rows_get_key unfolding get_review_def by fast+
  have k: "item \<in> set (review_items d)" using item(1) rows_get_mem unfolding get_item_def by fast
  have inj: "inj_on ar_id (set (reviews d))" using ok by (simp add: reviews_ok_def distinct_map)
  have only: "x = r" if "x \<in> set (reviews d)" "ar_id x = rid" for x
    using inj_onD [OF inj, of x r] that rid by simp
  define d1 where "d1 = record_audit e actor (cat [''access_review.'', df_decision f]) (ri_username item)
        (cat [''review='', show_nat (ar_id r), ''; attested=yes'']) i
        (upd_item (ri_id item) (decided_item e f actor i)
          (upd_policy (ri_user_id item) (reviewed_policy e (df_decision f)) d))"
  let ?d0 = "upd_policy (ri_user_id item) (reviewed_policy e (df_decision f)) d"
  have d0: "review_items ?d0 = review_items d" "pending_items x ?d0 = pending_items x d" for x
    by (simp_all add: pending_items_def)
  have dist: "distinct (map ri_id (review_items ?d0))" using ok by (simp add: reviews_ok_def)
  have "item \<in> set (review_items ?d0)" using k by simp
  note shape = upd_item_shape [OF dist this, of "decided_item e f actor i"]
  have same: "pending_items x d1 = pending_items x (upd_item (ri_id item) (decided_item e f actor i) ?d0)" for x
    by (simp add: d1_def pending_items_def)
  have other: "pending_items x d1 = pending_items x d" if "x \<noteq> rid" for x
    using shape(3) [of x] that item(2) by (simp add: same d0 decided_item_def)
  have mine: "pending_items rid d1 = filter (\<lambda>i. ri_id i \<noteq> ri_id item) (pending_items rid d)"
    using shape(4) [of rid] choice by (auto simp: same d0 decided_item_def)
  have frame: "reviews d1 = reviews d" "tick d1 = tick d" "map ri_id (review_items d1) = map ri_id (review_items d)"
    "list_all (\<lambda>i. ri_review_id i < tick d) (review_items d1)"
    using ok shape(1,2) by (simp_all add: d1_def reviews_ok_def decided_item_def)
  have ex: "list_ex (\<lambda>i. ri_id i \<noteq> ri_id item) (pending_items rid d1) \<longleftrightarrow> pending_items rid d1 \<noteq> []"
    by (auto simp: mine filter_empty_conv list_ex_iff)
  define d2 where "d2 = close_review e (ar_id r) (ri_id item) d1"
  have d2: "record_decision e r item f actor i d = d2" by (simp add: d2_def d1_def record_decision_def)
  have p2: "pending_items x d2 = pending_items x d1" "review_items d2 = review_items d1" "tick d2 = tick d1" for x
    by (simp_all add: d2_def close_review_def pending_items_def)
  define closed where "closed r = r\<lparr>ar_status := ''completed'', ar_completed_at := Some (now e)\<rparr>" for r :: AccessReview
  have outside: "x \<in> set (reviews d)" if "x \<in> set (reviews d2)" "ar_id x \<noteq> rid" for x
  proof (cases "list_ex (\<lambda>i. ri_id i \<noteq> ri_id item) (pending_items rid d1)")
    case True
    then show ?thesis using that frame(1) rid(1) by (simp add: d2_def close_review_def)
  next
    case False
    then have "d2 = upd_review rid closed d1"
      using rid(1) by (simp add: d2_def close_review_def closed_def [abs_def])
    then have "x \<in> set (rows_upd ar_id rid closed (reviews d))" using that(1) frame(1) by (simp add: upd_review_def)
    then obtain y where "y \<in> set (reviews d)" "x = (if ar_id y = rid then closed y else y)"
      unfolding set_rows_upd by blast
    moreover have "ar_id (closed y) = ar_id y" for y by (simp add: closed_def)
    ultimately show ?thesis using that(2) by (metis (full_types))
  qed
  have status: "ar_status x = ''completed'' \<longleftrightarrow> pending_items (ar_id x) d1 = []" if x: "x \<in> set (reviews d2)" for x
  proof (cases "ar_id x = rid")
    case True
    show ?thesis
    proof (cases "pending_items rid d1 = []")
      case empty: True
      then have "d2 = upd_review rid closed d1"
        using rid(1) by (simp add: d2_def close_review_def closed_def [abs_def])
      then have "x \<in> set (rows_upd ar_id rid closed (reviews d))" using x frame(1) by (simp add: upd_review_def)
      then obtain y where "x = (if ar_id y = rid then closed y else y)"
        unfolding set_rows_upd by blast
      then have "ar_status x = ''completed''" using True by (cases "ar_id y = rid") (simp_all add: closed_def)
      then show ?thesis using True empty by simp
    next
      case False
      then have "d2 = d1" using rid(1) ex by (simp add: d2_def close_review_def)
      then have "x \<in> set (reviews d)" using x frame(1) by simp
      then show ?thesis using only True False r(2) by auto
    qed
  next
    case False
    then have "x \<in> set (reviews d)" using outside x by blast
    then show ?thesis using ok other [OF False] by (auto simp: reviews_ok_def list_all_iff)
  qed
  have ids: "map ar_id (reviews d2) = map ar_id (reviews d)"
    by (simp add: d2_def close_review_def frame upd_review_def map_key_upd)
  have "ar_id ` set (reviews d2) = ar_id ` set (reviews d)" using arg_cong [OF ids, of set] by simp
  then have "ar_id ` set (reviews d2) \<subseteq> {..<tick d}" using ok by (auto simp: reviews_ok_def list_all_iff)
  then have "\<forall>x \<in> set (reviews d2). ar_id x < tick d" by auto
  then show ?thesis
    using ok frame p2 status ids unfolding d2 reviews_ok_def list_all_iff by simp
qed

lemma reviews_ok_decision:
  assumes "reviews_ok d" shows "reviews_ok (db_after (access_review_decision e req rid k f d))"
proof -
  have act: "reviews d1 = reviews d \<and> review_items d1 = review_items d \<and> tick d \<le> tick d1"
    if "act_on_account e uid c a d = Inr (i, ts, d1)" for uid c a i ts d1
  proof -
    have "reviews d2 = reviews d \<and> review_items d2 = review_items d \<and> tick d \<le> tick d2"
      if "request_operation e n co b t d = (x, d2)" for n co b t x d2
      using bystanders_fields(11,12) [OF bystanders.requested [OF that]] counter.requested [OF that] by simp
    note req = this
    show ?thesis
      using that by (auto simp: act_on_account_def split: option.splits if_splits sum.splits prod.splits dest!: req)
  qed
  have rec: "reviews_ok (record_decision e r item f a i d1)"
    if a: "act_on_account e uid c a d = Inr (i, ts, d1)"
      and r: "get_review rid d = Some r" "ar_status r = ''open''" "get_item k d = Some item" "ri_review_id item = rid"
      and f: "df_decision f \<in> {''retain'', ''disable'', ''delete''}" for uid c a i ts d1 r item
  proof (rule reviews_ok_record [OF reviews_ok_same _ r(2) _ r(4) f])
    show "reviews_ok d" by (rule assms)
    show "reviews d1 = reviews d" "review_items d1 = review_items d" "tick d \<le> tick d1" using act [OF a] by simp_all
    then show "get_review rid d1 = Some r" "get_item k d1 = Some item" using r(1,3) by (simp_all add: get_review_def get_item_def)
  qed
  have key: "ar_id r = rid" if "get_review rid d = Some r" for r using that by (rule review_table.get_key)
  have "reviews_ok (db_after (case act_on_account e (ri_user_id (the (get_item k d))) (df_decision f) a d of
          Inl err \<Rightarrow> (x err, [], d)
        | Inr (i, ts, d1) \<Rightarrow> (y, ts, record_decision e (the (get_review rid d)) (the (get_item k d)) f a i d1)))"
    if allowed: "decision_allowed (get_review rid d) (get_item k d)" and f: "df_decision f \<in> {''retain'', ''disable'', ''delete''}" for a x y
  proof -
    obtain r item where r: "get_review rid d = Some r" "ar_status r = ''open''" "get_item k d = Some item" "ri_review_id item = rid"
      using allowed key by (auto simp: decision_allowed_def split: option.splits)
    show ?thesis
      using rec [OF _ r f] assms r(1,3)
      by (cases "act_on_account e (ri_user_id item) (df_decision f) a d") (auto split: prod.split)
  qed
  then show ?thesis
    unfolding access_review_decision_def Let_def
    by (intro user_guarded_after [where P = reviews_ok]) (simp_all add: assms)
qed

lemma reviews_ok_inactivity:
  assumes "reviews_ok d" shows "reviews_ok (snd (create_inactivity_reviews e d))"
proof -
  have off: "reviews_ok (no_next_review uid d)" if "reviews_ok d" for uid d
    by (rule reviews_ok_same [OF that]) (simp_all add: no_next_review_def)
  have new: "reviews_ok (record_audit e a ac su de None (no_next_review uid (add_item (uuid4 d) u ow re
      (add_review e nm so ke ''open'' du a op d))))" if ok: "reviews_ok d" for d a ac su de uid u ow re nm so ke du op
  proof -
    let ?d1 = "add_review e nm so ke ''open'' du a op d"
    obtain r where r: "reviews ?d1 = reviews d @ [r]" "ar_id r = tick d" "ar_status r = ''open''"
      using added_review_frame(4) by blast
    obtain i where i: "review_items (add_item (uuid4 d) u ow re ?d1) = review_items d @ [i]" "ri_id i = next_id ri_id (review_items d)"
      "ri_review_id i = tick d" "ri_decision i = ''pending''"
      using add_item_items(1) [of "uuid4 d" u ow re ?d1] by (auto simp: uuid4_def)
    have "next_id ri_id (review_items d) \<notin> ri_id ` set (review_items d)" by (metis imageE less_irrefl next_id_gt)
    then have "reviews_ok (add_item (uuid4 d) u ow re ?d1)"
      using ok i r add_item_items(2,3) by (intro reviews_ok_added [OF ok, where r = r and new = "[i]"]) (auto simp: reviews_ok_def)
    then show ?thesis by (rule reviews_ok_same [OF off]) (simp_all add: no_next_review_def)
  qed
  have step: "reviews_ok (snd (inactivity_review e p s))" if "reviews_ok (snd s)" for p s
    using that off new by (cases s) (auto simp: inactivity_review_def Let_def split: option.split)
  have "reviews_ok (snd (fold (inactivity_review e) ps s))" if "reviews_ok (snd s)" for ps s
    using that step by (induction ps arbitrary: s) simp_all
  then show ?thesis using assms by (simp add: create_inactivity_reviews_def)
qed

lemma due_work_frame:
  "reviews (snd (due_work e d)) = reviews d \<and> review_items (snd (due_work e d)) = review_items d \<and>
   tick d \<le> tick (snd (due_work e d))"
proof -
  let ?P = "\<lambda>d d'. reviews d' = reviews d \<and> review_items d' = review_items d \<and> tick d \<le> tick d'"
  have req: "?P d d'" if "request_operation e n co b t d = (x, d')" for n co b t x d d'
    using bystanders_fields(11,12) [OF bystanders.requested [OF that]] counter.requested [OF that] by simp
  have start: "?P d d1" if "apply_start e p u d = Inl (ts, d1) \<or> apply_start e p u d = Inr d1" for p u d ts d1
    using that by (auto simp: apply_start_def split: if_splits sum.splits prod.splits dest!: req)
  have finish: "?P d d1" if "apply_finish e p u d = (ts, d1)" for p u d ts d1
    using that by (auto simp: apply_finish_def split: if_splits sum.splits prod.splits dest!: req)
  have one: "?P (snd s) (snd (apply_policy e p s))" for p s
    using start finish
    by (cases s) (fastforce simp: apply_policy_def split: option.split sum.split prod.split)
  have "?P (snd s) (snd (fold (apply_policy e) ps s))" for ps s
  proof (induction ps arbitrary: s)
    case (Cons p ps)
    then show ?case using one [of p s] Cons [of "apply_policy e p s"]
        order_trans [of "tick (snd s)" "tick (snd (apply_policy e p s))" "tick (snd (fold (apply_policy e) ps (apply_policy e p s)))"]
      by simp
  qed simp
  from this [of "policies d" "([], d)"] show ?thesis by (simp add: due_work_def)
qed

lemma reviews_ok_tick:
  assumes "reviews_ok d" shows "reviews_ok (outcome_db (governance_tick e d))"
proof -
  obtain ts d1 where w: "due_work e d = (ts, d1)" by (rule prod.exhaust)
  have d1: "reviews_ok d1" using reviews_ok_same [OF assms] due_work_frame [of e d] w by simp
  have run: "reviews_ok (outcome_db (run_tasks e ts d1))"
    by (rule reviews_ok_run [OF d1 bystanders.tasks_run counter.tasks_run])
  then have pass: "reviews_ok (outcome_db (apply_lifecycle_automation e d))"
    using reviews_ok_inactivity
    by (auto simp: apply_lifecycle_automation_def w split: outcome.split prod.split) (metis outcome_db.simps(1) snd_conv)
  have "reviews_ok (fold (\<lambda>rid d. snd (send_review_reminders e rid a d)) rids d)" if "reviews_ok d" for a rids d
    using that reviews_ok_remind by (induction rids arbitrary: d) simp_all
  then show ?thesis
    using pass by (auto simp: governance_tick_def split: outcome.split)
qed

text \<open>What the console and the worker do to policies and reviews.\<close>

datatype GovernanceEvent = SavePolicy id PolicyForm | PreviewReview string string "id list" | OpenReview uuid uuid
  | RemindReview uuid | DecideItem uuid id DecisionForm | Pass

fun handle_governance :: "Env \<Rightarrow> Request \<Rightarrow> GovernanceEvent \<Rightarrow> db \<Rightarrow> db" where
  "handle_governance e req (SavePolicy uid f) d = db_after (lifecycle_policy_save e req uid f d)"
| "handle_governance e req (PreviewReview name due ids) d = snd (access_review_preview e req name due ids d)"
| "handle_governance e req (OpenReview rid token) d = snd (access_review_open e req rid token d)"
| "handle_governance e req (RemindReview rid) d = snd (access_review_remind e req rid d)"
| "handle_governance e req (DecideItem rid k f) d = db_after (access_review_decision e req rid k f d)"
| "handle_governance e req Pass d = outcome_db (governance_tick e d)"

text \<open>C29: A review is completed exactly when none of its items is pending.  Previews, openings, reminders and
  decisions of the console, saved policies and passes of the worker (also one that raises) keep this,
  together with the distinctness of the identifiers of reviews and items.\<close>

theorem completed_exactly_when_decided:
  assumes "reviews_ok d"
  shows "reviews_ok (handle_governance e req ev d)"
proof (cases ev)
  case (RemindReview rid)
  then show ?thesis
    using assms reviews_ok_remind by (auto simp: access_review_remind_def guarded_def split: sum.split prod.split)
      (metis snd_conv)
qed (simp_all add: assms reviews_ok_save reviews_ok_preview reviews_ok_open reviews_ok_decision reviews_ok_tick)

theorem completed_exactly_when_decided_witness:
  "reviews_ok (handle_governance sample_env (sample_request True) (DecideItem 1 1 disabling_form) (review_db managed_user))"
proof (rule completed_exactly_when_decided)
  show "reviews_ok (review_db managed_user)" by (simp add: reviews_ok_def review_db_def pending_items_def)
qed

section \<open>Whom the automation reaches\<close>

definition spared :: "db \<Rightarrow> db \<Rightarrow> bool" where
  "spared d d' \<longleftrightarrow> (\<forall>i u. get_user i d = Some u \<longrightarrow> u_role u \<noteq> ''user'' \<longrightarrow>
     (\<exists>v. get_user i d' = Some v \<and> account_kept u v))"

lemma spared_trans:
  assumes "spared a b" "spared b c" shows "spared a c"
  unfolding spared_def
proof (intro allI impI)
  fix i u assume u: "get_user i a = Some u" "u_role u \<noteq> ''user''"
  obtain v where v: "get_user i b = Some v" "account_kept u v" using assms(1) u unfolding spared_def by blast
  have "u_role v \<noteq> ''user''" using u(2) account_kept_fields(3) [OF v(2)] by simp
  then obtain w where "get_user i c = Some w" "account_kept v w" using assms(2) v(1) unfolding spared_def by blast
  then show "\<exists>w. get_user i c = Some w \<and> account_kept u w" using account_kept_trans [OF v(2)] by blast
qed

lemma spared_kept: "accounts_kept d d' \<Longrightarrow> spared d d'"
  unfolding accounts_kept_def spared_def by blast

lemma spared_users: "users d' = users d \<Longrightarrow> spared d d'"
  using spared_kept accounts_kept_users by blast

lemma spared_upd:
  assumes "get_user uid d = Some u" "u_role u = ''user''" "\<And>w. u_id (f w) = u_id w"
  shows "spared d (upd_user uid f d)"
  using assms by (auto simp: spared_def user_table.get_upd)

lemma spared_request:
  assumes r: "request_operation e uid c a t d = (x, d')" and u: "get_user uid d = Some u" "u_role u = ''user''"
    and f: "\<And>w. u_id (f w) = u_id w"
  shows "spared d (upd_user uid f d')"
proof -
  have k: "accounts_kept d d'" by (rule accounts.requested [OF r])
  obtain v where v: "get_user uid d' = Some v" "account_kept u v" using accounts_keptD [OF k u(1)] .
  then have "u_role v = ''user''" using account_kept_fields(3) u(2) by simp
  then show ?thesis using spared_trans [OF spared_kept [OF k] spared_upd [OF v(1) _ f]] by blast
qed

lemma ended_account_id [simp]: "u_id (ended_account e p u) = u_id u"
  by (simp add: ended_account_def)

lemma spared_start:
  assumes "apply_start e p u d = Inl (ts, d1) \<or> apply_start e p u d = Inr d1"
    and u: "get_user (u_id u) d = Some u" "u_role u = ''user''"
  shows "spared d d1"
proof -
  have changed: "spared d (record_audit e a ac s de i (upd_policy k g (upd_user (u_id u) (\<lambda>u. u\<lparr>u_status := US_ACTIVE\<rparr>) d2)))"
    if "request_operation e (u_id u) ENABLE b None d = (x, d2)" for a ac s de i k g b x d2
    by (rule spared_trans [OF spared_request [OF that u, of "\<lambda>u. u\<lparr>u_status := US_ACTIVE\<rparr>"] spared_users]) simp_all
  have refused: "spared d d2" if "request_operation e (u_id u) ENABLE b None d = (x, d2)" for b x d2
    by (rule spared_kept [OF accounts.requested [OF that]])
  show ?thesis
    using assms(1) changed refused spared_users
    by (auto simp: apply_start_def split: if_splits sum.splits prod.splits)
qed

lemma spared_finish:
  assumes "apply_finish e p u d = (ts, d1)" and u: "get_user (u_id u) d = Some v" "u_role v = ''user''"
  shows "spared d d1"
proof -
  have changed: "spared d (record_audit e a ac s de i (upd_policy k g (upd_user (u_id u) (ended_account e p) d2)))"
    if "request_operation e (u_id u) c b None d = (x, d2)" for a ac s de i k g b c x d2
    by (rule spared_trans [OF spared_request [OF that u, of "ended_account e p"] spared_users]) simp_all
  have refused: "spared d d2" if "request_operation e (u_id u) c b None d = (x, d2)" for b c x d2
    by (rule spared_kept [OF accounts.requested [OF that]])
  show ?thesis
    using assms(1) changed refused spared_users
    by (auto simp: apply_finish_def split: if_splits sum.splits prod.splits)
qed

lemma start_keeps_role:
  assumes "apply_start e p u d = Inl (ts, d1)" and u: "get_user (u_id u) d = Some u"
  shows "\<exists>v. get_user (u_id u) d1 = Some v \<and> u_role v = u_role u"
proof -
  have "\<exists>v. get_user (u_id u) (upd_user (u_id u) (\<lambda>u. u\<lparr>u_status := US_ACTIVE\<rparr>) d2) = Some v \<and> u_role v = u_role u"
    if r: "request_operation e (u_id u) ENABLE b None d = (x, d2)" for b x d2
  proof -
    obtain v where "get_user (u_id u) d2 = Some v" "account_kept u v" using accounts_keptD [OF accounts.requested [OF r] u] .
    then show ?thesis by (simp add: user_table.get_upd account_kept_fields(3))
  qed
  then show ?thesis
    using assms by (auto simp: apply_start_def split: if_splits sum.splits prod.splits)
qed

lemma spared_policy: "spared (snd s) (snd (apply_policy e p s))"
proof (cases s)
  case (Pair ts d)
  show ?thesis
  proof (cases "get_user (lp_user_id p) d")
    case (Some u)
    have uid: "get_user (u_id u) d = Some u" using Some user_table.get_key [OF Some] by simp
    show ?thesis
    proof (cases "u_role u = ''user''")
      case True
      show ?thesis
      proof (cases "apply_start e p u d")
        case (Inl x)
        obtain started d1 where x: "x = (started, d1)" by (cases x)
        obtain ended d2 where f: "apply_finish e p u d1 = (ended, d2)" by (rule prod.exhaust)
        obtain v where v: "get_user (u_id u) d1 = Some v" "u_role v = u_role u"
          using start_keeps_role [OF _ uid, of e p started d1] Inl x by auto
        have "spared d d1" using spared_start [OF _ uid True, of e p started d1] Inl x by simp
        moreover have "spared d1 d2" using spared_finish [OF f v(1)] v(2) True by simp
        ultimately show ?thesis using Some True Inl x f spared_trans by (auto simp: apply_policy_def Pair)
      next
        case (Inr d1)
        then show ?thesis using Some True spared_start [OF _ uid True, of e p undefined d1] by (simp add: apply_policy_def Pair)
      qed
    qed (simp add: apply_policy_def Pair Some spared_users)
  qed (simp add: apply_policy_def Pair spared_users)
qed

lemma spared_work: "spared d (snd (due_work e d))"
proof -
  have "spared (snd s) (snd (fold (apply_policy e) ps s))" for ps s
  proof (induction ps arbitrary: s)
    case (Cons p ps)
    then show ?case using spared_trans [OF spared_policy [of s e p]] by simp
  qed (simp add: spared_users)
  from this [of "([], d)" "policies d"] show ?thesis by (simp add: due_work_def)
qed

lemma users_inactivity: "users (snd (create_inactivity_reviews e d)) = users d"
proof -
  have "users (snd (inactivity_review e p s)) = users (snd s)" for p s
    by (cases s) (simp add: inactivity_review_def no_next_review_def add_item_def add_review_def next_tick_def Let_def
        split: option.split)
  then have "users (snd (fold (inactivity_review e) ps s)) = users (snd s)" for ps s
    by (induction ps arbitrary: s) simp_all
  then show ?thesis by (simp add: create_inactivity_reviews_def)
qed

lemma spared_reminders: "spared d (snd (send_review_reminders e rid a d))"
proof -
  have item: "spared d (remind_item e r a i d)" for r i d
    unfolding remind_item_def
    by (rule spared_trans [OF spared_users spared_kept [OF accounts.composed [OF accounts.queued accounts.recorded]]]) simp
  have "spared d (fold (remind_item e r a) xs d)" for r xs d
  proof (induction xs arbitrary: d)
    case (Cons i xs)
    then show ?case using spared_trans [OF item [of d r i]] by simp
  qed (simp add: spared_users)
  then show ?thesis by (simp add: send_review_reminders_def spared_users split: option.split)
qed

lemma spared_tick: "spared d (outcome_db (governance_tick e d))"
proof -
  obtain ts d1 where w: "due_work e d = (ts, d1)" by (rule prod.exhaust)
  have run: "spared d (outcome_db (run_tasks e ts d1))"
    using spared_trans [OF spared_work [of d e] spared_kept [OF accounts.tasks_run]] w by simp
  have pass: "spared d (outcome_db (apply_lifecycle_automation e d))"
  proof (cases "run_tasks e ts d1")
    case (Done x d2)
    then have "spared d2 (outcome_db (apply_lifecycle_automation e d))"
      using users_inactivity [of e d2] by (intro spared_users) (auto simp: apply_lifecycle_automation_def w split: prod.split)
    then show ?thesis using spared_trans run Done by fastforce
  qed (use run in \<open>simp add: apply_lifecycle_automation_def w\<close>)
  have "spared d' (fold (\<lambda>rid d. snd (send_review_reminders e rid a d)) rids d')" for a rids d'
  proof (induction rids arbitrary: d')
    case (Cons rid rids)
    then show ?case using spared_trans [OF spared_reminders [of d' e rid a]] by simp
  qed (simp add: spared_users)
  then show ?thesis
    using pass spared_trans by (fastforce simp: governance_tick_def split: outcome.split)
qed

text \<open>The automation touches ordinary accounts only.  Whatever the policies say, a pass of the governance worker
  (also one that raises) leaves the role, status, desired action, password and session of an account whose
  role is not \<open>user\<close> as they were, for instance of an account that was promoted after its policy was saved.\<close>

theorem automation_spares_operators:
  assumes "get_user i d = Some u" "u_role u \<noteq> ''user''"
  shows "\<exists>v. get_user i (outcome_db (governance_tick e d)) = Some v \<and> u_role v = u_role u \<and> u_status v = u_status u \<and>
    u_desired_action v = u_desired_action u \<and> u_password_hash v = u_password_hash u \<and>
    u_session_version v = u_session_version u"
proof -
  obtain v where "get_user i (outcome_db (governance_tick e d)) = Some v" "account_kept u v"
    using spared_tick [of d e] assms unfolding spared_def by blast
  then show ?thesis using account_kept_fields by blast
qed

theorem automation_spares_operators_witness:
  "\<exists>v. get_user 1 (outcome_db (governance_tick sample_env (policy_db mfa_operator))) = Some v \<and> u_status v = US_ACTIVE \<and>
     u_desired_action v = ENSURE"
proof -
  have "get_user 1 (policy_db mfa_operator) = Some mfa_operator" "u_role mfa_operator \<noteq> ''user''"
    "u_status mfa_operator = US_ACTIVE" "u_desired_action mfa_operator = ENSURE"
    by (simp_all add: policy_db_def get_user_def rows_get_def mfa_operator_def sample_user_def)
  then show ?thesis using automation_spares_operators [of 1 "policy_db mfa_operator" mfa_operator sample_env] by fastforce
qed

lemma get_put_policy: "get_policy (lp_user_id q) (put_policy q d) = Some q"
proof -
  have "rows_get lp_user_id (lp_user_id q) (rows_upd lp_user_id (lp_user_id q) (\<lambda>_. q) ps) = Some q"
    if "rows_get lp_user_id (lp_user_id q) ps = Some x" for x ps
    using that by (induction ps) (auto simp: rows_upd_def rows_get_Cons split: if_splits)
  then show ?thesis
    by (auto simp: put_policy_def get_policy_def upd_policy_def rows_get_append rows_get_Cons split: option.split)
qed

lemma users_put: "users (put_policy q d) = users d"
  by (simp add: put_policy_def split: option.split)

text \<open>Clearing the start of a policy does not give access.  An account that is held back until a start
  in the future stays disabled when the operator removes that start, and the policy is marked as started, so that no
  later pass activates the account.\<close>

theorem cleared_start_stays_disabled:
  assumes "permission_guard e req MANAGE_USERS d = Inr pr" "policy_window e f = Inr (None, end_at)"
    and u: "get_user uid d = Some u" "u_role u = ''user''" "u_desired_action u \<noteq> DA_DELETE" "u_status u = US_DISABLED"
    and p: "get_policy uid d = Some p" "is_future e (lp_starts_at p)" "lp_start_applied_at p = None"
  shows "\<exists>resp d' v q. lifecycle_policy_save e req uid f d = (resp, [], d') \<and> get_user uid d' = Some v \<and>
    u_status v = US_DISABLED \<and> get_policy uid d' = Some q \<and> lp_starts_at q = None \<and> (\<forall>w t. \<not> start_is_due (e\<lparr>now := t\<rparr>) q w)"
proof -
  define q where "q = saved_policy e u f None end_at (pr_username pr) (get_policy uid d)"
  have id: "u_id u = uid" using u(1) by (rule user_table.get_key)
  have q: "lp_user_id q = uid" "lp_starts_at q = None" by (simp_all add: q_def saved_policy_def id Let_def)
  define d1 where "d1 = put_policy q d"
  have d1: "get_user uid d1 = Some u" "get_policy uid d1 = Some q"
    using u(1) get_put_policy [of q d] users_put [of q d] by (simp_all add: d1_def q(1) get_user_def)
  obtain resp a b c x where save: "lifecycle_policy_save e req uid f d = (resp, [], record_audit e a b c x None d1)"
    using assms(1,2) u
    by (simp add: lifecycle_policy_save_def user_guarded_def hold_account_def Let_def is_future_def d1_def q_def)
  have "get_policy uid (record_audit e a b c x None d1) = Some q" using d1(2) by (simp add: get_policy_def)
  then show ?thesis using save d1(1) u(4) q by (simp add: start_is_due_def)
qed

definition held_db :: db where
  "held_db = users_db (managed_user\<lparr>u_status := US_DISABLED\<rparr>) []\<lparr>policies := [sample_lifecycle_policy\<lparr>lp_user_id := 2,
     lp_starts_at := Some (1001 * day), lp_ends_at := None, lp_temporary := False\<rparr>]\<rparr>"

definition open_policy_form :: PolicyForm where
  "open_policy_form = \<lparr>gf_owner = ''grace'', gf_reason = ''contract'', gf_starts_at = [], gf_ends_at = [], gf_temporary = [],
     gf_inactivity_review_days = 0, gf_end_action = ''disable'', gf_confirm_delete = []\<rparr>"

theorem cleared_start_stays_disabled_witness:
  "\<exists>d' v. db_after (lifecycle_policy_save sample_env (sample_request True) 2 open_policy_form held_db) = d' \<and>
     get_user 2 d' = Some v \<and> u_status v = US_DISABLED"
proof -
  let ?u = "managed_user\<lparr>u_status := US_DISABLED\<rparr>"
  have rows: "get_user 1 held_db = Some mfa_operator" "get_user 2 held_db = Some ?u"
    using users_db_user [of ?u "[]"] by (simp_all add: held_db_def get_user_def managed_user_def)
  have form: "policy_window sample_env open_policy_form = Inr (None, None)"
    by (simp add: policy_window_def parse_moment_def open_policy_form_def strip_def is_space_def Let_def)
  have u: "u_role ?u = ''user''" "u_desired_action ?u \<noteq> DA_DELETE" "u_status ?u = US_DISABLED"
    by (simp_all add: managed_user_def sample_user_def)
  have "get_policy 2 held_db = Some (hd (policies held_db))" "is_future sample_env (lp_starts_at (hd (policies held_db)))"
    "lp_start_applied_at (hd (policies held_db)) = None"
    by (simp_all add: held_db_def get_policy_def rows_get_def sample_lifecycle_policy_def is_future_def sample_env_def day_def second_def)
  then show ?thesis
    using cleared_start_stays_disabled [OF users_db_session(2) [OF rows(1)] form rows(2) u] by fastforce
qed

end
