(* ===== verification/Csv.thy ===== *)
theory Csv
  imports Security
begin

text \<open>
  The CSV texts that \<open>src/na_sso/bulk.py\<close> reads and writes with the standard library: the
  reader of the excel dialect as the state machine it is, a row at a time, and the writer with minimal quoting.  A reader that
  raises \<open>csv.Error\<close> (a carriage return inside an unquoted field, a field above the limit) gives
  \<open>CsvError\<close>.
\<close>

section \<open>The reader\<close>

datatype csv_state = StartRecord | StartField | InField | InQuoted | QuoteInQuoted | EatNewline

record csv =
  cv_state :: csv_state
  cv_field :: string
  cv_fields :: "string list"

definition csv_start :: csv where
  "csv_start = \<lparr>cv_state = StartRecord, cv_field = [], cv_fields = []\<rparr>"

definition carriage_return :: char where "carriage_return = CHR 0x0D"
definition line_feed :: char where "line_feed = CHR 0x0A"
definition csv_quote :: char where "csv_quote = CHR 0x22"
definition csv_comma :: char where "csv_comma = CHR 0x2C"

lemmas csv_chars = carriage_return_def line_feed_def csv_quote_def csv_comma_def

definition field_limit :: nat where "field_limit = 131072"

definition csv_add :: "char \<Rightarrow> csv_state \<Rightarrow> csv \<Rightarrow> csv option" where
  "csv_add c st s =
    (if length (cv_field s) \<ge> field_limit then None
     else Some (s\<lparr>cv_field := cv_field s @ [c], cv_state := st\<rparr>))"

definition csv_save :: "csv_state \<Rightarrow> csv \<Rightarrow> csv" where
  "csv_save st s = s\<lparr>cv_fields := cv_fields s @ [cv_field s], cv_field := [], cv_state := st\<rparr>"

definition start_field :: "char \<Rightarrow> csv \<Rightarrow> csv option" where
  "start_field c s =
    (if c = line_feed \<or> c = carriage_return then Some (csv_save EatNewline s)
     else if c = csv_quote then Some (s\<lparr>cv_state := InQuoted\<rparr>)
     else if c = csv_comma then Some (csv_save StartField s)
     else csv_add c InField s)"

definition csv_char :: "char \<Rightarrow> csv \<Rightarrow> csv option" where
  "csv_char c s =
    (case cv_state s of
       StartRecord \<Rightarrow>
         if c = line_feed \<or> c = carriage_return then Some (s\<lparr>cv_state := EatNewline\<rparr>) else start_field c s
     | StartField \<Rightarrow> start_field c s
     | InField \<Rightarrow>
         if c = line_feed \<or> c = carriage_return then Some (csv_save EatNewline s)
         else if c = csv_comma then Some (csv_save StartField s)
         else csv_add c InField s
     | InQuoted \<Rightarrow> if c = csv_quote then Some (s\<lparr>cv_state := QuoteInQuoted\<rparr>) else csv_add c InQuoted s
     | QuoteInQuoted \<Rightarrow>
         if c = csv_quote then csv_add c InQuoted s
         else if c = csv_comma then Some (csv_save StartField s)
         else if c = line_feed \<or> c = carriage_return then Some (csv_save EatNewline s)
         else csv_add c InField s
     | EatNewline \<Rightarrow> if c = line_feed \<or> c = carriage_return then Some s else None)"

text \<open>The reader takes the text line by line; a line ends after a line feed, and a record ends with the line in
  which its last field ended.  At the end of the text the started record is given, if there is one.\<close>

datatype csv_result = CsvError | CsvEnd | CsvRow "string list" string

fun csv_next :: "string \<Rightarrow> csv \<Rightarrow> csv_result" where
  "csv_next [] s =
    (if cv_state s = StartRecord then CsvEnd
     else if cv_state s = EatNewline then CsvRow (cv_fields s) []
     else CsvRow (cv_fields s @ [cv_field s]) [])"
| "csv_next (c # cs) s =
    (case csv_char c s of
       None \<Rightarrow> CsvError
     | Some s' \<Rightarrow> if c = line_feed \<and> cv_state s' = EatNewline then CsvRow (cv_fields s') cs else csv_next cs s')"

lemma csv_next_shorter: "csv_next input s = CsvRow r rest \<Longrightarrow> length rest \<le> length input"
proof (induction input arbitrary: s)
  case (Cons c cs)
  then show ?case by (auto split: option.splits if_splits intro: le_SucI)
qed (auto split: if_splits)

function csv_records :: "string \<Rightarrow> string list list option" where
  "csv_records input =
    (if input = [] then Some []
     else (case csv_next input csv_start of
         CsvError \<Rightarrow> None
       | CsvEnd \<Rightarrow> Some []
       | CsvRow r rest \<Rightarrow> map_option (\<lambda>rs. r # rs) (csv_records rest)))"
  by pat_completeness auto
termination
proof (relation "measure length")
  fix input :: string and r rest
  assume "input \<noteq> []" "csv_next input csv_start = CsvRow r rest"
  then show "(rest, input) \<in> measure length"
    by (cases input) (auto dest: csv_next_shorter split: option.splits if_splits)
qed simp

declare csv_records.simps [simp del]

section \<open>The writer\<close>

definition csv_special :: "char \<Rightarrow> bool" where
  "csv_special c \<longleftrightarrow> c \<in> {csv_comma, csv_quote, carriage_return, line_feed}"

definition doubled :: "string \<Rightarrow> string" where
  "doubled f = concat (map (\<lambda>c. if c = csv_quote then [csv_quote, csv_quote] else [c]) f)"

definition csv_field :: "string \<Rightarrow> string" where
  "csv_field f = (if list_ex csv_special f then csv_quote # doubled f @ [csv_quote] else f)"

text \<open>A row of one empty field is quoted, as an empty line would be no row.\<close>

definition csv_row :: "string list \<Rightarrow> string" where
  "csv_row r = (if r = [[]] then [csv_quote, csv_quote] else join_with [csv_comma] (map csv_field r))
     @ [carriage_return, line_feed]"

definition csv_text :: "string list list \<Rightarrow> string" where
  "csv_text rows = concat (map csv_row rows)"

section \<open>What is written is read back\<close>

lemma csv_char_distinct [simp]:
  "csv_comma \<noteq> csv_quote" "csv_quote \<noteq> csv_comma" "csv_comma \<noteq> line_feed" "csv_comma \<noteq> carriage_return"
  "csv_quote \<noteq> line_feed" "csv_quote \<noteq> carriage_return" "carriage_return \<noteq> line_feed" "line_feed \<noteq> carriage_return"
  "line_feed \<noteq> csv_comma" "carriage_return \<noteq> csv_comma" "line_feed \<noteq> csv_quote" "carriage_return \<noteq> csv_quote"
  by (simp_all add: csv_chars)

abbreviation at :: "csv_state \<Rightarrow> string \<Rightarrow> string list \<Rightarrow> csv" where
  "at st f fs \<equiv> \<lparr>cv_state = st, cv_field = f, cv_fields = fs\<rparr>"

text \<open>Plain characters and doubled quotes go into the field.\<close>

lemma read_plain:
  assumes "\<not> list_ex csv_special g" "length f + length g \<le> field_limit"
  shows "csv_next (g @ rest) (at InField f fs) = csv_next rest (at InField (f @ g) fs)"
  using assms
proof (induction g arbitrary: f)
  case (Cons c g)
  then show ?case by (simp add: csv_char_def csv_add_def csv_special_def)
qed simp

lemma read_doubled:
  assumes "length f + length g \<le> field_limit"
  shows "csv_next (doubled g @ rest) (at InQuoted f fs) = csv_next rest (at InQuoted (f @ g) fs)"
  using assms
proof (induction g arbitrary: f)
  case (Cons c g)
  have "csv_next (doubled g @ rest) (at InQuoted (f @ [c]) fs) = csv_next rest (at InQuoted (f @ c # g) fs)"
    using Cons.IH [of "f @ [c]"] Cons.prems by simp
  then show ?case using Cons.prems by (cases "c = csv_quote") (simp_all add: doubled_def csv_char_def csv_add_def)
qed (simp add: doubled_def)

text \<open>A written field, after which comes the comma or the end of the row.\<close>

definition field_read :: "char \<Rightarrow> csv_state" where
  "field_read c = (if c = csv_comma then StartField else EatNewline)"

lemma read_field:
  assumes "st = StartField \<or> (st = StartRecord \<and> (f \<noteq> [] \<or> c = csv_comma))" "length f \<le> field_limit"
    "c = csv_comma \<or> c = carriage_return"
  shows "csv_next (csv_field f @ c # rest) (at st [] fs) = csv_next rest (at (field_read c) [] (fs @ [f]))"
proof (cases "list_ex csv_special f")
  case True
  have "csv_next (csv_field f @ c # rest) (at st [] fs) = csv_next (doubled f @ csv_quote # c # rest) (at InQuoted [] fs)"
    using assms(1) True by (auto simp: csv_field_def csv_char_def start_field_def)
  also have "\<dots> = csv_next (csv_quote # c # rest) (at InQuoted f fs)"
    using read_doubled [of "[]" f] assms(2) by simp
  also have "\<dots> = csv_next rest (at (field_read c) [] (fs @ [f]))"
    using assms(3) by (auto simp: csv_char_def csv_save_def field_read_def)
  finally show ?thesis .
next
  case False
  show ?thesis
  proof (cases f)
    case Nil
    then show ?thesis
      using assms(1,3) by (auto simp: csv_field_def csv_char_def start_field_def csv_save_def field_read_def)
  next
    case (Cons x xs)
    have "csv_next (csv_field f @ c # rest) (at st [] fs) = csv_next (xs @ c # rest) (at InField [x] fs)"
      using assms(1,2) False Cons
      by (auto simp: csv_field_def csv_char_def start_field_def csv_add_def csv_special_def)
    also have "\<dots> = csv_next (c # rest) (at InField f fs)"
      using read_plain [of xs "[x]"] False Cons assms(2) by simp
    also have "\<dots> = csv_next rest (at (field_read c) [] (fs @ [f]))"
      using assms(3) by (auto simp: csv_char_def csv_save_def field_read_def)
    finally show ?thesis .
  qed
qed

lemma read_fields:
  assumes "r \<noteq> []" "st = StartField \<or> (st = StartRecord \<and> r \<noteq> [[]])" "list_all (\<lambda>f. length f \<le> field_limit) r"
  shows "csv_next (join_with [csv_comma] (map csv_field r) @ carriage_return # line_feed # rest) (at st [] fs) =
    CsvRow (fs @ r) rest"
  using assms
proof (induction r arbitrary: st fs)
  case (Cons f r)
  have len: "length f \<le> field_limit" using Cons.prems(3) by simp
  show ?case
  proof (cases r)
    case Nil
    have "csv_next (csv_field f @ carriage_return # line_feed # rest) (at st [] fs) =
        csv_next (line_feed # rest) (at EatNewline [] (fs @ [f]))"
      using read_field [of st f carriage_return "line_feed # rest" fs] Cons.prems(2) len Nil by (auto simp: field_read_def)
    then show ?thesis using Nil by (simp add: csv_char_def)
  next
    case (Cons g gs)
    let ?rest = "join_with [csv_comma] (map csv_field r) @ carriage_return # line_feed # rest"
    have "csv_next (csv_field f @ csv_comma # ?rest) (at st [] fs) = csv_next ?rest (at StartField [] (fs @ [f]))"
      using read_field [of st f csv_comma ?rest fs] Cons.prems(2) len by (auto simp: field_read_def)
    also have "\<dots> = CsvRow ((fs @ [f]) @ r) rest"
      using Cons.IH [of StartField "fs @ [f]"] Cons.prems(3) Cons by simp
    finally show ?thesis using Cons by simp
  qed
qed simp

lemma read_row:
  assumes "r \<noteq> []" "list_all (\<lambda>f. length f \<le> field_limit) r"
  shows "csv_next (csv_row r @ rest) csv_start = CsvRow r rest"
proof (cases "r = [[]]")
  case True
  then show ?thesis
    by (simp add: csv_row_def csv_start_def csv_char_def start_field_def csv_save_def)
next
  case False
  then show ?thesis using read_fields [of r StartRecord rest "[]"] assms by (simp add: csv_row_def csv_start_def)
qed

text \<open>The rows that the writer gives are the rows that the reader finds, whatever the fields contain.\<close>

lemma csv_read_back:
  assumes "list_all (\<lambda>r. r \<noteq> [] \<and> list_all (\<lambda>f. length f \<le> field_limit) r) rows"
  shows "csv_records (csv_text rows) = Some rows"
  using assms
proof (induction rows)
  case Nil
  show ?case by (simp add: csv_text_def csv_records.simps)
next
  case (Cons r rows)
  have "csv_row r \<noteq> []" by (simp add: csv_row_def)
  moreover have "csv_next (csv_text (r # rows)) csv_start = CsvRow r (csv_text rows)"
    using read_row [of r "csv_text rows"] Cons.prems by (simp add: csv_text_def)
  ultimately show ?case
    using Cons by (subst csv_records.simps) (simp add: csv_text_def)
qed

section \<open>UTF-8\<close>

definition byte :: "char \<Rightarrow> nat" where "byte c = of_char c"

definition in_bytes :: "nat \<Rightarrow> nat \<Rightarrow> char \<Rightarrow> bool" where
  "in_bytes lo hi c \<longleftrightarrow> lo \<le> byte c \<and> byte c \<le> hi"

definition continuation :: "char \<Rightarrow> bool" where "continuation c \<longleftrightarrow> in_bytes 128 191 c"

text \<open>The second byte after a leading byte of three or four excludes overlong forms, surrogates and values
  above the last code point.\<close>

definition second_of_three :: "char \<Rightarrow> char \<Rightarrow> bool" where
  "second_of_three a b \<longleftrightarrow> in_bytes (if byte a = 224 then 160 else 128) (if byte a = 237 then 159 else 191) b"

definition second_of_four :: "char \<Rightarrow> char \<Rightarrow> bool" where
  "second_of_four a b \<longleftrightarrow> in_bytes (if byte a = 240 then 144 else 128) (if byte a = 244 then 143 else 191) b"

fun utf8_ok :: "string \<Rightarrow> bool" where
  "utf8_ok [] = True"
| "utf8_ok (a # s) =
    (if byte a < 128 then utf8_ok s
     else if in_bytes 194 223 a then (case s of b # t \<Rightarrow> continuation b \<and> utf8_ok t | [] \<Rightarrow> False)
     else if in_bytes 224 239 a then
       (case s of b # c # t \<Rightarrow> second_of_three a b \<and> continuation c \<and> utf8_ok t | _ \<Rightarrow> False)
     else if in_bytes 240 244 a then
       (case s of b # c # g # t \<Rightarrow> second_of_four a b \<and> continuation c \<and> continuation g \<and> utf8_ok t | _ \<Rightarrow> False)
     else False)"

text \<open>The codec \<open>utf-8-sig\<close> drops a byte order mark at the start.\<close>

definition byte_order_mark :: string where "byte_order_mark = [CHR 0xEF, CHR 0xBB, CHR 0xBF]"

definition decode_utf8_sig :: "string \<Rightarrow> string option" where
  "decode_utf8_sig upload =
    (let rest = (if starts_with byte_order_mark upload then drop 3 upload else upload) in
     if utf8_ok rest then Some rest else None)"

lemma utf8_ascii: "list_all (\<lambda>c. byte c < 128) s \<Longrightarrow> utf8_ok s"
  by (induction s) simp_all

end
