(* ===== verification/Bulk.thy ===== *)
theory Bulk
  imports Background Csv ApiContract
begin

text \<open>
  Bulk onboarding and offboarding, \<open>src/na_sso/bulk.py\<close>: the preview of an import and its checks,
  the execution of a preview, the run of the accepted rows, the CSV texts that are read and written, and the
  handlers of the console and of the automation interface.
\<close>

section \<open>Rows and limits\<close>

definition get_workflow :: "uuid \<Rightarrow> db \<Rightarrow> BulkWorkflow option" where
  "get_workflow k d = rows_get bw_id k (workflows d)"
definition upd_workflow :: "uuid \<Rightarrow> (BulkWorkflow \<Rightarrow> BulkWorkflow) \<Rightarrow> db \<Rightarrow> db" where
  "upd_workflow k f d = d\<lparr>workflows := rows_upd bw_id k f (workflows d)\<rparr>"
definition get_row :: "id \<Rightarrow> db \<Rightarrow> BulkWorkflowRow option" where
  "get_row k d = rows_get br_id k (workflow_rows d)"
definition upd_row :: "id \<Rightarrow> (BulkWorkflowRow \<Rightarrow> BulkWorkflowRow) \<Rightarrow> db \<Rightarrow> db" where
  "upd_row k f d = d\<lparr>workflow_rows := rows_upd br_id k f (workflow_rows d)\<rparr>"

interpretation workflow_table: keyed_rows get_workflow upd_workflow bw_id
  by (rule keyed_rowsI [where rows = workflows]) (simp_all add: get_workflow_def upd_workflow_def)
interpretation row_table: keyed_rows get_row upd_row br_id
  by (rule keyed_rowsI [where rows = workflow_rows]) (simp_all add: get_row_def upd_row_def)

definition rows_of_workflow :: "uuid \<Rightarrow> db \<Rightarrow> BulkWorkflowRow list" where
  "rows_of_workflow wid d = sort_key br_row_number (filter (\<lambda>r. br_workflow_id r = wid) (workflow_rows d))"

definition max_bulk_rows :: "Env \<Rightarrow> nat" where
  "max_bulk_rows e = bi_max_rows (fc_bulk_import_policy (file_config e))"

definition max_csv_bytes :: "Env \<Rightarrow> nat" where
  "max_csv_bytes e = max_upload_bytes (fc_bulk_import_policy (file_config e))"

text \<open>Mebibytes with one decimal place, rounded half to even as the exact quotient is.\<close>

definition tenths :: "nat \<Rightarrow> nat" where
  "tenths n = (let q = n * 10 div 1048576; r = n * 10 mod 1048576 in
     if 2 * r > 1048576 \<or> (2 * r = 1048576 \<and> odd q) then q + 1 else q)"

definition upload_size_label :: "nat \<Rightarrow> string" where
  "upload_size_label byte_cap =
    (if byte_cap \<ge> 1048576 then
       cat [show_nat (tenths byte_cap div 10), ''.'', show_nat (tenths byte_cap mod 10), '' MiB'']
     else cat [show_nat (byte_cap div 1024), '' KiB''])"

definition bulk_key_ok :: "string \<Rightarrow> bool" where  \<comment> \<open>\<open>[A-Za-z0-9._:-]{8,128}\<close>\<close>
  "bulk_key_ok s \<longleftrightarrow> in_range 8 128 (length s) \<and> list_all (\<lambda>c. is_alnum c \<or> c \<in> set ''._:-'') s"

text \<open>A row as it comes: the cells of a CSV row may be missing, and then read as \<open>None\<close>; the target
  identifiers are a text or a list.\<close>

datatype TargetCell = TargetText "string option" | TargetList "string list"

record RawRow =
  rw_username :: "string option"
  rw_action :: "string option"
  rw_display_name :: "string option"
  rw_email :: "string option"
  rw_target_ids :: TargetCell

definition raw_text :: "string option \<Rightarrow> string" where
  "raw_text v = strip (case v of None \<Rightarrow> ''None'' | Some s \<Rightarrow> s)"

definition unique_first :: "'a list \<Rightarrow> 'a list" where
  "unique_first xs = rev (remdups (rev xs))"

definition separated :: "string \<Rightarrow> string list" where
  "separated s = split_on (CHR '','') (map (\<lambda>c. if c \<in> set ''|;,'' then CHR '','' else c) s)"

definition target_ids_of :: "TargetCell \<Rightarrow> string list" where
  "target_ids_of v = unique_first (filter (\<lambda>t. t \<noteq> [])
     (map strip (case v of TargetList ts \<Rightarrow> ts | TargetText None \<Rightarrow> separated [] | TargetText (Some s) \<Rightarrow> separated s)))"

section \<open>The preview\<close>

text \<open>An account that is only built to be checked or to be passed to a connector.\<close>

definition transient_user :: "string \<Rightarrow> string \<Rightarrow> string \<Rightarrow> ManagedUser" where
  "transient_user username display_name email =
    \<lparr>u_id = 0, u_username = username, u_display_name = display_name,
     u_email = email, u_password_hash = None, u_role = ''user'',
     u_password_decision_required = False, u_password_decision_kind = PD_NONE,
     u_password_changed_at = None, u_last_authenticated_at = None,
     u_password_keep_until = None, u_password_keep_count = 0, u_session_version = 1,
     u_ssh_public_key = None, u_status = US_ACTIVE, u_desired_action = ENSURE,
     u_active_operation_id = None, u_deletion_requested_at = None, u_deleted_at = None,
     u_pending_secret = None, u_created_at = 0\<rparr>"

definition unavailable :: "ManagedUser \<Rightarrow> bool" where
  "unavailable u \<longleftrightarrow> is_root u \<or> u_role u \<noteq> ''user'' \<or> u_desired_action u = DA_DELETE"

text \<open>The values of a row after stripping, and the account of that name.\<close>

record CheckedRow =
  cr_username :: string
  cr_action :: string
  cr_display_name :: string
  cr_email :: string
  cr_targets :: "string list"
  cr_existing :: "ManagedUser option"

definition checked_row :: "RawRow \<Rightarrow> db \<Rightarrow> CheckedRow" where
  "checked_row raw d =
    (let username = lower (raw_text (rw_username raw)) in
     \<lparr>cr_username = username, cr_action = lower (raw_text (rw_action raw)),
      cr_display_name = raw_text (rw_display_name raw), cr_email = raw_text (rw_email raw),
      cr_targets = target_ids_of (rw_target_ids raw), cr_existing = get_user_by_name username d\<rparr>)"

definition basic_errors :: "Connector list \<Rightarrow> string list \<Rightarrow> CheckedRow \<Rightarrow> string list" where
  "basic_errors cs seen r =
    (let unknown = filter (\<lambda>t. connector_for t cs = None) (cr_targets r); onboard = (cr_action r = ''onboard'') in rules
      [(cr_username r \<notin> set seen, ''duplicate username in this import''),
       (managed_username_ok (cr_username r), ''invalid managed username''),
       (cr_action r \<in> {''onboard'', ''offboard''}, ''action must be onboard or offboard''),
       (unknown = [], cat [''unknown target(s): '', join_with '', '' unknown]),
       (\<not> (onboard \<and> cr_targets r = []), ''onboarding requires at least one target''),
       (\<not> (onboard \<and> cr_display_name r = []), ''onboarding requires a display name''),
       (\<not> (onboard \<and> cr_email r = []), ''onboarding requires an email address''),
       (\<not> (cr_action r = ''offboard'' \<and> cr_existing r = None), ''offboarding requires an existing account''),
       (case cr_existing r of None \<Rightarrow> True | Some u \<Rightarrow> \<not> unavailable u, ''account is protected or unavailable''),
       (length (cr_display_name r) \<le> 128 \<and> length (cr_email r) \<le> 254 \<and>
          \<not> list_ex (\<lambda>c. c \<in> {carriage_return, line_feed}) (cr_email r), ''profile fields exceed safe bounds'')])"

definition identity_errors :: "CheckedRow \<Rightarrow> string list \<Rightarrow> string list" where
  "identity_errors r errors =
    (if cr_action r = ''onboard'' \<and> errors = [] then
       (let v = validate_universal_identity (transient_user (cr_username r) (cr_display_name r) (cr_email r)) in
        if iv_ok v then [] else [iv_detail v])
     else [])"

text \<open>An offboarding row without targets takes every assigned target; one with targets may name assigned ones only.\<close>

definition offboard_targets :: "CheckedRow \<Rightarrow> db \<Rightarrow> string list \<times> string list" where
  "offboard_targets r d =
    (case (cr_action r = ''offboard'', cr_existing r) of
       (True, Some u) \<Rightarrow>
         (let assigned = assigned_targets (u_id u) d; others = filter (\<lambda>t. t \<notin> set assigned) (cr_targets r) in
          if cr_targets r = [] then (assigned, if assigned = [] then [''account has no assigned targets''] else [])
          else (cr_targets r, if others = [] then [] else [cat [''target(s) not assigned: '', join_with '', '' others]]))
     | _ \<Rightarrow> (cr_targets r, []))"

definition preview_errors :: "Connector list \<Rightarrow> string list \<Rightarrow> CheckedRow \<Rightarrow> db \<Rightarrow> string list" where
  "preview_errors cs seen r d =
    (let errors = basic_errors cs seen r in errors @ identity_errors r errors @ snd (offboard_targets r d))"

definition preview_row ::
  "Connector list \<Rightarrow> uuid \<Rightarrow> nat \<times> RawRow \<Rightarrow> string list \<times> nat \<times> db \<Rightarrow> string list \<times> nat \<times> db" where
  "preview_row cs wid numbered s =
    (case (numbered, s) of ((number, raw), (seen, valid, d)) \<Rightarrow>
      let r = checked_row raw d; errors = preview_errors cs seen r d in
      (cr_username r # seen, if errors = [] then Suc valid else valid,
       d\<lparr>workflow_rows := workflow_rows d @
         [\<lparr>br_id = next_id br_id (workflow_rows d), br_workflow_id = wid, br_row_number = number,
           br_action = cr_action r, br_username = cr_username r, br_display_name = cr_display_name r,
           br_email = cr_email r, br_target_ids = JsonList (fst (offboard_targets r d)),
           br_user_id = map_option u_id (cr_existing r),
           br_validation_status = if errors = [] then ''valid'' else ''invalid'',
           br_result_status = if errors = [] then ''pending'' else ''invalid'',
           br_detail = join_with ''; '' errors, br_operation_id = None,
           br_encrypted_temporary_password = None\<rparr>]\<rparr>))"

definition find_workflow :: "string \<Rightarrow> string \<Rightarrow> db \<Rightarrow> BulkWorkflow option" where
  "find_workflow actor key d = find (\<lambda>w. bw_actor w = actor \<and> bw_idempotency_key w = key) (workflows d)"

definition new_workflow :: "Env \<Rightarrow> string \<Rightarrow> string \<Rightarrow> string \<Rightarrow> nat \<Rightarrow> db \<Rightarrow> BulkWorkflow" where
  "new_workflow e actor origin key n d =
    \<lparr>bw_id = uuid4 d, bw_actor = actor, bw_source = origin, bw_idempotency_key = key, bw_status = ''previewed'',
     bw_row_count = n, bw_valid_count = 0, bw_succeeded_count = 0, bw_failed_count = 0, bw_operation_id = None,
     bw_detail = [], bw_created_at = now e, bw_completed_at = None\<rparr>"

definition en_dash_text :: string where "en_dash_text = [CHR 0xE2, CHR 0x80, CHR 0x93]"

definition preview_bulk_workflow ::
  "Env \<Rightarrow> string \<Rightarrow> string \<Rightarrow> string \<Rightarrow> RawRow list \<Rightarrow> db \<Rightarrow> string + (uuid \<times> db)" where
  "preview_bulk_workflow e actor origin key raws d =
    (if \<not> bulk_key_ok key then Inl (cat [''idempotency key must be 8'', en_dash_text, ''128 safe characters''])
     else if raws = [] \<or> length raws > max_bulk_rows e then
       Inl (cat [''bulk input must contain 1'', en_dash_text, show_nat (max_bulk_rows e), '' rows''])
     else (case find_workflow actor key d of
       Some w \<Rightarrow> Inr (bw_id w, d)
     | None \<Rightarrow>
        (let w = new_workflow e actor origin key (length raws) d; wid = bw_id w;
             d1 = (next_tick d)\<lparr>workflows := workflows d @ [w]\<rparr> in
         case fold (preview_row (get_connectors e d) wid) (enumerate 1 raws) ([], 0, d1) of (seen, valid, d2) \<Rightarrow>
           let invalid = length raws - valid in
           Inr (wid, record_audit e actor ''bulk.import_previewed'' (cat [''bulk-import:'', show_nat wid])
             (cat [''source='', origin, ''; rows='', show_nat (length raws), ''; valid='', show_nat valid]) None
             (upd_workflow wid (\<lambda>w. w\<lparr>bw_valid_count := valid, bw_failed_count := invalid,
                bw_detail := cat [show_nat valid, '' valid row(s); '', show_nat invalid,
                  '' invalid row(s). No changes made.'']\<rparr>) d2)))))"

section \<open>The execution of a preview\<close>

text \<open>What preparing a row or a workflow ends in: the database, a text that is shown, an exception nothing
  catches (and then nothing is committed), or no end at all.\<close>

datatype execution = Prepared db | Rejected string | Crashed string | Endless

text \<open>Passwords are drawn until one does not start like a formula.\<close>

partial_function (option) import_password :: "Env \<Rightarrow> nat \<Rightarrow> (string + string \<times> nat) option" where
  "import_password e t =
    (case generate_password e None t of
       Inl err \<Rightarrow> Some (Inl err)
     | Inr p \<Rightarrow> if hd p \<in> set ''=+-@'' then import_password e (Suc t) else Some (Inr (p, Suc t)))"

definition import_user :: "Env \<Rightarrow> BulkWorkflowRow \<Rightarrow> string \<Rightarrow> db \<Rightarrow> ManagedUser" where
  "import_user e row p d =
    \<lparr>u_id = next_id u_id (users d), u_username = br_username row, u_display_name = br_display_name row,
     u_email = br_email row, u_password_hash = Some (hash_password e p), u_role = ''user'',
     u_password_decision_required = True, u_password_decision_kind = PD_INITIAL,
     u_password_changed_at = None, u_last_authenticated_at = None,
     u_password_keep_until = None, u_password_keep_count = 0, u_session_version = 1,
     u_ssh_public_key = None, u_status = US_ACTIVE, u_desired_action = ENSURE,
     u_active_operation_id = None, u_deletion_requested_at = None, u_deleted_at = None,
     u_pending_secret = None, u_created_at = now e\<rparr>"

definition row_failed :: "BulkWorkflowRow \<Rightarrow> string \<Rightarrow> db \<Rightarrow> execution" where
  "row_failed row err d =
    Prepared (upd_row (br_id row) (\<lambda>r. r\<lparr>br_result_status := ''failed'', br_detail := err\<rparr>) d)"

definition row_targets :: "BulkWorkflowRow \<Rightarrow> string list" where
  "row_targets row = (case br_target_ids row of JsonList ts \<Rightarrow> ts | NotAList \<Rightarrow> [])"

definition row_accepted :: "Env \<Rightarrow> string \<Rightarrow> uuid \<Rightarrow> BulkWorkflowRow \<Rightarrow> id \<Rightarrow> uuid \<Rightarrow> db \<Rightarrow> execution" where
  "row_accepted e actor parent row uid i d =
    Prepared (record_audit e actor (cat [''bulk.import_'', br_action row]) (br_username row)
      (cat [''targets='', join_with '','' (row_targets row), ''; row='', show_nat (br_row_number row)]) (Some parent)
      (upd_row (br_id row) (\<lambda>r. r\<lparr>br_user_id := Some uid, br_operation_id := Some i, br_result_status := ''queued'',
           br_detail := ''accepted for correlated execution''\<rparr>)
        (upd_operation i (\<lambda>oper. oper\<lparr>op_parent_id := Some parent\<rparr>) d)))"

text \<open>An onboarding row selects the targets first and requests the operation then; what it has changed by the
  time of a conflict stays.  An account that is no root never makes \<open>_set_pending\<close> raise the
  \<open>ValueError\<close> that would be caught.\<close>

definition select_and_request ::
  "Env \<Rightarrow> string \<Rightarrow> uuid \<Rightarrow> BulkWorkflowRow \<Rightarrow> id \<Rightarrow> bool \<Rightarrow> db \<Rightarrow> execution" where
  "select_and_request e actor parent row uid is_new d =
    (case set_pending e uid None (Some (assigned_targets uid d @ row_targets row))
            (pending_options\<lparr>po_require_password_change := is_new, po_actor := actor\<rparr>) d of
       Inl err \<Rightarrow> Crashed err
     | Inr d1 \<Rightarrow>
        (case request_operation e uid (if is_new then CREATE else UPDATE) actor None d1 of
           (Inl err, d2) \<Rightarrow> row_failed row err d2
         | (Inr i, d2) \<Rightarrow> row_accepted e actor parent row uid i d2))"

definition onboard_row :: "Env \<Rightarrow> string \<Rightarrow> uuid \<Rightarrow> BulkWorkflowRow \<Rightarrow> ManagedUser option \<Rightarrow> db \<Rightarrow> execution" where
  "onboard_row e actor parent row user d =
    (case user of
       Some u \<Rightarrow> select_and_request e actor parent row (u_id u) False
         (upd_user (u_id u) (\<lambda>u. u\<lparr>u_display_name := br_display_name row, u_email := br_email row\<rparr>) d)
     | None \<Rightarrow>
        (case import_password e (tick d) of
           None \<Rightarrow> Endless
         | Some (Inl err) \<Rightarrow> row_failed row err d
         | Some (Inr (p, t)) \<Rightarrow>
            (let u = import_user e row p d in
             select_and_request e actor parent row (u_id u) True
               (upd_row (br_id row) (\<lambda>r. r\<lparr>br_user_id := Some (u_id u),
                    br_encrypted_temporary_password := Some (encrypt_secret e p)\<rparr>)
                 (d\<lparr>tick := t, users := users d @ [u]\<rparr>)))))"

text \<open>An offboarding row requests the operation before it changes a state.\<close>

definition offboard_row :: "Env \<Rightarrow> string \<Rightarrow> uuid \<Rightarrow> BulkWorkflowRow \<Rightarrow> ManagedUser option \<Rightarrow> db \<Rightarrow> execution" where
  "offboard_row e actor parent row user d =
    (case user of
       None \<Rightarrow> row_failed row ''account no longer exists'' d
     | Some u \<Rightarrow>
        (case request_operation e (u_id u) UPDATE actor None d of
           (Inl err, d1) \<Rightarrow> row_failed row err d1
         | (Inr i, d1) \<Rightarrow>
            (case set_pending e (u_id u) None
                    (Some (filter (\<lambda>t. t \<notin> set (row_targets row)) (assigned_targets (u_id u) d)))
                    (pending_options\<lparr>po_actor := actor\<rparr>) d1 of
               Inl err \<Rightarrow> Crashed err
             | Inr d2 \<Rightarrow> row_accepted e actor parent row (u_id u) i d2)))"

definition execute_row :: "Env \<Rightarrow> string \<Rightarrow> uuid \<Rightarrow> BulkWorkflowRow \<Rightarrow> db \<Rightarrow> execution" where
  "execute_row e actor parent row d =
    (if br_validation_status row \<noteq> ''valid'' then Prepared d
     else
       (let user = get_user_by_name (br_username row) d in
        if (case user of None \<Rightarrow> False | Some u \<Rightarrow> unavailable u) then
          row_failed row ''account became protected or unavailable after preview'' d
        else if br_action row = ''onboard'' then onboard_row e actor parent row user d
        else offboard_row e actor parent row user d))"

fun execute_rows :: "Env \<Rightarrow> string \<Rightarrow> uuid \<Rightarrow> BulkWorkflowRow list \<Rightarrow> db \<Rightarrow> execution" where
  "execute_rows e actor parent [] d = Prepared d"
| "execute_rows e actor parent (row # rows) d =
    (case execute_row e actor parent row d of Prepared d1 \<Rightarrow> execute_rows e actor parent rows d1 | x \<Rightarrow> x)"

definition bulk_parent :: "Env \<Rightarrow> BulkWorkflow \<Rightarrow> uuid \<Rightarrow> LifecycleOperation" where
  "bulk_parent e w i =
    (new_operation e i None BULK (bw_actor w) (cat [''bulk-import:'', show_nat (bw_id w)]) None None)
      \<lparr>op_status := RUNNING, op_total_targets := bw_row_count w, op_started_at := Some (now e)\<rparr>"

definition prepare_bulk_execution :: "Env \<Rightarrow> uuid \<Rightarrow> string \<Rightarrow> string \<Rightarrow> db \<Rightarrow> execution" where
  "prepare_bulk_execution e wid actor key d =
    (case get_workflow wid d of
       None \<Rightarrow> Rejected ''bulk workflow not found''
     | Some w \<Rightarrow>
        if bw_actor w \<noteq> actor then Rejected ''bulk workflow not found''
        else if bw_idempotency_key w \<noteq> key then Rejected ''idempotency key does not match the saved preview''
        else if bw_status w \<noteq> ''previewed'' then Prepared d
        else
          (let parent = uuid4 d;
               d1 = upd_workflow wid (\<lambda>w. w\<lparr>bw_operation_id := Some parent, bw_status := ''running''\<rparr>)
                      (add_operation (bulk_parent e w parent) d)
           in case execute_rows e actor parent (rows_of_workflow wid d) d1 of
                Prepared d2 \<Rightarrow> Prepared (record_audit e actor ''bulk.import_approved'' (cat [''bulk-import:'', show_nat wid])
                    (cat [''rows='', show_nat (bw_row_count w), ''; valid='', show_nat (bw_valid_count w)]) (Some parent) d2)
              | x \<Rightarrow> x))"

section \<open>The run of the accepted rows\<close>

definition row_result :: "BulkWorkflowRow \<Rightarrow> db \<Rightarrow> db" where
  "row_result row d =
    (let oper = Option.bind (br_operation_id row) (\<lambda>i. get_operation i d) in
     upd_row (br_id row) (\<lambda>r. r\<lparr>
       br_result_status := (case oper of Some x \<Rightarrow> if op_status x = SUCCEEDED then ''succeeded'' else ''failed'' | None \<Rightarrow> ''failed''),
       br_detail := (case oper of Some x \<Rightarrow> if op_detail x \<noteq> [] then op_detail x else br_detail r | None \<Rightarrow> br_detail r)\<rparr>) d)"

fun run_rows :: "Env \<Rightarrow> string \<Rightarrow> BulkWorkflowRow list \<Rightarrow> db \<Rightarrow> unit outcome" where
  "run_rows e actor [] d = Done () d"
| "run_rows e actor (row # rows) d =
    (case (case (br_user_id row, br_operation_id row) of
             (Some uid, Some i) \<Rightarrow> sync_user e uid None None actor (Some i) d
           | _ \<Rightarrow> Done None d) of
       Raised err d1 \<Rightarrow> Raised err d1
     | Done _ d1 \<Rightarrow> run_rows e actor rows (row_result row d1))"

definition finished_workflow :: "Env \<Rightarrow> nat \<Rightarrow> nat \<Rightarrow> BulkWorkflow \<Rightarrow> BulkWorkflow" where
  "finished_workflow e succeeded failed w = w\<lparr>bw_succeeded_count := succeeded, bw_failed_count := failed,
     bw_status := (if failed = 0 then ''completed'' else if succeeded \<noteq> 0 then ''partially_failed'' else ''failed''),
     bw_completed_at := Some (now e),
     bw_detail := cat [show_nat succeeded, '' row(s) succeeded; '', show_nat failed, '' failed validation or execution.'']\<rparr>"

definition finished_parent :: "BulkWorkflow \<Rightarrow> LifecycleOperation \<Rightarrow> LifecycleOperation" where
  "finished_parent w oper = oper\<lparr>op_completed_targets := bw_succeeded_count w, op_failed_targets := bw_failed_count w,
     op_status := (if bw_failed_count w = 0 then SUCCEEDED
       else if bw_succeeded_count w \<noteq> 0 then PARTIALLY_FAILED else OP_FAILED),
     op_detail := bw_detail w, op_completed_at := bw_completed_at w\<rparr>"

definition finish_workflow :: "Env \<Rightarrow> uuid \<Rightarrow> db \<Rightarrow> db" where
  "finish_workflow e wid d =
    (case get_workflow wid d of
       None \<Rightarrow> d
     | Some w \<Rightarrow>
        if bw_status w \<noteq> ''running'' then d
        else
          (let rows = filter (\<lambda>r. br_workflow_id r = wid) (workflow_rows d);
               succeeded = length (filter (\<lambda>r. br_result_status r = ''succeeded'') rows);
               w' = finished_workflow e succeeded (length rows - succeeded) w;
               d1 = upd_workflow wid (finished_workflow e succeeded (length rows - succeeded)) d;
               d2 = (case bw_operation_id w of None \<Rightarrow> d1 | Some i \<Rightarrow> upd_operation i (finished_parent w') d1)
           in notify e ''approval.completed''
                \<lparr>ev_actor = bw_actor w, ev_subject = cat [''bulk-import:'', show_nat wid],
                 ev_dedupe_key = cat [''bulk-import:'', show_nat wid], ev_operation_id = bw_operation_id w,
                 ev_target_id = None, ev_outcome = Some (bw_status w')\<rparr>
                (record_audit e (bw_actor w) ''bulk.import_completed'' (cat [''bulk-import:'', show_nat wid])
                  (bw_detail w') (bw_operation_id w) d2)))"

definition run_bulk_workflow :: "Env \<Rightarrow> uuid \<Rightarrow> db \<Rightarrow> unit outcome" where
  "run_bulk_workflow e wid d =
    (let actor = (case get_workflow wid d of None \<Rightarrow> ''system'' | Some w \<Rightarrow> bw_actor w) in
     case run_rows e actor (filter (\<lambda>r. br_result_status r = ''queued'') (rows_of_workflow wid d)) d of
       Raised err d1 \<Rightarrow> Raised err d1
     | Done _ d1 \<Rightarrow> Done () (finish_workflow e wid d1))"

section \<open>CSV uploads and downloads\<close>

definition CSV_COLUMNS :: "string list" where
  "CSV_COLUMNS = [''username'', ''action'', ''display_name'', ''email'', ''target_ids'']"

text \<open>The cell of a column: the last column of that name counts, and a row that is too short has no cell there.\<close>

definition csv_cell :: "string list \<Rightarrow> string list \<Rightarrow> string \<Rightarrow> string option" where
  "csv_cell names row column =
    (case filter (\<lambda>i. names ! i = column) [0..<length names] of
       [] \<Rightarrow> None
     | positions \<Rightarrow> if last positions < length row then Some (row ! last positions) else None)"

definition csv_raw_row :: "string list \<Rightarrow> string list \<Rightarrow> RawRow" where
  "csv_raw_row names row =
    \<lparr>rw_username = csv_cell names row ''username'', rw_action = csv_cell names row ''action'',
     rw_display_name = csv_cell names row ''display_name'', rw_email = csv_cell names row ''email'',
     rw_target_ids = TargetText (csv_cell names row ''target_ids'')\<rparr>"

datatype 'a parsed = Parsed 'a | ParseRejected string | ParseCrashed string

text \<open>The rows after the header; empty lines are skipped.\<close>

definition csv_data :: "Env \<Rightarrow> string list \<Rightarrow> string \<Rightarrow> RawRow list parsed" where
  "csv_data e names rest =
    (let missing = filter (\<lambda>c. c \<notin> set names) CSV_COLUMNS in
     if missing \<noteq> [] then ParseRejected (cat [''CSV is missing required column(s): '', join_with '', '' missing])
     else (case csv_records rest of
       None \<Rightarrow> ParseCrashed ''csv.Error''
     | Some records \<Rightarrow>
        (let rows = filter (\<lambda>r. r \<noteq> []) records in
         if rows = [] \<or> length rows > max_bulk_rows e then
           ParseRejected (cat [''CSV must contain 1'', en_dash_text, show_nat (max_bulk_rows e), '' data rows''])
         else Parsed (map (csv_raw_row names) rows))))"

definition parse_csv :: "Env \<Rightarrow> string \<Rightarrow> RawRow list parsed" where
  "parse_csv e upload =
    (if length upload > max_csv_bytes e then
       ParseRejected (cat [''CSV upload exceeds '', upload_size_label (max_csv_bytes e)])
     else (case decode_utf8_sig upload of
       None \<Rightarrow> ParseRejected ''CSV must use UTF-8''
     | Some body \<Rightarrow>
        (case csv_next body csv_start of
           CsvError \<Rightarrow> ParseCrashed ''csv.Error''
         | CsvEnd \<Rightarrow> csv_data e [] []
         | CsvRow names rest \<Rightarrow> csv_data e names rest)))"

text \<open>A cell of a download that starts like a formula is preceded by an apostrophe.\<close>

definition formula_start :: "string \<Rightarrow> bool" where
  "formula_start s = (case dropWhile is_space s of [] \<Rightarrow> False | c # cs \<Rightarrow> c \<in> set ''=+-@'')"

definition safe_cell :: "string \<Rightarrow> string" where
  "safe_cell s = (if formula_start s then CHR 0x27 # s else s)"

definition csv_response :: "string list \<Rightarrow> string list list \<Rightarrow> string \<Rightarrow> Response" where
  "csv_response names rows filename =
    Shown filename [csv_text ((if rows = [] then [''row'', ''username'', ''status'', ''detail''] else names)
      # map (map safe_cell) rows)]"

definition bulk_template_rows :: "Env \<Rightarrow> db \<Rightarrow> string list list" where
  "bulk_template_rows e d =
    (let ids = map c_target_id (get_connectors e d);
         primary = (case ids of [] \<Rightarrow> ''example-target'' | t # ts \<Rightarrow> t);
         several = (if ids \<noteq> [] then join_with ''|'' (take 3 ids) else primary)
     in [[''jane.doe'', ''onboard'', ''Jane Doe'', ''jane.doe@example.com'', several],
         [''john.roe'', ''onboard'', ''John Roe'', ''john.roe@example.com'', primary],
         [''former.staff'', ''offboard'', [], [], []]])"

section \<open>The handlers of the console\<close>

definition load_owned_workflow :: "uuid \<Rightarrow> string \<Rightarrow> db \<Rightarrow> BulkWorkflow option" where
  "load_owned_workflow wid actor d =
    (case get_workflow wid d of None \<Rightarrow> None | Some w \<Rightarrow> if bw_actor w \<noteq> actor then None else Some w)"

definition import_path :: "uuid \<Rightarrow> string" where
  "import_path wid = cat [''/users/bulk/import/'', show_nat wid]"

definition bulk_import_template :: "Env \<Rightarrow> Request \<Rightarrow> db \<Rightarrow> Response \<times> db" where
  "bulk_import_template e req d = guarded e req MANAGE_USERS (\<lambda>pr d.
    (csv_response CSV_COLUMNS (bulk_template_rows e d) ''na-sso-bulk-import-template.csv'', d)) d"

definition bulk_import_page :: "Env \<Rightarrow> Request \<Rightarrow> db \<Rightarrow> Response \<times> db" where
  "bulk_import_page e req d = guarded e req MANAGE_USERS (\<lambda>pr d.
    (Shown ''bulk_import.html''
       (map (\<lambda>w. show_nat (bw_id w)) (take 20 (sort_key (\<lambda>w. - bw_created_at w)
          (filter (\<lambda>w. bw_actor w = pr_username pr) (workflows d))))
        @ [show_nat (max_bulk_rows e), upload_size_label (max_csv_bytes e)]
        @ map c_target_id (get_connectors e d)), d)) d"

text \<open>The handler reads one byte more than the limit, so that a longer upload is noticed.\<close>

definition bulk_import_preview :: "Env \<Rightarrow> Request \<Rightarrow> string \<Rightarrow> db \<Rightarrow> Response \<times> db" where
  "bulk_import_preview e req upload d = guarded e req MANAGE_USERS (\<lambda>pr d.
    let rejected = (\<lambda>err. (redirect_with_feedback ''/users/bulk/import'' ''Import rejected'' err ''danger'', d)) in
    case parse_csv e (take (max_csv_bytes e + 1) upload) of
      ParseCrashed err \<Rightarrow> (ServerError err, d)
    | ParseRejected err \<Rightarrow> rejected err
    | Parsed rows \<Rightarrow>
       (case preview_bulk_workflow e (pr_username pr) ''csv'' (show_nat (10000000 + uuid4 d)) rows (next_tick d) of
          Inl err \<Rightarrow> rejected err
        | Inr (wid, d1) \<Rightarrow> (Redirect (import_path wid), d1))) d"

definition bulk_import_detail :: "Env \<Rightarrow> Request \<Rightarrow> uuid \<Rightarrow> db \<Rightarrow> Response \<times> db" where
  "bulk_import_detail e req wid d = guarded e req MANAGE_USERS (\<lambda>pr d.
    (case load_owned_workflow wid (pr_username pr) d of
       None \<Rightarrow> (Redirect ''/users/bulk/import'', d)
     | Some w \<Rightarrow> (Shown ''bulk_import_detail.html'' (bw_detail w # map br_username (rows_of_workflow wid d)), d))) d"

text \<open>The answer, the workflow to run in the background if there is one, and the database; nothing when the
  drawing of passwords does not end.\<close>

type_synonym bulk_answer = "(Response \<times> uuid option \<times> db) option"

definition to_run :: "uuid \<Rightarrow> db \<Rightarrow> uuid option" where
  "to_run wid d = (case get_workflow wid d of
     None \<Rightarrow> None | Some w \<Rightarrow> if bw_status w = ''running'' then Some wid else None)"

definition bulk_import_execute :: "Env \<Rightarrow> Request \<Rightarrow> uuid \<Rightarrow> string \<Rightarrow> db \<Rightarrow> bulk_answer" where
  "bulk_import_execute e req wid key d =
    (case permission_guard e req MANAGE_USERS d of
       Inl resp \<Rightarrow> Some (resp, None, d)
     | Inr pr \<Rightarrow>
        (case prepare_bulk_execution e wid (pr_username pr) key d of
           Endless \<Rightarrow> None
         | Crashed err \<Rightarrow> Some (ServerError err, None, d)
         | Rejected err \<Rightarrow> Some (redirect_with_feedback (import_path wid) ''Bulk execution rejected'' err ''danger'', None, d)
         | Prepared d1 \<Rightarrow>
             Some (redirect_with_feedback (import_path wid) ''Bulk workflow accepted''
               (cat [''Execution is idempotent. Correlation '', show_nat (case Option.bind (get_workflow wid d1) bw_operation_id of
                  None \<Rightarrow> wid | Some i \<Rightarrow> i), ''.'']) ''success'', to_run wid d1, d1)))"

section \<open>Results, one-time credentials and the automation interface\<close>

definition optional_json :: "uuid option \<Rightarrow> json" where
  "optional_json v = (case v of None \<Rightarrow> JNull | Some i \<Rightarrow> JText (show_nat i))"

definition row_payload :: "BulkWorkflowRow \<Rightarrow> json" where
  "row_payload r = JObject [(''row'', JInt (int (br_row_number r))), (''username'', JText (br_username r)),
     (''action'', JText (br_action r)), (''target_ids'', JArray (map JText (row_targets r))),
     (''validation'', JText (br_validation_status r)), (''result'', JText (br_result_status r)),
     (''detail'', JText (br_detail r)), (''operation_id'', optional_json (br_operation_id r)),
     (''temporary_credential_available'', JBool (has_text (br_encrypted_temporary_password r)))]"

definition workflow_payload :: "BulkWorkflow \<Rightarrow> db \<Rightarrow> json" where
  "workflow_payload w d = JObject [(''id'', JText (show_nat (bw_id w))), (''idempotency_key'', JText (bw_idempotency_key w)),
     (''status'', JText (bw_status w)), (''row_count'', JInt (int (bw_row_count w))),
     (''valid_count'', JInt (int (bw_valid_count w))), (''succeeded_count'', JInt (int (bw_succeeded_count w))),
     (''failed_count'', JInt (int (bw_failed_count w))), (''operation_id'', optional_json (bw_operation_id w)),
     (''detail'', JText (bw_detail w)), (''rows'', JArray (map row_payload (rows_of_workflow (bw_id w) d)))]"

definition result_columns :: "string list" where
  "result_columns = [''row'', ''username'', ''action'', ''target_ids'', ''validation'', ''result'', ''detail'', ''operation_id'']"

definition result_row :: "BulkWorkflowRow \<Rightarrow> string list" where
  "result_row r = [show_nat (br_row_number r), br_username r, br_action r, join_with ''|'' (row_targets r),
     br_validation_status r, br_result_status r, br_detail r,
     case br_operation_id r of None \<Rightarrow> [] | Some i \<Rightarrow> show_nat i]"

definition bulk_import_results :: "Env \<Rightarrow> Request \<Rightarrow> uuid \<Rightarrow> string \<Rightarrow> db \<Rightarrow> Response \<times> db" where
  "bulk_import_results e req wid format d = guarded e req MANAGE_USERS (\<lambda>pr d.
    (case load_owned_workflow wid (pr_username pr) d of
       None \<Rightarrow> (Plain ''Not found'' 404, d)
     | Some w \<Rightarrow>
        if format = ''json'' then (Json 200 (dumps (workflow_payload w d)), d)
        else if format \<noteq> ''csv'' then (Plain ''Unsupported result format'' 404, d)
        else (csv_response result_columns (map result_row (rows_of_workflow wid d))
                (cat [''na-sso-bulk-'', show_nat wid, ''-results.csv'']), d))) d"

text \<open>The temporary passwords are shown once: the download removes them.\<close>

definition credential_rows :: "uuid \<Rightarrow> db \<Rightarrow> BulkWorkflowRow list" where
  "credential_rows wid d = filter (\<lambda>r. br_encrypted_temporary_password r \<noteq> None) (rows_of_workflow wid d)"

definition bulk_import_credentials :: "Env \<Rightarrow> Request \<Rightarrow> uuid \<Rightarrow> db \<Rightarrow> Response \<times> db" where
  "bulk_import_credentials e req wid d = guarded e req MANAGE_USERS (\<lambda>pr d.
    (case load_owned_workflow wid (pr_username pr) d of
       None \<Rightarrow> (Plain ''Not found'' 404, d)
     | Some w \<Rightarrow>
        (let rows = credential_rows wid d in
         if rows = [] then (Plain ''No one-time credentials remain'' 410, d)
         else (csv_response [''username'', ''temporary_password'', ''instruction'']
                 (map (\<lambda>r. [br_username r, decrypt_secret e (the (br_encrypted_temporary_password r)),
                    ''User must change this password before target provisioning'']) rows)
                 (cat [''na-sso-bulk-'', show_nat wid, ''-credentials-once.csv'']),
               record_audit e (pr_username pr) ''bulk.credentials_downloaded'' (cat [''bulk-import:'', show_nat wid])
                 (cat [''accounts='', show_nat (length rows)]) (bw_operation_id w)
                 (fold (\<lambda>r. upd_row (br_id r) (\<lambda>r. r\<lparr>br_encrypted_temporary_password := None\<rparr>)) rows d))))) d"

text \<open>A handler of the automation interface: its answer, the windows of the rate limit, and the database.\<close>

type_synonym api_answer = "ApiResponse \<times> windows \<times> db"

definition api_guarded ::
  "Env \<Rightarrow> ApiRequest \<Rightarrow> permission option \<Rightarrow> (ApiPrincipal \<Rightarrow> headers \<Rightarrow> db \<Rightarrow> ApiResponse \<times> db) \<Rightarrow> windows \<Rightarrow> db \<Rightarrow> api_answer" where
  "api_guarded e x perm body w d =
    (case api_guard e x perm w d of
       (Inl resp, _, w1, d1) \<Rightarrow> (resp, w1, d1)
     | (Inr p, h, w1, d1) \<Rightarrow> (case body p h d1 of (resp, d2) \<Rightarrow> (resp, w1, d2)))"

definition bulk_api_preview :: "Env \<Rightarrow> ApiRequest \<Rightarrow> string \<Rightarrow> RawRow list \<Rightarrow> windows \<Rightarrow> db \<Rightarrow> api_answer" where
  "bulk_api_preview e x key rows w d = api_guarded e x (Some MANAGE_USERS) (\<lambda>p h d.
    (case preview_bulk_workflow e (api_username p) ''api'' key rows d of
       Inl err \<Rightarrow> (api_error x h 422 ''bulk_preview_rejected'' err None [], d)
     | Inr (wid, d1) \<Rightarrow> (api_response x h (workflow_payload (the (get_workflow wid d1)) d1) 201 None [], d1))) w d"

text \<open>The answer carries the workflow to run, if there is one; \<open>Inl\<close> is an exception no handler caught.\<close>

definition bulk_api_execute ::
  "Env \<Rightarrow> ApiRequest \<Rightarrow> uuid \<Rightarrow> string \<Rightarrow> windows \<Rightarrow> db \<Rightarrow> (string \<times> windows \<times> db + uuid option \<times> api_answer) option" where
  "bulk_api_execute e x wid key w d =
    (case api_guard e x (Some MANAGE_USERS) w d of
       (Inl resp, _, w1, d1) \<Rightarrow> Some (Inr (None, resp, w1, d1))
     | (Inr p, h, w1, d1) \<Rightarrow>
        (case prepare_bulk_execution e wid (api_username p) key d1 of
           Endless \<Rightarrow> None
         | Crashed err \<Rightarrow> Some (Inl (err, w1, d1))
         | Rejected err \<Rightarrow> Some (Inr (None, api_error x h 422 ''bulk_execution_rejected'' err None [], w1, d1))
         | Prepared d2 \<Rightarrow> Some (Inr (to_run wid d2,
             api_response x h (workflow_payload (the (get_workflow wid d2)) d2) 202 None [], w1, d2))))"

definition bulk_api_detail :: "Env \<Rightarrow> ApiRequest \<Rightarrow> uuid \<Rightarrow> windows \<Rightarrow> db \<Rightarrow> api_answer" where
  "bulk_api_detail e x wid w d = api_guarded e x (Some MANAGE_USERS) (\<lambda>p h d.
    (case load_owned_workflow wid (api_username p) d of
       None \<Rightarrow> (api_error x h 404 ''not_found'' ''The bulk workflow was not found.'' None [], d)
     | Some v \<Rightarrow> (api_response x h (workflow_payload v d) 200 None [], d))) w d"

section \<open>Downloads are read back\<close>

lemma safe_cell_start: "\<not> formula_start (safe_cell s)"
proof -
  have "\<not> is_space (CHR 0x27)" by (simp add: is_space_def)
  then show ?thesis by (simp add: safe_cell_def formula_start_def)
qed

text \<open>C32: A download is read back as its rows, and no cell of it starts like a formula.  Whatever the cells contain,
  the CSV reader finds the header and the rows of a download, each cell as it was or behind an apostrophe, and
  after leading blanks no cell begins with a sign that a spreadsheet would evaluate.\<close>

theorem download_is_read_back:
  assumes "names \<noteq> []" "rows \<noteq> []" "list_all (\<lambda>f. length f \<le> field_limit) names"
    and "list_all (\<lambda>r. r \<noteq> [] \<and> list_all (\<lambda>f. length f < field_limit) r) rows"
  shows "\<exists>body. csv_response names rows filename = Shown filename [body] \<and>
    csv_records body = Some (names # map (map safe_cell) rows) \<and>
    list_all (list_all (\<lambda>f. \<not> formula_start f)) (map (map safe_cell) rows)"
proof -
  have "length (safe_cell f) \<le> field_limit" if "length f < field_limit" for f
    using that by (simp add: safe_cell_def)
  then have "csv_records (csv_text (names # map (map safe_cell) rows)) = Some (names # map (map safe_cell) rows)"
    using assms by (intro csv_read_back) (fastforce simp: list_all_iff)
  then show ?thesis
    using assms(2) safe_cell_start by (simp add: csv_response_def list_all_iff)
qed

theorem download_is_read_back_witness:
  "\<exists>body. csv_response [''username'', ''detail''] [[''ada'', ''=1+1''], [''bob'', ''a, b'']] ''x.csv'' = Shown ''x.csv'' [body] \<and>
     csv_records body = Some [[''username'', ''detail''], [''ada'', CHR 0x27 # ''=1+1''], [''bob'', ''a, b'']]"
proof -
  have "map (map safe_cell) [[''ada'', ''=1+1''], [''bob'', ''a, b'']] = [[''ada'', CHR 0x27 # ''=1+1''], [''bob'', ''a, b'']]"
    by (simp add: safe_cell_def formula_start_def is_space_def)
  then show ?thesis
    using download_is_read_back [of "[''username'', ''detail'']" "[[''ada'', ''=1+1''], [''bob'', ''a, b'']]" "''x.csv''"]
    by (auto simp: field_limit_def)
qed

section \<open>Drawn passwords\<close>

definition usable_draw :: "Env \<Rightarrow> nat \<Rightarrow> bool" where
  "usable_draw e t \<longleftrightarrow> (case generate_password e None t of Inl err \<Rightarrow> True | Inr p \<Rightarrow> hd p \<notin> set ''=+-@'')"

text \<open>Drawing an import password ends as soon as a draw is usable, and only then.  It gives the first draw that does
  not start like a formula, or the error of the password policy.\<close>

theorem import_password_returns:
  assumes "usable_draw e (t + n)"
  shows "\<exists>r. import_password e t = Some r \<and>
    (case r of Inl err \<Rightarrow> True | Inr (p, t') \<Rightarrow> hd p \<notin> set ''=+-@'' \<and> t < t' \<and> t' \<le> Suc (t + n) \<and>
       generate_password e None (t' - 1) = Inr p)"
  using assms
proof (induction n arbitrary: t)
  case 0
  then show ?case
    by (subst import_password.simps) (auto simp: usable_draw_def split: sum.split)
next
  case (Suc n)
  show ?case
  proof (cases "usable_draw e t")
    case True
    then show ?thesis
      by (subst import_password.simps) (auto simp: usable_draw_def split: sum.split)
  next
    case False
    then have "import_password e t = import_password e (Suc t)"
      by (subst import_password.simps) (auto simp: usable_draw_def split: sum.splits)
    moreover have "usable_draw e (Suc t + n)" using Suc.prems by simp
    ultimately show ?thesis using Suc.IH [of "Suc t"] by (fastforce split: sum.splits)
  qed
qed

theorem import_password_returns_witness:
  "\<exists>r. import_password sample_env 0 = Some r"
proof -
  have "ascii_lowercase ! 0 = CHR ''a''" by code_simp
  then have "usable_draw sample_env (0 + 0)"
    by (simp add: usable_draw_def generate_password_def password_pools_def required_draws_def choice_of_def sample_env_def
        sample_file_def default_password_policy_def file_config_def Let_def hd_map hd_upt)
  then show ?thesis using import_password_returns [of sample_env 0 0] by blast
qed

section \<open>Credentials are shown once\<close>

lemma upd_row_frame [simp]:
  "get_user i (upd_row k f d) = get_user i d" "mfas (upd_row k f d) = mfas d" "passkeys (upd_row k f d) = passkeys d"
  "users (upd_row k f d) = users d" "workflows (upd_row k f d) = workflows d" "operations (upd_row k f d) = operations d"
  "sync_states (upd_row k f d) = sync_states d" "tick (upd_row k f d) = tick d"
  by (simp_all add: upd_row_def get_user_def)

text \<open>The guard looks at users and factors only.\<close>

lemma guard_cong:
  assumes "users d' = users d" "mfas d' = mfas d" "passkeys d' = passkeys d"
  shows "permission_guard e req p d' = permission_guard e req p d"
proof -
  have user: "get_user i d' = get_user i d" for i using assms by (simp add: get_user_def)
  have mfa: "account_requires_mfa e i r d' = account_requires_mfa e i r d" for i r
    using assms by (simp add: account_requires_mfa_def account_has_mfa_def get_mfa_def)
  show ?thesis unfolding permission_guard_def current_user_def user mfa by (rule refl)
qed

lemma fold_clears:
  assumes "set rows \<subseteq> set (workflow_rows d)" "r \<in> set (workflow_rows (fold (\<lambda>r. upd_row (br_id r)
      (\<lambda>r. r\<lparr>br_encrypted_temporary_password := None\<rparr>)) rows d))"
  shows "br_encrypted_temporary_password r = None \<or> (r \<in> set (workflow_rows d) \<and> r \<notin> set rows)"
proof -
  let ?f = "\<lambda>r. upd_row (br_id r) (\<lambda>r. r\<lparr>br_encrypted_temporary_password := None\<rparr>)"
  have "br_encrypted_temporary_password x = None \<or> (x \<in> set (workflow_rows d) \<and> x \<notin> set rows)"
    if "x \<in> set (workflow_rows (fold ?f rows d))" for x rows d
    using that
  proof (induction rows arbitrary: d)
    case (Cons r rows)
    then have "br_encrypted_temporary_password x = None \<or> (x \<in> set (workflow_rows (?f r d)) \<and> x \<notin> set rows)" by simp
    moreover have "br_encrypted_temporary_password x = None \<or> (x \<in> set (workflow_rows d) \<and> x \<noteq> r)"
      if x: "x \<in> set (workflow_rows (?f r d))"
    proof -
      have "x \<in> (\<lambda>y. if br_id y = br_id r then y\<lparr>br_encrypted_temporary_password := None\<rparr> else y) ` set (workflow_rows d)"
        using x by (simp add: upd_row_def set_rows_upd)
      then obtain y where "y \<in> set (workflow_rows d)"
        "x = (if br_id y = br_id r then y\<lparr>br_encrypted_temporary_password := None\<rparr> else y)" by blast
      then show ?thesis by (cases "br_id y = br_id r") auto
    qed
    ultimately show ?case by auto
  qed simp
  then show ?thesis using assms by blast
qed

text \<open>Temporary passwords are shown once.  After a download of the credentials of an import, the next one
  answers that none remain, and no row of the import keeps a password.\<close>

theorem credentials_are_shown_once:
  assumes "bulk_import_credentials e req wid d = (Shown name content, d')"
  shows "fst (bulk_import_credentials e req wid d') = Plain ''No one-time credentials remain'' 410 \<and> credential_rows wid d' = []"
proof -
  obtain pr where pr: "permission_guard e req MANAGE_USERS d = Inr pr"
    using assms by (cases "permission_guard e req MANAGE_USERS d") (auto simp: bulk_import_credentials_def guarded_def permission_guard_def split: option.splits if_splits)
  obtain w where w: "load_owned_workflow wid (pr_username pr) d = Some w"
    using assms pr by (auto simp: bulk_import_credentials_def guarded_def split: option.splits)
  define d1 where "d1 = fold (\<lambda>r. upd_row (br_id r) (\<lambda>r. r\<lparr>br_encrypted_temporary_password := None\<rparr>)) (credential_rows wid d) d"
  obtain a ac su de i where d': "d' = record_audit e a ac su de i d1"
    using assms pr w by (auto simp: bulk_import_credentials_def guarded_def d1_def Let_def split: if_splits)
  have keep: "users d1 = users d" "mfas d1 = mfas d" "passkeys d1 = passkeys d" "workflows d1 = workflows d"
    unfolding d1_def by (rule fold_same, simp)+
  have rows: "workflow_rows d' = workflow_rows d1" by (simp add: d' record_audit_def)
  have "credential_rows wid d' = []"
  proof (rule ccontr)
    assume "credential_rows wid d' \<noteq> []"
    then obtain r where r: "r \<in> set (workflow_rows d1)" "br_workflow_id r = wid" "br_encrypted_temporary_password r \<noteq> None"
      by (auto simp: credential_rows_def rows_of_workflow_def rows filter_empty_conv)
    have "set (credential_rows wid d) \<subseteq> set (workflow_rows d)" by (auto simp: credential_rows_def rows_of_workflow_def)
    moreover have "r \<in> set (workflow_rows (fold (\<lambda>r. upd_row (br_id r) (\<lambda>r. r\<lparr>br_encrypted_temporary_password := None\<rparr>))
        (credential_rows wid d) d))" using r(1) by (simp only: d1_def)
    ultimately have "r \<in> set (workflow_rows d)" "r \<notin> set (credential_rows wid d)"
      using fold_clears r(3) by metis+
    then show False using r by (simp add: credential_rows_def rows_of_workflow_def)
  qed
  moreover have "permission_guard e req MANAGE_USERS d' = Inr pr"
    using pr guard_cong [of d' d] keep by (simp add: d' record_audit_def)
  moreover have "load_owned_workflow wid (pr_username pr) d' = Some w"
    using w keep by (simp add: load_owned_workflow_def get_workflow_def d' record_audit_def)
  ultimately show ?thesis by (simp add: bulk_import_credentials_def guarded_def)
qed

definition sample_import :: BulkWorkflow where
  "sample_import = \<lparr>bw_id = 7, bw_actor = ''ada'', bw_source = ''csv'', bw_idempotency_key = ''import-7'',
     bw_status = ''completed'', bw_row_count = 1, bw_valid_count = 1, bw_succeeded_count = 1, bw_failed_count = 0,
     bw_operation_id = Some 3, bw_detail = [], bw_created_at = 0, bw_completed_at = Some 5\<rparr>"

definition sample_import_row :: BulkWorkflowRow where
  "sample_import_row = \<lparr>br_id = 1, br_workflow_id = 7, br_row_number = 1, br_action = ''onboard'', br_username = ''bob'',
     br_display_name = ''Bob'', br_email = ''bob@example.org'', br_target_ids = JsonList [''gitea''], br_user_id = Some 2,
     br_validation_status = ''valid'', br_result_status = ''succeeded'', br_detail = [], br_operation_id = Some 4,
     br_encrypted_temporary_password = Some ''secret''\<rparr>"

definition import_db :: db where
  "import_db = operator_db\<lparr>users := [sample_user\<lparr>u_username := ''ada'', u_role := ''user_operator''\<rparr>],
     workflows := [sample_import], workflow_rows := [sample_import_row]\<rparr>"

theorem credentials_are_shown_once_witness:
  "\<exists>name content d'. bulk_import_credentials sample_env (sample_request True) 7 import_db = (Shown name content, d') \<and>
     fst (bulk_import_credentials sample_env (sample_request True) 7 d') = Plain ''No one-time credentials remain'' 410"
proof -
  have "\<exists>pr. permission_guard sample_env (sample_request True) MANAGE_USERS import_db = Inr pr \<and> pr_username pr = ''ada''"
    by (simp add: permission_guard_def current_user_def sample_request_def operator_db_def import_db_def
        sample_defs get_user_def rows_get_def MAX_AGE_def principal_of_def has_permission_iff)
  moreover have "load_owned_workflow 7 ''ada'' import_db = Some sample_import"
    by (simp add: load_owned_workflow_def get_workflow_def rows_get_def import_db_def sample_import_def)
  moreover have "credential_rows 7 import_db = [sample_import_row]"
    by (simp add: credential_rows_def rows_of_workflow_def import_db_def sample_import_row_def)
  ultimately have "\<exists>name content d'. bulk_import_credentials sample_env (sample_request True) 7 import_db = (Shown name content, d')"
    by (auto simp: bulk_import_credentials_def guarded_def csv_response_def)
  then show ?thesis using credentials_are_shown_once by blast
qed

section \<open>The rows and workflows of an import\<close>

text \<open>Both tables of imports.  Requests, selections of targets and runs leave them alone.\<close>

definition bulk_tables :: "db \<Rightarrow> BulkWorkflow list \<times> BulkWorkflowRow list" where
  "bulk_tables d = (workflows d, workflow_rows d)"

lemma bulk_tables_steps [simp]:
  "bulk_tables (record_audit e a ac su de i d) = bulk_tables d" "bulk_tables (upd_user k f d) = bulk_tables d"
  "bulk_tables (upd_operation j g d) = bulk_tables d" "bulk_tables (d\<lparr>tick := t, users := us\<rparr>) = bulk_tables d"
  "bulk_tables (add_operation x d) = bulk_tables d" "bulk_tables (next_tick d) = bulk_tables d"
  by (simp_all add: bulk_tables_def record_audit_def upd_user_def upd_operation_def add_operation_def next_tick_def)

lemma bulk_tables_bystanders:
  assumes "bystanders d' = bystanders d" shows "bulk_tables d' = bulk_tables d"
  by (simp add: bulk_tables_def bystanders_fields(7,8) [OF assms])

lemma bulk_tables_set_pending: "set_pending e uid p ts opts d = Inr d' \<Longrightarrow> bulk_tables d' = bulk_tables d"
  by (rule rest_of_field [OF set_pending_frame(1)]) (simp_all add: bulk_tables_def rest_of_def)

text \<open>What a row does to the tables of imports: nothing, a failure, or an acceptance, after it may have got an account
  and a temporary password.\<close>

definition typed_row :: "BulkWorkflowRow \<Rightarrow> bool" where
  "typed_row r \<longleftrightarrow> br_validation_status r \<in> {''valid'', ''invalid''} \<and>
     br_result_status r \<in> {''pending'', ''invalid'', ''queued'', ''failed'', ''succeeded''} \<and>
     (br_validation_status r = ''invalid'' \<longleftrightarrow> br_result_status r = ''invalid'') \<and>
     (br_result_status r \<in> {''queued'', ''succeeded''} \<longrightarrow> br_user_id r \<noteq> None \<and> br_operation_id r \<noteq> None)"

text \<open>A step keeps the workflows, the identities and the validation of the rows and, in typed tables, the types of
  the rows.\<close>

definition row_keys :: "db \<Rightarrow> (id \<times> uuid \<times> string) list" where
  "row_keys d = map (\<lambda>r. (br_id r, br_workflow_id r, br_validation_status r)) (workflow_rows d)"

definition rows_typed :: "db \<Rightarrow> bool" where
  "rows_typed d \<longleftrightarrow> list_all typed_row (workflow_rows d)"

definition bulk_step :: "db \<Rightarrow> db \<Rightarrow> bool" where
  "bulk_step d d' \<longleftrightarrow> workflows d' = workflows d \<and> row_keys d' = row_keys d \<and> (rows_typed d \<longrightarrow> rows_typed d')"

lemma bulk_step_refl [simp]: "bulk_step d d" by (simp add: bulk_step_def)

lemma bulk_step_trans: "bulk_step a b \<Longrightarrow> bulk_step b c \<Longrightarrow> bulk_step a c"
  unfolding bulk_step_def by metis

lemma bulk_step_tables: "bulk_tables d' = bulk_tables d \<Longrightarrow> bulk_step d d'"
  by (simp add: bulk_step_def bulk_tables_def row_keys_def rows_typed_def)

lemmas bulk_step_after = bulk_step_trans [OF _ bulk_step_tables]

lemma bulk_step_upd:
  assumes "\<And>r. (br_id (f r), br_workflow_id (f r), br_validation_status (f r)) =
      (br_id r, br_workflow_id r, br_validation_status r)"
    "\<And>r. r \<in> set (workflow_rows d) \<Longrightarrow> br_id r = k \<Longrightarrow> typed_row r \<Longrightarrow> typed_row (f r)"
  shows "bulk_step d (upd_row k f d)"
proof -
  have rows: "workflow_rows (upd_row k f d) = map (\<lambda>x. if br_id x = k then f x else x) (workflow_rows d)"
    by (simp add: upd_row_def rows_upd_def)
  have "row_keys (upd_row k f d) = row_keys d"
    using assms(1) by (auto simp: row_keys_def rows)
  moreover have "rows_typed d \<Longrightarrow> rows_typed (upd_row k f d)"
    using assms(2) by (auto simp: rows_typed_def rows list_all_iff)
  ultimately show ?thesis by (simp add: bulk_step_def)
qed

definition valid_at :: "id \<Rightarrow> db \<Rightarrow> bool" where
  "valid_at k d \<longleftrightarrow> (\<forall>(i, w, v)\<in>set (row_keys d). i = k \<longrightarrow> v = ''valid'')"

lemma valid_at_step: "bulk_step d d' \<Longrightarrow> valid_at k d' = valid_at k d"
  by (simp add: bulk_step_def valid_at_def)

lemma valid_atD: "valid_at k d \<Longrightarrow> r \<in> set (workflow_rows d) \<Longrightarrow> br_id r = k \<Longrightarrow> br_validation_status r = ''valid''"
  by (auto simp: valid_at_def row_keys_def)

lemma bulk_step_failed:
  assumes "row_failed row err d = Prepared d'" "valid_at (br_id row) d"
  shows "bulk_step d d'"
proof -
  have d': "d' = upd_row (br_id row) (\<lambda>r. r\<lparr>br_result_status := ''failed'', br_detail := err\<rparr>) d"
    using assms(1) by (simp add: row_failed_def)
  show ?thesis unfolding d' by (rule bulk_step_upd) (auto simp: typed_row_def dest: valid_atD [OF assms(2)])
qed

lemma bulk_step_accepted:
  assumes "row_accepted e actor parent row uid i d = Prepared d'" "valid_at (br_id row) d"
  shows "bulk_step d d'"
proof -
  let ?f = "\<lambda>r. r\<lparr>br_user_id := Some uid, br_operation_id := Some i, br_result_status := ''queued'',
           br_detail := ''accepted for correlated execution''\<rparr>"
  let ?d = "upd_operation i (\<lambda>x. x\<lparr>op_parent_id := Some parent\<rparr>) d"
  have "bulk_step d ?d" by (rule bulk_step_tables) simp
  then have "bulk_step d (upd_row (br_id row) ?f ?d)"
  proof (rule bulk_step_trans)
    have "valid_at (br_id row) ?d" using assms(2) valid_at_step [OF \<open>bulk_step d ?d\<close>] by simp
    then show "bulk_step ?d (upd_row (br_id row) ?f ?d)"
      by (intro bulk_step_upd) (auto simp: typed_row_def dest: valid_atD)
  qed
  moreover obtain ac su de where "d' = record_audit e actor ac su de (Some parent) (upd_row (br_id row) ?f ?d)"
    using assms(1) unfolding row_accepted_def by blast
  ultimately show ?thesis using bulk_step_after [OF _ bulk_tables_steps(1)] by simp
qed

lemma bulk_step_select:
  assumes "select_and_request e actor parent row uid b d = Prepared d'" "valid_at (br_id row) d"
  shows "bulk_step d d'"
proof -
  obtain ts opts d1 r d2 where s: "set_pending e uid None ts opts d = Inr d1"
    and r: "request_operation e uid (if b then CREATE else UPDATE) actor None d1 = (r, d2)"
    and f: "(case r of Inl err \<Rightarrow> row_failed row err d2 | Inr i \<Rightarrow> row_accepted e actor parent row uid i d2) = Prepared d'"
    using assms(1) by (auto simp: select_and_request_def split: sum.splits prod.splits)
  have "bulk_step d d2"
    using bulk_step_after [OF bulk_step_tables [OF bulk_tables_set_pending [OF s]]]
      bulk_tables_bystanders [OF bystanders_request [OF r]] by blast
  moreover have "bulk_step d2 d'"
    using f assms(2) valid_at_step [OF \<open>bulk_step d d2\<close>] bulk_step_failed bulk_step_accepted by (auto split: sum.splits)
  ultimately show ?thesis by (rule bulk_step_trans)
qed

lemma bulk_step_execute:
  assumes "execute_row e actor parent row d = Prepared d'" "br_validation_status row = ''valid'' \<Longrightarrow> valid_at (br_id row) d"
  shows "bulk_step d d'"
proof (cases "br_validation_status row = ''valid''")
  case False
  then show ?thesis using assms(1) by (simp add: execute_row_def)
next
  case True
  note valid = assms(2) [OF True]
  let ?user = "get_user_by_name (br_username row) d"
  have cases: "row_failed row ''account became protected or unavailable after preview'' d = Prepared d' \<or>
      onboard_row e actor parent row ?user d = Prepared d' \<or> offboard_row e actor parent row ?user d = Prepared d'"
    using assms(1) True by (auto simp: execute_row_def Let_def split: if_splits)
  moreover have "bulk_step d d'" if on: "onboard_row e actor parent row ?user d = Prepared d'"
  proof (cases ?user)
    case (Some u)
    let ?d = "upd_user (u_id u) (\<lambda>u. u\<lparr>u_display_name := br_display_name row, u_email := br_email row\<rparr>) d"
    have step: "bulk_step d ?d" by (rule bulk_step_tables) simp
    have "select_and_request e actor parent row (u_id u) False ?d = Prepared d'" using on Some by (simp add: onboard_row_def)
    then show ?thesis using bulk_step_select valid valid_at_step [OF step] bulk_step_trans [OF step] by blast
  next
    case None
    show ?thesis
    proof (cases "\<exists>err. row_failed row err d = Prepared d'")
      case True
      then show ?thesis using bulk_step_failed valid by blast
    next
      case False
      then obtain p t where "import_password e (tick d) = Some (Inr (p, t))"
        using on None by (auto simp: onboard_row_def split: option.splits sum.splits)
      then obtain u d1 where d1: "d1 = upd_row (br_id row) (\<lambda>r. r\<lparr>br_user_id := Some (u_id u),
            br_encrypted_temporary_password := Some (encrypt_secret e p)\<rparr>) (d\<lparr>tick := t, users := users d @ [u]\<rparr>)"
        and s: "select_and_request e actor parent row (u_id u) True d1 = Prepared d'"
        using on None by (simp add: onboard_row_def Let_def)
      have "bulk_step d (d\<lparr>tick := t, users := users d @ [u]\<rparr>)" by (rule bulk_step_tables) simp
      moreover have "bulk_step (d\<lparr>tick := t, users := users d @ [u]\<rparr>) d1"
        unfolding d1 by (rule bulk_step_upd) (auto simp: typed_row_def)
      ultimately have step: "bulk_step d d1" by (rule bulk_step_trans)
      show ?thesis using bulk_step_select [OF s] valid valid_at_step [OF step] bulk_step_trans [OF step] by blast
    qed
  qed
  moreover have "bulk_step d d'" if off: "offboard_row e actor parent row ?user d = Prepared d'"
  proof (cases ?user)
    case None
    then show ?thesis using off bulk_step_failed valid by (simp add: offboard_row_def)
  next
    case (Some u)
    obtain r d1 where r: "request_operation e (u_id u) UPDATE actor None d = (r, d1)" by (rule prod.exhaust)
    have step: "bulk_step d d1" by (rule bulk_step_tables) (rule bulk_tables_bystanders [OF bystanders_request [OF r]])
    have "bulk_step d1 d'"
    proof (cases r)
      case (Inl err)
      then show ?thesis using off Some r bulk_step_failed valid valid_at_step [OF step] by (simp add: offboard_row_def)
    next
      case (Inr i)
      then obtain ts opts d2 where s: "set_pending e (u_id u) None ts opts d1 = Inr d2"
        and a: "row_accepted e actor parent row (u_id u) i d2 = Prepared d'"
        using off Some r by (auto simp: offboard_row_def split: sum.splits)
      have step2: "bulk_step d1 d2" by (rule bulk_step_tables) (rule bulk_tables_set_pending [OF s])
      show ?thesis
        using bulk_step_accepted [OF a] valid valid_at_step [OF bulk_step_trans [OF step step2]] bulk_step_trans [OF step2] by blast
    qed
    then show ?thesis by (rule bulk_step_trans [OF step])
  qed
  ultimately show ?thesis using bulk_step_failed valid by blast
qed

lemma bulk_step_executes:
  assumes "execute_rows e actor parent rows d = Prepared d'"
    "\<And>row. row \<in> set rows \<Longrightarrow> br_validation_status row = ''valid'' \<Longrightarrow> valid_at (br_id row) d"
  shows "bulk_step d d'"
  using assms
proof (induction rows arbitrary: d)
  case (Cons row rows)
  obtain d1 where d1: "execute_row e actor parent row d = Prepared d1" "execute_rows e actor parent rows d1 = Prepared d'"
    using Cons.prems(1) by (auto split: execution.splits)
  have step: "bulk_step d d1" using bulk_step_execute [OF d1(1)] Cons.prems(2) by simp
  then show ?case using Cons.IH [OF d1(2)] Cons.prems(2) valid_at_step [OF step] bulk_step_trans by simp
qed simp

section \<open>The records of imports keep their types\<close>

definition typed_workflow :: "BulkWorkflow \<Rightarrow> bool" where
  "typed_workflow w \<longleftrightarrow> bw_status w \<in> {''previewed'', ''running'', ''completed'', ''partially_failed'', ''failed''} \<and>
     (bw_operation_id w = None \<longleftrightarrow> bw_status w = ''previewed'') \<and>
     (bw_completed_at w = None \<longleftrightarrow> bw_status w \<in> {''previewed'', ''running''})"

definition bulk_typed :: "db \<Rightarrow> bool" where
  "bulk_typed d \<longleftrightarrow> list_all typed_workflow (workflows d) \<and> distinct (map bw_id (workflows d)) \<and>
     rows_typed d \<and> distinct (map br_id (workflow_rows d))"

lemma ids_of_keys: "row_keys d' = row_keys d \<Longrightarrow> map br_id (workflow_rows d') = map br_id (workflow_rows d)"
proof -
  assume "row_keys d' = row_keys d"
  then have "map fst (row_keys d') = map fst (row_keys d)" by simp
  then show ?thesis by (simp add: row_keys_def comp_def)
qed

lemma bulk_typed_step:
  assumes "bulk_step d d'" "bulk_typed d" shows "bulk_typed d'"
proof -
  have "row_keys d' = row_keys d" using assms(1) by (simp add: bulk_step_def)
  from ids_of_keys [OF this] show ?thesis using assms by (simp add: bulk_step_def bulk_typed_def)
qed

lemma bulk_typed_tables: "bulk_tables d' = bulk_tables d \<Longrightarrow> bulk_typed d \<Longrightarrow> bulk_typed d'"
  using bulk_typed_step [OF bulk_step_tables] .

lemma bulk_typed_workflow:
  assumes "bulk_typed d" "get_workflow k d = Some w" "typed_workflow w \<Longrightarrow> typed_workflow (f w)" "\<And>w. bw_id (f w) = bw_id w"
  shows "bulk_typed (upd_workflow k f d)"
proof -
  have w: "w \<in> set (workflows d)" "bw_id w = k"
    using assms(2) rows_get_mem rows_get_key unfolding get_workflow_def by metis+
  have inj: "inj_on bw_id (set (workflows d))" using assms(1) by (simp add: bulk_typed_def distinct_map)
  have "typed_workflow x" if "x \<in> set (workflows (upd_workflow k f d))" for x
  proof -
    have "x \<in> (\<lambda>y. if bw_id y = k then f y else y) ` set (workflows d)" using that by (simp add: upd_workflow_def set_rows_upd)
    then obtain y where y: "y \<in> set (workflows d)" "x = (if bw_id y = k then f y else y)" by blast
    have "typed_workflow y" using assms(1) y(1) by (simp add: bulk_typed_def list_all_iff)
    then show ?thesis using y assms(3) inj_onD [OF inj, of y w] w by (cases "bw_id y = k") auto
  qed
  then show ?thesis
    using assms(1,4) by (simp add: bulk_typed_def rows_typed_def upd_workflow_def list_all_iff rows_upd_keys_distinct)
qed

lemma sorted_rows [simp]: "set (rows_of_workflow wid d) = {r \<in> set (workflow_rows d). br_workflow_id r = wid}"
  by (auto simp: rows_of_workflow_def)

lemma same_id_same_row:
  assumes "bulk_typed d" "r \<in> set (workflow_rows d)" "s \<in> set (workflow_rows d)" "br_id r = br_id s"
  shows "r = s"
  using assms by (simp add: bulk_typed_def distinct_map inj_on_def)

text \<open>The preview.\<close>

lemma preview_row_typed:
  assumes "preview_row cs wid x (seen, n, d) = (seen', n', d')" "bulk_typed d"
  shows "bulk_typed d'"
proof -
  obtain r where r: "workflow_rows d' = workflow_rows d @ [r]" "workflows d' = workflows d" "typed_row r"
    "br_id r = next_id br_id (workflow_rows d)"
    using assms(1) by (auto simp: preview_row_def Let_def typed_row_def split: prod.splits if_splits)
  have "br_id r \<notin> set (map br_id (workflow_rows d))"
    using next_id_gt [of _ "workflow_rows d" br_id] r(4) by force
  then show ?thesis using assms(2) r by (simp add: bulk_typed_def rows_typed_def)
qed

lemma preview_rows_typed:
  assumes "fold (preview_row cs wid) xs (seen, n, d) = (seen', n', d')"
  shows "(bulk_typed d \<longrightarrow> bulk_typed d') \<and> workflows d' = workflows d"
  using assms
proof (induction xs arbitrary: seen n d)
  case (Cons x xs)
  obtain s k b where b: "preview_row cs wid x (seen, n, d) = (s, k, b)" by (metis prod.exhaust)
  moreover have "workflows b = workflows d" using b by (auto simp: preview_row_def Let_def split: prod.splits)
  ultimately show ?case using Cons preview_row_typed [OF b] by simp
qed simp

lemma preview_typed:
  assumes "preview_bulk_workflow e actor origin key raws d = Inr (wid, d')" "bulk_typed d"
    "uuid4 d \<notin> bw_id ` set (workflows d)"
  shows "bulk_typed d'"
proof (cases "find_workflow actor key d")
  case None
  let ?w = "new_workflow e actor origin key (length raws) d"
  let ?d1 = "(next_tick d)\<lparr>workflows := workflows d @ [?w]\<rparr>"
  obtain seen n d2 where d2: "fold (preview_row (get_connectors e d) (bw_id ?w)) (enumerate 1 raws) ([], 0, ?d1) = (seen, n, d2)"
    by (metis prod.exhaust)
  have "bulk_typed ?d1"
    using assms(2,3) by (simp add: bulk_typed_def rows_typed_def next_tick_def typed_workflow_def new_workflow_def)
  then have "bulk_typed d2" using preview_rows_typed [OF d2] by blast
  moreover have "get_workflow (bw_id ?w) d2 \<noteq> None"
    using preview_rows_typed [OF d2] by (auto simp: get_workflow_def rows_get_def find_None_iff)
  ultimately have "bulk_typed (upd_workflow (bw_id ?w) (\<lambda>w. w\<lparr>bw_valid_count := n, bw_failed_count := m, bw_detail := x\<rparr>) d2)" for m x
    using bulk_typed_workflow by (auto simp: typed_workflow_def)
  then show ?thesis
    using assms(1) None d2 bulk_typed_tables [OF bulk_tables_steps(1)]
    by (auto simp: preview_bulk_workflow_def Let_def split: if_splits)
qed (use assms in \<open>auto simp: preview_bulk_workflow_def split: if_splits\<close>)

text \<open>The execution.\<close>

lemma prepared:
  assumes "prepare_bulk_execution e wid actor key d = Prepared d'" "bulk_typed d"
  shows "\<exists>w. get_workflow wid d = Some w \<and> bw_actor w = actor \<and> bw_idempotency_key w = key \<and>
    (if bw_status w \<noteq> ''previewed'' then d' = d
     else \<exists>i. bulk_step (upd_workflow wid (\<lambda>w. w\<lparr>bw_operation_id := Some i, bw_status := ''running''\<rparr>) d) d')"
proof -
  obtain w where w: "get_workflow wid d = Some w" "bw_actor w = actor" "bw_idempotency_key w = key"
    using assms(1) by (auto simp: prepare_bulk_execution_def split: option.splits if_splits)
  show ?thesis
  proof (cases "bw_status w = ''previewed''")
    case True
    let ?f = "\<lambda>w. w\<lparr>bw_operation_id := Some (uuid4 d), bw_status := ''running''\<rparr>"
    let ?d = "upd_workflow wid ?f (add_operation (bulk_parent e w (uuid4 d)) d)"
    obtain d2 where d2: "execute_rows e actor (uuid4 d) (rows_of_workflow wid d) ?d = Prepared d2"
      and d': "bulk_tables d' = bulk_tables d2"
      using assms(1) w True by (auto simp: prepare_bulk_execution_def Let_def split: execution.splits)
    have tables: "bulk_tables ?d = bulk_tables (upd_workflow wid ?f d)"
      by (simp add: bulk_tables_def upd_workflow_def add_operation_def next_tick_def)
    have "valid_at (br_id row) ?d" if "row \<in> set (rows_of_workflow wid d)" "br_validation_status row = ''valid''" for row
      using that same_id_same_row [OF assms(2)]
      by (auto simp: valid_at_def row_keys_def upd_workflow_def add_operation_def next_tick_def)
    then have "bulk_step ?d d2" by (rule bulk_step_executes [OF d2])
    then have "bulk_step (upd_workflow wid ?f d) d'"
      using bulk_step_trans [OF bulk_step_tables [OF tables]] bulk_step_after [OF _ d'] by blast
    then show ?thesis using w True by auto
  next
    case False
    then show ?thesis using assms(1) w by (auto simp: prepare_bulk_execution_def)
  qed
qed

lemma prepare_typed:
  assumes "prepare_bulk_execution e wid actor key d = Prepared d'" "bulk_typed d"
  shows "bulk_typed d'"
proof -
  obtain w where w: "get_workflow wid d = Some w" "if bw_status w \<noteq> ''previewed'' then d' = d
     else \<exists>i. bulk_step (upd_workflow wid (\<lambda>w. w\<lparr>bw_operation_id := Some i, bw_status := ''running''\<rparr>) d) d'"
    using prepared [OF assms] by blast
  show ?thesis
  proof (cases "bw_status w = ''previewed''")
    case True
    then obtain i where "bulk_step (upd_workflow wid (\<lambda>w. w\<lparr>bw_operation_id := Some i, bw_status := ''running''\<rparr>) d) d'"
      using w(2) by auto
    moreover have "bulk_typed (upd_workflow wid (\<lambda>w. w\<lparr>bw_operation_id := Some i, bw_status := ''running''\<rparr>) d)"
      using True by (intro bulk_typed_workflow [OF assms(2) w(1)]) (auto simp: typed_workflow_def)
    ultimately show ?thesis by (rule bulk_typed_step)
  next
    case False
    then show ?thesis using w(2) assms(2) by simp
  qed
qed

text \<open>The run.\<close>

definition run_keys :: "db \<Rightarrow> (id \<times> uuid \<times> string \<times> id option \<times> uuid option) list" where
  "run_keys d = map (\<lambda>r. (br_id r, br_workflow_id r, br_validation_status r, br_user_id r, br_operation_id r)) (workflow_rows d)"

lemma run_keysD:
  assumes "run_keys d' = run_keys d" "bulk_typed d" "row \<in> set (workflow_rows d)" "r \<in> set (workflow_rows d')" "br_id r = br_id row"
  shows "br_validation_status r = br_validation_status row \<and> br_user_id r = br_user_id row \<and> br_operation_id r = br_operation_id row"
proof -
  have "(br_id r, br_workflow_id r, br_validation_status r, br_user_id r, br_operation_id r) \<in> set (run_keys d)"
    using assms(1,4) by (metis (mono_tags, lifting) image_eqI list.set_map run_keys_def)
  then obtain s where s: "s \<in> set (workflow_rows d)" "br_id s = br_id r" "br_validation_status s = br_validation_status r"
    "br_user_id s = br_user_id r" "br_operation_id s = br_operation_id r"
    by (auto simp: run_keys_def)
  have "s = row" using same_id_same_row [OF assms(2) s(1) assms(3)] s(2) assms(5) by simp
  then show ?thesis using s by simp
qed

lemma run_rows_step:
  assumes "bulk_typed d0" "run_keys d = run_keys d0" "bulk_step d0 d"
    "\<And>row. row \<in> set rows \<Longrightarrow> row \<in> set (workflow_rows d0) \<and> br_result_status row = ''queued''"
  shows "run_keys (outcome_db (run_rows e actor rows d)) = run_keys d0 \<and> bulk_step d0 (outcome_db (run_rows e actor rows d))"
  using assms
proof (induction rows arbitrary: d)
  case (Cons row rows)
  obtain out where out: "out = (case (br_user_id row, br_operation_id row) of
             (Some uid, Some i) \<Rightarrow> sync_user e uid None None actor (Some i) d | _ \<Rightarrow> Done None d)" by simp
  have row: "row \<in> set (workflow_rows d0)" "br_result_status row = ''queued''" using Cons.prems(4) by auto
  have "bulk_tables (outcome_db out) = bulk_tables d"
    using bulk_tables_bystanders [OF bystanders_sync_user] by (auto simp: out split: option.splits)
  then have step: "bulk_step d0 (outcome_db out)" and keys: "run_keys (outcome_db out) = run_keys d0"
    using bulk_step_after [OF Cons.prems(3)] Cons.prems(2) by (auto simp: run_keys_def bulk_tables_def)
  show ?case
  proof (cases out)
    case (Raised err d1)
    then show ?thesis using out step keys by simp
  next
    case (Done x d1)
    have typed: "typed_row row" using row(1) Cons.prems(1) by (simp add: bulk_typed_def rows_typed_def list_all_iff)
    have "bulk_step d1 (row_result row d1)"
      unfolding row_result_def Let_def
    proof (rule bulk_step_upd)
      fix r assume "r \<in> set (workflow_rows d1)" "br_id r = br_id row" "typed_row r"
      then have "br_validation_status r = br_validation_status row \<and> br_user_id r = br_user_id row \<and> br_operation_id r = br_operation_id row"
        using run_keysD [OF _ Cons.prems(1) row(1)] keys Done by simp
      then show "typed_row (r\<lparr>br_result_status := case Option.bind (br_operation_id row) (\<lambda>i. get_operation i d1) of
          None \<Rightarrow> ''failed'' | Some x \<Rightarrow> if op_status x = SUCCEEDED then ''succeeded'' else ''failed'',
          br_detail := case Option.bind (br_operation_id row) (\<lambda>i. get_operation i d1) of None \<Rightarrow> br_detail r
            | Some x \<Rightarrow> if op_detail x \<noteq> [] then op_detail x else br_detail r\<rparr>)"
        using typed row(2) by (auto simp: typed_row_def split: option.split)
    qed simp
    moreover have "run_keys (row_result row d1) = run_keys d1"
      by (simp add: run_keys_def row_result_def Let_def upd_row_def rows_upd_def)
    ultimately have "run_keys (row_result row d1) = run_keys d0" "bulk_step d0 (row_result row d1)"
      using step keys Done bulk_step_trans by auto
    moreover have "run_rows e actor (row # rows) d = run_rows e actor rows (row_result row d1)"
      unfolding run_rows.simps out [symmetric] Done by simp
    ultimately show ?thesis using Cons.IH [of "row_result row d1"] Cons.prems(1,4) by simp
  qed
qed simp

lemma finish_running:
  assumes "get_workflow wid d = Some w" "bw_status w = ''running''"
  shows "\<exists>n m. bulk_tables (finish_workflow e wid d) = bulk_tables (upd_workflow wid (finished_workflow e n m) d)"
proof -
  let ?rows = "filter (\<lambda>r. br_workflow_id r = wid) (workflow_rows d)"
  let ?n = "length (filter (\<lambda>r. br_result_status r = ''succeeded'') ?rows)"
  have "bulk_tables (notify e t ev x) = bulk_tables x" for t ev x by (rule bulk_tables_bystanders [OF bystanders_notify])
  then have "bulk_tables (finish_workflow e wid d) = bulk_tables (upd_workflow wid (finished_workflow e ?n (length ?rows - ?n)) d)"
    using assms by (simp add: finish_workflow_def Let_def split: option.split)
  then show ?thesis by blast
qed

lemma finish_typed:
  assumes "bulk_typed d" shows "bulk_typed (finish_workflow e wid d)"
proof (cases "\<exists>w. get_workflow wid d = Some w \<and> bw_status w = ''running''")
  case True
  then obtain w where w: "get_workflow wid d = Some w" "bw_status w = ''running''" by blast
  obtain n m where tables: "bulk_tables (finish_workflow e wid d) = bulk_tables (upd_workflow wid (finished_workflow e n m) d)"
    using finish_running [OF w] by blast
  have "bulk_typed (upd_workflow wid (finished_workflow e n m) d)"
    using w(2) by (intro bulk_typed_workflow [OF assms w(1)]) (auto simp: typed_workflow_def finished_workflow_def)
  then show ?thesis by (rule bulk_typed_tables [OF tables])
qed (use assms in \<open>auto simp: finish_workflow_def split: option.split\<close>)

lemma run_typed:
  assumes "bulk_typed d" shows "bulk_typed (outcome_db (run_bulk_workflow e wid d))"
proof -
  let ?rows = "filter (\<lambda>r. br_result_status r = ''queued'') (rows_of_workflow wid d)"
  have "bulk_typed (outcome_db (run_rows e actor ?rows d))" for actor
    using run_rows_step [OF assms refl bulk_step_refl, of ?rows] bulk_typed_step assms by auto
  then show ?thesis
    using finish_typed by (auto simp: run_bulk_workflow_def Let_def split: outcome.split) (metis outcome_db.simps)+
qed

lemma credentials_typed:
  assumes "bulk_typed d" shows "bulk_typed (snd (bulk_import_credentials e req wid d))"
proof -
  have "bulk_step d (fold (\<lambda>r. upd_row (br_id r) (\<lambda>r. r\<lparr>br_encrypted_temporary_password := None\<rparr>)) rows d)" for rows
  proof (induction rows arbitrary: d)
    case (Cons r rows)
    have "bulk_step d (upd_row (br_id r) (\<lambda>r. r\<lparr>br_encrypted_temporary_password := None\<rparr>) d)"
      by (rule bulk_step_upd) (auto simp: typed_row_def)
    then show ?case using Cons bulk_step_trans by fastforce
  qed simp
  then have "bulk_typed (record_audit e a ac su de i (fold (\<lambda>r. upd_row (br_id r)
      (\<lambda>r. r\<lparr>br_encrypted_temporary_password := None\<rparr>)) rows d))" for rows a ac su de i
    using bulk_typed_step [OF bulk_step_after] bulk_tables_steps(1) assms by blast
  then show ?thesis
    using assms by (auto simp: bulk_import_credentials_def guarded_def Let_def split: sum.split option.split)
qed

text \<open>C31: The records of imports keep their types.  Every workflow has one of five statuses and has an operation and an
  instant of completion when its status says so; every row has one of five results, is invalid exactly when the
  preview found it invalid, and a row that was queued or has succeeded names its account and its operation.  The
  preview of an import, its execution, its run, also one that raises, and the download of its credentials keep this.\<close>

theorem import_records_are_typed:
  assumes "bulk_typed d" "uuid4 d \<notin> bw_id ` set (workflows d)"
  shows "(case preview_bulk_workflow e actor origin key raws d of Inl err \<Rightarrow> True | Inr (wid, d') \<Rightarrow> bulk_typed d') \<and>
    (case prepare_bulk_execution e wid actor key d of Prepared d' \<Rightarrow> bulk_typed d' | _ \<Rightarrow> True) \<and>
    bulk_typed (outcome_db (run_bulk_workflow e wid d)) \<and>
    bulk_typed (snd (bulk_import_credentials e req wid d))"
proof (intro conjI)
  show "case preview_bulk_workflow e actor origin key raws d of Inl err \<Rightarrow> True | Inr (wid, d') \<Rightarrow> bulk_typed d'"
    using assms preview_typed by (fastforce split: sum.split)
  show "case prepare_bulk_execution e wid actor key d of Prepared d' \<Rightarrow> bulk_typed d' | _ \<Rightarrow> True"
    using assms(1) prepare_typed by (fastforce split: execution.split)
qed (rule run_typed credentials_typed, rule assms)+

lemma import_db_typed: "bulk_typed import_db"
  by (simp add: bulk_typed_def typed_workflow_def rows_typed_def typed_row_def import_db_def sample_import_def sample_import_row_def)

definition running_import_db :: db where
  "running_import_db = import_db\<lparr>workflows := [sample_import\<lparr>bw_status := ''running'', bw_completed_at := None\<rparr>],
     workflow_rows := [sample_import_row\<lparr>br_result_status := ''queued''\<rparr>]\<rparr>"

theorem import_records_are_typed_witness:
  "bulk_typed (outcome_db (run_bulk_workflow sample_env 7 running_import_db))"
proof -
  have "bulk_typed running_import_db" "uuid4 running_import_db \<notin> bw_id ` set (workflows running_import_db)"
    by (simp_all add: bulk_typed_def typed_workflow_def rows_typed_def typed_row_def running_import_db_def import_db_def
        sample_import_def sample_import_row_def operator_db_def sample_db_def empty_db_def uuid4_def)
  from import_records_are_typed [OF this] show ?thesis by blast
qed


definition previewed_import_db :: db where
  "previewed_import_db = import_db\<lparr>
     workflows := [sample_import\<lparr>bw_status := ''previewed'', bw_operation_id := None, bw_completed_at := None\<rparr>],
     workflow_rows := [sample_import_row\<lparr>br_action := ''offboard'', br_result_status := ''pending''\<rparr>]\<rparr>"


section \<open>Rows that fail\<close>

lemma refused_while_active:
  assumes "get_user uid d = Some u" "u_active_operation_id u = Some k" "get_operation k d = Some x" "\<not> terminal (op_status x)"
  shows "request_operation e uid UPDATE actor None d = (Inl ''another lifecycle operation is running'', d)"
  using assms
  by (simp add: request_operation_def get_active_operation_def decide_transition_def is_active_def decision_def)

text \<open>A row that fails has changed its account.  When an onboarding row meets an account with an unfinished
  operation, the row is reported as failed, but the new name and address of the account are stored and the
  targets of the row are assigned to it.\<close>

theorem failed_row_still_changes:
  assumes "execute_row e actor parent row d = Prepared d'" "br_validation_status row = ''valid''" "br_action row = ''onboard''"
    and "get_user_by_name (br_username row) d = Some u" "get_user (u_id u) d = Some u" "\<not> unavailable u"
    and "u_active_operation_id u = Some k" "get_operation k d = Some x" "\<not> terminal (op_status x)"
    and "states_ok d" "targets_unique (u_id u) d" "get_row (br_id row) d \<noteq> None"
  shows "(\<exists>r. get_row (br_id row) d' = Some r \<and> br_result_status r = ''failed'') \<and>
    (\<exists>v. get_user (u_id u) d' = Some v \<and> u_display_name v = br_display_name row \<and> u_email v = br_email row) \<and>
    (\<forall>t\<in>set (row_targets row). \<exists>s\<in>set (user_states (u_id u) d'). ss_target s = t \<and> ss_assigned s)"
proof -
  let ?uid = "u_id u"
  let ?f = "\<lambda>u. u\<lparr>u_display_name := br_display_name row, u_email := br_email row\<rparr>"
  let ?d = "upd_user ?uid ?f d"
  have "select_and_request e actor parent row ?uid False ?d = Prepared d'"
    using assms(1-6) by (simp add: execute_row_def onboard_row_def)
  then obtain ts opts d1 where s: "set_pending e ?uid None (Some ts) opts ?d = Inr d1" "set ts = set (assigned_targets ?uid ?d @ row_targets row)"
    and opts: "po_require_password_change opts = False"
    and rest: "(case request_operation e ?uid UPDATE actor None d1 of
           (Inl err, d2) \<Rightarrow> row_failed row err d2 | (Inr i, d2) \<Rightarrow> row_accepted e actor parent row ?uid i d2) = Prepared d'"
    unfolding select_and_request_def by (auto simp: pending_options_def split: sum.splits)
  have users: "users d1 = users ?d"
    using set_pending_frame(2) [OF s(1)] opts by (simp add: pending_secret_set_def)
  have u1: "get_user ?uid d1 = Some (?f u)"
    using assms(5) user_table.get_upd_same [of ?f ?uid d] by (simp add: users get_user_def)
  have "operations d1 = operations ?d" using rest_of_tables(1) [OF set_pending_frame(1) [OF s(1)]] .
  then have "get_operation k d1 = Some x" using assms(8) by (simp add: get_operation_def upd_user_def)
  then have refused: "request_operation e ?uid UPDATE actor None d1 = (Inl ''another lifecycle operation is running'', d1)"
    using refused_while_active [OF u1] assms(7,9) by simp
  then have d': "d' = upd_row (br_id row)
      (\<lambda>r. r\<lparr>br_result_status := ''failed'', br_detail := ''another lifecycle operation is running''\<rparr>) d1"
    using rest by (simp add: row_failed_def)
  have rows: "workflow_rows d1 = workflow_rows d"
    using bulk_tables_set_pending [OF s(1)] by (simp add: bulk_tables_def upd_user_def)
  then obtain r where "get_row (br_id row) d1 = Some r" using assms(12) by (auto simp: get_row_def)
  then have "\<exists>r. get_row (br_id row) d' = Some r \<and> br_result_status r = ''failed''"
    by (simp add: d' row_table.get_upd_same)
  moreover have "\<exists>v. get_user ?uid d' = Some v \<and> u_display_name v = br_display_name row \<and> u_email v = br_email row"
    using u1 by (simp add: d')
  moreover have "states_ok ?d" "targets_unique ?uid ?d"
    using assms(10,11) by (simp_all add: states_ok_def targets_unique_def user_states_def)
  then have "set ts = ss_target ` {s \<in> set (user_states ?uid d1). ss_assigned s}"
    using assignment_follows_selection s(1) by blast
  moreover have "user_states ?uid d' = user_states ?uid d1" by (simp add: d' user_states_def)
  ultimately have "\<forall>t\<in>set (row_targets row). t \<in> ss_target ` {s \<in> set (user_states ?uid d'). ss_assigned s}"
    using s(2) by auto
  then have "\<exists>s\<in>set (user_states ?uid d'). ss_target s = t \<and> ss_assigned s" if "t \<in> set (row_targets row)" for t
    using that by (metis (mono_tags, lifting) imageE mem_Collect_eq)
  with \<open>\<exists>r. get_row (br_id row) d' = Some r \<and> br_result_status r = ''failed''\<close>
    \<open>\<exists>v. get_user ?uid d' = Some v \<and> u_display_name v = br_display_name row \<and> u_email v = br_email row\<close>
  show ?thesis by blast
qed

definition busy_account :: ManagedUser where
  "busy_account = sample_user\<lparr>u_active_operation_id := Some 9\<rparr>"

definition busy_row :: BulkWorkflowRow where
  "busy_row = sample_import_row\<lparr>br_username := ''ada'', br_display_name := ''Ada Lovelace'', br_result_status := ''pending''\<rparr>"

definition busy_db :: db where
  "busy_db = sample_db\<lparr>users := [busy_account], operations := [new_operation sample_env 9 (Some 1) UPDATE ''root'' ''ada'' None None],
     workflow_rows := [busy_row]\<rparr>"

theorem failed_row_still_changes_witness:
  "\<exists>d' v. execute_row sample_env ''root'' 3 busy_row busy_db = Prepared d' \<and>
     get_user 1 d' = Some v \<and> u_display_name v = ''Ada Lovelace'' \<and> u_email v = ''bob@example.org''"
proof -
  let ?x = "new_operation sample_env 9 (Some 1) UPDATE ''root'' ''ada'' None None"
  have hyps: "br_validation_status busy_row = ''valid''" "br_action busy_row = ''onboard''"
    "get_user_by_name (br_username busy_row) busy_db = Some busy_account" "get_user (u_id busy_account) busy_db = Some busy_account"
    "\<not> unavailable busy_account" "u_active_operation_id busy_account = Some 9" "get_operation 9 busy_db = Some ?x"
    "\<not> terminal (op_status ?x)" "states_ok busy_db" "targets_unique (u_id busy_account) busy_db"
    "get_row (br_id busy_row) busy_db \<noteq> None"
    by (simp_all add: busy_row_def busy_account_def busy_db_def sample_import_row_def sample_db_def sample_user_def sample_state_def
        empty_db_def get_user_by_name_def get_user_def rows_get_def unavailable_def is_root_def get_operation_def new_operation_def
        terminal_def TERMINAL_OPERATION_STATUSES_def states_ok_def targets_unique_def user_states_def get_row_def)
  let ?d = "upd_user (u_id busy_account) (\<lambda>u. u\<lparr>u_display_name := br_display_name busy_row, u_email := br_email busy_row\<rparr>) busy_db"
  have "get_user (u_id busy_account) ?d \<noteq> None" using hyps(4) by (simp add: user_table.get_upd)
  moreover have "set (assigned_targets (u_id busy_account) ?d @ row_targets busy_row) \<subseteq> {''gitea''}"
    by (auto simp: assigned_targets_def user_states_def busy_db_def sample_db_def sample_state_def empty_db_def row_targets_def
        busy_row_def sample_import_row_def)
  moreover have "connector_for ''gitea'' (get_connectors sample_env ?d) \<noteq> None"
    by (simp add: get_connectors_def sample_env_def connector_for_def sample_connector_def)
  moreover have "\<not> is_root u" if "get_user (u_id busy_account) ?d = Some u" for u
    using that hyps(4) by (auto simp: user_table.get_upd busy_account_def sample_user_def is_root_def)
  ultimately obtain d1 where d1: "set_pending sample_env (u_id busy_account) None
      (Some (assigned_targets (u_id busy_account) ?d @ row_targets busy_row)) (pending_options\<lparr>po_actor := ''root''\<rparr>) ?d = Inr d1"
    using set_pending_succeeds [of "u_id busy_account" ?d _ "{''gitea''}" sample_env] by blast
  have "\<exists>d'. execute_row sample_env ''root'' 3 busy_row busy_db = Prepared d'"
    using d1 by (simp add: execute_row_def hyps onboard_row_def select_and_request_def pending_options_def row_failed_def row_accepted_def
        split: prod.split sum.split)
  then obtain d' where d': "execute_row sample_env ''root'' 3 busy_row busy_db = Prepared d'" by blast
  show ?thesis using failed_row_still_changes [OF d' hyps] d' by (auto simp: busy_account_def busy_row_def sample_user_def sample_import_row_def)
qed

section \<open>The template of an import\<close>

lemma template_raw:
  "csv_raw_row CSV_COLUMNS [a, b, c, x, y] =
     \<lparr>rw_username = Some a, rw_action = Some b, rw_display_name = Some c, rw_email = Some x, rw_target_ids = TargetText (Some y)\<rparr>"
  by (simp add: csv_raw_row_def csv_cell_def CSV_COLUMNS_def upt_rec numeral_eq_Suc)

text \<open>A user name with a dot is no universal one, and an account that does not exist is not offboarded.\<close>

lemma dotted_is_rejected:
  assumes "cr_action r = ''onboard''" "\<not> universal_username_ok (cr_username r)"
  shows "preview_errors cs seen r d \<noteq> []"
  using assms
  by (auto simp: preview_errors_def Let_def identity_errors_def validate_universal_identity_def transient_user_def
      invalid_identity_def)

lemma missing_is_rejected:
  assumes "cr_action r = ''offboard''" "cr_existing r = None"
  shows "preview_errors cs seen r d \<noteq> []"
proof -
  have "''offboarding requires an existing account'' \<in> set (basic_errors cs seen r)"
    using assms by (simp add: basic_errors_def Let_def rules_def)
  then show ?thesis by (auto simp: preview_errors_def Let_def)
qed

lemma rejected_row_counts_nothing:
  assumes "\<And>seen. preview_errors cs seen (checked_row raw d) d \<noteq> []"
  shows "\<exists>s b. preview_row cs wid (k, raw) (seen, n, d) = (s, n, b) \<and> users b = users d \<and> workflows b = workflows d"
  using assms by (simp add: preview_row_def Let_def)

text \<open>The template of an import is rejected by the preview.  Uploading the rows of the template that the console
  offers gives a preview without a valid row, whichever targets are configured, when there is no account of the name of
  its third row.\<close>

theorem template_rows_are_rejected:
  assumes "preview_bulk_workflow e actor origin key (map (csv_raw_row CSV_COLUMNS) (bulk_template_rows e d)) d = Inr (wid, d')"
    and "find_workflow actor key d = None" "uuid4 d \<notin> bw_id ` set (workflows d)"
    and "get_user_by_name ''former.staff'' d = None"
  shows "\<exists>w. get_workflow wid d' = Some w \<and> bw_valid_count w = 0 \<and> bw_failed_count w = bw_row_count w"
proof -
  let ?raws = "map (csv_raw_row CSV_COLUMNS) (bulk_template_rows e d)"
  let ?cs = "get_connectors e d"
  let ?w = "new_workflow e actor origin key (length ?raws) d"
  let ?d1 = "(next_tick d)\<lparr>workflows := workflows d @ [?w]\<rparr>"
  have not_universal: "\<not> universal_username_ok ''jane.doe''" "\<not> universal_username_ok ''john.roe''"
    by code_simp+
  have rejected: "preview_errors ?cs seen (checked_row raw b) b \<noteq> []" if "raw \<in> set ?raws" "users b = users d" for raw seen b
  proof -
    have same: "get_user_by_name n b = get_user_by_name n d" for n using that(2) by (simp add: get_user_by_name_def)
    have lower: "lower (strip ''jane.doe'') = ''jane.doe''" "lower (strip ''john.roe'') = ''john.roe''"
      "lower (strip ''former.staff'') = ''former.staff''" "lower (strip ''onboard'') = ''onboard''" "lower (strip ''offboard'') = ''offboard''"
      by code_simp+
    show ?thesis
      using that(1) not_universal assms(4) dotted_is_rejected missing_is_rejected
      by (auto simp: bulk_template_rows_def Let_def template_raw checked_row_def raw_text_def lower same)
  qed
  have counted: "\<exists>s b. fold (preview_row ?cs wid) (enumerate k raws) (seen, n, b0) = (s, n, b) \<and> workflows b = workflows b0"
    if "set raws \<subseteq> set ?raws" "users b0 = users d" for raws k seen n b0
    using that
  proof (induction raws arbitrary: k seen b0)
    case (Cons raw raws)
    obtain s b where b: "preview_row ?cs wid (k, raw) (seen, n, b0) = (s, n, b)" "users b = users b0" "workflows b = workflows b0"
      using rejected_row_counts_nothing [of ?cs raw b0] rejected [of raw b0] Cons.prems by (metis insert_subset list.simps(15))
    then show ?case using Cons.IH [of b "Suc k" s] Cons.prems by simp
  qed simp
  have wid: "wid = bw_id ?w" using assms(1,2) by (auto simp: preview_bulk_workflow_def Let_def split: if_splits prod.splits)
  obtain s b where b: "fold (preview_row ?cs wid) (enumerate 1 ?raws) ([], 0, ?d1) = (s, 0, b)" "workflows b = workflows ?d1"
    using counted [of ?raws ?d1 1 "[]" 0] by (auto simp: next_tick_def)
  let ?f = "\<lambda>w. w\<lparr>bw_valid_count := 0, bw_failed_count := length ?raws,
    bw_detail := cat [show_nat 0, '' valid row(s); '', show_nat (length ?raws), '' invalid row(s). No changes made.'']\<rparr>"
  have "bulk_tables d' = bulk_tables (upd_workflow wid ?f b)"
    using assms(1,2) b(1) unfolding wid by (auto simp: preview_bulk_workflow_def Let_def split: if_splits)
  moreover have "get_workflow wid b = Some ?w"
  proof -
    have "bw_id w \<noteq> wid" if "w \<in> set (workflows d)" for w using imageI [OF that, of bw_id] assms(3) by (auto simp: wid new_workflow_def)
    then have "rows_get bw_id wid (workflows d) = None" by (auto simp: rows_get_def find_None_iff)
    then show ?thesis by (simp add: get_workflow_def b(2) rows_get_append rows_get_Cons wid)
  qed
  then have "get_workflow wid (upd_workflow wid ?f b) = Some (?f ?w)" by (simp add: workflow_table.get_upd_same)
  ultimately have "get_workflow wid d' = Some (?f ?w)" by (simp add: bulk_tables_def get_workflow_def)
  then show ?thesis by (simp add: new_workflow_def)
qed

theorem template_rows_are_rejected_witness:
  "\<exists>wid d' w. preview_bulk_workflow sample_env ''ada'' ''csv'' ''12345678''
      (map (csv_raw_row CSV_COLUMNS) (bulk_template_rows sample_env sample_db)) sample_db = Inr (wid, d') \<and>
    get_workflow wid d' = Some w \<and> bw_valid_count w = 0"
proof -
  have "bulk_key_ok ''12345678''" by code_simp
  moreover have "max_bulk_rows sample_env = 1000" by (simp add: max_bulk_rows_def sample_defs file_config_def)
  moreover have none: "find_workflow ''ada'' ''12345678'' sample_db = None" "workflows sample_db = []"
    "get_user_by_name ''former.staff'' sample_db = None"
    by (simp_all add: find_workflow_def sample_db_def empty_db_def get_user_by_name_def sample_user_def)
  moreover have "length (bulk_template_rows sample_env sample_db) = 3" by (simp add: bulk_template_rows_def Let_def)
  ultimately obtain wid d' where d': "preview_bulk_workflow sample_env ''ada'' ''csv'' ''12345678''
      (map (csv_raw_row CSV_COLUMNS) (bulk_template_rows sample_env sample_db)) sample_db = Inr (wid, d')"
    by (fastforce simp: preview_bulk_workflow_def Let_def split: prod.split)
  show ?thesis using template_rows_are_rejected [OF d' none(1) _ none(3)] none(2) d' by auto
qed

end
