(* ===== verification/Paging.thy ===== *)
theory Paging
  imports Config "HOL-Library.Multiset"
begin

text \<open>
  What the lists of the console and of the automation interface share: numbers and texts taken from the query
  string, \<open>LIKE\<close> patterns, orders, and pages.  The locale \<open>paged_list\<close> states what a list that is
  shown page by page promises; the lists of accounts, events, operations and runs interpret it.
\<close>

section \<open>Numbers of the query string\<close>

text \<open>\<open>int(text)\<close>: blanks around, a sign, digits with single underscores between them, at most 4300 digits.\<close>

fun digit_groups :: "string \<Rightarrow> string option" where
  "digit_groups [] = Some []"
| "digit_groups (c # cs) =
     (if is_digit c then map_option (\<lambda>ds. c # ds) (digit_groups cs)
      else if c = CHR ''_'' then (case cs of [] \<Rightarrow> None | g # gs \<Rightarrow> if is_digit g then digit_groups cs else None)
      else None)"

definition unsigned_int :: "string \<Rightarrow> nat option" where
  "unsigned_int s = (case s of [] \<Rightarrow> None
     | c # cs \<Rightarrow> if \<not> is_digit c then None
        else (case digit_groups s of None \<Rightarrow> None
          | Some ds \<Rightarrow> if length ds > 4300 then None else parse_digits 0 ds))"

definition python_int :: "string \<Rightarrow> int option" where
  "python_int s = (case strip s of
      [] \<Rightarrow> None
    | c # cs \<Rightarrow> if c = CHR ''-'' then map_option (\<lambda>n. - int n) (unsigned_int cs)
        else if c = CHR ''+'' then map_option int (unsigned_int cs)
        else map_option int (unsigned_int (c # cs)))"

type_synonym query = "string \<Rightarrow> string option"

definition query_text :: "query \<Rightarrow> string \<Rightarrow> string \<Rightarrow> string" where
  "query_text values name def_value = (case values name of None \<Rightarrow> def_value | Some s \<Rightarrow> s)"

definition positive_int :: "query \<Rightarrow> string \<Rightarrow> nat \<Rightarrow> nat" where
  "positive_int values name def_value = (case values name of
      None \<Rightarrow> max 1 def_value
    | Some s \<Rightarrow> (case python_int s of None \<Rightarrow> def_value | Some i \<Rightarrow> nat (max 1 i)))"

section \<open>Patterns\<close>

text \<open>\<open>LIKE\<close> of SQLite: a percent sign matches any text, an underscore any character, letters match in both cases.\<close>

fun like :: "string \<Rightarrow> string \<Rightarrow> bool" where
  "like [] s = (s = [])"
| "like (p # ps) [] = (p = CHR ''%'' \<and> like ps [])"
| "like (p # ps) (c # cs) =
     (if p = CHR ''%'' then like ps (c # cs) \<or> like (p # ps) cs
      else (p = CHR ''_'' \<or> lower_char p = lower_char c) \<and> like ps cs)"

definition containing :: "string \<Rightarrow> string" where
  "containing s = CHR ''%'' # s @ [CHR ''%'']"

lemma like_any [simp]: "like [CHR ''%''] s"
  by (induction s) simp_all

lemma like_suffix: "like (CHR ''%'' # ps) s \<longleftrightarrow> (\<exists>xs ys. s = xs @ ys \<and> like ps ys)"
proof (induction s)
  case (Cons c cs)
  show ?case
  proof
    assume "like (CHR ''%'' # ps) (c # cs)"
    then show "\<exists>xs ys. c # cs = xs @ ys \<and> like ps ys"
      using Cons by simp (metis append_Cons append_Nil)
  next
    assume "\<exists>xs ys. c # cs = xs @ ys \<and> like ps ys"
    then obtain xs ys where s: "c # cs = xs @ ys" "like ps ys" by blast
    then show "like (CHR ''%'' # ps) (c # cs)" using Cons by (cases xs) auto
  qed
qed simp

lemma like_self: "like (s @ [CHR ''%'']) (s @ zs)"
proof (induction s)
  case (Cons c s)
  have "like (CHR ''%'' # s @ [CHR ''%'']) (s @ zs)"
    unfolding like_suffix using Cons by (metis append_Nil)
  then show ?case using Cons by simp
qed simp

text \<open>A text that contains the words of the search is found, whatever they are.\<close>

lemma contains_found: "like (containing s) (xs @ s @ ys)"
  unfolding containing_def like_suffix using like_self by metis

section \<open>Orders\<close>

text \<open>A descending order that keeps the order of rows with equal keys.\<close>

definition sort_desc :: "('a \<Rightarrow> 'k::linorder) \<Rightarrow> 'a list \<Rightarrow> 'a list" where
  "sort_desc k xs = rev (sort_key k (rev xs))"

lemma set_sort_desc [simp]: "set (sort_desc k xs) = set xs" by (simp add: sort_desc_def)
lemma length_sort_desc [simp]: "length (sort_desc k xs) = length xs" by (simp add: sort_desc_def)
lemma mset_sort_desc [simp]: "mset (sort_desc k xs) = mset xs" by (simp add: sort_desc_def)

section \<open>Pages\<close>

definition pages_of :: "nat \<Rightarrow> nat \<Rightarrow> nat" where
  "pages_of rows per_page = max 1 ((rows + per_page - 1) div per_page)"

definition page_slice :: "nat \<Rightarrow> nat \<Rightarrow> 'a list \<Rightarrow> 'a list" where
  "page_slice page per_page rows = take per_page (drop ((page - 1) * per_page) rows)"

text \<open>A page of a list with the page that was shown, which is the last one when a later one was asked for.\<close>

definition shown_page :: "nat \<Rightarrow> nat \<Rightarrow> 'a list \<Rightarrow> nat" where
  "shown_page page per_page rows = min page (pages_of (length rows) per_page)"

lemma take_pages:
  assumes "0 < per"
  shows "concat (map (\<lambda>p. page_slice p per xs) [1..<Suc n]) = take (n * per) xs"
proof (induction n)
  case (Suc n)
  have "concat (map (\<lambda>p. page_slice p per xs) [1..<Suc (Suc n)]) = take (n * per) xs @ page_slice (Suc n) per xs"
    using Suc by simp
  also have "\<dots> = take (n * per + per) xs" by (simp add: page_slice_def take_add)
  finally show ?case by (simp add: add.commute)
qed simp

lemma enough_pages:
  assumes "0 < per" shows "n \<le> pages_of n per * per"
proof -
  have "n + per - 1 = (n + per - 1) div per * per + (n + per - 1) mod per" by simp
  moreover have "(n + per - 1) mod per \<le> per - 1" using assms by (simp add: less_Suc_eq_le [symmetric])
  ultimately have "n \<le> (n + per - 1) div per * per" using assms by linarith
  also have "\<dots> \<le> pages_of n per * per" by (intro mult_right_mono) (simp_all add: pages_of_def)
  finally show ?thesis .
qed

locale paged_list =
  fixes rows :: "'s \<Rightarrow> 'a list"
    and fetch :: "nat \<Rightarrow> nat \<Rightarrow> 's \<Rightarrow> nat \<times> 'a list"
  assumes fetched: "fetch page per s = (shown_page page per (rows s), page_slice (shown_page page per (rows s)) per (rows s))"
begin

text \<open>The pages in their order are the whole list: no row is skipped and none is shown twice.\<close>

lemma all_rows:
  assumes "0 < per"
  shows "concat (map (\<lambda>p. snd (fetch p per s)) [1..<Suc (pages_of (length (rows s)) per)]) = rows s"
proof -
  let ?n = "pages_of (length (rows s)) per"
  have eq: "map (\<lambda>p. snd (fetch p per s)) [1..<Suc ?n] = map (\<lambda>p. page_slice p per (rows s)) [1..<Suc ?n]"
    by (rule map_cong) (auto simp: fetched shown_page_def)
  show ?thesis
    unfolding eq using take_pages [OF assms, of "rows s" ?n] enough_pages [OF assms, of "length (rows s)"]
    by (simp del: upt_Suc)
qed

lemma page_bounds: "length (snd (fetch page per s)) \<le> per" "set (snd (fetch page per s)) \<subseteq> set (rows s)"
  using set_take_subset set_drop_subset by (fastforce simp: fetched page_slice_def)+

lemma clamped: "pages_of (length (rows s)) per \<le> page \<Longrightarrow> fetch page per s = fetch (pages_of (length (rows s)) per) per s"
  by (simp add: fetched shown_page_def)

end

section \<open>Query strings\<close>

text \<open>\<open>urlencode\<close>: letters, digits and four signs stay, a blank becomes a plus sign, other bytes two hexadecimal digits.\<close>

definition upper_hex :: "nat \<Rightarrow> char" where
  "upper_hex n = (if n < 10 then char_of (48 + n) else char_of (55 + n))"

definition url_safe :: "char \<Rightarrow> bool" where
  "url_safe c \<longleftrightarrow> is_alnum c \<or> c \<in> set ''_.-~''"

definition quote_char_plus :: "char \<Rightarrow> string" where
  "quote_char_plus c = (if url_safe c then [c] else if c = CHR '' '' then [CHR ''+'']
     else (let n = of_char c in [CHR ''%'', upper_hex (n div 16), upper_hex (n mod 16)]))"

definition quote_plus :: "string \<Rightarrow> string" where
  "quote_plus s = concat (map quote_char_plus s)"

definition urlencode :: "(string \<times> string) list \<Rightarrow> string" where
  "urlencode values = join_with ''&'' (map (\<lambda>(k, v). cat [quote_plus k, ''='', quote_plus v]) values)"

end
