(* ===== verification/Unmanaged.thy ===== *)
theory Unmanaged
  imports Bulk
begin

text \<open>
  Accounts that exist on targets but not in the console, \<open>src/na_sso/unmanaged.py\<close>: the discovery, the page
  and the four decisions about a finding.  What a connector lists is a value of the model that may differ from
  call to call.
\<close>

section \<open>Findings\<close>

definition get_unmanaged :: "uuid \<Rightarrow> db \<Rightarrow> UnmanagedAccountFinding option" where
  "get_unmanaged k d = rows_get uf_id k (unmanaged d)"
definition upd_unmanaged :: "uuid \<Rightarrow> (UnmanagedAccountFinding \<Rightarrow> UnmanagedAccountFinding) \<Rightarrow> db \<Rightarrow> db" where
  "upd_unmanaged k f d = d\<lparr>unmanaged := rows_upd uf_id k f (unmanaged d)\<rparr>"

interpretation unmanaged_table: keyed_rows get_unmanaged upd_unmanaged uf_id
  by (rule keyed_rowsI [where rows = unmanaged]) (simp_all add: get_unmanaged_def upd_unmanaged_def)

definition unmanaged_policy :: "Env \<Rightarrow> UnmanagedAccountPolicy" where
  "unmanaged_policy e = fc_unmanaged_account_policy (file_config e)"

definition excluded :: "Env \<Rightarrow> string \<Rightarrow> TargetType \<Rightarrow> int option \<Rightarrow> bool" where
  "excluded e username type uid =
    (let policy = unmanaged_policy e in
     username \<in> set (um_excluded_usernames policy)
     \<or> list_ex (\<lambda>p. starts_with p username) (um_excluded_prefixes policy)
     \<or> (type = SSH \<and> (case uid of None \<Rightarrow> False | Some n \<Rightarrow> n < int (um_ssh_min_uid policy))))"

section \<open>Discovery\<close>

definition holds_target :: "string \<Rightarrow> ManagedUser \<Rightarrow> db \<Rightarrow> bool" where
  "holds_target t u d = list_ex (\<lambda>s. ss_target s = t \<and> ss_assigned s \<and> \<not> ss_retired s) (user_states (u_id u) d)"

definition assigned_usernames :: "string \<Rightarrow> db \<Rightarrow> string list" where
  "assigned_usernames t d = map u_username (filter (\<lambda>u. holds_target t u d) (users d))"

definition find_unmanaged :: "string \<Rightarrow> string \<Rightarrow> db \<Rightarrow> UnmanagedAccountFinding option" where
  "find_unmanaged t username d = find (\<lambda>f. uf_target_id f = t \<and> uf_username f = username) (unmanaged d)"

definition new_finding :: "Env \<Rightarrow> Connector \<Rightarrow> string \<Rightarrow> db \<Rightarrow> UnmanagedAccountFinding" where
  "new_finding e c username d =
    \<lparr>uf_id = uuid4 d, uf_target_id = c_target_id c, uf_target_type = target_type_value (c_target_type c),
     uf_username = username, uf_display_name = [], uf_email = [], uf_remote_status = ''unknown'',
     uf_remote_uid = None, uf_present = True, uf_decision = ''pending'', uf_decision_actor = None,
     uf_removal_token = None, uf_first_seen_at = now e, uf_last_seen_at = now e, uf_decided_at = None,
     uf_removed_at = None\<rparr>"

definition seen_managed :: "Env \<Rightarrow> UnmanagedAccountFinding \<Rightarrow> UnmanagedAccountFinding" where
  "seen_managed e f = f\<lparr>uf_present := True, uf_last_seen_at := now e,
     uf_decision := (if uf_decision f = ''pending'' then ''managed'' else uf_decision f)\<rparr>"

definition seen_unmanaged :: "Env \<Rightarrow> RemoteAccount \<Rightarrow> UnmanagedAccountFinding \<Rightarrow> UnmanagedAccountFinding" where
  "seen_unmanaged e r f =
    (let f1 = f\<lparr>uf_display_name := take 128 (ra_display_name r), uf_email := take 254 (ra_email r),
           uf_remote_status := take 24 (ra_status r), uf_remote_uid := ra_uid r, uf_present := True,
           uf_last_seen_at := now e\<rparr> in
     if uf_decision f \<in> {''managed'', ''resolved''} then
       f1\<lparr>uf_decision := ''pending'', uf_decision_actor := None, uf_decided_at := None\<rparr>
     else f1)"

text \<open>One listed account: the names seen so far, the number of observations, and the database.\<close>

definition observe ::
  "Env \<Rightarrow> Connector \<Rightarrow> string list \<Rightarrow> RemoteAccount \<Rightarrow> string list \<times> nat \<times> db \<Rightarrow> string list \<times> nat \<times> db" where
  "observe e c assigned r s =
    (case s of (seen, n, d) \<Rightarrow>
      let username = ra_username r; finding = find_unmanaged (c_target_id c) username d in
      if username = [] \<or> excluded e username (c_target_type c) (ra_uid r) then (seen, n, d)
      else if username \<in> set assigned then
        (username # seen, n, case finding of None \<Rightarrow> d | Some f \<Rightarrow> upd_unmanaged (uf_id f) (seen_managed e) d)
      else
        (username # seen, Suc n, case finding of
           Some f \<Rightarrow> upd_unmanaged (uf_id f) (seen_unmanaged e r) d
         | None \<Rightarrow> (next_tick d)\<lparr>unmanaged := unmanaged d @ [seen_unmanaged e r (new_finding e c username d)]\<rparr>))"

definition vanished :: "string \<Rightarrow> string list \<Rightarrow> UnmanagedAccountFinding \<Rightarrow> UnmanagedAccountFinding" where
  "vanished t seen f =
    (if uf_target_id f = t \<and> uf_present f \<and> uf_username f \<notin> set seen then
       f\<lparr>uf_present := False, uf_decision := (if uf_decision f = ''pending'' then ''resolved'' else uf_decision f)\<rparr>
     else f)"

definition take_listing :: "Env \<Rightarrow> string \<Rightarrow> Connector \<Rightarrow> RemoteAccount list \<Rightarrow> db \<Rightarrow> nat \<times> db" where
  "take_listing e actor c accounts d =
    (let assigned = assigned_usernames (c_target_id c) d in
     case fold (observe e c assigned) accounts ([], 0, d) of (seen, n, d1) \<Rightarrow>
       (n, record_audit e actor ''unmanaged.discovered'' (c_target_id c)
         (cat [''observed='', show_nat (length accounts), ''; unmanaged='',
           show_nat (length (filter (\<lambda>r. ra_username r \<in> set seen \<and> ra_username r \<notin> set assigned) accounts))]) None
         (d1\<lparr>unmanaged := map (vanished (c_target_id c) seen) (unmanaged d1)\<rparr>)))"

definition discover_target :: "Env \<Rightarrow> string \<Rightarrow> Connector \<Rightarrow> nat \<times> string list \<times> db \<Rightarrow> nat \<times> string list \<times> db" where
  "discover_target e actor c s =
    (case s of (n, errors, d) \<Rightarrow>
      let r = discover_accounts c (tick d); d1 = next_tick d in
      if \<not> ad_supported r then (n, errors @ [cat [c_display_name c, '': account discovery is unsupported'']], d1)
      else if ad_detail r \<noteq> [] then (n, errors @ [cat [c_display_name c, '': '', ad_detail r]], d1)
      else (case take_listing e actor c (take (um_max_accounts_per_target (unmanaged_policy e)) (ad_accounts r)) d1 of
        (k, d2) \<Rightarrow> (n + k, errors, d2)))"

definition discover_unmanaged :: "Env \<Rightarrow> string \<Rightarrow> string option \<Rightarrow> db \<Rightarrow> nat \<times> string list \<times> db" where
  "discover_unmanaged e actor target_id d =
    (if \<not> um_enabled (unmanaged_policy e) then (0, [''Unmanaged-account discovery is disabled by policy.''], d)
     else fold (discover_target e actor)
       (filter (\<lambda>c. case target_id of None \<Rightarrow> True | Some t \<Rightarrow> c_target_id c = t) (get_connectors e d)) (0, [], d))"

section \<open>The page\<close>

definition sorted_findings :: "db \<Rightarrow> UnmanagedAccountFinding list" where
  "sorted_findings d = sort_key (\<lambda>f. \<not> uf_present f) (sort_key uf_target_id (sort_key uf_username (unmanaged d)))"

definition finding_line :: "Env \<Rightarrow> db \<Rightarrow> UnmanagedAccountFinding \<Rightarrow> string" where
  "finding_line e d f =
    join_with '' '' [show_nat (uf_id f),
      (case connector_for (uf_target_id f) (get_connectors e d) of None \<Rightarrow> uf_target_id f | Some c \<Rightarrow> c_display_name c),
      uf_target_type f, uf_username f, uf_display_name f, uf_email f, uf_remote_status f, uf_decision f]"

definition render_findings :: "Env \<Rightarrow> string list \<Rightarrow> db \<Rightarrow> Response" where
  "render_findings e errors d =
    Shown ''unmanaged_accounts.html'' (errors @ map (finding_line e d) (sorted_findings d) @ map c_target_id (get_connectors e d))"

definition unmanaged_accounts_page :: "Env \<Rightarrow> Request \<Rightarrow> db \<Rightarrow> Response \<times> db" where
  "unmanaged_accounts_page e req d = guarded e req MANAGE_USERS (\<lambda>pr d. (render_findings e [] d, d)) d"

definition run_discovery :: "Env \<Rightarrow> Request \<Rightarrow> string \<Rightarrow> db \<Rightarrow> Response \<times> db" where
  "run_discovery e req target_id d = guarded e req MANAGE_USERS (\<lambda>pr d.
    case discover_unmanaged e (pr_username pr) (if target_id = [] then None else Some target_id) d of
      (n, errors, d1) \<Rightarrow>
        (if errors \<noteq> [] then render_findings e errors d1
         else redirect_with_feedback ''/unmanaged-accounts'' ''Discovery complete''
           (cat [show_nat n, '' unmanaged account observation(s) are ready for review.'']) ''success'', d1)) d"

section \<open>Decisions\<close>

definition decide_finding :: "Env \<Rightarrow> Principal \<Rightarrow> string \<Rightarrow> UnmanagedAccountFinding \<Rightarrow> UnmanagedAccountFinding" where
  "decide_finding e pr decided f = f\<lparr>uf_decision := decided, uf_decision_actor := Some (pr_username pr), uf_decided_at := Some (now e)\<rparr>"

definition ignore_finding :: "Env \<Rightarrow> Request \<Rightarrow> uuid \<Rightarrow> db \<Rightarrow> Response \<times> db" where
  "ignore_finding e req fid d = guarded e req MANAGE_USERS (\<lambda>pr d.
    case get_unmanaged fid d of
      None \<Rightarrow> (Plain ''Finding is no longer present.'' 409, d)
    | Some f \<Rightarrow>
       if \<not> uf_present f then (Plain ''Finding is no longer present.'' 409, d)
       else (redirect_with_feedback ''/unmanaged-accounts'' ''Account ignored''
               ''The decision persists across future discovery runs.'' ''success'',
             record_audit e (pr_username pr) ''unmanaged.ignored'' (uf_username f) (uf_target_id f) None
               (upd_unmanaged fid (decide_finding e pr ''ignored'') d))) d"

definition adopted_user :: "Env \<Rightarrow> UnmanagedAccountFinding \<Rightarrow> string \<Rightarrow> db \<Rightarrow> ManagedUser" where
  "adopted_user e f password d =
    (transient_user (uf_username f) (uf_display_name f) (uf_email f))
      \<lparr>u_id := next_id u_id (users d), u_password_hash := Some (hash_password e password),
       u_password_decision_required := True, u_password_decision_kind := PD_INITIAL,
       u_password_changed_at := Some (now e), u_created_at := now e\<rparr>"

text \<open>The state of the target is assigned as it is, without an operation.\<close>

definition adopted_state :: "ManagedUser \<Rightarrow> SyncState \<Rightarrow> SyncState" where
  "adopted_state u s = s\<lparr>ss_assigned := True, ss_retired := False,
     ss_state := (if u_password_decision_required u then CHPW else AWAITING_CREDENTIALS),
     ss_detail := ''adopted remote identity; credential confirmation required before mutation''\<rparr>"

definition link_state :: "UnmanagedAccountFinding \<Rightarrow> ManagedUser \<Rightarrow> db \<Rightarrow> db" where
  "link_state f u d =
    (case state_of (u_id u) (uf_target_id f) d of
       Some s \<Rightarrow> upd_state (ss_id s) (adopted_state u) d
     | None \<Rightarrow> d\<lparr>sync_states := sync_states d @ [adopted_state u
         \<lparr>ss_id = next_id ss_id (sync_states d), ss_user_id = u_id u, ss_target = uf_target_id f,
          ss_target_type = Some (uf_target_type f), ss_assigned = True, ss_retired = False, ss_state = PENDING,
          ss_detail = [], ss_attempt_count = 0, ss_next_retry_at = None, ss_operation_id = None\<rparr>]\<rparr>)"

definition adoption_user :: "Env \<Rightarrow> UnmanagedAccountFinding \<Rightarrow> string \<Rightarrow> string \<Rightarrow> db \<Rightarrow> Response + ManagedUser \<times> db" where
  "adoption_user e f password confirmed d =
    (case get_user_by_name (uf_username f) d of
       Some u \<Rightarrow> Inr (u, d)
     | None \<Rightarrow>
        (let errors = validate_password e password (uf_username f) (uf_email f) (uf_display_name f) None [] in
         if password \<noteq> confirmed then Inl (Plain ''Password confirmation does not match.'' 422)
         else if errors \<noteq> [] then Inl (Plain (join_with '' '' errors) 422)
         else (let u = adopted_user e f password d in Inr (u, d\<lparr>users := users d @ [u]\<rparr>))))"

definition adopt_finding :: "Env \<Rightarrow> Request \<Rightarrow> uuid \<Rightarrow> string \<Rightarrow> string \<Rightarrow> db \<Rightarrow> Response \<times> db" where
  "adopt_finding e req fid password confirmed d = guarded e req MANAGE_USERS (\<lambda>pr d.
    let refused = (Plain ''Finding cannot be adopted with the managed username contract.'' 422, d) in
    case get_unmanaged fid d of
      None \<Rightarrow> refused
    | Some f \<Rightarrow>
       if \<not> uf_present f \<or> \<not> managed_username_ok (uf_username f) then refused
       else (case adoption_user e f password confirmed d of
           Inl resp \<Rightarrow> (resp, d)
         | Inr (u, d1) \<Rightarrow>
            (redirect_with_feedback ''/unmanaged-accounts'' ''Account adopted''
               ''The remote account was linked without mutation. Verified credential handoff is required before synchronization.''
               ''success'',
             record_audit e (pr_username pr) ''unmanaged.adopted'' (uf_username f) (uf_target_id f) None
               (upd_unmanaged fid (decide_finding e pr ''adopted'') (link_state f u d1))))) d"

definition approve_removal :: "Env \<Rightarrow> Request \<Rightarrow> uuid \<Rightarrow> string \<Rightarrow> string \<Rightarrow> db \<Rightarrow> Response \<times> db" where
  "approve_removal e req fid confirmation acknowledged d = guarded e req MANAGE_SECURITY (\<lambda>pr d.
    if \<not> um_allow_removal (unmanaged_policy e) then (Plain ''Unmanaged-account removal is disabled by policy.'' 403, d)
    else (case get_unmanaged fid d of
      None \<Rightarrow> (Plain ''Finding is no longer present.'' 409, d)
    | Some f \<Rightarrow>
       if \<not> uf_present f then (Plain ''Finding is no longer present.'' 409, d)
       else if confirmation \<noteq> uf_username f \<or> acknowledged \<noteq> ''true'' then
         (Plain ''Confirm the exact username and recovery acknowledgement.'' 422, d)
       else (redirect_with_feedback ''/unmanaged-accounts'' ''Removal approved''
               ''Review the saved account snapshot, then execute the one-use removal approval.'' ''success'',
             record_audit e (pr_username pr) ''unmanaged.removal_approved'' (uf_username f) (uf_target_id f) None
               (upd_unmanaged fid (\<lambda>f. (decide_finding e pr ''removal_approved'' f)\<lparr>uf_removal_token := Some (uuid4 d)\<rparr>)
                 (next_tick d))))) d"

definition removal_approved :: "UnmanagedAccountFinding \<Rightarrow> string \<Rightarrow> string \<Rightarrow> bool" where
  "removal_approved f token confirmation \<longleftrightarrow> uf_present f \<and> uf_decision f = ''removal_approved'' \<and>
     map_option show_nat (uf_removal_token f) = Some token \<and> confirmation = uf_username f"

definition removed_finding :: "Env \<Rightarrow> UnmanagedAccountFinding \<Rightarrow> UnmanagedAccountFinding" where
  "removed_finding e f = f\<lparr>uf_decision := ''removed'', uf_present := False, uf_removed_at := Some (now e), uf_removal_token := None\<rparr>"

text \<open>The account that the connector is asked to delete has nothing but its name.\<close>

definition execute_removal :: "Env \<Rightarrow> Request \<Rightarrow> uuid \<Rightarrow> string \<Rightarrow> string \<Rightarrow> db \<Rightarrow> Response \<times> db" where
  "execute_removal e req fid token confirmation d = guarded e req MANAGE_SECURITY (\<lambda>pr d.
    let refused = (Plain ''Removal approval is invalid or already used.'' 409, d) in
    if \<not> um_allow_removal (unmanaged_policy e) then (Plain ''Unmanaged-account removal is disabled by policy.'' 403, d)
    else (case get_unmanaged fid d of
      None \<Rightarrow> refused
    | Some f \<Rightarrow>
       if \<not> removal_approved f token confirmation then refused
       else (case find (\<lambda>c. c_target_id c = uf_target_id f) (get_connectors e d) of
          None \<Rightarrow> (Plain ''Target is unavailable; no removal was attempted.'' 409, d)
        | Some c \<Rightarrow>
           (let r = c_delete_user c (tick d) (transient_user (uf_username f) [] []);
                d1 = (if sr_ok r then upd_unmanaged fid (removed_finding e) (next_tick d) else next_tick d);
                d2 = record_audit e (pr_username pr) (if sr_ok r then ''unmanaged.removed'' else ''unmanaged.removal_failed'')
                  (uf_username f) (cat [uf_target_id f, ''; '', sr_detail r]) None d1 in
            if sr_ok r then
              (redirect_with_feedback ''/unmanaged-accounts'' ''Remote account removed''
                 ''The approved target-local account was deleted and the decision was audited.'' ''success'', d2)
            else (Plain ''Target removal failed safely; the approval remains available.'' 502, d2))))) d"

section \<open>Discovery only looks\<close>

text \<open>What a discovery changes: the counter, the findings and the audit trail.\<close>

definition without_findings :: "db \<Rightarrow> db" where
  "without_findings d = d\<lparr>tick := 0, unmanaged := [], audit := []\<rparr>"

lemma without_findings_steps [simp]:
  "without_findings (upd_unmanaged k f d) = without_findings d" "without_findings (next_tick d) = without_findings d"
  "without_findings (d\<lparr>unmanaged := fs\<rparr>) = without_findings d"
  "without_findings (record_audit e a ac su de i d) = without_findings d"
  by (simp_all add: without_findings_def upd_unmanaged_def next_tick_def record_audit_def)

text \<open>A decision that is neither open nor made by the discovery itself, and the token that may come with it.\<close>

definition decided_findings :: "db \<Rightarrow> (uuid \<times> string \<times> string option \<times> uuid option) set" where
  "decided_findings d = (\<lambda>f. (uf_id f, uf_decision f, uf_decision_actor f, uf_removal_token f)) `
     {f \<in> set (unmanaged d). uf_decision f \<notin> {''pending'', ''managed'', ''resolved''}}"

definition unsettled :: "UnmanagedAccountFinding \<Rightarrow> bool" where
  "unsettled f \<longleftrightarrow> uf_decision f \<in> {''pending'', ''managed'', ''resolved''}"

lemma decided_map:
  assumes "\<And>f. unsettled (h f) = unsettled f"
    "\<And>f. \<not> unsettled f \<Longrightarrow> uf_id (h f) = uf_id f \<and> uf_decision (h f) = uf_decision f \<and>
      uf_decision_actor (h f) = uf_decision_actor f \<and> uf_removal_token (h f) = uf_removal_token f"
  shows "decided_findings (d\<lparr>unmanaged := map h (unmanaged d)\<rparr>) = decided_findings d"
proof -
  let ?k = "\<lambda>f. (uf_id f, uf_decision f, uf_decision_actor f, uf_removal_token f)"
  have decided: "decided_findings x = ?k ` {f \<in> set (unmanaged x). \<not> unsettled f}" for x
    unfolding decided_findings_def unsettled_def by (rule refl)
  have "{f \<in> set (map h (unmanaged d)). \<not> unsettled f} = h ` {f \<in> set (unmanaged d). \<not> unsettled f}"
    using assms(1) by auto
  then show ?thesis using assms(2) unfolding decided by (simp add: image_image cong: image_cong_simp)
qed

lemma decided_upd:
  assumes "\<And>f. unsettled (h f) = unsettled f"
    "\<And>f. \<not> unsettled f \<Longrightarrow> uf_id (h f) = uf_id f \<and> uf_decision (h f) = uf_decision f \<and>
      uf_decision_actor (h f) = uf_decision_actor f \<and> uf_removal_token (h f) = uf_removal_token f"
  shows "decided_findings (upd_unmanaged k h d) = decided_findings d"
proof -
  have "upd_unmanaged k h d = d\<lparr>unmanaged := map (\<lambda>f. if uf_id f = k then h f else f) (unmanaged d)\<rparr>"
    by (simp add: upd_unmanaged_def rows_upd_def)
  then show ?thesis using decided_map [of "\<lambda>f. if uf_id f = k then h f else f" d] assms by simp
qed

lemma decided_steps [simp]:
  "decided_findings (next_tick d) = decided_findings d" "decided_findings (record_audit e a ac su de i d) = decided_findings d"
  by (simp_all add: decided_findings_def next_tick_def record_audit_def)

lemma seen_settled:
  "unsettled (seen_managed e f) = unsettled f" "unsettled (seen_unmanaged e r f) = unsettled f" "unsettled (vanished t seen f) = unsettled f"
  by (auto simp: unsettled_def seen_managed_def seen_unmanaged_def vanished_def Let_def)

lemma observed:
  assumes "observe e c as r (seen, n, d) = (seen', n', d')"
  shows "without_findings d' = without_findings d \<and> decided_findings d' = decided_findings d"
proof -
  have "decided_findings (upd_unmanaged k (seen_managed e) d) = decided_findings d" for k
    by (rule decided_upd) (auto simp: seen_settled seen_managed_def unsettled_def)
  moreover have "decided_findings (upd_unmanaged k (seen_unmanaged e r) d) = decided_findings d" for k
    by (rule decided_upd) (auto simp: seen_settled seen_unmanaged_def Let_def unsettled_def)
  moreover have "decided_findings ((next_tick d)\<lparr>unmanaged := unmanaged d @ [seen_unmanaged e r (new_finding e c x d)]\<rparr>) = decided_findings d" for x
    by (auto simp: decided_findings_def seen_unmanaged_def new_finding_def)
  ultimately show ?thesis using assms by (auto simp: observe_def Let_def split: if_splits option.splits)
qed

lemma observed_all:
  assumes "fold (observe e c as) rs (seen, n, d) = (seen', n', d')"
  shows "without_findings d' = without_findings d \<and> decided_findings d' = decided_findings d"
  using assms
proof (induction rs arbitrary: seen n d)
  case (Cons r rs)
  obtain s k b where b: "observe e c as r (seen, n, d) = (s, k, b)" by (metis prod.exhaust)
  then show ?case using Cons observed [OF b] by simp
qed simp

lemma listing_taken:
  assumes "take_listing e actor c accounts d = (n, d')"
  shows "without_findings d' = without_findings d \<and> decided_findings d' = decided_findings d"
proof -
  obtain seen d1 where d1: "fold (observe e c (assigned_usernames (c_target_id c) d)) accounts ([], 0, d) = (seen, n, d1)"
    and d': "\<exists>ac su de. d' = record_audit e actor ac su de None (d1\<lparr>unmanaged := map (vanished (c_target_id c) seen) (unmanaged d1)\<rparr>)"
    using assms by (auto simp: take_listing_def Let_def split: prod.splits)
  have "decided_findings (d1\<lparr>unmanaged := map (vanished (c_target_id c) seen) (unmanaged d1)\<rparr>) = decided_findings d1"
    by (rule decided_map) (auto simp: seen_settled vanished_def unsettled_def)
  then show ?thesis using d' observed_all [OF d1] by auto
qed

text \<open>Discovery only looks.  Whatever the targets list, a discovery changes nothing but findings, the audit trail and the
  counter, and no decision that an operator has made about a finding, with its actor and its approval, is lost or made by it.\<close>

theorem discovery_only_looks:
  shows "without_findings (snd (snd (discover_unmanaged e actor t d))) = without_findings d \<and>
    decided_findings (snd (snd (discover_unmanaged e actor t d))) = decided_findings d"
proof -
  have "without_findings (snd (snd (discover_target e actor c s))) = without_findings (snd (snd s)) \<and>
      decided_findings (snd (snd (discover_target e actor c s))) = decided_findings (snd (snd s))" for c s
  proof -
    obtain n errors b where s: "s = (n, errors, b)" by (metis prod.exhaust)
    show ?thesis
      using listing_taken [of e actor c _ "next_tick b"] by (simp add: s discover_target_def Let_def split: prod.split)
  qed
  then have "without_findings (snd (snd (fold (discover_target e actor) cs s))) = without_findings (snd (snd s)) \<and>
      decided_findings (snd (snd (fold (discover_target e actor) cs s))) = decided_findings (snd (snd s))" for cs s
    by (induction cs arbitrary: s) simp_all
  then show ?thesis by (simp add: discover_unmanaged_def)
qed

section \<open>What is present was listed\<close>

lemma observe_users:
  assumes "observe e c as r (seen, n, d) = (seen', n', d')"
  shows "set seen' = (if ra_username r = [] \<or> excluded e (ra_username r) (c_target_type c) (ra_uid r) then set seen
    else insert (ra_username r) (set seen))"
  using assms by (auto simp: observe_def Let_def split: if_splits)

lemma find_in: "find P xs = Some x \<Longrightarrow> x \<in> set xs \<and> P x"
  by (induction xs) (auto split: if_splits)

definition listed :: "Env \<Rightarrow> Connector \<Rightarrow> RemoteAccount list \<Rightarrow> string set" where
  "listed e c accounts = ra_username ` {r \<in> set accounts. ra_username r \<noteq> [] \<and> \<not> excluded e (ra_username r) (c_target_type c) (ra_uid r)}"

lemma find_map_kept:
  assumes "\<And>x. P (h x) = P x"
  shows "find P (map h xs) = map_option h (find P xs)"
  using assms by (induction xs) simp_all

lemma find_unmanaged_map:
  assumes "\<And>f. uf_target_id (h f) = uf_target_id f \<and> uf_username (h f) = uf_username f"
  shows "find_unmanaged t u (d\<lparr>unmanaged := map h (unmanaged d)\<rparr>) = map_option h (find_unmanaged t u d)"
  using assms by (simp add: find_unmanaged_def find_map_kept)

lemma find_unmanaged_upd:
  assumes "\<And>f. uf_target_id (h f) = uf_target_id f \<and> uf_username (h f) = uf_username f"
  shows "find_unmanaged t u (upd_unmanaged k h d) = map_option (\<lambda>f. if uf_id f = k then h f else f) (find_unmanaged t u d)"
  using assms by (simp add: find_unmanaged_def upd_unmanaged_def rows_upd_def find_map_kept)

lemma find_append: "find P (xs @ [x]) = (case find P xs of Some y \<Rightarrow> Some y | None \<Rightarrow> if P x then Some x else None)"
  by (induction xs) simp_all

lemma seen_keys [simp]:
  "uf_target_id (seen_managed e f) = uf_target_id f" "uf_username (seen_managed e f) = uf_username f"
  "uf_target_id (seen_unmanaged e r f) = uf_target_id f" "uf_username (seen_unmanaged e r f) = uf_username f"
  "uf_target_id (vanished t s f) = uf_target_id f" "uf_username (vanished t s f) = uf_username f"
  "uf_present (seen_managed e f)" "uf_present (seen_unmanaged e r f)"
  by (simp_all add: seen_managed_def seen_unmanaged_def vanished_def Let_def)

text \<open>A finding that exists stays found; an operator's decision about it stays; and it is present once its name was seen.\<close>

lemma found_after_observe:
  assumes "observe e c as r (seen, n, d) = (seen', n', d')" "find_unmanaged (c_target_id c) u d = Some f"
    "u \<in> set seen \<Longrightarrow> uf_present f"
  shows "\<exists>g. find_unmanaged (c_target_id c) u d' = Some g \<and> (u \<in> set seen' \<longrightarrow> uf_present g) \<and>
    (\<not> unsettled f \<longrightarrow> uf_decision g = uf_decision f)"
proof -
  have decision: "\<not> unsettled f \<Longrightarrow> uf_decision (seen_managed e f) = uf_decision f"
    "\<not> unsettled f \<Longrightarrow> uf_decision (seen_unmanaged e r f) = uf_decision f"
    by (auto simp: unsettled_def seen_managed_def seen_unmanaged_def Let_def)
  have "find_unmanaged (c_target_id c) u ((next_tick d)\<lparr>unmanaged := unmanaged d @ [x]\<rparr>) = Some f" for x
    using assms(2) by (simp add: find_unmanaged_def find_append)
  then show ?thesis
    using assms decision
    by (auto simp: observe_def Let_def find_unmanaged_upd split: if_splits option.splits)
qed

lemma found_new:
  assumes "observe e c as r (seen, n, d) = (seen', n', d')" "u \<in> set seen'" "u \<notin> set seen" "u \<notin> set as"
  shows "\<exists>g. find_unmanaged (c_target_id c) u d' = Some g \<and> uf_present g"
proof (cases "find_unmanaged (c_target_id c) u d")
  case (Some f)
  then show ?thesis using found_after_observe [OF assms(1) Some] assms(2,3) by auto
next
  case None
  have "u = ra_username r" "d' = (next_tick d)\<lparr>unmanaged := unmanaged d @ [seen_unmanaged e r (new_finding e c u d)]\<rparr>"
    using assms None by (auto simp: observe_def Let_def split: if_splits)
  moreover have "uf_target_id (new_finding e c u d) = c_target_id c" "uf_username (new_finding e c u d) = u"
    by (simp_all add: new_finding_def)
  ultimately show ?thesis using None by (simp add: find_unmanaged_def find_append)
qed

lemma observed_present:
  assumes "fold (observe e c as) rs (seen, n, d) = (seen', n', d')"
    "\<And>u. u \<in> set seen \<Longrightarrow> u \<notin> set as \<Longrightarrow> \<exists>g. find_unmanaged (c_target_id c) u d = Some g \<and> uf_present g"
  shows "set seen' = set seen \<union> listed e c rs \<and>
    (\<forall>u. u \<in> set seen' \<and> u \<notin> set as \<longrightarrow> (\<exists>g. find_unmanaged (c_target_id c) u d' = Some g \<and> uf_present g))"
  using assms
proof (induction rs arbitrary: seen n d)
  case (Cons r rs)
  obtain s k b where b: "observe e c as r (seen, n, d) = (s, k, b)" by (metis prod.exhaust)
  have rest: "fold (observe e c as) rs (s, k, b) = (seen', n', d')" using Cons.prems(1) b by simp
  have "\<exists>g. find_unmanaged (c_target_id c) u b = Some g \<and> uf_present g" if "u \<in> set s" "u \<notin> set as" for u
  proof (cases "u \<in> set seen")
    case True
    then obtain f where "find_unmanaged (c_target_id c) u d = Some f" "uf_present f" using Cons.prems(2) \<open>u \<notin> set as\<close> by blast
    then show ?thesis using found_after_observe [OF b] that by blast
  next
    case False
    then show ?thesis using found_new [OF b] that by blast
  qed
  moreover have "set s = set seen \<union> listed e c [r]" using observe_users [OF b] by (auto simp: listed_def)
  moreover have "listed e c (r # rs) = listed e c [r] \<union> listed e c rs" by (auto simp: listed_def)
  ultimately show ?case using Cons.IH [OF rest] by auto
qed (auto simp: listed_def)

lemma observed_decision:
  assumes "fold (observe e c as) rs (seen, n, d) = (seen', n', d')" "find_unmanaged (c_target_id c) u d = Some f"
    "u \<in> set seen \<Longrightarrow> uf_present f" "\<not> unsettled f"
  shows "\<exists>g. find_unmanaged (c_target_id c) u d' = Some g \<and> (u \<in> set seen' \<longrightarrow> uf_present g) \<and> uf_decision g = uf_decision f"
  using assms
proof (induction rs arbitrary: seen n d f)
  case (Cons r rs)
  obtain s k b where b: "observe e c as r (seen, n, d) = (s, k, b)" by (metis prod.exhaust)
  obtain g where g: "find_unmanaged (c_target_id c) u b = Some g" "u \<in> set s \<longrightarrow> uf_present g" "uf_decision g = uf_decision f"
    using found_after_observe [OF b Cons.prems(2,3)] Cons.prems(4) by blast
  have "\<not> unsettled g" using g(3) Cons.prems(4) by (simp add: unsettled_def)
  then show ?case using Cons.IH [OF _ g(1)] g Cons.prems(1) b by simp
qed auto

lemma listing_parts:
  obtains seen n d1 where "fold (observe e c (assigned_usernames (c_target_id c) d)) accounts ([], 0, d) = (seen, n, d1)"
    "unmanaged (snd (take_listing e actor c accounts d)) = map (vanished (c_target_id c) seen) (unmanaged d1)"
proof -
  obtain seen n d1 where 1: "fold (observe e c (assigned_usernames (c_target_id c) d)) accounts ([], 0, d) = (seen, n, d1)"
    by (metis prod.exhaust)
  show ?thesis by (rule that [OF 1]) (simp add: take_listing_def Let_def 1 record_audit_def)
qed

text \<open>What is present was listed.  After the listing of a target was taken, the findings of that target that count as present
  are of listed accounts, and every listed account that is not excluded and is not assigned in the console has a
  finding that is present.\<close>

theorem presence_follows_listing:
  shows "(\<forall>f\<in>set (unmanaged (snd (take_listing e actor c accounts d))). uf_target_id f = c_target_id c \<and> uf_present f \<longrightarrow>
      uf_username f \<in> listed e c accounts) \<and>
    (\<forall>u\<in>listed e c accounts - set (assigned_usernames (c_target_id c) d).
      \<exists>f. find_unmanaged (c_target_id c) u (snd (take_listing e actor c accounts d)) = Some f \<and> uf_present f)"
proof -
  let ?as = "assigned_usernames (c_target_id c) d"
  obtain seen n d1 where d1: "fold (observe e c ?as) accounts ([], 0, d) = (seen, n, d1)"
    and d': "unmanaged (snd (take_listing e actor c accounts d)) = map (vanished (c_target_id c) seen) (unmanaged d1)"
    by (rule listing_parts)
  have seen: "set seen = listed e c accounts" using observed_present [OF d1] by auto
  have present: "\<exists>g. find_unmanaged (c_target_id c) u d1 = Some g \<and> uf_present g" if "u \<in> set seen" "u \<notin> set ?as" for u
    using observed_present [OF d1] that by auto
  have "uf_username f \<in> set seen" if "f \<in> set (unmanaged (snd (take_listing e actor c accounts d)))" "uf_target_id f = c_target_id c" "uf_present f" for f
    using that by (auto simp: d' vanished_def split: if_splits)
  moreover have "\<exists>f. find_unmanaged (c_target_id c) u (snd (take_listing e actor c accounts d)) = Some f \<and> uf_present f"
    if u: "u \<in> set seen" "u \<notin> set ?as" for u
  proof -
    obtain g where g: "find_unmanaged (c_target_id c) u d1 = Some g" "uf_present g" using present [OF u] by blast
    have "uf_username g = u" using g(1) by (auto simp: find_unmanaged_def find_Some_iff)
    then have "vanished (c_target_id c) seen g = g" using u by (simp add: vanished_def)
    moreover have "find_unmanaged (c_target_id c) u (snd (take_listing e actor c accounts d)) = map_option (vanished (c_target_id c) seen) (find_unmanaged (c_target_id c) u d1)"
      by (simp add: find_unmanaged_def d' find_map_kept)
    ultimately show ?thesis using g by simp
  qed
  ultimately show ?thesis using seen by auto
qed

definition listing_connector :: Connector where
  "listing_connector = sample_connector\<lparr>c_delete_user := (\<lambda>_ _. sync_result True ''gone'')\<rparr>"

definition remote_bob :: RemoteAccount where
  "remote_bob = \<lparr>ra_username = ''bob'', ra_display_name = ''Bob'', ra_email = [], ra_status = ''active'', ra_uid = None\<rparr>"

lemma bob_listed: "''bob'' \<in> listed sample_env sample_connector [remote_bob]"
proof -
  have "\<not> excluded sample_env ''bob'' GITEA None"
    by (simp add: excluded_def unmanaged_policy_def file_config_def sample_env_def sample_file_def starts_with_def Let_def)
  then show ?thesis unfolding listed_def by (intro image_eqI [of _ _ remote_bob]) (simp_all add: remote_bob_def sample_connector_def)
qed

theorem presence_follows_listing_witness:
  "\<exists>f. find_unmanaged ''gitea'' ''bob'' (snd (take_listing sample_env ''root'' sample_connector [remote_bob] sample_db)) = Some f \<and>
    uf_present f"
proof -
  have "''bob'' \<notin> set (assigned_usernames (c_target_id sample_connector) sample_db)"
    by (simp add: assigned_usernames_def sample_db_def sample_user_def)
  moreover have "c_target_id sample_connector = ''gitea''" by (simp add: sample_connector_def)
  ultimately show ?thesis using presence_follows_listing [of sample_env "''root''" sample_connector "[remote_bob]" sample_db] bob_listed by auto
qed

section \<open>Accounts that come back\<close>

text \<open>An account that comes back is not reviewed again.  When a target lists an account that was removed through the
  console, the finding is present but its decision is still the removal, so it is neither pending nor open for a decision.\<close>

theorem returned_account_stays_removed:
  assumes "find_unmanaged (c_target_id c) u d = Some f" "uf_decision f = ''removed''" "u \<in> listed e c accounts"
  shows "\<exists>g. find_unmanaged (c_target_id c) u (snd (take_listing e actor c accounts d)) = Some g \<and>
    uf_present g \<and> uf_decision g = ''removed''"
proof -
  obtain seen n d1 where d1: "fold (observe e c (assigned_usernames (c_target_id c) d)) accounts ([], 0, d) = (seen, n, d1)"
    and d': "unmanaged (snd (take_listing e actor c accounts d)) = map (vanished (c_target_id c) seen) (unmanaged d1)"
    by (rule listing_parts)
  have seen: "u \<in> set seen" using observed_present [OF d1] assms(3) by auto
  have "\<not> unsettled f" using assms(2) by (simp add: unsettled_def)
  then obtain g where g: "find_unmanaged (c_target_id c) u d1 = Some g" "uf_present g" "uf_decision g = ''removed''"
    using observed_decision [OF d1 assms(1)] seen assms(2) by auto
  have "uf_username g = u" using g(1) by (auto simp: find_unmanaged_def find_Some_iff)
  then have "vanished (c_target_id c) seen g = g" using seen by (simp add: vanished_def)
  moreover have "find_unmanaged (c_target_id c) u (snd (take_listing e actor c accounts d)) = map_option (vanished (c_target_id c) seen) (find_unmanaged (c_target_id c) u d1)"
    by (simp add: find_unmanaged_def d' find_map_kept)
  ultimately show ?thesis using g by simp
qed

definition sample_finding :: UnmanagedAccountFinding where
  "sample_finding = (new_finding sample_env sample_connector ''bob'' empty_db)\<lparr>uf_id := 5\<rparr>"

theorem returned_account_stays_removed_witness:
  "\<exists>g. find_unmanaged ''gitea'' ''bob'' (snd (take_listing sample_env ''root'' sample_connector [remote_bob]
      (sample_db\<lparr>unmanaged := [removed_finding sample_env sample_finding]\<rparr>))) = Some g \<and> uf_present g \<and> uf_decision g = ''removed''"
proof -
  have "find_unmanaged (c_target_id sample_connector) ''bob'' (sample_db\<lparr>unmanaged := [removed_finding sample_env sample_finding]\<rparr>)
      = Some (removed_finding sample_env sample_finding)" "uf_decision (removed_finding sample_env sample_finding) = ''removed''"
    by (simp_all add: find_unmanaged_def removed_finding_def sample_finding_def new_finding_def)
  from returned_account_stays_removed [OF this bob_listed, of "''root''"] show ?thesis by (simp add: sample_connector_def)
qed

section \<open>Removals and adoptions\<close>

text \<open>C33: A removal needs its approval, once.  When the console reports an account as removed, an operator with security rights
  confirmed its name, the removal was allowed by the policy and approved with that very token, and the target
  confirmed the deletion; no later attempt with the same finding changes anything.\<close>

theorem removal_needs_approval:
  assumes "execute_removal e req fid token confirmation d = (Feedback a b g l, d')"
  shows "(\<exists>pr f c. permission_guard e req MANAGE_SECURITY d = Inr pr \<and> um_allow_removal (unmanaged_policy e) \<and>
      get_unmanaged fid d = Some f \<and> removal_approved f token confirmation \<and>
      find (\<lambda>c. c_target_id c = uf_target_id f) (get_connectors e d) = Some c \<and>
      sr_ok (c_delete_user c (tick d) (transient_user (uf_username f) [] []))) \<and>
    snd (execute_removal e2 req2 fid token2 confirmation2 d') = d'"
proof -
  obtain pr where pr: "permission_guard e req MANAGE_SECURITY d = Inr pr"
    using assms by (cases "permission_guard e req MANAGE_SECURITY d") (auto simp: execute_removal_def guarded_def permission_guard_def split: option.splits if_splits)
  obtain f where f: "get_unmanaged fid d = Some f" "removal_approved f token confirmation" "um_allow_removal (unmanaged_policy e)"
    using assms pr by (auto simp: execute_removal_def guarded_def Let_def split: if_splits option.splits)
  obtain c where c: "find (\<lambda>c. c_target_id c = uf_target_id f) (get_connectors e d) = Some c"
    "sr_ok (c_delete_user c (tick d) (transient_user (uf_username f) [] []))"
    using assms pr f by (auto simp: execute_removal_def guarded_def Let_def split: if_splits option.splits)
  obtain x y z i where d': "d' = record_audit e x y z i None (upd_unmanaged fid (removed_finding e) (next_tick d))"
    using assms pr f c by (auto simp: execute_removal_def guarded_def Let_def)
  have "get_unmanaged fid d' = Some (removed_finding e f)"
    using f(1) unmanaged_table.get_upd_same [of "removed_finding e" fid "next_tick d"]
    by (simp add: d' get_unmanaged_def record_audit_def next_tick_def removed_finding_def)
  then have "snd (execute_removal e2 req2 fid token2 confirmation2 d') = d'"
    by (simp add: execute_removal_def guarded_def Let_def removal_approved_def removed_finding_def split: sum.split)
  then show ?thesis using pr f c by blast
qed


definition approved_finding :: UnmanagedAccountFinding where
  "approved_finding = sample_finding\<lparr>uf_username := ''ada'', uf_decision := ''removal_approved'', uf_removal_token := Some 7\<rparr>"

definition removal_env :: Env where
  "removal_env = sample_env\<lparr>settings := settings sample_env\<lparr>s_file := sample_file
     \<lparr>fc_unmanaged_account_policy := fc_unmanaged_account_policy sample_file\<lparr>um_allow_removal := True\<rparr>\<rparr>\<rparr>\<rparr>"

text \<open>The operator is an account of its own; the account of the finding is assigned in the console.\<close>

definition removal_console_db :: db where
  "removal_console_db = sample_db\<lparr>
     users := [sample_user\<lparr>u_username := ''chief'', u_role := ''root''\<rparr>, sample_user\<lparr>u_id := 2\<rparr>],
     sync_states := [sample_state\<lparr>ss_user_id := 2, ss_state := OK\<rparr>], unmanaged := [approved_finding]\<rparr>"

lemma removal_console:
  "\<exists>pr. permission_guard removal_env (sample_request True) MANAGE_SECURITY removal_console_db = Inr pr"
  "um_allow_removal (unmanaged_policy removal_env)" "get_unmanaged 5 removal_console_db = Some approved_finding"
  "removal_approved approved_finding ''7'' ''ada''"
  "find (\<lambda>c. c_target_id c = uf_target_id approved_finding) (get_connectors removal_env removal_console_db) = Some sample_connector"
  "sr_ok (c_delete_user sample_connector (tick removal_console_db) (transient_user (uf_username approved_finding) [] []))"
  "get_user_by_name (uf_username approved_finding) removal_console_db = Some (sample_user\<lparr>u_id := 2\<rparr>)"
  "holds_target (uf_target_id approved_finding) (sample_user\<lparr>u_id := 2\<rparr>) removal_console_db"
proof -
  show "\<exists>pr. permission_guard removal_env (sample_request True) MANAGE_SECURITY removal_console_db = Inr pr"
    by (simp add: permission_guard_def current_user_def sample_request_def removal_console_db_def removal_env_def
        sample_defs get_user_def rows_get_def MAX_AGE_def principal_of_def has_permission_iff)
  show "removal_approved approved_finding ''7'' ''ada''"
  proof -
    have "show_nat 7 = ''7''" by code_simp
    then show ?thesis by (simp add: removal_approved_def approved_finding_def sample_finding_def new_finding_def)
  qed
qed (simp_all add: unmanaged_policy_def file_config_def removal_env_def get_unmanaged_def rows_get_def removal_console_db_def
    approved_finding_def sample_finding_def new_finding_def sample_defs get_connectors_def sync_result_def classify_result_def get_user_by_name_def
    holds_target_def user_states_def)

text \<open>An approved removal reaches a managed account.  The execution of a removal does not look at the states of the console:
  when the account of the finding has been assigned in the console since the approval, it is deleted at the
  target all the same, and its state keeps saying what it said before.\<close>

theorem removal_reaches_managed_account:
  assumes "permission_guard e req MANAGE_SECURITY d = Inr pr" "um_allow_removal (unmanaged_policy e)"
    and "get_unmanaged fid d = Some f" "removal_approved f token confirmation"
    and "find (\<lambda>c. c_target_id c = uf_target_id f) (get_connectors e d) = Some c"
    and "sr_ok (c_delete_user c (tick d) (transient_user (uf_username f) [] []))"
    and "get_user_by_name (uf_username f) d = Some u" "holds_target (uf_target_id f) u d"
  shows "\<exists>a b g l d'. execute_removal e req fid token confirmation d = (Feedback a b g l, d') \<and>
    holds_target (uf_target_id f) u d' \<and> sync_states d' = sync_states d \<and> users d' = users d \<and>
    get_unmanaged fid d' = Some (removed_finding e f)"
proof -
  obtain x y z i a b g l where out: "execute_removal e req fid token confirmation d =
      (Feedback a b g l, record_audit e x y z i None (upd_unmanaged fid (removed_finding e) (next_tick d)))"
    using assms(1-6) by (simp add: execute_removal_def guarded_def Let_def redirect_with_feedback_def)
  let ?d = "record_audit e x y z i None (upd_unmanaged fid (removed_finding e) (next_tick d))"
  have "sync_states ?d = sync_states d" "users ?d = users d"
    by (simp_all add: record_audit_def upd_unmanaged_def next_tick_def)
  moreover have "holds_target (uf_target_id f) u ?d"
    using assms(8) calculation(1) by (simp add: holds_target_def user_states_def)
  moreover have "get_unmanaged fid ?d = Some (removed_finding e f)"
    using assms(3) unmanaged_table.get_upd_same [of "removed_finding e" fid "next_tick d"]
    by (simp add: get_unmanaged_def record_audit_def next_tick_def removed_finding_def)
  ultimately show ?thesis using out by blast
qed

theorem removal_reaches_managed_account_witness:
  "\<exists>a b g l d'. execute_removal removal_env (sample_request True) 5 ''7'' ''ada'' removal_console_db = (Feedback a b g l, d') \<and>
    holds_target ''gitea'' (sample_user\<lparr>u_id := 2\<rparr>) d'"
proof -
  obtain pr where pr: "permission_guard removal_env (sample_request True) MANAGE_SECURITY removal_console_db = Inr pr"
    using removal_console(1) by blast
  have "uf_target_id approved_finding = ''gitea''"
    by (simp add: approved_finding_def sample_finding_def new_finding_def sample_connector_def)
  then show ?thesis using removal_reaches_managed_account [OF pr removal_console(2-8)] by auto
qed

theorem removal_needs_approval_witness:
  "\<exists>a b g l d'. execute_removal removal_env (sample_request True) 5 ''7'' ''ada'' removal_console_db = (Feedback a b g l, d') \<and>
    snd (execute_removal removal_env (sample_request True) 5 ''7'' ''ada'' d') = d'"
proof -
  obtain pr where pr: "permission_guard removal_env (sample_request True) MANAGE_SECURITY removal_console_db = Inr pr"
    using removal_console(1) by blast
  have "\<exists>a b g l d'. execute_removal removal_env (sample_request True) 5 ''7'' ''ada'' removal_console_db = (Feedback a b g l, d')"
    using pr removal_console(2-6) by (simp add: execute_removal_def guarded_def Let_def redirect_with_feedback_def)
  then show ?thesis using removal_needs_approval by blast
qed

text \<open>Adoption does not ask whose account it is.  A finding of the name of the root account, or of an account that is
  being deleted, is linked like any other: its target becomes an assigned target of that account, which the
  selection of targets refuses for root.\<close>

theorem adoption_reaches_root:
  assumes "permission_guard e req MANAGE_USERS d = Inr pr" "get_unmanaged fid d = Some f" "uf_present f"
    and "managed_username_ok (uf_username f)" "get_user_by_name (uf_username f) d = Some u" "unavailable u"
  shows "\<exists>a b g l d'. adopt_finding e req fid password confirmed d = (Feedback a b g l, d') \<and>
    holds_target (uf_target_id f) u d' \<and> users d' = users d"
proof -
  obtain x y z i a b g l where out: "adopt_finding e req fid password confirmed d = (Feedback a b g l,
      record_audit e x y z i None (upd_unmanaged fid (decide_finding e pr ''adopted'') (link_state f u d)))"
    using assms(1-5) by (simp add: adopt_finding_def guarded_def Let_def redirect_with_feedback_def adoption_user_def)
  let ?d = "record_audit e x y z i None (upd_unmanaged fid (decide_finding e pr ''adopted'') (link_state f u d))"
  have same: "sync_states ?d = sync_states (link_state f u d)" "users ?d = users d"
    by (simp_all add: record_audit_def upd_unmanaged_def link_state_def upd_state_def split: option.split)
  have "holds_target (uf_target_id f) u (link_state f u d)"
  proof (cases "state_of (u_id u) (uf_target_id f) d")
    case None
    then show ?thesis by (simp add: link_state_def holds_target_def user_states_def adopted_state_def)
  next
    case (Some s)
    have s: "s \<in> set (sync_states d)" "ss_user_id s = u_id u" "ss_target s = uf_target_id f"
      using find_in [OF Some [unfolded state_of_def]] by (auto simp: user_states_def)
    have "adopted_state u s \<in> set (sync_states (upd_state (ss_id s) (adopted_state u) d))"
      using s(1) by (auto simp: upd_state_def set_rows_upd image_iff intro!: bexI [of _ s])
    then show ?thesis
      using Some s by (auto simp: link_state_def holds_target_def user_states_def list_ex_iff adopted_state_def
          intro!: bexI [of _ "adopted_state u s"])
  qed
  then have "holds_target (uf_target_id f) u ?d" using same(1) by (simp add: holds_target_def user_states_def)
  then show ?thesis using out same(2) by blast
qed

theorem adoption_reaches_root_witness:
  "\<exists>a b g l d'. adopt_finding sample_env (sample_request True) 5 [] [] (removal_console_db\<lparr>
      unmanaged := [approved_finding\<lparr>uf_username := ''chief''\<rparr>]\<rparr>) = (Feedback a b g l, d') \<and>
    holds_target ''gitea'' (sample_user\<lparr>u_username := ''chief'', u_role := ''root''\<rparr>) d'"
proof -
  let ?f = "approved_finding\<lparr>uf_username := ''chief''\<rparr>"
  let ?d = "removal_console_db\<lparr>unmanaged := [?f]\<rparr>"
  let ?u = "sample_user\<lparr>u_username := ''chief'', u_role := ''root''\<rparr>"
  have "\<exists>pr. permission_guard sample_env (sample_request True) MANAGE_USERS ?d = Inr pr"
    by (simp add: permission_guard_def current_user_def sample_request_def removal_console_db_def
        sample_defs get_user_def rows_get_def MAX_AGE_def principal_of_def has_permission_iff)
  then obtain pr where pr: "permission_guard sample_env (sample_request True) MANAGE_USERS ?d = Inr pr" by blast
  have "managed_username_ok ''chief''" by code_simp
  then have "get_unmanaged 5 ?d = Some ?f" "uf_present ?f" "managed_username_ok (uf_username ?f)"
    "get_user_by_name (uf_username ?f) ?d = Some ?u" "unavailable ?u" "uf_target_id ?f = ''gitea''"
    by (simp_all add: get_unmanaged_def rows_get_def approved_finding_def sample_finding_def new_finding_def
        get_user_by_name_def removal_console_db_def unavailable_def is_root_def sample_connector_def)
  then show ?thesis using adoption_reaches_root [OF pr, of 5 ?f ?u "[]" "[]"] by auto
qed

end
