(* ===== verification/Inventory.thy ===== *)
theory Inventory
  imports Paging Sync "HOL-Library.Option_ord"
begin

text \<open>
  The inventory of accounts, \<open>src/na_sso/inventory.py\<close>: the parameters of a query string, the summary of an
  account, and the filtered, ordered and paged list.  A query of the database is the corresponding function on the
  table; what the query computes in SQL and what the program computes from the loaded rows are two
  definitions, which the lemmas compare.
\<close>

section \<open>Parameters\<close>

record InventoryParams =
  ip_search :: string
  ip_lifecycle :: string
  ip_target :: string
  ip_issues :: string
  ip_sort :: string
  ip_direction :: string
  ip_page :: nat
  ip_per_page :: nat

definition LIFECYCLE_FILTERS :: "string list" where
  "LIFECYCLE_FILTERS = [''all'', ''active'', ''chpw'', ''expired'', ''disabled'', ''deleting'', ''deleted'', ''protected'']"
definition ISSUE_FILTERS :: "string list" where
  "ISSUE_FILTERS = [''all'', ''attention'', ''retrying'', ''none'']"
definition SORT_FIELDS :: "string list" where
  "SORT_FIELDS = [''username'', ''name'', ''lifecycle'', ''coverage'', ''issues'', ''password'']"
definition PAGE_SIZES :: "nat list" where
  "PAGE_SIZES = [25, 50, 100]"
definition ISSUE_STATES :: "SyncStateValue set" where
  "ISSUE_STATES = {FAILED, UNSUPPORTED, AWAITING_CREDENTIALS, PENDING_EXPIRY_DISABLE, EXPIRED_DISABLED, RETIRED}"

definition one_of :: "string list \<Rightarrow> string \<Rightarrow> string \<Rightarrow> string" where
  "one_of allowed_values value def_value = (if value \<in> set allowed_values then value else def_value)"

definition page_size :: "nat \<Rightarrow> nat \<Rightarrow> nat" where
  "page_size n def_value = (if n \<in> set PAGE_SIZES then n else if n > 100 then 100 else def_value)"

definition parse_inventory :: "query \<Rightarrow> InventoryParams" where
  "parse_inventory values =
    \<lparr>ip_search = take 100 (strip (query_text values ''q'' [])),
     ip_lifecycle = one_of LIFECYCLE_FILTERS (query_text values ''lifecycle'' ''all'') ''all'',
     ip_target = take 64 (strip (query_text values ''target'' [])),
     ip_issues = one_of ISSUE_FILTERS (query_text values ''issues'' ''all'') ''all'',
     ip_sort = one_of SORT_FIELDS (query_text values ''sort'' ''username'') ''username'',
     ip_direction = one_of [''asc'', ''desc''] (query_text values ''direction'' ''asc'') ''asc'',
     ip_page = min (positive_int values ''page'' 1) 1000000,
     ip_per_page = page_size (positive_int values ''per_page'' 25) 25\<rparr>"

definition inventory_url :: "InventoryParams \<Rightarrow> string" where
  "inventory_url p = cat [''/users?'', urlencode [(''q'', ip_search p), (''lifecycle'', ip_lifecycle p),
     (''target'', ip_target p), (''issues'', ip_issues p), (''sort'', ip_sort p), (''direction'', ip_direction p),
     (''page'', show_nat (ip_page p)), (''per_page'', show_nat (ip_per_page p))]]"

section \<open>Summaries\<close>

record InventorySummary =
  is_lifecycle :: string
  is_healthy_targets :: nat
  is_assigned_targets :: nat
  is_issue_count :: nat

definition lifecycle_value :: "ManagedUser \<Rightarrow> string" where
  "lifecycle_value u =
    (if is_root u then ''protected''
     else if u_desired_action u = DA_DELETE then (if u_deleted_at u \<noteq> None then ''deleted'' else ''deleting'')
     else if u_status u = US_DISABLED then ''disabled''
     else if u_password_decision_kind u \<in> {PD_INITIAL, PD_RESET} then ''chpw''
     else if u_password_decision_kind u = PD_EXPIRED then ''expired''
     else ''active'')"

definition has_issue_state :: "SyncState \<Rightarrow> bool" where
  "has_issue_state s \<longleftrightarrow> ss_retired s \<or> (ss_assigned s \<and> ss_state s \<in> ISSUE_STATES) \<or> ss_state s \<in> {FAILED, UNSUPPORTED}"

definition summarise_user :: "ManagedUser \<Rightarrow> db \<Rightarrow> InventorySummary" where
  "summarise_user u d =
    (let assigned = filter (\<lambda>s. ss_assigned s \<and> \<not> ss_retired s) (user_states (u_id u) d) in
     \<lparr>is_lifecycle = lifecycle_value u,
      is_healthy_targets = length (filter (\<lambda>s. ss_state s = OK) assigned),
      is_assigned_targets = length assigned,
      is_issue_count = length (filter has_issue_state (user_states (u_id u) d))\<rparr>)"

section \<open>The query\<close>

text \<open>The expressions of the query.\<close>

definition sql_lifecycle :: "ManagedUser \<Rightarrow> string" where
  "sql_lifecycle u =
    (if u_role u = ''root'' then ''protected''
     else if u_desired_action u = DA_DELETE \<and> u_deleted_at u \<noteq> None then ''deleted''
     else if u_desired_action u = DA_DELETE then ''deleting''
     else if u_status u = US_DISABLED then ''disabled''
     else if u_password_decision_kind u \<in> {PD_INITIAL, PD_RESET} then ''chpw''
     else if u_password_decision_kind u = PD_EXPIRED then ''expired''
     else ''active'')"

definition issue_condition :: "SyncState \<Rightarrow> bool" where
  "issue_condition s \<longleftrightarrow> ss_retired s \<or> (ss_assigned s \<and> ss_state s \<in> ISSUE_STATES) \<or> ss_state s \<in> {FAILED, UNSUPPORTED}"

definition states_where :: "(SyncState \<Rightarrow> bool) \<Rightarrow> ManagedUser \<Rightarrow> db \<Rightarrow> SyncState list" where
  "states_where c u d = filter (\<lambda>s. ss_user_id s = u_id u \<and> c s) (sync_states d)"

definition healthy_count :: "ManagedUser \<Rightarrow> db \<Rightarrow> nat" where
  "healthy_count u d = length (states_where (\<lambda>s. ss_assigned s \<and> \<not> ss_retired s \<and> ss_state s = OK) u d)"

definition issue_count :: "ManagedUser \<Rightarrow> db \<Rightarrow> nat" where
  "issue_count u d = length (states_where issue_condition u d)"

definition has_retry :: "ManagedUser \<Rightarrow> db \<Rightarrow> bool" where
  "has_retry u d \<longleftrightarrow> states_where (\<lambda>s. ss_state s = FAILED \<and> ss_next_retry_at s \<noteq> None) u d \<noteq> []"

definition search_matches :: "string \<Rightarrow> ManagedUser \<Rightarrow> bool" where
  "search_matches search u \<longleftrightarrow> (let pattern = containing (lower search) in
     like pattern (lower (u_username u)) \<or> like pattern (lower (u_display_name u)) \<or> like pattern (lower (u_email u)))"

definition inventory_matches :: "InventoryParams \<Rightarrow> db \<Rightarrow> ManagedUser \<Rightarrow> bool" where
  "inventory_matches p d u \<longleftrightarrow>
     (ip_search p = [] \<or> search_matches (ip_search p) u) \<and>
     (ip_lifecycle p = ''all'' \<or> sql_lifecycle u = ip_lifecycle p) \<and>
     (ip_target p = [] \<or> states_where (\<lambda>s. ss_target s = ip_target p \<and> ss_assigned s \<and> \<not> ss_retired s) u d \<noteq> []) \<and>
     (ip_issues p = ''attention'' \<longrightarrow> states_where issue_condition u d \<noteq> []) \<and>
     (ip_issues p = ''retrying'' \<longrightarrow> has_retry u d) \<and>
     (ip_issues p = ''none'' \<longrightarrow> states_where issue_condition u d = [])"

definition directed :: "string \<Rightarrow> (ManagedUser \<Rightarrow> 'k::linorder) \<Rightarrow> ManagedUser list \<Rightarrow> ManagedUser list" where
  "directed direction k us = (if direction = ''desc'' then sort_desc k us else sort_key k us)"

definition coalesce :: "'a option \<Rightarrow> 'a option \<Rightarrow> 'a option" where
  "coalesce a b = (case a of None \<Rightarrow> b | Some x \<Rightarrow> Some x)"

definition inventory_order :: "InventoryParams \<Rightarrow> db \<Rightarrow> ManagedUser list \<Rightarrow> ManagedUser list" where
  "inventory_order p d us =
    (let base = sort_key (\<lambda>u. lower (u_username u)) (sort_key u_id us); dir = directed (ip_direction p); key = ip_sort p in
     if key = ''name'' then dir (\<lambda>u. lower (u_display_name u)) base
     else if key = ''lifecycle'' then dir sql_lifecycle base
     else if key = ''coverage'' then directed (ip_direction p) (\<lambda>u. healthy_count u d) base
     else if key = ''issues'' then directed (ip_direction p) (\<lambda>u. issue_count u d) base
     else if key = ''password'' then directed (ip_direction p) (\<lambda>u. coalesce (u_password_keep_until u) (u_password_changed_at u)) base
     else dir (\<lambda>u. lower (u_username u)) base)"

record InventoryPage =
  iv_items :: "(ManagedUser \<times> InventorySummary) list"
  iv_params :: InventoryParams
  iv_total :: nat
  iv_pages :: nat

definition inventory_rows :: "InventoryParams \<Rightarrow> db \<Rightarrow> ManagedUser list" where
  "inventory_rows p d = inventory_order p d (filter (inventory_matches p d) (users d))"

definition query_inventory :: "db \<Rightarrow> InventoryParams \<Rightarrow> InventoryPage" where
  "query_inventory d p =
    (let found = filter (inventory_matches p d) (users d);
         page = shown_page (ip_page p) (ip_per_page p) found in
     \<lparr>iv_items = map (\<lambda>u. (u, summarise_user u d)) (page_slice page (ip_per_page p) (inventory_order p d found)),
      iv_params = p\<lparr>ip_page := page\<rparr>, iv_total = length found, iv_pages = pages_of (length found) (ip_per_page p)\<rparr>)"

section \<open>What the query computes\<close>

lemma same_lifecycle: "sql_lifecycle u = lifecycle_value u"
  by (simp add: sql_lifecycle_def lifecycle_value_def is_root_def)

lemma same_issues: "issue_count u d = is_issue_count (summarise_user u d)"
  by (simp add: issue_count_def states_where_def summarise_user_def Let_def user_states_def issue_condition_def
      has_issue_state_def conj_commute)

lemma same_health: "healthy_count u d = is_healthy_targets (summarise_user u d)"
  by (simp add: healthy_count_def states_where_def summarise_user_def Let_def user_states_def conj_ac)

lemma ordered_rows [simp]: "mset (inventory_order p d us) = mset us"
  by (simp add: inventory_order_def directed_def Let_def)

lemma ordered_length [simp]: "length (inventory_order p d us) = length us"
  using ordered_rows [of p d us] by (metis size_mset)

definition inventory_fetch :: "InventoryParams \<Rightarrow> nat \<Rightarrow> nat \<Rightarrow> db \<Rightarrow> nat \<times> ManagedUser list" where
  "inventory_fetch p page per d =
    (let r = query_inventory d (p\<lparr>ip_page := page, ip_per_page := per\<rparr>) in (ip_page (iv_params r), map fst (iv_items r)))"

interpretation inventory: paged_list "inventory_rows p" "inventory_fetch p"
  for p :: InventoryParams
proof
  fix page per d
  let ?p = "p\<lparr>ip_page := page, ip_per_page := per\<rparr>"
  have "inventory_matches ?p d = inventory_matches p d" by (rule ext) (simp add: inventory_matches_def)
  moreover have "inventory_order ?p d = inventory_order p d" by (rule ext) (simp add: inventory_order_def Let_def)
  ultimately show "inventory_fetch p page per d = (shown_page page per (inventory_rows p d),
      page_slice (shown_page page per (inventory_rows p d)) per (inventory_rows p d))"
    by (simp add: inventory_fetch_def query_inventory_def Let_def shown_page_def inventory_rows_def comp_def)
qed

section \<open>Properties\<close>

definition in_direction :: "InventoryParams \<Rightarrow> 'a list \<Rightarrow> 'a list" where
  "in_direction p xs = (if ip_direction p = ''desc'' then rev xs else xs)"

lemma directed_sorted: "sorted (in_direction p (map k (directed (ip_direction p) k us)))"
  by (simp add: in_direction_def directed_def sort_desc_def rev_map [symmetric])

lemma sorted_slice:
  assumes "sorted (in_direction p xs)" shows "sorted (in_direction p (page_slice n per xs))"
proof (cases "ip_direction p = ''desc''")
  case True
  have "sorted (rev xs)" using assms True by (simp add: in_direction_def)
  then have "sorted (rev (page_slice n per xs))"
    unfolding page_slice_def by (simp add: rev_take rev_drop sorted_wrt_take sorted_wrt_drop)
  then show ?thesis using True by (simp add: in_direction_def)
qed (use assms in \<open>simp add: in_direction_def page_slice_def sorted_wrt_take sorted_wrt_drop\<close>)

lemma items_of_page:
  "map fst (iv_items (query_inventory d p)) = page_slice (ip_page (iv_params (query_inventory d p))) (ip_per_page p) (inventory_rows p d)"
  "iv_items (query_inventory d p) = map (\<lambda>u. (u, summarise_user u d)) (map fst (iv_items (query_inventory d p)))"
  by (simp_all add: query_inventory_def inventory_rows_def Let_def comp_def)

lemma mapped_slice: "map f (page_slice n per xs) = page_slice n per (map f xs)"
  by (simp add: page_slice_def take_map drop_map)

text \<open>C34: The list of accounts shows what its filters and its order say.  Every account on a page has the summary that the
  program computes from its states, the filters of lifecycle and issues hold of that summary, and a page ordered by lifecycle,
  coverage or issues is ordered by the values it shows, although the query computes them in SQL.\<close>

theorem inventory_shows_what_it_filters:
  assumes "r = query_inventory d p"
  shows "(\<forall>(u, s)\<in>set (iv_items r). u \<in> set (users d) \<and> s = summarise_user u d \<and>
      (ip_lifecycle p = ''all'' \<or> is_lifecycle s = ip_lifecycle p) \<and>
      (ip_issues p = ''attention'' \<longrightarrow> 0 < is_issue_count s) \<and> (ip_issues p = ''none'' \<longrightarrow> is_issue_count s = 0)) \<and>
    (ip_sort p = ''lifecycle'' \<longrightarrow> sorted (in_direction p (map (is_lifecycle \<circ> snd) (iv_items r)))) \<and>
    (ip_sort p = ''coverage'' \<longrightarrow> sorted (in_direction p (map (is_healthy_targets \<circ> snd) (iv_items r)))) \<and>
    (ip_sort p = ''issues'' \<longrightarrow> sorted (in_direction p (map (is_issue_count \<circ> snd) (iv_items r))))"
proof -
  let ?us = "map fst (iv_items r)"
  have items: "iv_items r = map (\<lambda>u. (u, summarise_user u d)) ?us"
    unfolding assms by (rule items_of_page(2))
  have slice: "?us = page_slice (ip_page (iv_params r)) (ip_per_page p) (inventory_rows p d)"
    unfolding assms by (rule items_of_page(1))
  have listed: "u \<in> set (users d) \<and> inventory_matches p d u" if "u \<in> set ?us" for u
  proof -
    have "u \<in> set (inventory_rows p d)"
      using that unfolding slice page_slice_def by (meson in_set_dropD in_set_takeD)
    then have "u \<in># mset (filter (inventory_matches p d) (users d))"
      by (metis inventory_rows_def ordered_rows set_mset_mset)
    then show ?thesis by simp
  qed
  have issues: "states_where issue_condition u d = [] \<longleftrightarrow> is_issue_count (summarise_user u d) = 0" for u
    using same_issues [of u d] by (metis issue_count_def length_0_conv)
  have ordered: "sorted (in_direction p (map (k \<circ> snd) (iv_items r)))"
    if key: "\<And>us. \<exists>base. inventory_order p d us = directed (ip_direction p) (\<lambda>u. k (summarise_user u d)) base" for k :: "InventorySummary \<Rightarrow> 'k::linorder"
  proof -
    obtain base where base: "inventory_rows p d = directed (ip_direction p) (\<lambda>u. k (summarise_user u d)) base"
      using key unfolding inventory_rows_def by blast
    have "map (k \<circ> snd) (iv_items r) = map (\<lambda>u. k (summarise_user u d)) ?us"
      by (subst items) (simp add: comp_def)
    then show ?thesis using sorted_slice [OF directed_sorted [of p "\<lambda>u. k (summarise_user u d)" base]]
      by (simp add: slice mapped_slice base)
  qed
  have "\<forall>(u, s)\<in>set (iv_items r). u \<in> set (users d) \<and> s = summarise_user u d \<and>
      (ip_lifecycle p = ''all'' \<or> is_lifecycle s = ip_lifecycle p) \<and>
      (ip_issues p = ''attention'' \<longrightarrow> 0 < is_issue_count s) \<and> (ip_issues p = ''none'' \<longrightarrow> is_issue_count s = 0)"
  proof (clarify, intro conjI)
    fix u s assume "(u, s) \<in> set (iv_items r)"
    then have "(u, s) \<in> (\<lambda>u. (u, summarise_user u d)) ` set ?us" by (metis items image_set)
    then have u: "u \<in> set ?us" "s = summarise_user u d" by blast+
    have m: "inventory_matches p d u" and "u \<in> set (users d)" using listed [OF u(1)] by simp_all
    have "is_lifecycle (summarise_user u d) = sql_lifecycle u" by (simp add: summarise_user_def Let_def same_lifecycle)
    then show "u \<in> set (users d)" "s = summarise_user u d" "ip_lifecycle p = ''all'' \<or> is_lifecycle s = ip_lifecycle p"
      "ip_issues p = ''attention'' \<longrightarrow> 0 < is_issue_count s" "ip_issues p = ''none'' \<longrightarrow> is_issue_count s = 0"
      using m \<open>u \<in> set (users d)\<close> u(2) issues by (auto simp: inventory_matches_def)
  qed
  moreover have "sorted (in_direction p (map (is_lifecycle \<circ> snd) (iv_items r)))" if "ip_sort p = ''lifecycle''"
    by (rule ordered) (use that in \<open>auto simp: inventory_order_def Let_def summarise_user_def same_lifecycle [abs_def]\<close>)
  moreover have "sorted (in_direction p (map (is_healthy_targets \<circ> snd) (iv_items r)))" if "ip_sort p = ''coverage''"
    by (rule ordered) (use that in \<open>auto simp: inventory_order_def Let_def same_health\<close>)
  moreover have "sorted (in_direction p (map (is_issue_count \<circ> snd) (iv_items r)))" if "ip_sort p = ''issues''"
    by (rule ordered) (use that in \<open>auto simp: inventory_order_def Let_def same_issues\<close>)
  ultimately show ?thesis by blast
qed

theorem inventory_shows_what_it_filters_witness:
  "\<exists>u s. (u, s) \<in> set (iv_items (query_inventory sample_db (parse_inventory (\<lambda>_. None)))) \<and> s = summarise_user u sample_db"
proof -
  let ?p = "parse_inventory (\<lambda>_. None)"
  have p: "ip_search ?p = []" "ip_lifecycle ?p = ''all''" "ip_target ?p = []" "ip_issues ?p = ''all''" "ip_page ?p = 1" "ip_per_page ?p = 25"
    by (simp_all add: parse_inventory_def query_text_def strip_def one_of_def LIFECYCLE_FILTERS_def ISSUE_FILTERS_def positive_int_def
        page_size_def PAGE_SIZES_def)
  have "filter (inventory_matches ?p sample_db) (users sample_db) = [sample_user]"
    by (simp add: sample_db_def inventory_matches_def p)
  then have "length (iv_items (query_inventory sample_db ?p)) = 1"
    by (simp add: query_inventory_def Let_def p shown_page_def pages_of_def page_slice_def)
  then obtain u s where "(u, s) \<in> set (iv_items (query_inventory sample_db ?p))" by (cases "iv_items (query_inventory sample_db ?p)") auto
  then show ?thesis using inventory_shows_what_it_filters [OF refl, of sample_db ?p] by blast
qed

lemma parsed_size: "0 < ip_per_page (parse_inventory values)"
  by (simp add: parse_inventory_def page_size_def PAGE_SIZES_def)

definition inventory_page :: "query \<Rightarrow> db \<Rightarrow> nat \<Rightarrow> ManagedUser list" where
  "inventory_page values d n = map fst (iv_items (query_inventory d (parse_inventory values\<lparr>ip_page := n\<rparr>)))"

text \<open>Every account is on one page.  Whatever the query string asks for, the pages of the list, one after the other, are the
  accounts that match, each once and in the order of the list.\<close>

theorem every_account_on_one_page:
  shows "concat (map (inventory_page values d) [1..<Suc (iv_pages (query_inventory d (parse_inventory values)))]) =
      inventory_rows (parse_inventory values) d \<and>
    mset (inventory_rows (parse_inventory values) d) = mset (filter (inventory_matches (parse_inventory values) d) (users d))"
proof -
  let ?p = "parse_inventory values"
  have "inventory_page values d = (\<lambda>n. snd (inventory_fetch ?p n (ip_per_page ?p) d))"
    by (rule ext) (simp add: inventory_page_def inventory_fetch_def Let_def)
  moreover have "iv_pages (query_inventory d ?p) = pages_of (length (inventory_rows ?p d)) (ip_per_page ?p)"
    by (simp add: query_inventory_def inventory_rows_def Let_def)
  ultimately show ?thesis
    using inventory.all_rows [where p = ?p and s = d, OF parsed_size] by (simp add: inventory_rows_def)
qed

text \<open>An account whose name contains the text of the search is found.\<close>

lemma search_finds:
  assumes "u_username u = xs @ search @ ys" shows "search_matches search u"
  using contains_found [of "lower search" "lower xs" "lower ys"] assms by (simp add: search_matches_def lower_def)

end
