(* ===== verification/AuditQuery.thy ===== *)
theory AuditQuery
  imports Paging Governance Csv Json "HOL-Library.Option_ord"
begin

text \<open>
  Reading the audit trail, \<open>src/na_sso/audit_query.py\<close> and the handlers of \<open>src/na_sso/audit.py\<close>: the
  parameters of a query string, the filters, the redaction of details, the page and the exports.  A day is a number of days
  since 1970; the indentation of a JSON export is not modelled.
\<close>

section \<open>Dates\<close>

text \<open>\<open>strptime\<close> with the format of a calendar date: four digits, then one or two digits each for month and day; the day may
  have a blank in place of its first digit.\<close>

definition leap_year :: "int \<Rightarrow> bool" where
  "leap_year y \<longleftrightarrow> y mod 4 = 0 \<and> (y mod 100 \<noteq> 0 \<or> y mod 400 = 0)"

definition days_in_month :: "int \<Rightarrow> int \<Rightarrow> int" where
  "days_in_month y m = (if m = 2 then (if leap_year y then 29 else 28) else if m \<in> {4, 6, 9, 11} then 30 else 31)"

definition days_from_civil :: "int \<Rightarrow> int \<Rightarrow> int \<Rightarrow> int" where
  "days_from_civil y m n =
    (let y1 = (if m \<le> 2 then y - 1 else y); era = y1 div 400; yoe = y1 - era * 400;
         doy = (153 * (if m > 2 then m - 3 else m + 9) + 2) div 5 + n - 1;
         doe = yoe * 365 + yoe div 4 - yoe div 100 + doy
     in era * 146097 + doe - 719468)"

definition short_number :: "string \<Rightarrow> nat option" where
  "short_number s = (if s = [] \<or> length s > 2 then None else parse_digits 0 s)"

definition day_number :: "string \<Rightarrow> nat option" where
  "day_number s = (case s of [a, b] \<Rightarrow> if a = CHR '' '' then short_number [b] else short_number s | _ \<Rightarrow> short_number s)"

definition calendar_day :: "string \<Rightarrow> int option" where
  "calendar_day s = (case split_on (CHR ''-'') s of
      [y, m, n] \<Rightarrow>
        (case (if length y = 4 then parse_digits 0 y else None, short_number m, day_number n) of
          (Some y, Some m, Some n) \<Rightarrow>
            if 1 \<le> y \<and> 1 \<le> m \<and> m \<le> 12 \<and> 1 \<le> n \<and> int n \<le> days_in_month (int y) (int m)
            then Some (days_from_civil (int y) (int m) (int n)) else None
        | _ \<Rightarrow> None)
    | _ \<Rightarrow> None)"

definition last_day :: int where "last_day = days_from_civil 9999 12 31"

text \<open>The end of a range is the start of the next day, which does not exist after the last day of the calendar.\<close>

definition query_date :: "string \<Rightarrow> bool \<Rightarrow> string + time option" where
  "query_date s at_end = (case calendar_day s of
      None \<Rightarrow> Inr None
    | Some n \<Rightarrow> if \<not> at_end then Inr (Some (n * day))
        else if n = last_day then Inl ''OverflowError'' else Inr (Some ((n + 1) * day)))"

section \<open>Parameters\<close>

record AuditParams =
  ap_date_from :: string
  ap_date_to :: string
  ap_actor :: string
  ap_subject :: string
  ap_target :: string
  ap_action :: string
  ap_operation :: string
  ap_outcome :: string
  ap_page :: nat
  ap_per_page :: nat

definition OUTCOMES :: "string list" where
  "OUTCOMES = [''all'', ''succeeded'', ''failed'', ''in_progress'', ''uncorrelated'']"

definition AUDIT_PAGE_SIZES :: "nat list" where "AUDIT_PAGE_SIZES = [25, 50, 100]"

definition clipped :: "query \<Rightarrow> string \<Rightarrow> nat \<Rightarrow> string" where
  "clipped values name n = take n (strip (query_text values name []))"

definition parse_audit :: "query \<Rightarrow> string + AuditParams" where
  "parse_audit values =
    (let first = query_text values ''date_from'' []; last = query_text values ''date_to'' [];
         size_asked = positive_int values ''per_page'' 50; asked = query_text values ''outcome'' ''all'' in
     case (query_date first False, query_date last True) of
       (Inr a, Inr b) \<Rightarrow> Inr
         \<lparr>ap_date_from = (if a \<noteq> None then first else []), ap_date_to = (if b \<noteq> None then last else []),
          ap_actor = clipped values ''actor'' 64, ap_subject = clipped values ''subject'' 128,
          ap_target = clipped values ''target'' 64, ap_action = clipped values ''action'' 64,
          ap_operation = clipped values ''operation'' 36,
          ap_outcome = (if asked \<in> set OUTCOMES then asked else ''all''),
          ap_page = min (positive_int values ''page'' 1) 1000000,
          ap_per_page = (if size_asked \<in> set AUDIT_PAGE_SIZES then size_asked else if size_asked > 100 then 100 else 50)\<rparr>
     | (Inl err, _) \<Rightarrow> Inl err
     | (_, Inl err) \<Rightarrow> Inl err)"

definition audit_fields :: "AuditParams \<Rightarrow> (string \<times> string) list" where
  "audit_fields p = [(''date_from'', ap_date_from p), (''date_to'', ap_date_to p), (''actor'', ap_actor p),
     (''subject'', ap_subject p), (''target'', ap_target p), (''action'', ap_action p), (''operation'', ap_operation p),
     (''outcome'', ap_outcome p), (''page'', show_nat (ap_page p))]"

definition audit_url :: "AuditParams \<Rightarrow> string" where
  "audit_url p = cat [''/audit?'', urlencode (audit_fields p @ [(''per_page'', show_nat (ap_per_page p))])]"

definition export_url :: "string \<Rightarrow> AuditParams \<Rightarrow> string" where
  "export_url format p = cat [''/audit/export.'', format, ''?'', urlencode (audit_fields p)]"

section \<open>Labels\<close>

definition FRIENDLY_ACTIONS :: "(string \<times> string) list" where
  "FRIENDLY_ACTIONS = [
    (''user.create'', ''Created managed account''),
    (''user.update'', ''Updated managed account''),
    (''user.delete_requested'', ''Requested account deletion''),
    (''user.restore'', ''Restored managed account''),
    (''user.purge'', ''Purged local account record''),
    (''password.changed'', ''Changed account password''),
    (''password.expired'', ''Password expired''),
    (''password.keep_acknowledged'', ''Acknowledged expired password''),
    (''target.credentials_saved'', ''Saved target credentials''),
    (''target.probed'', ''Tested target connection''),
    (''role.assigned'', ''Assigned scoped role''),
    (''audit.exported'', ''Exported audit events''),
    (''mfa.login'', ''Verified administrator sign-in''),
    (''mfa.totp.enrolled'', ''Enrolled authenticator app''),
    (''mfa.totp.revoked'', ''Revoked authenticator app''),
    (''mfa.webauthn.enrolled'', ''Enrolled passkey''),
    (''mfa.webauthn.revoked'', ''Revoked passkey''),
    (''mfa.recovery.regenerated'', ''Replaced recovery codes''),
    (''webhook.delivered'', ''Delivered webhook notification''),
    (''webhook.failed'', ''Webhook delivery exhausted retries''),
    (''webhook.enabled'', ''Enabled webhook destination''),
    (''webhook.disabled'', ''Disabled webhook destination''),
    (''webhook.retry_requested'', ''Requested webhook retry'')]"

definition upper_char :: "char \<Rightarrow> char" where
  "upper_char c = (if is_lower c then char_of (of_char c - 32 :: nat) else c)"

definition capitalize :: "string \<Rightarrow> string" where
  "capitalize s = (case s of [] \<Rightarrow> [] | c # cs \<Rightarrow> upper_char c # lower cs)"

definition friendly_action :: "string \<Rightarrow> string" where
  "friendly_action action = (case map_of FRIENDLY_ACTIONS action of
      Some label \<Rightarrow> label
    | None \<Rightarrow> capitalize (map (\<lambda>c. if c = CHR ''.'' \<or> c = CHR ''_'' then CHR '' '' else c) action))"

definition operation_outcome :: "LifecycleOperation option \<Rightarrow> string" where
  "operation_outcome oper = (case oper of
      None \<Rightarrow> ''uncorrelated''
    | Some x \<Rightarrow> if op_status x = SUCCEEDED then ''succeeded''
        else if op_status x \<in> {OP_FAILED, PARTIALLY_FAILED, BLOCKED, CANCELLED} then ''failed''
        else ''in_progress'')"

section \<open>Redaction\<close>

definition REDACTED :: string where "REDACTED = ''[redacted]''"

text \<open>A marker of a private key: the words before the name, a name without a dash, and the five dashes; what comes after it.\<close>

definition key_marker :: "string \<Rightarrow> string \<Rightarrow> string option" where
  "key_marker intro s =
    (let t = drop (length intro) s; name = takeWhile (\<lambda>c. c \<noteq> CHR ''-'') t; rest = dropWhile (\<lambda>c. c \<noteq> CHR ''-'') t in
     if starts_with intro s \<and> ends_with ''PRIVATE KEY'' name \<and> starts_with ''-----'' rest then Some (drop 5 rest) else None)"

fun after_key :: "string \<Rightarrow> string option" where
  "after_key s = (case key_marker ''-----END '' s of Some rest \<Rightarrow> Some rest
     | None \<Rightarrow> (case s of [] \<Rightarrow> None | c # cs \<Rightarrow> after_key cs))"

declare after_key.simps [simp del]

lemma key_marker_shorter:
  assumes "key_marker intro s = Some rest" shows "length rest < length s"
proof -
  define x where "x = dropWhile (\<lambda>c. c \<noteq> CHR ''-'') (drop (length intro) s)"
  have x: "starts_with ''-----'' x" "rest = drop 5 x"
    using assms by (auto simp: key_marker_def Let_def x_def split: if_splits)
  have "length x \<le> length (drop (length intro) s)" unfolding x_def by (rule length_dropWhile_le)
  then show ?thesis using x by (cases x) (auto simp: starts_with_def)
qed

lemma after_key_shorter: "after_key s = Some rest \<Longrightarrow> length rest \<le> length s"
proof (induction s)
  case Nil
  then show ?case using key_marker_shorter [of "''-----END ''" "[]" rest] by (simp add: after_key.simps split: option.splits)
next
  case (Cons c cs)
  show ?case
  proof (cases "key_marker ''-----END '' (c # cs)")
    case None
    then have "after_key cs = Some rest" using Cons.prems by (subst (asm) after_key.simps) simp
    then show ?thesis using Cons.IH by simp
  next
    case (Some r)
    then have "r = rest" using Cons.prems by (subst (asm) after_key.simps) simp
    then show ?thesis using key_marker_shorter [OF Some] by simp
  qed
qed

function redact_keys :: "string \<Rightarrow> string" where
  "redact_keys s = (case s of [] \<Rightarrow> []
     | c # cs \<Rightarrow> (case Option.bind (key_marker ''-----BEGIN '' s) after_key of
         None \<Rightarrow> c # redact_keys cs
       | Some rest \<Rightarrow> REDACTED @ redact_keys rest))"
  by pat_completeness auto
termination
proof (relation "measure length")
  fix s :: string and c cs rest
  assume s: "s = c # cs" and "Option.bind (key_marker ''-----BEGIN '' s) after_key = Some rest"
  then obtain r where r: "key_marker ''-----BEGIN '' s = Some r" "after_key r = Some rest" by (cases "key_marker ''-----BEGIN '' s") auto
  have "length r < length s" using key_marker_shorter [OF r(1)] .
  then show "(rest, s) \<in> measure length" using after_key_shorter [OF r(2)] by simp
qed simp_all

declare redact_keys.simps [simp del]

text \<open>The words that announce a credential, in both cases; what stands between the parts of a word may be left out.\<close>

definition after_word :: "string \<Rightarrow> string \<Rightarrow> string option" where
  "after_word w s = (if lower (take (length w) s) = w then Some (drop (length w) s) else None)"

definition after_words :: "string \<Rightarrow> string \<Rightarrow> char set \<Rightarrow> string \<Rightarrow> string option" where
  "after_words a b between s = Option.bind (after_word a s) (\<lambda>t.
     case t of c # cs \<Rightarrow> if c \<in> between then after_word b cs else after_word b t | [] \<Rightarrow> None)"

fun first_some :: "'a option list \<Rightarrow> 'a option" where
  "first_some [] = None"
| "first_some (Some x # xs) = Some x"
| "first_some (None # xs) = first_some xs"

definition after_keyword :: "string \<Rightarrow> string option" where
  "after_keyword s = first_some
     [after_word ''password'' s, after_word ''passphrase'' s, after_words ''api'' ''secret'' (set ''_ -'') s,
      after_words ''private'' ''key'' (set ''_ -'') s, after_word ''authorization'' s, after_word ''bearer'' s, after_word ''token'' s]"

definition detail_char :: "char \<Rightarrow> bool" where
  "detail_char c \<longleftrightarrow> \<not> is_space c \<and> c \<noteq> CHR '','' \<and> c \<noteq> CHR '';''"

definition after_value :: "string \<Rightarrow> string option" where
  "after_value s = (case s of c # cs \<Rightarrow> if detail_char c then Some (dropWhile detail_char cs) else None | [] \<Rightarrow> None)"

text \<open>A separator with a colon or an equality sign, or else blanks, and a value.\<close>

definition after_credential :: "string \<Rightarrow> string option" where
  "after_credential s =
    (let t = dropWhile is_space s;
         marked = (case t of c # cs \<Rightarrow> if c \<in> set '':='' then after_value (dropWhile is_space cs) else None | [] \<Rightarrow> None) in
     case marked of Some rest \<Rightarrow> Some rest
     | None \<Rightarrow> if s \<noteq> [] \<and> is_space (hd s) then after_value t else None)"

definition match_credential :: "string \<Rightarrow> (string \<times> string) option" where
  "match_credential s = Option.bind (after_keyword s) (\<lambda>t. Option.bind (after_credential t) (\<lambda>rest.
     Some (take (length s - length t) s, rest)))"

lemma after_word_shorter:
  assumes "after_word w s = Some t" "w \<noteq> []" shows "length t < length s"
proof -
  have "t = drop (length w) s" "lower (take (length w) s) = w" using assms(1) by (simp_all add: after_word_def split: if_splits)
  moreover from this have "s \<noteq> []" using assms(2) by (auto simp: lower_def)
  ultimately show ?thesis using assms(2) by simp
qed

lemma after_words_shorter:
  assumes "after_words a b between s = Some t" "a \<noteq> []" "b \<noteq> []" shows "length t < length s"
proof -
  obtain u where u: "after_word a s = Some u" "(case u of c # cs \<Rightarrow> if c \<in> between then after_word b cs else after_word b u | [] \<Rightarrow> None) = Some t"
    using assms(1) by (auto simp: after_words_def bind_eq_Some_conv)
  have "length t \<le> length u"
    using u(2) after_word_shorter [OF _ assms(3)] by (fastforce split: list.splits if_splits intro: less_imp_le)
  then show ?thesis using after_word_shorter [OF u(1) assms(2)] by simp
qed

lemma first_some_in: "first_some xs = Some x \<Longrightarrow> Some x \<in> set xs"
  by (induction xs rule: first_some.induct) auto

lemma after_keyword_shorter:
  assumes "after_keyword s = Some t" shows "length t < length s"
proof -
  have "after_word ''password'' s = Some t \<or> after_word ''passphrase'' s = Some t \<or> after_words ''api'' ''secret'' (set ''_ -'') s = Some t \<or>
      after_words ''private'' ''key'' (set ''_ -'') s = Some t \<or> after_word ''authorization'' s = Some t \<or>
      after_word ''bearer'' s = Some t \<or> after_word ''token'' s = Some t"
    using first_some_in [OF assms [unfolded after_keyword_def]] by (simp only: set_simps insert_iff empty_iff) metis
  then show ?thesis
    by (elim disjE) ((erule after_word_shorter, simp) | (erule after_words_shorter, simp, simp))+
qed

lemma after_value_shorter: "after_value s = Some rest \<Longrightarrow> length rest \<le> length s"
  by (cases s) (auto simp: after_value_def split: if_splits intro: le_SucI length_dropWhile_le)

lemma after_credential_shorter:
  assumes "after_credential s = Some rest" shows "length rest \<le> length s"
proof -
  have d: "length (dropWhile is_space x) \<le> length x" for x by (rule length_dropWhile_le)
  obtain x where x: "after_value x = Some rest" "length x \<le> length s"
  proof (cases "dropWhile is_space s")
    case Nil
    then show ?thesis using assms unfolding after_credential_def Let_def Nil by (simp add: after_value_def split: if_splits)
  next
    case (Cons c cs)
    have "length cs < length s" using Cons d [of s] by simp
    then have "length (dropWhile is_space cs) \<le> length s" using d [of cs] by linarith
    then show ?thesis
      using assms that [of "dropWhile is_space cs"] that [of "c # cs"] Cons d [of s]
      unfolding after_credential_def Let_def Cons by (auto split: option.splits if_splits)
  qed
  then show ?thesis using after_value_shorter [OF x(1)] by simp
qed

function redact_credentials :: "string \<Rightarrow> string" where
  "redact_credentials s = (case s of [] \<Rightarrow> []
     | c # cs \<Rightarrow> (case match_credential s of
         None \<Rightarrow> c # redact_credentials cs
       | Some (w, rest) \<Rightarrow> w @ CHR ''='' # REDACTED @ redact_credentials rest))"
  by pat_completeness auto
termination
proof (relation "measure length")
  fix s :: string and c cs m w rest
  assume "s = c # cs" "match_credential s = Some m" "(w, rest) = m"
  then obtain t where "after_keyword s = Some t" "after_credential t = Some rest"
    by (auto simp: match_credential_def bind_eq_Some_conv)
  then show "(rest, s) \<in> measure length"
    using after_keyword_shorter after_credential_shorter by fastforce
qed simp_all

declare redact_credentials.simps [simp del]

definition safe_detail :: "string \<Rightarrow> string" where
  "safe_detail detail = redact_credentials (redact_keys detail)"

section \<open>The query\<close>

definition event_operation :: "db \<Rightarrow> AuditEvent \<Rightarrow> LifecycleOperation option" where
  "event_operation d ev = Option.bind (ae_operation_id ev) (\<lambda>i. get_operation i d)"

definition outcome_statuses :: "string \<Rightarrow> OperationStatus set" where
  "outcome_statuses x =
    (if x = ''succeeded'' then {SUCCEEDED}
     else if x = ''failed'' then {OP_FAILED, PARTIALLY_FAILED, BLOCKED, CANCELLED} else {QUEUED, RUNNING})"

definition text_matches :: "string \<Rightarrow> string \<Rightarrow> bool" where
  "text_matches wanted value \<longleftrightarrow> wanted = [] \<or> like (containing (lower wanted)) (lower value)"

definition target_matches :: "string \<Rightarrow> db \<Rightarrow> AuditEvent \<Rightarrow> bool" where
  "target_matches t d ev \<longleftrightarrow> t = [] \<or> like (containing (''target='' @ t)) (ae_detail ev) \<or>
     (case ae_operation_id ev of None \<Rightarrow> False
      | Some i \<Rightarrow> list_ex (\<lambda>a. ta_target a = t \<and> ta_operation_id a = i) (attempts d))"

definition outcome_matches :: "string \<Rightarrow> db \<Rightarrow> AuditEvent \<Rightarrow> bool" where
  "outcome_matches wanted d ev \<longleftrightarrow>
     (if wanted = ''uncorrelated'' then ae_operation_id ev = None
      else wanted = ''all'' \<or> (case ae_operation_id ev of None \<Rightarrow> False
        | Some i \<Rightarrow> list_ex (\<lambda>x. op_id x = i \<and> op_status x \<in> outcome_statuses wanted) (operations d)))"

definition in_period :: "AuditParams \<Rightarrow> time \<Rightarrow> bool" where
  "in_period p t \<longleftrightarrow>
     (case query_date (ap_date_from p) False of Inr (Some a) \<Rightarrow> a \<le> t | _ \<Rightarrow> True) \<and>
     (case query_date (ap_date_to p) True of Inr (Some b) \<Rightarrow> t < b | _ \<Rightarrow> True)"

definition audit_matches :: "AuditParams \<Rightarrow> db \<Rightarrow> AuditEvent \<Rightarrow> bool" where
  "audit_matches p d ev \<longleftrightarrow> in_period p (ae_at ev) \<and>
     text_matches (ap_actor p) (ae_actor ev) \<and> text_matches (ap_subject p) (ae_subject ev) \<and>
     text_matches (ap_action p) (ae_action ev) \<and>
     (ap_operation p = [] \<or> (case ae_operation_id ev of None \<Rightarrow> False
        | Some i \<Rightarrow> like (ap_operation p @ [CHR ''%'']) (show_nat i))) \<and>
     target_matches (ap_target p) d ev \<and> outcome_matches (ap_outcome p) d ev"

definition filtered_events :: "AuditParams \<Rightarrow> db \<Rightarrow> AuditEvent list" where
  "filtered_events p d = sort_desc ae_at (sort_desc ae_id (filter (audit_matches p d) (audit d)))"

record AuditItem =
  ai_event :: AuditEvent
  ai_operation :: "LifecycleOperation option"
  ai_summary :: string
  ai_outcome :: string

record AuditPage =
  aq_items :: "AuditItem list"
  aq_params :: AuditParams
  aq_total :: nat
  aq_pages :: nat

definition audit_item :: "db \<Rightarrow> AuditEvent \<Rightarrow> AuditItem" where
  "audit_item d ev = \<lparr>ai_event = ev, ai_operation = event_operation d ev, ai_summary = friendly_action (ae_action ev),
     ai_outcome = operation_outcome (event_operation d ev)\<rparr>"

definition query_audit :: "db \<Rightarrow> AuditParams \<Rightarrow> nat option \<Rightarrow> AuditPage" where
  "query_audit d p size_given =
    (let found = filtered_events p d; per = (case size_given of Some n \<Rightarrow> if n \<noteq> 0 then n else ap_per_page p | None \<Rightarrow> ap_per_page p);
         page = shown_page (ap_page p) per found in
     \<lparr>aq_items = map (audit_item d) (page_slice page per found), aq_params = p\<lparr>ap_page := page, ap_per_page := per\<rparr>,
      aq_total = length found, aq_pages = pages_of (length found) per\<rparr>)"

definition audit_fetch :: "AuditParams \<Rightarrow> nat \<Rightarrow> nat \<Rightarrow> db \<Rightarrow> nat \<times> AuditEvent list" where
  "audit_fetch p page per d =
    (let r = query_audit d (p\<lparr>ap_page := page, ap_per_page := per\<rparr>) None in (ap_page (aq_params r), map ai_event (aq_items r)))"

interpretation trail: paged_list "filtered_events p" "audit_fetch p"
  for p :: AuditParams
proof
  fix page per d
  let ?p = "p\<lparr>ap_page := page, ap_per_page := per\<rparr>"
  have "audit_matches ?p d = audit_matches p d" by (rule ext) (simp add: audit_matches_def in_period_def cong: option.case_cong)
  then have "filtered_events ?p d = filtered_events p d" by (simp add: filtered_events_def)
  then show "audit_fetch p page per d = (shown_page page per (filtered_events p d),
      page_slice (shown_page page per (filtered_events p d)) per (filtered_events p d))"
    by (simp add: audit_fetch_def query_audit_def Let_def comp_def audit_item_def)
qed

section \<open>The handlers\<close>

definition utc_stamp :: "time \<Rightarrow> string" where
  "utc_stamp t = (let n = t mod day div second in
     cat [date_text t, ''T'', padded 2 (n div 3600), '':'', padded 2 (n mod 3600 div 60), '':'', padded 2 (n mod 60), ''Z''])"

definition export_columns :: "string list" where
  "export_columns = [''at_utc'', ''actor'', ''action'', ''summary'', ''subject'', ''outcome'', ''operation_id'', ''detail'']"

definition export_row :: "AuditItem \<Rightarrow> string list" where
  "export_row item = (let ev = ai_event item in
     [utc_stamp (ae_at ev), ae_actor ev, ae_action ev, ai_summary item, ae_subject ev, ai_outcome item,
      (case ae_operation_id ev of None \<Rightarrow> [] | Some i \<Rightarrow> show_nat i), safe_detail (ae_detail ev)])"

definition audit_page :: "Env \<Rightarrow> Request \<Rightarrow> query \<Rightarrow> db \<Rightarrow> Response \<times> db" where
  "audit_page e req values d = guarded e req VIEW_AUDIT (\<lambda>pr d.
    (case parse_audit values of
       Inl err \<Rightarrow> ServerError err
     | Inr p \<Rightarrow> (let r = query_audit d p None in
         Shown ''audit.html'' (map ai_summary (aq_items r) @ [show_nat (aq_total r), show_nat (aq_pages r)])), d)) d"

definition export_body :: "Env \<Rightarrow> string \<Rightarrow> AuditPage \<Rightarrow> string" where
  "export_body e format r =
    (let rows = map export_row (aq_items r) in
     if format = ''json'' then dumps (JObject
       [(''generated_at_utc'', JText (isoformat e (now e))), (''page'', JInt (int (ap_page (aq_params r)))),
        (''per_page'', JInt (int (ap_per_page (aq_params r)))), (''total'', JInt (int (aq_total r))),
        (''pages'', JInt (int (aq_pages r))),
        (''events'', JArray (map (\<lambda>row. JObject (zip export_columns (map JText row))) rows))])
     else csv_text (export_columns # rows))"

definition audit_export :: "Env \<Rightarrow> Request \<Rightarrow> string \<Rightarrow> query \<Rightarrow> db \<Rightarrow> Response \<times> db" where
  "audit_export e req format values d = guarded e req VIEW_AUDIT (\<lambda>pr d.
    if format \<notin> {''csv'', ''json''} then (Plain ''Unsupported audit export format'' 404, d)
    else (case parse_audit values of
       Inl err \<Rightarrow> (ServerError err, d)
     | Inr p \<Rightarrow>
        (let r = query_audit d p (Some (aup_export_page_size (fc_audit_policy (file_config e))));
             page = show_nat (ap_page (aq_params r)) in
         (Shown (cat [''na-sso-audit-'', page, ''.'', format]) [export_body e format r],
          record_audit e (pr_username pr) ''audit.exported'' (if ap_actor p \<noteq> [] then ap_actor p else ''filtered audit'')
            (cat [''format='', format, ''; page='', page, ''; rows='', show_nat (length (aq_items r))]) None d)))) d"

definition audit_operation_detail :: "Env \<Rightarrow> Request \<Rightarrow> uuid \<Rightarrow> db \<Rightarrow> Response \<times> db" where
  "audit_operation_detail e req i d = guarded e req VIEW_AUDIT (\<lambda>pr d.
    (case get_operation i d of
       None \<Rightarrow> (Redirect ''/audit'', d)
     | Some x \<Rightarrow>
        (Shown ''operation_detail.html''
          (map (\<lambda>y. show_nat (op_id y)) (x # (case Option.bind (op_parent_id x) (\<lambda>k. get_operation k d) of None \<Rightarrow> [] | Some y \<Rightarrow> [y])
             @ sort_key op_created_at (sort_key op_id (filter (\<lambda>y. op_parent_id y = Some i) (operations d))))
           @ map ta_target (sort_key ta_started_at (sort_key ta_id (filter (\<lambda>a. ta_operation_id a = i) (attempts d))))
           @ map ae_action (sort_key ae_at (sort_key ae_id (filter (\<lambda>ev. ae_operation_id ev = Some i) (audit d))))), d))) d"

section \<open>Properties\<close>

lemma listed_event:
  assumes "item \<in> set (aq_items (query_audit d p sz))"
  shows "\<exists>ev. ev \<in> set (audit d) \<and> audit_matches p d ev \<and> item = audit_item d ev"
proof -
  have "set (page_slice n per xs) \<subseteq> set xs" for n per and xs :: "AuditEvent list"
    unfolding page_slice_def by (meson in_set_dropD in_set_takeD subsetI)
  then have "\<exists>ev \<in> set (filtered_events p d). item = audit_item d ev"
    using assms by (fastforce simp: query_audit_def Let_def)
  then show ?thesis by (auto simp: filtered_events_def)
qed

text \<open>An event is listed under its own outcome.  When the trail is filtered by an outcome, every listed item shows that outcome,
  although the filter compares in SQL what the item computes from the loaded operation.\<close>

theorem outcome_filter_agrees:
  assumes "distinct (map op_id (operations d))" "ap_outcome p \<in> {''succeeded'', ''failed'', ''in_progress'', ''uncorrelated''}"
    and "item \<in> set (aq_items (query_audit d p sz))"
  shows "ai_outcome item = ap_outcome p"
proof -
  obtain ev where ev: "audit_matches p d ev" "item = audit_item d ev" using listed_event [OF assms(3)] by blast
  have m: "outcome_matches (ap_outcome p) d ev" using ev(1) by (simp add: audit_matches_def)
  show ?thesis
  proof (cases "ae_operation_id ev")
    case None
    then have "ap_outcome p = ''uncorrelated''" using m assms(2) by (auto simp: outcome_matches_def split: if_splits)
    then show ?thesis using None ev(2) by (simp add: audit_item_def event_operation_def operation_outcome_def)
  next
    case (Some i)
    then have wanted: "ap_outcome p \<in> {''succeeded'', ''failed'', ''in_progress''}" using m assms(2) by (auto simp: outcome_matches_def split: if_splits)
    then obtain x where x: "x \<in> set (operations d)" "op_id x = i" "op_status x \<in> outcome_statuses (ap_outcome p)"
      using m Some by (auto simp: outcome_matches_def list_ex_iff split: if_splits)
    have "event_operation d ev = Some x"
      using Some x rows_get_mem_iff [OF assms(1)] by (simp add: event_operation_def get_operation_def)
    then show ?thesis using ev(2) x(3) wanted by (auto simp: audit_item_def operation_outcome_def outcome_statuses_def)
  qed
qed

section \<open>Redaction\<close>

lemma keyword_letter:
  assumes "after_keyword (c # cs) = Some t" shows "lower_char c \<in> set ''pabt''"
proof -
  have word: "lower_char c = hd w" if "after_word w (c # cs) = Some t" "w \<noteq> []" for w t
    using that by (cases w) (auto simp: after_word_def lower_def split: if_splits)
  have words: "lower_char c = hd a" if "after_words a b x (c # cs) = Some t" "a \<noteq> []" for a b x
    using that word by (auto simp: after_words_def bind_eq_Some_conv)
  have "after_word ''password'' (c # cs) = Some t \<or> after_word ''passphrase'' (c # cs) = Some t \<or> after_words ''api'' ''secret'' (set ''_ -'') (c # cs) = Some t \<or>
      after_words ''private'' ''key'' (set ''_ -'') (c # cs) = Some t \<or> after_word ''authorization'' (c # cs) = Some t \<or>
      after_word ''bearer'' (c # cs) = Some t \<or> after_word ''token'' (c # cs) = Some t"
    using first_some_in [OF assms [unfolded after_keyword_def]] by (simp only: set_simps insert_iff empty_iff) metis
  then show ?thesis by (elim disjE) (drule word words, simp, simp)+
qed

lemma digits_pass: "list_all (\<lambda>c. is_digit c \<or> c = CHR '' '') s \<Longrightarrow> redact_credentials s = s"
proof (induction s)
  case Nil
  then show ?case by (simp add: redact_credentials.simps)
next
  case (Cons c cs)
  have "lower_char c \<notin> set ''pabt''"
    using Cons.prems by (auto simp: is_digit_def in_range_def lower_char_def Let_def)
  then have "after_keyword (c # cs) = None" using keyword_letter by (metis not_Some_eq)
  then have "match_credential (c # cs) = None" by (simp add: match_credential_def)
  then show ?case using Cons by (subst redact_credentials.simps) simp
qed


lemma no_dash_no_key: "CHR ''-'' \<notin> set s \<Longrightarrow> redact_keys s = s"
proof (induction s)
  case (Cons c cs)
  have "key_marker ''-----BEGIN '' (c # cs) = None" using Cons.prems by (auto simp: key_marker_def starts_with_def)
  then show ?case using Cons by (subst redact_keys.simps) simp
qed (simp add: redact_keys.simps)

text \<open>The redaction leaves the token of an authorization header.  Of a header with the scheme \<open>Bearer\<close>, the word that names the
  scheme is redacted and the token after it stays, as the value of a credential ends at the first blank.\<close>

theorem bearer_token_survives:
  assumes "list_all is_digit token"
  shows "safe_detail (''Authorization: Bearer '' @ token) = ''Authorization=[redacted] '' @ token"
proof -
  have digits: "is_digit c \<Longrightarrow> c \<noteq> CHR ''-''" for c by (auto simp: is_digit_def in_range_def)
  have keys: "redact_keys (''Authorization: Bearer '' @ token) = ''Authorization: Bearer '' @ token"
    by (rule no_dash_no_key) (use assms digits in \<open>auto simp: list_all_iff\<close>)
  have "lower (take 8 (''Authorization: Bearer '' @ token)) = ''authoriz''" "lower (take 10 (''Authorization: Bearer '' @ token)) = ''authorizat''"
    "lower (take 3 (''Authorization: Bearer '' @ token)) = ''aut''" "lower (take 7 (''Authorization: Bearer '' @ token)) = ''authori''"
    "lower (take 13 (''Authorization: Bearer '' @ token)) = ''authorization''"
    by (simp, code_simp)+
  then have word: "after_keyword (''Authorization: Bearer '' @ token) = Some ('': Bearer '' @ token)"
    by (simp add: after_keyword_def after_word_def after_words_def)
  have blanks: "is_space (CHR '' '')" "\<not> is_space (CHR '':'')" "\<not> is_space (CHR ''B'')" "detail_char (CHR ''B'')" "detail_char (CHR ''e'')"
    "detail_char (CHR ''a'')" "detail_char (CHR ''r'')" "\<not> detail_char (CHR '' '')"
    by (simp_all add: is_space_def detail_char_def)
  have rest: "after_credential ('': Bearer '' @ token) = Some ('' '' @ token)"
    by (simp add: after_credential_def after_value_def blanks)
  have "match_credential (''Authorization: Bearer '' @ token) = Some (''Authorization'', '' '' @ token)"
    by (simp only: match_credential_def word rest Option.bind.simps) simp
  then have "redact_credentials (''Authorization: Bearer '' @ token) = ''Authorization'' @ ''='' @ REDACTED @ redact_credentials ('' '' @ token)"
    by (subst redact_credentials.simps) simp
  moreover have "redact_credentials ('' '' @ token) = '' '' @ token"
    by (rule digits_pass) (use assms in \<open>auto simp: list_all_iff\<close>)
  ultimately show ?thesis unfolding safe_detail_def keys by (simp add: REDACTED_def)
qed

theorem bearer_token_survives_witness:
  "safe_detail ''Authorization: Bearer 8675309'' = ''Authorization=[redacted] 8675309''"
proof -
  have "list_all is_digit ''8675309''" by code_simp
  then show ?thesis using bearer_token_survives [of "''8675309''"] by simp
qed

section \<open>Dates and exports\<close>

lemma guard_VIEW [simp]: "guarded e req p f d = (case permission_guard e req p d of Inl r \<Rightarrow> (r, d) | Inr pr \<Rightarrow> f pr d)"
  by (simp add: guarded_def)

text \<open>The last day of the calendar is not a day the trail can be read to.  A query up to 9999-12-31 makes the page and the exports end in an
  exception, whatever the trail holds.\<close>

theorem last_day_overflows:
  assumes "permission_guard e req VIEW_AUDIT d = Inr pr" "values ''date_to'' = Some ''9999-12-31''"
    and "format \<in> {''csv'', ''json''}"
  shows "audit_page e req values d = (ServerError ''OverflowError'', d) \<and> audit_export e req format values d = (ServerError ''OverflowError'', d)"
proof -
  have "query_date ''9999-12-31'' True = Inl ''OverflowError''" by code_simp
  moreover obtain a where "query_date (query_text values ''date_from'' []) False = Inr a"
    by (cases "calendar_day (query_text values ''date_from'' [])") (auto simp: query_date_def)
  ultimately have "parse_audit values = Inl ''OverflowError''"
    using assms(2) by (simp add: parse_audit_def Let_def query_text_def)
  then show ?thesis using assms(1,3) by (simp add: audit_page_def audit_export_def)
qed

theorem last_day_overflows_witness:
  "\<exists>d. audit_page sample_env (sample_request True) [''date_to'' \<mapsto> ''9999-12-31''] d = (ServerError ''OverflowError'', d)"
proof -
  let ?d = "sample_db\<lparr>users := [sample_user\<lparr>u_role := ''root''\<rparr>]\<rparr>"
  have "\<exists>pr. permission_guard sample_env (sample_request True) VIEW_AUDIT ?d = Inr pr"
    by (simp add: permission_guard_def current_user_def sample_request_def sample_defs get_user_def rows_get_def MAX_AGE_def
        principal_of_def has_permission_iff)
  then obtain pr where "permission_guard sample_env (sample_request True) VIEW_AUDIT ?d = Inr pr" by blast
  from last_day_overflows [OF this, of "[''date_to'' \<mapsto> ''9999-12-31'']" "''csv''"] show ?thesis by auto
qed

lemma insort_top: "(\<And>y. y \<in> set ys \<Longrightarrow> k y < k x) \<Longrightarrow> insort_key k x ys = ys @ [x]"
proof (induction ys)
  case (Cons a ys)
  then have "\<not> k x \<le> k a" by (simp add: not_le)
  then show ?case using Cons by simp
qed simp

lemma sort_desc_top:
  assumes "\<And>y. y \<in> set xs \<Longrightarrow> k y < k x" shows "sort_desc k (xs @ [x]) = x # sort_desc k xs"
  using insort_top [of "sort_key k (rev xs)" k x] assms by (simp add: sort_desc_def)

lemma sort_last: "(\<And>y. y \<in> set ys \<Longrightarrow> k y \<le> k x) \<Longrightarrow> sort_key k (ys @ [x]) = sort_key k ys @ [x]"
proof (induction ys)
  case (Cons y ys)
  have "k y \<le> k x" using Cons.prems by simp
  then have "insort_key k y (zs @ [x]) = insort_key k y zs @ [x]" for zs by (induction zs) auto
  then show ?case using Cons by simp
qed simp

lemma sort_desc_first:
  assumes "\<And>y. y \<in> set xs \<Longrightarrow> k y \<le> k x" shows "sort_desc k (x # xs) = x # sort_desc k xs"
  using sort_last [of "rev xs" k x] assms by (simp add: sort_desc_def)

text \<open>The pages of an export overlap.  An export is itself an event of the trail: after the first page of an unfiltered export, the second
  page starts with the event that ended the first one.\<close>

theorem export_pages_overlap:
  assumes "permission_guard e req VIEW_AUDIT d = Inr pr" "parse_audit values = Inr p" "format \<in> {''csv'', ''json''}"
    and "ap_page p = 1" "\<And>d ev. audit_matches p d ev" "aup_export_page_size (fc_audit_policy (file_config e)) = Suc k" "Suc k < length (audit d)"
    and "\<And>ev. ev \<in> set (audit d) \<Longrightarrow> ae_at ev \<le> now e"
  shows "\<exists>d'. snd (audit_export e req format values d) = d' \<and>
    aq_items (query_audit d' (p\<lparr>ap_page := 2\<rparr>) (Some (Suc k))) \<noteq> [] \<and>
    ai_event (hd (aq_items (query_audit d' (p\<lparr>ap_page := 2\<rparr>) (Some (Suc k))))) = ai_event (last (aq_items (query_audit d p (Some (Suc k)))))"
proof -
  obtain ac su de where d': "snd (audit_export e req format values d) = record_audit e (pr_username pr) ac su de None d" (is "_ = ?d")
    using assms(1-3) by (auto simp: audit_export_def Let_def)
  obtain new where new: "audit ?d = audit d @ [new]" "ae_at new = now e" "ae_id new = next_id ae_id (audit d)"
    by (simp add: record_audit_def)
  have all: "audit_matches (p\<lparr>ap_page := n\<rparr>) x ev" for n x ev
    using assms(5) [of x ev] by (simp add: audit_matches_def in_period_def cong: option.case_cong)
  have "filtered_events (p\<lparr>ap_page := 2\<rparr>) ?d = sort_desc ae_at (sort_desc ae_id (audit d @ [new]))"
    by (simp add: filtered_events_def all new(1))
  also have "sort_desc ae_id (audit d @ [new]) = new # sort_desc ae_id (audit d)"
    by (rule sort_desc_top) (use next_id_gt [of _ "audit d" ae_id] new(3) in auto)
  also have "sort_desc ae_at (new # sort_desc ae_id (audit d)) = new # sort_desc ae_at (sort_desc ae_id (audit d))"
    by (rule sort_desc_first) (use assms(8) new(2) in auto)
  finally have f2: "filtered_events (p\<lparr>ap_page := 2\<rparr>) ?d = new # filtered_events p d"
    using assms(5) by (simp add: filtered_events_def)
  let ?xs = "filtered_events p d"
  have len: "length ?xs = length (audit d)" using assms(5) by (simp add: filtered_events_def)
  have shown1: "shown_page 1 (Suc k) ?xs = 1" by (simp add: shown_page_def pages_of_def)
  have "2 \<le> (Suc (length ?xs) + Suc k - 1) div Suc k"
    using assms(7) len by (simp add: Suc_le_eq div_le_mono le_div_geq)
  then have shown2: "shown_page 2 (Suc k) (new # ?xs) = 2" by (simp add: shown_page_def pages_of_def)
  have page1: "map ai_event (aq_items (query_audit d p (Some (Suc k)))) = take (Suc k) ?xs"
    using shown1 assms(4) by (simp add: query_audit_def Let_def page_slice_def comp_def audit_item_def)
  have page2: "map ai_event (aq_items (query_audit ?d (p\<lparr>ap_page := 2\<rparr>) (Some (Suc k)))) = take (Suc k) (drop k ?xs)"
    using shown2 by (simp add: query_audit_def Let_def f2 page_slice_def comp_def audit_item_def)
  have "take (Suc k) ?xs \<noteq> []" "take (Suc k) (drop k ?xs) \<noteq> []" using assms(7) len by auto
  moreover have "hd (take (Suc k) (drop k ?xs)) = last (take (Suc k) ?xs)"
    using assms(7) len by (simp add: hd_drop_conv_nth take_Suc_conv_app_nth)
  ultimately show ?thesis using page1 page2 d' by (metis hd_map last_map list.map_disc_iff)
qed

definition trail_env :: Env where
  "trail_env = sample_env\<lparr>settings := settings sample_env\<lparr>s_file := sample_file\<lparr>fc_audit_policy := fc_audit_policy sample_file\<lparr>aup_export_page_size := Suc 0\<rparr>\<rparr>\<rparr>\<rparr>"

definition trail_event :: "nat \<Rightarrow> AuditEvent" where
  "trail_event n = \<lparr>ae_id = n, ae_at = int n, ae_actor = ''ada'', ae_action = ''user.update'', ae_subject = ''bob'', ae_detail = [],
     ae_operation_id = None\<rparr>"

definition trail_db :: db where
  "trail_db = sample_db\<lparr>users := [sample_user\<lparr>u_role := ''root''\<rparr>], audit := [trail_event 1, trail_event 2]\<rparr>"

lemma trail_query:
  "\<exists>p. parse_audit (\<lambda>_. None) = Inr p \<and> ap_page p = 1 \<and> (\<forall>d ev. audit_matches p d ev)"
proof -
  have none: "query_date [] b = Inr None" for b by (simp add: query_date_def calendar_day_def)
  have blank: "strip [] = []" by (simp add: strip_def)
  show ?thesis
    by (simp add: parse_audit_def Let_def none query_text_def clipped_def blank positive_int_def audit_matches_def in_period_def
        text_matches_def target_matches_def outcome_matches_def OUTCOMES_def)
qed

theorem export_pages_overlap_witness:
  "\<exists>p d'. parse_audit (\<lambda>_. None) = Inr p \<and> snd (audit_export trail_env (sample_request True) ''csv'' (\<lambda>_. None) trail_db) = d' \<and>
    ai_event (hd (aq_items (query_audit d' (p\<lparr>ap_page := 2\<rparr>) (Some (Suc 0))))) =
      ai_event (last (aq_items (query_audit trail_db p (Some (Suc 0)))))"
proof -
  obtain p where p: "parse_audit (\<lambda>_. None) = Inr p" "ap_page p = 1" "\<And>d ev. audit_matches p d ev" using trail_query by blast
  have "\<exists>pr. permission_guard trail_env (sample_request True) VIEW_AUDIT trail_db = Inr pr"
    by (simp add: permission_guard_def current_user_def sample_request_def trail_env_def trail_db_def sample_defs get_user_def
        rows_get_def MAX_AGE_def principal_of_def has_permission_iff)
  then obtain pr where pr: "permission_guard trail_env (sample_request True) VIEW_AUDIT trail_db = Inr pr" by blast
  have "aup_export_page_size (fc_audit_policy (file_config trail_env)) = Suc 0" "Suc 0 < length (audit trail_db)"
    by (simp_all add: trail_env_def file_config_def trail_db_def)
  moreover have "ae_at ev \<le> now trail_env" if "ev \<in> set (audit trail_db)" for ev
    using that by (auto simp: trail_db_def trail_env_def sample_env_def trail_event_def day_def second_def)
  ultimately show ?thesis using export_pages_overlap [OF pr p(1) _ p(2,3), of "''csv''" 0] p(1) by blast
qed

definition uncorrelated_query :: AuditParams where
  "uncorrelated_query = \<lparr>ap_date_from = [], ap_date_to = [], ap_actor = [], ap_subject = [], ap_target = [], ap_action = [],
     ap_operation = [], ap_outcome = ''uncorrelated'', ap_page = 1, ap_per_page = 50\<rparr>"

theorem outcome_filter_agrees_witness:
  "\<exists>item. item \<in> set (aq_items (query_audit trail_db uncorrelated_query None)) \<and> ai_outcome item = ''uncorrelated''"
proof -
  have none: "query_date [] b = Inr None" for b by (simp add: query_date_def calendar_day_def)
  have "filter (audit_matches uncorrelated_query trail_db) (audit trail_db) = [trail_event 1, trail_event 2]"
    by (simp add: uncorrelated_query_def audit_matches_def in_period_def none text_matches_def target_matches_def outcome_matches_def
        trail_db_def trail_event_def)
  then have "length (filtered_events uncorrelated_query trail_db) = 2" by (simp add: filtered_events_def)
  then have "aq_items (query_audit trail_db uncorrelated_query None) \<noteq> []"
    by (auto simp: query_audit_def Let_def uncorrelated_query_def shown_page_def pages_of_def page_slice_def)
  then obtain item where item: "item \<in> set (aq_items (query_audit trail_db uncorrelated_query None))" by (meson hd_in_set)
  have "distinct (map op_id (operations trail_db))" "ap_outcome uncorrelated_query \<in> {''succeeded'', ''failed'', ''in_progress'', ''uncorrelated''}"
    by (simp_all add: trail_db_def sample_db_def empty_db_def uncorrelated_query_def)
  from outcome_filter_agrees [OF this item] item show ?thesis by (auto simp: uncorrelated_query_def)
qed

end
