(* ===== verification/Api.thy ===== *)
theory Api
  imports Bulk Inventory AuditQuery Reconcile TargetCredentials ServiceAccounts
begin

text \<open>
  The automation interface, \<open>src/na_sso/api.py\<close>: the payloads, the lists with their pages, and the three
  requests that change something.  A request passes the guard first, which counts it against the rate limit; a request that
  changes something is recorded under its idempotency key before it runs and answered from that record afterwards.  The
  columns \<open>updated_at\<close> and the static metadata of the connector classes are not in the payloads of the model.
\<close>

section \<open>Payloads\<close>

definition text_json :: "string \<Rightarrow> json" where "text_json s = JText s"
definition nat_json :: "nat \<Rightarrow> json" where "nat_json n = JInt (int n)"
definition null_or :: "('a \<Rightarrow> json) \<Rightarrow> 'a option \<Rightarrow> json" where
  "null_or f v = (case v of None \<Rightarrow> JNull | Some x \<Rightarrow> f x)"

definition uuid_json :: "uuid \<Rightarrow> json" where "uuid_json i = JText (show_nat i)"
definition iso :: "Env \<Rightarrow> time option \<Rightarrow> json" where "iso e t = null_or (\<lambda>t. JText (isoformat e t)) t"

definition status_text :: "UserStatus \<Rightarrow> string" where
  "status_text s = (case s of US_ACTIVE \<Rightarrow> ''active'' | US_DISABLED \<Rightarrow> ''disabled'')"
definition decision_kind_text :: "PasswordDecisionKind \<Rightarrow> string option" where
  "decision_kind_text k = (case k of PD_NONE \<Rightarrow> None | PD_INITIAL \<Rightarrow> Some ''initial'' | PD_RESET \<Rightarrow> Some ''reset''
     | PD_EXPIRED \<Rightarrow> Some ''expired'')"

definition summary_payload :: "InventorySummary \<Rightarrow> json" where
  "summary_payload s = JObject [(''lifecycle'', JText (is_lifecycle s)), (''healthy_targets'', nat_json (is_healthy_targets s)),
     (''assigned_targets'', nat_json (is_assigned_targets s)), (''issue_count'', nat_json (is_issue_count s))]"

definition state_payload :: "Env \<Rightarrow> SyncState \<Rightarrow> json" where
  "state_payload e s = JObject [(''target_id'', JText (ss_target s)), (''target_type'', null_or JText (ss_target_type s)),
     (''assigned'', JBool (ss_assigned s)), (''retired'', JBool (ss_retired s)), (''state'', JText (sync_state_value (ss_state s))),
     (''attempt_count'', nat_json (ss_attempt_count s)), (''next_retry_at'', iso e (ss_next_retry_at s)),
     (''operation_id'', null_or uuid_json (ss_operation_id s))]"

definition user_payload :: "Env \<Rightarrow> ManagedUser \<Rightarrow> InventorySummary option \<Rightarrow> bool \<Rightarrow> db \<Rightarrow> json" where
  "user_payload e u summary detail d = JObject
    ([(''id'', nat_json (u_id u)), (''username'', JText (u_username u)), (''display_name'', JText (u_display_name u)),
      (''email'', JText (u_email u)), (''role'', JText (u_role u)), (''status'', JText (status_text (u_status u))),
      (''desired_action'', JText (desired_action_value (u_desired_action u))),
      (''password_decision'', null_or JText (decision_kind_text (u_password_decision_kind u))),
      (''password_expires_at'', iso e (password_expires_at (fc_password_policy (file_config e)) u)),
      (''created_at'', JText (isoformat e (u_created_at u)))]
     @ (case summary of None \<Rightarrow> [] | Some s \<Rightarrow> [(''summary'', summary_payload s)])
     @ (if detail then [(''targets'', JArray (map (state_payload e) (sort_key ss_target (user_states (u_id u) d))))] else []))"

definition attempt_payload :: "Env \<Rightarrow> OperationTargetAttempt \<Rightarrow> json" where
  "attempt_payload e a = JObject [(''id'', nat_json (ta_id a)), (''target_id'', JText (ta_target a)),
     (''target_type'', null_or JText (ta_target_type a)), (''attempt_number'', nat_json (ta_attempt_number a)),
     (''status'', JText (operation_status_value (ta_status a))), (''result_state'', JText (sync_state_value (ta_result_state a))),
     (''detail'', JText (safe_detail (ta_detail a))), (''started_at'', JText (isoformat e (ta_started_at a))),
     (''completed_at'', iso e (ta_completed_at a))]"

definition api_operation_payload :: "Env \<Rightarrow> LifecycleOperation \<Rightarrow> bool \<Rightarrow> db \<Rightarrow> (string \<times> json) list" where
  "api_operation_payload e x detail d =
    [(''id'', uuid_json (op_id x)), (''parent_id'', null_or uuid_json (op_parent_id x)), (''user_id'', null_or nat_json (op_user_id x)),
     (''command'', JText (lifecycle_command_value (op_command x))), (''status'', JText (operation_status_value (op_status x))),
     (''actor'', JText (op_actor x)), (''subject'', JText (op_subject x)), (''requested_target'', null_or JText (op_requested_target x)),
     (''total_targets'', nat_json (op_total_targets x)), (''completed_targets'', nat_json (op_completed_targets x)),
     (''failed_targets'', nat_json (op_failed_targets x)), (''created_at'', JText (isoformat e (op_created_at x))),
     (''started_at'', iso e (op_started_at x)), (''completed_at'', iso e (op_completed_at x))]
    @ (if detail then [(''detail'', JText (safe_detail (op_detail x))),
         (''attempts'', JArray (map (attempt_payload e) (sort_key ta_started_at (sort_key ta_id
            (filter (\<lambda>a. ta_operation_id a = op_id x) (attempts d))))))] else [])"

definition finding_payload :: "ReconciliationFinding \<Rightarrow> json" where
  "finding_payload f = JObject [(''id'', nat_json (rf_id f)), (''user_id'', nat_json (rf_user_id f)), (''username'', JText (rf_username f)),
     (''target_id'', JText (rf_target_id f)), (''target_name'', JText (rf_target_name f)), (''field'', JText (rf_field f)),
     (''state'', JText (rf_state f)), (''desired'', null_or JText (rf_desired f)), (''actual'', null_or JText (rf_actual f)),
     (''detail'', JText (safe_detail (rf_detail f))), (''repair_status'', JText (rf_repair_status f)),
     (''operation_id'', null_or uuid_json (rf_operation_id f))]"

definition run_payload :: "Env \<Rightarrow> ReconciliationRun \<Rightarrow> bool \<Rightarrow> db \<Rightarrow> json" where
  "run_payload e r detail d = JObject
    ([(''id'', uuid_json (rr_id r)), (''source'', JText (rr_source r)), (''status'', JText (rr_status r)), (''actor'', JText (rr_actor r)),
      (''scope'', JObject [(''user_id'', null_or nat_json (rr_scope_user_id r)), (''target_id'', null_or JText (rr_scope_target_id r))]),
      (''total_targets'', nat_json (rr_total_targets r)), (''drifted_targets'', nat_json (rr_drifted_targets r)),
      (''unknown_targets'', nat_json (rr_unknown_targets r)), (''destructive_targets'', nat_json (rr_destructive_targets r)),
      (''attempt_count'', nat_json (rr_attempt_count r)), (''next_attempt_at'', iso e (rr_next_attempt_at r)),
      (''operation_id'', null_or uuid_json (rr_operation_id r)), (''detail'', JText (safe_detail (rr_detail r))),
      (''created_at'', JText (isoformat e (rr_created_at r))), (''completed_at'', iso e (rr_completed_at r))]
     @ (if rr_status r = ''previewed'' then [(''approval_token'', uuid_json (rr_approval_token r))] else [])
     @ (if detail then [(''findings'', JArray (map finding_payload (sort_key rf_username (sort_key rf_target_name (sort_key rf_id
          (findings_of (rr_id r) d))))))] else []))"

section \<open>Lists\<close>

text \<open>A number of the query string; a value that is no number gives the default, which the maximum does not bound.\<close>

definition positive :: "string option \<Rightarrow> nat \<Rightarrow> nat \<Rightarrow> nat" where
  "positive value def_value maximum =
    (let given = (case value of None \<Rightarrow> None | Some s \<Rightarrow> if s = [] then None else Some s) in
     case given of None \<Rightarrow> min (max 1 def_value) maximum
     | Some s \<Rightarrow> (case python_int s of None \<Rightarrow> def_value | Some i \<Rightarrow> min (nat (max 1 i)) maximum))"

definition max_page_size :: "Env \<Rightarrow> nat" where
  "max_page_size e = aa_max_page_size (fc_automation_api_policy (file_config e))"

definition api_index :: "Env \<Rightarrow> ApiRequest \<Rightarrow> windows \<Rightarrow> db \<Rightarrow> api_answer" where
  "api_index e x w d = api_guarded e x None (\<lambda>p h d.
    (let may = principal_has_permission p; at = (\<lambda>perm url. if may perm then JText url else JNull) in
     api_response x h (JObject
      [(''product'', JText ''NA-SSO''), (''product_version'', JText ''0.1.0''), (''api_version'', JText ''v1''),
       (''principal'', JObject [(''username'', JText (api_username p)),
          (''type'', JText (case p of ServiceAccountPrincipal _ \<Rightarrow> ''service_account'' | AccountPrincipal _ \<Rightarrow> ''user'')),
          (''role'', JText (case p of ServiceAccountPrincipal _ \<Rightarrow> ''service_account'' | AccountPrincipal a \<Rightarrow> pr_role a))]),
       (''capabilities'', JObject [(''users'', JBool (may MANAGE_USERS)), (''targets'', JBool (may MANAGE_TARGETS)),
          (''audit'', JBool (may VIEW_AUDIT)), (''roles'', JBool (may MANAGE_SECURITY))]),
       (''resources'', JObject [(''users'', at MANAGE_USERS ''/api/v1/users''), (''bulk'', at MANAGE_USERS ''/api/v1/bulk/preview''),
          (''reconciliation'', at MANAGE_USERS ''/api/v1/reconciliation''), (''targets'', at MANAGE_TARGETS ''/api/v1/targets''),
          (''operations'', at VIEW_AUDIT ''/api/v1/operations''), (''audit'', at VIEW_AUDIT ''/api/v1/audit'')])]) 200 None [], d)) w d"

definition users_list :: "Env \<Rightarrow> ApiRequest \<Rightarrow> query \<Rightarrow> windows \<Rightarrow> db \<Rightarrow> api_answer" where
  "users_list e x values w d = api_guarded e x (Some MANAGE_USERS) (\<lambda>p h d.
    (let asked = parse_inventory values; maximum = min 100 (max_page_size e);
         params = (if ip_per_page asked > maximum then asked\<lparr>ip_per_page := maximum\<rparr> else asked);
         r = query_inventory d params in
     api_response x h (JArray (map (\<lambda>(u, s). user_payload e u (Some s) False d) (iv_items r))) 200
       (Some (page_meta (ip_page (iv_params r)) (ip_per_page (iv_params r)) (iv_total r) (iv_pages r))) [], d)) w d"

definition user_detail :: "Env \<Rightarrow> ApiRequest \<Rightarrow> id \<Rightarrow> windows \<Rightarrow> db \<Rightarrow> api_answer" where
  "user_detail e x uid w d = api_guarded e x (Some MANAGE_USERS) (\<lambda>p h d.
    (case get_user uid d of
       None \<Rightarrow> api_error x h 404 ''not_found'' ''The managed user was not found.'' None []
     | Some u \<Rightarrow> api_response x h (user_payload e u None True d) 200 None [], d)) w d"

definition target_payload :: "Env \<Rightarrow> db \<Rightarrow> Target \<Rightarrow> json" where
  "target_payload e d t =
    (let r = readiness_of (tg_id t) (get_credential (tg_id t) d) in JObject
      [(''id'', JText (tg_id t)), (''type'', JText (target_type_value (tg_type t))), (''display_name'', JText (tg_display_name t)),
       (''enabled'', JBool (tg_enabled t)), (''configured'', JBool (tr_configured r)), (''verified'', JBool (tr_verified r)),
       (''reachable'', null_or JBool (tr_reachable r)),
       (''failure_kind'', if tr_failure_kind r = [] then JNull else JText (tr_failure_kind r)),
       (''probe_detail'', JText (sanitise_probe_detail (tr_detail r))), (''revision'', null_or nat_json (tr_revision r)),
       (''last_checked_at'', iso e (tr_last_checked_at r)), (''last_success_at'', iso e (tr_last_success_at r)),
       (''next_probe_at'', iso e (tr_next_probe_at r))])"

definition targets_list :: "Env \<Rightarrow> ApiRequest \<Rightarrow> windows \<Rightarrow> db \<Rightarrow> api_answer" where
  "targets_list e x w d = api_guarded e x (Some MANAGE_TARGETS) (\<lambda>p h d.
    (let ts = target_definitions e in
     api_response x h (JArray (map (target_payload e d) ts)) 200 (Some (JObject [(''total'', nat_json (length ts))])) [], d)) w d"

definition operation_rows :: "string \<Rightarrow> string \<Rightarrow> string \<Rightarrow> db \<Rightarrow> LifecycleOperation list" where
  "operation_rows status_wanted command_wanted subject_wanted d =
    sort_desc op_created_at (sort_desc op_id (filter (\<lambda>x.
      (status_wanted = [] \<or> operation_status_value (op_status x) = status_wanted) \<and>
      (command_wanted = [] \<or> lifecycle_command_value (op_command x) = command_wanted) \<and>
      (subject_wanted = [] \<or> like (containing (lower subject_wanted)) (lower (op_subject x)))) (operations d)))"

definition operations_list :: "Env \<Rightarrow> ApiRequest \<Rightarrow> query \<Rightarrow> windows \<Rightarrow> db \<Rightarrow> api_answer" where
  "operations_list e x values w d = api_guarded e x (Some VIEW_AUDIT) (\<lambda>p h d.
    (let per = positive (values ''per_page'') 50 (max_page_size e);
         found = operation_rows (take 32 (query_text values ''status'' [])) (take 32 (query_text values ''command'' []))
           (take 128 (query_text values ''subject'' [])) d;
         page = shown_page (positive (values ''page'') 1 1000000) per found in
     api_response x h (JArray (map (\<lambda>x. JObject (api_operation_payload e x False d)) (page_slice page per found))) 200
       (Some (page_meta page per (length found) (pages_of (length found) per))) [], d)) w d"

definition api_operation_detail :: "Env \<Rightarrow> ApiRequest \<Rightarrow> uuid \<Rightarrow> windows \<Rightarrow> db \<Rightarrow> api_answer" where
  "api_operation_detail e x i w d = api_guarded e x (Some VIEW_AUDIT) (\<lambda>p h d.
    (case get_operation i d of
       None \<Rightarrow> api_error x h 404 ''not_found'' ''The operation was not found.'' None []
     | Some y \<Rightarrow> api_response x h (JObject (api_operation_payload e y True d @
         [(''children'', JArray (map (\<lambda>z. uuid_json (op_id z)) (sort_key op_created_at (sort_key op_id
            (filter (\<lambda>z. op_parent_id z = Some i) (operations d))))))])) 200 None [], d)) w d"

definition run_rows_listed :: "db \<Rightarrow> ReconciliationRun list" where
  "run_rows_listed d = sort_desc rr_created_at (runs d)"

definition reconciliation_list :: "Env \<Rightarrow> ApiRequest \<Rightarrow> query \<Rightarrow> windows \<Rightarrow> db \<Rightarrow> api_answer" where
  "reconciliation_list e x values w d = api_guarded e x (Some MANAGE_USERS) (\<lambda>p h d.
    (let per = positive (values ''per_page'') 25 (max_page_size e); found = run_rows_listed d;
         page = shown_page (positive (values ''page'') 1 1000000) per found in
     api_response x h (JArray (map (\<lambda>r. run_payload e r False d) (page_slice page per found))) 200
       (Some (page_meta page per (length found) (pages_of (length found) per))) [], d)) w d"

definition api_reconciliation_detail :: "Env \<Rightarrow> ApiRequest \<Rightarrow> uuid \<Rightarrow> windows \<Rightarrow> db \<Rightarrow> api_answer" where
  "api_reconciliation_detail e x i w d = api_guarded e x (Some MANAGE_USERS) (\<lambda>p h d.
    (case get_run i d of
       None \<Rightarrow> api_error x h 404 ''not_found'' ''The reconciliation run was not found.'' None []
     | Some r \<Rightarrow> api_response x h (run_payload e r True d) 200 None [], d)) w d"

definition audit_payload :: "Env \<Rightarrow> AuditItem \<Rightarrow> json" where
  "audit_payload e item = (let ev = ai_event item in JObject
     [(''id'', nat_json (ae_id ev)), (''at'', JText (isoformat e (ae_at ev))), (''actor'', JText (ae_actor ev)),
      (''action'', JText (ae_action ev)), (''summary'', JText (ai_summary item)), (''subject'', JText (ae_subject ev)),
      (''outcome'', JText (ai_outcome item)), (''operation_id'', null_or uuid_json (ae_operation_id ev)),
      (''detail'', JText (safe_detail (ae_detail ev)))])"

text \<open>\<open>Inl\<close> is an exception that no handler catches.\<close>

definition audit_list :: "Env \<Rightarrow> ApiRequest \<Rightarrow> query \<Rightarrow> windows \<Rightarrow> db \<Rightarrow> (string + ApiResponse) \<times> windows \<times> db" where
  "audit_list e x values w d =
    (case api_guard e x (Some VIEW_AUDIT) w d of
       (Inl resp, _, w1, d1) \<Rightarrow> (Inr resp, w1, d1)
     | (Inr p, h, w1, d1) \<Rightarrow>
        (case parse_audit values of
           Inl err \<Rightarrow> (Inl err, w1, d1)
         | Inr asked \<Rightarrow>
            (let params = (if ap_per_page asked > max_page_size e then asked\<lparr>ap_per_page := max_page_size e\<rparr> else asked);
                 r = query_audit d1 params None in
             (Inr (api_response x h (JArray (map (audit_payload e) (aq_items r))) 200
               (Some (page_meta (ap_page (aq_params r)) (ap_per_page (aq_params r)) (aq_total r) (aq_pages r))) []), w1, d1))))"

section \<open>Requests that change something\<close>

text \<open>The request is recorded, then the body runs, then its answer is recorded with it.\<close>

definition idempotently ::
  "Env \<Rightarrow> ApiRequest \<Rightarrow> ApiPrincipal \<Rightarrow> headers \<Rightarrow> string \<Rightarrow> (string \<times> json) list
     \<Rightarrow> (db \<Rightarrow> ApiResponse \<times> uuid option \<times> db) \<Rightarrow> db \<Rightarrow> ApiResponse \<times> db" where
  "idempotently e x p h key payload body d =
    (case begin_idempotent_request e x h (api_username p) key payload d of
       Inl resp \<Rightarrow> (resp, d)
     | Inr (r, d1) \<Rightarrow> (case body d1 of (resp, oid, d2) \<Rightarrow> finish_idempotent_request (ai_id r) resp oid d2))"

definition probe_operation :: "Env \<Rightarrow> string \<Rightarrow> string \<Rightarrow> SyncResult \<Rightarrow> uuid \<Rightarrow> LifecycleOperation" where
  "probe_operation e actor t r i =
    (new_operation e i None TARGET_PROBE actor (cat [''target:'', t]) (Some t) None)
      \<lparr>op_status := (if sr_ok r then SUCCEEDED else OP_FAILED), op_total_targets := 1,
       op_completed_targets := (if sr_ok r then 1 else 0), op_failed_targets := (if sr_ok r then 0 else 1),
       op_detail := sanitise_probe_detail (sr_detail r), op_started_at := Some (now e), op_completed_at := Some (now e)\<rparr>"

text \<open>The outcome of the probe is saved with the credentials and as an operation of its own.\<close>

definition probe_body :: "Env \<Rightarrow> ApiRequest \<Rightarrow> string \<Rightarrow> headers \<Rightarrow> string \<Rightarrow> db \<Rightarrow> ApiResponse \<times> uuid option \<times> db" where
  "probe_body e x actor h t d =
    (case map_of (readiness_map e d) t of
       None \<Rightarrow> (api_error x h 404 ''not_found'' ''The target was not found.'' None [], None, d)
     | Some ready \<Rightarrow>
        if \<not> tr_configured ready then
          (api_error x h 409 ''credentials_required''
             ''Save complete management credentials before testing this target.'' None [], None, d)
        else
          (case probe_target e t d of (r, d1) \<Rightarrow>
            let d2 = outcome_db (record_probe e t (sr_ok r) (sr_detail r) d1); safe = sanitise_probe_detail (sr_detail r);
                i = uuid4 d2; d3 = add_operation (probe_operation e actor t r i) d2;
                d4 = record_audit e actor ''target.probe'' t
                  (cat [if sr_ok r then ''verified'' else ''failed'', em_dash, safe]) (Some i) d3 in
            (api_response x h (JObject [(''target_id'', JText t), (''reachable'', JBool (sr_ok r)), (''detail'', JText safe),
               (''operation_id'', uuid_json i)]) (if sr_ok r then 200 else 502) None [], Some i, d4)))"

definition target_probe :: "Env \<Rightarrow> ApiRequest \<Rightarrow> string \<Rightarrow> string \<Rightarrow> windows \<Rightarrow> db \<Rightarrow> api_answer" where
  "target_probe e x t key w d = api_guarded e x (Some MANAGE_TARGETS) (\<lambda>p h d.
    idempotently e x p h key [(''target_id'', JText t)] (probe_body e x (api_username p) h t) d) w d"

definition preview_body ::
  "Env \<Rightarrow> (inspected list \<Rightarrow> inspected list) \<Rightarrow> ApiRequest \<Rightarrow> string \<Rightarrow> headers \<Rightarrow> id option \<Rightarrow> string option \<Rightarrow> db
     \<Rightarrow> ApiResponse \<times> uuid option \<times> db" where
  "preview_body e order x actor h user_id target_given d =
    (let target_id = (case target_given of None \<Rightarrow> None | Some t \<Rightarrow> if t = [] then None else Some (strip t));
         unavailable_target = (case target_id of None \<Rightarrow> False | Some t \<Rightarrow> t \<noteq> [] \<and> t \<notin> c_target_id ` set (get_connectors e d));
         unavailable_user = (case user_id of None \<Rightarrow> False
           | Some i \<Rightarrow> i \<noteq> 0 \<and> (case get_user i d of None \<Rightarrow> True | Some u \<Rightarrow> u_role u = ''root'')) in
     if unavailable_target then (api_error x h 422 ''unknown_target'' ''The requested target is unavailable.'' None [], None, d)
     else if unavailable_user then (api_error x h 422 ''unknown_user'' ''The requested user is unavailable.'' None [], None, d)
     else (case create_reconciliation_preview e order actor ''manual'' user_id target_id d of
         (Some r, d1) \<Rightarrow> (api_response x h (run_payload e r True d1) 201 None [], None, d1)
       | (None, d1) \<Rightarrow> (api_error x h 500 ''AttributeError'' [] None [], None, d1)))"

definition api_reconciliation_preview ::
  "Env \<Rightarrow> (inspected list \<Rightarrow> inspected list) \<Rightarrow> ApiRequest \<Rightarrow> string \<Rightarrow> id option \<Rightarrow> string option \<Rightarrow> windows \<Rightarrow> db \<Rightarrow> api_answer" where
  "api_reconciliation_preview e order x key user_id target_id w d = api_guarded e x (Some MANAGE_USERS) (\<lambda>p h d.
    idempotently e x p h key
      [(''idempotency_key'', JText key), (''user_id'', null_or nat_json user_id), (''target_id'', null_or JText target_id)]
      (preview_body e order x (api_username p) h user_id target_id) d) w d"

definition approval_status :: "string \<Rightarrow> nat" where
  "approval_status code = (if code = ''not_found'' then 404
     else if code \<in> {''approval_already_handled'', ''nothing_to_repair''} then 409 else 422)"

definition approve_body ::
  "Env \<Rightarrow> ApiRequest \<Rightarrow> string \<Rightarrow> headers \<Rightarrow> uuid \<Rightarrow> uuid option \<Rightarrow> bool \<Rightarrow> db \<Rightarrow> ApiResponse \<times> uuid option \<times> db" where
  "approve_body e x actor h i token confirm d =
    (case approve_reconciliation e i actor token confirm d of
       Inl (code, message) \<Rightarrow> (api_error x h (approval_status code) code message None [], None, d)
     | Inr (oid, d1) \<Rightarrow>
        (api_response x h (JObject [(''run'', case get_run i d1 of None \<Rightarrow> JNull | Some r \<Rightarrow> run_payload e r False d1),
           (''operation_id'', uuid_json oid)]) 202 None [], Some oid, d1))"

text \<open>The repair that the approval starts is the run and its actor; it is started by the first answer only.\<close>

definition api_reconciliation_approve ::
  "Env \<Rightarrow> ApiRequest \<Rightarrow> string \<Rightarrow> uuid \<Rightarrow> uuid option \<Rightarrow> bool \<Rightarrow> windows \<Rightarrow> db
     \<Rightarrow> ApiResponse \<times> (uuid \<times> string) option \<times> windows \<times> db" where
  "api_reconciliation_approve e x key i token confirm w d =
    (case api_guard e x (Some MANAGE_USERS) w d of
       (Inl resp, _, w1, d1) \<Rightarrow> (resp, None, w1, d1)
     | (Inr p, h, w1, d1) \<Rightarrow>
        (case begin_idempotent_request e x h (api_username p) key
             [(''run_id'', uuid_json i), (''idempotency_key'', JText key), (''approval_token'', null_or uuid_json token),
              (''confirm_destructive'', JBool confirm)] d1 of
           Inl resp \<Rightarrow> (resp, None, w1, d1)
         | Inr (r, d2) \<Rightarrow>
            (case approve_body e x (api_username p) h i token confirm d2 of (resp, oid, d3) \<Rightarrow>
              (case finish_idempotent_request (ai_id r) resp oid d3 of (out, d4) \<Rightarrow>
                (out, map_option (\<lambda>_. (i, api_username p)) oid, w1, d4)))))"

section \<open>Properties\<close>

lemma guard_keeps_records:
  assumes "api_guard e x perm w d = (r, h, w', d')" shows "idempotency d' = idempotency d"
proof -
  have "idempotency (snd (api_account e (ax_request x) d)) = idempotency d"
    by (auto simp: api_account_def authenticate_service_account_def touched_def record_audit_def upd_service_account_def upd_service_credential_def Let_def
        split: prod.splits option.splits if_splits)
  then show ?thesis
    using assms by (auto simp: api_guard_def split: if_splits prod.splits option.splits)
qed

lemma approve_body_parts:
  assumes "approve_body e x actor h i token confirm d = (resp, Some oid, d')"
  shows "idempotency d' = idempotency d \<and> as_status resp = 202"
proof -
  obtain run where "d' = approved e i actor run d"
    using assms by (auto simp: approve_body_def approve_reconciliation_def split: option.splits if_splits)
  moreover have "as_status resp = 202"
    using assms by (auto simp: approve_body_def api_response_def split: sum.splits prod.splits)
  ultimately show ?thesis
    by (simp add: approved_def Let_def record_audit_def upd_run_def add_operation_def next_tick_def)
qed

text \<open>A retried approval is answered, not repeated.  When the approval of a repair was accepted, and the same request comes again
  while its record is kept, whatever happened in between, it is given the first answer, no second repair is started,
  and the database stays as the guard left it.\<close>

theorem retried_approval_is_answered:
  assumes "api_reconciliation_approve e x key i token confirm w d = (resp, Some (j, actor), w1, d1)"
    and "api_guard e' x' (Some MANAGE_USERS) w2 d2 = (Inr p, h, w3, d3)" "api_username p = actor"
    and "idempotency d2 = idempotency d1" "rq_method (ax_request x') = rq_method (ax_request x)" "rq_path (ax_request x') = rq_path (ax_request x)"
    and "now e' < now e + int (aa_idempotency_retention_hours (fc_automation_api_policy (file_config e))) * 3600 * second"
    and "sha256_hex e' = sha256_hex e"
  shows "api_reconciliation_approve e' x' key i token confirm w2 d2 =
    (\<lparr>as_status = 202, as_body = as_body resp, as_headers = merged h [(''Idempotent-Replay'', ''true'')]\<rparr>, None, w3, d3)"
proof -
  let ?payload = "[(''run_id'', uuid_json i), (''idempotency_key'', JText key), (''approval_token'', null_or uuid_json token),
              (''confirm_destructive'', JBool confirm)]"
  obtain p0 h0 wa da where g: "api_guard e x (Some MANAGE_USERS) w d = (Inr p0, h0, wa, da)"
  proof -
    obtain r h0 wa da where "api_guard e x (Some MANAGE_USERS) w d = (r, h0, wa, da)" by (metis prod.exhaust)
    then show ?thesis using that assms(1) by (cases r) (simp_all add: api_reconciliation_approve_def)
  qed
  obtain r db where b: "begin_idempotent_request e x h0 (api_username p0) key ?payload da = Inr (r, db)"
  proof -
    have "\<exists>q. begin_idempotent_request e x h0 (api_username p0) key ?payload da = Inr q"
      using assms(1) g by (auto simp: api_reconciliation_approve_def split: sum.splits)
    then show ?thesis using that by auto
  qed
  obtain resp0 oid dc where a: "approve_body e x (api_username p0) h0 i token confirm db = (resp0, oid, dc)" by (metis prod.exhaust)
  obtain oid' where oid: "oid = Some oid'" and actor: "api_username p0 = actor" and resp: "resp = resp0"
    and d1: "d1 = snd (finish_idempotent_request (ai_id r) resp0 oid dc)"
    using assms(1) g b a by (cases oid) (auto simp: api_reconciliation_approve_def finish_idempotent_request_def)
  have body: "idempotency dc = idempotency db" "as_status resp0 = 202"
    using approve_body_parts a oid by blast+
  have expiry: "ai_expires_at r = now e + int (aa_idempotency_retention_hours (fc_automation_api_policy (file_config e))) * 3600 * second"
    using b by (auto simp: begin_idempotent_request_def Let_def split: if_splits option.splits)
  have finished: "finish_idempotent_request (ai_id r) resp0 oid db =
      (resp0, snd (finish_idempotent_request (ai_id r) resp0 oid db))"
    by (simp add: finish_idempotent_request_def)
  have "idempotency d3 = idempotency (snd (finish_idempotent_request (ai_id r) resp0 oid db))"
    using guard_keeps_records [OF assms(2)] assms(4) body(1) by (simp add: d1 finish_idempotent_request_def upd_record_def)
  moreover have "now e' < ai_expires_at r" using assms(7) expiry by simp
  ultimately have "begin_idempotent_request e' x' h (api_username p0) key ?payload d3 =
      Inl \<lparr>as_status = as_status resp0, as_body = as_body resp0, as_headers = merged h [(''Idempotent-Replay'', ''true'')]\<rparr>"
    using request_replayed [OF b finished _ _ assms(5,6), of d3 e' h ?payload] assms(8) by (simp add: request_fingerprint_def)
  then show ?thesis
    using assms(2,3) actor resp body(2) by (simp add: api_reconciliation_approve_def)
qed

text \<open>A page of the interface can be larger than the configuration allows.  When the size asked for is no number, the default is
  taken, and the configured maximum does not bound it.\<close>

theorem page_size_escapes_maximum:
  assumes "api_guard e x (Some VIEW_AUDIT) w d = (Inr p, h, w1, d1)"
    and "values = [''per_page'' \<mapsto> size_text]" "size_text \<noteq> []" "python_int size_text = None"
    and "max_page_size e < 50" "50 \<le> length (operations d1)"
  shows "\<exists>rows meta. fst (operations_list e x values w d) = api_response x h (JArray rows) 200 meta [] \<and>
    max_page_size e < length rows"
proof -
  let ?found = "operation_rows [] [] [] d1"
  have per: "positive (Some size_text) 50 (max_page_size e) = 50" using assms(3,4) by (simp add: positive_def)
  have page: "positive None (Suc 0) 1000000 = Suc 0" by (simp add: positive_def)
  have len: "length ?found = length (operations d1)" by (simp add: operation_rows_def)
  have shown: "shown_page (Suc 0) 50 ?found = Suc 0" by (simp add: shown_page_def pages_of_def)
  let ?rows = "map (\<lambda>x. JObject (api_operation_payload e x False d1)) (page_slice (Suc 0) 50 ?found)"
  have "length ?rows = 50" using len assms(6) by (simp add: page_slice_def)
  moreover have "\<exists>meta. fst (operations_list e x values w d) = api_response x h (JArray ?rows) 200 meta []"
    using assms(1,2) by (simp add: operations_list_def api_guarded_def Let_def per page query_text_def shown) blast
  ultimately show ?thesis using assms(5) by metis
qed


definition root_db :: db where
  "root_db = sample_db\<lparr>users := [sample_user\<lparr>u_role := ''root''\<rparr>],
     operations := map (\<lambda>i. new_operation sample_env i (Some 1) UPDATE ''root'' ''ada'' None None) [0..<50]\<rparr>"

definition console_call :: ApiRequest where
  "console_call = \<lparr>ax_request = sample_request True, ax_supplied_id = ''r-2'', ax_fresh_id = ''u''\<rparr>"

definition small_env :: Env where
  "small_env = sample_env\<lparr>settings := settings sample_env\<lparr>s_file := sample_file\<lparr>fc_automation_api_policy :=
     fc_automation_api_policy sample_file\<lparr>aa_max_page_size := 25\<rparr>\<rparr>\<rparr>\<rparr>"

lemma console_passes:
  assumes "users d = users root_db" "e = small_env \<or> e = sample_env"
  shows "\<exists>a h w1. api_guard e console_call (Some p) (\<lambda>_. []) d = (Inr (AccountPrincipal a), h, w1, d) \<and> pr_username a = ''ada''"
proof -
  have "current_user e (sample_request True) d = Some (principal_of (sample_user\<lparr>u_role := ''root''\<rparr>) (the (rq_session (sample_request True))))"
    using assms by (auto simp: current_user_def sample_request_def root_db_def small_env_def sample_defs get_user_def rows_get_def MAX_AGE_def)
  moreover have "\<not> mfa_missing e (AccountPrincipal (principal_of (sample_user\<lparr>u_role := ''root''\<rparr>) (the (rq_session (sample_request True))))) d"
    by (simp add: mfa_missing_def principal_of_def sample_request_def)
  moreover have "has_permission ''root'' p" by (cases p) (simp_all add: has_permission_iff)
  moreover have "aa_enabled (fc_automation_api_policy (file_config e))" "aa_requests_per_minute (fc_automation_api_policy (file_config e)) = 120"
    using assms(2) by (auto simp: small_env_def sample_defs file_config_def)
  ultimately show ?thesis
    by (simp add: api_guard_def api_account_def console_call_def sample_request_def starts_with_def rate_limit_def rate_step_def
        principal_has_permission_def principal_of_def sample_user_def)
qed

theorem page_size_escapes_maximum_witness:
  "\<exists>h rows meta. fst (operations_list small_env console_call [''per_page'' \<mapsto> ''all''] (\<lambda>_. []) root_db) = api_response console_call h (JArray rows) 200 meta [] \<and>
    25 < length rows"
proof -
  obtain a h w1 where g: "api_guard small_env console_call (Some VIEW_AUDIT) (\<lambda>_. []) root_db = (Inr (AccountPrincipal a), h, w1, root_db)"
    using console_passes by blast
  have "python_int ''all'' = None" by code_simp
  moreover have "max_page_size small_env = 25" "50 \<le> length (operations root_db)"
    by (simp_all add: max_page_size_def small_env_def file_config_def root_db_def)
  ultimately show ?thesis using page_size_escapes_maximum [OF g refl, of "''all''"] by auto
qed

theorem retried_approval_is_answered_witness:
  "\<exists>resp task w d resp' w'. api_reconciliation_approve sample_env console_call ''approve-1'' 3 (Some 4) False (\<lambda>_. [])
      (root_db\<lparr>runs := [(drifted_run ''previewed'')\<lparr>rr_id := 3, rr_approval_token := 4\<rparr>]\<rparr>) = (resp, Some task, w, d) \<and>
    api_reconciliation_approve sample_env console_call ''approve-1'' 3 (Some 4) False (\<lambda>_. []) d = (resp', None, w', d) \<and>
    as_body resp' = as_body resp"
proof -
  let ?run = "(drifted_run ''previewed'')\<lparr>rr_id := 3, rr_approval_token := 4\<rparr>"
  let ?d = "root_db\<lparr>runs := [?run]\<rparr>"
  obtain a h w1 where g: "api_guard sample_env console_call (Some MANAGE_USERS) (\<lambda>_. []) ?d = (Inr (AccountPrincipal a), h, w1, ?d)" "pr_username a = ''ada''"
    using console_passes [of ?d sample_env MANAGE_USERS] by auto
  have key: "idempotency_key_ok ''approve-1''" by code_simp
  have empty: "idempotency ?d = []" by (simp add: root_db_def sample_db_def empty_db_def)
  have run: "get_run 3 x = Some ?run" if "runs x = [?run]" for x using that by (simp add: get_run_def rows_get_def)
  have state: "rr_status ?run = ''previewed''" "rr_drifted_targets ?run = 1" "rr_destructive_targets ?run = 0" "rr_approval_token ?run = 4"
    by (simp_all add: drifted_run_def new_run_def)
  obtain r d1 where b: "begin_idempotent_request sample_env console_call h ''ada'' ''approve-1''
       [(''run_id'', uuid_json 3), (''idempotency_key'', JText ''approve-1''), (''approval_token'', null_or uuid_json (Some 4)),
              (''confirm_destructive'', JBool False)] ?d = Inr (r, d1)" "runs d1 = [?run]"
    using key empty by (simp add: begin_idempotent_request_def Let_def find_record_def unexpired_def next_tick_def)
  obtain resp d where first: "api_reconciliation_approve sample_env console_call ''approve-1'' 3 (Some 4) False (\<lambda>_. []) ?d = (resp, Some (3, ''ada''), w1, d)"
    and users: "users d = users root_db"
  proof -
    have "users d1 = users root_db" using b(1) key empty
      by (auto simp: begin_idempotent_request_def Let_def find_record_def unexpired_def next_tick_def)
    then show ?thesis
      using that g b run [OF b(2)] state by (simp add: api_reconciliation_approve_def api_username_def approve_body_def approve_reconciliation_def
          finish_idempotent_request_def upd_record_def approved_def Let_def upd_run_def add_operation_def next_tick_def record_audit_def)
  qed
  obtain a2 h2 w2 where g2: "api_guard sample_env console_call (Some MANAGE_USERS) (\<lambda>_. []) d = (Inr (AccountPrincipal a2), h2, w2, d)" "pr_username a2 = ''ada''"
    using console_passes [of d sample_env MANAGE_USERS] users by auto
  have "0 < int (aa_idempotency_retention_hours (fc_automation_api_policy (file_config sample_env))) * 3600 * second"
    by (simp add: file_config_def sample_env_def sample_file_def second_def)
  then show ?thesis
    using first retried_approval_is_answered [OF first g2(1)] g2(2) by (auto simp: api_username_def)
qed

end
