(* ===== verification/Assignments.thy ===== *)
theory Assignments
  imports Users Json
begin

text \<open>
  Assignment profiles, the second part of \<open>src/na_sso/assignments.py\<close>: versions of a profile are
  previewed as drafts and published, a published version is applied to an account in two steps, and the exceptions of
  an account are edited.  Profiles and applications are approved with the token of their preview.
\<close>

section \<open>Profiles\<close>

definition get_profile :: "uuid \<Rightarrow> db \<Rightarrow> AssignmentProfile option" where
  "get_profile k d = rows_get ap_id k (profiles d)"
definition upd_profile :: "uuid \<Rightarrow> (AssignmentProfile \<Rightarrow> AssignmentProfile) \<Rightarrow> db \<Rightarrow> db" where
  "upd_profile k f d = d\<lparr>profiles := rows_upd ap_id k f (profiles d)\<rparr>"

interpretation profile_table: keyed_rows get_profile upd_profile ap_id
  by (rule keyed_rowsI [where rows = profiles]) (simp_all add: get_profile_def upd_profile_def)

definition profile_version :: "AssignmentProfile \<Rightarrow> string" where
  "profile_version p = cat [ap_name p, '':v'', show_nat (ap_version p)]"

definition profile_path :: "uuid \<Rightarrow> string" where
  "profile_path pid = cat [''/assignment-profiles/'', show_nat pid]"

definition profiles_page :: "Env \<Rightarrow> Request \<Rightarrow> db \<Rightarrow> Response \<times> db" where
  "profiles_page e req d = guarded e req MANAGE_USERS (\<lambda>pr d.
    (Shown ''assignment_profiles.html''
      (map profile_version (sort_key ap_name (sort_key (\<lambda>p. - int (ap_version p)) (profiles d)))
        @ map c_target_id (get_connectors e d)), d)) d"

text \<open>The version of a draft: the successor of the latest published version with its key, or the first one of a new key.\<close>

definition latest_published :: "uuid \<Rightarrow> db \<Rightarrow> AssignmentProfile option" where
  "latest_published key d =
    (case sort_key (\<lambda>p. - int (ap_version p))
        (filter (\<lambda>p. ap_profile_key p = key \<and> ap_status p = ''published'') (profiles d)) of
       [] \<Rightarrow> None | p # _ \<Rightarrow> Some p)"

definition next_version :: "uuid option \<Rightarrow> db \<Rightarrow> string + nat" where
  "next_version key d = (case key of
     None \<Rightarrow> Inr 1
   | Some k \<Rightarrow> (case latest_published k d of
       None \<Rightarrow> Inl ''profile version source was not found'' | Some p \<Rightarrow> Inr (ap_version p + 1)))"

definition new_profile :: "Env \<Rightarrow> string \<Rightarrow> string \<Rightarrow> uuid option \<Rightarrow> nat \<Rightarrow> string \<Rightarrow> db \<Rightarrow> AssignmentProfile" where
  "new_profile e name description key version actor d =
    \<lparr>ap_id = uuid4 d, ap_profile_key = (case key of None \<Rightarrow> uuid4 (next_tick (next_tick d)) | Some k \<Rightarrow> k),
     ap_version = version, ap_name = name, ap_description = strip description, ap_status = ''draft'',
     ap_approval_token = uuid4 (next_tick d), ap_created_by = actor, ap_created_at = now e, ap_published_at = None\<rparr>"

definition add_profile_target :: "uuid \<Rightarrow> string \<times> string set \<Rightarrow> db \<Rightarrow> db" where
  "add_profile_target pid target d = d\<lparr>profile_targets := profile_targets d @
     [\<lparr>pt_id = next_id pt_id (profile_targets d), pt_profile_id = pid, pt_target_id = fst target,
       pt_memberships = JsonList (sorted_list_of_set (snd target))\<rparr>]\<rparr>"

definition add_profile :: "AssignmentProfile \<Rightarrow> intents \<Rightarrow> db \<Rightarrow> db" where
  "add_profile p targets d =
    fold (add_profile_target (ap_id p)) targets
      ((next_tick (next_tick (next_tick d)))\<lparr>profiles := profiles d @ [p]\<rparr>)"

text \<open>The unique constraint on the key and the version.\<close>

definition version_taken :: "AssignmentProfile \<Rightarrow> db \<Rightarrow> bool" where
  "version_taken p d \<longleftrightarrow> list_ex (\<lambda>q. ap_profile_key q = ap_profile_key p \<and> ap_version q = ap_version p) (profiles d)"

definition profile_rejected :: "string \<Rightarrow> Response" where
  "profile_rejected err = redirect_with_feedback ''/assignment-profiles'' ''Profile preview rejected'' err ''danger''"

definition profile_preview ::
  "Env \<Rightarrow> Request \<Rightarrow> string \<Rightarrow> string \<Rightarrow> string \<Rightarrow> uuid option \<Rightarrow> db \<Rightarrow> Response \<times> db" where
  "profile_preview e req name description bundle key d = guarded e req MANAGE_USERS (\<lambda>pr d.
    (case parse_bundle (get_connectors e d) bundle of
       Inl err \<Rightarrow> (profile_rejected err, d)
     | Inr targets \<Rightarrow>
        if strip name = [] \<or> length (strip name) > 100 \<or> length description > 1000 then
          (profile_rejected ''profile name or description exceeds safe bounds'', d)
        else
          (case next_version key d of
             Inl err \<Rightarrow> (profile_rejected err, d)
           | Inr version \<Rightarrow>
              (let p = new_profile e (strip name) description key version (pr_username pr) d in
               if version_taken p d then (ServerError ''IntegrityError'', d)
               else
                 (Redirect (profile_path (ap_id p)),
                  record_audit e (pr_username pr) ''assignment_profile.previewed'' (profile_version p)
                    (cat [''targets='', show_nat (length targets)]) None (add_profile p targets d)))))) d"

definition assignable :: "ManagedUser \<Rightarrow> bool" where
  "assignable u \<longleftrightarrow> u_role u = ''user'' \<and> u_desired_action u \<noteq> DA_DELETE"

definition profile_detail :: "Env \<Rightarrow> Request \<Rightarrow> uuid \<Rightarrow> db \<Rightarrow> Response \<times> db" where
  "profile_detail e req pid d = guarded e req MANAGE_USERS (\<lambda>pr d.
    (case get_profile pid d of
       None \<Rightarrow> (Redirect ''/assignment-profiles'', d)
     | Some p \<Rightarrow>
        (Shown ''assignment_profile_detail.html'' (profile_version p #
           map pt_target_id (filter (\<lambda>t. pt_profile_id t = pid) (profile_targets d)) @
           map u_username (take 500 (sort_key u_username (filter assignable (users d)))) @
           map pa_actor (take 20 (sort_key (\<lambda>a. - pa_created_at a)
             (filter (\<lambda>a. pa_profile_id a = pid) (applications d))))), d))) d"

definition published_response :: "uuid \<Rightarrow> Response" where
  "published_response pid = redirect_with_feedback (profile_path pid) ''Profile published''
     ''This immutable version is now available for assignment.'' ''success''"

definition profile_publish :: "Env \<Rightarrow> Request \<Rightarrow> uuid \<Rightarrow> uuid \<Rightarrow> db \<Rightarrow> Response \<times> db" where
  "profile_publish e req pid token d = guarded e req MANAGE_USERS (\<lambda>pr d.
    (case get_profile pid d of
       None \<Rightarrow> (redirect_with_feedback ''/assignment-profiles'' ''Profile approval rejected''
                  ''The saved preview token is invalid.'' ''danger'', d)
     | Some p \<Rightarrow>
        if ap_approval_token p \<noteq> token then
          (redirect_with_feedback ''/assignment-profiles'' ''Profile approval rejected''
             ''The saved preview token is invalid.'' ''danger'', d)
        else if ap_status p \<noteq> ''draft'' then (published_response pid, d)
        else
          (published_response pid,
           record_audit e (pr_username pr) ''assignment_profile.published'' (profile_version p)
             (cat [''profile_id='', show_nat pid]) None
             (upd_profile pid (\<lambda>p. p\<lparr>ap_status := ''published'', ap_published_at := Some (now e)\<rparr>) d)))) d"

section \<open>Application of a profile\<close>

definition get_application :: "uuid \<Rightarrow> db \<Rightarrow> ProfileApplication option" where
  "get_application k d = rows_get pa_id k (applications d)"
definition upd_application :: "uuid \<Rightarrow> (ProfileApplication \<Rightarrow> ProfileApplication) \<Rightarrow> db \<Rightarrow> db" where
  "upd_application k f d = d\<lparr>applications := rows_upd pa_id k f (applications d)\<rparr>"

interpretation application_table: keyed_rows get_application upd_application pa_id
  by (rule keyed_rowsI [where rows = applications]) (simp_all add: get_application_def upd_application_def)

definition application_path :: "uuid \<Rightarrow> string" where
  "application_path aid = cat [''/assignment-profiles/applications/'', show_nat aid]"

definition assigned_now :: "id \<Rightarrow> db \<Rightarrow> string list" where
  "assigned_now uid d = remdups (map ss_target (filter (\<lambda>s. ss_assigned s \<and> \<not> ss_retired s) (user_states uid d)))"

text \<open>What the application would add, and the assigned targets outside the profile that it keeps.\<close>

definition added_targets :: "uuid \<Rightarrow> id \<Rightarrow> db \<Rightarrow> string list" where
  "added_targets pid uid d = sort (filter (\<lambda>t. t \<notin> set (assigned_now uid d)) (map fst (profile_target_map pid d)))"

definition preserved_targets :: "uuid \<Rightarrow> id \<Rightarrow> db \<Rightarrow> string list" where
  "preserved_targets pid uid d = sort (filter (\<lambda>t. t \<notin> fst ` set (profile_target_map pid d)) (assigned_now uid d))"

definition application_text :: "string list \<Rightarrow> string list \<Rightarrow> string" where
  "application_text added preserved = dumps (JObject [(''added'', JArray (map JText added)),
     (''preserved_as_exceptions'', JArray (map JText preserved))])"

definition new_application :: "Env \<Rightarrow> id \<Rightarrow> uuid \<Rightarrow> string \<Rightarrow> db \<Rightarrow> ProfileApplication" where
  "new_application e uid pid actor d = \<lparr>pa_id = uuid4 d, pa_user_id = uid, pa_profile_id = pid, pa_actor = actor,
     pa_approval_token = uuid4 (next_tick d), pa_status = ''previewed'',
     pa_detail = application_text (added_targets pid uid d) (preserved_targets pid uid d),
     pa_operation_id = None, pa_created_at = now e, pa_applied_at = None\<rparr>"

definition profile_apply_preview :: "Env \<Rightarrow> Request \<Rightarrow> uuid \<Rightarrow> id \<Rightarrow> db \<Rightarrow> Response \<times> db" where
  "profile_apply_preview e req pid uid d = guarded e req MANAGE_USERS (\<lambda>pr d.
    (let rejected = (redirect_with_feedback (profile_path pid) ''Assignment preview rejected''
           ''Choose a published profile and available managed user.'' ''danger'', d) in
     case (get_profile pid d, get_user uid d) of
       (Some p, Some u) \<Rightarrow>
         if ap_status p \<noteq> ''published'' \<or> \<not> assignable u then rejected
         else
           (let a = new_application e uid pid (pr_username pr) d in
            (Redirect (application_path (pa_id a)),
             record_audit e (pr_username pr) ''assignment_profile.apply_previewed'' (u_username u)
               (cat [''profile='', profile_version p, ''; added='', show_nat (length (added_targets pid uid d)),
                     ''; preserved='', show_nat (length (preserved_targets pid uid d))]) None
               ((next_tick (next_tick d))\<lparr>applications := applications d @ [a]\<rparr>)))
     | _ \<Rightarrow> rejected)) d"

definition profile_application_detail :: "Env \<Rightarrow> Request \<Rightarrow> uuid \<Rightarrow> db \<Rightarrow> Response \<times> db" where
  "profile_application_detail e req aid d = guarded e req MANAGE_USERS (\<lambda>pr d.
    (case get_application aid d of
       None \<Rightarrow> (Redirect ''/assignment-profiles'', d)
     | Some a \<Rightarrow>
        (Shown ''assignment_application.html'' (pa_detail a #
           (case get_profile (pa_profile_id a) d of None \<Rightarrow> [] | Some p \<Rightarrow> [profile_version p]) @
           (case get_user (pa_user_id a) d of None \<Rightarrow> [] | Some u \<Rightarrow> [u_username u])), d))) d"

definition assign_profile :: "Env \<Rightarrow> uuid \<Rightarrow> string \<Rightarrow> id \<Rightarrow> db \<Rightarrow> db" where
  "assign_profile e pid actor uid d = (case get_user_profile uid d of
     None \<Rightarrow> d\<lparr>user_profiles := user_profiles d @
       [\<lparr>up_user_id = uid, up_profile_id = pid, up_assigned_by = actor, up_assigned_at = now e\<rparr>]\<rparr>
   | Some _ \<Rightarrow> d\<lparr>user_profiles := rows_upd up_user_id uid
       (\<lambda>r. r\<lparr>up_profile_id := pid, up_assigned_by := actor, up_assigned_at := now e\<rparr>) (user_profiles d)\<rparr>)"

text \<open>The exception of an account for a target, made if there is none.\<close>

definition put_exception ::
  "id \<Rightarrow> string \<Rightarrow> string \<Rightarrow> (UserAssignmentException \<Rightarrow> UserAssignmentException) \<Rightarrow> db \<Rightarrow> db" where
  "put_exception uid t actor f d = (case find_exception uid t d of
     None \<Rightarrow> d\<lparr>exceptions := exceptions d @
       [f \<lparr>ue_id = next_id ue_id (exceptions d), ue_user_id = uid, ue_target_id = t,
           ue_assignment_mode = ''inherit'', ue_add_memberships = JsonList [], ue_remove_memberships = JsonList [],
           ue_updated_by = actor\<rparr>]\<rparr>
   | Some row \<Rightarrow> upd_exception (ue_id row) f d)"

definition preserve_target :: "id \<Rightarrow> string \<Rightarrow> string \<Rightarrow> db \<Rightarrow> db" where
  "preserve_target uid actor t = put_exception uid t actor
     (\<lambda>x. x\<lparr>ue_assignment_mode := ''include'', ue_updated_by := actor\<rparr>)"

text \<open>The operation and the reset states that follow from the resolved intents: \<open>Inl\<close> a conflict, then the name
  of an exception or the new database.\<close>

definition follow_intents :: "Env \<Rightarrow> id \<Rightarrow> string \<Rightarrow> db \<Rightarrow> string + uuid \<times> (string + db)" where
  "follow_intents e uid actor d =
    (let intents = resolve_assignment_intents uid (get_connectors e d) d in
     case request_operation e uid UPDATE actor None d of
       (Inl err, _) \<Rightarrow> Inl err
     | (Inr i, d1) \<Rightarrow> Inr (i, set_pending e uid None (Some (map fst intents))
          (pending_options\<lparr>po_update_exceptions := False\<rparr>) d1))"

definition user_task :: "id \<Rightarrow> string \<Rightarrow> uuid \<Rightarrow> task" where
  "user_task uid actor i = \<lparr>tk_user = uid, tk_action = None, tk_target = None, tk_actor = actor, tk_operation = Some i\<rparr>"

definition applied_profile :: "Env \<Rightarrow> string \<Rightarrow> uuid \<Rightarrow> id \<Rightarrow> db \<Rightarrow> db" where
  "applied_profile e actor pid uid d =
    fold (preserve_target uid actor) (preserved_targets pid uid d) (assign_profile e pid actor uid d)"

definition exceptions_path :: "id \<Rightarrow> string" where
  "exceptions_path uid = cat [''/users/'', show_nat uid, ''/assignment-exceptions'']"

definition assignment_rejected :: "string \<Rightarrow> Response" where
  "assignment_rejected err = redirect_with_feedback ''/assignment-profiles'' ''Assignment rejected'' err ''danger''"

definition profile_application_confirm :: "Env \<Rightarrow> Request \<Rightarrow> uuid \<Rightarrow> uuid \<Rightarrow> db \<Rightarrow> answer" where
  "profile_application_confirm e req aid token d = user_guarded e req (\<lambda>pr.
    (case get_application aid d of
       None \<Rightarrow> (assignment_rejected ''The saved application token is invalid.'', [], d)
     | Some a \<Rightarrow>
        if pa_approval_token a \<noteq> token then
          (assignment_rejected ''The saved application token is invalid.'', [], d)
        else if pa_status a \<noteq> ''previewed'' then
          (redirect_with_feedback (application_path aid) ''Assignment already handled''
             ''This saved application was not repeated.'' ''success'', [], d)
        else
          (case (get_profile (pa_profile_id a) d, get_user (pa_user_id a) d) of
             (Some p, Some u) \<Rightarrow>
               if ap_status p \<noteq> ''published'' then
                 (assignment_rejected ''The profile or account is no longer available.'', [], d)
               else
                 (let actor = pr_username pr; uid = pa_user_id a; pid = pa_profile_id a in
                  case follow_intents e uid actor (applied_profile e actor pid uid d) of
                    Inl err \<Rightarrow> (redirect_with_feedback (application_path aid) ''Assignment blocked'' err ''danger'', [], d)
                  | Inr (i, Inl err) \<Rightarrow> (ServerError err, [], d)
                  | Inr (i, Inr d1) \<Rightarrow>
                      (redirect_with_feedback (exceptions_path uid) ''Profile assigned''
                         (cat [''Version '', show_nat (ap_version p), '' was applied and explicit exceptions were preserved.''])
                         ''success'',
                       [user_task uid actor i],
                       record_audit e actor ''assignment_profile.applied'' (u_username u)
                         (cat [''profile='', profile_version p, ''; exceptions_preserved='',
                               show_nat (length (preserved_targets pid uid d))]) (Some i)
                         (upd_application aid (\<lambda>a. a\<lparr>pa_status := ''applied'', pa_operation_id := Some i,
                            pa_applied_at := Some (now e)\<rparr>) d1)))
           | _ \<Rightarrow> (assignment_rejected ''The profile or account is no longer available.'', [], d)))) d"

section \<open>Exceptions of an account\<close>

definition assignment_exceptions_page :: "Env \<Rightarrow> Request \<Rightarrow> id \<Rightarrow> db \<Rightarrow> Response \<times> db" where
  "assignment_exceptions_page e req uid d = guarded e req MANAGE_USERS (\<lambda>pr d.
    (case get_user uid d of
       None \<Rightarrow> (Redirect ''/users'', d)
     | Some u \<Rightarrow>
        if u_role u \<noteq> ''user'' then (Redirect ''/users'', d)
        else
          (Shown ''assignment_exceptions.html'' (u_username u #
             (case Option.bind (get_user_profile uid d) (\<lambda>r. get_profile (up_profile_id r) d) of
                None \<Rightarrow> [] | Some p \<Rightarrow> [profile_version p]) @
             map ue_target_id (sort_key ue_target_id (user_exceptions uid d)) @
             map fst (resolve_assignment_intents uid (get_connectors e d) d)), d))) d"

text \<open>\<open>re.split\<close> at bars, commas and white space.\<close>

definition membership_items :: "string \<Rightarrow> string list" where
  "membership_items s = filter (\<lambda>w. w \<noteq> [])
     (split_on (CHR '','') (map (\<lambda>c. if c = CHR ''|'' \<or> is_space c then CHR '','' else c) s))"

definition exception_form_ok :: "Connector list \<Rightarrow> string \<Rightarrow> string \<Rightarrow> string list \<Rightarrow> string list \<Rightarrow> bool" where
  "exception_form_ok cs t mode additions removals \<longleftrightarrow>
     connector_for t cs \<noteq> None \<and> mode \<in> {''inherit'', ''include'', ''exclude''} \<and>
     list_all membership_ok (additions @ removals) \<and> set additions \<inter> set removals = {}"

definition saved_exception ::
  "id \<Rightarrow> string \<Rightarrow> string \<Rightarrow> string \<Rightarrow> string list \<Rightarrow> string list \<Rightarrow> db \<Rightarrow> db" where
  "saved_exception uid t actor mode additions removals = put_exception uid t actor
     (\<lambda>x. x\<lparr>ue_assignment_mode := mode,
        ue_add_memberships := JsonList (sorted_list_of_set (set additions)),
        ue_remove_memberships := JsonList (sorted_list_of_set (set removals)), ue_updated_by := actor\<rparr>)"

definition assignment_exception_save ::
  "Env \<Rightarrow> Request \<Rightarrow> id \<Rightarrow> string \<Rightarrow> string \<Rightarrow> string \<Rightarrow> string \<Rightarrow> db \<Rightarrow> answer" where
  "assignment_exception_save e req uid t mode add_memberships remove_memberships d = user_guarded e req (\<lambda>pr.
    (let actor = pr_username pr; additions = membership_items add_memberships;
         removals = membership_items remove_memberships in
     if \<not> exception_form_ok (get_connectors e d) t mode additions removals then
       (redirect_with_feedback (exceptions_path uid) ''Exception rejected''
          ''Choose a configured target, one assignment mode, and distinct safe membership names.'' ''danger'', [], d)
     else
       (case get_user uid d of
          None \<Rightarrow> (Redirect ''/users'', [], d)
        | Some u \<Rightarrow>
           if \<not> assignable u then (Redirect ''/users'', [], d)
           else
             (case follow_intents e uid actor (saved_exception uid t actor mode additions removals d) of
                Inl err \<Rightarrow> (redirect_with_feedback (exceptions_path uid) ''Exception blocked'' err ''danger'', [], d)
              | Inr (i, Inl err) \<Rightarrow> (ServerError err, [], d)
              | Inr (i, Inr d1) \<Rightarrow>
                  (redirect_with_feedback (exceptions_path uid) ''Exception saved''
                     ''The explicit override is visible and will be retained during reconciliation.'' ''success'',
                   [user_task uid actor i],
                   record_audit e actor ''assignment_exception.updated'' (u_username u)
                     (cat [''target='', t, ''; mode='', mode, ''; additions='', show_nat (card (set additions)),
                           ''; removals='', show_nat (card (set removals))]) (Some i) d1))))) d"

section \<open>Requests\<close>

datatype AssignmentEvent =
    ProfilesPage
  | PreviewProfile string string string "uuid option"
  | ProfileDetail uuid
  | PublishProfile uuid uuid
  | PreviewApplication uuid id
  | ApplicationDetail uuid
  | ConfirmApplication uuid uuid
  | ExceptionsPage id
  | SaveException id string string string string

definition without_tasks :: "Response \<times> db \<Rightarrow> answer" where
  "without_tasks a = (fst a, [], snd a)"

definition handle_assignment :: "Env \<Rightarrow> Request \<Rightarrow> AssignmentEvent \<Rightarrow> db \<Rightarrow> answer" where
  "handle_assignment e req ev d = (case ev of
     ProfilesPage \<Rightarrow> without_tasks (profiles_page e req d)
   | PreviewProfile name description bundle key \<Rightarrow> without_tasks (profile_preview e req name description bundle key d)
   | ProfileDetail pid \<Rightarrow> without_tasks (profile_detail e req pid d)
   | PublishProfile pid token \<Rightarrow> without_tasks (profile_publish e req pid token d)
   | PreviewApplication pid uid \<Rightarrow> without_tasks (profile_apply_preview e req pid uid d)
   | ApplicationDetail aid \<Rightarrow> without_tasks (profile_application_detail e req aid d)
   | ConfirmApplication aid token \<Rightarrow> profile_application_confirm e req aid token d
   | ExceptionsPage uid \<Rightarrow> without_tasks (assignment_exceptions_page e req uid d)
   | SaveException uid t mode additions removals \<Rightarrow> assignment_exception_save e req uid t mode additions removals d)"

section \<open>Profiles stay\<close>

text \<open>What a request leaves of a profile: the row, and its targets.\<close>

definition keeps_profile :: "uuid \<Rightarrow> db \<Rightarrow> db \<Rightarrow> bool" where
  "keeps_profile pid d d' \<longleftrightarrow> get_profile pid d' = get_profile pid d \<and> profile_target_map pid d' = profile_target_map pid d"

lemma keeps_profile_refl [simp]: "keeps_profile pid d d"
  by (simp add: keeps_profile_def)

lemma keeps_profile_tables:
  "profiles d' = profiles d \<Longrightarrow> profile_targets d' = profile_targets d \<Longrightarrow> keeps_profile pid d d'"
  by (simp add: keeps_profile_def get_profile_def profile_target_map_def)

lemma audit_tables [simp]:
  "profiles (record_audit e a ac s det i d) = profiles d" "profile_targets (record_audit e a ac s det i d) = profile_targets d"
  "applications (record_audit e a ac s det i d) = applications d" "exceptions (record_audit e a ac s det i d) = exceptions d"
  "sync_states (record_audit e a ac s det i d) = sync_states d"
  by (simp_all add: record_audit_def)

lemma keeps_profile_audit [simp]: "keeps_profile pid d (record_audit e a ac s det i d') = keeps_profile pid d d'"
  by (simp add: keeps_profile_def get_profile_def profile_target_map_def)

lemma profile_tables_side:
  assumes "side_tables d' = side_tables d"
  shows "profiles d' = profiles d" "profile_targets d' = profile_targets d" "applications d' = applications d"
  by (rule side_tables_field [OF assms], simp add: side_tables_def)+

lemma put_exception_tables [simp]:
  "profiles (put_exception uid t a f d) = profiles d" "profile_targets (put_exception uid t a f d) = profile_targets d"
  "applications (put_exception uid t a f d) = applications d" "user_profiles (put_exception uid t a f d) = user_profiles d"
  "users (put_exception uid t a f d) = users d" "sync_states (put_exception uid t a f d) = sync_states d"
  "credentials (put_exception uid t a f d) = credentials d" "tick (put_exception uid t a f d) = tick d"
  by (simp_all add: put_exception_def upd_exception_def split: option.split)

lemma preserve_targets_tables [simp]:
  fixes ts :: "string list"
  shows "profiles (fold (preserve_target uid a) ts d) = profiles d"
    "profile_targets (fold (preserve_target uid a) ts d) = profile_targets d"
    "applications (fold (preserve_target uid a) ts d) = applications d"
    "user_profiles (fold (preserve_target uid a) ts d) = user_profiles d"
    "users (fold (preserve_target uid a) ts d) = users d" "sync_states (fold (preserve_target uid a) ts d) = sync_states d"
    "credentials (fold (preserve_target uid a) ts d) = credentials d"
  by (rule fold_same, simp add: preserve_target_def)+

lemma assign_profile_tables [simp]:
  "profiles (assign_profile e pid a uid d) = profiles d" "profile_targets (assign_profile e pid a uid d) = profile_targets d"
  "applications (assign_profile e pid a uid d) = applications d" "users (assign_profile e pid a uid d) = users d"
  "sync_states (assign_profile e pid a uid d) = sync_states d" "exceptions (assign_profile e pid a uid d) = exceptions d"
  "credentials (assign_profile e pid a uid d) = credentials d"
  by (simp_all add: assign_profile_def split: option.split)

lemma applied_profile_tables [simp]:
  "profiles (applied_profile e a pid uid d) = profiles d" "profile_targets (applied_profile e a pid uid d) = profile_targets d"
  "applications (applied_profile e a pid uid d) = applications d" "users (applied_profile e a pid uid d) = users d"
  "sync_states (applied_profile e a pid uid d) = sync_states d" "credentials (applied_profile e a pid uid d) = credentials d"
  by (simp_all add: applied_profile_def)

lemma follow_intents_Inr:
  assumes "follow_intents e uid actor d = Inr (i, Inr d')"
  obtains d1 where "request_operation e uid UPDATE actor None d = (Inr i, d1)"
    "set_pending e uid None (Some (map fst (resolve_assignment_intents uid (get_connectors e d) d)))
      (pending_options\<lparr>po_update_exceptions := False\<rparr>) d1 = Inr d'"
  using assms by (auto simp: follow_intents_def Let_def split: prod.splits sum.splits)

lemma follow_intents_side:
  "follow_intents e uid actor d = Inr (i, Inr d') \<Longrightarrow> side_tables d' = side_tables d"
  by (erule follow_intents_Inr) (metis side_tables_request side_tables_set_pending)

lemma profile_tables_follow [simp]:
  assumes "follow_intents e uid actor d = Inr (i, Inr d')"
  shows "profiles d' = profiles d" "profile_targets d' = profile_targets d" "applications d' = applications d"
  using profile_tables_side [OF follow_intents_side [OF assms]] by simp_all

lemma find_snoc: "find P (xs @ [p]) = (case find P xs of None \<Rightarrow> if P p then Some p else None | Some x \<Rightarrow> Some x)"
  by (induction xs) auto

lemma profile_targets_added:
  "ap_id p \<noteq> pid \<Longrightarrow> keeps_profile pid d (add_profile p targets d)"
proof -
  assume p: "ap_id p \<noteq> pid"
  have rows: "filter (\<lambda>r. pt_profile_id r = pid) (profile_targets (fold (add_profile_target (ap_id p)) ts x)) =
      filter (\<lambda>r. pt_profile_id r = pid) (profile_targets x)" for ts x
    using p by (intro fold_same [where h = "\<lambda>x. filter (\<lambda>r. pt_profile_id r = pid) (profile_targets x)"])
      (simp add: add_profile_target_def)
  have same: "profiles (fold (add_profile_target (ap_id p)) ts x) = profiles x" for ts x
    by (rule fold_same [where h = profiles]) (simp add: add_profile_target_def)
  have "rows_get ap_id pid (profiles d @ [p]) = rows_get ap_id pid (profiles d)"
    using p by (simp add: rows_get_def find_snoc split: option.split)
  then show ?thesis
    by (simp add: keeps_profile_def add_profile_def get_profile_def profile_target_map_def rows same next_tick_def)
qed

lemma new_profile_id [simp]: "ap_id (new_profile e n de k v a d) = tick d"
  by (simp add: new_profile_def uuid4_def)

section \<open>Assignments follow the intents\<close>

lemma request_assignment_tables:
  "request_operation e uid c a t d = (r, d') \<Longrightarrow> sync_states d' = sync_states d \<and> exceptions d' = exceptions d"
  by (auto simp: request_operation_def get_active_operation_def create_operation_def finish_with_def add_operation_def
      next_tick_def upd_user_def upd_operation_def record_audit_def Let_def split: option.splits if_splits prod.splits)

lemma assigned_now_mem: "t \<in> set (assigned_now uid d) \<longleftrightarrow>
    (\<exists>s \<in> set (user_states uid d). ss_target s = t \<and> ss_assigned s \<and> \<not> ss_retired s)"
  by (auto simp: assigned_now_def)

lemma follow_assigns:
  assumes "states_ok d" "targets_unique uid d" "follow_intents e uid actor d = Inr (i, Inr d')"
  shows "set (assigned_now uid d') = fst ` set (resolve_assignment_intents uid (get_connectors e d) d)"
proof (rule follow_intents_Inr [OF assms(3)])
  fix d1
  let ?ts = "map fst (resolve_assignment_intents uid (get_connectors e d) d)"
  assume r: "request_operation e uid UPDATE actor None d = (Inr i, d1)"
    and p: "set_pending e uid None (Some ?ts) (pending_options\<lparr>po_update_exceptions := False\<rparr>) d1 = Inr d'"
  have "states_ok d1" "targets_unique uid d1"
    using assms(1,2) request_assignment_tables [OF r] by (simp_all add: states_ok_def targets_unique_def user_states_def)
  then have "set ?ts = ss_target ` {s \<in> set (user_states uid d'). ss_assigned s}"
    "\<forall>s \<in> set (user_states uid d'). ss_assigned s \<longrightarrow> \<not> ss_retired s"
    using assignment_follows_selection [OF _ _ p] by blast+
  then have "t \<in> set (assigned_now uid d') \<longleftrightarrow> t \<in> set ?ts" for t
    unfolding assigned_now_mem by fastforce
  then show ?thesis by auto
qed

text \<open>The exceptions of an account under the constraints of their table.\<close>

definition exceptions_ok :: "db \<Rightarrow> bool" where
  "exceptions_ok d \<longleftrightarrow> distinct (map ue_id (exceptions d)) \<and> distinct (map (\<lambda>x. (ue_user_id x, ue_target_id x)) (exceptions d))"

lemma find_SomeD: "find P xs = Some x \<Longrightarrow> x \<in> set xs \<and> P x"
  by (induction xs) (auto split: if_splits)

lemma find_exception_SomeD:
  "find_exception uid t d = Some x \<Longrightarrow> x \<in> set (exceptions d) \<and> ue_user_id x = uid \<and> ue_target_id x = t"
  unfolding find_exception_def by (drule find_SomeD) simp

lemma find_exception_NoneD:
  "find_exception uid t d = None \<Longrightarrow> x \<in> set (exceptions d) \<Longrightarrow> ue_user_id x = uid \<Longrightarrow> ue_target_id x \<noteq> t"
  unfolding find_exception_def find_None_iff set_rev by blast

lemma find_exception_iff:
  assumes "exceptions_ok d"
  shows "find_exception uid t d = Some x \<longleftrightarrow> x \<in> set (exceptions d) \<and> ue_user_id x = uid \<and> ue_target_id x = t"
proof
  assume x: "x \<in> set (exceptions d) \<and> ue_user_id x = uid \<and> ue_target_id x = t"
  then obtain y where y: "find_exception uid t d = Some y"
    using find_exception_NoneD by (cases "find_exception uid t d") blast+
  then show "find_exception uid t d = Some x"
    using x find_exception_SomeD [OF y] assms by (auto simp: exceptions_ok_def distinct_map dest: inj_onD)
qed (rule find_exception_SomeD)

lemma put_exception_found:
  assumes "exceptions_ok d" "\<And>x. ue_id (f x) = ue_id x \<and> ue_user_id (f x) = ue_user_id x \<and> ue_target_id (f x) = ue_target_id x"
  shows "exceptions_ok (put_exception uid t a f d)"
    "find_exception uid t' (put_exception uid t a f d) =
      (if t' = t then Some (f (case find_exception uid t d of Some x \<Rightarrow> x
         | None \<Rightarrow> \<lparr>ue_id = next_id ue_id (exceptions d), ue_user_id = uid, ue_target_id = t,
             ue_assignment_mode = ''inherit'', ue_add_memberships = JsonList [], ue_remove_memberships = JsonList [],
             ue_updated_by = a\<rparr>))
       else find_exception uid t' d)"
proof -
  let ?new = "\<lparr>ue_id = next_id ue_id (exceptions d), ue_user_id = uid, ue_target_id = t,
             ue_assignment_mode = ''inherit'', ue_add_memberships = JsonList [], ue_remove_memberships = JsonList [],
             ue_updated_by = a\<rparr>"
  let ?d = "put_exception uid t a f d"
  have "exceptions_ok ?d \<and> (\<forall>y. (y \<in> set (exceptions ?d) \<and> ue_user_id y = uid) =
      (y = f (case find_exception uid t d of Some x \<Rightarrow> x | None \<Rightarrow> ?new) \<or>
       y \<in> set (exceptions d) \<and> ue_user_id y = uid \<and> ue_target_id y \<noteq> t))"
  proof (cases "find_exception uid t d")
    case None
    then have no: "x \<notin> set (exceptions d)" if "ue_user_id x = uid" "ue_target_id x = t" for x
      using that find_exception_NoneD [OF None] by blast
    have ex: "exceptions ?d = exceptions d @ [f ?new]" using None by (simp add: put_exception_def)
    have "ue_id x < ue_id (f ?new)" if "x \<in> set (exceptions d)" for x
      using next_id_gt [OF that, of ue_id] assms(2) by simp
    then have "exceptions_ok ?d"
      using assms no by (fastforce simp: exceptions_ok_def ex)
    moreover have "ue_user_id (f ?new) = uid" "ue_target_id (f ?new) = t" using assms(2) by simp_all
    ultimately show ?thesis using None no by (auto simp: ex)
  next
    case (Some x)
    then have x: "x \<in> set (exceptions d)" "ue_user_id x = uid" "ue_target_id x = t"
      using find_exception_iff [OF assms(1)] by auto
    let ?g = "\<lambda>y. if ue_id y = ue_id x then f y else y"
    have ex: "exceptions ?d = map ?g (exceptions d)"
      using Some by (simp add: put_exception_def upd_exception_def rows_upd_def)
    have one: "y = x" if "y \<in> set (exceptions d)" "ue_id y = ue_id x" for y
      using that x(1) assms(1) by (auto simp: exceptions_ok_def distinct_map dest: inj_onD)
    have at: "y = x" if "y \<in> set (exceptions d)" "ue_user_id y = uid" "ue_target_id y = t" for y
      using that x assms(1) by (auto simp: exceptions_ok_def distinct_map dest: inj_onD)
    have g: "ue_id (?g y) = ue_id y" "ue_user_id (?g y) = ue_user_id y" "ue_target_id (?g y) = ue_target_id y" for y
      using assms(2) by simp_all
    have "exceptions_ok ?d" using assms(1) by (simp add: exceptions_ok_def ex comp_def g)
    moreover have "(y \<in> set (exceptions ?d) \<and> ue_user_id y = uid) \<longleftrightarrow>
        y = f x \<or> y \<in> set (exceptions d) \<and> ue_user_id y = uid \<and> ue_target_id y \<noteq> t" for y
    proof
      assume "y \<in> set (exceptions ?d) \<and> ue_user_id y = uid"
      then obtain z where "z \<in> set (exceptions d)" "y = ?g z" "ue_user_id y = uid" by (auto simp: ex)
      then show "y = f x \<or> y \<in> set (exceptions d) \<and> ue_user_id y = uid \<and> ue_target_id y \<noteq> t"
        using one at by (auto split: if_splits)
    next
      assume "y = f x \<or> y \<in> set (exceptions d) \<and> ue_user_id y = uid \<and> ue_target_id y \<noteq> t"
      then show "y \<in> set (exceptions ?d) \<and> ue_user_id y = uid"
      proof
        assume "y = f x"
        then have "y = ?g x" by simp
        then show ?thesis using x assms(2) by (simp add: ex)
      next
        assume y: "y \<in> set (exceptions d) \<and> ue_user_id y = uid \<and> ue_target_id y \<noteq> t"
        then have "y = ?g y" using one [of y] x(3) by auto
        moreover have "?g y \<in> set (exceptions ?d)" using y unfolding ex by simp
        ultimately show ?thesis using y by (simp only:)
      qed
    qed
    ultimately show ?thesis using Some by simp
  qed
  then have ok: "exceptions_ok ?d" and rows: "\<And>y. (y \<in> set (exceptions ?d) \<and> ue_user_id y = uid) =
      (y = f (case find_exception uid t d of Some x \<Rightarrow> x | None \<Rightarrow> ?new) \<or>
       y \<in> set (exceptions d) \<and> ue_user_id y = uid \<and> ue_target_id y \<noteq> t)" by blast+
  show "exceptions_ok ?d" by (rule ok)
  have target: "ue_target_id (f (case find_exception uid t d of Some x \<Rightarrow> x | None \<Rightarrow> ?new)) = t"
    using assms find_exception_iff [OF assms(1)] by (auto split: option.split)
  show "find_exception uid t' ?d = (if t' = t then Some (f (case find_exception uid t d of Some x \<Rightarrow> x | None \<Rightarrow> ?new))
       else find_exception uid t' d)"
  proof (cases "t' = t")
    case True
    then show ?thesis using rows target find_exception_iff [OF ok] by auto
  next
    case False
    have "find_exception uid t' ?d = Some y \<longleftrightarrow> find_exception uid t' d = Some y" for y
      unfolding find_exception_iff [OF ok] find_exception_iff [OF assms(1)] using rows [of y] target False by auto
    then show ?thesis using False by (metis not_None_eq)
  qed
qed

text \<open>The exceptions give a target an intent unless one of them excludes it.\<close>

lemma exceptions_give:
  assumes "\<And>x. x \<in> set xs \<Longrightarrow> ue_target_id x = t \<Longrightarrow> ue_assignment_mode x \<noteq> ''exclude''"
    and "map_of i t \<noteq> None \<or> (\<exists>x \<in> set xs. ue_target_id x = t \<and> ue_assignment_mode x = ''include'') \<and> connector_for t cs \<noteq> None"
  shows "map_of (fold (apply_exception cs) xs i) t \<noteq> None"
  using assms
proof (induction xs arbitrary: i)
  case (Cons x xs)
  have kept: "map_of (apply_exception cs x i) t \<noteq> None"
    if "map_of i t \<noteq> None \<or> ue_target_id x = t \<and> ue_assignment_mode x = ''include'' \<and> connector_for t cs \<noteq> None"
  proof (cases "ue_target_id x = t")
    case True
    then have "ue_assignment_mode x \<noteq> ''exclude''" using Cons.prems(1) by simp
    then show ?thesis
      using that True by (auto simp: apply_exception_def Let_def update_conv' split: option.splits)
  next
    case False
    then show ?thesis using that apply_exception_other [of t x cs i] by simp
  qed
  have "map_of (apply_exception cs x i) t \<noteq> None \<or>
      (\<exists>y \<in> set xs. ue_target_id y = t \<and> ue_assignment_mode y = ''include'') \<and> connector_for t cs \<noteq> None"
    using Cons.prems(2) kept by auto
  then show ?case using Cons.IH [of "apply_exception cs x i"] Cons.prems(1) by simp
qed auto

lemma user_exceptions_found:
  "exceptions_ok d \<Longrightarrow> x \<in> set (user_exceptions uid d) \<longleftrightarrow> find_exception uid (ue_target_id x) d = Some x"
  using find_exception_iff [of d uid "ue_target_id x" x] by (auto simp: user_exceptions_def)

definition mode_at :: "id \<Rightarrow> string \<Rightarrow> db \<Rightarrow> string" where
  "mode_at uid t d = (case find_exception uid t d of None \<Rightarrow> ''inherit'' | Some x \<Rightarrow> ue_assignment_mode x)"

lemma mode_at_put:
  assumes "exceptions_ok d"
  shows "exceptions_ok (preserve_target uid a t d)"
    "mode_at uid t' (preserve_target uid a t d) = (if t' = t then ''include'' else mode_at uid t' d)"
  unfolding preserve_target_def mode_at_def
  by (subst put_exception_found [OF assms], simp_all)+

lemma modes_preserved:
  assumes "exceptions_ok d"
  shows "exceptions_ok (fold (preserve_target uid a) ts d) \<and>
    (\<forall>t. mode_at uid t (fold (preserve_target uid a) ts d) = (if t \<in> set ts then ''include'' else mode_at uid t d))"
  using assms by (induction ts arbitrary: d) (auto simp: mode_at_put)

lemma intents_at:
  assumes "exceptions_ok d" "mode_at uid t d \<noteq> ''exclude''"
    and "mode_at uid t d = ''include'' \<and> connector_for t cs \<noteq> None \<or>
      (\<exists>r. get_user_profile uid d = Some r \<and> t \<in> fst ` set (profile_target_map (up_profile_id r) d))"
  shows "t \<in> fst ` set (resolve_assignment_intents uid cs d)"
proof -
  let ?base = "case get_user_profile uid d of Some assignment \<Rightarrow> profile_target_map (up_profile_id assignment) d
       | None \<Rightarrow> default_intents cs (user_states uid d)"
  have "map_of (fold (apply_exception cs) (user_exceptions uid d) ?base) t \<noteq> None"
  proof (rule exceptions_give)
    show "ue_assignment_mode x \<noteq> ''exclude''" if "x \<in> set (user_exceptions uid d)" "ue_target_id x = t" for x
      using that assms(2) user_exceptions_found [OF assms(1), of x uid] by (simp add: mode_at_def)
    show "map_of ?base t \<noteq> None \<or>
      (\<exists>x \<in> set (user_exceptions uid d). ue_target_id x = t \<and> ue_assignment_mode x = ''include'') \<and> connector_for t cs \<noteq> None"
      using assms(3)
    proof
      assume "mode_at uid t d = ''include'' \<and> connector_for t cs \<noteq> None"
      moreover from this obtain x where "find_exception uid t d = Some x" "ue_assignment_mode x = ''include''"
        by (auto simp: mode_at_def split: option.splits)
      moreover have "x \<in> set (user_exceptions uid d)" "ue_target_id x = t"
        using find_exception_SomeD [of uid t d x] calculation(2) by (auto simp: user_exceptions_def)
      ultimately show ?thesis by blast
    next
      assume "\<exists>r. get_user_profile uid d = Some r \<and> t \<in> fst ` set (profile_target_map (up_profile_id r) d)"
      then show ?thesis by (auto simp: map_of_eq_None_iff)
    qed
  qed
  then show ?thesis by (simp add: resolve_assignment_intents_def map_of_eq_None_iff)
qed

lemma applied_profile_at:
  assumes "exceptions_ok d"
  shows "exceptions_ok (applied_profile e a pid uid d)"
    "mode_at uid t (applied_profile e a pid uid d) =
      (if t \<in> set (preserved_targets pid uid d) then ''include'' else mode_at uid t d)"
    "\<exists>r. get_user_profile uid (applied_profile e a pid uid d) = Some r \<and> up_profile_id r = pid"
proof -
  have ok: "exceptions_ok (assign_profile e pid a uid d)" using assms by (simp add: exceptions_ok_def)
  have mode: "mode_at uid t (assign_profile e pid a uid d) = mode_at uid t d" for t
    by (simp add: mode_at_def find_exception_def)
  show "exceptions_ok (applied_profile e a pid uid d)"
    "mode_at uid t (applied_profile e a pid uid d) =
      (if t \<in> set (preserved_targets pid uid d) then ''include'' else mode_at uid t d)"
    using modes_preserved [OF ok] mode by (simp_all add: applied_profile_def)
  have "\<exists>r. get_user_profile uid (assign_profile e pid a uid d) = Some r \<and> up_profile_id r = pid"
  proof (cases "get_user_profile uid d")
    case None
    then show ?thesis by (simp add: assign_profile_def get_user_profile_def rows_get_def find_snoc)
  next
    case (Some r)
    then show ?thesis by (simp add: assign_profile_def get_user_profile_def rows_get_upd)
  qed
  then show "\<exists>r. get_user_profile uid (applied_profile e a pid uid d) = Some r \<and> up_profile_id r = pid"
    by (simp add: applied_profile_def get_user_profile_def)
qed

lemma states_tables:
  "sync_states d' = sync_states d \<Longrightarrow> states_ok d' = states_ok d \<and> targets_unique uid d' = targets_unique uid d"
  by (simp add: states_ok_def targets_unique_def user_states_def)

lemma select_targets_exceptions:
  "fold (select_target e uid cs rq ab hp) ts (Inr d) = Inr d' \<Longrightarrow> exceptions d' = exceptions d"
proof (induction ts arbitrary: d)
  case (Cons t ts)
  then obtain d1 where d1: "select_target e uid cs rq ab hp t (Inr d) = Inr d1"
    by (cases "select_target e uid cs rq ab hp t (Inr d)") simp_all
  then have "exceptions d1 = exceptions d"
    by (auto simp: select_target_def upd_state_def Let_def split: option.splits)
  then show ?case using Cons d1 by simp
qed simp

lemma unselect_states_exceptions: "exceptions (unselect_states uid selected d) = exceptions d"
  by (auto simp: unselect_states_def upd_state_def intro!: fold_same)

lemma set_pending_exceptions:
  assumes "set_pending e uid p ts opts d = Inr d'" "\<not> po_update_exceptions opts"
  shows "exceptions d' = exceptions d"
  using assms
  by (auto simp: set_pending_def Let_def unselect_states_exceptions upd_user_def dest!: select_targets_exceptions
      split: option.splits if_splits)

lemma follow_intents_exceptions:
  "follow_intents e uid actor d = Inr (i, Inr d') \<Longrightarrow> exceptions d' = exceptions d"
  by (erule follow_intents_Inr) (simp add: set_pending_exceptions request_assignment_tables)

lemma apply_exception_include:
  "ue_assignment_mode x = ''include'' \<Longrightarrow> connector_for (ue_target_id x) cs \<noteq> None \<Longrightarrow>
   map_of (apply_exception cs x i) (ue_target_id x) \<noteq> None"
  by (auto simp: apply_exception_def Let_def update_conv' split: option.splits)

lemma resolved_at:
  assumes "exceptions_ok d" "find_exception uid t d = Some x"
  shows "\<exists>i. map_of (resolve_assignment_intents uid cs d) t = map_of (apply_exception cs x i) (ue_target_id x)"
proof -
  have x: "x \<in> set (user_exceptions uid d)" "ue_target_id x = t"
    using find_exception_SomeD [OF assms(2)] by (auto simp: user_exceptions_def)
  have "distinct (map ue_target_id (user_exceptions uid d))"
    using assms(1) by (auto simp: user_exceptions_def exceptions_ok_def distinct_map distinct_filter inj_on_def)
  then show ?thesis
    unfolding resolve_assignment_intents_def x(2) [symmetric] using fold_exceptions_at [OF _ x(1)] by blast
qed

lemma savedE:
  assumes "assignment_exception_save e req uid t mode added taken d = (resp, ts, d')" "ts \<noteq> []"
  obtains pr i d1 where "permission_guard e req MANAGE_USERS d = Inr pr"
    "exception_form_ok (get_connectors e d) t mode (membership_items added) (membership_items taken)"
    "follow_intents e uid (pr_username pr)
       (saved_exception uid t (pr_username pr) mode (membership_items added) (membership_items taken) d) = Inr (i, Inr d1)"
    "sync_states d' = sync_states d1" "exceptions d' = exceptions d1"
  using assms by (auto simp: assignment_exception_save_def user_guarded_def Let_def
      split: sum.splits option.splits prod.splits if_splits)

lemma confirmedE:
  assumes "profile_application_confirm e req aid token d = (resp, ts, d')" "ts \<noteq> []"
  obtains pr a i d1 where "permission_guard e req MANAGE_USERS d = Inr pr" "get_application aid d = Some a"
    "follow_intents e (pa_user_id a) (pr_username pr)
        (applied_profile e (pr_username pr) (pa_profile_id a) (pa_user_id a) d) = Inr (i, Inr d1)"
    "ts = [user_task (pa_user_id a) (pr_username pr) i]" "sync_states d' = sync_states d1"
    "applications d' = applications (upd_application aid (\<lambda>a. a\<lparr>pa_status := ''applied'', pa_operation_id := Some i,
      pa_applied_at := Some (now e)\<rparr>) d1)"
  using assms by (auto simp: profile_application_confirm_def user_guarded_def Let_def upd_application_def
      split: sum.splits option.splits prod.splits if_splits)

section \<open>Properties\<close>

text \<open>C12: A published version is immutable.  Whatever request is made to the assignments, a published profile keeps its
  row and its targets with their memberships.\<close>

theorem published_versions_are_immutable:
  assumes "get_profile pid d = Some p" "ap_status p = ''published''" "pid < tick d"
  shows "get_profile pid (db_after (handle_assignment e req ev d)) = Some p \<and>
    profile_target_map pid (db_after (handle_assignment e req ev d)) = profile_target_map pid d"
proof -
  have "keeps_profile pid d (db_after (handle_assignment e req ev d))"
  proof (cases ev)
    case (PreviewProfile n de b k)
    then show ?thesis using assms(3)
      by (auto simp: handle_assignment_def without_tasks_def profile_preview_def guarded_def Let_def
          split: sum.splits intro!: profile_targets_added)
  next
    case (PublishProfile i token)
    have "keeps_profile pid d (upd_profile i f d)"
      if "get_profile i d = Some q" "ap_status q = ''draft''" "\<And>r. ap_id (f r) = ap_id r" for f q
    proof -
      have "pid \<noteq> i" using that assms(1,2) by auto
      then have "get_profile pid (upd_profile i f d) = get_profile pid d"
        by (rule profile_table.get_upd_other [OF that(3)])
      then show ?thesis by (simp add: keeps_profile_def) (simp add: profile_target_map_def upd_profile_def)
    qed
    then show ?thesis using PublishProfile
      by (auto simp: handle_assignment_def without_tasks_def profile_publish_def guarded_def
          split: sum.splits option.splits)
  next
    case (ConfirmApplication aid token)
    then show ?thesis
      by (auto simp: handle_assignment_def profile_application_confirm_def user_guarded_def Let_def upd_application_def
          intro!: keeps_profile_tables split: sum.splits option.splits prod.splits)
  next
    case (SaveException uid t m a r)
    then show ?thesis
      by (auto simp: handle_assignment_def assignment_exception_save_def user_guarded_def Let_def saved_exception_def
          intro!: keeps_profile_tables split: sum.splits option.splits prod.splits)
  qed (auto simp: handle_assignment_def without_tasks_def profiles_page_def profile_detail_def profile_apply_preview_def
      profile_application_detail_def assignment_exceptions_page_def guarded_def Let_def next_tick_def
      intro!: keeps_profile_tables split: sum.splits option.splits)
  then show ?thesis using assms(1) by (simp add: keeps_profile_def)
qed

text \<open>C14: An application is carried out once.  An answer to a confirmation that starts a run marks the application as applied
  with the operation of the run, and after it no confirmation of the application, by anyone with any token, starts a run
  or changes anything.\<close>

theorem application_works_once:
  assumes "profile_application_confirm e req aid token d = (resp, ts, d')" "ts \<noteq> []"
  shows "(\<exists>a t. get_application aid d' = Some a \<and> pa_status a = ''applied'' \<and> ts = [t] \<and> pa_operation_id a = tk_operation t) \<and>
    snd (profile_application_confirm e2 req2 aid token2 d') = ([], d')"
proof -
  obtain pr a i d1 where pr: "permission_guard e req MANAGE_USERS d = Inr pr"
    and a: "get_application aid d = Some a"
    and f: "follow_intents e (pa_user_id a) (pr_username pr)
        (applied_profile e (pr_username pr) (pa_profile_id a) (pa_user_id a) d) = Inr (i, Inr d1)"
    and ts: "ts = [user_task (pa_user_id a) (pr_username pr) i]"
    and d': "applications d' = applications (upd_application aid (\<lambda>a. a\<lparr>pa_status := ''applied'', pa_operation_id := Some i,
      pa_applied_at := Some (now e)\<rparr>) d1)"
    using assms by (auto simp: profile_application_confirm_def user_guarded_def Let_def split: sum.splits option.splits
        prod.splits if_splits)
  have "get_application aid d1 = Some a"
    using a profile_tables_follow(3) [OF f] by (simp add: get_application_def)
  then have "get_application aid d' = Some (a\<lparr>pa_status := ''applied'', pa_operation_id := Some i, pa_applied_at := Some (now e)\<rparr>)"
    using application_table.get_upd_same [of "\<lambda>a. a\<lparr>pa_status := ''applied'', pa_operation_id := Some i, pa_applied_at := Some (now e)\<rparr>" aid d1 a] d'
    by (simp add: get_application_def)
  then show ?thesis
    using ts by (auto simp: user_task_def profile_application_confirm_def user_guarded_def split: sum.splits)
qed

text \<open>A draft blocks its profile.  While there is a draft that follows the latest published version of a profile, every
  preview of a further version ends in an exception: the numbers are equal and the constraint of the table refuses
  the row.  No request removes the draft; only its publication, with whatever targets it has, ends the state.\<close>

theorem draft_blocks_next_version:
  assumes "permission_guard e req MANAGE_USERS d = Inr pr" "parse_bundle (get_connectors e d) bundle = Inr targets"
    and "strip name \<noteq> []" "length (strip name) \<le> 100" "length description \<le> 1000"
    and "latest_published key d = Some p"
    and "draft \<in> set (profiles d)" "ap_profile_key draft = key" "ap_version draft = ap_version p + 1"
  shows "profile_preview e req name description bundle (Some key) d = (ServerError ''IntegrityError'', d)"
proof -
  have "version_taken (new_profile e (strip name) description (Some key) (ap_version p + 1) (pr_username pr) d) d"
    using assms(7-9) by (auto simp: version_taken_def new_profile_def list_ex_iff)
  then show ?thesis
    using assms(1-6) by (simp add: profile_preview_def guarded_def next_version_def Let_def)
qed


text \<open>C13: A saved exception is obeyed.  After an exception was saved and a run started, an excluded target is not assigned and
  an included one is, and whatever the configuration then is, the memberships that the account is to have on the
  target contain the added names and none of the removed ones.\<close>

theorem saved_exception_is_obeyed:
  assumes "assignment_exception_save e req uid t mode added taken d = (resp, ts, d')" "ts \<noteq> []"
    and "states_ok d" "targets_unique uid d" "exceptions_ok d"
  shows "(mode = ''exclude'' \<longrightarrow> t \<notin> set (assigned_now uid d')) \<and>
    (mode = ''include'' \<longrightarrow> t \<in> set (assigned_now uid d')) \<and>
    (case map_of (resolve_assignment_intents uid cs d') t of None \<Rightarrow> mode \<noteq> ''include'' \<or> connector_for t cs = None
     | Some m \<Rightarrow> mode \<noteq> ''exclude'' \<and> set (membership_items taken) \<inter> m = {} \<and> set (membership_items added) \<subseteq> m)"
proof (rule savedE [OF assms(1,2)])
  fix pr :: Principal and i d1
  let ?add = "membership_items added" and ?rem = "membership_items taken"
  let ?d = "saved_exception uid t (pr_username pr) mode ?add ?rem d"
  assume form: "exception_form_ok (get_connectors e d) t mode ?add ?rem"
    and f: "follow_intents e uid (pr_username pr) ?d = Inr (i, Inr d1)"
    and d': "sync_states d' = sync_states d1" "exceptions d' = exceptions d1"
  have ok: "exceptions_ok ?d"
    unfolding saved_exception_def by (subst put_exception_found [OF assms(5)]) simp_all
  obtain x where found: "find_exception uid t ?d = Some x" and x: "ue_assignment_mode x = mode"
    "json_set (ue_add_memberships x) = set ?add" "json_set (ue_remove_memberships x) = set ?rem"
    unfolding saved_exception_def by (subst (asm) put_exception_found [OF assms(5)]) (simp_all add: json_set_def)
  have t: "ue_target_id x = t" using find_exception_SomeD [OF found] by simp
  have conn: "connector_for t (get_connectors e ?d) \<noteq> None" and disjoint: "set ?add \<inter> set ?rem = {}"
    using form by (simp_all add: exception_form_ok_def saved_exception_def get_connectors_def credential_payload_def
        get_credential_def cong: if_cong)
  have now: "set (assigned_now uid d') = fst ` set (resolve_assignment_intents uid (get_connectors e ?d) ?d)"
    using follow_assigns [OF _ _ f] assms(3,4) states_tables [of ?d d] d'
    by (simp add: saved_exception_def assigned_now_def user_states_def)
  have same: "exceptions d' = exceptions ?d" using d' follow_intents_exceptions [OF f] by simp
  then have ok': "exceptions_ok d'" and found': "find_exception uid t d' = Some x"
    using ok found by (simp_all add: exceptions_ok_def find_exception_def)
  obtain b where b: "map_of (resolve_assignment_intents uid (get_connectors e ?d) ?d) t =
      map_of (apply_exception (get_connectors e ?d) x b) (ue_target_id x)"
    using resolved_at [OF ok found] by blast
  obtain b' where b': "map_of (resolve_assignment_intents uid cs d') t = map_of (apply_exception cs x b') (ue_target_id x)"
    using resolved_at [OF ok' found'] by blast
  have "t \<in> set (assigned_now uid d') \<longleftrightarrow> map_of (apply_exception (get_connectors e ?d) x b) (ue_target_id x) \<noteq> None"
    unfolding now b [symmetric] by (simp add: map_of_eq_None_iff)
  then have "mode = ''exclude'' \<longrightarrow> t \<notin> set (assigned_now uid d')" "mode = ''include'' \<longrightarrow> t \<in> set (assigned_now uid d')"
    using apply_exception_exclude [of x] apply_exception_include [of x] x(1) conn t by auto
  moreover have "case map_of (resolve_assignment_intents uid cs d') t of None \<Rightarrow> mode \<noteq> ''include'' \<or> connector_for t cs = None
     | Some m \<Rightarrow> mode \<noteq> ''exclude'' \<and> set ?rem \<inter> m = {} \<and> set ?add \<subseteq> m"
  proof (cases "map_of (resolve_assignment_intents uid cs d') t")
    case None
    then show ?thesis using apply_exception_include [of x cs b'] x(1) t unfolding b'
      by (cases "connector_for t cs") auto
  next
    case (Some m)
    then have m: "map_of (apply_exception cs x b') (ue_target_id x) = Some m" using b' by simp
    moreover have "mode \<noteq> ''exclude''" using m apply_exception_exclude [of x cs b'] x(1) by auto
    ultimately show ?thesis
      using apply_exception_memberships [OF m] x(2,3) disjoint Some by auto
  qed
  ultimately show ?thesis by blast
qed

section \<open>Witnesses\<close>

lemma follow_intents_idle:
  assumes "get_user uid d = Some u" "u_active_operation_id u = None" "\<not> is_root u"
    and "\<forall>t \<in> fst ` set (resolve_assignment_intents uid (get_connectors e d) d). connector_for t (get_connectors e d) \<noteq> None"
  shows "\<exists>d'. follow_intents e uid a d = Inr (tick d, Inr d')"
proof -
  let ?d = "snd (create_operation e u UPDATE a None None d)"
  let ?ts = "map fst (resolve_assignment_intents uid (get_connectors e d) d)"
  have r: "request_operation e uid UPDATE a None d = (Inr (tick d), ?d)"
    by (rule request_idle) (use assms in simp_all)
  have "get_connectors e ?d = get_connectors e d"
    by (simp add: create_operation_def add_operation_def upd_user_def next_tick_def get_connectors_def
        credential_payload_def get_credential_def Let_def cong: if_cong)
  moreover have "get_user uid ?d = map_option (\<lambda>v. if uid = u_id u then v\<lparr>u_active_operation_id := Some (tick d)\<rparr> else v) (Some u)"
    using assms(1) by (auto simp: create_operation_def get_user_def add_operation_def next_tick_def uuid4_def Let_def
        upd_user_def rows_get_upd)
  ultimately have "\<exists>d'. set_pending e uid None (Some ?ts) (pending_options\<lparr>po_update_exceptions := False\<rparr>) ?d = Inr d'"
    using assms(3,4) by (intro set_pending_succeeds [where T = "set ?ts"]) (auto simp: is_root_def)
  then show ?thesis by (auto simp: follow_intents_def r Let_def)
qed

definition sample_profile :: AssignmentProfile where
  "sample_profile = \<lparr>ap_id = 1, ap_profile_key = 2, ap_version = 1, ap_name = ''Engineers'', ap_description = [],
     ap_status = ''published'', ap_approval_token = 3, ap_created_by = ''ada'', ap_created_at = 0,
     ap_published_at = Some 1\<rparr>"

definition sample_draft :: AssignmentProfile where
  "sample_draft = sample_profile\<lparr>ap_id := 4, ap_version := 2, ap_status := ''draft'', ap_published_at := None\<rparr>"

definition sample_application :: ProfileApplication where
  "sample_application = \<lparr>pa_id = 5, pa_user_id = 2, pa_profile_id = 1, pa_actor = ''ada'', pa_approval_token = 6,
     pa_status = ''previewed'', pa_detail = [], pa_operation_id = None, pa_created_at = 0, pa_applied_at = None\<rparr>"

text \<open>An operator, an account with the number 2, a published profile with one target, a draft that follows it and an
  application of the profile to the account.\<close>

definition assignment_db :: db where
  "assignment_db = sample_db\<lparr>users := [mfa_operator, sample_user\<lparr>u_id := 2, u_username := ''bob''\<rparr>], sync_states := [],
     profiles := [sample_profile, sample_draft],
     profile_targets := [\<lparr>pt_id = 1, pt_profile_id = 1, pt_target_id = ''gitea'', pt_memberships = JsonList []\<rparr>],
     applications := [sample_application], tick := 10\<rparr>"

lemma assignment_db_ok:
  "states_ok assignment_db" "targets_unique uid assignment_db" "exceptions_ok assignment_db"
  "get_application 5 assignment_db = Some sample_application" "get_profile 1 assignment_db = Some sample_profile"
  "profile_target_map 1 assignment_db = [(''gitea'', {})]" "mode_at 2 ''gitea'' assignment_db = ''inherit''"
  "get_user 1 assignment_db = Some mfa_operator" "get_user 2 assignment_db = Some (sample_user\<lparr>u_id := 2, u_username := ''bob''\<rparr>)"
  "assigned_now 2 assignment_db = []" "get_user_profile 2 assignment_db = None" "exceptions assignment_db = []"
  by (simp_all add: states_ok_def targets_unique_def user_states_def exceptions_ok_def get_application_def get_profile_def
      rows_get_def assignment_db_def sample_application_def sample_profile_def profile_target_map_def json_set_def
      mode_at_def find_exception_def sample_db_def empty_db_def get_user_def mfa_operator_def sample_user_def
      assigned_now_def get_user_profile_def)

lemma sample_connectors: "get_connectors sample_env d = [sample_connector]"
  "connector_for ''gitea'' [sample_connector] = Some sample_connector"
  by (simp_all add: get_connectors_def sample_env_def connector_for_def sample_connector_def)

lemma sample_user_idle: "u_active_operation_id sample_user = None" "\<not> is_root (sample_user\<lparr>u_id := i, u_username := n\<rparr>)"
  "assignable (sample_user\<lparr>u_id := i, u_username := n\<rparr>)"
  by (simp_all add: sample_user_def is_root_def assignable_def)

lemma sample_confirm:
  "\<exists>resp t d'. profile_application_confirm sample_env (sample_request True) 5 6 assignment_db = (resp, [t], d')"
proof -
  let ?d = "applied_profile sample_env (pr_username operator_principal) 1 2 assignment_db"
  have u: "get_user 2 ?d = Some (sample_user\<lparr>u_id := 2, u_username := ''bob''\<rparr>)"
    using assignment_db_ok(9) by (simp add: get_user_def)
  have kept: "preserved_targets 1 2 assignment_db = []" by (simp add: preserved_targets_def assignment_db_ok)
  have "\<exists>r. get_user_profile 2 ?d = Some r \<and> up_profile_id r = 1" by (rule applied_profile_at) (rule assignment_db_ok)
  moreover have "user_exceptions 2 ?d = []"
    by (simp add: applied_profile_def kept user_exceptions_def assignment_db_ok del: One_nat_def)
  moreover have "profile_target_map 1 ?d = [(''gitea'', {})]"
    using assignment_db_ok(6) by (simp add: profile_target_map_def)
  ultimately have "resolve_assignment_intents 2 (get_connectors sample_env ?d) ?d = [(''gitea'', {})]"
    by (auto simp: resolve_assignment_intents_def simp del: One_nat_def)
  then obtain d' where "follow_intents sample_env 2 (pr_username operator_principal) ?d = Inr (tick ?d, Inr d')"
    using follow_intents_idle [OF u, of sample_env "pr_username operator_principal"]
    by (auto simp: sample_user_idle sample_connectors simp del: One_nat_def)
  then show ?thesis
    using assignment_db_ok(5) by (simp add: profile_application_confirm_def user_guarded_def users_db_session(2) [OF assignment_db_ok(8)]
        assignment_db_ok sample_application_def Let_def del: One_nat_def) (simp add: sample_profile_def)
qed

theorem published_versions_are_immutable_witness:
  "get_profile 1 (db_after (handle_assignment sample_env (sample_request True) (PublishProfile 1 3) assignment_db)) = Some sample_profile"
  using published_versions_are_immutable [OF assignment_db_ok(5), of sample_env "sample_request True" "PublishProfile 1 3"]
  by (simp add: sample_profile_def assignment_db_def)

theorem application_works_once_witness:
  "\<exists>t d'. snd (profile_application_confirm sample_env (sample_request True) 5 6 assignment_db) = ([t], d') \<and>
     snd (profile_application_confirm sample_env (sample_request True) 5 6 d') = ([], d')"
proof -
  obtain resp t d' where run: "profile_application_confirm sample_env (sample_request True) 5 6 assignment_db = (resp, [t], d')"
    using sample_confirm by blast
  from application_works_once [OF run list.discI [OF refl]] run show ?thesis by simp
qed

theorem draft_blocks_next_version_witness:
  "profile_preview sample_env (sample_request True) ''Engineers'' [] ''gitea:developers'' (Some 2) assignment_db =
     (ServerError ''IntegrityError'', assignment_db)"
proof -
  have p: "parse_bundle (get_connectors sample_env assignment_db) ''gitea:developers'' = Inr [(''gitea'', {''developers''})]"
    unfolding sample_connectors by code_simp
  have l: "latest_published 2 assignment_db = Some sample_profile"
    by (simp add: latest_published_def assignment_db_def sample_draft_def sample_profile_def)
  have g: "get_user 1 assignment_db = Some mfa_operator"
    by (simp add: get_user_def rows_get_def assignment_db_def mfa_operator_def sample_user_def)
  show ?thesis
    by (rule draft_blocks_next_version [where draft = sample_draft, OF users_db_session(2) [OF g] p _ _ _ l])
      (simp_all add: strip_def is_space_def assignment_db_def sample_draft_def sample_profile_def)
qed


theorem saved_exception_is_obeyed_witness:
  "\<exists>t. fst (snd (assignment_exception_save sample_env (sample_request True) 2 ''gitea'' ''include'' [] [] assignment_db)) = [t] \<and>
     ''gitea'' \<in> set (assigned_now 2
       (db_after (assignment_exception_save sample_env (sample_request True) 2 ''gitea'' ''include'' [] [] assignment_db)))"
proof -
  let ?d = "saved_exception 2 ''gitea'' (pr_username operator_principal) ''include'' [] [] assignment_db"
  have u: "get_user 2 ?d = Some (sample_user\<lparr>u_id := 2, u_username := ''bob''\<rparr>)"
    using assignment_db_ok(9) by (simp add: get_user_def saved_exception_def)
  have no_states: "user_states 2 (assignment_db\<lparr>exceptions := xs\<rparr>) = []" for xs
    by (simp add: user_states_def assignment_db_def)
  have "resolve_assignment_intents 2 (get_connectors sample_env ?d) ?d = [(''gitea'', c_default_memberships sample_connector)]"
    using assignment_db_ok(10-12) by (simp add: resolve_assignment_intents_def saved_exception_def put_exception_def
        find_exception_def user_exceptions_def get_user_profile_def default_intents_def no_states apply_exception_def
        sample_connectors json_set_def Let_def)
  then obtain d1 where "follow_intents sample_env 2 (pr_username operator_principal) ?d = Inr (tick ?d, Inr d1)"
    using follow_intents_idle [OF u, of sample_env "pr_username operator_principal"]
    by (auto simp: sample_user_idle sample_connectors simp del: One_nat_def)
  then obtain resp t d' where
    run: "assignment_exception_save sample_env (sample_request True) 2 ''gitea'' ''include'' [] [] assignment_db = (resp, [t], d')"
    by (simp add: assignment_exception_save_def user_guarded_def users_db_session(2) [OF assignment_db_ok(8)]
        assignment_db_ok sample_user_idle exception_form_ok_def membership_items_def sample_connectors Let_def)
  from saved_exception_is_obeyed [OF run list.discI [OF refl] assignment_db_ok(1-3), of "[]"] run
  show ?thesis by (simp add: db_after_def)
qed

end
