(* ===== verification/Dashboard.thy ===== *)
theory Dashboard
  imports Api Unmanaged Governance SshKeys
begin

text \<open>
  The dashboard of the console, \<open>src/na_sso/dashboard.py\<close>: tiles and charts counted from the tables, and
  the guard that lets every console role see them.  A dictionary of counters is an association list in the order
  in which its keys came; the blanks of \<open>json.dumps\<close> and its escapes for characters beyond ASCII are not modelled.
\<close>

section \<open>Days\<close>

text \<open>The calendar date of a number of days since 1970, and \<open>strftime\<close> with month name and day.\<close>

definition civil_from_days :: "int \<Rightarrow> int \<times> int \<times> int" where
  "civil_from_days z =
    (let z = z + 719468; era = z div 146097; doe = z - era * 146097;
         yoe = (doe - doe div 1460 + doe div 36524 - doe div 146096) div 365;
         doy = doe - (365 * yoe + yoe div 4 - yoe div 100); mp = (5 * doy + 2) div 153;
         n = doy - (153 * mp + 2) div 5 + 1; m = (if mp < 10 then mp + 3 else mp - 9)
     in (yoe + era * 400 + (if m \<le> 2 then 1 else 0), m, n))"

definition MONTH_NAMES :: "string list" where
  "MONTH_NAMES = [''Jan'', ''Feb'', ''Mar'', ''Apr'', ''May'', ''Jun'', ''Jul'', ''Aug'', ''Sep'', ''Oct'', ''Nov'', ''Dec'']"

definition month_day :: "int \<Rightarrow> string" where
  "month_day z = (case civil_from_days z of (y, m, n) \<Rightarrow>
     cat [MONTH_NAMES ! nat (m - 1), '' '', if n < 10 then ''0'' else [], show_int n])"

definition day_labels :: "Env \<Rightarrow> nat \<Rightarrow> int list" where
  "day_labels e days = map (\<lambda>offset. now e div day - int offset) (rev [0..<days])"

text \<open>\<open>counts.get(key, 0) + 1\<close>.\<close>

definition count_of :: "'k \<Rightarrow> ('k \<times> nat) list \<Rightarrow> nat" where
  "count_of k counts = (case map_of counts k of None \<Rightarrow> 0 | Some n \<Rightarrow> n)"

definition count_up :: "'k \<Rightarrow> ('k \<times> nat) list \<Rightarrow> ('k \<times> nat) list" where
  "count_up k counts = AList.update k (Suc (count_of k counts)) counts"

definition count_moment :: "time option \<Rightarrow> (int \<times> nat) list \<Rightarrow> (int \<times> nat) list" where
  "count_moment moment counts = (case moment of
     None \<Rightarrow> counts
   | Some t \<Rightarrow> if map_of counts (t div day) \<noteq> None then count_up (t div day) counts else counts)"

definition bucket_by_day :: "Env \<Rightarrow> time option list \<Rightarrow> nat \<Rightarrow> string list \<times> nat list" where
  "bucket_by_day e moments days =
    (let labels = day_labels e days;
         counts = fold count_moment moments (fold (\<lambda>l. AList.update l 0) labels []) in
     (map month_day labels, map (\<lambda>l. count_of l counts) labels))"

section \<open>Tiles\<close>

definition visible_users :: "db \<Rightarrow> ManagedUser list" where
  "visible_users d = filter (\<lambda>u. u_role u \<noteq> ''root'') (users d)"

text \<open>The accounts there were at the last whole second of a day.\<close>

definition present_at :: "time \<Rightarrow> ManagedUser \<Rightarrow> bool" where
  "present_at cutoff u \<longleftrightarrow> u_created_at u \<le> cutoff \<and> (case u_deleted_at u of None \<Rightarrow> True | Some t \<Rightarrow> t > cutoff)"

record UsersTile =
  ut_total :: nat
  ut_active :: nat
  ut_disabled :: nat
  ut_spark :: "nat list"

definition users_tile :: "Env \<Rightarrow> db \<Rightarrow> UsersTile" where
  "users_tile e d =
    (let us = visible_users d; live = filter (\<lambda>u. u_deleted_at u = None) us in
     \<lparr>ut_total = length live, ut_active = length (filter (\<lambda>u. u_status u = US_ACTIVE) live),
      ut_disabled = length (filter (\<lambda>u. u_status u = US_DISABLED) live),
      ut_spark = map (\<lambda>label. length (filter (present_at (label * day + 86399 * second)) us)) (day_labels e 30)\<rparr>)"

definition target_healthy :: "db \<Rightarrow> string \<Rightarrow> bool" where
  "target_healthy d t = (case get_credential t d of
     None \<Rightarrow> False | Some c \<Rightarrow> tc_verified_at c \<noteq> None \<and> tc_last_probe_ok c \<noteq> Some False)"

definition targets_tile :: "string list \<Rightarrow> db \<Rightarrow> nat \<times> nat" where
  "targets_tile target_ids d = (length (filter (target_healthy d) target_ids), length target_ids)"

definition latest_completed_run :: "db \<Rightarrow> ReconciliationRun option" where
  "latest_completed_run d =
    (case sort_key (\<lambda>r. - the (rr_completed_at r)) (filter (\<lambda>r. rr_completed_at r \<noteq> None) (runs d)) of
       [] \<Rightarrow> None | r # _ \<Rightarrow> Some r)"

definition open_drift :: "uuid \<Rightarrow> ReconciliationFinding \<Rightarrow> bool" where
  "open_drift i f \<longleftrightarrow> rf_run_id f = i \<and> rf_state f = ''drift'' \<and> rf_repair_status f \<notin> {''succeeded'', ''repaired''}"

record FindingsTile =
  ft_open :: nat
  ft_drift :: nat
  ft_unmanaged :: nat

definition findings_tile :: "db \<Rightarrow> FindingsTile" where
  "findings_tile d =
    (let drift = (case latest_completed_run d of
           None \<Rightarrow> 0 | Some r \<Rightarrow> length (filter (open_drift (rr_id r)) (findings d)));
         others = length (filter (\<lambda>f. uf_decision f = ''pending'' \<and> uf_present f) (unmanaged d)) in
     \<lparr>ft_open = drift + others, ft_drift = drift, ft_unmanaged = others\<rparr>)"

definition failed_status :: "OperationStatus \<Rightarrow> bool" where
  "failed_status s \<longleftrightarrow> s = OP_FAILED \<or> s = PARTIALLY_FAILED"

definition operations_24h_tile :: "Env \<Rightarrow> db \<Rightarrow> nat \<times> nat \<times> nat" where
  "operations_24h_tile e d =
    (let ops = filter (\<lambda>x. op_created_at x \<ge> now e - day) (operations d) in
     (length ops, length (filter (\<lambda>x. op_status x = SUCCEEDED) ops),
      length (filter (\<lambda>x. failed_status (op_status x)) ops)))"

section \<open>Charts of the first page\<close>

text \<open>A bucket holds the states in sync, the waiting and the failed ones.\<close>

type_synonym bucket = "nat \<times> nat \<times> nat"

definition add_to_bucket :: "SyncStateValue \<Rightarrow> bucket \<Rightarrow> bucket" where
  "add_to_bucket v b = (case b of (ok, pending, failed) \<Rightarrow>
     if v = OK then (Suc ok, pending, failed)
     else if v \<in> {FAILED, UNSUPPORTED} then (ok, pending, Suc failed)
     else (ok, Suc pending, failed))"

definition add_state :: "SyncState \<Rightarrow> (string \<times> bucket) list \<Rightarrow> (string \<times> bucket) list" where
  "add_state s buckets = AList.update (ss_target s)
     (add_to_bucket (ss_state s) (case map_of buckets (ss_target s) of None \<Rightarrow> (0, 0, 0) | Some b \<Rightarrow> b)) buckets"

definition sync_buckets :: "string list \<Rightarrow> db \<Rightarrow> (string \<times> bucket) list" where
  "sync_buckets target_ids d =
    fold add_state (filter (\<lambda>s. ss_assigned s \<and> \<not> ss_retired s) (sync_states d))
      (fold (\<lambda>t. AList.update t (0, 0, 0)) target_ids [])"

record chart =
  ch_labels :: "string list"
  ch_series :: "(string \<times> nat list) list"

definition sync_health_chart :: "string list \<Rightarrow> db \<Rightarrow> chart" where
  "sync_health_chart target_ids d =
    (let buckets = sync_buckets target_ids d in
     \<lparr>ch_labels = map fst buckets,
      ch_series = [(''In sync'', map (\<lambda>(t, ok, p, f). ok) buckets), (''Pending'', map (\<lambda>(t, ok, p, f). p) buckets),
        (''Error'', map (\<lambda>(t, ok, p, f). f) buckets)]\<rparr>)"

definition operations_timeline_chart :: "Env \<Rightarrow> db \<Rightarrow> chart" where
  "operations_timeline_chart e d =
    (let ops = filter (\<lambda>x. op_created_at x \<ge> now e - 14 * day - day) (operations d);
         succeeded = map (\<lambda>x. Some (op_created_at x)) (filter (\<lambda>x. op_status x = SUCCEEDED) ops);
         failed = map (\<lambda>x. Some (op_created_at x)) (filter (\<lambda>x. failed_status (op_status x)) ops) in
     \<lparr>ch_labels = fst (bucket_by_day e succeeded 14),
      ch_series = [(''Succeeded'', snd (bucket_by_day e succeeded 14)), (''Failed'', snd (bucket_by_day e failed 14))]\<rparr>)"

definition at_most :: "nat \<Rightarrow> string" where
  "at_most n = cat [[CHR 0xE2, CHR 0x89, CHR 0xA4], show_nat n, '' days'']"

definition HORIZONS :: "nat list" where "HORIZONS = [7, 30, 60]"

definition within_horizons :: "Env \<Rightarrow> time list \<Rightarrow> nat list" where
  "within_horizons e expiries =
    map (\<lambda>days. length (filter (\<lambda>t. now e \<le> t \<and> t \<le> now e + int days * day) expiries)) HORIZONS"

definition password_expiries :: "Env \<Rightarrow> db \<Rightarrow> time list" where
  "password_expiries e d = List.map_filter
     (\<lambda>u. if u_deleted_at u \<noteq> None \<or> u_status u \<noteq> US_ACTIVE then None
          else password_expires_at (fc_password_policy (file_config e)) u) (visible_users d)"

definition expiry_horizon_chart :: "Env \<Rightarrow> db \<Rightarrow> chart" where
  "expiry_horizon_chart e d =
    \<lparr>ch_labels = map at_most HORIZONS,
     ch_series = [(''Passwords'', within_horizons e (password_expiries e d)),
       (''SSH keys'', within_horizons e (List.map_filter k_expires_at (filter (\<lambda>k. k_revoked_at k = None) (ssh_keys d)))),
       (''Service credentials'', within_horizons e
          (map sc_expires_at (filter (\<lambda>c. sc_revoked_at c = None) (service_credentials d))))]\<rparr>"

definition FIELD_LABELS :: "(string \<times> string) list" where
  "FIELD_LABELS = [(''presence'', ''Presence''), (''status'', ''Status''), (''password'', ''Password''),
     (''memberships'', ''Memberships''), (''ssh_keys'', ''SSH keys'')]"

definition field_label :: "string \<Rightarrow> string" where
  "field_label field = (case map_of FIELD_LABELS field of None \<Rightarrow> field | Some label \<Rightarrow> label)"

definition recon_slices :: "db \<Rightarrow> (string \<times> nat) list" where
  "recon_slices d = (case latest_completed_run d of
     None \<Rightarrow> []
   | Some r \<Rightarrow> sort_key fst (fold count_up (map (\<lambda>f. field_label (rf_field f))
        (filter (\<lambda>f. rf_run_id f = rr_id r \<and> rf_state f = ''drift'') (findings d))) []))"

section \<open>Charts of the second page\<close>

definition lifecycle_label :: "ManagedUser \<Rightarrow> string" where
  "lifecycle_label u =
    (if u_deleted_at u \<noteq> None then ''Deleted''
     else if u_deletion_requested_at u \<noteq> None then ''Pending delete''
     else if u_status u = US_DISABLED then ''Disabled'' else ''Active'')"

definition lifecycle_counts :: "db \<Rightarrow> (string \<times> nat) list" where
  "lifecycle_counts d = fold count_up (map lifecycle_label (visible_users d))
     [(''Active'', 0), (''Disabled'', 0), (''Pending delete'', 0), (''Deleted'', 0)]"

definition shown_slices :: "(string \<times> nat) list \<Rightarrow> (string \<times> nat) list" where
  "shown_slices counts = filter (\<lambda>(label, n). n \<noteq> 0) counts"

definition audit_timeline_chart :: "Env \<Rightarrow> db \<Rightarrow> chart" where
  "audit_timeline_chart e d =
    (let moments = map (\<lambda>a. Some (ae_at a)) (filter (\<lambda>a. ae_at a \<ge> now e - 15 * day) (audit d)) in
     \<lparr>ch_labels = fst (bucket_by_day e moments 14), ch_series = [(''Events'', snd (bucket_by_day e moments 14))]\<rparr>)"

text \<open>The percentage is \<open>round(delivered / total * 100)\<close>: a quotient and a product of floating-point numbers, each
  rounded to 53 bits, then rounded to a whole number, halves to the even one.  A positive number is a pair of a
  numerator and the exponent of its denominator, a power of two.\<close>

definition round_half_even :: "nat \<Rightarrow> nat \<Rightarrow> nat" where
  "round_half_even a b =
    (let q = a div b; r = 2 * (a mod b) in if r < b \<or> r = b \<and> even q then q else Suc q)"

fun bit_length :: "nat \<Rightarrow> nat" where
  "bit_length n = (if n = 0 then 0 else Suc (bit_length (n div 2)))"

declare bit_length.simps [simp del]

definition float_quotient :: "nat \<Rightarrow> nat \<Rightarrow> nat \<times> nat" where
  "float_quotient a b =
    (let e = 52 + bit_length b - bit_length a; e = (if a * 2 ^ e < b * 2 ^ 52 then Suc e else e)
     in (round_half_even (a * 2 ^ e) b, e))"

definition float_hundredfold :: "nat \<times> nat \<Rightarrow> nat \<times> nat" where
  "float_hundredfold x = (case x of (m, e) \<Rightarrow>
    let shift = bit_length (100 * m) - 53 in (round_half_even (100 * m) (2 ^ shift), e - shift))"

definition percentage :: "nat \<Rightarrow> nat \<Rightarrow> nat" where
  "percentage part whole = (if part = 0 then 0
     else case float_hundredfold (float_quotient part whole) of (m, e) \<Rightarrow> round_half_even m (2 ^ e))"

definition delivery_label :: "WebhookDelivery \<Rightarrow> string" where
  "delivery_label w = (case wd_status w of D_DELIVERED \<Rightarrow> ''Delivered'' | D_FAILED \<Rightarrow> ''Failed'' | _ \<Rightarrow> ''Pending'')"

definition delivery_counts :: "Env \<Rightarrow> db \<Rightarrow> (string \<times> nat) list" where
  "delivery_counts e d = fold count_up (map delivery_label (filter (\<lambda>w. wd_created_at w \<ge> now e - 30 * day) (deliveries d)))
     [(''Delivered'', 0), (''Failed'', 0), (''Pending'', 0)]"

definition webhooks_total :: "Env \<Rightarrow> db \<Rightarrow> nat" where
  "webhooks_total e d = sum_list (map snd (delivery_counts e d))"

definition success_rate :: "Env \<Rightarrow> db \<Rightarrow> nat option" where
  "success_rate e d = (if webhooks_total e d = 0 then None
     else Some (percentage (count_of ''Delivered'' (delivery_counts e d)) (webhooks_total e d)))"

definition first_open_review :: "db \<Rightarrow> AccessReview option" where
  "first_open_review d = (case sort_key ar_due_at (filter (\<lambda>r. ar_status r = ''open'') (reviews d)) of
     [] \<Rightarrow> None | r # _ \<Rightarrow> Some r)"

section \<open>Datasets as JSON\<close>

definition counts_json :: "nat list \<Rightarrow> json" where
  "counts_json ns = JArray (map nat_json ns)"

definition chart_json :: "chart \<Rightarrow> json" where
  "chart_json c = JObject [(''labels'', JArray (map JText (ch_labels c))),
     (''series'', JArray (map (\<lambda>(n, vs). JObject [(''name'', JText n), (''values'', counts_json vs)]) (ch_series c)))]"

definition slices_json :: "(string \<times> nat) list \<Rightarrow> json" where
  "slices_json xs = JArray (map (\<lambda>(label, n). JObject [(''label'', JText label), (''value'', nat_json n)]) xs)"

definition recon_findings_chart :: "Env \<Rightarrow> db \<Rightarrow> json" where
  "recon_findings_chart e d = JObject
     [(''run_completed_at'', iso e (Option.bind (latest_completed_run d) rr_completed_at)), (''slices'', slices_json (recon_slices d))]"

definition tiles_json :: "Env \<Rightarrow> string list \<Rightarrow> db \<Rightarrow> json" where
  "tiles_json e target_ids d =
    (let u = users_tile e d; t = targets_tile target_ids d; f = findings_tile d; x = operations_24h_tile e d in
     JObject
      [(''users'', JObject [(''total'', nat_json (ut_total u)), (''active'', nat_json (ut_active u)),
          (''disabled'', nat_json (ut_disabled u)), (''spark'', counts_json (ut_spark u))]),
       (''targets'', JObject [(''healthy'', nat_json (fst t)), (''total'', nat_json (snd t))]),
       (''findings'', JObject [(''open'', nat_json (ft_open f)), (''drift'', nat_json (ft_drift f)),
          (''unmanaged'', nat_json (ft_unmanaged f))]),
       (''operations_24h'', JObject [(''total'', nat_json (fst x)), (''succeeded'', nat_json (fst (snd x))),
          (''failed'', nat_json (snd (snd x)))])])"

definition eager_datasets :: "Env \<Rightarrow> string list \<Rightarrow> db \<Rightarrow> json" where
  "eager_datasets e target_ids d = JObject
     [(''tiles'', tiles_json e target_ids d), (''sync_health'', chart_json (sync_health_chart target_ids d)),
      (''operations_timeline'', chart_json (operations_timeline_chart e d)),
      (''expiry_horizon'', chart_json (expiry_horizon_chart e d)), (''recon_findings'', recon_findings_chart e d)]"

definition webhooks_chart :: "Env \<Rightarrow> db \<Rightarrow> json" where
  "webhooks_chart e d = JObject [(''total'', nat_json (webhooks_total e d)), (''success_rate'', null_or nat_json (success_rate e d)),
     (''slices'', slices_json (shown_slices (delivery_counts e d)))]"

definition access_review_chart :: "Env \<Rightarrow> db \<Rightarrow> json" where
  "access_review_chart e d = (case first_open_review d of
     None \<Rightarrow> JObject [(''open'', JBool False)]
   | Some r \<Rightarrow>
      (let items = filter (\<lambda>i. ri_review_id i = ar_id r) (review_items d);
           decided = length (filter (\<lambda>i. ri_decision i \<noteq> ''pending'') items) in
       JObject [(''open'', JBool True), (''name'', JText (ar_name r)), (''due_at'', JText (isoformat e (ar_due_at r))),
         (''decided'', nat_json decided), (''pending'', nat_json (length items - decided)), (''total'', nat_json (length items))]))"

definition insights_datasets :: "Env \<Rightarrow> db \<Rightarrow> json" where
  "insights_datasets e d = JObject
     [(''lifecycle'', JObject [(''slices'', slices_json (shown_slices (lifecycle_counts d)))]),
      (''audit_timeline'', chart_json (audit_timeline_chart e d)), (''webhooks'', webhooks_chart e d),
      (''access_review'', access_review_chart e d)]"

section \<open>Requests\<close>

definition console_guard :: "Env \<Rightarrow> Request \<Rightarrow> db \<Rightarrow> Response + Principal" where
  "console_guard e req d = (case current_user e req d of
     Some account \<Rightarrow>
       (case find (has_permission (pr_role account)) [MANAGE_USERS, MANAGE_TARGETS, VIEW_AUDIT] of
          Some p \<Rightarrow> permission_guard e req p d
        | None \<Rightarrow> Inl (Plain ''Forbidden'' 403))
   | None \<Rightarrow> permission_guard e req MANAGE_USERS d)"

definition dashboard_page :: "Env \<Rightarrow> Request \<Rightarrow> db \<Rightarrow> Response \<times> db" where
  "dashboard_page e req d = (case console_guard e req d of
     Inl resp \<Rightarrow> (resp, d)
   | Inr pr \<Rightarrow> (Shown ''dashboard.html'' [dumps (eager_datasets e (map c_target_id (get_connectors e d)) d), pr_username pr], d))"

definition dashboard_insights :: "Env \<Rightarrow> Request \<Rightarrow> db \<Rightarrow> Response \<times> db" where
  "dashboard_insights e req d = (case console_guard e req d of
     Inl resp \<Rightarrow> (resp, d)
   | Inr pr \<Rightarrow> (Json 200 (dumps (insights_datasets e d)), d))"

section \<open>Counters\<close>

lemma count_of_up: "count_of k (count_up k' c) = count_of k c + (if k = k' then 1 else 0)"
  by (simp add: count_of_def count_up_def update_conv')

lemma count_of_ups: "count_of k (fold count_up ks c) = count_of k c + length (filter (\<lambda>x. x = k) ks)"
  by (induction ks arbitrary: c) (auto simp: count_of_up)

lemma map_of_ups: "map_of (fold count_up ks c) k = None \<longleftrightarrow> map_of c k = None \<and> k \<notin> set ks"
  by (induction ks arbitrary: c) (auto simp: count_up_def update_conv')

lemma distinct_ups: "distinct (map fst c) \<Longrightarrow> distinct (map fst (fold count_up ks c))"
  by (induction ks arbitrary: c) (simp_all add: count_up_def distinct_update)

lemma keys_ups: "set ks \<subseteq> fst ` set c \<Longrightarrow> map fst (fold count_up ks c) = map fst c"
proof (induction ks arbitrary: c)
  case (Cons k ks)
  then have "map fst (count_up k c) = map fst c" by (simp add: count_up_def update_keys)
  moreover from this have "fst ` set (count_up k c) = fst ` set c" by (metis set_map)
  ultimately show ?case using Cons by simp
qed simp

lemma sum_counts_up:
  "distinct (map fst c) \<Longrightarrow> sum_list (map snd (count_up k c)) = Suc (sum_list (map snd c))"
proof (induction c)
  case (Cons p c)
  show ?case
  proof (cases "fst p = k")
    case True
    then show ?thesis by (simp add: count_up_def count_of_def)
  next
    case False
    then have "count_of k (p # c) = count_of k c" by (simp add: count_of_def)
    then show ?thesis using Cons False by (simp add: count_up_def)
  qed
qed (simp add: count_up_def count_of_def)

lemma sum_counts_ups:
  "distinct (map fst c) \<Longrightarrow> sum_list (map snd (fold count_up ks c)) = sum_list (map snd c) + length ks"
proof (induction ks arbitrary: c)
  case (Cons k ks)
  have "distinct (map fst (count_up k c))" using Cons.prems by (simp add: count_up_def distinct_update)
  then show ?case using Cons sum_counts_up [OF Cons.prems, of k] by simp
qed simp

lemma count_moment_step:
  "map_of (count_moment m c) l = None \<longleftrightarrow> map_of c l = None"
  "count_of l (count_moment m c) = count_of l c +
    (if map_of c l \<noteq> None \<and> map_option (\<lambda>t. t div day) m = Some l then 1 else 0)"
proof -
  show "map_of (count_moment m c) l = None \<longleftrightarrow> map_of c l = None"
    by (auto simp: count_moment_def count_up_def update_conv' split: option.split)
  show "count_of l (count_moment m c) = count_of l c +
    (if map_of c l \<noteq> None \<and> map_option (\<lambda>t. t div day) m = Some l then 1 else 0)"
    by (auto simp: count_moment_def count_of_up split: option.split)
qed

lemma count_moments:
  "count_of l (fold count_moment ms c) = count_of l c +
    (if map_of c l = None then 0 else length (filter (\<lambda>m. map_option (\<lambda>t. t div day) m = Some l) ms))"
proof (induction ms arbitrary: c)
  case (Cons m ms)
  show ?case using Cons [of "count_moment m c"] count_moment_step [where m = m and c = c and l = l] by auto
qed simp

lemma zero_counts: "count_of k (fold (\<lambda>l. AList.update l 0) ls c) = (if k \<in> set ls then 0 else count_of k c)"
  "map_of (fold (\<lambda>l. AList.update l 0) ls c) k = None \<longleftrightarrow> k \<notin> set ls \<and> map_of c k = None"
  by (induction ls arbitrary: c) (auto simp: count_of_def update_conv')

lemma bucket_by_day_counts:
  "snd (bucket_by_day e ms n) = map (\<lambda>l. length (filter (\<lambda>m. map_option (\<lambda>t. t div day) m = Some l) ms)) (day_labels e n)"
  by (auto simp: bucket_by_day_def Let_def count_moments zero_counts)

lemma day_label_recent: "l \<in> set (day_labels e n) \<Longrightarrow> t div day = l \<Longrightarrow> t \<ge> now e - int n * day"
proof -
  assume "l \<in> set (day_labels e n)" "t div day = l"
  then obtain k where k: "k < n" "t div day = now e div day - int k" by (auto simp: day_labels_def)
  have pos: "day > 0" by (simp add: day_def second_def)
  have "now e < (now e div day + 1) * day" "t \<ge> (t div day) * day"
    using pos by (metis add.commute distrib_left less_add_same_cancel1 mult.commute mult_1 pos_mod_bound div_mult_mod_eq add_less_cancel_left distrib_right,
      metis div_mult_mod_eq le_add_same_cancel1 pos_mod_sign)
  moreover have "(t div day) * day \<ge> (now e div day + 1) * day - int n * day"
  proof -
    have "now e div day + 1 - int n \<le> t div day" using k by simp
    then have "(now e div day + 1 - int n) * day \<le> (t div day) * day" using pos by (intro mult_right_mono) simp_all
    then show ?thesis by (simp add: algebra_simps)
  qed
  ultimately show ?thesis by linarith
qed

section \<open>Properties\<close>

text \<open>The timelines miss nothing.  The filter of each query is wide enough for its days: at every day of the chart of
  operations stands the number of all operations of that day that succeeded and that failed, and at every day of the
  chart of the audit trail the number of all its events.\<close>

theorem timelines_miss_nothing:
  "ch_series (operations_timeline_chart e d) =
     [(''Succeeded'', map (\<lambda>l. length (filter (\<lambda>x. op_status x = SUCCEEDED \<and> op_created_at x div day = l) (operations d))) (day_labels e 14)),
      (''Failed'', map (\<lambda>l. length (filter (\<lambda>x. failed_status (op_status x) \<and> op_created_at x div day = l) (operations d))) (day_labels e 14))] \<and>
   ch_series (audit_timeline_chart e d) =
     [(''Events'', map (\<lambda>l. length (filter (\<lambda>a. ae_at a div day = l) (audit d))) (day_labels e 14))]"
proof -
  have pos: "day > 0" by (simp add: day_def second_def)
  have recent: "t \<ge> now e - 14 * day - day" "t \<ge> now e - 15 * day" if "l \<in> set (day_labels e 14)" "t div day = l" for l t
    using day_label_recent [OF that] pos by simp_all
  have "length (filter (\<lambda>m. map_option (\<lambda>t. t div day) m = Some l)
      (map (\<lambda>x. Some (op_created_at x)) (filter P (filter (\<lambda>x. op_created_at x \<ge> now e - 14 * day - day) (operations d))))) =
    length (filter (\<lambda>x. P x \<and> op_created_at x div day = l) (operations d))" if "l \<in> set (day_labels e 14)" for l P
    using recent(1) [OF that] by (auto simp: filter_map comp_def intro!: arg_cong [where f = length] filter_cong)
  moreover have "length (filter (\<lambda>m. map_option (\<lambda>t. t div day) m = Some l)
      (map (\<lambda>a. Some (ae_at a)) (filter (\<lambda>a. ae_at a \<ge> now e - 15 * day) (audit d)))) =
    length (filter (\<lambda>a. ae_at a div day = l) (audit d))" if "l \<in> set (day_labels e 14)" for l
    using recent(2) [OF that] by (auto simp: filter_map comp_def intro!: arg_cong [where f = length] filter_cong)
  ultimately show ?thesis
    by (simp add: operations_timeline_chart_def audit_timeline_chart_def Let_def bucket_by_day_counts)
qed

definition states_at :: "string \<Rightarrow> (SyncStateValue \<Rightarrow> bool) \<Rightarrow> SyncState list \<Rightarrow> nat" where
  "states_at t P ss = length (filter (\<lambda>s. ss_target s = t \<and> P (ss_state s)) ss)"

definition bucket_at :: "string \<Rightarrow> SyncState list \<Rightarrow> bucket" where
  "bucket_at t ss = (states_at t (\<lambda>v. v = OK) ss, states_at t (\<lambda>v. v \<notin> {OK, FAILED, UNSUPPORTED}) ss,
     states_at t (\<lambda>v. v \<in> {FAILED, UNSUPPORTED}) ss)"

definition bucket_sum :: "bucket \<Rightarrow> bucket \<Rightarrow> bucket" where
  "bucket_sum b c = (case (b, c) of ((x, y, z), (u, v, w)) \<Rightarrow> (x + u, y + v, z + w))"

lemma add_state_at:
  "map_of (add_state s bs) t = (if t = ss_target s then Some (bucket_sum
     (case map_of bs t of None \<Rightarrow> (0, 0, 0) | Some b \<Rightarrow> b) (bucket_at t [s])) else map_of bs t)"
  by (auto simp: add_state_def update_conv' add_to_bucket_def bucket_sum_def bucket_at_def states_at_def split: prod.splits option.splits)

lemma add_states_at:
  "map_of (fold add_state ss bs) t = (if t \<in> ss_target ` set ss \<or> map_of bs t \<noteq> None
     then Some (bucket_sum (case map_of bs t of None \<Rightarrow> (0, 0, 0) | Some b \<Rightarrow> b) (bucket_at t ss)) else None)"
proof (induction ss arbitrary: bs)
  case Nil
  then show ?case by (auto simp: bucket_sum_def bucket_at_def states_at_def split: option.split prod.split)
next
  case (Cons s ss)
  have cons: "bucket_sum (bucket_sum b (bucket_at t [s])) (bucket_at t ss) = bucket_sum b (bucket_at t (s # ss))" for b
    by (auto simp: bucket_sum_def bucket_at_def states_at_def split: prod.split)
  show ?case
  proof (cases "t = ss_target s")
    case True
    then show ?thesis using Cons [of "add_state s bs"] cons by (simp add: add_state_at)
  next
    case False
    then have "bucket_at t ss = bucket_at t (s # ss)" by (simp add: bucket_at_def states_at_def)
    then show ?thesis using Cons [of "add_state s bs"] False by (simp add: add_state_at)
  qed
qed

lemma empty_buckets: "map_of (fold (\<lambda>t. AList.update t (0, 0, 0)) ts bs) t =
    (if t \<in> set ts then Some (0, 0, 0) else map_of bs t)"
  by (induction ts arbitrary: bs) (auto simp: update_conv')

text \<open>C40: The chart of the target states is exact.  A target has a bucket exactly when it has a connector or an assigned state,
  and the bucket holds the numbers of its assigned states that are in sync, that wait, and that failed; so the numbers of
  the chart add up to the number of all assigned states.\<close>

theorem sync_health_is_exact:
  "map_of (sync_buckets target_ids d) t =
    (let ss = filter (\<lambda>s. ss_assigned s \<and> \<not> ss_retired s) (sync_states d) in
     if t \<in> set target_ids \<or> t \<in> ss_target ` set ss then Some (bucket_at t ss) else None)"
proof -
  have "bucket_sum (0, 0, 0) b = b" for b by (simp add: bucket_sum_def split: prod.split)
  then show ?thesis by (auto simp: sync_buckets_def Let_def add_states_at empty_buckets)
qed

text \<open>The states of the accounts partition them: the slices of the chart add up to the number of visible accounts and each is the
  number of the accounts it names.\<close>

theorem lifecycle_slices_partition:
  "sum_list (map snd (shown_slices (lifecycle_counts d))) = length (visible_users d) \<and>
   (\<forall>(label, n) \<in> set (shown_slices (lifecycle_counts d)).
      n = length (filter (\<lambda>u. lifecycle_label u = label) (visible_users d)) \<and> n > 0)"
proof -
  let ?c = "[(''Active'', 0), (''Disabled'', 0), (''Pending delete'', 0), (''Deleted'', 0 :: nat)]"
  let ?ks = "map lifecycle_label (visible_users d)"
  have shown: "sum_list (map snd (shown_slices xs)) = sum_list (map snd xs)" for xs
    by (induction xs) (auto simp: shown_slices_def)
  have dist: "distinct (map fst (fold count_up ?ks ?c))" by (rule distinct_ups) simp
  have "n = length (filter (\<lambda>u. lifecycle_label u = label) (visible_users d))"
    if "(label, n) \<in> set (fold count_up ?ks ?c)" for label n
  proof -
    have "map_of (fold count_up ?ks ?c) label = Some n" using that dist by (simp add: map_of_eq_Some_iff)
    then have "n = count_of label (fold count_up ?ks ?c)" by (simp add: count_of_def)
    then show ?thesis by (simp add: count_of_ups filter_map comp_def) (simp add: count_of_def)
  qed
  moreover have "sum_list (map snd (fold count_up ?ks ?c)) = length (visible_users d)"
    by (subst sum_counts_ups) simp_all
  ultimately show ?thesis unfolding shown lifecycle_counts_def by (auto simp: shown_slices_def)
qed

text \<open>The chart of the expiries is nested: what expires within a horizon expires within every wider one.\<close>

lemma horizons_nested: "sorted (within_horizons e ts)"
proof -
  have "length (filter (\<lambda>t. now e \<le> t \<and> t \<le> now e + int a * day) ts) \<le> length (filter (\<lambda>t. now e \<le> t \<and> t \<le> now e + int b * day) ts)"
    if "a \<le> b" for a b
  proof -
    have "int a * day \<le> int b * day" using that by (simp add: day_def second_def)
    then show ?thesis by (induction ts) auto
  qed
  from this [of 7 30] this [of 7 60] this [of 30 60] show ?thesis by (simp add: within_horizons_def HORIZONS_def)
qed

text \<open>What a report writes into the runs and their findings.\<close>

definition completed_runs :: "db \<Rightarrow> ReconciliationRun list" where
  "completed_runs d = filter (\<lambda>r. rr_completed_at r \<noteq> None) (runs d)"

definition findings_beside :: "uuid \<Rightarrow> db \<Rightarrow> ReconciliationFinding list" where
  "findings_beside i d = filter (\<lambda>f. rf_run_id f \<noteq> i) (findings d)"

definition uncompleted :: "uuid \<Rightarrow> db \<Rightarrow> bool" where
  "uncompleted i d \<longleftrightarrow> (\<forall>r \<in> set (runs d). rr_id r = i \<longrightarrow> rr_completed_at r = None)"

lemma report_tables:
  "runs d' = runs d \<Longrightarrow> completed_runs d' = completed_runs d" "runs d' = runs d \<Longrightarrow> uncompleted i d' = uncompleted i d"
  "findings d' = findings d \<Longrightarrow> findings_beside i d' = findings_beside i d"
  by (simp_all add: completed_runs_def uncompleted_def findings_beside_def)

lemma run_tables:
  "runs (record_audit e a ac s det opid d) = runs d" "findings (record_audit e a ac s det opid d) = findings d"
  "findings (upd_run i f d) = findings d"
  by (simp_all add: record_audit_def upd_run_def)

lemma upd_run_uncompleted:
  assumes "uncompleted i d" "\<And>r. rr_completed_at (f r) = rr_completed_at r"
  shows "completed_runs (upd_run i f d) = completed_runs d" "uncompleted i (upd_run i f d)"
proof -
  have "filter (\<lambda>r. rr_completed_at r \<noteq> None) (rows_upd rr_id i f rs) = filter (\<lambda>r. rr_completed_at r \<noteq> None) rs"
    if "\<forall>r \<in> set rs. rr_id r = i \<longrightarrow> rr_completed_at r = None" for rs
    using that assms(2) by (induction rs) (auto simp: rows_upd_def)
  then show "completed_runs (upd_run i f d) = completed_runs d"
    using assms(1) by (simp add: upd_run_def uncompleted_def completed_runs_def)
  show "uncompleted i (upd_run i f d)"
    using assms by (auto simp: upd_run_def uncompleted_def rows_upd_def)
qed

lemma discovered_completed: "rr_completed_at (discovered e reports r) = rr_completed_at r"
  by (simp add: discovered_def Let_def)

lemma findings_beside_added: "findings_beside i (fold (add_finding i) xs d) = findings_beside i d"
  by (induction xs arbitrary: d) (auto simp: findings_beside_def add_finding_def finding_of_def split: prod.splits)

lemma store_preview_uncompleted:
  assumes "uncompleted i d"
  shows "completed_runs (store_preview e i reports d) = completed_runs d"
    "findings_beside i (store_preview e i reports d) = findings_beside i d"
proof -
  let ?d = "fold (add_finding i) (comparisons reports) d"
  have d: "uncompleted i ?d" "completed_runs ?d = completed_runs d"
    using assms report_tables [of ?d d] by simp_all
  have "completed_runs (store_preview e i reports d) =
      (case get_run i d of None \<Rightarrow> completed_runs d | Some r \<Rightarrow> completed_runs (upd_run i (discovered e reports) ?d))"
    by (auto simp: store_preview_def intro!: report_tables run_tables split: option.split)
  then show "completed_runs (store_preview e i reports d) = completed_runs d"
    using upd_run_uncompleted(1) [OF d(1) discovered_completed] d(2) by (simp split: option.splits)
  have "findings_beside i (store_preview e i reports d) =
      (case get_run i d of None \<Rightarrow> findings_beside i d | Some r \<Rightarrow> findings_beside i ?d)"
    by (auto simp: store_preview_def run_tables intro!: report_tables split: option.split)
  then show "findings_beside i (store_preview e i reports d) = findings_beside i d"
    by (simp add: findings_beside_added split: option.splits)
qed

lemma refresh_uncompleted:
  assumes "uncompleted i d"
  shows "completed_runs (snd (refresh_reconciliation e order i d)) = completed_runs d \<and>
    findings_beside i (snd (refresh_reconciliation e order i d)) = findings_beside i d"
proof (cases "get_run i d")
  case (Some run)
  let ?u = "upd_run i (\<lambda>r. r\<lparr>rr_status := ''discovering'', rr_attempt_count := Suc (rr_attempt_count r)\<rparr>) d"
  let ?d1 = "begin_discovery i d"
  have "runs ?d1 = runs ?u" by (simp add: begin_discovery_def)
  then have runs1: "completed_runs ?d1 = completed_runs d" "uncompleted i ?d1"
    using upd_run_uncompleted [OF assms, of "\<lambda>r. r\<lparr>rr_status := ''discovering'', rr_attempt_count := Suc (rr_attempt_count r)\<rparr>"]
      report_tables [of ?d1 ?u] by simp_all
  have findings1: "findings_beside i ?d1 = findings_beside i d"
    by (simp add: begin_discovery_def findings_beside_def)
  show ?thesis
  proof (cases "assigned_pairs e run ?d1")
    case (Inl err)
    let ?g = "\<lambda>r. r\<lparr>rr_status := ''failed'', rr_detail := err, rr_next_attempt_at := None\<rparr>"
    have "snd (refresh_reconciliation e order i d) = upd_run i ?g ?d1"
      using Inl Some by (simp add: refresh_reconciliation_def Let_def)
    then show ?thesis
      using upd_run_uncompleted(1) [OF runs1(2), of ?g] runs1 findings1 report_tables(3) [OF run_tables(3)] by simp
  next
    case (Inr ps)
    let ?d2 = "?d1\<lparr>tick := tick ?d1 + length ps\<rparr>"
    have "snd (refresh_reconciliation e order i d) = store_preview e i (order (inspect_all e ps ?d1)) ?d2"
      using Inr Some by (simp add: refresh_reconciliation_def Let_def)
    moreover have "uncompleted i ?d2" "completed_runs ?d2 = completed_runs ?d1" "findings_beside i ?d2 = findings_beside i ?d1"
      using runs1(2) by (simp_all add: uncompleted_def completed_runs_def findings_beside_def)
    ultimately show ?thesis using store_preview_uncompleted [of i ?d2] runs1 findings1 by simp
  qed
qed (simp add: refresh_reconciliation_def)

lemma latest_completed_mem:
  assumes "latest_completed_run d = Some r"
  shows "r \<in> set (runs d) \<and> rr_completed_at r \<noteq> None"
proof -
  let ?rs = "filter (\<lambda>r. rr_completed_at r \<noteq> None) (runs d)"
  obtain rs where "sort_key (\<lambda>r. - the (rr_completed_at r)) ?rs = r # rs"
    using assms by (auto simp: latest_completed_run_def split: list.splits)
  then have "r \<in> set ?rs" by (metis list.set_intros(1) set_sort)
  then show ?thesis by simp
qed

lemma filter_beside:
  assumes "findings_beside i d' = findings_beside i d" "j \<noteq> i"
  shows "filter (\<lambda>f. rf_run_id f = j \<and> P f) (findings d') = filter (\<lambda>f. rf_run_id f = j \<and> P f) (findings d)"
proof -
  have "filter (\<lambda>f. rf_run_id f = j \<and> P f) hs = filter (\<lambda>f. rf_run_id f = j \<and> P f) (filter (\<lambda>f. rf_run_id f \<noteq> i) hs)" for hs
    using assms(2) by (induction hs) auto
  then show ?thesis using assms(1) unfolding findings_beside_def by metis
qed

lemma dashboard_reads:
  assumes "latest_completed_run d' = latest_completed_run d" "unmanaged d' = unmanaged d"
    and "\<And>r P. latest_completed_run d = Some r \<Longrightarrow>
      filter (\<lambda>f. rf_run_id f = rr_id r \<and> P f) (findings d') = filter (\<lambda>f. rf_run_id f = rr_id r \<and> P f) (findings d)"
  shows "findings_tile d' = findings_tile d \<and> recon_findings_chart e d' = recon_findings_chart e d"
proof (cases "latest_completed_run d")
  case None
  then show ?thesis by (simp add: findings_tile_def recon_findings_chart_def recon_slices_def assms(1,2))
next
  case (Some r)
  show ?thesis
    using assms(3) [OF Some, of "\<lambda>f. rf_state f = ''drift''"]
      assms(3) [OF Some, of "\<lambda>f. rf_state f = ''drift'' \<and> rf_repair_status f \<notin> {''succeeded'', ''repaired''}"]
    unfolding findings_tile_def recon_findings_chart_def recon_slices_def open_drift_def assms(1,2) Some
    by simp
qed

lemma dashboard_of_report:
  assumes "uncompleted i d"
  shows "findings_tile (snd (refresh_reconciliation e order i d)) = findings_tile d \<and>
    recon_findings_chart e2 (snd (refresh_reconciliation e order i d)) = recon_findings_chart e2 d"
proof (rule dashboard_reads)
  let ?d = "snd (refresh_reconciliation e order i d)"
  show "latest_completed_run ?d = latest_completed_run d"
    using conjunct1 [OF refresh_uncompleted [OF assms]] unfolding latest_completed_run_def completed_runs_def by metis
  have "unmanaged ?d = unmanaged (not_previewed ?d)" "unmanaged (not_previewed d) = unmanaged d"
    by (simp_all add: not_previewed_def)
  then show "unmanaged ?d = unmanaged d" by (simp add: not_previewed_refresh)
  fix r and P :: "ReconciliationFinding \<Rightarrow> bool" assume r: "latest_completed_run d = Some r"
  then have "rr_id r \<noteq> i" using latest_completed_mem [OF r] assms by (auto simp: uncompleted_def)
  then show "filter (\<lambda>f. rf_run_id f = rr_id r \<and> P f) (findings ?d) = filter (\<lambda>f. rf_run_id f = rr_id r \<and> P f) (findings d)"
    by (rule filter_beside [OF conjunct2 [OF refresh_uncompleted [OF assms]]])
qed

text \<open>C39: The dashboard does not show what a report finds.  Making a report of the directory leaves both numbers of its tile and the
  slices of its chart as they were, however many accounts it finds drifted: they are counted from the latest
  completed run, and a report completes only when it was approved and repaired.\<close>

theorem reports_do_not_reach_the_dashboard:
  assumes "\<forall>r \<in> set (runs d). rr_id r < tick d"
  shows "findings_tile (snd (create_reconciliation_preview e order actor source user_id target_id d)) = findings_tile d \<and>
    recon_findings_chart e2 (snd (create_reconciliation_preview e order actor source user_id target_id d)) =
      recon_findings_chart e2 d"
proof -
  let ?d = "d\<lparr>tick := tick d + 2, runs := runs d @ [new_run e actor source user_id target_id d]\<rparr>"
  have new: "rr_completed_at (new_run e actor source user_id target_id d) = None" by (simp add: new_run_def)
  have "uncompleted (tick d) ?d"
    using assms new by (auto simp: uncompleted_def)
  moreover have "findings_tile ?d = findings_tile d \<and> recon_findings_chart e2 ?d = recon_findings_chart e2 d"
    by (rule dashboard_reads) (simp_all add: latest_completed_run_def new)
  ultimately show ?thesis
    using dashboard_of_report unfolding create_reconciliation_preview_def by metis
qed

lemma console_guard_Inl:
  "console_guard e req d = Inl resp \<Longrightarrow> resp \<noteq> Json n body"
  by (auto simp: console_guard_def permission_guard_def split: option.splits if_splits)

lemma console_guard_Inr:
  assumes "console_guard e req d = Inr pr"
  obtains p where "p \<in> {MANAGE_USERS, MANAGE_TARGETS, VIEW_AUDIT}" "permission_guard e req p d = Inr pr"
  using assms by (auto simp: console_guard_def split: option.splits if_splits)

text \<open>Only a console account sees the dashboard.  A request that gets its data belongs to an active account that is signed in, has
  a permission of the console and has passed a second factor wherever one is required of it; the request changes nothing.\<close>

theorem dashboard_is_guarded:
  assumes "dashboard_insights e req d = (Json 200 body, d')"
  shows "d' = d \<and> (\<exists>pr u. current_user e req d = Some pr \<and> get_user (pr_id pr) d = Some u \<and> u_status u = US_ACTIVE \<and>
    operator (u_role u) \<and> (mf_required (mfa_policy e) \<or> account_has_mfa (u_id u) d \<longrightarrow> pr_mfa_verified pr))"
proof -
  obtain pr where pr: "console_guard e req d = Inr pr" and d': "d' = d"
    using assms by (auto simp: dashboard_insights_def dest: console_guard_Inl split: sum.splits)
  obtain p where p: "p \<in> {MANAGE_USERS, MANAGE_TARGETS, VIEW_AUDIT}" "permission_guard e req p d = Inr pr"
    using console_guard_Inr [OF pr] .
  note g = permission_guard_InrD [OF p(2)]
  obtain ck u where u: "get_user (ck_id ck) d = Some u" "u_status u = US_ACTIVE" "pr = principal_of u ck"
    using current_user_SomeD [OF g(1)] by metis
  have "u_id u = ck_id ck" using u(1) by (simp add: get_user_def rows_get_def find_Some_iff) metis
  moreover have "operator (u_role u)"
    using g(2) p(1) u(3) by (auto simp: has_permission_iff operator_def principal_of_def permission_context_def Let_def)
  ultimately show ?thesis using d' g u by (auto simp: principal_of_def account_requires_mfa_def)
qed

section \<open>Witnesses\<close>

theorem reports_do_not_reach_the_dashboard_witness:
  "findings_tile (snd (create_reconciliation_preview sample_env (\<lambda>xs. xs) ''ada'' ''manual'' None None
     (drifted_db ''drift''\<lparr>tick := 9\<rparr>))) = findings_tile (drifted_db ''drift''\<lparr>tick := 9\<rparr>)"
  by (rule conjunct1 [OF reports_do_not_reach_the_dashboard [where ?e2.0 = sample_env]])
    (simp add: drifted_db_def drifted_run_def new_run_def sample_db_def empty_db_def)

theorem dashboard_is_guarded_witness:
  "\<exists>body. dashboard_insights sample_env (sample_request True) (users_db managed_user []) = (Json 200 body, users_db managed_user []) \<and>
     (\<exists>pr u. current_user sample_env (sample_request True) (users_db managed_user []) = Some pr \<and>
        get_user (pr_id pr) (users_db managed_user []) = Some u \<and> operator (u_role u))"
proof -
  let ?d = "users_db managed_user []"
  have u: "get_user 1 ?d = Some mfa_operator" by (rule users_db_user(1)) (simp add: managed_user_def)
  have "has_permission (pr_role operator_principal) MANAGE_USERS"
    by (simp add: operator_principal_def principal_of_def mfa_operator_def has_permission_iff)
  then have "console_guard sample_env (sample_request True) ?d = Inr operator_principal"
    by (simp add: console_guard_def users_db_session [OF u])
  then obtain body where run: "dashboard_insights sample_env (sample_request True) ?d = (Json 200 body, ?d)"
    by (simp add: dashboard_insights_def)
  from dashboard_is_guarded [OF run] run show ?thesis by blast
qed

text \<open>The percentage is that of floating-point arithmetic: 23 of 40 are 57.5 percent, and 57 percent are shown.\<close>

lemma bit_length_numerals:
  "bit_length (numeral (Num.Bit0 n)) = Suc (bit_length (numeral n))"
  "bit_length (numeral (Num.Bit1 n)) = Suc (bit_length (numeral n))"
  "bit_length 1 = 1"
  using bit_length.simps [of "numeral (Num.Bit0 n)"] bit_length.simps [of "numeral (Num.Bit1 n)"]
    bit_length.simps [of 1] bit_length.simps [of 0]
  by simp_all

lemma percentage_is_floating: "percentage 23 40 = 57" "round_half_even (100 * 23) 40 = 58"
proof -
  have q: "float_quotient 23 40 = (5179139571476070, 53)"
    unfolding float_quotient_def by (simp add: bit_length_numerals bit_length_numerals(3) [unfolded One_nat_def] round_half_even_def)
  have h: "float_hundredfold (5179139571476070, 53) = (8092405580431359, 47)"
    unfolding float_hundredfold_def by (simp add: bit_length_numerals bit_length_numerals(3) [unfolded One_nat_def] round_half_even_def)
  show "percentage 23 40 = 57" by (simp add: percentage_def q h round_half_even_def)
  show "round_half_even (100 * 23) 40 = 58" by (simp add: round_half_even_def)
qed

text \<open>The calendar: the algorithm inverts \<open>days_from_civil\<close> on sample days at the ends of years and months.\<close>

lemma month_day_samples:
  "month_day (days_from_civil 2024 2 29) = ''Feb 29''" "month_day (days_from_civil 2025 12 31) = ''Dec 31''"
  "month_day (days_from_civil 2026 1 1) = ''Jan 01''" "month_day 0 = ''Jan 01''"
  by code_simp+

end
