(* ===== verification/Remote.thy ===== *)
theory Remote
  imports Main
begin

text \<open>
  Programs that talk to a system outside the repository.  A connector sends a request, waits for
  the answer, and goes on with it; what the target does in between is not code of the repository.
  Such a method is a value of the type \<open>remote\<close>: it ends with a result, ends with an exception, or asks and
  continues with whatever is answered.  A statement about it quantifies over the answers, so it holds for
  every target.  \<open>performs\<close> relates a program to the exchanges of one run and to its outcome; \<open>wp\<close> computes
  what has to hold of the answers for an outcome to satisfy a condition; \<open>execute\<close> plays a program
  against a target given as a transition function.
\<close>

section \<open>Programs\<close>

datatype ('q, 'x, 'e, 'a) remote =
    Result 'a
  | Raise 'e
  | Call 'q "'x \<Rightarrow> ('q, 'x, 'e, 'a) remote"

primrec bindR :: "('q, 'x, 'e, 'a) remote \<Rightarrow> ('a \<Rightarrow> ('q, 'x, 'e, 'b) remote) \<Rightarrow> ('q, 'x, 'e, 'b) remote" where
  "bindR (Result a) f = f a"
| "bindR (Raise e) f = Raise e"
| "bindR (Call q k) f = Call q (\<lambda>x. bindR (k x) f)"

text \<open>\<open>try\<close> with a handler that computes a result from the exceptions it names.\<close>

primrec catchR :: "('q, 'x, 'e, 'a) remote \<Rightarrow> ('e \<Rightarrow> 'a option) \<Rightarrow> ('q, 'x, 'e, 'a) remote" where
  "catchR (Result a) h = Result a"
| "catchR (Raise e) h = (case h e of None \<Rightarrow> Raise e | Some a \<Rightarrow> Result a)"
| "catchR (Call q k) h = Call q (\<lambda>x. catchR (k x) h)"

text \<open>A computation without exchanges, which may raise.\<close>

definition pureR :: "'e + 'a \<Rightarrow> ('q, 'x, 'e, 'a) remote" where
  "pureR r = (case r of Inl e \<Rightarrow> Raise e | Inr a \<Rightarrow> Result a)"

primrec forR :: "('i \<Rightarrow> ('q, 'x, 'e, 'a option) remote) \<Rightarrow> 'i list \<Rightarrow> ('q, 'x, 'e, 'a option) remote" where
  "forR f [] = Result None"
| "forR f (i # is) = bindR (f i) (\<lambda>r. case r of None \<Rightarrow> forR f is | Some a \<Rightarrow> Result (Some a))"

lemma bindR_assoc: "bindR (bindR m f) g = bindR m (\<lambda>a. bindR (f a) g)"
  by (induction m) simp_all

lemma bindR_Result [simp]: "bindR m Result = m"
  by (induction m) simp_all

lemma pureR_simps [simp]: "pureR (Inl e) = Raise e" "pureR (Inr a) = Result a"
  by (simp_all add: pureR_def)

section \<open>Runs\<close>

text \<open>The exchanges of a run are the requests with the answers they got, in order.\<close>

primrec performs :: "('q, 'x, 'e, 'a) remote \<Rightarrow> ('q \<times> 'x) list \<Rightarrow> 'e + 'a \<Rightarrow> bool" where
  "performs (Result a) tr r \<longleftrightarrow> tr = [] \<and> r = Inr a"
| "performs (Raise e) tr r \<longleftrightarrow> tr = [] \<and> r = Inl e"
| "performs (Call q k) tr r \<longleftrightarrow> (case tr of [] \<Rightarrow> False | (p, x) # ts \<Rightarrow> p = q \<and> performs (k x) ts r)"

lemma performs_Call: "performs (Call q k) tr r \<longleftrightarrow> (\<exists>x ts. tr = (q, x) # ts \<and> performs (k x) ts r)"
  by (auto split: list.splits)

lemma performs_bindR:
  "performs (bindR m f) tr r \<longleftrightarrow>
     (\<exists>a t1 t2. tr = t1 @ t2 \<and> performs m t1 (Inr a) \<and> performs (f a) t2 r) \<or>
     (\<exists>e. performs m tr (Inl e) \<and> r = Inl e)"
proof (induction m arbitrary: tr)
  case (Call q k)
  show ?case
  proof (cases tr)
    case (Cons p ts)
    obtain p1 x where p: "p = (p1, x)" by (cases p)
    have rhs: "(\<exists>a t1 t2. tr = t1 @ t2 \<and> performs (Call q k) t1 (Inr a) \<and> performs (f a) t2 r) \<longleftrightarrow>
        (p1 = q \<and> (\<exists>a t1 t2. ts = t1 @ t2 \<and> performs (k x) t1 (Inr a) \<and> performs (f a) t2 r))" (is "?L \<longleftrightarrow> ?R")
    proof
      assume ?L
      then obtain a t1 t2 where t: "tr = t1 @ t2" "performs (Call q k) t1 (Inr a)" "performs (f a) t2 r" by blast
      then obtain y us where "t1 = (q, y) # us" "performs (k y) us (Inr a)"
        unfolding performs_Call by blast
      then show ?R using t Cons p by auto
    next
      assume ?R
      then obtain a t1 t2 where t: "p1 = q" "ts = t1 @ t2" "performs (k x) t1 (Inr a)" "performs (f a) t2 r" by blast
      then have "tr = ((q, x) # t1) @ t2" "performs (Call q k) ((q, x) # t1) (Inr a)"
        using Cons p by simp_all
      then show ?L using t(4) by blast
    qed
    show ?thesis unfolding rhs using Cons p Call.IH [OF rangeI [of k x], of ts] by auto
  qed simp
qed auto

lemma performs_catchR:
  "performs (catchR m h) tr r \<longleftrightarrow>
     (\<exists>a. r = Inr a \<and> (performs m tr (Inr a) \<or> (\<exists>e. performs m tr (Inl e) \<and> h e = Some a))) \<or>
     (\<exists>e. r = Inl e \<and> performs m tr (Inl e) \<and> h e = None)"
proof (induction m arbitrary: tr)
  case (Raise e)
  then show ?case by (cases "h e") auto
next
  case (Call q k)
  then show ?case by (cases tr) (auto split: prod.splits)
qed auto

text \<open>A target is a transition function: its state and a request give its next state and the answer.\<close>

primrec execute :: "('s \<Rightarrow> 'q \<Rightarrow> 's \<times> 'x) \<Rightarrow> ('q, 'x, 'e, 'a) remote \<Rightarrow> 's \<Rightarrow> 's \<times> ('q \<times> 'x) list \<times> ('e + 'a)" where
  "execute srv (Result a) s = (s, [], Inr a)"
| "execute srv (Raise e) s = (s, [], Inl e)"
| "execute srv (Call q k) s =
     (case srv s q of (s1, x) \<Rightarrow> (case execute srv (k x) s1 of (s2, tr, r) \<Rightarrow> (s2, (q, x) # tr, r)))"

lemma execute_performs: "execute srv m s = (s', tr, r) \<Longrightarrow> performs m tr r"
  by (induction m arbitrary: s s' tr r) (auto split: prod.splits)

lemma execute_result:
  assumes "snd (snd (execute srv m s)) = r"
  obtains tr where "performs m tr r"
  using assms execute_performs by (metis prod.collapse)

lemma execute_bindR:
  "execute srv (bindR m f) s =
    (case execute srv m s of (s1, t1, r1) \<Rightarrow>
       (case r1 of Inl e \<Rightarrow> (s1, t1, Inl e)
        | Inr a \<Rightarrow> (case execute srv (f a) s1 of (s2, t2, r2) \<Rightarrow> (s2, t1 @ t2, r2))))"
  by (induction m arbitrary: s) (auto split: prod.splits sum.splits)

lemma execute_catchR:
  "execute srv (catchR m h) s =
    (case execute srv m s of (s1, t1, r1) \<Rightarrow>
       (s1, t1, case r1 of Inr a \<Rightarrow> Inr a | Inl e \<Rightarrow> (case h e of None \<Rightarrow> Inl e | Some a \<Rightarrow> Inr a)))"
  by (induction m arbitrary: s) (auto split: prod.splits sum.splits option.splits)

section \<open>Weakest preconditions\<close>

named_theorems wp_rules \<open>weakest preconditions of programs\<close>

primrec wp :: "('q, 'x, 'e, 'a) remote \<Rightarrow> (('q \<times> 'x) list \<Rightarrow> 'e + 'a \<Rightarrow> bool) \<Rightarrow> bool" where
  "wp (Result a) R \<longleftrightarrow> R [] (Inr a)"
| "wp (Raise e) R \<longleftrightarrow> R [] (Inl e)"
| "wp (Call q k) R \<longleftrightarrow> (\<forall>x. wp (k x) (\<lambda>t. R ((q, x) # t)))"

lemma wp_performs: "wp m R \<longleftrightarrow> (\<forall>tr r. performs m tr r \<longrightarrow> R tr r)"
proof (induction m arbitrary: R)
  case (Call q k)
  have "wp (Call q k) R \<longleftrightarrow> (\<forall>x tr r. performs (k x) tr r \<longrightarrow> R ((q, x) # tr) r)"
    by (simp add: Call.IH)
  then show ?case by (auto simp: performs_Call simp del: performs.simps(3))
qed simp_all

lemma wpD: "wp m R \<Longrightarrow> performs m tr r \<Longrightarrow> R tr r"
  by (simp add: wp_performs)

lemma wp_mono: "wp m R \<Longrightarrow> (\<And>t r. R t r \<Longrightarrow> S t r) \<Longrightarrow> wp m S"
  by (simp add: wp_performs)

lemma wp_conj: "wp m (\<lambda>t r. R t r \<and> S t r) \<longleftrightarrow> wp m R \<and> wp m S"
  by (auto simp: wp_performs)

lemma wp_bindR [wp_rules]:
  "wp (bindR m f) R \<longleftrightarrow>
     wp m (\<lambda>t r. case r of Inl e \<Rightarrow> R t (Inl e) | Inr a \<Rightarrow> wp (f a) (\<lambda>t'. R (t @ t')))"
  by (induction m arbitrary: R) simp_all

lemma wp_catchR [wp_rules]:
  "wp (catchR m h) R \<longleftrightarrow>
     wp m (\<lambda>t r. case r of Inr a \<Rightarrow> R t (Inr a)
                  | Inl e \<Rightarrow> (case h e of None \<Rightarrow> R t (Inl e) | Some a \<Rightarrow> R t (Inr a)))"
  by (induction m arbitrary: R) (simp_all split: option.splits)

lemma wp_pureR [wp_rules]:
  "wp (pureR p) R \<longleftrightarrow> R [] p"
  by (cases p) simp_all

text \<open>Every request of a program satisfies a condition, whatever is answered.\<close>

primrec sends :: "('q \<Rightarrow> bool) \<Rightarrow> ('q, 'x, 'e, 'a) remote \<Rightarrow> bool" where
  "sends P (Result a) \<longleftrightarrow> True"
| "sends P (Raise e) \<longleftrightarrow> True"
| "sends P (Call q k) \<longleftrightarrow> P q \<and> (\<forall>x. sends P (k x))"

lemma sends_bindR: "sends P m \<Longrightarrow> (\<And>a. sends P (f a)) \<Longrightarrow> sends P (bindR m f)"
  by (induction m) simp_all

lemma sends_catchR [simp]: "sends P (catchR m h) \<longleftrightarrow> sends P m"
  by (induction m) (simp_all split: option.splits)

lemma sends_pureR [simp]: "sends P (pureR r)"
  by (cases r) simp_all

lemma sends_forR: "(\<And>i. i \<in> set is \<Longrightarrow> sends P (f i)) \<Longrightarrow> sends P (forR f is)"
  by (induction "is") (auto intro!: sends_bindR split: option.splits)

lemma sends_performs: "sends P m \<Longrightarrow> performs m tr r \<Longrightarrow> z \<in> set tr \<Longrightarrow> P (fst z)"
  by (induction m arbitrary: tr) (auto split: list.splits prod.splits)

section \<open>Two runs with the same answers\<close>

text \<open>Two programs that send the same requests up to a view of them, and go on alike after every answer: what
  the view leaves out of a request cannot be seen in the view.\<close>

primrec same_view :: "('q \<Rightarrow> 'v) \<Rightarrow> ('q, 'x, 'e, 'a) remote \<Rightarrow> ('q, 'x, 'e, 'a) remote \<Rightarrow> bool" where
  "same_view v (Result a) n \<longleftrightarrow> n = Result a"
| "same_view v (Raise e) n \<longleftrightarrow> n = Raise e"
| "same_view v (Call q k) n \<longleftrightarrow> (case n of Call p j \<Rightarrow> v q = v p \<and> (\<forall>x. same_view v (k x) (j x)) | _ \<Rightarrow> False)"

lemma same_view_refl [simp]: "same_view v m m"
  by (induction m) simp_all

lemma same_view_bindR:
  "same_view v m n \<Longrightarrow> (\<And>a. same_view v (f a) (g a)) \<Longrightarrow> same_view v (bindR m f) (bindR n g)"
  by (induction m arbitrary: n) (auto split: remote.splits)

lemma same_view_catchR: "same_view v m n \<Longrightarrow> same_view v (catchR m h) (catchR n h)"
  by (induction m arbitrary: n) (auto split: remote.splits option.splits)

lemma same_view_performs:
  assumes "same_view v m n" "performs m tr r"
  shows "\<exists>ts. performs n ts r \<and> map snd ts = map snd tr \<and> map (v \<circ> fst) ts = map (v \<circ> fst) tr"
  using assms
proof (induction m arbitrary: n tr)
  case (Call q k)
  then obtain p j x ts where n: "n = Call p j" "v q = v p" "\<And>x. same_view v (k x) (j x)"
    and tr: "tr = (q, x) # ts" "performs (k x) ts r"
    by (auto simp: performs_Call simp del: performs.simps(3) split: remote.splits)
  then obtain us where "performs (j x) us r" "map snd us = map snd ts" "map (v \<circ> fst) us = map (v \<circ> fst) ts"
    using Call.IH by blast
  then show ?case using n tr by (intro exI [of _ "(p, x) # us"]) (simp add: comp_def)
qed auto

end
