(* ===== verification/Http.thy ===== *)
theory Http
  imports Remote Json Paging Connectors
begin

text \<open>
  What the connectors of \<open>src/na_sso/connectors\<close> share beside the contract: the requests and responses of
  \<open>httpx\<close>, the exceptions their methods raise and catch, the Python operations they apply to decoded JSON
  (\<open>get\<close>, subscripts, truth, \<open>str\<close>, iteration), and the laws of an adapter, stated in the
  locale \<open>adapter\<close>, which the theory of every connector interprets.  The target and the transport are not code of
  the repository: an exchange is any response, a timeout, or another failure of the transport.
\<close>

section \<open>Requests and responses\<close>

record HttpClient =
  hc_base_url :: string
  hc_headers :: "(string \<times> string) list"
  hc_auth :: "(string \<times> string) option"
  hc_params :: "(string \<times> string) list"
  hc_verify :: bool
  hc_timeout :: nat  \<comment> \<open>seconds\<close>

datatype Body = NoBody | JsonBody json | FormBody "(string \<times> string) list" | TextBody string

record HttpRequest =
  hr_client :: HttpClient
  hr_method :: string
  hr_path :: string
  hr_params :: "(string \<times> string) list"
  hr_headers :: "(string \<times> string) list"
  hr_body :: Body

text \<open>A response with its status, its text, and what \<open>response.json()\<close> decodes from it (\<open>None\<close>: no JSON).
  A decoded object lists its members under distinct keys.\<close>

record HttpResponse =
  hp_status :: nat
  hp_text :: string
  hp_json :: "json option"

datatype Exchange = Answered HttpResponse | TimedOut string | NotReached string

text \<open>\<open>httpx.HTTPError\<close> covers the first three, \<open>ValueError\<close> the next two.\<close>

datatype Failure =
    TimeoutException string
  | RequestError string
  | HTTPStatusError HttpResponse
  | NpmAuthenticationError string
  | ValueError string
  | KeyError string
  | TypeError string
  | AttributeError string
  | IndexError string

type_synonym 'a http = "(HttpRequest, Exchange, Failure, 'a) remote"

definition is_http_error :: "Failure \<Rightarrow> bool" where
  "is_http_error e = (case e of TimeoutException _ \<Rightarrow> True | RequestError _ \<Rightarrow> True | HTTPStatusError _ \<Rightarrow> True
     | _ \<Rightarrow> False)"

definition is_value_error :: "Failure \<Rightarrow> bool" where
  "is_value_error e = (case e of NpmAuthenticationError _ \<Rightarrow> True | ValueError _ \<Rightarrow> True | _ \<Rightarrow> False)"

definition is_key_error :: "Failure \<Rightarrow> bool" where
  "is_key_error e = (case e of KeyError _ \<Rightarrow> True | _ \<Rightarrow> False)"

definition is_type_error :: "Failure \<Rightarrow> bool" where
  "is_type_error e = (case e of TypeError _ \<Rightarrow> True | _ \<Rightarrow> False)"

definition is_attribute_error :: "Failure \<Rightarrow> bool" where
  "is_attribute_error e = (case e of AttributeError _ \<Rightarrow> True | _ \<Rightarrow> False)"

text \<open>The two tuples of exceptions that most handlers name.\<close>

definition http_value_type :: "Failure \<Rightarrow> bool" where
  "http_value_type e \<longleftrightarrow> is_http_error e \<or> is_value_error e \<or> is_type_error e"

definition http_key_value_type :: "Failure \<Rightarrow> bool" where
  "http_key_value_type e \<longleftrightarrow> http_value_type e \<or> is_key_error e"

definition except :: "(Failure \<Rightarrow> bool) \<Rightarrow> (Failure \<Rightarrow> 'a) \<Rightarrow> 'a http \<Rightarrow> 'a http" where
  "except named handler m = catchR m (\<lambda>e. if named e then Some (handler e) else None)"

definition send :: "HttpClient \<Rightarrow> string \<Rightarrow> string \<Rightarrow> (string \<times> string) list \<Rightarrow> (string \<times> string) list \<Rightarrow> Body
    \<Rightarrow> HttpResponse http" where
  "send c verb path params headers body =
    Call \<lparr>hr_client = c, hr_method = verb, hr_path = path, hr_params = params, hr_headers = headers,
          hr_body = body\<rparr>
      (\<lambda>x. case x of Answered r \<Rightarrow> Result r | TimedOut t \<Rightarrow> Raise (TimeoutException t)
              | NotReached t \<Rightarrow> Raise (RequestError t))"

definition client_get :: "HttpClient \<Rightarrow> string \<Rightarrow> (string \<times> string) list \<Rightarrow> HttpResponse http" where
  "client_get c path params = send c ''GET'' path params [] NoBody"

definition client_post :: "HttpClient \<Rightarrow> string \<Rightarrow> Body \<Rightarrow> HttpResponse http" where
  "client_post c path body = send c ''POST'' path [] [] body"

definition client_put :: "HttpClient \<Rightarrow> string \<Rightarrow> Body \<Rightarrow> HttpResponse http" where
  "client_put c path body = send c ''PUT'' path [] [] body"

definition client_patch :: "HttpClient \<Rightarrow> string \<Rightarrow> Body \<Rightarrow> HttpResponse http" where
  "client_patch c path body = send c ''PATCH'' path [] [] body"

definition client_delete :: "HttpClient \<Rightarrow> string \<Rightarrow> Body \<Rightarrow> HttpResponse http" where
  "client_delete c path body = send c ''DELETE'' path [] [] body"

lemmas client_defs = client_get_def client_post_def client_put_def client_patch_def client_delete_def

definition is_success :: "HttpResponse \<Rightarrow> bool" where
  "is_success r = in_range 200 299 (hp_status r)"

definition raise_for_status :: "HttpResponse \<Rightarrow> HttpResponse http" where
  "raise_for_status r = (if is_success r then Result r else Raise (HTTPStatusError r))"

definition response_json :: "HttpResponse \<Rightarrow> json http" where
  "response_json r = pureR (case hp_json r of None \<Rightarrow> Inl (ValueError ''JSONDecodeError'') | Some j \<Rightarrow> Inr j)"

text \<open>\<open>str.rstrip\<close> of one character and \<open>urllib.parse.quote\<close> with no safe characters.\<close>

definition rstrip_char :: "char \<Rightarrow> string \<Rightarrow> string" where
  "rstrip_char c s = rev (dropWhile (\<lambda>x. x = c) (rev s))"

definition quote_all :: "string \<Rightarrow> string" where
  "quote_all s = concat (map (\<lambda>c. if url_safe c then [c]
     else (let n = of_char c in [CHR ''%'', upper_hex (n div 16), upper_hex (n mod 16)])) s)"

section \<open>Python values\<close>

definition py_true :: "json \<Rightarrow> bool" where
  "py_true v = (case v of JNull \<Rightarrow> False | JBool b \<Rightarrow> b | JInt i \<Rightarrow> i \<noteq> 0 | JText s \<Rightarrow> s \<noteq> []
     | JArray xs \<Rightarrow> xs \<noteq> [] | JObject ms \<Rightarrow> ms \<noteq> [])"

definition repr_char :: "char \<Rightarrow> char \<Rightarrow> string" where
  "repr_char quotation c = (let n = of_char c :: nat in
     if c = backslash \<or> c = quotation then [backslash, c]
     else if n = 10 then [backslash, CHR ''n''] else if n = 13 then [backslash, CHR ''r'']
     else if n = 9 then [backslash, CHR ''t'']
     else if n < 32 \<or> n = 127 then [backslash, CHR ''x'', hex_char (n div 16), hex_char (n mod 16)]
     else [c])"

definition py_repr_text :: "string \<Rightarrow> string" where
  "py_repr_text s =
    (let quotation = (if CHR 0x27 \<in> set s \<and> quote_char \<notin> set s then quote_char else CHR 0x27) in
     quotation # concat (map (repr_char quotation) s) @ [quotation])"

primrec py_repr :: "json \<Rightarrow> string" where
  "py_repr JNull = ''None''"
| "py_repr (JBool b) = (if b then ''True'' else ''False'')"
| "py_repr (JInt i) = show_int i"
| "py_repr (JText s) = py_repr_text s"
| "py_repr (JArray xs) = CHR ''['' # join_with '', '' (map py_repr xs) @ '']''"
| "py_repr (JObject ms) = CHR ''{'' # join_with '', ''
     (map (\<lambda>(k, v). cat [py_repr_text k, '': '', v]) (map (map_prod (\<lambda>k. k) py_repr) ms)) @ ''}''"

definition py_str :: "json \<Rightarrow> string" where
  "py_str v = (case v of JText s \<Rightarrow> s | _ \<Rightarrow> py_repr v)"

text \<open>\<open>value.get(key, default)\<close>, the subscript \<open>value[key]\<close>, and the items a loop over a value visits.\<close>

definition py_get :: "string \<Rightarrow> json \<Rightarrow> json \<Rightarrow> Failure + json" where
  "py_get key other v = (case v of
     JObject ms \<Rightarrow> Inr (case map_of ms key of None \<Rightarrow> other | Some x \<Rightarrow> x)
   | _ \<Rightarrow> Inl (AttributeError ''get''))"

definition py_item :: "string \<Rightarrow> json \<Rightarrow> Failure + json" where
  "py_item key v = (case v of
     JObject ms \<Rightarrow> (case map_of ms key of None \<Rightarrow> Inl (KeyError key) | Some x \<Rightarrow> Inr x)
   | _ \<Rightarrow> Inl (TypeError ''indices''))"

definition py_iter :: "json \<Rightarrow> Failure + json list" where
  "py_iter v = (case v of
     JArray xs \<Rightarrow> Inr xs
   | JObject ms \<Rightarrow> Inr (map (\<lambda>(k, _). JText k) ms)
   | JText s \<Rightarrow> Inr (map (\<lambda>c. JText [c]) s)
   | _ \<Rightarrow> Inl (TypeError ''not iterable''))"

definition py_int :: "json \<Rightarrow> Failure + int" where
  "py_int v = (case v of
     JInt i \<Rightarrow> Inr i
   | JBool b \<Rightarrow> Inr (if b then 1 else 0)
   | JText s \<Rightarrow> (case python_int s of None \<Rightarrow> Inl (ValueError ''int'') | Some i \<Rightarrow> Inr i)
   | _ \<Rightarrow> Inl (TypeError ''int''))"

definition is_dict :: "json \<Rightarrow> bool" where
  "is_dict v = (case v of JObject _ \<Rightarrow> True | _ \<Rightarrow> False)"

definition is_list :: "json \<Rightarrow> bool" where
  "is_list v = (case v of JArray _ \<Rightarrow> True | _ \<Rightarrow> False)"

definition is_str :: "json \<Rightarrow> bool" where
  "is_str v = (case v of JText _ \<Rightarrow> True | _ \<Rightarrow> False)"

definition bind_sum :: "'e + 'a \<Rightarrow> ('a \<Rightarrow> 'e + 'b) \<Rightarrow> 'e + 'b" where
  "bind_sum r f = (case r of Inl e \<Rightarrow> Inl e | Inr a \<Rightarrow> f a)"

text \<open>\<open>str(value.get(key, default))\<close> of a text default.\<close>

definition get_str :: "string \<Rightarrow> string \<Rightarrow> json \<Rightarrow> Failure + string" where
  "get_str key other v = bind_sum (py_get key (JText other) v) (\<lambda>x. Inr (py_str x))"

text \<open>\<open>str(value.get(key)) if value.get(key) is not None else None\<close>.\<close>

definition get_present :: "string \<Rightarrow> json \<Rightarrow> Failure + string option" where
  "get_present key v = bind_sum (py_get key JNull v)
     (\<lambda>x. Inr (if x = JNull then None else Some (py_str x)))"

text \<open>\<open>next((item for item in items if test(item)), None)\<close> and a comprehension that keeps some items.\<close>

fun find_item :: "('i \<Rightarrow> 'e + bool) \<Rightarrow> 'i list \<Rightarrow> 'e + 'i option" where
  "find_item p [] = Inr None"
| "find_item p (x # xs) = bind_sum (p x) (\<lambda>b. if b then Inr (Some x) else find_item p xs)"

fun collect :: "('i \<Rightarrow> 'e + 'a option) \<Rightarrow> 'i list \<Rightarrow> 'e + 'a list" where
  "collect f [] = Inr []"
| "collect f (x # xs) = bind_sum (f x) (\<lambda>a. bind_sum (collect f xs)
     (\<lambda>as. Inr (case a of None \<Rightarrow> as | Some y \<Rightarrow> y # as)))"

lemma bind_sum_simps [simp]: "bind_sum (Inl e) f = Inl e" "bind_sum (Inr a) f = f a"
  by (simp_all add: bind_sum_def)

lemma find_item_Some: "find_item p xs = Inr (Some x) \<Longrightarrow> x \<in> set xs \<and> p x = Inr True"
  by (induction xs) (auto simp: bind_sum_def split: sum.splits if_splits)

lemma find_item_None: "find_item p xs = Inr None \<Longrightarrow> x \<in> set xs \<Longrightarrow> p x = Inr False"
  by (induction xs) (auto simp: bind_sum_def split: sum.splits if_splits)

text \<open>\<open>value if condition else None\<close>, and the truth of what a search found.\<close>

definition when_given :: "bool \<Rightarrow> 'e + 'a \<Rightarrow> 'e + 'a option" where
  "when_given b r = (if b then bind_sum r (\<lambda>a. Inr (Some a)) else Inr None)"

definition found :: "json option \<Rightarrow> bool" where
  "found v = (case v of None \<Rightarrow> False | Some x \<Rightarrow> py_true x)"

definition found_item :: "json option \<Rightarrow> json" where
  "found_item v = (case v of None \<Rightarrow> JNull | Some x \<Rightarrow> x)"

section \<open>Targets of the connectors\<close>

text \<open>The fields of a hydrated target that an HTTP connector reads; the secret is the API token, the password or the
  API secret, the list the default groups or roles.\<close>

record HttpTarget =
  ht_base_url :: string
  ht_admin_user :: string
  ht_secret :: string
  ht_verify_tls :: bool
  ht_memberships :: "string list"

definition connect_timeout :: nat where "connect_timeout = 15"
definition operation_timeout :: nat where "operation_timeout = 20"

definition http_client :: "HttpTarget \<Rightarrow> string \<Rightarrow> (string \<times> string) list \<Rightarrow> (string \<times> string) option
    \<Rightarrow> (string \<times> string) list \<Rightarrow> HttpClient" where
  "http_client t suffix headers auth params =
    \<lparr>hc_base_url = rstrip_char (CHR ''/'') (ht_base_url t) @ suffix, hc_headers = headers, hc_auth = auth,
     hc_params = params, hc_verify = ht_verify_tls t, hc_timeout = connect_timeout\<rparr>"

text \<open>\<open>user.display_name or user.username\<close>.\<close>

definition display_or_username :: "ManagedUser \<Rightarrow> string" where
  "display_or_username u = (if u_display_name u = [] then u_username u else u_display_name u)"

definition basic_auth :: "HttpTarget \<Rightarrow> (string \<times> string) option" where
  "basic_auth t = Some (ht_admin_user t, ht_secret t)"

text \<open>\<open>sorted(memberships)\<close> as a JSON list, and a failed result of a given kind.\<close>

definition sorted_names :: "string set \<Rightarrow> string list" where
  "sorted_names memberships = sorted_list_of_set memberships"

definition json_names :: "string set \<Rightarrow> json" where
  "json_names memberships = JArray (map JText (sorted_names memberships))"

definition failed_result :: "string \<Rightarrow> ConnectorErrorKind \<Rightarrow> bool \<Rightarrow> SyncResult" where
  "failed_result detail kind retryable = \<lparr>sr_ok = False, sr_detail = detail, sr_error_kind = Some kind,
     sr_retryable = retryable\<rparr>"

lemma failed_result_ok [simp]: "sr_ok (failed_result detail kind retryable) = False"
  by (simp add: failed_result_def)

text \<open>What \<open>discover_accounts\<close> returns when it has read the accounts, and when it has not.\<close>

definition accounts_discovered :: "RemoteAccount list \<Rightarrow> AccountDiscovery" where
  "accounts_discovered accounts = \<lparr>ad_supported = True, ad_accounts = accounts, ad_detail = []\<rparr>"

definition not_discovered :: "string \<Rightarrow> AccountDiscovery" where
  "not_discovered detail = \<lparr>ad_supported = True, ad_accounts = [], ad_detail = detail\<rparr>"

definition remote_account :: "string \<Rightarrow> string \<Rightarrow> string \<Rightarrow> string \<Rightarrow> RemoteAccount" where
  "remote_account name shown email status = \<lparr>ra_username = name, ra_display_name = shown,
     ra_email = email, ra_status = status, ra_uid = None\<rparr>"

definition identity_snapshot :: "bool \<Rightarrow> string option \<Rightarrow> string option \<Rightarrow> string option \<Rightarrow> string option
    \<Rightarrow> string set option \<Rightarrow> RemoteIdentitySnapshot" where
  "identity_snapshot present name shown email status memberships =
    \<lparr>rs_present = Some present, rs_username = name, rs_display_name = shown, rs_email = email,
     rs_status = status, rs_memberships = memberships, rs_public_key_fingerprints = None\<rparr>"

section \<open>Weakest preconditions of the requests\<close>

lemma wp_send [wp_rules]:
  "wp (send c verb path params headers body) R \<longleftrightarrow>
    (let q = \<lparr>hr_client = c, hr_method = verb, hr_path = path, hr_params = params, hr_headers = headers, hr_body = body\<rparr> in
     (\<forall>r. R [(q, Answered r)] (Inr r)) \<and> (\<forall>t. R [(q, TimedOut t)] (Inl (TimeoutException t))) \<and>
     (\<forall>t. R [(q, NotReached t)] (Inl (RequestError t))))"
proof -
  have all: "(\<forall>x. P x) \<longleftrightarrow> (\<forall>r. P (Answered r)) \<and> (\<forall>t. P (TimedOut t)) \<and> (\<forall>t. P (NotReached t))" for P
    by (metis Exchange.exhaust)
  show ?thesis unfolding send_def by (simp add: all Let_def)
qed

lemma wp_raise_for_status [wp_rules]:
  "wp (raise_for_status r) R \<longleftrightarrow> R [] (if is_success r then Inr r else Inl (HTTPStatusError r))"
  by (simp add: raise_for_status_def)

lemma wp_response_json [wp_rules]:
  "wp (response_json r) R \<longleftrightarrow> R [] (case hp_json r of None \<Rightarrow> Inl (ValueError ''JSONDecodeError'') | Some j \<Rightarrow> Inr j)"
  by (simp add: response_json_def wp_pureR)

lemma wp_except [wp_rules]:
  "wp (except named h m) R \<longleftrightarrow>
     wp m (\<lambda>t r. R t (case r of Inr a \<Rightarrow> Inr a | Inl e \<Rightarrow> if named e then Inr (h e) else Inl e))"
  by (simp add: except_def wp_catchR, rule arg_cong [where f = "wp m"])
    (auto simp: fun_eq_iff split: sum.splits)

lemma sync_result_ok [simp]: "sr_ok (sync_result b d) = b"
  by (simp add: sync_result_def classify_result_def Let_def)

lemma sync_result_detail [simp]: "sr_detail (sync_result b d) = d"
  by (simp add: sync_result_def classify_result_def Let_def)

lemma to_client [simp]: "hc_verify (http_client t suffix headers auth params) = ht_verify_tls t"
  "hc_base_url (http_client t suffix headers auth params) = rstrip_char (CHR ''/'') (ht_base_url t) @ suffix"
  by (simp_all add: http_client_def)

section \<open>What an adapter promises\<close>

text \<open>The methods of a connector that sync, reconciliation and discovery call, with the resolved memberships.\<close>

record Adapter =
  op_ensure :: "ManagedUser \<Rightarrow> string option \<Rightarrow> string set \<Rightarrow> SyncResult http"
  op_disable :: "ManagedUser \<Rightarrow> string set \<Rightarrow> SyncResult http"
  op_delete :: "ManagedUser \<Rightarrow> SyncResult http"
  op_probe :: "SyncResult http"
  op_inspect :: "ManagedUser \<Rightarrow> string set \<Rightarrow> (string + RemoteIdentitySnapshot) http"
  op_discover :: "AccountDiscovery http"

text \<open>A request goes to the configured target with the configured check of its certificate.  A run of a
  reading method only reads, and a run of a changing method that reports success had each of its changes
  confirmed.  Neither lets an error of the HTTP client escape.\<close>

definition to_target :: "HttpTarget \<Rightarrow> HttpRequest \<Rightarrow> bool" where
  "to_target t q \<longleftrightarrow> hc_verify (hr_client q) = ht_verify_tls t \<and>
     starts_with (rstrip_char (CHR ''/'') (ht_base_url t)) (hc_base_url (hr_client q))"

definition observing :: "HttpTarget \<Rightarrow> (HttpRequest \<Rightarrow> bool) \<Rightarrow> (HttpRequest \<times> Exchange) list \<Rightarrow> Failure + 'a \<Rightarrow> bool" where
  "observing t reading tr r \<longleftrightarrow>
     (\<forall>z \<in> set tr. to_target t (fst z) \<and> reading (fst z)) \<and>
     (case r of Inl e \<Rightarrow> \<not> is_http_error e | Inr _ \<Rightarrow> True)"

definition confirmed :: "(HttpRequest \<Rightarrow> bool) \<Rightarrow> (HttpRequest \<Rightarrow> Exchange \<Rightarrow> bool) \<Rightarrow> HttpRequest \<times> Exchange \<Rightarrow> bool" where
  "confirmed reading confirms z \<longleftrightarrow> reading (fst z) \<or> confirms (fst z) (snd z)"

definition changing :: "HttpTarget \<Rightarrow> (HttpRequest \<Rightarrow> bool) \<Rightarrow> (HttpRequest \<Rightarrow> Exchange \<Rightarrow> bool)
    \<Rightarrow> (HttpRequest \<times> Exchange) list \<Rightarrow> Failure + SyncResult \<Rightarrow> bool" where
  "changing t reading confirms tr r \<longleftrightarrow>
     (\<forall>z \<in> set tr. to_target t (fst z)) \<and>
     (case r of Inl e \<Rightarrow> \<not> is_http_error e
      | Inr a \<Rightarrow> sr_ok a \<longrightarrow> (\<forall>z \<in> set tr. confirmed reading confirms z))"

locale adapter =
  fixes A :: Adapter and target :: HttpTarget and reading :: "HttpRequest \<Rightarrow> bool"
    and confirms :: "HttpRequest \<Rightarrow> Exchange \<Rightarrow> bool"
  assumes ensure: "wp (op_ensure A u password memberships) (changing target reading confirms)"
    and disable: "wp (op_disable A u memberships) (changing target reading confirms)"
    and delete: "wp (op_delete A u) (changing target reading confirms)"
    and probe: "wp (op_probe A) (observing target reading)"
    and inspect: "wp (op_inspect A u memberships) (observing target reading)"
    and discover: "wp (op_discover A) (observing target reading)"
begin

text \<open>The changing methods and the reading methods.\<close>

definition mutation :: "SyncResult http \<Rightarrow> bool" where
  "mutation m \<longleftrightarrow> (\<exists>u password memberships. m = op_ensure A u password memberships) \<or>
     (\<exists>u memberships. m = op_disable A u memberships) \<or> (\<exists>u. m = op_delete A u)"

lemma mutation_changing:
  assumes "mutation m" "performs m tr r"
  shows "changing target reading confirms tr r"
  using assms wpD [OF ensure] wpD [OF disable] wpD [OF delete] unfolding mutation_def by blast

lemma confirmed_success:
  assumes "mutation m" "performs m tr (Inr r)" "sr_ok r"
  shows "\<forall>z \<in> set tr. confirmed reading confirms z"
  using mutation_changing [OF assms(1,2)] assms(3) by (simp add: changing_def)

lemma mutation_stays:
  assumes "mutation m" "performs m tr r"
  shows "\<forall>z \<in> set tr. to_target target (fst z)"
  using mutation_changing [OF assms] by (simp add: changing_def)

lemma mutation_contains_errors:
  assumes "mutation m" "performs m tr (Inl e)"
  shows "\<not> is_http_error e"
  using mutation_changing [OF assms] by (simp add: changing_def)

lemma inspection_reads:
  assumes "performs (op_inspect A u memberships) tr r"
  shows "\<forall>z \<in> set tr. to_target target (fst z) \<and> reading (fst z)"
  using wpD [OF inspect assms] by (simp add: observing_def)

lemma discovery_reads:
  assumes "performs (op_discover A) tr r"
  shows "\<forall>z \<in> set tr. to_target target (fst z) \<and> reading (fst z)"
  using wpD [OF discover assms] by (simp add: observing_def)

lemma observation_contains_errors:
  assumes "performs (op_inspect A u memberships) tr (Inl e) \<or> performs (op_discover A) tr (Inl e) \<or>
    performs (op_probe A) tr (Inl e)"
  shows "\<not> is_http_error e"
  using assms wpD [OF inspect] wpD [OF discover] wpD [OF probe] by (fastforce simp: observing_def)

end

text \<open>The conditions of most adapters.\<close>

definition only_get :: "HttpRequest \<Rightarrow> bool" where
  "only_get q \<longleftrightarrow> hr_method q = ''GET''"

definition status_confirms :: "HttpRequest \<Rightarrow> Exchange \<Rightarrow> bool" where
  "status_confirms q x \<longleftrightarrow> (case x of
     Answered p \<Rightarrow> is_success p \<or> (hr_method q = ''DELETE'' \<and> hp_status p = 404) | _ \<Rightarrow> False)"

lemmas adapter_defs = changing_def observing_def confirmed_def only_get_def status_confirms_def
lemmas failure_defs = http_value_type_def http_key_value_type_def is_http_error_def is_value_error_def
  is_key_error_def is_type_error_def is_attribute_error_def

text \<open>The part of a run that only reads.\<close>

definition quiet_reads :: "HttpTarget \<Rightarrow> (HttpRequest \<Rightarrow> bool) \<Rightarrow> (HttpRequest \<times> Exchange) list \<Rightarrow> bool" where
  "quiet_reads t reading tr \<longleftrightarrow> (\<forall>z \<in> set tr. to_target t (fst z) \<and> reading (fst z))"

lemma quiet_reads_simps [simp]:
  "quiet_reads t reading []"
  "quiet_reads t reading (z # tr) \<longleftrightarrow> to_target t (fst z) \<and> reading (fst z) \<and> quiet_reads t reading tr"
  "quiet_reads t reading (tr @ ts) \<longleftrightarrow> quiet_reads t reading tr \<and> quiet_reads t reading ts"
  by (auto simp: quiet_reads_def)

lemma quiet_to_target: "quiet_reads t reading tr \<Longrightarrow> z \<in> set tr \<Longrightarrow> to_target t (fst z)"
  by (simp add: quiet_reads_def)

lemma observing_quiet:
  "observing t reading tr r \<longleftrightarrow> quiet_reads t reading tr \<and> (case r of Inl e \<Rightarrow> \<not> is_http_error e | Inr _ \<Rightarrow> True)"
  by (simp add: observing_def quiet_reads_def)

text \<open>Changes after a reading part.\<close>

definition changes :: "HttpTarget \<Rightarrow> (HttpRequest \<Rightarrow> bool) \<Rightarrow> (HttpRequest \<Rightarrow> Exchange \<Rightarrow> bool)
    \<Rightarrow> bool \<Rightarrow> (HttpRequest \<times> Exchange) list \<Rightarrow> bool" where
  "changes t reading confirms ok tr \<longleftrightarrow> (\<forall>z \<in> set tr. to_target t (fst z)) \<and>
     (ok \<longrightarrow> (\<forall>z \<in> set tr. confirmed reading confirms z))"

lemma changes_Nil [simp]: "changes t reading confirms ok []"
  by (simp add: changes_def)

lemma changes_Cons [simp]: "changes t reading confirms ok (z # tr) \<longleftrightarrow>
    to_target t (fst z) \<and> (ok \<longrightarrow> confirmed reading confirms z) \<and> changes t reading confirms ok tr"
  by (auto simp: changes_def)

lemma changes_append [simp]: "changes t reading confirms ok (tr @ ts) \<longleftrightarrow>
    changes t reading confirms ok tr \<and> changes t reading confirms ok ts"
  by (auto simp: changes_def)

lemma quiet_changes [simp]: "quiet_reads t reading tr \<Longrightarrow> changes t reading confirms ok tr"
  by (auto simp: changes_def quiet_reads_def confirmed_def)

lemma changing_changes:
  "changing t reading confirms tr r \<longleftrightarrow> (case r of Inl e \<Rightarrow> changes t reading confirms False tr \<and> \<not> is_http_error e
     | Inr a \<Rightarrow> changes t reading confirms (sr_ok a) tr)"
  by (auto simp: changing_def changes_def split: sum.splits)

text \<open>A part of a changing method: one that goes on when every change was confirmed, and one that ends it.\<close>

definition step_taken :: "HttpTarget \<Rightarrow> (HttpRequest \<Rightarrow> bool) \<Rightarrow> (HttpRequest \<Rightarrow> Exchange \<Rightarrow> bool)
    \<Rightarrow> (HttpRequest \<times> Exchange) list \<Rightarrow> Failure + 'a \<Rightarrow> bool" where
  "step_taken t reading confirms tr r \<longleftrightarrow> changes t reading confirms (\<not> isl r) tr"

definition step_ended :: "HttpTarget \<Rightarrow> (HttpRequest \<Rightarrow> bool) \<Rightarrow> (HttpRequest \<Rightarrow> Exchange \<Rightarrow> bool)
    \<Rightarrow> (HttpRequest \<times> Exchange) list \<Rightarrow> Failure + SyncResult \<Rightarrow> bool" where
  "step_ended t reading confirms tr r \<longleftrightarrow>
     changes t reading confirms (case r of Inl _ \<Rightarrow> False | Inr a \<Rightarrow> sr_ok a) tr"

lemma changes_weak: "changes t reading confirms True tr \<Longrightarrow> changes t reading confirms ok tr"
  by (simp add: changes_def)

lemma changes_mono:
  "changes t reading confirms ok tr \<Longrightarrow> (ok' \<Longrightarrow> ok) \<Longrightarrow> changes t reading confirms ok' tr"
  by (auto simp: changes_def)

lemma changes_strict: "changes t reading confirms ok tr \<Longrightarrow> changes t reading confirms False tr"
  by (simp add: changes_def)

lemma wp_step_taken:
  "wp m (step_taken t reading confirms) \<Longrightarrow>
   (\<And>tr e. changes t reading confirms False tr \<Longrightarrow> R tr (Inl e)) \<Longrightarrow>
   (\<And>tr a. changes t reading confirms True tr \<Longrightarrow> R tr (Inr a)) \<Longrightarrow> wp m R"
  by (erule wp_mono) (auto simp: step_taken_def split: sum.splits, case_tac r, auto)

lemma wp_step_ended:
  "wp m (step_ended t reading confirms) \<Longrightarrow>
   (\<And>tr e. changes t reading confirms False tr \<Longrightarrow> R tr (Inl e)) \<Longrightarrow>
   (\<And>tr a. changes t reading confirms (sr_ok a) tr \<Longrightarrow> R tr (Inr a)) \<Longrightarrow> wp m R"
  by (erule wp_mono) (auto simp: step_ended_def split: sum.splits)

lemma wp_quiet:
  "wp m (\<lambda>tr r. quiet_reads t reading tr) \<Longrightarrow>
   (\<And>tr r. quiet_reads t reading tr \<Longrightarrow> R tr r) \<Longrightarrow> wp m R"
  by (rule wp_mono)

text \<open>A part that goes on (\<open>None\<close>) or stops the method with a failed result.\<close>

definition step_or_stop :: "HttpTarget \<Rightarrow> (HttpRequest \<Rightarrow> bool) \<Rightarrow> (HttpRequest \<Rightarrow> Exchange \<Rightarrow> bool)
    \<Rightarrow> (HttpRequest \<times> Exchange) list \<Rightarrow> Failure + SyncResult option \<Rightarrow> bool" where
  "step_or_stop t reading confirms tr r \<longleftrightarrow> (case r of
     Inr None \<Rightarrow> changes t reading confirms True tr
   | Inr (Some a) \<Rightarrow> changes t reading confirms False tr \<and> \<not> sr_ok a
   | Inl _ \<Rightarrow> changes t reading confirms False tr)"

lemma wp_step_or_stop:
  "wp m (step_or_stop t reading confirms) \<Longrightarrow>
   (\<And>tr e. changes t reading confirms False tr \<Longrightarrow> R tr (Inl e)) \<Longrightarrow>
   (\<And>tr a. changes t reading confirms False tr \<Longrightarrow> \<not> sr_ok a \<Longrightarrow> R tr (Inr (Some a))) \<Longrightarrow>
   (\<And>tr. changes t reading confirms True tr \<Longrightarrow> R tr (Inr None)) \<Longrightarrow> wp m R"
  by (erule wp_mono) (rename_tac ts r, case_tac r, auto simp: step_or_stop_def split: option.splits)

lemma step_or_stop_forR:
  assumes "\<And>i. wp (f i) (step_or_stop t reading confirms)"
  shows "wp (forR f is) (step_or_stop t reading confirms)"
proof (induction "is")
  case (Cons i "is")
  show ?case
    unfolding forR.simps wp_rules
    by (rule wp_step_or_stop [OF assms])
      (auto simp: step_or_stop_def intro!: wp_step_or_stop [OF Cons.IH] intro: changes_weak)
qed (simp add: step_or_stop_def)

section \<open>A sample target\<close>

text \<open>A target that answers the requests of a call one after the other.\<close>

fun answering :: "Exchange list \<Rightarrow> HttpRequest \<Rightarrow> Exchange list \<times> Exchange" where
  "answering [] q = ([], NotReached ''no answer'')"
| "answering (x # xs) q = (xs, x)"

definition json_answer :: "nat \<Rightarrow> json \<Rightarrow> Exchange" where
  "json_answer status v = Answered \<lparr>hp_status = status, hp_text = dumps v, hp_json = Some v\<rparr>"

definition sample_target :: HttpTarget where
  "sample_target = \<lparr>ht_base_url = ''https://nexus.example/'', ht_admin_user = ''admin'', ht_secret = ''s'',
     ht_verify_tls = True, ht_memberships = []\<rparr>"

end
