(* ===== verification/Gitea.thy ===== *)
theory Gitea
  imports Http
begin

text \<open>The Gitea connector, \<open>src/na_sso/connectors/gitea.py\<close>.\<close>

definition gitea_client :: "HttpTarget \<Rightarrow> HttpClient" where
  "gitea_client t = http_client t ''/api/v1''
     [(''Authorization'', cat [''token '', ht_secret t]), (''Accept'', ''application/json'')] None []"

definition gitea_page :: "HttpClient \<Rightarrow> nat \<Rightarrow> nat \<Rightarrow> json list http" where
  "gitea_page c limit page =
    bindR (client_get c ''/admin/users'' [(''page'', show_nat page), (''limit'', show_nat limit)]) (\<lambda>r.
    bindR (raise_for_status r) (\<lambda>r.
    bindR (response_json r) (\<lambda>batch. pureR (py_iter batch))))"

fun gitea_pages :: "HttpClient \<Rightarrow> nat \<Rightarrow> nat list \<Rightarrow> json list \<Rightarrow> json list http" where
  "gitea_pages c limit [] acc = Result acc"
| "gitea_pages c limit (page # pages) acc =
    bindR (gitea_page c limit page) (\<lambda>batch.
      if length batch < limit then Result (acc @ batch)
      else gitea_pages c limit pages (acc @ batch))"

definition gitea_users :: "HttpClient \<Rightarrow> json list http" where
  "gitea_users c = gitea_pages c 50 [1..<21] []"

definition gitea_login_is :: "string \<Rightarrow> json \<Rightarrow> Failure + bool" where
  "gitea_login_is name item = bind_sum (get_str ''login'' [] item) (\<lambda>s. Inr (lower s = lower name))"

definition gitea_find_user :: "HttpClient \<Rightarrow> string \<Rightarrow> json option http" where
  "gitea_find_user c name = bindR (gitea_users c) (\<lambda>users. pureR (find_item (gitea_login_is name) users))"

definition gitea_snapshot :: "json option \<Rightarrow> Failure + RemoteIdentitySnapshot" where
  "gitea_snapshot existing =
    (let item = found_item existing; some = found existing in
     bind_sum (when_given some (bind_sum (py_get ''login'' JNull item) (\<lambda>v. Inr (py_str v)))) (\<lambda>name.
     bind_sum (when_given some (get_str ''full_name'' [] item)) (\<lambda>shown.
     bind_sum (when_given some (get_str ''email'' [] item)) (\<lambda>email.
     bind_sum (when_given some (py_get ''prohibit_login'' JNull item)) (\<lambda>prohibited.
     Inr (identity_snapshot (existing \<noteq> None) name shown email
       (case prohibited of None \<Rightarrow> None | Some v \<Rightarrow> Some (if py_true v then ''disabled'' else ''active'')) None))))))"

definition gitea_inspect_user :: "HttpTarget \<Rightarrow> ManagedUser \<Rightarrow> (string + RemoteIdentitySnapshot) http" where
  "gitea_inspect_user t u =
    except http_value_type (\<lambda>_. Inl ''Gitea identity read failed.'')
      (bindR (gitea_find_user (gitea_client t) (u_username u)) (\<lambda>existing.
       bindR (pureR (gitea_snapshot existing)) (\<lambda>snap. Result (Inr snap))))"

definition gitea_account :: "json \<Rightarrow> Failure + RemoteAccount option" where
  "gitea_account item =
    bind_sum (py_get ''login'' JNull item) (\<lambda>login.
      if py_true login then
        bind_sum (get_str ''login'' [] item) (\<lambda>name.
        bind_sum (get_str ''full_name'' [] item) (\<lambda>shown.
        bind_sum (get_str ''email'' [] item) (\<lambda>email.
        bind_sum (py_get ''prohibit_login'' JNull item) (\<lambda>v.
        Inr (Some (remote_account name shown email (if py_true v then ''disabled'' else ''active'')))))))
      else Inr None)"

definition gitea_discover_accounts :: "HttpTarget \<Rightarrow> AccountDiscovery http" where
  "gitea_discover_accounts t =
    except http_value_type (\<lambda>_. not_discovered ''Gitea account discovery failed.'')
      (bindR (gitea_users (gitea_client t)) (\<lambda>users.
       bindR (pureR (collect gitea_account users)) (\<lambda>accounts. Result (accounts_discovered accounts))))"

definition gitea_user_path :: "ManagedUser \<Rightarrow> string" where
  "gitea_user_path u = cat [''/admin/users/'', quote_all (u_username u)]"

definition gitea_update :: "HttpClient \<Rightarrow> ManagedUser \<Rightarrow> string option \<Rightarrow> bool \<Rightarrow> unit http" where
  "gitea_update c u password disabled =
    bindR (client_patch c (gitea_user_path u) (JsonBody (JObject (
      [(''login_name'', JText (u_username u)), (''source_id'', JInt 0), (''email'', JText (u_email u)),
       (''full_name'', JText (display_or_username u)), (''active'', JBool (\<not> disabled)),
       (''prohibit_login'', JBool disabled), (''must_change_password'', JBool False)] @
      (case password of None \<Rightarrow> [] | Some p \<Rightarrow> [(''password'', JText p)]))))) (\<lambda>r.
    bindR (raise_for_status r) (\<lambda>_. Result ()))"

definition gitea_failure :: "(Failure \<Rightarrow> string) \<Rightarrow> Failure \<Rightarrow> SyncResult" where
  "gitea_failure txt e = sync_result False (cat [''Gitea HTTP error: '', txt e])"

definition gitea_ensure_user :: "(Failure \<Rightarrow> string) \<Rightarrow> HttpTarget \<Rightarrow> ManagedUser \<Rightarrow> string option \<Rightarrow> SyncResult http" where
  "gitea_ensure_user txt t u password =
    (let c = gitea_client t in
     except http_value_type (gitea_failure txt)
      (bindR (gitea_find_user c (u_username u)) (\<lambda>existing.
         case existing of
           None \<Rightarrow>
             (case password of
                None \<Rightarrow> Result (sync_result False ''Gitea requires a password for a new user'')
              | Some p \<Rightarrow>
                  bindR (client_post c ''/admin/users'' (JsonBody (JObject
                    [(''username'', JText (u_username u)), (''email'', JText (u_email u)),
                     (''full_name'', JText (display_or_username u)), (''password'', JText p),
                     (''must_change_password'', JBool False), (''send_notify'', JBool False)]))) (\<lambda>r.
                  bindR (raise_for_status r) (\<lambda>_.
                  bindR (if u_status u = US_DISABLED then gitea_update c u None True else Result ()) (\<lambda>_.
                  Result (sync_result True ''saved'')))))
         | Some _ \<Rightarrow>
             bindR (gitea_update c u password (u_status u = US_DISABLED)) (\<lambda>_.
             Result (sync_result True ''saved'')))))"

definition gitea_disable_user :: "(Failure \<Rightarrow> string) \<Rightarrow> HttpTarget \<Rightarrow> ManagedUser \<Rightarrow> SyncResult http" where
  "gitea_disable_user txt t u =
    (let c = gitea_client t in
     except http_value_type (gitea_failure txt)
      (bindR (gitea_find_user c (u_username u)) (\<lambda>existing.
         case existing of
           None \<Rightarrow> Result (sync_result True ''already absent'')
         | Some _ \<Rightarrow> bindR (gitea_update c u None True) (\<lambda>_. Result (sync_result True ''disabled'')))))"

definition gitea_delete_user :: "(Failure \<Rightarrow> string) \<Rightarrow> HttpTarget \<Rightarrow> ManagedUser \<Rightarrow> SyncResult http" where
  "gitea_delete_user txt t u =
    except is_http_error (gitea_failure txt)
      (bindR (client_delete (gitea_client t) (gitea_user_path u) NoBody) (\<lambda>r.
         if hp_status r = 404 then Result (sync_result True ''already absent'')
         else bindR (raise_for_status r) (\<lambda>_. Result (sync_result True ''deleted''))))"

definition gitea_probe :: "(Failure \<Rightarrow> string) \<Rightarrow> HttpTarget \<Rightarrow> SyncResult http" where
  "gitea_probe txt t =
    except is_http_error (\<lambda>e. sync_result False (cat [''Gitea unreachable: '', txt e]))
      (bindR (client_get (gitea_client t) ''/admin/users'' [(''limit'', ''1'')]) (\<lambda>r.
       bindR (raise_for_status r) (\<lambda>_. Result (sync_result True ''reachable''))))"

section \<open>The promises of an adapter\<close>

lemma to_gitea [simp]: "to_target t q \<longleftrightarrow> True" if "hr_client q = gitea_client t"
  using that by (simp add: to_target_def gitea_client_def starts_with_def)

lemma gitea_pages_read: "wp (gitea_pages (gitea_client t) limit ps acc) (\<lambda>tr r. quiet_reads t only_get tr)"
  by (induction ps arbitrary: acc)
    (simp_all add: gitea_page_def wp_rules client_defs Let_def only_get_def split: sum.splits)

lemma gitea_find_reads: "wp (gitea_find_user (gitea_client t) n) (\<lambda>tr r. quiet_reads t only_get tr)"
  unfolding gitea_find_user_def gitea_users_def wp_rules
  by (rule wp_mono [OF gitea_pages_read]) (auto split: sum.splits)

lemmas gitea_wp = gitea_failure_def gitea_update_def client_defs wp_rules Let_def changing_changes observing_quiet
  confirmed_def status_confirms_def failure_defs

lemma gitea_ensure_lawful:
  "wp (gitea_ensure_user txt t u pw) (changing t only_get status_confirms)"
  unfolding gitea_ensure_user_def Let_def wp_rules
  by (rule wp_mono [OF gitea_find_reads])
    (auto simp add: gitea_wp split: option.splits sum.splits Failure.splits)

lemma gitea_disable_lawful:
  "wp (gitea_disable_user txt t u) (changing t only_get status_confirms)"
  unfolding gitea_disable_user_def Let_def wp_rules
  by (rule wp_mono [OF gitea_find_reads])
    (auto simp add: gitea_wp split: option.splits sum.splits Failure.splits)

lemma gitea_delete_lawful:
  "wp (gitea_delete_user txt t u) (changing t only_get status_confirms)"
  by (auto simp add: gitea_delete_user_def gitea_wp split: option.splits sum.splits Failure.splits)

lemma gitea_probe_lawful:
  "wp (gitea_probe txt t) (observing t only_get)"
  by (auto simp add: gitea_probe_def gitea_wp only_get_def split: option.splits sum.splits Failure.splits)

lemma gitea_inspect_lawful:
  "wp (gitea_inspect_user t u) (observing t only_get)"
  unfolding gitea_inspect_user_def Let_def wp_rules
  by (rule wp_mono [OF gitea_find_reads])
    (auto simp add: gitea_wp split: option.splits sum.splits Failure.splits)

lemma gitea_discover_lawful:
  "wp (gitea_discover_accounts t) (observing t only_get)"
  unfolding gitea_discover_accounts_def gitea_users_def wp_rules
  by (rule wp_mono [OF gitea_pages_read])
    (auto simp add: gitea_wp split: option.splits sum.splits Failure.splits)

definition gitea_adapter :: "(Failure \<Rightarrow> string) \<Rightarrow> HttpTarget \<Rightarrow> Adapter" where
  "gitea_adapter txt t = \<lparr>op_ensure = \<lambda>u pw _. gitea_ensure_user txt t u pw,
     op_disable = \<lambda>u _. gitea_disable_user txt t u, op_delete = gitea_delete_user txt t,
     op_probe = gitea_probe txt t, op_inspect = \<lambda>u _. gitea_inspect_user t u,
     op_discover = gitea_discover_accounts t\<rparr>"

interpretation gitea: adapter "gitea_adapter err t" t only_get status_confirms
  for err t
  by unfold_locales (simp_all add: gitea_adapter_def gitea_ensure_lawful gitea_disable_lawful
      gitea_delete_lawful gitea_probe_lawful gitea_inspect_lawful gitea_discover_lawful)

section \<open>Properties\<close>

lemma gitea_pages_bound: "wp (gitea_pages c limit ps acc) (\<lambda>tr r. length tr \<le> length ps)"
  by (induction ps arbitrary: acc)
    (auto simp: gitea_page_def wp_rules client_defs Let_def elim!: wp_mono split: sum.splits)

lemma gitea_find_bound: "wp (gitea_find_user c n) (\<lambda>tr r. length tr \<le> 20)"
  unfolding gitea_find_user_def gitea_users_def wp_rules
  by (rule wp_mono [OF gitea_pages_bound]) (auto split: sum.splits)

text \<open>C37: A call to Gitea ends after 22 requests.  Whatever the server answers, also a list of accounts that never ends, a call that
  changes an account sends at most 22 requests (twenty pages of accounts, a creation and an update), and an inspection or a
  discovery at most 20.\<close>

theorem gitea_calls_are_bounded:
  assumes "performs (op_ensure (gitea_adapter txt t) u password memberships) t1 r1"
    "performs (op_disable (gitea_adapter txt t) u memberships) t2 r2"
    "performs (op_inspect (gitea_adapter txt t) u memberships) t3 r3"
    "performs (op_discover (gitea_adapter txt t)) t4 r4"
  shows "length t1 \<le> 22 \<and> length t2 \<le> 21 \<and> length t3 \<le> 20 \<and> length t4 \<le> 20"
proof -
  have find: "wp (gitea_find_user c n) R" if "\<And>tr r. length tr \<le> 20 \<Longrightarrow> R tr r" for c n R
    by (rule wp_mono [OF gitea_find_bound that])
  have pages: "wp (gitea_pages c 50 [1..<21] []) R" if "\<And>tr r. length tr \<le> 20 \<Longrightarrow> R tr r" for c R
    by (rule wp_mono [OF gitea_pages_bound]) (auto intro: that)
  have "wp (gitea_ensure_user txt t u password) (\<lambda>tr r. length tr \<le> 22)"
    unfolding gitea_ensure_user_def Let_def wp_rules
    by (rule find) (auto simp: gitea_update_def wp_rules client_defs Let_def split: sum.splits option.splits)
  moreover have "wp (gitea_disable_user txt t u) (\<lambda>tr r. length tr \<le> 21)"
    unfolding gitea_disable_user_def Let_def wp_rules
    by (rule find) (auto simp: gitea_update_def wp_rules client_defs Let_def split: sum.splits option.splits)
  moreover have "wp (gitea_inspect_user t u) (\<lambda>tr r. length tr \<le> 20)"
    unfolding gitea_inspect_user_def wp_rules
    by (rule find) (auto simp: wp_rules split: sum.splits)
  moreover have "wp (gitea_discover_accounts t) (\<lambda>tr r. length tr \<le> 20)"
    unfolding gitea_discover_accounts_def gitea_users_def wp_rules
    by (rule pages) (auto simp: wp_rules split: sum.splits)
  ultimately show ?thesis
    using assms by (auto simp: gitea_adapter_def dest: wpD)
qed

theorem gitea_calls_are_bounded_witness:
  "\<exists>t1. performs (op_ensure (gitea_adapter (\<lambda>_. []) sample_target) sample_user (Some ''pw'') {}) t1
      (Inr (sync_result True ''saved'')) \<and> length t1 \<le> 22"
proof -
  let ?A = "gitea_adapter (\<lambda>_. []) sample_target"
  have "snd (snd (execute answering (op_ensure ?A sample_user (Some ''pw'') {})
      [json_answer 200 (JArray []), json_answer 201 JNull])) = Inr (sync_result True ''saved'')"
    by code_simp
  then obtain t1 where t1: "performs (op_ensure ?A sample_user (Some ''pw'') {}) t1 (Inr (sync_result True ''saved''))"
    by (rule execute_result)
  obtain t2 r2 where t2: "performs (op_disable ?A sample_user {}) t2 r2" by (metis execute_result)
  obtain t3 r3 where t3: "performs (op_inspect ?A sample_user {}) t3 r3" by (metis execute_result)
  obtain t4 r4 where t4: "performs (op_discover ?A) t4 r4" by (metis execute_result)
  show ?thesis using gitea_calls_are_bounded [OF t1 t2 t3 t4] t1 by blast
qed

end
