(* ===== verification/Gitlab.thy ===== *)
theory Gitlab
  imports Http
begin

text \<open>The GitLab connector, \<open>src/na_sso/connectors/gitlab.py\<close>.\<close>

definition gitlab_client :: "HttpTarget \<Rightarrow> HttpClient" where
  "gitlab_client t = http_client t ''/api/v4''
     [(''PRIVATE-TOKEN'', ht_secret t), (''Accept'', ''application/json'')] None []"

definition gitlab_username_is :: "string \<Rightarrow> json \<Rightarrow> Failure + bool" where
  "gitlab_username_is name item = bind_sum (get_str ''username'' [] item) (\<lambda>s. Inr (lower s = lower name))"

definition gitlab_find_user :: "HttpClient \<Rightarrow> string \<Rightarrow> json option http" where
  "gitlab_find_user c name =
    bindR (client_get c ''/users'' [(''username'', name)]) (\<lambda>r.
    bindR (raise_for_status r) (\<lambda>r.
    bindR (response_json r) (\<lambda>v.
    pureR (bind_sum (py_iter v) (find_item (gitlab_username_is name))))))"

definition gitlab_snapshot :: "json option \<Rightarrow> Failure + RemoteIdentitySnapshot" where
  "gitlab_snapshot existing =
    (let item = found_item existing; some = found existing;
         text_of = (\<lambda>key. bind_sum (py_get key JNull item) (\<lambda>v. Inr (py_str v))) in
     bind_sum (when_given some (text_of ''username'')) (\<lambda>name.
     bind_sum (when_given some (text_of ''name'')) (\<lambda>shown.
     bind_sum (when_given some (get_present ''email'' item)) (\<lambda>email.
     bind_sum (when_given some (py_get ''state'' JNull item)) (\<lambda>state.
     Inr (identity_snapshot (existing \<noteq> None) name shown (Option.bind email (\<lambda>e. e))
       (case state of None \<Rightarrow> None | Some v \<Rightarrow> Some (if v = JText ''active'' then ''active'' else ''disabled''))
       None))))))"

definition gitlab_inspect_user :: "HttpTarget \<Rightarrow> ManagedUser \<Rightarrow> (string + RemoteIdentitySnapshot) http" where
  "gitlab_inspect_user t u =
    except http_value_type (\<lambda>_. Inl ''GitLab identity read failed.'')
      (bindR (gitlab_find_user (gitlab_client t) (u_username u)) (\<lambda>existing.
       bindR (pureR (gitlab_snapshot existing)) (\<lambda>snap. Result (Inr snap))))"

definition gitlab_account :: "json \<Rightarrow> Failure + RemoteAccount option" where
  "gitlab_account item =
    bind_sum (py_get ''username'' JNull item) (\<lambda>v.
      if py_true v then
        bind_sum (get_str ''username'' [] item) (\<lambda>name.
        bind_sum (get_str ''name'' [] item) (\<lambda>shown.
        bind_sum (get_str ''email'' [] item) (\<lambda>email.
        bind_sum (py_get ''state'' JNull item) (\<lambda>state.
        Inr (Some (remote_account name shown email
          (if state = JText ''active'' then ''active'' else ''disabled'')))))))
      else Inr None)"

definition gitlab_discover_accounts :: "HttpTarget \<Rightarrow> AccountDiscovery http" where
  "gitlab_discover_accounts t =
    except http_value_type (\<lambda>_. not_discovered ''GitLab account discovery failed.'')
      (bindR (client_get (gitlab_client t) ''/users'' [(''per_page'', ''100''),
         (''exclude_internal'', ''true''), (''without_project_bots'', ''true'')]) (\<lambda>r.
       bindR (raise_for_status r) (\<lambda>r.
       bindR (response_json r) (\<lambda>v.
       bindR (pureR (bind_sum (py_iter v) (collect gitlab_account))) (\<lambda>accounts.
       Result (accounts_discovered accounts))))))"

text \<open>The path of an account that was found or created, by its \<open>id\<close>.\<close>

definition gitlab_user_path :: "json \<Rightarrow> string \<Rightarrow> string http" where
  "gitlab_user_path existing suffix = pureR (bind_sum (py_item ''id'' existing)
     (\<lambda>v. Inr (cat [''/users/'', py_str v, suffix])))"

definition gitlab_post :: "HttpClient \<Rightarrow> json \<Rightarrow> string \<Rightarrow> unit http" where
  "gitlab_post c existing suffix =
    bindR (gitlab_user_path existing suffix) (\<lambda>path.
    bindR (client_post c path NoBody) (\<lambda>r.
    bindR (raise_for_status r) (\<lambda>_. Result ())))"

definition gitlab_block :: "HttpClient \<Rightarrow> json \<Rightarrow> SyncResult http" where
  "gitlab_block c existing =
    bindR (gitlab_post c existing ''/block'') (\<lambda>_. Result (sync_result True ''disabled''))"

definition gitlab_failure :: "(Failure \<Rightarrow> string) \<Rightarrow> Failure \<Rightarrow> SyncResult" where
  "gitlab_failure txt e = sync_result False (cat [''GitLab HTTP error: '', txt e])"

text \<open>The end of \<open>ensure_user\<close>: unblock an account that should be active, block one that should not.\<close>

definition gitlab_settle :: "HttpClient \<Rightarrow> ManagedUser \<Rightarrow> json \<Rightarrow> SyncResult http" where
  "gitlab_settle c u existing =
    bindR (if u_status u \<noteq> US_DISABLED then pureR (bind_sum (py_get ''state'' JNull existing)
             (\<lambda>v. Inr (v \<noteq> JText ''active'')))
           else Result False) (\<lambda>inactive.
    bindR (if inactive then gitlab_post c existing ''/unblock'' else Result ()) (\<lambda>_.
    if u_status u = US_DISABLED then gitlab_block c existing else Result (sync_result True ''saved'')))"

definition gitlab_ensure_user :: "(Failure \<Rightarrow> string) \<Rightarrow> HttpTarget \<Rightarrow> ManagedUser \<Rightarrow> string option \<Rightarrow> SyncResult http" where
  "gitlab_ensure_user txt t u password =
    (let c = gitlab_client t in
     except http_key_value_type (gitlab_failure txt)
      (bindR (gitlab_find_user c (u_username u)) (\<lambda>existing.
         case existing of
           None \<Rightarrow>
             (case password of
                None \<Rightarrow> Result (sync_result False ''GitLab requires a password for a new user'')
              | Some p \<Rightarrow>
                  bindR (client_post c ''/users'' (JsonBody (JObject
                    [(''username'', JText (u_username u)), (''name'', JText (u_display_name u)),
                     (''email'', JText (u_email u)), (''password'', JText p),
                     (''skip_confirmation'', JBool True)]))) (\<lambda>r.
                  bindR (raise_for_status r) (\<lambda>r.
                  bindR (response_json r) (\<lambda>created. gitlab_settle c u created))))
         | Some item \<Rightarrow>
             bindR (gitlab_user_path item []) (\<lambda>path.
             bindR (client_put c path (JsonBody (JObject (
               [(''name'', JText (u_display_name u)), (''email'', JText (u_email u)),
                (''skip_reconfirmation'', JBool True)] @
               (case password of None \<Rightarrow> [] | Some p \<Rightarrow> [(''password'', JText p)]))))) (\<lambda>r.
             bindR (raise_for_status r) (\<lambda>_. gitlab_settle c u item))))))"

definition gitlab_disable_user :: "(Failure \<Rightarrow> string) \<Rightarrow> HttpTarget \<Rightarrow> ManagedUser \<Rightarrow> SyncResult http" where
  "gitlab_disable_user txt t u =
    (let c = gitlab_client t in
     except http_key_value_type (gitlab_failure txt)
      (bindR (gitlab_find_user c (u_username u)) (\<lambda>existing.
         case existing of
           None \<Rightarrow> Result (sync_result True ''already absent'')
         | Some item \<Rightarrow> gitlab_block c item)))"

definition gitlab_delete_user :: "(Failure \<Rightarrow> string) \<Rightarrow> HttpTarget \<Rightarrow> ManagedUser \<Rightarrow> SyncResult http" where
  "gitlab_delete_user txt t u =
    (let c = gitlab_client t in
     except http_key_value_type (gitlab_failure txt)
      (bindR (gitlab_find_user c (u_username u)) (\<lambda>existing.
         case existing of
           None \<Rightarrow> Result (sync_result True ''already absent'')
         | Some item \<Rightarrow>
             bindR (gitlab_user_path item []) (\<lambda>path.
             bindR (client_delete c path NoBody) (\<lambda>r.
             bindR (raise_for_status r) (\<lambda>_. Result (sync_result True ''deleted'')))))))"

definition gitlab_probe :: "(Failure \<Rightarrow> string) \<Rightarrow> HttpTarget \<Rightarrow> SyncResult http" where
  "gitlab_probe txt t =
    except http_value_type (\<lambda>e. sync_result False (cat [''GitLab unreachable: '', txt e]))
      (bindR (client_get (gitlab_client t) ''/user'' []) (\<lambda>r.
       bindR (raise_for_status r) (\<lambda>r.
       bindR (response_json r) (\<lambda>v.
       bindR (pureR (py_get ''is_admin'' JNull v)) (\<lambda>admin.
       if py_true admin then Result (sync_result True ''reachable'')
       else Result (sync_result False ''GitLab credential requires administrator access''))))))"

section \<open>The promises of an adapter\<close>

lemma to_gitlab [simp]: "to_target t q \<longleftrightarrow> True" if "hr_client q = gitlab_client t"
  using that by (simp add: to_target_def gitlab_client_def starts_with_def)

lemmas gitlab_wp = gitlab_failure_def gitlab_block_def gitlab_post_def gitlab_user_path_def gitlab_settle_def
  client_defs wp_rules Let_def changing_changes observing_quiet confirmed_def status_confirms_def only_get_def failure_defs

lemma gitlab_find_reads: "wp (gitlab_find_user (gitlab_client t) n) (\<lambda>tr r. quiet_reads t only_get tr)"
  by (auto simp: gitlab_find_user_def gitlab_wp split: sum.splits)

lemma gitlab_ensure_lawful:
  "wp (gitlab_ensure_user txt t u pw) (changing t only_get status_confirms)"
  unfolding gitlab_ensure_user_def Let_def wp_rules
  by (rule wp_mono [OF gitlab_find_reads])
    (auto simp add: gitlab_wp split: option.splits sum.splits Failure.splits)

lemma gitlab_disable_lawful:
  "wp (gitlab_disable_user txt t u) (changing t only_get status_confirms)"
  unfolding gitlab_disable_user_def Let_def wp_rules
  by (rule wp_mono [OF gitlab_find_reads])
    (auto simp add: gitlab_wp split: option.splits sum.splits Failure.splits)

lemma gitlab_delete_lawful:
  "wp (gitlab_delete_user txt t u) (changing t only_get status_confirms)"
  unfolding gitlab_delete_user_def Let_def wp_rules
  by (rule wp_mono [OF gitlab_find_reads])
    (auto simp add: gitlab_wp split: option.splits sum.splits Failure.splits)

lemma gitlab_probe_lawful: "wp (gitlab_probe txt t) (observing t only_get)"
  by (auto simp add: gitlab_probe_def gitlab_wp split: option.splits sum.splits Failure.splits)

lemma gitlab_inspect_lawful: "wp (gitlab_inspect_user t u) (observing t only_get)"
  unfolding gitlab_inspect_user_def wp_rules
  by (rule wp_mono [OF gitlab_find_reads])
    (auto simp add: gitlab_wp split: option.splits sum.splits Failure.splits)

lemma gitlab_discover_lawful: "wp (gitlab_discover_accounts t) (observing t only_get)"
  by (auto simp add: gitlab_discover_accounts_def gitlab_wp split: option.splits sum.splits Failure.splits)

definition gitlab_adapter :: "(Failure \<Rightarrow> string) \<Rightarrow> HttpTarget \<Rightarrow> Adapter" where
  "gitlab_adapter txt t = \<lparr>op_ensure = \<lambda>u pw _. gitlab_ensure_user txt t u pw,
     op_disable = \<lambda>u _. gitlab_disable_user txt t u, op_delete = gitlab_delete_user txt t,
     op_probe = gitlab_probe txt t, op_inspect = \<lambda>u _. gitlab_inspect_user t u,
     op_discover = gitlab_discover_accounts t\<rparr>"

interpretation gitlab: adapter "gitlab_adapter err t" t only_get status_confirms
  for err t
  by unfold_locales (simp_all add: gitlab_adapter_def gitlab_ensure_lawful gitlab_disable_lawful
      gitlab_delete_lawful gitlab_probe_lawful gitlab_inspect_lawful gitlab_discover_lawful)

end
