(* ===== verification/Immich.thy ===== *)
theory Immich
  imports Http
begin

text \<open>The Immich connector, \<open>src/na_sso/connectors/immich.py\<close>.  Accounts are found by their email.\<close>

definition immich_client :: "HttpTarget \<Rightarrow> HttpClient" where
  "immich_client t = http_client t ''/api''
     [(''x-api-key'', ht_secret t), (''Accept'', ''application/json'')] None []"

definition immich_users :: "HttpClient \<Rightarrow> bool \<Rightarrow> json http" where
  "immich_users c with_deleted =
    bindR (client_get c ''/admin/users'' [(''withDeleted'', if with_deleted then ''true'' else ''false'')]) (\<lambda>r.
    bindR (raise_for_status r) response_json)"

definition immich_email_is :: "string \<Rightarrow> json \<Rightarrow> Failure + bool" where
  "immich_email_is email item = bind_sum (get_str ''email'' [] item) (\<lambda>s. Inr (lower s = lower email))"

definition immich_find_user :: "HttpClient \<Rightarrow> string \<Rightarrow> json option http" where
  "immich_find_user c email = bindR (immich_users c True) (\<lambda>v.
     pureR (bind_sum (py_iter v) (find_item (immich_email_is email))))"

definition immich_active :: "json \<Rightarrow> Failure + bool" where
  "immich_active item = bind_sum (py_get ''status'' JNull item) (\<lambda>v. Inr (v = JText ''active''))"

definition immich_snapshot :: "ManagedUser \<Rightarrow> json option \<Rightarrow> Failure + RemoteIdentitySnapshot" where
  "immich_snapshot u existing =
    (let item = found_item existing; some = found existing;
         text_of = (\<lambda>key. bind_sum (py_get key JNull item) (\<lambda>v. Inr (py_str v))) in
     bind_sum (when_given some (text_of ''name'')) (\<lambda>shown.
     bind_sum (when_given some (text_of ''email'')) (\<lambda>email.
     bind_sum (when_given some (immich_active item)) (\<lambda>active.
     Inr (identity_snapshot (existing \<noteq> None) (if some then Some (u_username u) else None) shown email
       (case active of None \<Rightarrow> None | Some b \<Rightarrow> Some (if b then ''active'' else ''disabled'')) None)))))"

definition immich_inspect_user :: "HttpTarget \<Rightarrow> ManagedUser \<Rightarrow> (string + RemoteIdentitySnapshot) http" where
  "immich_inspect_user t u =
    except http_value_type (\<lambda>_. Inl ''Immich identity read failed.'')
      (bindR (immich_find_user (immich_client t) (u_email u)) (\<lambda>existing.
       bindR (pureR (immich_snapshot u existing)) (\<lambda>snap. Result (Inr snap))))"

definition immich_account :: "json \<Rightarrow> Failure + RemoteAccount option" where
  "immich_account item =
    bind_sum (py_get ''email'' JNull item) (\<lambda>v.
      if py_true v then
        bind_sum (get_str ''email'' [] item) (\<lambda>name.
        bind_sum (get_str ''name'' [] item) (\<lambda>shown.
        bind_sum (get_str ''status'' ''unknown'' item) (\<lambda>status.
        Inr (Some (remote_account name shown name status)))))
      else Inr None)"

definition immich_discover_accounts :: "HttpTarget \<Rightarrow> AccountDiscovery http" where
  "immich_discover_accounts t =
    except http_value_type (\<lambda>_. not_discovered ''Immich account discovery failed.'')
      (bindR (immich_users (immich_client t) False) (\<lambda>v.
       bindR (pureR (bind_sum (py_iter v) (collect immich_account))) (\<lambda>accounts.
       Result (accounts_discovered accounts))))"

definition immich_failure :: "(Failure \<Rightarrow> string) \<Rightarrow> Failure \<Rightarrow> SyncResult" where
  "immich_failure txt e = sync_result False (cat [''Immich HTTP error: '', txt e])"

definition immich_user_path :: "json \<Rightarrow> string \<Rightarrow> string http" where
  "immich_user_path existing suffix = pureR (bind_sum (py_item ''id'' existing)
     (\<lambda>v. Inr (cat [''/admin/users/'', py_str v, suffix])))"

definition immich_remove :: "HttpClient \<Rightarrow> json \<Rightarrow> bool \<Rightarrow> string \<Rightarrow> SyncResult http" where
  "immich_remove c existing force detail =
    bindR (immich_user_path existing []) (\<lambda>path.
    bindR (client_delete c path (JsonBody (JObject [(''force'', JBool force)]))) (\<lambda>r.
    bindR (raise_for_status r) (\<lambda>_. Result (sync_result True detail))))"

text \<open>The account to work on: the one just created, or the one that was found, restored when it should be active.\<close>

definition immich_obtain :: "HttpClient \<Rightarrow> ManagedUser \<Rightarrow> string option \<Rightarrow> json option \<Rightarrow> json option http" where
  "immich_obtain c u password existing =
    (case existing of
       None \<Rightarrow>
         (case password of
            None \<Rightarrow> Result None
          | Some p \<Rightarrow>
              bindR (client_post c ''/admin/users'' (JsonBody (JObject
                [(''email'', JText (u_email u)), (''name'', JText (u_display_name u)), (''password'', JText p),
                 (''notify'', JBool False), (''shouldChangePassword'', JBool False)]))) (\<lambda>r.
              bindR (raise_for_status r) (\<lambda>r.
              bindR (response_json r) (\<lambda>v. Result (Some v)))))
     | Some item \<Rightarrow>
         bindR (pureR (immich_active item)) (\<lambda>active.
         if \<not> active \<and> u_status u \<noteq> US_DISABLED then
           bindR (immich_user_path item ''/restore'') (\<lambda>path.
           bindR (client_post c path NoBody) (\<lambda>r.
           bindR (raise_for_status r) (\<lambda>_. Result (Some item))))
         else Result (Some item)))"

definition immich_settle :: "HttpClient \<Rightarrow> ManagedUser \<Rightarrow> string option \<Rightarrow> json \<Rightarrow> SyncResult http" where
  "immich_settle c u password existing =
    (if u_status u = US_DISABLED then
       bindR (pureR (immich_active existing)) (\<lambda>active.
         if \<not> active then Result (sync_result True ''already disabled'')
         else immich_remove c existing False ''disabled'')
     else
       bindR (immich_user_path existing []) (\<lambda>path.
       bindR (client_put c path (JsonBody (JObject (
         [(''email'', JText (u_email u)), (''name'', JText (u_display_name u)),
          (''shouldChangePassword'', JBool False)] @
         (case password of None \<Rightarrow> [] | Some p \<Rightarrow> [(''password'', JText p)]))))) (\<lambda>r.
       bindR (raise_for_status r) (\<lambda>_. Result (sync_result True ''saved'')))))"

definition immich_ensure_user :: "(Failure \<Rightarrow> string) \<Rightarrow> HttpTarget \<Rightarrow> ManagedUser \<Rightarrow> string option \<Rightarrow> SyncResult http" where
  "immich_ensure_user txt t u password =
    (let c = immich_client t in
     except http_key_value_type (immich_failure txt)
      (bindR (immich_find_user c (u_email u)) (\<lambda>existing.
       bindR (immich_obtain c u password existing) (\<lambda>account.
         case account of
           None \<Rightarrow> Result (sync_result False ''Immich requires a password for a new user'')
         | Some item \<Rightarrow> immich_settle c u password item))))"

definition immich_disable_user :: "(Failure \<Rightarrow> string) \<Rightarrow> HttpTarget \<Rightarrow> ManagedUser \<Rightarrow> SyncResult http" where
  "immich_disable_user txt t u =
    (let c = immich_client t in
     except http_key_value_type (immich_failure txt)
      (bindR (immich_find_user c (u_email u)) (\<lambda>existing.
         case existing of
           None \<Rightarrow> Result (sync_result True ''already disabled or absent'')
         | Some item \<Rightarrow> bindR (pureR (immich_active item)) (\<lambda>active.
             if \<not> active then Result (sync_result True ''already disabled or absent'')
             else immich_remove c item False ''disabled''))))"

definition immich_delete_user :: "(Failure \<Rightarrow> string) \<Rightarrow> HttpTarget \<Rightarrow> ManagedUser \<Rightarrow> SyncResult http" where
  "immich_delete_user txt t u =
    (let c = immich_client t in
     except http_key_value_type (immich_failure txt)
      (bindR (immich_find_user c (u_email u)) (\<lambda>existing.
         case existing of
           None \<Rightarrow> Result (sync_result True ''already absent'')
         | Some item \<Rightarrow> immich_remove c item True ''deleted'')))"

definition immich_probe :: "(Failure \<Rightarrow> string) \<Rightarrow> HttpTarget \<Rightarrow> SyncResult http" where
  "immich_probe txt t =
    except http_value_type (\<lambda>e. sync_result False (cat [''Immich unreachable: '', txt e]))
      (bindR (immich_users (immich_client t) False) (\<lambda>_. Result (sync_result True ''reachable'')))"

section \<open>The promises of an adapter\<close>

lemma to_immich [simp]: "to_target t q \<longleftrightarrow> True" if "hr_client q = immich_client t"
  using that by (simp add: to_target_def immich_client_def starts_with_def)

lemmas immich_wp = immich_failure_def immich_remove_def immich_user_path_def immich_settle_def immich_obtain_def
  immich_users_def client_defs wp_rules Let_def changing_changes observing_quiet confirmed_def
  status_confirms_def only_get_def failure_defs

lemma immich_find_reads: "wp (immich_find_user (immich_client t) n) (\<lambda>tr r. quiet_reads t only_get tr)"
  by (auto simp: immich_find_user_def immich_wp split: sum.splits)

lemma immich_obtain_step:
  "wp (immich_obtain (immich_client t) u pw existing) (step_taken t only_get status_confirms)"
  by (auto simp add: immich_wp step_taken_def split: option.splits sum.splits)

lemma immich_settle_step:
  "wp (immich_settle (immich_client t) u pw existing) (step_ended t only_get status_confirms)"
  by (auto simp add: immich_wp step_ended_def split: option.splits sum.splits)

lemma immich_ensure_lawful:
  "wp (immich_ensure_user txt t u pw) (changing t only_get status_confirms)"
  unfolding immich_ensure_user_def Let_def wp_rules
  by (rule wp_quiet [OF immich_find_reads])
    (auto simp add: wp_rules changing_changes immich_failure_def failure_defs intro: changes_weak
      intro!: wp_step_taken [OF immich_obtain_step] wp_step_ended [OF immich_settle_step]
      split: option.splits sum.splits Failure.splits)

lemma immich_disable_lawful:
  "wp (immich_disable_user txt t u) (changing t only_get status_confirms)"
  unfolding immich_disable_user_def Let_def wp_rules
  by (rule wp_mono [OF immich_find_reads])
    (auto simp add: immich_wp split: option.splits sum.splits Failure.splits)

lemma immich_delete_lawful:
  "wp (immich_delete_user txt t u) (changing t only_get status_confirms)"
  unfolding immich_delete_user_def Let_def wp_rules
  by (rule wp_mono [OF immich_find_reads])
    (auto simp add: immich_wp split: option.splits sum.splits Failure.splits)

lemma immich_probe_lawful: "wp (immich_probe txt t) (observing t only_get)"
  by (auto simp add: immich_probe_def immich_wp split: option.splits sum.splits Failure.splits)

lemma immich_inspect_lawful: "wp (immich_inspect_user t u) (observing t only_get)"
  unfolding immich_inspect_user_def wp_rules
  by (rule wp_mono [OF immich_find_reads])
    (auto simp add: immich_wp split: option.splits sum.splits Failure.splits)

lemma immich_discover_lawful: "wp (immich_discover_accounts t) (observing t only_get)"
  by (auto simp add: immich_discover_accounts_def immich_wp split: option.splits sum.splits Failure.splits)

definition immich_adapter :: "(Failure \<Rightarrow> string) \<Rightarrow> HttpTarget \<Rightarrow> Adapter" where
  "immich_adapter txt t = \<lparr>op_ensure = \<lambda>u pw _. immich_ensure_user txt t u pw,
     op_disable = \<lambda>u _. immich_disable_user txt t u, op_delete = immich_delete_user txt t,
     op_probe = immich_probe txt t, op_inspect = \<lambda>u _. immich_inspect_user t u,
     op_discover = immich_discover_accounts t\<rparr>"

interpretation immich: adapter "immich_adapter err t" t only_get status_confirms
  for err t
  by unfold_locales (simp_all add: immich_adapter_def immich_ensure_lawful immich_disable_lawful
      immich_delete_lawful immich_probe_lawful immich_inspect_lawful immich_discover_lawful)

end
