(* ===== verification/Jenkins.thy ===== *)
theory Jenkins
  imports Http
begin

text \<open>The Jenkins connector, \<open>src/na_sso/connectors/jenkins.py\<close>, for the local security realm.\<close>

definition jenkins_client :: "HttpTarget \<Rightarrow> HttpClient" where
  "jenkins_client t = http_client t [] [] (basic_auth t) []"

text \<open>The header that protects a form against forged requests, when the controller issues one.\<close>

definition jenkins_crumb :: "HttpClient \<Rightarrow> (string \<times> string) list http" where
  "jenkins_crumb c =
    bindR (client_get c ''/crumbIssuer/api/json'' []) (\<lambda>r.
      if hp_status r = 404 then Result []
      else bindR (raise_for_status r) (\<lambda>r.
           bindR (response_json r) (\<lambda>v.
           pureR (bind_sum (py_item ''crumbRequestField'' v) (\<lambda>field.
                  bind_sum (py_item ''crumb'' v) (\<lambda>crumb. Inr [(py_str field, py_str crumb)]))))))"

definition jenkins_find_user :: "HttpClient \<Rightarrow> string \<Rightarrow> json option http" where
  "jenkins_find_user c name =
    bindR (client_get c (cat [''/user/'', quote_all name, ''/api/json'']) []) (\<lambda>r.
      if hp_status r = 404 then Result None
      else bindR (raise_for_status r) (\<lambda>r.
           bindR (response_json r) (\<lambda>v. Result (if v = JNull then None else Some v))))"

definition jenkins_snapshot :: "json option \<Rightarrow> Failure + RemoteIdentitySnapshot" where
  "jenkins_snapshot existing =
    (let item = found_item existing; some = found existing in
     bind_sum (when_given some (bind_sum (py_get ''id'' JNull item) (\<lambda>v. Inr (py_str v)))) (\<lambda>name.
     bind_sum (when_given some (get_str ''fullName'' [] item)) (\<lambda>shown.
     Inr (identity_snapshot (existing \<noteq> None) name shown None None None))))"

definition jenkins_inspect_user :: "HttpTarget \<Rightarrow> ManagedUser \<Rightarrow> (string + RemoteIdentitySnapshot) http" where
  "jenkins_inspect_user t u =
    except http_value_type (\<lambda>_. Inl ''Jenkins identity read failed.'')
      (bindR (jenkins_find_user (jenkins_client t) (u_username u)) (\<lambda>existing.
       bindR (pureR (jenkins_snapshot existing)) (\<lambda>snap. Result (Inr snap))))"

definition jenkins_account :: "json \<Rightarrow> Failure + RemoteAccount option" where
  "jenkins_account item =
    bind_sum (py_get ''user'' item item) (\<lambda>remote.
    bind_sum (py_get ''id'' JNull remote) (\<lambda>v.
      if py_true v then
        bind_sum (get_str ''fullName'' [] remote) (\<lambda>shown.
        Inr (Some (remote_account (py_str v) shown [] ''active'')))
      else Inr None))"

definition jenkins_discover_accounts :: "HttpTarget \<Rightarrow> AccountDiscovery http" where
  "jenkins_discover_accounts t =
    except http_value_type (\<lambda>_. not_discovered ''Jenkins account discovery failed.'')
      (bindR (client_get (jenkins_client t) ''/asynchPeople/api/json''
         [(''tree'', ''users[user[id,fullName]]'')]) (\<lambda>r.
       bindR (raise_for_status r) (\<lambda>r.
       bindR (response_json r) (\<lambda>v.
       bindR (pureR (bind_sum (py_get ''users'' (JArray []) v) (\<lambda>users.
         bind_sum (py_iter users) (collect jenkins_account)))) (\<lambda>accounts.
       Result (accounts_discovered accounts))))))"

definition jenkins_failure :: "(Failure \<Rightarrow> string) \<Rightarrow> Failure \<Rightarrow> SyncResult" where
  "jenkins_failure txt e = sync_result False (cat [''Jenkins HTTP error: '', txt e])"

text \<open>A redirection is an answer here: only a status of 400 or more is an error.\<close>

definition jenkins_checked :: "HttpResponse \<Rightarrow> HttpResponse http" where
  "jenkins_checked r = (if hp_status r \<ge> 400 then raise_for_status r else Result r)"

definition jenkins_ensure_user :: "(Failure \<Rightarrow> string) \<Rightarrow> HttpTarget \<Rightarrow> ManagedUser \<Rightarrow> string option \<Rightarrow> SyncResult http" where
  "jenkins_ensure_user txt t u password =
    (let c = jenkins_client t in
     except http_key_value_type (jenkins_failure txt)
      (bindR (jenkins_find_user c (u_username u)) (\<lambda>existing.
         if existing \<noteq> None then Result (sync_result True ''already present'')
         else
           (case password of
              None \<Rightarrow> Result (sync_result False ''Jenkins requires a password for a new local-realm user'')
            | Some p \<Rightarrow>
                bindR (jenkins_crumb c) (\<lambda>headers.
                bindR (send c ''POST'' ''/securityRealm/createAccountByAdmin'' [] headers (FormBody
                  [(''username'', u_username u), (''password1'', p), (''password2'', p),
                   (''fullname'', display_or_username u), (''email'', u_email u)])) (\<lambda>r.
                bindR (jenkins_checked r) (\<lambda>_.
                bindR (jenkins_find_user c (u_username u)) (\<lambda>created.
                if created = None then
                  Result (sync_result False ''Jenkins security realm rejected the account creation'')
                else Result (sync_result True ''created'')))))))))"

definition jenkins_disable_user :: "ManagedUser \<Rightarrow> SyncResult http" where
  "jenkins_disable_user u = Result (sync_result False
     (cat [''Jenkins core cannot safely disable a local account; '',
           ''use delete or a realm-specific authorization policy'']))"

definition jenkins_delete_user :: "(Failure \<Rightarrow> string) \<Rightarrow> HttpTarget \<Rightarrow> ManagedUser \<Rightarrow> SyncResult http" where
  "jenkins_delete_user txt t u =
    (let c = jenkins_client t in
     except http_key_value_type (jenkins_failure txt)
      (bindR (jenkins_find_user c (u_username u)) (\<lambda>existing.
         if existing = None then Result (sync_result True ''already absent'')
         else
           bindR (jenkins_crumb c) (\<lambda>headers.
           bindR (send c ''POST'' (cat [''/user/'', quote_all (u_username u), ''/doDelete'']) [] headers NoBody) (\<lambda>r.
           bindR (jenkins_checked r) (\<lambda>_. Result (sync_result True ''deleted'')))))))"

definition jenkins_probe :: "(Failure \<Rightarrow> string) \<Rightarrow> HttpTarget \<Rightarrow> SyncResult http" where
  "jenkins_probe txt t =
    except is_http_error (\<lambda>e. sync_result False (cat [''Jenkins unreachable: '', txt e]))
      (bindR (client_get (jenkins_client t) ''/api/json'' []) (\<lambda>r.
       bindR (raise_for_status r) (\<lambda>_. Result (sync_result True ''reachable''))))"

section \<open>The promises of an adapter\<close>

definition jenkins_confirms :: "HttpRequest \<Rightarrow> Exchange \<Rightarrow> bool" where
  "jenkins_confirms q x \<longleftrightarrow> (case x of Answered p \<Rightarrow> hp_status p < 400 | _ \<Rightarrow> False)"

lemma to_jenkins [simp]: "to_target t q \<longleftrightarrow> True" if "hr_client q = jenkins_client t"
  using that by (simp add: to_target_def jenkins_client_def starts_with_def)

lemma error_status: "is_success r \<Longrightarrow> hp_status r < 400" "is_success r \<Longrightarrow> \<not> 400 \<le> hp_status r"
  by (simp_all add: is_success_def in_range_def)

lemmas jenkins_wp = jenkins_failure_def jenkins_checked_def
  client_defs wp_rules Let_def changing_changes observing_quiet confirmed_def
  jenkins_confirms_def only_get_def failure_defs

lemma jenkins_find_reads: "wp (jenkins_find_user (jenkins_client t) n) (\<lambda>tr r. quiet_reads t only_get tr)"
  by (auto simp: jenkins_find_user_def jenkins_wp split: sum.splits option.splits)

lemma jenkins_crumb_reads: "wp (jenkins_crumb (jenkins_client t)) (\<lambda>tr r. quiet_reads t only_get tr)"
  by (auto simp: jenkins_crumb_def jenkins_wp split: sum.splits option.splits)

lemma jenkins_ensure_lawful:
  "wp (jenkins_ensure_user txt t u pw) (changing t only_get jenkins_confirms)"
proof -
  let ?c = "jenkins_client t"
  have again: "wp (jenkins_find_user ?c n) R" if "\<And>tr r. quiet_reads t only_get tr \<Longrightarrow> R tr r" for n R
    by (rule wp_mono [OF jenkins_find_reads that])
  have crumb: "wp (jenkins_crumb ?c) R" if "\<And>tr r. quiet_reads t only_get tr \<Longrightarrow> R tr r" for R
    by (rule wp_mono [OF jenkins_crumb_reads that])
  show ?thesis
    unfolding jenkins_ensure_user_def Let_def wp_rules
    by (rule again)
      (auto simp add: jenkins_wp error_status intro!: crumb again split: option.splits sum.splits Failure.splits)
qed

lemma jenkins_disable_lawful:
  "wp (jenkins_disable_user u) (changing t only_get jenkins_confirms)"
  by (simp add: jenkins_disable_user_def changing_changes)

lemma jenkins_delete_lawful:
  "wp (jenkins_delete_user txt t u) (changing t only_get jenkins_confirms)"
proof -
  have crumb: "wp (jenkins_crumb (jenkins_client t)) R" if "\<And>tr r. quiet_reads t only_get tr \<Longrightarrow> R tr r" for R
    by (rule wp_mono [OF jenkins_crumb_reads that])
  show ?thesis
    unfolding jenkins_delete_user_def Let_def wp_rules
    by (rule wp_mono [OF jenkins_find_reads])
      (auto simp add: jenkins_wp error_status intro!: crumb split: option.splits sum.splits Failure.splits)
qed

lemma jenkins_probe_lawful: "wp (jenkins_probe txt t) (observing t only_get)"
  by (auto simp add: jenkins_probe_def jenkins_wp split: option.splits sum.splits Failure.splits)

lemma jenkins_inspect_lawful: "wp (jenkins_inspect_user t u) (observing t only_get)"
  unfolding jenkins_inspect_user_def wp_rules
  by (rule wp_mono [OF jenkins_find_reads])
    (auto simp add: jenkins_wp split: option.splits sum.splits Failure.splits)

lemma jenkins_discover_lawful: "wp (jenkins_discover_accounts t) (observing t only_get)"
  by (auto simp add: jenkins_discover_accounts_def jenkins_wp split: option.splits sum.splits Failure.splits)

definition jenkins_adapter :: "(Failure \<Rightarrow> string) \<Rightarrow> HttpTarget \<Rightarrow> Adapter" where
  "jenkins_adapter txt t = \<lparr>op_ensure = \<lambda>u pw _. jenkins_ensure_user txt t u pw,
     op_disable = \<lambda>u _. jenkins_disable_user u, op_delete = jenkins_delete_user txt t,
     op_probe = jenkins_probe txt t, op_inspect = \<lambda>u _. jenkins_inspect_user t u,
     op_discover = jenkins_discover_accounts t\<rparr>"

interpretation jenkins: adapter "jenkins_adapter err t" t only_get jenkins_confirms
  for err t
  by unfold_locales (simp_all add: jenkins_adapter_def jenkins_ensure_lawful jenkins_disable_lawful
      jenkins_delete_lawful jenkins_probe_lawful jenkins_inspect_lawful jenkins_discover_lawful)

end
