(* ===== verification/Nexus.thy ===== *)
theory Nexus
  imports Http
begin

text \<open>The Nexus Repository connector, \<open>src/na_sso/connectors/nexus.py\<close>, for the local users.\<close>

definition nexus_client :: "HttpTarget \<Rightarrow> HttpClient" where
  "nexus_client t = http_client t ''/service/rest/v1'' [] (basic_auth t) []"

text \<open>\<open>str.split(maxsplit=1)\<close> on white space.\<close>

definition split_once :: "string \<Rightarrow> string list" where
  "split_once s =
    (let s1 = dropWhile is_space s; w = takeWhile (\<lambda>c. \<not> is_space c) s1;
         rest = dropWhile is_space (drop (length w) s1) in
     if s1 = [] then [] else if rest = [] then [w] else [w, rest])"

definition nexus_status :: "ManagedUser \<Rightarrow> string" where
  "nexus_status u = (if u_status u = US_DISABLED then ''disabled'' else ''active'')"

text \<open>The fields of an account that both requests carry, and those that only an update carries.\<close>

definition nexus_fields :: "ManagedUser \<Rightarrow> string list \<Rightarrow> (string \<times> json) list" where
  "nexus_fields u names =
    [(''userId'', JText (u_username u)), (''firstName'', JText (hd names)),
     (''lastName'', JText (if length names > 1 then names ! 1 else [])),
     (''emailAddress'', JText (u_email u))]"

definition nexus_user_payload :: "ManagedUser \<Rightarrow> string set \<Rightarrow> Failure + json" where
  "nexus_user_payload u memberships =
    (let names = split_once (display_or_username u) in
     if names = [] then Inl (IndexError ''list index out of range'')
     else Inr (JObject (nexus_fields u names @
       [(''source'', JText ''default''), (''status'', JText (nexus_status u)), (''readOnly'', JBool False),
        (''roles'', json_names memberships), (''externalRoles'', JArray [])])))"

definition nexus_create_payload :: "ManagedUser \<Rightarrow> string \<Rightarrow> string set \<Rightarrow> json" where
  "nexus_create_payload u password memberships =
    JObject (nexus_fields u (split_once (display_or_username u)) @
      [(''status'', JText (nexus_status u)), (''roles'', json_names memberships), (''password'', JText password)])"

definition nexus_id_is :: "string \<Rightarrow> json \<Rightarrow> Failure + bool" where
  "nexus_id_is name item = bind_sum (py_get ''userId'' JNull item) (\<lambda>v. Inr (v = JText name))"

definition nexus_find_user :: "HttpClient \<Rightarrow> string \<Rightarrow> json option http" where
  "nexus_find_user c name =
    bindR (client_get c ''/security/users'' [(''userId'', name), (''source'', ''default'')]) (\<lambda>r.
    bindR (raise_for_status r) (\<lambda>r.
    bindR (response_json r) (\<lambda>v.
    pureR (bind_sum (py_iter v) (find_item (nexus_id_is name))))))"

text \<open>The first and the last name, without the empty ones.\<close>

definition nexus_display_name :: "json \<Rightarrow> Failure + string" where
  "nexus_display_name item =
    bind_sum (get_str ''firstName'' [] item) (\<lambda>f.
    bind_sum (get_str ''lastName'' [] item) (\<lambda>l.
    Inr (join_with '' '' (filter (\<lambda>s. s \<noteq> []) [strip f, strip l]))))"

definition nexus_roles :: "json \<Rightarrow> string set option" where
  "nexus_roles v = (case v of JArray xs \<Rightarrow> Some (set (map py_str xs)) | _ \<Rightarrow> None)"

definition nexus_snapshot :: "json option \<Rightarrow> Failure + RemoteIdentitySnapshot" where
  "nexus_snapshot existing =
    (let item = found_item existing; some = found existing in
     bind_sum (when_given (existing \<noteq> None) (nexus_display_name item)) (\<lambda>shown.
     bind_sum (when_given some (bind_sum (py_get ''userId'' JNull item) (\<lambda>v. Inr (py_str v)))) (\<lambda>name.
     bind_sum (when_given some (get_present ''emailAddress'' item)) (\<lambda>email.
     bind_sum (when_given some (get_present ''status'' item)) (\<lambda>status.
     bind_sum (when_given some (py_get ''roles'' JNull item)) (\<lambda>roles.
     Inr (identity_snapshot (existing \<noteq> None) name shown (Option.bind email (\<lambda>e. e))
       (map_option lower (Option.bind status (\<lambda>s. s))) (Option.bind roles nexus_roles))))))))"

definition nexus_inspect_user_for_assignment :: "HttpTarget \<Rightarrow> ManagedUser \<Rightarrow> (string + RemoteIdentitySnapshot) http" where
  "nexus_inspect_user_for_assignment t u =
    except http_value_type (\<lambda>_. Inl ''Nexus identity read failed.'')
      (bindR (nexus_find_user (nexus_client t) (u_username u)) (\<lambda>existing.
       bindR (pureR (nexus_snapshot existing)) (\<lambda>snap. Result (Inr snap))))"

definition nexus_account :: "json \<Rightarrow> Failure + RemoteAccount option" where
  "nexus_account item =
    bind_sum (py_get ''userId'' JNull item) (\<lambda>v.
      if py_true v then
        bind_sum (nexus_display_name item) (\<lambda>shown.
        bind_sum (get_str ''emailAddress'' [] item) (\<lambda>email.
        bind_sum (get_str ''status'' ''unknown'' item) (\<lambda>status.
        Inr (Some (remote_account (py_str v) shown email (lower status))))))
      else Inr None)"

definition nexus_discover_accounts :: "HttpTarget \<Rightarrow> AccountDiscovery http" where
  "nexus_discover_accounts t =
    except http_value_type (\<lambda>_. not_discovered ''Nexus account discovery failed.'')
      (bindR (client_get (nexus_client t) ''/security/users'' [(''source'', ''default'')]) (\<lambda>r.
       bindR (raise_for_status r) (\<lambda>r.
       bindR (response_json r) (\<lambda>v.
       bindR (pureR (bind_sum (py_iter v) (collect nexus_account))) (\<lambda>accounts.
       Result (accounts_discovered accounts))))))"

definition nexus_failure :: "(Failure \<Rightarrow> string) \<Rightarrow> Failure \<Rightarrow> SyncResult" where
  "nexus_failure txt e = sync_result False (cat [''nexus http error: '', txt e])"

definition nexus_user_path :: "ManagedUser \<Rightarrow> string" where
  "nexus_user_path u = cat [''/security/users/'', u_username u]"

definition nexus_ensure_user_for_assignment ::
  "(Failure \<Rightarrow> string) \<Rightarrow> HttpTarget \<Rightarrow> ManagedUser \<Rightarrow> string option \<Rightarrow> string set \<Rightarrow> SyncResult http" where
  "nexus_ensure_user_for_assignment txt t u password memberships =
    (let c = nexus_client t in
     except is_http_error (nexus_failure txt)
      (bindR (nexus_find_user c (u_username u)) (\<lambda>existing.
       bindR (pureR (nexus_user_payload u memberships)) (\<lambda>payload.
         if found existing then
           bindR (client_put c (nexus_user_path u) (JsonBody payload)) (\<lambda>r.
           bindR (raise_for_status r) (\<lambda>_.
             case password of
               None \<Rightarrow> Result (sync_result True ''saved'')
             | Some p \<Rightarrow>
                 bindR (send c ''PUT'' (cat [nexus_user_path u, ''/change-password'']) []
                          [(''Content-Type'', ''text/plain'')] (TextBody p)) (\<lambda>r.
                 bindR (raise_for_status r) (\<lambda>_. Result (sync_result True ''saved'')))))
         else
           (case password of
              None \<Rightarrow> Result (sync_result False ''nexus requires a password for a new user'')
            | Some p \<Rightarrow>
                bindR (client_post c ''/security/users'' (JsonBody (nexus_create_payload u p memberships))) (\<lambda>r.
                bindR (raise_for_status r) (\<lambda>_. Result (sync_result True ''saved''))))))))"

definition nexus_disable_user_for_assignment ::
  "(Failure \<Rightarrow> string) \<Rightarrow> HttpTarget \<Rightarrow> ManagedUser \<Rightarrow> string set \<Rightarrow> SyncResult http" where
  "nexus_disable_user_for_assignment txt t u memberships =
     nexus_ensure_user_for_assignment txt t u None memberships"

definition nexus_delete_user :: "(Failure \<Rightarrow> string) \<Rightarrow> HttpTarget \<Rightarrow> ManagedUser \<Rightarrow> SyncResult http" where
  "nexus_delete_user txt t u =
    except is_http_error (nexus_failure txt)
      (bindR (client_delete (nexus_client t) (nexus_user_path u) NoBody) (\<lambda>r.
         if hp_status r = 404 then Result (sync_result True ''already absent'')
         else bindR (raise_for_status r) (\<lambda>_. Result (sync_result True ''deleted''))))"

definition nexus_probe :: "(Failure \<Rightarrow> string) \<Rightarrow> HttpTarget \<Rightarrow> SyncResult http" where
  "nexus_probe txt t =
    except is_http_error (\<lambda>e. sync_result False (cat [''nexus unreachable: '', txt e]))
      (bindR (client_get (nexus_client t) ''/security/users''
         [(''userId'', ht_admin_user t), (''source'', ''default'')]) (\<lambda>r.
       bindR (raise_for_status r) (\<lambda>_. Result (sync_result True ''reachable''))))"

section \<open>The promises of an adapter\<close>

lemma to_nexus [simp]: "to_target t q \<longleftrightarrow> True" if "hr_client q = nexus_client t"
  using that by (simp add: to_target_def nexus_client_def starts_with_def)

lemmas nexus_wp = nexus_failure_def
  client_defs wp_rules Let_def changing_changes observing_quiet confirmed_def status_confirms_def only_get_def failure_defs

lemma nexus_find_reads: "wp (nexus_find_user (nexus_client t) n) (\<lambda>tr r. quiet_reads t only_get tr)"
  by (auto simp: nexus_find_user_def nexus_wp split: sum.splits)

lemma nexus_ensure_lawful:
  "wp (nexus_ensure_user_for_assignment txt t u pw ms) (changing t only_get status_confirms)"
  unfolding nexus_ensure_user_for_assignment_def Let_def wp_rules
  by (rule wp_quiet [OF nexus_find_reads])
    (auto simp add: nexus_wp nexus_user_payload_def split: option.splits sum.splits Failure.splits)

lemma nexus_disable_lawful:
  "wp (nexus_disable_user_for_assignment txt t u ms) (changing t only_get status_confirms)"
  unfolding nexus_disable_user_for_assignment_def by (rule nexus_ensure_lawful)

lemma nexus_delete_lawful:
  "wp (nexus_delete_user txt t u) (changing t only_get status_confirms)"
  by (auto simp add: nexus_delete_user_def nexus_wp split: option.splits sum.splits Failure.splits)

lemma nexus_probe_lawful: "wp (nexus_probe txt t) (observing t only_get)"
  by (auto simp add: nexus_probe_def nexus_wp split: option.splits sum.splits Failure.splits)

lemma nexus_inspect_lawful: "wp (nexus_inspect_user_for_assignment t u) (observing t only_get)"
  unfolding nexus_inspect_user_for_assignment_def wp_rules
  by (rule wp_quiet [OF nexus_find_reads])
    (auto simp add: nexus_wp split: option.splits sum.splits Failure.splits)

lemma nexus_discover_lawful: "wp (nexus_discover_accounts t) (observing t only_get)"
  by (auto simp add: nexus_discover_accounts_def nexus_wp split: option.splits sum.splits Failure.splits)

definition nexus_adapter :: "(Failure \<Rightarrow> string) \<Rightarrow> HttpTarget \<Rightarrow> Adapter" where
  "nexus_adapter txt t = \<lparr>op_ensure = nexus_ensure_user_for_assignment txt t,
     op_disable = nexus_disable_user_for_assignment txt t, op_delete = nexus_delete_user txt t,
     op_probe = nexus_probe txt t, op_inspect = \<lambda>u _. nexus_inspect_user_for_assignment t u,
     op_discover = nexus_discover_accounts t\<rparr>"

interpretation nexus: adapter "nexus_adapter err t" t only_get status_confirms
  for err t
  by unfold_locales (simp_all add: nexus_adapter_def nexus_ensure_lawful nexus_disable_lawful
      nexus_delete_lawful nexus_probe_lawful nexus_inspect_lawful nexus_discover_lawful)

end
