(* ===== verification/Npm.thy ===== *)
theory Npm
  imports Http
begin

text \<open>The Nginx Proxy Manager connector, \<open>src/na_sso/connectors/npm.py\<close>.  A session begins with a token, which
  the later requests carry; accounts are found by their email.\<close>

definition npm_client :: "HttpTarget \<Rightarrow> HttpClient" where
  "npm_client t = (http_client t ''/api'' [(''Accept'', ''application/json'')] None [])\<lparr>hc_timeout := operation_timeout\<rparr>"

definition with_token :: "string \<Rightarrow> HttpClient \<Rightarrow> HttpClient" where
  "with_token token c = c\<lparr>hc_headers := hc_headers c @ [(''Authorization'', cat [''Bearer '', token])]\<rparr>"

text \<open>The token in the answer of \<open>/tokens\<close>.\<close>

definition npm_token :: "json \<Rightarrow> Failure + string" where
  "npm_token payload =
    (if \<not> is_dict payload then Inl (ValueError ''NPM token response was not an object'')
     else bind_sum (py_get ''requires_2fa'' JNull payload) (\<lambda>v.
       bind_sum (py_get ''challenge_token'' JNull payload) (\<lambda>w.
         if py_true v \<or> py_true w then
           Inl (NpmAuthenticationError ''NPM management accounts requiring 2FA are unsupported'')
         else bind_sum (py_get ''token'' JNull payload) (\<lambda>token.
           case token of
             JText s \<Rightarrow> if s = [] then Inl (ValueError ''NPM token response did not contain a token'') else Inr s
           | _ \<Rightarrow> Inl (ValueError ''NPM token response did not contain a token'')))))"

definition npm_authenticate :: "HttpTarget \<Rightarrow> HttpClient http" where
  "npm_authenticate t =
    (let c = npm_client t in
     bindR (client_post c ''/tokens'' (JsonBody (JObject
       [(''identity'', JText (ht_admin_user t)), (''secret'', JText (ht_secret t))]))) (\<lambda>r.
     bindR (raise_for_status r) (\<lambda>r.
     bindR (response_json r) (\<lambda>payload.
     bindR (pureR (npm_token payload)) (\<lambda>token. Result (with_token token c))))))"

definition npm_users :: "HttpClient \<Rightarrow> json list http" where
  "npm_users c =
    bindR (client_get c ''/users'' []) (\<lambda>r.
    bindR (raise_for_status r) (\<lambda>r.
    bindR (response_json r) (\<lambda>payload.
      case payload of
        JArray xs \<Rightarrow> Result (filter is_dict xs)
      | _ \<Rightarrow> Raise (ValueError ''NPM users response was not a list''))))"

definition npm_email_is :: "string \<Rightarrow> json \<Rightarrow> Failure + bool" where
  "npm_email_is wanted item = bind_sum (get_str ''email'' [] item) (\<lambda>s. Inr (lower (strip s) = wanted))"

definition npm_find_user :: "HttpClient \<Rightarrow> string \<Rightarrow> json option http" where
  "npm_find_user c email =
    bindR (npm_users c) (\<lambda>users. pureR (find_item (npm_email_is (lower (strip email))) users))"

definition npm_user_payload :: "ManagedUser \<Rightarrow> bool \<Rightarrow> (string \<times> json) list" where
  "npm_user_payload u disabled =
    [(''name'', JText (u_display_name u)), (''nickname'', JText (u_username u)), (''email'', JText (u_email u)),
     (''is_disabled'', JBool disabled)]"

definition npm_status_kind :: "nat \<Rightarrow> bool \<Rightarrow> ConnectorErrorKind \<times> bool" where
  "npm_status_kind status authenticating =
    (if status \<in> {401, 403} \<or> (authenticating \<and> status = 400) then (AUTHENTICATION, False)
     else if status = 400 then (VALIDATION, False)
     else if status = 404 then (NOT_FOUND, False)
     else if status = 409 then (CONFLICT, False)
     else if status = 429 then (RATE_LIMITED, True)
     else if status \<ge> 500 then (UNAVAILABLE, True)
     else (REMOTE_REJECTED, False))"

definition npm_failure :: "string \<Rightarrow> bool \<Rightarrow> Failure \<Rightarrow> SyncResult" where
  "npm_failure action authenticating e = (case e of
     TimeoutException _ \<Rightarrow> failed_result (cat [''NPM '', action, '' timed out'']) TIMEOUT True
   | RequestError _ \<Rightarrow> failed_result (cat [''NPM '', action, '' is unavailable'']) UNAVAILABLE True
   | NpmAuthenticationError _ \<Rightarrow>
       failed_result ''NPM management authentication requires unsupported 2FA'' AUTHENTICATION False
   | HTTPStatusError r \<Rightarrow>
       (case npm_status_kind (hp_status r) authenticating of (kind, retryable) \<Rightarrow>
          failed_result (cat [''NPM '', action, '' failed with HTTP '', show_nat (hp_status r)]) kind retryable)
   | _ \<Rightarrow> failed_result (cat [''NPM '', action, '' received an invalid response'']) REMOTE_REJECTED False)"

text \<open>A changing method: authenticate, then the work; the flag \<open>authenticating\<close> tells the two apart when one fails.\<close>

definition npm_session :: "HttpTarget \<Rightarrow> string \<Rightarrow> (HttpClient \<Rightarrow> SyncResult http) \<Rightarrow> SyncResult http" where
  "npm_session t action work =
    bindR (except http_key_value_type (\<lambda>e. Inl (npm_failure ''authentication'' True e))
             (bindR (npm_authenticate t) (\<lambda>c. Result (Inr c)))) (\<lambda>session.
      case session of
        Inl failure \<Rightarrow> Result failure
      | Inr c \<Rightarrow> except http_key_value_type (npm_failure action False) (work c))"

definition npm_snapshot :: "json option \<Rightarrow> Failure + RemoteIdentitySnapshot" where
  "npm_snapshot existing =
    (let item = found_item existing; some = found existing in
     bind_sum (when_given some (get_str ''nickname'' [] item)) (\<lambda>name.
     bind_sum (when_given some (get_str ''name'' [] item)) (\<lambda>shown.
     bind_sum (when_given some (get_str ''email'' [] item)) (\<lambda>email.
     bind_sum (when_given some (py_get ''is_disabled'' JNull item)) (\<lambda>disabled.
     Inr (identity_snapshot (existing \<noteq> None) name shown email
       (case disabled of None \<Rightarrow> None | Some v \<Rightarrow> Some (if py_true v then ''disabled'' else ''active'')) None))))))"

definition npm_inspect_user :: "HttpTarget \<Rightarrow> ManagedUser \<Rightarrow> (string + RemoteIdentitySnapshot) http" where
  "npm_inspect_user t u =
    except http_key_value_type (\<lambda>_. Inl ''NPM identity read failed.'')
      (bindR (npm_authenticate t) (\<lambda>c.
       bindR (npm_find_user c (u_email u)) (\<lambda>existing.
       bindR (pureR (npm_snapshot existing)) (\<lambda>snap. Result (Inr snap)))))"

definition npm_account :: "json \<Rightarrow> Failure + RemoteAccount option" where
  "npm_account item =
    bind_sum (py_get ''email'' JNull item) (\<lambda>v.
      if py_true v then
        bind_sum (get_str ''name'' [] item) (\<lambda>shown.
        bind_sum (py_get ''is_disabled'' JNull item) (\<lambda>disabled.
        Inr (Some (remote_account (py_str v) shown (py_str v)
          (if py_true disabled then ''disabled'' else ''active'')))))
      else Inr None)"

definition npm_discover_accounts :: "HttpTarget \<Rightarrow> AccountDiscovery http" where
  "npm_discover_accounts t =
    except http_key_value_type (\<lambda>_. not_discovered ''NPM account discovery failed.'')
      (bindR (npm_authenticate t) (\<lambda>c.
       bindR (npm_users c) (\<lambda>users.
       bindR (pureR (collect npm_account users)) (\<lambda>accounts. Result (accounts_discovered accounts)))))"

definition npm_user_path :: "json \<Rightarrow> string \<Rightarrow> string http" where
  "npm_user_path existing suffix = pureR (bind_sum (py_item ''id'' existing)
     (\<lambda>v. Inr (cat [''/users/'', py_str v, suffix])))"

definition npm_auth_payload :: "string \<Rightarrow> json" where
  "npm_auth_payload p = JObject [(''type'', JText ''password''), (''secret'', JText p)]"

definition npm_put :: "HttpClient \<Rightarrow> json \<Rightarrow> string \<Rightarrow> json \<Rightarrow> unit http" where
  "npm_put c existing suffix payload =
    bindR (npm_user_path existing suffix) (\<lambda>path.
    bindR (client_put c path (JsonBody payload)) (\<lambda>r.
    bindR (raise_for_status r) (\<lambda>_. Result ())))"

definition npm_save :: "ManagedUser \<Rightarrow> string option \<Rightarrow> HttpClient \<Rightarrow> SyncResult http" where
  "npm_save u password c =
    bindR (npm_find_user c (u_email u)) (\<lambda>existing.
      let disabled = (u_status u = US_DISABLED) in
      case existing of
        None \<Rightarrow>
          (case password of
             None \<Rightarrow> Result (failed_result ''NPM requires a password for a new user'' VALIDATION False)
           | Some p \<Rightarrow>
               bindR (client_post c ''/users'' (JsonBody (JObject (npm_user_payload u disabled @
                 [(''roles'', JArray []), (''auth'', npm_auth_payload p)])))) (\<lambda>r.
               bindR (raise_for_status r) (\<lambda>_. Result (sync_result True ''created''))))
      | Some item \<Rightarrow>
          bindR (npm_put c item [] (JObject (npm_user_payload u disabled))) (\<lambda>_.
          bindR (case password of None \<Rightarrow> Result () | Some p \<Rightarrow> npm_put c item ''/auth'' (npm_auth_payload p)) (\<lambda>_.
          Result (sync_result True ''saved''))))"

definition npm_ensure_user :: "HttpTarget \<Rightarrow> ManagedUser \<Rightarrow> string option \<Rightarrow> SyncResult http" where
  "npm_ensure_user t u password =
    (if (case password of None \<Rightarrow> False | Some p \<Rightarrow> \<not> in_range 8 64 (length p)) then
       Result (failed_result ''NPM requires passwords between 8 and 64 characters'' VALIDATION False)
     else npm_session t ''save'' (npm_save u password))"

text \<open>The account as it was found, disabled.\<close>

definition npm_disabled_payload :: "ManagedUser \<Rightarrow> json \<Rightarrow> Failure + json" where
  "npm_disabled_payload u item =
    bind_sum (py_get ''name'' (JText (u_display_name u)) item) (\<lambda>name.
    bind_sum (py_get ''nickname'' (JText (u_username u)) item) (\<lambda>nickname.
    bind_sum (py_get ''email'' (JText (u_email u)) item) (\<lambda>email.
    Inr (JObject [(''name'', name), (''nickname'', nickname), (''email'', email), (''is_disabled'', JBool True)]))))"

definition npm_disable_work :: "ManagedUser \<Rightarrow> HttpClient \<Rightarrow> SyncResult http" where
  "npm_disable_work u c =
    bindR (npm_find_user c (u_email u)) (\<lambda>existing.
      case existing of
        None \<Rightarrow> Result (sync_result True ''already absent'')
      | Some item \<Rightarrow>
          bindR (pureR (py_get ''is_disabled'' JNull item)) (\<lambda>disabled.
          if py_true disabled then Result (sync_result True ''already disabled'')
          else
            bindR (pureR (npm_disabled_payload u item)) (\<lambda>payload.
            bindR (npm_put c item [] payload) (\<lambda>_. Result (sync_result True ''disabled'')))))"

definition npm_disable_user :: "HttpTarget \<Rightarrow> ManagedUser \<Rightarrow> SyncResult http" where
  "npm_disable_user t u = npm_session t ''disable'' (npm_disable_work u)"

definition npm_delete_work :: "ManagedUser \<Rightarrow> HttpClient \<Rightarrow> SyncResult http" where
  "npm_delete_work u c =
    bindR (npm_find_user c (u_email u)) (\<lambda>existing.
      case existing of
        None \<Rightarrow> Result (sync_result True ''already absent'')
      | Some item \<Rightarrow>
          bindR (npm_user_path item []) (\<lambda>path.
          bindR (client_delete c path NoBody) (\<lambda>r.
          if hp_status r = 404 then Result (sync_result True ''already absent'')
          else bindR (raise_for_status r) (\<lambda>_. Result (sync_result True ''deleted'')))))"

definition npm_delete_user :: "HttpTarget \<Rightarrow> ManagedUser \<Rightarrow> SyncResult http" where
  "npm_delete_user t u = npm_session t ''delete'' (npm_delete_work u)"

definition npm_probe :: "HttpTarget \<Rightarrow> SyncResult http" where
  "npm_probe t = npm_session t ''probe'' (\<lambda>c.
    bindR (npm_users c) (\<lambda>_. Result (sync_result True ''reachable'')))"

section \<open>The promises of an adapter\<close>

text \<open>Asking for a token changes nothing.\<close>

definition npm_reads :: "HttpRequest \<Rightarrow> bool" where
  "npm_reads q \<longleftrightarrow> hr_method q = ''GET'' \<or> (hr_method q = ''POST'' \<and> hr_path q = ''/tokens'')"

definition npm_session_client :: "HttpTarget \<Rightarrow> HttpClient \<Rightarrow> bool" where
  "npm_session_client t c \<longleftrightarrow> c = npm_client t \<or> (\<exists>token. c = with_token token (npm_client t))"

lemma to_npm [simp]: "to_target t q \<longleftrightarrow> True" if "npm_session_client t (hr_client q)"
  using that by (auto simp: npm_session_client_def to_target_def npm_client_def with_token_def starts_with_def)

lemma npm_session_clients [simp]: "npm_session_client t (npm_client t)"
  "npm_session_client t (with_token token (npm_client t))"
  by (auto simp: npm_session_client_def)

lemmas npm_wp = npm_put_def npm_user_path_def
  client_defs wp_rules Let_def changing_changes observing_quiet confirmed_def status_confirms_def npm_reads_def failure_defs

lemma npm_authenticate_reads:
  "wp (npm_authenticate t) (\<lambda>tr r. quiet_reads t npm_reads tr \<and>
     (case r of Inr c \<Rightarrow> npm_session_client t c | Inl _ \<Rightarrow> True))"
  by (auto simp: npm_authenticate_def npm_wp split: sum.splits)

lemma npm_find_reads:
  assumes "npm_session_client t c"
  shows "wp (npm_users c) (\<lambda>tr r. quiet_reads t npm_reads tr)"
    and "wp (npm_find_user c email) (\<lambda>tr r. quiet_reads t npm_reads tr)"
  using assms by (auto simp: npm_find_user_def npm_users_def npm_wp split: sum.splits json.splits)

lemma npm_failure_ok [simp]: "sr_ok (npm_failure action authenticating e) = False"
  by (simp add: npm_failure_def split: Failure.splits prod.splits)

lemma npm_session_lawful:
  assumes "\<And>c. npm_session_client t c \<Longrightarrow> wp (work c) (step_ended t npm_reads status_confirms)"
  shows "wp (npm_session t action work) (changing t npm_reads status_confirms)"
  unfolding npm_session_def wp_rules
  by (rule wp_mono [OF npm_authenticate_reads])
    (auto simp: wp_rules changing_changes failure_defs intro!: wp_step_ended [OF assms]
      split: sum.splits Failure.splits)

lemma npm_save_step:
  assumes c: "npm_session_client t c"
  shows "wp (npm_save u pw c) (step_ended t npm_reads status_confirms)"
  unfolding npm_save_def wp_rules
  by (rule wp_quiet [OF npm_find_reads(2) [OF c]])
    (use c in \<open>auto simp add: npm_wp step_ended_def split: option.splits sum.splits\<close>)

lemma npm_disable_step:
  assumes c: "npm_session_client t c"
  shows "wp (npm_disable_work u c) (step_ended t npm_reads status_confirms)"
  unfolding npm_disable_work_def wp_rules
  by (rule wp_quiet [OF npm_find_reads(2) [OF c]])
    (use c in \<open>auto simp add: npm_wp step_ended_def split: option.splits sum.splits\<close>)

lemma npm_delete_step:
  assumes c: "npm_session_client t c"
  shows "wp (npm_delete_work u c) (step_ended t npm_reads status_confirms)"
  unfolding npm_delete_work_def wp_rules
  by (rule wp_quiet [OF npm_find_reads(2) [OF c]])
    (use c in \<open>auto simp add: npm_wp step_ended_def split: option.splits sum.splits\<close>)

lemma npm_ensure_lawful: "wp (npm_ensure_user t u pw) (changing t npm_reads status_confirms)"
  unfolding npm_ensure_user_def
  using npm_session_lawful [OF npm_save_step] by (simp add: changing_changes split: option.splits)

lemma npm_disable_lawful: "wp (npm_disable_user t u) (changing t npm_reads status_confirms)"
  unfolding npm_disable_user_def by (rule npm_session_lawful [OF npm_disable_step])

lemma npm_delete_lawful: "wp (npm_delete_user t u) (changing t npm_reads status_confirms)"
  unfolding npm_delete_user_def by (rule npm_session_lawful [OF npm_delete_step])

lemma npm_probe_lawful: "wp (npm_probe t) (observing t npm_reads)"
  unfolding npm_probe_def npm_session_def wp_rules
  by (rule wp_mono [OF npm_authenticate_reads])
    (auto simp: wp_rules observing_quiet failure_defs intro!: wp_quiet [OF npm_find_reads(1)]
      split: sum.splits Failure.splits)

lemma npm_inspect_lawful: "wp (npm_inspect_user t u) (observing t npm_reads)"
  unfolding npm_inspect_user_def wp_rules
  by (rule wp_mono [OF npm_authenticate_reads])
    (auto simp: wp_rules observing_quiet failure_defs intro!: wp_quiet [OF npm_find_reads(2)]
      split: sum.splits Failure.splits)

lemma npm_discover_lawful: "wp (npm_discover_accounts t) (observing t npm_reads)"
  unfolding npm_discover_accounts_def wp_rules
  by (rule wp_mono [OF npm_authenticate_reads])
    (auto simp: wp_rules observing_quiet failure_defs intro!: wp_quiet [OF npm_find_reads(1)]
      split: sum.splits Failure.splits)

definition npm_adapter :: "HttpTarget \<Rightarrow> Adapter" where
  "npm_adapter t = \<lparr>op_ensure = \<lambda>u pw _. npm_ensure_user t u pw,
     op_disable = \<lambda>u _. npm_disable_user t u, op_delete = npm_delete_user t,
     op_probe = npm_probe t, op_inspect = \<lambda>u _. npm_inspect_user t u,
     op_discover = npm_discover_accounts t\<rparr>"

interpretation npm: adapter "npm_adapter t" t npm_reads status_confirms
  for t
  by unfold_locales (simp_all add: npm_adapter_def npm_ensure_lawful npm_disable_lawful
      npm_delete_lawful npm_probe_lawful npm_inspect_lawful npm_discover_lawful)

end
