(* ===== verification/Nextcloud.thy ===== *)
theory Nextcloud
  imports Http
begin

text \<open>The Nextcloud connector, \<open>src/na_sso/connectors/nextcloud.py\<close>.  Every answer of the provisioning API carries
  a status code of its own (100: success) inside a response whose HTTP status is usually 200.\<close>

definition nextcloud_client :: "HttpTarget \<Rightarrow> HttpClient" where
  "nextcloud_client t = http_client t ''/ocs/v1.php/cloud''
     [(''OCS-APIRequest'', ''true''), (''Accept'', ''application/json'')] (basic_auth t) [(''format'', ''json'')]"

text \<open>\<open>value.get("ocs", {}).get(part, {})\<close>, and the code and message of an answer.\<close>

definition ocs_part :: "string \<Rightarrow> json \<Rightarrow> Failure + json" where
  "ocs_part part v = bind_sum (py_get ''ocs'' (JObject []) v) (py_get part (JObject []))"

definition ocs_meta :: "json \<Rightarrow> Failure + int \<times> string" where
  "ocs_meta v =
    bind_sum (ocs_part ''meta'' v) (\<lambda>meta.
    bind_sum (py_get ''statuscode'' (JInt 0) meta) (\<lambda>code.
    bind_sum (py_int code) (\<lambda>n.
    bind_sum (get_str ''message'' [] meta) (\<lambda>message. Inr (n, message)))))"

definition ocs :: "HttpResponse \<Rightarrow> (int \<times> string) http" where
  "ocs r = bindR (raise_for_status r) (\<lambda>r. bindR (response_json r) (\<lambda>v. pureR (ocs_meta v)))"

definition nextcloud_path :: "ManagedUser \<Rightarrow> string \<Rightarrow> string" where
  "nextcloud_path u suffix = cat [''/users/'', quote_all (u_username u), suffix]"

definition rejected :: "string \<Rightarrow> int \<times> string \<Rightarrow> SyncResult" where
  "rejected what answer =
     sync_result False (cat [''nextcloud '', what, '': '', show_int (fst answer), '' '', snd answer])"

text \<open>A change: \<open>None\<close> when the answer has the code 100, the failed result otherwise.\<close>

definition nextcloud_change :: "string \<Rightarrow> HttpResponse http \<Rightarrow> SyncResult option http" where
  "nextcloud_change what request =
    bindR request (\<lambda>r. bindR (ocs r) (\<lambda>answer.
      Result (if fst answer \<noteq> 100 then Some (rejected what answer) else None)))"

definition nextcloud_edit :: "HttpClient \<Rightarrow> ManagedUser \<Rightarrow> string \<times> string \<Rightarrow> SyncResult option http" where
  "nextcloud_edit c u kv = nextcloud_change (cat [''rejected '', fst kv])
     (client_put c (nextcloud_path u []) (FormBody [(''key'', fst kv), (''value'', snd kv)]))"

text \<open>Creation, or the edits of an account that exists.\<close>

definition nextcloud_create :: "HttpClient \<Rightarrow> ManagedUser \<Rightarrow> string \<Rightarrow> string set \<Rightarrow> SyncResult option http" where
  "nextcloud_create c u password memberships = nextcloud_change ''rejected create''
     (send c ''POST'' ''/users'' [] [(''Content-Type'', ''application/x-www-form-urlencoded'')]
       (TextBody (urlencode ([(''userid'', u_username u), (''password'', password),
          (''displayName'', display_or_username u), (''email'', u_email u)] @
          map (\<lambda>g. (''groups[]'', g)) (sorted_names memberships)))))"

definition nextcloud_save :: "HttpClient \<Rightarrow> ManagedUser \<Rightarrow> string option \<Rightarrow> string set \<Rightarrow> int \<Rightarrow> SyncResult option http" where
  "nextcloud_save c u password memberships code =
    (if code \<noteq> 100 then
       (case password of
          None \<Rightarrow> Result (Some (sync_result False ''nextcloud requires a password for a new user''))
        | Some p \<Rightarrow> nextcloud_create c u p memberships)
     else forR (nextcloud_edit c u) ([(''displayname'', display_or_username u), (''email'', u_email u)] @
       (case password of None \<Rightarrow> [] | Some p \<Rightarrow> [(''password'', p)])))"

text \<open>A set of decoded values cannot hold lists or objects.\<close>

definition py_set :: "json \<Rightarrow> Failure + json list" where
  "py_set v = bind_sum (py_iter v) (\<lambda>xs.
     if list_ex (\<lambda>x. is_list x \<or> is_dict x) xs then Inl (TypeError ''unhashable type'') else Inr xs)"

definition nextcloud_group :: "HttpClient \<Rightarrow> ManagedUser \<Rightarrow> json list \<Rightarrow> string \<Rightarrow> SyncResult option http" where
  "nextcloud_group c u current g =
    (if JText g \<in> set current then Result None
     else nextcloud_change (cat [''rejected group '', g])
       (client_post c (nextcloud_path u ''/groups'') (FormBody [(''groupid'', g)])))"

definition nextcloud_groups :: "HttpClient \<Rightarrow> ManagedUser \<Rightarrow> string set \<Rightarrow> SyncResult option http" where
  "nextcloud_groups c u memberships =
    (if sorted_names memberships = [] then Result None
     else
       bindR (client_get c (nextcloud_path u ''/groups'') []) (\<lambda>r.
       bindR (raise_for_status r) (\<lambda>r.
       bindR (response_json r) (\<lambda>v.
       bindR (pureR (bind_sum (ocs_part ''meta'' v) (\<lambda>meta.
                bind_sum (py_get ''statuscode'' (JInt 0) meta) py_int))) (\<lambda>code.
       if code \<noteq> 100 then Result (Some (sync_result False ''nextcloud could not read group memberships''))
       else
         bindR (pureR (bind_sum (ocs_part ''data'' v) (\<lambda>data.
                  bind_sum (py_get ''groups'' (JArray []) data) py_set))) (\<lambda>current.
         forR (nextcloud_group c u current) (sorted_names memberships)))))))"

definition nextcloud_status_change :: "HttpClient \<Rightarrow> ManagedUser \<Rightarrow> SyncResult option http" where
  "nextcloud_status_change c u =
    (let action = (if u_status u = US_DISABLED then ''disable'' else ''enable'') in
     nextcloud_change (cat [''rejected '', action]) (client_put c (nextcloud_path u (CHR ''/'' # action)) NoBody))"

definition nextcloud_failure :: "(Failure \<Rightarrow> string) \<Rightarrow> Failure \<Rightarrow> SyncResult" where
  "nextcloud_failure txt e = sync_result False (cat [''nextcloud error: '', txt e])"

definition unless :: "SyncResult option http \<Rightarrow> SyncResult http \<Rightarrow> SyncResult http" where
  "unless m rest = bindR m (\<lambda>stop. case stop of None \<Rightarrow> rest | Some a \<Rightarrow> Result a)"

definition nextcloud_ensure_user_for_assignment ::
  "(Failure \<Rightarrow> string) \<Rightarrow> HttpTarget \<Rightarrow> ManagedUser \<Rightarrow> string option \<Rightarrow> string set \<Rightarrow> SyncResult http" where
  "nextcloud_ensure_user_for_assignment txt t u password memberships =
    (let c = nextcloud_client t in
     except http_value_type (nextcloud_failure txt)
      (bindR (client_get c (nextcloud_path u []) []) (\<lambda>r.
       bindR (ocs r) (\<lambda>answer.
       unless (nextcloud_save c u password memberships (fst answer))
       (unless (nextcloud_groups c u memberships)
       (unless (nextcloud_status_change c u)
       (Result (sync_result True ''saved''))))))))"

definition nextcloud_disable_user_for_assignment ::
  "(Failure \<Rightarrow> string) \<Rightarrow> HttpTarget \<Rightarrow> ManagedUser \<Rightarrow> string set \<Rightarrow> SyncResult http" where
  "nextcloud_disable_user_for_assignment txt t u memberships =
     nextcloud_ensure_user_for_assignment txt t u None memberships"

definition nextcloud_delete_user :: "(Failure \<Rightarrow> string) \<Rightarrow> HttpTarget \<Rightarrow> ManagedUser \<Rightarrow> SyncResult http" where
  "nextcloud_delete_user txt t u =
    (let c = nextcloud_client t in
     except http_value_type (nextcloud_failure txt)
      (bindR (client_get c (nextcloud_path u []) []) (\<lambda>lookup.
       bindR (ocs lookup) (\<lambda>found.
         if fst found \<noteq> 100 then Result (sync_result True ''already absent'')
         else unless (nextcloud_change ''rejected delete'' (client_delete c (nextcloud_path u []) NoBody))
                (Result (sync_result True ''deleted''))))))"

definition nextcloud_probe :: "(Failure \<Rightarrow> string) \<Rightarrow> HttpTarget \<Rightarrow> SyncResult http" where
  "nextcloud_probe txt t =
    except http_value_type (\<lambda>e. sync_result False (cat [''nextcloud unreachable: '', txt e]))
      (bindR (client_get (nextcloud_client t) ''/users'' [(''search'', ht_admin_user t)]) (\<lambda>r.
       bindR (ocs r) (\<lambda>answer.
         Result (if fst answer = 100 then sync_result True ''reachable'' else rejected ''probe rejected'' answer))))"

definition nextcloud_account :: "json \<Rightarrow> Failure + RemoteAccount option" where
  "nextcloud_account name =
     Inr (if py_true name then Some (remote_account (py_str name) [] [] ''unknown'') else None)"

definition nextcloud_discover_accounts :: "HttpTarget \<Rightarrow> AccountDiscovery http" where
  "nextcloud_discover_accounts t =
    except http_value_type (\<lambda>_. not_discovered ''Nextcloud account discovery failed.'')
      (bindR (client_get (nextcloud_client t) ''/users'' []) (\<lambda>r.
       bindR (ocs r) (\<lambda>answer.
         if fst answer \<noteq> 100 then Result (not_discovered ''Nextcloud account discovery was rejected.'')
         else
           bindR (response_json r) (\<lambda>v.
           bindR (pureR (bind_sum (ocs_part ''data'' v) (\<lambda>data.
                    bind_sum (py_get ''users'' (JArray []) data) (\<lambda>users.
                    bind_sum (py_iter users) (collect nextcloud_account))))) (\<lambda>accounts.
           Result (accounts_discovered accounts))))))"

definition nextcloud_enabled :: "json \<Rightarrow> string option" where
  "nextcloud_enabled v = (case v of
     JNull \<Rightarrow> None
   | JText s \<Rightarrow> Some (if lower s \<in> {''1'', ''true'', ''yes'', ''enabled''} then ''active'' else ''disabled'')
   | _ \<Rightarrow> Some (if py_true v then ''active'' else ''disabled''))"

definition nextcloud_snapshot :: "json option \<Rightarrow> string set option \<Rightarrow> Failure + RemoteIdentitySnapshot" where
  "nextcloud_snapshot existing memberships =
    (let item = found_item existing; some = found existing in
     bind_sum (when_given (existing \<noteq> None) (py_get ''enabled'' JNull item)) (\<lambda>enabled.
     bind_sum (when_given some (get_present ''id'' item)) (\<lambda>name.
     bind_sum (when_given some (get_present ''displayname'' item)) (\<lambda>shown.
     bind_sum (when_given some (get_present ''email'' item)) (\<lambda>email.
     Inr (identity_snapshot (existing \<noteq> None) (Option.bind name (\<lambda>s. s)) (Option.bind shown (\<lambda>s. s))
       (Option.bind email (\<lambda>s. s)) (Option.bind enabled nextcloud_enabled) memberships))))))"

definition nextcloud_actual_groups :: "HttpClient \<Rightarrow> ManagedUser \<Rightarrow> string set option http" where
  "nextcloud_actual_groups c u =
    bindR (client_get c (nextcloud_path u ''/groups'') []) (\<lambda>r.
    bindR (ocs r) (\<lambda>answer.
      if fst answer = 100 then
        bindR (response_json r) (\<lambda>v.
        bindR (pureR (bind_sum (ocs_part ''data'' v) (py_get ''groups'' JNull))) (\<lambda>groups.
        Result (case groups of JArray xs \<Rightarrow> Some (set (map py_str xs)) | _ \<Rightarrow> None)))
      else Result None))"

definition nextcloud_inspect_user_for_assignment :: "HttpTarget \<Rightarrow> ManagedUser \<Rightarrow> (string + RemoteIdentitySnapshot) http" where
  "nextcloud_inspect_user_for_assignment t u =
    (let c = nextcloud_client t in
     except http_value_type (\<lambda>_. Inl ''Nextcloud identity read failed.'')
      (bindR (client_get c (nextcloud_path u []) []) (\<lambda>r.
       bindR (ocs r) (\<lambda>answer.
         if fst answer = 100 then
           bindR (response_json r) (\<lambda>v.
           bindR (pureR (ocs_part ''data'' v)) (\<lambda>existing.
           bindR (nextcloud_actual_groups c u) (\<lambda>groups.
           bindR (pureR (nextcloud_snapshot (Some existing) groups)) (\<lambda>snap. Result (Inr snap)))))
         else if fst answer \<in> {404, 998} then
           bindR (pureR (nextcloud_snapshot None None)) (\<lambda>snap. Result (Inr snap))
         else Result (Inl ''Nextcloud identity read was rejected.'')))))"

section \<open>The promises of an adapter\<close>

text \<open>A change is confirmed by the code in the answer, not by its HTTP status.\<close>

definition nextcloud_confirms :: "HttpRequest \<Rightarrow> Exchange \<Rightarrow> bool" where
  "nextcloud_confirms q x \<longleftrightarrow> (case x of
     Answered p \<Rightarrow> is_success p \<and>
       (case hp_json p of None \<Rightarrow> False | Some v \<Rightarrow> (case ocs_meta v of Inl _ \<Rightarrow> False | Inr answer \<Rightarrow> fst answer = 100))
   | _ \<Rightarrow> False)"

lemma to_nextcloud [simp]: "to_target t q \<longleftrightarrow> True" if "hr_client q = nextcloud_client t"
  using that by (simp add: to_target_def nextcloud_client_def starts_with_def)

lemma rejected_not_ok [simp]: "sr_ok (rejected what answer) = False"
  by (simp add: rejected_def)

lemma wp_ocs [wp_rules]:
  "wp (ocs r) R \<longleftrightarrow> R [] (if is_success r then
     (case hp_json r of None \<Rightarrow> Inl (ValueError ''JSONDecodeError'') | Some v \<Rightarrow> ocs_meta v)
     else Inl (HTTPStatusError r))"
  by (simp add: ocs_def wp_rules split: option.splits sum.splits)

lemmas nextcloud_wp = nextcloud_failure_def unless_def
  client_defs wp_rules Let_def changing_changes observing_quiet confirmed_def only_get_def failure_defs

lemma nextcloud_change_step:
  "wp (nextcloud_change what (send (nextcloud_client t) verb path params headers body))
     (step_or_stop t only_get nextcloud_confirms)"
  by (auto simp add: nextcloud_change_def step_or_stop_def nextcloud_wp nextcloud_confirms_def
      split: option.splits sum.splits)

lemma nextcloud_save_step:
  "wp (nextcloud_save (nextcloud_client t) u pw ms code) (step_or_stop t only_get nextcloud_confirms)"
  unfolding nextcloud_save_def nextcloud_create_def
  by (auto simp: step_or_stop_def [of _ _ _ "[]"] nextcloud_edit_def client_defs simp del: forR.simps
      intro!: nextcloud_change_step step_or_stop_forR split: option.splits)

lemma nextcloud_group_step:
  "wp (nextcloud_group (nextcloud_client t) u current g) (step_or_stop t only_get nextcloud_confirms)"
  by (simp add: nextcloud_group_def client_defs nextcloud_change_step) (simp add: step_or_stop_def)

lemma after_reads:
  "quiet_reads t only_get tr \<Longrightarrow> step_or_stop t only_get confirms (tr @ ts) r = step_or_stop t only_get confirms ts r"
  by (auto simp: step_or_stop_def split: sum.splits option.splits)

lemma nextcloud_groups_step:
  "wp (nextcloud_groups (nextcloud_client t) u ms) (step_or_stop t only_get nextcloud_confirms)"
proof -
  let ?c = "nextcloud_client t"
  have loop: "wp (forR (nextcloud_group ?c u current) gs)
      (\<lambda>ts. step_or_stop t only_get nextcloud_confirms ((q, x) # ts))"
    if "hr_client q = ?c" "hr_method q = ''GET''" for current gs q x
    by (rule wp_mono [OF step_or_stop_forR [OF nextcloud_group_step]])
      (use that after_reads [of t "[(q, x)]"] in \<open>simp add: only_get_def\<close>)
  show ?thesis
    by (auto simp: nextcloud_groups_def nextcloud_wp step_or_stop_def simp del: forR.simps
        intro!: loop split: option.splits sum.splits)
qed

lemma unless_step:
  assumes "wp m (step_or_stop t only_get confirms)" "wp rest (step_ended t only_get confirms)"
  shows "wp (unless m rest) (step_ended t only_get confirms)"
  unfolding unless_def wp_rules
  by (rule wp_step_or_stop [OF assms(1)])
    (auto simp: step_ended_def changes_weak intro!: wp_step_ended [OF assms(2)])

lemma nextcloud_status_change_step:
  "wp (nextcloud_status_change (nextcloud_client t) u) (step_or_stop t only_get nextcloud_confirms)"
  by (simp add: nextcloud_status_change_def Let_def client_defs nextcloud_change_step)

lemma nextcloud_ensure_lawful:
  "wp (nextcloud_ensure_user_for_assignment txt t u pw ms) (changing t only_get nextcloud_confirms)"
proof -
  let ?c = "nextcloud_client t"
  have steps: "wp (unless (nextcloud_save ?c u pw ms code) (unless (nextcloud_groups ?c u ms)
      (unless (nextcloud_status_change ?c u) (Result (sync_result True ''saved'')))))
      (step_ended t only_get nextcloud_confirms)" for code
    by (intro unless_step nextcloud_save_step nextcloud_groups_step nextcloud_status_change_step)
      (simp add: step_ended_def)
  show ?thesis
    by (auto simp add: nextcloud_ensure_user_for_assignment_def client_defs wp_rules Let_def changing_changes
        nextcloud_failure_def confirmed_def only_get_def failure_defs
        intro!: wp_step_ended [OF steps] split: option.splits sum.splits Failure.splits)
qed

lemma nextcloud_disable_lawful:
  "wp (nextcloud_disable_user_for_assignment txt t u ms) (changing t only_get nextcloud_confirms)"
  unfolding nextcloud_disable_user_for_assignment_def by (rule nextcloud_ensure_lawful)

lemma nextcloud_delete_lawful:
  "wp (nextcloud_delete_user txt t u) (changing t only_get nextcloud_confirms)"
  by (auto simp add: nextcloud_delete_user_def nextcloud_wp
      intro!: wp_step_or_stop [OF nextcloud_change_step] split: option.splits sum.splits Failure.splits)

lemma nextcloud_probe_lawful: "wp (nextcloud_probe txt t) (observing t only_get)"
  by (auto simp add: nextcloud_probe_def nextcloud_wp split: option.splits sum.splits Failure.splits)

lemma nextcloud_inspect_lawful: "wp (nextcloud_inspect_user_for_assignment t u) (observing t only_get)"
  by (auto simp add: nextcloud_inspect_user_for_assignment_def nextcloud_actual_groups_def nextcloud_wp
      split: option.splits sum.splits Failure.splits)

lemma nextcloud_discover_lawful: "wp (nextcloud_discover_accounts t) (observing t only_get)"
  by (auto simp add: nextcloud_discover_accounts_def nextcloud_wp split: option.splits sum.splits Failure.splits)

definition nextcloud_adapter :: "(Failure \<Rightarrow> string) \<Rightarrow> HttpTarget \<Rightarrow> Adapter" where
  "nextcloud_adapter txt t = \<lparr>op_ensure = nextcloud_ensure_user_for_assignment txt t,
     op_disable = nextcloud_disable_user_for_assignment txt t, op_delete = nextcloud_delete_user txt t,
     op_probe = nextcloud_probe txt t, op_inspect = \<lambda>u _. nextcloud_inspect_user_for_assignment t u,
     op_discover = nextcloud_discover_accounts t\<rparr>"

interpretation nextcloud: adapter "nextcloud_adapter err t" t only_get nextcloud_confirms
  for err t
  by unfold_locales (simp_all add: nextcloud_adapter_def nextcloud_ensure_lawful nextcloud_disable_lawful
      nextcloud_delete_lawful nextcloud_probe_lawful nextcloud_inspect_lawful nextcloud_discover_lawful)

end
