(* ===== verification/Opnsense.thy ===== *)
theory Opnsense
  imports Http
begin

text \<open>The OPNsense connector, \<open>src/na_sso/connectors/opnsense.py\<close>: local users, and the certificates and
  revocation lists of OpenVPN.  The connector's table of the certificates it issued is threaded through the two methods
  that change it; the audit event of a revocation is a value beside the result, because it is written in a
  session of its own.\<close>

definition opnsense_client :: "HttpTarget \<Rightarrow> HttpClient" where
  "opnsense_client t = http_client t ''/api'' [] (basic_auth t) []"

definition opnsense_name_is :: "string \<Rightarrow> json \<Rightarrow> Failure + bool" where
  "opnsense_name_is name row = bind_sum (py_get ''name'' JNull row) (\<lambda>v. Inr (v = JText name))"

definition opnsense_find_user :: "HttpClient \<Rightarrow> string \<Rightarrow> json option http" where
  "opnsense_find_user c name =
    bindR (client_post c ''/auth/user/search'' (JsonBody (JObject [(''searchPhrase'', JText name)]))) (\<lambda>r.
    bindR (raise_for_status r) (\<lambda>r.
    bindR (response_json r) (\<lambda>v.
    pureR (bind_sum (py_get ''rows'' (JArray []) v) (\<lambda>rows.
           bind_sum (py_iter rows) (find_item (opnsense_name_is name)))))))"

definition opnsense_find_uuid :: "HttpClient \<Rightarrow> string \<Rightarrow> json http" where
  "opnsense_find_uuid c name = bindR (opnsense_find_user c name) (\<lambda>row.
     if found row then pureR (py_get ''uuid'' JNull (found_item row)) else Result JNull)"

section \<open>Reading OpenVPN\<close>

definition unselected :: "string set" where
  "unselected = {'''', ''0'', ''false'', ''no''}"

definition member_or :: "string \<Rightarrow> json \<Rightarrow> (string \<times> json) list \<Rightarrow> json" where
  "member_or key other ms = (case map_of ms key of None \<Rightarrow> other | Some v \<Rightarrow> v)"

definition is_selected :: "(string \<times> json) list \<Rightarrow> bool" where
  "is_selected ms \<longleftrightarrow> lower (strip (py_str (member_or ''selected'' (JText []) ms))) \<notin> unselected"

fun selected_key :: "(string \<times> json) list \<Rightarrow> string" where
  "selected_key [] = []"
| "selected_key ((key, option) # rest) = (case option of
     JObject ms \<Rightarrow> if is_selected ms then strip key else selected_key rest
   | _ \<Rightarrow> selected_key rest)"

definition selected_option :: "json \<Rightarrow> string" where
  "selected_option v = (case v of
     JText s \<Rightarrow> strip s
   | JObject ms \<Rightarrow>
       if map_of ms ''selected'' \<noteq> None \<and> is_selected ms then strip (py_str (member_or ''value'' (JText []) ms))
       else selected_key ms
   | _ \<Rightarrow> [])"

datatype OpenVpnAuthPosture = CERT_AND_PASSWORD | PASSWORD_ONLY | CERT_ONLY

definition legacy_auth_posture :: "string \<Rightarrow> OpenVpnAuthPosture" where
  "legacy_auth_posture mode =
    (let normalised = lower (strip mode) in
     if contains_str ''tls_user'' normalised then CERT_AND_PASSWORD
     else if ends_with ''user'' normalised \<or> normalised \<in> {''user'', ''password''} then PASSWORD_ONLY
     else CERT_ONLY)"

definition instance_auth_posture :: "string \<Rightarrow> json \<Rightarrow> json \<Rightarrow> OpenVpnAuthPosture" where
  "instance_auth_posture mode authmode verify_client_cert =
    (let auth_value = lower (selected_option authmode);
         verify_value = lower (selected_option verify_client_cert);
         password_required = (if auth_value = [] then contains_str ''user'' (lower mode)
                              else auth_value \<notin> {'''', ''none'', ''disabled''});
         cert_required = (if verify_value = [] then contains_str ''tls'' (lower mode)
                          else verify_value \<notin> {'''', ''0'', ''no'', ''none'', ''disabled''}) in
     if password_required \<and> cert_required then CERT_AND_PASSWORD
     else if password_required then PASSWORD_ONLY
     else CERT_ONLY)"

definition openvpn_status_kind :: "nat \<Rightarrow> ConnectorErrorKind \<times> bool" where
  "openvpn_status_kind status =
    (if status = 401 then (AUTHENTICATION, False)
     else if status = 404 then (NOT_FOUND, False)
     else if status = 409 then (CONFLICT, False)
     else if status = 429 then (RATE_LIMITED, True)
     else if status \<ge> 500 then (UNAVAILABLE, True)
     else (REMOTE_REJECTED, False))"

text \<open>The message of an error response: the first of two members that is not empty.\<close>

definition remote_message :: "HttpResponse \<Rightarrow> string" where
  "remote_message r = (case hp_json r of
     Some (JObject ms) \<Rightarrow>
       (let first = member_or ''errorMessage'' JNull ms; second = member_or ''message'' JNull ms in
        if py_true first then py_str first else if py_true second then py_str second else [])
   | _ \<Rightarrow> [])"

definition openvpn_failure :: "string \<Rightarrow> Failure \<Rightarrow> SyncResult" where
  "openvpn_failure action e = (case e of
     TimeoutException _ \<Rightarrow> failed_result (cat [''OPNsense OpenVPN '', action, '' timed out'']) TIMEOUT True
   | RequestError _ \<Rightarrow> failed_result (cat [''OPNsense OpenVPN '', action, '' is unavailable'']) UNAVAILABLE True
   | HTTPStatusError r \<Rightarrow>
       if hp_status r = 403 then
         failed_result ''OPNsense OpenVPN access requires privilege VPN: OpenVPN: Client Export'' AUTHENTICATION False
       else if hp_status r = 500 \<and> remote_message r = ''Certificate does not belong to server CA'' then
         failed_result ''OPNsense OpenVPN client certificate does not belong to the server CA'' VALIDATION False
       else (case openvpn_status_kind (hp_status r) of (kind, retryable) \<Rightarrow>
         failed_result (cat [''OPNsense OpenVPN '', action, '' failed with HTTP '', show_nat (hp_status r)]) kind retryable)
   | _ \<Rightarrow> failed_result (cat [''OPNsense OpenVPN '', action, '' received an invalid response'']) REMOTE_REJECTED False)"

record OpenVpnServer =
  vs_vpnid :: string
  vs_name :: string
  vs_caref :: string
  vs_auth_posture :: OpenVpnAuthPosture

record OpenVpnDiscovery =
  vd_servers :: "OpenVpnServer list"
  vd_templates :: "string list"

text \<open>The providers with their keys, or their positions.\<close>

definition provider_items :: "json \<Rightarrow> Failure + (string \<times> json) list" where
  "provider_items v = (case v of
     JObject ms \<Rightarrow> Inr ms
   | JArray xs \<Rightarrow> Inr (map (\<lambda>(i, x). (show_nat i, x)) (enumerate 0 xs))
   | _ \<Rightarrow> Inl (ValueError ''OpenVPN providers response has an invalid shape''))"

definition openvpn_instance :: "HttpClient \<Rightarrow> string \<Rightarrow> (string \<times> json) list http" where
  "openvpn_instance c vpnid =
    bindR (client_get c (cat [''/openvpn/instances/get/'', vpnid]) []) (\<lambda>r.
    bindR (raise_for_status r) (\<lambda>r.
    bindR (response_json r) (\<lambda>v.
    pureR (case v of
       JObject ms \<Rightarrow> (case member_or ''instance'' (JObject []) ms of
          JObject inst \<Rightarrow> Inr inst
        | _ \<Rightarrow> Inl (ValueError ''OpenVPN instance response has an invalid shape''))
     | _ \<Rightarrow> Inl (ValueError ''OpenVPN instance response has an invalid shape'')))))"

definition openvpn_server :: "HttpClient \<Rightarrow> string \<times> json \<Rightarrow> OpenVpnServer option http" where
  "openvpn_server c item = (case snd item of
     JObject ms \<Rightarrow>
       (let given_id = member_or ''vpnid'' JNull ms;
            vpnid = strip (if py_true given_id then py_str given_id else fst item);
            mode = selected_option (member_or ''mode'' (JText []) ms);
            caref = selected_option (member_or ''caref'' (JText []) ms);
            server = (\<lambda>ca posture. \<lparr>vs_vpnid = vpnid, vs_name = strip (py_str (member_or ''name'' (JText []) ms)),
              vs_caref = ca, vs_auth_posture = posture\<rparr>) in
        if vpnid = [] then Result None
        else if mode = ''server_tls_user'' \<or> caref \<noteq> [] then
          bindR (openvpn_instance c vpnid) (\<lambda>inst.
          Result (Some (server
            (if caref = [] then selected_option (member_or ''ca'' (JText []) inst) else caref)
            (instance_auth_posture mode (member_or ''authmode'' (JText []) inst)
               (member_or ''verify_client_cert'' (JText []) inst)))))
        else Result (Some (server caref (legacy_auth_posture mode))))
   | _ \<Rightarrow> Result None)"

fun openvpn_servers :: "HttpClient \<Rightarrow> (string \<times> json) list \<Rightarrow> OpenVpnServer list http" where
  "openvpn_servers c [] = Result []"
| "openvpn_servers c (item # items) =
    bindR (openvpn_server c item) (\<lambda>server.
    bindR (openvpn_servers c items) (\<lambda>rest.
    Result (case server of None \<Rightarrow> rest | Some s \<Rightarrow> s # rest)))"

definition template_names :: "json \<Rightarrow> Failure + string list" where
  "template_names v = (case v of
     JObject ms \<Rightarrow> Inr (map fst ms)
   | JArray xs \<Rightarrow> Inr (filter (\<lambda>s. s \<noteq> []) (map (\<lambda>x. case x of
        JObject ms \<Rightarrow> py_str (member_or ''key'' (member_or ''name'' (JText []) ms) ms)
      | _ \<Rightarrow> py_str x) xs))
   | _ \<Rightarrow> Inl (ValueError ''OpenVPN templates response has an invalid shape''))"

definition discover_openvpn :: "HttpTarget \<Rightarrow> (SyncResult + OpenVpnDiscovery) http" where
  "discover_openvpn t =
    (let c = opnsense_client t in
     except http_key_value_type (\<lambda>e. Inl (openvpn_failure ''discovery'' e))
      (bindR (client_get c ''/openvpn/export/providers'' []) (\<lambda>r1.
       bindR (raise_for_status r1) (\<lambda>_.
       bindR (client_get c ''/openvpn/export/templates'' []) (\<lambda>r2.
       bindR (raise_for_status r2) (\<lambda>_.
       bindR (response_json r1) (\<lambda>providers.
       bindR (response_json r2) (\<lambda>templates.
       bindR (pureR (provider_items providers)) (\<lambda>items.
       bindR (openvpn_servers c items) (\<lambda>servers.
       bindR (pureR (template_names templates)) (\<lambda>names.
       Result (Inr \<lparr>vd_servers = servers, vd_templates = names\<rparr>))))))))))))"

section \<open>Certificates\<close>

definition is_client_certificate :: "string \<Rightarrow> string \<Rightarrow> string list \<Rightarrow> json \<Rightarrow> bool" where
  "is_client_certificate username caref excluded row = (case row of
     JObject ms \<Rightarrow>
       (let text_of = (\<lambda>key. py_str (member_or key (JText []) ms)) in
        text_of ''commonname'' = username \<and> text_of ''caref'' = caref \<and>
        text_of ''cert_type'' \<in> {''usr_cert'', ''combined_server_client''} \<and>
        text_of ''refid'' \<noteq> [] \<and> text_of ''refid'' \<notin> set excluded)
   | _ \<Rightarrow> False)"

definition find_client_certificate :: "HttpClient \<Rightarrow> string \<Rightarrow> string \<Rightarrow> string list \<Rightarrow> json option http" where
  "find_client_certificate c username caref excluded =
    bindR (client_get c ''/trust/cert/search'' []) (\<lambda>r.
    bindR (raise_for_status r) (\<lambda>r.
    bindR (response_json r) (\<lambda>v.
    pureR (case v of
       JObject ms \<Rightarrow> (case member_or ''rows'' JNull ms of
          JArray rows \<Rightarrow> Inr (find (is_client_certificate username caref excluded) rows)
        | _ \<Rightarrow> Inl (ValueError ''certificate search response has an invalid shape''))
     | _ \<Rightarrow> Inl (ValueError ''certificate search response has an invalid shape'')))))"

text \<open>The identifiers that a revocation list selects, by the number of the reason.\<close>

definition revoked_for :: "(string \<times> json) list \<Rightarrow> nat \<Rightarrow> Failure + string list" where
  "revoked_for crl reason =
    (case member_or (cat [''revoked_reason_'', show_nat reason]) (JObject []) crl of
       JObject options \<Rightarrow> Inr (map fst (filter (\<lambda>(_, v). case v of
          JObject ms \<Rightarrow> py_str (member_or ''selected'' (JText []) ms) = ''1'' | _ \<Rightarrow> False) options))
     | _ \<Rightarrow> Inl (ValueError ''CRL response has an invalid reason shape''))"

definition revoked_refids_by_reason :: "(string \<times> json) list \<Rightarrow> Failure + string list list" where
  "revoked_refids_by_reason crl = collect (\<lambda>reason. bind_sum (revoked_for crl reason) (\<lambda>ids. Inr (Some ids))) [0..<11]"

definition get_crl :: "HttpClient \<Rightarrow> string \<Rightarrow> (string \<times> json) list http" where
  "get_crl c caref =
    bindR (client_get c (cat [''/trust/crl/get/'', caref]) []) (\<lambda>r.
    bindR (raise_for_status r) (\<lambda>r.
    bindR (response_json r) (\<lambda>v.
    pureR (case v of
       JObject ms \<Rightarrow> (case member_or ''crl'' JNull ms of
          JObject crl \<Rightarrow> Inr crl
        | _ \<Rightarrow> Inl (ValueError ''CRL response has an invalid shape''))
     | _ \<Rightarrow> Inl (ValueError ''CRL response has an invalid shape'')))))"

text \<open>The table \<open>_openvpn_client_certificates\<close>: identifier to user and authority.\<close>

type_synonym issued = "(string \<times> (string \<times> string)) list"

definition certificate_request :: "string \<Rightarrow> string \<Rightarrow> string \<Rightarrow> json" where
  "certificate_request target_id username caref = JObject [(''cert'', JObject
     [(''action'', JText ''internal''), (''caref'', JText caref), (''cert_type'', JText ''usr_cert''),
      (''commonname'', JText username), (''descr'', JText (cat [''na-sso '', username, '' '', target_id])),
      (''key_type'', JText ''2048''), (''digest'', JText ''sha256''), (''lifetime'', JInt 397),
      (''private_key_location'', JText ''firewall''), (''country'', JText ''NL'')])]"

definition result_in :: "string set \<Rightarrow> json \<Rightarrow> bool" where
  "result_in names v = (case v of
     JObject ms \<Rightarrow> (case member_or ''result'' JNull ms of JText s \<Rightarrow> s \<in> names | _ \<Rightarrow> False)
   | _ \<Rightarrow> False)"

definition create_certificate :: "HttpClient \<Rightarrow> string \<Rightarrow> string \<Rightarrow> string \<Rightarrow> unit http" where
  "create_certificate c target_id username caref =
    bindR (client_post c ''/trust/cert/add'' (JsonBody (certificate_request target_id username caref))) (\<lambda>r.
    bindR (raise_for_status r) (\<lambda>r.
    bindR (response_json r) (\<lambda>v.
      if result_in {''saved'', ''ok''} v then Result ()
      else Raise (ValueError ''certificate creation was rejected''))))"

definition ensure_client_certificate ::
  "HttpTarget \<Rightarrow> string \<Rightarrow> issued \<Rightarrow> string \<Rightarrow> string \<Rightarrow> (SyncResult + string \<times> issued) http" where
  "ensure_client_certificate t target_id certs username caref =
    (let c = opnsense_client t in
     except http_key_value_type (\<lambda>e. Inl (openvpn_failure ''client certificate provisioning'' e))
      (bindR (get_crl c caref) (\<lambda>crl.
       bindR (pureR (revoked_refids_by_reason crl)) (\<lambda>by_reason.
       let excluded = concat by_reason in
       bindR (find_client_certificate c username caref excluded) (\<lambda>found.
       bindR (case found of
                Some row \<Rightarrow> Result (Some row)
              | None \<Rightarrow> bindR (create_certificate c target_id username caref) (\<lambda>_.
                         find_client_certificate c username caref excluded)) (\<lambda>certificate.
         case certificate of
           None \<Rightarrow> Raise (ValueError ''created certificate was not found'')
         | Some row \<Rightarrow>
             bindR (pureR (py_item ''refid'' row)) (\<lambda>v.
             let refid = py_str v in
             Result (Inr (refid, (refid, (username, caref)) # filter (\<lambda>z. fst z \<noteq> refid) certs)))))))))"

section \<open>Revocation\<close>

definition crl_lifetime :: "(string \<times> json) list \<Rightarrow> string" where
  "crl_lifetime crl =
    (let v = member_or ''lifetime'' JNull crl; s = strip (if py_true v then py_str v else ''9999'') in
     if s = [] then ''9999'' else s)"

definition crl_request :: "string \<Rightarrow> string \<Rightarrow> (string \<times> json) list \<Rightarrow> string list list \<Rightarrow> json" where
  "crl_request target_id refid crl by_reason =
    (let descr = selected_option (member_or ''descr'' (JText []) crl);
         selected = (\<lambda>reason. (if reason = 0 then [refid] else []) @ by_reason ! reason) in
     JObject [(''crl'', JObject ([(''crlmethod'', JText ''internal''),
       (''descr'', JText (if descr = [] then cat [''na-sso '', target_id] else descr)),
       (''lifetime'', JText (crl_lifetime crl))] @
       map (\<lambda>reason. (cat [''revoked_reason_'', show_nat reason],
              JText (join_with '','' (sorted_names (set (selected reason)))))) [0..<11]))])"

text \<open>A result that is a list or an object cannot be looked up in a set, which is an exception of the same handler.\<close>

definition crl_refused :: "json \<Rightarrow> bool" where
  "crl_refused v = (case v of
     JObject ms \<Rightarrow> (case member_or ''result'' JNull ms of JText s \<Rightarrow> s \<in> {''failed'', ''error''}
       | JArray _ \<Rightarrow> True | JObject _ \<Rightarrow> True | _ \<Rightarrow> False)
   | _ \<Rightarrow> False)"

definition add_client_certificate_to_crl ::
  "HttpClient \<Rightarrow> string \<Rightarrow> json \<Rightarrow> string \<Rightarrow> SyncResult http" where
  "add_client_certificate_to_crl c target_id certificate caref =
    except http_key_value_type (openvpn_failure ''certificate revocation list update'')
      (bindR (get_crl c caref) (\<lambda>crl.
       bindR (pureR (revoked_refids_by_reason crl)) (\<lambda>by_reason.
       bindR (pureR (py_item ''refid'' certificate)) (\<lambda>refid.
       bindR (client_post c (cat [''/trust/crl/set/'', caref])
                (JsonBody (crl_request target_id (py_str refid) crl by_reason))) (\<lambda>r.
       bindR (raise_for_status r) (\<lambda>r.
         if hp_text r = [] then Result (sync_result True ''CRL updated'')
         else bindR (response_json r) (\<lambda>v.
           if crl_refused v then Raise (ValueError ''CRL update was rejected'')
           else Result (sync_result True ''CRL updated''))))))))"

definition certificate_delete_failure :: "string \<Rightarrow> SyncResult \<Rightarrow> SyncResult" where
  "certificate_delete_failure username failure =
    failure\<lparr>sr_ok := False, sr_detail := cat [''OPNsense OpenVPN client certificate for '', username,
      '' could not be deleted: '', sr_detail failure]\<rparr>"

definition delete_certificate :: "HttpClient \<Rightarrow> json \<Rightarrow> unit http" where
  "delete_certificate c certificate =
    bindR (pureR (py_item ''uuid'' certificate)) (\<lambda>uid.
    bindR (client_post c (cat [''/trust/cert/del/'', py_str uid]) (JsonBody (JObject []))) (\<lambda>r.
    bindR (raise_for_status r) (\<lambda>r.
    bindR (response_json r) (\<lambda>v.
      if result_in {''deleted''} v then Result ()
      else Raise (ValueError ''certificate deletion was rejected'')))))"

definition crl_unavailable :: string where
  "crl_unavailable = cat [''CRL unavailable; revoked by deletion; '', ''already-distributed profiles may remain valid'']"

text \<open>The result and, after a revocation, the identifier that leaves the table with the audited outcome of the list.\<close>

definition revoke_client_certificate ::
  "HttpTarget \<Rightarrow> string \<Rightarrow> string \<Rightarrow> string \<Rightarrow> (SyncResult \<times> (string \<times> bool) option) http" where
  "revoke_client_certificate t target_id username caref =
    (let c = opnsense_client t;
         failed = (\<lambda>e. (certificate_delete_failure username (openvpn_failure ''client certificate deletion'' e), None)) in
     except http_key_value_type failed
      (bindR (find_client_certificate c username caref []) (\<lambda>found.
         case found of
           None \<Rightarrow> Result (sync_result True ''already absent'', None)
         | Some certificate \<Rightarrow>
             bindR (add_client_certificate_to_crl c target_id certificate caref) (\<lambda>crl_result.
             bindR (pureR (py_item ''refid'' certificate)) (\<lambda>refid.
             if sr_ok crl_result then Result (sync_result True ''revoked via CRL'', Some (py_str refid, True))
             else
               except http_key_value_type failed
                 (bindR (delete_certificate c certificate) (\<lambda>_.
                  Result (sync_result True crl_unavailable, Some (py_str refid, False)))))))))"

definition issued_after :: "(string \<times> bool) option \<Rightarrow> issued \<Rightarrow> issued" where
  "issued_after revoked certs = (case revoked of None \<Rightarrow> certs | Some (refid, _) \<Rightarrow> filter (\<lambda>z. fst z \<noteq> refid) certs)"

section \<open>Profiles\<close>

definition openvpn_export_body :: "string \<Rightarrow> string \<Rightarrow> json" where
  "openvpn_export_body template hostname =
     JObject [(''openvpn_export'', JObject [(''template'', JText template), (''hostname'', JText hostname)])]"

text \<open>The path of a profile: with a certificate only if this connector issued it to the user.\<close>

definition export_path :: "issued \<Rightarrow> string \<Rightarrow> string option \<Rightarrow> string option \<Rightarrow> string option" where
  "export_path certs vpnid username certref = (case certref of
     None \<Rightarrow> Some (cat [''/openvpn/export/download/'', vpnid])
   | Some ref \<Rightarrow>
       (case (username, map_of certs ref) of
          (Some name, Some (holder, _)) \<Rightarrow>
            if holder = name then Some (cat [''/openvpn/export/download/'', vpnid, ''/'', ref]) else None
        | _ \<Rightarrow> None))"

text \<open>\<open>b64\<close> is the strict decoder of base64 texts.\<close>

definition exported :: "(string \<Rightarrow> string option) \<Rightarrow> json \<Rightarrow> Failure + string \<times> string" where
  "exported b64 v =
    (if \<not> result_in {''ok'', ''saved''} v then Inl (ValueError ''OpenVPN export was rejected'')
     else bind_sum (py_get ''filename'' JNull v) (\<lambda>filename.
       bind_sum (py_get ''content'' JNull v) (\<lambda>content.
         case (filename, content) of
           (JText f, JText s) \<Rightarrow> (case b64 s of None \<Rightarrow> Inl (ValueError ''binascii'') | Some bytes \<Rightarrow> Inr (f, bytes))
         | _ \<Rightarrow> Inl (ValueError ''OpenVPN export response has an invalid shape''))))"

definition export_config :: "(string \<Rightarrow> string option) \<Rightarrow> HttpTarget \<Rightarrow> issued \<Rightarrow> string \<Rightarrow> string \<Rightarrow> string
    \<Rightarrow> string option \<Rightarrow> string option \<Rightarrow> (SyncResult + string \<times> string) http" where
  "export_config b64 t certs vpnid template hostname username certref =
    (case export_path certs vpnid username certref of
       None \<Rightarrow> Result (Inl (failed_result
         ''OPNsense OpenVPN export requires a connector-issued client certificate'' VALIDATION False))
     | Some path \<Rightarrow>
         except http_key_value_type (\<lambda>e. Inl (openvpn_failure ''client export'' e))
           (bindR (client_post (opnsense_client t) path (JsonBody (openvpn_export_body template hostname))) (\<lambda>r.
            bindR (raise_for_status r) (\<lambda>r.
            bindR (response_json r) (\<lambda>v.
            bindR (pureR (exported b64 v)) (\<lambda>profile. Result (Inr profile)))))))"

definition validate_openvpn_export :: "HttpTarget \<Rightarrow> string \<Rightarrow> string \<Rightarrow> string \<Rightarrow> SyncResult http" where
  "validate_openvpn_export t vpnid template hostname =
    except http_key_value_type (openvpn_failure ''preset validation'')
      (bindR (client_post (opnsense_client t) (cat [''/openvpn/export/validate_presets/'', vpnid])
                (JsonBody (openvpn_export_body template hostname))) (\<lambda>r.
       bindR (raise_for_status r) (\<lambda>r.
       bindR (response_json r) (\<lambda>v.
         Result (if result_in {''failed''} v then
             failed_result ''OPNsense OpenVPN export preset is invalid'' VALIDATION False
           else sync_result True ''valid'')))))"

section \<open>Users\<close>

definition opnsense_disabled :: "json \<Rightarrow> bool" where
  "opnsense_disabled v \<longleftrightarrow> lower (py_str v) \<in> {''1'', ''true'', ''yes''}"

definition opnsense_account :: "json \<Rightarrow> Failure + RemoteAccount option" where
  "opnsense_account row =
    bind_sum (py_get ''name'' JNull row) (\<lambda>v.
      if py_true v then
        bind_sum (get_str ''descr'' [] row) (\<lambda>shown.
        bind_sum (get_str ''email'' [] row) (\<lambda>email.
        bind_sum (py_get ''disabled'' (JText ''0'') row) (\<lambda>disabled.
        Inr (Some (remote_account (py_str v) shown email (if opnsense_disabled disabled then ''disabled'' else ''active''))))))
      else Inr None)"

definition opnsense_discover_accounts :: "HttpTarget \<Rightarrow> AccountDiscovery http" where
  "opnsense_discover_accounts t =
    except http_value_type (\<lambda>_. not_discovered ''OPNsense account discovery failed.'')
      (bindR (client_post (opnsense_client t) ''/auth/user/search'' (JsonBody (JObject [(''rowCount'', JInt (- 1))]))) (\<lambda>r.
       bindR (raise_for_status r) (\<lambda>r.
       bindR (response_json r) (\<lambda>v.
       bindR (pureR (bind_sum (py_get ''rows'' (JArray []) v) (\<lambda>rows.
                bind_sum (py_iter rows) (collect opnsense_account)))) (\<lambda>accounts.
       Result (accounts_discovered accounts))))))"

definition opnsense_groups :: "json \<Rightarrow> string set option" where
  "opnsense_groups v = (case v of
     JText s \<Rightarrow> Some (set (filter (\<lambda>g. g \<noteq> []) (map strip (split_on (CHR '','') s))))
   | JArray xs \<Rightarrow> Some (set (map py_str xs))
   | _ \<Rightarrow> None)"

definition opnsense_status :: "json \<Rightarrow> string option" where
  "opnsense_status v = (if v = JNull then None else Some (if opnsense_disabled v then ''disabled'' else ''active''))"

definition opnsense_snapshot :: "json option \<Rightarrow> Failure + RemoteIdentitySnapshot" where
  "opnsense_snapshot row =
    (let item = found_item row; some = found row in
     bind_sum (when_given (row \<noteq> None) (py_get ''group_memberships'' JNull item)) (\<lambda>groups.
     bind_sum (when_given (row \<noteq> None) (py_get ''disabled'' JNull item)) (\<lambda>disabled.
     bind_sum (when_given some (bind_sum (py_get ''name'' JNull item) (\<lambda>v. Inr (py_str v)))) (\<lambda>name.
     bind_sum (when_given some (get_present ''descr'' item)) (\<lambda>shown.
     bind_sum (when_given some (get_present ''email'' item)) (\<lambda>email.
     Inr (identity_snapshot (row \<noteq> None) name (Option.bind shown (\<lambda>s. s)) (Option.bind email (\<lambda>s. s))
       (Option.bind disabled opnsense_status) (Option.bind groups opnsense_groups))))))))"

definition opnsense_inspect_user_for_assignment :: "HttpTarget \<Rightarrow> ManagedUser \<Rightarrow> (string + RemoteIdentitySnapshot) http" where
  "opnsense_inspect_user_for_assignment t u =
    except http_value_type (\<lambda>_. Inl ''OPNsense identity read failed.'')
      (bindR (opnsense_find_user (opnsense_client t) (u_username u)) (\<lambda>row.
       bindR (pureR (opnsense_snapshot row)) (\<lambda>snap. Result (Inr snap))))"

definition opnsense_user_payload :: "ManagedUser \<Rightarrow> string option \<Rightarrow> string set \<Rightarrow> json" where
  "opnsense_user_payload u password memberships = JObject [(''user'', JObject (
     [(''name'', JText (u_username u)), (''descr'', JText (display_or_username u)), (''email'', JText (u_email u)),
      (''disabled'', JText (if u_status u = US_DISABLED then ''1'' else ''0'')),
      (''group_memberships'', JText (join_with '','' (sorted_names memberships)))] @
     (case password of None \<Rightarrow> [] | Some p \<Rightarrow> [(''password'', JText p)])))]"

definition opnsense_failure :: "(Failure \<Rightarrow> string) \<Rightarrow> Failure \<Rightarrow> SyncResult" where
  "opnsense_failure txt e = sync_result False (cat [''opnsense http error: '', txt e])"

definition opnsense_ensure_user_for_assignment ::
  "(Failure \<Rightarrow> string) \<Rightarrow> HttpTarget \<Rightarrow> ManagedUser \<Rightarrow> string option \<Rightarrow> string set \<Rightarrow> SyncResult http" where
  "opnsense_ensure_user_for_assignment txt t u password memberships =
    (let c = opnsense_client t; payload = JsonBody (opnsense_user_payload u password memberships) in
     except is_http_error (opnsense_failure txt)
      (bindR (opnsense_find_uuid c (u_username u)) (\<lambda>uid.
       bindR (client_post c (if py_true uid then cat [''/auth/user/set/'', py_str uid] else ''/auth/user/add'') payload) (\<lambda>r.
       bindR (raise_for_status r) (\<lambda>r.
       bindR (response_json r) (\<lambda>body.
       bindR (pureR (py_get ''result'' JNull body)) (\<lambda>res.
         if res \<in> {JText ''saved'', JText ''ok''} then Result (sync_result True ''saved'')
         else Result (sync_result False (cat [''opnsense rejected save: '', py_str body])))))))))"

text \<open>The verified OpenVPN configuration of the target, of which there is at most one row.\<close>

record TargetOpenvpnConfig =
  ov_target_id :: string
  ov_enabled :: bool
  ov_vpnid :: string
  ov_template :: string
  ov_hostname :: string
  ov_cert_lifetime_days :: int
  ov_auth_posture :: string
  ov_verify_detail :: string
  ov_verified_at :: "time option"

definition configured_openvpn_vpnid :: "string \<Rightarrow> TargetOpenvpnConfig list \<Rightarrow> string option" where
  "configured_openvpn_vpnid target_id rows =
    (case filter (\<lambda>r. ov_target_id r = target_id \<and> ov_enabled r) rows of
       [r] \<Rightarrow> if ov_verified_at r = None then None else Some (ov_vpnid r)
     | _ \<Rightarrow> None)"

text \<open>What a lifecycle change answers after the identity step and the revocation.\<close>

definition offboard_result :: "SyncResult \<Rightarrow> SyncResult \<Rightarrow> SyncResult" where
  "offboard_result identity revocation =
    (if \<not> sr_ok revocation then
       (if sr_ok identity then revocation
        else classify_result \<lparr>sr_ok = False, sr_detail = cat [sr_detail identity, ''; '', sr_detail revocation],
               sr_error_kind = (case sr_error_kind identity of None \<Rightarrow> sr_error_kind revocation | Some k \<Rightarrow> Some k),
               sr_retryable = sr_retryable identity \<or> sr_retryable revocation\<rparr>)
     else if sr_ok identity \<and> starts_with ''CRL unavailable'' (sr_detail revocation) then
       sync_result True (cat [sr_detail identity, ''; '', sr_detail revocation])
     else identity)"

definition revocation_failure :: "ManagedUser \<Rightarrow> string \<Rightarrow> ConnectorErrorKind option \<Rightarrow> bool \<Rightarrow> SyncResult" where
  "revocation_failure u detail kind retryable = classify_result \<lparr>sr_ok = False,
     sr_detail = cat [''OPNsense OpenVPN client certificate for '', u_username u, '' could not be revoked: '', detail],
     sr_error_kind = kind, sr_retryable = retryable\<rparr>"

definition offboard_revocation :: "HttpTarget \<Rightarrow> string \<Rightarrow> string \<Rightarrow> ManagedUser \<Rightarrow> SyncResult + OpenVpnDiscovery
    \<Rightarrow> (SyncResult \<times> (string \<times> bool) option) http" where
  "offboard_revocation t target_id vpnid u discovery = (case discovery of
     Inl failure \<Rightarrow>
       Result (revocation_failure u (sr_detail failure) (sr_error_kind failure) (sr_retryable failure), None)
   | Inr d \<Rightarrow> (case find (\<lambda>s. vs_vpnid s = vpnid) (vd_servers d) of
       None \<Rightarrow> Result (revocation_failure u ''configured server CA was not found'' (Some VALIDATION) False, None)
     | Some server \<Rightarrow>
         if vs_caref server = [] then
           Result (revocation_failure u ''configured server CA was not found'' (Some VALIDATION) False, None)
         else revoke_client_certificate t target_id (u_username u) (vs_caref server)))"

definition offboard_openvpn :: "HttpTarget \<Rightarrow> string \<Rightarrow> string option \<Rightarrow> ManagedUser \<Rightarrow> SyncResult
    \<Rightarrow> (SyncResult \<times> (string \<times> bool) option) http" where
  "offboard_openvpn t target_id vpn u identity = (case vpn of
     None \<Rightarrow> Result (identity, None)
   | Some vpnid \<Rightarrow>
       bindR (discover_openvpn t) (\<lambda>discovery.
       bindR (offboard_revocation t target_id vpnid u discovery) (\<lambda>revocation.
       Result (offboard_result identity (fst revocation), snd revocation))))"

definition opnsense_disable_user_for_assignment :: "(Failure \<Rightarrow> string) \<Rightarrow> HttpTarget \<Rightarrow> string \<Rightarrow> string option
    \<Rightarrow> ManagedUser \<Rightarrow> string set \<Rightarrow> (SyncResult \<times> (string \<times> bool) option) http" where
  "opnsense_disable_user_for_assignment txt t target_id vpn u memberships =
    bindR (opnsense_ensure_user_for_assignment txt t u None memberships) (offboard_openvpn t target_id vpn u)"

definition opnsense_delete_identity :: "(Failure \<Rightarrow> string) \<Rightarrow> HttpTarget \<Rightarrow> ManagedUser \<Rightarrow> SyncResult http" where
  "opnsense_delete_identity txt t u =
    (let c = opnsense_client t in
     except is_http_error (opnsense_failure txt)
      (bindR (opnsense_find_uuid c (u_username u)) (\<lambda>uid.
         if \<not> py_true uid then Result (sync_result True ''already absent'')
         else
           bindR (client_post c (cat [''/auth/user/del/'', py_str uid]) (JsonBody (JObject []))) (\<lambda>r.
           bindR (raise_for_status r) (\<lambda>r.
           bindR (response_json r) (\<lambda>v.
           bindR (pureR (py_get ''result'' JNull v)) (\<lambda>res.
             if res = JText ''deleted'' then Result (sync_result True ''deleted'')
             else Result (sync_result False (cat [''opnsense rejected delete: '', hp_text r])))))))))"

definition opnsense_delete_user :: "(Failure \<Rightarrow> string) \<Rightarrow> HttpTarget \<Rightarrow> string \<Rightarrow> string option
    \<Rightarrow> ManagedUser \<Rightarrow> (SyncResult \<times> (string \<times> bool) option) http" where
  "opnsense_delete_user txt t target_id vpn u =
    bindR (opnsense_delete_identity txt t u) (offboard_openvpn t target_id vpn u)"

definition opnsense_probe :: "(Failure \<Rightarrow> string) \<Rightarrow> HttpTarget \<Rightarrow> SyncResult http" where
  "opnsense_probe txt t =
    except is_http_error (\<lambda>e. sync_result False (cat [''opnsense unreachable: '', txt e]))
      (bindR (client_post (opnsense_client t) ''/auth/user/search'' (JsonBody (JObject [(''rowCount'', JInt 1)]))) (\<lambda>r.
       bindR (raise_for_status r) (\<lambda>_. Result (sync_result True ''reachable''))))"

section \<open>The promises of an adapter\<close>

text \<open>A search is a POST that changes nothing.  A change is confirmed by the word in its answer; the update of a
  revocation list is an attempt, because a deletion of the certificate replaces it when it fails.\<close>

definition opnsense_reads :: "HttpRequest \<Rightarrow> bool" where
  "opnsense_reads q \<longleftrightarrow> hr_method q = ''GET'' \<or> (hr_method q = ''POST'' \<and> hr_path q = ''/auth/user/search'')"

definition opnsense_confirms :: "HttpRequest \<Rightarrow> Exchange \<Rightarrow> bool" where
  "opnsense_confirms q x \<longleftrightarrow> starts_with ''/trust/crl/set/'' (hr_path q) \<or>
     (case x of
        Answered p \<Rightarrow> is_success p \<and>
          (case hp_json p of None \<Rightarrow> False | Some v \<Rightarrow> result_in {''saved'', ''ok'', ''deleted''} v)
      | _ \<Rightarrow> False)"

lemma to_opnsense [simp]: "to_target t q \<longleftrightarrow> True" if "hr_client q = opnsense_client t"
  using that by (simp add: to_target_def opnsense_client_def starts_with_def)

lemma result_in_get:
  "py_get ''result'' JNull v = Inr (JText s) \<Longrightarrow> s \<in> names \<Longrightarrow> result_in names v"
  by (auto simp: py_get_def result_in_def member_or_def split: json.splits option.splits)

lemma result_in_mono: "result_in A v \<Longrightarrow> A \<subseteq> B \<Longrightarrow> result_in B v"
  by (auto simp: result_in_def split: json.splits)

lemma starts_with_cat [simp]: "starts_with p (cat [p, s])"
  by (simp add: starts_with_def cat_def)

lemmas opnsense_wp = opnsense_failure_def client_defs wp_rules Let_def changing_changes observing_quiet
  confirmed_def opnsense_reads_def failure_defs

lemma opnsense_find_reads:
  "wp (opnsense_find_user (opnsense_client t) n) (\<lambda>tr r. quiet_reads t opnsense_reads tr)"
  by (auto simp: opnsense_find_user_def opnsense_wp split: sum.splits)

lemma opnsense_uuid_reads:
  "wp (opnsense_find_uuid (opnsense_client t) n) (\<lambda>tr r. quiet_reads t opnsense_reads tr)"
  unfolding opnsense_find_uuid_def wp_rules
  by (rule wp_quiet [OF opnsense_find_reads]) (auto simp: wp_rules split: sum.splits)

lemma opnsense_probe_lawful: "wp (opnsense_probe txt t) (observing t opnsense_reads)"
  by (auto simp add: opnsense_probe_def opnsense_wp split: option.splits sum.splits Failure.splits)

lemma opnsense_inspect_lawful: "wp (opnsense_inspect_user_for_assignment t u) (observing t opnsense_reads)"
  unfolding opnsense_inspect_user_for_assignment_def wp_rules
  by (rule wp_quiet [OF opnsense_find_reads])
    (auto simp add: opnsense_wp split: option.splits sum.splits Failure.splits)

lemma opnsense_discover_lawful: "wp (opnsense_discover_accounts t) (observing t opnsense_reads)"
  by (auto simp add: opnsense_discover_accounts_def opnsense_wp split: option.splits sum.splits Failure.splits)

lemma opnsense_ensure_lawful:
  "wp (opnsense_ensure_user_for_assignment txt t u pw ms) (changing t opnsense_reads opnsense_confirms)"
  unfolding opnsense_ensure_user_for_assignment_def Let_def wp_rules
  by (rule wp_quiet [OF opnsense_uuid_reads])
    (auto simp add: opnsense_wp opnsense_confirms_def intro: result_in_get
      split: option.splits sum.splits Failure.splits)

lemma opnsense_delete_identity_lawful:
  "wp (opnsense_delete_identity txt t u) (changing t opnsense_reads opnsense_confirms)"
  unfolding opnsense_delete_identity_def Let_def wp_rules
  by (rule wp_quiet [OF opnsense_uuid_reads])
    (auto simp add: opnsense_wp opnsense_confirms_def intro: result_in_get
      split: option.splits sum.splits Failure.splits)

lemma openvpn_server_reads:
  "wp (openvpn_server (opnsense_client t) item) (\<lambda>tr r. quiet_reads t opnsense_reads tr)"
  by (auto simp: openvpn_server_def openvpn_instance_def opnsense_wp split: json.splits sum.splits)

lemma openvpn_servers_read:
  "wp (openvpn_servers (opnsense_client t) items) (\<lambda>tr r. quiet_reads t opnsense_reads tr)"
proof (induction items)
  case (Cons item items)
  show ?case
    unfolding openvpn_servers.simps wp_rules
    by (rule wp_quiet [OF openvpn_server_reads])
      (auto simp: wp_rules intro!: wp_quiet [OF Cons.IH] split: sum.splits)
qed simp

lemma discover_openvpn_reads: "wp (discover_openvpn t) (observing t opnsense_reads)"
  by (auto simp: discover_openvpn_def opnsense_wp intro!: wp_quiet [OF openvpn_servers_read]
      split: sum.splits Failure.splits)

lemma find_certificate_reads:
  "wp (find_client_certificate (opnsense_client t) username caref excluded) (\<lambda>tr r. quiet_reads t opnsense_reads tr)"
  by (auto simp: find_client_certificate_def opnsense_wp split: sum.splits)

lemma get_crl_reads:
  "wp (get_crl (opnsense_client t) caref) (\<lambda>tr r. quiet_reads t opnsense_reads tr)"
  by (auto simp: get_crl_def opnsense_wp split: sum.splits)

lemma add_to_crl_step:
  "wp (add_client_certificate_to_crl (opnsense_client t) target_id certificate caref)
     (\<lambda>tr r. changes t opnsense_reads opnsense_confirms True tr)"
  unfolding add_client_certificate_to_crl_def wp_rules
  by (rule wp_quiet [OF get_crl_reads])
    (auto simp: opnsense_wp opnsense_confirms_def split: sum.splits)

text \<open>A part that ends with a result and a revocation.\<close>

definition revoking :: "HttpTarget \<Rightarrow> (HttpRequest \<times> Exchange) list \<Rightarrow> Failure + SyncResult \<times> (string \<times> bool) option \<Rightarrow> bool" where
  "revoking t tr r \<longleftrightarrow> (case r of
     Inl e \<Rightarrow> changes t opnsense_reads opnsense_confirms False tr \<and> \<not> is_http_error e
   | Inr z \<Rightarrow> changes t opnsense_reads opnsense_confirms (sr_ok (fst z)) tr)"

lemma delete_failure_ok [simp]: "sr_ok (certificate_delete_failure n f) = False"
  by (simp add: certificate_delete_failure_def)

lemma delete_certificate_step:
  "wp (delete_certificate (opnsense_client t) certificate) (step_taken t opnsense_reads opnsense_confirms)"
  by (auto simp: delete_certificate_def opnsense_wp step_taken_def opnsense_confirms_def
      intro: result_in_mono split: sum.splits option.splits)

lemma revoke_step: "wp (revoke_client_certificate t target_id username caref) (revoking t)"
proof -
  have crl: "wp (add_client_certificate_to_crl (opnsense_client t) target_id certificate caref) R"
    if "\<And>tr r. changes t opnsense_reads opnsense_confirms True tr \<Longrightarrow> R tr r" for R certificate
    by (rule wp_mono [OF add_to_crl_step that])
  show ?thesis
    unfolding revoke_client_certificate_def Let_def wp_rules
    by (rule wp_quiet [OF find_certificate_reads])
      (auto simp: wp_rules revoking_def failure_defs changes_weak
        intro!: crl wp_step_taken [OF delete_certificate_step]
        split: option.splits sum.splits Failure.splits)
qed

lemma classify_ok [simp]: "sr_ok (classify_result r) = sr_ok r"
  by (simp add: classify_result_def Let_def)

lemma offboard_result_ok: "sr_ok (offboard_result identity revocation) \<Longrightarrow> sr_ok identity \<and> sr_ok revocation"
  by (auto simp: offboard_result_def split: if_splits)

lemma revocation_failure_ok [simp]: "sr_ok (revocation_failure u d k b) = False"
  by (simp add: revocation_failure_def)

lemma offboard_revocation_step: "wp (offboard_revocation t target_id vpnid u discovery) (revoking t)"
proof -
  have stop: "revoking t [] (Inr (revocation_failure u d k b, None))" for d k b
    by (simp add: revoking_def)
  show ?thesis
    by (simp add: offboard_revocation_def stop revoke_step split: sum.split option.split)
qed

definition offboarding :: "HttpTarget \<Rightarrow> SyncResult \<Rightarrow> (HttpRequest \<times> Exchange) list
    \<Rightarrow> Failure + SyncResult \<times> (string \<times> bool) option \<Rightarrow> bool" where
  "offboarding t identity tr r \<longleftrightarrow> revoking t tr r \<and>
     (case r of Inl _ \<Rightarrow> True | Inr z \<Rightarrow> sr_ok (fst z) \<longrightarrow> sr_ok identity)"

lemma offboard_step: "wp (offboard_openvpn t target_id vpn u identity) (offboarding t identity)"
proof (cases vpn)
  case None
  then show ?thesis by (simp add: offboard_openvpn_def offboarding_def revoking_def)
next
  case (Some vpnid)
  have revoked: "wp (offboard_revocation t target_id vpnid u discovery) R"
    if "\<And>tr r. revoking t tr r \<Longrightarrow> R tr r" for R discovery
    by (rule wp_mono [OF offboard_revocation_step that])
  show ?thesis
    unfolding offboard_openvpn_def Some option.case
  proof (subst wp_bindR, rule wp_mono [OF discover_openvpn_reads])
    fix tr :: "(HttpRequest \<times> Exchange) list" and r :: "Failure + SyncResult + OpenVpnDiscovery"
    assume r: "observing t opnsense_reads tr r"
    show "case r of Inl e \<Rightarrow> offboarding t identity tr (Inl e)
      | Inr discovery \<Rightarrow> wp (bindR (offboard_revocation t target_id vpnid u discovery) (\<lambda>revocation.
          Result (offboard_result identity (fst revocation), snd revocation)))
          (\<lambda>t'. offboarding t identity (tr @ t'))"
    proof (cases r)
      case (Inl e)
      then show ?thesis using r by (simp add: offboarding_def revoking_def observing_quiet)
    next
      case (Inr discovery)
      then have q: "quiet_reads t opnsense_reads tr" using r by (simp add: observing_quiet)
      have "wp (bindR (offboard_revocation t target_id vpnid u discovery) (\<lambda>revocation.
          Result (offboard_result identity (fst revocation), snd revocation)))
          (\<lambda>t'. offboarding t identity (tr @ t'))"
        unfolding wp_rules
        by (rule revoked) (auto simp: offboarding_def revoking_def q dest!: offboard_result_ok
          split: sum.splits elim!: changes_mono)
      then show ?thesis using Inr by simp
    qed
  qed
qed

lemma adapter_of_offboarding:
  assumes "wp m (changing t opnsense_reads opnsense_confirms)"
  shows "wp (bindR (bindR m (offboard_openvpn t target_id vpn u)) (\<lambda>z. Result (fst z)))
    (changing t opnsense_reads opnsense_confirms)"
proof -
  have off: "wp (offboard_openvpn t target_id vpn u identity) R"
    if "\<And>tr r. offboarding t identity tr r \<Longrightarrow> R tr r" for R identity
    by (rule wp_mono [OF offboard_step that])
  show ?thesis
    unfolding wp_rules
    by (rule wp_mono [OF assms])
      (auto simp: changing_changes offboarding_def revoking_def intro!: off split: sum.splits; erule changes_mono; simp)
qed

lemma opnsense_disable_lawful:
  "wp (bindR (opnsense_disable_user_for_assignment txt t target_id vpn u ms) (\<lambda>z. Result (fst z)))
     (changing t opnsense_reads opnsense_confirms)"
  unfolding opnsense_disable_user_for_assignment_def by (rule adapter_of_offboarding [OF opnsense_ensure_lawful])

lemma opnsense_delete_lawful:
  "wp (bindR (opnsense_delete_user txt t target_id vpn u) (\<lambda>z. Result (fst z)))
     (changing t opnsense_reads opnsense_confirms)"
  unfolding opnsense_delete_user_def by (rule adapter_of_offboarding [OF opnsense_delete_identity_lawful])

definition opnsense_adapter :: "(Failure \<Rightarrow> string) \<Rightarrow> HttpTarget \<Rightarrow> string \<Rightarrow> string option \<Rightarrow> Adapter" where
  "opnsense_adapter txt t target_id vpn = \<lparr>op_ensure = opnsense_ensure_user_for_assignment txt t,
     op_disable = \<lambda>u ms. bindR (opnsense_disable_user_for_assignment txt t target_id vpn u ms) (\<lambda>z. Result (fst z)),
     op_delete = \<lambda>u. bindR (opnsense_delete_user txt t target_id vpn u) (\<lambda>z. Result (fst z)),
     op_probe = opnsense_probe txt t, op_inspect = \<lambda>u _. opnsense_inspect_user_for_assignment t u,
     op_discover = opnsense_discover_accounts t\<rparr>"

interpretation opnsense: adapter "opnsense_adapter err t target_id vpn" t opnsense_reads opnsense_confirms
  for err t target_id vpn
  by unfold_locales (simp_all add: opnsense_adapter_def opnsense_ensure_lawful opnsense_disable_lawful
      opnsense_delete_lawful opnsense_probe_lawful opnsense_inspect_lawful opnsense_discover_lawful)

section \<open>Properties\<close>

text \<open>The identifiers that an answer with a revocation list revokes.\<close>

definition revoked_in :: "Exchange \<Rightarrow> string set" where
  "revoked_in x = (case x of
     Answered r \<Rightarrow> (case hp_json r of
       Some (JObject ms) \<Rightarrow> (case member_or ''crl'' JNull ms of
         JObject crl \<Rightarrow> (case revoked_refids_by_reason crl of Inr by_reason \<Rightarrow> set (concat by_reason) | Inl _ \<Rightarrow> {})
       | _ \<Rightarrow> {})
     | _ \<Rightarrow> {})
   | _ \<Rightarrow> {})"

lemma found_certificate:
  "wp (find_client_certificate c name caref excluded)
     (\<lambda>tr r. \<forall>row. r = Inr (Some row) \<longrightarrow> is_client_certificate name caref excluded row)"
  by (auto simp: find_client_certificate_def wp_rules client_defs Let_def find_Some_iff split: sum.splits json.splits)

lemma certificate_refid:
  assumes "is_client_certificate name caref excluded row" "py_item ''refid'' row = Inr v"
  shows "py_str v \<notin> set excluded \<and> py_str v \<noteq> []"
  using assms by (auto simp: is_client_certificate_def py_item_def member_or_def Let_def split: json.splits option.splits)

lemma listed_certificates:
  "wp (get_crl c caref) (\<lambda>tr r. \<exists>q x. tr = [(q, x)] \<and> hr_path q = cat [''/trust/crl/get/'', caref] \<and>
     (\<forall>crl by_reason. r = Inr crl \<longrightarrow> revoked_refids_by_reason crl = Inr by_reason \<longrightarrow> revoked_in x = set (concat by_reason)))"
  by (auto simp: get_crl_def wp_rules client_defs Let_def revoked_in_def split: sum.splits json.splits option.splits)

text \<open>What the certificate of a call that provides one is.\<close>

definition provides :: "string \<Rightarrow> string \<Rightarrow> (HttpRequest \<times> Exchange) list \<Rightarrow> Failure + SyncResult + string \<times> issued \<Rightarrow> bool" where
  "provides name caref tr r \<longleftrightarrow> (case r of
     Inr (Inr z) \<Rightarrow> fst z \<notin> revoked_in (snd (hd tr)) \<and> tr \<noteq> [] \<and> map_of (snd z) (fst z) = Some (name, caref) \<and> fst z \<noteq> []
       \<and> hr_path (fst (hd tr)) = cat [''/trust/crl/get/'', caref]
   | _ \<Rightarrow> True)"

lemma ensure_certificate_provides:
  "wp (ensure_client_certificate t target_id certs name caref) (provides name caref)"
proof -
  have find: "wp (find_client_certificate c name caref excluded) R"
    if "\<And>tr e. R tr (Inl e)" "\<And>tr. R tr (Inr None)"
      "\<And>tr row. is_client_certificate name caref excluded row \<Longrightarrow> R tr (Inr (Some row))" for c excluded R
    using that by (intro wp_mono [OF found_certificate]) (metis old.sum.exhaust option.exhaust)
  have create: "wp (create_certificate c target_id name caref) R" if "\<And>tr r. R tr r" for c R
    using that by (simp add: wp_performs)
  have row: False
    if "is_client_certificate name caref (concat by_reason) row" "py_item ''refid'' row = Inr v"
      "ids \<in> set by_reason" "py_str v \<in> set ids" for by_reason row v ids
    using certificate_refid [OF that(1,2)] that(3,4) by auto
  have named: False
    if "is_client_certificate name caref excluded row" "py_item ''refid'' row = Inr v" "py_str v = []" for excluded row v
    using certificate_refid [OF that(1,2)] that(3) by simp
  show ?thesis
    unfolding ensure_client_certificate_def Let_def wp_rules
    by (rule wp_mono [OF listed_certificates])
      (auto simp: wp_rules provides_def intro!: find create split: sum.splits; blast dest: row named)
qed

text \<open>C9: A certificate that is handed out is not revoked.  The identifier with which the connector ends the
  provisioning of a client certificate is not in the revocation list of the authority, which it read first, and the
  table of the issued certificates binds it to the user and the authority.  A revoked certificate is never taken up
  again, not even when it is the only one of the user.\<close>

theorem issued_certificate_is_not_revoked:
  assumes "performs (ensure_client_certificate t target_id certs name caref) tr (Inr (Inr (refid, known)))"
  shows "hr_path (fst (hd tr)) = cat [''/trust/crl/get/'', caref] \<and> refid \<notin> revoked_in (snd (hd tr)) \<and>
    map_of known refid = Some (name, caref)"
  using wpD [OF ensure_certificate_provides assms] by (simp add: provides_def)

definition certificate_row :: "string \<Rightarrow> json" where
  "certificate_row refid = JObject [(''commonname'', JText ''ada''), (''caref'', JText ''ca1''),
     (''cert_type'', JText ''usr_cert''), (''refid'', JText refid), (''uuid'', JText ''u-1'')]"

definition revoking_list :: "string \<Rightarrow> json" where
  "revoking_list refid = JObject [(''crl'', JObject [(''descr'', JText ''clients''),
     (''revoked_reason_0'', JObject [(refid, JObject [(''selected'', JInt 1)])])])]"

theorem issued_certificate_is_not_revoked_witness:
  "\<exists>tr. performs (ensure_client_certificate sample_target ''fw'' [] ''ada'' ''ca1'') tr
       (Inr (Inr (''c2'', [(''c2'', (''ada'', ''ca1''))]))) \<and> ''c2'' \<notin> revoked_in (snd (hd tr))"
proof -
  let ?m = "ensure_client_certificate sample_target ''fw'' [] ''ada'' ''ca1''"
  have "snd (snd (execute answering ?m [json_answer 200 (revoking_list ''c1''),
      json_answer 200 (JObject [(''rows'', JArray [certificate_row ''c1'', certificate_row ''c2''])])])) =
    Inr (Inr (''c2'', [(''c2'', (''ada'', ''ca1''))]))"
    by code_simp
  then obtain tr where run: "performs ?m tr (Inr (Inr (''c2'', [(''c2'', (''ada'', ''ca1''))])))" by (rule execute_result)
  then show ?thesis using issued_certificate_is_not_revoked [OF run] by blast
qed

lemma split_on_word: "c \<notin> set w \<Longrightarrow> split_on c w = [w]"
  by (induction w) auto

lemma split_on_first: "c \<notin> set w \<Longrightarrow> split_on c (w @ c # s) = w # split_on c s"
  by (induction w) auto

lemma split_on_join:
  assumes "\<forall>w \<in> set ws. c \<notin> set w" "ws \<noteq> []"
  shows "split_on c (join_with [c] ws) = ws"
  using assms by (induction ws rule: induct_list012) (auto simp: split_on_word split_on_first)

definition selected_for :: "nat \<Rightarrow> json \<Rightarrow> string set" where
  "selected_for reason body = (case body of
     JObject [(_, JObject ms)] \<Rightarrow> (case map_of ms (cat [''revoked_reason_'', show_nat reason]) of
       Some (JText s) \<Rightarrow> set (filter (\<lambda>w. w \<noteq> []) (split_on (CHR '','') s))
     | _ \<Rightarrow> {})
   | _ \<Rightarrow> {})"

lemma length_collect:
  "collect (\<lambda>i. bind_sum (g i) (\<lambda>a. Inr (Some a))) xs = Inr l \<Longrightarrow> length l = length xs"
  by (induction xs arbitrary: l) (auto simp: bind_sum_def split: sum.splits)

lemma map_of_tabulated: "inj k \<Longrightarrow> i \<in> set xs \<Longrightarrow> map_of (map (\<lambda>r. (k r, f r)) xs) (k i) = Some (f i)"
  by (induction xs) (auto dest: injD)

text \<open>C38: An update of a revocation list keeps it.  With identifiers that are not empty and have no comma, the request selects
  for every reason exactly the certificates that the list had for it, and for the first reason the revoked one
  as well: revoking one certificate never reinstates another.\<close>

theorem revocation_list_keeps_entries:
  assumes "revoked_refids_by_reason crl = Inr by_reason" "reason < 11"
    and "list_all (\<lambda>w. w \<noteq> [] \<and> CHR '','' \<notin> set w) (refid # concat by_reason)"
  shows "selected_for reason (crl_request target_id refid crl by_reason) =
    set (by_reason ! reason) \<union> (if reason = 0 then {refid} else {})"
proof -
  let ?key = "\<lambda>r. cat [''revoked_reason_'', show_nat r]"
  let ?ids = "(if reason = 0 then [refid] else []) @ by_reason ! reason"
  have "length by_reason = 11"
    using length_collect [of "revoked_for crl"] assms(1) by (force simp: revoked_refids_by_reason_def)
  then have "set (by_reason ! reason) \<subseteq> set (concat by_reason)"
    using assms(2) by (auto intro!: bexI [of _ "by_reason ! reason"])
  then have words: "w \<noteq> [] \<and> CHR '','' \<notin> set w" if "w \<in> set ?ids" for w
    using assms(3) that by (auto simp: list_all_iff split: if_splits)
  have "inj ?key" by (auto simp: inj_def cat_def)
  then have member: "map_of (map (\<lambda>r. (?key r, f r)) [0..<11]) (?key reason) = Some (f reason)" for f :: "nat \<Rightarrow> json"
    using assms(2) by (intro map_of_tabulated) auto
  have "selected_for reason (crl_request target_id refid crl by_reason) =
      set (filter (\<lambda>w. w \<noteq> []) (split_on (CHR '','') (join_with '','' (sorted_names (set ?ids)))))"
    using member by (simp add: selected_for_def crl_request_def Let_def cat_def del: upt_Suc)
  also have "\<dots> = set ?ids"
    using words split_on_join [of "sorted_names (set ?ids)" "CHR '',''"]
    by (cases "sorted_names (set ?ids) = []") (auto simp: sorted_names_def)
  finally show ?thesis by auto
qed

theorem revocation_list_keeps_entries_witness:
  "selected_for 0 (crl_request ''fw'' ''c2'' [(''revoked_reason_0'', JObject [(''c1'', JObject [(''selected'', JInt 1)])])]
     ([''c1''] # replicate 10 [])) = {''c1'', ''c2''}"
proof -
  have "revoked_refids_by_reason [(''revoked_reason_0'', JObject [(''c1'', JObject [(''selected'', JInt 1)])])] =
      Inr ([''c1''] # replicate 10 [])"
    by code_simp
  then show ?thesis
    using revocation_list_keeps_entries [of "[(''revoked_reason_0'', JObject [(''c1'', JObject [(''selected'', JInt 1)])])]"
      "[''c1''] # replicate 10 []" 0 "''c2''" "''fw''"] by auto
qed

text \<open>The outcome of a revocation that succeeded: no certificate, one in the list, or one deleted without the list.\<close>

definition candid :: "SyncResult \<times> (string \<times> bool) option \<Rightarrow> bool" where
  "candid z \<longleftrightarrow> (sr_ok (fst z) \<longrightarrow> (case snd z of
     Some (_, False) \<Rightarrow> sr_detail (fst z) = crl_unavailable | _ \<Rightarrow> True))"

definition candidly :: "(HttpRequest \<times> Exchange) list \<Rightarrow> Failure + SyncResult \<times> (string \<times> bool) option \<Rightarrow> bool" where
  "candidly tr r \<longleftrightarrow> (case r of Inl _ \<Rightarrow> True | Inr z \<Rightarrow> candid z)"

lemma candidly_simps [simp]: "candidly tr (Inl e)" "candidly tr (Inr z) = candid z"
  by (simp_all add: candidly_def)

lemma candid_simps [simp]: "\<not> sr_ok a \<Longrightarrow> candid (a, z)" "candid (a, None)" "candid (a, Some (refid, True))"
  by (simp_all add: candid_def)

lemma wp_any: "(\<And>tr r. R tr r) \<Longrightarrow> wp m R"
  by (simp add: wp_performs)

lemma candid_deletion: "candid (sync_result True crl_unavailable, Some (refid, False))"
  by (simp add: candid_def)

lemma revocation_candid: "wp (revoke_client_certificate t target_id name caref) candidly"
  unfolding revoke_client_certificate_def Let_def wp_rules
  by (rule wp_any) (auto simp: wp_rules candid_deletion intro!: wp_any split: sum.splits option.splits)

lemma offboard_revocation_candid: "wp (offboard_revocation t target_id vpnid u discovery) candidly"
  by (simp add: offboard_revocation_def revocation_candid split: sum.split option.split)

lemma ends_with_append: "ends_with p (xs @ p)"
  by (simp add: ends_with_def starts_with_def)

lemma offboarded_detail:
  assumes "candid (revocation, Some (refid, False))" "sr_ok (offboard_result identity revocation)"
  shows "ends_with crl_unavailable (sr_detail (offboard_result identity revocation))"
proof -
  note ok = offboard_result_ok [OF assms(2)]
  then have "sr_detail revocation = crl_unavailable" using assms(1) by (simp add: candid_def)
  then have "sr_detail (offboard_result identity revocation) = (sr_detail identity @ ''; '') @ crl_unavailable"
    using ok by (simp add: offboard_result_def crl_unavailable_def cat_def starts_with_def sync_result_def
        classify_result_def Let_def)
  then show ?thesis by (simp only: ends_with_append)
qed

lemma offboard_candid:
  "wp (offboard_openvpn t target_id vpn u identity) (\<lambda>tr r. \<forall>a refid. r = Inr (a, Some (refid, False)) \<longrightarrow> sr_ok a \<longrightarrow>
     ends_with crl_unavailable (sr_detail a))"
proof -
  have revoked: "wp (offboard_revocation t target_id vpnid u discovery) R"
    if "\<And>tr r. candidly tr r \<Longrightarrow> R tr r" for R discovery vpnid
    by (rule wp_mono [OF offboard_revocation_candid that])
  show ?thesis
    by (cases vpn) (auto simp: offboard_openvpn_def wp_rules offboarded_detail intro!: wp_any revoked split: sum.splits)
qed

text \<open>A deletion without the revocation list is told.  When OPNsense cannot put the certificate of a user into the
  revocation list, the connector deletes the certificate instead.  Such a disable or delete that succeeds always says so: its
  detail ends with the warning that distributed profiles may remain valid.\<close>

theorem offboarding_is_candid:
  assumes "performs m tr (Inr (a, Some (refid, False)))" "sr_ok a"
    and "m \<in> {opnsense_disable_user_for_assignment txt t target_id vpn u memberships, opnsense_delete_user txt t target_id vpn u}"
  shows "ends_with crl_unavailable (sr_detail a)"
  using assms offboard_candid [THEN wpD]
  by (auto simp: opnsense_disable_user_for_assignment_def opnsense_delete_user_def performs_bindR)

theorem offboarding_is_candid_witness:
  "\<exists>tr. performs (opnsense_delete_user (\<lambda>_. []) sample_target ''fw'' (Some ''1'') sample_user) tr
       (Inr (sync_result True (cat [''deleted; '', crl_unavailable]), Some (''c1'', False))) \<and>
     ends_with crl_unavailable (cat [''deleted; '', crl_unavailable])"
proof -
  let ?m = "opnsense_delete_user (\<lambda>_. []) sample_target ''fw'' (Some ''1'') sample_user"
  let ?r = "(sync_result True (cat [''deleted; '', crl_unavailable]), Some (''c1'', False))"
  let ?deleted = "json_answer 200 (JObject [(''result'', JText ''deleted'')])"
  have "snd (snd (execute answering ?m
     [json_answer 200 (JObject [(''rows'', JArray [JObject [(''name'', JText ''ada''), (''uuid'', JText ''u-7'')]])]), ?deleted,
      json_answer 200 (JObject [(''1'', JObject [(''name'', JText ''vpn''), (''caref'', JText ''ca1'')])]),
      json_answer 200 (JObject []), json_answer 200 (JObject [(''instance'', JObject [])]),
      json_answer 200 (JObject [(''rows'', JArray [certificate_row ''c1''])]), json_answer 404 JNull, ?deleted])) = Inr ?r"
    by code_simp
  then obtain tr where run: "performs ?m tr (Inr ?r)" by (rule execute_result)
  then show ?thesis using offboarding_is_candid [OF run, of "\<lambda>_. []" sample_target "''fw''" "Some ''1''" sample_user "{}"]
    by (intro exI [of _ tr]) simp
qed

end
