(* ===== verification/Ssh.thy ===== *)
theory Ssh
  imports Http
begin

text \<open>The SSH connector, \<open>src/na_sso/connectors/ssh.py\<close>: accounts of a Unix host, managed through commands.  The
  connection and every command are exchanges with the host; a command is the text that the remote shell
  reads, with what is written to its input.\<close>

section \<open>Texts of the shell\<close>

definition apostrophe :: char where "apostrophe = CHR 0x27"

definition shell_safe :: "char \<Rightarrow> bool" where
  "shell_safe c \<longleftrightarrow> is_alnum c \<or> c \<in> set ''_@%+=:,./-''"

text \<open>\<open>shlex.quote\<close>.\<close>

definition shell_quoted_char :: "char \<Rightarrow> string" where
  "shell_quoted_char c =
    (if c = apostrophe then [apostrophe, quote_char, apostrophe, quote_char, apostrophe] else [c])"

definition shlex_quote :: "string \<Rightarrow> string" where
  "shlex_quote s =
    (if s = [] then [apostrophe, apostrophe]
     else if list_all shell_safe s then s
     else apostrophe # concat (map shell_quoted_char s) @ [apostrophe])"

text \<open>How a shell reads one word: characters that stand for themselves, and quoted parts.  \<open>None\<close> is a
  text that asks the shell for more than a word: an expansion, a substitution, an escape, an open quotation.\<close>

fun shell_word :: "char option \<Rightarrow> string \<Rightarrow> (string \<times> string) option" where
  "shell_word None [] = Some ([], [])"
| "shell_word (Some q) [] = None"
| "shell_word None (c # s) =
    (if c = apostrophe \<or> c = quote_char then shell_word (Some c) s
     else if shell_safe c then map_option (\<lambda>(w, r). (c # w, r)) (shell_word None s)
     else if is_space c then Some ([], c # s)
     else None)"
| "shell_word (Some q) (c # s) =
    (if c = q then shell_word None s
     else if q = quote_char \<and> c \<in> {CHR ''$'', CHR 0x60, backslash} then None
     else map_option (\<lambda>(w, r). (c # w, r)) (shell_word (Some q) s))"

text \<open>\<open>str.split()\<close> and \<open>str.splitlines()\<close>.\<close>

function split_words :: "string \<Rightarrow> string list" where
  "split_words s = (let s1 = dropWhile is_space s in
     if s1 = [] then []
     else takeWhile (\<lambda>c. \<not> is_space c) s1 # split_words (dropWhile (\<lambda>c. \<not> is_space c) s1))"
  by pat_completeness auto

lemma split_words_decrease:
  assumes "dropWhile is_space s \<noteq> []"
  shows "length (dropWhile (\<lambda>c. \<not> is_space c) (dropWhile is_space s)) < length s"
proof -
  obtain c cs where s1: "dropWhile is_space s = c # cs" using assms by (cases "dropWhile is_space s") auto
  then have "\<not> is_space c" by (simp add: dropWhile_eq_Cons_conv)
  then have "length (dropWhile (\<lambda>c. \<not> is_space c) (c # cs)) \<le> length cs"
    by (simp add: length_dropWhile_le)
  also have "\<dots> < length (dropWhile is_space s)" by (simp add: s1)
  also have "\<dots> \<le> length s" by (rule length_dropWhile_le)
  finally show ?thesis by (simp add: s1)
qed

termination split_words
  by (relation "measure length") (use split_words_decrease in auto)

declare split_words.simps [simp del]

definition line_break :: "char \<Rightarrow> bool" where
  "line_break c \<longleftrightarrow> (let n = of_char c :: nat in in_range 10 13 n \<or> in_range 28 30 n)"

fun line_list :: "string \<Rightarrow> string list" where
  "line_list [] = []"
| "line_list [c] = (if line_break c then [[]] else [[c]])"
| "line_list (c # d # cs) =
    (if c = CHR 0x0D \<and> d = CHR 0x0A then [] # line_list cs
     else if line_break c then [] # line_list (d # cs)
     else (case line_list (d # cs) of [] \<Rightarrow> [[c]] | l # ls \<Rightarrow> (c # l) # ls))"

definition text_before :: "char \<Rightarrow> string \<Rightarrow> string" where
  "text_before c s = takeWhile (\<lambda>x. x \<noteq> c) s"

section \<open>The exchange\<close>

datatype SshRequest = Connect | Command string "string option"

record CommandResult =
  cr_exit_status :: "int option"
  cr_stdout :: string
  cr_stderr :: string

text \<open>The handlers name the first four; \<open>OtherError\<close> is any other exception, such as that of a malformed key.\<close>

datatype SshFailure = SshError string | OSError string | RuntimeErr string | TimeoutErr string | OtherError string

datatype SshAnswer = Completed CommandResult | Broken SshFailure

type_synonym 'a ssh = "(SshRequest, SshAnswer, SshFailure, 'a) remote"

definition ssh_connect :: "unit ssh" where
  "ssh_connect = Call Connect (\<lambda>x. case x of Completed _ \<Rightarrow> Result () | Broken e \<Rightarrow> Raise e)"

definition conn_run :: "string \<Rightarrow> string option \<Rightarrow> CommandResult ssh" where
  "conn_run command input = Call (Command command input)
     (\<lambda>x. case x of Completed r \<Rightarrow> Result r | Broken e \<Rightarrow> Raise e)"

definition ssh_run :: "string \<Rightarrow> string option \<Rightarrow> string ssh" where
  "ssh_run command input = bindR (conn_run command input) (\<lambda>r.
     if cr_exit_status r \<noteq> Some 0 then
       Raise (RuntimeErr (if strip (cr_stderr r) \<noteq> [] then strip (cr_stderr r)
         else cat [''command exited '', case cr_exit_status r of None \<Rightarrow> ''None'' | Some n \<Rightarrow> show_int n]))
     else Result (cr_stdout r))"

definition ssh_except :: "(SshFailure \<Rightarrow> 'a) \<Rightarrow> 'a ssh \<Rightarrow> 'a ssh" where
  "ssh_except handler m = catchR m (\<lambda>e. case e of OtherError _ \<Rightarrow> None | _ \<Rightarrow> Some (handler e))"

definition failure_text :: "SshFailure \<Rightarrow> string" where
  "failure_text e = (case e of SshError s \<Rightarrow> s | OSError s \<Rightarrow> s | RuntimeErr s \<Rightarrow> s | TimeoutErr s \<Rightarrow> s | OtherError s \<Rightarrow> s)"

section \<open>The connector\<close>

datatype SshPlatform = DEBIAN | UBUNTU | RHEL | ROCKY

record SshHost =
  sh_connector :: Connector
  sh_platform :: SshPlatform
  sh_mode :: SshMode

definition relaxed_name :: "SshHost \<Rightarrow> ManagedUser \<Rightarrow> bool" where
  "relaxed_name h u \<longleftrightarrow> c_allow_relaxed_usernames (sh_connector h) \<and>
     \<not> is_identifier (map (\<lambda>ch. if ch = CHR ''-'' then CHR ''_'' else ch) (u_username u))"

definition quoted_name :: "ManagedUser \<Rightarrow> string" where
  "quoted_name u = shlex_quote (u_username u)"

definition gecos :: "ManagedUser \<Rightarrow> string" where
  "gecos u = shlex_quote (if u_display_name u = [] then u_username u else u_display_name u)"

definition ssh_exists :: "ManagedUser \<Rightarrow> bool ssh" where
  "ssh_exists u = bindR (conn_run (cat [''getent passwd '', quoted_name u]) None)
     (\<lambda>r. Result (cr_exit_status r = Some 0))"

text \<open>The option that lets the tool of the platform create a relaxed name.\<close>

definition adduser_flag :: "SshHost \<Rightarrow> ManagedUser \<Rightarrow> string ssh" where
  "adduser_flag h u =
    (if \<not> relaxed_name h u then Result []
     else bindR (ssh_run ''adduser --help 2>&1'' None) (\<lambda>help.
       if contains_str ''--allow-bad-names'' help then Result ''--allow-bad-names ''
       else if contains_str ''--force-badname'' help then Result ''--force-badname ''
       else Raise (RuntimeErr ''installed adduser cannot create relaxed usernames'')))"

definition useradd_flag :: "SshHost \<Rightarrow> ManagedUser \<Rightarrow> string ssh" where
  "useradd_flag h u =
    (if \<not> relaxed_name h u then Result []
     else bindR (ssh_run ''useradd --help 2>&1'' None) (\<lambda>help.
       if contains_str ''--badname'' help then Result ''--badname ''
       else Raise (RuntimeErr ''installed useradd cannot create relaxed usernames'')))"

definition ssh_create :: "SshHost \<Rightarrow> ManagedUser \<Rightarrow> string ssh" where
  "ssh_create h u =
    (if sh_platform h \<in> {DEBIAN, UBUNTU} then
       bindR (adduser_flag h u) (\<lambda>flag.
         ssh_run (cat [''sudo -n adduser --disabled-password --gecos '', gecos u, '' '', flag, quoted_name u]) None)
     else
       bindR (useradd_flag h u) (\<lambda>flag.
         ssh_run (cat [''sudo -n useradd -m -c '', gecos u, '' '', flag, quoted_name u]) None))"

definition uses_keys :: "SshHost \<Rightarrow> bool" where
  "uses_keys h \<longleftrightarrow> sh_mode h \<in> {MODE_KEY, MODE_PASSWORD_AND_KEY}"

definition uses_password :: "SshHost \<Rightarrow> bool" where
  "uses_password h \<longleftrightarrow> sh_mode h \<in> {MODE_PASSWORD, MODE_PASSWORD_AND_KEY}"

text \<open>The password is written to the input of \<open>chpasswd\<close>.\<close>

definition ssh_password :: "SshHost \<Rightarrow> ManagedUser \<Rightarrow> string option \<Rightarrow> unit ssh" where
  "ssh_password h u password = (case password of
     None \<Rightarrow> Result ()
   | Some p \<Rightarrow> if uses_password h then
        bindR (ssh_run ''sudo -n chpasswd'' (Some (cat [u_username u, '':'', p, [CHR 0x0A]]))) (\<lambda>_. Result ())
      else Result ())"

definition ssh_directory :: "ManagedUser \<Rightarrow> string" where
  "ssh_directory u = shlex_quote (cat [''/home/'', u_username u, ''/.ssh''])"

definition ssh_keys_file :: "SshHost \<Rightarrow> ManagedUser \<Rightarrow> string list \<Rightarrow> unit ssh" where
  "ssh_keys_file h u keys =
    (let n = quoted_name u; p = ssh_directory u in
     if \<not> uses_keys h then Result ()
     else
       bindR (ssh_run (cat [''sudo -n install -d -m 700 -o '', n, '' -g '', n, '' '', p]) None) (\<lambda>_.
       bindR (ssh_run (cat [''sudo -n tee '', p, ''/authorized_keys >/dev/null''])
                (Some (join_with [CHR 0x0A] keys @ (if keys = [] then [] else [CHR 0x0A])))) (\<lambda>_.
       bindR (ssh_run (cat [''sudo -n chown '', n, '':'', n, '' '', p, ''/authorized_keys && sudo -n chmod 600 '',
                            p, ''/authorized_keys'']) None) (\<lambda>_.
       Result ()))))"

fun check_groups :: "string list \<Rightarrow> unit ssh" where
  "check_groups [] = Result ()"
| "check_groups (g # gs) = bindR (ssh_run (cat [''getent group '', shlex_quote g]) None) (\<lambda>_. check_groups gs)"

definition ssh_groups :: "ManagedUser \<Rightarrow> string set \<Rightarrow> unit ssh" where
  "ssh_groups u memberships =
    (let names = sorted_list_of_set memberships in
     if names = [] then Result ()
     else
       bindR (check_groups names) (\<lambda>_.
       bindR (ssh_run (cat [''sudo -n usermod -aG '', shlex_quote (join_with '','' names), '' '', quoted_name u]) None)
         (\<lambda>_. Result ())))"

definition usermod :: "string \<Rightarrow> ManagedUser \<Rightarrow> unit ssh" where
  "usermod flag u = bindR (ssh_run (cat [''sudo -n usermod '', flag, '' '', quoted_name u]) None) (\<lambda>_. Result ())"

definition ssh_status :: "ManagedUser \<Rightarrow> unit ssh" where
  "ssh_status u = usermod (if u_status u = US_DISABLED then ''-L'' else ''-U'') u"

definition ssh_failure :: "SshFailure \<Rightarrow> SyncResult" where
  "ssh_failure e = sync_result False (cat [''ssh error: '', failure_text e])"

definition ssh_ensure_user_for_assignment ::
  "SshHost \<Rightarrow> ManagedUser \<Rightarrow> string list \<Rightarrow> string option \<Rightarrow> string set \<Rightarrow> SyncResult ssh" where
  "ssh_ensure_user_for_assignment h u keys password memberships =
    (let validation = ssh_validate_identity (sh_connector h) u in
     if \<not> iv_ok validation then Result (sync_result False (iv_detail validation))
     else
       ssh_except ssh_failure
        (bindR ssh_connect (\<lambda>_.
         bindR (ssh_exists u) (\<lambda>present.
         if \<not> present \<and> password = None \<and> sh_mode h = MODE_PASSWORD then
           Result (sync_result False ''SSH password mode requires a credential for new users'')
         else
           bindR (if present then Result [] else ssh_create h u) (\<lambda>_.
           bindR (ssh_password h u password) (\<lambda>_.
           bindR (ssh_keys_file h u keys) (\<lambda>_.
           bindR (ssh_groups u memberships) (\<lambda>_.
           bindR (ssh_status u) (\<lambda>_.
           Result (sync_result True ''saved''))))))))))"

definition ssh_disable_user :: "ManagedUser \<Rightarrow> SyncResult ssh" where
  "ssh_disable_user u =
    ssh_except ssh_failure
      (bindR ssh_connect (\<lambda>_.
       bindR (ssh_exists u) (\<lambda>present.
       bindR (if present then usermod ''-L'' u else Result ()) (\<lambda>_.
       Result (sync_result True ''disabled'')))))"

definition ssh_disable_user_for_assignment ::
  "SshHost \<Rightarrow> ManagedUser \<Rightarrow> string list \<Rightarrow> string set \<Rightarrow> SyncResult ssh" where
  "ssh_disable_user_for_assignment h u keys memberships =
     ssh_ensure_user_for_assignment h u keys None memberships"

definition ssh_delete_user :: "ManagedUser \<Rightarrow> SyncResult ssh" where
  "ssh_delete_user u =
    ssh_except ssh_failure
      (bindR ssh_connect (\<lambda>_.
       bindR (ssh_exists u) (\<lambda>present.
       bindR (if present then ssh_run (cat [''sudo -n userdel -r '', quoted_name u]) None else Result []) (\<lambda>_.
       Result (sync_result True ''deleted'')))))"

definition ssh_probe :: "SyncResult ssh" where
  "ssh_probe =
    ssh_except (\<lambda>e. sync_result False (cat [''ssh unreachable: '', failure_text e]))
      (bindR ssh_connect (\<lambda>_. bindR (ssh_run ''true'' None) (\<lambda>_. Result (sync_result True ''reachable''))))"

section \<open>Observation\<close>

definition passwd_account :: "string \<Rightarrow> RemoteAccount option" where
  "passwd_account line =
    (let parts = split_on (CHR '':'') line in
     if length parts < 7 then None
     else (case python_int (parts ! 2) of
       None \<Rightarrow> None
     | Some uid \<Rightarrow> Some \<lparr>ra_username = parts ! 0, ra_display_name = text_before (CHR '','') (parts ! 4), ra_email = [],
         ra_status = ''unknown'', ra_uid = Some uid\<rparr>))"

definition ssh_discover_accounts :: "AccountDiscovery ssh" where
  "ssh_discover_accounts =
    ssh_except (\<lambda>_. \<lparr>ad_supported = True, ad_accounts = [], ad_detail = ''SSH account discovery failed.''\<rparr>)
      (bindR ssh_connect (\<lambda>_.
       bindR (ssh_run ''getent passwd'' None) (\<lambda>result.
       Result \<lparr>ad_supported = True, ad_accounts = List.map_filter passwd_account (line_list result), ad_detail = []\<rparr>)))"

definition observed_groups :: "CommandResult \<Rightarrow> string set option" where
  "observed_groups r = (if cr_exit_status r = Some 0 then Some (set (split_words (cr_stdout r))) else None)"

definition observed_status :: "CommandResult \<Rightarrow> string option" where
  "observed_status r =
    (let parts = split_words (cr_stdout r) in
     if cr_exit_status r = Some 0 \<and> length parts \<ge> 2
     then Some (if starts_with ''l'' (lower (parts ! 1)) then ''disabled'' else ''active'') else None)"

text \<open>The fingerprints of a file of keys, if every line of it is a key; \<open>fp\<close> is the fingerprint of a key.\<close>

definition key_lines :: "string \<Rightarrow> string list" where
  "key_lines text = map strip (filter (\<lambda>l. strip l \<noteq> [] \<and> \<not> starts_with ''#'' (dropWhile is_space l)) (line_list text))"

definition parsed_keys :: "(string \<Rightarrow> string option) \<Rightarrow> string \<Rightarrow> string set option" where
  "parsed_keys fp text =
    (let parsed = map fp (key_lines text) in
     if list_all (\<lambda>k. k \<noteq> None) parsed then Some (set (List.map_filter (\<lambda>k. k) parsed)) else None)"

definition observed_keys :: "(string \<Rightarrow> string option) \<Rightarrow> SshHost \<Rightarrow> ManagedUser \<Rightarrow> string set option ssh" where
  "observed_keys fp h u =
    (let p = shlex_quote (cat [''/home/'', u_username u, ''/.ssh/authorized_keys'']) in
     if \<not> uses_keys h then Result None
     else
       bindR (conn_run (cat [''sudo -n test -f '', p]) None) (\<lambda>r1.
         if cr_exit_status r1 = Some 1 then Result (Some {})
         else if cr_exit_status r1 = Some 0 then
           bindR (conn_run (cat [''sudo -n cat '', p]) None) (\<lambda>r2.
             Result (if cr_exit_status r2 = Some 0 then parsed_keys fp (cr_stdout r2) else None))
         else Result None))"

definition absent_snapshot :: RemoteIdentitySnapshot where
  "absent_snapshot = \<lparr>rs_present = Some False, rs_username = None, rs_display_name = None, rs_email = None,
     rs_status = None, rs_memberships = None, rs_public_key_fingerprints = None\<rparr>"

definition ssh_snapshot :: "(string \<Rightarrow> string option) \<Rightarrow> SshHost \<Rightarrow> ManagedUser \<Rightarrow> string \<Rightarrow> RemoteIdentitySnapshot ssh" where
  "ssh_snapshot fp h u entry =
    (let parts = split_on (CHR '':'') (rev (dropWhile (\<lambda>c. c = CHR 0x0A) (rev entry))) in
     bindR (conn_run (cat [''id -nG '', quoted_name u]) None) (\<lambda>memberships.
     bindR (conn_run (cat [''sudo -n passwd -S '', quoted_name u]) None) (\<lambda>status.
     bindR (observed_keys fp h u) (\<lambda>fingerprints.
     Result \<lparr>rs_present = Some True, rs_username = Some (parts ! 0),
       rs_display_name = (if length parts > 4 then Some (text_before (CHR '','') (parts ! 4)) else None),
       rs_email = None, rs_status = observed_status status, rs_memberships = observed_groups memberships,
       rs_public_key_fingerprints = fingerprints\<rparr>))))"

definition ssh_inspect_user_for_assignment ::
  "(string \<Rightarrow> string option) \<Rightarrow> SshHost \<Rightarrow> ManagedUser \<Rightarrow> (string + RemoteIdentitySnapshot) ssh" where
  "ssh_inspect_user_for_assignment fp h u =
    (let validation = ssh_validate_identity (sh_connector h) u in
     if \<not> iv_ok validation then Result (Inl (iv_detail validation))
     else
       ssh_except (\<lambda>_. Inl ''SSH identity read failed.'')
        (bindR ssh_connect (\<lambda>_.
         bindR (conn_run (cat [''getent passwd '', quoted_name u]) None) (\<lambda>identity.
           if cr_exit_status identity = Some 2 then Result (Inr absent_snapshot)
           else if cr_exit_status identity \<noteq> Some 0 then Result (Inl ''SSH identity read failed.'')
           else bindR (ssh_snapshot fp h u (cr_stdout identity)) (\<lambda>snap. Result (Inr snap))))))"

section \<open>Properties\<close>

text \<open>What an observer of the host sees of a request: the text of the command, not its input.\<close>

definition command_text :: "SshRequest \<Rightarrow> string option" where
  "command_text q = (case q of Connect \<Rightarrow> None | Command c _ \<Rightarrow> Some c)"

lemma same_view_conn_run [simp]:
  "same_view command_text (conn_run c i) (conn_run c j)"
  by (simp add: conn_run_def command_text_def)

lemma same_view_ssh_run: "same_view command_text (ssh_run c i) (ssh_run c j)"
  unfolding ssh_run_def by (intro same_view_bindR) simp_all

lemma ssh_ensure_same_view:
  "same_view command_text (ssh_ensure_user_for_assignment h u keys (Some p) memberships)
     (ssh_ensure_user_for_assignment h u keys (Some p') memberships)"
  unfolding ssh_ensure_user_for_assignment_def ssh_except_def Let_def ssh_password_def
  by (auto intro!: same_view_catchR same_view_bindR same_view_ssh_run)

text \<open>A host on which every command succeeds with empty output.\<close>

definition obliging_host :: "unit \<Rightarrow> SshRequest \<Rightarrow> unit \<times> SshAnswer" where
  "obliging_host s q = (s, Completed \<lparr>cr_exit_status = Some 0, cr_stdout = [], cr_stderr = []\<rparr>)"

definition sample_host :: SshHost where
  "sample_host = \<lparr>sh_connector = sample_connector, sh_platform = DEBIAN, sh_mode = MODE_PASSWORD\<rparr>"

text \<open>C7: A password never reaches a command.  Whatever the host answers, the commands of a call that
  saves an account with one password are the commands it would send with any other password: the answers and
  the outcome are the same too, so the password is only in the input of \<open>chpasswd\<close>.\<close>

theorem password_stays_out_of_commands:
  assumes "performs (ssh_ensure_user_for_assignment h u keys (Some p) memberships) tr r"
  shows "\<exists>ts. performs (ssh_ensure_user_for_assignment h u keys (Some p') memberships) ts r \<and>
    map snd ts = map snd tr \<and> map (command_text \<circ> fst) ts = map (command_text \<circ> fst) tr"
  by (rule same_view_performs [OF ssh_ensure_same_view assms])

theorem password_stays_out_of_commands_witness:
  "\<exists>tr ts. performs (ssh_ensure_user_for_assignment sample_host sample_user [] (Some ''first'') {}) tr (Inr (sync_result True ''saved'')) \<and>
     performs (ssh_ensure_user_for_assignment sample_host sample_user [] (Some ''second'') {}) ts (Inr (sync_result True ''saved'')) \<and>
     map (command_text \<circ> fst) ts = map (command_text \<circ> fst) tr"
proof -
  let ?m = "ssh_ensure_user_for_assignment sample_host sample_user [] (Some ''first'') {}"
  have "snd (snd (execute obliging_host ?m ())) = Inr (sync_result True ''saved'')"
    by code_simp
  then obtain tr where run: "performs ?m tr (Inr (sync_result True ''saved''))" by (rule execute_result)
  then show ?thesis
    using password_stays_out_of_commands [OF run, of "''second''"] by blast
qed

lemma shell_word_quoted:
  "shell_word (Some apostrophe) (concat (map shell_quoted_char s) @ apostrophe # rest) =
    map_option (\<lambda>(w, r). (s @ w, r)) (shell_word None rest)"
proof (induction s)
  case (Cons c s)
  have "quote_char \<noteq> apostrophe" by (simp add: quote_char_def apostrophe_def)
  then show ?case
    using Cons by (auto simp: shell_quoted_char_def option.map_comp comp_def case_prod_unfold
        quote_char_def apostrophe_def backslash_def)
qed (simp add: option.map_ident case_prod_unfold)

lemma shell_word_safe:
  "list_all shell_safe s \<Longrightarrow> shell_word None (s @ rest) = map_option (\<lambda>(w, r). (s @ w, r)) (shell_word None rest)"
proof (induction s)
  case (Cons c s)
  have "c \<noteq> apostrophe \<and> c \<noteq> quote_char"
    using Cons.prems by (auto simp: shell_safe_def apostrophe_def quote_char_def is_alnum_def is_lower_def is_upper_def
        is_digit_def in_range_def)
  then show ?case using Cons by (simp add: option.map_comp comp_def case_prod_unfold)
qed (simp add: option.map_ident case_prod_unfold)

text \<open>A quoted text is one word of the shell.  For every text, whatever characters it has, the shell reads
  \<open>shlex.quote\<close> of it as one word with exactly these characters, up to the blank that follows: a name cannot add
  a command or an argument.\<close>

theorem quoted_text_is_one_word:
  "shell_word None (shlex_quote s @ CHR '' '' # rest) = Some (s, CHR '' '' # rest) \<and>
   shell_word None (shlex_quote s) = Some (s, [])"
proof -
  have blank: "shell_word None (CHR '' '' # rest) = Some ([], CHR '' '' # rest)"
    by (simp add: apostrophe_def quote_char_def shell_safe_def is_alnum_def is_lower_def is_upper_def is_digit_def
        in_range_def is_space_def)
  have word: "shell_word None (shlex_quote s @ r) = map_option (\<lambda>(w, q). (s @ w, q)) (shell_word None r)" for r
    using shell_word_safe [of s r] shell_word_quoted [of s r] shell_word_quoted [of "[]" r]
    by (auto simp: shlex_quote_def)
  show ?thesis using word [of "CHR '' '' # rest"] word [of "[]"] blank by simp
qed

lemma sends_conn_run [simp]: "sends P (conn_run c i) \<longleftrightarrow> P (Command c i)"
  by (simp add: conn_run_def split: SshAnswer.split)

lemma sends_ssh_run: "P (Command c i) \<Longrightarrow> sends P (ssh_run c i)"
  by (auto simp: ssh_run_def intro!: sends_bindR)

lemma sends_connect: "P Connect \<Longrightarrow> sends P ssh_connect"
  by (simp add: ssh_connect_def split: SshAnswer.split)

definition usermod_command :: "string \<Rightarrow> ManagedUser \<Rightarrow> SshRequest" where
  "usermod_command flag u = Command (cat [''sudo -n usermod '', flag, '' '', quoted_name u]) None"

lemma same_command [simp]:
  "Command c i = usermod_command flag u \<longleftrightarrow> i = None \<and> c = cat [''sudo -n usermod '', flag, '' '', quoted_name u]"
  "Connect \<noteq> usermod_command flag u"
  by (auto simp: usermod_command_def)

lemma check_groups_do_not_lock: "sends (\<lambda>q. q \<noteq> usermod_command ''-L'' u) (check_groups gs)"
  by (induction gs) (auto simp: cat_def intro!: sends_bindR sends_ssh_run)

lemma parts_do_not_lock:
  "sends (\<lambda>q. q \<noteq> usermod_command ''-L'' u) ssh_connect"
  "sends (\<lambda>q. q \<noteq> usermod_command ''-L'' u) (ssh_exists u)"
  "sends (\<lambda>q. q \<noteq> usermod_command ''-L'' u) (ssh_create h u)"
  "sends (\<lambda>q. q \<noteq> usermod_command ''-L'' u) (ssh_password h u pw)"
  "sends (\<lambda>q. q \<noteq> usermod_command ''-L'' u) (ssh_keys_file h u keys)"
  "sends (\<lambda>q. q \<noteq> usermod_command ''-L'' u) (ssh_groups u ms)"
  by (auto simp: ssh_exists_def ssh_create_def adduser_flag_def useradd_flag_def ssh_password_def ssh_keys_file_def
    ssh_groups_def cat_def Let_def intro!: sends_bindR sends_ssh_run sends_connect check_groups_do_not_lock
    split: option.splits)

lemma wp_ssh_run: "wp (ssh_run c i) R \<longleftrightarrow>
   (\<forall>x. R [(Command c i, x)] (case x of Completed r \<Rightarrow>
      if cr_exit_status r \<noteq> Some 0 then
       Inl (RuntimeErr (if strip (cr_stderr r) \<noteq> [] then strip (cr_stderr r)
         else cat [''command exited '', case cr_exit_status r of None \<Rightarrow> ''None'' | Some n \<Rightarrow> show_int n]))
      else Inr (cr_stdout r)
    | Broken e \<Rightarrow> Inl e))"
  by (auto simp: ssh_run_def conn_run_def split: SshAnswer.splits)

definition unlocks :: "ManagedUser \<Rightarrow> (SshRequest \<times> SshAnswer) list \<Rightarrow> SshFailure + SyncResult \<Rightarrow> bool" where
  "unlocks u tr r \<longleftrightarrow> (case r of Inl _ \<Rightarrow> True | Inr a \<Rightarrow> sr_ok a \<longrightarrow>
     (\<exists>ts x. tr = ts @ [(usermod_command ''-U'' u, x)]) \<and> list_all (\<lambda>z. fst z \<noteq> usermod_command ''-L'' u) tr)"

lemma unlocks_after:
  assumes "list_all (\<lambda>z. fst z \<noteq> usermod_command ''-L'' u) ts" "unlocks u tr r"
  shows "unlocks u (ts @ tr) r"
  using assms by (auto simp: unlocks_def split: sum.splits)

lemma unlocks_part:
  assumes "sends (\<lambda>q. q \<noteq> usermod_command ''-L'' u) m" "\<And>a. wp (f a) (unlocks u)"
  shows "wp (bindR m f) (unlocks u)"
  unfolding wp_rules
  by (rule wp_mono [OF wp_performs [THEN iffD2, OF allI, OF allI, OF impI,
        of m "\<lambda>tr r. list_all (\<lambda>z. fst z \<noteq> usermod_command ''-L'' u) tr"]])
    (use assms in \<open>auto simp: list_all_iff dest: sends_performs
       intro!: wp_mono [OF assms(2)] unlocks_after split: sum.splits, auto simp: unlocks_def\<close>)

lemma unlocks_except: "wp m (unlocks u) \<Longrightarrow> wp (ssh_except ssh_failure m) (unlocks u)"
  unfolding ssh_except_def wp_catchR
  by (erule wp_mono) (auto simp: unlocks_def ssh_failure_def split: sum.splits SshFailure.splits)

lemma ssh_disable_unlocks_wp:
  assumes "u_status u \<noteq> US_DISABLED"
  shows "wp (ssh_disable_user_for_assignment h u keys ms) (unlocks u)"
proof -
  have status: "wp (bindR (ssh_status u) (\<lambda>_. Result (sync_result True ''saved''))) (unlocks u)"
    using assms by (auto simp: ssh_status_def usermod_def wp_rules wp_ssh_run unlocks_def cat_def split: SshAnswer.splits)
  have skip: "unlocks u [] (Inr a)" if "\<not> sr_ok a" for a
    using that by (simp add: unlocks_def)
  show ?thesis
    unfolding ssh_disable_user_for_assignment_def ssh_ensure_user_for_assignment_def Let_def
    by (auto simp: skip intro!: unlocks_except unlocks_part parts_do_not_lock status)
qed

text \<open>A disable unlocks.  For a user that is active or locked in the directory (an unassignment or an expiry),
  a disable that the SSH connector reports as successful ends with \<open>usermod -U\<close> on the account and never
  ran \<open>usermod -L\<close>: the account of the host stays usable.\<close>

theorem ssh_disable_unlocks:
  assumes "performs (ssh_disable_user_for_assignment h u keys ms) tr (Inr r)" "sr_ok r" "u_status u \<noteq> US_DISABLED"
  shows "fst (last tr) = usermod_command ''-U'' u \<and> usermod_command ''-L'' u \<notin> fst ` set tr"
  using wpD [OF ssh_disable_unlocks_wp [OF assms(3)] assms(1)] assms(2)
  by (auto simp: unlocks_def list_all_iff)

theorem ssh_disable_unlocks_witness:
  "\<exists>tr. performs (ssh_disable_user_for_assignment sample_host sample_user [] {}) tr (Inr (sync_result True ''saved'')) \<and>
     fst (last tr) = Command ''sudo -n usermod -U ada'' None"
proof -
  let ?m = "ssh_disable_user_for_assignment sample_host sample_user [] {}"
  have "snd (snd (execute obliging_host ?m ())) = Inr (sync_result True ''saved'')"
    by code_simp
  then obtain tr where run: "performs ?m tr (Inr (sync_result True ''saved''))" by (rule execute_result)
  have "usermod_command ''-U'' sample_user = Command ''sudo -n usermod -U ada'' None"
    by code_simp
  then show ?thesis
    using ssh_disable_unlocks [OF run] run by (auto simp: sample_user_def)
qed

end
