(* ===== verification/Targets.thy ===== *)
theory Targets
  imports Gitea Gitlab Immich Jenkins Nexus Npm Nextcloud Opnsense Ssh
begin

text \<open>
  The connectors together: which class serves which type of target (\<open>get_connectors\<close> of
  \<open>connectors/base.py\<close>), and what they promise as one family.
\<close>

section \<open>The table of the connectors\<close>

definition adapter_for :: "(Failure \<Rightarrow> string) \<Rightarrow> TargetType \<Rightarrow> string \<Rightarrow> string option \<Rightarrow> HttpTarget \<Rightarrow> Adapter option" where
  "adapter_for txt kind target_id vpn t = (case kind of
     OPNSENSE \<Rightarrow> Some (opnsense_adapter txt t target_id vpn)
   | NEXUS \<Rightarrow> Some (nexus_adapter txt t)
   | NEXTCLOUD \<Rightarrow> Some (nextcloud_adapter txt t)
   | GITLAB \<Rightarrow> Some (gitlab_adapter txt t)
   | GITEA \<Rightarrow> Some (gitea_adapter txt t)
   | IMMICH \<Rightarrow> Some (immich_adapter txt t)
   | JENKINS \<Rightarrow> Some (jenkins_adapter txt t)
   | NPM \<Rightarrow> Some (npm_adapter t)
   | SSH \<Rightarrow> None)"

definition reading_of :: "TargetType \<Rightarrow> HttpRequest \<Rightarrow> bool" where
  "reading_of kind = (case kind of OPNSENSE \<Rightarrow> opnsense_reads | NPM \<Rightarrow> npm_reads | _ \<Rightarrow> only_get)"

definition confirms_of :: "TargetType \<Rightarrow> HttpRequest \<Rightarrow> Exchange \<Rightarrow> bool" where
  "confirms_of kind = (case kind of OPNSENSE \<Rightarrow> opnsense_confirms | NEXTCLOUD \<Rightarrow> nextcloud_confirms
     | JENKINS \<Rightarrow> jenkins_confirms | _ \<Rightarrow> status_confirms)"

text \<open>A call of a changing method, as \<open>sync_user\<close> makes it.\<close>

datatype Mutation =
    Ensure ManagedUser "string option" "string set"
  | Disable ManagedUser "string set"
  | Delete ManagedUser

fun mutate :: "Adapter \<Rightarrow> Mutation \<Rightarrow> SyncResult http" where
  "mutate A (Ensure u password memberships) = op_ensure A u password memberships"
| "mutate A (Disable u memberships) = op_disable A u memberships"
| "mutate A (Delete u) = op_delete A u"

lemma adapter_for_lawful:
  assumes "adapter_for txt kind target_id vpn t = Some A"
  shows "adapter A t (reading_of kind) (confirms_of kind)"
  using assms by (cases kind) (auto simp: adapter_for_def reading_of_def confirms_of_def
      intro: gitea.adapter_axioms gitlab.adapter_axioms immich.adapter_axioms jenkins.adapter_axioms
        nexus.adapter_axioms npm.adapter_axioms nextcloud.adapter_axioms opnsense.adapter_axioms)

lemma mutation_of_adapter: "adapter A t reading confirms \<Longrightarrow> adapter.mutation A (mutate A m)"
  by (cases m) (simp_all add: adapter.mutation_def, blast+)



section \<open>The status that a call leaves\<close>

text \<open>The status that a request sets on the account: \<open>None\<close> for a request that sets none.\<close>

definition body_member :: "string \<Rightarrow> Body \<Rightarrow> json option" where
  "body_member key body = (case body of JsonBody (JObject ms) \<Rightarrow> map_of ms key | _ \<Rightarrow> None)"

definition flag_status :: "json option \<Rightarrow> string option" where
  "flag_status v = (case v of Some (JBool b) \<Rightarrow> Some (if b then ''disabled'' else ''active'') | _ \<Rightarrow> None)"

definition action_status :: "string \<Rightarrow> string \<Rightarrow> string \<Rightarrow> HttpRequest \<Rightarrow> string option" where
  "action_status verb off on q =
    (if hr_method q = verb \<and> hr_body q = NoBody then
       (if ends_with off (hr_path q) then Some ''disabled'' else if ends_with on (hr_path q) then Some ''active'' else None)
     else None)"

definition status_set :: "TargetType \<Rightarrow> HttpRequest \<Rightarrow> string option" where
  "status_set kind q = (case kind of
     NEXUS \<Rightarrow> (case body_member ''status'' (hr_body q) of Some (JText s) \<Rightarrow> Some s | _ \<Rightarrow> None)
   | OPNSENSE \<Rightarrow> (case body_member ''user'' (hr_body q) of
       Some (JObject ms) \<Rightarrow> Some (if map_of ms ''disabled'' = Some (JText ''0'') then ''active'' else ''disabled'')
     | _ \<Rightarrow> None)
   | NEXTCLOUD \<Rightarrow> action_status ''PUT'' ''/disable'' ''/enable'' q
   | GITLAB \<Rightarrow> action_status ''POST'' ''/block'' ''/unblock'' q
   | GITEA \<Rightarrow> flag_status (body_member ''prohibit_login'' (hr_body q))
   | NPM \<Rightarrow> flag_status (body_member ''is_disabled'' (hr_body q))
   | IMMICH \<Rightarrow>
       if hr_method q = ''DELETE'' \<and> body_member ''force'' (hr_body q) = Some (JBool False) then Some ''disabled''
       else if hr_method q = ''POST'' \<and> hr_body q = NoBody \<and> ends_with ''/restore'' (hr_path q) then Some ''active''
       else None
   | _ \<Rightarrow> None)"

definition sets_only :: "TargetType \<Rightarrow> string \<Rightarrow> (HttpRequest \<times> Exchange) list \<Rightarrow> bool" where
  "sets_only kind status tr \<longleftrightarrow> list_all (\<lambda>z. status_set kind (fst z) \<in> {None, Some status}) tr"

definition sets :: "TargetType \<Rightarrow> string \<Rightarrow> (HttpRequest \<times> Exchange) list \<Rightarrow> bool" where
  "sets kind status tr \<longleftrightarrow> list_ex (\<lambda>z. status_set kind (fst z) = Some status) tr"

lemma sends_send [simp]:
  "sends P (send c verb path params headers body) \<longleftrightarrow> P \<lparr>hr_client = c, hr_method = verb, hr_path = path,
     hr_params = params, hr_headers = headers, hr_body = body\<rparr>"
  by (simp add: send_def split: Exchange.split)

lemma sends_parts [simp]: "sends P (raise_for_status r)" "sends P (response_json r)"
  "sends P (except named h m) \<longleftrightarrow> sends P m"
  by (simp_all add: raise_for_status_def response_json_def except_def)

lemma wp_sends: "sends P m \<Longrightarrow> (\<And>tr r. list_all (\<lambda>z. P (fst z)) tr \<Longrightarrow> R tr r) \<Longrightarrow> wp m R"
  by (auto simp: wp_performs list_all_iff dest: sends_performs)

lemma wp_sends_all: "sends P m \<Longrightarrow> wp m (\<lambda>tr r. list_all (\<lambda>z. P (fst z)) tr)"
  by (rule wp_sends)

definition leaves :: "TargetType \<Rightarrow> string \<Rightarrow> (HttpRequest \<times> Exchange) list \<Rightarrow> Failure + SyncResult \<Rightarrow> bool" where
  "leaves kind status tr r \<longleftrightarrow> (case r of Inl _ \<Rightarrow> True | Inr a \<Rightarrow> sr_ok a \<longrightarrow> sets kind status tr \<and> sets_only kind status tr)"

lemma nexus_find_sets: "sends (\<lambda>q. status_set NEXUS q = None) (nexus_find_user c n)"
  by (auto simp: nexus_find_user_def client_defs status_set_def body_member_def intro!: sends_bindR)

lemma nexus_disable_active:
  assumes "u_status u \<noteq> US_DISABLED"
  shows "wp (nexus_disable_user_for_assignment txt t u ms) (leaves NEXUS ''active'')"
  unfolding nexus_disable_user_for_assignment_def nexus_ensure_user_for_assignment_def Let_def wp_rules
  by (rule wp_sends [OF nexus_find_sets])
    (use assms in \<open>auto simp: wp_rules Let_def client_defs leaves_def sets_def sets_only_def list_ex_iff list_all_iff
      nexus_failure_def nexus_user_payload_def nexus_fields_def status_set_def body_member_def nexus_status_def
      split: sum.splits option.splits\<close>)


abbreviation neutral :: "TargetType \<Rightarrow> HttpRequest \<Rightarrow> bool" where
  "neutral kind q \<equiv> status_set kind q = None"

lemma nextcloud_parts_neutral:
  "sends (neutral NEXTCLOUD) (nextcloud_save c u pw ms code)"
  "sends (neutral NEXTCLOUD) (nextcloud_groups c u ms)"
  by (auto simp: nextcloud_save_def nextcloud_create_def nextcloud_edit_def nextcloud_change_def nextcloud_groups_def
      nextcloud_group_def ocs_def client_defs status_set_def action_status_def Let_def simp del: forR.simps
      intro!: sends_bindR sends_forR split: option.splits)

lemma ends_with_tail: "ends_with p (xs @ ys) \<longleftrightarrow> starts_with (rev p) (rev ys @ rev xs)"
  by (simp add: ends_with_def)

lemma nextcloud_action_status:
  "hr_path q = nextcloud_path u ''/enable'' \<Longrightarrow> hr_method q = ''PUT'' \<Longrightarrow> hr_body q = NoBody \<Longrightarrow>
     status_set NEXTCLOUD q = Some ''active''"
  using ends_with_tail [of "''/enable''" "''/users/'' @ quote_all (u_username u)" "''/enable''"]
    ends_with_tail [of "''/disable''" "''/users/'' @ quote_all (u_username u)" "''/enable''"]
  by (simp add: status_set_def action_status_def nextcloud_path_def cat_def starts_with_def)

lemma leaves_after:
  assumes "list_all (\<lambda>z. neutral kind (fst z)) ts"
  shows "leaves kind status (ts @ tr) = leaves kind status tr"
  using assms by (auto simp: fun_eq_iff leaves_def sets_def sets_only_def list_ex_iff list_all_iff split: sum.split)

lemma leaves_Cons [simp]: "neutral kind (fst z) \<Longrightarrow> leaves kind status (z # tr) = leaves kind status tr"
  using leaves_after [of kind "[z]"] by simp

lemma leaves_Inl [simp]: "leaves kind status tr (Inl e)"
  by (simp add: leaves_def)

lemma leaves_failed [simp]: "\<not> sr_ok a \<Longrightarrow> leaves kind status tr (Inr a)"
  by (simp add: leaves_def)

lemma get_neutral [simp]: "hr_method q = ''GET'' \<Longrightarrow> hr_body q = NoBody \<Longrightarrow> neutral kind q"
  by (simp add: status_set_def action_status_def body_member_def flag_status_def split: TargetType.split)

lemma nextcloud_disable_active:
  assumes "u_status u \<noteq> US_DISABLED"
  shows "wp (nextcloud_disable_user_for_assignment txt t u ms) (leaves NEXTCLOUD ''active'')"
proof -
  let ?c = "nextcloud_client t"
  have change: "wp (nextcloud_status_change ?c u) (\<lambda>tr r. r = Inr None \<longrightarrow> sets NEXTCLOUD ''active'' tr \<and> sets_only NEXTCLOUD ''active'' tr)"
    using assms by (auto simp: nextcloud_status_change_def nextcloud_change_def wp_rules client_defs Let_def
        sets_def sets_only_def nextcloud_action_status split: sum.splits)
  have rest: "wp (unless (nextcloud_status_change ?c u) (Result (sync_result True ''saved''))) (leaves NEXTCLOUD ''active'')"
    unfolding unless_def wp_rules
  proof (rule wp_mono [OF wp_conj [THEN iffD2, OF conjI [OF change nextcloud_status_change_step]]])
    fix tr :: "(HttpRequest \<times> Exchange) list" and r :: "Failure + SyncResult option"
    assume "(r = Inr None \<longrightarrow> sets NEXTCLOUD ''active'' tr \<and> sets_only NEXTCLOUD ''active'' tr) \<and>
      step_or_stop t only_get nextcloud_confirms tr r"
    then show "case r of Inl e \<Rightarrow> leaves NEXTCLOUD ''active'' tr (Inl e)
      | Inr stop \<Rightarrow> wp (case stop of None \<Rightarrow> Result (sync_result True ''saved'') | Some a \<Rightarrow> Result a)
          (\<lambda>t'. leaves NEXTCLOUD ''active'' (tr @ t'))"
      by (auto simp: leaves_def step_or_stop_def split: sum.splits option.splits)
  qed
  have stopped: "wp (unless m k) (leaves NEXTCLOUD ''active'')"
    if m: "wp m (step_or_stop t only_get nextcloud_confirms)" and n: "sends (neutral NEXTCLOUD) m"
      and k: "wp k (leaves NEXTCLOUD ''active'')" for m k
  proof -
    have both: "wp m (\<lambda>tr r. step_or_stop t only_get nextcloud_confirms tr r \<and> list_all (\<lambda>z. neutral NEXTCLOUD (fst z)) tr)"
      unfolding wp_conj using m wp_sends_all [OF n] by blast
    show ?thesis
      unfolding unless_def wp_rules
      by (rule wp_mono [OF both])
        (auto simp: leaves_after k step_or_stop_def split: sum.splits option.splits)
  qed
  have all: "wp (unless (nextcloud_save ?c u None ms code) (unless (nextcloud_groups ?c u ms)
      (unless (nextcloud_status_change ?c u) (Result (sync_result True ''saved''))))) (leaves NEXTCLOUD ''active'')" for code
    by (intro stopped nextcloud_save_step nextcloud_groups_step nextcloud_parts_neutral rest)
  show ?thesis
    unfolding nextcloud_disable_user_for_assignment_def nextcloud_ensure_user_for_assignment_def
    by (auto simp: wp_rules Let_def client_defs nextcloud_failure_def intro!: wp_mono [OF all] split: sum.splits)
qed

lemma body_member_simps [simp]: "body_member key NoBody = None" "body_member key (JsonBody (JObject ms)) = map_of ms key"
  by (simp_all add: body_member_def)

lemma opnsense_neutral [simp]: "body_member ''user'' (hr_body q) = None \<Longrightarrow> neutral OPNSENSE q"
  by (simp add: status_set_def)

lemma leaves_single [simp]: "status_set kind (fst z) = Some status \<Longrightarrow> leaves kind status [z] (Inr a)"
  by (simp add: leaves_def sets_def sets_only_def)

lemma opnsense_payload_status [simp]:
  "hr_body q = JsonBody (opnsense_user_payload u pw ms) \<Longrightarrow> u_status u \<noteq> US_DISABLED \<Longrightarrow>
     status_set OPNSENSE q = Some ''active''"
  by (simp add: status_set_def opnsense_user_payload_def)

lemma opnsense_find_neutral: "sends (neutral OPNSENSE) (opnsense_find_uuid c n)"
  by (auto simp: opnsense_find_uuid_def opnsense_find_user_def client_defs intro!: sends_bindR)

lemma opnsense_openvpn_neutral: "sends (neutral OPNSENSE) (offboard_openvpn t target_id vpn u identity)"
proof -
  have servers: "sends (neutral OPNSENSE) (openvpn_servers c items)" for c items
    by (induction items) (auto simp: openvpn_server_def openvpn_instance_def client_defs Let_def
        intro!: sends_bindR split: json.splits)
  have certs: "sends (neutral OPNSENSE) (find_client_certificate c n caref ex)" "sends (neutral OPNSENSE) (get_crl c caref)" for c n caref ex
    by (auto simp: find_client_certificate_def get_crl_def client_defs intro!: sends_bindR)
  have lists: "sends (neutral OPNSENSE) (add_client_certificate_to_crl c target_id cert caref)" for c cert caref
    by (auto simp: add_client_certificate_to_crl_def crl_request_def Let_def client_defs
        intro!: sends_bindR certs)
  have deletion: "sends (neutral OPNSENSE) (delete_certificate c cert)" for c cert
    by (auto simp: delete_certificate_def client_defs intro!: sends_bindR)
  show ?thesis
    by (auto simp: offboard_openvpn_def offboard_revocation_def discover_openvpn_def revoke_client_certificate_def
        client_defs Let_def intro!: sends_bindR servers certs lists deletion split: option.splits sum.splits)
qed

lemma opnsense_ensure_active:
  assumes "u_status u \<noteq> US_DISABLED"
  shows "wp (opnsense_ensure_user_for_assignment txt t u pw ms) (leaves OPNSENSE ''active'')"
  unfolding opnsense_ensure_user_for_assignment_def Let_def wp_rules
  by (rule wp_sends [OF opnsense_find_neutral])
    (use assms in \<open>auto simp: wp_rules leaves_after client_defs opnsense_failure_def split: sum.splits\<close>)

lemma leaves_before:
  assumes "list_all (\<lambda>z. neutral kind (fst z)) ts" "leaves kind status tr r" "r = Inr a" "sr_ok a"
  shows "leaves kind status (tr @ ts) (Inr b)"
  using assms by (auto simp: leaves_def sets_def sets_only_def list_ex_iff list_all_iff)

lemma opnsense_disable_active:
  assumes "u_status u \<noteq> US_DISABLED"
  shows "wp (bindR (opnsense_disable_user_for_assignment txt t target_id vpn u ms) (\<lambda>z. Result (fst z)))
    (leaves OPNSENSE ''active'')"
proof -
  have off: "wp (offboard_openvpn t target_id vpn u identity) (\<lambda>tr r. offboarding t identity tr r \<and>
      list_all (\<lambda>z. neutral OPNSENSE (fst z)) tr)" for identity
    unfolding wp_conj using offboard_step wp_sends_all [OF opnsense_openvpn_neutral] by blast
  show ?thesis
    unfolding opnsense_disable_user_for_assignment_def wp_rules
    by (rule wp_mono [OF opnsense_ensure_active [OF assms]])
      (auto simp: wp_rules offboarding_def leaves_before intro!: wp_mono [OF off] split: sum.splits)
qed

text \<open>A disable that finds nothing to do says so.\<close>

definition nothing_to_disable :: "string set" where
  "nothing_to_disable = {''already absent'', ''already disabled'', ''already disabled or absent''}"

definition disables :: "TargetType \<Rightarrow> (HttpRequest \<times> Exchange) list \<Rightarrow> Failure + SyncResult \<Rightarrow> bool" where
  "disables kind tr r \<longleftrightarrow> (case r of Inl _ \<Rightarrow> True | Inr a \<Rightarrow> sr_ok a \<longrightarrow>
     sets_only kind ''disabled'' tr \<and> (sets kind ''disabled'' tr \<or> sr_detail a \<in> nothing_to_disable))"

lemma disables_simps [simp]:
  "disables kind tr (Inl e)"
  "\<not> sr_ok a \<Longrightarrow> disables kind tr (Inr a)"
  "sr_detail a \<in> nothing_to_disable \<Longrightarrow> disables kind [] (Inr a)"
  "neutral kind (fst z) \<Longrightarrow> disables kind (z # tr) = disables kind tr"
  "status_set kind (fst z) = Some ''disabled'' \<Longrightarrow> disables kind [z] (Inr a)"
  by (auto simp: disables_def fun_eq_iff sets_def sets_only_def split: sum.splits)

lemma nothing_simps [simp]: "''already absent'' \<in> nothing_to_disable" "''already disabled'' \<in> nothing_to_disable"
  "''already disabled or absent'' \<in> nothing_to_disable"
  by (simp_all add: nothing_to_disable_def)

lemma disables_after:
  assumes "list_all (\<lambda>z. neutral kind (fst z)) ts"
  shows "disables kind (ts @ tr) = disables kind tr" "sr_detail a \<in> nothing_to_disable \<Longrightarrow> disables kind ts (Inr a)"
  using assms by (auto simp: fun_eq_iff disables_def sets_def sets_only_def list_ex_iff list_all_iff split: sum.split)

lemma find_neutral:
  "sends (neutral GITEA) (gitea_find_user c n)"
  "sends (neutral GITLAB) (gitlab_find_user c n)"
  "sends (neutral IMMICH) (immich_find_user c n)"
  "sends (neutral NPM) (npm_find_user c n)"
proof -
  have pages: "sends (neutral GITEA) (gitea_pages c limit ps acc)" for limit ps acc
    by (induction ps arbitrary: acc) (auto simp: gitea_page_def client_defs intro!: sends_bindR)
  show "sends (neutral GITEA) (gitea_find_user c n)"
    by (auto simp: gitea_find_user_def gitea_users_def intro!: sends_bindR pages)
qed (auto simp: gitlab_find_user_def immich_find_user_def immich_users_def npm_find_user_def npm_users_def client_defs
    intro!: sends_bindR split: json.splits)

lemma disabling_requests [simp]:
  "body_member ''prohibit_login'' (hr_body q) = Some (JBool True) \<Longrightarrow> status_set GITEA q = Some ''disabled''"
  "body_member ''is_disabled'' (hr_body q) = Some (JBool True) \<Longrightarrow> status_set NPM q = Some ''disabled''"
  "hr_method q = ''DELETE'' \<Longrightarrow> body_member ''force'' (hr_body q) = Some (JBool False) \<Longrightarrow>
     status_set IMMICH q = Some ''disabled''"
  "hr_method q = ''POST'' \<Longrightarrow> hr_body q = NoBody \<Longrightarrow> ends_with ''/block'' (hr_path q) \<Longrightarrow>
     status_set GITLAB q = Some ''disabled''"
  by (simp_all add: status_set_def flag_status_def action_status_def)

lemma gitea_disables: "wp (gitea_disable_user txt t u) (disables GITEA)"
  unfolding gitea_disable_user_def Let_def wp_rules
  by (rule wp_sends [OF find_neutral(1)])
    (auto simp: wp_rules disables_after gitea_failure_def gitea_update_def client_defs Let_def split: sum.splits option.splits)

lemma ends_with_block: "ends_with ''/block'' (cat [''/users/'', s, ''/block''])"
  using ends_with_tail [of "''/block''" "''/users/'' @ s" "''/block''"] by (simp add: cat_def starts_with_def)

lemma gitlab_disables: "wp (gitlab_disable_user txt t u) (disables GITLAB)"
  unfolding gitlab_disable_user_def Let_def wp_rules
  by (rule wp_sends [OF find_neutral(2)])
    (auto simp: wp_rules disables_after gitlab_failure_def gitlab_block_def gitlab_post_def gitlab_user_path_def
      bind_sum_def ends_with_block client_defs Let_def split: sum.splits option.splits)

lemma immich_disables: "wp (immich_disable_user txt t u) (disables IMMICH)"
  unfolding immich_disable_user_def Let_def wp_rules
  by (rule wp_sends [OF find_neutral(3)])
    (auto simp: wp_rules disables_after immich_failure_def immich_remove_def immich_user_path_def client_defs Let_def
      split: sum.splits option.splits)

lemma npm_disables: "wp (npm_disable_user t u) (disables NPM)"
proof -
  have token: "sends (neutral NPM) (npm_authenticate t)"
    by (auto simp: npm_authenticate_def client_defs status_set_def flag_status_def Let_def intro!: sends_bindR)
  have work: "wp (npm_disable_work u c) (disables NPM)" for c
    unfolding npm_disable_work_def Let_def wp_rules
    by (rule wp_sends [OF find_neutral(4)])
      (auto simp: wp_rules disables_after npm_put_def npm_user_path_def npm_disabled_payload_def bind_sum_def client_defs
        Let_def split: sum.splits option.splits)
  show ?thesis
    unfolding npm_disable_user_def npm_session_def wp_rules
    by (rule wp_sends [OF token])
      (auto simp: wp_rules disables_after intro!: wp_mono [OF work] split: sum.splits)
qed

section \<open>Properties\<close>

definition expired_user :: ManagedUser where
  "expired_user = sample_user\<lparr>u_password_decision_kind := PD_EXPIRED\<rparr>"





text \<open>C36: Observation changes nothing.  Whatever a target answers, the inspection of an account and the discovery of
  accounts send only requests that read, to the configured address with the configured check of its certificate.\<close>

theorem observation_changes_nothing:
  assumes "adapter_for txt kind target_id vpn t = Some A"
    and "performs (op_inspect A u memberships) tr r" "performs (op_discover A) ts d"
  shows "list_all (\<lambda>q. to_target t q \<and> reading_of kind q) (map fst (tr @ ts))"
proof -
  note law = adapter_for_lawful [OF assms(1)]
  show ?thesis
    using adapter.inspection_reads [OF law assms(2)] adapter.discovery_reads [OF law assms(3)]
    by (auto simp: list_all_iff)
qed

theorem observation_changes_nothing_witness:
  "\<exists>tr ts. map fst (tr @ ts) \<noteq> [] \<and> list_all npm_reads (map fst (tr @ ts)) \<and>
     performs (op_discover (npm_adapter sample_target)) ts (Inr (accounts_discovered []))"
proof -
  let ?A = "npm_adapter sample_target"
  have "snd (snd (execute answering (op_discover ?A)
      [json_answer 200 (JObject [(''token'', JText ''t'')]), json_answer 200 (JArray [])])) = Inr (accounts_discovered [])"
    by code_simp
  then obtain ts where ts: "performs (op_discover ?A) ts (Inr (accounts_discovered []))"
    by (rule execute_result)
  obtain tr r where tr: "performs (op_inspect ?A sample_user {}) tr r"
    by (metis execute_result)
  have "list_all (\<lambda>q. to_target sample_target q \<and> reading_of NPM q) (map fst (tr @ ts))"
    using observation_changes_nothing [of "\<lambda>_. []" NPM "[]" None sample_target ?A sample_user "{}" tr r ts] tr ts
    by (simp add: adapter_for_def)
  moreover have "ts \<noteq> []"
    using ts by (auto simp: npm_adapter_def npm_discover_accounts_def npm_authenticate_def except_def client_defs send_def Let_def)
  ultimately show ?thesis using ts by (intro exI [of _ tr] exI [of _ ts]) (auto simp: reading_of_def list_all_iff)
qed

text \<open>Errors of the HTTP client stay inside.  An exception that escapes a method of a connector, changing or
  observing, is never one of the HTTP client: timeouts, refused connections and error statuses become results.\<close>

theorem client_errors_are_contained:
  assumes "adapter_for txt kind target_id vpn t = Some A"
    and "performs (mutate A m) tr (Inl e) \<or> performs (op_probe A) tr (Inl e) \<or>
      performs (op_inspect A u memberships) tr (Inl e) \<or> performs (op_discover A) tr (Inl e)"
  shows "\<not> is_http_error e"
proof -
  note law = adapter_for_lawful [OF assms(1)]
  show ?thesis
    using assms(2) adapter.mutation_contains_errors [OF law mutation_of_adapter [OF law]]
      adapter.observation_contains_errors [OF law] by blast
qed

definition proxy_page :: HttpResponse where
  "proxy_page = \<lparr>hp_status = 200, hp_text = ''<html>sign in</html>'', hp_json = None\<rparr>"

theorem client_errors_are_contained_witness:
  "\<exists>tr. performs (mutate (nexus_adapter (\<lambda>_. []) sample_target) (Delete sample_user)) tr (Inr (sync_result False ''nexus http error: '')) \<and>
     (\<forall>m e ts. \<not> (performs (mutate (nexus_adapter (\<lambda>_. []) sample_target) m) ts (Inl e) \<and> is_http_error e))"
proof -
  let ?A = "nexus_adapter (\<lambda>_. []) sample_target"
  have "snd (snd (execute answering (mutate ?A (Delete sample_user)) [])) = Inr (sync_result False ''nexus http error: '')"
    by code_simp
  then obtain tr where "performs (mutate ?A (Delete sample_user)) tr (Inr (sync_result False ''nexus http error: ''))"
    by (rule execute_result)
  moreover have "\<not> (performs (mutate ?A m) ts (Inl e) \<and> is_http_error e)" for m e ts
    using client_errors_are_contained [of "\<lambda>_. []" NEXUS "[]" None sample_target ?A m ts e]
    by (auto simp: adapter_for_def)
  ultimately show ?thesis by blast
qed

text \<open>An answer that is not JSON escapes.  The methods of the Nexus and OPNsense connectors that save an account handle
  only the exceptions of the HTTP client.  When the target answers the first request successfully with something that is not JSON,
  such as the page of a proxy, the exception of the decoder leaves the connector.\<close>

theorem unparseable_answer_escapes:
  assumes "adapter_for txt kind target_id vpn t = Some A" "kind \<in> {NEXUS, OPNSENSE}"
    and "is_success p" "hp_json p = None"
  shows "\<exists>q. performs (mutate A (Ensure u password memberships)) [(q, Answered p)] (Inl (ValueError ''JSONDecodeError''))"
  using assms
  by (auto simp: adapter_for_def nexus_adapter_def opnsense_adapter_def nexus_ensure_user_for_assignment_def
      opnsense_ensure_user_for_assignment_def nexus_find_user_def opnsense_find_uuid_def opnsense_find_user_def except_def
      client_defs send_def raise_for_status_def response_json_def Let_def is_http_error_def)

theorem unparseable_answer_escapes_witness:
  "\<exists>q. performs (mutate (nexus_adapter (\<lambda>_. []) sample_target) (Ensure sample_user None {})) [(q, Answered proxy_page)]
     (Inl (ValueError ''JSONDecodeError''))"
  using unparseable_answer_escapes [of "\<lambda>_. []" NEXUS "[]" None sample_target "nexus_adapter (\<lambda>_. []) sample_target"
      proxy_page sample_user None "{}"]
  by (simp add: adapter_for_def proxy_page_def is_success_def in_range_def)

text \<open>A refused lookup counts as a deletion.  Before it deletes an account the Nextcloud connector looks it up, and any
  code of the answer other than 100 makes it report the account as already absent: also the codes for an
  administrator without the permission, or an error of the server.  It succeeds and sends nothing more.\<close>

theorem rejected_lookup_counts_as_deleted:
  assumes "is_success p" "hp_json p = Some v" "ocs_meta v = Inr (code, message)" "code \<noteq> 100"
  shows "\<exists>q. performs (mutate (nextcloud_adapter txt t) (Delete u)) [(q, Answered p)]
    (Inr (sync_result True ''already absent'')) \<and> hr_method q = ''GET''"
  using assms
  by (auto simp: nextcloud_adapter_def nextcloud_delete_user_def except_def ocs_def
      client_defs send_def raise_for_status_def response_json_def Let_def)

theorem rejected_lookup_counts_as_deleted_witness:
  "\<exists>q v. performs (mutate (nextcloud_adapter (\<lambda>_. []) sample_target) (Delete sample_user))
     [(q, Answered \<lparr>hp_status = 200, hp_text = [], hp_json = Some v\<rparr>)] (Inr (sync_result True ''already absent''))"
proof -
  let ?v = "JObject [(''ocs'', JObject [(''meta'', JObject [(''statuscode'', JInt 997), (''message'', JText ''not permitted'')])])]"
  have "ocs_meta ?v = Inr (997, ''not permitted'')" by code_simp
  then show ?thesis
    using rejected_lookup_counts_as_deleted [of "\<lparr>hp_status = 200, hp_text = [], hp_json = Some ?v\<rparr>" ?v 997 "''not permitted''"
        "\<lambda>_. []" sample_target sample_user] by (auto simp: is_success_def in_range_def)
qed

end
