(* ===== verification/Spec2Isabelle.thy ===== *)
theory Spec2Isabelle
  imports Prelude Lifecycle Permissions Models Config Database Reconciliation Connectors Session
    Samples AuditTrail Notifications Operations Intents Sync TargetCredentials Security Mfa Auth Users
    ServiceAccounts Json ApiContract Background Reconcile SshKeys RequestSecurity Governance
    Csv Bulk Paging Unmanaged Inventory AuditQuery Api Assignments Dashboard
    Remote Http Gitea Gitlab Immich Jenkins Nexus Npm Nextcloud Opnsense Ssh Targets
begin

text \<open>
  A verification development for NA-SSO (\<open>src/na_sso\<close>), a console from which operators manage the
  accounts of people on a number of targets (Gitea, GitLab, Nextcloud, SSH hosts, and others).

  \<^bold>\<open>The program.\<close>  Requests of the console are handlers of FastAPI: each opens a session on a SQLite
  database, checks the session cookie and the permissions of its principal (\<open>auth.permission_guard\<close>), changes
  rows, records an audit event, commits, and may start a background task.  A change of an account
  requests a lifecycle operation (\<open>operations.request_operation\<close>, decided by
  \<open>lifecycle.decide_transition\<close>) and marks the states of the account's targets; the task then runs
  \<open>sync.sync_user\<close>, which calls the connector of every target in scope, records an attempt and a state per
  target, and settles the operation.  Timers retry failed targets, expire passwords and SSH keys, deliver
  notifications, inspect targets for drift and apply lifecycle policies.  A second interface
  (\<open>api.py\<close>, \<open>api_contract.py\<close>) serves scripts that authenticate with service tokens.

  \<^bold>\<open>How it is modelled.\<close>  The database is a record of tables (\<open>Database.db\<close>), a table the list of its rows in
  insertion order, a row a record with the fields of its mapped class (\<open>Models\<close>).  A handler is a function of
  the environment, its arguments and the committed database to its response, the tasks it starts and the
  database it has committed; a handler that leaves without a commit returns the database it was given.  What
  ends in an exception is a value: \<open>Inl\<close> of a text where the code catches it, \<open>Raised\<close> of its name and the last committed
  database (\<open>Sync.outcome\<close>) where it does not.  The environment (\<open>Connectors.Env\<close>) holds the clock,
  the settings, and what is not code of the repository: hashing and encryption, random draws, parsers of
  dates and SSH keys, HTTP and SMTP exchanges, and the connectors' calls.  These are parameters; a theorem that
  needs something of them says so in a hypothesis, and its witness gives computable instances
  (\<open>Samples\<close>).  Remote calls take the counter \<open>tick\<close>, so a target may answer
  the same call differently each time.  Identifiers drawn by \<open>uuid4\<close> are the values of that counter.

  \<^bold>\<open>The theories\<close> follow the modules of \<open>src/na_sso\<close>.
  \<^item> \<open>Prelude\<close>: Python text functions, row operations and the locale \<open>keyed_rows\<close>, which every table
    interprets.  \<open>Models\<close>, \<open>Config\<close>, \<open>Database\<close>: \<open>models.py\<close>, \<open>config.py\<close>, the tables.
  \<^item> \<open>Lifecycle\<close>, \<open>Permissions\<close>, \<open>Operations\<close>, \<open>Sync\<close>: \<open>lifecycle.py\<close>,
    \<open>permissions.py\<close>, \<open>operations.py\<close>, \<open>sync.py\<close>, the core.  Lemmas: the decision table, the invariant
    that a user has one unfinished operation at most (\<open>operations_inv\<close>), the frame of a call to a target
    (\<open>target_step\<close>), what a run settles and when it may complete a deletion.
  \<^item> \<open>Background\<close>: the locale \<open>run_relation\<close>, whose assumptions are the steps a run is made of and whose
    lemmas carry a relation over the whole run; it is interpreted for the tables a run does not write, the counter, the
    distinctness of the states and the accounts.
  \<^item> \<open>Connectors\<close>, \<open>Reconciliation\<close>, \<open>Reconcile\<close>, \<open>Intents\<close>: \<open>connectors/base.py\<close>,
    \<open>reconciliation.py\<close> (the comparison of a desired and an observed identity), \<open>reconcile.py\<close>
    (previews, approvals, repairs, schedule), the assignment intents of \<open>assignments.py\<close>.
  \<^item> \<open>Session\<close>, \<open>Auth\<close>, \<open>Security\<close>, \<open>Mfa\<close>, \<open>RequestSecurity\<close>: the guard, login and password
    handlers of \<open>auth.py\<close>, \<open>security.py\<close>, \<open>mfa.py\<close>, \<open>request_security.py\<close>.
  \<^item> \<open>Users\<close>, \<open>SshKeys\<close>, \<open>TargetCredentials\<close>, \<open>ServiceAccounts\<close>, \<open>Governance\<close>,
    \<open>Notifications\<close>, \<open>AuditTrail\<close>: the administration modules of the same names, \<open>governance.py\<close>,
    \<open>notifications.py\<close> and \<open>audit.py\<close> with \<open>audit_retention.py\<close>.
  \<^item> \<open>Json\<close>, \<open>ApiContract\<close>: the JSON texts the automation interface stores, and \<open>api_contract.py\<close>.
  \<^item> \<open>Csv\<close>, \<open>Bulk\<close>: the reader and writer of the CSV dialect with the UTF-8 decoder, and \<open>bulk.py\<close>
    (previews, executions and runs of imports, downloads).  Lemmas: the reader finds what the writer wrote, and \<open>bulk_step\<close>, the frame
    of everything an execution does to the records of imports.
  \<^item> \<open>Unmanaged\<close>: \<open>unmanaged.py\<close>, discovery and the decisions about findings.
  \<^item> \<open>Paging\<close>, \<open>Inventory\<close>, \<open>AuditQuery\<close>: query strings, patterns and the locale \<open>paged_list\<close>, which the
    list of accounts of \<open>inventory.py\<close> and the trail of \<open>audit_query.py\<close> with the handlers of \<open>audit.py\<close> interpret.  Lemmas: the
    pages are the list, and what the SQL computes is what the items show.
  \<^item> \<open>Api\<close>: the requests of \<open>api.py\<close>, each behind the guard, the changing ones under an idempotency key.
  \<^item> \<open>Remote\<close>: programs that talk to a system outside the repository, as values with the constructors Result, Raise and Call;
    \<open>performs\<close> is the relation between a program, the exchanges of a run and its outcome, \<open>wp\<close> its
    weakest precondition over all answers, \<open>execute\<close> plays it against a given target for the witnesses.
  \<^item> \<open>Http\<close>: requests, responses and exceptions of the HTTP client, the Python operations on decoded JSON, and the locale
    \<open>adapter\<close> with the laws of a connector: a changing method that reports success had its changes confirmed, a
    reading method only reads, both talk to the configured target only and let no error of the client escape.
  \<^item> \<open>Gitea\<close>, \<open>Gitlab\<close>, \<open>Immich\<close>, \<open>Jenkins\<close>, \<open>Nexus\<close>, \<open>Npm\<close>, \<open>Nextcloud\<close>, \<open>Opnsense\<close>: the classes of
    \<open>connectors\<close>, method by method, each with its interpretation of \<open>adapter\<close>; the last one with the discovery of OpenVPN,
    the provisioning, revocation and export of client certificates.  \<open>Ssh\<close>: the commands of \<open>connectors/ssh.py\<close> and the quoting of the shell.
    The loop of Gitea over the pages has the bound of the code, 20.
  \<^item> \<open>Targets\<close>: the table of the connectors and what they promise as one family: what a disable leaves at each of them.

  \<^bold>\<open>Termination and fuel.\<close>  Loops over rows are structural.  The redaction of credentials in URLs is a
  \<open>function\<close> with a measure on the text.  The JSON reader of \<open>Json\<close> takes fuel; \<open>loads\<close> gives it twice the length of
  the text, and \<open>loads_dumps\<close> shows that this is enough for every text the program writes.  The
  sleeping loops of the workers are left out: a worker is modelled by the body of its loop.

  \<^bold>\<open>Not modelled.\<close>  The targets and the HTTP and SSH libraries: a connector is a program over every answer they can give.  An exception that
  leaves a connector is not propagated into the model of synchronisation, whose connectors give a result for every call.
  Numbers of JSON with a fraction, the mock targets of the test bed, templates and static pages, the SMTP exchange, the reading of YAML and
  environment variables, the command line.  Texts are lists of bytes, so a length in characters is a length in
  bytes for texts outside ASCII.  Handlers run one after the other: the interleaving of two requests inside
  SQLite is not modelled, and neither is a failure of the database.
\<close>

end
